(* ===== verification/Prelude.thy ===== *)
theory Prelude
  imports Main "HOL-Library.Word"
begin

text \<open>
  Shared vocabulary of the development: Rust's \<open>Result\<close> as a sum type with the
  \<open>?\<close> operator as \<open>and_then\<close>, \<open>for\<close> loops whose body may fail, and the checked
  and saturating integer operations of the Rust core library on machine words.
  The lemmas turn every successful checked operation into an equation between
  natural numbers, so that the accounting proofs are linear arithmetic.
\<close>

section \<open>Collections of facts\<close>

named_theorems result_simps \<open>inversion of successful and failed results\<close>
named_theorems amount_simps \<open>checked arithmetic as equations between naturals\<close>

section \<open>Results\<close>

text \<open>
  \<open>'e + 'a\<close> is Rust's \<open>Result<'a, 'e>\<close>: \<open>Inl\<close> is \<open>Err\<close>, \<open>Inr\<close> is \<open>Ok\<close>.
  \<open>and_then m f\<close> is \<open>let x = m?; f(x)\<close>.
\<close>

definition and_then :: "'e + 'a \<Rightarrow> ('a \<Rightarrow> 'e + 'b) \<Rightarrow> 'e + 'b" where
  "and_then m f = (case m of Inl e \<Rightarrow> Inl e | Inr x \<Rightarrow> f x)"

definition ok_or :: "'a option \<Rightarrow> 'e \<Rightarrow> 'e + 'a" where
  "ok_or x e = (case x of None \<Rightarrow> Inl e | Some y \<Rightarrow> Inr y)"

definition map_err :: "('e \<Rightarrow> 'f) \<Rightarrow> 'e + 'a \<Rightarrow> 'f + 'a" where
  "map_err g m = (case m of Inl e \<Rightarrow> Inl (g e) | Inr x \<Rightarrow> Inr x)"

definition is_ok :: "'e + 'a \<Rightarrow> bool" where
  "is_ok m = (case m of Inl _ \<Rightarrow> False | Inr _ \<Rightarrow> True)"

text \<open>A \<open>for\<close> loop over a list whose body may leave early with an error.\<close>

fun for_each :: "('a \<Rightarrow> 's \<Rightarrow> 'e + 's) \<Rightarrow> 'a list \<Rightarrow> 's \<Rightarrow> 'e + 's" where
  "for_each body [] s = Inr s"
| "for_each body (x # xs) s = and_then (body x s) (for_each body xs)"

lemma and_then_simps [simp]:
  "and_then (Inl e) f = Inl e"
  "and_then (Inr x) f = f x"
  by (simp_all add: and_then_def)

lemma and_then_Inr [result_simps]:
  "and_then m f = Inr y \<longleftrightarrow> (\<exists>x. m = Inr x \<and> f x = Inr y)"
  by (cases m) auto

lemma and_then_Inl [result_simps]:
  "and_then m f = Inl e \<longleftrightarrow> m = Inl e \<or> (\<exists>x. m = Inr x \<and> f x = Inl e)"
  by (cases m) auto

lemma ok_or_simps [simp]:
  "ok_or None e = Inl e"
  "ok_or (Some x) e = Inr x"
  by (simp_all add: ok_or_def)

lemma ok_or_Inr [result_simps]: "ok_or x e = Inr y \<longleftrightarrow> x = Some y"
  by (cases x) auto

lemma ok_or_Inl [result_simps]: "ok_or x e = Inl f \<longleftrightarrow> x = None \<and> e = f"
  by (cases x) auto

lemma map_err_simps [simp]:
  "map_err g (Inl e) = Inl (g e)"
  "map_err g (Inr x) = Inr x"
  by (simp_all add: map_err_def)

lemma map_err_Inr [result_simps]: "map_err g m = Inr y \<longleftrightarrow> m = Inr y"
  by (cases m) auto

lemma map_err_Inl [result_simps]: "map_err g m = Inl f \<longleftrightarrow> (\<exists>e. m = Inl e \<and> g e = f)"
  by (cases m) auto

lemma is_ok_simps [simp]: "is_ok (Inl e) = False" "is_ok (Inr x) = True"
  by (simp_all add: is_ok_def)

lemma is_ok_iff: "is_ok m \<longleftrightarrow> (\<exists>x. m = Inr x)"
  by (cases m) auto

lemma if_Inl_Inr [result_simps]:
  "(if c then Inl e else r) = Inr y \<longleftrightarrow> \<not> c \<and> r = Inr y"
  by simp

lemma and_then_cong [fundef_cong]:
  "m = m' \<Longrightarrow> (\<And>x. m' = Inr x \<Longrightarrow> f x = g x) \<Longrightarrow> and_then m f = and_then m' g"
  by (cases m') auto

text \<open>A loop whose body never fails on states that satisfy an invariant runs to its end.\<close>

lemma for_each_append:
  "for_each body (xs @ ys) s = and_then (for_each body xs s) (for_each body ys)"
  by (induction xs arbitrary: s) (auto simp: and_then_def split: sum.splits)

lemma for_each_invariant:
  assumes "for_each body xs s = Inr t" "P s"
    and "\<And>x s t. x \<in> set xs \<Longrightarrow> P s \<Longrightarrow> body x s = Inr t \<Longrightarrow> P t"
  shows "P t"
  using assms by (induction xs arbitrary: s) (auto simp: result_simps)

section \<open>Checked and saturating machine arithmetic\<close>

type_synonym u8 = "8 word"
type_synonym u16 = "16 word"
type_synonym u32 = "32 word"
type_synonym u64 = "64 word"
type_synonym u128 = "128 word"
type_synonym bytes32 = "256 word"

definition checked_add_word :: "'a::len word \<Rightarrow> 'a word \<Rightarrow> 'a word option" where
  "checked_add_word a b = (if unat a + unat b < 2 ^ LENGTH('a) then Some (a + b) else None)"

definition checked_sub_word :: "'a::len word \<Rightarrow> 'a word \<Rightarrow> 'a word option" where
  "checked_sub_word a b = (if b \<le> a then Some (a - b) else None)"

definition checked_mul_word :: "'a::len word \<Rightarrow> 'a word \<Rightarrow> 'a word option" where
  "checked_mul_word a b = (if unat a * unat b < 2 ^ LENGTH('a) then Some (a * b) else None)"

definition saturating_add_word :: "'a::len word \<Rightarrow> 'a word \<Rightarrow> 'a word" where
  "saturating_add_word a b = (if unat a + unat b < 2 ^ LENGTH('a) then a + b else - 1)"

definition saturating_sub_word :: "'a::len word \<Rightarrow> 'a word \<Rightarrow> 'a word" where
  "saturating_sub_word a b = (if b \<le> a then a - b else 0)"

text \<open>Evaluation compares integers, whose representation is binary.\<close>

lemma unat_sum_code: "unat a + unat b < 2 ^ n \<longleftrightarrow> uint a + uint b < 2 ^ n"
  by (simp add: unat_eq_nat_uint nat_add_distrib [symmetric] nat_less_iff del: nat_uint_eq)

lemma unat_prod_code: "unat a * unat b < 2 ^ n \<longleftrightarrow> uint a * uint b < 2 ^ n"
  by (simp add: unat_eq_nat_uint nat_mult_distrib [symmetric] nat_less_iff del: nat_uint_eq)

lemma checked_word_code [code]:
  "checked_add_word (a :: 'a::len word) b = (if uint a + uint b < 2 ^ LENGTH('a) then Some (a + b) else None)"
  "checked_mul_word (a :: 'a::len word) b = (if uint a * uint b < 2 ^ LENGTH('a) then Some (a * b) else None)"
  "saturating_add_word (a :: 'a::len word) b = (if uint a + uint b < 2 ^ LENGTH('a) then a + b else - 1)"
  by (simp_all add: checked_add_word_def checked_mul_word_def saturating_add_word_def
      unat_sum_code unat_prod_code)

lemma unat_max_word: "unat (- 1 :: 'a::len word) = 2 ^ LENGTH('a) - 1"
  by (simp add: unsigned_minus_1_eq_mask mask_eq_exp_minus_1)

lemma word_eq_unat: "a = b \<longleftrightarrow> unat a = unat b" for a b :: "'a::len word"
  by (rule word_unat_eq_iff)

lemma unat_below [simp]: "unat (a :: 'a::len word) < 2 ^ LENGTH('a)"
  by (rule unsigned_less)

lemma checked_add_word_Some [amount_simps]:
  "checked_add_word a b = Some c \<longleftrightarrow> unat c = unat a + unat b"
proof
  assume "checked_add_word a b = Some c"
  then show "unat c = unat a + unat b"
    by (auto simp: checked_add_word_def unat_word_ariths split: if_splits)
next
  assume c: "unat c = unat a + unat b"
  then have "unat a + unat b < 2 ^ LENGTH('a)"
    using unat_below [of c] by simp
  moreover from this c have "a + b = c"
    by (simp add: word_eq_unat unat_word_ariths)
  ultimately show "checked_add_word a b = Some c"
    by (simp add: checked_add_word_def)
qed

lemma checked_add_word_None [amount_simps]:
  "checked_add_word (a :: 'a::len word) b = None \<longleftrightarrow> 2 ^ LENGTH('a) \<le> unat a + unat b"
  by (auto simp: checked_add_word_def)

lemma checked_sub_word_Some [amount_simps]:
  "checked_sub_word a b = Some c \<longleftrightarrow> unat a = unat b + unat c"
proof
  assume "checked_sub_word a b = Some c"
  then show "unat a = unat b + unat c"
    by (auto simp: checked_sub_word_def word_le_nat_alt unat_sub split: if_splits)
next
  assume a: "unat a = unat b + unat c"
  then have "b \<le> a" by (simp add: word_le_nat_alt)
  moreover from this a have "a - b = c"
    by (simp add: word_eq_unat unat_sub)
  ultimately show "checked_sub_word a b = Some c"
    by (simp add: checked_sub_word_def)
qed

lemma checked_sub_word_None [amount_simps]:
  "checked_sub_word a b = None \<longleftrightarrow> unat a < unat b"
  by (auto simp: checked_sub_word_def word_le_nat_alt)

lemma checked_mul_word_Some [amount_simps]:
  "checked_mul_word a b = Some c \<longleftrightarrow> unat c = unat a * unat b"
proof
  assume "checked_mul_word a b = Some c"
  then show "unat c = unat a * unat b"
    by (auto simp: checked_mul_word_def unat_word_ariths split: if_splits)
next
  assume c: "unat c = unat a * unat b"
  then have "unat a * unat b < 2 ^ LENGTH('a)"
    using unat_below [of c] by simp
  moreover from this c have "a * b = c"
    by (simp add: word_eq_unat unat_word_ariths)
  ultimately show "checked_mul_word a b = Some c"
    by (simp add: checked_mul_word_def)
qed

lemma unat_saturating_add_word [amount_simps]:
  "unat (saturating_add_word (a :: 'a::len word) b) = min (unat a + unat b) (2 ^ LENGTH('a) - 1)"
  by (auto simp: saturating_add_word_def unat_word_ariths unat_max_word min_def
      simp del: add_is_0)

lemma unat_saturating_sub_word [amount_simps]:
  "unat (saturating_sub_word a b) = unat a - unat b"
  by (auto simp: saturating_sub_word_def word_le_nat_alt unat_sub)

lemma unat_zero_iff [amount_simps]: "unat a = 0 \<longleftrightarrow> a = 0"
  by (simp add: unat_eq_zero)

lemma unat_of_nat_below: "n < 2 ^ LENGTH('a) \<Longrightarrow> unat (of_nat n :: 'a::len word) = n"
  by (simp add: unat_of_nat)

lemma of_nat_eq_word:
  "n < 2 ^ LENGTH('a) \<Longrightarrow> (of_nat n :: 'a::len word) = q \<longleftrightarrow> unat q = n"
  by (auto simp: word_eq_unat unat_of_nat_below)

lemma word_is_of_nat: "unat q = n \<Longrightarrow> (q :: 'a::len word) = of_nat n"
  by auto

end
