(* ===== verification/BTree_Map.thy ===== *)
theory BTree_Map
  imports Prelude
begin

text \<open>
  Rust's \<open>BTreeMap\<close>, as the accounting model uses it: a finite map that iterates in
  key order. The model is the sequence of its entries with strictly increasing keys;
  \<open>insert\<close>, \<open>get\<close>, \<open>contains_key\<close>, \<open>values\<close> and \<open>range\<close> are the operations the
  sources call. The locale \<open>ordered_map\<close> states what the clients rely on; sums over
  all entries and quantification over all entries are proved once from its laws.
\<close>

section \<open>The interface\<close>

locale ordered_map =
  fixes entries :: "'m \<Rightarrow> ('k::linorder \<times> 'v) list"
    and lookup :: "'m \<Rightarrow> 'k \<Rightarrow> 'v option"
    and put :: "'k \<Rightarrow> 'v \<Rightarrow> 'm \<Rightarrow> 'm"
    and wf_map :: "'m \<Rightarrow> bool"
  assumes entries_sorted: "wf_map m \<Longrightarrow> sorted_wrt (<) (map fst (entries m))"
    and entries_lookup: "wf_map m \<Longrightarrow> map_of (entries m) = lookup m"
    and lookup_put: "wf_map m \<Longrightarrow> lookup (put k v m) = (lookup m)(k \<mapsto> v)"
    and wf_put: "wf_map m \<Longrightarrow> wf_map (put k v m)"
begin

lemma entries_distinct: "wf_map m \<Longrightarrow> distinct (map fst (entries m))"
  by (drule entries_sorted) (simp add: strict_sorted_iff)

lemma in_entries: "wf_map m \<Longrightarrow> (k, v) \<in> set (entries m) \<longleftrightarrow> lookup m k = Some v"
  using entries_distinct [of m] entries_lookup [of m] by (metis map_of_eq_Some_iff)

lemma set_entries_put:
  assumes "wf_map m"
  shows "set (entries (put k v m)) = insert (k, v) {p \<in> set (entries m). fst p \<noteq> k}"
  using assms by (auto simp: in_entries wf_put lookup_put split: if_splits)

lemma sum_entries:
  assumes "wf_map m"
  shows "sum_list (map f (entries m)) = sum f (set (entries m))"
  using entries_distinct [OF assms] by (simp add: sum_list_distinct_conv_sum_set distinct_map)

text \<open>Putting a key replaces exactly its own contribution to a sum over all entries.\<close>

lemma sum_put:
  fixes f :: "'k \<times> 'v \<Rightarrow> nat"
  assumes "wf_map m"
  shows "sum_list (map f (entries (put k v m))) +
      (case lookup m k of None \<Rightarrow> 0 | Some old \<Rightarrow> f (k, old)) =
    sum_list (map f (entries m)) + f (k, v)"
proof -
  let ?rest = "{p \<in> set (entries m). fst p \<noteq> k}"
  have new: "sum_list (map f (entries (put k v m))) = f (k, v) + sum f ?rest"
    using assms by (simp add: sum_entries wf_put set_entries_put)
  have old: "sum_list (map f (entries m)) =
      (case lookup m k of None \<Rightarrow> 0 | Some w \<Rightarrow> f (k, w)) + sum f ?rest"
  proof (cases "lookup m k")
    case None
    then have "?rest = set (entries m)" using assms by (auto simp: in_entries)
    then show ?thesis using None assms by (simp add: sum_entries)
  next
    case (Some w)
    then have "set (entries m) = insert (k, w) ?rest" using assms by (auto simp: in_entries)
    then have "sum f (set (entries m)) = f (k, w) + sum f ?rest"
      by (metis (mono_tags, lifting) List.finite_set finite_insert fst_conv mem_Collect_eq
          sum.insert)
    then show ?thesis using Some assms by (simp add: sum_entries)
  qed
  show ?thesis using new old by simp
qed

lemma ball_put:
  assumes "wf_map m"
  shows "(\<forall>p \<in> set (entries (put k v m)). Q p) \<longleftrightarrow>
    Q (k, v) \<and> (\<forall>p \<in> set (entries m). fst p \<noteq> k \<longrightarrow> Q p)"
  using assms by (auto simp: set_entries_put)

end

section \<open>The model: entries in increasing key order\<close>

type_synonym ('k, 'v) btree_map = "('k \<times> 'v) list"

definition bt_wf :: "('k::linorder, 'v) btree_map \<Rightarrow> bool" where
  "bt_wf m = sorted_wrt (<) (map fst m)"

definition bt_get :: "('k, 'v) btree_map \<Rightarrow> 'k \<Rightarrow> 'v option" where
  "bt_get m k = map_of m k"

definition bt_contains :: "('k, 'v) btree_map \<Rightarrow> 'k \<Rightarrow> bool" where
  "bt_contains m k = (bt_get m k \<noteq> None)"

fun bt_insert :: "'k::linorder \<Rightarrow> 'v \<Rightarrow> ('k, 'v) btree_map \<Rightarrow> ('k, 'v) btree_map" where
  "bt_insert k v [] = [(k, v)]"
| "bt_insert k v (e # m) =
     (if fst e < k then e # bt_insert k v m
      else if fst e = k then (k, v) # m
      else (k, v) # e # m)"

definition bt_range :: "'k::linorder \<Rightarrow> 'k \<Rightarrow> ('k, 'v) btree_map \<Rightarrow> ('k \<times> 'v) list" where
  "bt_range lo hi m = filter (\<lambda>e. lo \<le> fst e \<and> fst e \<le> hi) m"

definition bt_values :: "('k, 'v) btree_map \<Rightarrow> 'v list" where
  "bt_values m = map snd m"

lemma bt_get_insert: "bt_wf m \<Longrightarrow> bt_get (bt_insert k v m) = (bt_get m)(k \<mapsto> v)"
proof (induction m)
  case Nil
  then show ?case by (simp add: bt_get_def fun_eq_iff)
next
  case (Cons e m)
  then have IH: "map_of (bt_insert k v m) = (map_of m)(k \<mapsto> v)"
    by (simp add: bt_wf_def bt_get_def fun_eq_iff)
  then show ?case
    by (cases e) (auto simp: bt_get_def fun_eq_iff)
qed

lemma bt_insert_keys: "fst ` set (bt_insert k v m) = insert k (fst ` set m)"
  by (induction m) auto

lemma bt_wf_insert: "bt_wf m \<Longrightarrow> bt_wf (bt_insert k v m)"
proof (induction m)
  case Nil
  then show ?case by (simp add: bt_wf_def)
next
  case (Cons e m)
  have "x \<in> insert k (fst ` set m)" if "x \<in> set (map fst (bt_insert k v m))" for x
    using that by (metis bt_insert_keys list.set_map)
  with Cons show ?case by (fastforce simp: bt_wf_def)
qed

interpretation bt: ordered_map "\<lambda>m. m" bt_get bt_insert bt_wf
  by unfold_locales (auto simp: bt_wf_def bt_get_def fun_eq_iff bt_get_insert [unfolded bt_get_def bt_wf_def]
      bt_wf_insert [unfolded bt_wf_def])

lemma bt_wf_Nil [simp]: "bt_wf []"
  by (simp add: bt_wf_def)

lemma bt_get_Nil [simp]: "bt_get [] k = None"
  by (simp add: bt_get_def)

declare bt_wf_insert [simp]

lemma bt_get_insert_simp [simp]:
  "bt_wf m \<Longrightarrow> bt_get (bt_insert k v m) k' = (if k' = k then Some v else bt_get m k')"
  by (simp add: bt_get_insert)

lemma bt_contains_insert [simp]:
  "bt_wf m \<Longrightarrow> bt_contains (bt_insert k v m) k' \<longleftrightarrow> k' = k \<or> bt_contains m k'"
  by (simp add: bt_contains_def)

lemma bt_get_in_set: "bt_get m k = Some v \<Longrightarrow> (k, v) \<in> set m"
  by (simp add: bt_get_def map_of_SomeD)

lemma bt_contains_iff: "bt_contains m k \<longleftrightarrow> k \<in> fst ` set m"
  by (auto simp: bt_contains_def bt_get_def map_of_eq_None_iff)

end
