(* ===== verification/Amounts.thy ===== *)
theory Amounts
  imports Prelude
begin

text \<open>
  Amounts, identifiers and rejections of the accounting model
  (\<open>crates/accounting-model/src/amount.rs\<close>, \<open>error.rs\<close>). The Rust newtypes carry
  their machine integer, so they are the words of the same width here. A
  \<open>TransferId\<close> is 32 opaque bytes, of which only equality and being zero are used;
  it is the 256-bit word with those bytes in big-endian order.
\<close>

section \<open>Rejections\<close>

datatype rejection =
    InvalidVaultState | EpochNotOpen | EpochAlreadyOpen | CutoffNotReached
  | EpochAlreadyCutOff | EpochNotCutOff | EpochAlreadyFinalized | EpochNotFinalized
  | EpochNotAborted | RequestNotFound | RequestAlreadyCancelled | RequestAlreadySettled
  | ClaimNotFound | ClaimAlreadyConsumed | CancellationAfterCutoff | ZeroAmount
  | AmountBelowMinimum | InsufficientAssetBalance | InsufficientShareBalance
  | InsufficientRedemptionLiquidity | ArithmeticOverflow | ArithmeticUnderflow
  | DivisionByZero | UnauthorizedActor | InvalidConfiguration | DuplicateAccount
  | TimestampNotMonotonic | ActiveTransferExists | NoActiveTransfer | TransferIdReused
  | InsufficientRemotePrincipal | InvalidRecallSentAmounts | RemoteValuationRequired
  | ValuationAlreadyFixed | AllocateNotAllowed | InvalidAssetAttribution
  | CloseAlreadyRequested | NoPendingSettlement | NothingToRecover | SettlementMismatch

section \<open>Messages\<close>

fun rejection_message :: "rejection \<Rightarrow> string" where
  "rejection_message InvalidVaultState = ''operation is not allowed in the current vault state''"
| "rejection_message EpochNotOpen = ''no epoch is open''"
| "rejection_message EpochAlreadyOpen = ''an epoch is already open''"
| "rejection_message CutoffNotReached = ''cutoff timestamp has not been reached''"
| "rejection_message EpochAlreadyCutOff = ''epoch is already cut off''"
| "rejection_message EpochNotCutOff = ''epoch has not been cut off''"
| "rejection_message EpochAlreadyFinalized = ''epoch already has a settled outcome''"
| "rejection_message EpochNotFinalized = ''epoch is not finalized''"
| "rejection_message EpochNotAborted = ''epoch is not aborted''"
| "rejection_message RequestNotFound = ''request does not exist''"
| "rejection_message RequestAlreadyCancelled = ''request is already cancelled''"
| "rejection_message RequestAlreadySettled = ''request is already settled''"
| "rejection_message ClaimNotFound = ''claim does not exist''"
| "rejection_message ClaimAlreadyConsumed = ''claim is already consumed''"
| "rejection_message CancellationAfterCutoff = ''cancellation is not allowed after cutoff''"
| "rejection_message ZeroAmount = ''amount must be greater than zero''"
| "rejection_message AmountBelowMinimum = ''amount is below the configured minimum''"
| "rejection_message InsufficientAssetBalance = ''asset balance is too low''"
| "rejection_message InsufficientShareBalance = ''share balance is too low''"
| "rejection_message InsufficientRedemptionLiquidity = ''redemption liquidity is too low''"
| "rejection_message ArithmeticOverflow = ''arithmetic overflow''"
| "rejection_message ArithmeticUnderflow = ''arithmetic underflow''"
| "rejection_message DivisionByZero = ''division by zero''"
| "rejection_message UnauthorizedActor = ''actor is not allowed to perform this operation''"
| "rejection_message InvalidConfiguration = ''configuration is invalid''"
| "rejection_message DuplicateAccount = ''an account appears more than once''"
| "rejection_message TimestampNotMonotonic = ''timestamp moves backwards''"
| "rejection_message ActiveTransferExists = ''an unresolved transfer cycle already exists''"
| "rejection_message NoActiveTransfer = ''no unresolved transfer cycle exists''"
| "rejection_message TransferIdReused = ''transfer id has already been used''"
| "rejection_message InsufficientRemotePrincipal = ''remote principal is too low''"
| "rejection_message InvalidRecallSentAmounts = ''recall sent amounts do not conserve principal''"
| "rejection_message RemoteValuationRequired = ''a post-cutoff remote valuation is required''"
| "rejection_message ValuationAlreadyFixed = ''remote valuation for this epoch is already fixed''"
| "rejection_message AllocateNotAllowed = ''a new allocation is not allowed in this state''"
| "rejection_message InvalidAssetAttribution = ''inbound assets cannot be attributed''"
| "rejection_message CloseAlreadyRequested = ''the active allocation is already closing''"
| "rejection_message NoPendingSettlement = ''no close or recovery awaits this settlement''"
| "rejection_message NothingToRecover = ''no impaired transport is outstanding''"
| "rejection_message SettlementMismatch = ''the settlement disagrees with the cycle it settles''"

definition all_rejections :: "rejection list" where
  "all_rejections =
     [InvalidVaultState, EpochNotOpen, EpochAlreadyOpen, CutoffNotReached,
      EpochAlreadyCutOff, EpochNotCutOff, EpochAlreadyFinalized, EpochNotFinalized,
      EpochNotAborted, RequestNotFound, RequestAlreadyCancelled, RequestAlreadySettled,
      ClaimNotFound, ClaimAlreadyConsumed, CancellationAfterCutoff, ZeroAmount,
      AmountBelowMinimum, InsufficientAssetBalance, InsufficientShareBalance, InsufficientRedemptionLiquidity,
      ArithmeticOverflow, ArithmeticUnderflow, DivisionByZero, UnauthorizedActor,
      InvalidConfiguration, DuplicateAccount, TimestampNotMonotonic, ActiveTransferExists,
      NoActiveTransfer, TransferIdReused, InsufficientRemotePrincipal, InvalidRecallSentAmounts,
      RemoteValuationRequired, ValuationAlreadyFixed, AllocateNotAllowed, InvalidAssetAttribution,
      CloseAlreadyRequested, NoPendingSettlement, NothingToRecover, SettlementMismatch]"

lemma in_all_rejections: "r \<in> set all_rejections"
  by (cases r) (simp_all add: all_rejections_def)

section \<open>Amounts and identifiers\<close>

type_synonym asset_amount = u128
type_synonym share_amount = u128
type_synonym epoch_id = u64
type_synonym account_id = u64
type_synonym timestamp = u64
type_synonym config_version = u32
type_synonym transfer_id = bytes32

definition asset_checked_add :: "asset_amount \<Rightarrow> asset_amount \<Rightarrow> rejection + asset_amount" where
  "asset_checked_add a b = ok_or (checked_add_word a b) ArithmeticOverflow"

definition asset_checked_sub :: "asset_amount \<Rightarrow> asset_amount \<Rightarrow> rejection + asset_amount" where
  "asset_checked_sub a b = ok_or (checked_sub_word a b) ArithmeticUnderflow"

definition share_checked_add :: "share_amount \<Rightarrow> share_amount \<Rightarrow> rejection + share_amount" where
  "share_checked_add a b = ok_or (checked_add_word a b) ArithmeticOverflow"

definition share_checked_sub :: "share_amount \<Rightarrow> share_amount \<Rightarrow> rejection + share_amount" where
  "share_checked_sub a b = ok_or (checked_sub_word a b) ArithmeticUnderflow"

definition epoch_next :: "epoch_id \<Rightarrow> rejection + epoch_id" where
  "epoch_next e = ok_or (checked_add_word e 1) ArithmeticOverflow"

definition checked_add_seconds :: "timestamp \<Rightarrow> u64 \<Rightarrow> rejection + timestamp" where
  "checked_add_seconds t seconds = ok_or (checked_add_word t seconds) ArithmeticOverflow"

lemma asset_checked_add_Inr [amount_simps]:
  "asset_checked_add a b = Inr c \<longleftrightarrow> unat c = unat a + unat b"
  by (simp add: asset_checked_add_def result_simps amount_simps)

lemma asset_checked_sub_Inr [amount_simps]:
  "asset_checked_sub a b = Inr c \<longleftrightarrow> unat a = unat b + unat c"
  by (simp add: asset_checked_sub_def result_simps amount_simps)

lemma share_checked_add_Inr [amount_simps]:
  "share_checked_add a b = Inr c \<longleftrightarrow> unat c = unat a + unat b"
  by (simp add: share_checked_add_def result_simps amount_simps)

lemma share_checked_sub_Inr [amount_simps]:
  "share_checked_sub a b = Inr c \<longleftrightarrow> unat a = unat b + unat c"
  by (simp add: share_checked_sub_def result_simps amount_simps)

lemma epoch_next_Inr [amount_simps]: "epoch_next e = Inr e' \<longleftrightarrow> unat e' = unat e + 1"
  by (simp add: epoch_next_def result_simps amount_simps)

text \<open>When the exact sum or difference is representable, the checked operation returns it.\<close>

lemma asset_checked_add_ok:
  "unat a + unat b < 2 ^ 128 \<Longrightarrow> \<exists>c. asset_checked_add a b = Inr c \<and> unat c = unat a + unat b"
  by (rule exI [of _ "a + b"]) (simp add: amount_simps unat_word_ariths)

lemma share_checked_add_ok:
  "unat a + unat b < 2 ^ 128 \<Longrightarrow> \<exists>c. share_checked_add a b = Inr c \<and> unat c = unat a + unat b"
  by (rule exI [of _ "a + b"]) (simp add: amount_simps unat_word_ariths)

lemma asset_checked_sub_ok:
  "unat b \<le> unat a \<Longrightarrow> \<exists>c. asset_checked_sub a b = Inr c \<and> unat a = unat b + unat c"
  by (rule exI [of _ "a - b"]) (simp add: amount_simps unat_sub word_le_nat_alt)

lemma share_checked_sub_ok:
  "unat b \<le> unat a \<Longrightarrow> \<exists>c. share_checked_sub a b = Inr c \<and> unat a = unat b + unat c"
  by (rule exI [of _ "a - b"]) (simp add: amount_simps unat_sub word_le_nat_alt)

end
