(* ===== verification/Pricing.thy ===== *)
theory Pricing
  imports Amounts
begin

text \<open>
  Share pricing (\<open>crates/accounting-model/src/math.rs\<close>). Conversions between assets
  and shares multiply in 256 bits and round down; prices are compared by cross
  multiplication in 512 bits. Both wide integer types come from the third-party crate
  \<open>ruint\<close>, so they are a parameter of the model: a record of the operations the code
  calls, with the documented behaviour of unsigned integers of a given width as the
  locale \<open>wide_uint\<close>.
\<close>

section \<open>Wide unsigned integers\<close>

record 'w uint_ops =
  from_u128 :: "u128 \<Rightarrow> 'w"
  wide_checked_mul :: "'w \<Rightarrow> 'w \<Rightarrow> 'w option"
  wide_checked_div :: "'w \<Rightarrow> 'w \<Rightarrow> 'w option"
  wide_saturating_add :: "'w \<Rightarrow> 'w \<Rightarrow> 'w"
  wide_le :: "'w \<Rightarrow> 'w \<Rightarrow> bool"
  try_u128 :: "'w \<Rightarrow> u128 option"

section \<open>Conversions\<close>

record pricing_basis =
  pb_total_assets :: asset_amount
  pb_total_supply :: share_amount
  pb_virtual_assets :: asset_amount
  pb_virtual_shares :: share_amount

definition asset_side :: "pricing_basis \<Rightarrow> rejection + u128" where
  "asset_side b = asset_checked_add (pb_total_assets b) (pb_virtual_assets b)"

definition share_side :: "pricing_basis \<Rightarrow> rejection + u128" where
  "share_side b = share_checked_add (pb_total_supply b) (pb_virtual_shares b)"

definition mul_div_floor :: "'w uint_ops \<Rightarrow> u128 \<Rightarrow> u128 \<Rightarrow> u128 \<Rightarrow> rejection + u128" where
  "mul_div_floor W a b denominator =
     (if denominator = 0 then Inl DivisionByZero
      else and_then (ok_or (wide_checked_mul W (from_u128 W a) (from_u128 W b)) ArithmeticOverflow)
        (\<lambda>product. and_then (ok_or (wide_checked_div W product (from_u128 W denominator)) DivisionByZero)
        (\<lambda>quotient. ok_or (try_u128 W quotient) ArithmeticOverflow)))"

definition assets_to_shares :: "'w uint_ops \<Rightarrow> asset_amount \<Rightarrow> pricing_basis \<Rightarrow> rejection + share_amount" where
  "assets_to_shares W assets b =
     and_then (share_side b) (\<lambda>shares_n.
     and_then (asset_side b) (\<lambda>assets_n.
     mul_div_floor W assets shares_n assets_n))"

definition shares_to_assets :: "'w uint_ops \<Rightarrow> share_amount \<Rightarrow> pricing_basis \<Rightarrow> rejection + asset_amount" where
  "shares_to_assets W shares b =
     and_then (asset_side b) (\<lambda>assets_n.
     and_then (share_side b) (\<lambda>shares_n.
     mul_div_floor W shares assets_n shares_n))"

definition wide_sides :: "'w uint_ops \<Rightarrow> pricing_basis \<Rightarrow> 'w \<times> 'w" where
  "wide_sides V b =
     (wide_saturating_add V (from_u128 V (pb_total_assets b)) (from_u128 V (pb_virtual_assets b)),
      wide_saturating_add V (from_u128 V (pb_total_supply b)) (from_u128 V (pb_virtual_shares b)))"

definition price_is_non_decreasing :: "'w uint_ops \<Rightarrow> pricing_basis \<Rightarrow> pricing_basis \<Rightarrow> rejection + bool" where
  "price_is_non_decreasing V earlier later =
     (let (earlier_assets, earlier_shares) = wide_sides V earlier;
          (later_assets, later_shares) = wide_sides V later
      in and_then (ok_or (wide_checked_mul V earlier_assets later_shares) ArithmeticOverflow)
           (\<lambda>left. and_then (ok_or (wide_checked_mul V later_assets earlier_shares) ArithmeticOverflow)
           (\<lambda>right. Inr (wide_le V left right))))"

definition checked_pow_word :: "'a::len word \<Rightarrow> nat \<Rightarrow> 'a word option" where
  "checked_pow_word b n = (if unat b ^ n < 2 ^ LENGTH('a) then Some (b ^ n) else None)"

lemma checked_pow_word_code [code]:
  "checked_pow_word (b :: 'a::len word) n = (if uint b ^ n < 2 ^ LENGTH('a) then Some (b ^ n) else None)"
  by (simp add: checked_pow_word_def unat_eq_nat_uint nat_power_eq [symmetric] nat_less_iff
      del: nat_uint_eq)

definition virtual_shares_for :: "u8 \<Rightarrow> u8 \<Rightarrow> rejection + share_amount" where
  "virtual_shares_for asset_dec share_dec =
     and_then (ok_or (checked_sub_word share_dec asset_dec) InvalidConfiguration)
       (\<lambda>difference. ok_or (checked_pow_word 10 (unat difference)) InvalidConfiguration)"

section \<open>Documented behaviour of the wide integers\<close>

locale wide_uint =
  fixes bits :: nat and val :: "'w \<Rightarrow> nat" and W :: "'w uint_ops"
  assumes val_from_u128: "val (from_u128 W a) = unat a"
    and checked_mul_spec: "wide_checked_mul W x y = Some z \<Longrightarrow> val z = val x * val y"
    and checked_mul_total: "val x * val y < 2 ^ bits \<Longrightarrow> wide_checked_mul W x y \<noteq> None"
    and checked_div_spec: "wide_checked_div W x y = Some z \<Longrightarrow> val z = val x div val y"
    and checked_div_total: "val y \<noteq> 0 \<Longrightarrow> wide_checked_div W x y \<noteq> None"
    and saturating_add_spec: "val (wide_saturating_add W x y) = min (val x + val y) (2 ^ bits - 1)"
    and le_spec: "wide_le W x y \<longleftrightarrow> val x \<le> val y"
    and try_u128_spec: "try_u128 W x = Some a \<Longrightarrow> unat a = val x"
    and try_u128_total: "val x < 2 ^ 128 \<Longrightarrow> try_u128 W x \<noteq> None"
begin

lemma product_fits: "256 \<le> bits \<Longrightarrow> unat (a :: u128) * unat (b :: u128) < 2 ^ bits"
proof -
  assume bits: "256 \<le> bits"
  have "unat a * unat b < 2 ^ 128 * 2 ^ 128"
    using unat_below [of a] unat_below [of b] by (intro mult_strict_mono) auto
  also have "\<dots> = (2 :: nat) ^ 256" by simp
  also have "\<dots> \<le> 2 ^ bits" using bits by (intro power_increasing) auto
  finally show ?thesis .
qed

text \<open>The wide product is exact, so the only failures are a zero denominator and a
  quotient that does not fit 128 bits.\<close>

lemma mul_div_floor_eq:
  assumes "256 \<le> bits"
  shows "mul_div_floor W a b d =
    (if d = 0 then Inl DivisionByZero
     else if unat a * unat b div unat d < 2 ^ 128 then Inr (of_nat (unat a * unat b div unat d))
     else Inl ArithmeticOverflow)"
proof (cases "d = 0")
  case True
  then show ?thesis by (simp add: mul_div_floor_def)
next
  case False
  obtain p where p: "wide_checked_mul W (from_u128 W a) (from_u128 W b) = Some p"
    using checked_mul_total [of "from_u128 W a" "from_u128 W b"] product_fits [OF assms]
    by (auto simp: val_from_u128)
  obtain q where q: "wide_checked_div W p (from_u128 W d) = Some q"
    using checked_div_total [of "from_u128 W d" p] False by (auto simp: val_from_u128 unat_eq_zero)
  have val_q: "val q = unat a * unat b div unat d"
    using checked_mul_spec [OF p] checked_div_spec [OF q] by (simp add: val_from_u128)
  show ?thesis
  proof (cases "try_u128 W q")
    case None
    then have "2 ^ 128 \<le> val q" using try_u128_total [of q] by (meson not_le)
    then show ?thesis using False p q None by (simp add: mul_div_floor_def val_q)
  next
    case (Some r)
    then have r: "unat r = unat a * unat b div unat d"
      using try_u128_spec [OF Some] val_q by simp
    moreover have "unat r < 2 ^ 128" using unat_below [of r] by simp
    moreover have "r = of_nat (unat a * unat b div unat d)"
      using r by (rule word_is_of_nat)
    ultimately show ?thesis using False p q Some by (simp add: mul_div_floor_def)
  qed
qed

lemma mul_div_floor_Inr:
  assumes "256 \<le> bits"
  shows "mul_div_floor W a b d = Inr q \<longleftrightarrow> d \<noteq> 0 \<and> unat q = unat a * unat b div unat d"
proof -
  have "of_nat n = q \<longleftrightarrow> unat q = n" if "n < 2 ^ 128" for n
    using that of_nat_eq_word [of n q] by simp
  then show ?thesis
    using unat_below [of q] by (auto simp: mul_div_floor_eq [OF assms])
qed

end

section \<open>Both sides of a price as numbers\<close>

definition asset_n :: "pricing_basis \<Rightarrow> nat" where
  "asset_n b = unat (pb_total_assets b) + unat (pb_virtual_assets b)"

definition share_n :: "pricing_basis \<Rightarrow> nat" where
  "share_n b = unat (pb_total_supply b) + unat (pb_virtual_shares b)"

definition sides_fit :: "pricing_basis \<Rightarrow> bool" where
  "sides_fit b \<longleftrightarrow> asset_n b < 2 ^ 128 \<and> share_n b < 2 ^ 128"

definition shares_floor :: "pricing_basis \<Rightarrow> nat \<Rightarrow> nat" where
  "shares_floor b x = x * share_n b div asset_n b"

definition assets_floor :: "pricing_basis \<Rightarrow> nat \<Rightarrow> nat" where
  "assets_floor b x = x * asset_n b div share_n b"

lemma asset_side_Inr: "asset_side b = Inr a \<longleftrightarrow> unat a = asset_n b"
  by (simp add: asset_side_def asset_n_def amount_simps)

lemma share_side_Inr: "share_side b = Inr a \<longleftrightarrow> unat a = share_n b"
  by (simp add: share_side_def share_n_def amount_simps)

lemma ex_side: "(\<exists>a :: u128. unat a = n \<and> P) \<longleftrightarrow> n < 2 ^ 128 \<and> P"
  using unat_of_nat_below [of n, where 'a = 128] unat_below [where 'a = 128] by auto

context wide_uint
begin

lemma assets_to_shares_Inr:
  assumes "256 \<le> bits"
  shows "assets_to_shares W x b = Inr y \<longleftrightarrow>
    sides_fit b \<and> asset_n b \<noteq> 0 \<and> unat y = shares_floor b (unat x)"
proof -
  have "assets_to_shares W x b = Inr y \<longleftrightarrow>
    (\<exists>m :: u128. unat m = share_n b \<and> (\<exists>d :: u128. unat d = asset_n b \<and>
      (d \<noteq> 0 \<and> unat y = unat x * unat m div unat d)))"
    by (simp add: assets_to_shares_def result_simps share_side_Inr asset_side_Inr mul_div_floor_Inr [OF assms])
  also have "\<dots> \<longleftrightarrow>
    (\<exists>m :: u128. unat m = share_n b \<and> (\<exists>d :: u128. unat d = asset_n b \<and>
      (asset_n b \<noteq> 0 \<and> unat y = shares_floor b (unat x))))"
    by (intro ex_cong1 conj_cong refl) (simp_all add: unat_eq_zero [symmetric] shares_floor_def)
  finally show ?thesis unfolding ex_side sides_fit_def by auto
qed

lemma shares_to_assets_Inr:
  assumes "256 \<le> bits"
  shows "shares_to_assets W x b = Inr y \<longleftrightarrow>
    sides_fit b \<and> share_n b \<noteq> 0 \<and> unat y = assets_floor b (unat x)"
proof -
  have "shares_to_assets W x b = Inr y \<longleftrightarrow>
    (\<exists>m :: u128. unat m = asset_n b \<and> (\<exists>d :: u128. unat d = share_n b \<and>
      (d \<noteq> 0 \<and> unat y = unat x * unat m div unat d)))"
    by (simp add: shares_to_assets_def result_simps share_side_Inr asset_side_Inr mul_div_floor_Inr [OF assms])
  also have "\<dots> \<longleftrightarrow>
    (\<exists>m :: u128. unat m = asset_n b \<and> (\<exists>d :: u128. unat d = share_n b \<and>
      (share_n b \<noteq> 0 \<and> unat y = assets_floor b (unat x))))"
    by (intro ex_cong1 conj_cong refl) (simp_all add: unat_eq_zero [symmetric] assets_floor_def)
  finally show ?thesis unfolding ex_side sides_fit_def by auto
qed

lemma wide_sides_val:
  assumes "512 \<le> bits"
  shows "val (fst (wide_sides W b)) = asset_n b" "val (snd (wide_sides W b)) = share_n b"
proof -
  have "(2 :: nat) ^ 130 \<le> 2 ^ bits" using assms by (intro power_increasing) auto
  then have "unat (x :: u128) + unat (y :: u128) \<le> 2 ^ bits - 1" for x y
    using unat_below [of x] unat_below [of y] by simp
  then show "val (fst (wide_sides W b)) = asset_n b" "val (snd (wide_sides W b)) = share_n b"
    by (simp_all add: wide_sides_def saturating_add_spec val_from_u128 asset_n_def share_n_def
        min_absorb1)
qed

lemma wide_mul_exact:
  assumes "512 \<le> bits" "val x < 2 ^ 129" "val y < 2 ^ 129"
  shows "\<exists>z. wide_checked_mul W x y = Some z \<and> val z = val x * val y"
proof -
  have "val x * val y < 2 ^ 129 * 2 ^ 129"
    using assms(2,3) by (intro mult_strict_mono) auto
  also have "\<dots> = (2 :: nat) ^ 258" by simp
  also have "\<dots> \<le> 2 ^ bits" using assms(1) by (intro power_increasing) auto
  finally show ?thesis using checked_mul_total checked_mul_spec by blast
qed

lemma side_bound: "asset_n b < 2 ^ 129" "share_n b < 2 ^ 129"
  using unat_below [of "pb_total_assets b"] unat_below [of "pb_virtual_assets b"]
    unat_below [of "pb_total_supply b"] unat_below [of "pb_virtual_shares b"]
  by (simp_all add: asset_n_def share_n_def)

lemma price_compare:
  assumes "512 \<le> bits"
  shows "price_is_non_decreasing W e l = Inr (asset_n e * share_n l \<le> asset_n l * share_n e)"
proof -
  obtain left where left: "wide_checked_mul W (fst (wide_sides W e)) (snd (wide_sides W l)) = Some left"
    "val left = asset_n e * share_n l"
    using wide_mul_exact [OF assms, of "fst (wide_sides W e)" "snd (wide_sides W l)"] side_bound
    by (auto simp: wide_sides_val [OF assms])
  obtain right where right: "wide_checked_mul W (fst (wide_sides W l)) (snd (wide_sides W e)) = Some right"
    "val right = asset_n l * share_n e"
    using wide_mul_exact [OF assms, of "fst (wide_sides W l)" "snd (wide_sides W e)"] side_bound
    by (auto simp: wide_sides_val [OF assms])
  show ?thesis
    using left right by (simp add: price_is_non_decreasing_def case_prod_beta Let_def le_spec)
qed

end

section \<open>Machine words as wide integers\<close>

definition word_uint :: "'a::len word uint_ops" where
  "word_uint =
     \<lparr>from_u128 = ucast,
      wide_checked_mul = checked_mul_word,
      wide_checked_div = (\<lambda>x y. if y = 0 then None else Some (x div y)),
      wide_saturating_add = saturating_add_word,
      wide_le = (\<le>),
      try_u128 = (\<lambda>x. if uint x < 2 ^ 128 then Some (ucast x) else None)\<rparr>"

lemma uint_below_unat: "uint x < 2 ^ n \<longleftrightarrow> unat x < 2 ^ n"
  by (simp add: unat_eq_nat_uint nat_less_iff del: nat_uint_eq)

lemma word_uint_laws:
  assumes "128 \<le> LENGTH('a::len)"
  shows "wide_uint LENGTH('a) unat (word_uint :: 'a word uint_ops)"
proof unfold_locales
  fix a :: u128 and x y z :: "'a word"
  show "unat (from_u128 (word_uint :: 'a word uint_ops) a) = unat a"
  proof -
    have "(2 :: nat) ^ 128 \<le> 2 ^ LENGTH('a)" using assms by (intro power_increasing) auto
    then have "unat a < 2 ^ LENGTH('a)" using unat_below [of a] by simp
    then show ?thesis by (simp add: word_uint_def unsigned_ucast_eq take_bit_eq_mod)
  qed
  show "wide_checked_mul word_uint x y = Some z \<Longrightarrow> unat z = unat x * unat y"
    by (simp add: word_uint_def amount_simps)
  show "unat x * unat y < 2 ^ LENGTH('a) \<Longrightarrow> wide_checked_mul word_uint x y \<noteq> None"
    by (simp add: word_uint_def checked_mul_word_def)
  show "wide_checked_div word_uint x y = Some z \<Longrightarrow> unat z = unat x div unat y"
    by (auto simp: word_uint_def unat_div split: if_splits)
  show "unat y \<noteq> 0 \<Longrightarrow> wide_checked_div word_uint x y \<noteq> None"
    by (auto simp: word_uint_def)
  show "unat (wide_saturating_add word_uint x y) = min (unat x + unat y) (2 ^ LENGTH('a) - 1)"
    by (simp add: word_uint_def amount_simps)
  show "wide_le word_uint x y \<longleftrightarrow> unat x \<le> unat y"
    by (simp add: word_uint_def word_le_nat_alt)
  show "try_u128 word_uint x = Some a \<Longrightarrow> unat a = unat x"
    by (auto simp: word_uint_def uint_below_unat [of _ 128, simplified] unsigned_ucast_eq
        take_bit_eq_mod split: if_splits)
  show "unat x < 2 ^ 128 \<Longrightarrow> try_u128 word_uint x \<noteq> None"
    using uint_below_unat [of x 128] by (simp add: word_uint_def)
qed

interpretation u256: wide_uint 256 unat "word_uint :: 256 word uint_ops"
  using word_uint_laws [where 'a = 256] by simp

interpretation u512: wide_uint 512 unat "word_uint :: 512 word uint_ops"
  using word_uint_laws [where 'a = 512] by simp

section \<open>Rounding\<close>

lemma shares_floor_mono: "x \<le> y \<Longrightarrow> shares_floor b x \<le> shares_floor b y"
  by (simp add: shares_floor_def div_le_mono)

lemma assets_floor_mono: "x \<le> y \<Longrightarrow> assets_floor b x \<le> assets_floor b y"
  by (simp add: assets_floor_def div_le_mono)

text \<open>Rounding each part of a total down loses at most one unit per part after the first.\<close>

lemma div_add_bounds:
  fixes x y d :: nat
  shows "x div d + y div d \<le> (x + y) div d" "(x + y) div d \<le> x div d + y div d + 1"
proof -
  show "x div d + y div d \<le> (x + y) div d" using div_add1_eq [of x y d] by linarith
  have "(x mod d + y mod d) div d \<le> 1"
  proof (cases "d = 0")
    case False
    then have "x mod d < d" "y mod d < d" by simp_all
    then have "x mod d + y mod d < 2 * d" by linarith
    then have "(x mod d + y mod d) div d < 2" by (rule less_mult_imp_div_less)
    then show ?thesis by linarith
  qed simp
  then show "(x + y) div d \<le> x div d + y div d + 1" using div_add1_eq [of x y d] by linarith
qed

lemma floor_parts:
  fixes f :: "'a \<Rightarrow> nat"
  shows "sum_list (map (\<lambda>x. f x * m div d) xs) \<le> sum_list (map f xs) * m div d"
    and "sum_list (map f xs) * m div d \<le>
      sum_list (map (\<lambda>x. f x * m div d) xs) + (length xs - 1)"
proof -
  show "sum_list (map (\<lambda>x. f x * m div d) xs) \<le> sum_list (map f xs) * m div d"
  proof (induction xs)
    case (Cons x xs)
    then show ?case
      using div_add_bounds(1) [where x = "f x * m" and d = d and y = "sum_list (map f xs) * m"]
      by (simp add: add_mult_distrib)
  qed simp
  show "sum_list (map f xs) * m div d \<le>
      sum_list (map (\<lambda>x. f x * m div d) xs) + (length xs - 1)"
  proof (induction xs)
    case (Cons x xs)
    show ?case
    proof (cases xs)
      case Nil
      then show ?thesis by simp
    next
      case (Cons z zs)
      then show ?thesis
        using Cons.IH div_add_bounds(2) [where x = "f x * m" and d = d and y = "sum_list (map f xs) * m"]
        by (simp add: add_mult_distrib)
    qed
  qed simp
qed

end
