(* ===== verification/Vault_State.thy ===== *)
theory Vault_State
  imports BTree_Map Pricing
begin

text \<open>
  The canonical accounting state (\<open>crates/accounting-model/src/request.rs\<close> and
  \<open>state.rs\<close>): requests keyed by epoch and account, balance buckets, epochs with their
  immutable outcomes, and the complete \<open>State\<close>, built by \<open>State::new\<close>. The functions
  that read the state (NAV, request totals, entitlements, outstanding claims, request
  lifecycle) follow the source line by line; a \<open>for\<close> loop that may overflow is
  \<open>for_each\<close>. Field names carry a prefix where two structs share a name.
\<close>

section \<open>Requests\<close>

datatype request_key = RequestKey (rk_epoch: epoch_id) (rk_account: account_id)

instantiation request_key :: linorder
begin

definition less_eq_request_key :: "request_key \<Rightarrow> request_key \<Rightarrow> bool" where
  "less_eq_request_key a b \<longleftrightarrow>
     rk_epoch a < rk_epoch b \<or> rk_epoch a = rk_epoch b \<and> rk_account a \<le> rk_account b"

definition less_request_key :: "request_key \<Rightarrow> request_key \<Rightarrow> bool" where
  "less_request_key a b \<longleftrightarrow>
     rk_epoch a < rk_epoch b \<or> rk_epoch a = rk_epoch b \<and> rk_account a < rk_account b"

instance
  by standard (auto simp: less_eq_request_key_def less_request_key_def request_key.expand)

end

definition epoch_range :: "epoch_id \<Rightarrow> request_key \<times> request_key" where
  "epoch_range e = (RequestKey e 0, RequestKey e (- 1))"

datatype request_state =
  Pending | Locked | Claimable | Claimed | Refundable | Refunded | Cancelled

record deposit_request =
  dr_assets :: asset_amount
  dr_cancelled_assets :: asset_amount
  dr_cancelled :: bool
  dr_claimed :: bool

definition default_deposit :: deposit_request where
  "default_deposit =
     \<lparr>dr_assets = 0, dr_cancelled_assets = 0, dr_cancelled = False, dr_claimed = False\<rparr>"

definition deposit_outstanding :: "deposit_request \<Rightarrow> bool" where
  "deposit_outstanding r = (\<not> dr_cancelled r \<and> \<not> dr_claimed r \<and> dr_assets r \<noteq> 0)"

definition deposit_active :: "deposit_request \<Rightarrow> bool" where
  "deposit_active r = (\<not> dr_cancelled r \<and> dr_assets r \<noteq> 0)"

definition deposit_flags_agree :: "deposit_request \<Rightarrow> bool" where
  "deposit_flags_agree r =
     (dr_cancelled r = (dr_assets r = 0) \<and> \<not> (dr_cancelled r \<and> dr_claimed r))"

record redeem_request =
  rr_shares :: share_amount
  rr_cancelled_shares :: share_amount
  rr_cancelled :: bool
  rr_claimed :: bool

definition default_redeem :: redeem_request where
  "default_redeem =
     \<lparr>rr_shares = 0, rr_cancelled_shares = 0, rr_cancelled = False, rr_claimed = False\<rparr>"

definition redeem_outstanding :: "redeem_request \<Rightarrow> bool" where
  "redeem_outstanding r = (\<not> rr_cancelled r \<and> \<not> rr_claimed r \<and> rr_shares r \<noteq> 0)"

definition redeem_active :: "redeem_request \<Rightarrow> bool" where
  "redeem_active r = (\<not> rr_cancelled r \<and> rr_shares r \<noteq> 0)"

definition redeem_flags_agree :: "redeem_request \<Rightarrow> bool" where
  "redeem_flags_agree r =
     (rr_cancelled r = (rr_shares r = 0) \<and> \<not> (rr_cancelled r \<and> rr_claimed r))"

section \<open>Configuration, buckets and epochs\<close>

datatype vault_state = Active | Paused | Frozen

datatype epoch_phase = Open | CutOff

datatype cycle_kind = Cycle_None | Cycle_Allocate | Cycle_Recall | Cycle_Recover

record config =
  cfg_version :: config_version
  cfg_asset_decimals :: u8
  cfg_share_decimals :: u8
  min_deposit_assets :: asset_amount
  min_redeem_shares :: share_amount
  epoch_duration :: u64

definition config_validate :: "config \<Rightarrow> rejection + unit" where
  "config_validate c =
     (if cfg_share_decimals c < cfg_asset_decimals c \<or> 38 < cfg_share_decimals c
      then Inl InvalidConfiguration
      else if epoch_duration c = 0 then Inl InvalidConfiguration
      else if min_deposit_assets c = 0 \<or> min_redeem_shares c = 0 then Inl InvalidConfiguration
      else Inr ())"

record authority =
  admin :: account_id
  guardian :: account_id

record account =
  acc_assets :: asset_amount
  acc_shares :: share_amount

definition default_account :: account where
  "default_account = \<lparr>acc_assets = 0, acc_shares = 0\<rparr>"

record buckets =
  pending_deposit_escrow :: asset_amount
  idle_backing :: asset_amount
  claim_reserve :: asset_amount
  unattributed_balance :: asset_amount
  unattributed_inbound :: asset_amount
  outbound_in_transit :: asset_amount
  accepted_remote_value :: asset_amount
  inbound_in_transit :: asset_amount

definition buckets_physical :: "buckets \<Rightarrow> rejection + asset_amount" where
  "buckets_physical b =
     and_then (asset_checked_add (pending_deposit_escrow b) (idle_backing b)) (\<lambda>t.
     and_then (asset_checked_add t (claim_reserve b)) (\<lambda>t.
     and_then (asset_checked_add t (unattributed_balance b)) (\<lambda>t.
     asset_checked_add t (unattributed_inbound b))))"

definition buckets_total :: "buckets \<Rightarrow> rejection + asset_amount" where
  "buckets_total b =
     and_then (buckets_physical b) (\<lambda>t.
     and_then (asset_checked_add t (outbound_in_transit b)) (\<lambda>t.
     and_then (asset_checked_add t (accepted_remote_value b)) (\<lambda>t.
     asset_checked_add t (inbound_in_transit b))))"

definition buckets_excluded_from_nav :: "buckets \<Rightarrow> rejection + asset_amount" where
  "buckets_excluded_from_nav b =
     and_then (asset_checked_add (pending_deposit_escrow b) (claim_reserve b)) (\<lambda>t.
     and_then (asset_checked_add t (unattributed_balance b)) (\<lambda>t.
     asset_checked_add t (unattributed_inbound b)))"

record epoch_slot =
  ep_id :: epoch_id
  ep_opened_at :: timestamp
  ep_cutoff_at :: timestamp
  ep_config_version :: config_version
  ep_asset_decimals :: u8
  ep_share_decimals :: u8
  ep_virtual_assets :: asset_amount
  ep_virtual_shares :: share_amount
  ep_phase :: epoch_phase
  pending_deposit_assets :: asset_amount
  pending_redeem_shares :: share_amount

record epoch_terms =
  et_id :: epoch_id
  et_config_version :: config_version
  et_cutoff_at :: timestamp
  et_total_assets :: asset_amount
  et_total_supply :: share_amount
  et_virtual_assets :: asset_amount
  et_virtual_shares :: share_amount
  et_deposit_assets :: asset_amount
  et_minted_shares :: share_amount
  et_redeem_shares :: share_amount
  et_redeem_assets :: asset_amount
  et_deposit_dust :: share_amount
  et_redeem_dust :: asset_amount

definition terms_basis :: "epoch_terms \<Rightarrow> pricing_basis" where
  "terms_basis t =
     \<lparr>pb_total_assets = et_total_assets t, pb_total_supply = et_total_supply t,
      pb_virtual_assets = et_virtual_assets t, pb_virtual_shares = et_virtual_shares t\<rparr>"

definition shares_for :: "'w uint_ops \<Rightarrow> epoch_terms \<Rightarrow> asset_amount \<Rightarrow> rejection + share_amount" where
  "shares_for W t assets = assets_to_shares W assets (terms_basis t)"

definition assets_for :: "'w uint_ops \<Rightarrow> epoch_terms \<Rightarrow> share_amount \<Rightarrow> rejection + asset_amount" where
  "assets_for W t shares = shares_to_assets W shares (terms_basis t)"

record aborted_terms =
  at_id :: epoch_id
  at_config_version :: config_version
  at_cutoff_at :: timestamp
  refund_assets :: asset_amount
  refund_shares :: share_amount

datatype epoch_outcome = Finalized epoch_terms | Aborted aborted_terms

fun outcome_finalized :: "epoch_outcome \<Rightarrow> epoch_terms option" where
  "outcome_finalized (Finalized t) = Some t"
| "outcome_finalized (Aborted _) = None"

fun outcome_aborted :: "epoch_outcome \<Rightarrow> aborted_terms option" where
  "outcome_aborted (Aborted t) = Some t"
| "outcome_aborted (Finalized _) = None"

record genesis =
  g_config :: config
  g_authority :: authority
  g_accounts :: "(account_id \<times> asset_amount) list"
  g_unattributed_balance :: asset_amount
  g_opened_at :: timestamp

record request_totals =
  rt_deposit_assets :: asset_amount
  rt_redeem_shares :: share_amount
  rt_unclaimed_deposit_assets :: asset_amount
  rt_unclaimed_redeem_shares :: share_amount
  rt_deposit_count :: u128
  rt_redeem_count :: u128

record entitlements =
  ent_deposit_shares :: share_amount
  ent_unclaimed_deposit_shares :: share_amount
  ent_redeem_assets :: asset_amount
  ent_unclaimed_redeem_assets :: asset_amount

section \<open>The complete state\<close>

record state =
  config :: config
  authority :: authority
  vault_state :: vault_state
  epoch :: "epoch_slot option"
  next_epoch_id :: epoch_id
  last_cutoff_at :: timestamp
  epochs :: "(epoch_id, epoch_outcome) btree_map"
  accounts :: "(account_id, account) btree_map"
  deposit_requests :: "(request_key, deposit_request) btree_map"
  redeem_requests :: "(request_key, redeem_request) btree_map"
  buckets :: buckets
  total_share_supply :: share_amount
  escrowed_redeem_shares :: share_amount
  claimable_deposit_shares :: share_amount
  burned_redemption_shares :: share_amount
  initial_asset_supply :: asset_amount
  remote_principal_cap :: asset_amount
  recognized_loss :: asset_amount
  impaired_transport :: asset_amount
  cumulative_impairment :: asset_amount
  external_inflow :: asset_amount
  pending_recall_id :: transfer_id
  pending_recall_principal :: asset_amount
  active_cycle :: cycle_kind
  active_transfer_id :: transfer_id
  active_amount :: asset_amount
  close_requested :: bool
  inbound_cumulative_loss :: asset_amount
  recall_baseline_value :: asset_amount
  recall_baseline_loss :: asset_amount
  used_transfer_ids :: "transfer_id set"
  epoch_valuation_locked :: "(epoch_id, asset_amount) btree_map"

section \<open>Genesis\<close>

text \<open>The loop of \<open>State::new\<close>: every account is inserted once and its assets join the supply.\<close>

definition genesis_step ::
  "account_id \<times> asset_amount \<Rightarrow> (account_id, account) btree_map \<times> asset_amount \<Rightarrow>
   rejection + ((account_id, account) btree_map \<times> asset_amount)" where
  "genesis_step entry acc =
     (let (id, assets) = entry; (accs, supply) = acc
      in if bt_contains accs id then Inl DuplicateAccount
         else and_then (asset_checked_add supply assets)
           (\<lambda>supply'. Inr (bt_insert id \<lparr>acc_assets = assets, acc_shares = 0\<rparr> accs, supply')))"

definition new_epoch :: "epoch_id \<Rightarrow> timestamp \<Rightarrow> timestamp \<Rightarrow> config \<Rightarrow> share_amount \<Rightarrow> epoch_slot" where
  "new_epoch eid opened cutoff c virtual_shares =
     \<lparr>ep_id = eid, ep_opened_at = opened, ep_cutoff_at = cutoff,
      ep_config_version = cfg_version c, ep_asset_decimals = cfg_asset_decimals c,
      ep_share_decimals = cfg_share_decimals c, ep_virtual_assets = 1,
      ep_virtual_shares = virtual_shares, ep_phase = Open,
      pending_deposit_assets = 0, pending_redeem_shares = 0\<rparr>"

definition state_new :: "genesis \<Rightarrow> rejection + state" where
  "state_new g =
     and_then (config_validate (g_config g)) (\<lambda>_.
     and_then (virtual_shares_for (cfg_asset_decimals (g_config g)) (cfg_share_decimals (g_config g)))
       (\<lambda>virtual_shares.
     and_then (for_each genesis_step (g_accounts g) ([], g_unattributed_balance g))
       (\<lambda>(accs, supply).
     and_then (checked_add_seconds (g_opened_at g) (epoch_duration (g_config g))) (\<lambda>cutoff.
     and_then (epoch_next 0) (\<lambda>next_id.
     Inr \<lparr>config = g_config g, authority = g_authority g, vault_state = Active,
       epoch = Some (new_epoch 0 (g_opened_at g) cutoff (g_config g) virtual_shares),
       next_epoch_id = next_id, last_cutoff_at = g_opened_at g, epochs = [],
       accounts = accs, deposit_requests = [], redeem_requests = [],
       buckets = \<lparr>pending_deposit_escrow = 0, idle_backing = 0, claim_reserve = 0,
         unattributed_balance = g_unattributed_balance g, unattributed_inbound = 0,
         outbound_in_transit = 0, accepted_remote_value = 0, inbound_in_transit = 0\<rparr>,
       total_share_supply = 0, escrowed_redeem_shares = 0, claimable_deposit_shares = 0,
       burned_redemption_shares = 0, initial_asset_supply = supply,
       remote_principal_cap = 0, recognized_loss = 0, impaired_transport = 0,
       cumulative_impairment = 0, external_inflow = 0, pending_recall_id = 0,
       pending_recall_principal = 0, active_cycle = Cycle_None, active_transfer_id = 0,
       active_amount = 0, close_requested = False, inbound_cumulative_loss = 0,
       recall_baseline_value = 0, recall_baseline_loss = 0, used_transfer_ids = {},
       epoch_valuation_locked = []\<rparr>)))))"

section \<open>Reading the state\<close>

definition managed_backing :: "state \<Rightarrow> asset_amount" where
  "managed_backing s =
     (let b = buckets s;
          total = idle_backing b;
          total = saturating_add_word total (outbound_in_transit b);
          total = saturating_add_word total (accepted_remote_value b);
          total = saturating_add_word total (inbound_in_transit b)
      in total)"

definition managed_nav :: "state \<Rightarrow> asset_amount" where
  "managed_nav s = managed_backing s"

definition has_remote_exposure :: "state \<Rightarrow> bool" where
  "has_remote_exposure s \<longleftrightarrow>
     outbound_in_transit (buckets s) \<noteq> 0 \<or> accepted_remote_value (buckets s) \<noteq> 0 \<or>
     inbound_in_transit (buckets s) \<noteq> 0 \<or> remote_principal_cap s \<noteq> 0 \<or>
     pending_recall_principal s \<noteq> 0"

definition account_of :: "state \<Rightarrow> account_id \<Rightarrow> account" where
  "account_of s aid = (case bt_get (accounts s) aid of None \<Rightarrow> default_account | Some a \<Rightarrow> a)"

definition finalized_terms :: "state \<Rightarrow> epoch_id \<Rightarrow> epoch_terms option" where
  "finalized_terms s eid = Option.bind (bt_get (epochs s) eid) outcome_finalized"

definition aborted_terms_of :: "state \<Rightarrow> epoch_id \<Rightarrow> aborted_terms option" where
  "aborted_terms_of s eid = Option.bind (bt_get (epochs s) eid) outcome_aborted"

text \<open>\<open>account_mut\<close> inserts a default account on first use; the field written is given by \<open>f\<close>.\<close>

definition account_mut :: "account_id \<Rightarrow> (account \<Rightarrow> account) \<Rightarrow> state \<Rightarrow> state" where
  "account_mut aid f s = s\<lparr>accounts := bt_insert aid (f (account_of s aid)) (accounts s)\<rparr>"

definition total_bucket_assets :: "state \<Rightarrow> rejection + asset_amount" where
  "total_bucket_assets s = buckets_total (buckets s)"

definition excluded_from_nav :: "state \<Rightarrow> rejection + asset_amount" where
  "excluded_from_nav s = buckets_excluded_from_nav (buckets s)"

definition total_account_assets :: "state \<Rightarrow> rejection + asset_amount" where
  "total_account_assets s =
     for_each (\<lambda>a total. asset_checked_add total (acc_assets a)) (bt_values (accounts s)) 0"

definition total_account_shares :: "state \<Rightarrow> rejection + share_amount" where
  "total_account_shares s =
     for_each (\<lambda>a total. share_checked_add total (acc_shares a)) (bt_values (accounts s)) 0"

definition pre_settlement_basis :: "state \<Rightarrow> epoch_slot \<Rightarrow> pricing_basis" where
  "pre_settlement_basis s e =
     \<lparr>pb_total_assets = managed_nav s, pb_total_supply = total_share_supply s,
      pb_virtual_assets = ep_virtual_assets e, pb_virtual_shares = ep_virtual_shares e\<rparr>"

definition totals_deposit_step :: "request_key \<times> deposit_request \<Rightarrow> request_totals \<Rightarrow> rejection + request_totals" where
  "totals_deposit_step entry t =
     (let r = snd entry
      in if \<not> deposit_active r then Inr t
         else and_then (asset_checked_add (rt_deposit_assets t) (dr_assets r)) (\<lambda>d.
           let t = t\<lparr>rt_deposit_assets := d,
                     rt_deposit_count := saturating_add_word (rt_deposit_count t) 1\<rparr>
           in if dr_claimed r then Inr t
              else and_then (asset_checked_add (rt_unclaimed_deposit_assets t) (dr_assets r))
                (\<lambda>u. Inr (t\<lparr>rt_unclaimed_deposit_assets := u\<rparr>))))"

definition totals_redeem_step :: "request_key \<times> redeem_request \<Rightarrow> request_totals \<Rightarrow> rejection + request_totals" where
  "totals_redeem_step entry t =
     (let r = snd entry
      in if \<not> redeem_active r then Inr t
         else and_then (share_checked_add (rt_redeem_shares t) (rr_shares r)) (\<lambda>d.
           let t = t\<lparr>rt_redeem_shares := d,
                     rt_redeem_count := saturating_add_word (rt_redeem_count t) 1\<rparr>
           in if rr_claimed r then Inr t
              else and_then (share_checked_add (rt_unclaimed_redeem_shares t) (rr_shares r))
                (\<lambda>u. Inr (t\<lparr>rt_unclaimed_redeem_shares := u\<rparr>))))"

definition deposits_in :: "state \<Rightarrow> epoch_id \<Rightarrow> (request_key \<times> deposit_request) list" where
  "deposits_in s e = bt_range (fst (epoch_range e)) (snd (epoch_range e)) (deposit_requests s)"

definition redeems_in :: "state \<Rightarrow> epoch_id \<Rightarrow> (request_key \<times> redeem_request) list" where
  "redeems_in s e = bt_range (fst (epoch_range e)) (snd (epoch_range e)) (redeem_requests s)"

definition default_totals :: request_totals where
  "default_totals =
     \<lparr>rt_deposit_assets = 0, rt_redeem_shares = 0, rt_unclaimed_deposit_assets = 0,
      rt_unclaimed_redeem_shares = 0, rt_deposit_count = 0, rt_redeem_count = 0\<rparr>"

definition request_totals_of :: "state \<Rightarrow> epoch_id \<Rightarrow> rejection + request_totals" where
  "request_totals_of s e =
     and_then (for_each totals_deposit_step (deposits_in s e) default_totals)
       (for_each totals_redeem_step (redeems_in s e))"

definition owed_deposit_step ::
  "'w uint_ops \<Rightarrow> epoch_terms \<Rightarrow> request_key \<times> deposit_request \<Rightarrow> entitlements \<Rightarrow> rejection + entitlements" where
  "owed_deposit_step W t entry owed =
     (let r = snd entry
      in if \<not> deposit_active r then Inr owed
         else and_then (shares_for W t (dr_assets r)) (\<lambda>shares.
           and_then (share_checked_add (ent_deposit_shares owed) shares) (\<lambda>d.
           let owed = owed\<lparr>ent_deposit_shares := d\<rparr>
           in if dr_claimed r then Inr owed
              else and_then (share_checked_add (ent_unclaimed_deposit_shares owed) shares)
                (\<lambda>u. Inr (owed\<lparr>ent_unclaimed_deposit_shares := u\<rparr>)))))"

definition owed_redeem_step ::
  "'w uint_ops \<Rightarrow> epoch_terms \<Rightarrow> request_key \<times> redeem_request \<Rightarrow> entitlements \<Rightarrow> rejection + entitlements" where
  "owed_redeem_step W t entry owed =
     (let r = snd entry
      in if \<not> redeem_active r then Inr owed
         else and_then (assets_for W t (rr_shares r)) (\<lambda>assets.
           and_then (asset_checked_add (ent_redeem_assets owed) assets) (\<lambda>d.
           let owed = owed\<lparr>ent_redeem_assets := d\<rparr>
           in if rr_claimed r then Inr owed
              else and_then (asset_checked_add (ent_unclaimed_redeem_assets owed) assets)
                (\<lambda>u. Inr (owed\<lparr>ent_unclaimed_redeem_assets := u\<rparr>)))))"

definition default_entitlements :: entitlements where
  "default_entitlements =
     \<lparr>ent_deposit_shares = 0, ent_unclaimed_deposit_shares = 0,
      ent_redeem_assets = 0, ent_unclaimed_redeem_assets = 0\<rparr>"

definition entitlements_of :: "'w uint_ops \<Rightarrow> state \<Rightarrow> epoch_id \<Rightarrow> epoch_terms \<Rightarrow> rejection + entitlements" where
  "entitlements_of W s e t =
     and_then (for_each (owed_deposit_step W t) (deposits_in s e) default_entitlements)
       (for_each (owed_redeem_step W t) (redeems_in s e))"

definition lifecycle :: "state \<Rightarrow> epoch_id \<Rightarrow> bool \<Rightarrow> bool \<Rightarrow> request_state" where
  "lifecycle s e cancelled claimed =
     (if cancelled then Cancelled
      else case bt_get (epochs s) e of
        Some (Finalized _) \<Rightarrow> if claimed then Claimed else Claimable
      | Some (Aborted _) \<Rightarrow> if claimed then Refunded else Refundable
      | None \<Rightarrow>
          (case epoch s of
             Some current \<Rightarrow> if ep_id current = e \<and> ep_phase current = CutOff then Locked else Pending
           | None \<Rightarrow> Pending))"

definition deposit_request_state :: "state \<Rightarrow> request_key \<Rightarrow> request_state option" where
  "deposit_request_state s key =
     map_option (\<lambda>r. lifecycle s (rk_epoch key) (dr_cancelled r) (dr_claimed r))
       (bt_get (deposit_requests s) key)"

definition redeem_request_state :: "state \<Rightarrow> request_key \<Rightarrow> request_state option" where
  "redeem_request_state s key =
     map_option (\<lambda>r. lifecycle s (rk_epoch key) (rr_cancelled r) (rr_claimed r))
       (bt_get (redeem_requests s) key)"

definition outstanding_redeem_assets :: "'w uint_ops \<Rightarrow> state \<Rightarrow> rejection + asset_amount" where
  "outstanding_redeem_assets W s =
     for_each (\<lambda>(id, outcome) total.
       case outcome_finalized outcome of
         None \<Rightarrow> Inr total
       | Some t \<Rightarrow> and_then (entitlements_of W s id t)
           (\<lambda>owed. asset_checked_add total (ent_unclaimed_redeem_assets owed))) (epochs s) 0"

definition outstanding_deposit_shares :: "'w uint_ops \<Rightarrow> state \<Rightarrow> rejection + share_amount" where
  "outstanding_deposit_shares W s =
     for_each (\<lambda>(id, outcome) total.
       case outcome_finalized outcome of
         None \<Rightarrow> Inr total
       | Some t \<Rightarrow> and_then (entitlements_of W s id t)
           (\<lambda>owed. share_checked_add total (ent_unclaimed_deposit_shares owed))) (epochs s) 0"

definition outstanding_refund_assets :: "state \<Rightarrow> rejection + asset_amount" where
  "outstanding_refund_assets s =
     for_each (\<lambda>(id, outcome) total.
       if outcome_aborted outcome = None then Inr total
       else and_then (request_totals_of s id)
         (\<lambda>t. asset_checked_add total (rt_unclaimed_deposit_assets t))) (epochs s) 0"

definition outstanding_refund_shares :: "state \<Rightarrow> rejection + share_amount" where
  "outstanding_refund_shares s =
     for_each (\<lambda>(id, outcome) total.
       if outcome_aborted outcome = None then Inr total
       else and_then (request_totals_of s id)
         (\<lambda>t. share_checked_add total (rt_unclaimed_redeem_shares t))) (epochs s) 0"

end
