(* ===== verification/Claim_Book.thy ===== *)
theory Claim_Book
  imports Vault_State
begin

text \<open>
  What the deposit side and the redemption side of the vault promise, stated once. A
  \<open>book\<close> holds every request (its amount and whether its claim was consumed), the outcome
  of every settled epoch, the current epoch with its aggregate, the escrow that backs
  requests and refunds, and the pot that backs claims. The deposit book escrows assets
  and pays shares; the redemption book escrows shares and pays assets. The operations
  below are the abstract transitions both refine, and \<open>book_ok\<close> is their invariant:
  every unit of escrow and of the pot is owed to a request or is measured dust.
\<close>

section \<open>Sums over the requests of one epoch\<close>

definition book_sum :: "(request_key \<times> 'r) list \<Rightarrow> epoch_id \<Rightarrow> ('r \<Rightarrow> nat) \<Rightarrow> nat" where
  "book_sum m e f = sum_list (map (\<lambda>p. if rk_epoch (fst p) = e then f (snd p) else 0) m)"

lemma in_epoch_range:
  "fst (epoch_range e) \<le> k \<and> k \<le> snd (epoch_range e) \<longleftrightarrow> rk_epoch k = e"
proof -
  have "rk_account k \<le> - 1" by (rule word_n1_ge)
  then show ?thesis
    by (auto simp: epoch_range_def less_eq_request_key_def)
qed

lemma book_sum_range:
  "sum_list (map (\<lambda>p. f (snd p)) (bt_range (fst (epoch_range e)) (snd (epoch_range e)) m)) =
   book_sum m e f"
  by (induction m) (simp_all add: book_sum_def bt_range_def in_epoch_range)

lemma book_sum_insert:
  assumes "bt_wf m"
  shows "book_sum (bt_insert k v m) e f +
      (if rk_epoch k = e then (case bt_get m k of None \<Rightarrow> 0 | Some old \<Rightarrow> f old) else 0) =
    book_sum m e f + (if rk_epoch k = e then f v else 0)"
  using bt.sum_put [OF assms, of "\<lambda>p. if rk_epoch (fst p) = e then f (snd p) else 0" k v]
  by (auto simp: book_sum_def split: option.splits if_splits)

lemma book_sum_insert_other:
  "bt_wf m \<Longrightarrow> rk_epoch k \<noteq> e \<Longrightarrow> book_sum (bt_insert k v m) e f = book_sum m e f"
  using book_sum_insert [of m k v e f] by simp

lemma book_sum_none: "(\<And>p. p \<in> set m \<Longrightarrow> rk_epoch (fst p) \<noteq> e) \<Longrightarrow> book_sum m e f = 0"
  unfolding book_sum_def by (induction m) auto

lemma book_sum_cong:
  "(\<And>p. p \<in> set m \<Longrightarrow> rk_epoch (fst p) = e \<Longrightarrow> f (snd p) = g (snd p)) \<Longrightarrow>
   book_sum m e f = book_sum m e g"
  unfolding book_sum_def by (intro arg_cong [where f = sum_list] map_cong) auto

lemma book_sum_map: "book_sum (map (map_prod (\<lambda>k. k) h) m) e f = book_sum m e (\<lambda>r. f (h r))"
  by (induction m) (auto simp: book_sum_def)

lemma book_sum_member:
  "bt_get m k = Some v \<Longrightarrow> rk_epoch k = e \<Longrightarrow> f v \<le> book_sum m e f"
  unfolding book_sum_def
  by (rule order_trans [OF _ member_le_sum_list])
    (auto dest!: bt_get_in_set intro!: image_eqI [where x = "(k, v)"])

lemma bt_insert_map:
  "map (map_prod (\<lambda>k. k) h) (bt_insert k v m) = bt_insert k (h v) (map (map_prod (\<lambda>k. k) h) m)"
  by (induction m) auto

lemma bt_wf_map [simp]: "bt_wf (map (map_prod (\<lambda>k. k) h) m) \<longleftrightarrow> bt_wf m"
  by (simp add: bt_wf_def comp_def)

lemma bt_get_map [simp]: "bt_get (map (map_prod (\<lambda>k. k) h) m) k = map_option h (bt_get m k)"
  unfolding bt_get_def by (induction m) auto

lemma bt_contains_map [simp]: "bt_contains (map (map_prod (\<lambda>k. k) h) m) k = bt_contains m k"
  by (simp add: bt_contains_def)

text \<open>A sum over distinct keys in which a single entry changes.\<close>

lemma sum_one_change:
  fixes h h' :: "'k::linorder \<times> 'v \<Rightarrow> nat"
  assumes "bt_wf m" "bt_get m k = Some v" "h' (k, v) + d = h (k, v)"
    and "\<And>p. p \<in> set m \<Longrightarrow> fst p \<noteq> k \<Longrightarrow> h' p = h p"
  shows "sum_list (map h' m) + d = sum_list (map h m)"
  using assms
proof (induction m)
  case (Cons q m)
  have tail: "bt_wf m" and above: "\<forall>p \<in> set m. fst q < fst p"
    using Cons.prems(1) by (auto simp: bt_wf_def)
  show ?case
  proof (cases "fst q = k")
    case True
    then have "q = (k, v)" using Cons.prems(2) by (cases q) (simp add: bt_get_def)
    moreover have "sum_list (map h' m) = sum_list (map h m)"
      using above True Cons.prems(4) by (intro arg_cong [where f = sum_list] map_cong) auto
    ultimately show ?thesis using Cons.prems(3) by simp
  next
    case False
    then have "bt_get m k = Some v" using Cons.prems(2) by (cases q) (simp add: bt_get_def)
    then have "sum_list (map h' m) + d = sum_list (map h m)"
      using Cons.IH tail Cons.prems(3,4) by auto
    then show ?thesis using False Cons.prems(4) [of q] by simp
  qed
qed simp

section \<open>Books\<close>

datatype book_outcome =
    Settled (st_total: nat) (st_priced: nat) (st_dust: nat) (st_price: "nat \<Rightarrow> nat")
  | Refund (rf_total: nat)

record book =
  bk_requests :: "(request_key, nat \<times> bool) btree_map"
  bk_outcomes :: "(epoch_id, book_outcome) btree_map"
  bk_current :: "(epoch_id \<times> nat) option"
  bk_escrow :: nat
  bk_pot :: nat

definition bk_total :: "book \<Rightarrow> epoch_id \<Rightarrow> nat" where
  "bk_total b e = book_sum (bk_requests b) e fst"

definition bk_unclaimed :: "book \<Rightarrow> epoch_id \<Rightarrow> (nat \<Rightarrow> nat) \<Rightarrow> nat" where
  "bk_unclaimed b e g = book_sum (bk_requests b) e (\<lambda>(a, c). if c then 0 else g a)"

definition bk_priced :: "book \<Rightarrow> epoch_id \<Rightarrow> (nat \<Rightarrow> nat) \<Rightarrow> nat" where
  "bk_priced b e g = book_sum (bk_requests b) e (\<lambda>(a, c). g a)"

definition owed_escrow :: "book \<Rightarrow> epoch_id \<times> book_outcome \<Rightarrow> nat" where
  "owed_escrow b eo = (case snd eo of Settled _ _ _ _ \<Rightarrow> 0 | Refund _ \<Rightarrow> bk_unclaimed b (fst eo) (\<lambda>a. a))"

definition owed_pot :: "book \<Rightarrow> epoch_id \<times> book_outcome \<Rightarrow> nat" where
  "owed_pot b eo =
     (case snd eo of Settled _ _ d g \<Rightarrow> bk_unclaimed b (fst eo) g + d | Refund _ \<Rightarrow> 0)"

definition outcome_ok :: "book \<Rightarrow> epoch_id \<times> book_outcome \<Rightarrow> bool" where
  "outcome_ok b eo =
     (case snd eo of
        Settled t p d g \<Rightarrow> bk_total b (fst eo) = t \<and> p = g t \<and> g 0 = 0 \<and> bk_priced b (fst eo) g + d = p
      | Refund r \<Rightarrow> bk_total b (fst eo) = r)"

definition current_ok :: "book \<Rightarrow> bool" where
  "current_ok b =
     (case bk_current b of
        None \<Rightarrow> True
      | Some (e, p) \<Rightarrow> \<not> bt_contains (bk_outcomes b) e \<and> bk_total b e = p \<and>
          (\<forall>q \<in> set (bk_requests b). rk_epoch (fst q) = e \<longrightarrow> \<not> snd (snd q)))"

definition keys_ok :: "book \<Rightarrow> bool" where
  "keys_ok b =
     (\<forall>q \<in> set (bk_requests b). bt_contains (bk_outcomes b) (rk_epoch (fst q)) \<or>
        map_option fst (bk_current b) = Some (rk_epoch (fst q)))"

definition current_amount :: "book \<Rightarrow> nat" where
  "current_amount b = (case bk_current b of None \<Rightarrow> 0 | Some (e, p) \<Rightarrow> p)"

definition book_ok :: "book \<Rightarrow> bool" where
  "book_ok b \<longleftrightarrow>
     bt_wf (bk_requests b) \<and> bt_wf (bk_outcomes b) \<and> keys_ok b \<and> current_ok b \<and>
     (\<forall>eo \<in> set (bk_outcomes b). outcome_ok b eo) \<and>
     bk_escrow b = current_amount b + sum_list (map (owed_escrow b) (bk_outcomes b)) \<and>
     bk_pot b = sum_list (map (owed_pot b) (bk_outcomes b))"

section \<open>Abstract transitions\<close>

definition bk_amount :: "book \<Rightarrow> request_key \<Rightarrow> nat" where
  "bk_amount b k = (case bt_get (bk_requests b) k of None \<Rightarrow> 0 | Some (a, c) \<Rightarrow> a)"

definition bk_request :: "request_key \<Rightarrow> nat \<Rightarrow> book \<Rightarrow> book" where
  "bk_request k n b =
     b\<lparr>bk_requests := bt_insert k (bk_amount b k + n, False) (bk_requests b),
       bk_current := map_option (\<lambda>(e, p). (e, p + n)) (bk_current b),
       bk_escrow := bk_escrow b + n\<rparr>"

definition bk_cancel :: "request_key \<Rightarrow> book \<Rightarrow> book" where
  "bk_cancel k b =
     b\<lparr>bk_requests := bt_insert k (0, False) (bk_requests b),
       bk_current := map_option (\<lambda>(e, p). (e, p - bk_amount b k)) (bk_current b),
       bk_escrow := bk_escrow b - bk_amount b k\<rparr>"

definition bk_finalize :: "(nat \<Rightarrow> nat) \<Rightarrow> book \<Rightarrow> book" where
  "bk_finalize g b =
     (case bk_current b of
        None \<Rightarrow> b
      | Some (e, p) \<Rightarrow>
          b\<lparr>bk_outcomes := bt_insert e (Settled p (g p) (g p - bk_priced b e g) g) (bk_outcomes b),
            bk_current := None,
            bk_escrow := bk_escrow b - p,
            bk_pot := bk_pot b + g p\<rparr>)"

definition bk_abort :: "book \<Rightarrow> book" where
  "bk_abort b =
     (case bk_current b of
        None \<Rightarrow> b
      | Some (e, p) \<Rightarrow> b\<lparr>bk_outcomes := bt_insert e (Refund p) (bk_outcomes b), bk_current := None\<rparr>)"

definition bk_claim :: "request_key \<Rightarrow> book \<Rightarrow> book" where
  "bk_claim k b =
     (case bt_get (bk_outcomes b) (rk_epoch k) of
        None \<Rightarrow> b
      | Some (Settled _ _ _ g) \<Rightarrow>
          b\<lparr>bk_requests := bt_insert k (bk_amount b k, True) (bk_requests b),
            bk_pot := bk_pot b - g (bk_amount b k)\<rparr>
      | Some (Refund _) \<Rightarrow>
          b\<lparr>bk_requests := bt_insert k (bk_amount b k, True) (bk_requests b),
            bk_escrow := bk_escrow b - bk_amount b k\<rparr>)"

definition bk_open :: "epoch_id \<Rightarrow> book \<Rightarrow> book" where
  "bk_open e b = b\<lparr>bk_current := Some (e, 0)\<rparr>"

section \<open>Every abstract transition keeps the invariant\<close>

text \<open>Writing one request leaves the books of every other epoch as they were.\<close>

lemma outcome_frame:
  assumes "bt_wf (bk_requests b)" "bk_requests b' = bt_insert k v (bk_requests b)"
    and "fst eo \<noteq> rk_epoch k"
  shows "outcome_ok b' eo = outcome_ok b eo" "owed_escrow b' eo = owed_escrow b eo"
    "owed_pot b' eo = owed_pot b eo"
  using assms
  by (simp_all add: outcome_ok_def owed_escrow_def owed_pot_def bk_total_def bk_unclaimed_def
      bk_priced_def book_sum_insert_other split: book_outcome.split)

lemma outcome_same_requests:
  assumes "bk_requests b' = bk_requests b"
  shows "outcome_ok b' = outcome_ok b" "owed_escrow b' = owed_escrow b" "owed_pot b' = owed_pot b"
    "bk_total b' = bk_total b" "bk_priced b' = bk_priced b" "bk_unclaimed b' = bk_unclaimed b"
  using assms
  by (simp_all add: fun_eq_iff outcome_ok_def owed_escrow_def owed_pot_def bk_total_def
      bk_unclaimed_def bk_priced_def split: book_outcome.split)

lemma outcomes_frame:
  assumes "bt_wf (bk_requests b)" "bk_requests b' = bt_insert k v (bk_requests b)"
    and "\<not> bt_contains (bk_outcomes b) (rk_epoch k)"
  shows "(\<forall>eo \<in> set (bk_outcomes b). outcome_ok b' eo) \<longleftrightarrow> (\<forall>eo \<in> set (bk_outcomes b). outcome_ok b eo)"
    "sum_list (map (owed_escrow b') (bk_outcomes b)) = sum_list (map (owed_escrow b) (bk_outcomes b))"
    "sum_list (map (owed_pot b') (bk_outcomes b)) = sum_list (map (owed_pot b) (bk_outcomes b))"
proof -
  have ne: "fst eo \<noteq> rk_epoch k" if "eo \<in> set (bk_outcomes b)" for eo
    using that assms(3) by (metis bt_contains_iff image_eqI)
  note frame = outcome_frame [OF assms(1,2) ne]
  show "(\<forall>eo \<in> set (bk_outcomes b). outcome_ok b' eo) \<longleftrightarrow> (\<forall>eo \<in> set (bk_outcomes b). outcome_ok b eo)"
    using frame(1) by blast
  show "sum_list (map (owed_escrow b') (bk_outcomes b)) = sum_list (map (owed_escrow b) (bk_outcomes b))"
    using frame(2) by (intro arg_cong [where f = sum_list] map_cong) auto
  show "sum_list (map (owed_pot b') (bk_outcomes b)) = sum_list (map (owed_pot b) (bk_outcomes b))"
    using frame(3) by (intro arg_cong [where f = sum_list] map_cong) auto
qed

lemma book_ok_current:
  assumes "book_ok b" "bk_current b = Some (e, p)"
  shows "\<not> bt_contains (bk_outcomes b) e" "bk_total b e = p" "p \<le> bk_escrow b"
    and "\<And>k v. bt_get (bk_requests b) k = Some v \<Longrightarrow> rk_epoch k = e \<Longrightarrow> \<not> snd v"
  using assms by (auto simp: book_ok_def current_ok_def current_amount_def dest!: bt_get_in_set)

lemma bk_total_insert:
  assumes "bt_wf (bk_requests b)" "rk_epoch k = e" "bk_requests b' = bt_insert k (a, c) (bk_requests b)"
  shows "bk_total b' e + bk_amount b k = bk_total b e + a"
  using book_sum_insert [OF assms(1), of k "(a, c)" e fst] assms(2,3)
  by (auto simp: bk_total_def bk_amount_def split: option.splits)

text \<open>A request written into the current epoch moves its aggregate and the escrow alike.\<close>

lemma book_ok_write_current:
  assumes ok: "book_ok b" and cur: "bk_current b = Some (rk_epoch k, p)"
    and b': "b' = b\<lparr>bk_requests := bt_insert k (a, False) (bk_requests b),
        bk_current := Some (rk_epoch k, q), bk_escrow := x\<rparr>"
    and q: "q + bk_amount b k = p + a" and x: "x + bk_amount b k = bk_escrow b + a"
  shows "book_ok b'"
proof -
  have wf: "bt_wf (bk_requests b)" using ok by (simp add: book_ok_def)
  have req: "bk_requests b' = bt_insert k (a, False) (bk_requests b)" by (simp add: b')
  have fresh: "\<not> bt_contains (bk_outcomes b) (rk_epoch k)"
    using book_ok_current(1) [OF ok cur] .
  note frame = outcomes_frame [OF wf req fresh]
  have total: "bk_total b' (rk_epoch k) = q"
    using bk_total_insert [OF wf refl req] book_ok_current(2) [OF ok cur] q by simp
  have members: "set (bt_insert k (a, False) (bk_requests b)) =
      insert (k, a, False) {z \<in> set (bk_requests b). fst z \<noteq> k}"
    using wf by (rule bt.set_entries_put)
  have "keys_ok b'"
    using ok cur by (auto simp: keys_ok_def members book_ok_def b')
  moreover have "current_ok b'"
    using ok cur fresh total by (auto simp: current_ok_def members book_ok_def b')
  moreover have "\<forall>eo \<in> set (bk_outcomes b'). outcome_ok b' eo"
    using frame(1) ok by (simp add: book_ok_def b')
  moreover have "bk_escrow b' = current_amount b' + sum_list (map (owed_escrow b') (bk_outcomes b'))"
    using frame(2) ok cur q x by (simp add: book_ok_def current_amount_def b')
  moreover have "bk_pot b' = sum_list (map (owed_pot b') (bk_outcomes b'))"
    using frame(3) ok by (simp add: book_ok_def b')
  ultimately show ?thesis using ok by (simp add: book_ok_def b')
qed

lemma book_ok_request:
  assumes "book_ok b" "bk_current b = Some (rk_epoch k, p)"
  shows "book_ok (bk_request k n b)"
  by (rule book_ok_write_current [OF assms, where a = "bk_amount b k + n" and q = "p + n"
        and x = "bk_escrow b + n"]) (simp_all add: bk_request_def assms(2))

lemma bk_amount_le_total: "bk_amount b k \<le> bk_total b (rk_epoch k)"
  unfolding bk_amount_def bk_total_def
  by (auto split: option.split dest: book_sum_member [where f = fst, OF _ refl])

lemma book_ok_cancel:
  assumes "book_ok b" "bk_current b = Some (rk_epoch k, p)"
  shows "book_ok (bk_cancel k b)"
proof -
  have "bk_amount b k \<le> p" using bk_amount_le_total book_ok_current(2) [OF assms] by metis
  moreover have "p \<le> bk_escrow b" by (rule book_ok_current(3) [OF assms])
  ultimately show ?thesis
    by (intro book_ok_write_current [OF assms, where a = 0 and q = "p - bk_amount b k"
        and x = "bk_escrow b - bk_amount b k"]) (simp_all add: bk_cancel_def assms(2))
qed

lemma book_ok_open:
  assumes "book_ok b" "bk_current b = None" "\<not> bt_contains (bk_outcomes b) e"
  shows "book_ok (bk_open e b)"
proof -
  have keys: "rk_epoch (fst q) \<noteq> e" if "q \<in> set (bk_requests b)" for q
    using that assms by (auto simp: book_ok_def keys_ok_def)
  then have "book_sum (bk_requests b) e f = 0" for f
    by (rule book_sum_none)
  then have "bk_total b e = 0" by (simp add: bk_total_def)
  moreover note same = outcome_same_requests [of "bk_open e b" b]
  ultimately show ?thesis
    using assms keys
    by (auto simp: book_ok_def same bk_open_def keys_ok_def current_ok_def current_amount_def)
qed

lemma bk_priced_le:
  assumes "\<And>x y. g x + g y \<le> g (x + y)" "g 0 = (0 :: nat)"
  shows "bk_priced b e g \<le> g (bk_total b e)"
proof -
  have "book_sum m e (\<lambda>(a, c). g a) \<le> g (book_sum m e fst)" for m :: "(request_key \<times> nat \<times> bool) list"
  proof (induction m)
    case (Cons q m)
    then show ?case
      using assms(1) [of "fst (snd q)" "book_sum m e fst"]
      by (auto simp: book_sum_def split_beta)
  qed (simp add: book_sum_def assms(2))
  then show ?thesis by (simp add: bk_priced_def bk_total_def)
qed

text \<open>In the current epoch nothing is claimed, so everything priced is still unclaimed.\<close>

lemma unclaimed_current:
  assumes "book_ok b" "bk_current b = Some (e, p)"
  shows "bk_unclaimed b e g = bk_priced b e g"
  using assms unfolding bk_unclaimed_def bk_priced_def
  by (intro book_sum_cong) (auto simp: book_ok_def current_ok_def)

lemma sum_outcomes_insert:
  assumes "bt_wf m" "\<not> bt_contains m e"
  shows "sum_list (map f (bt_insert e v m)) = sum_list (map f m) + (f (e, v) :: nat)"
  using bt.sum_put [OF assms(1), of f e v] assms(2) by (simp add: bt_contains_def)

lemma ball_outcomes_insert:
  assumes "bt_wf m" "\<not> bt_contains m e"
  shows "(\<forall>p \<in> set (bt_insert e v m). Q p) \<longleftrightarrow> Q (e, v) \<and> (\<forall>p \<in> set m. Q p)"
  using bt.ball_put [OF assms(1), of e v Q] assms(2) by (metis bt_contains_iff image_eqI)

text \<open>Settling the current epoch turns its aggregate into an outcome, whatever the outcome is.\<close>

lemma book_ok_settle:
  assumes ok: "book_ok b" and cur: "bk_current b = Some (e, p)"
    and b': "b' = b\<lparr>bk_outcomes := bt_insert e o' (bk_outcomes b), bk_current := None,
        bk_escrow := x, bk_pot := y\<rparr>"
    and o': "outcome_ok b (e, o')" and x: "x + p = bk_escrow b + owed_escrow b (e, o')"
    and y: "y = bk_pot b + owed_pot b (e, o')"
  shows "book_ok b'"
proof -
  have wf: "bt_wf (bk_outcomes b)" and fresh: "\<not> bt_contains (bk_outcomes b) e"
    using ok book_ok_current(1) [OF ok cur] by (simp_all add: book_ok_def)
  have same: "outcome_ok b' = outcome_ok b" "owed_escrow b' = owed_escrow b" "owed_pot b' = owed_pot b"
    by (rule outcome_same_requests; simp add: b')+
  have "keys_ok b'" using ok cur wf by (auto simp: book_ok_def keys_ok_def b')
  moreover have "\<forall>eo \<in> set (bk_outcomes b'). outcome_ok b' eo"
    using ok o' unfolding same by (simp add: ball_outcomes_insert [OF wf fresh] book_ok_def b')
  moreover have "bk_escrow b' = current_amount b' + sum_list (map (owed_escrow b') (bk_outcomes b'))"
    using ok cur x unfolding same
    by (simp add: sum_outcomes_insert [OF wf fresh] book_ok_def current_amount_def b')
  moreover have "bk_pot b' = sum_list (map (owed_pot b') (bk_outcomes b'))"
    using ok y unfolding same by (simp add: sum_outcomes_insert [OF wf fresh] book_ok_def b')
  ultimately show ?thesis
    using ok wf by (simp add: book_ok_def current_ok_def b')
qed

lemma book_ok_finalize:
  assumes ok: "book_ok b" and cur: "bk_current b = Some (e, p)"
    and g: "\<And>x y. g x + g y \<le> g (x + y)" "g 0 = 0"
  shows "book_ok (bk_finalize g b)"
proof -
  have "bk_priced b e g \<le> g p"
    using bk_priced_le [OF g, of b e] book_ok_current(2) [OF ok cur] by simp
  then show ?thesis
    using g(2) book_ok_current(2,3) [OF ok cur]
    by (intro book_ok_settle [OF ok cur, where x = "bk_escrow b - p" and y = "bk_pot b + g p"
          and o' = "Settled p (g p) (g p - bk_priced b e g) g"])
      (simp_all add: bk_finalize_def cur outcome_ok_def owed_escrow_def owed_pot_def
        unclaimed_current [OF ok cur])
qed

lemma book_ok_abort:
  assumes ok: "book_ok b" and cur: "bk_current b = Some (e, p)"
  shows "book_ok (bk_abort b)"
proof -
  have "bk_unclaimed b e (\<lambda>a. a) = p"
    using unclaimed_current [OF ok cur] book_ok_current(2) [OF ok cur]
    by (simp add: bk_priced_def bk_total_def case_prod_unfold)
  then show ?thesis
    using book_ok_current(2) [OF ok cur]
    by (intro book_ok_settle [OF ok cur, where x = "bk_escrow b" and y = "bk_pot b" and o' = "Refund p"])
      (simp_all add: bk_abort_def cur outcome_ok_def owed_escrow_def owed_pot_def)
qed

section \<open>Claims\<close>

text \<open>An unclaimed request in a settled epoch is covered by the pot, in an aborted one by the escrow.\<close>

lemma bk_unclaimed_insert:
  assumes "bt_wf (bk_requests b)" "bt_get (bk_requests b) k = Some (a, False)" "rk_epoch k = e"
    and "bk_requests b' = bt_insert k (a, True) (bk_requests b)"
  shows "bk_unclaimed b' e g + g a = bk_unclaimed b e g" "bk_total b' e = bk_total b e"
    "bk_priced b' e g = bk_priced b e g"
  using book_sum_insert [OF assms(1), of k "(a, True)" e "\<lambda>(a, c). if c then 0 else g a"]
    book_sum_insert [OF assms(1), of k "(a, True)" e fst]
    book_sum_insert [OF assms(1), of k "(a, True)" e "\<lambda>(a, c). g a"] assms(2-4)
  by (simp_all add: bk_unclaimed_def bk_total_def bk_priced_def)

lemma claim_covered:
  assumes ok: "book_ok b" and get: "bt_get (bk_requests b) k = Some (a, False)"
  shows "bt_get (bk_outcomes b) (rk_epoch k) = Some (Settled t p d g) \<Longrightarrow> g a \<le> bk_pot b"
    and "bt_get (bk_outcomes b) (rk_epoch k) = Some (Refund r) \<Longrightarrow> a \<le> bk_escrow b"
proof -
  have member: "owed b (rk_epoch k, o') \<le> sum_list (map (owed b) (bk_outcomes b))"
    if "bt_get (bk_outcomes b) (rk_epoch k) = Some o'" for o' and owed :: "book \<Rightarrow> epoch_id \<times> book_outcome \<Rightarrow> nat"
    using bt_get_in_set [OF that] by (intro member_le_sum_list) simp_all
  have un: "h a \<le> bk_unclaimed b (rk_epoch k) h" for h
    using book_sum_member [OF get refl, of "\<lambda>(a, c). if c then 0 else h a"]
    by (simp add: bk_unclaimed_def)
  show "g a \<le> bk_pot b" if "bt_get (bk_outcomes b) (rk_epoch k) = Some (Settled t p d g)"
    using member [OF that, of owed_pot] un [of g] ok by (simp add: owed_pot_def book_ok_def)
  show "a \<le> bk_escrow b" if "bt_get (bk_outcomes b) (rk_epoch k) = Some (Refund r)"
    using member [OF that, of owed_escrow] un [of "\<lambda>a. a"] ok by (simp add: owed_escrow_def book_ok_def)
qed

lemma book_ok_claim:
  assumes ok: "book_ok b" and get: "bt_get (bk_requests b) k = Some (a, False)"
    and out: "bt_get (bk_outcomes b) (rk_epoch k) = Some o'"
  shows "book_ok (bk_claim k b)"
proof -
  let ?b' = "bk_claim k b" and ?e = "rk_epoch k"
  have wf: "bt_wf (bk_requests b)" and wfo: "bt_wf (bk_outcomes b)"
    using ok by (simp_all add: book_ok_def)
  have req: "bk_requests ?b' = bt_insert k (a, True) (bk_requests b)"
    and rest: "bk_outcomes ?b' = bk_outcomes b" "bk_current ?b' = bk_current b"
    using get out by (simp_all add: bk_claim_def bk_amount_def split: book_outcome.split)
  note moved = bk_unclaimed_insert [OF wf get refl req]
  note frame = outcome_frame [OF wf req]
  have members: "set (bk_requests ?b') = insert (k, a, True) {z \<in> set (bk_requests b). fst z \<noteq> k}"
    unfolding req using wf by (rule bt.set_entries_put)
  have not_cur: "e \<noteq> ?e" if "bk_current b = Some (e, q)" for e q
    using book_ok_current(1) [OF ok that] out by (auto simp: bt_contains_def)
  have total: "bk_total ?b' e = bk_total b e" for e
    using moved(2) wf by (cases "e = ?e") (simp_all add: bk_total_def req book_sum_insert_other)
  have "keys_ok ?b'"
    using ok out by (auto simp: keys_ok_def members rest book_ok_def bt_contains_def)
  moreover have "current_ok ?b'"
    using ok not_cur by (auto simp: current_ok_def members rest total book_ok_def split: option.splits)
  moreover have "outcome_ok ?b' eo" if eo: "eo \<in> set (bk_outcomes b)" for eo
    using ok eo frame(1) [of eo] moved
    by (cases "fst eo = ?e") (auto simp: book_ok_def outcome_ok_def total split: book_outcome.splits)
  moreover have "bk_escrow ?b' = current_amount b + sum_list (map (owed_escrow ?b') (bk_outcomes b))"
    using sum_one_change [OF wfo out, of "owed_escrow ?b'" "case o' of Refund _ \<Rightarrow> a | _ \<Rightarrow> 0" "owed_escrow b"]
      frame(2) moved(1) [of "\<lambda>a. a"] ok out get
    by (auto simp: owed_escrow_def book_ok_def bk_claim_def bk_amount_def split: book_outcome.splits)
  moreover have "bk_pot ?b' = sum_list (map (owed_pot ?b') (bk_outcomes b))"
    using sum_one_change [OF wfo out, of "owed_pot ?b'" "case o' of Settled _ _ _ g \<Rightarrow> g a | _ \<Rightarrow> 0" "owed_pot b"]
      frame(3) moved(1) [of "st_price o'"] ok out get
    by (auto simp: owed_pot_def book_ok_def bk_claim_def bk_amount_def split: book_outcome.splits)
  ultimately show ?thesis
    using wf wfo by (simp add: book_ok_def req rest current_amount_def)
qed

end
