(* ===== verification/Vault_Ops.thy ===== *)
theory Vault_Ops
  imports Vault_State
begin

text \<open>
  Operations and transitions of the accounting model
  (\<open>crates/accounting-model/src/operation.rs\<close>, \<open>transition.rs\<close>). A Rust handler takes
  \<open>&mut State\<close> and returns a \<open>Result\<close>; here it takes the state and returns either the
  rejection or the next state, since \<open>apply\<close> works on a clone and a rejection changes
  nothing. Guards, their order and every checked operation follow the source.
\<close>

section \<open>Operations\<close>

datatype operation =
    RequestDeposit account_id asset_amount
  | CancelDeposit account_id
  | RequestRedeem account_id share_amount
  | CancelRedeem account_id
  | CutoffEpoch timestamp
  | FinalizeEpoch
  | AbortEpoch account_id
  | ClaimDeposit account_id epoch_id
  | ClaimRedeem account_id epoch_id
  | ClaimAbortedDeposit account_id epoch_id
  | ClaimAbortedRedeem account_id epoch_id
  | OpenNextEpoch timestamp
  | Pause account_id
  | Unpause account_id
  | Freeze account_id
  | BeginAllocate account_id transfer_id asset_amount
  | CompleteAllocation transfer_id asset_amount
  | BeginRecall account_id transfer_id asset_amount
  | AcceptRecallSent transfer_id asset_amount asset_amount asset_amount
  | ObserveInbound asset_amount
  | ApplyRemoteValuation asset_amount asset_amount
  | LockRemoteValuation
  | RequestClose account_id transfer_id
  | SettleClose transfer_id asset_amount
  | BeginRecover account_id transfer_id
  | SettleRecover transfer_id asset_amount

section \<open>Guards\<close>

definition require_active :: "state \<Rightarrow> rejection + unit" where
  "require_active s =
     (case vault_state s of Active \<Rightarrow> Inr () | Paused \<Rightarrow> Inl InvalidVaultState
      | Frozen \<Rightarrow> Inl InvalidVaultState)"

definition require_open_epoch :: "state \<Rightarrow> rejection + epoch_slot" where
  "require_open_epoch s =
     and_then (ok_or (epoch s) EpochNotOpen) (\<lambda>e.
       case ep_phase e of Open \<Rightarrow> Inr e | CutOff \<Rightarrow> Inl EpochAlreadyCutOff)"

definition require_cancellation_allowed :: "state \<Rightarrow> rejection + unit" where
  "require_cancellation_allowed s =
     (case vault_state s of Active \<Rightarrow> Inr () | Paused \<Rightarrow> Inr ()
      | Frozen \<Rightarrow> Inl InvalidVaultState)"

definition require_guardian_or_admin :: "state \<Rightarrow> account_id \<Rightarrow> rejection + unit" where
  "require_guardian_or_admin s actor =
     (if actor = admin (authority s) \<or> actor = guardian (authority s) then Inr ()
      else Inl UnauthorizedActor)"

definition require_admin :: "state \<Rightarrow> account_id \<Rightarrow> rejection + unit" where
  "require_admin s actor =
     (if actor = admin (authority s) then Inr () else Inl UnauthorizedActor)"

definition require_fresh_transfer :: "state \<Rightarrow> transfer_id \<Rightarrow> rejection + unit" where
  "require_fresh_transfer s tid =
     (if tid = 0 then Inl ZeroAmount
      else if tid \<in> used_transfer_ids s then Inl TransferIdReused
      else Inr ())"

definition require_no_cycle :: "state \<Rightarrow> rejection + unit" where
  "require_no_cycle s =
     (if active_cycle s \<noteq> Cycle_None then Inl ActiveTransferExists else Inr ())"

text \<open>\<open>epoch_mut(state)?\<close> followed by a write to the epoch.\<close>

definition epoch_mut :: "(epoch_slot \<Rightarrow> epoch_slot) \<Rightarrow> state \<Rightarrow> rejection + state" where
  "epoch_mut f s =
     and_then (ok_or (epoch s) EpochNotOpen) (\<lambda>e. Inr (s\<lparr>epoch := Some (f e)\<rparr>))"

section \<open>Requests and cancellations\<close>

definition request_deposit :: "state \<Rightarrow> account_id \<Rightarrow> asset_amount \<Rightarrow> rejection + state" where
  "request_deposit s acct assets =
     and_then (require_active s) (\<lambda>_.
     and_then (require_open_epoch s) (\<lambda>e.
     if assets = 0 then Inl ZeroAmount
     else if assets < min_deposit_assets (config s) then Inl AmountBelowMinimum
     else let key = RequestKey (ep_id e) acct in
     if (case bt_get (deposit_requests s) key of Some r \<Rightarrow> dr_claimed r | None \<Rightarrow> False)
     then Inl RequestAlreadySettled
     else
     and_then (map_err (\<lambda>_. InsufficientAssetBalance)
       (asset_checked_sub (acc_assets (account_of s acct)) assets)) (\<lambda>remaining.
     and_then (asset_checked_add (pending_deposit_escrow (buckets s)) assets) (\<lambda>escrow.
     and_then (asset_checked_add (pending_deposit_assets e) assets) (\<lambda>epoch_total.
     let s = account_mut acct (\<lambda>a. a\<lparr>acc_assets := remaining\<rparr>) s;
         s = s\<lparr>buckets := (buckets s)\<lparr>pending_deposit_escrow := escrow\<rparr>\<rparr> in
     and_then (epoch_mut (\<lambda>e. e\<lparr>pending_deposit_assets := epoch_total\<rparr>) s) (\<lambda>s.
     let entry = (case bt_get (deposit_requests s) key of None \<Rightarrow> default_deposit | Some r \<Rightarrow> r) in
     and_then (asset_checked_add (dr_assets entry) assets) (\<lambda>total.
     Inr (s\<lparr>deposit_requests :=
       bt_insert key (entry\<lparr>dr_assets := total, dr_cancelled := False\<rparr>)
         (deposit_requests s)\<rparr>))))))))"

definition cancel_deposit :: "state \<Rightarrow> account_id \<Rightarrow> rejection + state" where
  "cancel_deposit s acct =
     and_then (require_cancellation_allowed s) (\<lambda>_.
     and_then (ok_or (epoch s) EpochNotOpen) (\<lambda>e.
     if ep_phase e = CutOff then Inl CancellationAfterCutoff
     else let key = RequestKey (ep_id e) acct in
     and_then (ok_or (bt_get (deposit_requests s) key) RequestNotFound) (\<lambda>request.
     if dr_claimed request then Inl RequestAlreadySettled
     else if dr_cancelled request \<or> dr_assets request = 0 then Inl RequestAlreadyCancelled
     else
     and_then (asset_checked_sub (pending_deposit_escrow (buckets s)) (dr_assets request)) (\<lambda>escrow.
     and_then (asset_checked_sub (pending_deposit_assets e) (dr_assets request)) (\<lambda>epoch_total.
     and_then (asset_checked_add (acc_assets (account_of s acct)) (dr_assets request)) (\<lambda>returned.
     and_then (asset_checked_add (dr_cancelled_assets request) (dr_assets request))
       (\<lambda>cancelled_total.
     let s = s\<lparr>buckets := (buckets s)\<lparr>pending_deposit_escrow := escrow\<rparr>\<rparr> in
     and_then (epoch_mut (\<lambda>e. e\<lparr>pending_deposit_assets := epoch_total\<rparr>) s) (\<lambda>s.
     let s = account_mut acct (\<lambda>a. a\<lparr>acc_assets := returned\<rparr>) s in
     Inr (case bt_get (deposit_requests s) key of
            None \<Rightarrow> s
          | Some entry \<Rightarrow> s\<lparr>deposit_requests :=
              bt_insert key (entry\<lparr>dr_assets := 0, dr_cancelled_assets := cancelled_total,
                dr_cancelled := True\<rparr>) (deposit_requests s)\<rparr>)))))))))"

definition request_redeem :: "state \<Rightarrow> account_id \<Rightarrow> share_amount \<Rightarrow> rejection + state" where
  "request_redeem s acct shares =
     and_then (require_active s) (\<lambda>_.
     and_then (require_open_epoch s) (\<lambda>e.
     if shares = 0 then Inl ZeroAmount
     else if shares < min_redeem_shares (config s) then Inl AmountBelowMinimum
     else let key = RequestKey (ep_id e) acct in
     if (case bt_get (redeem_requests s) key of Some r \<Rightarrow> rr_claimed r | None \<Rightarrow> False)
     then Inl RequestAlreadySettled
     else
     and_then (map_err (\<lambda>_. InsufficientShareBalance)
       (share_checked_sub (acc_shares (account_of s acct)) shares)) (\<lambda>remaining.
     and_then (share_checked_add (escrowed_redeem_shares s) shares) (\<lambda>escrowed.
     and_then (share_checked_add (pending_redeem_shares e) shares) (\<lambda>epoch_total.
     let s = account_mut acct (\<lambda>a. a\<lparr>acc_shares := remaining\<rparr>) s;
         s = s\<lparr>escrowed_redeem_shares := escrowed\<rparr> in
     and_then (epoch_mut (\<lambda>e. e\<lparr>pending_redeem_shares := epoch_total\<rparr>) s) (\<lambda>s.
     let entry = (case bt_get (redeem_requests s) key of None \<Rightarrow> default_redeem | Some r \<Rightarrow> r) in
     and_then (share_checked_add (rr_shares entry) shares) (\<lambda>total.
     Inr (s\<lparr>redeem_requests :=
       bt_insert key (entry\<lparr>rr_shares := total, rr_cancelled := False\<rparr>)
         (redeem_requests s)\<rparr>))))))))"

definition cancel_redeem :: "state \<Rightarrow> account_id \<Rightarrow> rejection + state" where
  "cancel_redeem s acct =
     and_then (require_cancellation_allowed s) (\<lambda>_.
     and_then (ok_or (epoch s) EpochNotOpen) (\<lambda>e.
     if ep_phase e = CutOff then Inl CancellationAfterCutoff
     else let key = RequestKey (ep_id e) acct in
     and_then (ok_or (bt_get (redeem_requests s) key) RequestNotFound) (\<lambda>request.
     if rr_claimed request then Inl RequestAlreadySettled
     else if rr_cancelled request \<or> rr_shares request = 0 then Inl RequestAlreadyCancelled
     else
     and_then (share_checked_sub (escrowed_redeem_shares s) (rr_shares request)) (\<lambda>escrowed.
     and_then (share_checked_sub (pending_redeem_shares e) (rr_shares request)) (\<lambda>epoch_total.
     and_then (share_checked_add (acc_shares (account_of s acct)) (rr_shares request)) (\<lambda>returned.
     and_then (share_checked_add (rr_cancelled_shares request) (rr_shares request))
       (\<lambda>cancelled_total.
     let s = s\<lparr>escrowed_redeem_shares := escrowed\<rparr> in
     and_then (epoch_mut (\<lambda>e. e\<lparr>pending_redeem_shares := epoch_total\<rparr>) s) (\<lambda>s.
     let s = account_mut acct (\<lambda>a. a\<lparr>acc_shares := returned\<rparr>) s in
     Inr (case bt_get (redeem_requests s) key of
            None \<Rightarrow> s
          | Some entry \<Rightarrow> s\<lparr>redeem_requests :=
              bt_insert key (entry\<lparr>rr_shares := 0, rr_cancelled_shares := cancelled_total,
                rr_cancelled := True\<rparr>) (redeem_requests s)\<rparr>)))))))))"

section \<open>Cutoff, finalization and abort\<close>

definition cutoff_epoch :: "state \<Rightarrow> timestamp \<Rightarrow> rejection + state" where
  "cutoff_epoch s now =
     and_then (require_active s) (\<lambda>_.
     and_then (require_open_epoch s) (\<lambda>e.
     if now < ep_cutoff_at e then Inl CutoffNotReached
     else epoch_mut (\<lambda>e. e\<lparr>ep_phase := CutOff\<rparr>) s))"

definition finalize_epoch :: "'w uint_ops \<Rightarrow> state \<Rightarrow> rejection + state" where
  "finalize_epoch W s =
     and_then (require_active s) (\<lambda>_.
     and_then (ok_or (epoch s) EpochNotOpen) (\<lambda>e.
     if ep_phase e \<noteq> CutOff then Inl EpochNotCutOff
     else if bt_contains (epochs s) (ep_id e) then Inl EpochAlreadyFinalized
     else
     and_then (if has_remote_exposure s
       then and_then (ok_or (bt_get (epoch_valuation_locked s) (ep_id e)) RemoteValuationRequired)
         (\<lambda>locked. Inr ((pre_settlement_basis s e)\<lparr>pb_total_assets := locked\<rparr>))
       else Inr (pre_settlement_basis s e)) (\<lambda>basis.
     let deposit_assets = pending_deposit_assets e;
         redeem_shares = pending_redeem_shares e in
     and_then (shares_to_assets W redeem_shares basis) (\<lambda>redeem_assets.
     and_then (assets_to_shares W deposit_assets basis) (\<lambda>minted_shares.
     and_then (map_err (\<lambda>_. InsufficientRedemptionLiquidity)
       (asset_checked_sub (idle_backing (buckets s)) redeem_assets)) (\<lambda>idle_after_redemptions.
     and_then (asset_checked_add idle_after_redemptions deposit_assets) (\<lambda>idle.
     and_then (asset_checked_sub (pending_deposit_escrow (buckets s)) deposit_assets) (\<lambda>escrow.
     and_then (asset_checked_add (claim_reserve (buckets s)) redeem_assets) (\<lambda>reserve.
     and_then (and_then (share_checked_add (total_share_supply s) minted_shares)
       (\<lambda>t. share_checked_sub t redeem_shares)) (\<lambda>supply.
     and_then (share_checked_add (claimable_deposit_shares s) minted_shares) (\<lambda>claimable.
     and_then (share_checked_sub (escrowed_redeem_shares s) redeem_shares) (\<lambda>escrowed.
     and_then (share_checked_add (burned_redemption_shares s) redeem_shares) (\<lambda>burned.
     and_then (epoch_next (ep_id e)) (\<lambda>next_id.
     let terms = \<lparr>et_id = ep_id e, et_config_version = ep_config_version e,
           et_cutoff_at = ep_cutoff_at e, et_total_assets = pb_total_assets basis,
           et_total_supply = pb_total_supply basis, et_virtual_assets = pb_virtual_assets basis,
           et_virtual_shares = pb_virtual_shares basis, et_deposit_assets = deposit_assets,
           et_minted_shares = minted_shares, et_redeem_shares = redeem_shares,
           et_redeem_assets = redeem_assets, et_deposit_dust = 0, et_redeem_dust = 0\<rparr> in
     and_then (entitlements_of W s (ep_id e) terms) (\<lambda>owed.
     and_then (share_checked_sub minted_shares (ent_deposit_shares owed)) (\<lambda>deposit_dust.
     and_then (asset_checked_sub redeem_assets (ent_redeem_assets owed)) (\<lambda>redeem_dust.
     let terms = terms\<lparr>et_deposit_dust := deposit_dust, et_redeem_dust := redeem_dust\<rparr> in
     Inr (s\<lparr>buckets := (buckets s)\<lparr>idle_backing := idle, pending_deposit_escrow := escrow,
              claim_reserve := reserve\<rparr>,
            total_share_supply := supply,
            claimable_deposit_shares := claimable,
            escrowed_redeem_shares := escrowed,
            burned_redemption_shares := burned,
            epochs := bt_insert (ep_id e) (Finalized terms) (epochs s),
            last_cutoff_at := ep_cutoff_at e,
            next_epoch_id := next_id,
            epoch := None\<rparr>))))))))))))))))))"

definition abort_epoch :: "state \<Rightarrow> account_id \<Rightarrow> rejection + state" where
  "abort_epoch s actor =
     and_then (require_guardian_or_admin s actor) (\<lambda>_.
     if vault_state s \<noteq> Frozen then Inl InvalidVaultState
     else and_then (ok_or (epoch s) EpochNotOpen) (\<lambda>e.
     if bt_contains (epochs s) (ep_id e) then Inl EpochAlreadyFinalized
     else and_then (epoch_next (ep_id e)) (\<lambda>next_id.
     Inr (s\<lparr>epochs := bt_insert (ep_id e)
              (Aborted \<lparr>at_id = ep_id e, at_config_version = ep_config_version e,
                at_cutoff_at = ep_cutoff_at e, refund_assets = pending_deposit_assets e,
                refund_shares = pending_redeem_shares e\<rparr>) (epochs s),
            last_cutoff_at := ep_cutoff_at e,
            next_epoch_id := next_id,
            epoch := None\<rparr>))))"

section \<open>Claims and refunds\<close>

definition claim_deposit :: "'w uint_ops \<Rightarrow> state \<Rightarrow> account_id \<Rightarrow> epoch_id \<Rightarrow> rejection + state" where
  "claim_deposit W s acct eid =
     and_then (ok_or (finalized_terms s eid) EpochNotFinalized) (\<lambda>terms.
     let key = RequestKey eid acct in
     and_then (ok_or (bt_get (deposit_requests s) key) RequestNotFound) (\<lambda>request.
     if dr_cancelled request then Inl RequestAlreadyCancelled
     else if dr_claimed request then Inl ClaimAlreadyConsumed
     else if dr_assets request = 0 then Inl ClaimNotFound
     else
     and_then (shares_for W terms (dr_assets request)) (\<lambda>shares.
     and_then (share_checked_sub (claimable_deposit_shares s) shares) (\<lambda>claimable.
     and_then (share_checked_add (acc_shares (account_of s acct)) shares) (\<lambda>credited.
     let s = s\<lparr>claimable_deposit_shares := claimable\<rparr>;
         s = account_mut acct (\<lambda>a. a\<lparr>acc_shares := credited\<rparr>) s in
     Inr (case bt_get (deposit_requests s) key of
            None \<Rightarrow> s
          | Some entry \<Rightarrow> s\<lparr>deposit_requests :=
              bt_insert key (entry\<lparr>dr_claimed := True\<rparr>) (deposit_requests s)\<rparr>))))))"

definition claim_redeem :: "'w uint_ops \<Rightarrow> state \<Rightarrow> account_id \<Rightarrow> epoch_id \<Rightarrow> rejection + state" where
  "claim_redeem W s acct eid =
     and_then (ok_or (finalized_terms s eid) EpochNotFinalized) (\<lambda>terms.
     let key = RequestKey eid acct in
     and_then (ok_or (bt_get (redeem_requests s) key) RequestNotFound) (\<lambda>request.
     if rr_cancelled request then Inl RequestAlreadyCancelled
     else if rr_claimed request then Inl ClaimAlreadyConsumed
     else if rr_shares request = 0 then Inl ClaimNotFound
     else
     and_then (assets_for W terms (rr_shares request)) (\<lambda>assets.
     and_then (asset_checked_sub (claim_reserve (buckets s)) assets) (\<lambda>reserve.
     and_then (asset_checked_add (acc_assets (account_of s acct)) assets) (\<lambda>credited.
     let s = s\<lparr>buckets := (buckets s)\<lparr>claim_reserve := reserve\<rparr>\<rparr>;
         s = account_mut acct (\<lambda>a. a\<lparr>acc_assets := credited\<rparr>) s in
     Inr (case bt_get (redeem_requests s) key of
            None \<Rightarrow> s
          | Some entry \<Rightarrow> s\<lparr>redeem_requests :=
              bt_insert key (entry\<lparr>rr_claimed := True\<rparr>) (redeem_requests s)\<rparr>))))))"

definition claim_aborted_deposit :: "state \<Rightarrow> account_id \<Rightarrow> epoch_id \<Rightarrow> rejection + state" where
  "claim_aborted_deposit s acct eid =
     (if aborted_terms_of s eid = None then Inl EpochNotAborted
      else let key = RequestKey eid acct in
     and_then (ok_or (bt_get (deposit_requests s) key) RequestNotFound) (\<lambda>request.
     if dr_cancelled request then Inl RequestAlreadyCancelled
     else if dr_claimed request then Inl ClaimAlreadyConsumed
     else if dr_assets request = 0 then Inl ClaimNotFound
     else
     and_then (asset_checked_sub (pending_deposit_escrow (buckets s)) (dr_assets request)) (\<lambda>escrow.
     and_then (asset_checked_add (acc_assets (account_of s acct)) (dr_assets request)) (\<lambda>returned.
     let s = s\<lparr>buckets := (buckets s)\<lparr>pending_deposit_escrow := escrow\<rparr>\<rparr>;
         s = account_mut acct (\<lambda>a. a\<lparr>acc_assets := returned\<rparr>) s in
     Inr (case bt_get (deposit_requests s) key of
            None \<Rightarrow> s
          | Some entry \<Rightarrow> s\<lparr>deposit_requests :=
              bt_insert key (entry\<lparr>dr_claimed := True\<rparr>) (deposit_requests s)\<rparr>)))))"

definition claim_aborted_redeem :: "state \<Rightarrow> account_id \<Rightarrow> epoch_id \<Rightarrow> rejection + state" where
  "claim_aborted_redeem s acct eid =
     (if aborted_terms_of s eid = None then Inl EpochNotAborted
      else let key = RequestKey eid acct in
     and_then (ok_or (bt_get (redeem_requests s) key) RequestNotFound) (\<lambda>request.
     if rr_cancelled request then Inl RequestAlreadyCancelled
     else if rr_claimed request then Inl ClaimAlreadyConsumed
     else if rr_shares request = 0 then Inl ClaimNotFound
     else
     and_then (share_checked_sub (escrowed_redeem_shares s) (rr_shares request)) (\<lambda>escrowed.
     and_then (share_checked_add (acc_shares (account_of s acct)) (rr_shares request)) (\<lambda>returned.
     let s = s\<lparr>escrowed_redeem_shares := escrowed\<rparr>;
         s = account_mut acct (\<lambda>a. a\<lparr>acc_shares := returned\<rparr>) s in
     Inr (case bt_get (redeem_requests s) key of
            None \<Rightarrow> s
          | Some entry \<Rightarrow> s\<lparr>redeem_requests :=
              bt_insert key (entry\<lparr>rr_claimed := True\<rparr>) (redeem_requests s)\<rparr>)))))"

section \<open>Epoch opening and vault state\<close>

definition open_next_epoch :: "state \<Rightarrow> timestamp \<Rightarrow> rejection + state" where
  "open_next_epoch s now =
     and_then (require_active s) (\<lambda>_.
     if epoch s \<noteq> None then Inl EpochAlreadyOpen
     else if now < last_cutoff_at s then Inl TimestampNotMonotonic
     else
     and_then (virtual_shares_for (cfg_asset_decimals (config s)) (cfg_share_decimals (config s)))
       (\<lambda>virtual_shares.
     and_then (checked_add_seconds now (epoch_duration (config s))) (\<lambda>cutoff.
     Inr (s\<lparr>epoch := Some (new_epoch (next_epoch_id s) now cutoff (config s) virtual_shares)\<rparr>))))"

definition pause :: "state \<Rightarrow> account_id \<Rightarrow> rejection + state" where
  "pause s actor =
     and_then (require_guardian_or_admin s actor) (\<lambda>_.
     if vault_state s \<noteq> Active then Inl InvalidVaultState
     else Inr (s\<lparr>vault_state := Paused\<rparr>))"

definition unpause :: "state \<Rightarrow> account_id \<Rightarrow> rejection + state" where
  "unpause s actor =
     (if actor \<noteq> admin (authority s) then Inl UnauthorizedActor
      else if vault_state s \<noteq> Paused then Inl InvalidVaultState
      else Inr (s\<lparr>vault_state := Active\<rparr>))"

definition freeze :: "state \<Rightarrow> account_id \<Rightarrow> rejection + state" where
  "freeze s actor =
     and_then (require_guardian_or_admin s actor) (\<lambda>_.
     if vault_state s = Frozen then Inl InvalidVaultState
     else Inr (s\<lparr>vault_state := Frozen\<rparr>))"

section \<open>Remote transfer cycles\<close>

definition clear_cycle :: "state \<Rightarrow> state" where
  "clear_cycle s =
     s\<lparr>active_cycle := Cycle_None, active_transfer_id := 0, active_amount := 0,
       close_requested := False\<rparr>"

definition set_accepted :: "state \<Rightarrow> asset_amount \<Rightarrow> state" where
  "set_accepted s reported_value =
     s\<lparr>buckets := (buckets s)\<lparr>accepted_remote_value :=
       (if reported_value < remote_principal_cap s then reported_value
        else remote_principal_cap s)\<rparr>\<rparr>"

definition begin_allocate :: "state \<Rightarrow> account_id \<Rightarrow> transfer_id \<Rightarrow> asset_amount \<Rightarrow> rejection + state" where
  "begin_allocate s actor tid amount =
     and_then (require_admin s actor) (\<lambda>_.
     and_then (require_active s) (\<lambda>_.
     and_then (require_open_epoch s) (\<lambda>e.
     if ep_phase e \<noteq> Open then Inl AllocateNotAllowed
     else
     and_then (require_no_cycle s) (\<lambda>_.
     and_then (require_fresh_transfer s tid) (\<lambda>_.
     if amount = 0 then Inl ZeroAmount
     else
     and_then (map_err (\<lambda>_. InsufficientRedemptionLiquidity)
       (asset_checked_sub (idle_backing (buckets s)) amount)) (\<lambda>idle.
     and_then (asset_checked_add (outbound_in_transit (buckets s)) amount) (\<lambda>outbound.
     Inr (s\<lparr>buckets := (buckets s)\<lparr>idle_backing := idle, outbound_in_transit := outbound\<rparr>,
            used_transfer_ids := insert tid (used_transfer_ids s),
            active_cycle := Cycle_Allocate,
            active_transfer_id := tid,
            active_amount := amount\<rparr>))))))))"

definition complete_allocation :: "state \<Rightarrow> transfer_id \<Rightarrow> asset_amount \<Rightarrow> rejection + state" where
  "complete_allocation s tid reported_value =
     (if close_requested s then Inr s
      else if active_cycle s \<noteq> Cycle_Allocate then Inl NoActiveTransfer
      else if active_transfer_id s \<noteq> tid then Inl NoActiveTransfer
      else let amount = active_amount s in
      and_then (asset_checked_sub (outbound_in_transit (buckets s)) amount) (\<lambda>outbound.
      and_then (asset_checked_add (remote_principal_cap s) amount) (\<lambda>cap.
      let s = s\<lparr>buckets := (buckets s)\<lparr>outbound_in_transit := outbound\<rparr>,
                remote_principal_cap := cap\<rparr>
      in Inr (clear_cycle (set_accepted s reported_value)))))"

definition begin_recall :: "state \<Rightarrow> account_id \<Rightarrow> transfer_id \<Rightarrow> asset_amount \<Rightarrow> rejection + state" where
  "begin_recall s actor tid amount =
     and_then (require_admin s actor) (\<lambda>_.
     and_then (require_no_cycle s) (\<lambda>_.
     and_then (require_fresh_transfer s tid) (\<lambda>_.
     if amount = 0 then Inl ZeroAmount
     else if remote_principal_cap s < amount then Inl InsufficientRemotePrincipal
     else Inr (s\<lparr>recall_baseline_value := accepted_remote_value (buckets s),
                 recall_baseline_loss := inbound_cumulative_loss s,
                 pending_recall_id := tid,
                 pending_recall_principal := amount,
                 used_transfer_ids := insert tid (used_transfer_ids s),
                 active_cycle := Cycle_Recall,
                 active_transfer_id := tid,
                 active_amount := amount\<rparr>))))"

definition accept_recall_sent ::
  "state \<Rightarrow> transfer_id \<Rightarrow> asset_amount \<Rightarrow> asset_amount \<Rightarrow> asset_amount \<Rightarrow> rejection + state" where
  "accept_recall_sent s tid principal_n actual loss =
     (if active_cycle s \<noteq> Cycle_Recall then Inl NoActiveTransfer
      else if active_transfer_id s \<noteq> tid then Inl NoActiveTransfer
      else if active_amount s < principal_n then Inl InvalidRecallSentAmounts
      else
      and_then (asset_checked_add actual loss) (\<lambda>sum.
      if sum \<noteq> principal_n then Inl InvalidRecallSentAmounts
      else if remote_principal_cap s < principal_n then Inl InsufficientRemotePrincipal
      else let s = set_accepted s (recall_baseline_value s) in
      and_then (asset_checked_add (recall_baseline_loss s) loss) (\<lambda>settled_loss.
      let s = (if inbound_cumulative_loss s < settled_loss
               then s\<lparr>inbound_cumulative_loss := settled_loss\<rparr> else s);
          s = s\<lparr>recall_baseline_value := 0, recall_baseline_loss := 0\<rparr>;
          accepted = accepted_remote_value (buckets s);
          accepted_decrease = (if accepted < principal_n then accepted else principal_n) in
      and_then (asset_checked_sub (remote_principal_cap s) principal_n) (\<lambda>cap.
      and_then (asset_checked_sub accepted accepted_decrease) (\<lambda>accepted'.
      and_then (asset_checked_add (recognized_loss s) loss) (\<lambda>recognized.
      let from_unattributed =
            (if actual < unattributed_inbound (buckets s) then actual
             else unattributed_inbound (buckets s)) in
      and_then (asset_checked_sub (unattributed_inbound (buckets s)) from_unattributed)
        (\<lambda>unattributed.
      and_then (asset_checked_add (idle_backing (buckets s)) from_unattributed) (\<lambda>idle.
      and_then (asset_checked_sub actual from_unattributed) (\<lambda>in_flight.
      and_then (asset_checked_add (inbound_in_transit (buckets s)) in_flight) (\<lambda>inbound.
      Inr (clear_cycle
        (s\<lparr>remote_principal_cap := cap,
           recognized_loss := recognized,
           buckets := (buckets s)\<lparr>accepted_remote_value := accepted',
             unattributed_inbound := unattributed, idle_backing := idle,
             inbound_in_transit := inbound\<rparr>,
           pending_recall_id := 0,
           pending_recall_principal := 0\<rparr>))))))))))))"

text \<open>Assets that arrive first settle what is in flight; the rest waits for an open recall or
  is external.\<close>

definition attribute_in_flight :: "state \<Rightarrow> asset_amount \<Rightarrow> rejection + (state \<times> asset_amount)" where
  "attribute_in_flight s amount =
     (if inbound_in_transit (buckets s) \<noteq> 0 then
        (let attributed = (if amount < inbound_in_transit (buckets s) then amount
                           else inbound_in_transit (buckets s)) in
         and_then (asset_checked_sub (inbound_in_transit (buckets s)) attributed) (\<lambda>inbound.
         and_then (asset_checked_add (idle_backing (buckets s)) attributed) (\<lambda>idle.
         and_then (asset_checked_sub amount attributed) (\<lambda>remaining.
         Inr (s\<lparr>buckets := (buckets s)\<lparr>inbound_in_transit := inbound, idle_backing := idle\<rparr>\<rparr>,
              remaining)))))
      else Inr (s, amount))"

definition record_surplus :: "state \<Rightarrow> asset_amount \<Rightarrow> rejection + state" where
  "record_surplus s remaining =
     (if remaining = 0 then Inr s
      else if pending_recall_principal s \<noteq> 0 then
        and_then (asset_checked_add (unattributed_inbound (buckets s)) remaining) (\<lambda>u.
        Inr (s\<lparr>buckets := (buckets s)\<lparr>unattributed_inbound := u\<rparr>\<rparr>))
      else
        and_then (asset_checked_add (external_inflow s) remaining) (\<lambda>inflow.
        and_then (asset_checked_add (unattributed_balance (buckets s)) remaining) (\<lambda>u.
        Inr (s\<lparr>external_inflow := inflow,
               buckets := (buckets s)\<lparr>unattributed_balance := u\<rparr>\<rparr>))))"

definition observe_inbound :: "state \<Rightarrow> asset_amount \<Rightarrow> rejection + state" where
  "observe_inbound s amount =
     (if amount = 0 then Inl ZeroAmount
      else and_then (attribute_in_flight s amount) (\<lambda>(s, remaining). record_surplus s remaining))"

definition value_during_recall :: "state \<Rightarrow> asset_amount \<Rightarrow> asset_amount" where
  "value_during_recall s cumulative_loss =
     (let loss = saturating_sub_word cumulative_loss (recall_baseline_loss s)
      in saturating_sub_word (recall_baseline_value s) loss)"

definition apply_remote_valuation :: "state \<Rightarrow> asset_amount \<Rightarrow> asset_amount \<Rightarrow> rejection + state" where
  "apply_remote_valuation s reported_value newly_realized_loss =
     and_then (asset_checked_add (inbound_cumulative_loss s) newly_realized_loss) (\<lambda>cumulative_loss.
     if close_requested s then Inr (s\<lparr>inbound_cumulative_loss := cumulative_loss\<rparr>)
     else let value = (if active_cycle s = Cycle_Recall then value_during_recall s cumulative_loss
                       else reported_value)
     in Inr ((set_accepted s value)\<lparr>inbound_cumulative_loss := cumulative_loss\<rparr>))"

definition lock_remote_valuation :: "state \<Rightarrow> rejection + state" where
  "lock_remote_valuation s =
     (if close_requested s then Inr s
      else
      and_then (ok_or (epoch s) EpochNotOpen) (\<lambda>e.
      if ep_phase e \<noteq> CutOff then Inl EpochNotCutOff
      else if bt_contains (epoch_valuation_locked s) (ep_id e) then Inl ValuationAlreadyFixed
      else Inr (s\<lparr>epoch_valuation_locked :=
        bt_insert (ep_id e) (managed_backing s) (epoch_valuation_locked s)\<rparr>)))"

definition credit_remote :: "state \<Rightarrow> asset_amount \<Rightarrow> rejection + state" where
  "credit_remote s credited =
     and_then (asset_checked_add (remote_principal_cap s) credited) (\<lambda>cap.
     and_then (asset_checked_add (accepted_remote_value (buckets s)) credited) (\<lambda>accepted.
     Inr (s\<lparr>remote_principal_cap := cap,
            buckets := (buckets s)\<lparr>accepted_remote_value := accepted\<rparr>\<rparr>)))"

definition request_close :: "state \<Rightarrow> account_id \<Rightarrow> transfer_id \<Rightarrow> rejection + state" where
  "request_close s actor tid =
     and_then (require_admin s actor) (\<lambda>_.
     if active_cycle s \<noteq> Cycle_Allocate \<or> active_transfer_id s \<noteq> tid then Inl NoActiveTransfer
     else if close_requested s then Inl CloseAlreadyRequested
     else Inr (s\<lparr>close_requested := True\<rparr>))"

definition settle_close :: "state \<Rightarrow> transfer_id \<Rightarrow> asset_amount \<Rightarrow> rejection + state" where
  "settle_close s tid credited =
     (if active_transfer_id s \<noteq> tid then Inl NoActiveTransfer
      else if active_cycle s \<noteq> Cycle_Allocate \<or> \<not> close_requested s then Inl NoPendingSettlement
      else let claim = active_amount s in
      if claim < credited then Inl SettlementMismatch
      else
      and_then (asset_checked_sub claim credited) (\<lambda>shortfall.
      and_then (asset_checked_sub (outbound_in_transit (buckets s)) claim) (\<lambda>outbound.
      and_then (credit_remote
        (s\<lparr>buckets := (buckets s)\<lparr>outbound_in_transit := outbound\<rparr>\<rparr>) credited) (\<lambda>s.
      and_then (asset_checked_add (impaired_transport s) shortfall) (\<lambda>impaired.
      and_then (asset_checked_add (cumulative_impairment s) shortfall) (\<lambda>cumulative.
      Inr (clear_cycle (s\<lparr>impaired_transport := impaired,
        cumulative_impairment := cumulative\<rparr>))))))))"

definition begin_recover :: "state \<Rightarrow> account_id \<Rightarrow> transfer_id \<Rightarrow> rejection + state" where
  "begin_recover s actor tid =
     and_then (require_admin s actor) (\<lambda>_.
     and_then (require_no_cycle s) (\<lambda>_.
     and_then (require_fresh_transfer s tid) (\<lambda>_.
     if impaired_transport s = 0 then Inl NothingToRecover
     else Inr (s\<lparr>used_transfer_ids := insert tid (used_transfer_ids s),
                 active_cycle := Cycle_Recover,
                 active_transfer_id := tid,
                 active_amount := 0\<rparr>))))"

definition settle_recover :: "state \<Rightarrow> transfer_id \<Rightarrow> asset_amount \<Rightarrow> rejection + state" where
  "settle_recover s tid credited =
     (if active_transfer_id s \<noteq> tid then Inl NoActiveTransfer
      else if active_cycle s \<noteq> Cycle_Recover then Inl NoPendingSettlement
      else if impaired_transport s < credited then Inl SettlementMismatch
      else
      and_then (asset_checked_sub (impaired_transport s) credited) (\<lambda>impaired.
      and_then (credit_remote (s\<lparr>impaired_transport := impaired\<rparr>) credited) (\<lambda>s.
      Inr (clear_cycle s))))"

section \<open>Applying an operation\<close>

fun apply_op :: "'w uint_ops \<Rightarrow> state \<Rightarrow> operation \<Rightarrow> rejection + state" where
  "apply_op W s (RequestDeposit acct assets) = request_deposit s acct assets"
| "apply_op W s (CancelDeposit acct) = cancel_deposit s acct"
| "apply_op W s (RequestRedeem acct shares) = request_redeem s acct shares"
| "apply_op W s (CancelRedeem acct) = cancel_redeem s acct"
| "apply_op W s (CutoffEpoch now) = cutoff_epoch s now"
| "apply_op W s FinalizeEpoch = finalize_epoch W s"
| "apply_op W s (AbortEpoch actor) = abort_epoch s actor"
| "apply_op W s (ClaimDeposit acct eid) = claim_deposit W s acct eid"
| "apply_op W s (ClaimRedeem acct eid) = claim_redeem W s acct eid"
| "apply_op W s (ClaimAbortedDeposit acct eid) = claim_aborted_deposit s acct eid"
| "apply_op W s (ClaimAbortedRedeem acct eid) = claim_aborted_redeem s acct eid"
| "apply_op W s (OpenNextEpoch now) = open_next_epoch s now"
| "apply_op W s (Pause actor) = pause s actor"
| "apply_op W s (Unpause actor) = unpause s actor"
| "apply_op W s (Freeze actor) = freeze s actor"
| "apply_op W s (BeginAllocate actor tid amount) = begin_allocate s actor tid amount"
| "apply_op W s (CompleteAllocation tid value) = complete_allocation s tid value"
| "apply_op W s (BeginRecall actor tid amount) = begin_recall s actor tid amount"
| "apply_op W s (AcceptRecallSent tid principal_n actual loss) =
     accept_recall_sent s tid principal_n actual loss"
| "apply_op W s (ObserveInbound amount) = observe_inbound s amount"
| "apply_op W s (ApplyRemoteValuation value loss) = apply_remote_valuation s value loss"
| "apply_op W s LockRemoteValuation = lock_remote_valuation s"
| "apply_op W s (RequestClose actor tid) = request_close s actor tid"
| "apply_op W s (SettleClose tid credited) = settle_close s tid credited"
| "apply_op W s (BeginRecover actor tid) = begin_recover s actor tid"
| "apply_op W s (SettleRecover tid credited) = settle_recover s tid credited"

text \<open>Reachable states: a valid genesis followed by accepted operations.\<close>

inductive reachable :: "'w uint_ops \<Rightarrow> state \<Rightarrow> bool" for W where
  genesis: "state_new g = Inr s \<Longrightarrow> reachable W s"
| step: "reachable W s \<Longrightarrow> apply_op W s op = Inr t \<Longrightarrow> reachable W t"

text \<open>A run of operations in which a rejected operation leaves the state as it was.\<close>

fun run :: "'w uint_ops \<Rightarrow> state \<Rightarrow> operation list \<Rightarrow> state" where
  "run W s [] = s"
| "run W s (op # ops) = run W (case apply_op W s op of Inl _ \<Rightarrow> s | Inr t \<Rightarrow> t) ops"

lemma run_reachable: "reachable W s \<Longrightarrow> reachable W (run W s ops)"
  by (induction ops arbitrary: s) (auto split: sum.splits intro: reachable.step)

end
