(* ===== verification/Vault_Inv.thy ===== *)
theory Vault_Inv
  imports Claim_Book Vault_Ops
begin

text \<open>
  The accounting invariant of the vault. It speaks of exact sums of natural numbers over
  the request, account and epoch records, so it is independent of the checks of
  \<open>invariant.rs\<close>, which recompute the same facts in checked 128-bit arithmetic and can
  also fail by overflow. Both sides of the vault are read as claim books.
\<close>

section \<open>The two books of a state\<close>

definition dep_view :: "deposit_request \<Rightarrow> nat \<times> bool" where
  "dep_view r = (unat (dr_assets r), dr_claimed r)"

definition red_view :: "redeem_request \<Rightarrow> nat \<times> bool" where
  "red_view r = (unat (rr_shares r), rr_claimed r)"

fun dep_outcome :: "epoch_outcome \<Rightarrow> book_outcome" where
  "dep_outcome (Finalized t) =
     Settled (unat (et_deposit_assets t)) (unat (et_minted_shares t)) (unat (et_deposit_dust t))
       (shares_floor (terms_basis t))"
| "dep_outcome (Aborted t) = Refund (unat (refund_assets t))"

fun red_outcome :: "epoch_outcome \<Rightarrow> book_outcome" where
  "red_outcome (Finalized t) =
     Settled (unat (et_redeem_shares t)) (unat (et_redeem_assets t)) (unat (et_redeem_dust t))
       (assets_floor (terms_basis t))"
| "red_outcome (Aborted t) = Refund (unat (refund_shares t))"

definition deposit_book :: "state \<Rightarrow> book" where
  "deposit_book s =
     \<lparr>bk_requests = map (map_prod (\<lambda>k. k) dep_view) (deposit_requests s),
      bk_outcomes = map (map_prod (\<lambda>k. k) dep_outcome) (epochs s),
      bk_current = map_option (\<lambda>e. (ep_id e, unat (pending_deposit_assets e))) (epoch s),
      bk_escrow = unat (pending_deposit_escrow (buckets s)),
      bk_pot = unat (claimable_deposit_shares s)\<rparr>"

definition redeem_book :: "state \<Rightarrow> book" where
  "redeem_book s =
     \<lparr>bk_requests = map (map_prod (\<lambda>k. k) red_view) (redeem_requests s),
      bk_outcomes = map (map_prod (\<lambda>k. k) red_outcome) (epochs s),
      bk_current = map_option (\<lambda>e. (ep_id e, unat (pending_redeem_shares e))) (epoch s),
      bk_escrow = unat (escrowed_redeem_shares s),
      bk_pot = unat (claim_reserve (buckets s))\<rparr>"

lemmas book_defs = deposit_book_def redeem_book_def

section \<open>The invariant\<close>

definition acct_sum :: "(account \<Rightarrow> u128) \<Rightarrow> state \<Rightarrow> nat" where
  "acct_sum f s = sum_list (map (\<lambda>p. unat (f (snd p))) (accounts s))"

definition off_vault :: "state \<Rightarrow> nat" where
  "off_vault s =
     unat (outbound_in_transit (buckets s)) + unat (inbound_in_transit (buckets s)) +
     unat (remote_principal_cap s) + unat (recognized_loss s) + unat (impaired_transport s)"

definition assets_ok :: "state \<Rightarrow> bool" where
  "assets_ok s \<longleftrightarrow>
     acct_sum acc_assets s + unat (pending_deposit_escrow (buckets s)) +
     unat (idle_backing (buckets s)) + unat (claim_reserve (buckets s)) +
     unat (unattributed_balance (buckets s)) + off_vault s =
     unat (initial_asset_supply s) + unat (external_inflow s)"

definition shares_ok :: "state \<Rightarrow> bool" where
  "shares_ok s \<longleftrightarrow>
     acct_sum acc_shares s + unat (escrowed_redeem_shares s) + unat (claimable_deposit_shares s) =
     unat (total_share_supply s)"

definition burned_in :: "epoch_id \<times> epoch_outcome \<Rightarrow> nat" where
  "burned_in p = (case snd p of Finalized t \<Rightarrow> unat (et_redeem_shares t) | Aborted _ \<Rightarrow> 0)"

definition burned_ok :: "state \<Rightarrow> bool" where
  "burned_ok s \<longleftrightarrow> sum_list (map burned_in (epochs s)) = unat (burned_redemption_shares s)"

definition flags_ok :: "state \<Rightarrow> bool" where
  "flags_ok s \<longleftrightarrow>
     (\<forall>p \<in> set (deposit_requests s). deposit_flags_agree (snd p)) \<and>
     (\<forall>p \<in> set (redeem_requests s). redeem_flags_agree (snd p))"

definition next_id_bound :: "state \<Rightarrow> nat" where
  "next_id_bound s = (case epoch s of None \<Rightarrow> unat (next_epoch_id s) | Some e \<Rightarrow> unat (ep_id e))"

definition ids_ok :: "state \<Rightarrow> bool" where
  "ids_ok s \<longleftrightarrow> (\<forall>p \<in> set (epochs s). unat (fst p) < next_id_bound s)"

definition slot_ok :: "state \<Rightarrow> bool" where
  "slot_ok s \<longleftrightarrow>
     (\<forall>e. epoch s = Some e \<longrightarrow> ep_virtual_assets e = 1 \<and> ep_virtual_shares e \<noteq> 0)"

definition terms_ok :: "epoch_id \<times> epoch_outcome \<Rightarrow> bool" where
  "terms_ok p =
     (case snd p of
        Finalized t \<Rightarrow> et_id t = fst p \<and> sides_fit (terms_basis t) \<and> asset_n (terms_basis t) \<noteq> 0 \<and>
          share_n (terms_basis t) \<noteq> 0 \<and> unat (et_redeem_assets t) \<le> unat (et_total_assets t)
      | Aborted t \<Rightarrow> at_id t = fst p)"

definition outcomes_ok :: "state \<Rightarrow> bool" where
  "outcomes_ok s \<longleftrightarrow> (\<forall>p \<in> set (epochs s). terms_ok p)"

definition cycle_ok :: "state \<Rightarrow> bool" where
  "cycle_ok s \<longleftrightarrow>
     outbound_in_transit (buckets s) = (if active_cycle s = Cycle_Allocate then active_amount s else 0) \<and>
     pending_recall_principal s = (if active_cycle s = Cycle_Recall then active_amount s else 0) \<and>
     pending_recall_id s = (if active_cycle s = Cycle_Recall then active_transfer_id s else 0) \<and>
     (active_cycle s = Cycle_None \<longrightarrow> active_transfer_id s = 0) \<and>
     (active_cycle s \<noteq> Cycle_None \<longrightarrow>
        active_transfer_id s \<in> used_transfer_ids s \<and> active_transfer_id s \<noteq> 0) \<and>
     (active_cycle s \<in> {Cycle_None, Cycle_Recover} \<longleftrightarrow> active_amount s = 0) \<and>
     (close_requested s \<longrightarrow> active_cycle s = Cycle_Allocate) \<and>
     (active_cycle s = Cycle_Recall \<longrightarrow> unat (active_amount s) \<le> unat (remote_principal_cap s) \<and>
        unat (recall_baseline_value s) \<le> unat (remote_principal_cap s)) \<and>
     unat (recall_baseline_loss s) \<le> unat (inbound_cumulative_loss s)"

definition remote_ok :: "state \<Rightarrow> bool" where
  "remote_ok s \<longleftrightarrow>
     unat (accepted_remote_value (buckets s)) \<le> unat (remote_principal_cap s) \<and>
     unat (impaired_transport s) \<le> unat (cumulative_impairment s)"

definition vault_inv :: "state \<Rightarrow> bool" where
  "vault_inv s \<longleftrightarrow>
     bt_wf (accounts s) \<and> bt_wf (epoch_valuation_locked s) \<and> flags_ok s \<and>
     book_ok (deposit_book s) \<and> book_ok (redeem_book s) \<and>
     ids_ok s \<and> slot_ok s \<and> outcomes_ok s \<and>
     assets_ok s \<and> shares_ok s \<and> burned_ok s \<and> cycle_ok s \<and> remote_ok s"

lemmas inv_parts = assets_ok_def shares_ok_def burned_ok_def flags_ok_def ids_ok_def slot_ok_def
  outcomes_ok_def cycle_ok_def remote_ok_def off_vault_def acct_sum_def next_id_bound_def

section \<open>Guards\<close>

named_theorems guard_simps \<open>what an accepted guard says\<close>

lemma require_simps [guard_simps]:
  "require_active s = Inr u \<longleftrightarrow> vault_state s = Active"
  "require_cancellation_allowed s = Inr u \<longleftrightarrow> vault_state s \<noteq> Frozen"
  "require_admin s a = Inr u \<longleftrightarrow> a = admin (authority s)"
  "require_guardian_or_admin s a = Inr u \<longleftrightarrow> a = admin (authority s) \<or> a = guardian (authority s)"
  "require_no_cycle s = Inr u \<longleftrightarrow> active_cycle s = Cycle_None"
  "require_fresh_transfer s tid = Inr u \<longleftrightarrow> tid \<noteq> 0 \<and> tid \<notin> used_transfer_ids s"
  by (simp_all add: require_active_def require_cancellation_allowed_def require_admin_def
      require_guardian_or_admin_def require_no_cycle_def require_fresh_transfer_def
      split: vault_state.splits)

lemma require_open_epoch_Inr [guard_simps]:
  "require_open_epoch s = Inr e \<longleftrightarrow> epoch s = Some e \<and> ep_phase e = Open"
  by (auto simp: require_open_epoch_def result_simps split: epoch_phase.split_asm)

lemma epoch_mut_Inr [guard_simps]:
  "epoch_mut f s = Inr t \<longleftrightarrow> (\<exists>e. epoch s = Some e \<and> t = s\<lparr>epoch := Some (f e)\<rparr>)"
  by (auto simp: epoch_mut_def result_simps)

section \<open>Remote cycles keep the invariant\<close>

text \<open>The remote operations leave every record of the users' side alone.\<close>

definition user_frame :: "state \<Rightarrow> state \<Rightarrow> bool" where
  "user_frame s t \<longleftrightarrow>
     accounts t = accounts s \<and> epochs t = epochs s \<and> epoch t = epoch s \<and>
     next_epoch_id t = next_epoch_id s \<and>
     deposit_requests t = deposit_requests s \<and> redeem_requests t = redeem_requests s \<and>
     pending_deposit_escrow (buckets t) = pending_deposit_escrow (buckets s) \<and>
     claim_reserve (buckets t) = claim_reserve (buckets s) \<and>
     total_share_supply t = total_share_supply s \<and>
     escrowed_redeem_shares t = escrowed_redeem_shares s \<and>
     claimable_deposit_shares t = claimable_deposit_shares s \<and>
     burned_redemption_shares t = burned_redemption_shares s"

lemma user_frame_books:
  "user_frame s t \<Longrightarrow> deposit_book t = deposit_book s \<and> redeem_book t = redeem_book s"
  by (simp add: user_frame_def book_defs)

lemma user_frame_inv:
  assumes "user_frame s t" "vault_inv s" "bt_wf (epoch_valuation_locked t)"
    and "assets_ok t" "cycle_ok t" "remote_ok t"
  shows "vault_inv t"
proof -
  have "next_id_bound t = next_id_bound s"
    using assms(1) by (simp add: user_frame_def next_id_bound_def split: option.split)
  then show ?thesis
    using assms user_frame_books [OF assms(1)]
    by (simp add: vault_inv_def user_frame_def flags_ok_def ids_ok_def slot_ok_def
        outcomes_ok_def shares_ok_def burned_ok_def acct_sum_def)
qed

lemma vault_inv_parts:
  assumes "vault_inv s"
  shows "bt_wf (accounts s)" "bt_wf (epoch_valuation_locked s)" "flags_ok s"
    "book_ok (deposit_book s)" "book_ok (redeem_book s)" "ids_ok s" "slot_ok s" "outcomes_ok s"
    "assets_ok s" "shares_ok s" "burned_ok s" "cycle_ok s" "remote_ok s"
  using assms by (simp_all add: vault_inv_def)

lemmas op_simps = result_simps guard_simps amount_simps Let_def

lemmas remote_parts = user_frame_def assets_ok_def cycle_ok_def remote_ok_def off_vault_def acct_sum_def

lemma begin_allocate_inv:
  assumes inv: "vault_inv s" and op: "begin_allocate s actor tid amount = Inr t"
  shows "vault_inv t"
proof -
  from op obtain idle outbound where
    g: "active_cycle s = Cycle_None" "tid \<noteq> 0" "tid \<notin> used_transfer_ids s" "amount \<noteq> 0"
    and idle: "unat (idle_backing (buckets s)) = unat amount + unat idle"
    and outbound: "unat outbound = unat (outbound_in_transit (buckets s)) + unat amount"
    and t: "t = s\<lparr>buckets := (buckets s)\<lparr>idle_backing := idle, outbound_in_transit := outbound\<rparr>,
        used_transfer_ids := insert tid (used_transfer_ids s), active_cycle := Cycle_Allocate,
        active_transfer_id := tid, active_amount := amount\<rparr>"
    unfolding begin_allocate_def op_simps by blast
  have "outbound = amount"
    using g outbound vault_inv_parts(12) [OF inv] by (simp add: cycle_ok_def word_eq_unat)
  then show ?thesis
    using g idle outbound vault_inv_parts(2,9,12,13) [OF inv]
    by (intro user_frame_inv [OF _ inv]) (simp_all add: t remote_parts)
qed

lemma set_accepted_bound:
  "unat (if v < c then v else c) \<le> unat c" for v c :: u128
  by (simp add: word_less_nat_alt)

lemma complete_allocation_inv:
  assumes inv: "vault_inv s" and op: "complete_allocation s tid v = Inr t"
  shows "vault_inv t"
proof (cases "close_requested s")
  case True
  then show ?thesis using op inv by (simp add: complete_allocation_def)
next
  case False
  with op obtain outbound cap where
    g: "active_cycle s = Cycle_Allocate"
    and outbound: "unat (outbound_in_transit (buckets s)) = unat (active_amount s) + unat outbound"
    and cap: "unat cap = unat (remote_principal_cap s) + unat (active_amount s)"
    and t: "t = clear_cycle (set_accepted (s\<lparr>buckets := (buckets s)\<lparr>outbound_in_transit := outbound\<rparr>,
        remote_principal_cap := cap\<rparr>) v)"
    unfolding complete_allocation_def by (auto simp: op_simps)
  have "outbound = 0"
    using g outbound vault_inv_parts(12) [OF inv] by (simp add: cycle_ok_def word_eq_unat)
  then show ?thesis
    using g outbound cap vault_inv_parts(2,9,12,13) [OF inv]
    by (intro user_frame_inv [OF _ inv])
      (simp_all add: t remote_parts clear_cycle_def set_accepted_def word_less_nat_alt)
qed

lemma begin_recall_inv:
  assumes inv: "vault_inv s" and op: "begin_recall s actor tid amount = Inr t"
  shows "vault_inv t"
proof -
  from op have g: "active_cycle s = Cycle_None" "tid \<noteq> 0" "amount \<noteq> 0"
    and cap: "\<not> remote_principal_cap s < amount"
    and t: "t = s\<lparr>recall_baseline_value := accepted_remote_value (buckets s),
        recall_baseline_loss := inbound_cumulative_loss s, pending_recall_id := tid,
        pending_recall_principal := amount, used_transfer_ids := insert tid (used_transfer_ids s),
        active_cycle := Cycle_Recall, active_transfer_id := tid, active_amount := amount\<rparr>"
    unfolding begin_recall_def op_simps by auto
  show ?thesis
    using g cap vault_inv_parts(2,9,12,13) [OF inv]
    by (intro user_frame_inv [OF _ inv]) (simp_all add: t remote_parts word_less_nat_alt)
qed

lemma begin_recover_inv:
  assumes inv: "vault_inv s" and op: "begin_recover s actor tid = Inr t"
  shows "vault_inv t"
proof -
  from op have g: "active_cycle s = Cycle_None" "tid \<noteq> 0"
    and t: "t = s\<lparr>used_transfer_ids := insert tid (used_transfer_ids s),
        active_cycle := Cycle_Recover, active_transfer_id := tid, active_amount := 0\<rparr>"
    unfolding begin_recover_def op_simps by auto
  show ?thesis
    using g vault_inv_parts(2,9,12,13) [OF inv]
    by (intro user_frame_inv [OF _ inv]) (simp_all add: t remote_parts)
qed

lemma credit_remote_Inr:
  "credit_remote s c = Inr t \<longleftrightarrow>
     (\<exists>cap acc. unat cap = unat (remote_principal_cap s) + unat c \<and>
        unat acc = unat (accepted_remote_value (buckets s)) + unat c \<and>
        t = s\<lparr>remote_principal_cap := cap, buckets := (buckets s)\<lparr>accepted_remote_value := acc\<rparr>\<rparr>)"
  unfolding credit_remote_def op_simps by blast

lemma settle_close_inv:
  assumes inv: "vault_inv s" and op: "settle_close s tid credited = Inr t"
  shows "vault_inv t"
proof -
  from op obtain shortfall :: u128 and outbound u impaired cumulative where
    g: "active_cycle s = Cycle_Allocate"
    and shortfall: "unat (active_amount s) = unat credited + unat shortfall"
    and outbound: "unat (outbound_in_transit (buckets s)) = unat (active_amount s) + unat outbound"
    and u: "credit_remote (s\<lparr>buckets := (buckets s)\<lparr>outbound_in_transit := outbound\<rparr>\<rparr>) credited = Inr u"
    and impaired: "unat impaired = unat (impaired_transport u) + unat shortfall"
    and cumulative: "unat cumulative = unat (cumulative_impairment u) + unat shortfall"
    and t: "t = clear_cycle (u\<lparr>impaired_transport := impaired, cumulative_impairment := cumulative\<rparr>)"
    unfolding settle_close_def op_simps by blast
  from u obtain cap acc where
    cap: "unat cap = unat (remote_principal_cap s) + unat credited"
    and acc: "unat acc = unat (accepted_remote_value (buckets s)) + unat credited"
    and u: "u = s\<lparr>buckets := (buckets s)\<lparr>outbound_in_transit := outbound\<rparr>,
        remote_principal_cap := cap, buckets := (buckets s)
        \<lparr>outbound_in_transit := outbound, accepted_remote_value := acc\<rparr>\<rparr>"
    unfolding credit_remote_Inr by auto
  have "outbound = 0"
    using g outbound vault_inv_parts(12) [OF inv] by (simp add: cycle_ok_def word_eq_unat)
  then show ?thesis
    using g shortfall outbound cap acc impaired cumulative vault_inv_parts(2,9,12,13) [OF inv]
    by (intro user_frame_inv [OF _ inv]) (simp_all add: t u remote_parts clear_cycle_def)
qed

lemma settle_recover_inv:
  assumes inv: "vault_inv s" and op: "settle_recover s tid credited = Inr t"
  shows "vault_inv t"
proof -
  from op obtain impaired cap acc where
    g: "active_cycle s = Cycle_Recover"
    and impaired: "unat (impaired_transport s) = unat credited + unat impaired"
    and cap: "unat cap = unat (remote_principal_cap s) + unat credited"
    and acc: "unat acc = unat (accepted_remote_value (buckets s)) + unat credited"
    and t: "t = clear_cycle (s\<lparr>impaired_transport := impaired, remote_principal_cap := cap,
        buckets := (buckets s)\<lparr>accepted_remote_value := acc\<rparr>\<rparr>)"
    unfolding settle_recover_def op_simps credit_remote_Inr by auto
  show ?thesis
    using g impaired cap acc vault_inv_parts(2,9,12,13) [OF inv]
    by (intro user_frame_inv [OF _ inv]) (simp_all add: t remote_parts clear_cycle_def)
qed

lemma request_close_inv:
  assumes inv: "vault_inv s" and op: "request_close s actor tid = Inr t"
  shows "vault_inv t"
proof -
  from op have g: "active_cycle s = Cycle_Allocate" and t: "t = s\<lparr>close_requested := True\<rparr>"
    unfolding request_close_def op_simps by auto
  show ?thesis
    using g vault_inv_parts(2,9,12,13) [OF inv]
    by (intro user_frame_inv [OF _ inv]) (simp_all add: t remote_parts)
qed

lemma apply_remote_valuation_inv:
  assumes inv: "vault_inv s" and op: "apply_remote_valuation s v l = Inr t"
  shows "vault_inv t"
proof -
  from op obtain cumulative accepted where
    cum: "unat cumulative = unat (inbound_cumulative_loss s) + unat l"
    and acc: "unat accepted \<le> unat (remote_principal_cap s)"
    and t: "t = s\<lparr>buckets := (buckets s)\<lparr>accepted_remote_value := accepted\<rparr>,
        inbound_cumulative_loss := cumulative\<rparr>"
  proof (cases "close_requested s")
    case True
    then show thesis
      using op vault_inv_parts(13) [OF inv]
        that [where accepted = "accepted_remote_value (buckets s)"]
      by (auto simp: apply_remote_valuation_def op_simps remote_ok_def)
  next
    case False
    then show thesis
      using op that [OF _ set_accepted_bound]
      by (auto simp: apply_remote_valuation_def op_simps set_accepted_def)
  qed
  show ?thesis
    using cum acc vault_inv_parts(2,9,12,13) [OF inv]
    by (intro user_frame_inv [OF _ inv]) (simp_all add: t remote_parts)
qed

lemma lock_remote_valuation_inv:
  assumes inv: "vault_inv s" and op: "lock_remote_valuation s = Inr t"
  shows "vault_inv t"
proof (cases "close_requested s")
  case True
  then show ?thesis using op inv by (simp add: lock_remote_valuation_def)
next
  case False
  with op obtain e :: epoch_slot where
    t: "t = s\<lparr>epoch_valuation_locked :=
        bt_insert (ep_id e) (managed_backing s) (epoch_valuation_locked s)\<rparr>"
    by (auto simp: lock_remote_valuation_def op_simps)
  show ?thesis
    using vault_inv_parts(2,9,12,13) [OF inv]
    by (intro user_frame_inv [OF _ inv]) (simp_all add: t remote_parts)
qed

text \<open>A \<open>let\<close> binding as a named intermediate value of an accepted operation.\<close>

lemma Let_Inr: "(let x = a in f x) = Inr t \<longleftrightarrow> (\<exists>x. x = a \<and> f x = Inr t)"
  by simp

lemma observe_inbound_inv:
  assumes inv: "vault_inv s" and op: "observe_inbound s amount = Inr t"
  shows "vault_inv t"
proof -
  from op obtain u remaining where
    u: "attribute_in_flight s amount = Inr (u, remaining)" and t: "record_surplus u remaining = Inr t"
    unfolding observe_inbound_def by (auto simp: result_simps)
  have "user_frame s u \<and> epoch_valuation_locked u = epoch_valuation_locked s \<and>
      (cycle_ok s \<longrightarrow> cycle_ok u) \<and> (remote_ok s \<longrightarrow> remote_ok u) \<and> (assets_ok s \<longrightarrow> assets_ok u)"
    using u unfolding attribute_in_flight_def op_simps
    by (cases "inbound_in_transit (buckets s) = 0") (clarsimp simp: op_simps remote_parts)+
  then have "vault_inv u"
    using vault_inv_parts(2,9,12,13) [OF inv] by (intro user_frame_inv [OF _ inv]) simp_all
  moreover have "user_frame u t \<and> epoch_valuation_locked t = epoch_valuation_locked u \<and>
      (cycle_ok u \<longrightarrow> cycle_ok t) \<and> (remote_ok u \<longrightarrow> remote_ok t) \<and> (assets_ok u \<longrightarrow> assets_ok t)"
    using t unfolding record_surplus_def
    by (cases "remaining = 0"; cases "pending_recall_principal u = 0")
      (clarsimp simp: op_simps remote_parts)+
  ultimately show ?thesis
    using vault_inv_parts(2,9,12,13) [of u] by (auto intro: user_frame_inv [of u t])
qed

text \<open>An accepted acknowledgement with its intermediate states named.\<close>

lemma accept_recall_sent_Inr:
  assumes "accept_recall_sent s tid principal_n actual loss = Inr t"
  obtains sum settled_loss cap accepted' recognized unattributed idle in_flight inbound fu accepted decrease :: u128
    and s1 s2 s3 :: state
  where "active_cycle s = Cycle_Recall" "unat sum = unat actual + unat loss" "\<not> sum \<noteq> principal_n"
    "s1 = set_accepted s (recall_baseline_value s)"
    "s2 = (if inbound_cumulative_loss s1 < settled_loss
      then s1\<lparr>inbound_cumulative_loss := settled_loss\<rparr> else s1)"
    "s3 = s2\<lparr>recall_baseline_value := 0, recall_baseline_loss := 0\<rparr>"
    "accepted = accepted_remote_value (buckets s3)"
      "decrease = (if accepted < principal_n then accepted else principal_n)"
    "fu = (if actual < unattributed_inbound (buckets s3) then actual else unattributed_inbound (buckets s3))"
    "unat (remote_principal_cap s3) = unat principal_n + unat cap"
      "unat accepted = unat decrease + unat accepted'"
      "unat recognized = unat (recognized_loss s3) + unat loss"
      "unat (unattributed_inbound (buckets s3)) = unat fu + unat unattributed"
      "unat idle = unat (idle_backing (buckets s3)) + unat fu"
      "unat actual = unat fu + unat in_flight"
      "unat inbound = unat (inbound_in_transit (buckets s3)) + unat in_flight"
    "t = clear_cycle (s3\<lparr>remote_principal_cap := cap, recognized_loss := recognized,
       buckets := (buckets s3)\<lparr>accepted_remote_value := accepted', unattributed_inbound := unattributed,
         idle_backing := idle, inbound_in_transit := inbound\<rparr>,
       pending_recall_id := 0, pending_recall_principal := 0\<rparr>)"
  using assms unfolding accept_recall_sent_def result_simps amount_simps Let_Inr by blast

lemma accept_recall_sent_inv:
  assumes inv: "vault_inv s" and op: "accept_recall_sent s tid principal_n actual loss = Inr t"
  shows "vault_inv t"
proof -
  from op obtain sum settled_loss cap accepted' recognized unattributed idle in_flight inbound fu accepted decrease :: u128
    and s1 s2 s3 :: state
    where g: "active_cycle s = Cycle_Recall" "unat sum = unat actual + unat loss" "\<not> sum \<noteq> principal_n"
    and s1: "s1 = set_accepted s (recall_baseline_value s)"
    and s2: "s2 = (if inbound_cumulative_loss s1 < settled_loss
      then s1\<lparr>inbound_cumulative_loss := settled_loss\<rparr> else s1)"
    and s3: "s3 = s2\<lparr>recall_baseline_value := 0, recall_baseline_loss := 0\<rparr>"
    and accepted: "accepted = accepted_remote_value (buckets s3)"
      "decrease = (if accepted < principal_n then accepted else principal_n)"
    and fu: "fu = (if actual < unattributed_inbound (buckets s3) then actual else unattributed_inbound (buckets s3))"
    and moves: "unat (remote_principal_cap s3) = unat principal_n + unat cap"
      "unat accepted = unat decrease + unat accepted'"
      "unat recognized = unat (recognized_loss s3) + unat loss"
      "unat (unattributed_inbound (buckets s3)) = unat fu + unat unattributed"
      "unat idle = unat (idle_backing (buckets s3)) + unat fu"
      "unat actual = unat fu + unat in_flight"
      "unat inbound = unat (inbound_in_transit (buckets s3)) + unat in_flight"
    and t: "t = clear_cycle (s3\<lparr>remote_principal_cap := cap, recognized_loss := recognized,
       buckets := (buckets s3)\<lparr>accepted_remote_value := accepted', unattributed_inbound := unattributed,
         idle_backing := idle, inbound_in_transit := inbound\<rparr>,
       pending_recall_id := 0, pending_recall_principal := 0\<rparr>)"
    by (rule accept_recall_sent_Inr)
  have s3_frame: "user_frame s s3" "epoch_valuation_locked s3 = epoch_valuation_locked s"
      "recall_baseline_loss s3 = 0"
    by (simp_all add: s3 s2 s1 set_accepted_def user_frame_def)
  have s3_ok: "assets_ok s3" "remote_ok s3"
    using vault_inv_parts(9,13) [OF inv]
    by (simp_all add: s3 s2 s1 set_accepted_def remote_parts word_less_nat_alt)
  have frame: "user_frame s t" using s3_frame(1) by (simp add: t clear_cycle_def user_frame_def)
  have "bt_wf (epoch_valuation_locked t)"
    using vault_inv_parts(2) [OF inv] s3_frame(2) by (simp add: t clear_cycle_def)
  moreover have "assets_ok t"
    using s3_ok(1) g(2,3) moves by (simp add: t clear_cycle_def assets_ok_def off_vault_def acct_sum_def)
  moreover have "cycle_ok t"
    using s3_frame vault_inv_parts(12) [OF inv] g(1)
    by (simp add: t clear_cycle_def cycle_ok_def s3 s2 s1 set_accepted_def)
  moreover have "unat decrease = min (unat accepted) (unat principal_n)"
    by (simp add: accepted(2) word_less_nat_alt)
  then have "unat accepted' \<le> unat cap"
    using s3_ok(2) moves(1,2) unfolding accepted(1) remote_ok_def by linarith
  then have "remote_ok t"
    using s3_ok(2) by (simp add: t clear_cycle_def remote_ok_def)
  ultimately show ?thesis using user_frame_inv [OF frame inv] by blast
qed

end
