(* ===== verification/Vault_Users.thy ===== *)
theory Vault_Users
  imports Vault_Inv
begin

text \<open>
  The users' operations keep the accounting invariant. Each of them refines one abstract
  transition of a claim book: \<open>request_deposit\<close> and \<open>request_redeem\<close> refine
  \<open>bk_request\<close>, the cancellations \<open>bk_cancel\<close>, the claims and refunds \<open>bk_claim\<close>. What is
  left for each operation is the account it debits or credits.
\<close>

section \<open>What users' operations leave alone\<close>

definition slot_view :: "epoch_slot \<Rightarrow> epoch_id \<times> asset_amount \<times> share_amount" where
  "slot_view e = (ep_id e, ep_virtual_assets e, ep_virtual_shares e)"

definition remote_frame :: "state \<Rightarrow> state \<Rightarrow> bool" where
  "remote_frame s t \<longleftrightarrow>
     outbound_in_transit (buckets t) = outbound_in_transit (buckets s) \<and>
     accepted_remote_value (buckets t) = accepted_remote_value (buckets s) \<and>
     inbound_in_transit (buckets t) = inbound_in_transit (buckets s) \<and>
     unattributed_balance (buckets t) = unattributed_balance (buckets s) \<and>
     unattributed_inbound (buckets t) = unattributed_inbound (buckets s) \<and>
     initial_asset_supply t = initial_asset_supply s \<and>
     remote_principal_cap t = remote_principal_cap s \<and> recognized_loss t = recognized_loss s \<and>
     impaired_transport t = impaired_transport s \<and> cumulative_impairment t = cumulative_impairment s \<and>
     external_inflow t = external_inflow s \<and> pending_recall_id t = pending_recall_id s \<and>
     pending_recall_principal t = pending_recall_principal s \<and> active_cycle t = active_cycle s \<and>
     active_transfer_id t = active_transfer_id s \<and> active_amount t = active_amount s \<and>
     close_requested t = close_requested s \<and> inbound_cumulative_loss t = inbound_cumulative_loss s \<and>
     recall_baseline_value t = recall_baseline_value s \<and> recall_baseline_loss t = recall_baseline_loss s \<and>
     used_transfer_ids t = used_transfer_ids s \<and> epoch_valuation_locked t = epoch_valuation_locked s"

definition request_frame :: "state \<Rightarrow> state \<Rightarrow> bool" where
  "request_frame s t \<longleftrightarrow>
     remote_frame s t \<and> idle_backing (buckets t) = idle_backing (buckets s) \<and>
     epochs t = epochs s \<and> next_epoch_id t = next_epoch_id s \<and>
     map_option slot_view (epoch t) = map_option slot_view (epoch s) \<and>
     total_share_supply t = total_share_supply s \<and>
     burned_redemption_shares t = burned_redemption_shares s"

lemma remote_frame_ok:
  assumes "remote_frame s t" "vault_inv s"
  shows "cycle_ok t" "remote_ok t" "bt_wf (epoch_valuation_locked t)" "off_vault t = off_vault s"
  using assms vault_inv_parts(2,12,13) [OF assms(2)]
  by (simp_all add: remote_frame_def cycle_ok_def remote_ok_def off_vault_def)

text \<open>Moving assets between accounts, escrow and reserve, or shares between accounts, escrow
  and the unclaimed pool, is all a request, a cancellation or a claim does.\<close>

lemma request_frame_inv:
  assumes frame: "request_frame s t" and inv: "vault_inv s"
    and "bt_wf (accounts t)" "flags_ok t" "book_ok (deposit_book t)" "book_ok (redeem_book t)"
    and assets: "acct_sum acc_assets t + unat (pending_deposit_escrow (buckets t)) +
        unat (claim_reserve (buckets t)) =
      acct_sum acc_assets s + unat (pending_deposit_escrow (buckets s)) +
        unat (claim_reserve (buckets s))"
    and shares: "acct_sum acc_shares t + unat (escrowed_redeem_shares t) + unat (claimable_deposit_shares t) =
      acct_sum acc_shares s + unat (escrowed_redeem_shares s) + unat (claimable_deposit_shares s)"
  shows "vault_inv t"
proof -
  have rf: "remote_frame s t" using frame by (simp add: request_frame_def)
  have slot: "map_option slot_view (epoch t) = map_option slot_view (epoch s)"
    using frame by (simp add: request_frame_def)
  then have "next_id_bound t = next_id_bound s"
    using frame by (cases "epoch s"; cases "epoch t")
      (simp_all add: request_frame_def next_id_bound_def slot_view_def)
  then have "ids_ok t" "outcomes_ok t" "burned_ok t"
    using frame vault_inv_parts(6,8,11) [OF inv]
    by (simp_all add: request_frame_def ids_ok_def outcomes_ok_def burned_ok_def)
  moreover have "slot_ok t"
    using slot vault_inv_parts(7) [OF inv]
    by (cases "epoch s"; cases "epoch t") (simp_all add: slot_ok_def slot_view_def)
  moreover have "assets_ok t"
    using assets vault_inv_parts(9) [OF inv] frame remote_frame_ok(4) [OF rf inv]
    by (simp add: assets_ok_def request_frame_def remote_frame_def)
  moreover have "shares_ok t"
    using shares vault_inv_parts(10) [OF inv] frame by (simp add: shares_ok_def request_frame_def)
  ultimately show ?thesis
    using assms(3-6) remote_frame_ok [OF rf inv] by (simp add: vault_inv_def)
qed

section \<open>Accounts\<close>

lemma acct_sum_cong: "accounts t = accounts s \<Longrightarrow> acct_sum f t = acct_sum f s"
  by (simp add: acct_sum_def)

lemma acct_sum_put:
  assumes "bt_wf (accounts s)" "accounts t = bt_insert a v (accounts s)" "f default_account = 0"
  shows "acct_sum f t + unat (f (account_of s a)) = acct_sum f s + unat (f v)"
  using bt.sum_put [OF assms(1), of "\<lambda>p. unat (f (snd p))" a v] assms(2,3)
  by (auto simp: acct_sum_def account_of_def split: option.splits)

text \<open>One account, one request: the account gains what escrow and reserve, or escrowed and
  unclaimed shares, lose.\<close>

lemma account_step_inv:
  assumes frame: "request_frame s t" and inv: "vault_inv s"
    and accounts: "accounts t = bt_insert a v (accounts s)"
    and "flags_ok t" "book_ok (deposit_book t)" "book_ok (redeem_book t)"
    and assets: "unat (acc_assets v) + unat (pending_deposit_escrow (buckets t)) +
        unat (claim_reserve (buckets t)) =
      unat (acc_assets (account_of s a)) + unat (pending_deposit_escrow (buckets s)) +
        unat (claim_reserve (buckets s))"
    and shares: "unat (acc_shares v) + unat (escrowed_redeem_shares t) + unat (claimable_deposit_shares t) =
      unat (acc_shares (account_of s a)) + unat (escrowed_redeem_shares s) +
        unat (claimable_deposit_shares s)"
  shows "vault_inv t"
proof -
  have wf: "bt_wf (accounts s)" by (rule vault_inv_parts(1) [OF inv])
  show ?thesis
    using acct_sum_put [OF wf accounts, of acc_assets] acct_sum_put [OF wf accounts, of acc_shares]
      assets shares wf
    by (intro request_frame_inv [OF frame inv] assms(4-6)) (simp_all add: accounts default_account_def)
qed

section \<open>Requests\<close>

lemma book_amount:
  "bk_amount (deposit_book s) k =
     (case bt_get (deposit_requests s) k of None \<Rightarrow> 0 | Some r \<Rightarrow> unat (dr_assets r))"
  "bk_amount (redeem_book s) k =
     (case bt_get (redeem_requests s) k of None \<Rightarrow> 0 | Some r \<Rightarrow> unat (rr_shares r))"
  by (simp_all add: bk_amount_def book_defs dep_view_def red_view_def split: option.split)

lemma flags_ok_deposit:
  assumes "flags_ok s" "bt_wf (deposit_requests s)" "deposit_requests t = bt_insert k r (deposit_requests s)"
    and "redeem_requests t = redeem_requests s" "deposit_flags_agree r"
  shows "flags_ok t"
  using assms bt.ball_put [OF assms(2), of k r "\<lambda>p. deposit_flags_agree (snd p)"]
  by (auto simp: flags_ok_def)

lemma flags_ok_redeem:
  assumes "flags_ok s" "bt_wf (redeem_requests s)" "redeem_requests t = bt_insert k r (redeem_requests s)"
    and "deposit_requests t = deposit_requests s" "redeem_flags_agree r"
  shows "flags_ok t"
  using assms bt.ball_put [OF assms(2), of k r "\<lambda>p. redeem_flags_agree (snd p)"]
  by (auto simp: flags_ok_def)

lemma inv_wf:
  assumes "vault_inv s"
  shows "bt_wf (deposit_requests s)" "bt_wf (redeem_requests s)" "bt_wf (epochs s)"
  using vault_inv_parts(4,5) [OF assms] by (simp_all add: book_ok_def book_defs)

lemma request_deposit_Inr:
  assumes "request_deposit s acct assets = Inr t"
  obtains e remaining escrow epoch_total total entry where
    "vault_state s = Active" "epoch s = Some e" "ep_phase e = Open" "assets \<noteq> 0"
    "\<not> assets < min_deposit_assets (config s)"
    "entry = (case bt_get (deposit_requests s) (RequestKey (ep_id e) acct) of
       None \<Rightarrow> default_deposit | Some r \<Rightarrow> r)" "\<not> dr_claimed entry"
    "unat (acc_assets (account_of s acct)) = unat assets + unat remaining"
    "unat escrow = unat (pending_deposit_escrow (buckets s)) + unat assets"
    "unat epoch_total = unat (pending_deposit_assets e) + unat assets"
    "unat total = unat (dr_assets entry) + unat assets"
    "t = s\<lparr>accounts := bt_insert acct (account_of s acct\<lparr>acc_assets := remaining\<rparr>) (accounts s),
       buckets := (buckets s)\<lparr>pending_deposit_escrow := escrow\<rparr>,
       epoch := Some (e\<lparr>pending_deposit_assets := epoch_total\<rparr>),
       deposit_requests := bt_insert (RequestKey (ep_id e) acct)
         (entry\<lparr>dr_assets := total, dr_cancelled := False\<rparr>) (deposit_requests s)\<rparr>"
  using assms unfolding request_deposit_def
  by (clarsimp simp: op_simps account_mut_def default_deposit_def split: option.splits)

lemma request_deposit_inv:
  assumes inv: "vault_inv s" and op: "request_deposit s acct assets = Inr t"
  shows "vault_inv t"
proof -
  from op obtain e remaining escrow epoch_total total entry where
    g: "epoch s = Some e" "assets \<noteq> 0"
      "entry = (case bt_get (deposit_requests s) (RequestKey (ep_id e) acct) of
         None \<Rightarrow> default_deposit | Some r \<Rightarrow> r)" "\<not> dr_claimed entry"
    and n: "unat (acc_assets (account_of s acct)) = unat assets + unat remaining"
      "unat escrow = unat (pending_deposit_escrow (buckets s)) + unat assets"
      "unat epoch_total = unat (pending_deposit_assets e) + unat assets"
      "unat total = unat (dr_assets entry) + unat assets"
    and t: "t = s\<lparr>accounts := bt_insert acct (account_of s acct\<lparr>acc_assets := remaining\<rparr>) (accounts s),
       buckets := (buckets s)\<lparr>pending_deposit_escrow := escrow\<rparr>,
       epoch := Some (e\<lparr>pending_deposit_assets := epoch_total\<rparr>),
       deposit_requests := bt_insert (RequestKey (ep_id e) acct)
         (entry\<lparr>dr_assets := total, dr_cancelled := False\<rparr>) (deposit_requests s)\<rparr>"
    by (rule request_deposit_Inr)
  let ?k = "RequestKey (ep_id e) acct"
  have amount: "bk_amount (deposit_book s) ?k = unat (dr_assets entry)"
    by (simp add: book_amount g(3) default_deposit_def split: option.split)
  have refines: "deposit_book t = bk_request ?k (unat assets) (deposit_book s)"
    using g n unfolding bk_request_def amount
    by (simp add: deposit_book_def t bt_insert_map dep_view_def)
  have "redeem_book t = redeem_book s" using g by (simp add: redeem_book_def t)
  moreover have "book_ok (deposit_book t)"
    unfolding refines using vault_inv_parts(4) [OF inv] g
    by (intro book_ok_request) (simp_all add: deposit_book_def)
  moreover have "flags_ok t"
    using g n by (intro flags_ok_deposit [OF vault_inv_parts(3) [OF inv] inv_wf(1) [OF inv]])
      (auto simp: t deposit_flags_agree_def unat_eq_zero [symmetric])
  moreover have "request_frame s t"
    using g by (simp add: request_frame_def remote_frame_def t slot_view_def)
  ultimately show ?thesis
    using vault_inv_parts(5) [OF inv] n by (intro account_step_inv [OF _ inv, where a = acct and
          v = "account_of s acct\<lparr>acc_assets := remaining\<rparr>"]) (simp_all add: t)
qed

lemma request_redeem_Inr:
  assumes "request_redeem s acct shares = Inr t"
  obtains e remaining escrowed epoch_total total entry where
    "vault_state s = Active" "epoch s = Some e" "ep_phase e = Open" "shares \<noteq> 0"
    "\<not> shares < min_redeem_shares (config s)"
    "entry = (case bt_get (redeem_requests s) (RequestKey (ep_id e) acct) of
       None \<Rightarrow> default_redeem | Some r \<Rightarrow> r)" "\<not> rr_claimed entry"
    "unat (acc_shares (account_of s acct)) = unat shares + unat remaining"
    "unat escrowed = unat (escrowed_redeem_shares s) + unat shares"
    "unat epoch_total = unat (pending_redeem_shares e) + unat shares"
    "unat total = unat (rr_shares entry) + unat shares"
    "t = s\<lparr>accounts := bt_insert acct (account_of s acct\<lparr>acc_shares := remaining\<rparr>) (accounts s),
       escrowed_redeem_shares := escrowed,
       epoch := Some (e\<lparr>pending_redeem_shares := epoch_total\<rparr>),
       redeem_requests := bt_insert (RequestKey (ep_id e) acct)
         (entry\<lparr>rr_shares := total, rr_cancelled := False\<rparr>) (redeem_requests s)\<rparr>"
  using assms unfolding request_redeem_def
  by (clarsimp simp: op_simps account_mut_def default_redeem_def split: option.splits)

lemma request_redeem_inv:
  assumes inv: "vault_inv s" and op: "request_redeem s acct shares = Inr t"
  shows "vault_inv t"
proof -
  from op obtain e remaining escrowed epoch_total total entry where
    g: "epoch s = Some e" "shares \<noteq> 0"
      "entry = (case bt_get (redeem_requests s) (RequestKey (ep_id e) acct) of
         None \<Rightarrow> default_redeem | Some r \<Rightarrow> r)" "\<not> rr_claimed entry"
    and n: "unat (acc_shares (account_of s acct)) = unat shares + unat remaining"
      "unat escrowed = unat (escrowed_redeem_shares s) + unat shares"
      "unat epoch_total = unat (pending_redeem_shares e) + unat shares"
      "unat total = unat (rr_shares entry) + unat shares"
    and t: "t = s\<lparr>accounts := bt_insert acct (account_of s acct\<lparr>acc_shares := remaining\<rparr>) (accounts s),
       escrowed_redeem_shares := escrowed,
       epoch := Some (e\<lparr>pending_redeem_shares := epoch_total\<rparr>),
       redeem_requests := bt_insert (RequestKey (ep_id e) acct)
         (entry\<lparr>rr_shares := total, rr_cancelled := False\<rparr>) (redeem_requests s)\<rparr>"
    by (rule request_redeem_Inr)
  let ?k = "RequestKey (ep_id e) acct"
  have amount: "bk_amount (redeem_book s) ?k = unat (rr_shares entry)"
    by (simp add: book_amount g(3) default_redeem_def split: option.split)
  have refines: "redeem_book t = bk_request ?k (unat shares) (redeem_book s)"
    using g n unfolding bk_request_def amount
    by (simp add: redeem_book_def t bt_insert_map red_view_def)
  have "deposit_book t = deposit_book s" using g by (simp add: deposit_book_def t)
  moreover have "book_ok (redeem_book t)"
    unfolding refines using vault_inv_parts(5) [OF inv] g
    by (intro book_ok_request) (simp_all add: redeem_book_def)
  moreover have "flags_ok t"
    using g n by (intro flags_ok_redeem [OF vault_inv_parts(3) [OF inv] inv_wf(2) [OF inv]])
      (auto simp: t redeem_flags_agree_def unat_eq_zero [symmetric])
  moreover have "request_frame s t"
    using g by (simp add: request_frame_def remote_frame_def t slot_view_def)
  ultimately show ?thesis
    using vault_inv_parts(4) [OF inv] n by (intro account_step_inv [OF _ inv, where a = acct and
          v = "account_of s acct\<lparr>acc_shares := remaining\<rparr>"]) (simp_all add: t)
qed

section \<open>Cancellations\<close>

lemma not_cutoff: "p \<noteq> CutOff \<longleftrightarrow> p = Open"
  by (cases p) simp_all

lemma cancel_deposit_Inr:
  assumes "cancel_deposit s acct = Inr t"
  obtains e r escrow epoch_total returned cancelled_total where
    "vault_state s \<noteq> Frozen" "epoch s = Some e" "ep_phase e = Open"
    "bt_get (deposit_requests s) (RequestKey (ep_id e) acct) = Some r"
    "\<not> dr_claimed r" "\<not> dr_cancelled r" "dr_assets r \<noteq> 0"
    "unat (pending_deposit_escrow (buckets s)) = unat (dr_assets r) + unat escrow"
    "unat (pending_deposit_assets e) = unat (dr_assets r) + unat epoch_total"
    "unat returned = unat (acc_assets (account_of s acct)) + unat (dr_assets r)"
    "unat cancelled_total = unat (dr_cancelled_assets r) + unat (dr_assets r)"
    "t = s\<lparr>buckets := (buckets s)\<lparr>pending_deposit_escrow := escrow\<rparr>,
       epoch := Some (e\<lparr>pending_deposit_assets := epoch_total\<rparr>),
       accounts := bt_insert acct (account_of s acct\<lparr>acc_assets := returned\<rparr>) (accounts s),
       deposit_requests := bt_insert (RequestKey (ep_id e) acct)
         (r\<lparr>dr_assets := 0, dr_cancelled_assets := cancelled_total, dr_cancelled := True\<rparr>)
         (deposit_requests s)\<rparr>"
  using assms unfolding cancel_deposit_def
  by (clarsimp simp: op_simps account_mut_def account_of_def not_cutoff)

lemma cancel_deposit_inv:
  assumes inv: "vault_inv s" and op: "cancel_deposit s acct = Inr t"
  shows "vault_inv t"
proof -
  from op obtain e r escrow epoch_total returned cancelled_total where
    g: "epoch s = Some e" "bt_get (deposit_requests s) (RequestKey (ep_id e) acct) = Some r"
      "\<not> dr_claimed r"
    and n: "unat (pending_deposit_escrow (buckets s)) = unat (dr_assets r) + unat escrow"
      "unat (pending_deposit_assets e) = unat (dr_assets r) + unat epoch_total"
      "unat returned = unat (acc_assets (account_of s acct)) + unat (dr_assets r)"
    and t: "t = s\<lparr>buckets := (buckets s)\<lparr>pending_deposit_escrow := escrow\<rparr>,
       epoch := Some (e\<lparr>pending_deposit_assets := epoch_total\<rparr>),
       accounts := bt_insert acct (account_of s acct\<lparr>acc_assets := returned\<rparr>) (accounts s),
       deposit_requests := bt_insert (RequestKey (ep_id e) acct)
         (r\<lparr>dr_assets := 0, dr_cancelled_assets := cancelled_total, dr_cancelled := True\<rparr>)
         (deposit_requests s)\<rparr>"
    by (rule cancel_deposit_Inr)
  let ?k = "RequestKey (ep_id e) acct"
  have amount: "bk_amount (deposit_book s) ?k = unat (dr_assets r)"
    by (simp add: book_amount g(2))
  have refines: "deposit_book t = bk_cancel ?k (deposit_book s)"
    using g n unfolding bk_cancel_def amount
    by (simp add: deposit_book_def t bt_insert_map dep_view_def)
  have "redeem_book t = redeem_book s" using g by (simp add: redeem_book_def t)
  moreover have "book_ok (deposit_book t)"
    unfolding refines using vault_inv_parts(4) [OF inv] g
    by (intro book_ok_cancel) (simp_all add: deposit_book_def)
  moreover have "flags_ok t"
    using g by (intro flags_ok_deposit [OF vault_inv_parts(3) [OF inv] inv_wf(1) [OF inv]])
      (auto simp: t deposit_flags_agree_def)
  moreover have "request_frame s t"
    using g by (simp add: request_frame_def remote_frame_def t slot_view_def)
  ultimately show ?thesis
    using vault_inv_parts(5) [OF inv] n by (intro account_step_inv [OF _ inv, where a = acct and
          v = "account_of s acct\<lparr>acc_assets := returned\<rparr>"]) (simp_all add: t)
qed

lemma cancel_redeem_Inr:
  assumes "cancel_redeem s acct = Inr t"
  obtains e r escrowed epoch_total returned cancelled_total where
    "vault_state s \<noteq> Frozen" "epoch s = Some e" "ep_phase e = Open"
    "bt_get (redeem_requests s) (RequestKey (ep_id e) acct) = Some r"
    "\<not> rr_claimed r" "\<not> rr_cancelled r" "rr_shares r \<noteq> 0"
    "unat (escrowed_redeem_shares s) = unat (rr_shares r) + unat escrowed"
    "unat (pending_redeem_shares e) = unat (rr_shares r) + unat epoch_total"
    "unat returned = unat (acc_shares (account_of s acct)) + unat (rr_shares r)"
    "unat cancelled_total = unat (rr_cancelled_shares r) + unat (rr_shares r)"
    "t = s\<lparr>escrowed_redeem_shares := escrowed,
       epoch := Some (e\<lparr>pending_redeem_shares := epoch_total\<rparr>),
       accounts := bt_insert acct (account_of s acct\<lparr>acc_shares := returned\<rparr>) (accounts s),
       redeem_requests := bt_insert (RequestKey (ep_id e) acct)
         (r\<lparr>rr_shares := 0, rr_cancelled_shares := cancelled_total, rr_cancelled := True\<rparr>)
         (redeem_requests s)\<rparr>"
  using assms unfolding cancel_redeem_def
  by (clarsimp simp: op_simps account_mut_def account_of_def not_cutoff)

lemma cancel_redeem_inv:
  assumes inv: "vault_inv s" and op: "cancel_redeem s acct = Inr t"
  shows "vault_inv t"
proof -
  from op obtain e r escrowed epoch_total returned cancelled_total where
    g: "epoch s = Some e" "bt_get (redeem_requests s) (RequestKey (ep_id e) acct) = Some r"
      "\<not> rr_claimed r"
    and n: "unat (escrowed_redeem_shares s) = unat (rr_shares r) + unat escrowed"
      "unat (pending_redeem_shares e) = unat (rr_shares r) + unat epoch_total"
      "unat returned = unat (acc_shares (account_of s acct)) + unat (rr_shares r)"
    and t: "t = s\<lparr>escrowed_redeem_shares := escrowed,
       epoch := Some (e\<lparr>pending_redeem_shares := epoch_total\<rparr>),
       accounts := bt_insert acct (account_of s acct\<lparr>acc_shares := returned\<rparr>) (accounts s),
       redeem_requests := bt_insert (RequestKey (ep_id e) acct)
         (r\<lparr>rr_shares := 0, rr_cancelled_shares := cancelled_total, rr_cancelled := True\<rparr>)
         (redeem_requests s)\<rparr>"
    by (rule cancel_redeem_Inr)
  let ?k = "RequestKey (ep_id e) acct"
  have amount: "bk_amount (redeem_book s) ?k = unat (rr_shares r)"
    by (simp add: book_amount g(2))
  have refines: "redeem_book t = bk_cancel ?k (redeem_book s)"
    using g n unfolding bk_cancel_def amount
    by (simp add: redeem_book_def t bt_insert_map red_view_def)
  have "deposit_book t = deposit_book s" using g by (simp add: deposit_book_def t)
  moreover have "book_ok (redeem_book t)"
    unfolding refines using vault_inv_parts(5) [OF inv] g
    by (intro book_ok_cancel) (simp_all add: redeem_book_def)
  moreover have "flags_ok t"
    using g by (intro flags_ok_redeem [OF vault_inv_parts(3) [OF inv] inv_wf(2) [OF inv]])
      (auto simp: t redeem_flags_agree_def)
  moreover have "request_frame s t"
    using g by (simp add: request_frame_def remote_frame_def t slot_view_def)
  ultimately show ?thesis
    using vault_inv_parts(4) [OF inv] n by (intro account_step_inv [OF _ inv, where a = acct and
          v = "account_of s acct\<lparr>acc_shares := returned\<rparr>"]) (simp_all add: t)
qed

section \<open>Claims and refunds\<close>

lemma finalized_terms_Some [guard_simps]:
  "finalized_terms s eid = Some t \<longleftrightarrow> bt_get (epochs s) eid = Some (Finalized t)"
  unfolding finalized_terms_def
  by (cases "bt_get (epochs s) eid") (simp, metis bind.bind_lunit epoch_outcome.exhaust
      option.discI option.inject outcome_finalized.simps)

lemma aborted_terms_Some [guard_simps]:
  "aborted_terms_of s eid = None \<longleftrightarrow> (\<forall>t. bt_get (epochs s) eid \<noteq> Some (Aborted t))"
  unfolding aborted_terms_of_def
  by (cases "bt_get (epochs s) eid") (simp, metis bind.bind_lunit epoch_outcome.exhaust
      option.discI option.inject outcome_aborted.simps)

text \<open>Each claim and each refund consumes its request exactly as the abstract claim does.\<close>

lemma deposit_consume_inv:
  assumes inv: "vault_inv s" and g: "bt_get (deposit_requests s) k = Some r" "\<not> dr_claimed r"
      "\<not> dr_cancelled r" "dr_assets r \<noteq> 0" "bt_get (epochs s) (rk_epoch k) = Some outcome"
    and t: "deposit_requests t = bt_insert k (r\<lparr>dr_claimed := True\<rparr>) (deposit_requests s)"
      "redeem_requests t = redeem_requests s" "redeem_book t = redeem_book s"
    and refines: "deposit_book t = bk_claim k (deposit_book s)"
  shows "flags_ok t" "book_ok (deposit_book t)" "book_ok (redeem_book t)"
proof -
  show "flags_ok t"
    using g t by (intro flags_ok_deposit [OF vault_inv_parts(3) [OF inv] inv_wf(1) [OF inv]])
      (auto simp: deposit_flags_agree_def)
  show "book_ok (deposit_book t)"
    unfolding refines using vault_inv_parts(4) [OF inv] g
    by (intro book_ok_claim [where a = "unat (dr_assets r)"])
      (simp_all add: deposit_book_def dep_view_def)
  show "book_ok (redeem_book t)" using t vault_inv_parts(5) [OF inv] by simp
qed

lemma redeem_consume_inv:
  assumes inv: "vault_inv s" and g: "bt_get (redeem_requests s) k = Some r" "\<not> rr_claimed r"
      "\<not> rr_cancelled r" "rr_shares r \<noteq> 0" "bt_get (epochs s) (rk_epoch k) = Some outcome"
    and t: "redeem_requests t = bt_insert k (r\<lparr>rr_claimed := True\<rparr>) (redeem_requests s)"
      "deposit_requests t = deposit_requests s" "deposit_book t = deposit_book s"
    and refines: "redeem_book t = bk_claim k (redeem_book s)"
  shows "flags_ok t" "book_ok (deposit_book t)" "book_ok (redeem_book t)"
proof -
  show "flags_ok t"
    using g t by (intro flags_ok_redeem [OF vault_inv_parts(3) [OF inv] inv_wf(2) [OF inv]])
      (auto simp: redeem_flags_agree_def)
  show "book_ok (redeem_book t)"
    unfolding refines using vault_inv_parts(5) [OF inv] g
    by (intro book_ok_claim [where a = "unat (rr_shares r)"])
      (simp_all add: redeem_book_def red_view_def)
  show "book_ok (deposit_book t)" using t vault_inv_parts(4) [OF inv] by simp
qed

lemma claim_deposit_Inr:
  assumes "claim_deposit W s acct eid = Inr t"
  obtains terms r shares claimable credited where
    "bt_get (epochs s) eid = Some (Finalized terms)"
    "bt_get (deposit_requests s) (RequestKey eid acct) = Some r"
    "\<not> dr_cancelled r" "\<not> dr_claimed r" "dr_assets r \<noteq> 0"
    "shares_for W terms (dr_assets r) = Inr shares"
    "unat (claimable_deposit_shares s) = unat shares + unat claimable"
    "unat credited = unat (acc_shares (account_of s acct)) + unat shares"
    "t = s\<lparr>claimable_deposit_shares := claimable,
       accounts := bt_insert acct (account_of s acct\<lparr>acc_shares := credited\<rparr>) (accounts s),
       deposit_requests := bt_insert (RequestKey eid acct) (r\<lparr>dr_claimed := True\<rparr>)
         (deposit_requests s)\<rparr>"
  using assms unfolding claim_deposit_def
  by (clarsimp simp: op_simps guard_simps account_mut_def account_of_def)

lemma claim_redeem_Inr:
  assumes "claim_redeem W s acct eid = Inr t"
  obtains terms r assets reserve credited where
    "bt_get (epochs s) eid = Some (Finalized terms)"
    "bt_get (redeem_requests s) (RequestKey eid acct) = Some r"
    "\<not> rr_cancelled r" "\<not> rr_claimed r" "rr_shares r \<noteq> 0"
    "assets_for W terms (rr_shares r) = Inr assets"
    "unat (claim_reserve (buckets s)) = unat assets + unat reserve"
    "unat credited = unat (acc_assets (account_of s acct)) + unat assets"
    "t = s\<lparr>buckets := (buckets s)\<lparr>claim_reserve := reserve\<rparr>,
       accounts := bt_insert acct (account_of s acct\<lparr>acc_assets := credited\<rparr>) (accounts s),
       redeem_requests := bt_insert (RequestKey eid acct) (r\<lparr>rr_claimed := True\<rparr>)
         (redeem_requests s)\<rparr>"
  using assms unfolding claim_redeem_def
  by (clarsimp simp: op_simps guard_simps account_mut_def account_of_def)

lemma claim_aborted_deposit_Inr:
  assumes "claim_aborted_deposit s acct eid = Inr t"
  obtains terms r escrow returned where
    "bt_get (epochs s) eid = Some (Aborted terms)"
    "bt_get (deposit_requests s) (RequestKey eid acct) = Some r"
    "\<not> dr_cancelled r" "\<not> dr_claimed r" "dr_assets r \<noteq> 0"
    "unat (pending_deposit_escrow (buckets s)) = unat (dr_assets r) + unat escrow"
    "unat returned = unat (acc_assets (account_of s acct)) + unat (dr_assets r)"
    "t = s\<lparr>buckets := (buckets s)\<lparr>pending_deposit_escrow := escrow\<rparr>,
       accounts := bt_insert acct (account_of s acct\<lparr>acc_assets := returned\<rparr>) (accounts s),
       deposit_requests := bt_insert (RequestKey eid acct) (r\<lparr>dr_claimed := True\<rparr>)
         (deposit_requests s)\<rparr>"
  using assms unfolding claim_aborted_deposit_def
  by (clarsimp simp: op_simps guard_simps account_mut_def account_of_def)

lemma claim_aborted_redeem_Inr:
  assumes "claim_aborted_redeem s acct eid = Inr t"
  obtains terms r escrowed returned where
    "bt_get (epochs s) eid = Some (Aborted terms)"
    "bt_get (redeem_requests s) (RequestKey eid acct) = Some r"
    "\<not> rr_cancelled r" "\<not> rr_claimed r" "rr_shares r \<noteq> 0"
    "unat (escrowed_redeem_shares s) = unat (rr_shares r) + unat escrowed"
    "unat returned = unat (acc_shares (account_of s acct)) + unat (rr_shares r)"
    "t = s\<lparr>escrowed_redeem_shares := escrowed,
       accounts := bt_insert acct (account_of s acct\<lparr>acc_shares := returned\<rparr>) (accounts s),
       redeem_requests := bt_insert (RequestKey eid acct) (r\<lparr>rr_claimed := True\<rparr>)
         (redeem_requests s)\<rparr>"
  using assms unfolding claim_aborted_redeem_def
  by (clarsimp simp: op_simps guard_simps account_mut_def account_of_def)

lemma shares_for_Inr:
  assumes "wide_uint 256 val W"
  shows "shares_for W t a = Inr y \<longleftrightarrow> sides_fit (terms_basis t) \<and> asset_n (terms_basis t) \<noteq> 0 \<and>
    unat y = shares_floor (terms_basis t) (unat a)"
  unfolding shares_for_def by (rule wide_uint.assets_to_shares_Inr [OF assms]) simp

lemma assets_for_Inr:
  assumes "wide_uint 256 val W"
  shows "assets_for W t a = Inr y \<longleftrightarrow> sides_fit (terms_basis t) \<and> share_n (terms_basis t) \<noteq> 0 \<and>
    unat y = assets_floor (terms_basis t) (unat a)"
  unfolding assets_for_def by (rule wide_uint.shares_to_assets_Inr [OF assms]) simp

lemma claim_deposit_inv:
  assumes W: "wide_uint 256 val W" and inv: "vault_inv s"
    and op: "claim_deposit W s acct eid = Inr t"
  shows "vault_inv t"
  using op
proof (rule claim_deposit_Inr)
  fix terms r shares claimable credited
  assume out: "bt_get (epochs s) eid = Some (Finalized terms)"
    and g: "bt_get (deposit_requests s) (RequestKey eid acct) = Some r" "\<not> dr_cancelled r"
      "\<not> dr_claimed r" "dr_assets r \<noteq> 0"
    and price: "shares_for W terms (dr_assets r) = Inr shares"
    and n: "unat (claimable_deposit_shares s) = unat shares + unat claimable"
      "unat credited = unat (acc_shares (account_of s acct)) + unat shares"
    and t: "t = s\<lparr>claimable_deposit_shares := claimable,
       accounts := bt_insert acct (account_of s acct\<lparr>acc_shares := credited\<rparr>) (accounts s),
       deposit_requests := bt_insert (RequestKey eid acct) (r\<lparr>dr_claimed := True\<rparr>)
         (deposit_requests s)\<rparr>"
  have "deposit_book t = bk_claim (RequestKey eid acct) (deposit_book s)"
    using out g n price unfolding bk_claim_def book_amount shares_for_Inr [OF W]
    by (simp add: deposit_book_def t bt_insert_map dep_view_def)
  note parts = deposit_consume_inv [OF inv g(1,3,2,4), of "Finalized terms" t, OF _ _ _ _ this]
  show "vault_inv t"
    using out n
    by (intro account_step_inv [OF _ inv, where a = acct and
          v = "account_of s acct\<lparr>acc_shares := credited\<rparr>"] parts)
      (simp_all add: t request_frame_def remote_frame_def redeem_book_def)
qed

lemma claim_redeem_inv:
  assumes W: "wide_uint 256 val W" and inv: "vault_inv s"
    and op: "claim_redeem W s acct eid = Inr t"
  shows "vault_inv t"
  using op
proof (rule claim_redeem_Inr)
  fix terms r assets reserve credited
  assume out: "bt_get (epochs s) eid = Some (Finalized terms)"
    and g: "bt_get (redeem_requests s) (RequestKey eid acct) = Some r" "\<not> rr_cancelled r"
      "\<not> rr_claimed r" "rr_shares r \<noteq> 0"
    and price: "assets_for W terms (rr_shares r) = Inr assets"
    and n: "unat (claim_reserve (buckets s)) = unat assets + unat reserve"
      "unat credited = unat (acc_assets (account_of s acct)) + unat assets"
    and t: "t = s\<lparr>buckets := (buckets s)\<lparr>claim_reserve := reserve\<rparr>,
       accounts := bt_insert acct (account_of s acct\<lparr>acc_assets := credited\<rparr>) (accounts s),
       redeem_requests := bt_insert (RequestKey eid acct) (r\<lparr>rr_claimed := True\<rparr>)
         (redeem_requests s)\<rparr>"
  have "redeem_book t = bk_claim (RequestKey eid acct) (redeem_book s)"
    using out g n price unfolding bk_claim_def book_amount assets_for_Inr [OF W]
    by (simp add: redeem_book_def t bt_insert_map red_view_def)
  note parts = redeem_consume_inv [OF inv g(1,3,2,4), of "Finalized terms" t, OF _ _ _ _ this]
  show "vault_inv t"
    using out n
    by (intro account_step_inv [OF _ inv, where a = acct and
          v = "account_of s acct\<lparr>acc_assets := credited\<rparr>"] parts)
      (simp_all add: t request_frame_def remote_frame_def deposit_book_def)
qed

lemma claim_aborted_deposit_inv:
  assumes inv: "vault_inv s" and op: "claim_aborted_deposit s acct eid = Inr t"
  shows "vault_inv t"
  using op
proof (rule claim_aborted_deposit_Inr)
  fix terms r escrow returned
  assume out: "bt_get (epochs s) eid = Some (Aborted terms)"
    and g: "bt_get (deposit_requests s) (RequestKey eid acct) = Some r" "\<not> dr_cancelled r"
      "\<not> dr_claimed r" "dr_assets r \<noteq> 0"
    and n: "unat (pending_deposit_escrow (buckets s)) = unat (dr_assets r) + unat escrow"
      "unat returned = unat (acc_assets (account_of s acct)) + unat (dr_assets r)"
    and t: "t = s\<lparr>buckets := (buckets s)\<lparr>pending_deposit_escrow := escrow\<rparr>,
       accounts := bt_insert acct (account_of s acct\<lparr>acc_assets := returned\<rparr>) (accounts s),
       deposit_requests := bt_insert (RequestKey eid acct) (r\<lparr>dr_claimed := True\<rparr>)
         (deposit_requests s)\<rparr>"
  have "deposit_book t = bk_claim (RequestKey eid acct) (deposit_book s)"
    using out g n unfolding bk_claim_def book_amount
    by (simp add: deposit_book_def t bt_insert_map dep_view_def)
  note parts = deposit_consume_inv [OF inv g(1,3,2,4), of "Aborted terms" t, OF _ _ _ _ this]
  show "vault_inv t"
    using out n
    by (intro account_step_inv [OF _ inv, where a = acct and
          v = "account_of s acct\<lparr>acc_assets := returned\<rparr>"] parts)
      (simp_all add: t request_frame_def remote_frame_def redeem_book_def)
qed

lemma claim_aborted_redeem_inv:
  assumes inv: "vault_inv s" and op: "claim_aborted_redeem s acct eid = Inr t"
  shows "vault_inv t"
  using op
proof (rule claim_aborted_redeem_Inr)
  fix terms r escrowed returned
  assume out: "bt_get (epochs s) eid = Some (Aborted terms)"
    and g: "bt_get (redeem_requests s) (RequestKey eid acct) = Some r" "\<not> rr_cancelled r"
      "\<not> rr_claimed r" "rr_shares r \<noteq> 0"
    and n: "unat (escrowed_redeem_shares s) = unat (rr_shares r) + unat escrowed"
      "unat returned = unat (acc_shares (account_of s acct)) + unat (rr_shares r)"
    and t: "t = s\<lparr>escrowed_redeem_shares := escrowed,
       accounts := bt_insert acct (account_of s acct\<lparr>acc_shares := returned\<rparr>) (accounts s),
       redeem_requests := bt_insert (RequestKey eid acct) (r\<lparr>rr_claimed := True\<rparr>)
         (redeem_requests s)\<rparr>"
  have "redeem_book t = bk_claim (RequestKey eid acct) (redeem_book s)"
    using out g n unfolding bk_claim_def book_amount
    by (simp add: redeem_book_def t bt_insert_map red_view_def)
  note parts = redeem_consume_inv [OF inv g(1,3,2,4), of "Aborted terms" t, OF _ _ _ _ this]
  show "vault_inv t"
    using out n
    by (intro account_step_inv [OF _ inv, where a = acct and
          v = "account_of s acct\<lparr>acc_shares := returned\<rparr>"] parts)
      (simp_all add: t request_frame_def remote_frame_def deposit_book_def)
qed

end
