(* ===== verification/Vault_Settle.thy ===== *)
theory Vault_Settle
  imports Vault_Users
begin

text \<open>
  Genesis, epoch transitions and the vault's state machine keep the accounting invariant:
  \<open>finalize_epoch\<close> refines \<open>bk_finalize\<close> on both books with the two rounding functions of
  the epoch's price, \<open>abort_epoch\<close> refines \<open>bk_abort\<close>, \<open>open_next_epoch\<close> refines
  \<open>bk_open\<close>. With the other operations this gives the invariant for every reachable state.
\<close>

section \<open>What the entitlement loop adds up\<close>

definition dep_owed :: "pricing_basis \<Rightarrow> deposit_request \<Rightarrow> nat" where
  "dep_owed b r = (if deposit_active r then shares_floor b (unat (dr_assets r)) else 0)"

definition red_owed :: "pricing_basis \<Rightarrow> redeem_request \<Rightarrow> nat" where
  "red_owed b r = (if redeem_active r then assets_floor b (unat (rr_shares r)) else 0)"

definition dep_open :: "(deposit_request \<Rightarrow> nat) \<Rightarrow> deposit_request \<Rightarrow> nat" where
  "dep_open f r = (if dr_claimed r then 0 else f r)"

definition red_open :: "(redeem_request \<Rightarrow> nat) \<Rightarrow> redeem_request \<Rightarrow> nat" where
  "red_open f r = (if rr_claimed r then 0 else f r)"

lemma owed_deposit_step_Inr:
  assumes W: "wide_uint 256 val W" and "owed_deposit_step W t p owed = Inr owed'"
  shows "unat (ent_deposit_shares owed') = unat (ent_deposit_shares owed) + dep_owed (terms_basis t) (snd p)"
    "unat (ent_unclaimed_deposit_shares owed') = unat (ent_unclaimed_deposit_shares owed) +
       dep_open (dep_owed (terms_basis t)) (snd p)"
    "ent_redeem_assets owed' = ent_redeem_assets owed"
    "ent_unclaimed_redeem_assets owed' = ent_unclaimed_redeem_assets owed"
  using assms(2)
  by (cases "deposit_active (snd p)"; cases "dr_claimed (snd p)";
      clarsimp simp: owed_deposit_step_def op_simps shares_for_Inr [OF W] dep_owed_def dep_open_def)+

lemma owed_redeem_step_Inr:
  assumes W: "wide_uint 256 val W" and "owed_redeem_step W t p owed = Inr owed'"
  shows "unat (ent_redeem_assets owed') = unat (ent_redeem_assets owed) + red_owed (terms_basis t) (snd p)"
    "unat (ent_unclaimed_redeem_assets owed') = unat (ent_unclaimed_redeem_assets owed) +
       red_open (red_owed (terms_basis t)) (snd p)"
    "ent_deposit_shares owed' = ent_deposit_shares owed"
    "ent_unclaimed_deposit_shares owed' = ent_unclaimed_deposit_shares owed"
  using assms(2)
  by (cases "redeem_active (snd p)"; cases "rr_claimed (snd p)";
      clarsimp simp: owed_redeem_step_def op_simps assets_for_Inr [OF W] red_owed_def red_open_def)+

lemma owed_deposits_Inr:
  assumes W: "wide_uint 256 val W" and "for_each (owed_deposit_step W t) xs owed = Inr owed'"
  shows "unat (ent_deposit_shares owed') = unat (ent_deposit_shares owed) +
      sum_list (map (\<lambda>p. dep_owed (terms_basis t) (snd p)) xs) \<and>
    unat (ent_unclaimed_deposit_shares owed') = unat (ent_unclaimed_deposit_shares owed) +
      sum_list (map (\<lambda>p. dep_open (dep_owed (terms_basis t)) (snd p)) xs) \<and>
    ent_redeem_assets owed' = ent_redeem_assets owed \<and>
    ent_unclaimed_redeem_assets owed' = ent_unclaimed_redeem_assets owed"
  using assms(2)
  by (induction xs arbitrary: owed) (fastforce simp: result_simps dest: owed_deposit_step_Inr [OF W])+

lemma owed_redeems_Inr:
  assumes W: "wide_uint 256 val W" and "for_each (owed_redeem_step W t) xs owed = Inr owed'"
  shows "unat (ent_redeem_assets owed') = unat (ent_redeem_assets owed) +
      sum_list (map (\<lambda>p. red_owed (terms_basis t) (snd p)) xs) \<and>
    unat (ent_unclaimed_redeem_assets owed') = unat (ent_unclaimed_redeem_assets owed) +
      sum_list (map (\<lambda>p. red_open (red_owed (terms_basis t)) (snd p)) xs) \<and>
    ent_deposit_shares owed' = ent_deposit_shares owed \<and>
    ent_unclaimed_deposit_shares owed' = ent_unclaimed_deposit_shares owed"
  using assms(2)
  by (induction xs arbitrary: owed) (fastforce simp: result_simps dest: owed_redeem_step_Inr [OF W])+

lemma entitlements_Inr:
  assumes W: "wide_uint 256 val W" and op: "entitlements_of W s e t = Inr owed"
  shows "unat (ent_deposit_shares owed) = book_sum (deposit_requests s) e (dep_owed (terms_basis t))"
    "unat (ent_unclaimed_deposit_shares owed) =
       book_sum (deposit_requests s) e (dep_open (dep_owed (terms_basis t)))"
    "unat (ent_redeem_assets owed) = book_sum (redeem_requests s) e (red_owed (terms_basis t))"
    "unat (ent_unclaimed_redeem_assets owed) =
       book_sum (redeem_requests s) e (red_open (red_owed (terms_basis t)))"
proof -
  from op obtain mid where
    "for_each (owed_deposit_step W t) (deposits_in s e) default_entitlements = Inr mid"
    "for_each (owed_redeem_step W t) (redeems_in s e) mid = Inr owed"
    by (auto simp: entitlements_of_def result_simps)
  from owed_deposits_Inr [OF W this(1)] owed_redeems_Inr [OF W this(2)]
  show "unat (ent_deposit_shares owed) = book_sum (deposit_requests s) e (dep_owed (terms_basis t))"
    "unat (ent_unclaimed_deposit_shares owed) =
       book_sum (deposit_requests s) e (dep_open (dep_owed (terms_basis t)))"
    "unat (ent_redeem_assets owed) = book_sum (redeem_requests s) e (red_owed (terms_basis t))"
    "unat (ent_unclaimed_redeem_assets owed) =
       book_sum (redeem_requests s) e (red_open (red_owed (terms_basis t)))"
    by (simp_all add: deposits_in_def redeems_in_def book_sum_range default_entitlements_def)
qed

text \<open>A request whose flags agree contributes its own rounded amount, active or not.\<close>

lemma floor_zero [simp]: "shares_floor b 0 = 0" "assets_floor b 0 = 0"
  by (simp_all add: shares_floor_def assets_floor_def)

lemma dep_owed_flags: "deposit_flags_agree r \<Longrightarrow> dep_owed b r = shares_floor b (unat (dr_assets r))"
  by (auto simp: dep_owed_def deposit_active_def deposit_flags_agree_def)

lemma red_owed_flags: "redeem_flags_agree r \<Longrightarrow> red_owed b r = assets_floor b (unat (rr_shares r))"
  by (auto simp: red_owed_def redeem_active_def redeem_flags_agree_def)

lemma priced_book:
  assumes "flags_ok s"
  shows "bk_priced (deposit_book s) e (shares_floor b) = book_sum (deposit_requests s) e (dep_owed b)"
    "bk_priced (redeem_book s) e (assets_floor b) = book_sum (redeem_requests s) e (red_owed b)"
    "bk_unclaimed (deposit_book s) e (shares_floor b) =
       book_sum (deposit_requests s) e (dep_open (dep_owed b))"
    "bk_unclaimed (redeem_book s) e (assets_floor b) =
       book_sum (redeem_requests s) e (red_open (red_owed b))"
  using assms
  by (auto simp: bk_priced_def bk_unclaimed_def book_defs book_sum_map dep_view_def red_view_def
      flags_ok_def dep_open_def red_open_def dep_owed_flags red_owed_flags intro!: book_sum_cong)

lemma floor_superadditive:
  "shares_floor b x + shares_floor b y \<le> shares_floor b (x + y)"
  "assets_floor b x + assets_floor b y \<le> assets_floor b (x + y)"
  by (simp_all add: shares_floor_def assets_floor_def add_mult_distrib div_add_bounds(1))

text \<open>Redeeming part of the supply never pays more than the assets priced.\<close>

lemma assets_floor_bounded:
  assumes "pb_virtual_assets b = 1" "pb_virtual_shares b \<noteq> 0" "x \<le> unat (pb_total_supply b)"
  shows "assets_floor b x \<le> unat (pb_total_assets b)"
proof -
  have "unat (pb_virtual_shares b) \<noteq> 0" using assms(2) by (simp add: unat_eq_zero)
  then have "x < share_n b" using assms(3) by (simp add: share_n_def)
  moreover have "asset_n b = unat (pb_total_assets b) + 1" using assms(1) by (simp add: asset_n_def)
  ultimately have "x * asset_n b < (unat (pb_total_assets b) + 1) * share_n b"
    using mult_less_mono1 [of x "share_n b" "asset_n b"] by (simp add: mult.commute)
  then have "assets_floor b x < unat (pb_total_assets b) + 1"
    unfolding assets_floor_def by (rule less_mult_imp_div_less)
  then show ?thesis by simp
qed

section \<open>Finalization\<close>

definition settlement_basis :: "state \<Rightarrow> epoch_slot \<Rightarrow> pricing_basis \<Rightarrow> bool" where
  "settlement_basis s e b \<longleftrightarrow>
     (if has_remote_exposure s
      then \<exists>locked. bt_get (epoch_valuation_locked s) (ep_id e) = Some locked \<and>
        b = (pre_settlement_basis s e)\<lparr>pb_total_assets := locked\<rparr>
      else b = pre_settlement_basis s e)"

definition settled_terms ::
  "epoch_slot \<Rightarrow> pricing_basis \<Rightarrow> share_amount \<Rightarrow> asset_amount \<Rightarrow> share_amount \<Rightarrow> asset_amount \<Rightarrow> epoch_terms" where
  "settled_terms e b minted redeem_assets deposit_dust redeem_dust =
     \<lparr>et_id = ep_id e, et_config_version = ep_config_version e,
      et_cutoff_at = ep_cutoff_at e, et_total_assets = pb_total_assets b,
      et_total_supply = pb_total_supply b, et_virtual_assets = pb_virtual_assets b,
      et_virtual_shares = pb_virtual_shares b, et_deposit_assets = pending_deposit_assets e,
      et_minted_shares = minted, et_redeem_shares = pending_redeem_shares e,
      et_redeem_assets = redeem_assets, et_deposit_dust = deposit_dust, et_redeem_dust = redeem_dust\<rparr>"

lemma settled_terms_basis [simp]: "terms_basis (settled_terms e b m r d d') = b"
  by (simp add: terms_basis_def settled_terms_def)

lemma settled_outcomes [simp]:
  "dep_outcome (Finalized (settled_terms e b m r d d')) =
     Settled (unat (pending_deposit_assets e)) (unat m) (unat d) (shares_floor b)"
  "red_outcome (Finalized (settled_terms e b m r d d')) =
     Settled (unat (pending_redeem_shares e)) (unat r) (unat d') (assets_floor b)"
  by simp_all (simp_all add: settled_terms_def)

lemma settlement_basis_fields:
  assumes "settlement_basis s e b"
  shows "pb_total_supply b = total_share_supply s" "pb_virtual_assets b = ep_virtual_assets e"
    "pb_virtual_shares b = ep_virtual_shares e"
  using assms by (auto simp: settlement_basis_def pre_settlement_basis_def split: if_splits)

lemma finalize_epoch_Inr:
  assumes W: "wide_uint 256 val W" and "finalize_epoch W s = Inr t"
  obtains e b minted redeem_assets idle escrow reserve total claimable escrowed burned
    next_id deposit_dust redeem_dust
  where "vault_state s = Active" "epoch s = Some e" "ep_phase e = CutOff"
    "\<not> bt_contains (epochs s) (ep_id e)" "settlement_basis s e b" "sides_fit b"
    "asset_n b \<noteq> 0" "share_n b \<noteq> 0"
    "unat redeem_assets = assets_floor b (unat (pending_redeem_shares e))"
    "unat minted = shares_floor b (unat (pending_deposit_assets e))"
    "unat idle + unat redeem_assets =
       unat (idle_backing (buckets s)) + unat (pending_deposit_assets e)"
    "unat redeem_assets \<le> unat (idle_backing (buckets s))"
    "unat (pending_deposit_escrow (buckets s)) = unat (pending_deposit_assets e) + unat escrow"
    "unat reserve = unat (claim_reserve (buckets s)) + unat redeem_assets"
    "unat (total_share_supply s) + unat minted = unat (pending_redeem_shares e) + unat total"
    "unat claimable = unat (claimable_deposit_shares s) + unat minted"
    "unat (escrowed_redeem_shares s) = unat (pending_redeem_shares e) + unat escrowed"
    "unat burned = unat (burned_redemption_shares s) + unat (pending_redeem_shares e)"
    "unat next_id = unat (ep_id e) + 1"
    "unat minted = book_sum (deposit_requests s) (ep_id e) (dep_owed b) + unat deposit_dust"
    "unat redeem_assets = book_sum (redeem_requests s) (ep_id e) (red_owed b) + unat redeem_dust"
    "t = s\<lparr>buckets := (buckets s)\<lparr>idle_backing := idle, pending_deposit_escrow := escrow,
         claim_reserve := reserve\<rparr>, total_share_supply := total,
       claimable_deposit_shares := claimable, escrowed_redeem_shares := escrowed,
       burned_redemption_shares := burned,
       epochs := bt_insert (ep_id e)
         (Finalized (settled_terms e b minted redeem_assets deposit_dust redeem_dust)) (epochs s),
       last_cutoff_at := ep_cutoff_at e, next_epoch_id := next_id, epoch := None\<rparr>"
proof -
  from assms(2) obtain idle1 total1 :: u128 and e b dep red terms redeem_assets minted idle escrow
      reserve total claimable escrowed burned next_id owed deposit_dust redeem_dust terms' where
    g: "vault_state s = Active" "epoch s = Some e" "\<not> ep_phase e \<noteq> CutOff"
      "\<not> bt_contains (epochs s) (ep_id e)"
    and b: "(if has_remote_exposure s
       then and_then (ok_or (bt_get (epoch_valuation_locked s) (ep_id e)) RemoteValuationRequired)
         (\<lambda>locked. Inr ((pre_settlement_basis s e)\<lparr>pb_total_assets := locked\<rparr>))
       else Inr (pre_settlement_basis s e)) = Inr b"
    and lets: "dep = pending_deposit_assets e" "red = pending_redeem_shares e"
    and price: "shares_to_assets W red b = Inr redeem_assets" "assets_to_shares W dep b = Inr minted"
    and n: "unat (idle_backing (buckets s)) = unat redeem_assets + unat idle1"
      "unat idle = unat idle1 + unat dep"
      "unat (pending_deposit_escrow (buckets s)) = unat dep + unat escrow"
      "unat reserve = unat (claim_reserve (buckets s)) + unat redeem_assets"
      "unat total1 = unat (total_share_supply s) + unat minted" "unat total1 = unat red + unat total"
      "unat claimable = unat (claimable_deposit_shares s) + unat minted"
      "unat (escrowed_redeem_shares s) = unat red + unat escrowed"
      "unat burned = unat (burned_redemption_shares s) + unat red"
      "unat next_id = unat (ep_id e) + 1"
    and terms: "terms = \<lparr>et_id = ep_id e, et_config_version = ep_config_version e,
           et_cutoff_at = ep_cutoff_at e, et_total_assets = pb_total_assets b,
           et_total_supply = pb_total_supply b, et_virtual_assets = pb_virtual_assets b,
           et_virtual_shares = pb_virtual_shares b, et_deposit_assets = dep,
           et_minted_shares = minted, et_redeem_shares = red,
           et_redeem_assets = redeem_assets, et_deposit_dust = 0, et_redeem_dust = 0\<rparr>"
    and owed: "entitlements_of W s (ep_id e) terms = Inr owed"
      "unat minted = unat (ent_deposit_shares owed) + unat deposit_dust"
      "unat redeem_assets = unat (ent_redeem_assets owed) + unat redeem_dust"
    and terms': "terms' = terms\<lparr>et_deposit_dust := deposit_dust, et_redeem_dust := redeem_dust\<rparr>"
    and t: "s\<lparr>buckets := (buckets s)\<lparr>idle_backing := idle, pending_deposit_escrow := escrow,
              claim_reserve := reserve\<rparr>,
            total_share_supply := total,
            claimable_deposit_shares := claimable,
            escrowed_redeem_shares := escrowed,
            burned_redemption_shares := burned,
            epochs := bt_insert (ep_id e) (Finalized terms') (epochs s),
            last_cutoff_at := ep_cutoff_at e,
            next_epoch_id := next_id,
            epoch := None\<rparr> = t"
    unfolding finalize_epoch_def if_Inl_Inr ok_or_Inr
      and_then_Inr map_err_Inr guard_simps amount_simps Let_Inr sum.inject
    by (elim exE conjE) (rule that, assumption+)
  have "settlement_basis s e b"
    using b by (auto simp: settlement_basis_def result_simps split: if_splits)
  moreover have "terms_basis terms = b" by (simp add: terms terms_basis_def)
  ultimately show ?thesis
    using g n price t lets entitlements_Inr(1,3) [OF W owed(1)] owed(2,3)
    by (intro that [of e b redeem_assets minted idle escrow reserve total claimable escrowed burned
          next_id deposit_dust redeem_dust]) (simp_all add: settled_terms_def terms' terms
        wide_uint.assets_to_shares_Inr [OF W] wide_uint.shares_to_assets_Inr [OF W])
qed

text \<open>An operation that settles the current epoch or opens a new one.\<close>

definition epoch_frame :: "state \<Rightarrow> state \<Rightarrow> bool" where
  "epoch_frame s t \<longleftrightarrow>
     remote_frame s t \<and> accounts t = accounts s \<and>
     deposit_requests t = deposit_requests s \<and> redeem_requests t = redeem_requests s"

lemma epoch_frame_inv:
  assumes frame: "epoch_frame s t" and inv: "vault_inv s"
    and "book_ok (deposit_book t)" "book_ok (redeem_book t)" "ids_ok t" "slot_ok t" "outcomes_ok t"
      "burned_ok t"
    and assets: "unat (pending_deposit_escrow (buckets t)) + unat (idle_backing (buckets t)) +
        unat (claim_reserve (buckets t)) =
      unat (pending_deposit_escrow (buckets s)) + unat (idle_backing (buckets s)) +
        unat (claim_reserve (buckets s))"
    and shares: "unat (escrowed_redeem_shares t) + unat (claimable_deposit_shares t) + unat (total_share_supply s) =
      unat (escrowed_redeem_shares s) + unat (claimable_deposit_shares s) + unat (total_share_supply t)"
  shows "vault_inv t"
proof -
  have rf: "remote_frame s t" using frame by (simp add: epoch_frame_def)
  have acct: "acct_sum f t = acct_sum f s" for f
    using frame by (intro acct_sum_cong) (simp add: epoch_frame_def)
  have "assets_ok t"
    using assets vault_inv_parts(9) [OF inv] rf remote_frame_ok(4) [OF rf inv]
    by (simp add: assets_ok_def remote_frame_def acct)
  moreover have "shares_ok t"
    using shares vault_inv_parts(10) [OF inv] by (simp add: shares_ok_def acct)
  ultimately show ?thesis
    using assms(3-8) remote_frame_ok [OF rf inv] frame vault_inv_parts(1,3) [OF inv]
    by (simp add: vault_inv_def epoch_frame_def flags_ok_def)
qed

text \<open>Recording an outcome for the current epoch keeps epoch identifiers in order.\<close>

lemma ids_ok_settle:
  assumes inv: "vault_inv s" and "epoch s = Some e" "epoch t = None"
    and "epochs t = bt_insert (ep_id e) o' (epochs s)" "unat (next_epoch_id t) = unat (ep_id e) + 1"
  shows "ids_ok t"
  using assms(2-) vault_inv_parts(6) [OF inv] inv_wf(3) [OF inv]
  by (auto simp: ids_ok_def next_id_bound_def bt.ball_put less_Suc_eq)

lemma outcomes_ok_settle:
  assumes inv: "vault_inv s" and "epochs t = bt_insert k o' (epochs s)" "terms_ok (k, o')"
  shows "outcomes_ok t"
  using assms(2-) vault_inv_parts(8) [OF inv] inv_wf(3) [OF inv]
  by (auto simp: outcomes_ok_def bt.ball_put)

lemma burned_ok_settle:
  assumes inv: "vault_inv s" and "epochs t = bt_insert k o' (epochs s)" "\<not> bt_contains (epochs s) k"
    and "unat (burned_redemption_shares t) = unat (burned_redemption_shares s) + burned_in (k, o')"
  shows "burned_ok t"
  using assms(2-) vault_inv_parts(11) [OF inv] sum_outcomes_insert [OF inv_wf(3) [OF inv]]
  by (simp add: burned_ok_def)

lemma pending_le_supply:
  assumes inv: "vault_inv s" and e: "epoch s = Some e"
  shows "unat (pending_redeem_shares e) \<le> unat (total_share_supply s)"
proof -
  have "unat (pending_redeem_shares e) \<le> unat (escrowed_redeem_shares s)"
    using book_ok_current(3) [OF vault_inv_parts(5) [OF inv]] e by (simp add: redeem_book_def)
  then show ?thesis using vault_inv_parts(10) [OF inv] by (simp add: shares_ok_def)
qed

lemma finalize_current:
  "bk_current b = Some (e, p) \<Longrightarrow> bk_finalize g b =
     b\<lparr>bk_outcomes := bt_insert e (Settled p (g p) (g p - bk_priced b e g) g) (bk_outcomes b),
       bk_current := None, bk_escrow := bk_escrow b - p, bk_pot := bk_pot b + g p\<rparr>"
  by (simp add: bk_finalize_def)

lemma finalize_epoch_inv:
  assumes W: "wide_uint 256 val W" and inv: "vault_inv s" and op: "finalize_epoch W s = Inr t"
  shows "vault_inv t"
  using W op
proof (rule finalize_epoch_Inr)
  fix e b minted redeem_assets idle escrow reserve total claimable escrowed burned next_id
    deposit_dust redeem_dust
  assume g: "epoch s = Some e" "\<not> bt_contains (epochs s) (ep_id e)" "settlement_basis s e b"
    and b: "sides_fit b" "asset_n b \<noteq> 0" "share_n b \<noteq> 0"
    and price: "unat redeem_assets = assets_floor b (unat (pending_redeem_shares e))"
      "unat minted = shares_floor b (unat (pending_deposit_assets e))"
    and n: "unat idle + unat redeem_assets =
       unat (idle_backing (buckets s)) + unat (pending_deposit_assets e)"
      "unat (pending_deposit_escrow (buckets s)) = unat (pending_deposit_assets e) + unat escrow"
      "unat reserve = unat (claim_reserve (buckets s)) + unat redeem_assets"
      "unat (total_share_supply s) + unat minted = unat (pending_redeem_shares e) + unat total"
      "unat claimable = unat (claimable_deposit_shares s) + unat minted"
      "unat (escrowed_redeem_shares s) = unat (pending_redeem_shares e) + unat escrowed"
      "unat burned = unat (burned_redemption_shares s) + unat (pending_redeem_shares e)"
      "unat next_id = unat (ep_id e) + 1"
    and dust: "unat minted = book_sum (deposit_requests s) (ep_id e) (dep_owed b) + unat deposit_dust"
      "unat redeem_assets = book_sum (redeem_requests s) (ep_id e) (red_owed b) + unat redeem_dust"
    and t: "t = s\<lparr>buckets := (buckets s)\<lparr>idle_backing := idle, pending_deposit_escrow := escrow,
         claim_reserve := reserve\<rparr>, total_share_supply := total,
       claimable_deposit_shares := claimable, escrowed_redeem_shares := escrowed,
       burned_redemption_shares := burned,
       epochs := bt_insert (ep_id e)
         (Finalized (settled_terms e b minted redeem_assets deposit_dust redeem_dust)) (epochs s),
       last_cutoff_at := ep_cutoff_at e, next_epoch_id := next_id, epoch := None\<rparr>"
  let ?o = "Finalized (settled_terms e b minted redeem_assets deposit_dust redeem_dust)"
  note priced = priced_book [OF vault_inv_parts(3) [OF inv], where e = "ep_id e" and b = b]
  have cur: "bk_current (deposit_book s) = Some (ep_id e, unat (pending_deposit_assets e))"
    "bk_current (redeem_book s) = Some (ep_id e, unat (pending_redeem_shares e))"
    using g by (simp_all add: book_defs)
  have dd: "shares_floor b (unat (pending_deposit_assets e)) -
      book_sum (deposit_requests s) (ep_id e) (dep_owed b) = unat deposit_dust"
    "assets_floor b (unat (pending_redeem_shares e)) -
      book_sum (redeem_requests s) (ep_id e) (red_owed b) = unat redeem_dust"
    using price dust by simp_all
  have dep: "deposit_book t = bk_finalize (shares_floor b) (deposit_book s)"
    using n price(2) dd unfolding finalize_current [OF cur(1)] priced(1)
    by (simp add: deposit_book_def t bt_insert_map del: dep_outcome.simps)
  have red: "redeem_book t = bk_finalize (assets_floor b) (redeem_book s)"
    using n price(1) dd unfolding finalize_current [OF cur(2)] priced(2)
    by (simp add: redeem_book_def t bt_insert_map del: red_outcome.simps)
  have "book_ok (deposit_book t)" unfolding dep
    using g by (intro book_ok_finalize [OF vault_inv_parts(4) [OF inv]] floor_superadditive)
      (simp_all add: deposit_book_def)
  moreover have "book_ok (redeem_book t)" unfolding red
    using g by (intro book_ok_finalize [OF vault_inv_parts(5) [OF inv]] floor_superadditive)
      (simp_all add: redeem_book_def)
  moreover have "unat redeem_assets \<le> unat (pb_total_assets b)"
    unfolding price using pending_le_supply [OF inv g(1)] vault_inv_parts(7) [OF inv] g
    by (intro assets_floor_bounded) (simp_all add: settlement_basis_fields slot_ok_def)
  then have "terms_ok (ep_id e, ?o)"
    using b by (simp add: terms_ok_def) (simp add: settled_terms_def)
  ultimately show "vault_inv t"
    using n g by (intro epoch_frame_inv [OF _ inv] ids_ok_settle [OF inv g(1), where o' = ?o]
        outcomes_ok_settle [OF inv, where k = "ep_id e" and o' = ?o]
        burned_ok_settle [OF inv, where k = "ep_id e" and o' = ?o])
      (simp_all add: t epoch_frame_def remote_frame_def slot_ok_def burned_in_def settled_terms_def)
qed

section \<open>Abort, opening and vault state\<close>

lemma abort_epoch_Inr:
  assumes "abort_epoch s actor = Inr t"
  obtains e next_id where
    "actor = admin (authority s) \<or> actor = guardian (authority s)" "vault_state s = Frozen"
    "epoch s = Some e" "\<not> bt_contains (epochs s) (ep_id e)" "unat next_id = unat (ep_id e) + 1"
    "t = s\<lparr>epochs := bt_insert (ep_id e)
        (Aborted \<lparr>at_id = ep_id e, at_config_version = ep_config_version e,
          at_cutoff_at = ep_cutoff_at e, refund_assets = pending_deposit_assets e,
          refund_shares = pending_redeem_shares e\<rparr>) (epochs s),
       last_cutoff_at := ep_cutoff_at e, next_epoch_id := next_id, epoch := None\<rparr>"
  using assms unfolding abort_epoch_def by (clarsimp simp: op_simps)

lemma abort_epoch_inv:
  assumes inv: "vault_inv s" and op: "abort_epoch s actor = Inr t"
  shows "vault_inv t"
  using op
proof (rule abort_epoch_Inr)
  fix e next_id
  assume g: "epoch s = Some e" "\<not> bt_contains (epochs s) (ep_id e)" "unat next_id = unat (ep_id e) + 1"
    and t: "t = s\<lparr>epochs := bt_insert (ep_id e)
        (Aborted \<lparr>at_id = ep_id e, at_config_version = ep_config_version e,
          at_cutoff_at = ep_cutoff_at e, refund_assets = pending_deposit_assets e,
          refund_shares = pending_redeem_shares e\<rparr>) (epochs s),
       last_cutoff_at := ep_cutoff_at e, next_epoch_id := next_id, epoch := None\<rparr>"
  let ?o = "Aborted \<lparr>at_id = ep_id e, at_config_version = ep_config_version e,
          at_cutoff_at = ep_cutoff_at e, refund_assets = pending_deposit_assets e,
          refund_shares = pending_redeem_shares e\<rparr>"
  have "deposit_book t = bk_abort (deposit_book s)" "redeem_book t = bk_abort (redeem_book s)"
    using g by (simp_all add: bk_abort_def book_defs t bt_insert_map)
  then have "book_ok (deposit_book t)" "book_ok (redeem_book t)"
    using g book_ok_abort [OF vault_inv_parts(4) [OF inv]] book_ok_abort [OF vault_inv_parts(5) [OF inv]]
    by (simp_all add: book_defs)
  then show "vault_inv t"
    using g by (intro epoch_frame_inv [OF _ inv] ids_ok_settle [OF inv g(1), where o' = ?o]
        outcomes_ok_settle [OF inv, where k = "ep_id e" and o' = ?o]
        burned_ok_settle [OF inv, where k = "ep_id e" and o' = ?o])
      (simp_all add: t epoch_frame_def remote_frame_def slot_ok_def burned_in_def terms_ok_def)
qed

lemma virtual_shares_positive: "virtual_shares_for a b = Inr v \<Longrightarrow> v \<noteq> 0"
proof -
  assume "virtual_shares_for a b = Inr v"
  then obtain n where n: "(10 :: nat) ^ n < 2 ^ 128" "v = 10 ^ n"
    by (auto simp: virtual_shares_for_def checked_pow_word_def op_simps split: if_splits)
  have "v = of_nat (10 ^ n)" using n(2) by simp
  then have "unat v = 10 ^ n" using unat_of_nat_below [of "10 ^ n", where 'a = 128] n(1) by simp
  then show "v \<noteq> 0" by auto
qed

lemma open_next_epoch_Inr:
  assumes "open_next_epoch s now = Inr t"
  obtains v cutoff where
    "vault_state s = Active" "epoch s = None" "\<not> now < last_cutoff_at s" "v \<noteq> 0"
    "unat cutoff = unat now + unat (epoch_duration (config s))"
    "t = s\<lparr>epoch := Some (new_epoch (next_epoch_id s) now cutoff (config s) v)\<rparr>"
  using assms unfolding open_next_epoch_def checked_add_seconds_def
  by (clarsimp simp: op_simps) (metis virtual_shares_positive)

lemma open_next_epoch_inv:
  assumes inv: "vault_inv s" and op: "open_next_epoch s now = Inr t"
  shows "vault_inv t"
  using op
proof (rule open_next_epoch_Inr)
  fix v cutoff
  assume g: "epoch s = None" "v \<noteq> 0"
    and t: "t = s\<lparr>epoch := Some (new_epoch (next_epoch_id s) now cutoff (config s) v)\<rparr>"
  have fresh: "\<not> bt_contains (epochs s) (next_epoch_id s)"
    using vault_inv_parts(6) [OF inv] g
    by (auto simp: ids_ok_def next_id_bound_def bt_contains_iff)
  have "deposit_book t = bk_open (next_epoch_id s) (deposit_book s)"
    "redeem_book t = bk_open (next_epoch_id s) (redeem_book s)"
    by (simp_all add: bk_open_def book_defs t new_epoch_def)
  then have "book_ok (deposit_book t)" "book_ok (redeem_book t)"
    using g fresh book_ok_open [OF vault_inv_parts(4) [OF inv]] book_ok_open [OF vault_inv_parts(5) [OF inv]]
    by (simp_all add: book_defs)
  then show "vault_inv t"
    using g vault_inv_parts(6,8,11) [OF inv]
    by (intro epoch_frame_inv [OF _ inv])
      (simp_all add: t epoch_frame_def remote_frame_def slot_ok_def ids_ok_def next_id_bound_def
        new_epoch_def outcomes_ok_def burned_ok_def)
qed

lemma cutoff_epoch_Inr:
  "cutoff_epoch s now = Inr t \<longleftrightarrow> vault_state s = Active \<and>
     (\<exists>e. epoch s = Some e \<and> ep_phase e = Open \<and> \<not> now < ep_cutoff_at e \<and>
        t = s\<lparr>epoch := Some (e\<lparr>ep_phase := CutOff\<rparr>)\<rparr>)"
  unfolding cutoff_epoch_def by (auto simp: op_simps)

lemma cutoff_epoch_inv:
  assumes inv: "vault_inv s" and op: "cutoff_epoch s now = Inr t"
  shows "vault_inv t"
proof -
  from op obtain e where e: "epoch s = Some e" and t: "t = s\<lparr>epoch := Some (e\<lparr>ep_phase := CutOff\<rparr>)\<rparr>"
    unfolding cutoff_epoch_Inr by blast
  have "deposit_book t = deposit_book s" "redeem_book t = redeem_book s"
    using e by (simp_all add: book_defs t)
  then show ?thesis
    using e vault_inv_parts(1,3,4,5) [OF inv]
    by (intro request_frame_inv [OF _ inv])
      (simp_all add: t request_frame_def remote_frame_def slot_view_def flags_ok_def acct_sum_def)
qed

lemma vault_state_inv:
  assumes "vault_inv s" shows "vault_inv (s\<lparr>vault_state := v\<rparr>)"
  using assms by (intro request_frame_inv [OF _ assms])
    (simp_all add: vault_inv_def request_frame_def remote_frame_def flags_ok_def acct_sum_def book_defs)

lemma pause_Inr:
  "pause s a = Inr t \<longleftrightarrow> (a = admin (authority s) \<or> a = guardian (authority s)) \<and>
     vault_state s = Active \<and> t = s\<lparr>vault_state := Paused\<rparr>"
  "unpause s a = Inr t \<longleftrightarrow> a = admin (authority s) \<and> vault_state s = Paused \<and>
     t = s\<lparr>vault_state := Active\<rparr>"
  "freeze s a = Inr t \<longleftrightarrow> (a = admin (authority s) \<or> a = guardian (authority s)) \<and>
     vault_state s \<noteq> Frozen \<and> t = s\<lparr>vault_state := Frozen\<rparr>"
  by (auto simp: pause_def unpause_def freeze_def op_simps)

section \<open>Genesis\<close>

definition genesis_ok :: "asset_amount \<Rightarrow> (account_id, account) btree_map \<times> asset_amount \<Rightarrow> bool" where
  "genesis_ok u acc \<longleftrightarrow> bt_wf (fst acc) \<and> (\<forall>p \<in> set (fst acc). acc_shares (snd p) = 0) \<and>
     sum_list (map (\<lambda>p. unat (acc_assets (snd p))) (fst acc)) + unat u = unat (snd acc)"

lemma genesis_step_ok:
  assumes "genesis_step entry acc = Inr acc'" "genesis_ok u acc"
  shows "genesis_ok u acc'"
proof -
  obtain a n accs total where split: "entry = (a, n)" "acc = (accs, total)" by (cases entry; cases acc)
  from assms(1) obtain total' where
    fresh: "\<not> bt_contains accs a" and n: "unat total' = unat total + unat n"
    and acc': "acc' = (bt_insert a \<lparr>acc_assets = n, acc_shares = 0\<rparr> accs, total')"
    by (auto simp: genesis_step_def split op_simps)
  have wf: "bt_wf accs" using assms(2) by (simp add: genesis_ok_def split)
  show ?thesis
    using assms(2) n ball_outcomes_insert [OF wf fresh] sum_outcomes_insert [OF wf fresh] wf
    by (simp add: genesis_ok_def split acc')
qed

lemma genesis_inv:
  assumes "state_new g = Inr s"
  shows "vault_inv s"
proof -
  from assms obtain v accs total cutoff next_id where
    v: "virtual_shares_for (cfg_asset_decimals (g_config g)) (cfg_share_decimals (g_config g)) = Inr v"
    and loop: "for_each genesis_step (g_accounts g) ([], g_unattributed_balance g) = Inr (accs, total)"
    and s: "s = \<lparr>config = g_config g, authority = g_authority g, vault_state = Active,
       epoch = Some (new_epoch 0 (g_opened_at g) cutoff (g_config g) v),
       next_epoch_id = next_id, last_cutoff_at = g_opened_at g, epochs = [],
       accounts = accs, deposit_requests = [], redeem_requests = [],
       buckets = \<lparr>pending_deposit_escrow = 0, idle_backing = 0, claim_reserve = 0,
         unattributed_balance = g_unattributed_balance g, unattributed_inbound = 0,
         outbound_in_transit = 0, accepted_remote_value = 0, inbound_in_transit = 0\<rparr>,
       total_share_supply = 0, escrowed_redeem_shares = 0, claimable_deposit_shares = 0,
       burned_redemption_shares = 0, initial_asset_supply = total,
       remote_principal_cap = 0, recognized_loss = 0, impaired_transport = 0,
       cumulative_impairment = 0, external_inflow = 0, pending_recall_id = 0,
       pending_recall_principal = 0, active_cycle = Cycle_None, active_transfer_id = 0,
       active_amount = 0, close_requested = False, inbound_cumulative_loss = 0,
       recall_baseline_value = 0, recall_baseline_loss = 0, used_transfer_ids = {},
       epoch_valuation_locked = []\<rparr>"
    unfolding state_new_def by (auto simp: result_simps)
  have "genesis_ok (g_unattributed_balance g) (accs, total)"
    by (rule for_each_invariant [OF loop _ genesis_step_ok]) (simp_all add: genesis_ok_def)
  moreover from this have "acct_sum acc_shares s = 0"
    by (auto simp: genesis_ok_def acct_sum_def s)
  ultimately show ?thesis
    using virtual_shares_positive [OF v]
    by (simp add: vault_inv_def inv_parts s genesis_ok_def book_ok_def book_defs keys_ok_def
        current_ok_def current_amount_def bk_total_def book_sum_def new_epoch_def bt_contains_def)
qed

section \<open>Every reachable state\<close>

lemmas op_invs = request_deposit_inv cancel_deposit_inv request_redeem_inv cancel_redeem_inv
  cutoff_epoch_inv abort_epoch_inv claim_aborted_deposit_inv claim_aborted_redeem_inv
  open_next_epoch_inv begin_allocate_inv complete_allocation_inv begin_recall_inv
  accept_recall_sent_inv observe_inbound_inv apply_remote_valuation_inv lock_remote_valuation_inv
  request_close_inv settle_close_inv begin_recover_inv settle_recover_inv

lemma apply_op_inv:
  assumes W: "wide_uint 256 val W" and inv: "vault_inv s" and op: "apply_op W s op = Inr t"
  shows "vault_inv t"
  using op
  by (cases op) (auto simp: pause_Inr vault_state_inv [OF inv] dest: op_invs [OF inv]
      finalize_epoch_inv [OF W inv] claim_deposit_inv [OF W inv] claim_redeem_inv [OF W inv])

lemma reachable_inv:
  assumes W: "wide_uint 256 val W" and "reachable W s"
  shows "vault_inv s"
  using assms(2) by induction (auto intro: genesis_inv apply_op_inv [OF W])

end
