(* ===== verification/Vault_Inflow.thy ===== *)
theory Vault_Inflow
  imports Vault_Settle
begin

text \<open>
  Assets from outside never mix with the vault's own: what \<open>observe_inbound\<close> counts as
  \<open>external_inflow\<close> stays in \<open>unattributed_balance\<close>, which no operation spends. So everything
  else the vault accounts for is covered by the supply of the genesis, which is one 128-bit
  amount, and no sum of it overflows, however much arrives from outside.
\<close>

definition inflow_held :: "state \<Rightarrow> bool" where
  "inflow_held s \<longleftrightarrow> unat (external_inflow s) \<le> unat (unattributed_balance (buckets s))"

definition inflow_frame :: "state \<Rightarrow> state \<Rightarrow> bool" where
  "inflow_frame s t \<longleftrightarrow> external_inflow t = external_inflow s \<and>
     unattributed_balance (buckets t) = unattributed_balance (buckets s)"

lemma inflow_frame_held: "inflow_frame s t \<Longrightarrow> inflow_held s \<Longrightarrow> inflow_held t"
  by (simp add: inflow_frame_def inflow_held_def)

lemma user_inflow:
  "request_deposit s a n = Inr t \<Longrightarrow> inflow_frame s t" "request_redeem s a m = Inr t \<Longrightarrow> inflow_frame s t"
  "cancel_deposit s a = Inr t \<Longrightarrow> inflow_frame s t" "cancel_redeem s a = Inr t \<Longrightarrow> inflow_frame s t"
  "claim_deposit W s a eid = Inr t \<Longrightarrow> inflow_frame s t" "claim_redeem W s a eid = Inr t \<Longrightarrow> inflow_frame s t"
  "claim_aborted_deposit s a eid = Inr t \<Longrightarrow> inflow_frame s t"
  "claim_aborted_redeem s a eid = Inr t \<Longrightarrow> inflow_frame s t"
  by (elim request_deposit_Inr request_redeem_Inr cancel_deposit_Inr cancel_redeem_Inr claim_deposit_Inr
      claim_redeem_Inr claim_aborted_deposit_Inr claim_aborted_redeem_Inr; simp add: inflow_frame_def)+

lemma epoch_inflow:
  "cutoff_epoch s now = Inr t \<Longrightarrow> inflow_frame s t" "open_next_epoch s now = Inr t \<Longrightarrow> inflow_frame s t"
  "abort_epoch s a = Inr t \<Longrightarrow> inflow_frame s t" "pause s a = Inr t \<Longrightarrow> inflow_frame s t"
  "unpause s a = Inr t \<Longrightarrow> inflow_frame s t" "freeze s a = Inr t \<Longrightarrow> inflow_frame s t"
  by (auto elim!: abort_epoch_Inr open_next_epoch_Inr simp: inflow_frame_def cutoff_epoch_Inr pause_Inr)

lemma finalize_inflow: "wide_uint 256 val W \<Longrightarrow> finalize_epoch W s = Inr t \<Longrightarrow> inflow_frame s t"
  by (erule (1) finalize_epoch_Inr) (simp add: inflow_frame_def)

lemma remote_inflow:
  "begin_allocate s a tid n = Inr t \<Longrightarrow> inflow_frame s t"
  "complete_allocation s tid n = Inr t \<Longrightarrow> inflow_frame s t"
  "begin_recall s a tid n = Inr t \<Longrightarrow> inflow_frame s t"
  "accept_recall_sent s tid n m l = Inr t \<Longrightarrow> inflow_frame s t"
  "apply_remote_valuation s n m = Inr t \<Longrightarrow> inflow_frame s t"
  "lock_remote_valuation s = Inr t \<Longrightarrow> inflow_frame s t"
  "request_close s a tid = Inr t \<Longrightarrow> inflow_frame s t"
  "settle_close s tid n = Inr t \<Longrightarrow> inflow_frame s t"
  "begin_recover s a tid = Inr t \<Longrightarrow> inflow_frame s t"
  "settle_recover s tid n = Inr t \<Longrightarrow> inflow_frame s t"
proof -
  note defs = inflow_frame_def clear_cycle_def set_accepted_def
  show "begin_allocate s a tid n = Inr t \<Longrightarrow> inflow_frame s t"
    by (auto simp: begin_allocate_def op_simps defs)
  show "complete_allocation s tid n = Inr t \<Longrightarrow> inflow_frame s t"
    by (cases "close_requested s") (auto simp: complete_allocation_def op_simps defs)
  show "begin_recall s a tid n = Inr t \<Longrightarrow> inflow_frame s t"
    by (auto simp: begin_recall_def op_simps defs)
  show "accept_recall_sent s tid n m l = Inr t \<Longrightarrow> inflow_frame s t"
    by (erule accept_recall_sent_Inr) (simp add: defs)
  show "apply_remote_valuation s n m = Inr t \<Longrightarrow> inflow_frame s t"
    by (cases "close_requested s") (auto simp: apply_remote_valuation_def op_simps defs)
  show "lock_remote_valuation s = Inr t \<Longrightarrow> inflow_frame s t"
    by (cases "close_requested s") (auto simp: lock_remote_valuation_def op_simps defs)
  show "request_close s a tid = Inr t \<Longrightarrow> inflow_frame s t"
    by (auto simp: request_close_def op_simps defs)
  show "settle_close s tid n = Inr t \<Longrightarrow> inflow_frame s t"
    by (auto simp: settle_close_def op_simps credit_remote_Inr defs)
  show "begin_recover s a tid = Inr t \<Longrightarrow> inflow_frame s t"
    by (auto simp: begin_recover_def op_simps defs)
  show "settle_recover s tid n = Inr t \<Longrightarrow> inflow_frame s t"
    by (auto simp: settle_recover_def op_simps credit_remote_Inr defs)
qed

lemma observe_inflow:
  assumes "observe_inbound s n = Inr t" "inflow_held s"
  shows "inflow_held t"
proof -
  from assms(1) obtain u m where u: "attribute_in_flight s n = Inr (u, m)" and t: "record_surplus u m = Inr t"
    by (auto simp: observe_inbound_def result_simps)
  have "inflow_frame s u"
    using u by (cases "inbound_in_transit (buckets s) = 0")
      (auto simp: attribute_in_flight_def op_simps inflow_frame_def)
  then have "inflow_held u" using assms(2) by (rule inflow_frame_held)
  then show ?thesis
    using t by (cases "m = 0"; cases "pending_recall_principal u = 0")
      (auto simp: record_surplus_def op_simps inflow_held_def)
qed

lemma apply_op_inflow:
  assumes W: "wide_uint 256 val W" and op: "apply_op W s op = Inr t" and held: "inflow_held s"
  shows "inflow_held t"
  using op
  by (cases op) (auto intro: observe_inflow [OF _ held] inflow_frame_held [OF _ held]
      dest: user_inflow epoch_inflow finalize_inflow [OF W] remote_inflow)

lemma genesis_inflow: "state_new g = Inr s \<Longrightarrow> inflow_held s"
  by (auto simp: state_new_def result_simps inflow_held_def)

lemma reachable_inflow:
  assumes W: "wide_uint 256 val W" and "reachable W s"
  shows "inflow_held s"
  using assms(2) by induction (auto intro: genesis_inflow apply_op_inflow [OF W])

lemma own_assets_fit:
  assumes "vault_inv s" "inflow_held s"
  shows "acct_sum acc_assets s + unat (pending_deposit_escrow (buckets s)) + unat (idle_backing (buckets s)) +
    unat (claim_reserve (buckets s)) + off_vault s < 2 ^ 128"
  using vault_inv_parts(9) [OF assms(1)] assms(2) unat_below [of "initial_asset_supply s"]
  by (simp add: assets_ok_def inflow_held_def)

end
