(* ===== verification/Vault_Checks.thy ===== *)
theory Vault_Checks
  imports Vault_Inflow
begin

text \<open>
  The accounting checks (\<open>crates/accounting-model/src/invariant.rs\<close>). Each check recomputes
  a total in checked 128-bit arithmetic and compares it with the recorded one; an overflow
  while checking is a violation too. The lemmas show what the checks return on every state
  of the accounting invariant: each check passes, except that the two sums over all assets
  overflow when those do not fit 128 bits, and except the price check, which is stated on its own.
\<close>

section \<open>Violations\<close>

datatype violation =
    AssetConservation | ShareConservation | NavCompositionMismatch | EscrowAggregateMismatch
  | BurnedSharesMismatch | ClaimReserveNotExplained | ClaimableSharesNotExplained
  | RequestLifecycleInvalid | EpochAggregateMismatch | EpochTermsInconsistent
  | SettledEpochStillCurrent | AbortedRefundMismatch | DustOutOfBounds | PriceDecreased
  | ArithmeticFailure rejection

fun violation_message :: "violation \<Rightarrow> string" where
  "violation_message AssetConservation = ''assets are not conserved''"
| "violation_message ShareConservation = ''shares are not conserved''"
| "violation_message NavCompositionMismatch = ''nav plus excluded buckets does not equal tracked assets''"
| "violation_message EscrowAggregateMismatch = ''escrow does not match the requests behind it''"
| "violation_message BurnedSharesMismatch = ''burned shares do not match finalized terms''"
| "violation_message ClaimReserveNotExplained = ''claim reserve does not equal entitlement plus dust''"
| "violation_message ClaimableSharesNotExplained = ''claimable shares do not equal entitlement plus dust''"
| "violation_message RequestLifecycleInvalid = ''a request holds an impossible combination of flags''"
| "violation_message EpochAggregateMismatch = ''an epoch aggregate does not match its requests''"
| "violation_message EpochTermsInconsistent = ''finalized terms do not match their own price''"
| "violation_message SettledEpochStillCurrent = ''an epoch with an outcome is still the current epoch''"
| "violation_message AbortedRefundMismatch = ''aborted refunds do not match the requests behind them''"
| "violation_message DustOutOfBounds = ''measured dust is negative or above its bound''"
| "violation_message PriceDecreased = ''settlement lowered the share price''"
| "violation_message (ArithmeticFailure reason) =
     ''arithmetic failure while checking invariants: '' @ rejection_message reason"

section \<open>The checks\<close>

abbreviation arith :: "rejection + 'a \<Rightarrow> violation + 'a" where
  "arith \<equiv> map_err ArithmeticFailure"

definition check_asset_conservation :: "state \<Rightarrow> violation + unit" where
  "check_asset_conservation s =
     and_then (arith (total_account_assets s)) (\<lambda>held.
     and_then (arith
       (and_then (asset_checked_add (pending_deposit_escrow (buckets s)) (idle_backing (buckets s))) (\<lambda>t.
        and_then (asset_checked_add t (claim_reserve (buckets s))) (\<lambda>t.
        asset_checked_add t (unattributed_balance (buckets s)))))) (\<lambda>physical.
     and_then (arith
       (and_then (asset_checked_add (outbound_in_transit (buckets s)) (inbound_in_transit (buckets s))) (\<lambda>t.
        and_then (asset_checked_add t (remote_principal_cap s)) (\<lambda>t.
        and_then (asset_checked_add t (recognized_loss s)) (\<lambda>t.
        asset_checked_add t (impaired_transport s)))))) (\<lambda>off_evm.
     and_then (arith (and_then (asset_checked_add held physical) (\<lambda>t. asset_checked_add t off_evm)))
       (\<lambda>accounted.
     and_then (arith (asset_checked_add (initial_asset_supply s) (external_inflow s))) (\<lambda>issued.
     if accounted = issued then Inr () else Inl AssetConservation)))))"

definition check_nav_composition :: "state \<Rightarrow> violation + unit" where
  "check_nav_composition s =
     and_then (arith (excluded_from_nav s)) (\<lambda>excluded.
     and_then (arith (asset_checked_add (managed_nav s) excluded)) (\<lambda>composed.
     and_then (arith (total_bucket_assets s)) (\<lambda>total.
     if composed = total then Inr () else Inl NavCompositionMismatch)))"

definition check_share_conservation :: "state \<Rightarrow> violation + unit" where
  "check_share_conservation s =
     and_then (arith
       (and_then (total_account_shares s) (\<lambda>t.
        and_then (share_checked_add t (escrowed_redeem_shares s)) (\<lambda>t.
        share_checked_add t (claimable_deposit_shares s))))) (\<lambda>accounted.
     if accounted = total_share_supply s then Inr () else Inl ShareConservation)"

definition check_burned_shares :: "state \<Rightarrow> violation + unit" where
  "check_burned_shares s =
     and_then (for_each (\<lambda>outcome burned.
         case outcome_finalized outcome of
           None \<Rightarrow> Inr burned
         | Some t \<Rightarrow> arith (share_checked_add burned (et_redeem_shares t)))
       (bt_values (epochs s)) 0) (\<lambda>burned.
     if burned = burned_redemption_shares s then Inr () else Inl BurnedSharesMismatch)"

definition check_request_lifecycle :: "state \<Rightarrow> violation + unit" where
  "check_request_lifecycle s =
     and_then (for_each (\<lambda>r u. if \<not> deposit_flags_agree r then Inl RequestLifecycleInvalid else Inr ())
       (bt_values (deposit_requests s)) ()) (\<lambda>_.
     for_each (\<lambda>r u. if \<not> redeem_flags_agree r then Inl RequestLifecycleInvalid else Inr ())
       (bt_values (redeem_requests s)) ())"

text \<open>The two parts of \<open>check_escrow_backing\<close>: the current epoch and one settled epoch.\<close>

definition escrow_current :: "state \<Rightarrow> violation + (asset_amount \<times> share_amount)" where
  "escrow_current s =
     (case epoch s of
        None \<Rightarrow> Inr (0, 0)
      | Some e \<Rightarrow>
          if bt_contains (epochs s) (ep_id e) then Inl SettledEpochStillCurrent
          else and_then (arith (request_totals_of s (ep_id e))) (\<lambda>totals.
            if rt_deposit_assets totals \<noteq> pending_deposit_assets e \<or>
               rt_redeem_shares totals \<noteq> pending_redeem_shares e
            then Inl EpochAggregateMismatch
            else Inr (rt_deposit_assets totals, rt_redeem_shares totals)))"

definition escrow_outcome ::
  "state \<Rightarrow> epoch_id \<times> epoch_outcome \<Rightarrow> asset_amount \<times> share_amount \<Rightarrow>
   violation + (asset_amount \<times> share_amount)" where
  "escrow_outcome s entry acc =
     (case outcome_aborted (snd entry) of
        None \<Rightarrow> Inr acc
      | Some aborted \<Rightarrow>
          and_then (arith (request_totals_of s (fst entry))) (\<lambda>totals.
          if rt_deposit_assets totals \<noteq> refund_assets aborted \<or>
             rt_redeem_shares totals \<noteq> refund_shares aborted
          then Inl AbortedRefundMismatch
          else and_then (arith (asset_checked_add (fst acc) (rt_unclaimed_deposit_assets totals))) (\<lambda>assets.
            and_then (arith (share_checked_add (snd acc) (rt_unclaimed_redeem_shares totals))) (\<lambda>shares.
            Inr (assets, shares)))))"

definition check_escrow_backing :: "state \<Rightarrow> violation + unit" where
  "check_escrow_backing s =
     and_then (escrow_current s) (\<lambda>acc.
     and_then (for_each (escrow_outcome s) (epochs s) acc) (\<lambda>(assets, shares).
     if assets \<noteq> pending_deposit_escrow (buckets s) \<or> shares \<noteq> escrowed_redeem_shares s
     then Inl EscrowAggregateMismatch else Inr ()))"

definition check_dust :: "u128 \<Rightarrow> u128 \<Rightarrow> u128 \<Rightarrow> u128 \<Rightarrow> violation + unit" where
  "check_dust aggregate parts recorded count =
     (if aggregate < parts then Inl DustOutOfBounds
      else and_then (ok_or (checked_sub_word aggregate parts) DustOutOfBounds) (\<lambda>measured.
        if measured \<noteq> recorded \<or> saturating_sub_word count 1 < measured
        then Inl DustOutOfBounds else Inr ()))"

definition claim_outcome ::
  "'w uint_ops \<Rightarrow> state \<Rightarrow> epoch_id \<times> epoch_outcome \<Rightarrow> share_amount \<times> asset_amount \<Rightarrow>
   violation + (share_amount \<times> asset_amount)" where
  "claim_outcome W s entry acc =
     (case outcome_finalized (snd entry) of
        None \<Rightarrow> Inr acc
      | Some t \<Rightarrow>
          and_then (arith (entitlements_of W s (fst entry) t)) (\<lambda>owed.
          and_then (arith (request_totals_of s (fst entry))) (\<lambda>totals.
          and_then (check_dust (et_minted_shares t) (ent_deposit_shares owed) (et_deposit_dust t)
            (rt_deposit_count totals)) (\<lambda>_.
          and_then (check_dust (et_redeem_assets t) (ent_redeem_assets owed) (et_redeem_dust t)
            (rt_redeem_count totals)) (\<lambda>_.
          and_then (arith (and_then (share_checked_add (fst acc) (ent_unclaimed_deposit_shares owed))
            (\<lambda>x. share_checked_add x (et_deposit_dust t)))) (\<lambda>owed_shares.
          and_then (arith (and_then (asset_checked_add (snd acc) (ent_unclaimed_redeem_assets owed))
            (\<lambda>x. asset_checked_add x (et_redeem_dust t)))) (\<lambda>owed_assets.
          Inr (owed_shares, owed_assets))))))))"

definition check_claim_backing :: "'w uint_ops \<Rightarrow> state \<Rightarrow> violation + unit" where
  "check_claim_backing W s =
     and_then (for_each (claim_outcome W s) (epochs s) (0, 0)) (\<lambda>(owed_shares, owed_assets).
     if owed_shares \<noteq> claimable_deposit_shares s then Inl ClaimableSharesNotExplained
     else if owed_assets \<noteq> claim_reserve (buckets s) then Inl ClaimReserveNotExplained
     else Inr ())"

definition check_terms :: "'w uint_ops \<Rightarrow> state \<Rightarrow> epoch_id \<times> epoch_outcome \<Rightarrow> unit \<Rightarrow> violation + unit" where
  "check_terms W s entry u =
     (case outcome_finalized (snd entry) of
        None \<Rightarrow> Inr ()
      | Some t \<Rightarrow>
          if fst entry \<noteq> et_id t then Inl EpochTermsInconsistent
          else and_then (arith (shares_for W t (et_deposit_assets t))) (\<lambda>minted.
          if minted \<noteq> et_minted_shares t then Inl EpochTermsInconsistent
          else and_then (arith (assets_for W t (et_redeem_shares t))) (\<lambda>assets.
          if assets \<noteq> et_redeem_assets t then Inl EpochTermsInconsistent
          else if et_total_assets t < et_redeem_assets t then Inl EpochTermsInconsistent
          else and_then (arith (request_totals_of s (fst entry))) (\<lambda>totals.
          if rt_deposit_assets totals \<noteq> et_deposit_assets t \<or>
             rt_redeem_shares totals \<noteq> et_redeem_shares t
          then Inl EpochAggregateMismatch else Inr ()))))"

definition check_finalized_terms :: "'w uint_ops \<Rightarrow> state \<Rightarrow> violation + unit" where
  "check_finalized_terms W s = for_each (check_terms W s) (epochs s) ()"

definition price_step :: "'v uint_ops \<Rightarrow> epoch_outcome \<Rightarrow> epoch_terms option \<Rightarrow> violation + epoch_terms option" where
  "price_step V outcome earlier =
     (case outcome_finalized outcome of
        None \<Rightarrow> Inr earlier
      | Some t \<Rightarrow>
          (case earlier of
             None \<Rightarrow> Inr (Some t)
           | Some previous \<Rightarrow>
               and_then (arith (price_is_non_decreasing V (terms_basis previous) (terms_basis t)))
                 (\<lambda>ok. if \<not> ok then Inl PriceDecreased else Inr (Some t))))"

definition check_price_never_falls :: "'v uint_ops \<Rightarrow> state \<Rightarrow> violation + unit" where
  "check_price_never_falls V s =
     (if recognized_loss s \<noteq> 0 \<or> inbound_cumulative_loss s \<noteq> 0 \<or> cumulative_impairment s \<noteq> 0
      then Inr ()
      else and_then (for_each (price_step V) (bt_values (epochs s)) None) (\<lambda>_. Inr ()))"

definition check_invariants :: "'w uint_ops \<Rightarrow> 'v uint_ops \<Rightarrow> state \<Rightarrow> violation + unit" where
  "check_invariants W V s =
     and_then (check_asset_conservation s) (\<lambda>_.
     and_then (check_nav_composition s) (\<lambda>_.
     and_then (check_share_conservation s) (\<lambda>_.
     and_then (check_burned_shares s) (\<lambda>_.
     and_then (check_request_lifecycle s) (\<lambda>_.
     and_then (check_escrow_backing s) (\<lambda>_.
     and_then (check_claim_backing W s) (\<lambda>_.
     and_then (check_finalized_terms W s) (\<lambda>_.
     check_price_never_falls V s))))))))"

section \<open>Sums that fit\<close>

text \<open>When the sum of natural numbers fits 128 bits the loop that adds them returns it.\<close>

lemma for_each_sum:
  assumes "\<And>x t. x \<in> set xs \<Longrightarrow> unat (t :: u128) + f x < 2 ^ 128 \<Longrightarrow>
      \<exists>t'. body x t = Inr t' \<and> unat t' = unat t + f x"
    and "unat (t :: u128) + sum_list (map f xs) < 2 ^ 128"
  shows "\<exists>t'. for_each body xs t = Inr t' \<and> unat t' = unat t + sum_list (map f xs)"
  using assms
proof (induction xs arbitrary: t)
  case (Cons x xs)
  have "unat t + f x < 2 ^ 128" using Cons.prems(2) by simp
  then obtain t' where t': "body x t = Inr t'" "unat t' = unat t + f x"
    using Cons.prems(1) [of x t] by auto
  then have "\<exists>u. for_each body xs t' = Inr u \<and> unat u = unat t' + sum_list (map f xs)"
    using Cons.prems by (intro Cons.IH) simp_all
  then show ?case using t' by auto
qed simp

lemma account_totals:
  "acct_sum acc_assets s < 2 ^ 128 \<Longrightarrow>
     \<exists>t. total_account_assets s = Inr t \<and> unat t = acct_sum acc_assets s"
  "acct_sum acc_shares s < 2 ^ 128 \<Longrightarrow>
     \<exists>t. total_account_shares s = Inr t \<and> unat t = acct_sum acc_shares s"
  using for_each_sum [where f = "\<lambda>a. unat (acc_assets a)" and xs = "bt_values (accounts s)" and t = 0
      and body = "\<lambda>a total. asset_checked_add total (acc_assets a)"]
    for_each_sum [where f = "\<lambda>a. unat (acc_shares a)" and xs = "bt_values (accounts s)" and t = 0
      and body = "\<lambda>a total. share_checked_add total (acc_shares a)"]
  by (simp_all add: total_account_assets_def total_account_shares_def acct_sum_def bt_values_def
      comp_def asset_checked_add_ok share_checked_add_ok)

lemma asset_checked_add_eq:
  "unat a + unat b < 2 ^ 128 \<Longrightarrow> asset_checked_add a b = Inr (a + b) \<and> unat (a + b) = unat a + unat b"
  by (simp add: amount_simps unat_word_ariths)

lemma share_checked_add_eq:
  "unat a + unat b < 2 ^ 128 \<Longrightarrow> share_checked_add a b = Inr (a + b) \<and> unat (a + b) = unat a + unat b"
  by (simp add: amount_simps unat_word_ariths)

text \<open>The two totals the checks add up: everything issued, and everything in the buckets.\<close>

definition bucket_sum :: "buckets \<Rightarrow> nat" where
  "bucket_sum b = unat (pending_deposit_escrow b) + unat (idle_backing b) + unat (claim_reserve b) +
     unat (unattributed_balance b) + unat (unattributed_inbound b) + unat (outbound_in_transit b) +
     unat (accepted_remote_value b) + unat (inbound_in_transit b)"

definition issued_fits :: "state \<Rightarrow> bool" where
  "issued_fits s \<longleftrightarrow> unat (initial_asset_supply s) + unat (external_inflow s) < 2 ^ 128"

definition totals_fit :: "state \<Rightarrow> bool" where
  "totals_fit s \<longleftrightarrow> issued_fits s \<and> bucket_sum (buckets s) < 2 ^ 128"

lemma asset_checked_add_if:
  "asset_checked_add a b = (if unat a + unat b < 2 ^ 128 then Inr (a + b) else Inl ArithmeticOverflow)"
  using asset_checked_add_eq [of a b] by (auto simp: asset_checked_add_def checked_add_word_def)

lemma asset_conservation_result:
  assumes inv: "vault_inv s" and held: "inflow_held s"
  shows "check_asset_conservation s =
    (if issued_fits s then Inr () else Inl (ArithmeticFailure ArithmeticOverflow))"
proof -
  have ok: "assets_ok s" by (rule vault_inv_parts(9) [OF inv])
  have own: "acct_sum acc_assets s + unat (pending_deposit_escrow (buckets s)) + unat (idle_backing (buckets s)) +
    unat (claim_reserve (buckets s)) + off_vault s < 2 ^ 128" by (rule own_assets_fit [OF inv held])
  obtain total where total: "total_account_assets s = Inr total" "unat total = acct_sum acc_assets s"
    using account_totals(1) [of s] own by auto
  show ?thesis
  proof (cases "issued_fits s")
    case True
    then show ?thesis
      using ok total unfolding assets_ok_def issued_fits_def off_vault_def check_asset_conservation_def
      by (simp add: asset_checked_add_eq word_eq_unat)
  next
    case False
    let ?physical = "unat (pending_deposit_escrow (buckets s)) + unat (idle_backing (buckets s)) +
      unat (claim_reserve (buckets s)) + unat (unattributed_balance (buckets s))"
    show ?thesis
      using False ok own total unfolding assets_ok_def issued_fits_def off_vault_def check_asset_conservation_def
      by (cases "?physical < 2 ^ 128") (simp_all add: asset_checked_add_if asset_checked_add_eq)
  qed
qed

lemma nav_exact:
  assumes inv: "vault_inv s" and held: "inflow_held s"
  shows "unat (managed_nav s) = unat (idle_backing (buckets s)) + unat (outbound_in_transit (buckets s)) +
      unat (accepted_remote_value (buckets s)) + unat (inbound_in_transit (buckets s))"
proof -
  have "unat (idle_backing (buckets s)) + unat (outbound_in_transit (buckets s)) +
      unat (accepted_remote_value (buckets s)) + unat (inbound_in_transit (buckets s)) < 2 ^ 128"
    using own_assets_fit [OF inv held] vault_inv_parts(13) [OF inv] by (simp add: off_vault_def remote_ok_def)
  then show ?thesis
    by (simp add: managed_nav_def managed_backing_def Let_def unat_saturating_add_word)
qed

lemma nav_composition_result:
  assumes inv: "vault_inv s" and held: "inflow_held s"
  shows "check_nav_composition s =
    (if bucket_sum (buckets s) < 2 ^ 128 then Inr () else Inl (ArithmeticFailure ArithmeticOverflow))"
proof (cases "bucket_sum (buckets s) < 2 ^ 128")
  case True
  then show ?thesis
    using nav_exact [OF inv held]
    unfolding bucket_sum_def check_nav_composition_def excluded_from_nav_def total_bucket_assets_def
      buckets_total_def buckets_physical_def buckets_excluded_from_nav_def
    by (simp add: asset_checked_add_eq word_eq_unat)
next
  case False
  let ?b = "buckets s"
  have fit: "unat (pending_deposit_escrow ?b) + unat (claim_reserve ?b) < 2 ^ 128"
    using own_assets_fit [OF inv held] by simp
  consider "2 ^ 128 \<le> unat (pending_deposit_escrow ?b) + unat (claim_reserve ?b) + unat (unattributed_balance ?b)"
    | "unat (pending_deposit_escrow ?b) + unat (claim_reserve ?b) + unat (unattributed_balance ?b) < 2 ^ 128"
      "2 ^ 128 \<le> unat (pending_deposit_escrow ?b) + unat (claim_reserve ?b) + unat (unattributed_balance ?b) +
         unat (unattributed_inbound ?b)"
    | "unat (pending_deposit_escrow ?b) + unat (claim_reserve ?b) + unat (unattributed_balance ?b) +
         unat (unattributed_inbound ?b) < 2 ^ 128"
    by linarith
  then show ?thesis
    using False fit nav_exact [OF inv held]
    unfolding bucket_sum_def check_nav_composition_def excluded_from_nav_def buckets_excluded_from_nav_def
    by cases (simp_all add: asset_checked_add_if asset_checked_add_eq)
qed

lemma share_conservation_passes:
  assumes inv: "vault_inv s"
  shows "check_share_conservation s = Inr ()"
proof -
  have ok: "shares_ok s" by (rule vault_inv_parts(10) [OF inv])
  have fit: "unat (total_share_supply s) < 2 ^ 128" using unat_below [of "total_share_supply s"] by simp
  obtain held where held: "total_account_shares s = Inr held" "unat held = acct_sum acc_shares s"
    using account_totals(2) [of s] ok fit by (auto simp: shares_ok_def)
  show ?thesis
    using ok fit held unfolding shares_ok_def check_share_conservation_def
    by (simp add: share_checked_add_eq word_eq_unat)
qed

lemma burned_shares_passes:
  assumes inv: "vault_inv s"
  shows "check_burned_shares s = Inr ()"
proof -
  let ?f = "\<lambda>outcome. burned_in (0, outcome)"
  let ?body = "\<lambda>outcome (burned :: u128). case outcome_finalized outcome of None \<Rightarrow> Inr burned
     | Some t \<Rightarrow> arith (share_checked_add burned (et_redeem_shares t))"
  have ok: "sum_list (map ?f (bt_values (epochs s))) = unat (burned_redemption_shares s)"
    using vault_inv_parts(11) [OF inv]
    by (simp add: burned_ok_def bt_values_def comp_def burned_in_def [abs_def])
  have "\<exists>t'. ?body outcome t = Inr t' \<and> unat t' = unat t + ?f outcome"
    if "unat (t :: u128) + ?f outcome < 2 ^ 128" for outcome t
    using that share_checked_add_eq [of t] by (cases outcome) (simp_all add: burned_in_def)
  then have "\<exists>t'. for_each ?body (bt_values (epochs s)) 0 = Inr t' \<and>
      unat t' = unat (0 :: u128) + sum_list (map ?f (bt_values (epochs s)))"
    using ok unat_below [of "burned_redemption_shares s"] by (intro for_each_sum) simp_all
  then show ?thesis
    using ok by (auto simp: check_burned_shares_def word_eq_unat)
qed

lemma for_each_unit:
  "(\<And>x. x \<in> set xs \<Longrightarrow> body x () = Inr ()) \<Longrightarrow> for_each body xs () = Inr ()"
  by (induction xs) simp_all

lemma request_lifecycle_passes:
  assumes "vault_inv s"
  shows "check_request_lifecycle s = Inr ()"
proof -
  have "for_each (\<lambda>r u. if \<not> deposit_flags_agree r then Inl RequestLifecycleInvalid else Inr ())
      (bt_values (deposit_requests s)) () = Inr ()"
    "for_each (\<lambda>r u. if \<not> redeem_flags_agree r then Inl RequestLifecycleInvalid else Inr ())
      (bt_values (redeem_requests s)) () = Inr ()"
    using vault_inv_parts(3) [OF assms]
    by (auto simp: flags_ok_def bt_values_def intro!: for_each_unit)
  then show ?thesis by (simp add: check_request_lifecycle_def)
qed

section \<open>Loops with a total and an unclaimed part\<close>

text \<open>
  \<open>request_totals\<close> and \<open>entitlements\<close> run four loops of one shape: every record adds a
  weight to a total and, unless it is claimed, the same weight to a second counter. The
  contract of one step is the locale; that the whole loop returns the two sums follows once.
\<close>

locale tally =
  fixes body :: "'p \<Rightarrow> 't \<Rightarrow> 'e + 't" and total unclaimed :: "'t \<Rightarrow> u128"
    and rest :: "'t \<Rightarrow> 'r" and upd :: "'p \<Rightarrow> 'r \<Rightarrow> 'r" and weight :: "'p \<Rightarrow> nat"
    and claimed :: "'p \<Rightarrow> bool"
  assumes step: "unat (total t) + weight p < 2 ^ 128 \<Longrightarrow> unat (unclaimed t) \<le> unat (total t) \<Longrightarrow>
    \<exists>t'. body p t = Inr t' \<and> unat (total t') = unat (total t) + weight p \<and>
      unat (unclaimed t') = unat (unclaimed t) + (if claimed p then 0 else weight p) \<and>
      rest t' = upd p (rest t)"
begin

lemma loop:
  assumes "unat (total t) + sum_list (map weight ps) < 2 ^ 128" "unat (unclaimed t) \<le> unat (total t)"
  shows "\<exists>t'. for_each body ps t = Inr t' \<and>
    unat (total t') = unat (total t) + sum_list (map weight ps) \<and>
    unat (unclaimed t') = unat (unclaimed t) +
      sum_list (map (\<lambda>p. if claimed p then 0 else weight p) ps) \<and>
    rest t' = fold upd ps (rest t)"
  using assms
proof (induction ps arbitrary: t)
  case (Cons p ps)
  from Cons.prems step [of t p] obtain u where
    u: "body p t = Inr u" "unat (total u) = unat (total t) + weight p"
      "unat (unclaimed u) = unat (unclaimed t) + (if claimed p then 0 else weight p)"
      "rest u = upd p (rest t)"
    by auto
  with Cons.prems have "unat (total u) + sum_list (map weight ps) < 2 ^ 128"
    "unat (unclaimed u) \<le> unat (total u)" by (simp_all split: if_splits)
  from Cons.IH [OF this] u show ?case by auto
qed simp

end

definition dep_weight :: "request_key \<times> deposit_request \<Rightarrow> nat" where
  "dep_weight p = (if deposit_active (snd p) then unat (dr_assets (snd p)) else 0)"

definition red_weight :: "request_key \<times> redeem_request \<Rightarrow> nat" where
  "red_weight p = (if redeem_active (snd p) then unat (rr_shares (snd p)) else 0)"

definition bump :: "bool \<Rightarrow> u128 \<Rightarrow> u128" where
  "bump active n = (if active then saturating_add_word n 1 else n)"

interpretation dep_tally: tally totals_deposit_step rt_deposit_assets rt_unclaimed_deposit_assets
  "\<lambda>t. (rt_deposit_count t, rt_redeem_shares t, rt_unclaimed_redeem_shares t, rt_redeem_count t)"
  "\<lambda>p (n, r). (bump (deposit_active (snd p)) n, r)" dep_weight "\<lambda>p. dr_claimed (snd p)"
proof
  fix t :: request_totals and p :: "request_key \<times> deposit_request"
  let ?r = "snd p"
  assume fit: "unat (rt_deposit_assets t) + dep_weight p < 2 ^ 128"
    "unat (rt_unclaimed_deposit_assets t) \<le> unat (rt_deposit_assets t)"
  show "\<exists>t'. totals_deposit_step p t = Inr t' \<and>
      unat (rt_deposit_assets t') = unat (rt_deposit_assets t) + dep_weight p \<and>
      unat (rt_unclaimed_deposit_assets t') =
        unat (rt_unclaimed_deposit_assets t) + (if dr_claimed ?r then 0 else dep_weight p) \<and>
      (rt_deposit_count t', rt_redeem_shares t', rt_unclaimed_redeem_shares t', rt_redeem_count t') =
      (\<lambda>(n, r). (bump (deposit_active ?r) n, r))
        (rt_deposit_count t, rt_redeem_shares t, rt_unclaimed_redeem_shares t, rt_redeem_count t)"
    using fit asset_checked_add_eq [of "rt_deposit_assets t" "dr_assets ?r"]
      asset_checked_add_eq [of "rt_unclaimed_deposit_assets t" "dr_assets ?r"]
    by (cases "deposit_active ?r"; cases "dr_claimed ?r")
      (auto simp: totals_deposit_step_def dep_weight_def bump_def Let_def)
qed

interpretation red_tally: tally totals_redeem_step rt_redeem_shares rt_unclaimed_redeem_shares
  "\<lambda>t. (rt_redeem_count t, rt_deposit_assets t, rt_unclaimed_deposit_assets t, rt_deposit_count t)"
  "\<lambda>p (n, r). (bump (redeem_active (snd p)) n, r)" red_weight "\<lambda>p. rr_claimed (snd p)"
proof
  fix t :: request_totals and p :: "request_key \<times> redeem_request"
  let ?r = "snd p"
  assume fit: "unat (rt_redeem_shares t) + red_weight p < 2 ^ 128"
    "unat (rt_unclaimed_redeem_shares t) \<le> unat (rt_redeem_shares t)"
  show "\<exists>t'. totals_redeem_step p t = Inr t' \<and>
      unat (rt_redeem_shares t') = unat (rt_redeem_shares t) + red_weight p \<and>
      unat (rt_unclaimed_redeem_shares t') =
        unat (rt_unclaimed_redeem_shares t) + (if rr_claimed ?r then 0 else red_weight p) \<and>
      (rt_redeem_count t', rt_deposit_assets t', rt_unclaimed_deposit_assets t', rt_deposit_count t') =
      (\<lambda>(n, r). (bump (redeem_active ?r) n, r))
        (rt_redeem_count t, rt_deposit_assets t, rt_unclaimed_deposit_assets t, rt_deposit_count t)"
    using fit share_checked_add_eq [of "rt_redeem_shares t" "rr_shares ?r"]
      share_checked_add_eq [of "rt_unclaimed_redeem_shares t" "rr_shares ?r"]
    by (cases "redeem_active ?r"; cases "rr_claimed ?r")
      (auto simp: totals_redeem_step_def red_weight_def bump_def Let_def)
qed

lemma owed_deposit_tally:
  assumes W: "wide_uint 256 val W" and b: "sides_fit (terms_basis t)" "asset_n (terms_basis t) \<noteq> 0"
  shows "tally (owed_deposit_step W t) ent_deposit_shares ent_unclaimed_deposit_shares
    (\<lambda>x. (ent_redeem_assets x, ent_unclaimed_redeem_assets x)) (\<lambda>p r. r)
    (\<lambda>p. dep_owed (terms_basis t) (snd p)) (\<lambda>p. dr_claimed (snd p))"
proof
  fix x :: entitlements and p :: "request_key \<times> deposit_request"
  let ?r = "snd p" and ?n = "shares_floor (terms_basis t) (unat (dr_assets (snd p)))"
  assume fit: "unat (ent_deposit_shares x) + dep_owed (terms_basis t) ?r < 2 ^ 128"
    "unat (ent_unclaimed_deposit_shares x) \<le> unat (ent_deposit_shares x)"
  have price: "shares_for W t (dr_assets ?r) = Inr (of_nat ?n)" if "?n < 2 ^ 128"
    using b that by (simp add: shares_for_Inr [OF W] unat_of_nat_below)
  show "\<exists>x'. owed_deposit_step W t p x = Inr x' \<and>
      unat (ent_deposit_shares x') = unat (ent_deposit_shares x) + dep_owed (terms_basis t) ?r \<and>
      unat (ent_unclaimed_deposit_shares x') = unat (ent_unclaimed_deposit_shares x) +
        (if dr_claimed ?r then 0 else dep_owed (terms_basis t) ?r) \<and>
      (ent_redeem_assets x', ent_unclaimed_redeem_assets x') =
      (ent_redeem_assets x, ent_unclaimed_redeem_assets x)"
    using fit price share_checked_add_eq [of "ent_deposit_shares x" "of_nat ?n"]
      share_checked_add_eq [of "ent_unclaimed_deposit_shares x" "of_nat ?n"]
    by (cases "deposit_active ?r"; cases "dr_claimed ?r")
      (auto simp: owed_deposit_step_def dep_owed_def Let_def unat_of_nat_below)
qed

lemma owed_redeem_tally:
  assumes W: "wide_uint 256 val W" and b: "sides_fit (terms_basis t)" "share_n (terms_basis t) \<noteq> 0"
  shows "tally (owed_redeem_step W t) ent_redeem_assets ent_unclaimed_redeem_assets
    (\<lambda>x. (ent_deposit_shares x, ent_unclaimed_deposit_shares x)) (\<lambda>p r. r)
    (\<lambda>p. red_owed (terms_basis t) (snd p)) (\<lambda>p. rr_claimed (snd p))"
proof
  fix x :: entitlements and p :: "request_key \<times> redeem_request"
  let ?r = "snd p" and ?n = "assets_floor (terms_basis t) (unat (rr_shares (snd p)))"
  assume fit: "unat (ent_redeem_assets x) + red_owed (terms_basis t) ?r < 2 ^ 128"
    "unat (ent_unclaimed_redeem_assets x) \<le> unat (ent_redeem_assets x)"
  have price: "assets_for W t (rr_shares ?r) = Inr (of_nat ?n)" if "?n < 2 ^ 128"
    using b that by (simp add: assets_for_Inr [OF W] unat_of_nat_below)
  show "\<exists>x'. owed_redeem_step W t p x = Inr x' \<and>
      unat (ent_redeem_assets x') = unat (ent_redeem_assets x) + red_owed (terms_basis t) ?r \<and>
      unat (ent_unclaimed_redeem_assets x') = unat (ent_unclaimed_redeem_assets x) +
        (if rr_claimed ?r then 0 else red_owed (terms_basis t) ?r) \<and>
      (ent_deposit_shares x', ent_unclaimed_deposit_shares x') =
      (ent_deposit_shares x, ent_unclaimed_deposit_shares x)"
    using fit price asset_checked_add_eq [of "ent_redeem_assets x" "of_nat ?n"]
      asset_checked_add_eq [of "ent_unclaimed_redeem_assets x" "of_nat ?n"]
    by (cases "redeem_active ?r"; cases "rr_claimed ?r")
      (auto simp: owed_redeem_step_def red_owed_def Let_def unat_of_nat_below)
qed

section \<open>Request totals and entitlements\<close>

lemma fold_count:
  "fold (\<lambda>p (n, r). (bump (P p) n, r)) ps (n, r) = (fold (\<lambda>p. bump (P p)) ps n, r)"
  by (induction ps arbitrary: n) simp_all

lemma unat_fold_bump:
  "unat (fold (\<lambda>p. bump (P p)) ps n) = min (unat n + length (filter P ps)) (2 ^ 128 - 1)"
proof (induction ps arbitrary: n)
  case Nil
  then show ?case using unat_below [of n] by simp
next
  case (Cons p ps)
  then show ?case
    using unat_saturating_add_word [of n 1] by (simp add: bump_def min_def)
qed

text \<open>An epoch holds at most one request per account, and accounts are 64-bit.\<close>

lemma epoch_requests_bound:
  assumes "bt_wf (m :: (request_key, 'r) btree_map)"
  shows "length (bt_range (fst (epoch_range e)) (snd (epoch_range e)) m) \<le> 2 ^ 64"
proof -
  let ?xs = "bt_range (fst (epoch_range e)) (snd (epoch_range e)) m"
  have keys: "rk_epoch (fst p) = e" if "p \<in> set ?xs" for p
    using that in_epoch_range [of e "fst p"] by (simp add: bt_range_def)
  have "distinct (map fst ?xs)"
    using bt.entries_distinct [OF assms] by (simp add: bt_range_def distinct_map_filter)
  moreover have "inj_on rk_account (set (map fst ?xs))"
    using keys by (auto intro!: inj_onI simp: request_key.expand)
  ultimately have "distinct (map rk_account (map fst ?xs))" by (simp only: distinct_map)
  then have "length (map rk_account (map fst ?xs)) = card (set (map rk_account (map fst ?xs)))"
    by (simp only: distinct_card)
  also have "\<dots> \<le> card (UNIV :: 64 word set)" by (intro card_mono) simp_all
  finally show ?thesis by (simp add: card_word)
qed

definition dep_count :: "state \<Rightarrow> epoch_id \<Rightarrow> nat" where
  "dep_count s e = length (filter (\<lambda>p. deposit_active (snd p)) (deposits_in s e))"

definition red_count :: "state \<Rightarrow> epoch_id \<Rightarrow> nat" where
  "red_count s e = length (filter (\<lambda>p. redeem_active (snd p)) (redeems_in s e))"

lemma count_bounds:
  assumes "vault_inv s"
  shows "dep_count s e < 2 ^ 128 - 1" "red_count s e < 2 ^ 128 - 1"
proof -
  have "dep_count s e \<le> 2 ^ 64"
    unfolding dep_count_def deposits_in_def
    by (rule order_trans [OF length_filter_le epoch_requests_bound [OF inv_wf(1) [OF assms]]])
  then show "dep_count s e < 2 ^ 128 - 1" by simp
  have "red_count s e \<le> 2 ^ 64"
    unfolding red_count_def redeems_in_def
    by (rule order_trans [OF length_filter_le epoch_requests_bound [OF inv_wf(2) [OF assms]]])
  then show "red_count s e < 2 ^ 128 - 1" by simp
qed

lemma weight_sums:
  assumes "flags_ok s"
  shows "sum_list (map dep_weight (deposits_in s e)) = bk_total (deposit_book s) e"
    "sum_list (map (\<lambda>p. if dr_claimed (snd p) then 0 else dep_weight p) (deposits_in s e)) =
       bk_unclaimed (deposit_book s) e (\<lambda>a. a)"
    "sum_list (map red_weight (redeems_in s e)) = bk_total (redeem_book s) e"
    "sum_list (map (\<lambda>p. if rr_claimed (snd p) then 0 else red_weight p) (redeems_in s e)) =
       bk_unclaimed (redeem_book s) e (\<lambda>a. a)"
proof -
  have d: "dep_weight p = unat (dr_assets (snd p))" if "p \<in> set (deposit_requests s)" for p
    using assms that by (auto simp: flags_ok_def dep_weight_def deposit_active_def deposit_flags_agree_def)
  have r: "red_weight p = unat (rr_shares (snd p))" if "p \<in> set (redeem_requests s)" for p
    using assms that by (auto simp: flags_ok_def red_weight_def redeem_active_def redeem_flags_agree_def)
  have sub: "set (deposits_in s e) \<subseteq> set (deposit_requests s)" "set (redeems_in s e) \<subseteq> set (redeem_requests s)"
    by (auto simp: deposits_in_def redeems_in_def bt_range_def)
  show "sum_list (map dep_weight (deposits_in s e)) = bk_total (deposit_book s) e"
    using book_sum_range [of "\<lambda>r. unat (dr_assets r)" e "deposit_requests s"] d sub
    by (simp add: bk_total_def deposit_book_def book_sum_map dep_view_def deposits_in_def [symmetric]
        cong: map_cong) (metis (no_types, lifting) map_cong subsetD)
  show "sum_list (map (\<lambda>p. if dr_claimed (snd p) then 0 else dep_weight p) (deposits_in s e)) =
       bk_unclaimed (deposit_book s) e (\<lambda>a. a)"
    using book_sum_range [of "\<lambda>r. if dr_claimed r then 0 else unat (dr_assets r)" e "deposit_requests s"] d sub
    by (simp add: bk_unclaimed_def deposit_book_def book_sum_map dep_view_def deposits_in_def [symmetric]
        cong: map_cong) (metis (no_types, lifting) map_cong subsetD)
  show "sum_list (map red_weight (redeems_in s e)) = bk_total (redeem_book s) e"
    using book_sum_range [of "\<lambda>r. unat (rr_shares r)" e "redeem_requests s"] r sub
    by (simp add: bk_total_def redeem_book_def book_sum_map red_view_def redeems_in_def [symmetric]
        cong: map_cong) (metis (no_types, lifting) map_cong subsetD)
  show "sum_list (map (\<lambda>p. if rr_claimed (snd p) then 0 else red_weight p) (redeems_in s e)) =
       bk_unclaimed (redeem_book s) e (\<lambda>a. a)"
    using book_sum_range [of "\<lambda>r. if rr_claimed r then 0 else unat (rr_shares r)" e "redeem_requests s"] r sub
    by (simp add: bk_unclaimed_def redeem_book_def book_sum_map red_view_def redeems_in_def [symmetric]
        cong: map_cong) (metis (no_types, lifting) map_cong subsetD)
qed

lemma request_totals_exact:
  assumes inv: "vault_inv s"
    and fit: "bk_total (deposit_book s) e < 2 ^ 128" "bk_total (redeem_book s) e < 2 ^ 128"
  shows "\<exists>t. request_totals_of s e = Inr t \<and>
    unat (rt_deposit_assets t) = bk_total (deposit_book s) e \<and>
    unat (rt_redeem_shares t) = bk_total (redeem_book s) e \<and>
    unat (rt_unclaimed_deposit_assets t) = bk_unclaimed (deposit_book s) e (\<lambda>a. a) \<and>
    unat (rt_unclaimed_redeem_shares t) = bk_unclaimed (redeem_book s) e (\<lambda>a. a) \<and>
    unat (rt_deposit_count t) = dep_count s e \<and> unat (rt_redeem_count t) = red_count s e"
proof -
  note sums = weight_sums [OF vault_inv_parts(3) [OF inv], where e = e]
  note counts = count_bounds [OF inv, of e, unfolded dep_count_def red_count_def]
  from dep_tally.loop [of default_totals "deposits_in s e"] fit sums obtain t where
    t: "for_each totals_deposit_step (deposits_in s e) default_totals = Inr t"
      "unat (rt_deposit_assets t) = bk_total (deposit_book s) e"
      "unat (rt_unclaimed_deposit_assets t) = bk_unclaimed (deposit_book s) e (\<lambda>a. a)"
      "unat (rt_deposit_count t) = dep_count s e"
      "rt_redeem_shares t = 0" "rt_unclaimed_redeem_shares t = 0" "rt_redeem_count t = 0"
    using counts
    by (auto simp: default_totals_def fold_count unat_fold_bump dep_count_def)
  from red_tally.loop [of t "redeems_in s e"] fit sums t obtain t' where
    "for_each totals_redeem_step (redeems_in s e) t = Inr t'"
      "unat (rt_redeem_shares t') = bk_total (redeem_book s) e"
      "unat (rt_unclaimed_redeem_shares t') = bk_unclaimed (redeem_book s) e (\<lambda>a. a)"
      "unat (rt_redeem_count t') = red_count s e" "rt_deposit_assets t' = rt_deposit_assets t"
      "rt_unclaimed_deposit_assets t' = rt_unclaimed_deposit_assets t"
      "rt_deposit_count t' = rt_deposit_count t"
    using counts by (auto simp: fold_count unat_fold_bump red_count_def)
  then show ?thesis using t by (auto simp: request_totals_of_def)
qed

lemma settled_facts:
  assumes inv: "vault_inv s" and e: "(e, Finalized t) \<in> set (epochs s)"
  shows "bk_total (deposit_book s) e = unat (et_deposit_assets t)"
    "unat (et_minted_shares t) = shares_floor (terms_basis t) (unat (et_deposit_assets t))"
    "bk_priced (deposit_book s) e (shares_floor (terms_basis t)) + unat (et_deposit_dust t) =
       unat (et_minted_shares t)"
    "bk_total (redeem_book s) e = unat (et_redeem_shares t)"
    "unat (et_redeem_assets t) = assets_floor (terms_basis t) (unat (et_redeem_shares t))"
    "bk_priced (redeem_book s) e (assets_floor (terms_basis t)) + unat (et_redeem_dust t) =
       unat (et_redeem_assets t)"
    "terms_ok (e, Finalized t)"
proof -
  have "(e, dep_outcome (Finalized t)) \<in> set (bk_outcomes (deposit_book s))"
    "(e, red_outcome (Finalized t)) \<in> set (bk_outcomes (redeem_book s))"
    using e by (force simp: book_defs)+
  then have "outcome_ok (deposit_book s) (e, dep_outcome (Finalized t))"
    "outcome_ok (redeem_book s) (e, red_outcome (Finalized t))"
    using vault_inv_parts(4,5) [OF inv] by (auto simp: book_ok_def)
  then show "bk_total (deposit_book s) e = unat (et_deposit_assets t)"
    "unat (et_minted_shares t) = shares_floor (terms_basis t) (unat (et_deposit_assets t))"
    "bk_priced (deposit_book s) e (shares_floor (terms_basis t)) + unat (et_deposit_dust t) =
       unat (et_minted_shares t)"
    "bk_total (redeem_book s) e = unat (et_redeem_shares t)"
    "unat (et_redeem_assets t) = assets_floor (terms_basis t) (unat (et_redeem_shares t))"
    "bk_priced (redeem_book s) e (assets_floor (terms_basis t)) + unat (et_redeem_dust t) =
       unat (et_redeem_assets t)"
    by (simp_all add: outcome_ok_def)
  show "terms_ok (e, Finalized t)" using vault_inv_parts(8) [OF inv] e by (auto simp: outcomes_ok_def)
qed

lemma aborted_facts:
  assumes inv: "vault_inv s" and e: "(e, Aborted t) \<in> set (epochs s)"
  shows "bk_total (deposit_book s) e = unat (refund_assets t)"
    "bk_total (redeem_book s) e = unat (refund_shares t)"
proof -
  have "(e, dep_outcome (Aborted t)) \<in> set (bk_outcomes (deposit_book s))"
    "(e, red_outcome (Aborted t)) \<in> set (bk_outcomes (redeem_book s))"
    using e by (force simp: book_defs)+
  then have "outcome_ok (deposit_book s) (e, dep_outcome (Aborted t))"
    "outcome_ok (redeem_book s) (e, red_outcome (Aborted t))"
    using vault_inv_parts(4,5) [OF inv] by (auto simp: book_ok_def)
  then show "bk_total (deposit_book s) e = unat (refund_assets t)"
    "bk_total (redeem_book s) e = unat (refund_shares t)"
    by (simp_all add: outcome_ok_def)
qed

lemma owed_sums:
  "sum_list (map (\<lambda>p. dep_owed b (snd p)) (deposits_in s e)) = book_sum (deposit_requests s) e (dep_owed b)"
  "sum_list (map (\<lambda>p. if dr_claimed (snd p) then 0 else dep_owed b (snd p)) (deposits_in s e)) =
     book_sum (deposit_requests s) e (dep_open (dep_owed b))"
  "sum_list (map (\<lambda>p. red_owed b (snd p)) (redeems_in s e)) = book_sum (redeem_requests s) e (red_owed b)"
  "sum_list (map (\<lambda>p. if rr_claimed (snd p) then 0 else red_owed b (snd p)) (redeems_in s e)) =
     book_sum (redeem_requests s) e (red_open (red_owed b))"
  unfolding deposits_in_def redeems_in_def book_sum_range [symmetric]
  by (simp_all add: dep_open_def red_open_def)

lemma fold_same [simp]: "fold (\<lambda>p r. r) ps x = x"
  by (induction ps) simp_all

lemma entitlements_exact:
  assumes W: "wide_uint 256 val W" and inv: "vault_inv s" and e: "(e, Finalized t) \<in> set (epochs s)"
  shows "\<exists>owed. entitlements_of W s e t = Inr owed \<and>
    unat (ent_deposit_shares owed) = bk_priced (deposit_book s) e (shares_floor (terms_basis t)) \<and>
    unat (ent_unclaimed_deposit_shares owed) = bk_unclaimed (deposit_book s) e (shares_floor (terms_basis t)) \<and>
    unat (ent_redeem_assets owed) = bk_priced (redeem_book s) e (assets_floor (terms_basis t)) \<and>
    unat (ent_unclaimed_redeem_assets owed) = bk_unclaimed (redeem_book s) e (assets_floor (terms_basis t))"
proof -
  note facts = settled_facts [OF inv e]
  note priced = priced_book [OF vault_inv_parts(3) [OF inv], where e = e and b = "terms_basis t"]
  have b: "sides_fit (terms_basis t)" "asset_n (terms_basis t) \<noteq> 0" "share_n (terms_basis t) \<noteq> 0"
    using facts(7) by (simp_all add: terms_ok_def)
  have fit: "book_sum (deposit_requests s) e (dep_owed (terms_basis t)) < 2 ^ 128"
    "book_sum (redeem_requests s) e (red_owed (terms_basis t)) < 2 ^ 128"
    using facts(3,6) unat_below [of "et_minted_shares t"] unat_below [of "et_redeem_assets t"]
    unfolding priced by simp_all
  from tally.loop [OF owed_deposit_tally [OF W b(1,2)], of default_entitlements "deposits_in s e"] fit(1)
  obtain x where x: "for_each (owed_deposit_step W t) (deposits_in s e) default_entitlements = Inr x"
      "unat (ent_deposit_shares x) = book_sum (deposit_requests s) e (dep_owed (terms_basis t))"
      "unat (ent_unclaimed_deposit_shares x) =
        book_sum (deposit_requests s) e (dep_open (dep_owed (terms_basis t)))"
      "ent_redeem_assets x = 0" "ent_unclaimed_redeem_assets x = 0"
    by (auto simp: default_entitlements_def owed_sums)
  from tally.loop [OF owed_redeem_tally [OF W b(1,3)], of x "redeems_in s e"] fit(2) x
  obtain y where "for_each (owed_redeem_step W t) (redeems_in s e) x = Inr y"
      "unat (ent_redeem_assets y) = book_sum (redeem_requests s) e (red_owed (terms_basis t))"
      "unat (ent_unclaimed_redeem_assets y) =
        book_sum (redeem_requests s) e (red_open (red_owed (terms_basis t)))"
      "ent_deposit_shares y = ent_deposit_shares x"
      "ent_unclaimed_deposit_shares y = ent_unclaimed_deposit_shares x"
    by (auto simp: owed_sums)
  then show ?thesis using x(1-3) by (auto simp: entitlements_of_def priced)
qed

section \<open>Dust\<close>

lemma check_dust_Inr:
  "check_dust a p r c = Inr () \<longleftrightarrow> unat a = unat p + unat r \<and> unat r \<le> unat c - 1"
proof (cases "a < p")
  case True
  then show ?thesis by (simp add: check_dust_def word_less_nat_alt)
next
  case False
  then show ?thesis
    by (auto simp: check_dust_def op_simps word_less_nat_alt word_eq_unat not_less)
qed

text \<open>The dust of a settled epoch is below the number of its active requests.\<close>

lemma filter_sums:
  "sum_list (map f ps) = sum_list (map f (filter P ps))"
  if "\<And>p. p \<in> set ps \<Longrightarrow> \<not> P p \<Longrightarrow> f p = (0 :: nat)"
  using that by (induction ps) auto

lemma dust_bound:
  assumes inv: "vault_inv s" and e: "(e, Finalized t) \<in> set (epochs s)"
  shows "unat (et_deposit_dust t) \<le> dep_count s e - 1" "unat (et_redeem_dust t) \<le> red_count s e - 1"
proof -
  note facts = settled_facts [OF inv e]
  note priced = priced_book [OF vault_inv_parts(3) [OF inv], where e = e and b = "terms_basis t"]
  note sums = weight_sums [OF vault_inv_parts(3) [OF inv], where e = e]
  let ?b = "terms_basis t"
  let ?d = "filter (\<lambda>p. deposit_active (snd p)) (deposits_in s e)"
  let ?r = "filter (\<lambda>p. redeem_active (snd p)) (redeems_in s e)"
  have d: "bk_total (deposit_book s) e = sum_list (map (\<lambda>p. unat (dr_assets (snd p))) ?d)"
      "bk_priced (deposit_book s) e (shares_floor ?b) =
        sum_list (map (\<lambda>p. unat (dr_assets (snd p)) * share_n ?b div asset_n ?b) ?d)"
    unfolding sums(1) [symmetric] priced owed_sums [symmetric]
    by (subst filter_sums [where P = "\<lambda>p. deposit_active (snd p)"];
        auto simp: dep_weight_def dep_owed_def shares_floor_def intro!: arg_cong [where f = sum_list])+
  have r: "bk_total (redeem_book s) e = sum_list (map (\<lambda>p. unat (rr_shares (snd p))) ?r)"
      "bk_priced (redeem_book s) e (assets_floor ?b) =
        sum_list (map (\<lambda>p. unat (rr_shares (snd p)) * asset_n ?b div share_n ?b) ?r)"
    unfolding sums(3) [symmetric] priced owed_sums [symmetric]
    by (subst filter_sums [where P = "\<lambda>p. redeem_active (snd p)"];
        auto simp: red_weight_def red_owed_def assets_floor_def intro!: arg_cong [where f = sum_list])+
  show "unat (et_deposit_dust t) \<le> dep_count s e - 1"
    using facts(1-3) floor_parts(2) [where f = "\<lambda>p. unat (dr_assets (snd p))" and xs = ?d
        and m = "share_n ?b" and d = "asset_n ?b"]
    by (simp add: d shares_floor_def dep_count_def)
  show "unat (et_redeem_dust t) \<le> red_count s e - 1"
    using facts(4-6) floor_parts(2) [where f = "\<lambda>p. unat (rr_shares (snd p))" and xs = ?r
        and m = "asset_n ?b" and d = "share_n ?b"]
    by (simp add: r assets_floor_def red_count_def)
qed

section \<open>The checks on a state of the invariant\<close>

lemma escrow_current_passes:
  assumes inv: "vault_inv s"
  shows "\<exists>a h. escrow_current s = Inr (a, h) \<and> unat a = current_amount (deposit_book s) \<and>
    unat h = current_amount (redeem_book s)"
proof (cases "epoch s")
  case None
  then show ?thesis by (simp add: escrow_current_def current_amount_def book_defs)
next
  case (Some e)
  then have cur: "bk_current (deposit_book s) = Some (ep_id e, unat (pending_deposit_assets e))"
    "bk_current (redeem_book s) = Some (ep_id e, unat (pending_redeem_shares e))"
    by (simp_all add: book_defs)
  note d = book_ok_current [OF vault_inv_parts(4) [OF inv] cur(1)]
  note r = book_ok_current [OF vault_inv_parts(5) [OF inv] cur(2)]
  have "\<not> bt_contains (epochs s) (ep_id e)" using d(1) by (simp add: deposit_book_def)
  moreover obtain t where "request_totals_of s (ep_id e) = Inr t"
    "rt_deposit_assets t = pending_deposit_assets e" "rt_redeem_shares t = pending_redeem_shares e"
    using request_totals_exact [OF inv, of "ep_id e"] d(2) r(2)
      unat_below [of "pending_deposit_assets e"] unat_below [of "pending_redeem_shares e"]
    by (auto simp: word_eq_unat)
  ultimately show ?thesis
    using Some by (simp add: escrow_current_def current_amount_def cur)
qed

lemma escrow_loop:
  assumes inv: "vault_inv s" and "set ps \<subseteq> set (epochs s)"
    and "unat a + sum_list (map (\<lambda>p. owed_escrow (deposit_book s) (fst p, dep_outcome (snd p))) ps) < 2 ^ 128"
    and "unat h + sum_list (map (\<lambda>p. owed_escrow (redeem_book s) (fst p, red_outcome (snd p))) ps) < 2 ^ 128"
  shows "\<exists>a' h'. for_each (escrow_outcome s) ps (a, h) = Inr (a', h') \<and>
    unat a' = unat a + sum_list (map (\<lambda>p. owed_escrow (deposit_book s) (fst p, dep_outcome (snd p))) ps) \<and>
    unat h' = unat h + sum_list (map (\<lambda>p. owed_escrow (redeem_book s) (fst p, red_outcome (snd p))) ps)"
  using assms(2-4)
proof (induction ps arbitrary: a h)
  case (Cons p ps)
  obtain e o' where p: "p = (e, o')" by (cases p)
  have "\<exists>a' h'. escrow_outcome s p (a, h) = Inr (a', h') \<and>
      unat a' = unat a + owed_escrow (deposit_book s) (e, dep_outcome o') \<and>
      unat h' = unat h + owed_escrow (redeem_book s) (e, red_outcome o')"
  proof (cases o')
    case (Aborted t)
    then have e: "(e, Aborted t) \<in> set (epochs s)" using Cons.prems(1) p by simp
    note facts = aborted_facts [OF inv e]
    obtain x where x: "request_totals_of s e = Inr x"
      "rt_deposit_assets x = refund_assets t" "rt_redeem_shares x = refund_shares t"
      "unat (rt_unclaimed_deposit_assets x) = bk_unclaimed (deposit_book s) e (\<lambda>a. a)"
      "unat (rt_unclaimed_redeem_shares x) = bk_unclaimed (redeem_book s) e (\<lambda>a. a)"
      using request_totals_exact [OF inv, of e] facts
        unat_below [of "refund_assets t"] unat_below [of "refund_shares t"]
      by (auto simp: word_eq_unat)
    show ?thesis
      using Cons.prems(2,3) x asset_checked_add_eq [of a] share_checked_add_eq [of h]
      by (simp add: escrow_outcome_def p Aborted owed_escrow_def)
  qed (simp add: escrow_outcome_def p owed_escrow_def)
  then obtain a' h' where step: "escrow_outcome s p (a, h) = Inr (a', h')"
      "unat a' = unat a + owed_escrow (deposit_book s) (e, dep_outcome o')"
      "unat h' = unat h + owed_escrow (redeem_book s) (e, red_outcome o')" by blast
  with Cons.IH [of a' h'] Cons.prems show ?case by (auto simp: p)
qed simp

lemma escrow_backing_passes:
  assumes inv: "vault_inv s"
  shows "check_escrow_backing s = Inr ()"
proof -
  obtain a h where ah: "escrow_current s = Inr (a, h)" "unat a = current_amount (deposit_book s)"
    "unat h = current_amount (redeem_book s)"
    using escrow_current_passes [OF inv] by blast
  have d: "unat (pending_deposit_escrow (buckets s)) = unat a +
      sum_list (map (\<lambda>p. owed_escrow (deposit_book s) (fst p, dep_outcome (snd p))) (epochs s))"
    using vault_inv_parts(4) [OF inv] ah(2)
    by (simp add: book_ok_def deposit_book_def comp_def map_prod_def case_prod_beta)
  have r: "unat (escrowed_redeem_shares s) = unat h +
      sum_list (map (\<lambda>p. owed_escrow (redeem_book s) (fst p, red_outcome (snd p))) (epochs s))"
    using vault_inv_parts(5) [OF inv] ah(3)
    by (simp add: book_ok_def redeem_book_def comp_def map_prod_def case_prod_beta)
  from escrow_loop [OF inv order_refl, of a h] d r
    unat_below [of "pending_deposit_escrow (buckets s)"] unat_below [of "escrowed_redeem_shares s"]
  show ?thesis by (auto simp: check_escrow_backing_def ah(1) word_eq_unat)
qed

lemma claim_loop:
  assumes W: "wide_uint 256 val W" and inv: "vault_inv s" and "set ps \<subseteq> set (epochs s)"
    and "unat h + sum_list (map (\<lambda>p. owed_pot (deposit_book s) (fst p, dep_outcome (snd p))) ps) < 2 ^ 128"
    and "unat a + sum_list (map (\<lambda>p. owed_pot (redeem_book s) (fst p, red_outcome (snd p))) ps) < 2 ^ 128"
  shows "\<exists>h' a'. for_each (claim_outcome W s) ps (h, a) = Inr (h', a') \<and>
    unat h' = unat h + sum_list (map (\<lambda>p. owed_pot (deposit_book s) (fst p, dep_outcome (snd p))) ps) \<and>
    unat a' = unat a + sum_list (map (\<lambda>p. owed_pot (redeem_book s) (fst p, red_outcome (snd p))) ps)"
  using assms(3-5)
proof (induction ps arbitrary: h a)
  case (Cons p ps)
  obtain e o' where p: "p = (e, o')" by (cases p)
  have "\<exists>h' a'. claim_outcome W s p (h, a) = Inr (h', a') \<and>
      unat h' = unat h + owed_pot (deposit_book s) (e, dep_outcome o') \<and>
      unat a' = unat a + owed_pot (redeem_book s) (e, red_outcome o')"
  proof (cases o')
    case (Finalized t)
    then have e: "(e, Finalized t) \<in> set (epochs s)" using Cons.prems(1) p by simp
    note facts = settled_facts [OF inv e]
    obtain owed where owed: "entitlements_of W s e t = Inr owed"
      "unat (ent_deposit_shares owed) = bk_priced (deposit_book s) e (shares_floor (terms_basis t))"
      "unat (ent_unclaimed_deposit_shares owed) = bk_unclaimed (deposit_book s) e (shares_floor (terms_basis t))"
      "unat (ent_redeem_assets owed) = bk_priced (redeem_book s) e (assets_floor (terms_basis t))"
      "unat (ent_unclaimed_redeem_assets owed) = bk_unclaimed (redeem_book s) e (assets_floor (terms_basis t))"
      using entitlements_exact [OF W inv e] by blast
    obtain x where x: "request_totals_of s e = Inr x"
      "unat (rt_deposit_count x) = dep_count s e" "unat (rt_redeem_count x) = red_count s e"
      using request_totals_exact [OF inv, of e] facts(1,4)
        unat_below [of "et_deposit_assets t"] unat_below [of "et_redeem_shares t"] by auto
    have dust: "check_dust (et_minted_shares t) (ent_deposit_shares owed) (et_deposit_dust t)
          (rt_deposit_count x) = Inr ()"
        "check_dust (et_redeem_assets t) (ent_redeem_assets owed) (et_redeem_dust t)
          (rt_redeem_count x) = Inr ()"
      unfolding check_dust_Inr using facts(3,6) owed x dust_bound [OF inv e] by simp_all
    have fit: "unat h + unat (ent_unclaimed_deposit_shares owed) + unat (et_deposit_dust t) < 2 ^ 128"
        "unat a + unat (ent_unclaimed_redeem_assets owed) + unat (et_redeem_dust t) < 2 ^ 128"
      using Cons.prems(2,3) owed(3,5) by (simp_all add: p Finalized owed_pot_def)
    then show ?thesis
      using owed x dust share_checked_add_eq [of h "ent_unclaimed_deposit_shares owed"]
        asset_checked_add_eq [of a "ent_unclaimed_redeem_assets owed"]
        share_checked_add_eq [of "h + ent_unclaimed_deposit_shares owed" "et_deposit_dust t"]
        asset_checked_add_eq [of "a + ent_unclaimed_redeem_assets owed" "et_redeem_dust t"]
      by (simp add: claim_outcome_def p Finalized owed_pot_def)
  qed (simp add: claim_outcome_def p owed_pot_def)
  then obtain h' a' where step: "claim_outcome W s p (h, a) = Inr (h', a')"
      "unat h' = unat h + owed_pot (deposit_book s) (e, dep_outcome o')"
      "unat a' = unat a + owed_pot (redeem_book s) (e, red_outcome o')" by blast
  with Cons.IH [of h' a'] Cons.prems show ?case by (auto simp: p)
qed simp

lemma claim_backing_passes:
  assumes W: "wide_uint 256 val W" and inv: "vault_inv s"
  shows "check_claim_backing W s = Inr ()"
proof -
  have d: "unat (claimable_deposit_shares s) =
      sum_list (map (\<lambda>p. owed_pot (deposit_book s) (fst p, dep_outcome (snd p))) (epochs s))"
    using vault_inv_parts(4) [OF inv]
    by (simp add: book_ok_def deposit_book_def comp_def map_prod_def case_prod_beta)
  have r: "unat (claim_reserve (buckets s)) =
      sum_list (map (\<lambda>p. owed_pot (redeem_book s) (fst p, red_outcome (snd p))) (epochs s))"
    using vault_inv_parts(5) [OF inv]
    by (simp add: book_ok_def redeem_book_def comp_def map_prod_def case_prod_beta)
  from claim_loop [OF W inv order_refl, of 0 0] d r
    unat_below [of "claimable_deposit_shares s"] unat_below [of "claim_reserve (buckets s)"]
  show ?thesis by (auto simp: check_claim_backing_def word_eq_unat)
qed

lemma finalized_terms_passes:
  assumes W: "wide_uint 256 val W" and inv: "vault_inv s"
  shows "check_finalized_terms W s = Inr ()"
  unfolding check_finalized_terms_def
proof (rule for_each_unit)
  fix p assume p: "p \<in> set (epochs s)"
  show "check_terms W s p () = Inr ()"
  proof (cases "snd p")
    case (Finalized t)
    then have e: "(fst p, Finalized t) \<in> set (epochs s)" using p by (metis prod.collapse)
    note facts = settled_facts [OF inv e]
    have price: "shares_for W t (et_deposit_assets t) = Inr (et_minted_shares t)"
      "assets_for W t (et_redeem_shares t) = Inr (et_redeem_assets t)"
      using facts(2,5,7) by (simp_all add: shares_for_Inr [OF W] assets_for_Inr [OF W] terms_ok_def)
    obtain x where "request_totals_of s (fst p) = Inr x"
      "rt_deposit_assets x = et_deposit_assets t" "rt_redeem_shares x = et_redeem_shares t"
      using request_totals_exact [OF inv, of "fst p"] facts(1,4)
        unat_below [of "et_deposit_assets t"] unat_below [of "et_redeem_shares t"]
      by (auto simp: word_eq_unat)
    then show ?thesis
      using facts(7) price by (simp add: check_terms_def Finalized terms_ok_def word_less_nat_alt)
  qed (simp add: check_terms_def)
qed

lemma check_invariants_result:
  assumes "wide_uint 256 val W" "vault_inv s" "inflow_held s"
  shows "check_invariants W V s =
    (if totals_fit s then check_price_never_falls V s else Inl (ArithmeticFailure ArithmeticOverflow))"
  using asset_conservation_result [OF assms(2,3)] nav_composition_result [OF assms(2,3)]
    share_conservation_passes [OF assms(2)] burned_shares_passes [OF assms(2)]
    request_lifecycle_passes [OF assms(2)] escrow_backing_passes [OF assms(2)]
    claim_backing_passes [OF assms(1,2)] finalized_terms_passes [OF assms(1,2)]
  by (simp add: check_invariants_def totals_fit_def)

end
