(* ===== verification/Vault_Price.thy ===== *)
theory Vault_Price
  imports Vault_Checks
begin

text \<open>
  The share price. A settlement at the vault's own net asset value never lowers the price,
  because both conversions round in favour of the vault; and as long as no capital has been
  allocated to the remote leg, the prices of the finalized epochs form a non-decreasing
  sequence that ends at or below the current price, so every check of \<open>invariant.rs\<close> passes.
\<close>

section \<open>One settlement\<close>

definition price_le :: "pricing_basis \<Rightarrow> pricing_basis \<Rightarrow> bool" where
  "price_le b c \<longleftrightarrow> asset_n b * share_n c \<le> asset_n c * share_n b"

lemma price_le_refl [simp]: "price_le b b"
  by (simp add: price_le_def)

lemma price_le_trans:
  assumes "price_le a b" "price_le b c" "share_n b \<noteq> 0"
  shows "price_le a c"
proof -
  have "asset_n a * share_n b * share_n c \<le> asset_n b * share_n a * share_n c"
    using assms(1) unfolding price_le_def by (rule mult_right_mono) simp
  also have "\<dots> = asset_n b * share_n c * share_n a" by (simp add: ac_simps)
  also have "\<dots> \<le> asset_n c * share_n b * share_n a"
    using assms(2) unfolding price_le_def by (rule mult_right_mono) simp
  finally have "share_n b * (asset_n a * share_n c) \<le> share_n b * (asset_n c * share_n a)"
    by (simp add: ac_simps)
  then show ?thesis using assms(3) by (simp add: price_le_def)
qed

text \<open>Minting at most \<open>d\<close>'s worth of shares and paying at most \<open>h\<close>'s worth of assets.\<close>

lemma settlement_raises_price:
  fixes A S M D R H A' S' :: nat
  assumes "M * A \<le> D * S" "R * S \<le> H * A" "A' + R = A + D" "S' + H = S + M"
  shows "A * S' \<le> A' * S"
proof -
  have "A * S' + A * H + R * S = A * (S' + H) + R * S" by (simp add: algebra_simps)
  also have "\<dots> = A * S + M * A + R * S" using assms(4) by (simp add: algebra_simps)
  also have "\<dots> \<le> A * S + D * S + H * A" using assms(1,2) by simp
  also have "\<dots> = (A' + R) * S + H * A" using assms(3) by (simp add: algebra_simps)
  also have "\<dots> = A' * S + A * H + R * S" by (simp add: algebra_simps)
  finally show ?thesis by simp
qed

lemma div_times_le: "x * m div d * d \<le> x * (m :: nat)"
  by (simp add: div_times_less_eq_dividend)

lemma floor_price:
  "shares_floor b x * asset_n b \<le> x * share_n b" "assets_floor b x * share_n b \<le> x * asset_n b"
  by (simp_all add: shares_floor_def assets_floor_def div_times_le)

lemma finalize_price:
  assumes W: "wide_uint 256 val W" and op: "finalize_epoch W s = Inr t"
  obtains e b m r d d' where "epoch s = Some e" "settlement_basis s e b"
    "epochs t = bt_insert (ep_id e) (Finalized (settled_terms e b m r d d')) (epochs s)"
    "epoch t = None" "config t = config s" "remote_frame s t"
    "\<And>x. pb_total_assets b = managed_nav s \<Longrightarrow>
      unat (managed_nav s) = unat (idle_backing (buckets s)) + x \<Longrightarrow>
      unat (managed_nav t) = unat (idle_backing (buckets t)) + x \<Longrightarrow>
      price_le b \<lparr>pb_total_assets = managed_nav t, pb_total_supply = total_share_supply t,
        pb_virtual_assets = pb_virtual_assets b, pb_virtual_shares = pb_virtual_shares b\<rparr>"
  using W op
proof (rule finalize_epoch_Inr)
  fix e b minted redeem_assets idle escrow reserve total claimable escrowed burned next_id
    deposit_dust redeem_dust
  assume g: "epoch s = Some e" "settlement_basis s e b"
    and price: "unat redeem_assets = assets_floor b (unat (pending_redeem_shares e))"
      "unat minted = shares_floor b (unat (pending_deposit_assets e))"
    and n: "unat idle + unat redeem_assets =
       unat (idle_backing (buckets s)) + unat (pending_deposit_assets e)"
      "unat (total_share_supply s) + unat minted = unat (pending_redeem_shares e) + unat total"
    and t: "t = s\<lparr>buckets := (buckets s)\<lparr>idle_backing := idle, pending_deposit_escrow := escrow,
         claim_reserve := reserve\<rparr>, total_share_supply := total,
       claimable_deposit_shares := claimable, escrowed_redeem_shares := escrowed,
       burned_redemption_shares := burned,
       epochs := bt_insert (ep_id e)
         (Finalized (settled_terms e b minted redeem_assets deposit_dust redeem_dust)) (epochs s),
       last_cutoff_at := ep_cutoff_at e, next_epoch_id := next_id, epoch := None\<rparr>"
  have raise: "price_le b \<lparr>pb_total_assets = managed_nav t, pb_total_supply = total_share_supply t,
        pb_virtual_assets = pb_virtual_assets b, pb_virtual_shares = pb_virtual_shares b\<rparr>"
    if "pb_total_assets b = managed_nav s"
      "unat (managed_nav s) = unat (idle_backing (buckets s)) + x"
      "unat (managed_nav t) = unat (idle_backing (buckets t)) + x" for x
    unfolding price_le_def asset_n_def [of "\<lparr>pb_total_assets = _, pb_total_supply = _, pb_virtual_assets = _, pb_virtual_shares = _\<rparr>"]
      share_n_def [of "\<lparr>pb_total_assets = _, pb_total_supply = _, pb_virtual_assets = _, pb_virtual_shares = _\<rparr>"]
  proof (rule settlement_raises_price [where D = "unat (pending_deposit_assets e)" and M = "unat minted"
        and R = "unat redeem_assets" and H = "unat (pending_redeem_shares e)"])
    show "unat minted * asset_n b \<le> unat (pending_deposit_assets e) * share_n b"
      "unat redeem_assets * share_n b \<le> unat (pending_redeem_shares e) * asset_n b"
      unfolding price by (rule floor_price)+
  qed (use that n settlement_basis_fields [OF g(2)] in \<open>simp_all add: t asset_n_def share_n_def\<close>)
  show thesis
    by (rule that [OF g _ _ _ _ raise]) (simp_all add: t remote_frame_def)
qed

section \<open>Before any allocation\<close>

inductive reachable_local :: "'w uint_ops \<Rightarrow> state \<Rightarrow> bool" for W where
  genesis: "state_new g = Inr s \<Longrightarrow> reachable_local W s"
| step: "reachable_local W s \<Longrightarrow> apply_op W s op = Inr t \<Longrightarrow>
    (\<And>actor tid amount. op \<noteq> BeginAllocate actor tid amount) \<Longrightarrow> reachable_local W t"

lemma reachable_local_reachable: "reachable_local W s \<Longrightarrow> reachable W s"
  by (induction rule: reachable_local.induct) (auto intro: reachable.intros)

definition finalized_list :: "state \<Rightarrow> epoch_terms list" where
  "finalized_list s = List.map_filter outcome_finalized (bt_values (epochs s))"

definition no_remote :: "state \<Rightarrow> bool" where
  "no_remote s \<longleftrightarrow> active_cycle s = Cycle_None \<and> remote_principal_cap s = 0 \<and>
     inbound_in_transit (buckets s) = 0 \<and> impaired_transport s = 0"

definition current_basis :: "state \<Rightarrow> share_amount \<Rightarrow> pricing_basis" where
  "current_basis s v =
     \<lparr>pb_total_assets = idle_backing (buckets s), pb_total_supply = total_share_supply s,
      pb_virtual_assets = 1, pb_virtual_shares = v\<rparr>"

definition virtual_of :: "state \<Rightarrow> share_amount \<Rightarrow> bool" where
  "virtual_of s v \<longleftrightarrow>
     virtual_shares_for (cfg_asset_decimals (config s)) (cfg_share_decimals (config s)) = Inr v \<and>
     (\<forall>e. epoch s = Some e \<longrightarrow> ep_virtual_shares e = v)"

definition prices_rise :: "state \<Rightarrow> bool" where
  "prices_rise s \<longleftrightarrow> no_remote s \<and>
     (\<exists>v. virtual_of s v \<and> sorted_wrt price_le (map terms_basis (finalized_list s) @ [current_basis s v]))"

definition price_frame :: "state \<Rightarrow> state \<Rightarrow> bool" where
  "price_frame s t \<longleftrightarrow> no_remote t \<and> config t = config s \<and>
     idle_backing (buckets t) = idle_backing (buckets s) \<and>
     total_share_supply t = total_share_supply s \<and> finalized_list t = finalized_list s \<and>
     (\<forall>e'. epoch t = Some e' \<longrightarrow> (\<exists>e. epoch s = Some e \<and> ep_virtual_shares e' = ep_virtual_shares e) \<or>
        virtual_shares_for (cfg_asset_decimals (config s)) (cfg_share_decimals (config s)) =
          Inr (ep_virtual_shares e'))"

lemma price_frame_rise:
  assumes "price_frame s t" "prices_rise s"
  shows "prices_rise t"
proof -
  from assms(2) obtain v where v: "virtual_of s v"
    "sorted_wrt price_le (map terms_basis (finalized_list s) @ [current_basis s v])"
    unfolding prices_rise_def by blast
  have "virtual_of t v" using assms(1) v(1) by (auto simp: virtual_of_def price_frame_def)
  moreover have "current_basis t v = current_basis s v"
    using assms(1) by (simp add: price_frame_def current_basis_def)
  ultimately show ?thesis using assms(1) v by (auto simp: prices_rise_def price_frame_def)
qed

lemma saturating_add_zero [simp]: "saturating_add_word a 0 = a"
  using unat_below [of a] by (simp add: saturating_add_word_def)

lemma map_filter_snoc:
  "List.map_filter f (xs @ [x]) = List.map_filter f xs @ (case f x of None \<Rightarrow> [] | Some y \<Rightarrow> [y])"
  by (simp add: map_filter_def split: option.split)

lemma no_remote_facts:
  assumes "no_remote s" "vault_inv s"
  shows "outbound_in_transit (buckets s) = 0" "accepted_remote_value (buckets s) = 0"
    "pending_recall_principal s = 0" "\<not> close_requested s" "active_transfer_id s = 0"
    "managed_nav s = idle_backing (buckets s)" "\<not> has_remote_exposure s"
proof -
  show out: "outbound_in_transit (buckets s) = 0" and rec: "pending_recall_principal s = 0"
    and "\<not> close_requested s" "active_transfer_id s = 0"
    using assms(1) vault_inv_parts(12) [OF assms(2)] by (auto simp: no_remote_def cycle_ok_def)
  show acc: "accepted_remote_value (buckets s) = 0"
    using assms(1) vault_inv_parts(13) [OF assms(2)]
    by (simp add: no_remote_def remote_ok_def unat_eq_zero)
  show "managed_nav s = idle_backing (buckets s)" "\<not> has_remote_exposure s"
    using assms(1) out rec acc
    by (simp_all add: managed_nav_def managed_backing_def no_remote_def has_remote_exposure_def)
qed

lemma bt_insert_last:
  "(\<And>p. p \<in> set m \<Longrightarrow> fst p < k) \<Longrightarrow> bt_insert k v m = m @ [(k, v)]"
  by (induction m) auto

lemma settle_last:
  assumes "vault_inv s" "epoch s = Some e"
  shows "bt_insert (ep_id e) o' (epochs s) = epochs s @ [(ep_id e, o')]"
  using vault_inv_parts(6) [OF assms(1)] assms(2)
  by (intro bt_insert_last) (auto simp: ids_ok_def next_id_bound_def word_less_nat_alt)

text \<open>Every operation other than a settlement keeps the price exactly, and before an allocation
  every remote operation is refused or touches nothing that the price depends on.\<close>

lemmas price_frame_simps = price_frame_def no_remote_def finalized_list_def

lemma request_frames:
  assumes "no_remote s"
  shows "request_deposit s a n = Inr t \<Longrightarrow> price_frame s t" "request_redeem s a n = Inr t \<Longrightarrow> price_frame s t"
    "cancel_deposit s a = Inr t \<Longrightarrow> price_frame s t" "cancel_redeem s a = Inr t \<Longrightarrow> price_frame s t"
    "claim_deposit W s a eid = Inr t \<Longrightarrow> price_frame s t" "claim_redeem W s a eid = Inr t \<Longrightarrow> price_frame s t"
    "claim_aborted_deposit s a eid = Inr t \<Longrightarrow> price_frame s t"
    "claim_aborted_redeem s a eid = Inr t \<Longrightarrow> price_frame s t"
proof -
  show "request_deposit s a n = Inr t \<Longrightarrow> price_frame s t"
    using assms by (elim request_deposit_Inr) (simp add: price_frame_simps)
  show "request_redeem s a n = Inr t \<Longrightarrow> price_frame s t"
    using assms by (elim request_redeem_Inr) (simp add: price_frame_simps)
  show "cancel_deposit s a = Inr t \<Longrightarrow> price_frame s t"
    using assms by (elim cancel_deposit_Inr) (simp add: price_frame_simps)
  show "cancel_redeem s a = Inr t \<Longrightarrow> price_frame s t"
    using assms by (elim cancel_redeem_Inr) (simp add: price_frame_simps)
  show "claim_deposit W s a eid = Inr t \<Longrightarrow> price_frame s t"
    using assms by (elim claim_deposit_Inr) (simp add: price_frame_simps)
  show "claim_redeem W s a eid = Inr t \<Longrightarrow> price_frame s t"
    using assms by (elim claim_redeem_Inr) (simp add: price_frame_simps)
  show "claim_aborted_deposit s a eid = Inr t \<Longrightarrow> price_frame s t"
    using assms by (elim claim_aborted_deposit_Inr) (simp add: price_frame_simps)
  show "claim_aborted_redeem s a eid = Inr t \<Longrightarrow> price_frame s t"
    using assms by (elim claim_aborted_redeem_Inr) (simp add: price_frame_simps)
qed

lemma epoch_frames:
  assumes "no_remote s" "vault_inv s"
  shows "cutoff_epoch s now = Inr t \<Longrightarrow> price_frame s t" "open_next_epoch s now = Inr t \<Longrightarrow> price_frame s t"
    "abort_epoch s a = Inr t \<Longrightarrow> price_frame s t" "pause s a = Inr t \<Longrightarrow> price_frame s t"
    "unpause s a = Inr t \<Longrightarrow> price_frame s t" "freeze s a = Inr t \<Longrightarrow> price_frame s t"
proof -
  show "cutoff_epoch s now = Inr t \<Longrightarrow> price_frame s t" "pause s a = Inr t \<Longrightarrow> price_frame s t"
    "unpause s a = Inr t \<Longrightarrow> price_frame s t" "freeze s a = Inr t \<Longrightarrow> price_frame s t"
    using assms(1) by (auto simp: cutoff_epoch_Inr pause_Inr price_frame_simps)
  show "open_next_epoch s now = Inr t \<Longrightarrow> price_frame s t"
    using assms(1) by (auto simp: open_next_epoch_def op_simps price_frame_simps new_epoch_def)
  show "abort_epoch s a = Inr t \<Longrightarrow> price_frame s t"
    using assms(1) settle_last [OF assms(2)]
    by (auto elim!: abort_epoch_Inr simp: price_frame_simps bt_values_def map_filter_snoc)
qed

lemma remote_frames:
  assumes "no_remote s" "vault_inv s"
  shows "complete_allocation s tid n = Inr t \<Longrightarrow> price_frame s t"
    "begin_recall s a tid n = Inr t \<Longrightarrow> price_frame s t"
    "accept_recall_sent s tid n m l = Inr t \<Longrightarrow> price_frame s t"
    "observe_inbound s n = Inr t \<Longrightarrow> price_frame s t"
    "apply_remote_valuation s n m = Inr t \<Longrightarrow> price_frame s t"
    "lock_remote_valuation s = Inr t \<Longrightarrow> price_frame s t"
    "request_close s a tid = Inr t \<Longrightarrow> price_frame s t" "settle_close s tid n = Inr t \<Longrightarrow> price_frame s t"
    "begin_recover s a tid = Inr t \<Longrightarrow> price_frame s t" "settle_recover s tid n = Inr t \<Longrightarrow> price_frame s t"
proof -
  note facts = no_remote_facts [OF assms]
  have no: "active_cycle s = Cycle_None" "remote_principal_cap s = 0" "inbound_in_transit (buckets s) = 0"
    "impaired_transport s = 0" using assms(1) by (simp_all add: no_remote_def)
  show "complete_allocation s tid n = Inr t \<Longrightarrow> price_frame s t"
    "accept_recall_sent s tid n m l = Inr t \<Longrightarrow> price_frame s t"
    "request_close s a tid = Inr t \<Longrightarrow> price_frame s t" "settle_close s tid n = Inr t \<Longrightarrow> price_frame s t"
    "begin_recover s a tid = Inr t \<Longrightarrow> price_frame s t" "settle_recover s tid n = Inr t \<Longrightarrow> price_frame s t"
    using facts no
    by (simp_all add: complete_allocation_def accept_recall_sent_def request_close_def settle_close_def
        begin_recover_def settle_recover_def op_simps)
  show "begin_recall s a tid n = Inr t \<Longrightarrow> price_frame s t"
    using no by (auto simp: begin_recall_def op_simps word_less_nat_alt unat_eq_zero)
  show "observe_inbound s n = Inr t \<Longrightarrow> price_frame s t"
    using facts no
    by (auto simp: observe_inbound_def attribute_in_flight_def record_surplus_def op_simps price_frame_simps)
  show "apply_remote_valuation s n m = Inr t \<Longrightarrow> price_frame s t"
    using facts no by (auto simp: apply_remote_valuation_def set_accepted_def op_simps price_frame_simps)
  show "lock_remote_valuation s = Inr t \<Longrightarrow> price_frame s t"
    using facts no by (auto simp: lock_remote_valuation_def op_simps price_frame_simps)
qed

lemma finalize_rise:
  assumes W: "wide_uint 256 val W" and inv: "vault_inv s" and rise: "prices_rise s"
    and op: "finalize_epoch W s = Inr t"
  shows "prices_rise t"
proof -
  from rise obtain v where no: "no_remote s" and v: "virtual_of s v"
    and sorted: "sorted_wrt price_le (map terms_basis (finalized_list s) @ [current_basis s v])"
    unfolding prices_rise_def by blast
  note facts = no_remote_facts [OF no inv]
  from finalize_price [OF W op] obtain e b m r d d' where
    e: "epoch s = Some e" and b: "settlement_basis s e b" and config: "config t = config s"
    and t: "epochs t = bt_insert (ep_id e) (Finalized (settled_terms e b m r d d')) (epochs s)"
      "epoch t = None" and frame: "remote_frame s t"
    and raise: "\<And>x. pb_total_assets b = managed_nav s \<Longrightarrow>
      unat (managed_nav s) = unat (idle_backing (buckets s)) + x \<Longrightarrow>
      unat (managed_nav t) = unat (idle_backing (buckets t)) + x \<Longrightarrow>
      price_le b \<lparr>pb_total_assets = managed_nav t, pb_total_supply = total_share_supply t,
        pb_virtual_assets = pb_virtual_assets b, pb_virtual_shares = pb_virtual_shares b\<rparr>"
    by metis
  have inv': "vault_inv t" by (rule finalize_epoch_inv [OF W inv op])
  have no': "no_remote t"
    using frame no by (simp add: no_remote_def remote_frame_def)
  note facts' = no_remote_facts [OF no' inv']
  have basis: "b = current_basis s v"
    using b e facts v vault_inv_parts(7) [OF inv]
    by (simp add: settlement_basis_def pre_settlement_basis_def current_basis_def virtual_of_def slot_ok_def)
  have up: "price_le (current_basis s v) (current_basis t v)"
    using raise [of 0] facts(6) facts'(6) by (simp add: basis current_basis_def)
  have "v \<noteq> 0" using v virtual_shares_positive by (auto simp: virtual_of_def)
  then have pos: "share_n (current_basis s v) \<noteq> 0"
    by (simp add: share_n_def current_basis_def unat_eq_zero)
  have list: "finalized_list t = finalized_list s @ [settled_terms e b m r d d']"
    unfolding finalized_list_def t(1) settle_last [OF inv e] by (simp add: bt_values_def map_filter_snoc)
  have "sorted_wrt price_le (map terms_basis (finalized_list t) @ [current_basis t v])"
    using sorted up price_le_trans [OF _ up pos]
    by (auto simp: list basis sorted_wrt_append)
  moreover have "virtual_of t v" using v config t(2) by (simp add: virtual_of_def)
  ultimately show ?thesis using no' by (auto simp: prices_rise_def)
qed

lemma genesis_rise:
  assumes "state_new g = Inr s" shows "prices_rise s"
proof -
  from assms obtain v accs total cutoff next_id where
    v: "virtual_shares_for (cfg_asset_decimals (g_config g)) (cfg_share_decimals (g_config g)) = Inr v"
    and s: "config s = g_config g" "epochs s = []" "no_remote s"
      "epoch s = Some (new_epoch 0 (g_opened_at g) cutoff (g_config g) v)"
    unfolding state_new_def by (auto simp: result_simps no_remote_def)
  have "virtual_of s v" using v s by (simp add: virtual_of_def new_epoch_def)
  then show ?thesis using s by (auto simp: prices_rise_def finalized_list_def bt_values_def map_filter_simps)
qed

lemma local_rise:
  assumes W: "wide_uint 256 val W" and "reachable_local W s"
  shows "prices_rise s"
  using assms(2)
proof induction
  case (genesis g s)
  then show ?case by (rule genesis_rise)
next
  case (step s op t)
  have inv: "vault_inv s" using reachable_inv [OF W] reachable_local_reachable step.hyps(1) by blast
  have no: "no_remote s" using step.IH by (simp add: prices_rise_def)
  have "op = FinalizeEpoch \<or> price_frame s t"
    using step.hyps(2,3)
    by (cases op) (auto dest: request_frames [OF no] epoch_frames [OF no inv] remote_frames [OF no inv])
  then show ?case
    using finalize_rise [OF W inv step.IH] price_frame_rise [OF _ step.IH] step.hyps(2) by auto
qed

section \<open>The price check\<close>

lemma price_loop:
  assumes V: "wide_uint 512 val V"
    and "sorted_wrt price_le (map terms_basis ((case earlier of None \<Rightarrow> [] | Some t \<Rightarrow> [t]) @
      List.map_filter outcome_finalized os))"
  shows "\<exists>x. for_each (price_step V) os earlier = Inr x"
  using assms(2)
proof (induction os arbitrary: earlier)
  case (Cons o' os)
  show ?case
  proof (cases o')
    case (Aborted t)
    then show ?thesis using Cons by (simp add: price_step_def map_filter_simps)
  next
    case (Finalized t)
    have "price_step V o' earlier = Inr (Some t)"
      using Cons.prems wide_uint.price_compare [OF V, of _ "terms_basis t"] Finalized
      by (cases earlier) (simp_all add: price_step_def map_filter_simps price_le_def)
    moreover have "sorted_wrt price_le (map terms_basis ([t] @ List.map_filter outcome_finalized os))"
      using Cons.prems Finalized by (cases earlier) (simp_all add: map_filter_simps)
    ultimately show ?thesis using Cons.IH [of "Some t"] by simp
  qed
qed simp

lemma price_check_passes:
  assumes "wide_uint 512 val' V" "prices_rise s"
  shows "check_price_never_falls V s = Inr ()"
  using price_loop [OF assms(1), of None "bt_values (epochs s)"] assms(2)
  by (auto simp: check_price_never_falls_def prices_rise_def finalized_list_def sorted_wrt_append)

end
