(* ===== verification/Vault_Runs.thy ===== *)
theory Vault_Runs
  imports Vault_Price
begin

text \<open>
  What stays true along every run of operations: outcomes are immutable, a consumed claim
  stays consumed, a used transfer identifier stays used, a frozen vault stays frozen, and
  the configuration and authorities never change.
\<close>

section \<open>Remote operations and the users' records\<close>

definition vault_frame :: "state \<Rightarrow> state \<Rightarrow> bool" where
  "vault_frame s t \<longleftrightarrow> user_frame s t \<and> vault_state t = vault_state s \<and> config t = config s \<and>
     authority t = authority s \<and> used_transfer_ids s \<subseteq> used_transfer_ids t"

lemma vault_frame_trans: "vault_frame s t \<Longrightarrow> vault_frame t u \<Longrightarrow> vault_frame s u"
  unfolding vault_frame_def user_frame_def by auto

lemma accept_recall_sent_frame:
  assumes "accept_recall_sent s tid n m l = Inr t"
  shows "vault_frame s t"
  using assms
  by (rule accept_recall_sent_Inr)
    (simp add: vault_frame_def user_frame_def clear_cycle_def set_accepted_def)

lemma remote_vault_frame:
  "begin_allocate s a tid n = Inr t \<Longrightarrow> vault_frame s t"
  "complete_allocation s tid n = Inr t \<Longrightarrow> vault_frame s t"
  "begin_recall s a tid n = Inr t \<Longrightarrow> vault_frame s t"
  "observe_inbound s n = Inr t \<Longrightarrow> vault_frame s t"
  "apply_remote_valuation s n m = Inr t \<Longrightarrow> vault_frame s t"
  "lock_remote_valuation s = Inr t \<Longrightarrow> vault_frame s t"
  "request_close s a tid = Inr t \<Longrightarrow> vault_frame s t"
  "settle_close s tid n = Inr t \<Longrightarrow> vault_frame s t"
  "begin_recover s a tid = Inr t \<Longrightarrow> vault_frame s t"
  "settle_recover s tid n = Inr t \<Longrightarrow> vault_frame s t"
proof -
  note defs = vault_frame_def user_frame_def clear_cycle_def set_accepted_def
  show "begin_allocate s a tid n = Inr t \<Longrightarrow> vault_frame s t"
    by (auto simp: begin_allocate_def op_simps defs)
  show "complete_allocation s tid n = Inr t \<Longrightarrow> vault_frame s t"
    by (cases "close_requested s") (auto simp: complete_allocation_def op_simps defs)
  show "begin_recall s a tid n = Inr t \<Longrightarrow> vault_frame s t"
    by (auto simp: begin_recall_def op_simps defs)
  show "apply_remote_valuation s n m = Inr t \<Longrightarrow> vault_frame s t"
    by (cases "close_requested s") (auto simp: apply_remote_valuation_def op_simps defs)
  show "lock_remote_valuation s = Inr t \<Longrightarrow> vault_frame s t"
    by (cases "close_requested s") (auto simp: lock_remote_valuation_def op_simps defs)
  show "request_close s a tid = Inr t \<Longrightarrow> vault_frame s t"
    by (auto simp: request_close_def op_simps defs)
  show "settle_close s tid n = Inr t \<Longrightarrow> vault_frame s t"
    by (auto simp: settle_close_def op_simps credit_remote_Inr defs)
  show "begin_recover s a tid = Inr t \<Longrightarrow> vault_frame s t"
    by (auto simp: begin_recover_def op_simps defs)
  show "settle_recover s tid n = Inr t \<Longrightarrow> vault_frame s t"
    by (auto simp: settle_recover_def op_simps credit_remote_Inr defs)
  show "observe_inbound s n = Inr t \<Longrightarrow> vault_frame s t"
  proof -
    assume "observe_inbound s n = Inr t"
    then obtain u m where u: "attribute_in_flight s n = Inr (u, m)" and t: "record_surplus u m = Inr t"
      by (auto simp: observe_inbound_def result_simps)
    have "vault_frame s u"
      using u by (cases "inbound_in_transit (buckets s) = 0")
        (auto simp: attribute_in_flight_def op_simps defs)
    moreover have "vault_frame u t"
      using t by (cases "m = 0"; cases "pending_recall_principal u = 0")
        (auto simp: record_surplus_def op_simps defs)
    ultimately show ?thesis by (rule vault_frame_trans)
  qed
qed

section \<open>What one step keeps\<close>

definition keeps :: "state \<Rightarrow> state \<Rightarrow> bool" where
  "keeps s t \<longleftrightarrow>
     (\<forall>e o'. bt_get (epochs s) e = Some o' \<longrightarrow> bt_get (epochs t) e = Some o') \<and>
     (\<forall>k r. bt_get (deposit_requests s) k = Some r \<and> dr_claimed r \<longrightarrow>
        bt_get (deposit_requests t) k = Some r) \<and>
     (\<forall>k r. bt_get (redeem_requests s) k = Some r \<and> rr_claimed r \<longrightarrow>
        bt_get (redeem_requests t) k = Some r) \<and>
     used_transfer_ids s \<subseteq> used_transfer_ids t \<and>
     config t = config s \<and> authority t = authority s \<and>
     (vault_state s = Frozen \<longrightarrow> vault_state t = Frozen)"

lemma keeps_refl [simp]: "keeps s s"
  by (simp add: keeps_def)

lemma keeps_trans: "keeps s t \<Longrightarrow> keeps t u \<Longrightarrow> keeps s u"
  unfolding keeps_def by (metis order_trans)

lemma vault_frame_keeps: "vault_frame s t \<Longrightarrow> keeps s t"
  by (simp add: vault_frame_def user_frame_def keeps_def)

lemma request_keeps:
  assumes "vault_inv s"
  shows "request_deposit s a n = Inr t \<Longrightarrow> keeps s t" "request_redeem s a n = Inr t \<Longrightarrow> keeps s t"
    "cancel_deposit s a = Inr t \<Longrightarrow> keeps s t" "cancel_redeem s a = Inr t \<Longrightarrow> keeps s t"
    "claim_deposit W s a eid = Inr t \<Longrightarrow> keeps s t" "claim_redeem W s a eid = Inr t \<Longrightarrow> keeps s t"
    "claim_aborted_deposit s a eid = Inr t \<Longrightarrow> keeps s t"
    "claim_aborted_redeem s a eid = Inr t \<Longrightarrow> keeps s t"
proof -
  show "request_deposit s a n = Inr t \<Longrightarrow> keeps s t"
    using inv_wf [OF assms] by (elim request_deposit_Inr) (auto simp: keeps_def)
  show "request_redeem s a n = Inr t \<Longrightarrow> keeps s t"
    using inv_wf [OF assms] by (elim request_redeem_Inr) (auto simp: keeps_def)
  show "cancel_deposit s a = Inr t \<Longrightarrow> keeps s t"
    using inv_wf [OF assms] by (elim cancel_deposit_Inr) (auto simp: keeps_def)
  show "cancel_redeem s a = Inr t \<Longrightarrow> keeps s t"
    using inv_wf [OF assms] by (elim cancel_redeem_Inr) (auto simp: keeps_def)
  show "claim_deposit W s a eid = Inr t \<Longrightarrow> keeps s t"
    using inv_wf [OF assms] by (elim claim_deposit_Inr) (auto simp: keeps_def)
  show "claim_redeem W s a eid = Inr t \<Longrightarrow> keeps s t"
    using inv_wf [OF assms] by (elim claim_redeem_Inr) (auto simp: keeps_def)
  show "claim_aborted_deposit s a eid = Inr t \<Longrightarrow> keeps s t"
    using inv_wf [OF assms] by (elim claim_aborted_deposit_Inr) (auto simp: keeps_def)
  show "claim_aborted_redeem s a eid = Inr t \<Longrightarrow> keeps s t"
    using inv_wf [OF assms] by (elim claim_aborted_redeem_Inr) (auto simp: keeps_def)
qed

lemma epoch_keeps:
  assumes "vault_inv s"
  shows "cutoff_epoch s now = Inr t \<Longrightarrow> keeps s t" "open_next_epoch s now = Inr t \<Longrightarrow> keeps s t"
    "abort_epoch s a = Inr t \<Longrightarrow> keeps s t" "pause s a = Inr t \<Longrightarrow> keeps s t"
    "unpause s a = Inr t \<Longrightarrow> keeps s t" "freeze s a = Inr t \<Longrightarrow> keeps s t"
  using inv_wf(3) [OF assms]
  by (auto elim!: abort_epoch_Inr open_next_epoch_Inr simp: keeps_def cutoff_epoch_Inr pause_Inr
      bt_contains_def)

lemma finalize_keeps:
  assumes W: "wide_uint 256 val W" and inv: "vault_inv s" and op: "finalize_epoch W s = Inr t"
  shows "keeps s t"
  using W op
  by (rule finalize_epoch_Inr) (use inv_wf(3) [OF inv] in \<open>auto simp: keeps_def bt_contains_def\<close>)

lemma apply_op_keeps:
  assumes W: "wide_uint 256 val W" and inv: "vault_inv s" and op: "apply_op W s op = Inr t"
  shows "keeps s t"
  using op
  by (cases op) (auto dest: request_keeps [OF inv] epoch_keeps [OF inv] finalize_keeps [OF W inv]
      accept_recall_sent_frame remote_vault_frame intro: vault_frame_keeps)

lemma run_keeps:
  assumes W: "wide_uint 256 val W" and "vault_inv s"
  shows "vault_inv (run W s ops) \<and> keeps s (run W s ops)"
  using assms(2)
proof (induction ops arbitrary: s)
  case (Cons op ops)
  show ?case
  proof (cases "apply_op W s op")
    case (Inl r)
    then show ?thesis using Cons by simp
  next
    case (Inr t)
    then show ?thesis
      using Cons.IH [of t] apply_op_inv [OF W Cons.prems Inr] apply_op_keeps [OF W Cons.prems Inr]
      by (auto intro: keeps_trans)
  qed
qed simp

end
