(* ===== verification/Vault_Props.thy ===== *)
theory Vault_Props
  imports Vault_Runs
begin

text \<open>
  Properties of the accounting model as statements over its definitions, each proved from
  the component lemmas, with witnesses on one small vault: two depositors, an epoch of a
  hundred seconds, an administrator and a guardian.
\<close>

section \<open>A concrete vault\<close>

abbreviation U :: "256 word uint_ops" where "U \<equiv> word_uint"
abbreviation U2 :: "512 word uint_ops" where "U2 \<equiv> word_uint"

definition demo_genesis :: genesis where
  "demo_genesis =
     \<lparr>g_config = \<lparr>cfg_version = 1, cfg_asset_decimals = 6, cfg_share_decimals = 6,
        min_deposit_assets = 1, min_redeem_shares = 1, epoch_duration = 100\<rparr>,
      g_authority = \<lparr>admin = 90, guardian = 91\<rparr>,
      g_accounts = [(1, 1000), (2, 500)], g_unattributed_balance = 7, g_opened_at = 1000\<rparr>"

definition demo_start :: state where
  "demo_start = projr (state_new demo_genesis)"

text \<open>Two deposits settled at par, then one depositor asks to redeem in the next epoch.\<close>

definition demo_settled :: state where
  "demo_settled =
     run U demo_start [RequestDeposit 1 600, RequestDeposit 2 301, CutoffEpoch 1100, FinalizeEpoch]"

definition demo_redeemed :: state where
  "demo_redeemed =
     run U demo_settled [ClaimDeposit 1 0, OpenNextEpoch 1100, RequestRedeem 1 100,
       CutoffEpoch 1200, FinalizeEpoch]"

definition demo_aborted :: state where
  "demo_aborted =
     run U demo_settled [ClaimDeposit 1 0, OpenNextEpoch 1100, RequestDeposit 2 50, RequestRedeem 1 100,
       Freeze 91, AbortEpoch 90]"

definition demo_closing :: state where
  "demo_closing =
     run U demo_settled [OpenNextEpoch 1100, BeginAllocate 90 5 400, RequestClose 90 5]"

definition demo_recovering :: state where
  "demo_recovering =
     run U demo_closing [SettleClose 5 300, BeginRecover 90 6]"

definition demo_recalling :: state where
  "demo_recalling =
     run U demo_settled [OpenNextEpoch 1100, BeginAllocate 90 5 400, CompleteAllocation 5 400,
       BeginRecall 90 6 150]"

lemma is_ok_projr: "is_ok m \<Longrightarrow> m = Inr (projr m)"
  by (cases m) simp_all

lemma demo_start_new: "state_new demo_genesis = Inr demo_start"
  unfolding demo_start_def by (rule is_ok_projr) code_simp

lemma demo_start_reachable: "reachable W demo_start"
  by (rule reachable.genesis [OF demo_start_new])

lemma demo_reachable:
  "reachable U demo_settled" "reachable U demo_redeemed" "reachable U demo_aborted"
  "reachable U demo_closing" "reachable U demo_recovering" "reachable U demo_recalling"
  unfolding demo_settled_def demo_redeemed_def demo_aborted_def demo_closing_def demo_recovering_def
    demo_recalling_def
  by (intro run_reachable demo_start_reachable)+

lemmas demo_wide = u256.wide_uint_axioms u512.wide_uint_axioms

section \<open>Conversions\<close>

text \<open>C27. The multiply-and-divide of the price is exact: on any 256-bit integer library with
  the documented behaviour, \<open>mul_div_floor\<close> returns the floor of the exact quotient, refuses a
  zero denominator, and reports an overflow exactly when the quotient exceeds 128 bits.\<close>

theorem mul_div_floor_exact:
  assumes "wide_uint 256 val W"
  shows "mul_div_floor W a b d =
    (if d = 0 then Inl DivisionByZero
     else if unat a * unat b div unat d < 2 ^ 128 then Inr (of_nat (unat a * unat b div unat d))
     else Inl ArithmeticOverflow)"
  by (rule wide_uint.mul_div_floor_eq [OF assms]) simp

theorem mul_div_floor_exact_witness:
  "mul_div_floor U 7 10 4 = Inr 17 \<and> mul_div_floor U (- 1) (- 1) 1 = Inl ArithmeticOverflow"
  using mul_div_floor_exact [OF u256.wide_uint_axioms, of 7 10 4]
    mul_div_floor_exact [OF u256.wide_uint_axioms, of "- 1" "- 1" 1]
  by (simp add: unat_max_word)

text \<open>Converting assets to shares and back, or shares to assets and back, at one price
  never gains anything: rounding favours the vault in both directions.\<close>

theorem conversion_never_gains:
  assumes "wide_uint 256 val W"
  shows "(assets_to_shares W x b = Inr y \<and> shares_to_assets W y b = Inr z \<longrightarrow> unat z \<le> unat x) \<and>
    (shares_to_assets W u b = Inr v \<and> assets_to_shares W v b = Inr w \<longrightarrow> unat w \<le> unat u)"
proof -
  have loop: "(p * m div d) * d div m \<le> p" if "m \<noteq> 0" for p m d :: nat
    using div_le_mono [OF div_times_le [of p m d], of m] that by simp
  show ?thesis
    using loop [of "share_n b" "unat x" "asset_n b"] loop [of "asset_n b" "unat u" "share_n b"]
    by (simp add: wide_uint.assets_to_shares_Inr [OF assms] wide_uint.shares_to_assets_Inr [OF assms]
        shares_floor_def assets_floor_def)
qed

definition demo_basis :: pricing_basis where
  "demo_basis = \<lparr>pb_total_assets = 100, pb_total_supply = 30, pb_virtual_assets = 1, pb_virtual_shares = 1\<rparr>"

theorem conversion_never_gains_witness:
  "assets_to_shares U 10 demo_basis = Inr 3 \<and> shares_to_assets U 3 demo_basis = Inr 9 \<and>
   unat (9 :: u128) \<le> unat (10 :: u128)"
proof -
  have "assets_to_shares U 10 demo_basis = Inr 3" "shares_to_assets U 3 demo_basis = Inr 9"
    by code_simp+
  then show ?thesis using conversion_never_gains [OF u256.wide_uint_axioms, of 10 demo_basis 3 9] by blast
qed

section \<open>Conservation\<close>

text \<open>C1. Assets are conserved in every reachable state: what accounts hold, every bucket of
  the vault and everything the vault is owed or has written off add up to the genesis supply
  plus the recognized external inflow, as exact natural numbers. The balance received while a
  recall is open (\<open>unattributed_inbound\<close>) is not yet part of either side.\<close>

theorem assets_conserved:
  assumes "wide_uint 256 val W" "reachable W s"
  shows "sum_list (map (\<lambda>p. unat (acc_assets (snd p))) (accounts s)) +
      unat (pending_deposit_escrow (buckets s)) + unat (idle_backing (buckets s)) +
      unat (claim_reserve (buckets s)) + unat (unattributed_balance (buckets s)) +
      (unat (outbound_in_transit (buckets s)) + unat (inbound_in_transit (buckets s)) +
       unat (remote_principal_cap s) + unat (recognized_loss s) + unat (impaired_transport s)) =
    unat (initial_asset_supply s) + unat (external_inflow s)"
  using vault_inv_parts(9) [OF reachable_inv [OF assms]]
  by (simp add: assets_ok_def acct_sum_def off_vault_def)

theorem assets_conserved_witness:
  "sum_list (map (\<lambda>p. unat (acc_assets (snd p))) (accounts demo_closing)) +
      unat (pending_deposit_escrow (buckets demo_closing)) + unat (idle_backing (buckets demo_closing)) +
      unat (claim_reserve (buckets demo_closing)) + unat (unattributed_balance (buckets demo_closing)) +
      (unat (outbound_in_transit (buckets demo_closing)) + unat (inbound_in_transit (buckets demo_closing)) +
       unat (remote_principal_cap demo_closing) + unat (recognized_loss demo_closing) +
       unat (impaired_transport demo_closing)) =
    unat (initial_asset_supply demo_closing) + unat (external_inflow demo_closing)"
  by (rule assets_conserved [OF u256.wide_uint_axioms demo_reachable(4)])

text \<open>C18. Shares are conserved in every reachable state: balances, shares escrowed for
  redemption and minted shares nobody claimed yet add up to the total supply, and the shares
  burned so far are the redemptions of the finalized epochs.\<close>

theorem shares_conserved:
  assumes "wide_uint 256 val W" "reachable W s"
  shows "sum_list (map (\<lambda>p. unat (acc_shares (snd p))) (accounts s)) +
      unat (escrowed_redeem_shares s) + unat (claimable_deposit_shares s) = unat (total_share_supply s) \<and>
    sum_list (map (\<lambda>t. unat (et_redeem_shares t)) (finalized_list s)) = unat (burned_redemption_shares s)"
proof -
  have "sum_list (map burned_in ps) =
      sum_list (map (\<lambda>t. unat (et_redeem_shares t)) (List.map_filter outcome_finalized (map snd ps)))" for ps
    by (induction ps) (auto simp: burned_in_def map_filter_simps split: epoch_outcome.split)
  then show ?thesis
    using vault_inv_parts(10,11) [OF reachable_inv [OF assms]]
    by (simp add: shares_ok_def burned_ok_def acct_sum_def finalized_list_def bt_values_def)
qed

theorem shares_conserved_witness:
  "sum_list (map (\<lambda>p. unat (acc_shares (snd p))) (accounts demo_redeemed)) +
      unat (escrowed_redeem_shares demo_redeemed) + unat (claimable_deposit_shares demo_redeemed) =
      unat (total_share_supply demo_redeemed) \<and>
    sum_list (map (\<lambda>t. unat (et_redeem_shares t)) (finalized_list demo_redeemed)) =
      unat (burned_redemption_shares demo_redeemed)"
  by (rule shares_conserved [OF u256.wide_uint_axioms demo_reachable(2)])

section \<open>Claims\<close>

lemma account_le_sum:
  assumes "f default_account = 0"
  shows "unat (f (account_of s a)) \<le> acct_sum f s"
proof (cases "bt_get (accounts s) a")
  case None
  then show ?thesis using assms by (simp add: account_of_def)
next
  case (Some x)
  have "unat (f (snd (a, x))) \<le> sum_list (map (\<lambda>p. unat (f (snd p))) (accounts s))"
    using bt_get_in_set [OF Some] by (intro member_le_sum_list) force+
  then show ?thesis using Some by (simp add: account_of_def acct_sum_def)
qed

lemma shares_room:
  assumes "vault_inv s"
  shows "unat (acc_shares (account_of s a)) + unat (escrowed_redeem_shares s) +
    unat (claimable_deposit_shares s) < 2 ^ 128"
proof -
  have "unat (acc_shares (account_of s a)) \<le> acct_sum acc_shares s"
    by (rule account_le_sum) (simp add: default_account_def)
  moreover have "unat (total_share_supply s) < 2 ^ 128" using unat_below [of "total_share_supply s"] by simp
  ultimately show ?thesis using vault_inv_parts(10) [OF assms] by (simp add: shares_ok_def)
qed

lemma assets_room:
  assumes "vault_inv s" "inflow_held s"
  shows "unat (acc_assets (account_of s a)) + unat (pending_deposit_escrow (buckets s)) +
    unat (claim_reserve (buckets s)) < 2 ^ 128"
proof -
  have "unat (acc_assets (account_of s a)) \<le> acct_sum acc_assets s"
    by (rule account_le_sum) (simp add: default_account_def)
  then show ?thesis
    using own_assets_fit [OF assms] by simp
qed

lemma deposit_entry:
  assumes "vault_inv s" "bt_get (deposit_requests s) k = Some r" "\<not> dr_claimed r"
  shows "bt_get (bk_requests (deposit_book s)) k = Some (unat (dr_assets r), False)"
    "\<not> dr_cancelled r \<Longrightarrow> dr_assets r \<noteq> 0"
  using assms vault_inv_parts(3) [OF assms(1)] bt_get_in_set [OF assms(2)]
  by (auto simp: deposit_book_def dep_view_def flags_ok_def deposit_flags_agree_def)

lemma redeem_entry:
  assumes "vault_inv s" "bt_get (redeem_requests s) k = Some r" "\<not> rr_claimed r"
  shows "bt_get (bk_requests (redeem_book s)) k = Some (unat (rr_shares r), False)"
    "\<not> rr_cancelled r \<Longrightarrow> rr_shares r \<noteq> 0"
  using assms vault_inv_parts(3) [OF assms(1)] bt_get_in_set [OF assms(2)]
  by (auto simp: redeem_book_def red_view_def flags_ok_def redeem_flags_agree_def)

lemma account_of_insert [simp]:
  "bt_wf (accounts s) \<Longrightarrow> accounts t = bt_insert a v (accounts s) \<Longrightarrow> account_of t a = v"
  by (simp add: account_of_def)

text \<open>C3. Every open deposit claim of a finalized epoch can be claimed, now: the claim is
  accepted, credits exactly the floor of the request at the epoch's fixed price, and marks the
  request claimed. No balance, counter or pool can overflow or run dry.\<close>

theorem claim_deposit_pays:
  assumes "wide_uint 256 val W" "reachable W s"
    and "finalized_terms s eid = Some t" "bt_get (deposit_requests s) (RequestKey eid a) = Some r"
    and "\<not> dr_cancelled r" "\<not> dr_claimed r"
  shows "\<exists>u. claim_deposit W s a eid = Inr u \<and>
    unat (acc_shares (account_of u a)) = unat (acc_shares (account_of s a)) +
      unat (dr_assets r) * (unat (et_total_supply t) + unat (et_virtual_shares t)) div
        (unat (et_total_assets t) + unat (et_virtual_assets t)) \<and>
    deposit_request_state u (RequestKey eid a) = Some Claimed"
proof -
  let ?k = "RequestKey eid a" and ?n = "shares_floor (terms_basis t) (unat (dr_assets r))"
  have inv: "vault_inv s" by (rule reachable_inv [OF assms(1,2)])
  have out: "bt_get (epochs s) eid = Some (Finalized t)" using assms(3) by (simp add: guard_simps)
  note entry = deposit_entry [OF inv assms(4,6)]
  have basis: "terms_ok (eid, Finalized t)" using settled_facts(7) [OF inv bt_get_in_set [OF out]] .
  have cover: "?n \<le> unat (claimable_deposit_shares s)"
    using claim_covered(1) [OF vault_inv_parts(4) [OF inv] entry(1)] out by (simp add: deposit_book_def)
  then have fit: "?n < 2 ^ 128" using unat_below [of "claimable_deposit_shares s"] by simp
  then have price: "shares_for W t (dr_assets r) = Inr (of_nat ?n)" "unat (of_nat ?n :: u128) = ?n"
    using basis by (simp_all add: shares_for_Inr [OF assms(1)] terms_ok_def unat_of_nat_below)
  obtain claimable where c: "share_checked_sub (claimable_deposit_shares s) (of_nat ?n) = Inr claimable"
    using share_checked_sub_ok [of "of_nat ?n" "claimable_deposit_shares s"] cover price(2) by auto
  obtain credited where d: "share_checked_add (acc_shares (account_of s a)) (of_nat ?n) = Inr credited"
      "unat credited = unat (acc_shares (account_of s a)) + ?n"
    using share_checked_add_ok [of "acc_shares (account_of s a)" "of_nat ?n"] cover price(2)
      shares_room [OF inv, of a] by auto
  have "account_of (s\<lparr>claimable_deposit_shares := claimable\<rparr>) a = account_of s a"
    by (simp add: account_of_def)
  moreover have "?n = unat (dr_assets r) * (unat (et_total_supply t) + unat (et_virtual_shares t)) div
        (unat (et_total_assets t) + unat (et_virtual_assets t))"
    by (simp add: shares_floor_def terms_basis_def share_n_def asset_n_def)
  ultimately show ?thesis
    using assms(3-6) out entry(2) price c d inv_wf(1) [OF inv] vault_inv_parts(1) [OF inv]
    by (simp add: claim_deposit_def account_mut_def deposit_request_state_def lifecycle_def)
qed

theorem claim_deposit_pays_witness:
  "\<exists>u. claim_deposit U demo_settled 2 0 = Inr u \<and>
    unat (acc_shares (account_of u 2)) = unat (acc_shares (account_of demo_settled 2)) + 301 * (0 + 1) div (0 + 1) \<and>
    deposit_request_state u (RequestKey 0 2) = Some Claimed"
proof -
  have "finalized_terms demo_settled 0 \<noteq> None" by code_simp
  then obtain t where t: "finalized_terms demo_settled 0 = Some t" by blast
  have "map_option (\<lambda>t. (et_total_supply t, et_virtual_shares t, et_total_assets t, et_virtual_assets t))
      (finalized_terms demo_settled 0) = Some (0, 1, 0, 1)" by code_simp
  then have terms: "et_total_supply t = 0" "et_virtual_shares t = 1" "et_total_assets t = 0"
    "et_virtual_assets t = 1" using t by simp_all
  have r: "bt_get (deposit_requests demo_settled) (RequestKey 0 2) =
      Some \<lparr>dr_assets = 301, dr_cancelled_assets = 0, dr_cancelled = False, dr_claimed = False\<rparr>"
    by code_simp
  show ?thesis
    using claim_deposit_pays [OF u256.wide_uint_axioms demo_reachable(1) t r] by (simp add: terms)
qed

text \<open>C2. Every open redemption claim of a finalized epoch can be claimed, now: it is paid in
  assets from the claim reserve, exactly the floor of its shares at the epoch's fixed price,
  whatever the vault did with its backing since and whatever arrived from outside. Neither the
  reserve can run dry nor the credited balance overflow.\<close>

theorem claim_redeem_pays:
  assumes "wide_uint 256 val W" "reachable W s"
    and "finalized_terms s eid = Some t" "bt_get (redeem_requests s) (RequestKey eid a) = Some r"
    and "\<not> rr_cancelled r" "\<not> rr_claimed r"
  shows "\<exists>u. claim_redeem W s a eid = Inr u \<and>
    unat (acc_assets (account_of u a)) = unat (acc_assets (account_of s a)) +
      unat (rr_shares r) * (unat (et_total_assets t) + unat (et_virtual_assets t)) div
        (unat (et_total_supply t) + unat (et_virtual_shares t)) \<and>
    redeem_request_state u (RequestKey eid a) = Some Claimed"
proof -
  let ?k = "RequestKey eid a" and ?n = "assets_floor (terms_basis t) (unat (rr_shares r))"
  have inv: "vault_inv s" by (rule reachable_inv [OF assms(1,2)])
  have out: "bt_get (epochs s) eid = Some (Finalized t)" using assms(3) by (simp add: guard_simps)
  note entry = redeem_entry [OF inv assms(4,6)]
  have basis: "terms_ok (eid, Finalized t)" using settled_facts(7) [OF inv bt_get_in_set [OF out]] .
  have cover: "?n \<le> unat (claim_reserve (buckets s))"
    using claim_covered(1) [OF vault_inv_parts(5) [OF inv] entry(1)] out by (simp add: redeem_book_def)
  then have fit: "?n < 2 ^ 128" using unat_below [of "claim_reserve (buckets s)"] by simp
  then have price: "assets_for W t (rr_shares r) = Inr (of_nat ?n)" "unat (of_nat ?n :: u128) = ?n"
    using basis by (simp_all add: assets_for_Inr [OF assms(1)] terms_ok_def unat_of_nat_below)
  obtain reserve where c: "asset_checked_sub (claim_reserve (buckets s)) (of_nat ?n) = Inr reserve"
    using asset_checked_sub_ok [of "of_nat ?n" "claim_reserve (buckets s)"] cover price(2) by auto
  obtain credited where d: "asset_checked_add (acc_assets (account_of s a)) (of_nat ?n) = Inr credited"
      "unat credited = unat (acc_assets (account_of s a)) + ?n"
    using asset_checked_add_ok [of "acc_assets (account_of s a)" "of_nat ?n"] cover price(2)
      assets_room [OF inv reachable_inflow [OF assms(1,2)], of a] by auto
  have "account_of (s\<lparr>buckets := (buckets s)\<lparr>claim_reserve := reserve\<rparr>\<rparr>) a = account_of s a"
    by (simp add: account_of_def)
  moreover have "?n = unat (rr_shares r) * (unat (et_total_assets t) + unat (et_virtual_assets t)) div
        (unat (et_total_supply t) + unat (et_virtual_shares t))"
    by (simp add: assets_floor_def terms_basis_def share_n_def asset_n_def)
  ultimately show ?thesis
    using assms(3-6) out entry(2) price c d inv_wf(2) [OF inv] vault_inv_parts(1) [OF inv]
    by (simp add: claim_redeem_def account_mut_def redeem_request_state_def lifecycle_def)
qed

theorem claim_redeem_pays_witness:
  "\<exists>u. claim_redeem U demo_redeemed 1 1 = Inr u \<and>
    unat (acc_assets (account_of u 1)) = unat (acc_assets (account_of demo_redeemed 1)) + 100 * (901 + 1) div (901 + 1) \<and>
    redeem_request_state u (RequestKey 1 1) = Some Claimed"
proof -
  have "finalized_terms demo_redeemed 1 \<noteq> None" by code_simp
  then obtain t where t: "finalized_terms demo_redeemed 1 = Some t" by blast
  have "map_option (\<lambda>t. (et_total_supply t, et_virtual_shares t, et_total_assets t, et_virtual_assets t))
      (finalized_terms demo_redeemed 1) = Some (901, 1, 901, 1)" by code_simp
  then have terms: "et_total_supply t = 901" "et_virtual_shares t = 1" "et_total_assets t = 901"
    "et_virtual_assets t = 1" using t by simp_all
  have r: "bt_get (redeem_requests demo_redeemed) (RequestKey 1 1) =
      Some \<lparr>rr_shares = 100, rr_cancelled_shares = 0, rr_cancelled = False, rr_claimed = False\<rparr>"
    by code_simp
  show ?thesis
    using claim_redeem_pays [OF u256.wide_uint_axioms demo_reachable(2) t r] by (simp add: terms)
qed

text \<open>After an abort every open request of the epoch is refunded in full, deposits in assets
  and redemptions in shares.\<close>

theorem refunds_pay_in_full:
  assumes "wide_uint 256 val W" "reachable W s" "aborted_terms_of s eid \<noteq> None"
  shows "(\<forall>a r. bt_get (deposit_requests s) (RequestKey eid a) = Some r \<and> \<not> dr_cancelled r \<and> \<not> dr_claimed r \<longrightarrow>
      (\<exists>u. claim_aborted_deposit s a eid = Inr u \<and>
        unat (acc_assets (account_of u a)) = unat (acc_assets (account_of s a)) + unat (dr_assets r))) \<and>
    (\<forall>a r. bt_get (redeem_requests s) (RequestKey eid a) = Some r \<and> \<not> rr_cancelled r \<and> \<not> rr_claimed r \<longrightarrow>
      (\<exists>u. claim_aborted_redeem s a eid = Inr u \<and>
        unat (acc_shares (account_of u a)) = unat (acc_shares (account_of s a)) + unat (rr_shares r)))"
proof -
  have inv: "vault_inv s" by (rule reachable_inv [OF assms(1,2)])
  obtain t where out: "bt_get (epochs s) eid = Some (Aborted t)"
    using assms(3) by (auto simp: guard_simps)
  have dep: "\<exists>u. claim_aborted_deposit s a eid = Inr u \<and>
        unat (acc_assets (account_of u a)) = unat (acc_assets (account_of s a)) + unat (dr_assets r)"
    if r: "bt_get (deposit_requests s) (RequestKey eid a) = Some r" "\<not> dr_cancelled r" "\<not> dr_claimed r" for a r
  proof -
    note entry = deposit_entry [OF inv r(1,3)]
    have cover: "unat (dr_assets r) \<le> unat (pending_deposit_escrow (buckets s))"
      using claim_covered(2) [OF vault_inv_parts(4) [OF inv] entry(1)] out by (simp add: deposit_book_def)
    obtain escrow where "asset_checked_sub (pending_deposit_escrow (buckets s)) (dr_assets r) = Inr escrow"
      using asset_checked_sub_ok [OF cover] by blast
    moreover obtain n where "asset_checked_add (acc_assets (account_of s a)) (dr_assets r) = Inr n"
        "unat n = unat (acc_assets (account_of s a)) + unat (dr_assets r)"
      using asset_checked_add_ok [of "acc_assets (account_of s a)" "dr_assets r"] cover
        assets_room [OF inv reachable_inflow [OF assms(1,2)], of a] by auto
    moreover have "account_of (s\<lparr>buckets := (buckets s)\<lparr>pending_deposit_escrow := escrow\<rparr>\<rparr>) a = account_of s a" for escrow
      by (simp add: account_of_def)
    ultimately show ?thesis
      using assms(3) r entry(2) inv_wf(1) [OF inv] vault_inv_parts(1) [OF inv]
      by (simp add: claim_aborted_deposit_def account_mut_def)
  qed
  have red: "\<exists>u. claim_aborted_redeem s a eid = Inr u \<and>
        unat (acc_shares (account_of u a)) = unat (acc_shares (account_of s a)) + unat (rr_shares r)"
    if r: "bt_get (redeem_requests s) (RequestKey eid a) = Some r" "\<not> rr_cancelled r" "\<not> rr_claimed r" for a r
  proof -
    note entry = redeem_entry [OF inv r(1,3)]
    have cover: "unat (rr_shares r) \<le> unat (escrowed_redeem_shares s)"
      using claim_covered(2) [OF vault_inv_parts(5) [OF inv] entry(1)] out by (simp add: redeem_book_def)
    obtain escrow where "share_checked_sub (escrowed_redeem_shares s) (rr_shares r) = Inr escrow"
      using share_checked_sub_ok [OF cover] by blast
    moreover obtain n where "share_checked_add (acc_shares (account_of s a)) (rr_shares r) = Inr n"
        "unat n = unat (acc_shares (account_of s a)) + unat (rr_shares r)"
      using share_checked_add_ok [of "acc_shares (account_of s a)" "rr_shares r"] cover
        shares_room [OF inv, of a] by auto
    moreover have "account_of (s\<lparr>escrowed_redeem_shares := escrow\<rparr>) a = account_of s a" for escrow
      by (simp add: account_of_def)
    ultimately show ?thesis
      using assms(3) r entry(2) inv_wf(2) [OF inv] vault_inv_parts(1) [OF inv]
      by (simp add: claim_aborted_redeem_def account_mut_def)
  qed
  show ?thesis using dep red by blast
qed

theorem refunds_pay_in_full_witness:
  "\<exists>u. claim_aborted_deposit demo_aborted 2 1 = Inr u \<and>
     unat (acc_assets (account_of u 2)) = unat (acc_assets (account_of demo_aborted 2)) + unat (50 :: u128)"
proof -
  have ab: "aborted_terms_of demo_aborted 1 \<noteq> None" by code_simp
  have "bt_get (deposit_requests demo_aborted) (RequestKey 1 2) =
      Some \<lparr>dr_assets = 50, dr_cancelled_assets = 0, dr_cancelled = False, dr_claimed = False\<rparr>"
    by code_simp
  with refunds_pay_in_full [OF u256.wide_uint_axioms demo_reachable(3) ab] show ?thesis by fastforce
qed

definition dep_consumed :: "state \<Rightarrow> request_key \<Rightarrow> bool" where
  "dep_consumed s k \<longleftrightarrow>
     (\<exists>r. bt_get (deposit_requests s) k = Some r \<and> dr_claimed r \<and> \<not> dr_cancelled r)"

definition red_consumed :: "state \<Rightarrow> request_key \<Rightarrow> bool" where
  "red_consumed s k \<longleftrightarrow>
     (\<exists>r. bt_get (redeem_requests s) k = Some r \<and> rr_claimed r \<and> \<not> rr_cancelled r)"

lemma claim_consumes:
  assumes "vault_inv s"
  shows "claim_deposit W s a eid = Inr t \<Longrightarrow> (\<exists>x. bt_get (epochs t) eid = Some (Finalized x)) \<and> dep_consumed t (RequestKey eid a)"
    "claim_redeem W s a eid = Inr t \<Longrightarrow> (\<exists>x. bt_get (epochs t) eid = Some (Finalized x)) \<and> red_consumed t (RequestKey eid a)"
    "claim_aborted_deposit s a eid = Inr t \<Longrightarrow> (\<exists>x. bt_get (epochs t) eid = Some (Aborted x)) \<and> dep_consumed t (RequestKey eid a)"
    "claim_aborted_redeem s a eid = Inr t \<Longrightarrow> (\<exists>x. bt_get (epochs t) eid = Some (Aborted x)) \<and> red_consumed t (RequestKey eid a)"
proof -
  note wf = inv_wf [OF assms]
  show "claim_deposit W s a eid = Inr t \<Longrightarrow> (\<exists>x. bt_get (epochs t) eid = Some (Finalized x)) \<and> dep_consumed t (RequestKey eid a)"
    using wf by (elim claim_deposit_Inr) (simp add: dep_consumed_def)
  show "claim_redeem W s a eid = Inr t \<Longrightarrow> (\<exists>x. bt_get (epochs t) eid = Some (Finalized x)) \<and> red_consumed t (RequestKey eid a)"
    using wf by (elim claim_redeem_Inr) (simp add: red_consumed_def)
  show "claim_aborted_deposit s a eid = Inr t \<Longrightarrow> (\<exists>x. bt_get (epochs t) eid = Some (Aborted x)) \<and> dep_consumed t (RequestKey eid a)"
    using wf by (elim claim_aborted_deposit_Inr) (simp add: dep_consumed_def)
  show "claim_aborted_redeem s a eid = Inr t \<Longrightarrow> (\<exists>x. bt_get (epochs t) eid = Some (Aborted x)) \<and> red_consumed t (RequestKey eid a)"
    using wf by (elim claim_aborted_redeem_Inr) (simp add: red_consumed_def)
qed

lemma consumed_refused:
  "bt_get (epochs u) eid = Some (Finalized x) \<Longrightarrow> dep_consumed u (RequestKey eid a) \<Longrightarrow>
     claim_deposit W u a eid = Inl ClaimAlreadyConsumed"
  "bt_get (epochs u) eid = Some (Finalized x) \<Longrightarrow> red_consumed u (RequestKey eid a) \<Longrightarrow>
     claim_redeem W u a eid = Inl ClaimAlreadyConsumed"
  "bt_get (epochs u) eid = Some (Aborted y) \<Longrightarrow> dep_consumed u (RequestKey eid a) \<Longrightarrow>
     claim_aborted_deposit u a eid = Inl ClaimAlreadyConsumed"
  "bt_get (epochs u) eid = Some (Aborted y) \<Longrightarrow> red_consumed u (RequestKey eid a) \<Longrightarrow>
     claim_aborted_redeem u a eid = Inl ClaimAlreadyConsumed"
  by (auto simp: dep_consumed_def red_consumed_def claim_deposit_def claim_redeem_def
      claim_aborted_deposit_def claim_aborted_redeem_def finalized_terms_def aborted_terms_of_def)

lemma keeps_consumed:
  assumes "keeps s t"
  shows "bt_get (epochs s) e = Some o' \<Longrightarrow> bt_get (epochs t) e = Some o'"
    "dep_consumed s k \<Longrightarrow> dep_consumed t k" "red_consumed s k \<Longrightarrow> red_consumed t k"
  using assms by (auto simp: keeps_def dep_consumed_def red_consumed_def)

text \<open>C4. A claim is consumed once. After a deposit claim, a redemption claim or a refund was
  accepted, the same claim is refused as already consumed in every later state, whatever
  operations ran in between.\<close>

theorem claims_consumed_once:
  assumes "wide_uint 256 val W" "reachable W s"
  shows "(claim_deposit W s a eid = Inr t \<longrightarrow>
      claim_deposit W (run W t ops) a eid = Inl ClaimAlreadyConsumed) \<and>
    (claim_redeem W s a eid = Inr t \<longrightarrow>
      claim_redeem W (run W t ops) a eid = Inl ClaimAlreadyConsumed) \<and>
    (claim_aborted_deposit s a eid = Inr t \<longrightarrow>
      claim_aborted_deposit (run W t ops) a eid = Inl ClaimAlreadyConsumed) \<and>
    (claim_aborted_redeem s a eid = Inr t \<longrightarrow>
      claim_aborted_redeem (run W t ops) a eid = Inl ClaimAlreadyConsumed)"
proof -
  let ?u = "run W t ops"
  have inv: "vault_inv s" by (rule reachable_inv [OF assms])
  have later: "keeps t ?u" if "apply_op W s op = Inr t" for op
    using run_keeps [OF assms(1) apply_op_inv [OF assms(1) inv that]] by blast
  have "claim_deposit W ?u a eid = Inl ClaimAlreadyConsumed" if "claim_deposit W s a eid = Inr t"
    using claim_consumes(1) [OF inv that] later [of "ClaimDeposit a eid"] that
    by (auto intro!: consumed_refused(1) elim: keeps_consumed)
  moreover have "claim_redeem W ?u a eid = Inl ClaimAlreadyConsumed" if "claim_redeem W s a eid = Inr t"
    using claim_consumes(2) [OF inv that] later [of "ClaimRedeem a eid"] that
    by (auto intro!: consumed_refused(2) elim: keeps_consumed)
  moreover have "claim_aborted_deposit ?u a eid = Inl ClaimAlreadyConsumed" if "claim_aborted_deposit s a eid = Inr t"
    using claim_consumes(3) [OF inv that] later [of "ClaimAbortedDeposit a eid"] that
    by (auto intro!: consumed_refused(3) elim: keeps_consumed)
  moreover have "claim_aborted_redeem ?u a eid = Inl ClaimAlreadyConsumed" if "claim_aborted_redeem s a eid = Inr t"
    using claim_consumes(4) [OF inv that] later [of "ClaimAbortedRedeem a eid"] that
    by (auto intro!: consumed_refused(4) elim: keeps_consumed)
  ultimately show ?thesis by blast
qed

theorem claims_consumed_once_witness:
  "claim_deposit U demo_settled 2 0 = Inr (projr (claim_deposit U demo_settled 2 0)) \<and>
   claim_deposit U (run U (projr (claim_deposit U demo_settled 2 0)) [OpenNextEpoch 1100, Freeze 90, AbortEpoch 90]) 2 0 =
     Inl ClaimAlreadyConsumed"
proof -
  have ok: "claim_deposit U demo_settled 2 0 = Inr (projr (claim_deposit U demo_settled 2 0))"
    by (rule is_ok_projr) code_simp
  then show ?thesis
    using claims_consumed_once [OF u256.wide_uint_axioms demo_reachable(1)] by blast
qed

end
