(* ===== verification/Vault_Checks_Props.thy ===== *)
theory Vault_Checks_Props
  imports Vault_Props
begin

text \<open>
  Properties that tie the stored state to the functions that recompute it: outstanding
  claims, measured dust, the accounting checks and the share price.
\<close>

section \<open>Outstanding claims\<close>

lemma outstanding_loops:
  assumes W: "wide_uint 256 val W" and inv: "vault_inv s"
  shows "\<exists>x. outstanding_redeem_assets W s = Inr x \<and> unat x \<le> unat (claim_reserve (buckets s))"
    "\<exists>x. outstanding_deposit_shares W s = Inr x \<and> unat x \<le> unat (claimable_deposit_shares s)"
proof -
  let ?r = "\<lambda>p. case snd p of Finalized t \<Rightarrow> bk_unclaimed (redeem_book s) (fst p) (assets_floor (terms_basis t)) | Aborted _ \<Rightarrow> 0"
  let ?d = "\<lambda>p. case snd p of Finalized t \<Rightarrow> bk_unclaimed (deposit_book s) (fst p) (shares_floor (terms_basis t)) | Aborted _ \<Rightarrow> 0"
  have "sum_list (map ?r (epochs s)) \<le> sum_list (map (\<lambda>p. owed_pot (redeem_book s) (fst p, red_outcome (snd p))) (epochs s))"
    by (intro sum_list_mono) (simp add: owed_pot_def split: epoch_outcome.split)
  also have "\<dots> = unat (claim_reserve (buckets s))"
    using vault_inv_parts(5) [OF inv]
    by (simp add: book_ok_def redeem_book_def comp_def map_prod_def case_prod_beta)
  finally have r: "sum_list (map ?r (epochs s)) \<le> unat (claim_reserve (buckets s))" .
  have "sum_list (map ?d (epochs s)) \<le> sum_list (map (\<lambda>p. owed_pot (deposit_book s) (fst p, dep_outcome (snd p))) (epochs s))"
    by (intro sum_list_mono) (simp add: owed_pot_def split: epoch_outcome.split)
  also have "\<dots> = unat (claimable_deposit_shares s)"
    using vault_inv_parts(4) [OF inv]
    by (simp add: book_ok_def deposit_book_def comp_def map_prod_def case_prod_beta)
  finally have d: "sum_list (map ?d (epochs s)) \<le> unat (claimable_deposit_shares s)" .
  let ?rb = "\<lambda>(id, outcome) (total :: u128). case outcome_finalized outcome of None \<Rightarrow> Inr total
       | Some t \<Rightarrow> and_then (entitlements_of W s id t) (\<lambda>owed. asset_checked_add total (ent_unclaimed_redeem_assets owed))"
  let ?db = "\<lambda>(id, outcome) (total :: u128). case outcome_finalized outcome of None \<Rightarrow> Inr total
       | Some t \<Rightarrow> and_then (entitlements_of W s id t) (\<lambda>owed. share_checked_add total (ent_unclaimed_deposit_shares owed))"
  have rstep: "\<exists>t'. ?rb p t = Inr t' \<and> unat t' = unat t + ?r p"
    if p: "p \<in> set (epochs s)" "unat t + ?r p < 2 ^ 128" for p and t :: u128
  proof (cases "snd p")
    case (Finalized x)
    then have e: "(fst p, Finalized x) \<in> set (epochs s)" using p(1) by (metis prod.collapse)
    from entitlements_exact [OF W inv e] obtain owed where
      "entitlements_of W s (fst p) x = Inr owed" "unat (ent_unclaimed_redeem_assets owed) = ?r p"
      using Finalized by auto
    then show ?thesis
      using p(2) Finalized asset_checked_add_ok [of t "ent_unclaimed_redeem_assets owed"] by (simp add: case_prod_beta)
  qed (simp add: case_prod_beta)
  have dstep: "\<exists>t'. ?db p t = Inr t' \<and> unat t' = unat t + ?d p"
    if p: "p \<in> set (epochs s)" "unat t + ?d p < 2 ^ 128" for p and t :: u128
  proof (cases "snd p")
    case (Finalized x)
    then have e: "(fst p, Finalized x) \<in> set (epochs s)" using p(1) by (metis prod.collapse)
    from entitlements_exact [OF W inv e] obtain owed where
      "entitlements_of W s (fst p) x = Inr owed" "unat (ent_unclaimed_deposit_shares owed) = ?d p"
      using Finalized by auto
    then show ?thesis
      using p(2) Finalized share_checked_add_ok [of t "ent_unclaimed_deposit_shares owed"] by (simp add: case_prod_beta)
  qed (simp add: case_prod_beta)
  have "\<exists>x. for_each ?rb (epochs s) 0 = Inr x \<and> unat x = unat (0 :: u128) + sum_list (map ?r (epochs s))"
    using r unat_below [of "claim_reserve (buckets s)"] by (intro for_each_sum rstep) simp_all
  then show "\<exists>x. outstanding_redeem_assets W s = Inr x \<and> unat x \<le> unat (claim_reserve (buckets s))"
    using r unfolding outstanding_redeem_assets_def by auto
  have "\<exists>x. for_each ?db (epochs s) 0 = Inr x \<and> unat x = unat (0 :: u128) + sum_list (map ?d (epochs s))"
    using d unat_below [of "claimable_deposit_shares s"] by (intro for_each_sum dstep) simp_all
  then show "\<exists>x. outstanding_deposit_shares W s = Inr x \<and> unat x \<le> unat (claimable_deposit_shares s)"
    using d unfolding outstanding_deposit_shares_def by auto
qed

lemma refund_loops:
  assumes inv: "vault_inv s"
  shows "\<exists>x. outstanding_refund_assets s = Inr x \<and>
      unat (pending_deposit_escrow (buckets s)) = current_amount (deposit_book s) + unat x"
    "\<exists>x. outstanding_refund_shares s = Inr x \<and>
      unat (escrowed_redeem_shares s) = current_amount (redeem_book s) + unat x"
proof -
  let ?d = "\<lambda>p. owed_escrow (deposit_book s) (fst p, dep_outcome (snd p))"
  let ?r = "\<lambda>p. owed_escrow (redeem_book s) (fst p, red_outcome (snd p))"
  have d: "unat (pending_deposit_escrow (buckets s)) =
      current_amount (deposit_book s) + sum_list (map ?d (epochs s))"
    using vault_inv_parts(4) [OF inv]
    by (simp add: book_ok_def deposit_book_def comp_def map_prod_def case_prod_beta)
  have r: "unat (escrowed_redeem_shares s) = current_amount (redeem_book s) + sum_list (map ?r (epochs s))"
    using vault_inv_parts(5) [OF inv]
    by (simp add: book_ok_def redeem_book_def comp_def map_prod_def case_prod_beta)
  let ?db = "\<lambda>(id, outcome) (total :: u128). if outcome_aborted outcome = None then Inr total
       else and_then (request_totals_of s id) (\<lambda>t. asset_checked_add total (rt_unclaimed_deposit_assets t))"
  let ?rb = "\<lambda>(id, outcome) (total :: u128). if outcome_aborted outcome = None then Inr total
       else and_then (request_totals_of s id) (\<lambda>t. share_checked_add total (rt_unclaimed_redeem_shares t))"
  have totals: "\<exists>t. request_totals_of s (fst p) = Inr t \<and>
      unat (rt_unclaimed_deposit_assets t) = ?d p \<and> unat (rt_unclaimed_redeem_shares t) = ?r p"
    if "p \<in> set (epochs s)" "snd p = Aborted x" for p x
  proof -
    have "(fst p, Aborted x) \<in> set (epochs s)" using that by (metis prod.collapse)
    note facts = aborted_facts [OF inv this]
    show ?thesis
      using request_totals_exact [OF inv, of "fst p"] facts that(2)
        unat_below [of "refund_assets x"] unat_below [of "refund_shares x"]
      by (auto simp: owed_escrow_def)
  qed
  have dstep: "\<exists>t'. ?db p t = Inr t' \<and> unat t' = unat t + ?d p"
    if p: "p \<in> set (epochs s)" "unat t + ?d p < 2 ^ 128" for p and t :: u128
  proof (cases "snd p")
    case (Aborted x)
    from totals [OF p(1) Aborted] obtain y where
      "request_totals_of s (fst p) = Inr y" "unat (rt_unclaimed_deposit_assets y) = ?d p" by blast
    then show ?thesis
      using p(2) Aborted asset_checked_add_ok [of t "rt_unclaimed_deposit_assets y"] by (simp add: case_prod_beta)
  qed (simp add: case_prod_beta owed_escrow_def)
  have rstep: "\<exists>t'. ?rb p t = Inr t' \<and> unat t' = unat t + ?r p"
    if p: "p \<in> set (epochs s)" "unat t + ?r p < 2 ^ 128" for p and t :: u128
  proof (cases "snd p")
    case (Aborted x)
    from totals [OF p(1) Aborted] obtain y where
      "request_totals_of s (fst p) = Inr y" "unat (rt_unclaimed_redeem_shares y) = ?r p" by blast
    then show ?thesis
      using p(2) Aborted share_checked_add_ok [of t "rt_unclaimed_redeem_shares y"] by (simp add: case_prod_beta)
  qed (simp add: case_prod_beta owed_escrow_def)
  have "\<exists>x. for_each ?db (epochs s) 0 = Inr x \<and> unat x = unat (0 :: u128) + sum_list (map ?d (epochs s))"
    using d unat_below [of "pending_deposit_escrow (buckets s)"] by (intro for_each_sum dstep) simp_all
  then show "\<exists>x. outstanding_refund_assets s = Inr x \<and>
      unat (pending_deposit_escrow (buckets s)) = current_amount (deposit_book s) + unat x"
    using d unfolding outstanding_refund_assets_def by auto
  have "\<exists>x. for_each ?rb (epochs s) 0 = Inr x \<and> unat x = unat (0 :: u128) + sum_list (map ?r (epochs s))"
    using r unat_below [of "escrowed_redeem_shares s"] by (intro for_each_sum rstep) simp_all
  then show "\<exists>x. outstanding_refund_shares s = Inr x \<and>
      unat (escrowed_redeem_shares s) = current_amount (redeem_book s) + unat x"
    using r unfolding outstanding_refund_shares_def by auto
qed

text \<open>C17. What the vault owes is covered by what it holds for it: the outstanding redemption
  claims by the claim reserve, the outstanding deposit claims by the unclaimed minted shares,
  and escrow is exactly the current epoch's aggregate plus the outstanding refunds. All four
  totals are computed without overflow.\<close>

theorem outstanding_claims_covered:
  assumes "wide_uint 256 val W" "reachable W s"
  shows "\<exists>assets shares refund_a refund_s.
    outstanding_redeem_assets W s = Inr assets \<and> unat assets \<le> unat (claim_reserve (buckets s)) \<and>
    outstanding_deposit_shares W s = Inr shares \<and> unat shares \<le> unat (claimable_deposit_shares s) \<and>
    outstanding_refund_assets s = Inr refund_a \<and> unat (pending_deposit_escrow (buckets s)) =
      (case epoch s of None \<Rightarrow> 0 | Some e \<Rightarrow> unat (pending_deposit_assets e)) + unat refund_a \<and>
    outstanding_refund_shares s = Inr refund_s \<and> unat (escrowed_redeem_shares s) =
      (case epoch s of None \<Rightarrow> 0 | Some e \<Rightarrow> unat (pending_redeem_shares e)) + unat refund_s"
proof -
  have inv: "vault_inv s" by (rule reachable_inv [OF assms])
  have "current_amount (deposit_book s) = (case epoch s of None \<Rightarrow> 0 | Some e \<Rightarrow> unat (pending_deposit_assets e))"
    "current_amount (redeem_book s) = (case epoch s of None \<Rightarrow> 0 | Some e \<Rightarrow> unat (pending_redeem_shares e))"
    by (simp_all add: current_amount_def book_defs split: option.split)
  then show ?thesis
    using outstanding_loops [OF assms(1) inv] refund_loops [OF inv] by auto
qed

theorem outstanding_claims_covered_witness:
  "outstanding_redeem_assets U demo_redeemed = Inr 100 \<and>
   unat (100 :: u128) \<le> unat (claim_reserve (buckets demo_redeemed))"
proof -
  have "outstanding_redeem_assets U demo_redeemed = Inr 100" by code_simp
  with outstanding_claims_covered [OF u256.wide_uint_axioms demo_reachable(2)] show ?thesis by auto
qed

section \<open>Dust\<close>

text \<open>Rounding loses less than one unit per request: for every finalized epoch the code's
  own recount of entitlements and requests succeeds, the recorded dust is exactly the
  aggregate minus the entitlements, and it is below the number of active requests.\<close>

theorem settlement_dust_exact:
  assumes "wide_uint 256 val W" "reachable W s" "finalized_terms s eid = Some t"
  shows "\<exists>owed totals. entitlements_of W s eid t = Inr owed \<and> request_totals_of s eid = Inr totals \<and>
    unat (et_minted_shares t) = unat (ent_deposit_shares owed) + unat (et_deposit_dust t) \<and>
    unat (et_redeem_assets t) = unat (ent_redeem_assets owed) + unat (et_redeem_dust t) \<and>
    unat (et_deposit_dust t) \<le> unat (rt_deposit_count totals) - 1 \<and>
    unat (et_redeem_dust t) \<le> unat (rt_redeem_count totals) - 1"
proof -
  have inv: "vault_inv s" by (rule reachable_inv [OF assms(1,2)])
  have e: "(eid, Finalized t) \<in> set (epochs s)"
    using assms(3) by (simp add: guard_simps bt_get_in_set)
  note facts = settled_facts [OF inv e]
  show ?thesis
    using entitlements_exact [OF assms(1) inv e] request_totals_exact [OF inv, of eid] facts(1,3,4,6)
      dust_bound [OF inv e] unat_below [of "et_deposit_assets t"] unat_below [of "et_redeem_shares t"]
    by auto
qed

theorem settlement_dust_exact_witness:
  "\<exists>t owed. finalized_terms demo_settled 0 = Some t \<and> entitlements_of U demo_settled 0 t = Inr owed \<and>
     unat (et_minted_shares t) = unat (ent_deposit_shares owed) + unat (et_deposit_dust t)"
proof -
  have "finalized_terms demo_settled 0 \<noteq> None" by code_simp
  then obtain t where t: "finalized_terms demo_settled 0 = Some t" by blast
  with settlement_dust_exact [OF u256.wide_uint_axioms demo_reachable(1) t] show ?thesis by blast
qed

section \<open>The accounting checks\<close>

text \<open>C5. What \<open>check_invariants\<close> returns on every reachable state: an arithmetic failure, when
  the issued assets or the sum of the buckets do not fit 128 bits, which only assets from outside
  can cause; and otherwise exactly what its price check returns: conservation, NAV composition,
  burned shares, request flags, escrow backing, claim backing with its dust bounds and finalized
  terms never report a violation.\<close>

theorem check_invariants_only_price:
  assumes "wide_uint 256 val W" "reachable W s"
  shows "check_invariants W V s =
    (if unat (initial_asset_supply s) + unat (external_inflow s) < 2 ^ 128 \<and> bucket_sum (buckets s) < 2 ^ 128
     then check_price_never_falls V s else Inl (ArithmeticFailure ArithmeticOverflow))"
  using check_invariants_result [OF assms(1) reachable_inv [OF assms] reachable_inflow [OF assms], of V]
  by (simp add: totals_fit_def issued_fits_def)

text \<open>Almost as much as 128 bits hold arrives from outside a new vault.\<close>

definition demo_flooded :: state where
  "demo_flooded = run U demo_start [ObserveInbound (- 1000)]"

lemma totals_fit_code [code]:
  "totals_fit s \<longleftrightarrow> uint (initial_asset_supply s) + uint (external_inflow s) < 2 ^ 128 \<and>
     (let b = buckets s in
      uint (pending_deposit_escrow b) + uint (idle_backing b) + uint (claim_reserve b) +
      uint (unattributed_balance b) + uint (unattributed_inbound b) + uint (outbound_in_transit b) +
      uint (accepted_remote_value b) + uint (inbound_in_transit b) < 2 ^ 128)"
proof -
  have "int (unat (initial_asset_supply s) + unat (external_inflow s)) < int (2 ^ 128) \<and>
      int (bucket_sum (buckets s)) < int (2 ^ 128) \<longleftrightarrow> totals_fit s"
    unfolding totals_fit_def issued_fits_def of_nat_less_iff by (rule refl)
  then show ?thesis by (simp add: bucket_sum_def Let_def)
qed

theorem check_invariants_only_price_witness:
  "check_invariants U U2 demo_recalling = check_price_never_falls U2 demo_recalling \<and>
   check_invariants U U2 demo_flooded = Inl (ArithmeticFailure ArithmeticOverflow)"
proof
  have "totals_fit demo_recalling" by code_simp
  then show "check_invariants U U2 demo_recalling = check_price_never_falls U2 demo_recalling"
    using check_invariants_only_price [OF u256.wide_uint_axioms demo_reachable(6), of U2]
    by (simp add: totals_fit_def issued_fits_def)
  have "\<not> totals_fit demo_flooded" by code_simp
  have "reachable U demo_flooded"
    unfolding demo_flooded_def by (intro run_reachable demo_start_reachable)
  from check_invariants_only_price [OF u256.wide_uint_axioms this, of U2]
  show "check_invariants U U2 demo_flooded = Inl (ArithmeticFailure ArithmeticOverflow)"
    using \<open>\<not> totals_fit demo_flooded\<close> by (auto simp: totals_fit_def issued_fits_def)
qed

text \<open>As long as no capital has been allocated to the remote leg, every check passes, the
  price check included: the prices of the finalized epochs never fall.\<close>

theorem check_invariants_before_allocation:
  assumes "wide_uint 256 val W" "wide_uint 512 val' V" "reachable_local W s" "totals_fit s"
  shows "check_invariants W V s = Inr ()"
  using check_invariants_result [OF assms(1) reachable_inv [OF assms(1) reachable_local_reachable [OF assms(3)]]
      reachable_inflow [OF assms(1) reachable_local_reachable [OF assms(3)]], of V]
    price_check_passes [OF assms(2) local_rise [OF assms(1,3)]] assms(4) by simp

fun run_local :: "operation list \<Rightarrow> bool" where
  "run_local [] = True"
| "run_local (BeginAllocate _ _ _ # _) = False"
| "run_local (_ # ops) = run_local ops"

lemma run_reachable_local: "reachable_local W s \<Longrightarrow> run_local ops \<Longrightarrow> reachable_local W (run W s ops)"
proof (induction ops arbitrary: s)
  case (Cons op ops)
  have "run_local ops" using Cons.prems(2) by (cases op) simp_all
  moreover have "op \<noteq> BeginAllocate a t n" for a t n using Cons.prems(2) by auto
  ultimately show ?case
    using Cons.IH Cons.prems(1) reachable_local.step [OF Cons.prems(1)] by (cases "apply_op W s op") simp_all
qed simp

theorem check_invariants_before_allocation_witness: "check_invariants U U2 demo_redeemed = Inr ()"
proof -
  have "reachable_local U demo_redeemed"
    unfolding demo_redeemed_def demo_settled_def
    by (intro run_reachable_local reachable_local.genesis [OF demo_start_new]) simp_all
  moreover have "totals_fit demo_redeemed" by code_simp
  ultimately show ?thesis by (rule check_invariants_before_allocation [OF demo_wide])
qed

text \<open>The price check does not know every way the price can fall: a remote valuation below the
  accepted value, reported with no realized loss, lowers the net asset value of the next
  settlement while every loss counter stays zero.\<close>

definition demo_devalued :: state where
  "demo_devalued =
     run U demo_settled [OpenNextEpoch 1100, BeginAllocate 90 5 400, CompleteAllocation 5 400,
       ApplyRemoteValuation 100 0, CutoffEpoch 1200, LockRemoteValuation, FinalizeEpoch]"

text \<open>C35. A reachable state on which the price check reports a violation although no
  loss, no impairment and no rejected operation was involved: a remote valuation of 100 for
  400 allocated, with no realized loss, between two settlements.\<close>

theorem price_check_reports_unrealized_loss:
  "\<exists>s. reachable U s \<and> recognized_loss s = 0 \<and> inbound_cumulative_loss s = 0 \<and>
     cumulative_impairment s = 0 \<and> check_invariants U U2 s = Inl PriceDecreased"
proof -
  have "reachable U demo_devalued"
    unfolding demo_devalued_def by (intro run_reachable demo_reachable)
  moreover have "recognized_loss demo_devalued = 0 \<and> inbound_cumulative_loss demo_devalued = 0 \<and>
     cumulative_impairment demo_devalued = 0"
    by code_simp
  moreover have "check_invariants U U2 demo_devalued = Inl PriceDecreased"
    by code_simp
  ultimately show ?thesis by blast
qed

section \<open>Price\<close>

text \<open>C6. A settlement at the vault's own net asset value never lowers the share price: on every
  reachable state whose epoch is finalized, with the locked valuation equal to that value if there
  is remote exposure, the price after finalization, at the same virtual amounts, is at least the
  price the epoch was settled at, as decided by the code's own comparison.\<close>

theorem settlement_never_lowers_price:
  assumes "wide_uint 256 val W" "wide_uint 512 val' V" "reachable W s"
    and "epoch s = Some e" "finalize_epoch W s = Inr t"
    and "has_remote_exposure s \<longrightarrow> bt_get (epoch_valuation_locked s) (ep_id e) = Some (managed_nav s)"
  shows "price_is_non_decreasing V (pre_settlement_basis s e) (pre_settlement_basis t e) = Inr True"
proof -
  have inv: "vault_inv s" by (rule reachable_inv [OF assms(1,3)])
  have inv': "vault_inv t" by (rule finalize_epoch_inv [OF assms(1) inv assms(5)])
  from finalize_price [OF assms(1,5)] obtain e' b where
    e': "epoch s = Some e'" and b: "settlement_basis s e' b" and frame: "remote_frame s t"
    and raise: "\<And>x. pb_total_assets b = managed_nav s \<Longrightarrow>
      unat (managed_nav s) = unat (idle_backing (buckets s)) + x \<Longrightarrow>
      unat (managed_nav t) = unat (idle_backing (buckets t)) + x \<Longrightarrow>
      price_le b \<lparr>pb_total_assets = managed_nav t, pb_total_supply = total_share_supply t,
        pb_virtual_assets = pb_virtual_assets b, pb_virtual_shares = pb_virtual_shares b\<rparr>"
    by metis
  have b: "b = pre_settlement_basis s e"
    using b e' assms(4,6) by (auto simp: settlement_basis_def pre_settlement_basis_def split: if_splits)
  have held: "inflow_held s" by (rule reachable_inflow [OF assms(1,3)])
  have "inflow_held t" by (rule inflow_frame_held [OF finalize_inflow [OF assms(1,5)] held])
  then have "price_le (pre_settlement_basis s e) (pre_settlement_basis t e)"
    using raise [of "unat (outbound_in_transit (buckets s)) + unat (accepted_remote_value (buckets s)) +
          unat (inbound_in_transit (buckets s))"]
      nav_exact [OF inv held] nav_exact [OF inv'] frame
    by (simp add: b pre_settlement_basis_def remote_frame_def)
  then show ?thesis
    using wide_uint.price_compare [OF assms(2)] by (simp add: price_le_def)
qed

definition demo_cutoff :: state where
  "demo_cutoff = run U demo_settled [ClaimDeposit 1 0, OpenNextEpoch 1100, RequestRedeem 1 100,
       RequestDeposit 2 33, CutoffEpoch 1200]"

theorem settlement_never_lowers_price_witness:
  "\<exists>e. epoch demo_cutoff = Some e \<and> price_is_non_decreasing U2 (pre_settlement_basis demo_cutoff e)
     (pre_settlement_basis (projr (finalize_epoch U demo_cutoff)) e) = Inr True"
proof -
  have reach: "reachable U demo_cutoff"
    unfolding demo_cutoff_def by (intro run_reachable demo_reachable)
  have ok: "is_ok (finalize_epoch U demo_cutoff)"
    and local: "\<not> has_remote_exposure demo_cutoff" and "epoch demo_cutoff \<noteq> None" by code_simp+
  then obtain e where e: "epoch demo_cutoff = Some e" by blast
  show ?thesis
    using settlement_never_lowers_price [OF demo_wide reach e is_ok_projr [OF ok]] local e by blast
qed

section \<open>Messages\<close>

lemma rejection_messages:
  "distinct (map rejection_message all_rejections)" "[] \<notin> set (map rejection_message all_rejections)"
  by code_simp+

lemma inj_rejection_message: "inj rejection_message"
  using rejection_messages(1) in_all_rejections by (auto simp: distinct_map inj_on_def)

lemma violation_message_eq: "violation_message v = violation_message w \<Longrightarrow> v = w"
  using inj_rejection_message by (cases v; cases w; simp add: inj_def)

text \<open>Every rejection and every violation renders a message of its own: two different
  values never render the same text, arithmetic failures included, and no text is empty.\<close>

theorem messages_distinct:
  "inj rejection_message \<and> inj violation_message \<and>
   (\<forall>r. rejection_message r \<noteq> []) \<and> (\<forall>v. violation_message v \<noteq> [])"
proof -
  have "violation_message v \<noteq> []" for v by (cases v) simp_all
  moreover have "rejection_message r \<noteq> []" for r
    using rejection_messages(2) in_all_rejections [of r] by force
  ultimately show ?thesis
    using inj_rejection_message violation_message_eq by (auto simp: inj_def)
qed

end
