(* ===== verification/Vault_Remote_Props.thy ===== *)
theory Vault_Remote_Props
  imports Vault_Checks_Props
begin

text \<open>
  Properties of transfer cycles, vault states and single requests: at most one cycle at a
  time, identifiers used once, closing and recovering an allocation without touching the
  recognized loss, recalls that conserve their principal, a frozen vault that stays frozen,
  immutable outcomes, and cancellation as the inverse of a request.
\<close>

section \<open>Cycles\<close>

text \<open>The remote side of the books is disciplined in every reachable state: the accepted
  remote value never exceeds the principal cap, the outbound bucket holds exactly the active
  allocation and the pending recall exactly the active recall, the active identifier is a used
  one, only an allocation can be closing, and outstanding impairment never exceeds the
  impairment ever recorded.\<close>

theorem remote_books_consistent:
  assumes "wide_uint 256 val W" "reachable W s"
  shows "accepted_remote_value (buckets s) \<le> remote_principal_cap s \<and>
    outbound_in_transit (buckets s) = (if active_cycle s = Cycle_Allocate then active_amount s else 0) \<and>
    pending_recall_principal s = (if active_cycle s = Cycle_Recall then active_amount s else 0) \<and>
    (active_cycle s = Cycle_Recall \<longrightarrow> active_amount s \<le> remote_principal_cap s) \<and>
    (active_cycle s \<noteq> Cycle_None \<longrightarrow> active_transfer_id s \<in> used_transfer_ids s) \<and>
    (close_requested s \<longrightarrow> active_cycle s = Cycle_Allocate) \<and>
    impaired_transport s \<le> cumulative_impairment s"
  using vault_inv_parts(12,13) [OF reachable_inv [OF assms]]
  by (simp add: cycle_ok_def remote_ok_def word_le_nat_alt)

theorem remote_books_consistent_witness:
  "active_cycle demo_closing = Cycle_Allocate \<and> outbound_in_transit (buckets demo_closing) = 400 \<and>
   active_transfer_id demo_closing \<in> used_transfer_ids demo_closing"
proof -
  have "active_cycle demo_closing = Cycle_Allocate \<and> active_amount demo_closing = 400" by code_simp
  then show ?thesis using remote_books_consistent [OF u256.wide_uint_axioms demo_reachable(4)] by simp
qed

text \<open>A transfer identifier is used for one cycle only: once an allocation, a recall or a
  recovery with it was accepted, no later state accepts any of the three with it again.\<close>

theorem transfer_id_single_use:
  assumes "wide_uint 256 val W" "reachable W s"
    and "begin_allocate s actor tid n = Inr t \<or> begin_recall s actor tid n = Inr t \<or>
      begin_recover s actor tid = Inr t"
  shows "\<not> is_ok (begin_allocate (run W t ops) a tid m) \<and> \<not> is_ok (begin_recall (run W t ops) a tid m) \<and>
    \<not> is_ok (begin_recover (run W t ops) a tid)"
proof -
  have inv: "vault_inv s" by (rule reachable_inv [OF assms(1,2)])
  have "tid \<in> used_transfer_ids t"
    using assms(3) by (auto simp: begin_allocate_def begin_recall_def begin_recover_def op_simps)
  moreover have "vault_inv t"
    using assms(3) begin_allocate_inv [OF inv] begin_recall_inv [OF inv] begin_recover_inv [OF inv] by blast
  ultimately have "tid \<in> used_transfer_ids (run W t ops)"
    using run_keeps [OF assms(1), of t ops] by (auto simp: keeps_def)
  then show ?thesis
    by (auto simp: is_ok_iff begin_allocate_def begin_recall_def begin_recover_def op_simps)
qed

theorem transfer_id_single_use_witness:
  "\<not> is_ok (begin_recall (run U (projr (begin_allocate (run U demo_settled [OpenNextEpoch 1100]) 90 5 400))
     [CompleteAllocation 5 400]) 90 5 100)"
proof -
  have reach: "reachable U (run U demo_settled [OpenNextEpoch 1100])" by (intro run_reachable demo_reachable)
  have "begin_allocate (run U demo_settled [OpenNextEpoch 1100]) 90 5 400 =
      Inr (projr (begin_allocate (run U demo_settled [OpenNextEpoch 1100]) 90 5 400))"
    by (rule is_ok_projr) code_simp
  then show ?thesis
    using transfer_id_single_use [OF u256.wide_uint_axioms reach] by blast
qed

section \<open>Closing, recovering and recalling\<close>

lemma settle_close_Inr:
  assumes "settle_close s tid credited = Inr t"
  obtains shortfall :: u128 and outbound cap acc impaired cumulative where
    "active_cycle s = Cycle_Allocate" "active_transfer_id s = tid" "close_requested s"
    "unat (active_amount s) = unat credited + unat shortfall"
    "unat (outbound_in_transit (buckets s)) = unat (active_amount s) + unat outbound"
    "unat cap = unat (remote_principal_cap s) + unat credited"
    "unat acc = unat (accepted_remote_value (buckets s)) + unat credited"
    "unat impaired = unat (impaired_transport s) + unat shortfall"
    "unat cumulative = unat (cumulative_impairment s) + unat shortfall"
    "t = clear_cycle (s\<lparr>remote_principal_cap := cap, buckets := (buckets s)
        \<lparr>outbound_in_transit := outbound, accepted_remote_value := acc\<rparr>,
        impaired_transport := impaired, cumulative_impairment := cumulative\<rparr>)"
proof -
  from assms obtain shortfall :: u128 and outbound u impaired cumulative where
    g: "active_cycle s = Cycle_Allocate" "active_transfer_id s = tid" "close_requested s"
    and n: "unat (active_amount s) = unat credited + unat shortfall"
      "unat (outbound_in_transit (buckets s)) = unat (active_amount s) + unat outbound"
    and u: "credit_remote (s\<lparr>buckets := (buckets s)\<lparr>outbound_in_transit := outbound\<rparr>\<rparr>) credited = Inr u"
    and m: "unat impaired = unat (impaired_transport u) + unat shortfall"
      "unat cumulative = unat (cumulative_impairment u) + unat shortfall"
    and t: "t = clear_cycle (u\<lparr>impaired_transport := impaired, cumulative_impairment := cumulative\<rparr>)"
    unfolding settle_close_def op_simps by blast
  from u obtain cap acc where
    "unat cap = unat (remote_principal_cap s) + unat credited"
    "unat acc = unat (accepted_remote_value (buckets s)) + unat credited"
    "u = s\<lparr>buckets := (buckets s)\<lparr>outbound_in_transit := outbound\<rparr>,
        remote_principal_cap := cap, buckets := (buckets s)
        \<lparr>outbound_in_transit := outbound, accepted_remote_value := acc\<rparr>\<rparr>"
    unfolding credit_remote_Inr by auto
  then show thesis using g n m t by (intro that [of shortfall outbound cap acc impaired cumulative]) simp_all
qed

text \<open>Settling a close for less than was sent: the net asset value falls by exactly the
  shortfall, which becomes outstanding impairment and never a recognized loss; what was
  credited joins the principal cap and the accepted value, and the cycle ends.\<close>

theorem close_books_the_shortfall:
  assumes "wide_uint 256 val W" "reachable W s" "settle_close s tid credited = Inr t"
  shows "unat (managed_nav s) = unat (managed_nav t) + (unat (active_amount s) - unat credited) \<and>
    unat (impaired_transport t) = unat (impaired_transport s) + (unat (active_amount s) - unat credited) \<and>
    recognized_loss t = recognized_loss s \<and> inbound_cumulative_loss t = inbound_cumulative_loss s \<and>
    unat (remote_principal_cap t) = unat (remote_principal_cap s) + unat credited \<and>
    outbound_in_transit (buckets t) = 0 \<and> active_cycle t = Cycle_None"
proof -
  have inv: "vault_inv s" by (rule reachable_inv [OF assms(1,2)])
  have inv': "vault_inv t" by (rule settle_close_inv [OF inv assms(3)])
  have held: "inflow_held s" "inflow_held t"
    using reachable_inflow [OF assms(1,2)] inflow_frame_held [OF remote_inflow(8) [OF assms(3)]] by blast+
  from assms(3) obtain shortfall :: u128 and outbound cap acc impaired cumulative where
    g: "active_cycle s = Cycle_Allocate"
    and n: "unat (active_amount s) = unat credited + unat shortfall"
      "unat (outbound_in_transit (buckets s)) = unat (active_amount s) + unat outbound"
      "unat cap = unat (remote_principal_cap s) + unat credited"
      "unat acc = unat (accepted_remote_value (buckets s)) + unat credited"
      "unat impaired = unat (impaired_transport s) + unat shortfall"
    and t: "t = clear_cycle (s\<lparr>remote_principal_cap := cap, buckets := (buckets s)
        \<lparr>outbound_in_transit := outbound, accepted_remote_value := acc\<rparr>,
        impaired_transport := impaired, cumulative_impairment := cumulative\<rparr>)"
    by (rule settle_close_Inr)
  have out: "outbound = 0"
    using g n(2) vault_inv_parts(12) [OF inv] by (simp add: cycle_ok_def word_eq_unat)
  show ?thesis
    using nav_exact [OF inv held(1)] nav_exact [OF inv' held(2)] n out by (simp add: t clear_cycle_def)
qed

theorem close_books_the_shortfall_witness:
  "unat (managed_nav demo_closing) = unat (managed_nav (projr (settle_close demo_closing 5 300))) + (400 - 300) \<and>
   recognized_loss (projr (settle_close demo_closing 5 300)) = recognized_loss demo_closing"
proof -
  have ok: "is_ok (settle_close demo_closing 5 300)"
    and amount: "active_amount demo_closing = 400" by code_simp+
  show ?thesis
    using close_books_the_shortfall [OF u256.wide_uint_axioms demo_reachable(4) is_ok_projr [OF ok]] amount
    by simp
qed

text \<open>A recovery pays impairment back: the net asset value rises by exactly the credited
  amount, outstanding impairment falls by it, and the impairment ever recorded stays.\<close>

theorem recovery_restores_value:
  assumes "wide_uint 256 val W" "reachable W s" "settle_recover s tid credited = Inr t"
  shows "unat (managed_nav t) = unat (managed_nav s) + unat credited \<and>
    unat (impaired_transport s) = unat (impaired_transport t) + unat credited \<and>
    cumulative_impairment t = cumulative_impairment s \<and> recognized_loss t = recognized_loss s \<and>
    unat (remote_principal_cap t) = unat (remote_principal_cap s) + unat credited \<and>
    active_cycle t = Cycle_None"
proof -
  have inv: "vault_inv s" by (rule reachable_inv [OF assms(1,2)])
  have inv': "vault_inv t" by (rule settle_recover_inv [OF inv assms(3)])
  have held: "inflow_held s" "inflow_held t"
    using reachable_inflow [OF assms(1,2)] inflow_frame_held [OF remote_inflow(10) [OF assms(3)]] by blast+
  from assms(3) obtain impaired cap acc where
    n: "unat (impaired_transport s) = unat credited + unat impaired"
      "unat cap = unat (remote_principal_cap s) + unat credited"
      "unat acc = unat (accepted_remote_value (buckets s)) + unat credited"
    and t: "t = clear_cycle (s\<lparr>impaired_transport := impaired, remote_principal_cap := cap,
        buckets := (buckets s)\<lparr>accepted_remote_value := acc\<rparr>\<rparr>)"
    unfolding settle_recover_def op_simps credit_remote_Inr by auto
  show ?thesis
    using nav_exact [OF inv held(1)] nav_exact [OF inv' held(2)] n by (simp add: t clear_cycle_def)
qed

theorem recovery_restores_value_witness:
  "unat (managed_nav (projr (settle_recover demo_recovering 6 40))) = unat (managed_nav demo_recovering) + 40"
proof -
  have ok: "is_ok (settle_recover demo_recovering 6 40)" by code_simp
  show ?thesis
    using recovery_restores_value [OF u256.wide_uint_axioms demo_reachable(5) is_ok_projr [OF ok]] by simp
qed

text \<open>An accepted recall notice conserves its principal: actual plus loss is the principal
  taken off the cap, the loss is recognized, and the actual amount is idle if it already
  arrived and in transit otherwise; the recall is over.\<close>

theorem recall_conserves_principal:
  assumes "wide_uint 256 val W" "reachable W s" "accept_recall_sent s tid p actual loss = Inr t"
  shows "unat p = unat actual + unat loss \<and> p \<le> active_amount s \<and>
    unat (remote_principal_cap s) = unat (remote_principal_cap t) + unat p \<and>
    unat (recognized_loss t) = unat (recognized_loss s) + unat loss \<and>
    unat (idle_backing (buckets t)) + unat (inbound_in_transit (buckets t)) =
      unat (idle_backing (buckets s)) + unat (inbound_in_transit (buckets s)) + unat actual \<and>
    unat (unattributed_inbound (buckets t)) = unat (unattributed_inbound (buckets s)) - unat actual \<and>
    inbound_cumulative_loss s \<le> inbound_cumulative_loss t \<and>
    active_cycle t = Cycle_None \<and> pending_recall_principal t = 0"
proof -
  have order: "p \<le> active_amount s"
    using assms(3) by (auto simp: accept_recall_sent_def result_simps split: if_splits)
  from assms(3) show ?thesis
  proof (rule accept_recall_sent_Inr)
    fix sum settled_loss cap accepted' recognized unattributed idle in_flight inbound fu accepted decrease :: u128
      and s1 s2 s3 :: state
    assume g: "unat sum = unat actual + unat loss" "\<not> sum \<noteq> p"
      and s1: "s1 = set_accepted s (recall_baseline_value s)"
      and s2: "s2 = (if inbound_cumulative_loss s1 < settled_loss
        then s1\<lparr>inbound_cumulative_loss := settled_loss\<rparr> else s1)"
      and s3: "s3 = s2\<lparr>recall_baseline_value := 0, recall_baseline_loss := 0\<rparr>"
      and fu: "fu = (if actual < unattributed_inbound (buckets s3) then actual else unattributed_inbound (buckets s3))"
      and moves: "unat (remote_principal_cap s3) = unat p + unat cap"
        "unat recognized = unat (recognized_loss s3) + unat loss"
        "unat (unattributed_inbound (buckets s3)) = unat fu + unat unattributed"
        "unat idle = unat (idle_backing (buckets s3)) + unat fu"
        "unat actual = unat fu + unat in_flight"
        "unat inbound = unat (inbound_in_transit (buckets s3)) + unat in_flight"
      and t: "t = clear_cycle (s3\<lparr>remote_principal_cap := cap, recognized_loss := recognized,
         buckets := (buckets s3)\<lparr>accepted_remote_value := accepted', unattributed_inbound := unattributed,
           idle_backing := idle, inbound_in_transit := inbound\<rparr>,
         pending_recall_id := 0, pending_recall_principal := 0\<rparr>)"
    have same: "remote_principal_cap s3 = remote_principal_cap s" "recognized_loss s3 = recognized_loss s"
        "unattributed_inbound (buckets s3) = unattributed_inbound (buckets s)"
        "idle_backing (buckets s3) = idle_backing (buckets s)"
        "inbound_in_transit (buckets s3) = inbound_in_transit (buckets s)"
      by (simp_all add: s3 s2 s1 set_accepted_def)
    have loss: "inbound_cumulative_loss s \<le> inbound_cumulative_loss s3"
      by (simp add: s3 s2 s1 set_accepted_def less_imp_le)
    have "unat unattributed = unat (unattributed_inbound (buckets s)) - unat actual"
    proof (cases "actual < unattributed_inbound (buckets s)")
      case True
      then have "fu = actual" by (simp add: fu same)
      then show ?thesis using moves(3) by (simp add: same)
    next
      case False
      then have "fu = unattributed_inbound (buckets s)" by (simp add: fu same)
      then show ?thesis using moves(3) False by (simp add: same word_less_nat_alt)
    qed
    then show ?thesis
      using g moves order loss by (simp add: t clear_cycle_def same)
  qed
qed

theorem recall_conserves_principal_witness:
  "unat (remote_principal_cap demo_recalling) =
     unat (remote_principal_cap (projr (accept_recall_sent demo_recalling 6 150 140 10))) + 150 \<and>
   unat (recognized_loss (projr (accept_recall_sent demo_recalling 6 150 140 10))) =
     unat (recognized_loss demo_recalling) + 10"
proof -
  have ok: "is_ok (accept_recall_sent demo_recalling 6 150 140 10)" by code_simp
  show ?thesis
    using recall_conserves_principal [OF u256.wide_uint_axioms demo_reachable(6) is_ok_projr [OF ok]] by simp
qed

section \<open>Vault states and epochs\<close>

text \<open>Freezing is final: once frozen, a vault stays frozen, and no later state accepts a
  request, a cancellation, a cutoff, a finalization, a new epoch, an allocation, a pause or
  an unpause.\<close>

theorem frozen_forever:
  assumes "wide_uint 256 val W" "reachable W s" "freeze s actor = Inr t"
  shows "vault_state (run W t ops) = Frozen \<and>
    \<not> is_ok (request_deposit (run W t ops) a n) \<and> \<not> is_ok (request_redeem (run W t ops) a n) \<and>
    \<not> is_ok (cancel_deposit (run W t ops) a) \<and> \<not> is_ok (cancel_redeem (run W t ops) a) \<and>
    \<not> is_ok (cutoff_epoch (run W t ops) now) \<and> \<not> is_ok (finalize_epoch W (run W t ops)) \<and>
    \<not> is_ok (open_next_epoch (run W t ops) now) \<and> \<not> is_ok (begin_allocate (run W t ops) a tid n) \<and>
    \<not> is_ok (pause (run W t ops) a) \<and> \<not> is_ok (unpause (run W t ops) a) \<and>
    \<not> is_ok (freeze (run W t ops) a)"
proof -
  have inv: "vault_inv t"
    using apply_op_inv [OF assms(1) reachable_inv [OF assms(1,2)], of "Freeze actor" t] assms(3) by simp
  have "vault_state t = Frozen" using assms(3) by (simp add: pause_Inr)
  then have "vault_state (run W t ops) = Frozen"
    using run_keeps [OF assms(1) inv, of ops] by (simp add: keeps_def)
  then show ?thesis
    by (simp add: is_ok_iff request_deposit_def request_redeem_def cancel_deposit_def cancel_redeem_def
        cutoff_epoch_def finalize_epoch_def open_next_epoch_def begin_allocate_def pause_Inr op_simps)
qed

theorem frozen_forever_witness:
  "vault_state (run U (projr (freeze demo_settled 91)) [Unpause 90, OpenNextEpoch 1100]) = Frozen"
proof -
  have ok: "is_ok (freeze demo_settled 91)" by code_simp
  show ?thesis
    using frozen_forever [OF u256.wide_uint_axioms demo_reachable(1) is_ok_projr [OF ok]] by blast
qed

text \<open>An epoch's outcome is immutable, and an epoch with an outcome never becomes the
  current epoch again: whatever runs later, the recorded outcome is the same value.\<close>

theorem outcomes_immutable:
  assumes "wide_uint 256 val W" "reachable W s" "bt_get (epochs s) eid = Some outcome"
  shows "bt_get (epochs (run W s ops)) eid = Some outcome \<and>
    (\<forall>e. epoch (run W s ops) = Some e \<longrightarrow> ep_id e \<noteq> eid \<and> eid < ep_id e)"
proof -
  let ?u = "run W s ops"
  have u: "vault_inv ?u" "keeps s ?u"
    using run_keeps [OF assms(1) reachable_inv [OF assms(1,2)]] by blast+
  then have out: "bt_get (epochs ?u) eid = Some outcome" using assms(3) by (simp add: keeps_def)
  have "eid < ep_id e" if "epoch ?u = Some e" for e
    using vault_inv_parts(6) [OF u(1)] bt_get_in_set [OF out] that
    by (auto simp: ids_ok_def next_id_bound_def word_less_nat_alt)
  then show ?thesis using out by auto
qed

theorem outcomes_immutable_witness:
  "\<exists>x. bt_get (epochs demo_settled) 0 = Some x \<and>
     bt_get (epochs (run U demo_settled [OpenNextEpoch 1100, CutoffEpoch 1300, FinalizeEpoch])) 0 = Some x"
proof -
  have "bt_get (epochs demo_settled) 0 \<noteq> None" by code_simp
  then obtain x where x: "bt_get (epochs demo_settled) 0 = Some x" by blast
  then show ?thesis
    using outcomes_immutable [OF u256.wide_uint_axioms demo_reachable(1) x] by blast
qed

section \<open>A request and its cancellation\<close>

text \<open>Cancelling undoes a deposit request: from a state without an earlier request of the
  account in this epoch, the cancellation right after an accepted request is accepted and
  gives back the account, the buckets and the epoch aggregate exactly as they were.\<close>

theorem cancel_undoes_deposit:
  assumes "wide_uint 256 val W" "reachable W s" "request_deposit s a n = Inr t"
    and "epoch s = Some e" "bt_get (deposit_requests s) (RequestKey (ep_id e) a) = None"
  shows "\<exists>u. cancel_deposit t a = Inr u \<and> account_of u a = account_of s a \<and> buckets u = buckets s \<and>
    epoch u = epoch s \<and> deposit_request_state u (RequestKey (ep_id e) a) = Some Cancelled"
proof -
  have inv: "vault_inv s" by (rule reachable_inv [OF assms(1,2)])
  note wf = inv_wf(1) [OF inv] vault_inv_parts(1) [OF inv]
  from assms(3) obtain e' remaining escrow epoch_total total entry where
    g': "vault_state s = Active" "epoch s = Some e'" "ep_phase e' = Open" "n \<noteq> 0"
      "entry = (case bt_get (deposit_requests s) (RequestKey (ep_id e') a) of
         None \<Rightarrow> default_deposit | Some r \<Rightarrow> r)"
    and m': "unat (acc_assets (account_of s a)) = unat n + unat remaining"
      "unat escrow = unat (pending_deposit_escrow (buckets s)) + unat n"
      "unat epoch_total = unat (pending_deposit_assets e') + unat n"
      "unat total = unat (dr_assets entry) + unat n"
    and t': "t = s\<lparr>accounts := bt_insert a (account_of s a\<lparr>acc_assets := remaining\<rparr>) (accounts s),
       buckets := (buckets s)\<lparr>pending_deposit_escrow := escrow\<rparr>,
       epoch := Some (e'\<lparr>pending_deposit_assets := epoch_total\<rparr>),
       deposit_requests := bt_insert (RequestKey (ep_id e') a)
         (entry\<lparr>dr_assets := total, dr_cancelled := False\<rparr>) (deposit_requests s)\<rparr>"
    by (rule request_deposit_Inr)
  have e': "e' = e" and entry: "entry = default_deposit" using assms(4,5) g'(2,5) by simp_all
  note g = g'(1,3,4) [unfolded e'] and m = m' [unfolded e' entry default_deposit_def, simplified]
    and t = t' [unfolded e' entry default_deposit_def, simplified]
  have total: "total = n" using m(4) by (simp add: word_eq_unat)
  have ok: "asset_checked_sub escrow n = Inr (pending_deposit_escrow (buckets s))"
    "asset_checked_sub epoch_total n = Inr (pending_deposit_assets e)"
    "asset_checked_add remaining n = Inr (acc_assets (account_of s a))"
    "asset_checked_add 0 n = Inr n"
    using m by (simp_all add: amount_simps)
  have acct: "account_of t a = account_of s a\<lparr>acc_assets := remaining\<rparr>"
    using wf by (simp add: t account_of_def)
  let ?k = "RequestKey (ep_id e) a"
  define u where "u = t\<lparr>buckets := (buckets t)\<lparr>pending_deposit_escrow := pending_deposit_escrow (buckets s)\<rparr>,
      epoch := Some (e\<lparr>pending_deposit_assets := pending_deposit_assets e\<rparr>),
      accounts := bt_insert a (account_of t a\<lparr>acc_assets := acc_assets (account_of s a)\<rparr>) (accounts t),
      deposit_requests := bt_insert ?k
        \<lparr>dr_assets = 0, dr_cancelled_assets = n, dr_cancelled = True, dr_claimed = False\<rparr> (deposit_requests t)\<rparr>"
  have of_t: "vault_state t = Active" "epoch t = Some (e\<lparr>pending_deposit_assets := epoch_total\<rparr>)"
    "pending_deposit_escrow (buckets t) = escrow"
    "bt_get (deposit_requests t) ?k =
       Some \<lparr>dr_assets = n, dr_cancelled_assets = 0, dr_cancelled = False, dr_claimed = False\<rparr>"
    using g wf total by (simp_all add: t acct [unfolded t])
  have "account_of (t\<lparr>buckets := x, epoch := y\<rparr>) a = account_of t a" for x y
    by (simp add: account_of_def)
  then have "cancel_deposit t a = Inr u"
    using g ok acct of_t
    by (simp add: cancel_deposit_def require_cancellation_allowed_def epoch_mut_def account_mut_def u_def)
  moreover have "buckets u = buckets s" "epoch u = epoch s"
    using assms(4) by (simp_all add: u_def t)
  moreover have "account_of u a = account_of s a"
    using wf(2) by (simp add: u_def acct) (simp add: account_of_def t)
  moreover have "deposit_request_state u ?k = Some Cancelled"
    using wf(1) by (simp add: u_def t deposit_request_state_def lifecycle_def)
  ultimately show ?thesis by blast
qed

theorem cancel_undoes_deposit_witness:
  "\<exists>u. cancel_deposit (projr (request_deposit demo_start 1 600)) 1 = Inr u \<and> buckets u = buckets demo_start"
proof -
  have ok: "is_ok (request_deposit demo_start 1 600)" and "epoch demo_start \<noteq> None"
    and none: "deposit_requests demo_start = []" by code_simp+
  then obtain e where e: "epoch demo_start = Some e" by blast
  show ?thesis
    using cancel_undoes_deposit [OF u256.wide_uint_axioms demo_start_reachable is_ok_projr [OF ok] e] none
    by auto
qed

end
