(* ===== verification/Wire_Errors.thy ===== *)
theory Wire_Errors
  imports Prelude
begin

text \<open>
  Errors of the wire format (\<open>crates/protocol-types/src/error.rs\<close>): the rules a field
  can break, why a message cannot be encoded, why a byte string is not a canonical
  message, and the text each error prints. \<open>EncodeError\<close> and \<open>DecodeError\<close> share the
  names of three variants in the source; here those of the encoder begin with \<open>Enc\<close>.
\<close>

section \<open>Error values\<close>

datatype identifier_field =
    SourceChain | DestinationChain | SourceApplication | DestinationApplication | Deployment
  | Vault | Lane | Sequence | Transfer | Epoch | ConfigVersion | RemoteStateCommitment
  | ConfigCommitment | DestinationReference | TargetSequence

datatype amount_field =
    Amount | MinimumDestinationAmount | RequestedAmount | MinimumReturnAmount
  | PrincipalSent | ActualAmountSent | MaxReportAge | ClaimAmount

datatype validation_error =
    ZeroIdentifier identifier_field | ZeroAmount amount_field | ReservedFlagsSet
  | SourceEqualsDestinationChain | SourceEqualsDestinationApplication
  | PublicationBeforeObservation | ExpirationBeforePublication | DeadlineBeforePublication
  | EffectiveTimestampBeforePublication | ProbeTimestampAfterObservation
  | SentTimestampAfterObservation | MissingProbeTimestamp | MinimumAboveAmount
  | RealizedLossAbovePrincipal | BasisPointsOutOfRange | ConfigVersionNotIncreasing
  | TargetNotBeforeResolution | CreditAboveClaim | ImpairmentBelowShortfall
  | RecoveryImpairmentMismatch

datatype encode_error =
    BufferTooSmall u32 u32
  | EncUnsupportedProtocolVersion u16 | EncUnsupportedSchemaVersion u16
  | EncInvalid validation_error

datatype decode_error =
    Truncated u32 u32
  | TrailingBytes u32 u32
  | InvalidMagic | UnsupportedProtocolVersion u16 | UnsupportedSchemaVersion u16
  | UnknownMessageType u8 | InvalidProbeStatus u8 | UnknownResolveAction u8
  | UnknownSettlementKind u8 | BodyHashMismatch | LengthOverflow
  | Invalid validation_error

section \<open>Texts\<close>

fun identifier_field_name :: "identifier_field \<Rightarrow> string" where
  "identifier_field_name SourceChain = ''source chain''"
| "identifier_field_name DestinationChain = ''destination chain''"
| "identifier_field_name SourceApplication = ''source application''"
| "identifier_field_name DestinationApplication = ''destination application''"
| "identifier_field_name Deployment = ''deployment id''"
| "identifier_field_name Vault = ''vault id''"
| "identifier_field_name Lane = ''lane id''"
| "identifier_field_name Sequence = ''sequence''"
| "identifier_field_name Transfer = ''transfer id''"
| "identifier_field_name Epoch = ''epoch id''"
| "identifier_field_name ConfigVersion = ''config version''"
| "identifier_field_name RemoteStateCommitment = ''remote state commitment''"
| "identifier_field_name ConfigCommitment = ''config commitment''"
| "identifier_field_name DestinationReference = ''destination reference''"
| "identifier_field_name TargetSequence = ''target sequence''"

fun amount_field_name :: "amount_field \<Rightarrow> string" where
  "amount_field_name Amount = ''amount''"
| "amount_field_name MinimumDestinationAmount = ''minimum destination amount''"
| "amount_field_name RequestedAmount = ''requested amount''"
| "amount_field_name MinimumReturnAmount = ''minimum return amount''"
| "amount_field_name PrincipalSent = ''principal sent''"
| "amount_field_name ActualAmountSent = ''actual amount sent''"
| "amount_field_name MaxReportAge = ''max report age''"
| "amount_field_name ClaimAmount = ''claim amount''"

fun validation_message :: "validation_error \<Rightarrow> string" where
  "validation_message (ZeroIdentifier field) = identifier_field_name field @ '' must not be zero''"
| "validation_message (ZeroAmount field) = amount_field_name field @ '' must be greater than zero''"
| "validation_message ReservedFlagsSet = ''a reserved flag bit is set''"
| "validation_message SourceEqualsDestinationChain = ''source and destination chains are the same''"
| "validation_message SourceEqualsDestinationApplication = ''source and destination applications are the same''"
| "validation_message PublicationBeforeObservation = ''publication time is before observation time''"
| "validation_message ExpirationBeforePublication = ''expiration time is before publication time''"
| "validation_message DeadlineBeforePublication = ''deadline is before publication time''"
| "validation_message EffectiveTimestampBeforePublication = ''effective time is before publication time''"
| "validation_message ProbeTimestampAfterObservation = ''probe time is after publication time''"
| "validation_message SentTimestampAfterObservation = ''sent time is after publication time''"
| "validation_message MissingProbeTimestamp = ''a fresh probe needs a probe timestamp''"
| "validation_message MinimumAboveAmount = ''the minimum is larger than the amount it bounds''"
| "validation_message RealizedLossAbovePrincipal = ''realized loss is larger than the principal''"
| "validation_message BasisPointsOutOfRange = ''basis points exceed ten thousand''"
| "validation_message ConfigVersionNotIncreasing = ''config version does not increase''"
| "validation_message TargetNotBeforeResolution = ''the resolved message does not precede the resolution''"
| "validation_message CreditAboveClaim = ''credited amount exceeds the claim''"
| "validation_message ImpairmentBelowShortfall = ''outstanding impairment is below the shortfall''"
| "validation_message RecoveryImpairmentMismatch = ''impairment left after recovery is not the uncredited claim''"

text \<open>The decimal text \<open>{}\<close> prints for an unsigned integer.\<close>

fun show_nat :: "nat \<Rightarrow> string" where
  "show_nat n =
     (if n < 10 then [char_of (48 + n)] else show_nat (n div 10) @ [char_of (48 + n mod 10)])"

declare show_nat.simps [simp del]

definition show_word :: "'a::len word \<Rightarrow> string" where
  "show_word w = show_nat (unat w)"

fun encode_error_message :: "encode_error \<Rightarrow> string" where
  "encode_error_message (BufferTooSmall needed available) =
     ''buffer holds '' @ show_word available @ '' bytes but '' @ show_word needed @ '' are needed''"
| "encode_error_message (EncUnsupportedProtocolVersion found) =
     ''protocol version '' @ show_word found @ '' is not supported''"
| "encode_error_message (EncUnsupportedSchemaVersion found) =
     ''schema version '' @ show_word found @ '' is not supported''"
| "encode_error_message (EncInvalid reason) = validation_message reason"

fun decode_error_message :: "decode_error \<Rightarrow> string" where
  "decode_error_message (Truncated needed found) =
     ''input holds '' @ show_word found @ '' bytes but '' @ show_word needed @ '' are needed''"
| "decode_error_message (TrailingBytes expected found) =
     ''message ends at '' @ show_word expected @ '' bytes but input holds '' @ show_word found"
| "decode_error_message InvalidMagic = ''magic prefix does not match''"
| "decode_error_message (UnsupportedProtocolVersion found) =
     ''protocol version '' @ show_word found @ '' is not supported''"
| "decode_error_message (UnsupportedSchemaVersion found) =
     ''schema version '' @ show_word found @ '' is not supported''"
| "decode_error_message (UnknownMessageType found) =
     ''message type '' @ show_word found @ '' is not known''"
| "decode_error_message (InvalidProbeStatus found) =
     ''probe status '' @ show_word found @ '' is not known''"
| "decode_error_message (UnknownResolveAction found) =
     ''resolve action '' @ show_word found @ '' is not known''"
| "decode_error_message (UnknownSettlementKind found) =
     ''settlement kind '' @ show_word found @ '' is not known''"
| "decode_error_message BodyHashMismatch = ''body hash does not match the body''"
| "decode_error_message LengthOverflow = ''declared length does not fit in memory''"
| "decode_error_message (Invalid reason) = validation_message reason"

end
