(* ===== verification/Wire_Layout.thy ===== *)
theory Wire_Layout
  imports Main
begin

text \<open>
  Every byte offset and length of the wire format
  (\<open>crates/protocol-types/src/layout.rs\<close>), written with the sums of the source, the
  field tables, and the two checks the source runs on them at compile time.
\<close>

named_theorems layout_simps \<open>values of the layout constants\<close>

section \<open>Offsets and lengths\<close>

definition WIDE :: nat where
  "WIDE = 32"

definition MAGIC_OFFSET :: nat where
  "MAGIC_OFFSET = 0"

definition MAGIC_LEN :: nat where
  "MAGIC_LEN = 4"

definition PROTOCOL_VERSION_OFFSET :: nat where
  "PROTOCOL_VERSION_OFFSET = MAGIC_OFFSET + MAGIC_LEN"

definition SCHEMA_VERSION_OFFSET :: nat where
  "SCHEMA_VERSION_OFFSET = PROTOCOL_VERSION_OFFSET + 2"

definition MESSAGE_TYPE_OFFSET :: nat where
  "MESSAGE_TYPE_OFFSET = SCHEMA_VERSION_OFFSET + 2"

definition FLAGS_OFFSET :: nat where
  "FLAGS_OFFSET = MESSAGE_TYPE_OFFSET + 1"

definition SOURCE_CHAIN_OFFSET :: nat where
  "SOURCE_CHAIN_OFFSET = FLAGS_OFFSET + 2"

definition DESTINATION_CHAIN_OFFSET :: nat where
  "DESTINATION_CHAIN_OFFSET = SOURCE_CHAIN_OFFSET + 4"

definition SOURCE_APPLICATION_OFFSET :: nat where
  "SOURCE_APPLICATION_OFFSET = DESTINATION_CHAIN_OFFSET + 4"

definition DESTINATION_APPLICATION_OFFSET :: nat where
  "DESTINATION_APPLICATION_OFFSET = SOURCE_APPLICATION_OFFSET + WIDE"

definition DEPLOYMENT_ID_OFFSET :: nat where
  "DEPLOYMENT_ID_OFFSET = DESTINATION_APPLICATION_OFFSET + WIDE"

definition VAULT_ID_OFFSET :: nat where
  "VAULT_ID_OFFSET = DEPLOYMENT_ID_OFFSET + WIDE"

definition LANE_ID_OFFSET :: nat where
  "LANE_ID_OFFSET = VAULT_ID_OFFSET + WIDE"

definition SEQUENCE_OFFSET :: nat where
  "SEQUENCE_OFFSET = LANE_ID_OFFSET + 4"

definition PREVIOUS_COMMITMENT_OFFSET :: nat where
  "PREVIOUS_COMMITMENT_OFFSET = SEQUENCE_OFFSET + 8"

definition OBSERVED_AT_OFFSET :: nat where
  "OBSERVED_AT_OFFSET = PREVIOUS_COMMITMENT_OFFSET + WIDE"

definition PUBLISHED_AT_OFFSET :: nat where
  "PUBLISHED_AT_OFFSET = OBSERVED_AT_OFFSET + 8"

definition EXPIRES_AT_OFFSET :: nat where
  "EXPIRES_AT_OFFSET = PUBLISHED_AT_OFFSET + 8"

definition BODY_HASH_OFFSET :: nat where
  "BODY_HASH_OFFSET = EXPIRES_AT_OFFSET + 8"

definition HEADER_LEN :: nat where
  "HEADER_LEN = BODY_HASH_OFFSET + WIDE"

definition ALLOCATE_TRANSFER_ID_OFFSET :: nat where
  "ALLOCATE_TRANSFER_ID_OFFSET = 0"

definition ALLOCATE_AMOUNT_OFFSET :: nat where
  "ALLOCATE_AMOUNT_OFFSET = ALLOCATE_TRANSFER_ID_OFFSET + WIDE"

definition ALLOCATE_EXPECTED_SOURCE_BALANCE_OFFSET :: nat where
  "ALLOCATE_EXPECTED_SOURCE_BALANCE_OFFSET = ALLOCATE_AMOUNT_OFFSET + 16"

definition ALLOCATE_MINIMUM_DESTINATION_AMOUNT_OFFSET :: nat where
  "ALLOCATE_MINIMUM_DESTINATION_AMOUNT_OFFSET = ALLOCATE_EXPECTED_SOURCE_BALANCE_OFFSET + 16"

definition ALLOCATE_DEADLINE_OFFSET :: nat where
  "ALLOCATE_DEADLINE_OFFSET = ALLOCATE_MINIMUM_DESTINATION_AMOUNT_OFFSET + 16"

definition ALLOCATE_CONFIG_VERSION_OFFSET :: nat where
  "ALLOCATE_CONFIG_VERSION_OFFSET = ALLOCATE_DEADLINE_OFFSET + 8"

definition ALLOCATE_BODY_LEN :: nat where
  "ALLOCATE_BODY_LEN = ALLOCATE_CONFIG_VERSION_OFFSET + 8"

definition RECALL_TRANSFER_ID_OFFSET :: nat where
  "RECALL_TRANSFER_ID_OFFSET = 0"

definition RECALL_REQUESTED_AMOUNT_OFFSET :: nat where
  "RECALL_REQUESTED_AMOUNT_OFFSET = RECALL_TRANSFER_ID_OFFSET + WIDE"

definition RECALL_MINIMUM_RETURN_AMOUNT_OFFSET :: nat where
  "RECALL_MINIMUM_RETURN_AMOUNT_OFFSET = RECALL_REQUESTED_AMOUNT_OFFSET + 16"

definition RECALL_DEADLINE_OFFSET :: nat where
  "RECALL_DEADLINE_OFFSET = RECALL_MINIMUM_RETURN_AMOUNT_OFFSET + 16"

definition RECALL_CONFIG_VERSION_OFFSET :: nat where
  "RECALL_CONFIG_VERSION_OFFSET = RECALL_DEADLINE_OFFSET + 8"

definition RECALL_BODY_LEN :: nat where
  "RECALL_BODY_LEN = RECALL_CONFIG_VERSION_OFFSET + 8"

definition REPORT_EPOCH_ID_OFFSET :: nat where
  "REPORT_EPOCH_ID_OFFSET = 0"

definition REPORT_REMOTE_PRINCIPAL_OFFSET :: nat where
  "REPORT_REMOTE_PRINCIPAL_OFFSET = REPORT_EPOCH_ID_OFFSET + 8"

definition REPORT_REPORTED_VALUE_OFFSET :: nat where
  "REPORT_REPORTED_VALUE_OFFSET = REPORT_REMOTE_PRINCIPAL_OFFSET + 16"

definition REPORT_REALIZED_LOSS_OFFSET :: nat where
  "REPORT_REALIZED_LOSS_OFFSET = REPORT_REPORTED_VALUE_OFFSET + 16"

definition REPORT_UNATTRIBUTED_BALANCE_OFFSET :: nat where
  "REPORT_UNATTRIBUTED_BALANCE_OFFSET = REPORT_REALIZED_LOSS_OFFSET + 16"

definition REPORT_LATEST_COMPLETED_TRANSFER_ID_OFFSET :: nat where
  "REPORT_LATEST_COMPLETED_TRANSFER_ID_OFFSET = REPORT_UNATTRIBUTED_BALANCE_OFFSET + 16"

definition REPORT_PROBE_STATUS_OFFSET :: nat where
  "REPORT_PROBE_STATUS_OFFSET = REPORT_LATEST_COMPLETED_TRANSFER_ID_OFFSET + WIDE"

definition REPORT_PROBE_TIMESTAMP_OFFSET :: nat where
  "REPORT_PROBE_TIMESTAMP_OFFSET = REPORT_PROBE_STATUS_OFFSET + 1"

definition REPORT_CONFIG_VERSION_OFFSET :: nat where
  "REPORT_CONFIG_VERSION_OFFSET = REPORT_PROBE_TIMESTAMP_OFFSET + 8"

definition REPORT_REMOTE_STATE_COMMITMENT_OFFSET :: nat where
  "REPORT_REMOTE_STATE_COMMITMENT_OFFSET = REPORT_CONFIG_VERSION_OFFSET + 8"

definition REMOTE_REPORT_BODY_LEN :: nat where
  "REMOTE_REPORT_BODY_LEN = REPORT_REMOTE_STATE_COMMITMENT_OFFSET + WIDE"

definition RECALL_SENT_TRANSFER_ID_OFFSET :: nat where
  "RECALL_SENT_TRANSFER_ID_OFFSET = 0"

definition RECALL_SENT_PRINCIPAL_SENT_OFFSET :: nat where
  "RECALL_SENT_PRINCIPAL_SENT_OFFSET = RECALL_SENT_TRANSFER_ID_OFFSET + WIDE"

definition RECALL_SENT_ACTUAL_AMOUNT_SENT_OFFSET :: nat where
  "RECALL_SENT_ACTUAL_AMOUNT_SENT_OFFSET = RECALL_SENT_PRINCIPAL_SENT_OFFSET + 16"

definition RECALL_SENT_REALIZED_LOSS_OFFSET :: nat where
  "RECALL_SENT_REALIZED_LOSS_OFFSET = RECALL_SENT_ACTUAL_AMOUNT_SENT_OFFSET + 16"

definition RECALL_SENT_DESTINATION_REFERENCE_OFFSET :: nat where
  "RECALL_SENT_DESTINATION_REFERENCE_OFFSET = RECALL_SENT_REALIZED_LOSS_OFFSET + 16"

definition RECALL_SENT_SENT_TIMESTAMP_OFFSET :: nat where
  "RECALL_SENT_SENT_TIMESTAMP_OFFSET = RECALL_SENT_DESTINATION_REFERENCE_OFFSET + WIDE"

definition RECALL_SENT_CONFIG_VERSION_OFFSET :: nat where
  "RECALL_SENT_CONFIG_VERSION_OFFSET = RECALL_SENT_SENT_TIMESTAMP_OFFSET + 8"

definition RECALL_SENT_BODY_LEN :: nat where
  "RECALL_SENT_BODY_LEN = RECALL_SENT_CONFIG_VERSION_OFFSET + 8"

definition CONFIG_VERSION_OFFSET :: nat where
  "CONFIG_VERSION_OFFSET = 0"

definition CONFIG_PREVIOUS_VERSION_OFFSET :: nat where
  "CONFIG_PREVIOUS_VERSION_OFFSET = CONFIG_VERSION_OFFSET + 8"

definition CONFIG_MAX_REMOTE_ALLOCATION_BPS_OFFSET :: nat where
  "CONFIG_MAX_REMOTE_ALLOCATION_BPS_OFFSET = CONFIG_PREVIOUS_VERSION_OFFSET + 8"

definition CONFIG_MAX_UPWARD_DEVIATION_BPS_OFFSET :: nat where
  "CONFIG_MAX_UPWARD_DEVIATION_BPS_OFFSET = CONFIG_MAX_REMOTE_ALLOCATION_BPS_OFFSET + 2"

definition CONFIG_MAX_DOWNWARD_DEVIATION_BPS_OFFSET :: nat where
  "CONFIG_MAX_DOWNWARD_DEVIATION_BPS_OFFSET = CONFIG_MAX_UPWARD_DEVIATION_BPS_OFFSET + 2"

definition CONFIG_MAX_REPORT_AGE_OFFSET :: nat where
  "CONFIG_MAX_REPORT_AGE_OFFSET = CONFIG_MAX_DOWNWARD_DEVIATION_BPS_OFFSET + 2"

definition CONFIG_EFFECTIVE_TIMESTAMP_OFFSET :: nat where
  "CONFIG_EFFECTIVE_TIMESTAMP_OFFSET = CONFIG_MAX_REPORT_AGE_OFFSET + 8"

definition CONFIG_COMMITMENT_OFFSET :: nat where
  "CONFIG_COMMITMENT_OFFSET = CONFIG_EFFECTIVE_TIMESTAMP_OFFSET + 8"

definition CONFIG_UPDATE_BODY_LEN :: nat where
  "CONFIG_UPDATE_BODY_LEN = CONFIG_COMMITMENT_OFFSET + WIDE"

definition RESOLVE_TRANSFER_ID_OFFSET :: nat where
  "RESOLVE_TRANSFER_ID_OFFSET = 0"

definition RESOLVE_TARGET_SEQUENCE_OFFSET :: nat where
  "RESOLVE_TARGET_SEQUENCE_OFFSET = RESOLVE_TRANSFER_ID_OFFSET + WIDE"

definition RESOLVE_ACTION_OFFSET :: nat where
  "RESOLVE_ACTION_OFFSET = RESOLVE_TARGET_SEQUENCE_OFFSET + 8"

definition RESOLVE_CONFIG_VERSION_OFFSET :: nat where
  "RESOLVE_CONFIG_VERSION_OFFSET = RESOLVE_ACTION_OFFSET + 1"

definition RESOLVE_BODY_LEN :: nat where
  "RESOLVE_BODY_LEN = RESOLVE_CONFIG_VERSION_OFFSET + 8"

definition SETTLEMENT_TRANSFER_ID_OFFSET :: nat where
  "SETTLEMENT_TRANSFER_ID_OFFSET = 0"

definition SETTLEMENT_KIND_OFFSET :: nat where
  "SETTLEMENT_KIND_OFFSET = SETTLEMENT_TRANSFER_ID_OFFSET + WIDE"

definition SETTLEMENT_CLAIM_AMOUNT_OFFSET :: nat where
  "SETTLEMENT_CLAIM_AMOUNT_OFFSET = SETTLEMENT_KIND_OFFSET + 1"

definition SETTLEMENT_CREDITED_AMOUNT_OFFSET :: nat where
  "SETTLEMENT_CREDITED_AMOUNT_OFFSET = SETTLEMENT_CLAIM_AMOUNT_OFFSET + 16"

definition SETTLEMENT_IMPAIRED_OUTSTANDING_OFFSET :: nat where
  "SETTLEMENT_IMPAIRED_OUTSTANDING_OFFSET = SETTLEMENT_CREDITED_AMOUNT_OFFSET + 16"

definition SETTLEMENT_CONFIG_VERSION_OFFSET :: nat where
  "SETTLEMENT_CONFIG_VERSION_OFFSET = SETTLEMENT_IMPAIRED_OUTSTANDING_OFFSET + 16"

definition TRANSPORT_SETTLEMENT_BODY_LEN :: nat where
  "TRANSPORT_SETTLEMENT_BODY_LEN = SETTLEMENT_CONFIG_VERSION_OFFSET + 8"

definition ALLOCATE_MESSAGE_LEN :: nat where
  "ALLOCATE_MESSAGE_LEN = HEADER_LEN + ALLOCATE_BODY_LEN"

definition RECALL_MESSAGE_LEN :: nat where
  "RECALL_MESSAGE_LEN = HEADER_LEN + RECALL_BODY_LEN"

definition REMOTE_REPORT_MESSAGE_LEN :: nat where
  "REMOTE_REPORT_MESSAGE_LEN = HEADER_LEN + REMOTE_REPORT_BODY_LEN"

definition RECALL_SENT_MESSAGE_LEN :: nat where
  "RECALL_SENT_MESSAGE_LEN = HEADER_LEN + RECALL_SENT_BODY_LEN"

definition CONFIG_UPDATE_MESSAGE_LEN :: nat where
  "CONFIG_UPDATE_MESSAGE_LEN = HEADER_LEN + CONFIG_UPDATE_BODY_LEN"

definition RESOLVE_MESSAGE_LEN :: nat where
  "RESOLVE_MESSAGE_LEN = HEADER_LEN + RESOLVE_BODY_LEN"

definition TRANSPORT_SETTLEMENT_MESSAGE_LEN :: nat where
  "TRANSPORT_SETTLEMENT_MESSAGE_LEN = HEADER_LEN + TRANSPORT_SETTLEMENT_BODY_LEN"

definition MAX_BODY_LEN :: nat where
  "MAX_BODY_LEN = REMOTE_REPORT_BODY_LEN"

definition MAX_MESSAGE_LEN :: nat where
  "MAX_MESSAGE_LEN = HEADER_LEN + MAX_BODY_LEN"

definition MESSAGE_SIZE_TARGET :: nat where
  "MESSAGE_SIZE_TARGET = 400"

section \<open>Field tables\<close>

type_synonym field = "nat \<times> nat"

definition HEADER_FIELDS :: "field list" where
  "HEADER_FIELDS =
     [(MAGIC_OFFSET, MAGIC_LEN),
      (PROTOCOL_VERSION_OFFSET, 2),
      (SCHEMA_VERSION_OFFSET, 2),
      (MESSAGE_TYPE_OFFSET, 1),
      (FLAGS_OFFSET, 2),
      (SOURCE_CHAIN_OFFSET, 4),
      (DESTINATION_CHAIN_OFFSET, 4),
      (SOURCE_APPLICATION_OFFSET, WIDE),
      (DESTINATION_APPLICATION_OFFSET, WIDE),
      (DEPLOYMENT_ID_OFFSET, WIDE),
      (VAULT_ID_OFFSET, WIDE),
      (LANE_ID_OFFSET, 4),
      (SEQUENCE_OFFSET, 8),
      (PREVIOUS_COMMITMENT_OFFSET, WIDE),
      (OBSERVED_AT_OFFSET, 8),
      (PUBLISHED_AT_OFFSET, 8),
      (EXPIRES_AT_OFFSET, 8),
      (BODY_HASH_OFFSET, WIDE)]"

definition ALLOCATE_FIELDS :: "field list" where
  "ALLOCATE_FIELDS =
     [(ALLOCATE_TRANSFER_ID_OFFSET, WIDE),
      (ALLOCATE_AMOUNT_OFFSET, 16),
      (ALLOCATE_EXPECTED_SOURCE_BALANCE_OFFSET, 16),
      (ALLOCATE_MINIMUM_DESTINATION_AMOUNT_OFFSET, 16),
      (ALLOCATE_DEADLINE_OFFSET, 8),
      (ALLOCATE_CONFIG_VERSION_OFFSET, 8)]"

definition RECALL_FIELDS :: "field list" where
  "RECALL_FIELDS =
     [(RECALL_TRANSFER_ID_OFFSET, WIDE),
      (RECALL_REQUESTED_AMOUNT_OFFSET, 16),
      (RECALL_MINIMUM_RETURN_AMOUNT_OFFSET, 16),
      (RECALL_DEADLINE_OFFSET, 8),
      (RECALL_CONFIG_VERSION_OFFSET, 8)]"

definition REMOTE_REPORT_FIELDS :: "field list" where
  "REMOTE_REPORT_FIELDS =
     [(REPORT_EPOCH_ID_OFFSET, 8),
      (REPORT_REMOTE_PRINCIPAL_OFFSET, 16),
      (REPORT_REPORTED_VALUE_OFFSET, 16),
      (REPORT_REALIZED_LOSS_OFFSET, 16),
      (REPORT_UNATTRIBUTED_BALANCE_OFFSET, 16),
      (REPORT_LATEST_COMPLETED_TRANSFER_ID_OFFSET, WIDE),
      (REPORT_PROBE_STATUS_OFFSET, 1),
      (REPORT_PROBE_TIMESTAMP_OFFSET, 8),
      (REPORT_CONFIG_VERSION_OFFSET, 8),
      (REPORT_REMOTE_STATE_COMMITMENT_OFFSET, WIDE)]"

definition RECALL_SENT_FIELDS :: "field list" where
  "RECALL_SENT_FIELDS =
     [(RECALL_SENT_TRANSFER_ID_OFFSET, WIDE),
      (RECALL_SENT_PRINCIPAL_SENT_OFFSET, 16),
      (RECALL_SENT_ACTUAL_AMOUNT_SENT_OFFSET, 16),
      (RECALL_SENT_REALIZED_LOSS_OFFSET, 16),
      (RECALL_SENT_DESTINATION_REFERENCE_OFFSET, WIDE),
      (RECALL_SENT_SENT_TIMESTAMP_OFFSET, 8),
      (RECALL_SENT_CONFIG_VERSION_OFFSET, 8)]"

definition CONFIG_UPDATE_FIELDS :: "field list" where
  "CONFIG_UPDATE_FIELDS =
     [(CONFIG_VERSION_OFFSET, 8),
      (CONFIG_PREVIOUS_VERSION_OFFSET, 8),
      (CONFIG_MAX_REMOTE_ALLOCATION_BPS_OFFSET, 2),
      (CONFIG_MAX_UPWARD_DEVIATION_BPS_OFFSET, 2),
      (CONFIG_MAX_DOWNWARD_DEVIATION_BPS_OFFSET, 2),
      (CONFIG_MAX_REPORT_AGE_OFFSET, 8),
      (CONFIG_EFFECTIVE_TIMESTAMP_OFFSET, 8),
      (CONFIG_COMMITMENT_OFFSET, WIDE)]"

definition RESOLVE_FIELDS :: "field list" where
  "RESOLVE_FIELDS =
     [(RESOLVE_TRANSFER_ID_OFFSET, WIDE),
      (RESOLVE_TARGET_SEQUENCE_OFFSET, 8),
      (RESOLVE_ACTION_OFFSET, 1),
      (RESOLVE_CONFIG_VERSION_OFFSET, 8)]"

definition TRANSPORT_SETTLEMENT_FIELDS :: "field list" where
  "TRANSPORT_SETTLEMENT_FIELDS =
     [(SETTLEMENT_TRANSFER_ID_OFFSET, WIDE),
      (SETTLEMENT_KIND_OFFSET, 1),
      (SETTLEMENT_CLAIM_AMOUNT_OFFSET, 16),
      (SETTLEMENT_CREDITED_AMOUNT_OFFSET, 16),
      (SETTLEMENT_IMPAIRED_OUTSTANDING_OFFSET, 16),
      (SETTLEMENT_CONFIG_VERSION_OFFSET, 8)]"

definition BODY_WIDTHS :: "nat list" where
  "BODY_WIDTHS =
     [ALLOCATE_BODY_LEN,
      RECALL_BODY_LEN,
      REMOTE_REPORT_BODY_LEN,
      RECALL_SENT_BODY_LEN,
      CONFIG_UPDATE_BODY_LEN,
      RESOLVE_BODY_LEN,
      TRANSPORT_SETTLEMENT_BODY_LEN]"

section \<open>Compile time checks\<close>

text \<open>
  \<open>is_contiguous\<close> is the loop over the fields with \<open>expected\<close> as its state;
  \<open>all_distinct\<close> is the nest of two loops, the inner one over what follows \<open>left\<close>.
\<close>

fun contiguous_from :: "nat \<Rightarrow> field list \<Rightarrow> nat \<Rightarrow> bool" where
  "contiguous_from expected [] len = (expected = len)"
| "contiguous_from expected ((start, width) # fields) len =
     (if start \<noteq> expected \<or> width = 0 then False
      else contiguous_from (expected + width) fields len)"

definition is_contiguous :: "field list \<Rightarrow> nat \<Rightarrow> bool" where
  "is_contiguous fields len = contiguous_from 0 fields len"

fun no_repeat_of :: "nat \<Rightarrow> nat list \<Rightarrow> bool" where
  "no_repeat_of w [] = True"
| "no_repeat_of w (x # xs) = (if w = x then False else no_repeat_of w xs)"

fun all_distinct :: "nat list \<Rightarrow> bool" where
  "all_distinct [] = True"
| "all_distinct (w # ws) = (if no_repeat_of w ws then all_distinct ws else False)"

section \<open>Values\<close>

lemma layout_values [layout_simps]:
  "WIDE = 32"
  "MAGIC_OFFSET = 0"
  "MAGIC_LEN = 4"
  "PROTOCOL_VERSION_OFFSET = 4"
  "SCHEMA_VERSION_OFFSET = 6"
  "MESSAGE_TYPE_OFFSET = 8"
  "FLAGS_OFFSET = 9"
  "SOURCE_CHAIN_OFFSET = 11"
  "DESTINATION_CHAIN_OFFSET = 15"
  "SOURCE_APPLICATION_OFFSET = 19"
  "DESTINATION_APPLICATION_OFFSET = 51"
  "DEPLOYMENT_ID_OFFSET = 83"
  "VAULT_ID_OFFSET = 115"
  "LANE_ID_OFFSET = 147"
  "SEQUENCE_OFFSET = 151"
  "PREVIOUS_COMMITMENT_OFFSET = 159"
  "OBSERVED_AT_OFFSET = 191"
  "PUBLISHED_AT_OFFSET = 199"
  "EXPIRES_AT_OFFSET = 207"
  "BODY_HASH_OFFSET = 215"
  "HEADER_LEN = 247"
  "ALLOCATE_TRANSFER_ID_OFFSET = 0"
  "ALLOCATE_AMOUNT_OFFSET = 32"
  "ALLOCATE_EXPECTED_SOURCE_BALANCE_OFFSET = 48"
  "ALLOCATE_MINIMUM_DESTINATION_AMOUNT_OFFSET = 64"
  "ALLOCATE_DEADLINE_OFFSET = 80"
  "ALLOCATE_CONFIG_VERSION_OFFSET = 88"
  "ALLOCATE_BODY_LEN = 96"
  "RECALL_TRANSFER_ID_OFFSET = 0"
  "RECALL_REQUESTED_AMOUNT_OFFSET = 32"
  "RECALL_MINIMUM_RETURN_AMOUNT_OFFSET = 48"
  "RECALL_DEADLINE_OFFSET = 64"
  "RECALL_CONFIG_VERSION_OFFSET = 72"
  "RECALL_BODY_LEN = 80"
  "REPORT_EPOCH_ID_OFFSET = 0"
  "REPORT_REMOTE_PRINCIPAL_OFFSET = 8"
  "REPORT_REPORTED_VALUE_OFFSET = 24"
  "REPORT_REALIZED_LOSS_OFFSET = 40"
  "REPORT_UNATTRIBUTED_BALANCE_OFFSET = 56"
  "REPORT_LATEST_COMPLETED_TRANSFER_ID_OFFSET = 72"
  "REPORT_PROBE_STATUS_OFFSET = 104"
  "REPORT_PROBE_TIMESTAMP_OFFSET = 105"
  "REPORT_CONFIG_VERSION_OFFSET = 113"
  "REPORT_REMOTE_STATE_COMMITMENT_OFFSET = 121"
  "REMOTE_REPORT_BODY_LEN = 153"
  "RECALL_SENT_TRANSFER_ID_OFFSET = 0"
  "RECALL_SENT_PRINCIPAL_SENT_OFFSET = 32"
  "RECALL_SENT_ACTUAL_AMOUNT_SENT_OFFSET = 48"
  "RECALL_SENT_REALIZED_LOSS_OFFSET = 64"
  "RECALL_SENT_DESTINATION_REFERENCE_OFFSET = 80"
  "RECALL_SENT_SENT_TIMESTAMP_OFFSET = 112"
  "RECALL_SENT_CONFIG_VERSION_OFFSET = 120"
  "RECALL_SENT_BODY_LEN = 128"
  "CONFIG_VERSION_OFFSET = 0"
  "CONFIG_PREVIOUS_VERSION_OFFSET = 8"
  "CONFIG_MAX_REMOTE_ALLOCATION_BPS_OFFSET = 16"
  "CONFIG_MAX_UPWARD_DEVIATION_BPS_OFFSET = 18"
  "CONFIG_MAX_DOWNWARD_DEVIATION_BPS_OFFSET = 20"
  "CONFIG_MAX_REPORT_AGE_OFFSET = 22"
  "CONFIG_EFFECTIVE_TIMESTAMP_OFFSET = 30"
  "CONFIG_COMMITMENT_OFFSET = 38"
  "CONFIG_UPDATE_BODY_LEN = 70"
  "RESOLVE_TRANSFER_ID_OFFSET = 0"
  "RESOLVE_TARGET_SEQUENCE_OFFSET = 32"
  "RESOLVE_ACTION_OFFSET = 40"
  "RESOLVE_CONFIG_VERSION_OFFSET = 41"
  "RESOLVE_BODY_LEN = 49"
  "SETTLEMENT_TRANSFER_ID_OFFSET = 0"
  "SETTLEMENT_KIND_OFFSET = 32"
  "SETTLEMENT_CLAIM_AMOUNT_OFFSET = 33"
  "SETTLEMENT_CREDITED_AMOUNT_OFFSET = 49"
  "SETTLEMENT_IMPAIRED_OUTSTANDING_OFFSET = 65"
  "SETTLEMENT_CONFIG_VERSION_OFFSET = 81"
  "TRANSPORT_SETTLEMENT_BODY_LEN = 89"
  "ALLOCATE_MESSAGE_LEN = 343"
  "RECALL_MESSAGE_LEN = 327"
  "REMOTE_REPORT_MESSAGE_LEN = 400"
  "RECALL_SENT_MESSAGE_LEN = 375"
  "CONFIG_UPDATE_MESSAGE_LEN = 317"
  "RESOLVE_MESSAGE_LEN = 296"
  "TRANSPORT_SETTLEMENT_MESSAGE_LEN = 336"
  "MAX_BODY_LEN = 153"
  "MAX_MESSAGE_LEN = 400"
  "MESSAGE_SIZE_TARGET = 400"
  by (simp_all add:
      WIDE_def MAGIC_OFFSET_def MAGIC_LEN_def PROTOCOL_VERSION_OFFSET_def
      SCHEMA_VERSION_OFFSET_def MESSAGE_TYPE_OFFSET_def FLAGS_OFFSET_def
      SOURCE_CHAIN_OFFSET_def DESTINATION_CHAIN_OFFSET_def SOURCE_APPLICATION_OFFSET_def
      DESTINATION_APPLICATION_OFFSET_def DEPLOYMENT_ID_OFFSET_def VAULT_ID_OFFSET_def
      LANE_ID_OFFSET_def SEQUENCE_OFFSET_def PREVIOUS_COMMITMENT_OFFSET_def
      OBSERVED_AT_OFFSET_def PUBLISHED_AT_OFFSET_def EXPIRES_AT_OFFSET_def BODY_HASH_OFFSET_def
      HEADER_LEN_def ALLOCATE_TRANSFER_ID_OFFSET_def ALLOCATE_AMOUNT_OFFSET_def
      ALLOCATE_EXPECTED_SOURCE_BALANCE_OFFSET_def
      ALLOCATE_MINIMUM_DESTINATION_AMOUNT_OFFSET_def ALLOCATE_DEADLINE_OFFSET_def
      ALLOCATE_CONFIG_VERSION_OFFSET_def ALLOCATE_BODY_LEN_def RECALL_TRANSFER_ID_OFFSET_def
      RECALL_REQUESTED_AMOUNT_OFFSET_def RECALL_MINIMUM_RETURN_AMOUNT_OFFSET_def
      RECALL_DEADLINE_OFFSET_def RECALL_CONFIG_VERSION_OFFSET_def RECALL_BODY_LEN_def
      REPORT_EPOCH_ID_OFFSET_def REPORT_REMOTE_PRINCIPAL_OFFSET_def
      REPORT_REPORTED_VALUE_OFFSET_def REPORT_REALIZED_LOSS_OFFSET_def
      REPORT_UNATTRIBUTED_BALANCE_OFFSET_def REPORT_LATEST_COMPLETED_TRANSFER_ID_OFFSET_def
      REPORT_PROBE_STATUS_OFFSET_def REPORT_PROBE_TIMESTAMP_OFFSET_def
      REPORT_CONFIG_VERSION_OFFSET_def REPORT_REMOTE_STATE_COMMITMENT_OFFSET_def
      REMOTE_REPORT_BODY_LEN_def RECALL_SENT_TRANSFER_ID_OFFSET_def
      RECALL_SENT_PRINCIPAL_SENT_OFFSET_def RECALL_SENT_ACTUAL_AMOUNT_SENT_OFFSET_def
      RECALL_SENT_REALIZED_LOSS_OFFSET_def RECALL_SENT_DESTINATION_REFERENCE_OFFSET_def
      RECALL_SENT_SENT_TIMESTAMP_OFFSET_def RECALL_SENT_CONFIG_VERSION_OFFSET_def
      RECALL_SENT_BODY_LEN_def CONFIG_VERSION_OFFSET_def CONFIG_PREVIOUS_VERSION_OFFSET_def
      CONFIG_MAX_REMOTE_ALLOCATION_BPS_OFFSET_def CONFIG_MAX_UPWARD_DEVIATION_BPS_OFFSET_def
      CONFIG_MAX_DOWNWARD_DEVIATION_BPS_OFFSET_def CONFIG_MAX_REPORT_AGE_OFFSET_def
      CONFIG_EFFECTIVE_TIMESTAMP_OFFSET_def CONFIG_COMMITMENT_OFFSET_def
      CONFIG_UPDATE_BODY_LEN_def RESOLVE_TRANSFER_ID_OFFSET_def
      RESOLVE_TARGET_SEQUENCE_OFFSET_def RESOLVE_ACTION_OFFSET_def
      RESOLVE_CONFIG_VERSION_OFFSET_def RESOLVE_BODY_LEN_def SETTLEMENT_TRANSFER_ID_OFFSET_def
      SETTLEMENT_KIND_OFFSET_def SETTLEMENT_CLAIM_AMOUNT_OFFSET_def
      SETTLEMENT_CREDITED_AMOUNT_OFFSET_def SETTLEMENT_IMPAIRED_OUTSTANDING_OFFSET_def
      SETTLEMENT_CONFIG_VERSION_OFFSET_def TRANSPORT_SETTLEMENT_BODY_LEN_def
      ALLOCATE_MESSAGE_LEN_def RECALL_MESSAGE_LEN_def REMOTE_REPORT_MESSAGE_LEN_def
      RECALL_SENT_MESSAGE_LEN_def CONFIG_UPDATE_MESSAGE_LEN_def RESOLVE_MESSAGE_LEN_def
      TRANSPORT_SETTLEMENT_MESSAGE_LEN_def MAX_BODY_LEN_def MAX_MESSAGE_LEN_def
      MESSAGE_SIZE_TARGET_def)

lemmas field_tables =
  HEADER_FIELDS_def ALLOCATE_FIELDS_def RECALL_FIELDS_def REMOTE_REPORT_FIELDS_def
  RECALL_SENT_FIELDS_def CONFIG_UPDATE_FIELDS_def RESOLVE_FIELDS_def
  TRANSPORT_SETTLEMENT_FIELDS_def BODY_WIDTHS_def

section \<open>What the checks establish\<close>

text \<open>
  A contiguous table partitions the region: every byte of it belongs to exactly one
  field, and no field reaches outside.
\<close>

definition in_field :: "nat \<Rightarrow> field \<Rightarrow> bool" where
  "in_field i f = (fst f \<le> i \<and> i < fst f + snd f)"

lemma in_field_pair [simp]: "in_field i (s, w) \<longleftrightarrow> s \<le> i \<and> i < s + w"
  by (simp add: in_field_def)

lemma contiguous_from_bounds:
  "contiguous_from e fields len \<Longrightarrow> e \<le> len \<and> (\<forall>f \<in> set fields. e \<le> fst f \<and> fst f + snd f \<le> len)"
  by (induction e fields len rule: contiguous_from.induct) (fastforce split: if_splits)+

lemma contiguous_from_covers:
  "contiguous_from e fields len \<Longrightarrow> (e \<le> i \<and> i < len) = (\<exists>f \<in> set fields. in_field i f)"
proof (induction e fields len rule: contiguous_from.induct)
  case (2 expected start width fields len)
  then have rest: "start = expected" "contiguous_from (expected + width) fields len"
    by (auto split: if_splits)
  with 2 contiguous_from_bounds [OF rest(2)] show ?case
    by (auto split: if_splits)
qed simp

lemma contiguous_from_once:
  "contiguous_from e fields len \<Longrightarrow> e \<le> i \<Longrightarrow> i < len \<Longrightarrow> length (filter (in_field i) fields) = 1"
proof (induction e fields len rule: contiguous_from.induct)
  case (2 expected start width fields len)
  then have rest: "start = expected" "contiguous_from (expected + width) fields len"
    by (auto split: if_splits)
  show ?case
  proof (cases "i < expected + width")
    case True
    then have "filter (in_field i) fields = []"
      using contiguous_from_bounds [OF rest(2)] by (auto simp: filter_empty_conv in_field_def)
    with True 2 rest show ?thesis by simp
  next
    case False
    with 2 rest show ?thesis by (simp split: if_splits)
  qed
qed simp

lemma no_repeat_of_iff [simp]: "no_repeat_of w xs \<longleftrightarrow> w \<notin> set xs"
  by (induction xs) auto

lemma all_distinct_iff [simp]: "all_distinct ws \<longleftrightarrow> distinct ws"
  by (induction ws) auto

end
