(* ===== verification/Wire_Codec.thy ===== *)
theory Wire_Codec
  imports Wire_Errors Wire_Layout
begin

text \<open>
  Bytes of the wire format: big-endian integers, the identifiers of
  \<open>crates/protocol-types/src/identifier.rs\<close> and the reads and writes at an offset of
  \<open>codec.rs\<close>. A wide identifier is 32 opaque bytes, held as the 256-bit word that has
  them in big-endian order; the derived order and equality of the byte array are those
  of the word. An identifier whose name is also that of a type of the accounting
  model, possibly at another width, or of an operation has the prefix \<open>wire_\<close> here.
  \<open>usize\<close> is 64 bits wide, so sums of offsets are checked against \<open>2^64\<close>. A write returns the updated buffer.
\<close>

unbundle bit_operations_syntax

named_theorems codec_simps \<open>reads and writes that stay inside the buffer\<close>

type_synonym bytes = "u8 list"

section \<open>Big-endian integers\<close>

definition to_be_bytes :: "'a::len word \<Rightarrow> bytes" where
  "to_be_bytes w = map (\<lambda>i. ucast (drop_bit (8 * i) w)) (rev [0..<LENGTH('a) div 8])"

definition from_be_bytes :: "bytes \<Rightarrow> 'a::len word" where
  "from_be_bytes bs = foldl (\<lambda>acc b. push_bit 8 acc OR ucast b) 0 bs"

section \<open>Identifiers\<close>

type_synonym application_id = bytes32
type_synonym deployment_id = bytes32
type_synonym vault_id = bytes32
type_synonym wire_transfer_id = bytes32
type_synonym destination_reference = bytes32
type_synonym commitment = bytes32
type_synonym body_hash = bytes32
type_synonym wire_message_id = bytes32
type_synonym protocol_version = u16
type_synonym schema_version = u16
type_synonym chain_id = u32
type_synonym lane_id = u32
type_synonym sequence = u64
type_synonym wire_timestamp = u64
type_synonym wire_config_version = u64
type_synonym wire_epoch_id = u64
type_synonym wire_asset_amount = u128
type_synonym basis_points = u16
type_synonym flags = u16

definition wide_is_zero :: "bytes32 \<Rightarrow> bool" where
  "wide_is_zero i = (to_be_bytes i = replicate 32 0)"

definition is_zero :: "'a::len word \<Rightarrow> bool" where
  "is_zero n = (n = 0)"

definition MAX_BASIS_POINTS :: u16 where
  "MAX_BASIS_POINTS = 10000"

definition is_in_range :: "basis_points \<Rightarrow> bool" where
  "is_in_range rate = (rate \<le> MAX_BASIS_POINTS)"

definition from_evm_address :: "bytes \<Rightarrow> application_id" where
  "from_evm_address address = from_be_bytes (map
     (\<lambda>index. if index < 12 then 0
       else if index - 12 < length address then address ! (index - 12) else 0) [0..<32])"

definition from_solana_pubkey :: "bytes \<Rightarrow> application_id" where
  "from_solana_pubkey key = from_be_bytes key"

definition low_20_bytes :: "application_id \<Rightarrow> bytes" where
  "low_20_bytes i = drop 12 (to_be_bytes i)"

definition has_zero_high_12_bytes :: "application_id \<Rightarrow> bool" where
  "has_zero_high_12_bytes i = (take 12 (to_be_bytes i) = replicate 12 0)"

definition RESERVED_MASK :: u16 where
  "RESERVED_MASK = - 1"

definition has_reserved_bits :: "flags \<Rightarrow> bool" where
  "has_reserved_bits bits = (bits AND RESERVED_MASK \<noteq> 0)"

section \<open>Reads\<close>

definition saturating_u32 :: "nat \<Rightarrow> u32" where
  "saturating_u32 n = (if n < 2 ^ 32 then of_nat n else - 1)"

definition checked_add_usize :: "nat \<Rightarrow> nat \<Rightarrow> nat option" where
  "checked_add_usize a b = (if a + b < 2 ^ 64 then Some (a + b) else None)"

definition window :: "bytes \<Rightarrow> nat \<Rightarrow> nat \<Rightarrow> decode_error + bytes" where
  "window bs offset width =
     and_then (ok_or (checked_add_usize offset width) LengthOverflow) (\<lambda>stop.
     if stop \<le> length bs then Inr (take (stop - offset) (drop offset bs))
     else Inl (Truncated (saturating_u32 stop) (saturating_u32 (length bs))))"

definition read_array :: "nat \<Rightarrow> bytes \<Rightarrow> nat \<Rightarrow> decode_error + bytes" where
  "read_array n bs offset =
     and_then (window bs offset n) (\<lambda>slice.
     if length slice = n then Inr slice else Inl LengthOverflow)"

definition read_u8 :: "bytes \<Rightarrow> nat \<Rightarrow> decode_error + u8" where
  "read_u8 bs offset = and_then (read_array 1 bs offset) (\<lambda>a. Inr (from_be_bytes a))"

definition read_u16 :: "bytes \<Rightarrow> nat \<Rightarrow> decode_error + u16" where
  "read_u16 bs offset = and_then (read_array 2 bs offset) (\<lambda>a. Inr (from_be_bytes a))"

definition read_u32 :: "bytes \<Rightarrow> nat \<Rightarrow> decode_error + u32" where
  "read_u32 bs offset = and_then (read_array 4 bs offset) (\<lambda>a. Inr (from_be_bytes a))"

definition read_u64 :: "bytes \<Rightarrow> nat \<Rightarrow> decode_error + u64" where
  "read_u64 bs offset = and_then (read_array 8 bs offset) (\<lambda>a. Inr (from_be_bytes a))"

definition read_u128 :: "bytes \<Rightarrow> nat \<Rightarrow> decode_error + u128" where
  "read_u128 bs offset = and_then (read_array 16 bs offset) (\<lambda>a. Inr (from_be_bytes a))"

text \<open>A wide identifier is made from \<open>read_array::<32>\<close>.\<close>

definition read_wide :: "bytes \<Rightarrow> nat \<Rightarrow> decode_error + bytes32" where
  "read_wide bs offset = and_then (read_array 32 bs offset) (\<lambda>a. Inr (from_be_bytes a))"

section \<open>Writes\<close>

definition write_bytes :: "bytes \<Rightarrow> nat \<Rightarrow> bytes \<Rightarrow> encode_error + bytes" where
  "write_bytes out offset value =
     (let available = saturating_u32 (length out) in
      and_then (ok_or (checked_add_usize offset (length value)) (BufferTooSmall (- 1) available)) (\<lambda>stop.
      if stop \<le> length out then Inr (take offset out @ value @ drop stop out)
      else Inl (BufferTooSmall (saturating_u32 stop) available)))"

definition write_u8 :: "bytes \<Rightarrow> nat \<Rightarrow> u8 \<Rightarrow> encode_error + bytes" where
  "write_u8 out offset value = write_bytes out offset (to_be_bytes value)"

definition write_u16 :: "bytes \<Rightarrow> nat \<Rightarrow> u16 \<Rightarrow> encode_error + bytes" where
  "write_u16 out offset value = write_bytes out offset (to_be_bytes value)"

definition write_u32 :: "bytes \<Rightarrow> nat \<Rightarrow> u32 \<Rightarrow> encode_error + bytes" where
  "write_u32 out offset value = write_bytes out offset (to_be_bytes value)"

definition write_u64 :: "bytes \<Rightarrow> nat \<Rightarrow> u64 \<Rightarrow> encode_error + bytes" where
  "write_u64 out offset value = write_bytes out offset (to_be_bytes value)"

definition write_u128 :: "bytes \<Rightarrow> nat \<Rightarrow> u128 \<Rightarrow> encode_error + bytes" where
  "write_u128 out offset value = write_bytes out offset (to_be_bytes value)"

section \<open>Round trips of integers\<close>

lemma length_to_be_bytes [simp]: "length (to_be_bytes (w :: 'a::len word)) = LENGTH('a) div 8"
  by (simp add: to_be_bytes_def)

lemma bit_from_be_bytes:
  "bit (from_be_bytes bs :: 'a::len word) k \<longleftrightarrow>
     k < LENGTH('a) \<and> k < 8 * length bs \<and> bit (rev bs ! (k div 8)) (k mod 8)"
proof (induction bs arbitrary: k rule: rev_induct)
  case Nil
  show ?case by (simp add: from_be_bytes_def)
next
  case (snoc b bs)
  have step: "(from_be_bytes (bs @ [b]) :: 'a word) = push_bit 8 (from_be_bytes bs) OR ucast b"
    by (simp add: from_be_bytes_def)
  show ?case
  proof (cases "k < 8")
    case True
    then show ?thesis by (auto simp: step bit_simps)
  next
    case False
    then have "k div 8 = Suc ((k - 8) div 8)" "k mod 8 = (k - 8) mod 8"
      by (simp_all add: div_if mod_if)
    moreover have "\<not> bit b k" using False bit_imp_le_length [of b k] by auto
    ultimately show ?thesis using False
      by (auto simp: step bit_simps snoc.IH)
  qed
qed

lemma nth_to_be_bytes:
  "i < LENGTH('a) div 8 \<Longrightarrow>
   to_be_bytes (w :: 'a::len word) ! i = ucast (drop_bit (8 * (LENGTH('a) div 8 - Suc i)) w)"
  by (simp add: to_be_bytes_def rev_nth)

lemma from_to_be_bytes:
  assumes "8 dvd LENGTH('a)"
  shows "from_be_bytes (to_be_bytes w) = (w :: 'a::len word)"
proof (rule bit_word_eqI)
  fix k assume k: "k < LENGTH('a)"
  then have "k < 8 * (LENGTH('a) div 8)" "k div 8 < LENGTH('a) div 8"
    using assms by (auto simp: less_mult_imp_div_less mult.commute)
  moreover have "8 * (k div 8) + k mod 8 = k" by simp
  ultimately show "bit (from_be_bytes (to_be_bytes w) :: 'a word) k = bit w k"
    using k by (simp add: bit_from_be_bytes to_be_bytes_def rev_map rev_nth bit_simps)
qed

lemma to_from_be_bytes:
  assumes "8 dvd LENGTH('a)" "length bs = LENGTH('a) div 8"
  shows "to_be_bytes (from_be_bytes bs :: 'a::len word) = bs"
proof (rule nth_equalityI)
  show "length (to_be_bytes (from_be_bytes bs :: 'a word)) = length bs"
    by (simp add: assms)
next
  fix i assume "i < length (to_be_bytes (from_be_bytes bs :: 'a word))"
  then have i: "i < length bs" by (simp add: assms)
  have len: "LENGTH('a) = 8 * length bs" using assms by simp
  show "to_be_bytes (from_be_bytes bs :: 'a word) ! i = bs ! i"
  proof (rule bit_word_eqI)
    fix k assume "k < LENGTH(8)"
    then have k: "k < 8" by simp
    define j where "j = length bs - Suc i"
    have j: "j < length bs" "rev bs ! j = bs ! i" using i by (simp_all add: j_def rev_nth)
    have "8 * j + k < 8 * length bs" "(8 * j + k) div 8 = j" "(8 * j + k) mod 8 = k"
      using j k by auto
    then show "bit (to_be_bytes (from_be_bytes bs :: 'a word) ! i) k = bit (bs ! i) k"
      using i k j by (simp add: nth_to_be_bytes assms(2) [symmetric] bit_simps bit_from_be_bytes
          flip: j_def) (simp add: len)
  qed
qed

section \<open>Slices and in-place writes\<close>

text \<open>
  \<open>sub_bytes bs off w\<close> is what a read inside the buffer sees, \<open>put out off v\<close> what a write
  inside the buffer leaves. Over a right-nested concatenation of fields both walk to the
  field by its length, so simplification evaluates every codec of the format.
\<close>

definition sub_bytes :: "bytes \<Rightarrow> nat \<Rightarrow> nat \<Rightarrow> bytes" where
  "sub_bytes bs offset width = take width (drop offset bs)"

definition put :: "bytes \<Rightarrow> nat \<Rightarrow> bytes \<Rightarrow> bytes" where
  "put out offset value = take offset out @ value @ drop (offset + length value) out"

lemma length_slice [simp]: "offset + width \<le> length bs \<Longrightarrow> length (sub_bytes bs offset width) = width"
  by (simp add: sub_bytes_def)

lemma length_put [simp]: "offset + length v \<le> length out \<Longrightarrow> length (put out offset v) = length out"
  by (simp add: put_def)

lemma slice_walk [codec_simps]:
  "length f \<le> offset \<Longrightarrow> sub_bytes (f @ r) offset width = sub_bytes r (offset - length f) width"
  "length f = width \<Longrightarrow> sub_bytes (f @ r) 0 width = f"
  "length f = width \<Longrightarrow> sub_bytes f 0 width = f"
  by (simp_all add: sub_bytes_def)

lemma put_walk [codec_simps]:
  "length f \<le> offset \<Longrightarrow> put (f @ r) offset v = f @ put r (offset - length f) v"
  "put r 0 v = v @ drop (length v) r"
  by (simp_all add: put_def Suc_diff_le add.commute)

lemma slice_join:
  "offset + width = stop \<Longrightarrow> sub_bytes bs offset width @ sub_bytes bs stop more = sub_bytes bs offset (width + more)"
  by (auto simp: sub_bytes_def take_add add.commute [of width offset])

section \<open>Reads and writes inside the buffer\<close>

lemma window_ok [codec_simps]:
  "offset + width \<le> length bs \<Longrightarrow> offset + width < 2 ^ 64 \<Longrightarrow>
   window bs offset width = Inr (sub_bytes bs offset width)"
  by (simp add: window_def checked_add_usize_def sub_bytes_def)

lemma read_array_ok [codec_simps]:
  "offset + n \<le> length bs \<Longrightarrow> offset + n < 2 ^ 64 \<Longrightarrow>
   read_array n bs offset = Inr (sub_bytes bs offset n)"
  by (simp add: read_array_def window_ok)

lemma reads_ok [codec_simps]:
  "offset + 1 \<le> length bs \<Longrightarrow> offset + 1 < 2 ^ 64 \<Longrightarrow>
   read_u8 bs offset = Inr (from_be_bytes (sub_bytes bs offset 1))"
  "offset + 2 \<le> length bs \<Longrightarrow> offset + 2 < 2 ^ 64 \<Longrightarrow>
   read_u16 bs offset = Inr (from_be_bytes (sub_bytes bs offset 2))"
  "offset + 4 \<le> length bs \<Longrightarrow> offset + 4 < 2 ^ 64 \<Longrightarrow>
   read_u32 bs offset = Inr (from_be_bytes (sub_bytes bs offset 4))"
  "offset + 8 \<le> length bs \<Longrightarrow> offset + 8 < 2 ^ 64 \<Longrightarrow>
   read_u64 bs offset = Inr (from_be_bytes (sub_bytes bs offset 8))"
  "offset + 16 \<le> length bs \<Longrightarrow> offset + 16 < 2 ^ 64 \<Longrightarrow>
   read_u128 bs offset = Inr (from_be_bytes (sub_bytes bs offset 16))"
  "offset + 32 \<le> length bs \<Longrightarrow> offset + 32 < 2 ^ 64 \<Longrightarrow>
   read_wide bs offset = Inr (from_be_bytes (sub_bytes bs offset 32))"
  by (simp_all add: read_u8_def read_u16_def read_u32_def read_u64_def read_u128_def read_wide_def
      read_array_ok)

lemma write_bytes_ok [codec_simps]:
  "offset + length v \<le> length out \<Longrightarrow> offset + length v < 2 ^ 64 \<Longrightarrow>
   write_bytes out offset v = Inr (put out offset v)"
  by (simp add: write_bytes_def checked_add_usize_def put_def)

lemmas write_defs [codec_simps] =
  write_u8_def write_u16_def write_u32_def write_u64_def write_u128_def

lemma be_bytes_inverse [codec_simps]:
  "from_be_bytes (to_be_bytes (a :: u8)) = a"
  "from_be_bytes (to_be_bytes (b :: u16)) = b"
  "from_be_bytes (to_be_bytes (c :: u32)) = c"
  "from_be_bytes (to_be_bytes (d :: u64)) = d"
  "from_be_bytes (to_be_bytes (e :: u128)) = e"
  "from_be_bytes (to_be_bytes (f :: bytes32)) = f"
  by (simp_all add: from_to_be_bytes)

lemma be_bytes_canonical:
  "offset + 1 \<le> length bs \<Longrightarrow> to_be_bytes (from_be_bytes (sub_bytes bs offset 1) :: u8) = sub_bytes bs offset 1"
  "offset + 2 \<le> length bs \<Longrightarrow> to_be_bytes (from_be_bytes (sub_bytes bs offset 2) :: u16) = sub_bytes bs offset 2"
  "offset + 4 \<le> length bs \<Longrightarrow> to_be_bytes (from_be_bytes (sub_bytes bs offset 4) :: u32) = sub_bytes bs offset 4"
  "offset + 8 \<le> length bs \<Longrightarrow> to_be_bytes (from_be_bytes (sub_bytes bs offset 8) :: u64) = sub_bytes bs offset 8"
  "offset + 16 \<le> length bs \<Longrightarrow> to_be_bytes (from_be_bytes (sub_bytes bs offset 16) :: u128) = sub_bytes bs offset 16"
  "offset + 32 \<le> length bs \<Longrightarrow> to_be_bytes (from_be_bytes (sub_bytes bs offset 32) :: bytes32) = sub_bytes bs offset 32"
  by (simp_all add: to_from_be_bytes)

lemma wide_is_zero_iff [simp]: "wide_is_zero w \<longleftrightarrow> w = 0"
proof -
  have "to_be_bytes (0 :: bytes32) = replicate 32 0"
    by (simp add: to_be_bytes_def map_replicate_const)
  then show ?thesis
    by (auto simp: wide_is_zero_def dest: arg_cong [where f = from_be_bytes])
      (metis be_bytes_inverse(6))
qed

lemma is_zero_iff [simp]: "is_zero w \<longleftrightarrow> w = 0"
  by (simp add: is_zero_def)

lemma has_reserved_bits_iff [simp]: "has_reserved_bits f \<longleftrightarrow> f \<noteq> 0"
  by (simp add: has_reserved_bits_def RESERVED_MASK_def)

section \<open>Reads past the end\<close>

lemma window_short:
  "offset + width < 2 ^ 64 \<Longrightarrow> length bs < offset + width \<Longrightarrow>
   window bs offset width = Inl (Truncated (saturating_u32 (offset + width)) (saturating_u32 (length bs)))"
  by (simp add: window_def checked_add_usize_def)

section \<open>Addresses\<close>

lemma evm_address_bytes:
  assumes "length address = 20"
  shows "to_be_bytes (from_evm_address address) = replicate 12 0 @ address"
proof -
  have "map (\<lambda>index. if index < 12 then 0
      else if index - 12 < length address then address ! (index - 12) else 0) [0..<32] = replicate 12 0 @ address"
    by (rule nth_equalityI) (auto simp: assms nth_append)
  then show ?thesis
    by (simp add: from_evm_address_def to_from_be_bytes assms)
qed

lemma wide_bytes_eq: "a = b \<longleftrightarrow> to_be_bytes a = to_be_bytes b" for a b :: bytes32
  by (metis be_bytes_inverse(6))

end
