(* ===== verification/Wire_Bodies.thy ===== *)
theory Wire_Bodies
  imports Wire_Codec
begin

text \<open>
  The fixed width bodies of the wire format (\<open>crates/protocol-types/src/body/*.rs\<close>) and
  the message kinds of \<open>message.rs\<close>. Every body has its record, its writer, its reader and
  its field rules, in the order of the source; \<open>body\<close> dispatches over the seven kinds.

  The locale \<open>wire_enum\<close> states what a wire discriminant promises and \<open>body_codec\<close> what a
  body's writer and reader promise with respect to a reference encoding, the plain
  concatenation of the fields. Both are interpreted on every discriminant and every body.
\<close>

named_theorems rule_simps \<open>field rules as conjunctions\<close>

section \<open>Discriminants\<close>

datatype message_type =
    TAllocate | TRecall | TRemoteReport | TRecallSent | TConfigUpdate | TResolve
  | TTransportSettlement

definition ALL_TYPES :: "message_type list" where
  "ALL_TYPES =
     [TAllocate, TRecall, TRemoteReport, TRecallSent, TConfigUpdate, TResolve, TTransportSettlement]"

fun type_to_u8 :: "message_type \<Rightarrow> u8" where
  "type_to_u8 TAllocate = 1"
| "type_to_u8 TRecall = 2"
| "type_to_u8 TRemoteReport = 3"
| "type_to_u8 TRecallSent = 4"
| "type_to_u8 TConfigUpdate = 5"
| "type_to_u8 TResolve = 6"
| "type_to_u8 TTransportSettlement = 7"

definition type_from_u8 :: "u8 \<Rightarrow> decode_error + message_type" where
  "type_from_u8 value =
     (if value = 1 then Inr TAllocate else if value = 2 then Inr TRecall
      else if value = 3 then Inr TRemoteReport else if value = 4 then Inr TRecallSent
      else if value = 5 then Inr TConfigUpdate else if value = 6 then Inr TResolve
      else if value = 7 then Inr TTransportSettlement else Inl (UnknownMessageType value))"

fun body_len :: "message_type \<Rightarrow> nat" where
  "body_len TAllocate = ALLOCATE_BODY_LEN"
| "body_len TRecall = RECALL_BODY_LEN"
| "body_len TRemoteReport = REMOTE_REPORT_BODY_LEN"
| "body_len TRecallSent = RECALL_SENT_BODY_LEN"
| "body_len TConfigUpdate = CONFIG_UPDATE_BODY_LEN"
| "body_len TResolve = RESOLVE_BODY_LEN"
| "body_len TTransportSettlement = TRANSPORT_SETTLEMENT_BODY_LEN"

fun message_len :: "message_type \<Rightarrow> nat" where
  "message_len TAllocate = ALLOCATE_MESSAGE_LEN"
| "message_len TRecall = RECALL_MESSAGE_LEN"
| "message_len TRemoteReport = REMOTE_REPORT_MESSAGE_LEN"
| "message_len TRecallSent = RECALL_SENT_MESSAGE_LEN"
| "message_len TConfigUpdate = CONFIG_UPDATE_MESSAGE_LEN"
| "message_len TResolve = RESOLVE_MESSAGE_LEN"
| "message_len TTransportSettlement = TRANSPORT_SETTLEMENT_MESSAGE_LEN"

datatype probe_status = NotRequired | Fresh | Stale | Failed

definition ALL_PROBES :: "probe_status list" where
  "ALL_PROBES = [NotRequired, Fresh, Stale, Failed]"

fun probe_to_u8 :: "probe_status \<Rightarrow> u8" where
  "probe_to_u8 NotRequired = 0"
| "probe_to_u8 Fresh = 1"
| "probe_to_u8 Stale = 2"
| "probe_to_u8 Failed = 3"

definition probe_from_u8 :: "u8 \<Rightarrow> decode_error + probe_status" where
  "probe_from_u8 value =
     (if value = 0 then Inr NotRequired else if value = 1 then Inr Fresh
      else if value = 2 then Inr Stale else if value = 3 then Inr Failed
      else Inl (InvalidProbeStatus value))"

datatype resolve_action = Admit | Close | Recover

definition ALL_ACTIONS :: "resolve_action list" where
  "ALL_ACTIONS = [Admit, Close, Recover]"

fun action_to_u8 :: "resolve_action \<Rightarrow> u8" where
  "action_to_u8 Admit = 1"
| "action_to_u8 Close = 2"
| "action_to_u8 Recover = 3"

definition action_from_u8 :: "u8 \<Rightarrow> decode_error + resolve_action" where
  "action_from_u8 value =
     (if value = 1 then Inr Admit else if value = 2 then Inr Close
      else if value = 3 then Inr Recover else Inl (UnknownResolveAction value))"

datatype settlement_kind = Closed | Recovered

definition ALL_KINDS :: "settlement_kind list" where
  "ALL_KINDS = [Closed, Recovered]"

fun kind_to_u8 :: "settlement_kind \<Rightarrow> u8" where
  "kind_to_u8 Closed = 1"
| "kind_to_u8 Recovered = 2"

definition kind_from_u8 :: "u8 \<Rightarrow> decode_error + settlement_kind" where
  "kind_from_u8 value =
     (if value = 1 then Inr Closed else if value = 2 then Inr Recovered
      else Inl (UnknownSettlementKind value))"

section \<open>Bodies\<close>

text \<open>The two envelope times a body is checked against.\<close>

record envelope_times =
  et_observed_at :: wire_timestamp
  et_published_at :: wire_timestamp

subsection \<open>Allocate\<close>

record allocate_body =
  al_transfer_id :: wire_transfer_id
  al_amount :: wire_asset_amount
  al_expected_source_balance :: wire_asset_amount
  al_minimum_destination_amount :: wire_asset_amount
  al_deadline :: wire_timestamp
  al_config_version :: wire_config_version

definition allocate_encode_into :: "allocate_body \<Rightarrow> bytes \<Rightarrow> encode_error + bytes" where
  "allocate_encode_into b out =
     and_then (write_bytes out ALLOCATE_TRANSFER_ID_OFFSET (to_be_bytes (al_transfer_id b))) (\<lambda>out.
     and_then (write_u128 out ALLOCATE_AMOUNT_OFFSET (al_amount b)) (\<lambda>out.
     and_then (write_u128 out ALLOCATE_EXPECTED_SOURCE_BALANCE_OFFSET (al_expected_source_balance b)) (\<lambda>out.
     and_then (write_u128 out ALLOCATE_MINIMUM_DESTINATION_AMOUNT_OFFSET (al_minimum_destination_amount b)) (\<lambda>out.
     and_then (write_u64 out ALLOCATE_DEADLINE_OFFSET (al_deadline b)) (\<lambda>out.
     write_u64 out ALLOCATE_CONFIG_VERSION_OFFSET (al_config_version b))))))"

definition allocate_decode :: "bytes \<Rightarrow> decode_error + allocate_body" where
  "allocate_decode bs =
     and_then (read_wide bs ALLOCATE_TRANSFER_ID_OFFSET) (\<lambda>transfer_id.
     and_then (read_u128 bs ALLOCATE_AMOUNT_OFFSET) (\<lambda>amount.
     and_then (read_u128 bs ALLOCATE_EXPECTED_SOURCE_BALANCE_OFFSET) (\<lambda>expected_source_balance.
     and_then (read_u128 bs ALLOCATE_MINIMUM_DESTINATION_AMOUNT_OFFSET) (\<lambda>minimum_destination_amount.
     and_then (read_u64 bs ALLOCATE_DEADLINE_OFFSET) (\<lambda>deadline.
     and_then (read_u64 bs ALLOCATE_CONFIG_VERSION_OFFSET) (\<lambda>config_version.
     Inr \<lparr>al_transfer_id = transfer_id, al_amount = amount, 
       al_expected_source_balance = expected_source_balance, 
       al_minimum_destination_amount = minimum_destination_amount, al_deadline = deadline, 
       al_config_version = config_version\<rparr>))))))"

definition allocate_validate :: "allocate_body \<Rightarrow> wire_timestamp \<Rightarrow> validation_error + unit" where
  "allocate_validate b published_at =
     (if wide_is_zero (al_transfer_id b) then Inl (ZeroIdentifier Transfer)
      else if is_zero (al_amount b) then Inl (ZeroAmount Amount)
      else if is_zero (al_minimum_destination_amount b) then Inl (ZeroAmount MinimumDestinationAmount)
      else if al_amount b < al_minimum_destination_amount b then Inl MinimumAboveAmount
      else if al_deadline b < published_at then Inl DeadlineBeforePublication
      else if is_zero (al_config_version b) then Inl (ZeroIdentifier ConfigVersion)
      else Inr ())"

subsection \<open>Recall\<close>

record recall_body =
  rc_transfer_id :: wire_transfer_id
  rc_requested_amount :: wire_asset_amount
  rc_minimum_return_amount :: wire_asset_amount
  rc_deadline :: wire_timestamp
  rc_config_version :: wire_config_version

definition recall_encode_into :: "recall_body \<Rightarrow> bytes \<Rightarrow> encode_error + bytes" where
  "recall_encode_into b out =
     and_then (write_bytes out RECALL_TRANSFER_ID_OFFSET (to_be_bytes (rc_transfer_id b))) (\<lambda>out.
     and_then (write_u128 out RECALL_REQUESTED_AMOUNT_OFFSET (rc_requested_amount b)) (\<lambda>out.
     and_then (write_u128 out RECALL_MINIMUM_RETURN_AMOUNT_OFFSET (rc_minimum_return_amount b)) (\<lambda>out.
     and_then (write_u64 out RECALL_DEADLINE_OFFSET (rc_deadline b)) (\<lambda>out.
     write_u64 out RECALL_CONFIG_VERSION_OFFSET (rc_config_version b)))))"

definition recall_decode :: "bytes \<Rightarrow> decode_error + recall_body" where
  "recall_decode bs =
     and_then (read_wide bs RECALL_TRANSFER_ID_OFFSET) (\<lambda>transfer_id.
     and_then (read_u128 bs RECALL_REQUESTED_AMOUNT_OFFSET) (\<lambda>requested_amount.
     and_then (read_u128 bs RECALL_MINIMUM_RETURN_AMOUNT_OFFSET) (\<lambda>minimum_return_amount.
     and_then (read_u64 bs RECALL_DEADLINE_OFFSET) (\<lambda>deadline.
     and_then (read_u64 bs RECALL_CONFIG_VERSION_OFFSET) (\<lambda>config_version.
     Inr \<lparr>rc_transfer_id = transfer_id, rc_requested_amount = requested_amount, 
       rc_minimum_return_amount = minimum_return_amount, rc_deadline = deadline, 
       rc_config_version = config_version\<rparr>)))))"

definition recall_validate :: "recall_body \<Rightarrow> wire_timestamp \<Rightarrow> validation_error + unit" where
  "recall_validate b published_at =
     (if wide_is_zero (rc_transfer_id b) then Inl (ZeroIdentifier Transfer)
      else if is_zero (rc_requested_amount b) then Inl (ZeroAmount RequestedAmount)
      else if is_zero (rc_minimum_return_amount b) then Inl (ZeroAmount MinimumReturnAmount)
      else if rc_requested_amount b < rc_minimum_return_amount b then Inl MinimumAboveAmount
      else if rc_deadline b < published_at then Inl DeadlineBeforePublication
      else if is_zero (rc_config_version b) then Inl (ZeroIdentifier ConfigVersion)
      else Inr ())"

subsection \<open>Remote report\<close>

record remote_report_body =
  rr_epoch_id :: wire_epoch_id
  rr_remote_principal :: wire_asset_amount
  rr_reported_value :: wire_asset_amount
  rr_realized_loss :: wire_asset_amount
  rr_unattributed_balance :: wire_asset_amount
  rr_latest_completed_transfer_id :: wire_transfer_id
  rr_probe_status :: probe_status
  rr_probe_timestamp :: wire_timestamp
  rr_config_version :: wire_config_version
  rr_remote_state_commitment :: commitment

definition remote_report_encode_into :: "remote_report_body \<Rightarrow> bytes \<Rightarrow> encode_error + bytes" where
  "remote_report_encode_into b out =
     and_then (write_u64 out REPORT_EPOCH_ID_OFFSET (rr_epoch_id b)) (\<lambda>out.
     and_then (write_u128 out REPORT_REMOTE_PRINCIPAL_OFFSET (rr_remote_principal b)) (\<lambda>out.
     and_then (write_u128 out REPORT_REPORTED_VALUE_OFFSET (rr_reported_value b)) (\<lambda>out.
     and_then (write_u128 out REPORT_REALIZED_LOSS_OFFSET (rr_realized_loss b)) (\<lambda>out.
     and_then (write_u128 out REPORT_UNATTRIBUTED_BALANCE_OFFSET (rr_unattributed_balance b)) (\<lambda>out.
     and_then (write_bytes out REPORT_LATEST_COMPLETED_TRANSFER_ID_OFFSET (to_be_bytes (rr_latest_completed_transfer_id b))) (\<lambda>out.
     and_then (write_u8 out REPORT_PROBE_STATUS_OFFSET (probe_to_u8 (rr_probe_status b))) (\<lambda>out.
     and_then (write_u64 out REPORT_PROBE_TIMESTAMP_OFFSET (rr_probe_timestamp b)) (\<lambda>out.
     and_then (write_u64 out REPORT_CONFIG_VERSION_OFFSET (rr_config_version b)) (\<lambda>out.
     write_bytes out REPORT_REMOTE_STATE_COMMITMENT_OFFSET (to_be_bytes (rr_remote_state_commitment b)))))))))))"

definition remote_report_decode :: "bytes \<Rightarrow> decode_error + remote_report_body" where
  "remote_report_decode bs =
     and_then (read_u64 bs REPORT_EPOCH_ID_OFFSET) (\<lambda>epoch_id.
     and_then (read_u128 bs REPORT_REMOTE_PRINCIPAL_OFFSET) (\<lambda>remote_principal.
     and_then (read_u128 bs REPORT_REPORTED_VALUE_OFFSET) (\<lambda>reported_value.
     and_then (read_u128 bs REPORT_REALIZED_LOSS_OFFSET) (\<lambda>realized_loss.
     and_then (read_u128 bs REPORT_UNATTRIBUTED_BALANCE_OFFSET) (\<lambda>unattributed_balance.
     and_then (read_wide bs REPORT_LATEST_COMPLETED_TRANSFER_ID_OFFSET) (\<lambda>latest_completed_transfer_id.
     and_then (and_then (read_u8 bs REPORT_PROBE_STATUS_OFFSET) probe_from_u8) (\<lambda>probe_status.
     and_then (read_u64 bs REPORT_PROBE_TIMESTAMP_OFFSET) (\<lambda>probe_timestamp.
     and_then (read_u64 bs REPORT_CONFIG_VERSION_OFFSET) (\<lambda>config_version.
     and_then (read_wide bs REPORT_REMOTE_STATE_COMMITMENT_OFFSET) (\<lambda>remote_state_commitment.
     Inr \<lparr>rr_epoch_id = epoch_id, rr_remote_principal = remote_principal, 
       rr_reported_value = reported_value, rr_realized_loss = realized_loss, 
       rr_unattributed_balance = unattributed_balance, 
       rr_latest_completed_transfer_id = latest_completed_transfer_id, 
       rr_probe_status = probe_status, rr_probe_timestamp = probe_timestamp, 
       rr_config_version = config_version, rr_remote_state_commitment = remote_state_commitment\<rparr>))))))))))"

definition remote_report_validate :: "remote_report_body \<Rightarrow> envelope_times \<Rightarrow> validation_error + unit" where
  "remote_report_validate b env =
     (if is_zero (rr_epoch_id b) then Inl (ZeroIdentifier Epoch)
      else if is_zero (rr_config_version b) then Inl (ZeroIdentifier ConfigVersion)
      else if wide_is_zero (rr_remote_state_commitment b) then Inl (ZeroIdentifier RemoteStateCommitment)
      else if et_observed_at env < rr_probe_timestamp b then Inl ProbeTimestampAfterObservation
      else if rr_probe_status b = Fresh \<and> is_zero (rr_probe_timestamp b) then Inl MissingProbeTimestamp
      else Inr ())"

subsection \<open>Recall sent\<close>

record recall_sent_body =
  rs_transfer_id :: wire_transfer_id
  rs_principal_sent :: wire_asset_amount
  rs_actual_amount_sent :: wire_asset_amount
  rs_realized_loss :: wire_asset_amount
  rs_destination_reference :: destination_reference
  rs_sent_timestamp :: wire_timestamp
  rs_config_version :: wire_config_version

definition recall_sent_encode_into :: "recall_sent_body \<Rightarrow> bytes \<Rightarrow> encode_error + bytes" where
  "recall_sent_encode_into b out =
     and_then (write_bytes out RECALL_SENT_TRANSFER_ID_OFFSET (to_be_bytes (rs_transfer_id b))) (\<lambda>out.
     and_then (write_u128 out RECALL_SENT_PRINCIPAL_SENT_OFFSET (rs_principal_sent b)) (\<lambda>out.
     and_then (write_u128 out RECALL_SENT_ACTUAL_AMOUNT_SENT_OFFSET (rs_actual_amount_sent b)) (\<lambda>out.
     and_then (write_u128 out RECALL_SENT_REALIZED_LOSS_OFFSET (rs_realized_loss b)) (\<lambda>out.
     and_then (write_bytes out RECALL_SENT_DESTINATION_REFERENCE_OFFSET (to_be_bytes (rs_destination_reference b))) (\<lambda>out.
     and_then (write_u64 out RECALL_SENT_SENT_TIMESTAMP_OFFSET (rs_sent_timestamp b)) (\<lambda>out.
     write_u64 out RECALL_SENT_CONFIG_VERSION_OFFSET (rs_config_version b)))))))"

definition recall_sent_decode :: "bytes \<Rightarrow> decode_error + recall_sent_body" where
  "recall_sent_decode bs =
     and_then (read_wide bs RECALL_SENT_TRANSFER_ID_OFFSET) (\<lambda>transfer_id.
     and_then (read_u128 bs RECALL_SENT_PRINCIPAL_SENT_OFFSET) (\<lambda>principal_sent.
     and_then (read_u128 bs RECALL_SENT_ACTUAL_AMOUNT_SENT_OFFSET) (\<lambda>actual_amount_sent.
     and_then (read_u128 bs RECALL_SENT_REALIZED_LOSS_OFFSET) (\<lambda>realized_loss.
     and_then (read_wide bs RECALL_SENT_DESTINATION_REFERENCE_OFFSET) (\<lambda>destination_reference.
     and_then (read_u64 bs RECALL_SENT_SENT_TIMESTAMP_OFFSET) (\<lambda>sent_timestamp.
     and_then (read_u64 bs RECALL_SENT_CONFIG_VERSION_OFFSET) (\<lambda>config_version.
     Inr \<lparr>rs_transfer_id = transfer_id, rs_principal_sent = principal_sent, 
       rs_actual_amount_sent = actual_amount_sent, rs_realized_loss = realized_loss, 
       rs_destination_reference = destination_reference, rs_sent_timestamp = sent_timestamp, 
       rs_config_version = config_version\<rparr>)))))))"

definition recall_sent_validate :: "recall_sent_body \<Rightarrow> envelope_times \<Rightarrow> validation_error + unit" where
  "recall_sent_validate b env =
     (if wide_is_zero (rs_transfer_id b) then Inl (ZeroIdentifier Transfer)
      else if is_zero (rs_principal_sent b) then Inl (ZeroAmount PrincipalSent)
      else if rs_principal_sent b < rs_realized_loss b then Inl RealizedLossAbovePrincipal
      else if wide_is_zero (rs_destination_reference b) then Inl (ZeroIdentifier DestinationReference)
      else if et_observed_at env < rs_sent_timestamp b then Inl SentTimestampAfterObservation
      else if is_zero (rs_config_version b) then Inl (ZeroIdentifier ConfigVersion)
      else Inr ())"

subsection \<open>Config update\<close>

record config_update_body =
  cu_config_version :: wire_config_version
  cu_previous_config_version :: wire_config_version
  cu_max_remote_allocation_bps :: basis_points
  cu_max_upward_deviation_bps :: basis_points
  cu_max_downward_deviation_bps :: basis_points
  cu_max_report_age :: u64
  cu_effective_timestamp :: wire_timestamp
  cu_config_commitment :: commitment

definition config_update_encode_into :: "config_update_body \<Rightarrow> bytes \<Rightarrow> encode_error + bytes" where
  "config_update_encode_into b out =
     and_then (write_u64 out CONFIG_VERSION_OFFSET (cu_config_version b)) (\<lambda>out.
     and_then (write_u64 out CONFIG_PREVIOUS_VERSION_OFFSET (cu_previous_config_version b)) (\<lambda>out.
     and_then (write_u16 out CONFIG_MAX_REMOTE_ALLOCATION_BPS_OFFSET (cu_max_remote_allocation_bps b)) (\<lambda>out.
     and_then (write_u16 out CONFIG_MAX_UPWARD_DEVIATION_BPS_OFFSET (cu_max_upward_deviation_bps b)) (\<lambda>out.
     and_then (write_u16 out CONFIG_MAX_DOWNWARD_DEVIATION_BPS_OFFSET (cu_max_downward_deviation_bps b)) (\<lambda>out.
     and_then (write_u64 out CONFIG_MAX_REPORT_AGE_OFFSET (cu_max_report_age b)) (\<lambda>out.
     and_then (write_u64 out CONFIG_EFFECTIVE_TIMESTAMP_OFFSET (cu_effective_timestamp b)) (\<lambda>out.
     write_bytes out CONFIG_COMMITMENT_OFFSET (to_be_bytes (cu_config_commitment b)))))))))"

definition config_update_decode :: "bytes \<Rightarrow> decode_error + config_update_body" where
  "config_update_decode bs =
     and_then (read_u64 bs CONFIG_VERSION_OFFSET) (\<lambda>config_version.
     and_then (read_u64 bs CONFIG_PREVIOUS_VERSION_OFFSET) (\<lambda>previous_config_version.
     and_then (read_u16 bs CONFIG_MAX_REMOTE_ALLOCATION_BPS_OFFSET) (\<lambda>max_remote_allocation_bps.
     and_then (read_u16 bs CONFIG_MAX_UPWARD_DEVIATION_BPS_OFFSET) (\<lambda>max_upward_deviation_bps.
     and_then (read_u16 bs CONFIG_MAX_DOWNWARD_DEVIATION_BPS_OFFSET) (\<lambda>max_downward_deviation_bps.
     and_then (read_u64 bs CONFIG_MAX_REPORT_AGE_OFFSET) (\<lambda>max_report_age.
     and_then (read_u64 bs CONFIG_EFFECTIVE_TIMESTAMP_OFFSET) (\<lambda>effective_timestamp.
     and_then (read_wide bs CONFIG_COMMITMENT_OFFSET) (\<lambda>config_commitment.
     Inr \<lparr>cu_config_version = config_version, 
       cu_previous_config_version = previous_config_version, 
       cu_max_remote_allocation_bps = max_remote_allocation_bps, 
       cu_max_upward_deviation_bps = max_upward_deviation_bps, 
       cu_max_downward_deviation_bps = max_downward_deviation_bps, 
       cu_max_report_age = max_report_age, cu_effective_timestamp = effective_timestamp, 
       cu_config_commitment = config_commitment\<rparr>))))))))"

definition config_update_validate :: "config_update_body \<Rightarrow> wire_timestamp \<Rightarrow> validation_error + unit" where
  "config_update_validate b published_at =
     (if is_zero (cu_config_version b) then Inl (ZeroIdentifier ConfigVersion)
      else if cu_config_version b \<le> cu_previous_config_version b then Inl ConfigVersionNotIncreasing
      else if list_ex (\<lambda>rate. \<not> is_in_range rate)
        [cu_max_remote_allocation_bps b, cu_max_upward_deviation_bps b, cu_max_downward_deviation_bps b]
      then Inl BasisPointsOutOfRange
      else if cu_max_report_age b = 0 then Inl (ZeroAmount MaxReportAge)
      else if cu_effective_timestamp b < published_at then Inl EffectiveTimestampBeforePublication
      else if wide_is_zero (cu_config_commitment b) then Inl (ZeroIdentifier ConfigCommitment)
      else Inr ())"

subsection \<open>Resolve\<close>

record resolve_body =
  rv_transfer_id :: wire_transfer_id
  rv_target_sequence :: sequence
  rv_action :: resolve_action
  rv_config_version :: wire_config_version

definition resolve_encode_into :: "resolve_body \<Rightarrow> bytes \<Rightarrow> encode_error + bytes" where
  "resolve_encode_into b out =
     and_then (write_bytes out RESOLVE_TRANSFER_ID_OFFSET (to_be_bytes (rv_transfer_id b))) (\<lambda>out.
     and_then (write_u64 out RESOLVE_TARGET_SEQUENCE_OFFSET (rv_target_sequence b)) (\<lambda>out.
     and_then (write_u8 out RESOLVE_ACTION_OFFSET (action_to_u8 (rv_action b))) (\<lambda>out.
     write_u64 out RESOLVE_CONFIG_VERSION_OFFSET (rv_config_version b))))"

definition resolve_decode :: "bytes \<Rightarrow> decode_error + resolve_body" where
  "resolve_decode bs =
     and_then (read_wide bs RESOLVE_TRANSFER_ID_OFFSET) (\<lambda>transfer_id.
     and_then (read_u64 bs RESOLVE_TARGET_SEQUENCE_OFFSET) (\<lambda>target_sequence.
     and_then (and_then (read_u8 bs RESOLVE_ACTION_OFFSET) action_from_u8) (\<lambda>action.
     and_then (read_u64 bs RESOLVE_CONFIG_VERSION_OFFSET) (\<lambda>config_version.
     Inr \<lparr>rv_transfer_id = transfer_id, rv_target_sequence = target_sequence, 
       rv_action = action, rv_config_version = config_version\<rparr>))))"

definition resolve_validate :: "resolve_body \<Rightarrow> sequence \<Rightarrow> validation_error + unit" where
  "resolve_validate b message_sequence =
     (if wide_is_zero (rv_transfer_id b) then Inl (ZeroIdentifier Transfer)
      else if is_zero (rv_target_sequence b) then Inl (ZeroIdentifier TargetSequence)
      else if message_sequence \<le> rv_target_sequence b then Inl TargetNotBeforeResolution
      else if is_zero (rv_config_version b) then Inl (ZeroIdentifier ConfigVersion)
      else Inr ())"

subsection \<open>Transport settlement\<close>

record settlement_body =
  ts_transfer_id :: wire_transfer_id
  ts_kind :: settlement_kind
  ts_claim_amount :: wire_asset_amount
  ts_credited_amount :: wire_asset_amount
  ts_impaired_outstanding :: wire_asset_amount
  ts_config_version :: wire_config_version

definition shortfall :: "settlement_body \<Rightarrow> wire_asset_amount" where
  "shortfall b = saturating_sub_word (ts_claim_amount b) (ts_credited_amount b)"

definition settlement_encode_into :: "settlement_body \<Rightarrow> bytes \<Rightarrow> encode_error + bytes" where
  "settlement_encode_into b out =
     and_then (write_bytes out SETTLEMENT_TRANSFER_ID_OFFSET (to_be_bytes (ts_transfer_id b))) (\<lambda>out.
     and_then (write_u8 out SETTLEMENT_KIND_OFFSET (kind_to_u8 (ts_kind b))) (\<lambda>out.
     and_then (write_u128 out SETTLEMENT_CLAIM_AMOUNT_OFFSET (ts_claim_amount b)) (\<lambda>out.
     and_then (write_u128 out SETTLEMENT_CREDITED_AMOUNT_OFFSET (ts_credited_amount b)) (\<lambda>out.
     and_then (write_u128 out SETTLEMENT_IMPAIRED_OUTSTANDING_OFFSET (ts_impaired_outstanding b)) (\<lambda>out.
     write_u64 out SETTLEMENT_CONFIG_VERSION_OFFSET (ts_config_version b))))))"

definition settlement_decode :: "bytes \<Rightarrow> decode_error + settlement_body" where
  "settlement_decode bs =
     and_then (read_wide bs SETTLEMENT_TRANSFER_ID_OFFSET) (\<lambda>transfer_id.
     and_then (and_then (read_u8 bs SETTLEMENT_KIND_OFFSET) kind_from_u8) (\<lambda>kind.
     and_then (read_u128 bs SETTLEMENT_CLAIM_AMOUNT_OFFSET) (\<lambda>claim_amount.
     and_then (read_u128 bs SETTLEMENT_CREDITED_AMOUNT_OFFSET) (\<lambda>credited_amount.
     and_then (read_u128 bs SETTLEMENT_IMPAIRED_OUTSTANDING_OFFSET) (\<lambda>impaired_outstanding.
     and_then (read_u64 bs SETTLEMENT_CONFIG_VERSION_OFFSET) (\<lambda>config_version.
     Inr \<lparr>ts_transfer_id = transfer_id, ts_kind = kind, ts_claim_amount = claim_amount, 
       ts_credited_amount = credited_amount, ts_impaired_outstanding = impaired_outstanding, 
       ts_config_version = config_version\<rparr>))))))"

definition settlement_validate :: "settlement_body \<Rightarrow> validation_error + unit" where
  "settlement_validate b =
     (if wide_is_zero (ts_transfer_id b) then Inl (ZeroIdentifier Transfer)
      else if is_zero (ts_claim_amount b) then Inl (ZeroAmount ClaimAmount)
      else if ts_claim_amount b < ts_credited_amount b then Inl CreditAboveClaim
      else and_then (case ts_kind b of
          Closed \<Rightarrow> if ts_impaired_outstanding b < shortfall b then Inl ImpairmentBelowShortfall else Inr ()
        | Recovered \<Rightarrow> if ts_impaired_outstanding b \<noteq> shortfall b then Inl RecoveryImpairmentMismatch else Inr ())
        (\<lambda>_. if is_zero (ts_config_version b) then Inl (ZeroIdentifier ConfigVersion) else Inr ()))"

section \<open>The body of one message\<close>

datatype body =
    Allocate allocate_body | Recall recall_body | RemoteReport remote_report_body
  | RecallSent recall_sent_body | ConfigUpdate config_update_body | Resolve resolve_body
  | TransportSettlement settlement_body

fun body_message_type :: "body \<Rightarrow> message_type" where
  "body_message_type (Allocate _) = TAllocate"
| "body_message_type (Recall _) = TRecall"
| "body_message_type (RemoteReport _) = TRemoteReport"
| "body_message_type (RecallSent _) = TRecallSent"
| "body_message_type (ConfigUpdate _) = TConfigUpdate"
| "body_message_type (Resolve _) = TResolve"
| "body_message_type (TransportSettlement _) = TTransportSettlement"

definition body_encoded_len :: "body \<Rightarrow> nat" where
  "body_encoded_len b = body_len (body_message_type b)"

fun body_encode_into :: "body \<Rightarrow> bytes \<Rightarrow> encode_error + bytes" where
  "body_encode_into (Allocate b) out = allocate_encode_into b out"
| "body_encode_into (Recall b) out = recall_encode_into b out"
| "body_encode_into (RemoteReport b) out = remote_report_encode_into b out"
| "body_encode_into (RecallSent b) out = recall_sent_encode_into b out"
| "body_encode_into (ConfigUpdate b) out = config_update_encode_into b out"
| "body_encode_into (Resolve b) out = resolve_encode_into b out"
| "body_encode_into (TransportSettlement b) out = settlement_encode_into b out"

fun body_decode :: "message_type \<Rightarrow> bytes \<Rightarrow> decode_error + body" where
  "body_decode TAllocate bs = map_sum id Allocate (allocate_decode bs)"
| "body_decode TRecall bs = map_sum id Recall (recall_decode bs)"
| "body_decode TRemoteReport bs = map_sum id RemoteReport (remote_report_decode bs)"
| "body_decode TRecallSent bs = map_sum id RecallSent (recall_sent_decode bs)"
| "body_decode TConfigUpdate bs = map_sum id ConfigUpdate (config_update_decode bs)"
| "body_decode TResolve bs = map_sum id Resolve (resolve_decode bs)"
| "body_decode TTransportSettlement bs = map_sum id TransportSettlement (settlement_decode bs)"

fun body_validate :: "body \<Rightarrow> envelope_times \<Rightarrow> sequence \<Rightarrow> validation_error + unit" where
  "body_validate (Allocate b) env message_sequence = allocate_validate b (et_published_at env)"
| "body_validate (Recall b) env message_sequence = recall_validate b (et_published_at env)"
| "body_validate (RemoteReport b) env message_sequence = remote_report_validate b env"
| "body_validate (RecallSent b) env message_sequence = recall_sent_validate b env"
| "body_validate (ConfigUpdate b) env message_sequence = config_update_validate b (et_published_at env)"
| "body_validate (Resolve b) env message_sequence = resolve_validate b message_sequence"
| "body_validate (TransportSettlement b) env message_sequence = settlement_validate b"

section \<open>Reference encodings and rules\<close>

text \<open>
  The reference encoding of a body is the concatenation of its fields. Its rules are one
  conjunction, with the sums of a settlement written over the natural numbers.
\<close>

definition allocate_bytes :: "allocate_body \<Rightarrow> bytes" where
  "allocate_bytes b =
     to_be_bytes (al_transfer_id b) @ to_be_bytes (al_amount b) @
     to_be_bytes (al_expected_source_balance b) @
     to_be_bytes (al_minimum_destination_amount b) @ to_be_bytes (al_deadline b) @
     to_be_bytes (al_config_version b)"

definition allocate_rules :: "allocate_body \<Rightarrow> wire_timestamp \<Rightarrow> bool" where
  "allocate_rules b published_at =
     (al_transfer_id b \<noteq> 0 \<and> 0 < al_minimum_destination_amount b \<and>
      al_minimum_destination_amount b \<le> al_amount b \<and> published_at \<le> al_deadline b \<and>
      al_config_version b \<noteq> 0)"

definition recall_bytes :: "recall_body \<Rightarrow> bytes" where
  "recall_bytes b =
     to_be_bytes (rc_transfer_id b) @ to_be_bytes (rc_requested_amount b) @
     to_be_bytes (rc_minimum_return_amount b) @ to_be_bytes (rc_deadline b) @
     to_be_bytes (rc_config_version b)"

definition recall_rules :: "recall_body \<Rightarrow> wire_timestamp \<Rightarrow> bool" where
  "recall_rules b published_at =
     (rc_transfer_id b \<noteq> 0 \<and> 0 < rc_minimum_return_amount b \<and>
      rc_minimum_return_amount b \<le> rc_requested_amount b \<and> published_at \<le> rc_deadline b \<and>
      rc_config_version b \<noteq> 0)"

definition remote_report_bytes :: "remote_report_body \<Rightarrow> bytes" where
  "remote_report_bytes b =
     to_be_bytes (rr_epoch_id b) @ to_be_bytes (rr_remote_principal b) @
     to_be_bytes (rr_reported_value b) @ to_be_bytes (rr_realized_loss b) @
     to_be_bytes (rr_unattributed_balance b) @
     to_be_bytes (rr_latest_completed_transfer_id b) @
     to_be_bytes (probe_to_u8 (rr_probe_status b)) @ to_be_bytes (rr_probe_timestamp b) @
     to_be_bytes (rr_config_version b) @ to_be_bytes (rr_remote_state_commitment b)"

definition remote_report_rules :: "remote_report_body \<Rightarrow> envelope_times \<Rightarrow> bool" where
  "remote_report_rules b env =
     (rr_epoch_id b \<noteq> 0 \<and> rr_config_version b \<noteq> 0 \<and> rr_remote_state_commitment b \<noteq> 0 \<and>
      rr_probe_timestamp b \<le> et_observed_at env \<and>
      (rr_probe_timestamp b = 0 \<longrightarrow> rr_probe_status b \<noteq> Fresh))"

definition recall_sent_bytes :: "recall_sent_body \<Rightarrow> bytes" where
  "recall_sent_bytes b =
     to_be_bytes (rs_transfer_id b) @ to_be_bytes (rs_principal_sent b) @
     to_be_bytes (rs_actual_amount_sent b) @ to_be_bytes (rs_realized_loss b) @
     to_be_bytes (rs_destination_reference b) @ to_be_bytes (rs_sent_timestamp b) @
     to_be_bytes (rs_config_version b)"

definition recall_sent_rules :: "recall_sent_body \<Rightarrow> envelope_times \<Rightarrow> bool" where
  "recall_sent_rules b env =
     (rs_transfer_id b \<noteq> 0 \<and> rs_principal_sent b \<noteq> 0 \<and> rs_realized_loss b \<le> rs_principal_sent b \<and>
      rs_destination_reference b \<noteq> 0 \<and> rs_sent_timestamp b \<le> et_observed_at env \<and>
      rs_config_version b \<noteq> 0)"

definition config_update_bytes :: "config_update_body \<Rightarrow> bytes" where
  "config_update_bytes b =
     to_be_bytes (cu_config_version b) @ to_be_bytes (cu_previous_config_version b) @
     to_be_bytes (cu_max_remote_allocation_bps b) @
     to_be_bytes (cu_max_upward_deviation_bps b) @
     to_be_bytes (cu_max_downward_deviation_bps b) @ to_be_bytes (cu_max_report_age b) @
     to_be_bytes (cu_effective_timestamp b) @ to_be_bytes (cu_config_commitment b)"

definition config_update_rules :: "config_update_body \<Rightarrow> wire_timestamp \<Rightarrow> bool" where
  "config_update_rules b published_at =
     (cu_previous_config_version b < cu_config_version b \<and>
      cu_max_remote_allocation_bps b \<le> 10000 \<and> cu_max_upward_deviation_bps b \<le> 10000 \<and>
      cu_max_downward_deviation_bps b \<le> 10000 \<and> cu_max_report_age b \<noteq> 0 \<and>
      published_at \<le> cu_effective_timestamp b \<and> cu_config_commitment b \<noteq> 0)"

definition resolve_bytes :: "resolve_body \<Rightarrow> bytes" where
  "resolve_bytes b =
     to_be_bytes (rv_transfer_id b) @ to_be_bytes (rv_target_sequence b) @
     to_be_bytes (action_to_u8 (rv_action b)) @ to_be_bytes (rv_config_version b)"

definition resolve_rules :: "resolve_body \<Rightarrow> sequence \<Rightarrow> bool" where
  "resolve_rules b message_sequence =
     (rv_transfer_id b \<noteq> 0 \<and> 0 < rv_target_sequence b \<and> rv_target_sequence b < message_sequence \<and>
      rv_config_version b \<noteq> 0)"

definition settlement_bytes :: "settlement_body \<Rightarrow> bytes" where
  "settlement_bytes b =
     to_be_bytes (ts_transfer_id b) @ to_be_bytes (kind_to_u8 (ts_kind b)) @
     to_be_bytes (ts_claim_amount b) @ to_be_bytes (ts_credited_amount b) @
     to_be_bytes (ts_impaired_outstanding b) @ to_be_bytes (ts_config_version b)"

definition settlement_rules :: "settlement_body \<Rightarrow> bool" where
  "settlement_rules b =
     (ts_transfer_id b \<noteq> 0 \<and> ts_claim_amount b \<noteq> 0 \<and> ts_credited_amount b \<le> ts_claim_amount b \<and>
      (case ts_kind b of
         Closed \<Rightarrow> unat (ts_claim_amount b) \<le> unat (ts_credited_amount b) + unat (ts_impaired_outstanding b)
       | Recovered \<Rightarrow> unat (ts_claim_amount b) = unat (ts_credited_amount b) + unat (ts_impaired_outstanding b)) \<and>
      ts_config_version b \<noteq> 0)"

fun body_bytes :: "body \<Rightarrow> bytes" where
  "body_bytes (Allocate b) = allocate_bytes b"
| "body_bytes (Recall b) = recall_bytes b"
| "body_bytes (RemoteReport b) = remote_report_bytes b"
| "body_bytes (RecallSent b) = recall_sent_bytes b"
| "body_bytes (ConfigUpdate b) = config_update_bytes b"
| "body_bytes (Resolve b) = resolve_bytes b"
| "body_bytes (TransportSettlement b) = settlement_bytes b"

fun body_rules :: "body \<Rightarrow> envelope_times \<Rightarrow> sequence \<Rightarrow> bool" where
  "body_rules (Allocate b) env message_sequence = allocate_rules b (et_published_at env)"
| "body_rules (Recall b) env message_sequence = recall_rules b (et_published_at env)"
| "body_rules (RemoteReport b) env message_sequence = remote_report_rules b env"
| "body_rules (RecallSent b) env message_sequence = recall_sent_rules b env"
| "body_rules (ConfigUpdate b) env message_sequence = config_update_rules b (et_published_at env)"
| "body_rules (Resolve b) env message_sequence = resolve_rules b message_sequence"
| "body_rules (TransportSettlement b) env message_sequence = settlement_rules b"

section \<open>Laws of a discriminant\<close>

locale wire_enum =
  fixes to_u8 :: "'k \<Rightarrow> u8" and from_u8 :: "u8 \<Rightarrow> decode_error + 'k"
    and kinds :: "'k list" and unknown :: "u8 \<Rightarrow> decode_error"
  assumes from_to: "from_u8 (to_u8 k) = Inr k"
    and to_from: "from_u8 v = Inr k \<Longrightarrow> to_u8 k = v"
    and from_Inl: "from_u8 v = Inl e \<Longrightarrow> e = unknown v"
    and in_kinds: "k \<in> set kinds"
begin

lemma from_u8_iff: "from_u8 v = Inr k \<longleftrightarrow> v = to_u8 k"
  using from_to to_from by blast

lemma from_u8_eq: "from_u8 v = Inr k \<longleftrightarrow> to_u8 k = v"
  using from_u8_iff by auto

lemma to_u8_inj: "inj to_u8"
  by (metis from_to injI sum.inject(2))

lemma from_u8_unknown: "from_u8 v = Inl (unknown v) \<longleftrightarrow> v \<notin> to_u8 ` set kinds"
proof (cases "from_u8 v")
  case (Inl e)
  with from_Inl [of v e] show ?thesis by (auto simp: from_to)
next
  case (Inr k)
  with to_from [of v k] in_kinds show ?thesis by auto
qed

end

interpretation type_enum: wire_enum type_to_u8 type_from_u8 ALL_TYPES UnknownMessageType
proof unfold_locales
  fix k show "type_from_u8 (type_to_u8 k) = Inr k" "k \<in> set ALL_TYPES"
    by (cases k; simp add: type_from_u8_def ALL_TYPES_def)+
qed (auto simp: type_from_u8_def split: if_splits)

interpretation probe_enum: wire_enum probe_to_u8 probe_from_u8 ALL_PROBES InvalidProbeStatus
proof unfold_locales
  fix k show "probe_from_u8 (probe_to_u8 k) = Inr k" "k \<in> set ALL_PROBES"
    by (cases k; simp add: probe_from_u8_def ALL_PROBES_def)+
qed (auto simp: probe_from_u8_def split: if_splits)

interpretation action_enum: wire_enum action_to_u8 action_from_u8 ALL_ACTIONS UnknownResolveAction
proof unfold_locales
  fix k show "action_from_u8 (action_to_u8 k) = Inr k" "k \<in> set ALL_ACTIONS"
    by (cases k; simp add: action_from_u8_def ALL_ACTIONS_def)+
qed (auto simp: action_from_u8_def split: if_splits)

interpretation kind_enum: wire_enum kind_to_u8 kind_from_u8 ALL_KINDS UnknownSettlementKind
proof unfold_locales
  fix k show "kind_from_u8 (kind_to_u8 k) = Inr k" "k \<in> set ALL_KINDS"
    by (cases k; simp add: kind_from_u8_def ALL_KINDS_def)+
qed (auto simp: kind_from_u8_def split: if_splits)

section \<open>Laws of a body\<close>

locale body_codec =
  fixes enc :: "'b \<Rightarrow> bytes \<Rightarrow> encode_error + bytes" and dec :: "bytes \<Rightarrow> decode_error + 'b"
    and canon :: "'b \<Rightarrow> bytes" and len :: nat
  assumes canon_length: "length (canon b) = len"
    and enc_canon: "len \<le> length out \<Longrightarrow> enc b out = Inr (canon b @ drop len out)"
    and dec_canon_rest: "dec (canon b @ rest) = Inr b"
    and canon_dec: "length bs = len \<Longrightarrow> dec bs = Inr b \<Longrightarrow> canon b = bs"
begin

lemma dec_canon: "dec (canon b) = Inr b"
  using dec_canon_rest [of b "[]"] by simp

lemma enc_exact: "length out = len \<Longrightarrow> enc b out = Inr (canon b)"
  using enc_canon [of out b] by simp

lemma dec_iff: "length bs = len \<Longrightarrow> dec bs = Inr b \<longleftrightarrow> bs = canon b"
  using canon_dec dec_canon by blast

end

interpretation allocate_codec: body_codec allocate_encode_into allocate_decode allocate_bytes ALLOCATE_BODY_LEN
proof unfold_locales
  fix b out
  show "length (allocate_bytes b) = ALLOCATE_BODY_LEN"
    by (simp add: allocate_bytes_def layout_simps)
  show "ALLOCATE_BODY_LEN \<le> length out \<Longrightarrow>
      allocate_encode_into b out = Inr (allocate_bytes b @ drop ALLOCATE_BODY_LEN out)"
    by (simp add: allocate_encode_into_def allocate_bytes_def layout_simps codec_simps)
next
  fix b rest
  show "allocate_decode (allocate_bytes b @ rest) = Inr b"
    by (simp add: allocate_decode_def allocate_bytes_def layout_simps codec_simps)
next
  fix bs b
  show "length bs = ALLOCATE_BODY_LEN \<Longrightarrow> allocate_decode bs = Inr b \<Longrightarrow> allocate_bytes b = bs"
    by (auto simp: allocate_decode_def allocate_bytes_def layout_simps codec_simps
        be_bytes_canonical slice_join result_simps)
qed

lemma allocate_validate_iff [rule_simps]:
  "allocate_validate b published_at = Inr () \<longleftrightarrow> allocate_rules b published_at"
  by (auto simp: allocate_validate_def allocate_rules_def not_le not_less word_gt_0)

interpretation recall_codec: body_codec recall_encode_into recall_decode recall_bytes RECALL_BODY_LEN
proof unfold_locales
  fix b out
  show "length (recall_bytes b) = RECALL_BODY_LEN"
    by (simp add: recall_bytes_def layout_simps)
  show "RECALL_BODY_LEN \<le> length out \<Longrightarrow>
      recall_encode_into b out = Inr (recall_bytes b @ drop RECALL_BODY_LEN out)"
    by (simp add: recall_encode_into_def recall_bytes_def layout_simps codec_simps)
next
  fix b rest
  show "recall_decode (recall_bytes b @ rest) = Inr b"
    by (simp add: recall_decode_def recall_bytes_def layout_simps codec_simps)
next
  fix bs b
  show "length bs = RECALL_BODY_LEN \<Longrightarrow> recall_decode bs = Inr b \<Longrightarrow> recall_bytes b = bs"
    by (auto simp: recall_decode_def recall_bytes_def layout_simps codec_simps
        be_bytes_canonical slice_join result_simps)
qed

lemma recall_validate_iff [rule_simps]:
  "recall_validate b published_at = Inr () \<longleftrightarrow> recall_rules b published_at"
  by (auto simp: recall_validate_def recall_rules_def not_le not_less word_gt_0)

interpretation remote_report_codec: body_codec remote_report_encode_into remote_report_decode remote_report_bytes REMOTE_REPORT_BODY_LEN
proof unfold_locales
  fix b out
  show "length (remote_report_bytes b) = REMOTE_REPORT_BODY_LEN"
    by (simp add: remote_report_bytes_def layout_simps)
  show "REMOTE_REPORT_BODY_LEN \<le> length out \<Longrightarrow>
      remote_report_encode_into b out = Inr (remote_report_bytes b @ drop REMOTE_REPORT_BODY_LEN out)"
    by (simp add: remote_report_encode_into_def remote_report_bytes_def layout_simps codec_simps)
next
  fix b rest
  show "remote_report_decode (remote_report_bytes b @ rest) = Inr b"
    by (simp add: remote_report_decode_def remote_report_bytes_def layout_simps codec_simps probe_enum.from_to)
next
  fix bs b
  show "length bs = REMOTE_REPORT_BODY_LEN \<Longrightarrow> remote_report_decode bs = Inr b \<Longrightarrow> remote_report_bytes b = bs"
    by (auto simp: remote_report_decode_def remote_report_bytes_def layout_simps codec_simps
        be_bytes_canonical slice_join result_simps probe_enum.from_u8_eq simp del: One_nat_def)
qed

lemma remote_report_validate_iff [rule_simps]:
  "remote_report_validate b env = Inr () \<longleftrightarrow> remote_report_rules b env"
  by (auto simp: remote_report_validate_def remote_report_rules_def not_le not_less word_gt_0)

interpretation recall_sent_codec: body_codec recall_sent_encode_into recall_sent_decode recall_sent_bytes RECALL_SENT_BODY_LEN
proof unfold_locales
  fix b out
  show "length (recall_sent_bytes b) = RECALL_SENT_BODY_LEN"
    by (simp add: recall_sent_bytes_def layout_simps)
  show "RECALL_SENT_BODY_LEN \<le> length out \<Longrightarrow>
      recall_sent_encode_into b out = Inr (recall_sent_bytes b @ drop RECALL_SENT_BODY_LEN out)"
    by (simp add: recall_sent_encode_into_def recall_sent_bytes_def layout_simps codec_simps)
next
  fix b rest
  show "recall_sent_decode (recall_sent_bytes b @ rest) = Inr b"
    by (simp add: recall_sent_decode_def recall_sent_bytes_def layout_simps codec_simps)
next
  fix bs b
  show "length bs = RECALL_SENT_BODY_LEN \<Longrightarrow> recall_sent_decode bs = Inr b \<Longrightarrow> recall_sent_bytes b = bs"
    by (auto simp: recall_sent_decode_def recall_sent_bytes_def layout_simps codec_simps
        be_bytes_canonical slice_join result_simps)
qed

lemma recall_sent_validate_iff [rule_simps]:
  "recall_sent_validate b env = Inr () \<longleftrightarrow> recall_sent_rules b env"
  by (auto simp: recall_sent_validate_def recall_sent_rules_def not_le not_less word_gt_0)

interpretation config_update_codec: body_codec config_update_encode_into config_update_decode config_update_bytes CONFIG_UPDATE_BODY_LEN
proof unfold_locales
  fix b out
  show "length (config_update_bytes b) = CONFIG_UPDATE_BODY_LEN"
    by (simp add: config_update_bytes_def layout_simps)
  show "CONFIG_UPDATE_BODY_LEN \<le> length out \<Longrightarrow>
      config_update_encode_into b out = Inr (config_update_bytes b @ drop CONFIG_UPDATE_BODY_LEN out)"
    by (simp add: config_update_encode_into_def config_update_bytes_def layout_simps codec_simps)
next
  fix b rest
  show "config_update_decode (config_update_bytes b @ rest) = Inr b"
    by (simp add: config_update_decode_def config_update_bytes_def layout_simps codec_simps)
next
  fix bs b
  show "length bs = CONFIG_UPDATE_BODY_LEN \<Longrightarrow> config_update_decode bs = Inr b \<Longrightarrow> config_update_bytes b = bs"
    by (auto simp: config_update_decode_def config_update_bytes_def layout_simps codec_simps
        be_bytes_canonical slice_join result_simps)
qed

lemma config_update_validate_iff [rule_simps]:
  "config_update_validate b published_at = Inr () \<longleftrightarrow> config_update_rules b published_at"
  by (auto simp: config_update_validate_def config_update_rules_def is_in_range_def MAX_BASIS_POINTS_def not_le not_less)

interpretation resolve_codec: body_codec resolve_encode_into resolve_decode resolve_bytes RESOLVE_BODY_LEN
proof unfold_locales
  fix b out
  show "length (resolve_bytes b) = RESOLVE_BODY_LEN"
    by (simp add: resolve_bytes_def layout_simps)
  show "RESOLVE_BODY_LEN \<le> length out \<Longrightarrow>
      resolve_encode_into b out = Inr (resolve_bytes b @ drop RESOLVE_BODY_LEN out)"
    by (simp add: resolve_encode_into_def resolve_bytes_def layout_simps codec_simps)
next
  fix b rest
  show "resolve_decode (resolve_bytes b @ rest) = Inr b"
    by (simp add: resolve_decode_def resolve_bytes_def layout_simps codec_simps action_enum.from_to)
next
  fix bs b
  show "length bs = RESOLVE_BODY_LEN \<Longrightarrow> resolve_decode bs = Inr b \<Longrightarrow> resolve_bytes b = bs"
    by (auto simp: resolve_decode_def resolve_bytes_def layout_simps codec_simps
        be_bytes_canonical slice_join result_simps action_enum.from_u8_eq simp del: One_nat_def)
qed

lemma resolve_validate_iff [rule_simps]:
  "resolve_validate b message_sequence = Inr () \<longleftrightarrow> resolve_rules b message_sequence"
  by (auto simp: resolve_validate_def resolve_rules_def not_le not_less word_gt_0)

interpretation settlement_codec: body_codec settlement_encode_into settlement_decode settlement_bytes TRANSPORT_SETTLEMENT_BODY_LEN
proof unfold_locales
  fix b out
  show "length (settlement_bytes b) = TRANSPORT_SETTLEMENT_BODY_LEN"
    by (simp add: settlement_bytes_def layout_simps)
  show "TRANSPORT_SETTLEMENT_BODY_LEN \<le> length out \<Longrightarrow>
      settlement_encode_into b out = Inr (settlement_bytes b @ drop TRANSPORT_SETTLEMENT_BODY_LEN out)"
    by (simp add: settlement_encode_into_def settlement_bytes_def layout_simps codec_simps)
next
  fix b rest
  show "settlement_decode (settlement_bytes b @ rest) = Inr b"
    by (simp add: settlement_decode_def settlement_bytes_def layout_simps codec_simps kind_enum.from_to)
next
  fix bs b
  show "length bs = TRANSPORT_SETTLEMENT_BODY_LEN \<Longrightarrow> settlement_decode bs = Inr b \<Longrightarrow> settlement_bytes b = bs"
    by (auto simp: settlement_decode_def settlement_bytes_def layout_simps codec_simps
        be_bytes_canonical slice_join result_simps kind_enum.from_u8_eq simp del: One_nat_def)
qed

lemma settlement_validate_iff [rule_simps]:
  "settlement_validate b = Inr () \<longleftrightarrow> settlement_rules b"
  by (auto simp: settlement_validate_def settlement_rules_def shortfall_def result_simps word_eq_unat word_le_nat_alt word_less_nat_alt unat_saturating_sub_word split: settlement_kind.splits)

section \<open>The laws for every kind\<close>

lemmas codec_canon_length = allocate_codec.canon_length recall_codec.canon_length
  remote_report_codec.canon_length recall_sent_codec.canon_length config_update_codec.canon_length
  resolve_codec.canon_length settlement_codec.canon_length

lemmas codec_enc_exact = allocate_codec.enc_exact recall_codec.enc_exact
  remote_report_codec.enc_exact recall_sent_codec.enc_exact config_update_codec.enc_exact
  resolve_codec.enc_exact settlement_codec.enc_exact

lemmas codec_dec_iff = allocate_codec.dec_iff recall_codec.dec_iff
  remote_report_codec.dec_iff recall_sent_codec.dec_iff config_update_codec.dec_iff
  resolve_codec.dec_iff settlement_codec.dec_iff

lemma body_len_bound: "body_len k \<le> 153"
  by (cases k) (simp_all add: layout_simps)

lemma message_len_sum: "message_len k = 247 + body_len k"
  by (cases k) (simp_all add: layout_simps)

lemma body_len_inj: "body_len j = body_len k \<longleftrightarrow> j = k"
  by (cases j; cases k; simp add: layout_simps)

lemma body_bytes_length [simp]: "length (body_bytes b) = body_len (body_message_type b)"
  by (cases b) (simp_all add: codec_canon_length)

lemma body_encode_exact:
  "length out = body_encoded_len b \<Longrightarrow> body_encode_into b out = Inr (body_bytes b)"
  by (cases b) (simp_all add: body_encoded_len_def codec_enc_exact layout_simps)

lemma map_sum_Inr: "map_sum id f m = Inr y \<longleftrightarrow> (\<exists>x. m = Inr x \<and> y = f x)"
  by (cases m) auto

lemma body_decode_iff:
  assumes "length bs = body_len k"
  shows "body_decode k bs = Inr b \<longleftrightarrow> body_message_type b = k \<and> bs = body_bytes b"
  using assms
  by (cases k; cases b) (simp_all add: map_sum_Inr codec_dec_iff layout_simps)

lemma body_validate_iff [rule_simps]:
  "body_validate b env message_sequence = Inr () \<longleftrightarrow> body_rules b env message_sequence"
  by (cases b) (simp_all add: rule_simps)

end
