(* ===== verification/Wire_Message.thy ===== *)
theory Wire_Message
  imports Wire_Bodies
begin

text \<open>
  Whole messages (\<open>crates/protocol-types/src/{lib,hash,commitment,message,validation,codec}.rs\<close>):
  the header, structural inspection, the header rules, the two entry points \<open>encode_into\<close> and
  \<open>decode_message\<close> and what is built on them. Keccak-256 comes from the \<open>sha3\<close> crate, which is
  a parameter: a \<open>digest\<close> record with the three calls the code makes. What the code relies on,
  that updates concatenate, is \<open>digest_laws\<close>; only the commitments need it.
\<close>

section \<open>Constants\<close>

definition MAGIC :: bytes where
  "MAGIC = [0x53, 0x56, 0x45, 0x31]"

definition PROTOCOL_VERSION :: protocol_version where
  "PROTOCOL_VERSION = 1"

definition SCHEMA_VERSION :: schema_version where
  "SCHEMA_VERSION = 1"

section \<open>Hashing\<close>

record 'h digest =
  dg_new :: 'h
  dg_update :: "'h \<Rightarrow> bytes \<Rightarrow> 'h"
  dg_finalize :: "'h \<Rightarrow> bytes32"

definition keccak256 :: "'h digest \<Rightarrow> bytes \<Rightarrow> bytes32" where
  "keccak256 D bs = (let hasher = dg_new D; hasher = dg_update D hasher bs in dg_finalize D hasher)"

definition keccak256_parts :: "'h digest \<Rightarrow> bytes list \<Rightarrow> bytes32" where
  "keccak256_parts D parts =
     (let hasher = dg_new D; hasher = foldl (dg_update D) hasher parts in dg_finalize D hasher)"

text \<open>Byte string literals.\<close>

definition ascii_bytes :: "string \<Rightarrow> bytes" where
  "ascii_bytes s = map of_char s"

definition MESSAGE_ID_DOMAIN :: bytes where
  "MESSAGE_ID_DOMAIN = ascii_bytes ''SOLEVM_MESSAGE_ID_V1''"

definition COMMITMENT_DOMAIN :: bytes where
  "COMMITMENT_DOMAIN = ascii_bytes ''SOLEVM_COMMITMENT_V1''"

definition message_id_of :: "'h digest \<Rightarrow> bytes \<Rightarrow> wire_message_id" where
  "message_id_of D encoded = keccak256_parts D [MESSAGE_ID_DOMAIN, encoded]"

definition next_commitment :: "'h digest \<Rightarrow> commitment \<Rightarrow> wire_message_id \<Rightarrow> commitment" where
  "next_commitment D previous message =
     keccak256_parts D [COMMITMENT_DOMAIN, to_be_bytes previous, to_be_bytes message]"

section \<open>Messages\<close>

record header =
  hd_protocol_version :: protocol_version
  hd_schema_version :: schema_version
  hd_flags :: flags
  hd_source_chain :: chain_id
  hd_destination_chain :: chain_id
  hd_source_application :: application_id
  hd_destination_application :: application_id
  hd_deployment_id :: deployment_id
  hd_vault_id :: vault_id
  hd_lane_id :: lane_id
  hd_sequence :: sequence
  hd_previous_commitment :: commitment
  hd_observed_at :: wire_timestamp
  hd_published_at :: wire_timestamp
  hd_expires_at :: wire_timestamp

record message =
  msg_header :: header
  msg_body :: body

definition message_type_of :: "message \<Rightarrow> message_type" where
  "message_type_of m = body_message_type (msg_body m)"

definition encoded_len :: "message \<Rightarrow> nat" where
  "encoded_len m = message_len (message_type_of m)"

section \<open>Structural inspection and header rules\<close>

record frame =
  fr_message_type :: message_type
  fr_body_len :: nat

definition inspect_frame :: "bytes \<Rightarrow> decode_error + frame" where
  "inspect_frame bs =
     (if length bs < HEADER_LEN
      then Inl (Truncated (saturating_u32 HEADER_LEN) (saturating_u32 (length bs)))
      else and_then (read_array MAGIC_LEN bs MAGIC_OFFSET) (\<lambda>magic.
        if magic \<noteq> MAGIC then Inl InvalidMagic
        else and_then (read_u16 bs PROTOCOL_VERSION_OFFSET) (\<lambda>protocol.
        if protocol \<noteq> PROTOCOL_VERSION then Inl (UnsupportedProtocolVersion protocol)
        else and_then (read_u16 bs SCHEMA_VERSION_OFFSET) (\<lambda>schema.
        if schema \<noteq> SCHEMA_VERSION then Inl (UnsupportedSchemaVersion schema)
        else and_then (and_then (read_u8 bs MESSAGE_TYPE_OFFSET) type_from_u8) (\<lambda>message_type.
        let width = body_len message_type in
        and_then (ok_or (checked_add_usize HEADER_LEN width) LengthOverflow) (\<lambda>expected.
        if length bs < expected
        then Inl (Truncated (saturating_u32 expected) (saturating_u32 (length bs)))
        else if expected < length bs
        then Inl (TrailingBytes (saturating_u32 expected) (saturating_u32 (length bs)))
        else Inr \<lparr>fr_message_type = message_type, fr_body_len = width\<rparr>))))))"

definition validate_supported_versions_for_encode :: "header \<Rightarrow> encode_error + unit" where
  "validate_supported_versions_for_encode h =
     (if hd_protocol_version h \<noteq> PROTOCOL_VERSION
      then Inl (EncUnsupportedProtocolVersion (hd_protocol_version h))
      else if hd_schema_version h \<noteq> SCHEMA_VERSION
      then Inl (EncUnsupportedSchemaVersion (hd_schema_version h))
      else Inr ())"

definition validate_header :: "header \<Rightarrow> validation_error + unit" where
  "validate_header h =
     (if has_reserved_bits (hd_flags h) then Inl ReservedFlagsSet
      else if is_zero (hd_source_chain h) then Inl (ZeroIdentifier SourceChain)
      else if is_zero (hd_destination_chain h) then Inl (ZeroIdentifier DestinationChain)
      else if hd_source_chain h = hd_destination_chain h then Inl SourceEqualsDestinationChain
      else if wide_is_zero (hd_source_application h) then Inl (ZeroIdentifier SourceApplication)
      else if wide_is_zero (hd_destination_application h)
      then Inl (ZeroIdentifier DestinationApplication)
      else if hd_source_application h = hd_destination_application h
      then Inl SourceEqualsDestinationApplication
      else if wide_is_zero (hd_deployment_id h) then Inl (ZeroIdentifier Deployment)
      else if wide_is_zero (hd_vault_id h) then Inl (ZeroIdentifier Vault)
      else if is_zero (hd_lane_id h) then Inl (ZeroIdentifier Lane)
      else if is_zero (hd_sequence h) then Inl (ZeroIdentifier Sequence)
      else if hd_published_at h < hd_observed_at h then Inl PublicationBeforeObservation
      else if hd_expires_at h < hd_published_at h then Inl ExpirationBeforePublication
      else Inr ())"

section \<open>Encoding and decoding\<close>

definition envelope_times_of :: "header \<Rightarrow> envelope_times" where
  "envelope_times_of h = \<lparr>et_observed_at = hd_observed_at h, et_published_at = hd_published_at h\<rparr>"

definition read_header :: "bytes \<Rightarrow> decode_error + header" where
  "read_header bs =
     and_then (read_u16 bs PROTOCOL_VERSION_OFFSET) (\<lambda>protocol_version.
     and_then (read_u16 bs SCHEMA_VERSION_OFFSET) (\<lambda>schema_version.
     and_then (read_u16 bs FLAGS_OFFSET) (\<lambda>flags.
     and_then (read_u32 bs SOURCE_CHAIN_OFFSET) (\<lambda>source_chain.
     and_then (read_u32 bs DESTINATION_CHAIN_OFFSET) (\<lambda>destination_chain.
     and_then (read_wide bs SOURCE_APPLICATION_OFFSET) (\<lambda>source_application.
     and_then (read_wide bs DESTINATION_APPLICATION_OFFSET) (\<lambda>destination_application.
     and_then (read_wide bs DEPLOYMENT_ID_OFFSET) (\<lambda>deployment_id.
     and_then (read_wide bs VAULT_ID_OFFSET) (\<lambda>vault_id.
     and_then (read_u32 bs LANE_ID_OFFSET) (\<lambda>lane_id.
     and_then (read_u64 bs SEQUENCE_OFFSET) (\<lambda>sequence.
     and_then (read_wide bs PREVIOUS_COMMITMENT_OFFSET) (\<lambda>previous_commitment.
     and_then (read_u64 bs OBSERVED_AT_OFFSET) (\<lambda>observed_at.
     and_then (read_u64 bs PUBLISHED_AT_OFFSET) (\<lambda>published_at.
     and_then (read_u64 bs EXPIRES_AT_OFFSET) (\<lambda>expires_at.
     Inr \<lparr>hd_protocol_version = protocol_version, hd_schema_version = schema_version,
       hd_flags = flags, hd_source_chain = source_chain,
       hd_destination_chain = destination_chain, hd_source_application = source_application,
       hd_destination_application = destination_application, hd_deployment_id = deployment_id,
       hd_vault_id = vault_id, hd_lane_id = lane_id, hd_sequence = sequence,
       hd_previous_commitment = previous_commitment, hd_observed_at = observed_at,
       hd_published_at = published_at, hd_expires_at = expires_at\<rparr>)))))))))))))))"

definition write_header ::
  "bytes \<Rightarrow> header \<Rightarrow> message_type \<Rightarrow> body_hash \<Rightarrow> encode_error + bytes" where
  "write_header out h kind digest =
     and_then (write_bytes out MAGIC_OFFSET MAGIC) (\<lambda>out.
     and_then (write_u16 out PROTOCOL_VERSION_OFFSET (hd_protocol_version h)) (\<lambda>out.
     and_then (write_u16 out SCHEMA_VERSION_OFFSET (hd_schema_version h)) (\<lambda>out.
     and_then (write_u8 out MESSAGE_TYPE_OFFSET (type_to_u8 kind)) (\<lambda>out.
     and_then (write_u16 out FLAGS_OFFSET (hd_flags h)) (\<lambda>out.
     and_then (write_u32 out SOURCE_CHAIN_OFFSET (hd_source_chain h)) (\<lambda>out.
     and_then (write_u32 out DESTINATION_CHAIN_OFFSET (hd_destination_chain h)) (\<lambda>out.
     and_then (write_bytes out SOURCE_APPLICATION_OFFSET (to_be_bytes (hd_source_application h))) (\<lambda>out.
     and_then (write_bytes out DESTINATION_APPLICATION_OFFSET (to_be_bytes (hd_destination_application h))) (\<lambda>out.
     and_then (write_bytes out DEPLOYMENT_ID_OFFSET (to_be_bytes (hd_deployment_id h))) (\<lambda>out.
     and_then (write_bytes out VAULT_ID_OFFSET (to_be_bytes (hd_vault_id h))) (\<lambda>out.
     and_then (write_u32 out LANE_ID_OFFSET (hd_lane_id h)) (\<lambda>out.
     and_then (write_u64 out SEQUENCE_OFFSET (hd_sequence h)) (\<lambda>out.
     and_then (write_bytes out PREVIOUS_COMMITMENT_OFFSET (to_be_bytes (hd_previous_commitment h))) (\<lambda>out.
     and_then (write_u64 out OBSERVED_AT_OFFSET (hd_observed_at h)) (\<lambda>out.
     and_then (write_u64 out PUBLISHED_AT_OFFSET (hd_published_at h)) (\<lambda>out.
     and_then (write_u64 out EXPIRES_AT_OFFSET (hd_expires_at h)) (\<lambda>out.
     write_bytes out BODY_HASH_OFFSET (to_be_bytes digest))))))))))))))))))"

text \<open>The result of \<open>encode_into\<close> is the caller's buffer after the call and the width used.\<close>

definition encode_into :: "'h digest \<Rightarrow> message \<Rightarrow> bytes \<Rightarrow> encode_error + bytes \<times> nat" where
  "encode_into D m out =
     and_then (validate_supported_versions_for_encode (msg_header m)) (\<lambda>_.
     and_then (map_err EncInvalid (validate_header (msg_header m))) (\<lambda>_.
     and_then (map_err EncInvalid (body_validate (msg_body m) (envelope_times_of (msg_header m))
       (hd_sequence (msg_header m)))) (\<lambda>_.
     let width = encoded_len m; available = saturating_u32 (length out) in
     if length out < width then Inl (BufferTooSmall (saturating_u32 width) available)
     else (let whole = take width out; head = take HEADER_LEN whole; body = drop HEADER_LEN whole in
       and_then (body_encode_into (msg_body m) body) (\<lambda>body.
       let digest = keccak256 D body in
       and_then (write_header head (msg_header m) (message_type_of m) digest) (\<lambda>head.
       Inr (head @ body @ drop width out, width)))))))"

record encoded_message =
  em_bytes :: bytes
  em_len :: u16

definition as_bytes :: "encoded_message \<Rightarrow> bytes" where
  "as_bytes e = (if unat (em_len e) \<le> length (em_bytes e) then take (unat (em_len e)) (em_bytes e) else [])"

definition em_is_empty :: "encoded_message \<Rightarrow> bool" where
  "em_is_empty e = (em_len e = 0)"

definition em_message_id :: "'h digest \<Rightarrow> encoded_message \<Rightarrow> wire_message_id" where
  "em_message_id D e = message_id_of D (as_bytes e)"

definition encode :: "'h digest \<Rightarrow> message \<Rightarrow> encode_error + encoded_message" where
  "encode D m =
     and_then (encode_into D m (replicate MAX_MESSAGE_LEN 0)) (\<lambda>(buffer, written).
     Inr \<lparr>em_bytes = buffer, em_len = (if written < 2 ^ 16 then of_nat written else - 1)\<rparr>)"

definition body_hash_of :: "'h digest \<Rightarrow> message \<Rightarrow> encode_error + body_hash" where
  "body_hash_of D m =
     (let width = body_encoded_len (msg_body m) in
      if MAX_BODY_LEN < width
      then Inl (BufferTooSmall (saturating_u32 width) (saturating_u32 MAX_BODY_LEN))
      else and_then (body_encode_into (msg_body m) (take width (replicate MAX_BODY_LEN 0))) (\<lambda>slot.
        Inr (keccak256 D slot)))"

definition message_id :: "'h digest \<Rightarrow> message \<Rightarrow> encode_error + wire_message_id" where
  "message_id D m = and_then (encode D m) (\<lambda>e. Inr (em_message_id D e))"

definition encode_message :: "'h digest \<Rightarrow> message \<Rightarrow> encode_error + bytes" where
  "encode_message D m = and_then (encode D m) (\<lambda>e. Inr (as_bytes e))"

definition decode_message :: "'h digest \<Rightarrow> bytes \<Rightarrow> decode_error + message" where
  "decode_message D bs =
     and_then (inspect_frame bs) (\<lambda>frame.
     and_then (window bs HEADER_LEN (fr_body_len frame)) (\<lambda>body_bytes.
     and_then (read_wide bs BODY_HASH_OFFSET) (\<lambda>declared.
     if declared \<noteq> keccak256 D body_bytes then Inl BodyHashMismatch
     else and_then (read_header bs) (\<lambda>h.
       and_then (body_decode (fr_message_type frame) body_bytes) (\<lambda>b.
       and_then (map_err Invalid (validate_header h)) (\<lambda>_.
       and_then (map_err Invalid (body_validate b (envelope_times_of h) (hd_sequence h))) (\<lambda>_.
       Inr \<lparr>msg_header = h, msg_body = b\<rparr>)))))))"

section \<open>Specification\<close>

text \<open>
  The canonical bytes of a message are its header fields followed by its body; a message is
  valid when it names the supported versions and obeys every rule. The two entry points are
  shown to be exactly these two notions.
\<close>

definition header_bytes :: "header \<Rightarrow> message_type \<Rightarrow> body_hash \<Rightarrow> bytes" where
  "header_bytes h kind digest =
     MAGIC @ to_be_bytes (hd_protocol_version h) @ to_be_bytes (hd_schema_version h) @
     to_be_bytes (type_to_u8 kind) @ to_be_bytes (hd_flags h) @
     to_be_bytes (hd_source_chain h) @ to_be_bytes (hd_destination_chain h) @
     to_be_bytes (hd_source_application h) @ to_be_bytes (hd_destination_application h) @
     to_be_bytes (hd_deployment_id h) @ to_be_bytes (hd_vault_id h) @
     to_be_bytes (hd_lane_id h) @ to_be_bytes (hd_sequence h) @
     to_be_bytes (hd_previous_commitment h) @ to_be_bytes (hd_observed_at h) @
     to_be_bytes (hd_published_at h) @ to_be_bytes (hd_expires_at h) @ to_be_bytes digest"

definition message_bytes :: "'h digest \<Rightarrow> message \<Rightarrow> bytes" where
  "message_bytes D m =
     header_bytes (msg_header m) (message_type_of m) (keccak256 D (body_bytes (msg_body m))) @
     body_bytes (msg_body m)"

definition header_rules :: "header \<Rightarrow> bool" where
  "header_rules h =
     (hd_flags h = 0 \<and> hd_source_chain h \<noteq> 0 \<and> hd_destination_chain h \<noteq> 0 \<and>
      hd_source_chain h \<noteq> hd_destination_chain h \<and>
      hd_source_application h \<noteq> 0 \<and> hd_destination_application h \<noteq> 0 \<and>
      hd_source_application h \<noteq> hd_destination_application h \<and>
      hd_deployment_id h \<noteq> 0 \<and> hd_vault_id h \<noteq> 0 \<and> hd_lane_id h \<noteq> 0 \<and> hd_sequence h \<noteq> 0 \<and>
      hd_observed_at h \<le> hd_published_at h \<and> hd_published_at h \<le> hd_expires_at h)"

definition message_valid :: "message \<Rightarrow> bool" where
  "message_valid m =
     (hd_protocol_version (msg_header m) = 1 \<and> hd_schema_version (msg_header m) = 1 \<and>
      header_rules (msg_header m) \<and>
      body_rules (msg_body m) (envelope_times_of (msg_header m)) (hd_sequence (msg_header m)))"

definition digest_laws :: "'h digest \<Rightarrow> bool" where
  "digest_laws D =
     ((\<forall>h. dg_update D h [] = h) \<and>
      (\<forall>h a b. dg_update D (dg_update D h a) b = dg_update D h (a @ b)))"

section \<open>Headers\<close>

lemma MAGIC_length [simp]: "length MAGIC = 4"
  by (simp add: MAGIC_def)

lemma header_bytes_length [simp]: "length (header_bytes h kind d) = 247"
  by (simp add: header_bytes_def)

lemma write_header_exact:
  "length out = 247 \<Longrightarrow> write_header out h kind d = Inr (header_bytes h kind d)"
  by (simp add: write_header_def header_bytes_def layout_simps codec_simps)

lemma read_header_bytes: "read_header (header_bytes h kind d @ rest) = Inr h"
  by (simp add: read_header_def header_bytes_def layout_simps codec_simps)

lemma header_bytes_fields:
  "sub_bytes (header_bytes h kind d @ rest) 0 4 = MAGIC"
  "sub_bytes (header_bytes h kind d @ rest) 4 2 = to_be_bytes (hd_protocol_version h)"
  "sub_bytes (header_bytes h kind d @ rest) 6 2 = to_be_bytes (hd_schema_version h)"
  "sub_bytes (header_bytes h kind d @ rest) 8 1 = to_be_bytes (type_to_u8 kind)"
  "sub_bytes (header_bytes h kind d @ rest) 215 32 = to_be_bytes d"
  by (simp_all add: header_bytes_def codec_simps)

lemma header_bytes_read:
  assumes "247 \<le> length bs" "read_header bs = Inr h" "sub_bytes bs 0 4 = MAGIC"
    and "sub_bytes bs 8 1 = to_be_bytes (type_to_u8 kind)" "sub_bytes bs 215 32 = to_be_bytes d"
  shows "header_bytes h kind d = sub_bytes bs 0 247"
  using assms(1,2)
  by (auto simp: read_header_def header_bytes_def layout_simps codec_simps be_bytes_canonical
      slice_join assms(3-5) [symmetric] simp del: One_nat_def)

lemma validate_header_iff [rule_simps]: "validate_header h = Inr () \<longleftrightarrow> header_rules h"
  by (auto simp: validate_header_def header_rules_def not_less)

section \<open>Encoding is the specification\<close>

lemma width_facts:
  "encoded_len m = 247 + body_len (message_type_of m)"
  "body_encoded_len (msg_body m) = body_len (message_type_of m)"
  "encoded_len m \<le> 400"
  using body_len_bound [of "message_type_of m"]
  by (simp_all add: encoded_len_def message_len_sum body_encoded_len_def message_type_of_def)

lemma message_bytes_length [simp]: "length (message_bytes D m) = encoded_len m"
  by (simp add: message_bytes_def width_facts message_type_of_def)

text \<open>Past the guards nothing can fail, so an error leaves the caller's buffer as it was.\<close>

lemma encode_into_cases:
  "encode_into D m out =
     (case validate_supported_versions_for_encode (msg_header m) of Inl e \<Rightarrow> Inl e | Inr _ \<Rightarrow>
      case validate_header (msg_header m) of Inl e \<Rightarrow> Inl (EncInvalid e) | Inr _ \<Rightarrow>
      case body_validate (msg_body m) (envelope_times_of (msg_header m)) (hd_sequence (msg_header m)) of
        Inl e \<Rightarrow> Inl (EncInvalid e) | Inr _ \<Rightarrow>
      if length out < encoded_len m
      then Inl (BufferTooSmall (of_nat (encoded_len m)) (saturating_u32 (length out)))
      else Inr (message_bytes D m @ drop (encoded_len m) out, encoded_len m))"
proof -
  have small: "saturating_u32 (encoded_len m) = of_nat (encoded_len m)"
    using width_facts(3) [of m] by (simp add: saturating_u32_def)
  have "body_encode_into (msg_body m) (drop HEADER_LEN (take (encoded_len m) out)) = Inr (body_bytes (msg_body m))"
    "write_header (take HEADER_LEN (take (encoded_len m) out)) h k d = Inr (header_bytes h k d)"
    if "\<not> length out < encoded_len m" for h k d
    using that by (simp_all add: body_encode_exact write_header_exact width_facts layout_simps min_def)
  then show ?thesis
    by (simp add: encode_into_def and_then_def map_err_def Let_def small message_bytes_def split: sum.splits)
qed

lemma guards_iff:
  "message_valid m \<longleftrightarrow>
     validate_supported_versions_for_encode (msg_header m) = Inr () \<and>
     validate_header (msg_header m) = Inr () \<and>
     body_validate (msg_body m) (envelope_times_of (msg_header m)) (hd_sequence (msg_header m)) = Inr ()"
  by (simp add: message_valid_def rule_simps validate_supported_versions_for_encode_def
      PROTOCOL_VERSION_def SCHEMA_VERSION_def)

lemma encode_into_Inr:
  "encode_into D m out = Inr r \<longleftrightarrow>
     message_valid m \<and> encoded_len m \<le> length out \<and>
     r = (message_bytes D m @ drop (encoded_len m) out, encoded_len m)"
  by (auto simp: encode_into_cases guards_iff split: sum.splits)

lemma encode_Inr:
  "encode D m = Inr e \<longleftrightarrow> message_valid m \<and>
     e = \<lparr>em_bytes = message_bytes D m @ replicate (400 - encoded_len m) 0, em_len = of_nat (encoded_len m)\<rparr>"
  using width_facts(3) [of m]
  by (auto simp: encode_def and_then_Inr encode_into_Inr layout_simps)

lemma as_bytes_encoded:
  "as_bytes \<lparr>em_bytes = message_bytes D m @ rest, em_len = of_nat (encoded_len m)\<rparr> = message_bytes D m"
  using width_facts(3) [of m] by (simp add: as_bytes_def unat_of_nat_below)

lemma encode_message_iff:
  "encode_message D m = Inr bs \<longleftrightarrow> message_valid m \<and> bs = message_bytes D m"
  by (auto simp: encode_message_def and_then_Inr encode_Inr as_bytes_encoded)

lemma body_hash_eq: "body_hash_of D m = Inr (keccak256 D (body_bytes (msg_body m)))"
  using body_len_bound [of "message_type_of m"]
  by (simp add: body_hash_of_def Let_def width_facts layout_simps body_encode_exact)

section \<open>Decoding is the specification\<close>

lemma read_u16_const:
  "offset + 2 \<le> length bs \<Longrightarrow> from_be_bytes (sub_bytes bs offset 2) = (c :: u16) \<longleftrightarrow>
     sub_bytes bs offset 2 = to_be_bytes c"
  by (metis be_bytes_canonical(2) be_bytes_inverse(2))

lemma read_type_const:
  "offset + 1 \<le> length bs \<Longrightarrow> type_from_u8 (from_be_bytes (sub_bytes bs offset 1)) = Inr k \<longleftrightarrow>
     sub_bytes bs offset 1 = to_be_bytes (type_to_u8 k)"
  by (metis be_bytes_canonical(1) be_bytes_inverse(1) type_enum.from_u8_iff)

lemma read_wide_const:
  "offset + 32 \<le> length bs \<Longrightarrow> from_be_bytes (sub_bytes bs offset 32) = (c :: bytes32) \<longleftrightarrow>
     sub_bytes bs offset 32 = to_be_bytes c"
  by (metis be_bytes_canonical(6) be_bytes_inverse(6))

lemma inspect_frame_Inr:
  "inspect_frame bs = Inr fr \<longleftrightarrow>
     (\<exists>k. fr = \<lparr>fr_message_type = k, fr_body_len = body_len k\<rparr> \<and> length bs = 247 + body_len k \<and>
        sub_bytes bs 0 4 = MAGIC \<and> sub_bytes bs 4 2 = to_be_bytes (1 :: u16) \<and>
        sub_bytes bs 6 2 = to_be_bytes (1 :: u16) \<and> sub_bytes bs 8 1 = to_be_bytes (type_to_u8 k))"
proof (cases "length bs < 247")
  case False
  have add: "checked_add_usize 247 (body_len k) = Some (247 + body_len k)" for k
    using body_len_bound [of k] by (simp add: checked_add_usize_def)
  from False show ?thesis
    by (auto simp: inspect_frame_def layout_simps codec_simps result_simps Let_def add PROTOCOL_VERSION_def
        SCHEMA_VERSION_def read_u16_const read_type_const simp del: One_nat_def split: if_splits)
qed (auto simp: inspect_frame_def layout_simps)

lemma read_header_versions:
  "247 \<le> length bs \<Longrightarrow> read_header bs = Inr h \<Longrightarrow>
     hd_protocol_version h = from_be_bytes (sub_bytes bs 4 2) \<and>
     hd_schema_version h = from_be_bytes (sub_bytes bs 6 2)"
  by (auto simp: read_header_def layout_simps codec_simps)

lemma decode_message_Inr:
  "decode_message D bs = Inr m \<longleftrightarrow>
     (\<exists>k. inspect_frame bs = Inr \<lparr>fr_message_type = k, fr_body_len = body_len k\<rparr> \<and>
        sub_bytes bs 215 32 = to_be_bytes (keccak256 D (sub_bytes bs 247 (body_len k))) \<and>
        read_header bs = Inr (msg_header m) \<and> body_decode k (sub_bytes bs 247 (body_len k)) = Inr (msg_body m) \<and>
        header_rules (msg_header m) \<and>
        body_rules (msg_body m) (envelope_times_of (msg_header m)) (hd_sequence (msg_header m)))"
proof (cases "inspect_frame bs")
  case (Inr fr)
  then obtain k where k: "fr = \<lparr>fr_message_type = k, fr_body_len = body_len k\<rparr>" "length bs = 247 + body_len k"
    by (auto simp: inspect_frame_Inr)
  have reads: "window bs 247 (body_len k) = Inr (sub_bytes bs 247 (body_len k))"
    "read_wide bs 215 = Inr (from_be_bytes (sub_bytes bs 215 32))"
    "from_be_bytes (sub_bytes bs 215 32) = (c :: bytes32) \<longleftrightarrow> sub_bytes bs 215 32 = to_be_bytes c" for c
    using k(2) body_len_bound [of k] by (simp_all add: codec_simps read_wide_const)
  from Inr k(1) show ?thesis
    by (cases m) (auto simp: decode_message_def result_simps layout_simps reads rule_simps)
qed (simp add: decode_message_def)

lemma message_bytes_parts:
  "sub_bytes (message_bytes D m) 0 4 = MAGIC"
  "sub_bytes (message_bytes D m) 4 2 = to_be_bytes (hd_protocol_version (msg_header m))"
  "sub_bytes (message_bytes D m) 6 2 = to_be_bytes (hd_schema_version (msg_header m))"
  "sub_bytes (message_bytes D m) 8 1 = to_be_bytes (type_to_u8 (message_type_of m))"
  "sub_bytes (message_bytes D m) 215 32 = to_be_bytes (keccak256 D (body_bytes (msg_body m)))"
  "sub_bytes (message_bytes D m) 247 (body_len (message_type_of m)) = body_bytes (msg_body m)"
  "read_header (message_bytes D m) = Inr (msg_header m)"
  by (simp_all add: message_bytes_def header_bytes_fields read_header_bytes codec_simps
      message_type_of_def del: One_nat_def)

lemma decode_message_bytes:
  assumes "message_valid m"
  shows "decode_message D (message_bytes D m) = Inr m"
proof -
  have "inspect_frame (message_bytes D m) =
      Inr \<lparr>fr_message_type = message_type_of m, fr_body_len = body_len (message_type_of m)\<rparr>"
    using assms
    by (auto simp: inspect_frame_Inr message_bytes_parts width_facts message_valid_def simp del: One_nat_def)
  moreover have "body_decode (message_type_of m) (body_bytes (msg_body m)) = Inr (msg_body m)"
    by (simp add: body_decode_iff message_type_of_def)
  ultimately show ?thesis
    using assms by (auto simp: decode_message_Inr message_bytes_parts message_valid_def)
qed

lemma decode_message_canonical:
  assumes "decode_message D bs = Inr m"
  shows "message_valid m \<and> bs = message_bytes D m"
proof -
  from assms obtain k where k: "length bs = 247 + body_len k" "sub_bytes bs 0 4 = MAGIC"
      "sub_bytes bs 4 2 = to_be_bytes (1 :: u16)" "sub_bytes bs 6 2 = to_be_bytes (1 :: u16)"
      "sub_bytes bs 8 1 = to_be_bytes (type_to_u8 k)"
      "sub_bytes bs 215 32 = to_be_bytes (keccak256 D (sub_bytes bs 247 (body_len k)))"
    and h: "read_header bs = Inr (msg_header m)"
    and b: "body_decode k (sub_bytes bs 247 (body_len k)) = Inr (msg_body m)"
    and rules: "header_rules (msg_header m)"
      "body_rules (msg_body m) (envelope_times_of (msg_header m)) (hd_sequence (msg_header m))"
    by (auto simp: decode_message_Inr inspect_frame_Inr)
  have body: "message_type_of m = k" "sub_bytes bs 247 (body_len k) = body_bytes (msg_body m)"
    using b k(1) by (simp_all add: body_decode_iff message_type_of_def)
  have "header_bytes (msg_header m) k (keccak256 D (body_bytes (msg_body m))) = sub_bytes bs 0 247"
    using header_bytes_read [OF _ h k(2) k(5)] k(1,6) body(2) by simp
  then have "message_bytes D m = bs"
    using k(1) by (simp add: message_bytes_def body(1) slice_join codec_simps flip: body(2))
  moreover have "message_valid m"
    using read_header_versions [OF _ h] k(1,3,4) rules
    by (simp add: message_valid_def be_bytes_inverse)
  ultimately show ?thesis by simp
qed

lemma decode_message_iff:
  "decode_message D bs = Inr m \<longleftrightarrow> message_valid m \<and> bs = message_bytes D m"
  using decode_message_bytes decode_message_canonical by blast

section \<open>Commitments\<close>

lemma keccak256_parts_concat:
  assumes "digest_laws D"
  shows "keccak256_parts D parts = keccak256 D (concat parts)"
proof -
  have "foldl (dg_update D) h parts = dg_update D h (concat parts)" for h
    using assms by (induction parts arbitrary: h) (auto simp: digest_laws_def)
  then show ?thesis by (simp add: keccak256_parts_def keccak256_def)
qed

end
