(* ===== verification/Wire_Helper.thy ===== *)
theory Wire_Helper
  imports Wire_Message
begin

text \<open>
  The command line helper \<open>crates/protocol-types/src/bin/protocol_codec_ffi.rs\<close>, which prints
  the canonical bytes, identifiers and commitments of one fixed message of every kind but the
  configuration update. A run either prints a line and succeeds or prints a reason and fails;
  writing to the two streams is assumed to succeed. Its messages are the inputs on which the
  properties of the wire format are evaluated.
\<close>

section \<open>The fixed messages\<close>

definition OBSERVED_AT :: u64 where
  "OBSERVED_AT = 1700000000"

definition PUBLISHED_AT :: u64 where
  "PUBLISHED_AT = 1700000060"

definition EXPIRES_AT :: u64 where
  "EXPIRES_AT = 1700003600"

definition EVM_APPLICATION :: bytes where
  "EVM_APPLICATION = replicate 20 0xA1"

definition SOLANA_APPLICATION :: bytes where
  "SOLANA_APPLICATION = replicate 32 0xB2"

text \<open>A wide identifier that repeats one byte, \<open>[b; 32]\<close>.\<close>

definition wide_of :: "u8 \<Rightarrow> bytes32" where
  "wide_of b = from_be_bytes (replicate 32 b)"

definition helper_header :: header where
  "helper_header =
     \<lparr>hd_protocol_version = PROTOCOL_VERSION, hd_schema_version = SCHEMA_VERSION, hd_flags = 0,
      hd_source_chain = 1, hd_destination_chain = 2,
      hd_source_application = from_evm_address EVM_APPLICATION,
      hd_destination_application = from_solana_pubkey SOLANA_APPLICATION,
      hd_deployment_id = wide_of 0xD0, hd_vault_id = wide_of 0x0E, hd_lane_id = 7, hd_sequence = 42,
      hd_previous_commitment = wide_of 0xC1, hd_observed_at = OBSERVED_AT,
      hd_published_at = PUBLISHED_AT, hd_expires_at = EXPIRES_AT\<rparr>"

text \<open>The process exits for the configuration update: \<open>None\<close>.\<close>

fun body_of :: "message_type \<Rightarrow> body option" where
  "body_of TAllocate = Some (Allocate
     \<lparr>al_transfer_id = wide_of 0x11, al_amount = 1000000, al_expected_source_balance = 5000000,
      al_minimum_destination_amount = 999000, al_deadline = PUBLISHED_AT + 900, al_config_version = 4\<rparr>)"
| "body_of TRecall = Some (Recall
     \<lparr>rc_transfer_id = wide_of 0x33, rc_requested_amount = 750000, rc_minimum_return_amount = 740000,
      rc_deadline = PUBLISHED_AT + 1800, rc_config_version = 9\<rparr>)"
| "body_of TRemoteReport = Some (RemoteReport
     \<lparr>rr_epoch_id = 12, rr_remote_principal = 2000000, rr_reported_value = 2050000,
      rr_realized_loss = 1500, rr_unattributed_balance = 25,
      rr_latest_completed_transfer_id = wide_of 0x77, rr_probe_status = Fresh,
      rr_probe_timestamp = OBSERVED_AT - 120, rr_config_version = 4,
      rr_remote_state_commitment = wide_of 0x88\<rparr>)"
| "body_of TRecallSent = Some (RecallSent
     \<lparr>rs_transfer_id = wide_of 0x99, rs_principal_sent = 500000, rs_actual_amount_sent = 498000,
      rs_realized_loss = 2000, rs_destination_reference = wide_of 0xBB,
      rs_sent_timestamp = OBSERVED_AT - 30, rs_config_version = 4\<rparr>)"
| "body_of TResolve = Some (Resolve
     \<lparr>rv_transfer_id = wide_of 0x55, rv_target_sequence = 41, rv_action = Admit, rv_config_version = 4\<rparr>)"
| "body_of TTransportSettlement = Some (TransportSettlement
     \<lparr>ts_transfer_id = wide_of 0x66, ts_kind = Closed, ts_claim_amount = 1000000,
      ts_credited_amount = 600000, ts_impaired_outstanding = 400000, ts_config_version = 4\<rparr>)"
| "body_of TConfigUpdate = None"

datatype outcome = Printed string | Failure string

definition helper_message :: "message_type \<Rightarrow> message option" where
  "helper_message kind = map_option (\<lambda>b. \<lparr>msg_header = helper_header, msg_body = b\<rparr>) (body_of kind)"

section \<open>Printing\<close>

definition HEX_TABLE :: string where
  "HEX_TABLE = ''0123456789abcdef''"

fun hex_digits :: "bytes \<Rightarrow> string option" where
  "hex_digits [] = Some []"
| "hex_digits (byte # bs) =
     (let hi = unat (drop_bit 4 byte); lo = unat (byte AND 15) in
      if hi < length HEX_TABLE \<and> lo < length HEX_TABLE
      then map_option (\<lambda>rest. HEX_TABLE ! hi # HEX_TABLE ! lo # rest) (hex_digits bs)
      else None)"

definition write_hex :: "bytes \<Rightarrow> outcome" where
  "write_hex bs = (case hex_digits bs of Some ds \<Rightarrow> Printed (''0x'' @ ds) | None \<Rightarrow> Failure [])"

section \<open>Commands\<close>

definition encode_kind :: "'h digest \<Rightarrow> message_type \<Rightarrow> string + bytes" where
  "encode_kind D kind =
     and_then (ok_or (helper_message kind) ''config update is not used by this helper'') (\<lambda>m.
     map_err encode_error_message (encode_message D m))"

definition write_ids :: "'h digest \<Rightarrow> message_type \<Rightarrow> outcome" where
  "write_ids D kind =
     (case helper_message kind of None \<Rightarrow> Failure ''config update is not used by this helper''
      | Some m \<Rightarrow>
        (case encode_message D m of Inl reason \<Rightarrow> Failure (encode_error_message reason)
         | Inr encoded \<Rightarrow>
           (case message_id D m of Inl reason \<Rightarrow> Failure (encode_error_message reason)
            | Inr i \<Rightarrow> write_hex (to_be_bytes i @
                to_be_bytes (next_commitment D (hd_previous_commitment helper_header) i)))))"

definition exit_with :: "string + outcome \<Rightarrow> outcome" where
  "exit_with r = (case r of Inl reason \<Rightarrow> Failure reason | Inr out \<Rightarrow> out)"

definition decode_kind :: "'h digest \<Rightarrow> message_type \<Rightarrow> outcome" where
  "decode_kind D kind =
     exit_with (and_then (encode_kind D kind) (\<lambda>encoded.
     and_then (map_err decode_error_message (decode_message D encoded)) (\<lambda>_.
     Inr (write_hex encoded))))"

definition write_kind :: "'h digest \<Rightarrow> message_type \<Rightarrow> outcome" where
  "write_kind D kind = exit_with (and_then (encode_kind D kind) (\<lambda>encoded. Inr (write_hex encoded)))"

definition helper_main :: "'h digest \<Rightarrow> string option \<Rightarrow> outcome" where
  "helper_main D argument =
     (case argument of None \<Rightarrow> Failure ''missing command''
      | Some command \<Rightarrow>
        if command = ''encode-allocate'' then write_kind D TAllocate
        else if command = ''encode-recall'' then write_kind D TRecall
        else if command = ''encode-remote-report'' then write_kind D TRemoteReport
        else if command = ''encode-recall-sent'' then write_kind D TRecallSent
        else if command = ''encode-resolve'' then write_kind D TResolve
        else if command = ''encode-transport-settlement'' then write_kind D TTransportSettlement
        else if command = ''ids-allocate'' then write_ids D TAllocate
        else if command = ''ids-recall'' then write_ids D TRecall
        else if command = ''ids-remote-report'' then write_ids D TRemoteReport
        else if command = ''ids-recall-sent'' then write_ids D TRecallSent
        else if command = ''ids-resolve'' then write_ids D TResolve
        else if command = ''ids-transport-settlement'' then write_ids D TTransportSettlement
        else if command = ''decode-remote-report'' then decode_kind D TRemoteReport
        else if command = ''decode-recall-sent'' then decode_kind D TRecallSent
        else Failure (''unknown command '' @ command))"

section \<open>The fixed messages are valid\<close>

lemma wide_of_bytes: "to_be_bytes (wide_of b) = replicate 32 b"
  by (simp add: wide_of_def to_from_be_bytes)

lemma wide_of_eq: "wide_of a = wide_of b \<longleftrightarrow> a = b"
  by (simp add: wide_bytes_eq wide_of_bytes)

lemma wide_of_zero: "wide_of a = 0 \<longleftrightarrow> a = 0"
proof -
  have "wide_is_zero (wide_of 0)" by (simp add: wide_is_zero_def wide_of_bytes del: wide_is_zero_iff)
  then show ?thesis using wide_of_eq [of a 0] by simp
qed

lemma helper_header_rules: "header_rules helper_header"
proof -
  have sol: "from_solana_pubkey SOLANA_APPLICATION = wide_of 0xB2"
    by (simp add: from_solana_pubkey_def SOLANA_APPLICATION_def wide_of_def)
  have evm: "to_be_bytes (from_evm_address EVM_APPLICATION) = replicate 12 0 @ replicate 20 0xA1"
    by (simp add: evm_address_bytes EVM_APPLICATION_def)
  have "b = 0xA1" if "from_evm_address EVM_APPLICATION = wide_of b" for b
    using arg_cong [OF that, of "\<lambda>w. to_be_bytes w ! 31"] by (simp add: evm wide_of_bytes nth_append)
  then have "from_evm_address EVM_APPLICATION \<noteq> wide_of 0xB2" "from_evm_address EVM_APPLICATION \<noteq> wide_of 0"
    by fastforce+
  moreover have "wide_of 0 = 0" by (simp add: wide_of_zero)
  ultimately show ?thesis
    by (simp add: header_rules_def helper_header_def sol wide_of_zero OBSERVED_AT_def PUBLISHED_AT_def
        EXPIRES_AT_def)
qed

lemma helper_message_valid: "helper_message kind = Some m \<Longrightarrow> message_valid m"
  using helper_header_rules
  by (cases kind)
    (auto simp: helper_message_def message_valid_def helper_header_def PROTOCOL_VERSION_def SCHEMA_VERSION_def
      allocate_rules_def recall_rules_def remote_report_rules_def recall_sent_rules_def resolve_rules_def
      settlement_rules_def envelope_times_of_def wide_of_zero OBSERVED_AT_def PUBLISHED_AT_def)

lemma hex_digits_total: "\<exists>ds. hex_digits bs = Some ds \<and> length ds = 2 * length bs"
proof (induction bs)
  case (Cons b bs)
  have "unat (drop_bit 4 b) < 16"
    using unat_below [of b] by (simp add: drop_bit_eq_div unat_div)
  moreover have "unat (b AND 15) < 16"
  proof -
    have "b AND 15 = take_bit 4 b" by (simp add: take_bit_eq_mask mask_numeral)
    then show ?thesis by (simp add: take_bit_eq_mod unat_mod)
  qed
  ultimately show ?case using Cons by (auto simp: HEX_TABLE_def Let_def)
qed simp

end
