(* ===== verification/Wire_Props.thy ===== *)
theory Wire_Props
  imports Wire_Helper
begin

text \<open>
  Properties of the wire format: encoding and decoding are inverse to each other on exactly
  the valid messages, every deviation from the frame is reported with its own error, the body
  hash seals the body, identifiers and commitments bind the message, and the layout tables
  partition their regions. Witnesses use the messages of the helper program.
\<close>

section \<open>A concrete digest\<close>

text \<open>A polynomial checksum stands in for Keccak-256 where a concrete digest is needed.\<close>

definition poly_digest :: "bytes digest" where
  "poly_digest =
     \<lparr>dg_new = [], dg_update = (@),
      dg_finalize = foldl (\<lambda>acc b. acc * 257 + ucast b + 1) 0\<rparr>"

definition demo_message :: message where
  "demo_message = the (helper_message TResolve)"

definition demo_settlement :: message where
  "demo_settlement = the (helper_message TTransportSettlement)"

lemma poly_digest_laws: "digest_laws poly_digest"
  by (simp add: digest_laws_def poly_digest_def)

lemma demo_valid: "message_valid demo_message" "message_valid demo_settlement"
  by (rule helper_message_valid [where kind = TResolve], simp add: demo_message_def helper_message_def)
    (rule helper_message_valid [where kind = TTransportSettlement],
      simp add: demo_settlement_def helper_message_def)

lemma demo_encodes:
  "encode_message D demo_message = Inr (message_bytes D demo_message)"
  "encode_message D demo_settlement = Inr (message_bytes D demo_settlement)"
  by (simp_all add: encode_message_iff demo_valid)

lemma demo_types [simp]:
  "message_type_of demo_message = TResolve" "message_type_of demo_settlement = TTransportSettlement"
  by (simp_all add: demo_message_def demo_settlement_def helper_message_def message_type_of_def)

section \<open>Encoding and decoding\<close>

text \<open>C36. Encoding and decoding are inverse to each other: a message encodes to a byte string
  exactly when that byte string decodes to the message. Every encoded message is read back
  unchanged, and every accepted byte string is the one canonical encoding of what it decodes
  to, so no two byte strings decode to the same message. It holds for any digest.\<close>

theorem encode_decode_inverse:
  "encode_message D m = Inr bs \<longleftrightarrow> decode_message D bs = Inr m"
  by (simp add: encode_message_iff decode_message_iff)

text \<open>What \<open>encode_into\<close> does to a buffer, on every message: a valid message that fits is
  written at its front as its canonical bytes, the bytes after it stay, and the width is that
  of its kind; a valid message that does not fit is refused with the two sizes; an invalid
  message is refused for the version or the rule it breaks, whatever the buffer.\<close>

theorem encode_into_total:
  "encode_into D m out =
     (if \<not> message_valid m then encode_into D m []
      else if length out < message_len (message_type_of m)
      then Inl (BufferTooSmall (of_nat (message_len (message_type_of m))) (saturating_u32 (length out)))
      else Inr (message_bytes D m @ drop (message_len (message_type_of m)) out, message_len (message_type_of m)))
   \<and> (is_ok (encode_message D m) \<longleftrightarrow> message_valid m)"
proof -
  have "is_ok (encode_message D m) \<longleftrightarrow> message_valid m"
    by (auto simp: is_ok_iff encode_message_iff)
  moreover have "encode_into D m out = encode_into D m []" if "\<not> message_valid m"
    using that by (auto simp: encode_into_cases guards_iff split: sum.splits)
  moreover have "encode_into D m out =
      (if length out < encoded_len m
       then Inl (BufferTooSmall (of_nat (encoded_len m)) (saturating_u32 (length out)))
       else Inr (message_bytes D m @ drop (encoded_len m) out, encoded_len m))" if "message_valid m"
    using that by (simp add: encode_into_cases guards_iff)
  ultimately show ?thesis by (simp add: encoded_len_def)
qed

text \<open>Whatever bytes are decoded, an accepted message names the supported versions, obeys
  the header rules and the rules of its body, and occupies exactly the width of its kind,
  which is at most 400 bytes.\<close>

theorem decoded_message_valid:
  assumes "decode_message D bs = Inr m"
  shows "message_valid m \<and> header_rules (msg_header m) \<and>
    body_rules (msg_body m) (envelope_times_of (msg_header m)) (hd_sequence (msg_header m)) \<and>
    length bs = message_len (message_type_of m) \<and> length bs \<le> MESSAGE_SIZE_TARGET"
  using assms width_facts(3) [of m]
  by (auto simp: decode_message_iff message_valid_def encoded_len_def layout_simps)

theorem decoded_message_valid_witness:
  "length (message_bytes poly_digest demo_message) = 296 \<and> header_rules (msg_header demo_message)"
proof -
  have "decode_message poly_digest (message_bytes poly_digest demo_message) = Inr demo_message"
    by (simp add: decode_message_iff demo_valid)
  from decoded_message_valid [OF this] show ?thesis by (simp add: layout_simps)
qed

section \<open>Frames\<close>

lemma inspect_frame_head:
  assumes "247 \<le> length bs" "sub_bytes bs 0 4 = MAGIC" "sub_bytes bs 4 2 = to_be_bytes (1 :: u16)"
    and "sub_bytes bs 6 2 = to_be_bytes (1 :: u16)" "sub_bytes bs 8 1 = to_be_bytes (type_to_u8 k)"
  shows "inspect_frame bs =
    (if length bs < message_len k
     then Inl (Truncated (of_nat (message_len k)) (saturating_u32 (length bs)))
     else if message_len k < length bs
     then Inl (TrailingBytes (of_nat (message_len k)) (saturating_u32 (length bs)))
     else Inr \<lparr>fr_message_type = k, fr_body_len = body_len k\<rparr>)"
proof -
  have add: "checked_add_usize 247 (body_len k) = Some (message_len k)"
    and sat: "saturating_u32 (message_len k) = of_nat (message_len k)"
    using body_len_bound [of k] by (simp_all add: checked_add_usize_def saturating_u32_def message_len_sum)
  show ?thesis
    using assms
    by (simp add: inspect_frame_def layout_simps codec_simps PROTOCOL_VERSION_def SCHEMA_VERSION_def
        type_enum.from_to Let_def add sat be_bytes_inverse del: One_nat_def)
qed

lemma sub_bytes_shorter:
  "offset + width \<le> n \<Longrightarrow> sub_bytes (take n bs) offset width = sub_bytes bs offset width"
  "offset + width \<le> length bs \<Longrightarrow> sub_bytes (bs @ extra) offset width = sub_bytes bs offset width"
  by (simp_all add: sub_bytes_def drop_take min_def)

lemma sub_bytes_update:
  "i < offset \<or> offset + width \<le> i \<Longrightarrow> sub_bytes (bs[i := v]) offset width = sub_bytes bs offset width"
  by (rule nth_equalityI) (auto simp: sub_bytes_def nth_list_update)

lemma sub_bytes_updated: "i < length bs \<Longrightarrow> sub_bytes (bs[i := v]) i 1 = [v]"
  by (rule nth_equalityI) (auto simp: sub_bytes_def)

lemma to_be_bytes_u8: "to_be_bytes (v :: u8) = [v]"
  by (simp add: to_be_bytes_def)

lemmas head_parts = message_bytes_parts(1-4)

text \<open>The frame is exact. Of a canonical encoding, every proper prefix is refused as
  truncated and every extension as having trailing bytes, with the sizes; rewriting the kind
  byte to any other kind is refused on length alone, because no two kinds have the same
  width.\<close>

theorem frame_is_exact:
  assumes "encode_message D m = Inr bs"
  shows "(n < length bs \<longrightarrow> decode_message D (take n bs) =
      Inl (Truncated (if n < 247 then 247 else of_nat (length bs)) (of_nat n))) \<and>
    (extra \<noteq> [] \<longrightarrow> decode_message D (bs @ extra) =
      Inl (TrailingBytes (of_nat (length bs)) (saturating_u32 (length bs + length extra)))) \<and>
    (k \<noteq> message_type_of m \<longrightarrow> decode_message D (bs[8 := type_to_u8 k]) =
      Inl (if length bs < message_len k then Truncated (of_nat (message_len k)) (of_nat (length bs))
           else TrailingBytes (of_nat (message_len k)) (of_nat (length bs))))"
proof -
  from assms have valid: "message_valid m" and bs: "bs = message_bytes D m"
    by (simp_all add: encode_message_iff)
  have len: "length bs = message_len (message_type_of m)" "247 \<le> length bs" "length bs \<le> 400"
    using width_facts [of m] by (simp_all add: bs encoded_len_def)
  have sat: "saturating_u32 n = of_nat n" if "n \<le> 400" for n
    using that by (simp add: saturating_u32_def)
  have fail: "decode_message D x = Inl e" if "inspect_frame x = Inl e" for x e
    using that by (simp add: decode_message_def)
  have parts: "sub_bytes bs 0 4 = MAGIC" "sub_bytes bs 4 2 = to_be_bytes (1 :: u16)"
      "sub_bytes bs 6 2 = to_be_bytes (1 :: u16)" "sub_bytes bs 8 1 = to_be_bytes (type_to_u8 (message_type_of m))"
    using valid by (simp_all add: bs head_parts message_valid_def del: One_nat_def)
  have "decode_message D (take n bs) = Inl (Truncated (if n < 247 then 247 else of_nat (length bs)) (of_nat n))"
    if "n < length bs"
  proof (cases "n < 247")
    case True
    with that show ?thesis by (intro fail) (simp add: inspect_frame_def layout_simps sat)
  next
    case False
    with that len parts show ?thesis
      by (intro fail) (subst inspect_frame_head [where k = "message_type_of m"],
          simp_all add: sub_bytes_shorter sat min_def del: One_nat_def)
  qed
  moreover have "decode_message D (bs @ extra) =
      Inl (TrailingBytes (of_nat (length bs)) (saturating_u32 (length bs + length extra)))" if "extra \<noteq> []"
    using that len parts
    by (intro fail) (subst inspect_frame_head [where k = "message_type_of m"],
        simp_all add: sub_bytes_shorter del: One_nat_def)
  moreover have "decode_message D (bs[8 := type_to_u8 k]) =
      Inl (if length bs < message_len k then Truncated (of_nat (message_len k)) (of_nat (length bs))
           else TrailingBytes (of_nat (message_len k)) (of_nat (length bs)))" if "k \<noteq> message_type_of m"
  proof -
    have "message_len k \<noteq> length bs" using that len(1) by (simp add: message_len_sum body_len_inj)
    with len parts show ?thesis
      by (intro fail) (subst inspect_frame_head [where k = k],
          auto simp: sub_bytes_update sub_bytes_updated to_be_bytes_u8 sat simp del: One_nat_def)
  qed
  ultimately show ?thesis by blast
qed

theorem frame_is_exact_witness:
  "decode_message poly_digest (take 295 (message_bytes poly_digest demo_message)) = Inl (Truncated 296 295) \<and>
   decode_message poly_digest (message_bytes poly_digest demo_message @ [0]) = Inl (TrailingBytes 296 297) \<and>
   decode_message poly_digest ((message_bytes poly_digest demo_message)[8 := 1]) = Inl (Truncated 343 296)"
  using frame_is_exact [OF demo_encodes(1) [of poly_digest], of 295 "[0]" TAllocate]
  by (simp add: encoded_len_def layout_simps saturating_u32_def)

section \<open>Hashes\<close>

lemma message_bytes_split:
  "take 247 (message_bytes D m) =
     header_bytes (msg_header m) (message_type_of m) (keccak256 D (body_bytes (msg_body m)))"
  "drop 247 (message_bytes D m) = body_bytes (msg_body m)"
  by (simp_all add: message_bytes_def)

text \<open>The body hash seals the body: under an accepted header, any other body of the same
  width whose digest differs is refused as a hash mismatch, before a single field of it is
  parsed.\<close>

theorem body_hash_seals:
  assumes "encode_message D m = Inr bs" "length other = length bs - 247"
    and "keccak256 D other \<noteq> keccak256 D (drop 247 bs)"
  shows "decode_message D (take 247 bs @ other) = Inl BodyHashMismatch"
proof -
  let ?h = "header_bytes (msg_header m) (message_type_of m) (keccak256 D (body_bytes (msg_body m)))"
  from assms(1) have valid: "message_valid m" and bs: "bs = message_bytes D m"
    by (simp_all add: encode_message_iff)
  have len: "length other = body_len (message_type_of m)"
    using assms(2) by (simp add: bs width_facts)
  have "inspect_frame (?h @ other) =
      Inr \<lparr>fr_message_type = message_type_of m, fr_body_len = body_len (message_type_of m)\<rparr>"
    using valid
    by (subst inspect_frame_head [where k = "message_type_of m"])
      (simp_all add: header_bytes_fields message_valid_def message_len_sum len del: One_nat_def)
  moreover have "read_wide (?h @ other) 215 = Inr (keccak256 D (body_bytes (msg_body m)))"
    by (simp add: codec_simps header_bytes_fields be_bytes_inverse)
  moreover have "window (?h @ other) 247 (body_len (message_type_of m)) = Inr other"
    using body_len_bound [of "message_type_of m"] by (simp add: codec_simps len)
  ultimately show ?thesis
    using assms(3) by (simp add: bs message_bytes_split decode_message_def layout_simps)
qed

lemma poly_keccak_snoc:
  "keccak256 poly_digest (bs @ [b]) = keccak256 poly_digest bs * 257 + ucast b + 1"
  by (simp add: keccak256_def poly_digest_def)

theorem body_hash_seals_witness:
  "decode_message poly_digest
     (take 247 (message_bytes poly_digest demo_message) @ butlast (drop 247 (message_bytes poly_digest demo_message)) @ [5])
   = Inl BodyHashMismatch"
proof -
  let ?b = "drop 247 (message_bytes poly_digest demo_message)"
  have "?b = resolve_bytes \<lparr>rv_transfer_id = wide_of 0x55, rv_target_sequence = 41, rv_action = Admit, rv_config_version = 4\<rparr>"
    by (simp add: message_bytes_split demo_message_def helper_message_def)
  moreover have "to_be_bytes (4 :: u64) = [0, 0, 0, 0, 0, 0, 0] @ [4]" by code_simp
  ultimately obtain front where b: "?b = front @ [4]" by (simp add: resolve_bytes_def)
  have "keccak256 poly_digest (front @ [5]) \<noteq> keccak256 poly_digest (front @ [4])"
    by (simp add: poly_keccak_snoc)
  with body_hash_seals [OF demo_encodes(1) [of poly_digest], of "front @ [5]"] b show ?thesis
    by simp (metis b butlast_snoc length_append_singleton length_drop message_bytes_length)
qed

lemma domain_tags:
  "length MESSAGE_ID_DOMAIN = 20" "length COMMITMENT_DOMAIN = 20"
  "MESSAGE_ID_DOMAIN ! 7 = 77" "COMMITMENT_DOMAIN ! 7 = 67"
  by code_simp+

text \<open>An identifier binds the whole message and a chain link binds its two inputs: both are
  the digest of their domain tag followed by the inputs, and equal hash inputs force equal
  messages, respectively equal predecessors and identifiers. No link shares its hash input
  with a message identifier.\<close>

theorem identifiers_bind:
  assumes "digest_laws D" "message_valid m" "message_valid n"
  shows "message_id D m = Inr (keccak256 D (MESSAGE_ID_DOMAIN @ message_bytes D m)) \<and>
    next_commitment D p i = keccak256 D (COMMITMENT_DOMAIN @ to_be_bytes p @ to_be_bytes i) \<and>
    (MESSAGE_ID_DOMAIN @ message_bytes D m = MESSAGE_ID_DOMAIN @ message_bytes D n \<longleftrightarrow> m = n) \<and>
    (COMMITMENT_DOMAIN @ to_be_bytes p @ to_be_bytes i = COMMITMENT_DOMAIN @ to_be_bytes q @ to_be_bytes j \<longleftrightarrow>
      p = q \<and> i = j) \<and>
    MESSAGE_ID_DOMAIN @ bs \<noteq> COMMITMENT_DOMAIN @ cs"
proof -
  have "message_id D m = Inr (keccak256 D (MESSAGE_ID_DOMAIN @ message_bytes D m))"
  proof -
    have "encode D m = Inr \<lparr>em_bytes = message_bytes D m @ replicate (400 - encoded_len m) 0,
        em_len = of_nat (encoded_len m)\<rparr>"
      by (simp add: encode_Inr assms(2))
    then show ?thesis
      by (simp add: message_id_def em_message_id_def as_bytes_encoded message_id_of_def
          keccak256_parts_concat [OF assms(1)])
  qed
  moreover have "message_bytes D m = message_bytes D n \<longleftrightarrow> m = n"
    by (metis decode_message_bytes assms(2,3) sum.inject(2))
  moreover have "MESSAGE_ID_DOMAIN @ bs \<noteq> COMMITMENT_DOMAIN @ cs"
  proof
    assume "MESSAGE_ID_DOMAIN @ bs = COMMITMENT_DOMAIN @ cs"
    then have "(MESSAGE_ID_DOMAIN @ bs) ! 7 = (COMMITMENT_DOMAIN @ cs) ! 7" by (rule arg_cong)
    then show False by (simp add: nth_append domain_tags)
  qed
  ultimately show ?thesis
    by (simp add: next_commitment_def keccak256_parts_concat [OF assms(1)] wide_bytes_eq)
qed

theorem identifiers_bind_witness:
  "message_id poly_digest demo_message =
     Inr (keccak256 poly_digest (MESSAGE_ID_DOMAIN @ message_bytes poly_digest demo_message)) \<and>
   message_bytes poly_digest demo_message \<noteq> message_bytes poly_digest demo_settlement"
proof -
  have "demo_message \<noteq> demo_settlement" using demo_types by force
  with identifiers_bind [OF poly_digest_laws demo_valid] show ?thesis by blast
qed

section \<open>Layout\<close>

text \<open>The checks the source runs at compile time pass, and they mean what they are for: in
  the header and in every body each byte of the region lies in exactly one field of its table
  and no field reaches beyond it; the seven widths are distinct, every message is its header
  plus its body, and none exceeds the transport budget of 400 bytes.\<close>

theorem layout_is_a_partition:
  "length (filter (in_field i) HEADER_FIELDS) = (if i < HEADER_LEN then 1 else 0) \<and>
   length (filter (in_field i) ALLOCATE_FIELDS) = (if i < body_len TAllocate then 1 else 0) \<and>
   length (filter (in_field i) RECALL_FIELDS) = (if i < body_len TRecall then 1 else 0) \<and>
   length (filter (in_field i) REMOTE_REPORT_FIELDS) = (if i < body_len TRemoteReport then 1 else 0) \<and>
   length (filter (in_field i) RECALL_SENT_FIELDS) = (if i < body_len TRecallSent then 1 else 0) \<and>
   length (filter (in_field i) CONFIG_UPDATE_FIELDS) = (if i < body_len TConfigUpdate then 1 else 0) \<and>
   length (filter (in_field i) RESOLVE_FIELDS) = (if i < body_len TResolve then 1 else 0) \<and>
   length (filter (in_field i) TRANSPORT_SETTLEMENT_FIELDS) = (if i < body_len TTransportSettlement then 1 else 0) \<and>
   all_distinct BODY_WIDTHS \<and> map body_len ALL_TYPES = BODY_WIDTHS \<and>
   message_len k = HEADER_LEN + body_len k \<and> message_len k \<le> MESSAGE_SIZE_TARGET"
proof -
  have count: "length (filter (in_field i) fields) = (if i < len then 1 else 0)"
    if "is_contiguous fields len" for fields len
    using contiguous_from_once [of 0 fields len i] contiguous_from_covers [of 0 fields len i] that
    by (auto simp: is_contiguous_def filter_empty_conv)
  have tables: "is_contiguous HEADER_FIELDS HEADER_LEN" "is_contiguous ALLOCATE_FIELDS ALLOCATE_BODY_LEN"
    "is_contiguous RECALL_FIELDS RECALL_BODY_LEN" "is_contiguous REMOTE_REPORT_FIELDS REMOTE_REPORT_BODY_LEN"
    "is_contiguous RECALL_SENT_FIELDS RECALL_SENT_BODY_LEN" "is_contiguous CONFIG_UPDATE_FIELDS CONFIG_UPDATE_BODY_LEN"
    "is_contiguous RESOLVE_FIELDS RESOLVE_BODY_LEN"
    "is_contiguous TRANSPORT_SETTLEMENT_FIELDS TRANSPORT_SETTLEMENT_BODY_LEN"
    by (simp_all add: is_contiguous_def field_tables layout_simps)
  have widths: "all_distinct BODY_WIDTHS" "map body_len ALL_TYPES = BODY_WIDTHS"
    by (simp_all add: BODY_WIDTHS_def ALL_TYPES_def layout_simps)
  have "message_len k = HEADER_LEN + body_len k" "message_len k \<le> MESSAGE_SIZE_TARGET"
    using body_len_bound [of k] by (simp_all add: message_len_sum layout_simps)
  with widths show ?thesis
    using tables [THEN count] by simp
qed

section \<open>Identifiers and discriminants\<close>

text \<open>An EVM address survives the trip through a 32 byte application identifier, and an
  identifier whose first twelve bytes are zero is the image of exactly the address in its low
  twenty bytes.\<close>

theorem evm_address_roundtrip:
  assumes "length address = 20"
  shows "low_20_bytes (from_evm_address address) = address \<and>
    has_zero_high_12_bytes (from_evm_address address) \<and>
    (has_zero_high_12_bytes i \<longleftrightarrow> from_evm_address (low_20_bytes i) = i) \<and>
    (wide_is_zero (from_evm_address address) \<longleftrightarrow> address = replicate 20 0)"
proof -
  have "length (low_20_bytes i) = 20" by (simp add: low_20_bytes_def)
  then have "to_be_bytes (from_evm_address (low_20_bytes i)) = replicate 12 0 @ drop 12 (to_be_bytes i)"
    by (simp add: evm_address_bytes low_20_bytes_def)
  then have "has_zero_high_12_bytes i \<longleftrightarrow> from_evm_address (low_20_bytes i) = i"
    using append_take_drop_id [of 12 "to_be_bytes i"]
    by (auto simp: has_zero_high_12_bytes_def wide_bytes_eq dest: sym)
      (metis append_eq_append_conv append_take_drop_id length_replicate)
  moreover have "wide_is_zero (from_evm_address address) \<longleftrightarrow> address = replicate 20 0"
    using replicate_add [of 12 20 "0 :: u8"]
    by (simp add: wide_is_zero_def evm_address_bytes [OF assms] del: wide_is_zero_iff)
  ultimately show ?thesis
    by (simp add: low_20_bytes_def has_zero_high_12_bytes_def evm_address_bytes [OF assms])
qed

theorem evm_address_roundtrip_witness:
  "low_20_bytes (from_evm_address EVM_APPLICATION) = EVM_APPLICATION"
  using evm_address_roundtrip [of EVM_APPLICATION] by (simp add: EVM_APPLICATION_def)

text \<open>Every wire discriminant is read back as the value it was written for and no other
  byte is accepted: an unknown byte is refused with an error that names it.\<close>

theorem discriminants_roundtrip:
  "(type_from_u8 v = Inr t \<longleftrightarrow> v = type_to_u8 t) \<and>
   (type_from_u8 v = Inl (UnknownMessageType v) \<longleftrightarrow> v \<notin> type_to_u8 ` set ALL_TYPES) \<and>
   (probe_from_u8 v = Inr p \<longleftrightarrow> v = probe_to_u8 p) \<and>
   (probe_from_u8 v = Inl (InvalidProbeStatus v) \<longleftrightarrow> v \<notin> probe_to_u8 ` set ALL_PROBES) \<and>
   (action_from_u8 v = Inr a \<longleftrightarrow> v = action_to_u8 a) \<and>
   (action_from_u8 v = Inl (UnknownResolveAction v) \<longleftrightarrow> v \<notin> action_to_u8 ` set ALL_ACTIONS) \<and>
   (kind_from_u8 v = Inr s \<longleftrightarrow> v = kind_to_u8 s) \<and>
   (kind_from_u8 v = Inl (UnknownSettlementKind v) \<longleftrightarrow> v \<notin> kind_to_u8 ` set ALL_KINDS)"
  by (intro conjI type_enum.from_u8_iff type_enum.from_u8_unknown probe_enum.from_u8_iff
      probe_enum.from_u8_unknown action_enum.from_u8_iff action_enum.from_u8_unknown
      kind_enum.from_u8_iff kind_enum.from_u8_unknown)

section \<open>Texts\<close>

text \<open>A report whose probe lies after the observation but not after the publication is
  refused, and the text printed for it says that the probe is after publication, which it is
  not: the rule compares with the observation time.\<close>

theorem probe_error_names_the_wrong_time:
  "\<exists>h b e. hd_observed_at h < rr_probe_timestamp b \<and> rr_probe_timestamp b < hd_published_at h \<and>
     body_validate (RemoteReport b) (envelope_times_of h) (hd_sequence h) = Inl e \<and>
     validation_message e = ''probe time is after publication time''"
proof -
  obtain b where b: "body_of TRemoteReport = Some (RemoteReport b)" by simp
  let ?b = "b\<lparr>rr_probe_timestamp := OBSERVED_AT + 1\<rparr>"
  have "body_validate (RemoteReport ?b) (envelope_times_of helper_header) (hd_sequence helper_header) =
      Inl ProbeTimestampAfterObservation"
    using b by (auto simp: remote_report_validate_def helper_header_def envelope_times_of_def wide_of_zero
        OBSERVED_AT_def)
  then show ?thesis
    by (intro exI [of _ helper_header] exI [of _ ?b] exI [of _ ProbeTimestampAfterObservation])
      (simp add: helper_header_def OBSERVED_AT_def PUBLISHED_AT_def)
qed

section \<open>The helper program\<close>

text \<open>Every encoding command of the helper prints \<open>0x\<close> and two digits for each byte of the
  canonical message, the decoding commands print the same line because what they encode
  decodes, and the identifier commands print the identifier and the next link in 64 bytes.
  The configuration update and an unknown command fail.\<close>

theorem helper_commands_succeed:
  "(\<exists>ds. write_kind D TAllocate = Printed (''0x'' @ ds) \<and> length ds = 2 * ALLOCATE_MESSAGE_LEN) \<and>
   (\<exists>ds. helper_main D (Some ''decode-remote-report'') = Printed (''0x'' @ ds) \<and>
      helper_main D (Some ''encode-remote-report'') = Printed (''0x'' @ ds) \<and> length ds = 2 * REMOTE_REPORT_MESSAGE_LEN) \<and>
   (\<exists>ds. helper_main D (Some ''ids-resolve'') = Printed (''0x'' @ ds) \<and> length ds = 128) \<and>
   write_kind D TConfigUpdate = Failure ''config update is not used by this helper'' \<and>
   helper_main D (Some ''encode-config-update'') = Failure ''unknown command encode-config-update''"
proof -
  have hex: "\<exists>ds. write_hex bs = Printed (''0x'' @ ds) \<and> length ds = 2 * length bs" for bs
    using hex_digits_total [of bs] by (auto simp: write_hex_def)
  have enc: "encode_kind D k = Inr (message_bytes D m)" "decode_message D (message_bytes D m) = Inr m"
    if "helper_message k = Some m" for k m
    using helper_message_valid [OF that] that
    by (simp_all add: encode_kind_def encode_message_iff [THEN iffD2] decode_message_iff)
  have kinds: "\<exists>m. helper_message k = Some m \<and> encoded_len m = message_len k" if "k \<noteq> TConfigUpdate" for k
    using that by (cases k) (simp_all add: helper_message_def encoded_len_def message_type_of_def)
  have written: "\<exists>ds. write_kind D k = Printed (''0x'' @ ds) \<and> decode_kind D k = Printed (''0x'' @ ds) \<and>
      length ds = 2 * message_len k" if "k \<noteq> TConfigUpdate" for k
  proof -
    from kinds [OF that] obtain m where m: "helper_message k = Some m" "encoded_len m = message_len k" by blast
    then show ?thesis
      using hex [of "message_bytes D m"] enc [OF m(1)]
      by (auto simp: write_kind_def decode_kind_def exit_with_def)
  qed
  from kinds [of TResolve] obtain m where m: "helper_message TResolve = Some m" by blast
  then have "\<exists>i. message_id D m = Inr i" "encode_message D m = Inr (message_bytes D m)"
    using helper_message_valid [OF m]
    by (auto simp: message_id_def encode_message_iff encode_Inr [THEN iffD2])
  then have "\<exists>ds. write_ids D TResolve = Printed (''0x'' @ ds) \<and> length ds = 128"
    using hex [of "to_be_bytes (_ :: bytes32) @ to_be_bytes (_ :: bytes32)"] by (auto simp: write_ids_def m)
  then show ?thesis
    using written [of TAllocate] written [of TRemoteReport]
    by (auto simp: helper_main_def write_kind_def encode_kind_def exit_with_def helper_message_def)
qed

end
