(* ===== verification/Leg_Base.thy ===== *)
theory Leg_Base
  imports Wire_Message
begin

text \<open>
  Vocabulary of the Solana program (\<open>programs/solevm-remote-leg/src\<close>): its error codes
  (\<open>errors.rs\<close>), the enumerations it stores, the events it emits (\<open>events.rs\<close>), guards, and the
  integer conversions the program uses. Keys and 32 byte identifiers are 256 bit words whose
  bytes are their big endian bytes. An \<open>i64\<close> is a 64 bit word read through \<open>sint\<close>.
\<close>

section \<open>Integers\<close>

type_synonym pubkey = bytes32
type_synonym i64 = "64 word"

definition u64_of_i64 :: "i64 \<Rightarrow> u64 option" where
  "u64_of_i64 x = (if sint x < 0 then None else Some x)"

definition u64_of_u128 :: "u128 \<Rightarrow> u64 option" where
  "u64_of_u128 x = (if x < 2 ^ 64 then Some (ucast x) else None)"

definition u128_of_u64 :: "u64 \<Rightarrow> u128" where
  "u128_of_u64 x = ucast x"

definition to_le_bytes :: "'a::len word \<Rightarrow> bytes" where
  "to_le_bytes x = rev (to_be_bytes x)"

definition from_le_bytes :: "bytes \<Rightarrow> 'a::len word" where
  "from_le_bytes bs = from_be_bytes (rev bs)"

section \<open>Errors and guards\<close>

text \<open>
  The program's own codes, in the order of the source, and one more: \<open>Framework\<close> stands for a
  rejection by Anchor, by another program or by the runtime, whose codes are not the program's.
  Anchor numbers the variants of an \<open>error_code\<close> enumeration from 6000.
\<close>

datatype leg_error = Code nat | Framework

abbreviation Unauthorized :: leg_error where "Unauthorized \<equiv> Code 6000"
abbreviation AlreadyInitialized :: leg_error where "AlreadyInitialized \<equiv> Code 6001"
abbreviation Frozen :: leg_error where "Frozen \<equiv> Code 6002"
abbreviation AlreadyFrozen :: leg_error where "AlreadyFrozen \<equiv> Code 6003"
abbreviation InvalidAuthority :: leg_error where "InvalidAuthority \<equiv> Code 6004"
abbreviation EqualAuthorities :: leg_error where "EqualAuthorities \<equiv> Code 6005"
abbreviation InvalidProgram :: leg_error where "InvalidProgram \<equiv> Code 6006"
abbreviation InvalidAccountOwner :: leg_error where "InvalidAccountOwner \<equiv> Code 6007"
abbreviation InvalidPda :: leg_error where "InvalidPda \<equiv> Code 6008"
abbreviation InvalidBump :: leg_error where "InvalidBump \<equiv> Code 6009"
abbreviation InvalidMint :: leg_error where "InvalidMint \<equiv> Code 6010"
abbreviation InvalidMintDecimals :: leg_error where "InvalidMintDecimals \<equiv> Code 6011"
abbreviation InvalidTokenProgram :: leg_error where "InvalidTokenProgram \<equiv> Code 6012"
abbreviation InvalidCustodyAccount :: leg_error where "InvalidCustodyAccount \<equiv> Code 6013"
abbreviation InvalidOutboundEscrow :: leg_error where "InvalidOutboundEscrow \<equiv> Code 6014"
abbreviation InvalidSourceDomain :: leg_error where "InvalidSourceDomain \<equiv> Code 6015"
abbreviation InvalidDestinationDomain :: leg_error where "InvalidDestinationDomain \<equiv> Code 6016"
abbreviation InvalidApplication :: leg_error where "InvalidApplication \<equiv> Code 6017"
abbreviation InvalidDeployment :: leg_error where "InvalidDeployment \<equiv> Code 6018"
abbreviation InvalidVault :: leg_error where "InvalidVault \<equiv> Code 6019"
abbreviation InvalidLane :: leg_error where "InvalidLane \<equiv> Code 6020"
abbreviation InvalidConfigVersion :: leg_error where "InvalidConfigVersion \<equiv> Code 6021"
abbreviation ArithmeticOverflow :: leg_error where "ArithmeticOverflow \<equiv> Code 6022"
abbreviation ControlStateAlreadyInitialized :: leg_error where "ControlStateAlreadyInitialized \<equiv> Code 6023"
abbreviation InvalidStateVersion :: leg_error where "InvalidStateVersion \<equiv> Code 6024"
abbreviation InvalidRiskConfig :: leg_error where "InvalidRiskConfig \<equiv> Code 6025"
abbreviation InvalidBasisPoints :: leg_error where "InvalidBasisPoints \<equiv> Code 6026"
abbreviation InvalidReportAge :: leg_error where "InvalidReportAge \<equiv> Code 6027"
abbreviation InvalidConfigCommitment :: leg_error where "InvalidConfigCommitment \<equiv> Code 6028"
abbreviation InvalidMessage :: leg_error where "InvalidMessage \<equiv> Code 6029"
abbreviation MessageTooLarge :: leg_error where "MessageTooLarge \<equiv> Code 6030"
abbreviation UnsupportedMessageType :: leg_error where "UnsupportedMessageType \<equiv> Code 6031"
abbreviation InvalidProtocolVersion :: leg_error where "InvalidProtocolVersion \<equiv> Code 6032"
abbreviation InvalidSchemaVersion :: leg_error where "InvalidSchemaVersion \<equiv> Code 6033"
abbreviation InvalidTimestamp :: leg_error where "InvalidTimestamp \<equiv> Code 6034"
abbreviation MessageExpired :: leg_error where "MessageExpired \<equiv> Code 6035"
abbreviation InvalidSequence :: leg_error where "InvalidSequence \<equiv> Code 6036"
abbreviation SequenceBelowWatermark :: leg_error where "SequenceBelowWatermark \<equiv> Code 6037"
abbreviation InvalidPreviousCommitment :: leg_error where "InvalidPreviousCommitment \<equiv> Code 6038"
abbreviation ReplayDetected :: leg_error where "ReplayDetected \<equiv> Code 6039"
abbreviation InvalidConsumedMessage :: leg_error where "InvalidConsumedMessage \<equiv> Code 6040"
abbreviation ConfigNotEffective :: leg_error where "ConfigNotEffective \<equiv> Code 6041"
abbreviation InvalidWatermark :: leg_error where "InvalidWatermark \<equiv> Code 6042"
abbreviation WatermarkLagViolation :: leg_error where "WatermarkLagViolation \<equiv> Code 6043"
abbreviation RecordNotClosable :: leg_error where "RecordNotClosable \<equiv> Code 6044"
abbreviation InvalidRentDestination :: leg_error where "InvalidRentDestination \<equiv> Code 6045"
abbreviation StrategyStateAlreadyInitialized :: leg_error where "StrategyStateAlreadyInitialized \<equiv> Code 6046"
abbreviation InvalidStrategyConfig :: leg_error where "InvalidStrategyConfig \<equiv> Code 6047"
abbreviation InvalidRemotePosition :: leg_error where "InvalidRemotePosition \<equiv> Code 6048"
abbreviation InvalidAdapterProgram :: leg_error where "InvalidAdapterProgram \<equiv> Code 6049"
abbreviation InvalidAdapterState :: leg_error where "InvalidAdapterState \<equiv> Code 6050"
abbreviation InvalidAdapterAuthority :: leg_error where "InvalidAdapterAuthority \<equiv> Code 6051"
abbreviation InvalidAdapterVault :: leg_error where "InvalidAdapterVault \<equiv> Code 6052"
abbreviation InvalidTransferRecord :: leg_error where "InvalidTransferRecord \<equiv> Code 6053"
abbreviation InvalidTransferKind :: leg_error where "InvalidTransferKind \<equiv> Code 6054"
abbreviation InvalidTransferStatus :: leg_error where "InvalidTransferStatus \<equiv> Code 6055"
abbreviation TransferAlreadyExists :: leg_error where "TransferAlreadyExists \<equiv> Code 6056"
abbreviation TransferNotFound :: leg_error where "TransferNotFound \<equiv> Code 6057"
abbreviation UnresolvedCycle :: leg_error where "UnresolvedCycle \<equiv> Code 6058"
abbreviation NoActiveTransfer :: leg_error where "NoActiveTransfer \<equiv> Code 6059"
abbreviation AllocationIncomplete :: leg_error where "AllocationIncomplete \<equiv> Code 6060"
abbreviation AttributionExceedsAuthorization :: leg_error where "AttributionExceedsAuthorization \<equiv> Code 6061"
abbreviation NoAttributableAssets :: leg_error where "NoAttributableAssets \<equiv> Code 6062"
abbreviation RemoteAllocationLimitExceeded :: leg_error where "RemoteAllocationLimitExceeded \<equiv> Code 6063"
abbreviation InvalidExpectedSourceBalance :: leg_error where "InvalidExpectedSourceBalance \<equiv> Code 6064"
abbreviation InvalidMinimumDestinationAmount :: leg_error where "InvalidMinimumDestinationAmount \<equiv> Code 6065"
abbreviation InsufficientAttributedCustody :: leg_error where "InsufficientAttributedCustody \<equiv> Code 6066"
abbreviation InsufficientRemotePrincipal :: leg_error where "InsufficientRemotePrincipal \<equiv> Code 6067"
abbreviation InsufficientStrategyLiquidity :: leg_error where "InsufficientStrategyLiquidity \<equiv> Code 6068"
abbreviation InvalidBalanceDelta :: leg_error where "InvalidBalanceDelta \<equiv> Code 6069"
abbreviation InvalidPrincipalDelta :: leg_error where "InvalidPrincipalDelta \<equiv> Code 6070"
abbreviation InvalidRealizedLoss :: leg_error where "InvalidRealizedLoss \<equiv> Code 6071"
abbreviation InvalidRecallAmount :: leg_error where "InvalidRecallAmount \<equiv> Code 6072"
abbreviation InvalidMinimumReturn :: leg_error where "InvalidMinimumReturn \<equiv> Code 6073"
abbreviation NoRecalledCustody :: leg_error where "NoRecalledCustody \<equiv> Code 6074"
abbreviation FinancialObligationBlocksWatermark :: leg_error where "FinancialObligationBlocksWatermark \<equiv> Code 6075"
abbreviation AccountingDeficit :: leg_error where "AccountingDeficit \<equiv> Code 6076"
abbreviation AmountTooLarge :: leg_error where "AmountTooLarge \<equiv> Code 6077"
abbreviation OutboundStateAlreadyInitialized :: leg_error where "OutboundStateAlreadyInitialized \<equiv> Code 6078"
abbreviation InvalidOutboundLane :: leg_error where "InvalidOutboundLane \<equiv> Code 6079"
abbreviation InvalidReportRecord :: leg_error where "InvalidReportRecord \<equiv> Code 6080"
abbreviation InvalidReportType :: leg_error where "InvalidReportType \<equiv> Code 6081"
abbreviation InvalidReportSequence :: leg_error where "InvalidReportSequence \<equiv> Code 6082"
abbreviation InvalidPublicationTimestamp :: leg_error where "InvalidPublicationTimestamp \<equiv> Code 6083"
abbreviation ReportAlreadyPublished :: leg_error where "ReportAlreadyPublished \<equiv> Code 6084"
abbreviation RecallNotComplete :: leg_error where "RecallNotComplete \<equiv> Code 6085"
abbreviation RecallSentAlreadyPublished :: leg_error where "RecallSentAlreadyPublished \<equiv> Code 6086"
abbreviation InvalidRecallIdentity :: leg_error where "InvalidRecallIdentity \<equiv> Code 6087"
abbreviation InvalidRemoteState :: leg_error where "InvalidRemoteState \<equiv> Code 6088"
abbreviation InvalidRemoteStateCommitment :: leg_error where "InvalidRemoteStateCommitment \<equiv> Code 6089"
abbreviation InvalidReportedValue :: leg_error where "InvalidReportedValue \<equiv> Code 6090"
abbreviation InvalidEncodedLength :: leg_error where "InvalidEncodedLength \<equiv> Code 6091"
abbreviation ReportTooLarge :: leg_error where "ReportTooLarge \<equiv> Code 6092"
abbreviation InvalidDestinationReference :: leg_error where "InvalidDestinationReference \<equiv> Code 6093"
abbreviation InvalidProbeState :: leg_error where "InvalidProbeState \<equiv> Code 6094"
abbreviation AdapterStateMismatch :: leg_error where "AdapterStateMismatch \<equiv> Code 6095"
abbreviation InvalidOutboundMessage :: leg_error where "InvalidOutboundMessage \<equiv> Code 6096"
abbreviation CustodyControlChanged :: leg_error where "CustodyControlChanged \<equiv> Code 6097"
abbreviation WrongResolveInstruction :: leg_error where "WrongResolveInstruction \<equiv> Code 6098"
abbreviation TransferNotClosable :: leg_error where "TransferNotClosable \<equiv> Code 6099"
abbreviation InvalidTransportLedger :: leg_error where "InvalidTransportLedger \<equiv> Code 6100"
abbreviation RecoveryStateMismatch :: leg_error where "RecoveryStateMismatch \<equiv> Code 6101"
abbreviation TransportLedgerImbalance :: leg_error where "TransportLedgerImbalance \<equiv> Code 6102"
abbreviation MissingActiveTransferRecord :: leg_error where "MissingActiveTransferRecord \<equiv> Code 6103"
abbreviation DeploymentAuthorizationRequired :: leg_error where "DeploymentAuthorizationRequired \<equiv> Code 6104"
abbreviation DeploymentNotTopLevel :: leg_error where "DeploymentNotTopLevel \<equiv> Code 6105"
abbreviation InvalidAuthorizationPolicy :: leg_error where "InvalidAuthorizationPolicy \<equiv> Code 6106"
abbreviation InvalidAuthorizationReceipt :: leg_error where "InvalidAuthorizationReceipt \<equiv> Code 6107"
abbreviation AuthorizationExpired :: leg_error where "AuthorizationExpired \<equiv> Code 6108"
abbreviation AuthorizationAmountMismatch :: leg_error where "AuthorizationAmountMismatch \<equiv> Code 6109"
abbreviation AuthorizationContextMismatch :: leg_error where "AuthorizationContextMismatch \<equiv> Code 6110"

definition require :: "bool \<Rightarrow> 'e \<Rightarrow> 'e + unit" where
  "require c e = (if c then Inr () else Inl e)"

lemma require_Inr [result_simps]: "require c e = Inr u \<longleftrightarrow> c"
  by (simp add: require_def)

lemma require_Inl [result_simps]: "require c e = Inl f \<longleftrightarrow> \<not> c \<and> e = f"
  by (auto simp: require_def)

lemma leg_require_simps [simp]: "require True e = Inr ()" "require False e = Inl e"
  by (simp_all add: require_def)

section \<open>Stored enumerations\<close>

text \<open>
  \<open>MessageClass\<close>, \<open>TransferKind\<close>, \<open>TransferStatus\<close>, \<open>QuarantineReason\<close>, \<open>ResolveOutcome\<close> and
  \<open>ReportType\<close>. Variants share names in the source, so each carries a letter here.
\<close>

datatype message_class = CAllocate | CRecall | CConfigUpdate | CResolve

datatype transfer_kind = KNone | KAllocate | KRecall | KRecover

datatype transfer_status = SNone | SPending | SComplete | SQuarantined | SClosed

datatype quarantine_reason = QExpired | QFrozen | QAllocationLimit

datatype resolve_outcome =
  OAdmitted | OExpired | ONotQuarantined | OAllocationLimit | OInsufficientPrincipal

datatype report_type = PRemoteReport | PRecallSent | PTransportSettlement

definition ALL_CLASSES :: "message_class list" where
  "ALL_CLASSES = [CAllocate, CRecall, CConfigUpdate, CResolve]"

fun class_to_u8 :: "message_class \<Rightarrow> u8" where
  "class_to_u8 CAllocate = 0"
| "class_to_u8 CRecall = 1"
| "class_to_u8 CConfigUpdate = 2"
| "class_to_u8 CResolve = 3"

fun class_message_type :: "message_class \<Rightarrow> message_type" where
  "class_message_type CAllocate = TAllocate"
| "class_message_type CRecall = TRecall"
| "class_message_type CConfigUpdate = TConfigUpdate"
| "class_message_type CResolve = TResolve"

fun transfer_kind_to_u8 :: "transfer_kind \<Rightarrow> u8" where
  "transfer_kind_to_u8 KNone = 0"
| "transfer_kind_to_u8 KAllocate = 1"
| "transfer_kind_to_u8 KRecall = 2"
| "transfer_kind_to_u8 KRecover = 3"

fun kind_message_class :: "transfer_kind \<Rightarrow> message_class option" where
  "kind_message_class KNone = None"
| "kind_message_class KAllocate = Some CAllocate"
| "kind_message_class KRecall = Some CRecall"
| "kind_message_class KRecover = Some CResolve"

fun transfer_status_to_u8 :: "transfer_status \<Rightarrow> u8" where
  "transfer_status_to_u8 SNone = 0"
| "transfer_status_to_u8 SPending = 1"
| "transfer_status_to_u8 SComplete = 2"
| "transfer_status_to_u8 SQuarantined = 3"
| "transfer_status_to_u8 SClosed = 4"

fun report_type_to_u8 :: "report_type \<Rightarrow> u8" where
  "report_type_to_u8 PRemoteReport = 1"
| "report_type_to_u8 PRecallSent = 2"
| "report_type_to_u8 PTransportSettlement = 3"

section \<open>Events\<close>

text \<open>
  Every event of the program, with its fields in the order of the source. The published bytes
  of an outbound message exist only in its event, so the log is the program's output channel.
\<close>

datatype (plugins only: code) event =
    RemoteLegInitialized
      pubkey pubkey pubkey pubkey pubkey pubkey pubkey pubkey bytes32 bytes32 u32 u32 u64 i64
  | RemoteLegFrozen
      pubkey pubkey bytes32 bytes32 u64 i64
  | ControlStateInitialized
      pubkey pubkey pubkey u64 u32 u64 i64
  | ConfigUpdated
      pubkey pubkey bytes32 u64 u64 u64 bytes32 i64
  | ReplayWatermarkAdvanced
      pubkey pubkey u32 u64 u64 u64 i64
  | StrategyStateInitialized
      pubkey pubkey pubkey pubkey pubkey pubkey pubkey u64 i64
  | CustodyReconciled
      pubkey pubkey u64 u64 i64
  | AllocateAccepted
      pubkey pubkey bytes32 bytes32 u64 u64 u64 bytes32 i64
  | MessageQuarantined
      pubkey message_class quarantine_reason bytes32 bytes32 u64 bytes32 i64
  | ResolveProcessed
      pubkey pubkey bytes32 u64 transfer_kind resolve_outcome bool bytes32 u64 bytes32 i64
  | SettlementProcessed
      pubkey pubkey bytes32 u64 u8 u128 u64 u128 bool bool bytes32 u64 bytes32 i64
  | TransportSettlementPublished
      pubkey pubkey bytes32 u32 u64 bytes32 bytes32 bytes32 bytes32 u16 bytes i64
  | AllocationAttributed
      pubkey pubkey bytes32 u64 u64 u64 u64 i64
  | AllocationCompleted
      pubkey pubkey bytes32 u64 u64 i64
  | AssetsDeployed
      pubkey pubkey u64 u64 u64 i64
  | RecallAccepted
      pubkey pubkey bytes32 bytes32 u64 u64 u64 bytes32 i64
  | RecallCustodyReserved
      pubkey pubkey bytes32 u64 u64 i64
  | StrategyWithdrawalCompleted
      pubkey pubkey bytes32 u64 u64 u64 u64 i64
  | RecallAssetsSent
      pubkey pubkey bytes32 u64 u64 pubkey i64
  | RecallCompleted
      pubkey pubkey bytes32 u64 u64 u64 i64
  | OutboundStateInitialized
      pubkey pubkey u32 u64 i64
  | RemoteReportPublished
      pubkey pubkey u32 u64 bytes32 bytes32 bytes32 bytes32 u16 bytes i64
  | RecallSentPublished
      pubkey pubkey bytes32 u32 u64 bytes32 bytes32 bytes32 bytes32 u16 bytes i64
  | ConsumedMessageClosed
      pubkey pubkey message_class u32 u64 bytes32 pubkey i64
  | DeployAuthorizationAdopted
      pubkey pubkey pubkey bytes32 i64

section \<open>Conversions\<close>

lemma u64_of_i64_Some [amount_simps]: "u64_of_i64 x = Some y \<longleftrightarrow> y = x \<and> 0 \<le> sint x"
  by (auto simp: u64_of_i64_def)

lemma unat_u128_of_u64 [simp]: "unat (u128_of_u64 x) = unat x"
  using unat_below [of x]
  by (simp add: u128_of_u64_def unsigned_ucast_eq take_bit_nat_eq_self_iff del: unat_below)

lemma u64_of_u128_Some [amount_simps]: "u64_of_u128 x = Some y \<longleftrightarrow> unat y = unat x"
proof
  assume "u64_of_u128 x = Some y"
  then have x: "x < 2 ^ 64" "y = ucast x" by (auto simp: u64_of_u128_def split: if_splits)
  have "unat x < 2 ^ 64" using x(1) by (simp add: word_less_nat_alt)
  with x(2) show "unat y = unat x" by (simp add: unsigned_ucast_eq take_bit_nat_eq_self_iff)
next
  assume "unat y = unat x"
  moreover have "unat y < 2 ^ 64" using unat_below [of y] by simp
  ultimately have "x < 2 ^ 64" "ucast x = y"
    by (simp_all add: word_less_nat_alt word_eq_unat unsigned_ucast_eq take_bit_nat_eq_self_iff)
  then show "u64_of_u128 x = Some y" by (simp add: u64_of_u128_def)
qed

lemma le_bytes_length [simp]: "length (to_le_bytes x) = length (to_be_bytes x)"
  by (simp add: to_le_bytes_def)

lemma class_tags_distinct: "class_to_u8 a = class_to_u8 b \<longleftrightarrow> a = b"
  by (cases a; cases b) simp_all

end
