(* ===== verification/Leg_State.thy ===== *)
theory Leg_State
  imports Leg_Base
begin

text \<open>
  The accounts of the Solana program and the operations that never leave them
  (\<open>state.rs\<close>, \<open>control.rs\<close>, \<open>strategy.rs\<close>, \<open>custody.rs\<close>, \<open>transport.rs\<close>, \<open>outbound.rs\<close>).
  An account is a record; a method that takes \<open>&mut self\<close> returns the changed record, paired
  with its result where it has one. The lemmas turn each successful operation into equations
  between natural numbers, which is what the invariants of the leg are made of.
\<close>

named_theorems leg_simps \<open>successful leg operations as equations\<close>

section \<open>Seeds and constants\<close>

definition REMOTE_CONFIG_SEED :: bytes where
  "REMOTE_CONFIG_SEED = ascii_bytes ''remote-config''"

definition CUSTODY_AUTHORITY_SEED :: bytes where
  "CUSTODY_AUTHORITY_SEED = ascii_bytes ''custody-authority''"

definition ADAPTER_CALLER_SEED :: bytes where
  "ADAPTER_CALLER_SEED = ascii_bytes ''adapter-caller''"

definition RISK_CONFIG_SEED :: bytes where
  "RISK_CONFIG_SEED = ascii_bytes ''risk-config''"

definition REPLAY_LANE_SEED :: bytes where
  "REPLAY_LANE_SEED = ascii_bytes ''replay-lane''"

definition CONSUMED_MESSAGE_SEED :: bytes where
  "CONSUMED_MESSAGE_SEED = ascii_bytes ''consumed-message''"

definition STRATEGY_CONFIG_SEED :: bytes where
  "STRATEGY_CONFIG_SEED = ascii_bytes ''strategy-config''"

definition REMOTE_POSITION_SEED :: bytes where
  "REMOTE_POSITION_SEED = ascii_bytes ''remote-position''"

definition TRANSFER_RECORD_SEED :: bytes where
  "TRANSFER_RECORD_SEED = ascii_bytes ''transfer-record''"

definition TRANSPORT_LEDGER_SEED :: bytes where
  "TRANSPORT_LEDGER_SEED = ascii_bytes ''transport-ledger''"

definition OUTBOUND_LANE_SEED :: bytes where
  "OUTBOUND_LANE_SEED = ascii_bytes ''outbound-lane''"

definition REPORT_RECORD_SEED :: bytes where
  "REPORT_RECORD_SEED = ascii_bytes ''report-record''"

definition RECALL_SENT_MARKER_SEED :: bytes where
  "RECALL_SENT_MARKER_SEED = ascii_bytes ''recall-sent-marker''"

definition DEPLOY_AUTHORIZATION_SEED :: bytes where
  "DEPLOY_AUTHORIZATION_SEED = ascii_bytes ''deploy-authorization''"

definition STATE_VERSION :: u8 where
  "STATE_VERSION = 1"

definition MIN_CONFIG_VERSION :: u64 where
  "MIN_CONFIG_VERSION = 1"

definition REQUIRED_MINT_DECIMALS :: u8 where
  "REQUIRED_MINT_DECIMALS = 6"

definition REMOTE_CONFIG_RESERVED :: nat where
  "REMOTE_CONFIG_RESERVED = 64"

definition RISK_CONFIG_RESERVED :: nat where
  "RISK_CONFIG_RESERVED = 32"

definition STRATEGY_CONFIG_RESERVED :: nat where
  "STRATEGY_CONFIG_RESERVED = 32"

definition LEG_MAX_BASIS_POINTS :: u16 where
  "LEG_MAX_BASIS_POINTS = 10000"

definition FIRST_SEQUENCE :: u64 where
  "FIRST_SEQUENCE = 1"

definition FIRST_OUTBOUND_SEQUENCE :: u64 where
  "FIRST_OUTBOUND_SEQUENCE = 1"

section \<open>Configuration\<close>

record remote_config =
  cf_state_version :: u8
  cf_bump :: u8
  cf_custody_authority_bump :: u8
  cf_frozen :: bool
  cf_administrator :: pubkey
  cf_emergency_guardian :: pubkey
  cf_transport_verifier :: pubkey
  cf_asset_mint :: pubkey
  cf_token_program :: pubkey
  cf_custody_authority :: pubkey
  cf_custody_token_account :: pubkey
  cf_outbound_escrow :: pubkey
  cf_source_chain_id :: u32
  cf_destination_chain_id :: u32
  cf_source_application_id :: bytes32
  cf_local_application_id :: bytes32
  cf_deployment_id :: bytes32
  cf_vault_id :: bytes32
  cf_control_lane_id :: u32
  cf_report_lane_id :: u32
  cf_config_version :: u64
  cf_initialized_at :: i64
  cf_reserved :: bytes

definition is_emergency_authority :: "remote_config \<Rightarrow> pubkey \<Rightarrow> bool" where
  "is_emergency_authority c signer = (signer = cf_administrator c \<or> signer = cf_emergency_guardian c)"

section \<open>Risk limits and replay lanes\<close>

datatype sequence_rule = StrictNext | StrictlyIncreasing

fun sequence_check :: "sequence_rule \<Rightarrow> u64 \<Rightarrow> u64 \<Rightarrow> leg_error + unit" where
  "sequence_check StrictNext seq highest_consumed_sequence =
     and_then (ok_or (checked_add_word highest_consumed_sequence 1) ArithmeticOverflow) (\<lambda>expected.
     require (seq = expected) InvalidSequence)"
| "sequence_check StrictlyIncreasing seq highest_consumed_sequence =
     require (highest_consumed_sequence < seq) InvalidSequence"

definition SEQUENCE_RULE :: sequence_rule where
  "SEQUENCE_RULE = StrictNext"

record risk_config =
  rk_state_version :: u8
  rk_bump :: u8
  rk_max_remote_allocation_bps :: u16
  rk_max_upward_deviation_bps :: u16
  rk_max_downward_deviation_bps :: u16
  rk_max_report_age :: u64
  rk_config_version :: u64
  rk_config_commitment :: bytes32
  rk_initialized_at :: i64
  rk_last_update_at :: i64
  rk_reserved :: bytes

definition check_parameters :: "u16 \<Rightarrow> u16 \<Rightarrow> u16 \<Rightarrow> u64 \<Rightarrow> bytes32 \<Rightarrow> leg_error + unit" where
  "check_parameters allocation upward downward max_report_age config_commitment =
     and_then (for_each (\<lambda>rate _. require (rate \<le> LEG_MAX_BASIS_POINTS) InvalidBasisPoints)
       [allocation, upward, downward] ()) (\<lambda>_.
     and_then (require (max_report_age \<noteq> 0) InvalidReportAge) (\<lambda>_.
     require (config_commitment \<noteq> 0) InvalidConfigCommitment))"

record replay_lane =
  ln_state_version :: u8
  ln_bump :: u8
  ln_lane_id :: u32
  ln_minimum_acceptable_sequence :: u64
  ln_highest_consumed_sequence :: u64
  ln_message_commitment :: bytes32
  ln_mandatory_watermark_lag :: u64
  ln_last_accepted_at :: i64

record consumed_message =
  cm_state_version :: u8
  cm_bump :: u8
  cm_message_class :: message_class
  cm_lane_id :: u32
  cm_sequence :: u64
  cm_message_id :: bytes32

section \<open>Position\<close>

record strategy_config =
  st_state_version :: u8
  st_bump :: u8
  st_adapter_program :: pubkey
  st_adapter_state :: pubkey
  st_adapter_authority :: pubkey
  st_adapter_token_vault :: pubkey
  st_max_remote_principal :: u64
  st_initialized_at :: i64
  st_reserved :: bytes

record remote_position =
  ps_state_version :: u8
  ps_bump :: u8
  ps_attributed_principal :: u64
  ps_deployed_principal :: u64
  ps_recalled_custody :: u64
  ps_unattributed_custody :: u64
  ps_cumulative_realized_loss :: u64
  ps_active_transfer_id :: bytes32
  ps_active_transfer_kind :: transfer_kind
  ps_active_transfer_sequence :: u64
  ps_active_transfer_status :: transfer_status
  ps_latest_completed_transfer_id :: bytes32
  ps_latest_completion_at :: i64
  ps_initialized_at :: i64

definition has_active_transfer :: "remote_position \<Rightarrow> bool" where
  "has_active_transfer p = (ps_active_transfer_kind p \<noteq> KNone)"

definition check_no_active_transfer :: "remote_position \<Rightarrow> leg_error + unit" where
  "check_no_active_transfer p = require (\<not> has_active_transfer p) UnresolvedCycle"

definition accounted_custody :: "remote_position \<Rightarrow> leg_error + u64" where
  "accounted_custody p =
     ok_or (case checked_add_word (ps_attributed_principal p) (ps_recalled_custody p) of
       None \<Rightarrow> None
     | Some partial \<Rightarrow> checked_add_word partial (ps_unattributed_custody p)) ArithmeticOverflow"

definition accepted_principal :: "remote_position \<Rightarrow> leg_error + u64" where
  "accepted_principal p =
     ok_or (checked_add_word (ps_attributed_principal p) (ps_deployed_principal p)) ArithmeticOverflow"

definition committed_principal :: "remote_position \<Rightarrow> leg_error + u64" where
  "committed_principal p =
     and_then (accepted_principal p) (\<lambda>accepted.
     ok_or (checked_add_word accepted (ps_recalled_custody p)) ArithmeticOverflow)"

definition open_transfer :: "transfer_kind \<Rightarrow> bytes32 \<Rightarrow> u64 \<Rightarrow> remote_position \<Rightarrow> remote_position" where
  "open_transfer kind tid seq p =
     p\<lparr>ps_active_transfer_kind := kind, ps_active_transfer_id := tid,
       ps_active_transfer_sequence := seq, ps_active_transfer_status := SPending\<rparr>"

definition quarantine_transfer :: "transfer_kind \<Rightarrow> bytes32 \<Rightarrow> u64 \<Rightarrow> remote_position \<Rightarrow> remote_position" where
  "quarantine_transfer kind tid seq p =
     (open_transfer kind tid seq p)\<lparr>ps_active_transfer_status := SQuarantined\<rparr>"

definition admit_transfer :: "remote_position \<Rightarrow> remote_position" where
  "admit_transfer p = p\<lparr>ps_active_transfer_status := SPending\<rparr>"

definition holds_quarantined :: "remote_position \<Rightarrow> bytes32 \<Rightarrow> u64 \<Rightarrow> bool" where
  "holds_quarantined p tid seq =
     (has_active_transfer p \<and> ps_active_transfer_status p = SQuarantined \<and>
      ps_active_transfer_id p = tid \<and> ps_active_transfer_sequence p = seq)"

definition close_transfer :: "remote_position \<Rightarrow> remote_position" where
  "close_transfer p =
     p\<lparr>ps_active_transfer_kind := KNone, ps_active_transfer_id := 0,
       ps_active_transfer_sequence := 0, ps_active_transfer_status := SNone\<rparr>"

definition holds_allocation :: "remote_position \<Rightarrow> bytes32 \<Rightarrow> u64 \<Rightarrow> bool" where
  "holds_allocation p tid seq =
     (ps_active_transfer_kind p = KAllocate \<and> ps_active_transfer_id p = tid \<and>
      ps_active_transfer_sequence p = seq)"

definition complete_transfer :: "bytes32 \<Rightarrow> i64 \<Rightarrow> remote_position \<Rightarrow> remote_position" where
  "complete_transfer tid completed_at p =
     p\<lparr>ps_active_transfer_kind := KNone, ps_active_transfer_id := 0,
       ps_active_transfer_sequence := 0, ps_active_transfer_status := SNone,
       ps_latest_completed_transfer_id := tid, ps_latest_completion_at := completed_at\<rparr>"

section \<open>Transfer records\<close>

record transfer_record =
  tr_state_version :: u8
  tr_bump :: u8
  tr_transfer_kind :: transfer_kind
  tr_message_class :: message_class
  tr_status :: transfer_status
  tr_transfer_id :: bytes32
  tr_message_sequence :: u64
  tr_authorized_amount :: u64
  tr_attributed_amount :: u64
  tr_requested_recall_amount :: u64
  tr_minimum_amount :: u64
  tr_custody_principal_reserved :: u64
  tr_strategy_principal_resolved :: u64
  tr_assets_withdrawn :: u64
  tr_assets_sent :: u64
  tr_realized_loss :: u64
  tr_expected_source_balance :: u128
  tr_created_at :: i64
  tr_completed_at :: i64

definition new_allocation ::
  "u8 \<Rightarrow> bytes32 \<Rightarrow> u64 \<Rightarrow> u64 \<Rightarrow> u64 \<Rightarrow> u128 \<Rightarrow> i64 \<Rightarrow> transfer_record" where
  "new_allocation bump tid message_sequence authorized_amount minimum_amount
     expected_source_balance created_at =
     \<lparr>tr_state_version = STATE_VERSION, tr_bump = bump, tr_transfer_kind = KAllocate,
      tr_message_class = CAllocate, tr_status = SPending, tr_transfer_id = tid,
      tr_message_sequence = message_sequence, tr_authorized_amount = authorized_amount,
      tr_attributed_amount = 0, tr_requested_recall_amount = 0,
      tr_minimum_amount = minimum_amount, tr_custody_principal_reserved = 0,
      tr_strategy_principal_resolved = 0, tr_assets_withdrawn = 0, tr_assets_sent = 0,
      tr_realized_loss = 0, tr_expected_source_balance = expected_source_balance,
      tr_created_at = created_at, tr_completed_at = 0\<rparr>"

definition new_recall ::
  "u8 \<Rightarrow> bytes32 \<Rightarrow> u64 \<Rightarrow> u64 \<Rightarrow> u64 \<Rightarrow> u64 \<Rightarrow> i64 \<Rightarrow> transfer_record" where
  "new_recall bump tid message_sequence requested_recall_amount minimum_amount
     custody_principal_reserved created_at =
     \<lparr>tr_state_version = STATE_VERSION, tr_bump = bump, tr_transfer_kind = KRecall,
      tr_message_class = CRecall, tr_status = SPending, tr_transfer_id = tid,
      tr_message_sequence = message_sequence, tr_authorized_amount = 0,
      tr_attributed_amount = 0, tr_requested_recall_amount = requested_recall_amount,
      tr_minimum_amount = minimum_amount,
      tr_custody_principal_reserved = custody_principal_reserved,
      tr_strategy_principal_resolved = 0, tr_assets_withdrawn = 0, tr_assets_sent = 0,
      tr_realized_loss = 0, tr_expected_source_balance = 0, tr_created_at = created_at,
      tr_completed_at = 0\<rparr>"

definition new_recovery :: "u8 \<Rightarrow> bytes32 \<Rightarrow> u64 \<Rightarrow> u64 \<Rightarrow> i64 \<Rightarrow> transfer_record" where
  "new_recovery bump tid message_sequence credited_amount created_at =
     \<lparr>tr_state_version = STATE_VERSION, tr_bump = bump, tr_transfer_kind = KRecover,
      tr_message_class = CResolve, tr_status = SComplete, tr_transfer_id = tid,
      tr_message_sequence = message_sequence, tr_authorized_amount = credited_amount,
      tr_attributed_amount = credited_amount, tr_requested_recall_amount = 0,
      tr_minimum_amount = 0, tr_custody_principal_reserved = 0,
      tr_strategy_principal_resolved = 0, tr_assets_withdrawn = 0, tr_assets_sent = 0,
      tr_realized_loss = 0, tr_expected_source_balance = 0, tr_created_at = created_at,
      tr_completed_at = created_at\<rparr>"

definition quarantined :: "transfer_record \<Rightarrow> transfer_record" where
  "quarantined r = r\<lparr>tr_status := SQuarantined\<rparr>"

definition check_quarantined :: "transfer_record \<Rightarrow> remote_position \<Rightarrow> leg_error + unit" where
  "check_quarantined r p =
     and_then (require (tr_state_version r = STATE_VERSION) InvalidStateVersion) (\<lambda>_.
     and_then (require (tr_status r = SQuarantined) InvalidTransferStatus) (\<lambda>_.
     and_then (require (tr_transfer_kind r = ps_active_transfer_kind p) InvalidTransferKind) (\<lambda>_.
     require (tr_transfer_id r = ps_active_transfer_id p \<and>
       tr_message_sequence r = ps_active_transfer_sequence p) InvalidTransferRecord)))"

definition check_active :: "transfer_record \<Rightarrow> transfer_kind \<Rightarrow> remote_position \<Rightarrow> leg_error + unit" where
  "check_active r kind p =
     and_then (require (tr_state_version r = STATE_VERSION) InvalidStateVersion) (\<lambda>_.
     and_then (require (tr_transfer_kind r = kind) InvalidTransferKind) (\<lambda>_.
     and_then (require (tr_status r = SPending) InvalidTransferStatus) (\<lambda>_.
     and_then (require (ps_active_transfer_kind p = kind) NoActiveTransfer) (\<lambda>_.
     require (ps_active_transfer_id p = tr_transfer_id r) InvalidTransferRecord))))"

definition check_allocation_shape :: "transfer_record \<Rightarrow> leg_error + unit" where
  "check_allocation_shape r =
     (let unused = [tr_requested_recall_amount r, tr_custody_principal_reserved r,
        tr_strategy_principal_resolved r, tr_assets_withdrawn r, tr_assets_sent r,
        tr_realized_loss r] in
      require (list_all (\<lambda>value. value = 0) unused) InvalidTransferRecord)"

definition check_recall_shape :: "transfer_record \<Rightarrow> leg_error + unit" where
  "check_recall_shape r =
     require (tr_authorized_amount r = 0 \<and> tr_attributed_amount r = 0 \<and>
       tr_expected_source_balance r = 0) InvalidTransferRecord"

definition outstanding_allocation :: "transfer_record \<Rightarrow> leg_error + u64" where
  "outstanding_allocation r =
     ok_or (checked_sub_word (tr_authorized_amount r) (tr_attributed_amount r))
       AttributionExceedsAuthorization"

definition unresolved_recall_principal :: "transfer_record \<Rightarrow> leg_error + u64" where
  "unresolved_recall_principal r =
     and_then (ok_or (checked_add_word (tr_custody_principal_reserved r)
       (tr_strategy_principal_resolved r)) ArithmeticOverflow) (\<lambda>resolved.
     ok_or (checked_sub_word (tr_requested_recall_amount r) resolved) InvalidRecallAmount)"

definition reserve_recall_custody ::
  "transfer_record \<Rightarrow> remote_position \<Rightarrow> leg_error + (u64 \<times> transfer_record \<times> remote_position)" where
  "reserve_recall_custody r p =
     (let reserved = min (tr_requested_recall_amount r) (ps_attributed_principal p) in
      and_then (ok_or (checked_sub_word (ps_attributed_principal p) reserved)
        InsufficientAttributedCustody) (\<lambda>attributed.
      and_then (ok_or (checked_add_word (ps_recalled_custody p) reserved) ArithmeticOverflow) (\<lambda>recalled.
      Inr (reserved, r\<lparr>tr_custody_principal_reserved := reserved\<rparr>,
        p\<lparr>ps_attributed_principal := attributed, ps_recalled_custody := recalled\<rparr>))))"

definition settle_recall ::
  "transfer_record \<Rightarrow> remote_position \<Rightarrow> i64 \<Rightarrow> leg_error + (bool \<times> transfer_record \<times> remote_position)" where
  "settle_recall r p now =
     and_then (ok_or (checked_add_word (tr_assets_sent r) (tr_realized_loss r)) ArithmeticOverflow) (\<lambda>settled.
     and_then (require (settled \<le> tr_requested_recall_amount r) InvalidRecallAmount) (\<lambda>_.
     if settled \<noteq> tr_requested_recall_amount r then Inr (False, r, p)
     else Inr (True, r\<lparr>tr_status := SComplete, tr_completed_at := now\<rparr>,
       complete_transfer (tr_transfer_id r) now p)))"

section \<open>Custody\<close>

text \<open>A token account as the program reads it; \<open>ta_program\<close> is the program that owns the account.\<close>

record token_account =
  ta_program :: pubkey
  ta_mint :: pubkey
  ta_owner :: pubkey
  ta_amount :: u64
  ta_delegate :: "pubkey option"
  ta_close_authority :: "pubkey option"

definition reconcile :: "remote_position \<Rightarrow> u64 \<Rightarrow> leg_error + (u64 \<times> remote_position)" where
  "reconcile p custody_amount =
     and_then (accounted_custody p) (\<lambda>accounted.
     and_then (require (accounted \<le> custody_amount) AccountingDeficit) (\<lambda>_.
     and_then (ok_or (checked_sub_word custody_amount accounted) AccountingDeficit) (\<lambda>surplus.
     if 0 < surplus
     then and_then (ok_or (checked_add_word (ps_unattributed_custody p) surplus) ArithmeticOverflow) (\<lambda>u.
       Inr (surplus, p\<lparr>ps_unattributed_custody := u\<rparr>))
     else Inr (surplus, p))))"

definition check_identity :: "remote_position \<Rightarrow> u64 \<Rightarrow> leg_error + unit" where
  "check_identity p custody_amount =
     and_then (accounted_custody p) (\<lambda>accounted. require (custody_amount = accounted) AccountingDeficit)"

definition check_deployed :: "remote_position \<Rightarrow> u64 \<Rightarrow> leg_error + unit" where
  "check_deployed p adapter_principal =
     require (adapter_principal = ps_deployed_principal p) InvalidPrincipalDelta"

definition check_control :: "token_account \<Rightarrow> pubkey \<Rightarrow> leg_error + unit" where
  "check_control custody custody_authority =
     and_then (require (ta_owner custody = custody_authority) CustodyControlChanged) (\<lambda>_.
     require (ta_delegate custody = None \<and> ta_close_authority custody = None) CustodyControlChanged)"

definition narrow_amount :: "u128 \<Rightarrow> leg_error + u64" where
  "narrow_amount amount = ok_or (u64_of_u128 amount) AmountTooLarge"

section \<open>Transport ledger\<close>

record transport_ledger =
  tl_state_version :: u8
  tl_bump :: u8
  tl_impaired_outstanding :: u128
  tl_cumulative_closed_claim :: u128
  tl_cumulative_closed_credit :: u128
  tl_cumulative_recovered :: u128
  tl_last_impaired_sequence :: u64
  tl_total_closed :: u64
  tl_total_recoveries :: u64
  tl_initialized_at :: i64

definition ledger_empty :: "u8 \<Rightarrow> i64 \<Rightarrow> transport_ledger" where
  "ledger_empty bump initialized_at =
     \<lparr>tl_state_version = STATE_VERSION, tl_bump = bump, tl_impaired_outstanding = 0,
      tl_cumulative_closed_claim = 0, tl_cumulative_closed_credit = 0,
      tl_cumulative_recovered = 0, tl_last_impaired_sequence = 0, tl_total_closed = 0,
      tl_total_recoveries = 0, tl_initialized_at = initialized_at\<rparr>"

definition ledger_add :: "u128 \<Rightarrow> u64 \<Rightarrow> leg_error + u128" where
  "ledger_add running amount = ok_or (checked_add_word running (u128_of_u64 amount)) ArithmeticOverflow"

definition check_balanced :: "transport_ledger \<Rightarrow> leg_error + unit" where
  "check_balanced l =
     and_then (ok_or (case checked_add_word (tl_cumulative_closed_credit l) (tl_impaired_outstanding l) of
         None \<Rightarrow> None
       | Some partial \<Rightarrow> checked_add_word partial (tl_cumulative_recovered l)) ArithmeticOverflow) (\<lambda>explained.
     require (explained = tl_cumulative_closed_claim l) TransportLedgerImbalance)"

definition record_close ::
  "transport_ledger \<Rightarrow> u64 \<Rightarrow> u64 \<Rightarrow> u64 \<Rightarrow> leg_error + (u64 \<times> transport_ledger)" where
  "record_close l claim credited seq =
     and_then (ok_or (checked_sub_word claim credited) AttributionExceedsAuthorization) (\<lambda>missing.
     and_then (ledger_add (tl_cumulative_closed_claim l) claim) (\<lambda>closed_claim.
     and_then (ledger_add (tl_cumulative_closed_credit l) credited) (\<lambda>closed_credit.
     and_then (ledger_add (tl_impaired_outstanding l) missing) (\<lambda>impaired.
     and_then (ok_or (checked_add_word (tl_total_closed l) 1) ArithmeticOverflow) (\<lambda>total_closed.
     let l = l\<lparr>tl_cumulative_closed_claim := closed_claim,
       tl_cumulative_closed_credit := closed_credit, tl_impaired_outstanding := impaired,
       tl_last_impaired_sequence := (if 0 < missing then seq else tl_last_impaired_sequence l),
       tl_total_closed := total_closed\<rparr> in
     and_then (check_balanced l) (\<lambda>_. Inr (missing, l)))))))"

definition record_recovery :: "transport_ledger \<Rightarrow> u64 \<Rightarrow> leg_error + transport_ledger" where
  "record_recovery l credited =
     and_then (ok_or (checked_sub_word (tl_impaired_outstanding l) (u128_of_u64 credited))
       RecoveryStateMismatch) (\<lambda>impaired.
     and_then (ledger_add (tl_cumulative_recovered l) credited) (\<lambda>recovered.
     and_then (ok_or (checked_add_word (tl_total_recoveries l) 1) ArithmeticOverflow) (\<lambda>total_recoveries.
     let l = l\<lparr>tl_impaired_outstanding := impaired, tl_cumulative_recovered := recovered,
       tl_total_recoveries := total_recoveries\<rparr> in
     and_then (check_balanced l) (\<lambda>_. Inr l))))"

section \<open>Outbound lane\<close>

record outbound_lane =
  ob_state_version :: u8
  ob_bump :: u8
  ob_lane_id :: u32
  ob_next_sequence :: u64
  ob_current_commitment :: bytes32
  ob_last_publication_at :: i64
  ob_total_reports :: u64
  ob_total_recall_notifications :: u64
  ob_initialized_at :: i64

definition lane_advance ::
  "outbound_lane \<Rightarrow> report_type \<Rightarrow> bytes32 \<Rightarrow> i64 \<Rightarrow> leg_error + outbound_lane" where
  "lane_advance l kind next published_at =
     and_then (ok_or (checked_add_word (ob_next_sequence l) 1) ArithmeticOverflow) (\<lambda>next_sequence.
     let l = l\<lparr>ob_next_sequence := next_sequence, ob_current_commitment := next,
       ob_last_publication_at := published_at\<rparr> in
     case kind of
       PRemoteReport \<Rightarrow>
         and_then (ok_or (checked_add_word (ob_total_reports l) 1) ArithmeticOverflow) (\<lambda>count.
         Inr (l\<lparr>ob_total_reports := count\<rparr>))
     | PRecallSent \<Rightarrow>
         and_then (ok_or (checked_add_word (ob_total_recall_notifications l) 1) ArithmeticOverflow) (\<lambda>count.
         Inr (l\<lparr>ob_total_recall_notifications := count\<rparr>))
     | PTransportSettlement \<Rightarrow> Inr l)"

record report_record =
  rp_state_version :: u8
  rp_bump :: u8
  rp_report_type :: report_type
  rp_lane_id :: u32
  rp_sequence :: u64
  rp_message_id :: bytes32
  rp_body_hash :: bytes32
  rp_previous_commitment :: bytes32
  rp_next_commitment :: bytes32
  rp_encoded_len :: u16
  rp_published_at :: i64
  rp_related_transfer_id :: bytes32
  rp_epoch_id :: u64

record recall_sent_marker =
  mk_state_version :: u8
  mk_bump :: u8
  mk_transfer_id :: bytes32
  mk_report_sequence :: u64
  mk_message_id :: bytes32
  mk_published_at :: i64

section \<open>Successful operations as equations\<close>

lemma le_unat: "a \<le> b \<longleftrightarrow> unat a \<le> unat b" "a < b \<longleftrightarrow> unat a < unat b" for a b :: "'a::len word"
  by (simp_all add: word_le_nat_alt word_less_nat_alt)

lemma checked_sum_Some [amount_simps]:
  "(case checked_add_word a b of None \<Rightarrow> None | Some partial \<Rightarrow> checked_add_word partial c) = Some d \<longleftrightarrow>
     unat d = unat a + unat b + unat c" for a b c d :: "'a::len word"
proof (cases "checked_add_word a b")
  case None
  then have "2 ^ LENGTH('a) \<le> unat a + unat b" by (simp add: checked_add_word_None)
  moreover have "unat d < 2 ^ LENGTH('a)" by simp
  ultimately have "unat d \<noteq> unat a + unat b + unat c" by linarith
  with None show ?thesis by simp
next
  case (Some s)
  then have "unat s = unat a + unat b" by (simp add: checked_add_word_Some)
  then show ?thesis unfolding Some by (simp add: checked_add_word_Some)
qed

lemma word_exists: "n \<le> unat c \<Longrightarrow> \<exists>b :: 'a word. unat b = n" for c :: "'a::len word"
  by (rule exI [of _ "of_nat n"], rule unat_of_nat_below) (rule le_less_trans [OF _ unat_below])

lemma unat_min: "unat (min a b) = min (unat a) (unat b)" for a b :: "'a::len word"
  by (simp add: min_def le_unat)

lemma sequence_check_StrictNext [leg_simps]:
  "sequence_check StrictNext s h = Inr u \<longleftrightarrow> unat s = unat h + 1"
  by (auto simp: result_simps amount_simps word_eq_unat)

lemma check_parameters_Inr [leg_simps]:
  "check_parameters a u d age c = Inr x \<longleftrightarrow> a \<le> 10000 \<and> u \<le> 10000 \<and> d \<le> 10000 \<and> age \<noteq> 0 \<and> c \<noteq> 0"
  by (auto simp: check_parameters_def result_simps LEG_MAX_BASIS_POINTS_def)

lemma check_no_active_Inr [leg_simps]:
  "check_no_active_transfer p = Inr u \<longleftrightarrow> ps_active_transfer_kind p = KNone"
  by (simp add: check_no_active_transfer_def has_active_transfer_def result_simps)

lemma accounted_custody_Inr [leg_simps]:
  "accounted_custody p = Inr a \<longleftrightarrow>
     unat a = unat (ps_attributed_principal p) + unat (ps_recalled_custody p) + unat (ps_unattributed_custody p)"
  by (simp add: accounted_custody_def ok_or_Inr checked_sum_Some)

lemma accepted_principal_Inr [leg_simps]:
  "accepted_principal p = Inr a \<longleftrightarrow> unat a = unat (ps_attributed_principal p) + unat (ps_deployed_principal p)"
  by (simp add: accepted_principal_def result_simps amount_simps)

lemma committed_principal_Inr [leg_simps]:
  "committed_principal p = Inr a \<Longrightarrow>
     unat a = unat (ps_attributed_principal p) + unat (ps_deployed_principal p) + unat (ps_recalled_custody p)"
  by (auto simp: committed_principal_def leg_simps result_simps amount_simps)

lemma check_quarantined_Inr [leg_simps]:
  "check_quarantined r p = Inr u \<longleftrightarrow>
     tr_state_version r = 1 \<and> tr_status r = SQuarantined \<and> tr_transfer_kind r = ps_active_transfer_kind p \<and>
     tr_transfer_id r = ps_active_transfer_id p \<and> tr_message_sequence r = ps_active_transfer_sequence p"
  by (auto simp: check_quarantined_def result_simps STATE_VERSION_def)

lemma check_active_Inr [leg_simps]:
  "check_active r kind p = Inr u \<longleftrightarrow>
     tr_state_version r = 1 \<and> tr_transfer_kind r = kind \<and> tr_status r = SPending \<and>
     ps_active_transfer_kind p = kind \<and> ps_active_transfer_id p = tr_transfer_id r"
  by (auto simp: check_active_def result_simps STATE_VERSION_def)

lemma check_allocation_shape_Inr [leg_simps]:
  "check_allocation_shape r = Inr u \<longleftrightarrow>
     tr_requested_recall_amount r = 0 \<and> tr_custody_principal_reserved r = 0 \<and>
     tr_strategy_principal_resolved r = 0 \<and> tr_assets_withdrawn r = 0 \<and> tr_assets_sent r = 0 \<and>
     tr_realized_loss r = 0"
  by (simp add: check_allocation_shape_def result_simps)

lemma check_recall_shape_Inr [leg_simps]:
  "check_recall_shape r = Inr u \<longleftrightarrow>
     tr_authorized_amount r = 0 \<and> tr_attributed_amount r = 0 \<and> tr_expected_source_balance r = 0"
  by (simp add: check_recall_shape_def result_simps)

lemma outstanding_allocation_Inr [leg_simps]:
  "outstanding_allocation r = Inr a \<longleftrightarrow>
     unat (tr_authorized_amount r) = unat (tr_attributed_amount r) + unat a"
  by (simp add: outstanding_allocation_def result_simps amount_simps)

lemma unresolved_recall_principal_Inr [leg_simps]:
  "unresolved_recall_principal r = Inr a \<Longrightarrow>
     unat (tr_requested_recall_amount r) =
       unat (tr_custody_principal_reserved r) + unat (tr_strategy_principal_resolved r) + unat a"
  by (auto simp: unresolved_recall_principal_def result_simps amount_simps)

lemma reserve_recall_custody_Inr [leg_simps]:
  "reserve_recall_custody r p = Inr (n, r', p') \<longleftrightarrow>
     n = min (tr_requested_recall_amount r) (ps_attributed_principal p) \<and>
     r' = r\<lparr>tr_custody_principal_reserved := n\<rparr> \<and>
     (\<exists>a c. p' = p\<lparr>ps_attributed_principal := a, ps_recalled_custody := c\<rparr> \<and>
        unat (ps_attributed_principal p) = unat n + unat a \<and> unat c = unat (ps_recalled_custody p) + unat n)"
  by (auto simp: reserve_recall_custody_def Let_def result_simps amount_simps)

lemma settle_recall_Inr [leg_simps]:
  "settle_recall r p now = Inr (b, r', p') \<longleftrightarrow>
     unat (tr_assets_sent r) + unat (tr_realized_loss r) \<le> unat (tr_requested_recall_amount r) \<and>
     (if unat (tr_assets_sent r) + unat (tr_realized_loss r) = unat (tr_requested_recall_amount r)
      then b \<and> r' = r\<lparr>tr_status := SComplete, tr_completed_at := now\<rparr> \<and>
        p' = complete_transfer (tr_transfer_id r) now p
      else \<not> b \<and> r' = r \<and> p' = p)"
proof (cases "checked_add_word (tr_assets_sent r) (tr_realized_loss r)")
  case None
  then have "\<not> unat (tr_assets_sent r) + unat (tr_realized_loss r) \<le> unat (tr_requested_recall_amount r)"
    using unat_below [of "tr_requested_recall_amount r"] by (simp add: checked_add_word_None)
  with None show ?thesis by (simp add: settle_recall_def)
next
  case (Some s)
  then have "unat s = unat (tr_assets_sent r) + unat (tr_realized_loss r)"
    by (simp add: checked_add_word_Some)
  with Some show ?thesis
    by (auto simp: settle_recall_def and_then_Inr require_Inr le_unat word_eq_unat)
qed

lemma reconcile_Inr [leg_simps]:
  "reconcile p c = Inr (s, p') \<longleftrightarrow>
     (\<exists>u. p' = p\<lparr>ps_unattributed_custody := u\<rparr> \<and> unat u = unat (ps_unattributed_custody p) + unat s \<and>
        unat c = unat (ps_attributed_principal p) + unat (ps_recalled_custody p) + unat u)"
    (is "?l \<longleftrightarrow> ?r")
proof
  assume l: ?l
  then obtain a where a: "accounted_custody p = Inr a" "unat c = unat a + unat s"
    by (auto simp: reconcile_def result_simps amount_simps split: if_splits)
  show ?r
  proof (cases "0 < s")
    case True
    with l obtain u where "checked_add_word (ps_unattributed_custody p) s = Some u"
      "p' = p\<lparr>ps_unattributed_custody := u\<rparr>"
      by (auto simp: reconcile_def and_then_Inr ok_or_Inr split: if_splits)
    with a show ?thesis by (auto simp: accounted_custody_Inr checked_add_word_Some)
  next
    case False
    then have "s = 0" by (simp add: word_gt_0)
    moreover have "p' = p" using l \<open>s = 0\<close> by (auto simp: reconcile_def and_then_Inr ok_or_Inr split: if_splits)
    ultimately show ?thesis
      using a by (intro exI [of _ "ps_unattributed_custody p"]) (simp add: accounted_custody_Inr)
  qed
next
  assume ?r
  then obtain u where u: "p' = p\<lparr>ps_unattributed_custody := u\<rparr>"
    "unat u = unat (ps_unattributed_custody p) + unat s"
    "unat c = unat (ps_attributed_principal p) + unat (ps_recalled_custody p) + unat u" by blast
  obtain a :: u64 where "unat a = unat c - unat s" using word_exists [of "unat c - unat s" c] by auto
  then have a: "unat a = unat (ps_attributed_principal p) + unat (ps_recalled_custody p) + unat (ps_unattributed_custody p)"
    using u by simp
  then have 1: "accounted_custody p = Inr a" by (simp add: accounted_custody_Inr)
  have 2: "checked_sub_word c a = Some s" "a \<le> c"
    using a u by (simp_all add: amount_simps le_unat)
  have 3: "checked_add_word (ps_unattributed_custody p) s = Some u"
    using u by (simp add: amount_simps)
  show ?l
  proof (cases "0 < s")
    case False
    then have "s = 0" by (simp add: word_gt_0)
    then have "u = ps_unattributed_custody p" using u by (simp add: word_eq_unat)
    then show ?thesis using 1 2 \<open>s = 0\<close> u(1) by (simp add: reconcile_def)
  qed (use 1 2 3 u(1) in \<open>simp add: reconcile_def\<close>)
qed

lemma check_identity_Inr [leg_simps]:
  "check_identity p c = Inr x \<longleftrightarrow>
     unat c = unat (ps_attributed_principal p) + unat (ps_recalled_custody p) + unat (ps_unattributed_custody p)"
  by (auto simp: check_identity_def result_simps leg_simps word_eq_unat)

lemma check_deployed_Inr [leg_simps]: "check_deployed p a = Inr x \<longleftrightarrow> a = ps_deployed_principal p"
  by (simp add: check_deployed_def result_simps)

lemma check_control_Inr [leg_simps]:
  "check_control t k = Inr x \<longleftrightarrow> ta_owner t = k \<and> ta_delegate t = None \<and> ta_close_authority t = None"
  by (auto simp: check_control_def result_simps)

lemma narrow_amount_Inr [leg_simps]: "narrow_amount a = Inr b \<longleftrightarrow> unat b = unat a"
  by (simp add: narrow_amount_def result_simps amount_simps)

lemma ledger_add_Inr [leg_simps]: "ledger_add t a = Inr b \<longleftrightarrow> unat b = unat t + unat a"
  by (simp add: ledger_add_def result_simps amount_simps)

definition ledger_balanced :: "transport_ledger \<Rightarrow> bool" where
  "ledger_balanced l \<longleftrightarrow>
     unat (tl_cumulative_closed_claim l) =
       unat (tl_cumulative_closed_credit l) + unat (tl_impaired_outstanding l) + unat (tl_cumulative_recovered l)"

lemma check_balanced_Inr [leg_simps]: "check_balanced l = Inr u \<longleftrightarrow> ledger_balanced l"
  by (auto simp: check_balanced_def result_simps checked_sum_Some ledger_balanced_def)

lemma lane_advance_Inr [leg_simps]:
  "lane_advance l kind next now = Inr l' \<Longrightarrow>
     unat (ob_next_sequence l') = unat (ob_next_sequence l) + 1 \<and> ob_current_commitment l' = next \<and>
     ob_lane_id l' = ob_lane_id l \<and> ob_state_version l' = ob_state_version l"
  by (cases kind) (auto simp: lane_advance_def and_then_Inr ok_or_Inr checked_add_word_Some Let_def)

end
