(* ===== verification/Auth_Errors.thy ===== *)
theory Auth_Errors
  imports Leg_Base
begin

text \<open>
  The error codes of the authorization verifier (\<open>programs/authorization-verifier/src/errors.rs\<close>) in the
  order of the source. Anchor numbers them from 6000, as it does those of the remote leg, which is
  another program; \<open>VFramework\<close> stands for a rejection by Anchor or by the runtime.
\<close>

datatype verifier_error = VCode nat | VFramework

abbreviation VUnauthorized :: verifier_error where "VUnauthorized \<equiv> VCode 6000"
abbreviation InvalidRoles :: verifier_error where "InvalidRoles \<equiv> VCode 6001"
abbreviation InvalidKeyId :: verifier_error where "InvalidKeyId \<equiv> VCode 6002"
abbreviation InvalidPublicKey :: verifier_error where "InvalidPublicKey \<equiv> VCode 6003"
abbreviation InvalidKeyWindow :: verifier_error where "InvalidKeyWindow \<equiv> VCode 6004"
abbreviation InvalidMandate :: verifier_error where "InvalidMandate \<equiv> VCode 6005"
abbreviation MandateHashMismatch :: verifier_error where "MandateHashMismatch \<equiv> VCode 6006"
abbreviation AlreadyRevoked :: verifier_error where "AlreadyRevoked \<equiv> VCode 6007"
abbreviation NotTopLevel :: verifier_error where "NotTopLevel \<equiv> VCode 6008"
abbreviation InvalidInstructionOrder :: verifier_error where "InvalidInstructionOrder \<equiv> VCode 6009"
abbreviation MissingPrecompile :: verifier_error where "MissingPrecompile \<equiv> VCode 6010"
abbreviation InvalidPrecompileInstruction :: verifier_error where "InvalidPrecompileInstruction \<equiv> VCode 6011"
abbreviation InvalidSigningInputLength :: verifier_error where "InvalidSigningInputLength \<equiv> VCode 6012"
abbreviation MalformedSigningInput :: verifier_error where "MalformedSigningInput \<equiv> VCode 6013"
abbreviation InvalidBase64Url :: verifier_error where "InvalidBase64Url \<equiv> VCode 6014"
abbreviation MalformedJson :: verifier_error where "MalformedJson \<equiv> VCode 6015"
abbreviation UnsupportedJsonValue :: verifier_error where "UnsupportedJsonValue \<equiv> VCode 6016"
abbreviation DuplicateField :: verifier_error where "DuplicateField \<equiv> VCode 6017"
abbreviation UnknownField :: verifier_error where "UnknownField \<equiv> VCode 6018"
abbreviation UnsupportedClaim :: verifier_error where "UnsupportedClaim \<equiv> VCode 6019"
abbreviation MissingField :: verifier_error where "MissingField \<equiv> VCode 6020"
abbreviation InvalidFieldLength :: verifier_error where "InvalidFieldLength \<equiv> VCode 6021"
abbreviation InvalidNumber :: verifier_error where "InvalidNumber \<equiv> VCode 6022"
abbreviation UnsupportedAlgorithm :: verifier_error where "UnsupportedAlgorithm \<equiv> VCode 6023"
abbreviation UnsupportedType :: verifier_error where "UnsupportedType \<equiv> VCode 6024"
abbreviation KeyIdMismatch :: verifier_error where "KeyIdMismatch \<equiv> VCode 6025"
abbreviation PublicKeyMismatch :: verifier_error where "PublicKeyMismatch \<equiv> VCode 6026"
abbreviation KeyRevoked :: verifier_error where "KeyRevoked \<equiv> VCode 6027"
abbreviation OutsideKeyWindow :: verifier_error where "OutsideKeyWindow \<equiv> VCode 6028"
abbreviation IssuerMismatch :: verifier_error where "IssuerMismatch \<equiv> VCode 6029"
abbreviation VerdictNotAllow :: verifier_error where "VerdictNotAllow \<equiv> VCode 6030"
abbreviation InvalidLifetime :: verifier_error where "InvalidLifetime \<equiv> VCode 6031"
abbreviation IssuedInFuture :: verifier_error where "IssuedInFuture \<equiv> VCode 6032"
abbreviation Expired :: verifier_error where "Expired \<equiv> VCode 6033"
abbreviation MandateRevoked :: verifier_error where "MandateRevoked \<equiv> VCode 6034"
abbreviation MandateMismatch :: verifier_error where "MandateMismatch \<equiv> VCode 6035"
abbreviation AmountMismatch :: verifier_error where "AmountMismatch \<equiv> VCode 6036"
abbreviation CurrencyMismatch :: verifier_error where "CurrencyMismatch \<equiv> VCode 6037"
abbreviation RecipientMismatch :: verifier_error where "RecipientMismatch \<equiv> VCode 6038"
abbreviation PolicyMismatch :: verifier_error where "PolicyMismatch \<equiv> VCode 6039"
abbreviation AgentMismatch :: verifier_error where "AgentMismatch \<equiv> VCode 6040"
abbreviation CategoryMismatch :: verifier_error where "CategoryMismatch \<equiv> VCode 6041"
abbreviation NonceHashMismatch :: verifier_error where "NonceHashMismatch \<equiv> VCode 6042"
abbreviation InvalidDeploymentAuthority :: verifier_error where "InvalidDeploymentAuthority \<equiv> VCode 6043"
abbreviation InvalidAuthorizationMessage :: verifier_error where "InvalidAuthorizationMessage \<equiv> VCode 6044"
abbreviation UnsupportedOperation :: verifier_error where "UnsupportedOperation \<equiv> VCode 6045"
abbreviation AuthorityMismatch :: verifier_error where "AuthorityMismatch \<equiv> VCode 6046"
abbreviation NetworkDomainMismatch :: verifier_error where "NetworkDomainMismatch \<equiv> VCode 6047"
abbreviation PolicyGenerationMismatch :: verifier_error where "PolicyGenerationMismatch \<equiv> VCode 6048"
abbreviation InvalidAuthorizationLifetime :: verifier_error where "InvalidAuthorizationLifetime \<equiv> VCode 6049"
abbreviation InvalidAuthorizationAmount :: verifier_error where "InvalidAuthorizationAmount \<equiv> VCode 6050"
abbreviation NonceMismatch :: verifier_error where "NonceMismatch \<equiv> VCode 6051"
abbreviation MissingDeploymentInstruction :: verifier_error where "MissingDeploymentInstruction \<equiv> VCode 6052"
abbreviation InvalidDeploymentInstruction :: verifier_error where "InvalidDeploymentInstruction \<equiv> VCode 6053"
abbreviation PolicyGenerationExhausted :: verifier_error where "PolicyGenerationExhausted \<equiv> VCode 6054"

end
