(* ===== verification/Auth_Deployment.thy ===== *)
theory Auth_Deployment
  imports Auth_Errors
begin

text \<open>
  The part of the authorization verifier the remote leg reads
  (\<open>programs/authorization-verifier/src/{deployment,state}.rs\<close>): the accounts of the deployment
  profile, the approval message a risk authority signs, and the commitment to the leg state an
  approval is scoped to. SHA-256 is a parameter, a function of the parts it is given.
\<close>

section \<open>Accounts of the deployment profile\<close>

definition DEPLOYMENT_AUTHORITY_SEED :: bytes where
  "DEPLOYMENT_AUTHORITY_SEED = ascii_bytes ''solevm-deploy-authority''"

definition DEPLOYMENT_RECEIPT_SEED :: bytes where
  "DEPLOYMENT_RECEIPT_SEED = ascii_bytes ''solevm-deploy-receipt''"

definition DEPLOYMENT_PROFILE_VERSION :: u8 where
  "DEPLOYMENT_PROFILE_VERSION = 2"

definition DEPLOYMENT_NONCE_LEN :: nat where
  "DEPLOYMENT_NONCE_LEN = 16"

record deployment_authority =
  da_version :: u8
  da_bump :: u8
  da_administrator :: pubkey
  da_remote_leg_program :: pubkey
  da_remote_config :: pubkey
  da_network_domain :: bytes32
  da_policy_generation :: u64

record deployment_receipt =
  dc_version :: u8
  dc_bump :: u8
  dc_config :: pubkey
  dc_remote_config :: pubkey
  dc_risk_key :: pubkey
  dc_nonce :: u128
  dc_deployment_context :: bytes32
  dc_amount :: u64
  dc_policy_generation :: u64
  dc_issued_at :: i64
  dc_expires_at :: i64
  dc_consumed_at :: i64
  dc_message_hash :: bytes32

section \<open>Approvals\<close>

definition AUTHORIZATION_MAGIC :: bytes where
  "AUTHORIZATION_MAGIC = ascii_bytes ''SOLEVMAZ''"

definition OPERATION_DEPLOY_TO_STRATEGY :: u8 where
  "OPERATION_DEPLOY_TO_STRATEGY = 1"

definition MESSAGE_LEN :: nat where
  "MESSAGE_LEN = 154"

text \<open>The nonce is sixteen bytes, held as a 128 bit word.\<close>

record deployment_authorization =
  az_authority :: pubkey
  az_network_domain :: bytes32
  az_policy_generation :: u64
  az_deployment_context :: bytes32
  az_amount :: u64
  az_nonce :: u128
  az_issued_at :: i64
  az_expires_at :: i64

text \<open>A reader is the bytes that are left; \<open>reader_take\<close> splits off the first chunk.\<close>

definition reader_take :: "nat \<Rightarrow> bytes \<Rightarrow> verifier_error + bytes \<times> bytes" where
  "reader_take n bs =
     (if length bs < n then Inl InvalidAuthorizationMessage else Inr (take n bs, drop n bs))"

definition authorization_decode :: "bytes \<Rightarrow> verifier_error + deployment_authorization" where
  "authorization_decode bs =
     (if length bs \<noteq> MESSAGE_LEN then Inl InvalidAuthorizationMessage
      else and_then (reader_take 8 bs) (\<lambda>(magic, bs).
      if magic \<noteq> AUTHORIZATION_MAGIC then Inl InvalidAuthorizationMessage
      else and_then (reader_take 1 bs) (\<lambda>(version, bs).
      if version \<noteq> [DEPLOYMENT_PROFILE_VERSION] then Inl InvalidAuthorizationMessage
      else and_then (reader_take 1 bs) (\<lambda>(operation, bs).
      if operation \<noteq> [OPERATION_DEPLOY_TO_STRATEGY] then Inl UnsupportedOperation
      else and_then (reader_take 32 bs) (\<lambda>(authority, bs).
      and_then (reader_take 32 bs) (\<lambda>(network_domain, bs).
      and_then (reader_take 8 bs) (\<lambda>(policy_generation, bs).
      and_then (reader_take 32 bs) (\<lambda>(deployment_context, bs).
      and_then (reader_take 8 bs) (\<lambda>(amount, bs).
      and_then (reader_take 16 bs) (\<lambda>(nonce, bs).
      and_then (reader_take 8 bs) (\<lambda>(issued_at, bs).
      and_then (reader_take 8 bs) (\<lambda>(expires_at, bs).
      Inr \<lparr>az_authority = from_be_bytes authority, az_network_domain = from_be_bytes network_domain,
        az_policy_generation = from_le_bytes policy_generation,
        az_deployment_context = from_be_bytes deployment_context, az_amount = from_le_bytes amount,
        az_nonce = from_be_bytes nonce, az_issued_at = from_le_bytes issued_at,
        az_expires_at = from_le_bytes expires_at\<rparr>))))))))))))"

definition authorization_encode :: "deployment_authorization \<Rightarrow> bytes" where
  "authorization_encode a =
     AUTHORIZATION_MAGIC @ [DEPLOYMENT_PROFILE_VERSION] @ [OPERATION_DEPLOY_TO_STRATEGY] @
     to_be_bytes (az_authority a) @ to_be_bytes (az_network_domain a) @
     to_le_bytes (az_policy_generation a) @ to_be_bytes (az_deployment_context a) @
     to_le_bytes (az_amount a) @ to_be_bytes (az_nonce a) @ to_le_bytes (az_issued_at a) @
     to_le_bytes (az_expires_at a)"

section \<open>Deployment context\<close>

definition CONTEXT_DOMAIN :: bytes where
  "CONTEXT_DOMAIN = ascii_bytes ''solevm-remote-leg:deploy-context:v2''"

record deployment_context =
  dx_remote_leg_program :: pubkey
  dx_remote_config :: pubkey
  dx_deployment_id :: bytes32
  dx_vault_id :: bytes32
  dx_config_version :: u64
  dx_strategy_config :: pubkey
  dx_adapter_program :: pubkey
  dx_adapter_state :: pubkey
  dx_adapter_authority :: pubkey
  dx_adapter_token_vault :: pubkey
  dx_max_remote_principal :: u64
  dx_asset_mint :: pubkey
  dx_token_program :: pubkey
  dx_custody_authority :: pubkey
  dx_custody_token_account :: pubkey
  dx_deployed_principal :: u64

definition context_parts :: "pubkey \<Rightarrow> deployment_context \<Rightarrow> bytes list" where
  "context_parts verifier_id c =
     [CONTEXT_DOMAIN, to_be_bytes verifier_id, to_be_bytes (dx_remote_leg_program c),
      to_be_bytes (dx_remote_config c), to_be_bytes (dx_deployment_id c),
      to_be_bytes (dx_vault_id c), to_le_bytes (dx_config_version c),
      to_be_bytes (dx_strategy_config c), to_be_bytes (dx_adapter_program c),
      to_be_bytes (dx_adapter_state c), to_be_bytes (dx_adapter_authority c),
      to_be_bytes (dx_adapter_token_vault c), to_le_bytes (dx_max_remote_principal c),
      to_be_bytes (dx_asset_mint c), to_be_bytes (dx_token_program c),
      to_be_bytes (dx_custody_authority c), to_be_bytes (dx_custody_token_account c),
      to_le_bytes (dx_deployed_principal c)]"

definition context_commitment :: "(bytes list \<Rightarrow> bytes32) \<Rightarrow> pubkey \<Rightarrow> deployment_context \<Rightarrow> bytes32" where
  "context_commitment sha256 verifier_id c = sha256 (context_parts verifier_id c)"

section \<open>Round trip and injectivity\<close>

lemma le_bytes_inverse [codec_simps]:
  "from_le_bytes (to_le_bytes (d :: u64)) = d"
  by (simp add: from_le_bytes_def to_le_bytes_def be_bytes_inverse)

lemma reader_take_append [codec_simps]: "length a = n \<Longrightarrow> reader_take n (a @ r) = Inr (a, r)"
  by (simp add: reader_take_def)

lemma reader_take_exact [codec_simps]: "length a = n \<Longrightarrow> reader_take n a = Inr (a, [])"
  by (simp add: reader_take_def)

lemma reader_take_Cons: "reader_take 1 (x # r) = Inr ([x], r)"
  by (simp add: reader_take_def)

lemma authorization_magic_length [simp]: "length AUTHORIZATION_MAGIC = 8"
  by (simp add: AUTHORIZATION_MAGIC_def ascii_bytes_def)

lemma authorization_decode_encode: "authorization_decode (authorization_encode a) = Inr a"
  by (simp add: authorization_decode_def authorization_encode_def MESSAGE_LEN_def codec_simps
      reader_take_Cons del: One_nat_def)

end
