(* ===== verification/Leg_World.thy ===== *)
theory Leg_World
  imports Leg_State Auth_Deployment
begin

text \<open>
  Everything a handler of the remote leg can touch: the accounts the program owns, the accounts
  of other programs it reads, and the runtime it calls
  (\<open>records.rs\<close>, \<open>adapter.rs\<close>, \<open>authorization.rs\<close>, \<open>hashing.rs\<close> and the addresses of every account).

  The runtime is a parameter: address derivation, the two hashes, the SPL token transfer and the
  cross program call into the adapter are code outside the repository. None of the invariants
  needs a law about the adapter or the token program, because the leg checks what they did.
\<close>

section \<open>Accounts\<close>

text \<open>
  What an address the program may create records at holds. An address without an entry is an
  empty account of the system program; \<open>ForeignSlot\<close> is any other account the program does not own.
  Lamports and rent are not modelled: \<open>check_available\<close> allows any lamports.
\<close>

datatype slot =
    ForeignSlot
  | TransferSlot transfer_record
  | ConsumedSlot consumed_message
  | ReportSlot report_record
  | MarkerSlot recall_sent_marker
  | LedgerSlot transport_ledger

type_synonym slots = "pubkey \<rightharpoonup> slot"

record policy =
  po_state_version :: u8
  po_bump :: u8
  po_authorization_config :: pubkey
  po_adopted_at :: i64
  po_reserved :: bytes

definition DEPLOY_AUTHORIZATION_RESERVED :: nat where
  "DEPLOY_AUTHORIZATION_RESERVED = 32"

text \<open>Accounts of other programs: token accounts, raw accounts with their owner, and the accounts
  of the authorization verifier.\<close>

record world =
  w_tokens :: "pubkey \<rightharpoonup> token_account"
  w_data :: "pubkey \<rightharpoonup> pubkey \<times> bytes"
  w_receipts :: "pubkey \<rightharpoonup> deployment_receipt"
  w_authorities :: "pubkey \<rightharpoonup> deployment_authority"

record account_meta =
  am_pubkey :: pubkey
  am_is_signer :: bool
  am_is_writable :: bool

record instruction =
  in_program_id :: pubkey
  in_accounts :: "account_meta list"
  in_data :: bytes

text \<open>The transaction an instruction runs in, as the instructions sysvar shows it.\<close>

record transaction =
  tx_stack_height :: nat
  tx_current_index :: nat
  tx_instructions :: "instruction list"

record 'h runtime =
  rt_program_id :: pubkey
  rt_verifier_id :: pubkey
  rt_consume_discriminator :: bytes
  rt_digest :: "'h digest"
  rt_keccak :: "bytes list \<Rightarrow> bytes32"
  rt_sha256 :: "bytes list \<Rightarrow> bytes32"
  rt_find_program_address :: "bytes list \<Rightarrow> pubkey \<Rightarrow> pubkey \<times> u8"
  rt_create_program_address :: "bytes list \<Rightarrow> pubkey \<Rightarrow> pubkey option"
  rt_token_transfer :: "pubkey \<Rightarrow> pubkey \<Rightarrow> pubkey \<Rightarrow> u64 \<Rightarrow> world \<Rightarrow> world option"
  rt_invoke :: "instruction \<Rightarrow> world \<Rightarrow> world option"

text \<open>One deployed leg: its configuration key, its singleton accounts, the records it created, the
  accounts around it and the events it emitted, oldest first.\<close>

record leg =
  lg_key :: pubkey
  lg_config :: remote_config
  lg_risk :: risk_config
  lg_lane :: replay_lane
  lg_strategy_key :: pubkey
  lg_strategy :: strategy_config
  lg_position :: remote_position
  lg_outbound :: outbound_lane
  lg_policy :: "policy option"
  lg_slots :: slots
  lg_world :: world
  lg_events :: "event list"

definition emit :: "event \<Rightarrow> leg \<Rightarrow> leg" where
  "emit e lg = lg\<lparr>lg_events := lg_events lg @ [e]\<rparr>"

section \<open>Addresses\<close>

definition pda :: "'h runtime \<Rightarrow> bytes list \<Rightarrow> pubkey \<times> u8" where
  "pda rt seeds = rt_find_program_address rt seeds (rt_program_id rt)"

definition custody_authority_address :: "'h runtime \<Rightarrow> pubkey \<Rightarrow> pubkey \<times> u8" where
  "custody_authority_address rt config = pda rt [CUSTODY_AUTHORITY_SEED, to_be_bytes config]"

definition adapter_caller_address :: "'h runtime \<Rightarrow> pubkey \<Rightarrow> pubkey \<times> u8" where
  "adapter_caller_address rt config = pda rt [ADAPTER_CALLER_SEED, to_be_bytes config]"

definition transfer_seeds :: "pubkey \<Rightarrow> bytes32 \<Rightarrow> bytes list" where
  "transfer_seeds config tid = [TRANSFER_RECORD_SEED, to_be_bytes config, to_be_bytes tid]"

definition transfer_address :: "'h runtime \<Rightarrow> pubkey \<Rightarrow> bytes32 \<Rightarrow> pubkey \<times> u8" where
  "transfer_address rt config tid = pda rt (transfer_seeds config tid)"

definition consumed_address :: "'h runtime \<Rightarrow> pubkey \<Rightarrow> u32 \<Rightarrow> u64 \<Rightarrow> pubkey \<times> u8" where
  "consumed_address rt config lane seq =
     pda rt [CONSUMED_MESSAGE_SEED, to_be_bytes config, to_le_bytes lane, to_le_bytes seq]"

definition ledger_address :: "'h runtime \<Rightarrow> pubkey \<Rightarrow> pubkey \<times> u8" where
  "ledger_address rt config = pda rt [TRANSPORT_LEDGER_SEED, to_be_bytes config]"

definition outbound_lane_address :: "'h runtime \<Rightarrow> pubkey \<Rightarrow> u32 \<Rightarrow> pubkey \<times> u8" where
  "outbound_lane_address rt config lane =
     pda rt [OUTBOUND_LANE_SEED, to_be_bytes config, to_le_bytes lane]"

definition report_address :: "'h runtime \<Rightarrow> pubkey \<Rightarrow> u32 \<Rightarrow> u64 \<Rightarrow> pubkey \<times> u8" where
  "report_address rt config lane seq =
     pda rt [REPORT_RECORD_SEED, to_be_bytes config, to_le_bytes lane, to_le_bytes seq]"

definition marker_address :: "'h runtime \<Rightarrow> pubkey \<Rightarrow> bytes32 \<Rightarrow> pubkey \<times> u8" where
  "marker_address rt config tid = pda rt [RECALL_SENT_MARKER_SEED, to_be_bytes config, to_be_bytes tid]"

definition risk_config_address :: "'h runtime \<Rightarrow> pubkey \<Rightarrow> pubkey \<times> u8" where
  "risk_config_address rt config = pda rt [RISK_CONFIG_SEED, to_be_bytes config]"

definition replay_lane_address :: "'h runtime \<Rightarrow> pubkey \<Rightarrow> u32 \<Rightarrow> pubkey \<times> u8" where
  "replay_lane_address rt config lane = pda rt [REPLAY_LANE_SEED, to_be_bytes config, to_le_bytes lane]"

definition strategy_config_address :: "'h runtime \<Rightarrow> pubkey \<Rightarrow> pubkey \<times> u8" where
  "strategy_config_address rt config = pda rt [STRATEGY_CONFIG_SEED, to_be_bytes config]"

definition remote_position_address :: "'h runtime \<Rightarrow> pubkey \<Rightarrow> pubkey \<times> u8" where
  "remote_position_address rt config = pda rt [REMOTE_POSITION_SEED, to_be_bytes config]"

definition policy_address :: "'h runtime \<Rightarrow> pubkey \<Rightarrow> pubkey \<times> u8" where
  "policy_address rt config = pda rt [DEPLOY_AUTHORIZATION_SEED, to_be_bytes config]"

section \<open>Records\<close>

definition check_available :: "slots \<Rightarrow> pubkey \<Rightarrow> leg_error \<Rightarrow> leg_error \<Rightarrow> leg_error + unit" where
  "check_available sl key already_used invalid =
     (case sl key of None \<Rightarrow> Inr () | Some ForeignSlot \<Rightarrow> Inl invalid | Some _ \<Rightarrow> Inl already_used)"

text \<open>The system program refuses to allocate an account that is already in use.\<close>

definition create_and_write :: "slots \<Rightarrow> pubkey \<Rightarrow> slot \<Rightarrow> leg_error + slots" where
  "create_and_write sl key value = (if sl key = None then Inr (sl(key \<mapsto> value)) else Inl Framework)"

text \<open>\<open>records::load\<close> of a transfer record: the owner is checked first, then the account tag.\<close>

definition load_transfer :: "slots \<Rightarrow> pubkey \<Rightarrow> leg_error \<Rightarrow> leg_error + transfer_record" where
  "load_transfer sl key invalid =
     (case sl key of
        Some (TransferSlot r) \<Rightarrow> Inr r
      | None \<Rightarrow> Inl invalid | Some ForeignSlot \<Rightarrow> Inl invalid
      | Some _ \<Rightarrow> Inl Framework)"

text \<open>\<open>Account<TransferRecord>\<close> with \<open>seeds\<close> and \<open>bump\<close> taken from the record itself.\<close>

definition account_transfer :: "'h runtime \<Rightarrow> pubkey \<Rightarrow> slots \<Rightarrow> pubkey \<Rightarrow> leg_error + transfer_record" where
  "account_transfer rt config sl key =
     (case sl key of
        Some (TransferSlot r) \<Rightarrow>
          (if rt_create_program_address rt (transfer_seeds config (tr_transfer_id r) @ [[tr_bump r]])
                (rt_program_id rt) = Some key
           then Inr r else Inl Framework)
      | _ \<Rightarrow> Inl Framework)"

section \<open>Token accounts\<close>

definition load_token :: "world \<Rightarrow> pubkey \<Rightarrow> leg_error + token_account" where
  "load_token w key = ok_or (w_tokens w key) Framework"

section \<open>The adapter\<close>

definition DEPOSIT_EXACT :: bytes where
  "DEPOSIT_EXACT = [103, 205, 71, 100, 215, 98, 254, 121]"

definition WITHDRAW_FOR_REMOTE_LEG :: bytes where
  "WITHDRAW_FOR_REMOTE_LEG = [140, 25, 238, 22, 233, 57, 60, 133]"

definition PRINCIPAL_OFFSET :: nat where
  "PRINCIPAL_OFFSET = 236"

definition PRINCIPAL_LEN :: nat where
  "PRINCIPAL_LEN = 8"

definition STATE_DISCRIMINATOR :: bytes where
  "STATE_DISCRIMINATOR = [88, 130, 126, 170, 183, 106, 151, 212]"

definition STATE_LEN :: nat where
  "STATE_LEN = 262"

record adapter_call =
  ac_adapter_program :: pubkey
  ac_adapter_state :: pubkey
  ac_adapter_authority :: pubkey
  ac_adapter_token_vault :: pubkey
  ac_caller :: pubkey
  ac_custody_token_account :: pubkey
  ac_asset_mint :: pubkey
  ac_token_program :: pubkey

definition meta_new :: "pubkey \<Rightarrow> bool \<Rightarrow> account_meta" where
  "meta_new key signer = \<lparr>am_pubkey = key, am_is_signer = signer, am_is_writable = True\<rparr>"

definition meta_readonly :: "pubkey \<Rightarrow> bool \<Rightarrow> account_meta" where
  "meta_readonly key signer = \<lparr>am_pubkey = key, am_is_signer = signer, am_is_writable = False\<rparr>"

definition adapter_invoke ::
  "'h runtime \<Rightarrow> adapter_call \<Rightarrow> bytes \<Rightarrow> u64 \<Rightarrow> account_meta list \<Rightarrow> world \<Rightarrow> leg_error + world" where
  "adapter_invoke rt c selector amount metas w =
     ok_or (rt_invoke rt \<lparr>in_program_id = ac_adapter_program c, in_accounts = metas,
       in_data = selector @ to_le_bytes amount\<rparr> w) Framework"

definition deposit_exact :: "'h runtime \<Rightarrow> adapter_call \<Rightarrow> u64 \<Rightarrow> world \<Rightarrow> leg_error + world" where
  "deposit_exact rt c amount w =
     adapter_invoke rt c DEPOSIT_EXACT amount
       [meta_readonly (ac_caller c) True, meta_new (ac_adapter_state c) False,
        meta_readonly (ac_adapter_token_vault c) False, meta_readonly (ac_asset_mint c) False,
        meta_readonly (ac_token_program c) False] w"

definition adapter_withdraw :: "'h runtime \<Rightarrow> adapter_call \<Rightarrow> u64 \<Rightarrow> world \<Rightarrow> leg_error + world" where
  "adapter_withdraw rt c requested_principal w =
     adapter_invoke rt c WITHDRAW_FOR_REMOTE_LEG requested_principal
       [meta_readonly (ac_caller c) True, meta_new (ac_adapter_state c) False,
        meta_readonly (ac_adapter_authority c) False, meta_new (ac_custody_token_account c) False,
        meta_new (ac_adapter_token_vault c) False, meta_readonly (ac_asset_mint c) False,
        meta_readonly (ac_token_program c) False] w"

text \<open>An address with no entry is an empty account of another owner, here with no data.\<close>

definition account_owner :: "world \<Rightarrow> pubkey \<Rightarrow> pubkey" where
  "account_owner w key = (case w_data w key of None \<Rightarrow> 0 | Some (owner, _) \<Rightarrow> owner)"

definition account_data :: "world \<Rightarrow> pubkey \<Rightarrow> bytes" where
  "account_data w key = (case w_data w key of None \<Rightarrow> [] | Some (_, data) \<Rightarrow> data)"

definition check_layout :: "world \<Rightarrow> pubkey \<Rightarrow> pubkey \<Rightarrow> leg_error + unit" where
  "check_layout w adapter_state adapter_program =
     and_then (require (account_owner w adapter_state = adapter_program) AdapterStateMismatch) (\<lambda>_.
     let data = account_data w adapter_state in
     and_then (require (length data = STATE_LEN) AdapterStateMismatch) (\<lambda>_.
     and_then (if length STATE_DISCRIMINATOR \<le> length data
       then Inr (take (length STATE_DISCRIMINATOR) data) else Inl AdapterStateMismatch) (\<lambda>tag.
     require (tag = STATE_DISCRIMINATOR) AdapterStateMismatch)))"

definition read_principal :: "world \<Rightarrow> pubkey \<Rightarrow> leg_error + u64" where
  "read_principal w adapter_state =
     (let data = account_data w adapter_state in
      if PRINCIPAL_OFFSET + PRINCIPAL_LEN \<le> length data
      then Inr (from_le_bytes (take PRINCIPAL_LEN (drop PRINCIPAL_OFFSET data)))
      else Inl InvalidAdapterState)"

section \<open>Deployment authorization\<close>

definition CONSUME_CONFIG_INDEX :: nat where
  "CONSUME_CONFIG_INDEX = 1"

definition CONSUME_RECEIPT_INDEX :: nat where
  "CONSUME_RECEIPT_INDEX = 3"

definition TRANSACTION_LEVEL_STACK_HEIGHT :: nat where
  "TRANSACTION_LEVEL_STACK_HEIGHT = 1"

definition deployment_context_of :: "'h runtime \<Rightarrow> leg \<Rightarrow> deployment_context" where
  "deployment_context_of rt lg =
     \<lparr>dx_remote_leg_program = rt_program_id rt, dx_remote_config = lg_key lg,
      dx_deployment_id = cf_deployment_id (lg_config lg), dx_vault_id = cf_vault_id (lg_config lg),
      dx_config_version = cf_config_version (lg_config lg), dx_strategy_config = lg_strategy_key lg,
      dx_adapter_program = st_adapter_program (lg_strategy lg),
      dx_adapter_state = st_adapter_state (lg_strategy lg),
      dx_adapter_authority = st_adapter_authority (lg_strategy lg),
      dx_adapter_token_vault = st_adapter_token_vault (lg_strategy lg),
      dx_max_remote_principal = st_max_remote_principal (lg_strategy lg),
      dx_asset_mint = cf_asset_mint (lg_config lg), dx_token_program = cf_token_program (lg_config lg),
      dx_custody_authority = cf_custody_authority (lg_config lg),
      dx_custody_token_account = cf_custody_token_account (lg_config lg),
      dx_deployed_principal = ps_deployed_principal (lg_position lg)\<rparr>"

definition instruction_at :: "transaction \<Rightarrow> nat \<Rightarrow> instruction option" where
  "instruction_at tx index = (if index < length (tx_instructions tx) then Some (tx_instructions tx ! index) else None)"

definition named_account :: "instruction \<Rightarrow> nat \<Rightarrow> pubkey option" where
  "named_account i index =
     (if index < length (in_accounts i) then Some (am_pubkey (in_accounts i ! index)) else None)"

definition check_consumed_just_before ::
  "'h runtime \<Rightarrow> transaction \<Rightarrow> policy \<Rightarrow> pubkey \<Rightarrow> deployment_receipt \<Rightarrow> leg_error + unit" where
  "check_consumed_just_before rt tx pol receipt_key receipt =
     and_then (require (tx_stack_height tx = TRANSACTION_LEVEL_STACK_HEIGHT) DeploymentNotTopLevel) (\<lambda>_.
     let current = tx_current_index tx in
     and_then (ok_or (instruction_at tx current) Framework) (\<lambda>this.
     and_then (require (in_program_id this = rt_program_id rt) DeploymentNotTopLevel) (\<lambda>_.
     and_then (ok_or (if 1 \<le> current then instruction_at tx (current - 1) else None)
       DeploymentAuthorizationRequired) (\<lambda>consume.
     let expected_data = rt_consume_discriminator rt @ to_be_bytes (dc_nonce receipt) in
     require (in_program_id consume = rt_verifier_id rt \<and> in_data consume = expected_data \<and>
       named_account consume CONSUME_CONFIG_INDEX = Some (po_authorization_config pol) \<and>
       named_account consume CONSUME_RECEIPT_INDEX = Some receipt_key)
       DeploymentAuthorizationRequired))))"

definition receipt_address_is_canonical :: "'h runtime \<Rightarrow> pubkey \<Rightarrow> deployment_receipt \<Rightarrow> bool" where
  "receipt_address_is_canonical rt receipt_key receipt =
     (rt_create_program_address rt
        [DEPLOYMENT_RECEIPT_SEED, to_be_bytes (dc_config receipt), to_be_bytes (dc_nonce receipt),
         [dc_bump receipt]] (rt_verifier_id rt) = Some receipt_key)"

definition authorization_check ::
  "'h runtime \<Rightarrow> transaction \<Rightarrow> policy \<Rightarrow> pubkey \<Rightarrow> deployment_receipt \<Rightarrow> pubkey \<Rightarrow>
   deployment_context \<Rightarrow> u64 \<Rightarrow> i64 \<Rightarrow> leg_error + unit" where
  "authorization_check rt tx pol receipt_key receipt remote_config context amount now =
     and_then (check_consumed_just_before rt tx pol receipt_key receipt) (\<lambda>_.
     and_then (require (dc_version receipt = DEPLOYMENT_PROFILE_VERSION \<and>
         dc_config receipt = po_authorization_config pol \<and> dc_remote_config receipt = remote_config \<and>
         receipt_address_is_canonical rt receipt_key receipt) InvalidAuthorizationReceipt) (\<lambda>_.
     and_then (require (dc_consumed_at receipt = now) InvalidAuthorizationReceipt) (\<lambda>_.
     and_then (require (sint now < sint (dc_expires_at receipt)) AuthorizationExpired) (\<lambda>_.
     and_then (require (dc_amount receipt = amount) AuthorizationAmountMismatch) (\<lambda>_.
     require (dc_deployment_context receipt =
       context_commitment (rt_sha256 rt) (rt_verifier_id rt) context) AuthorizationContextMismatch)))))"

section \<open>Laws of the record store\<close>

lemma check_available_Inr [leg_simps]: "check_available sl k a i = Inr u \<longleftrightarrow> sl k = None"
  by (auto simp: check_available_def split: option.splits slot.splits)

lemma create_and_write_Inr [leg_simps]:
  "create_and_write sl k v = Inr sl' \<longleftrightarrow> sl k = None \<and> sl' = sl(k \<mapsto> v)"
  by (auto simp: create_and_write_def)

lemma load_transfer_Inr [leg_simps]: "load_transfer sl k e = Inr r \<longleftrightarrow> sl k = Some (TransferSlot r)"
  by (auto simp: load_transfer_def split: option.splits slot.splits)

lemma account_transfer_Inr [leg_simps]:
  "account_transfer rt c sl k = Inr r \<longleftrightarrow>
     sl k = Some (TransferSlot r) \<and>
     rt_create_program_address rt (transfer_seeds c (tr_transfer_id r) @ [[tr_bump r]]) (rt_program_id rt) = Some k"
  by (auto simp: account_transfer_def split: option.splits slot.splits)

lemma load_token_Inr [leg_simps]: "load_token w k = Inr t \<longleftrightarrow> w_tokens w k = Some t"
  by (simp add: load_token_def result_simps)

lemma emit_simps [simp]:
  "lg_key (emit e lg) = lg_key lg" "lg_config (emit e lg) = lg_config lg"
  "lg_risk (emit e lg) = lg_risk lg" "lg_lane (emit e lg) = lg_lane lg"
  "lg_strategy_key (emit e lg) = lg_strategy_key lg" "lg_strategy (emit e lg) = lg_strategy lg"
  "lg_position (emit e lg) = lg_position lg" "lg_outbound (emit e lg) = lg_outbound lg"
  "lg_policy (emit e lg) = lg_policy lg" "lg_slots (emit e lg) = lg_slots lg"
  "lg_world (emit e lg) = lg_world lg" "lg_events (emit e lg) = lg_events lg @ [e]"
  by (simp_all add: emit_def)

end
