(* ===== verification/Leg_Message.thy ===== *)
theory Leg_Message
  imports Leg_World
begin

text \<open>
  Messages in and out of the remote leg (\<open>hashing.rs\<close>, \<open>message.rs\<close>, \<open>outbound_message.rs\<close>,
  \<open>remote_state.rs\<close>). The wire format itself is the shared crate's; here a decoded message is
  bound to the state of one deployment, outbound messages are built from state, and the state is
  committed to by one fixed width preimage.
\<close>

section \<open>Hashing\<close>

definition leg_keccak256_parts :: "'h runtime \<Rightarrow> bytes list \<Rightarrow> bytes32" where
  "leg_keccak256_parts rt parts = rt_keccak rt parts"

definition leg_keccak256 :: "'h runtime \<Rightarrow> bytes \<Rightarrow> bytes32" where
  "leg_keccak256 rt bs = leg_keccak256_parts rt [bs]"

section \<open>Inbound messages\<close>

record validated_message =
  vm_message :: message
  vm_message_id :: bytes32
  vm_fresh :: bool

definition leg_message_id :: "'h runtime \<Rightarrow> bytes \<Rightarrow> leg_error + bytes32" where
  "leg_message_id rt encoded =
     and_then (require (length encoded \<le> MAX_MESSAGE_LEN) MessageTooLarge) (\<lambda>_.
     Inr (leg_keccak256_parts rt [MESSAGE_ID_DOMAIN, encoded]))"

definition leg_next_commitment :: "'h runtime \<Rightarrow> bytes32 \<Rightarrow> bytes32 \<Rightarrow> bytes32" where
  "leg_next_commitment rt previous mid =
     leg_keccak256_parts rt [COMMITMENT_DOMAIN, to_be_bytes previous, to_be_bytes mid]"

definition current_time :: "i64 \<Rightarrow> leg_error + u64" where
  "current_time unix_timestamp = ok_or (u64_of_i64 unix_timestamp) InvalidTimestamp"

fun leg_decode_error :: "decode_error \<Rightarrow> leg_error" where
  "leg_decode_error (UnsupportedProtocolVersion _) = InvalidProtocolVersion"
| "leg_decode_error (UnsupportedSchemaVersion _) = InvalidSchemaVersion"
| "leg_decode_error (UnknownMessageType _) = UnsupportedMessageType"
| "leg_decode_error _ = InvalidMessage"

definition leg_decode :: "'h runtime \<Rightarrow> bytes \<Rightarrow> leg_error + message" where
  "leg_decode rt bs =
     and_then (require (bs \<noteq> []) InvalidMessage) (\<lambda>_.
     and_then (require (length bs \<le> MAX_MESSAGE_LEN) MessageTooLarge) (\<lambda>_.
     map_err leg_decode_error (decode_message (rt_digest rt) bs)))"

definition check_domains :: "header \<Rightarrow> remote_config \<Rightarrow> replay_lane \<Rightarrow> leg_error + unit" where
  "check_domains h c lane =
     and_then (require (hd_source_chain h = cf_source_chain_id c) InvalidSourceDomain) (\<lambda>_.
     and_then (require (hd_destination_chain h = cf_destination_chain_id c) InvalidDestinationDomain) (\<lambda>_.
     and_then (require (hd_source_application h = cf_source_application_id c) InvalidApplication) (\<lambda>_.
     and_then (require (hd_destination_application h = cf_local_application_id c) InvalidApplication) (\<lambda>_.
     and_then (require (hd_deployment_id h = cf_deployment_id c) InvalidDeployment) (\<lambda>_.
     and_then (require (hd_vault_id h = cf_vault_id c) InvalidVault) (\<lambda>_.
     require (hd_lane_id h = ln_lane_id lane) InvalidLane))))))"

definition check_published :: "header \<Rightarrow> u64 \<Rightarrow> leg_error + unit" where
  "check_published h now = require (hd_published_at h \<le> now) InvalidTimestamp"

definition is_fresh :: "header \<Rightarrow> u64 \<Rightarrow> bool" where
  "is_fresh h now = (now \<le> hd_expires_at h)"

definition validate_inbound ::
  "'h runtime \<Rightarrow> bytes \<Rightarrow> message_class \<Rightarrow> remote_config \<Rightarrow> replay_lane \<Rightarrow> u64 \<Rightarrow>
   leg_error + validated_message" where
  "validate_inbound rt bs class c lane now =
     and_then (leg_decode rt bs) (\<lambda>message.
     and_then (require (message_type_of message = class_message_type class) UnsupportedMessageType) (\<lambda>_.
     and_then (check_domains (msg_header message) c lane) (\<lambda>_.
     and_then (check_published (msg_header message) now) (\<lambda>_.
     let seq = hd_sequence (msg_header message) in
     and_then (require (ln_minimum_acceptable_sequence lane \<le> seq) SequenceBelowWatermark) (\<lambda>_.
     and_then (sequence_check SEQUENCE_RULE seq (ln_highest_consumed_sequence lane)) (\<lambda>_.
     and_then (require (hd_previous_commitment (msg_header message) = ln_message_commitment lane)
       InvalidPreviousCommitment) (\<lambda>_.
     and_then (leg_message_id rt bs) (\<lambda>mid.
     Inr \<lparr>vm_message = message, vm_message_id = mid, vm_fresh = is_fresh (msg_header message) now\<rparr>))))))))"

section \<open>Outbound messages\<close>

definition MAX_REPORT_LEN :: nat where
  "MAX_REPORT_LEN = 400"

definition NO_PROBE_STATUS :: probe_status where
  "NO_PROBE_STATUS = NotRequired"

record built_message =
  bm_encoded :: encoded_message
  bm_message_id :: bytes32
  bm_body_hash :: bytes32
  bm_previous_commitment :: bytes32
  bm_next_commitment :: bytes32
  bm_encoded_len :: u16

record outbound_context =
  oc_config :: remote_config
  oc_lane :: outbound_lane
  oc_max_report_age :: u64
  oc_now :: u64

record report_fields =
  rf_epoch_id :: u64
  rf_remote_principal :: u64
  rf_realized_loss :: u64
  rf_unattributed_balance :: u64
  rf_latest_completed_transfer_id :: bytes32
  rf_config_version :: u64
  rf_remote_state_commitment :: bytes32

record recall_sent_fields =
  sf_transfer_id :: bytes32
  sf_principal_sent :: u64
  sf_actual_amount_sent :: u64
  sf_realized_loss :: u64
  sf_destination_reference :: bytes32
  sf_sent_timestamp :: u64
  sf_config_version :: u64

record settlement_fields =
  tf_transfer_id :: bytes32
  tf_kind :: settlement_kind
  tf_claim_amount :: u128
  tf_credited_amount :: u64
  tf_impaired_outstanding :: u128
  tf_config_version :: u64

fun leg_encode_error :: "encode_error \<Rightarrow> leg_error" where
  "leg_encode_error (BufferTooSmall _ _) = ReportTooLarge"
| "leg_encode_error _ = InvalidOutboundMessage"

definition outbound_header :: "outbound_context \<Rightarrow> leg_error + header" where
  "outbound_header x =
     (let c = oc_config x in
      and_then (ok_or (checked_add_word (oc_now x) (oc_max_report_age x)) ArithmeticOverflow) (\<lambda>expires_at.
      Inr \<lparr>hd_protocol_version = PROTOCOL_VERSION, hd_schema_version = SCHEMA_VERSION, hd_flags = 0,
        hd_source_chain = cf_destination_chain_id c, hd_destination_chain = cf_source_chain_id c,
        hd_source_application = cf_local_application_id c,
        hd_destination_application = cf_source_application_id c,
        hd_deployment_id = cf_deployment_id c, hd_vault_id = cf_vault_id c,
        hd_lane_id = cf_report_lane_id c, hd_sequence = ob_next_sequence (oc_lane x),
        hd_previous_commitment = ob_current_commitment (oc_lane x), hd_observed_at = oc_now x,
        hd_published_at = oc_now x, hd_expires_at = expires_at\<rparr>))"

definition read_body_hash :: "bytes \<Rightarrow> leg_error + bytes32" where
  "read_body_hash encoded =
     (if HEADER_LEN \<le> length encoded
      then Inr (from_be_bytes (take (HEADER_LEN - BODY_HASH_OFFSET) (drop BODY_HASH_OFFSET encoded)))
      else Inl InvalidEncodedLength)"

definition build :: "'h runtime \<Rightarrow> outbound_context \<Rightarrow> body \<Rightarrow> nat \<Rightarrow> leg_error + built_message" where
  "build rt x body expected_len =
     and_then (outbound_header x) (\<lambda>h.
     let message = \<lparr>msg_header = h, msg_body = body\<rparr> in
     and_then (map_err leg_encode_error (encode (rt_digest rt) message)) (\<lambda>encoded.
     let bs = as_bytes encoded in
     and_then (require (length bs = expected_len) InvalidEncodedLength) (\<lambda>_.
     and_then (require (length bs \<le> MAX_REPORT_LEN) ReportTooLarge) (\<lambda>_.
     and_then (leg_message_id rt bs) (\<lambda>mid.
     and_then (read_body_hash bs) (\<lambda>body_hash.
     let next = leg_next_commitment rt (ob_current_commitment (oc_lane x)) mid in
     and_then (require (length bs < 2 ^ 16) ReportTooLarge) (\<lambda>_.
     Inr \<lparr>bm_encoded = encoded, bm_message_id = mid, bm_body_hash = body_hash,
       bm_previous_commitment = ob_current_commitment (oc_lane x), bm_next_commitment = next,
       bm_encoded_len = of_nat (length bs)\<rparr>)))))))"

definition report_body_of :: "report_fields \<Rightarrow> remote_report_body" where
  "report_body_of f =
     \<lparr>rr_epoch_id = rf_epoch_id f, rr_remote_principal = u128_of_u64 (rf_remote_principal f),
      rr_reported_value = u128_of_u64 (rf_remote_principal f),
      rr_realized_loss = u128_of_u64 (rf_realized_loss f),
      rr_unattributed_balance = u128_of_u64 (rf_unattributed_balance f),
      rr_latest_completed_transfer_id = rf_latest_completed_transfer_id f,
      rr_probe_status = NO_PROBE_STATUS, rr_probe_timestamp = 0,
      rr_config_version = rf_config_version f,
      rr_remote_state_commitment = rf_remote_state_commitment f\<rparr>"

definition build_remote_report ::
  "'h runtime \<Rightarrow> outbound_context \<Rightarrow> report_fields \<Rightarrow> leg_error + built_message" where
  "build_remote_report rt x f =
     build rt x (RemoteReport (report_body_of f)) REMOTE_REPORT_MESSAGE_LEN"

definition recall_sent_body_of :: "recall_sent_fields \<Rightarrow> recall_sent_body" where
  "recall_sent_body_of f =
     \<lparr>rs_transfer_id = sf_transfer_id f, rs_principal_sent = u128_of_u64 (sf_principal_sent f),
      rs_actual_amount_sent = u128_of_u64 (sf_actual_amount_sent f),
      rs_realized_loss = u128_of_u64 (sf_realized_loss f),
      rs_destination_reference = sf_destination_reference f,
      rs_sent_timestamp = sf_sent_timestamp f, rs_config_version = sf_config_version f\<rparr>"

definition build_recall_sent ::
  "'h runtime \<Rightarrow> outbound_context \<Rightarrow> recall_sent_fields \<Rightarrow> leg_error + built_message" where
  "build_recall_sent rt x f =
     build rt x (RecallSent (recall_sent_body_of f)) RECALL_SENT_MESSAGE_LEN"

definition settlement_body_of :: "settlement_fields \<Rightarrow> settlement_body" where
  "settlement_body_of f =
     \<lparr>ts_transfer_id = tf_transfer_id f, ts_kind = tf_kind f, ts_claim_amount = tf_claim_amount f,
      ts_credited_amount = u128_of_u64 (tf_credited_amount f),
      ts_impaired_outstanding = tf_impaired_outstanding f, ts_config_version = tf_config_version f\<rparr>"

definition build_transport_settlement ::
  "'h runtime \<Rightarrow> outbound_context \<Rightarrow> settlement_fields \<Rightarrow> leg_error + built_message" where
  "build_transport_settlement rt x f =
     build rt x (TransportSettlement (settlement_body_of f)) TRANSPORT_SETTLEMENT_MESSAGE_LEN"

section \<open>State commitment\<close>

definition REMOTE_STATE_DOMAIN :: bytes where
  "REMOTE_STATE_DOMAIN = ascii_bytes ''SOLEVM_REMOTE_STATE_V1''"

definition REMOTE_STATE_BODY_LEN :: nat where
  "REMOTE_STATE_BODY_LEN = 179"

definition REMOTE_STATE_PREIMAGE_LEN :: nat where
  "REMOTE_STATE_PREIMAGE_LEN = length REMOTE_STATE_DOMAIN + REMOTE_STATE_BODY_LEN"

record remote_state_view =
  sv_remote_config :: pubkey
  sv_config_version :: u64
  sv_frozen :: bool
  sv_position :: remote_position
  sv_custody_balance :: u64
  sv_adapter_principal :: u64

record writer =
  wr_buffer :: bytes
  wr_offset :: nat

definition writer_put :: "bytes \<Rightarrow> writer \<Rightarrow> leg_error + writer" where
  "writer_put bs w =
     and_then (ok_or (checked_add_usize (wr_offset w) (length bs)) ArithmeticOverflow) (\<lambda>stop.
     if stop \<le> length (wr_buffer w)
     then Inr \<lparr>wr_buffer = take (wr_offset w) (wr_buffer w) @ bs @ drop stop (wr_buffer w), wr_offset = stop\<rparr>
     else Inl InvalidRemoteState)"

definition state_fields :: "remote_state_view \<Rightarrow> bytes list" where
  "state_fields v =
     (let p = sv_position v in
      [REMOTE_STATE_DOMAIN, to_be_bytes (sv_remote_config v), to_be_bytes (sv_config_version v),
       [if sv_frozen v then 1 else 0], to_be_bytes (ps_attributed_principal p),
       to_be_bytes (ps_deployed_principal p), to_be_bytes (ps_recalled_custody p),
       to_be_bytes (ps_unattributed_custody p), to_be_bytes (ps_cumulative_realized_loss p),
       to_be_bytes (ps_active_transfer_id p), [transfer_kind_to_u8 (ps_active_transfer_kind p)],
       [transfer_status_to_u8 (ps_active_transfer_status p)],
       to_be_bytes (ps_active_transfer_sequence p), to_be_bytes (ps_latest_completed_transfer_id p),
       to_be_bytes (ps_latest_completion_at p), to_be_bytes (sv_custody_balance v),
       to_be_bytes (sv_adapter_principal v)])"

definition write_preimage :: "remote_state_view \<Rightarrow> bytes \<Rightarrow> leg_error + bytes \<times> nat" where
  "write_preimage v out =
     and_then (for_each writer_put (state_fields v) \<lparr>wr_buffer = out, wr_offset = 0\<rparr>) (\<lambda>w.
     Inr (wr_buffer w, wr_offset w))"

definition state_commitment :: "'h runtime \<Rightarrow> remote_state_view \<Rightarrow> leg_error + bytes32" where
  "state_commitment rt v =
     and_then (write_preimage v (replicate REMOTE_STATE_PREIMAGE_LEN 0)) (\<lambda>(preimage, width).
     and_then (if width \<le> length preimage then Inr (take width preimage) else Inl InvalidRemoteState) (\<lambda>slot.
     Inr (leg_keccak256 rt slot)))"

section \<open>Inbound validation as a conjunction\<close>

lemma check_domains_Inr [leg_simps]:
  "check_domains h c lane = Inr u \<longleftrightarrow>
     hd_source_chain h = cf_source_chain_id c \<and> hd_destination_chain h = cf_destination_chain_id c \<and>
     hd_source_application h = cf_source_application_id c \<and>
     hd_destination_application h = cf_local_application_id c \<and>
     hd_deployment_id h = cf_deployment_id c \<and> hd_vault_id h = cf_vault_id c \<and>
     hd_lane_id h = ln_lane_id lane"
  by (auto simp: check_domains_def result_simps)

lemma leg_decode_Inr:
  "leg_decode rt bs = Inr m \<longleftrightarrow> message_valid m \<and> bs = message_bytes (rt_digest rt) m"
proof -
  have "message_bytes (rt_digest rt) m \<noteq> [] \<and> length (message_bytes (rt_digest rt) m) \<le> MAX_MESSAGE_LEN"
    using width_facts(1,3) [of m] message_bytes_length [of "rt_digest rt" m]
    by (auto simp: layout_simps simp del: message_bytes_length)
  then show ?thesis
    by (auto simp: leg_decode_def result_simps decode_message_iff)
qed

lemma validate_inbound_Inr:
  "validate_inbound rt bs class c lane now = Inr v \<longleftrightarrow>
     (\<exists>m. message_valid m \<and> bs = message_bytes (rt_digest rt) m \<and>
        message_type_of m = class_message_type class \<and> check_domains (msg_header m) c lane = Inr () \<and>
        hd_published_at (msg_header m) \<le> now \<and>
        ln_minimum_acceptable_sequence lane \<le> hd_sequence (msg_header m) \<and>
        unat (hd_sequence (msg_header m)) = unat (ln_highest_consumed_sequence lane) + 1 \<and>
        hd_previous_commitment (msg_header m) = ln_message_commitment lane \<and>
        v = \<lparr>vm_message = m, vm_message_id = rt_keccak rt [MESSAGE_ID_DOMAIN, bs],
          vm_fresh = (now \<le> hd_expires_at (msg_header m))\<rparr>)"
proof -
  have width: "encoded_len m \<le> MAX_MESSAGE_LEN" for m
    using width_facts(3) [of m] by (simp add: layout_simps)
  have "sequence_check SEQUENCE_RULE s h = Inr u \<longleftrightarrow> unat s = unat h + 1" for s h u
    by (simp add: SEQUENCE_RULE_def leg_simps del: sequence_check.simps)
  then show ?thesis
    by (auto simp: validate_inbound_def result_simps leg_decode_Inr Let_def check_published_def
        leg_message_id_def is_fresh_def leg_keccak256_parts_def width)
qed

section \<open>What the leg builds\<close>

definition outbound_message :: "outbound_context \<Rightarrow> body \<Rightarrow> message" where
  "outbound_message x body =
     \<lparr>msg_header =
        \<lparr>hd_protocol_version = 1, hd_schema_version = 1, hd_flags = 0,
         hd_source_chain = cf_destination_chain_id (oc_config x),
         hd_destination_chain = cf_source_chain_id (oc_config x),
         hd_source_application = cf_local_application_id (oc_config x),
         hd_destination_application = cf_source_application_id (oc_config x),
         hd_deployment_id = cf_deployment_id (oc_config x), hd_vault_id = cf_vault_id (oc_config x),
         hd_lane_id = cf_report_lane_id (oc_config x), hd_sequence = ob_next_sequence (oc_lane x),
         hd_previous_commitment = ob_current_commitment (oc_lane x), hd_observed_at = oc_now x,
         hd_published_at = oc_now x, hd_expires_at = oc_now x + oc_max_report_age x\<rparr>,
      msg_body = body\<rparr>"

lemma outbound_header_Inr:
  "outbound_header x = Inr h \<longleftrightarrow>
     unat (oc_now x) + unat (oc_max_report_age x) < 2 ^ 64 \<and> h = msg_header (outbound_message x body)"
  by (auto simp: outbound_header_def Let_def result_simps checked_add_word_def outbound_message_def
      PROTOCOL_VERSION_def SCHEMA_VERSION_def)

lemma read_body_hash_bytes:
  "read_body_hash (message_bytes D m) = Inr (keccak256 D (body_bytes (msg_body m)))"
proof -
  have "sub_bytes (message_bytes D m) 215 32 = to_be_bytes (keccak256 D (body_bytes (msg_body m)))"
    by (simp add: message_bytes_parts)
  then show ?thesis
    using width_facts(1) [of m] by (simp add: read_body_hash_def layout_simps sub_bytes_def be_bytes_inverse)
qed

text \<open>
  A built message is the canonical encoding of the outbound message; a body whose kind matches
  the expected width is built exactly when the message obeys every wire rule.
\<close>

lemma build_Inr:
  assumes "expected_len = message_len (body_message_type body)"
  shows "build rt x body expected_len = Inr b \<longleftrightarrow>
     unat (oc_now x) + unat (oc_max_report_age x) < 2 ^ 64 \<and> message_valid (outbound_message x body) \<and>
     as_bytes (bm_encoded b) = message_bytes (rt_digest rt) (outbound_message x body) \<and>
     encode (rt_digest rt) (outbound_message x body) = Inr (bm_encoded b) \<and>
     bm_message_id b = rt_keccak rt [MESSAGE_ID_DOMAIN, message_bytes (rt_digest rt) (outbound_message x body)] \<and>
     bm_body_hash b = keccak256 (rt_digest rt) (body_bytes body) \<and>
     bm_previous_commitment b = ob_current_commitment (oc_lane x) \<and>
     bm_next_commitment b = leg_next_commitment rt (ob_current_commitment (oc_lane x)) (bm_message_id b) \<and>
     bm_encoded_len b = of_nat expected_len"
proof -
  define m where "m = outbound_message x body"
  have parts: "msg_body m = body" "message_type_of m = body_message_type body"
    by (simp_all add: m_def outbound_message_def message_type_of_def)
  have len: "encoded_len m = expected_len" "expected_len \<le> 400" "expected_len < 65536"
    using width_facts(3) [of m] assms parts by (simp_all add: encoded_len_def)
  have bytes: "as_bytes \<lparr>em_bytes = message_bytes (rt_digest rt) m @ rest, em_len = of_nat expected_len\<rparr> =
      message_bytes (rt_digest rt) m" for rest
    using as_bytes_encoded [of "rt_digest rt" m rest] by (simp only: len(1))
  have header: "outbound_header x = Inr h \<longleftrightarrow>
      unat (oc_now x) + unat (oc_max_report_age x) < 2 ^ 64 \<and> h = msg_header m" for h
    by (simp add: m_def outbound_header_Inr [of _ _ body])
  have pack: "\<lparr>msg_header = msg_header m, msg_body = body\<rparr> = m"
    using parts(1) by (cases m) simp
  have hash: "read_body_hash (message_bytes (rt_digest rt) m) = Inr (keccak256 (rt_digest rt) (body_bytes body))"
    using read_body_hash_bytes [of "rt_digest rt" m] parts(1) by simp
  have enc: "encode (rt_digest rt) m = Inr e \<longleftrightarrow> message_valid m \<and>
      e = \<lparr>em_bytes = message_bytes (rt_digest rt) m @ replicate (400 - encoded_len m) 0,
        em_len = of_nat (encoded_len m)\<rparr>" for e
    by (rule encode_Inr)
  show ?thesis
    unfolding m_def [symmetric]
    by (cases b) (auto simp: build_def result_simps Let_def header pack enc bytes len hash
        MAX_REPORT_LEN_def leg_message_id_def leg_keccak256_parts_def layout_simps)
qed

section \<open>The committed preimage\<close>

lemma writer_put_fields:
  assumes "length prefix + length (concat parts) \<le> length out" "length out < 2 ^ 64"
  shows "for_each writer_put parts \<lparr>wr_buffer = prefix @ drop (length prefix) out, wr_offset = length prefix\<rparr> =
     Inr \<lparr>wr_buffer = (prefix @ concat parts) @ drop (length (prefix @ concat parts)) out,
       wr_offset = length (prefix @ concat parts)\<rparr>"
  using assms
proof (induction parts arbitrary: prefix)
  case (Cons f fs)
  have "writer_put f \<lparr>wr_buffer = prefix @ drop (length prefix) out, wr_offset = length prefix\<rparr> =
      Inr \<lparr>wr_buffer = (prefix @ f) @ drop (length (prefix @ f)) out, wr_offset = length (prefix @ f)\<rparr>"
    using Cons.prems by (simp add: writer_put_def checked_add_usize_def add.commute)
  then show ?case using Cons.IH [of "prefix @ f"] Cons.prems by simp
qed simp

lemma state_fields_length: "length (concat (state_fields v)) = 201"
  by (simp add: state_fields_def Let_def REMOTE_STATE_DOMAIN_def ascii_bytes_def)

lemma state_commitment_eq:
  "state_commitment rt v = Inr (rt_keccak rt [concat (state_fields v)])"
proof -
  have len: "REMOTE_STATE_PREIMAGE_LEN = 201"
    by (simp add: REMOTE_STATE_PREIMAGE_LEN_def REMOTE_STATE_BODY_LEN_def REMOTE_STATE_DOMAIN_def ascii_bytes_def)
  have "write_preimage v (replicate 201 0) = Inr (concat (state_fields v), 201)"
    using writer_put_fields [of "[]" "state_fields v" "replicate 201 0"] state_fields_length [of v]
    by (simp add: write_preimage_def)
  then show ?thesis
    using state_fields_length [of v]
    by (simp add: state_commitment_def len leg_keccak256_def leg_keccak256_parts_def)
qed

end
