(* ===== verification/Leg_Inbound.thy ===== *)
theory Leg_Inbound
  imports Leg_Message
begin

text \<open>
  The handlers of the inbound control lane (\<open>instructions/{allocate,recall,resolve,config_update}.rs\<close>).
  A handler takes the runtime, the keys of the accounts its caller may choose, the message bytes,
  the clock and the leg, and returns the changed leg or the error that aborts the transaction.
  Constraints Anchor checks before a handler runs come first, in the order of the account struct.
\<close>

section \<open>Shared steps\<close>

definition check_state_versions :: "u8 list \<Rightarrow> leg_error + unit" where
  "check_state_versions versions =
     for_each (\<lambda>v _. require (v = STATE_VERSION) InvalidStateVersion) versions ()"

definition check_control_lane :: "leg \<Rightarrow> leg_error + unit" where
  "check_control_lane lg =
     require (ln_lane_id (lg_lane lg) = cf_control_lane_id (lg_config lg)) InvalidLane"

text \<open>\<open>emergency_guardian: Option<Signer>\<close> with its address constraint.\<close>

definition check_guardian :: "leg \<Rightarrow> pubkey option \<Rightarrow> leg_error + unit" where
  "check_guardian lg guardian =
     (case guardian of None \<Rightarrow> Inr ()
      | Some key \<Rightarrow> require (key = cf_emergency_guardian (lg_config lg)) Unauthorized)"

definition check_frozen :: "leg \<Rightarrow> pubkey option \<Rightarrow> leg_error + unit" where
  "check_frozen lg guardian = require (\<not> cf_frozen (lg_config lg) \<or> guardian \<noteq> None) Frozen"

definition check_consumable :: "'h runtime \<Rightarrow> leg \<Rightarrow> pubkey \<Rightarrow> u64 \<Rightarrow> leg_error + u8" where
  "check_consumable rt lg key seq =
     (let (address, bump) = consumed_address rt (lg_key lg) (cf_control_lane_id (lg_config lg)) seq in
      and_then (require (key = address) InvalidConsumedMessage) (\<lambda>_.
      and_then (check_available (lg_slots lg) key ReplayDetected InvalidConsumedMessage) (\<lambda>_. Inr bump)))"

text \<open>Creates the consumed record, then moves the control lane on by one message.\<close>

definition consume ::
  "'h runtime \<Rightarrow> message_class \<Rightarrow> pubkey \<Rightarrow> u8 \<Rightarrow> u64 \<Rightarrow> bytes32 \<Rightarrow> i64 \<Rightarrow> leg \<Rightarrow> leg_error + leg" where
  "consume rt class key bump seq mid clock lg =
     and_then (create_and_write (lg_slots lg) key (ConsumedSlot
       \<lparr>cm_state_version = STATE_VERSION, cm_bump = bump, cm_message_class = class,
        cm_lane_id = cf_control_lane_id (lg_config lg), cm_sequence = seq, cm_message_id = mid\<rparr>)) (\<lambda>sl.
     Inr (lg\<lparr>lg_slots := sl, lg_lane := (lg_lane lg)\<lparr>ln_highest_consumed_sequence := seq,
       ln_message_commitment := leg_next_commitment rt (ln_message_commitment (lg_lane lg)) mid,
       ln_last_accepted_at := clock\<rparr>\<rparr>))"

section \<open>Allocate\<close>

definition allocation_fits :: "remote_position \<Rightarrow> strategy_config \<Rightarrow> u64 \<Rightarrow> leg_error + bool" where
  "allocation_fits p st authorized_amount =
     and_then (accepted_principal p) (\<lambda>accepted.
     and_then (ok_or (checked_add_word accepted authorized_amount) ArithmeticOverflow) (\<lambda>projected.
     Inr (projected \<le> st_max_remote_principal st)))"

definition allocate_check_versions :: "leg \<Rightarrow> leg_error + unit" where
  "allocate_check_versions lg =
     and_then (check_state_versions [cf_state_version (lg_config lg), rk_state_version (lg_risk lg),
       st_state_version (lg_strategy lg), ps_state_version (lg_position lg), ln_state_version (lg_lane lg)]) (\<lambda>_.
     check_control_lane lg)"

definition allocate_quarantine :: "leg \<Rightarrow> bool \<Rightarrow> u64 \<Rightarrow> leg_error + quarantine_reason option" where
  "allocate_quarantine lg fresh authorized_amount =
     (if \<not> fresh then Inr (Some QExpired)
      else if cf_frozen (lg_config lg) then Inr (Some QFrozen)
      else and_then (allocation_fits (lg_position lg) (lg_strategy lg) authorized_amount) (\<lambda>fits.
        Inr (if \<not> fits then Some QAllocationLimit else None)))"

text \<open>The record, the consumed message and the lane are written before the position opens.\<close>

definition open_allocation ::
  "'h runtime \<Rightarrow> pubkey \<Rightarrow> pubkey \<Rightarrow> u8 \<Rightarrow> u64 \<Rightarrow> bytes32 \<Rightarrow> quarantine_reason option \<Rightarrow> transfer_record \<Rightarrow>
   i64 \<Rightarrow> leg \<Rightarrow> leg_error + leg" where
  "open_allocation rt transfer_key consumed_key bump seq mid quarantine transfer clock lg =
     and_then (create_and_write (lg_slots lg) transfer_key
       (TransferSlot (if quarantine \<noteq> None then quarantined transfer else transfer))) (\<lambda>sl.
     and_then (consume rt CAllocate consumed_key bump seq mid clock (lg\<lparr>lg_slots := sl\<rparr>)) (\<lambda>lg.
     let tid = tr_transfer_id transfer; commitment = ln_message_commitment (lg_lane lg) in
     Inr (case quarantine of
       Some reason \<Rightarrow>
         emit (MessageQuarantined (lg_key lg) CAllocate reason tid mid seq commitment clock)
           (lg\<lparr>lg_position := quarantine_transfer KAllocate tid seq (lg_position lg)\<rparr>)
     | None \<Rightarrow>
         emit (AllocateAccepted (lg_key lg) transfer_key tid mid seq (tr_authorized_amount transfer)
             (tr_minimum_amount transfer) commitment clock)
           (lg\<lparr>lg_position := open_transfer KAllocate tid seq (lg_position lg)\<rparr>))))"

definition handle_allocate ::
  "'h runtime \<Rightarrow> pubkey \<Rightarrow> pubkey \<Rightarrow> pubkey \<Rightarrow> bytes \<Rightarrow> i64 \<Rightarrow> leg \<Rightarrow> leg_error + leg" where
  "handle_allocate rt verifier transfer_key consumed_key bs clock lg =
     and_then (require (verifier = cf_transport_verifier (lg_config lg)) Unauthorized) (\<lambda>_.
     and_then (allocate_check_versions lg) (\<lambda>_.
     and_then (current_time clock) (\<lambda>now.
     and_then (validate_inbound rt bs CAllocate (lg_config lg) (lg_lane lg) now) (\<lambda>v.
     case msg_body (vm_message v) of Allocate body \<Rightarrow>
       and_then (require (al_config_version body = cf_config_version (lg_config lg)) InvalidConfigVersion) (\<lambda>_.
       let tid = al_transfer_id body in
       and_then (require (tid \<noteq> 0) InvalidTransferRecord) (\<lambda>_.
       let (address, record_bump) = transfer_address rt (lg_key lg) tid in
       and_then (require (transfer_key = address) InvalidTransferRecord) (\<lambda>_.
       and_then (check_available (lg_slots lg) transfer_key TransferAlreadyExists InvalidTransferRecord) (\<lambda>_.
       and_then (check_no_active_transfer (lg_position lg)) (\<lambda>_.
       and_then (narrow_amount (al_amount body)) (\<lambda>authorized_amount.
       and_then (narrow_amount (al_minimum_destination_amount body)) (\<lambda>minimum_amount.
       and_then (require (authorized_amount \<noteq> 0) InvalidTransferRecord) (\<lambda>_.
       and_then (require (minimum_amount \<noteq> 0) InvalidMinimumDestinationAmount) (\<lambda>_.
       and_then (require (minimum_amount \<le> authorized_amount) InvalidMinimumDestinationAmount) (\<lambda>_.
       and_then (allocate_quarantine lg (vm_fresh v) authorized_amount) (\<lambda>quarantine.
       let seq = hd_sequence (msg_header (vm_message v)) in
       and_then (check_consumable rt lg consumed_key seq) (\<lambda>bump.
       open_allocation rt transfer_key consumed_key bump seq (vm_message_id v) quarantine
         (new_allocation record_bump tid seq authorized_amount minimum_amount
           (al_expected_source_balance body) clock) clock lg))))))))))))
     | _ \<Rightarrow> Inl UnsupportedMessageType))))"

section \<open>Recall\<close>

definition recall_check_versions :: "leg \<Rightarrow> leg_error + unit" where
  "recall_check_versions lg =
     and_then (check_state_versions [cf_state_version (lg_config lg), rk_state_version (lg_risk lg),
       ps_state_version (lg_position lg), ln_state_version (lg_lane lg)]) (\<lambda>_.
     check_control_lane lg)"

definition open_recall ::
  "'h runtime \<Rightarrow> pubkey \<Rightarrow> pubkey \<Rightarrow> u8 \<Rightarrow> u64 \<Rightarrow> bytes32 \<Rightarrow> bool \<Rightarrow> transfer_record \<Rightarrow> i64 \<Rightarrow> leg \<Rightarrow>
   leg_error + leg" where
  "open_recall rt transfer_key consumed_key bump seq mid fresh transfer clock lg =
     and_then (if fresh then reserve_recall_custody transfer (lg_position lg)
       else Inr (0, quarantined transfer, lg_position lg)) (\<lambda>(reserved, transfer, position).
     and_then (create_and_write (lg_slots lg) transfer_key (TransferSlot transfer)) (\<lambda>sl.
     and_then (consume rt CRecall consumed_key bump seq mid clock
       (lg\<lparr>lg_slots := sl, lg_position := position\<rparr>)) (\<lambda>lg.
     let tid = tr_transfer_id transfer; commitment = ln_message_commitment (lg_lane lg);
       requested_amount = tr_requested_recall_amount transfer in
     if \<not> fresh then
       Inr (emit (MessageQuarantined (lg_key lg) CRecall QExpired tid mid seq commitment clock)
         (lg\<lparr>lg_position := quarantine_transfer KRecall tid seq (lg_position lg)\<rparr>))
     else
       and_then (ok_or (checked_sub_word requested_amount reserved) InvalidRecallAmount) (\<lambda>remaining_principal.
       Inr (emit (RecallCustodyReserved (lg_key lg) transfer_key tid reserved remaining_principal clock)
         (emit (RecallAccepted (lg_key lg) transfer_key tid mid seq requested_amount
             (tr_minimum_amount transfer) commitment clock)
           (lg\<lparr>lg_position := open_transfer KRecall tid seq (lg_position lg)\<rparr>)))))))"

definition handle_recall ::
  "'h runtime \<Rightarrow> pubkey \<Rightarrow> pubkey option \<Rightarrow> pubkey \<Rightarrow> pubkey \<Rightarrow> bytes \<Rightarrow> i64 \<Rightarrow> leg \<Rightarrow> leg_error + leg" where
  "handle_recall rt verifier guardian transfer_key consumed_key bs clock lg =
     and_then (require (verifier = cf_transport_verifier (lg_config lg)) Unauthorized) (\<lambda>_.
     and_then (check_guardian lg guardian) (\<lambda>_.
     and_then (recall_check_versions lg) (\<lambda>_.
     and_then (check_frozen lg guardian) (\<lambda>_.
     and_then (current_time clock) (\<lambda>now.
     and_then (validate_inbound rt bs CRecall (lg_config lg) (lg_lane lg) now) (\<lambda>v.
     case msg_body (vm_message v) of Recall body \<Rightarrow>
       and_then (require (rc_config_version body = cf_config_version (lg_config lg)) InvalidConfigVersion) (\<lambda>_.
       let tid = rc_transfer_id body in
       and_then (require (tid \<noteq> 0) InvalidTransferRecord) (\<lambda>_.
       let (address, record_bump) = transfer_address rt (lg_key lg) tid in
       and_then (require (transfer_key = address) InvalidTransferRecord) (\<lambda>_.
       and_then (check_available (lg_slots lg) transfer_key TransferAlreadyExists InvalidTransferRecord) (\<lambda>_.
       and_then (check_no_active_transfer (lg_position lg)) (\<lambda>_.
       and_then (narrow_amount (rc_requested_amount body)) (\<lambda>requested_amount.
       and_then (narrow_amount (rc_minimum_return_amount body)) (\<lambda>minimum_amount.
       and_then (require (requested_amount \<noteq> 0) InvalidRecallAmount) (\<lambda>_.
       and_then (require (minimum_amount \<noteq> 0) InvalidMinimumReturn) (\<lambda>_.
       and_then (require (minimum_amount \<le> requested_amount) InvalidMinimumReturn) (\<lambda>_.
       and_then (if vm_fresh v
         then and_then (accepted_principal (lg_position lg)) (\<lambda>accepted.
           require (requested_amount \<le> accepted) InsufficientRemotePrincipal)
         else Inr ()) (\<lambda>_.
       let seq = hd_sequence (msg_header (vm_message v)) in
       and_then (check_consumable rt lg consumed_key seq) (\<lambda>bump.
       open_recall rt transfer_key consumed_key bump seq (vm_message_id v) (vm_fresh v)
         (new_recall record_bump tid seq requested_amount minimum_amount 0 clock) clock lg))))))))))))
     | _ \<Rightarrow> Inl UnsupportedMessageType))))))"

section \<open>Resolve\<close>

record admission =
  ad_outcome :: resolve_outcome
  ad_reserved_amount :: "u64 option"
  ad_remaining_principal :: u64

definition admission_unchanged :: "resolve_outcome \<Rightarrow> admission" where
  "admission_unchanged outcome =
     \<lparr>ad_outcome = outcome, ad_reserved_amount = None, ad_remaining_principal = 0\<rparr>"

definition resolve_check_versions :: "leg \<Rightarrow> leg_error + unit" where
  "resolve_check_versions lg =
     and_then (check_state_versions [cf_state_version (lg_config lg), st_state_version (lg_strategy lg),
       ps_state_version (lg_position lg), ln_state_version (lg_lane lg)]) (\<lambda>_.
     check_control_lane lg)"

text \<open>The terms of the original message, still to hold when it is admitted: \<open>Some outcome\<close> leaves
  everything untouched.\<close>

definition admission_terms :: "transfer_record \<Rightarrow> leg \<Rightarrow> leg_error + resolve_outcome option" where
  "admission_terms r lg =
     (case tr_transfer_kind r of
        KAllocate \<Rightarrow>
          and_then (check_allocation_shape r) (\<lambda>_.
          and_then (allocation_fits (lg_position lg) (lg_strategy lg) (tr_authorized_amount r)) (\<lambda>fits.
          Inr (if \<not> fits then Some OAllocationLimit else None)))
      | KRecall \<Rightarrow>
          and_then (check_recall_shape r) (\<lambda>_.
          and_then (accepted_principal (lg_position lg)) (\<lambda>accepted.
          Inr (if accepted < tr_requested_recall_amount r then Some OInsufficientPrincipal else None)))
      | _ \<Rightarrow> Inl InvalidTransferKind)"

definition admit :: "pubkey \<Rightarrow> pubkey option \<Rightarrow> leg \<Rightarrow> leg_error + (admission \<times> leg)" where
  "admit transfer_key guardian lg =
     and_then (load_transfer (lg_slots lg) transfer_key InvalidTransferRecord) (\<lambda>record.
     and_then (check_quarantined record (lg_position lg)) (\<lambda>_.
     and_then (admission_terms record lg) (\<lambda>refusal.
     case refusal of Some outcome \<Rightarrow> Inr (admission_unchanged outcome, lg) | None \<Rightarrow>
     and_then (check_frozen lg guardian) (\<lambda>_.
     and_then (if tr_transfer_kind record = KRecall
       then and_then (reserve_recall_custody record (lg_position lg)) (\<lambda>(reserved, record, position).
         and_then (unresolved_recall_principal record) (\<lambda>remaining.
         Inr (\<lparr>ad_outcome = OAdmitted, ad_reserved_amount = Some reserved,
           ad_remaining_principal = remaining\<rparr>, record, position)))
       else Inr (admission_unchanged OAdmitted, record, lg_position lg)) (\<lambda>(admission, record, position).
     Inr (admission, lg\<lparr>lg_position := admit_transfer position,
       lg_slots := (lg_slots lg)(transfer_key \<mapsto> TransferSlot (record\<lparr>tr_status := SPending\<rparr>))\<rparr>))))))"

definition resolve_transfer ::
  "pubkey \<Rightarrow> pubkey option \<Rightarrow> bytes32 \<Rightarrow> u64 \<Rightarrow> bool \<Rightarrow> leg \<Rightarrow> leg_error + (admission \<times> leg)" where
  "resolve_transfer transfer_key guardian tid target_sequence fresh lg =
     (if \<not> fresh then Inr (admission_unchanged OExpired, lg)
      else if \<not> holds_quarantined (lg_position lg) tid target_sequence
      then Inr (admission_unchanged ONotQuarantined, lg)
      else admit transfer_key guardian lg)"

definition handle_resolve ::
  "'h runtime \<Rightarrow> pubkey \<Rightarrow> pubkey option \<Rightarrow> pubkey \<Rightarrow> pubkey \<Rightarrow> bytes \<Rightarrow> i64 \<Rightarrow> leg \<Rightarrow> leg_error + leg" where
  "handle_resolve rt verifier guardian transfer_key consumed_key bs clock lg =
     and_then (require (verifier = cf_transport_verifier (lg_config lg)) Unauthorized) (\<lambda>_.
     and_then (check_guardian lg guardian) (\<lambda>_.
     and_then (resolve_check_versions lg) (\<lambda>_.
     and_then (current_time clock) (\<lambda>now.
     and_then (validate_inbound rt bs CResolve (lg_config lg) (lg_lane lg) now) (\<lambda>v.
     case msg_body (vm_message v) of Resolve body \<Rightarrow>
       and_then (require (rv_action body = Admit) WrongResolveInstruction) (\<lambda>_.
       and_then (require (rv_config_version body = cf_config_version (lg_config lg)) InvalidConfigVersion) (\<lambda>_.
       let tid = rv_transfer_id body; target_sequence = rv_target_sequence body in
       and_then (require (transfer_key = fst (transfer_address rt (lg_key lg) tid)) InvalidTransferRecord) (\<lambda>_.
       let seq = hd_sequence (msg_header (vm_message v)) in
       and_then (check_consumable rt lg consumed_key seq) (\<lambda>bump.
       let held = holds_quarantined (lg_position lg) tid target_sequence;
         kind = (if held then ps_active_transfer_kind (lg_position lg) else KNone) in
       and_then (resolve_transfer transfer_key guardian tid target_sequence (vm_fresh v) lg) (\<lambda>(admission, lg).
       and_then (consume rt CResolve consumed_key bump seq (vm_message_id v) clock lg) (\<lambda>lg.
       let commitment = ln_message_commitment (lg_lane lg);
         lg = (case ad_reserved_amount admission of None \<Rightarrow> lg
           | Some reserved \<Rightarrow> emit (RecallCustodyReserved (lg_key lg) transfer_key tid reserved
               (ad_remaining_principal admission) clock) lg) in
       Inr (emit (ResolveProcessed (lg_key lg) transfer_key tid target_sequence kind
         (ad_outcome admission) (guardian \<noteq> None) (vm_message_id v) seq commitment clock) lg)))))))
     | _ \<Rightarrow> Inl UnsupportedMessageType)))))"

section \<open>Config update\<close>

definition config_update_check :: "leg \<Rightarrow> leg_error + unit" where
  "config_update_check lg =
     and_then (check_state_versions [cf_state_version (lg_config lg), rk_state_version (lg_risk lg),
       ln_state_version (lg_lane lg)]) (\<lambda>_.
     and_then (check_control_lane lg) (\<lambda>_.
     and_then (require (rk_config_version (lg_risk lg) = cf_config_version (lg_config lg)) InvalidRiskConfig) (\<lambda>_.
     require (\<not> cf_frozen (lg_config lg)) Frozen)))"

definition consume_expired ::
  "'h runtime \<Rightarrow> pubkey \<Rightarrow> u8 \<Rightarrow> u64 \<Rightarrow> bytes32 \<Rightarrow> i64 \<Rightarrow> leg \<Rightarrow> leg_error + leg" where
  "consume_expired rt consumed_key bump seq mid clock lg =
     and_then (consume rt CConfigUpdate consumed_key bump seq mid clock lg) (\<lambda>lg.
     Inr (emit (MessageQuarantined (lg_key lg) CConfigUpdate QExpired 0 mid seq
       (ln_message_commitment (lg_lane lg)) clock) lg))"

definition apply_config_update ::
  "'h runtime \<Rightarrow> pubkey \<Rightarrow> u8 \<Rightarrow> u64 \<Rightarrow> bytes32 \<Rightarrow> config_update_body \<Rightarrow> u64 \<Rightarrow> i64 \<Rightarrow> leg \<Rightarrow> leg_error + leg" where
  "apply_config_update rt consumed_key bump seq mid body now clock lg =
     (let previous = cf_config_version (lg_config lg); new = cu_config_version body in
      and_then (require (cu_previous_config_version body = previous) InvalidConfigVersion) (\<lambda>_.
      and_then (require (previous < new) InvalidConfigVersion) (\<lambda>_.
      and_then (require (cu_effective_timestamp body \<le> now) ConfigNotEffective) (\<lambda>_.
      and_then (check_parameters (cu_max_remote_allocation_bps body) (cu_max_upward_deviation_bps body)
        (cu_max_downward_deviation_bps body) (cu_max_report_age body) (cu_config_commitment body)) (\<lambda>_.
      let risk = (lg_risk lg)\<lparr>rk_max_remote_allocation_bps := cu_max_remote_allocation_bps body,
          rk_max_upward_deviation_bps := cu_max_upward_deviation_bps body,
          rk_max_downward_deviation_bps := cu_max_downward_deviation_bps body,
          rk_max_report_age := cu_max_report_age body,
          rk_config_commitment := cu_config_commitment body, rk_config_version := new,
          rk_last_update_at := clock\<rparr> in
      and_then (consume rt CConfigUpdate consumed_key bump seq mid clock
        (lg\<lparr>lg_risk := risk, lg_config := (lg_config lg)\<lparr>cf_config_version := new\<rparr>\<rparr>)) (\<lambda>lg.
      Inr (emit (ConfigUpdated (lg_key lg) (fst (risk_config_address rt (lg_key lg))) mid seq
        previous new (ln_message_commitment (lg_lane lg)) clock) lg)))))))"

definition handle_config_update ::
  "'h runtime \<Rightarrow> pubkey \<Rightarrow> pubkey \<Rightarrow> bytes \<Rightarrow> i64 \<Rightarrow> leg \<Rightarrow> leg_error + leg" where
  "handle_config_update rt verifier consumed_key bs clock lg =
     and_then (require (verifier = cf_transport_verifier (lg_config lg)) Unauthorized) (\<lambda>_.
     and_then (config_update_check lg) (\<lambda>_.
     and_then (current_time clock) (\<lambda>now.
     and_then (validate_inbound rt bs CConfigUpdate (lg_config lg) (lg_lane lg) now) (\<lambda>v.
     case msg_body (vm_message v) of ConfigUpdate body \<Rightarrow>
       let seq = hd_sequence (msg_header (vm_message v)); mid = vm_message_id v in
       and_then (check_consumable rt lg consumed_key seq) (\<lambda>bump.
       if \<not> vm_fresh v then consume_expired rt consumed_key bump seq mid clock lg
       else apply_config_update rt consumed_key bump seq mid body now clock lg)
     | _ \<Rightarrow> Inl UnsupportedMessageType))))"

end
