(* ===== verification/Leg_Publish.thy ===== *)
theory Leg_Publish
  imports Leg_Inbound
begin

text \<open>
  The outbound side (\<open>instructions/{publication,publish_report,publish_recall_sent,settlement}.rs\<close>):
  the record of a published message, reports, recall notices, and the closes and recoveries that
  publish their settlement in the same instruction.
\<close>

section \<open>Publication records\<close>

definition create_report_record ::
  "'h runtime \<Rightarrow> pubkey \<Rightarrow> pubkey \<Rightarrow> u32 \<Rightarrow> u64 \<Rightarrow> report_type \<Rightarrow> built_message \<Rightarrow> bytes32 \<Rightarrow> u64 \<Rightarrow> i64 \<Rightarrow>
   slots \<Rightarrow> leg_error + slots" where
  "create_report_record rt report_key remote_config lane seq kind built related epoch published_at sl =
     (let (expected, bump) = report_address rt remote_config lane seq in
      and_then (require (report_key = expected) InvalidReportRecord) (\<lambda>_.
      and_then (check_available sl report_key ReportAlreadyPublished InvalidReportRecord) (\<lambda>_.
      create_and_write sl report_key (ReportSlot
        \<lparr>rp_state_version = STATE_VERSION, rp_bump = bump, rp_report_type = kind, rp_lane_id = lane,
         rp_sequence = seq, rp_message_id = bm_message_id built, rp_body_hash = bm_body_hash built,
         rp_previous_commitment = bm_previous_commitment built,
         rp_next_commitment = bm_next_commitment built, rp_encoded_len = bm_encoded_len built,
         rp_published_at = published_at, rp_related_transfer_id = related, rp_epoch_id = epoch\<rparr>))))"

definition create_recall_marker ::
  "'h runtime \<Rightarrow> pubkey \<Rightarrow> pubkey \<Rightarrow> bytes32 \<Rightarrow> u64 \<Rightarrow> bytes32 \<Rightarrow> i64 \<Rightarrow> slots \<Rightarrow> leg_error + slots" where
  "create_recall_marker rt marker_key remote_config tid seq mid published_at sl =
     (let (expected, bump) = marker_address rt remote_config tid in
      and_then (require (marker_key = expected) InvalidRecallIdentity) (\<lambda>_.
      and_then (check_available sl marker_key RecallSentAlreadyPublished InvalidRecallIdentity) (\<lambda>_.
      create_and_write sl marker_key (MarkerSlot
        \<lparr>mk_state_version = STATE_VERSION, mk_bump = bump, mk_transfer_id = tid,
         mk_report_sequence = seq, mk_message_id = mid, mk_published_at = published_at\<rparr>))))"

definition check_outbound_lane :: "leg \<Rightarrow> leg_error + unit" where
  "check_outbound_lane lg =
     require (ob_lane_id (lg_outbound lg) = cf_report_lane_id (lg_config lg)) InvalidOutboundLane"

definition outbound_context_of :: "leg \<Rightarrow> u64 \<Rightarrow> outbound_context" where
  "outbound_context_of lg now =
     \<lparr>oc_config = lg_config lg, oc_lane = lg_outbound lg,
      oc_max_report_age = rk_max_report_age (lg_risk lg), oc_now = now\<rparr>"

section \<open>Reports\<close>

definition report_check_versions :: "leg \<Rightarrow> leg_error + unit" where
  "report_check_versions lg =
     and_then (check_state_versions [cf_state_version (lg_config lg), rk_state_version (lg_risk lg),
       st_state_version (lg_strategy lg), ps_state_version (lg_position lg),
       ob_state_version (lg_outbound lg)]) (\<lambda>_.
     check_outbound_lane lg)"

definition remote_principal :: "remote_position \<Rightarrow> leg_error + u64" where
  "remote_principal p =
     ok_or (case checked_add_word (ps_attributed_principal p) (ps_deployed_principal p) of
       None \<Rightarrow> None
     | Some partial \<Rightarrow> checked_add_word partial (ps_recalled_custody p)) ArithmeticOverflow"

definition in_flight_attribution ::
  "'h runtime \<Rightarrow> pubkey \<Rightarrow> slots \<Rightarrow> remote_position \<Rightarrow> pubkey option \<Rightarrow> leg_error + u64" where
  "in_flight_attribution rt remote_config sl p active_record =
     (if ps_active_transfer_kind p \<noteq> KAllocate then Inr 0
      else and_then (ok_or active_record MissingActiveTransferRecord) (\<lambda>key.
        and_then (load_transfer sl key InvalidTransferRecord) (\<lambda>record.
        and_then (ok_or (rt_create_program_address rt
            (transfer_seeds remote_config (ps_active_transfer_id p) @ [[tr_bump record]])
            (rt_program_id rt)) InvalidTransferRecord) (\<lambda>address.
        and_then (require (key = address) InvalidTransferRecord) (\<lambda>_.
        and_then (require (tr_transfer_kind record = KAllocate \<and>
          tr_transfer_id record = ps_active_transfer_id p) InvalidTransferRecord) (\<lambda>_.
        Inr (tr_attributed_amount record)))))))"

definition process_publish_remote_report ::
  "'h runtime \<Rightarrow> pubkey \<Rightarrow> pubkey \<Rightarrow> pubkey \<Rightarrow> pubkey option \<Rightarrow> u64 \<Rightarrow> i64 \<Rightarrow> leg \<Rightarrow> leg_error + leg" where
  "process_publish_remote_report rt custody_key adapter_state report_key active_record epoch_id clock lg =
     and_then (require (custody_key = cf_custody_token_account (lg_config lg)) InvalidCustodyAccount) (\<lambda>_.
     and_then (require (adapter_state = st_adapter_state (lg_strategy lg)) InvalidAdapterState) (\<lambda>_.
     and_then (load_token (lg_world lg) custody_key) (\<lambda>custody.
     and_then (report_check_versions lg) (\<lambda>_.
     and_then (check_layout (lg_world lg) adapter_state (st_adapter_program (lg_strategy lg))) (\<lambda>_.
     and_then (read_principal (lg_world lg) adapter_state) (\<lambda>adapter_principal.
     and_then (reconcile (lg_position lg) (ta_amount custody)) (\<lambda>(_, position).
     and_then (check_deployed position adapter_principal) (\<lambda>_.
     and_then (in_flight_attribution rt (lg_key lg) (lg_slots lg) position active_record) (\<lambda>in_flight.
     and_then (remote_principal position) (\<lambda>principal.
     let reported = saturating_sub_word principal in_flight in
     and_then (state_commitment rt
       \<lparr>sv_remote_config = lg_key lg, sv_config_version = cf_config_version (lg_config lg),
        sv_frozen = cf_frozen (lg_config lg), sv_position = position,
        sv_custody_balance = ta_amount custody, sv_adapter_principal = adapter_principal\<rparr>) (\<lambda>commitment.
     and_then (current_time clock) (\<lambda>now.
     and_then (build_remote_report rt (outbound_context_of lg now)
       \<lparr>rf_epoch_id = epoch_id, rf_remote_principal = reported,
        rf_realized_loss = ps_cumulative_realized_loss position,
        rf_unattributed_balance = ps_unattributed_custody position,
        rf_latest_completed_transfer_id = ps_latest_completed_transfer_id position,
        rf_config_version = cf_config_version (lg_config lg),
        rf_remote_state_commitment = commitment\<rparr>) (\<lambda>built.
     let lane = ob_lane_id (lg_outbound lg); seq = ob_next_sequence (lg_outbound lg) in
     and_then (create_report_record rt report_key (lg_key lg) lane seq PRemoteReport built
       (ps_latest_completed_transfer_id position) epoch_id clock (lg_slots lg)) (\<lambda>sl.
     and_then (lane_advance (lg_outbound lg) PRemoteReport (bm_next_commitment built) clock) (\<lambda>outbound.
     Inr (emit (RemoteReportPublished (lg_key lg) report_key lane seq (bm_message_id built)
         (bm_body_hash built) (bm_previous_commitment built) (bm_next_commitment built)
         (bm_encoded_len built) (as_bytes (bm_encoded built)) clock)
       (lg\<lparr>lg_position := position, lg_slots := sl, lg_outbound := outbound\<rparr>)))))))))))))))))"

section \<open>Recall notices\<close>

definition notice_check_versions :: "leg \<Rightarrow> transfer_record \<Rightarrow> leg_error + unit" where
  "notice_check_versions lg record =
     and_then (check_state_versions [cf_state_version (lg_config lg), rk_state_version (lg_risk lg),
       tr_state_version record, ob_state_version (lg_outbound lg)]) (\<lambda>_.
     check_outbound_lane lg)"

definition check_eligible :: "transfer_record \<Rightarrow> u64 \<Rightarrow> leg_error + u64" where
  "check_eligible r now =
     and_then (require (tr_transfer_kind r = KRecall) InvalidRecallIdentity) (\<lambda>_.
     and_then (require (tr_status r = SComplete) RecallNotComplete) (\<lambda>_.
     and_then (ok_or (checked_add_word (tr_assets_sent r) (tr_realized_loss r)) ArithmeticOverflow) (\<lambda>settled.
     and_then (require (settled = tr_requested_recall_amount r) RecallNotComplete) (\<lambda>_.
     and_then (require (tr_completed_at r \<noteq> 0) InvalidPublicationTimestamp) (\<lambda>_.
     and_then (ok_or (u64_of_i64 (tr_completed_at r)) InvalidPublicationTimestamp) (\<lambda>sent_timestamp.
     and_then (require (sent_timestamp \<le> now) InvalidPublicationTimestamp) (\<lambda>_.
     Inr sent_timestamp)))))))"

definition check_unpublished ::
  "'h runtime \<Rightarrow> slots \<Rightarrow> pubkey \<Rightarrow> pubkey \<Rightarrow> bytes32 \<Rightarrow> leg_error + unit" where
  "check_unpublished rt sl marker_key remote_config tid =
     and_then (require (marker_key = fst (marker_address rt remote_config tid)) InvalidRecallIdentity) (\<lambda>_.
     require (sl marker_key = None \<or> sl marker_key = Some ForeignSlot) RecallSentAlreadyPublished)"

definition process_publish_recall_sent ::
  "'h runtime \<Rightarrow> pubkey \<Rightarrow> pubkey \<Rightarrow> pubkey \<Rightarrow> i64 \<Rightarrow> leg \<Rightarrow> leg_error + leg" where
  "process_publish_recall_sent rt transfer_key report_key marker_key clock lg =
     and_then (account_transfer rt (lg_key lg) (lg_slots lg) transfer_key) (\<lambda>record.
     and_then (notice_check_versions lg record) (\<lambda>_.
     and_then (current_time clock) (\<lambda>now.
     and_then (check_eligible record now) (\<lambda>sent_timestamp.
     and_then (check_unpublished rt (lg_slots lg) marker_key (lg_key lg) (tr_transfer_id record)) (\<lambda>_.
     and_then (build_recall_sent rt (outbound_context_of lg now)
       \<lparr>sf_transfer_id = tr_transfer_id record,
        sf_principal_sent = tr_requested_recall_amount record,
        sf_actual_amount_sent = tr_assets_sent record, sf_realized_loss = tr_realized_loss record,
        sf_destination_reference = cf_outbound_escrow (lg_config lg),
        sf_sent_timestamp = sent_timestamp,
        sf_config_version = cf_config_version (lg_config lg)\<rparr>) (\<lambda>built.
     let lane = ob_lane_id (lg_outbound lg); seq = ob_next_sequence (lg_outbound lg) in
     and_then (create_report_record rt report_key (lg_key lg) lane seq PRecallSent built
       (tr_transfer_id record) 0 clock (lg_slots lg)) (\<lambda>sl.
     and_then (create_recall_marker rt marker_key (lg_key lg) (tr_transfer_id record) seq
       (bm_message_id built) clock sl) (\<lambda>sl.
     and_then (lane_advance (lg_outbound lg) PRecallSent (bm_next_commitment built) clock) (\<lambda>outbound.
     Inr (emit (RecallSentPublished (lg_key lg) report_key (tr_transfer_id record) lane seq
         (bm_message_id built) (bm_body_hash built) (bm_previous_commitment built)
         (bm_next_commitment built) (bm_encoded_len built) (as_bytes (bm_encoded built)) clock)
       (lg\<lparr>lg_slots := sl, lg_outbound := outbound\<rparr>)))))))))))"

section \<open>Closes and recoveries\<close>

record settlement =
  se_kind :: settlement_kind
  se_claim_amount :: u128
  se_credited_amount :: u64
  se_impaired_outstanding :: u128

record ledger_slot =
  ls_ledger :: transport_ledger
  ls_exists :: bool

definition settlement_check_versions :: "leg \<Rightarrow> leg_error + unit" where
  "settlement_check_versions lg =
     and_then (check_state_versions [cf_state_version (lg_config lg), rk_state_version (lg_risk lg),
       st_state_version (lg_strategy lg), ps_state_version (lg_position lg),
       ln_state_version (lg_lane lg), ob_state_version (lg_outbound lg)]) (\<lambda>_.
     and_then (check_control_lane lg) (\<lambda>_.
     check_outbound_lane lg))"

definition load_ledger :: "slots \<Rightarrow> pubkey \<Rightarrow> pubkey \<Rightarrow> u8 \<Rightarrow> i64 \<Rightarrow> leg_error + ledger_slot" where
  "load_ledger sl key address bump now =
     and_then (require (key = address) InvalidTransportLedger) (\<lambda>_.
     case sl key of
       Some (LedgerSlot ledger) \<Rightarrow>
         and_then (require (tl_state_version ledger = STATE_VERSION) InvalidStateVersion) (\<lambda>_.
         and_then (check_balanced ledger) (\<lambda>_.
         Inr \<lparr>ls_ledger = ledger, ls_exists = True\<rparr>))
     | Some ForeignSlot \<Rightarrow> Inl InvalidTransportLedger
     | Some _ \<Rightarrow> Inl Framework
     | None \<Rightarrow> Inr \<lparr>ls_ledger = ledger_empty bump now, ls_exists = False\<rparr>)"

text \<open>What a close does to the position and the record, by the status of the allocation.\<close>

definition close_pending ::
  "u64 \<Rightarrow> i64 \<Rightarrow> transfer_record \<Rightarrow> remote_position \<Rightarrow> leg_error + (transfer_record \<times> remote_position)" where
  "close_pending custody_amount now record position =
     and_then (require (holds_allocation position (tr_transfer_id record) (tr_message_sequence record) \<and>
       ps_active_transfer_status position = SPending) InvalidTransferRecord) (\<lambda>_.
     and_then (reconcile position custody_amount) (\<lambda>(_, position).
     and_then (outstanding_allocation record) (\<lambda>outstanding.
     let attributed_now = min outstanding (ps_unattributed_custody position) in
     and_then (ok_or (checked_sub_word (ps_unattributed_custody position) attributed_now) ArithmeticOverflow) (\<lambda>unattributed.
     and_then (ok_or (checked_add_word (ps_attributed_principal position) attributed_now) ArithmeticOverflow) (\<lambda>attributed.
     and_then (ok_or (checked_add_word (tr_attributed_amount record) attributed_now) ArithmeticOverflow) (\<lambda>credited.
     let position = position\<lparr>ps_unattributed_custody := unattributed, ps_attributed_principal := attributed\<rparr> in
     and_then (check_identity position custody_amount) (\<lambda>_.
     Inr (record\<lparr>tr_attributed_amount := credited, tr_completed_at := now\<rparr>, close_transfer position))))))))"

definition close_quarantined ::
  "i64 \<Rightarrow> transfer_record \<Rightarrow> remote_position \<Rightarrow> leg_error + (transfer_record \<times> remote_position)" where
  "close_quarantined now record position =
     and_then (require (holds_allocation position (tr_transfer_id record) (tr_message_sequence record) \<and>
       ps_active_transfer_status position = SQuarantined) InvalidTransferRecord) (\<lambda>_.
     and_then (require (tr_attributed_amount record = 0) InvalidTransferRecord) (\<lambda>_.
     Inr (record\<lparr>tr_completed_at := now\<rparr>, close_transfer position)))"

definition close_complete ::
  "transfer_record \<Rightarrow> remote_position \<Rightarrow> leg_error + (transfer_record \<times> remote_position)" where
  "close_complete record position =
     and_then (check_no_active_transfer position) (\<lambda>_.
     and_then (require (ps_latest_completed_transfer_id position = tr_transfer_id record) InvalidTransferRecord) (\<lambda>_.
     and_then (require (tr_attributed_amount record = tr_authorized_amount record) InvalidTransferRecord) (\<lambda>_.
     Inr (record, position))))"

definition settle_close_leg ::
  "pubkey \<Rightarrow> resolve_body \<Rightarrow> u64 \<Rightarrow> transport_ledger \<Rightarrow> i64 \<Rightarrow> leg \<Rightarrow>
   leg_error + (settlement \<times> transport_ledger \<times> leg)" where
  "settle_close_leg transfer_key body custody_amount ledger now lg =
     and_then (load_transfer (lg_slots lg) transfer_key InvalidTransferRecord) (\<lambda>record.
     and_then (require (tr_state_version record = STATE_VERSION) InvalidStateVersion) (\<lambda>_.
     and_then (require (tr_transfer_kind record = KAllocate) InvalidTransferKind) (\<lambda>_.
     and_then (require (tr_transfer_id record = rv_transfer_id body \<and>
       tr_message_sequence record = rv_target_sequence body) InvalidTransferRecord) (\<lambda>_.
     and_then (check_allocation_shape record) (\<lambda>_.
     and_then (case tr_status record of
         SPending \<Rightarrow> close_pending custody_amount now record (lg_position lg)
       | SQuarantined \<Rightarrow> close_quarantined now record (lg_position lg)
       | SComplete \<Rightarrow> close_complete record (lg_position lg)
       | SNone \<Rightarrow> Inl TransferNotClosable
       | SClosed \<Rightarrow> Inl TransferNotClosable) (\<lambda>(record, position).
     and_then (require (tr_attributed_amount record \<le> tr_authorized_amount record)
       AttributionExceedsAuthorization) (\<lambda>_.
     let record = record\<lparr>tr_status := SClosed\<rparr> in
     and_then (record_close ledger (tr_authorized_amount record) (tr_attributed_amount record)
       (tr_message_sequence record)) (\<lambda>(_, ledger).
     Inr (\<lparr>se_kind = Closed, se_claim_amount = u128_of_u64 (tr_authorized_amount record),
         se_credited_amount = tr_attributed_amount record,
         se_impaired_outstanding = tl_impaired_outstanding ledger\<rparr>, ledger,
       lg\<lparr>lg_position := position,
         lg_slots := (lg_slots lg)(transfer_key \<mapsto> TransferSlot record)\<rparr>)))))))))"

definition settle_recover_leg ::
  "pubkey \<Rightarrow> resolve_body \<Rightarrow> u8 \<Rightarrow> u64 \<Rightarrow> u64 \<Rightarrow> transport_ledger \<Rightarrow> i64 \<Rightarrow> leg \<Rightarrow>
   leg_error + (settlement \<times> transport_ledger \<times> leg)" where
  "settle_recover_leg transfer_key body record_bump seq custody_amount ledger now lg =
     and_then (require (0 < tl_impaired_outstanding ledger \<and>
       rv_target_sequence body = tl_last_impaired_sequence ledger) RecoveryStateMismatch) (\<lambda>_.
     and_then (check_no_active_transfer (lg_position lg)) (\<lambda>_.
     and_then (check_available (lg_slots lg) transfer_key TransferAlreadyExists InvalidTransferRecord) (\<lambda>_.
     and_then (reconcile (lg_position lg) custody_amount) (\<lambda>(_, position).
     and_then (committed_principal position) (\<lambda>committed.
     let headroom = saturating_sub_word (st_max_remote_principal (lg_strategy lg)) committed;
       pool = (case u64_of_u128 (tl_impaired_outstanding ledger) of None \<Rightarrow> - 1 | Some n \<Rightarrow> n);
       credited = min (min (ps_unattributed_custody position) pool) headroom in
     and_then (ok_or (checked_sub_word (ps_unattributed_custody position) credited) ArithmeticOverflow) (\<lambda>unattributed.
     and_then (ok_or (checked_add_word (ps_attributed_principal position) credited) ArithmeticOverflow) (\<lambda>attributed.
     let position = position\<lparr>ps_unattributed_custody := unattributed, ps_attributed_principal := attributed\<rparr> in
     and_then (check_identity position custody_amount) (\<lambda>_.
     let claim_amount = tl_impaired_outstanding ledger in
     and_then (record_recovery ledger credited) (\<lambda>ledger.
     and_then (create_and_write (lg_slots lg) transfer_key
       (TransferSlot (new_recovery record_bump (rv_transfer_id body) seq credited now))) (\<lambda>sl.
     Inr (\<lparr>se_kind = Recovered, se_claim_amount = claim_amount, se_credited_amount = credited,
         se_impaired_outstanding = tl_impaired_outstanding ledger\<rparr>, ledger,
       lg\<lparr>lg_position := position, lg_slots := sl\<rparr>)))))))))))"

definition store_ledger :: "slots \<Rightarrow> pubkey \<Rightarrow> bool \<Rightarrow> transport_ledger \<Rightarrow> leg_error + slots" where
  "store_ledger sl key ledger_exists ledger =
     (if ledger_exists then Inr (sl(key \<mapsto> LedgerSlot ledger))
      else create_and_write sl key (LedgerSlot ledger))"

text \<open>The settlement message, its record and the outbound lane.\<close>

definition publish_settlement ::
  "'h runtime \<Rightarrow> pubkey \<Rightarrow> bytes32 \<Rightarrow> settlement \<Rightarrow> u64 \<Rightarrow> i64 \<Rightarrow> leg \<Rightarrow> leg_error + (built_message \<times> leg)" where
  "publish_settlement rt report_key tid s now clock lg =
     and_then (build_transport_settlement rt (outbound_context_of lg now)
       \<lparr>tf_transfer_id = tid, tf_kind = se_kind s, tf_claim_amount = se_claim_amount s,
        tf_credited_amount = se_credited_amount s, tf_impaired_outstanding = se_impaired_outstanding s,
        tf_config_version = cf_config_version (lg_config lg)\<rparr>) (\<lambda>built.
     and_then (create_report_record rt report_key (lg_key lg) (ob_lane_id (lg_outbound lg))
       (ob_next_sequence (lg_outbound lg)) PTransportSettlement built tid 0 clock (lg_slots lg)) (\<lambda>sl.
     and_then (lane_advance (lg_outbound lg) PTransportSettlement (bm_next_commitment built) clock) (\<lambda>outbound.
     Inr (built, lg\<lparr>lg_slots := sl, lg_outbound := outbound\<rparr>))))"

record settlement_accounts =
  sa_transport_verifier :: pubkey
  sa_guardian :: "pubkey option"
  sa_transfer_record :: pubkey
  sa_transport_ledger :: pubkey
  sa_custody_token_account :: pubkey
  sa_consumed_message :: pubkey
  sa_report_record :: pubkey

definition handle_settlement ::
  "'h runtime \<Rightarrow> settlement_accounts \<Rightarrow> bytes \<Rightarrow> i64 \<Rightarrow> leg \<Rightarrow> leg_error + leg" where
  "handle_settlement rt a bs clock lg =
     and_then (require (sa_transport_verifier a = cf_transport_verifier (lg_config lg)) Unauthorized) (\<lambda>_.
     and_then (require (sa_custody_token_account a = cf_custody_token_account (lg_config lg)) InvalidCustodyAccount) (\<lambda>_.
     and_then (load_token (lg_world lg) (sa_custody_token_account a)) (\<lambda>custody.
     and_then (check_guardian lg (sa_guardian a)) (\<lambda>_.
     and_then (settlement_check_versions lg) (\<lambda>_.
     and_then (current_time clock) (\<lambda>now.
     and_then (validate_inbound rt bs CResolve (lg_config lg) (lg_lane lg) now) (\<lambda>v.
     case msg_body (vm_message v) of Resolve body \<Rightarrow>
       and_then (require (rv_action body \<noteq> Admit) WrongResolveInstruction) (\<lambda>_.
       and_then (require (rv_config_version body = cf_config_version (lg_config lg)) InvalidConfigVersion) (\<lambda>_.
       let tid = rv_transfer_id body; (address, record_bump) = transfer_address rt (lg_key lg) tid in
       and_then (require (sa_transfer_record a = address) InvalidTransferRecord) (\<lambda>_.
       let seq = hd_sequence (msg_header (vm_message v)) in
       and_then (check_consumable rt lg (sa_consumed_message a) seq) (\<lambda>bump.
       and_then (check_frozen lg (sa_guardian a)) (\<lambda>_.
       let (ledger_key, ledger_bump) = ledger_address rt (lg_key lg) in
       and_then (load_ledger (lg_slots lg) (sa_transport_ledger a) ledger_key ledger_bump clock) (\<lambda>slot.
       and_then (case rv_action body of
           Close \<Rightarrow> settle_close_leg (sa_transfer_record a) body (ta_amount custody) (ls_ledger slot) clock lg
         | Recover \<Rightarrow>
             and_then (require (ls_exists slot) RecoveryStateMismatch) (\<lambda>_.
             settle_recover_leg (sa_transfer_record a) body record_bump seq (ta_amount custody)
               (ls_ledger slot) clock lg)
         | Admit \<Rightarrow> Inl WrongResolveInstruction) (\<lambda>(s, ledger, lg).
       and_then (store_ledger (lg_slots lg) (sa_transport_ledger a) (ls_exists slot) ledger) (\<lambda>sl.
       let lane = ob_lane_id (lg_outbound lg); report_sequence = ob_next_sequence (lg_outbound lg) in
       and_then (publish_settlement rt (sa_report_record a) tid s now clock (lg\<lparr>lg_slots := sl\<rparr>)) (\<lambda>(built, lg).
       and_then (consume rt CResolve (sa_consumed_message a) bump seq (vm_message_id v) clock lg) (\<lambda>lg.
       Inr (emit (SettlementProcessed (lg_key lg) (sa_transfer_record a) tid (rv_target_sequence body)
             (kind_to_u8 (se_kind s)) (se_claim_amount s) (se_credited_amount s)
             (se_impaired_outstanding s) (\<not> vm_fresh v) (sa_guardian a \<noteq> None) (vm_message_id v) seq
             (ln_message_commitment (lg_lane lg)) clock)
         (emit (TransportSettlementPublished (lg_key lg) (sa_report_record a) tid lane report_sequence
             (bm_message_id built) (bm_body_hash built) (bm_previous_commitment built)
             (bm_next_commitment built) (bm_encoded_len built) (as_bytes (bm_encoded built)) clock) lg))))))))))))
     | _ \<Rightarrow> Inl UnsupportedMessageType)))))))"

end
