(* ===== verification/Leg_Ops.thy ===== *)
theory Leg_Ops
  imports Leg_Publish
begin

text \<open>
  The remaining instructions: custody and the strategy
  (\<open>instructions/{reconcile,attribute,deploy,withdraw,send}.rs\<close>), the emergency stop, the watermark
  and record closing (\<open>freeze.rs\<close>, \<open>watermark.rs\<close>, \<open>close_record.rs\<close>), the adoption of the risk
  authority (\<open>deploy_authorization.rs\<close>), and the one time setup of every account
  (\<open>initialize.rs\<close>, \<open>control_state.rs\<close>, \<open>strategy_state.rs\<close>, \<open>outbound_state.rs\<close>).
\<close>

section \<open>Custody\<close>

definition process_reconcile_custody ::
  "'h runtime \<Rightarrow> pubkey \<Rightarrow> i64 \<Rightarrow> leg \<Rightarrow> leg_error + leg" where
  "process_reconcile_custody rt custody_key clock lg =
     and_then (require (custody_key = cf_custody_token_account (lg_config lg)) InvalidCustodyAccount) (\<lambda>_.
     and_then (load_token (lg_world lg) custody_key) (\<lambda>custody.
     and_then (require (ps_state_version (lg_position lg) = STATE_VERSION) InvalidStateVersion) (\<lambda>_.
     and_then (reconcile (lg_position lg) (ta_amount custody)) (\<lambda>(surplus, position).
     Inr (emit (CustodyReconciled (lg_key lg) (fst (remote_position_address rt (lg_key lg))) surplus
       (ps_unattributed_custody position) clock) (lg\<lparr>lg_position := position\<rparr>))))))"

definition attribute_custody ::
  "u64 \<Rightarrow> transfer_record \<Rightarrow> remote_position \<Rightarrow> leg_error + (u64 \<times> transfer_record \<times> remote_position)" where
  "attribute_custody custody_amount record position =
     and_then (reconcile position custody_amount) (\<lambda>(_, position).
     and_then (outstanding_allocation record) (\<lambda>outstanding.
     let attributed_now = min outstanding (ps_unattributed_custody position) in
     and_then (require (attributed_now \<noteq> 0) NoAttributableAssets) (\<lambda>_.
     and_then (ok_or (checked_sub_word (ps_unattributed_custody position) attributed_now) ArithmeticOverflow) (\<lambda>unattributed.
     and_then (ok_or (checked_add_word (ps_attributed_principal position) attributed_now) ArithmeticOverflow) (\<lambda>attributed.
     and_then (ok_or (checked_add_word (tr_attributed_amount record) attributed_now) ArithmeticOverflow) (\<lambda>credited.
     and_then (require (credited \<le> tr_authorized_amount record) AttributionExceedsAuthorization) (\<lambda>_.
     let position = position\<lparr>ps_unattributed_custody := unattributed, ps_attributed_principal := attributed\<rparr> in
     and_then (check_identity position custody_amount) (\<lambda>_.
     Inr (attributed_now, record\<lparr>tr_attributed_amount := credited\<rparr>, position)))))))))"

definition process_attribute_allocation ::
  "'h runtime \<Rightarrow> pubkey \<Rightarrow> pubkey \<Rightarrow> pubkey option \<Rightarrow> i64 \<Rightarrow> leg \<Rightarrow> leg_error + leg" where
  "process_attribute_allocation rt transfer_key custody_key guardian clock lg =
     and_then (require (custody_key = cf_custody_token_account (lg_config lg)) InvalidCustodyAccount) (\<lambda>_.
     and_then (account_transfer rt (lg_key lg) (lg_slots lg) transfer_key) (\<lambda>record.
     and_then (load_token (lg_world lg) custody_key) (\<lambda>custody.
     and_then (check_guardian lg guardian) (\<lambda>_.
     and_then (require (ps_state_version (lg_position lg) = STATE_VERSION) InvalidStateVersion) (\<lambda>_.
     and_then (check_frozen lg guardian) (\<lambda>_.
     and_then (check_active record KAllocate (lg_position lg)) (\<lambda>_.
     and_then (check_allocation_shape record) (\<lambda>_.
     and_then (attribute_custody (ta_amount custody) record (lg_position lg)) (\<lambda>(attributed_now, record, position).
     let lg = emit (AllocationAttributed (lg_key lg) transfer_key (tr_transfer_id record) attributed_now
         (tr_attributed_amount record) (tr_authorized_amount record) (ps_unattributed_custody position)
         clock) lg in
     if tr_attributed_amount record = tr_authorized_amount record then
       Inr (emit (AllocationCompleted (lg_key lg) transfer_key (tr_transfer_id record)
           (tr_authorized_amount record) (tr_attributed_amount record) clock)
         (lg\<lparr>lg_position := complete_transfer (tr_transfer_id record) clock position,
           lg_slots := (lg_slots lg)(transfer_key \<mapsto>
             TransferSlot (record\<lparr>tr_status := SComplete, tr_completed_at := clock\<rparr>))\<rparr>))
     else Inr (lg\<lparr>lg_position := position,
       lg_slots := (lg_slots lg)(transfer_key \<mapsto> TransferSlot record)\<rparr>))))))))))"

section \<open>Strategy\<close>

record strategy_accounts =
  sk_custody_token_account :: pubkey
  sk_asset_mint :: pubkey
  sk_adapter_program :: pubkey
  sk_adapter_state :: pubkey
  sk_adapter_authority :: pubkey
  sk_adapter_token_vault :: pubkey
  sk_token_program :: pubkey

definition check_strategy_accounts :: "strategy_accounts \<Rightarrow> leg \<Rightarrow> leg_error + unit" where
  "check_strategy_accounts a lg =
     and_then (require (sk_custody_token_account a = cf_custody_token_account (lg_config lg)) InvalidCustodyAccount) (\<lambda>_.
     and_then (require (sk_asset_mint a = cf_asset_mint (lg_config lg)) InvalidMint) (\<lambda>_.
     and_then (require (sk_adapter_program a = st_adapter_program (lg_strategy lg)) InvalidAdapterProgram) (\<lambda>_.
     and_then (require (sk_adapter_state a = st_adapter_state (lg_strategy lg)) InvalidAdapterState) (\<lambda>_.
     and_then (require (sk_adapter_authority a = st_adapter_authority (lg_strategy lg)) InvalidAdapterAuthority) (\<lambda>_.
     require (sk_adapter_token_vault a = st_adapter_token_vault (lg_strategy lg)) InvalidAdapterVault)))))"

text \<open>\<open>seeds = [CUSTODY_AUTHORITY_SEED, config]\<close> with the stored bump proves the authority's address.\<close>

definition custody_authority_account :: "'h runtime \<Rightarrow> leg \<Rightarrow> leg_error + pubkey" where
  "custody_authority_account rt lg =
     ok_or (rt_create_program_address rt [CUSTODY_AUTHORITY_SEED, to_be_bytes (lg_key lg),
       [cf_custody_authority_bump (lg_config lg)]] (rt_program_id rt)) Framework"

definition strategy_call :: "'h runtime \<Rightarrow> strategy_accounts \<Rightarrow> leg \<Rightarrow> adapter_call" where
  "strategy_call rt a lg =
     \<lparr>ac_adapter_program = sk_adapter_program a, ac_adapter_state = sk_adapter_state a,
      ac_adapter_authority = sk_adapter_authority a,
      ac_adapter_token_vault = sk_adapter_token_vault a,
      ac_caller = fst (adapter_caller_address rt (lg_key lg)),
      ac_custody_token_account = sk_custody_token_account a, ac_asset_mint = sk_asset_mint a,
      ac_token_program = sk_token_program a\<rparr>"

record balances =
  bl_custody :: token_account
  bl_vault :: token_account
  bl_principal :: u64

text \<open>What the leg reads back after an adapter call.\<close>

definition reload :: "pubkey \<Rightarrow> strategy_accounts \<Rightarrow> world \<Rightarrow> leg_error + balances" where
  "reload custody_authority a w =
     and_then (load_token w (sk_custody_token_account a)) (\<lambda>custody.
     and_then (check_control custody custody_authority) (\<lambda>_.
     and_then (load_token w (sk_adapter_token_vault a)) (\<lambda>vault.
     and_then (read_principal w (sk_adapter_state a)) (\<lambda>principal.
     Inr \<lparr>bl_custody = custody, bl_vault = vault, bl_principal = principal\<rparr>))))"

definition settle_deploy ::
  "u64 \<Rightarrow> u64 \<Rightarrow> u64 \<Rightarrow> u64 \<Rightarrow> balances \<Rightarrow> remote_position \<Rightarrow> leg_error + remote_position" where
  "settle_deploy amount custody_before vault_before principal_before after position =
     and_then (ok_or (checked_sub_word custody_before (ta_amount (bl_custody after))) InvalidBalanceDelta) (\<lambda>custody_decrease.
     and_then (ok_or (checked_sub_word (ta_amount (bl_vault after)) vault_before) InvalidBalanceDelta) (\<lambda>vault_increase.
     and_then (ok_or (checked_sub_word (bl_principal after) principal_before) InvalidPrincipalDelta) (\<lambda>principal_increase.
     and_then (require (custody_decrease = amount) InvalidBalanceDelta) (\<lambda>_.
     and_then (require (vault_increase = custody_decrease) InvalidBalanceDelta) (\<lambda>_.
     and_then (require (principal_increase = custody_decrease) InvalidPrincipalDelta) (\<lambda>_.
     and_then (ok_or (checked_sub_word (ps_attributed_principal position) amount) InsufficientAttributedCustody) (\<lambda>attributed.
     and_then (ok_or (checked_add_word (ps_deployed_principal position) amount) ArithmeticOverflow) (\<lambda>deployed.
     let position = position\<lparr>ps_attributed_principal := attributed, ps_deployed_principal := deployed\<rparr> in
     and_then (check_identity position (ta_amount (bl_custody after))) (\<lambda>_.
     and_then (check_deployed position (bl_principal after)) (\<lambda>_.
     Inr position))))))))))"

definition process_deploy_to_strategy ::
  "'h runtime \<Rightarrow> strategy_accounts \<Rightarrow> pubkey \<Rightarrow> transaction \<Rightarrow> u64 \<Rightarrow> i64 \<Rightarrow> leg \<Rightarrow> leg_error + leg" where
  "process_deploy_to_strategy rt a receipt_key tx amount clock lg =
     and_then (check_strategy_accounts a lg) (\<lambda>_.
     and_then (custody_authority_account rt lg) (\<lambda>custody_authority.
     and_then (load_token (lg_world lg) (sk_custody_token_account a)) (\<lambda>custody.
     and_then (load_token (lg_world lg) (sk_adapter_token_vault a)) (\<lambda>vault.
     and_then (ok_or (lg_policy lg) Framework) (\<lambda>pol.
     and_then (ok_or (w_receipts (lg_world lg) receipt_key) Framework) (\<lambda>receipt.
     and_then (check_state_versions [ps_state_version (lg_position lg), st_state_version (lg_strategy lg),
       po_state_version pol]) (\<lambda>_.
     and_then (require (\<not> cf_frozen (lg_config lg)) Frozen) (\<lambda>_.
     and_then (require (sk_token_program a = cf_token_program (lg_config lg)) InvalidTokenProgram) (\<lambda>_.
     and_then (require (ta_mint vault = cf_asset_mint (lg_config lg)) InvalidAdapterVault) (\<lambda>_.
     and_then (reconcile (lg_position lg) (ta_amount custody)) (\<lambda>(_, position).
     and_then (require (amount \<noteq> 0 \<and> amount \<le> ps_attributed_principal position) InsufficientAttributedCustody) (\<lambda>_.
     and_then (read_principal (lg_world lg) (sk_adapter_state a)) (\<lambda>principal_before.
     and_then (check_deployed position principal_before) (\<lambda>_.
     let lg = lg\<lparr>lg_position := position\<rparr> in
     and_then (authorization_check rt tx pol receipt_key receipt (lg_key lg) (deployment_context_of rt lg) amount clock) (\<lambda>_.
     and_then (ok_or (rt_token_transfer rt (sk_custody_token_account a) (sk_adapter_token_vault a)
       custody_authority amount (lg_world lg)) Framework) (\<lambda>w.
     and_then (deposit_exact rt (strategy_call rt a lg) amount w) (\<lambda>w.
     and_then (reload custody_authority a w) (\<lambda>after.
     and_then (settle_deploy amount (ta_amount custody) (ta_amount vault) principal_before after position) (\<lambda>position.
     Inr (emit (AssetsDeployed (lg_key lg) (sk_adapter_state a) amount (ps_attributed_principal position)
       (ps_deployed_principal position) clock)
       (lg\<lparr>lg_position := position, lg_world := w\<rparr>)))))))))))))))))))))"

text \<open>The part of a withdrawal after the adapter call: deltas, buckets, record.\<close>

definition settle_withdraw ::
  "u64 \<Rightarrow> u64 \<Rightarrow> u64 \<Rightarrow> u64 \<Rightarrow> balances \<Rightarrow> transfer_record \<Rightarrow> remote_position \<Rightarrow>
   leg_error + ((u64 \<times> u64 \<times> u64) \<times> transfer_record \<times> remote_position)" where
  "settle_withdraw request custody_before vault_before principal_before after record position =
     and_then (ok_or (checked_sub_word principal_before (bl_principal after)) InvalidPrincipalDelta) (\<lambda>principal_reduction.
     and_then (ok_or (checked_sub_word (ta_amount (bl_custody after)) custody_before) InvalidBalanceDelta) (\<lambda>assets_returned.
     and_then (ok_or (checked_sub_word vault_before (ta_amount (bl_vault after))) InvalidBalanceDelta) (\<lambda>vault_decrease.
     and_then (require (vault_decrease = assets_returned) InvalidBalanceDelta) (\<lambda>_.
     and_then (require (principal_reduction \<le> request) InvalidPrincipalDelta) (\<lambda>_.
     and_then (require (principal_reduction \<noteq> 0) InsufficientStrategyLiquidity) (\<lambda>_.
     and_then (ok_or (checked_sub_word principal_reduction assets_returned) InvalidRealizedLoss) (\<lambda>realized_loss.
     and_then (ok_or (checked_sub_word (ps_deployed_principal position) principal_reduction) InvalidPrincipalDelta) (\<lambda>deployed.
     and_then (ok_or (checked_add_word (ps_recalled_custody position) assets_returned) ArithmeticOverflow) (\<lambda>recalled.
     and_then (ok_or (checked_add_word (ps_cumulative_realized_loss position) realized_loss) ArithmeticOverflow) (\<lambda>cumulative.
     and_then (ok_or (checked_add_word (tr_strategy_principal_resolved record) principal_reduction) ArithmeticOverflow) (\<lambda>resolved.
     and_then (ok_or (checked_add_word (tr_assets_withdrawn record) assets_returned) ArithmeticOverflow) (\<lambda>withdrawn.
     and_then (ok_or (checked_add_word (tr_realized_loss record) realized_loss) ArithmeticOverflow) (\<lambda>lost.
     and_then (ok_or (checked_add_word (tr_custody_principal_reserved record) resolved) ArithmeticOverflow) (\<lambda>explained.
     and_then (require (explained \<le> tr_requested_recall_amount record) InvalidRecallAmount) (\<lambda>_.
     let position = position\<lparr>ps_deployed_principal := deployed, ps_recalled_custody := recalled,
         ps_cumulative_realized_loss := cumulative\<rparr>;
       record = record\<lparr>tr_strategy_principal_resolved := resolved, tr_assets_withdrawn := withdrawn,
         tr_realized_loss := lost\<rparr> in
     and_then (check_identity position (ta_amount (bl_custody after))) (\<lambda>_.
     and_then (check_deployed position (bl_principal after)) (\<lambda>_.
     Inr ((principal_reduction, assets_returned, realized_loss), record, position))))))))))))))))))"

text \<open>\<open>settle_recall\<close> with the event of a completed recall, as withdraw and send share it.\<close>

definition finish_recall ::
  "pubkey \<Rightarrow> i64 \<Rightarrow> transfer_record \<Rightarrow> remote_position \<Rightarrow> leg \<Rightarrow> leg_error + leg" where
  "finish_recall transfer_key clock record position lg =
     and_then (settle_recall record position clock) (\<lambda>(settled, record, position).
     let lg = lg\<lparr>lg_position := position,
         lg_slots := (lg_slots lg)(transfer_key \<mapsto> TransferSlot record)\<rparr> in
     Inr (if settled then emit (RecallCompleted (lg_key lg) transfer_key (tr_transfer_id record)
         (tr_requested_recall_amount record) (tr_assets_sent record) (tr_realized_loss record) clock) lg
       else lg))"

definition process_withdraw_for_recall ::
  "'h runtime \<Rightarrow> strategy_accounts \<Rightarrow> pubkey \<Rightarrow> u64 \<Rightarrow> i64 \<Rightarrow> leg \<Rightarrow> leg_error + leg" where
  "process_withdraw_for_recall rt a transfer_key maximum_principal clock lg =
     and_then (check_strategy_accounts a lg) (\<lambda>_.
     and_then (account_transfer rt (lg_key lg) (lg_slots lg) transfer_key) (\<lambda>record.
     and_then (custody_authority_account rt lg) (\<lambda>custody_authority.
     and_then (load_token (lg_world lg) (sk_custody_token_account a)) (\<lambda>custody.
     and_then (load_token (lg_world lg) (sk_adapter_token_vault a)) (\<lambda>vault.
     and_then (check_state_versions [ps_state_version (lg_position lg), st_state_version (lg_strategy lg)]) (\<lambda>_.
     and_then (require (sk_token_program a = cf_token_program (lg_config lg)) InvalidTokenProgram) (\<lambda>_.
     and_then (require (ta_mint vault = cf_asset_mint (lg_config lg)) InvalidAdapterVault) (\<lambda>_.
     and_then (check_active record KRecall (lg_position lg)) (\<lambda>_.
     and_then (check_recall_shape record) (\<lambda>_.
     and_then (reconcile (lg_position lg) (ta_amount custody)) (\<lambda>(_, position).
     and_then (unresolved_recall_principal record) (\<lambda>unresolved.
     let request = min (min maximum_principal unresolved) (ps_deployed_principal position) in
     and_then (require (request \<noteq> 0) InsufficientStrategyLiquidity) (\<lambda>_.
     and_then (read_principal (lg_world lg) (sk_adapter_state a)) (\<lambda>principal_before.
     and_then (check_deployed position principal_before) (\<lambda>_.
     and_then (adapter_withdraw rt (strategy_call rt a lg) request (lg_world lg)) (\<lambda>w.
     and_then (reload custody_authority a w) (\<lambda>after.
     and_then (settle_withdraw request (ta_amount custody) (ta_amount vault) principal_before after
       record position) (\<lambda>((principal_reduction, assets_returned, realized_loss), record, position).
     finish_recall transfer_key clock record position
       (emit (StrategyWithdrawalCompleted (lg_key lg) transfer_key (tr_transfer_id record)
           principal_reduction assets_returned realized_loss (ps_deployed_principal position) clock)
         (lg\<lparr>lg_world := w\<rparr>))))))))))))))))))))"

section \<open>Send\<close>

record send_accounts =
  sd_custody_token_account :: pubkey
  sd_outbound_escrow :: pubkey
  sd_token_program :: pubkey

definition settle_send ::
  "u64 \<Rightarrow> u64 \<Rightarrow> u64 \<Rightarrow> u64 \<Rightarrow> u64 \<Rightarrow> transfer_record \<Rightarrow> remote_position \<Rightarrow>
   leg_error + (transfer_record \<times> remote_position)" where
  "settle_send amount custody_before escrow_before custody_after escrow_after record position =
     and_then (ok_or (checked_sub_word custody_before custody_after) InvalidBalanceDelta) (\<lambda>custody_decrease.
     and_then (ok_or (checked_sub_word escrow_after escrow_before) InvalidBalanceDelta) (\<lambda>escrow_increase.
     and_then (require (custody_decrease = amount) InvalidBalanceDelta) (\<lambda>_.
     and_then (require (escrow_increase = custody_decrease) InvalidBalanceDelta) (\<lambda>_.
     and_then (ok_or (checked_sub_word (ps_recalled_custody position) amount) NoRecalledCustody) (\<lambda>recalled.
     and_then (ok_or (checked_add_word (tr_assets_sent record) amount) ArithmeticOverflow) (\<lambda>sent.
     let position = position\<lparr>ps_recalled_custody := recalled\<rparr>; record = record\<lparr>tr_assets_sent := sent\<rparr> in
     and_then (check_identity position custody_after) (\<lambda>_.
     Inr (record, position))))))))"

definition process_send_recall ::
  "'h runtime \<Rightarrow> send_accounts \<Rightarrow> pubkey \<Rightarrow> u64 \<Rightarrow> i64 \<Rightarrow> leg \<Rightarrow> leg_error + leg" where
  "process_send_recall rt a transfer_key maximum_amount clock lg =
     and_then (require (sd_custody_token_account a = cf_custody_token_account (lg_config lg)) InvalidCustodyAccount) (\<lambda>_.
     and_then (require (sd_outbound_escrow a = cf_outbound_escrow (lg_config lg)) InvalidOutboundEscrow) (\<lambda>_.
     and_then (account_transfer rt (lg_key lg) (lg_slots lg) transfer_key) (\<lambda>record.
     and_then (custody_authority_account rt lg) (\<lambda>custody_authority.
     and_then (load_token (lg_world lg) (sd_custody_token_account a)) (\<lambda>custody.
     and_then (load_token (lg_world lg) (sd_outbound_escrow a)) (\<lambda>escrow.
     and_then (require (ps_state_version (lg_position lg) = STATE_VERSION) InvalidStateVersion) (\<lambda>_.
     and_then (require (sd_token_program a = cf_token_program (lg_config lg)) InvalidTokenProgram) (\<lambda>_.
     and_then (require (ta_mint escrow = cf_asset_mint (lg_config lg)) InvalidOutboundEscrow) (\<lambda>_.
     and_then (check_active record KRecall (lg_position lg)) (\<lambda>_.
     and_then (check_recall_shape record) (\<lambda>_.
     and_then (reconcile (lg_position lg) (ta_amount custody)) (\<lambda>(_, position).
     let amount = min maximum_amount (ps_recalled_custody position) in
     and_then (require (amount \<noteq> 0) NoRecalledCustody) (\<lambda>_.
     and_then (ok_or (rt_token_transfer rt (sd_custody_token_account a) (sd_outbound_escrow a)
       custody_authority amount (lg_world lg)) Framework) (\<lambda>w.
     and_then (load_token w (sd_custody_token_account a)) (\<lambda>custody_after.
     and_then (load_token w (sd_outbound_escrow a)) (\<lambda>escrow_after.
     and_then (settle_send amount (ta_amount custody) (ta_amount escrow) (ta_amount custody_after)
       (ta_amount escrow_after) record position) (\<lambda>(record, position).
     finish_recall transfer_key clock record position
       (emit (RecallAssetsSent (lg_key lg) transfer_key (tr_transfer_id record) amount
           (tr_assets_sent record) (sd_outbound_escrow a) clock)
         (lg\<lparr>lg_world := w\<rparr>)))))))))))))))))))"

section \<open>Freeze, watermark, record closing\<close>

definition process_freeze :: "pubkey \<Rightarrow> i64 \<Rightarrow> leg \<Rightarrow> leg_error + leg" where
  "process_freeze authority clock lg =
     and_then (require (is_emergency_authority (lg_config lg) authority) Unauthorized) (\<lambda>_.
     and_then (require (\<not> cf_frozen (lg_config lg)) AlreadyFrozen) (\<lambda>_.
     Inr (emit (RemoteLegFrozen (lg_key lg) authority (cf_deployment_id (lg_config lg))
         (cf_vault_id (lg_config lg)) (cf_config_version (lg_config lg)) clock)
       (lg\<lparr>lg_config := (lg_config lg)\<lparr>cf_frozen := True\<rparr>\<rparr>))))"

definition check_obligation :: "u64 \<Rightarrow> remote_position \<Rightarrow> leg_error + unit" where
  "check_obligation new_minimum_sequence p =
     and_then (require (ps_state_version p = STATE_VERSION) InvalidStateVersion) (\<lambda>_.
     if has_active_transfer p
     then require (new_minimum_sequence \<le> ps_active_transfer_sequence p) FinancialObligationBlocksWatermark
     else Inr ())"

definition process_advance_replay_watermark ::
  "'h runtime \<Rightarrow> pubkey \<Rightarrow> u64 \<Rightarrow> i64 \<Rightarrow> leg \<Rightarrow> leg_error + leg" where
  "process_advance_replay_watermark rt administrator new_minimum_sequence clock lg =
     and_then (require (administrator = cf_administrator (lg_config lg)) Unauthorized) (\<lambda>_.
     let lane = lg_lane lg; previous = ln_minimum_acceptable_sequence lane;
       highest = ln_highest_consumed_sequence lane in
     and_then (require (ln_state_version lane = STATE_VERSION) InvalidStateVersion) (\<lambda>_.
     and_then (check_control_lane lg) (\<lambda>_.
     and_then (require (previous < new_minimum_sequence) InvalidWatermark) (\<lambda>_.
     and_then (require (new_minimum_sequence \<le> highest) InvalidWatermark) (\<lambda>_.
     and_then (ok_or (checked_add_word new_minimum_sequence (ln_mandatory_watermark_lag lane)) ArithmeticOverflow) (\<lambda>lowest.
     and_then (require (lowest \<le> highest) WatermarkLagViolation) (\<lambda>_.
     and_then (check_obligation new_minimum_sequence (lg_position lg)) (\<lambda>_.
     Inr (emit (ReplayWatermarkAdvanced (lg_key lg)
         (fst (replay_lane_address rt (lg_key lg) (ln_lane_id lane))) (ln_lane_id lane) previous
         new_minimum_sequence highest clock)
       (lg\<lparr>lg_lane := lane\<lparr>ln_minimum_acceptable_sequence := new_minimum_sequence\<rparr>\<rparr>))))))))))"

text \<open>\<open>Account<ConsumedMessage>\<close> with its own seeds; \<open>close\<close> gives the address back to the system
  program when the handler succeeds.\<close>

definition process_close_consumed_message ::
  "'h runtime \<Rightarrow> pubkey \<Rightarrow> pubkey \<Rightarrow> i64 \<Rightarrow> leg \<Rightarrow> leg_error + leg" where
  "process_close_consumed_message rt administrator consumed_key clock lg =
     and_then (require (administrator = cf_administrator (lg_config lg)) InvalidRentDestination) (\<lambda>_.
     case lg_slots lg consumed_key of
       Some (ConsumedSlot record) \<Rightarrow>
         and_then (require (rt_create_program_address rt
             [CONSUMED_MESSAGE_SEED, to_be_bytes (lg_key lg), to_le_bytes (cm_lane_id record),
              to_le_bytes (cm_sequence record), [cm_bump record]] (rt_program_id rt) = Some consumed_key) Framework) (\<lambda>_.
         and_then (require (cm_state_version record = STATE_VERSION) InvalidStateVersion) (\<lambda>_.
         and_then (require (cm_lane_id record = ln_lane_id (lg_lane lg)) InvalidConsumedMessage) (\<lambda>_.
         and_then (check_control_lane lg) (\<lambda>_.
         and_then (require (cm_sequence record < ln_minimum_acceptable_sequence (lg_lane lg)) RecordNotClosable) (\<lambda>_.
         Inr (emit (ConsumedMessageClosed (lg_key lg) consumed_key (cm_message_class record)
             (cm_lane_id record) (cm_sequence record) (cm_message_id record) administrator clock)
           (lg\<lparr>lg_slots := (lg_slots lg)(consumed_key := None)\<rparr>)))))))
     | _ \<Rightarrow> Inl Framework)"

section \<open>Adoption of the risk authority\<close>

definition process_initialize_deploy_authorization ::
  "'h runtime \<Rightarrow> pubkey \<Rightarrow> pubkey \<Rightarrow> i64 \<Rightarrow> leg \<Rightarrow> leg_error + leg" where
  "process_initialize_deploy_authorization rt administrator authority_key clock lg =
     and_then (require (administrator = cf_administrator (lg_config lg)) Unauthorized) (\<lambda>_.
     and_then (ok_or (w_authorities (lg_world lg) authority_key) Framework) (\<lambda>authority.
     and_then (require (rt_create_program_address rt
         [DEPLOYMENT_AUTHORITY_SEED, to_be_bytes (rt_program_id rt), to_be_bytes (lg_key lg),
          [da_bump authority]] (rt_verifier_id rt) = Some authority_key) Framework) (\<lambda>_.
     and_then (require (lg_policy lg = None) Framework) (\<lambda>_.
     and_then (require (cf_state_version (lg_config lg) = STATE_VERSION) InvalidStateVersion) (\<lambda>_.
     and_then (require (da_version authority = DEPLOYMENT_PROFILE_VERSION \<and>
         da_remote_leg_program authority = rt_program_id rt \<and> da_remote_config authority = lg_key lg)
       InvalidAuthorizationPolicy) (\<lambda>_.
     let (policy_key, bump) = policy_address rt (lg_key lg) in
     Inr (emit (DeployAuthorizationAdopted (lg_key lg) policy_key authority_key
         (da_network_domain authority) clock)
       (lg\<lparr>lg_policy := Some \<lparr>po_state_version = STATE_VERSION, po_bump = bump,
          po_authorization_config = authority_key, po_adopted_at = clock,
          po_reserved = replicate DEPLOY_AUTHORIZATION_RESERVED 0\<rparr>\<rparr>))))))))"

end
