(* ===== verification/Leg_Init.thy ===== *)
theory Leg_Init
  imports Leg_Ops
begin

text \<open>
  The one time setup of a leg (\<open>instructions/{initialize,control_state,strategy_state,outbound_state}.rs\<close>).
  Each instruction returns the accounts it initializes and its event; \<open>setup_leg\<close> runs the four
  in the order the program's documentation gives, which yields the leg every run starts from.
\<close>

section \<open>Remote leg\<close>

record initialize_params =
  ip_deployment_id :: bytes32
  ip_vault_id :: bytes32
  ip_source_chain_id :: u32
  ip_destination_chain_id :: u32
  ip_source_application_id :: bytes32
  ip_local_application_id :: bytes32
  ip_control_lane_id :: u32
  ip_report_lane_id :: u32
  ip_config_version :: u64
  ip_transport_verifier :: pubkey
  ip_emergency_guardian :: pubkey

definition params_check_authorities :: "initialize_params \<Rightarrow> pubkey \<Rightarrow> leg_error + unit" where
  "params_check_authorities p administrator =
     and_then (require (administrator \<noteq> 0) InvalidAuthority) (\<lambda>_.
     and_then (require (ip_emergency_guardian p \<noteq> 0) InvalidAuthority) (\<lambda>_.
     and_then (require (ip_transport_verifier p \<noteq> 0) InvalidAuthority) (\<lambda>_.
     require (administrator \<noteq> ip_emergency_guardian p) EqualAuthorities)))"

definition params_check_domains :: "initialize_params \<Rightarrow> leg_error + unit" where
  "params_check_domains p =
     and_then (require (ip_source_chain_id p \<noteq> 0) InvalidSourceDomain) (\<lambda>_.
     and_then (require (ip_destination_chain_id p \<noteq> 0) InvalidDestinationDomain) (\<lambda>_.
     and_then (require (ip_source_chain_id p \<noteq> ip_destination_chain_id p) InvalidDestinationDomain) (\<lambda>_.
     and_then (require (ip_source_application_id p \<noteq> 0) InvalidApplication) (\<lambda>_.
     and_then (require (ip_local_application_id p \<noteq> 0) InvalidApplication) (\<lambda>_.
     and_then (require (ip_deployment_id p \<noteq> 0) InvalidDeployment) (\<lambda>_.
     and_then (require (ip_vault_id p \<noteq> 0) InvalidVault) (\<lambda>_.
     and_then (require (ip_control_lane_id p \<noteq> 0) InvalidLane) (\<lambda>_.
     and_then (require (ip_report_lane_id p \<noteq> 0) InvalidLane) (\<lambda>_.
     require (MIN_CONFIG_VERSION \<le> ip_config_version p) InvalidConfigVersion)))))))))"

definition params_validate :: "initialize_params \<Rightarrow> pubkey \<Rightarrow> leg_error + unit" where
  "params_validate p administrator =
     and_then (params_check_authorities p administrator) (\<lambda>_. params_check_domains p)"

definition check_custody :: "token_account \<Rightarrow> pubkey \<Rightarrow> pubkey \<Rightarrow> pubkey \<Rightarrow> leg_error + unit" where
  "check_custody custody asset_mint token_program custody_authority =
     and_then (require (ta_program custody = token_program) InvalidTokenProgram) (\<lambda>_.
     and_then (require (ta_mint custody = asset_mint) InvalidMint) (\<lambda>_.
     and_then (require (ta_owner custody = custody_authority) InvalidCustodyAccount) (\<lambda>_.
     and_then (require (ta_delegate custody = None) InvalidCustodyAccount) (\<lambda>_.
     require (ta_close_authority custody = None) InvalidCustodyAccount))))"

definition check_outbound_escrow ::
  "pubkey \<Rightarrow> token_account \<Rightarrow> pubkey \<Rightarrow> pubkey \<Rightarrow> pubkey \<Rightarrow> pubkey \<Rightarrow> leg_error + unit" where
  "check_outbound_escrow escrow_key escrow custody_key asset_mint token_program custody_authority =
     and_then (require (ta_program escrow = token_program) InvalidTokenProgram) (\<lambda>_.
     and_then (require (ta_mint escrow = asset_mint) InvalidOutboundEscrow) (\<lambda>_.
     and_then (require (escrow_key \<noteq> custody_key) InvalidOutboundEscrow) (\<lambda>_.
     and_then (require (ta_owner escrow \<noteq> custody_authority) InvalidOutboundEscrow) (\<lambda>_.
     and_then (require (ta_close_authority escrow = None) InvalidOutboundEscrow) (\<lambda>_.
     require (ta_delegate escrow = None) InvalidOutboundEscrow)))))"

record initialize_accounts =
  ia_administrator :: pubkey
  ia_asset_mint :: pubkey
  ia_mint_decimals :: u8
  ia_custody_token_account :: pubkey
  ia_outbound_escrow :: pubkey
  ia_token_program :: pubkey
  ia_upgrade_authority :: pubkey
  ia_program_upgrade_authority :: "pubkey option"

definition process_initialize ::
  "'h runtime \<Rightarrow> initialize_accounts \<Rightarrow> initialize_params \<Rightarrow> i64 \<Rightarrow> world \<Rightarrow>
   leg_error + (pubkey \<times> remote_config \<times> event)" where
  "process_initialize rt a p clock w =
     and_then (load_token w (ia_custody_token_account a)) (\<lambda>custody.
     and_then (load_token w (ia_outbound_escrow a)) (\<lambda>escrow.
     and_then (require (ia_program_upgrade_authority a = Some (ia_upgrade_authority a)) Unauthorized) (\<lambda>_.
     and_then (params_validate p (ia_administrator a)) (\<lambda>_.
     and_then (require (ia_mint_decimals a = REQUIRED_MINT_DECIMALS) InvalidMintDecimals) (\<lambda>_.
     let (key, bump) = pda rt [REMOTE_CONFIG_SEED, to_be_bytes (ip_deployment_id p), to_be_bytes (ip_vault_id p)];
       (custody_authority, custody_bump) = custody_authority_address rt key in
     and_then (check_custody custody (ia_asset_mint a) (ia_token_program a) custody_authority) (\<lambda>_.
     and_then (check_outbound_escrow (ia_outbound_escrow a) escrow (ia_custody_token_account a)
       (ia_asset_mint a) (ia_token_program a) custody_authority) (\<lambda>_.
     Inr (key,
       \<lparr>cf_state_version = STATE_VERSION, cf_bump = bump, cf_custody_authority_bump = custody_bump,
        cf_frozen = False, cf_administrator = ia_administrator a,
        cf_emergency_guardian = ip_emergency_guardian p, cf_transport_verifier = ip_transport_verifier p,
        cf_asset_mint = ia_asset_mint a, cf_token_program = ia_token_program a,
        cf_custody_authority = custody_authority,
        cf_custody_token_account = ia_custody_token_account a,
        cf_outbound_escrow = ia_outbound_escrow a, cf_source_chain_id = ip_source_chain_id p,
        cf_destination_chain_id = ip_destination_chain_id p,
        cf_source_application_id = ip_source_application_id p,
        cf_local_application_id = ip_local_application_id p, cf_deployment_id = ip_deployment_id p,
        cf_vault_id = ip_vault_id p, cf_control_lane_id = ip_control_lane_id p,
        cf_report_lane_id = ip_report_lane_id p, cf_config_version = ip_config_version p,
        cf_initialized_at = clock, cf_reserved = replicate REMOTE_CONFIG_RESERVED 0\<rparr>,
       RemoteLegInitialized key (ia_administrator a) (ip_emergency_guardian p) (ip_transport_verifier p)
         (ia_asset_mint a) custody_authority (ia_custody_token_account a) (ia_outbound_escrow a)
         (ip_deployment_id p) (ip_vault_id p) (ip_source_chain_id p) (ip_destination_chain_id p)
         (ip_config_version p) clock))))))))"

section \<open>Control state\<close>

record control_state_params =
  cp_max_remote_allocation_bps :: u16
  cp_max_upward_deviation_bps :: u16
  cp_max_downward_deviation_bps :: u16
  cp_max_report_age :: u64
  cp_config_commitment :: bytes32
  cp_mandatory_watermark_lag :: u64

definition control_params_validate :: "control_state_params \<Rightarrow> leg_error + unit" where
  "control_params_validate p =
     and_then (check_parameters (cp_max_remote_allocation_bps p) (cp_max_upward_deviation_bps p)
       (cp_max_downward_deviation_bps p) (cp_max_report_age p) (cp_config_commitment p)) (\<lambda>_.
     require (cp_mandatory_watermark_lag p \<noteq> 0) InvalidWatermark)"

definition process_initialize_control_state ::
  "'h runtime \<Rightarrow> pubkey \<Rightarrow> control_state_params \<Rightarrow> i64 \<Rightarrow> pubkey \<Rightarrow> remote_config \<Rightarrow>
   leg_error + (risk_config \<times> replay_lane \<times> event)" where
  "process_initialize_control_state rt administrator p clock key c =
     and_then (require (administrator = cf_administrator c) Unauthorized) (\<lambda>_.
     and_then (control_params_validate p) (\<lambda>_.
     and_then (require (cf_state_version c = STATE_VERSION) InvalidStateVersion) (\<lambda>_.
     let (risk_key, risk_bump) = risk_config_address rt key;
       (_, lane_bump) = replay_lane_address rt key (cf_control_lane_id c) in
     Inr (\<lparr>rk_state_version = STATE_VERSION, rk_bump = risk_bump,
         rk_max_remote_allocation_bps = cp_max_remote_allocation_bps p,
         rk_max_upward_deviation_bps = cp_max_upward_deviation_bps p,
         rk_max_downward_deviation_bps = cp_max_downward_deviation_bps p,
         rk_max_report_age = cp_max_report_age p, rk_config_version = cf_config_version c,
         rk_config_commitment = cp_config_commitment p, rk_initialized_at = clock,
         rk_last_update_at = clock, rk_reserved = replicate RISK_CONFIG_RESERVED 0\<rparr>,
       \<lparr>ln_state_version = STATE_VERSION, ln_bump = lane_bump, ln_lane_id = cf_control_lane_id c,
        ln_minimum_acceptable_sequence = FIRST_SEQUENCE, ln_highest_consumed_sequence = 0,
        ln_message_commitment = 0, ln_mandatory_watermark_lag = cp_mandatory_watermark_lag p,
        ln_last_accepted_at = 0\<rparr>,
       ControlStateInitialized key risk_key administrator (cf_config_version c)
         (cf_control_lane_id c) (cp_mandatory_watermark_lag p) clock))))"

section \<open>Strategy state\<close>

definition ADAPTER_STATE_SEED :: bytes where
  "ADAPTER_STATE_SEED = ascii_bytes ''adapter-state''"

definition ADAPTER_AUTHORITY_SEED :: bytes where
  "ADAPTER_AUTHORITY_SEED = ascii_bytes ''adapter-authority''"

definition check_adapter_vault ::
  "remote_config \<Rightarrow> pubkey \<Rightarrow> token_account \<Rightarrow> pubkey \<Rightarrow> leg_error + unit" where
  "check_adapter_vault c vault_key vault adapter_authority =
     and_then (require (ta_program vault = cf_token_program c) InvalidTokenProgram) (\<lambda>_.
     and_then (require (ta_mint vault = cf_asset_mint c) InvalidAdapterVault) (\<lambda>_.
     and_then (require (ta_owner vault = adapter_authority) InvalidAdapterVault) (\<lambda>_.
     and_then (require (ta_delegate vault = None) InvalidAdapterVault) (\<lambda>_.
     and_then (require (ta_close_authority vault = None) InvalidAdapterVault) (\<lambda>_.
     and_then (require (vault_key \<noteq> cf_custody_token_account c) InvalidAdapterVault) (\<lambda>_.
     require (vault_key \<noteq> cf_outbound_escrow c) InvalidAdapterVault))))))"

record strategy_state_accounts =
  ss_administrator :: pubkey
  ss_asset_mint :: pubkey
  ss_adapter_program :: pubkey
  ss_adapter_executable :: bool
  ss_adapter_state :: pubkey
  ss_adapter_authority :: pubkey
  ss_adapter_token_vault :: pubkey
  ss_token_program :: pubkey

definition initial_position :: "u8 \<Rightarrow> i64 \<Rightarrow> remote_position" where
  "initial_position bump initialized_at =
     \<lparr>ps_state_version = STATE_VERSION, ps_bump = bump, ps_attributed_principal = 0,
      ps_deployed_principal = 0, ps_recalled_custody = 0, ps_unattributed_custody = 0,
      ps_cumulative_realized_loss = 0, ps_active_transfer_id = 0,
      ps_active_transfer_kind = KNone, ps_active_transfer_sequence = 0,
      ps_active_transfer_status = SNone, ps_latest_completed_transfer_id = 0,
      ps_latest_completion_at = 0, ps_initialized_at = initialized_at\<rparr>"

definition process_initialize_strategy_state ::
  "'h runtime \<Rightarrow> strategy_state_accounts \<Rightarrow> u64 \<Rightarrow> i64 \<Rightarrow> pubkey \<Rightarrow> remote_config \<Rightarrow> risk_config \<Rightarrow> world \<Rightarrow>
   leg_error + (pubkey \<times> strategy_config \<times> remote_position \<times> event)" where
  "process_initialize_strategy_state rt a max_remote_principal clock key c risk w =
     and_then (require (ss_administrator a = cf_administrator c) Unauthorized) (\<lambda>_.
     and_then (require (ss_asset_mint a = cf_asset_mint c) InvalidMint) (\<lambda>_.
     and_then (load_token w (ss_adapter_token_vault a)) (\<lambda>vault.
     and_then (require (cf_state_version c = STATE_VERSION) InvalidStateVersion) (\<lambda>_.
     and_then (require (rk_state_version risk = STATE_VERSION) InvalidStateVersion) (\<lambda>_.
     and_then (require (\<not> cf_frozen c) Frozen) (\<lambda>_.
     and_then (require (max_remote_principal \<noteq> 0) InvalidStrategyConfig) (\<lambda>_.
     and_then (require (ss_token_program a = cf_token_program c) InvalidTokenProgram) (\<lambda>_.
     and_then (require (ss_adapter_executable a) InvalidAdapterProgram) (\<lambda>_.
     and_then (require (ss_adapter_program a \<noteq> rt_program_id rt) InvalidAdapterProgram) (\<lambda>_.
     and_then (require (account_owner w (ss_adapter_state a) = ss_adapter_program a) InvalidAdapterState) (\<lambda>_.
     let expected_state = fst (rt_find_program_address rt [ADAPTER_STATE_SEED, to_be_bytes key] (ss_adapter_program a)) in
     and_then (require (ss_adapter_state a = expected_state) InvalidAdapterState) (\<lambda>_.
     let expected_authority = fst (rt_find_program_address rt
         [ADAPTER_AUTHORITY_SEED, to_be_bytes (ss_adapter_state a)] (ss_adapter_program a)) in
     and_then (require (ss_adapter_authority a = expected_authority) InvalidAdapterAuthority) (\<lambda>_.
     and_then (check_adapter_vault c (ss_adapter_token_vault a) vault expected_authority) (\<lambda>_.
     let (strategy_key, strategy_bump) = strategy_config_address rt key;
       (position_key, position_bump) = remote_position_address rt key in
     Inr (strategy_key,
       \<lparr>st_state_version = STATE_VERSION, st_bump = strategy_bump,
        st_adapter_program = ss_adapter_program a, st_adapter_state = ss_adapter_state a,
        st_adapter_authority = expected_authority,
        st_adapter_token_vault = ss_adapter_token_vault a,
        st_max_remote_principal = max_remote_principal, st_initialized_at = clock,
        st_reserved = replicate STRATEGY_CONFIG_RESERVED 0\<rparr>,
       initial_position position_bump clock,
       StrategyStateInitialized key strategy_key position_key (ss_adapter_program a)
         (ss_adapter_state a) expected_authority (ss_adapter_token_vault a) max_remote_principal clock)))))))))))))))"

section \<open>Outbound state\<close>

definition process_initialize_outbound_state ::
  "'h runtime \<Rightarrow> pubkey \<Rightarrow> i64 \<Rightarrow> pubkey \<Rightarrow> remote_config \<Rightarrow> leg_error + (outbound_lane \<times> event)" where
  "process_initialize_outbound_state rt administrator clock key c =
     and_then (require (administrator = cf_administrator c) Unauthorized) (\<lambda>_.
     and_then (require (cf_state_version c = STATE_VERSION) InvalidStateVersion) (\<lambda>_.
     and_then (require (\<not> cf_frozen c) Frozen) (\<lambda>_.
     let (lane_key, bump) = outbound_lane_address rt key (cf_report_lane_id c) in
     Inr (\<lparr>ob_state_version = STATE_VERSION, ob_bump = bump, ob_lane_id = cf_report_lane_id c,
         ob_next_sequence = FIRST_OUTBOUND_SEQUENCE, ob_current_commitment = 0,
         ob_last_publication_at = 0, ob_total_reports = 0, ob_total_recall_notifications = 0,
         ob_initialized_at = clock\<rparr>,
       OutboundStateInitialized key lane_key (cf_report_lane_id c) FIRST_OUTBOUND_SEQUENCE clock))))"

section \<open>A leg ready to run\<close>

definition setup_leg ::
  "'h runtime \<Rightarrow> initialize_accounts \<Rightarrow> initialize_params \<Rightarrow> control_state_params \<Rightarrow>
   strategy_state_accounts \<Rightarrow> u64 \<Rightarrow> i64 \<Rightarrow> slots \<Rightarrow> world \<Rightarrow> leg_error + leg" where
  "setup_leg rt a p cp sa max_remote_principal clock sl w =
     and_then (process_initialize rt a p clock w) (\<lambda>(key, c, e1).
     and_then (process_initialize_control_state rt (ia_administrator a) cp clock key c) (\<lambda>(risk, lane, e2).
     and_then (process_initialize_strategy_state rt sa max_remote_principal clock key c risk w) (\<lambda>(skey, st, ps, e3).
     and_then (process_initialize_outbound_state rt (ia_administrator a) clock key c) (\<lambda>(outbound, e4).
     Inr \<lparr>lg_key = key, lg_config = c, lg_risk = risk, lg_lane = lane, lg_strategy_key = skey,
       lg_strategy = st, lg_position = ps, lg_outbound = outbound, lg_policy = None, lg_slots = sl,
       lg_world = w, lg_events = [e1, e2, e3, e4]\<rparr>))))"

end
