(* ===== verification/Leg_Book.thy ===== *)
theory Leg_Book
  imports Leg_Init
begin

text \<open>
  The books of the remote leg: transfer records by address, the position, the principal ceiling
  and the custody balance. \<open>book_inv\<close> is the invariant every instruction keeps. It says that the
  records are well formed, that the open cycle is the one record it names, that every unit ever
  attributed is in custody, deployed, sent or lost, that committed principal stays under the
  ceiling, and that custody covers the buckets. Each lemma here shows that one change the
  instructions make keeps it; the instructions themselves are treated in the next theory.
\<close>

section \<open>Transfer records by address\<close>

definition transfers :: "slots \<Rightarrow> pubkey \<rightharpoonup> transfer_record" where
  "transfers sl key = (case sl key of Some (TransferSlot r) \<Rightarrow> Some r | _ \<Rightarrow> None)"

lemma transfers_Some [simp]: "transfers sl k = Some r \<longleftrightarrow> sl k = Some (TransferSlot r)"
  by (auto simp: transfers_def split: option.splits slot.splits)

lemma transfers_update [simp]: "transfers (sl(k \<mapsto> TransferSlot r)) = (transfers sl)(k \<mapsto> r)"
  by (rule ext) (simp add: transfers_def)

definition not_transfer :: "slot option \<Rightarrow> bool" where
  "not_transfer s = (case s of Some (TransferSlot _) \<Rightarrow> False | _ \<Rightarrow> True)"

lemma not_transfer_simps [simp]:
  "not_transfer None" "not_transfer (Some ForeignSlot)" "not_transfer (Some (ConsumedSlot c))"
  "not_transfer (Some (ReportSlot rp))" "not_transfer (Some (MarkerSlot m))"
  "not_transfer (Some (LedgerSlot l))" "\<not> not_transfer (Some (TransferSlot r))"
  by (simp_all add: not_transfer_def)

lemma transfers_other:
  "not_transfer (sl k) \<Longrightarrow> not_transfer v \<Longrightarrow> transfers (sl(k := v)) = transfers sl"
  by (rule ext) (auto simp: transfers_def not_transfer_def split: option.splits slot.splits)

section \<open>Sums over records\<close>

definition tsum :: "(transfer_record \<Rightarrow> nat) \<Rightarrow> (pubkey \<rightharpoonup> transfer_record) \<Rightarrow> nat" where
  "tsum f T = (\<Sum>k\<in>dom T. f (the (T k)))"

lemma tsum_new:
  assumes "finite (dom T)" "T k = None"
  shows "tsum f (T(k \<mapsto> r)) = tsum f T + f r"
proof -
  have "k \<notin> dom T" using assms(2) by blast
  then have "(\<Sum>x\<in>dom T. f (the ((T(k \<mapsto> r)) x))) = (\<Sum>x\<in>dom T. f (the (T x)))"
    by (intro sum.cong) auto
  with assms(1) \<open>k \<notin> dom T\<close> show ?thesis by (simp add: tsum_def)
qed

lemma tsum_change:
  assumes "finite (dom T)" "T k = Some r"
  shows "tsum f (T(k \<mapsto> r')) + f r = tsum f T + f r'"
proof -
  have k: "k \<in> dom T" using assms(2) by blast
  have "(\<Sum>x\<in>dom T - {k}. f (the ((T(k \<mapsto> r')) x))) = (\<Sum>x\<in>dom T - {k}. f (the (T x)))"
    by (intro sum.cong) auto
  with assms k show ?thesis
    by (simp add: tsum_def insert_absorb sum.remove [of "dom T" k])
qed

lemma tsum_same:
  assumes "finite (dom T)" "T k = Some r" "f r' = f r"
  shows "tsum f (T(k \<mapsto> r')) = tsum f T"
  using tsum_change [OF assms(1,2), of f r'] assms(3) by simp

lemma tsum_empty [simp]: "tsum f Map.empty = 0"
  by (simp add: tsum_def)

section \<open>Well formed records\<close>

definition open_status :: "transfer_status \<Rightarrow> bool" where
  "open_status s \<longleftrightarrow> s = SPending \<or> s = SQuarantined"

lemma open_status_simps [simp]:
  "open_status SPending" "open_status SQuarantined" "\<not> open_status SNone" "\<not> open_status SComplete"
  "\<not> open_status SClosed"
  by (simp_all add: open_status_def)

definition recall_fields_zero :: "transfer_record \<Rightarrow> bool" where
  "recall_fields_zero r \<longleftrightarrow>
     tr_requested_recall_amount r = 0 \<and> tr_custody_principal_reserved r = 0 \<and>
     tr_strategy_principal_resolved r = 0 \<and> tr_assets_withdrawn r = 0 \<and> tr_assets_sent r = 0 \<and>
     tr_realized_loss r = 0"

definition allocation_ok :: "transfer_record \<Rightarrow> bool" where
  "allocation_ok r \<longleftrightarrow> recall_fields_zero r \<and>
     (case tr_status r of
        SPending \<Rightarrow> unat (tr_attributed_amount r) < unat (tr_authorized_amount r)
      | SComplete \<Rightarrow> tr_attributed_amount r = tr_authorized_amount r \<and> 0 < unat (tr_authorized_amount r)
      | SQuarantined \<Rightarrow> tr_attributed_amount r = 0 \<and> 0 < unat (tr_authorized_amount r)
      | SClosed \<Rightarrow> unat (tr_attributed_amount r) \<le> unat (tr_authorized_amount r) \<and> 0 < unat (tr_authorized_amount r)
      | SNone \<Rightarrow> False)"

definition recall_ok :: "transfer_record \<Rightarrow> bool" where
  "recall_ok r \<longleftrightarrow>
     tr_authorized_amount r = 0 \<and> tr_attributed_amount r = 0 \<and> tr_expected_source_balance r = 0 \<and>
     unat (tr_custody_principal_reserved r) + unat (tr_strategy_principal_resolved r)
       \<le> unat (tr_requested_recall_amount r) \<and>
     unat (tr_strategy_principal_resolved r) = unat (tr_assets_withdrawn r) + unat (tr_realized_loss r) \<and>
     unat (tr_assets_sent r) \<le> unat (tr_custody_principal_reserved r) + unat (tr_assets_withdrawn r) \<and>
     (case tr_status r of
        SPending \<Rightarrow> unat (tr_assets_sent r) + unat (tr_realized_loss r) < unat (tr_requested_recall_amount r)
      | SComplete \<Rightarrow> unat (tr_assets_sent r) + unat (tr_realized_loss r) = unat (tr_requested_recall_amount r)
      | SQuarantined \<Rightarrow> tr_custody_principal_reserved r = 0 \<and> tr_strategy_principal_resolved r = 0 \<and>
          0 < unat (tr_requested_recall_amount r)
      | _ \<Rightarrow> False)"

definition recovery_ok :: "transfer_record \<Rightarrow> bool" where
  "recovery_ok r \<longleftrightarrow>
     recall_fields_zero r \<and> tr_status r = SComplete \<and> tr_attributed_amount r = tr_authorized_amount r"

definition record_ok :: "transfer_record \<Rightarrow> bool" where
  "record_ok r \<longleftrightarrow> tr_state_version r = 1 \<and> tr_transfer_id r \<noteq> 0 \<and>
     (case tr_transfer_kind r of
        KAllocate \<Rightarrow> allocation_ok r | KRecall \<Rightarrow> recall_ok r | KRecover \<Rightarrow> recovery_ok r
      | KNone \<Rightarrow> False)"

section \<open>The invariant\<close>

type_synonym book = "pubkey \<rightharpoonup> transfer_record"

definition records_ok :: "(bytes32 \<Rightarrow> pubkey) \<Rightarrow> book \<Rightarrow> bool" where
  "records_ok A T \<longleftrightarrow> finite (dom T) \<and>
     (\<forall>k r. T k = Some r \<longrightarrow> k = A (tr_transfer_id r) \<and> record_ok r)"

text \<open>\<open>open_record A T p r\<close>: the open cycle of the position is the record \<open>r\<close>, and no other record is open.\<close>

definition open_record :: "(bytes32 \<Rightarrow> pubkey) \<Rightarrow> book \<Rightarrow> remote_position \<Rightarrow> transfer_record \<Rightarrow> bool" where
  "open_record A T p r \<longleftrightarrow>
     T (A (ps_active_transfer_id p)) = Some r \<and> tr_transfer_id r = ps_active_transfer_id p \<and>
     tr_transfer_kind r = ps_active_transfer_kind p \<and> tr_status r = ps_active_transfer_status p \<and>
     tr_message_sequence r = ps_active_transfer_sequence p \<and> open_status (tr_status r) \<and>
     unat (ps_recalled_custody p) + unat (tr_assets_sent r) =
       unat (tr_custody_principal_reserved r) + unat (tr_assets_withdrawn r) \<and>
     (\<forall>k r'. T k = Some r' \<longrightarrow> open_status (tr_status r') \<longrightarrow> k = A (ps_active_transfer_id p))"

definition cycle_ok :: "(bytes32 \<Rightarrow> pubkey) \<Rightarrow> book \<Rightarrow> remote_position \<Rightarrow> bool" where
  "cycle_ok A T p \<longleftrightarrow>
     (if ps_active_transfer_kind p = KNone
      then ps_active_transfer_id p = 0 \<and> ps_active_transfer_sequence p = 0 \<and>
        ps_active_transfer_status p = SNone \<and> ps_recalled_custody p = 0 \<and>
        (\<forall>k r. T k = Some r \<longrightarrow> \<not> open_status (tr_status r))
      else \<exists>r. open_record A T p r)"

text \<open>Principal the open allocation may still bring in.\<close>

definition pending_claim :: "(bytes32 \<Rightarrow> pubkey) \<Rightarrow> book \<Rightarrow> remote_position \<Rightarrow> nat" where
  "pending_claim A T p =
     (if ps_active_transfer_kind p = KAllocate \<and> ps_active_transfer_status p = SPending
      then case T (A (ps_active_transfer_id p)) of None \<Rightarrow> 0
        | Some r \<Rightarrow> unat (tr_authorized_amount r) - unat (tr_attributed_amount r)
      else 0)"

definition committed :: "remote_position \<Rightarrow> nat" where
  "committed p =
     unat (ps_attributed_principal p) + unat (ps_deployed_principal p) + unat (ps_recalled_custody p)"

definition accounted :: "remote_position \<Rightarrow> nat" where
  "accounted p =
     unat (ps_attributed_principal p) + unat (ps_recalled_custody p) + unat (ps_unattributed_custody p)"

abbreviation attributed_of :: "transfer_record \<Rightarrow> nat" where
  "attributed_of r \<equiv> unat (tr_attributed_amount r)"

abbreviation returned_of :: "transfer_record \<Rightarrow> nat" where
  "returned_of r \<equiv> unat (tr_assets_sent r)"

abbreviation loss_of :: "transfer_record \<Rightarrow> nat" where
  "loss_of r \<equiv> unat (tr_realized_loss r)"

definition conserved :: "book \<Rightarrow> remote_position \<Rightarrow> bool" where
  "conserved T p \<longleftrightarrow>
     tsum attributed_of T = committed p + tsum returned_of T + tsum loss_of T \<and>
     unat (ps_cumulative_realized_loss p) = tsum loss_of T"

definition book_inv :: "(bytes32 \<Rightarrow> pubkey) \<Rightarrow> book \<Rightarrow> remote_position \<Rightarrow> u64 \<Rightarrow> u64 \<Rightarrow> bool" where
  "book_inv A T p ceiling custody \<longleftrightarrow>
     records_ok A T \<and> cycle_ok A T p \<and> conserved T p \<and>
     committed p + pending_claim A T p \<le> unat ceiling \<and> accounted p \<le> unat custody"

lemma book_invI:
  assumes "records_ok A T" "cycle_ok A T p" "conserved T p"
    and "committed p + pending_claim A T p \<le> unat m" "accounted p \<le> unat c"
  shows "book_inv A T p m c"
  using assms by (simp add: book_inv_def)

lemmas book_defs = records_ok_def cycle_ok_def open_record_def pending_claim_def committed_def
  accounted_def conserved_def

lemma records_ok_finite: "records_ok A T \<Longrightarrow> finite (dom T)"
  by (simp add: records_ok_def)

lemma records_ok_update:
  "records_ok A T \<Longrightarrow> k = A (tr_transfer_id r) \<Longrightarrow> record_ok r \<Longrightarrow> records_ok A (T(k \<mapsto> r))"
  by (auto simp: records_ok_def)

lemma records_okD: "records_ok A T \<Longrightarrow> T k = Some r \<Longrightarrow> k = A (tr_transfer_id r) \<and> record_ok r"
  by (simp add: records_ok_def)

text \<open>A record that is pending, and named by the position, is the open record.\<close>

lemma open_recordI:
  assumes "records_ok A T" "cycle_ok A T p" "T k = Some r" "ps_active_transfer_kind p \<noteq> KNone"
    and "ps_active_transfer_id p = tr_transfer_id r"
  shows "open_record A T p r" "k = A (ps_active_transfer_id p)"
proof -
  show k: "k = A (ps_active_transfer_id p)" using records_okD [OF assms(1,3)] assms(5) by simp
  from assms(2,4) obtain r' where "open_record A T p r'" by (auto simp: cycle_ok_def)
  moreover from this k assms(3) have "r' = r" by (simp add: open_record_def)
  ultimately show "open_record A T p r" by simp
qed

lemma open_record_cycle: "open_record A T p r \<Longrightarrow> record_ok r \<Longrightarrow> cycle_ok A T p"
  by (auto simp: cycle_ok_def open_record_def record_ok_def)

section \<open>Changes of the custody bucket only\<close>

lemma book_custody_grows: "book_inv A T p m c \<Longrightarrow> unat c \<le> unat c' \<Longrightarrow> book_inv A T p m c'"
  by (auto simp: book_inv_def)

lemma reconcile_keeps:
  assumes "reconcile p c = Inr (s, p')"
  shows "ps_attributed_principal p' = ps_attributed_principal p"
    "ps_deployed_principal p' = ps_deployed_principal p" "ps_recalled_custody p' = ps_recalled_custody p"
    "ps_cumulative_realized_loss p' = ps_cumulative_realized_loss p"
    "ps_active_transfer_id p' = ps_active_transfer_id p"
    "ps_active_transfer_kind p' = ps_active_transfer_kind p"
    "ps_active_transfer_sequence p' = ps_active_transfer_sequence p"
    "ps_active_transfer_status p' = ps_active_transfer_status p"
    "ps_latest_completed_transfer_id p' = ps_latest_completed_transfer_id p"
    "ps_state_version p' = ps_state_version p"
  using assms by (auto simp: leg_simps)

text \<open>Moving attributed custody into the strategy, possibly none of it, changes no record.\<close>

lemma book_deploy:
  assumes "book_inv A T p m c0" "ps_recalled_custody p' = ps_recalled_custody p"
    and "unat (ps_attributed_principal p) = n + unat (ps_attributed_principal p')"
    and "unat (ps_deployed_principal p') = unat (ps_deployed_principal p) + n"
    and "ps_cumulative_realized_loss p' = ps_cumulative_realized_loss p"
    and "ps_active_transfer_id p' = ps_active_transfer_id p"
    and "ps_active_transfer_kind p' = ps_active_transfer_kind p"
    and "ps_active_transfer_sequence p' = ps_active_transfer_sequence p"
    and "ps_active_transfer_status p' = ps_active_transfer_status p" "accounted p' \<le> unat c"
  shows "book_inv A T p' m c"
proof -
  have "open_record A T p' = open_record A T p" by (rule ext) (simp add: open_record_def assms)
  then have "cycle_ok A T p' = cycle_ok A T p" by (simp add: cycle_ok_def assms)
  moreover have "committed p' = committed p" "pending_claim A T p' = pending_claim A T p"
    by (simp_all add: committed_def pending_claim_def assms)
  ultimately show ?thesis using assms(1,5,10) by (simp add: book_inv_def conserved_def)
qed

lemma book_reconcile:
  assumes "book_inv A T p m c0" "reconcile p c = Inr (s, p')"
  shows "book_inv A T p' m c" "accounted p' = unat c"
proof -
  show "accounted p' = unat c" using assms(2) by (auto simp: leg_simps accounted_def)
  then show "book_inv A T p' m c"
    by (intro book_deploy [OF assms(1), of p' 0]) (simp_all add: reconcile_keeps [OF assms(2)])
qed

section \<open>Opening a cycle\<close>

lemma tsum_zero_new:
  "finite (dom T) \<Longrightarrow> T k = None \<Longrightarrow> f r = 0 \<Longrightarrow> tsum f (T(k \<mapsto> r)) = tsum f T"
  by (simp add: tsum_new)

lemma book_open:
  assumes inv: "book_inv A T p m c" and new: "T (A (tr_transfer_id r)) = None"
    and idle: "ps_active_transfer_kind p = KNone"
    and r: "record_ok r" "attributed_of r = 0" "returned_of r = 0" "loss_of r = 0"
    and p': "ps_active_transfer_kind p' = tr_transfer_kind r" "ps_active_transfer_id p' = tr_transfer_id r"
      "ps_active_transfer_status p' = tr_status r" "ps_active_transfer_sequence p' = tr_message_sequence r"
    and opened: "open_status (tr_status r)"
    and buckets: "committed p' = committed p" "accounted p' = accounted p"
      "ps_cumulative_realized_loss p' = ps_cumulative_realized_loss p"
      "unat (ps_recalled_custody p') = unat (tr_custody_principal_reserved r) + unat (tr_assets_withdrawn r)"
    and fits: "tr_transfer_kind r = KAllocate \<Longrightarrow> tr_status r = SPending \<Longrightarrow>
      committed p + unat (tr_authorized_amount r) \<le> unat m"
  shows "book_inv A (T(A (tr_transfer_id r) \<mapsto> r)) p' m c"
proof (rule book_invI)
  have T: "records_ok A T" "cycle_ok A T p" "conserved T p" "committed p + pending_claim A T p \<le> unat m"
      "accounted p \<le> unat c"
    using inv by (simp_all add: book_inv_def)
  let ?T = "T(A (tr_transfer_id r) \<mapsto> r)"
  show "records_ok A ?T" using T(1) r(1) by (simp add: records_ok_update)
  have none: "\<forall>k r. T k = Some r \<longrightarrow> \<not> open_status (tr_status r)"
    using T(2) idle by (simp add: cycle_ok_def)
  have "open_record A ?T p' r"
    unfolding open_record_def using p' opened none buckets(4) r(3) by auto
  then show "cycle_ok A ?T p'" using r(1) by (rule open_record_cycle)
  have "tsum attributed_of ?T = tsum attributed_of T" "tsum returned_of ?T = tsum returned_of T"
      "tsum loss_of ?T = tsum loss_of T"
    using records_ok_finite [OF T(1)] new r by (simp_all add: tsum_new)
  with T(3) buckets show "conserved ?T p'" by (simp add: conserved_def)
  show "committed p' + pending_claim A ?T p' \<le> unat m"
    using T(4) buckets(1) fits p' r(2) by (auto simp: pending_claim_def)
  show "accounted p' \<le> unat c" using T(5) buckets(2) by simp
qed

section \<open>Changing the open record\<close>

text \<open>
  Every other change touches the open record: it is replaced by \<open>r'\<close>, which either stays open or
  ends the cycle, and the buckets move by what the record's amounts moved.
\<close>

lemma book_change:
  assumes inv: "book_inv A T p m c0" and rec: "open_record A T p r"
    and r': "record_ok r'" "tr_transfer_id r' = tr_transfer_id r"
    and moved: "committed p' + returned_of r' + loss_of r' + attributed_of r =
        committed p + returned_of r + loss_of r + attributed_of r'"
      "unat (ps_cumulative_realized_loss p') + loss_of r = unat (ps_cumulative_realized_loss p) + loss_of r'"
    and room: "committed p' + pending_claim A (T(A (tr_transfer_id r) \<mapsto> r')) p' \<le> committed p + pending_claim A T p
        \<or> committed p' + pending_claim A (T(A (tr_transfer_id r) \<mapsto> r')) p' \<le> unat m"
    and cover: "accounted p' \<le> unat c"
    and cycle: "cycle_ok A (T(A (tr_transfer_id r) \<mapsto> r')) p'"
  shows "book_inv A (T(A (tr_transfer_id r) \<mapsto> r')) p' m c"
proof (rule book_invI)
  have T: "records_ok A T" "conserved T p" "committed p + pending_claim A T p \<le> unat m"
    using inv by (simp_all add: book_inv_def)
  have at: "T (A (tr_transfer_id r)) = Some r" using rec by (simp add: open_record_def)
  let ?T = "T(A (tr_transfer_id r) \<mapsto> r')"
  show "records_ok A ?T" using T(1) r' by (intro records_ok_update) simp_all
  have "tsum f ?T + f r = tsum f T + f r'" for f
    using records_ok_finite [OF T(1)] at by (rule tsum_change)
  from this [of attributed_of] this [of returned_of] this [of loss_of]
  show "conserved ?T p'" using T(2) moved by (simp add: conserved_def)
  show "committed p' + pending_claim A ?T p' \<le> unat m" using room T(3) by linarith
qed (fact cycle cover)+

lemma cycle_stays:
  assumes "open_record A T p r" "record_ok r'" "tr_transfer_id r' = tr_transfer_id r"
    and "tr_transfer_kind r' = ps_active_transfer_kind p'" "tr_status r' = ps_active_transfer_status p'"
    and "tr_message_sequence r' = ps_active_transfer_sequence p'" "ps_active_transfer_id p' = ps_active_transfer_id p"
    and "open_status (tr_status r')"
    and "unat (ps_recalled_custody p') + returned_of r' =
      unat (tr_custody_principal_reserved r') + unat (tr_assets_withdrawn r')"
  shows "cycle_ok A (T(A (tr_transfer_id r) \<mapsto> r')) p'"
proof -
  have "open_record A (T(A (tr_transfer_id r) \<mapsto> r')) p' r'"
    using assms by (auto simp: open_record_def)
  then show ?thesis using assms(2) by (rule open_record_cycle)
qed

lemma cycle_ends:
  assumes "open_record A T p r" "\<not> open_status (tr_status r')"
    and "ps_active_transfer_kind p' = KNone" "ps_active_transfer_id p' = 0"
    and "ps_active_transfer_sequence p' = 0" "ps_active_transfer_status p' = SNone" "ps_recalled_custody p' = 0"
  shows "cycle_ok A (T(A (tr_transfer_id r) \<mapsto> r')) p'"
  using assms by (auto simp: cycle_ok_def open_record_def)

text \<open>A recovery attributes custody to a record that is complete at once.\<close>

lemma book_recover:
  assumes inv: "book_inv A T p m c0" and new: "T (A (tr_transfer_id r)) = None"
    and idle: "ps_active_transfer_kind p = KNone" and r: "record_ok r" "tr_transfer_kind r = KRecover"
    and p': "ps_active_transfer_kind p' = KNone" "ps_active_transfer_id p' = ps_active_transfer_id p"
      "ps_active_transfer_sequence p' = ps_active_transfer_sequence p"
      "ps_active_transfer_status p' = ps_active_transfer_status p"
      "ps_recalled_custody p' = ps_recalled_custody p"
      "ps_cumulative_realized_loss p' = ps_cumulative_realized_loss p"
    and moved: "committed p' = committed p + attributed_of r" "committed p' \<le> unat m"
    and cover: "accounted p' \<le> unat c"
  shows "book_inv A (T(A (tr_transfer_id r) \<mapsto> r)) p' m c"
proof (rule book_invI)
  have T: "records_ok A T" "cycle_ok A T p" "conserved T p" using inv by (simp_all add: book_inv_def)
  have zero: "returned_of r = 0" "loss_of r = 0" "\<not> open_status (tr_status r)"
    using r by (simp_all add: record_ok_def recovery_ok_def recall_fields_zero_def)
  let ?T = "T(A (tr_transfer_id r) \<mapsto> r)"
  show "records_ok A ?T" using T(1) r(1) by (simp add: records_ok_update)
  show "cycle_ok A ?T p'" using T(2) idle p' zero(3) by (auto simp: cycle_ok_def)
  show "conserved ?T p'"
    using T(3) moved(1) p'(6) zero records_ok_finite [OF T(1)] new by (simp add: conserved_def tsum_new)
  show "committed p' + pending_claim A ?T p' \<le> unat m" using moved(2) p'(1) by (simp add: pending_claim_def)
qed (fact cover)

text \<open>Closing a completed allocation only marks its record.\<close>

lemma book_mark_closed:
  assumes "book_inv A T p m c" "T (A (tr_transfer_id r)) = Some r" "tr_status r = SComplete"
    and "record_ok r'" "tr_transfer_id r' = tr_transfer_id r" "tr_status r' = SClosed"
    and "attributed_of r' = attributed_of r" "returned_of r' = returned_of r" "loss_of r' = loss_of r"
    and "ps_active_transfer_kind p = KNone"
  shows "book_inv A (T(A (tr_transfer_id r) \<mapsto> r')) p m c"
proof -
  have T: "records_ok A T" "cycle_ok A T p" "conserved T p" "committed p + pending_claim A T p \<le> unat m"
      "accounted p \<le> unat c"
    using assms(1) by (simp_all add: book_inv_def)
  note same = tsum_same [OF records_ok_finite [OF T(1)] assms(2)]
  show ?thesis
  proof (rule book_invI)
    show "records_ok A (T(A (tr_transfer_id r) \<mapsto> r'))"
      using T(1) assms(4,5) by (intro records_ok_update) simp_all
    show "cycle_ok A (T(A (tr_transfer_id r) \<mapsto> r')) p" using T(2) assms(6,10) by (auto simp: cycle_ok_def)
    show "conserved (T(A (tr_transfer_id r) \<mapsto> r')) p"
      using T(3) assms(7-9) by (simp add: conserved_def same)
  qed (use T assms(10) in \<open>simp_all add: pending_claim_def\<close>)
qed

end
