(* ===== verification/Leg_Steps.thy ===== *)
theory Leg_Steps
  imports Leg_Book
begin

text \<open>
  What a successful instruction did, one lemma per instruction: the facts its guards established
  and the leg it left behind, written out field by field. Every invariant of the leg is proved
  from these lemmas and never unfolds a handler again.
\<close>

section \<open>Inbound messages\<close>

text \<open>\<open>let Body::X(body) = message.body else { return Err(..) }\<close>\<close>

lemma and_then_InrE:
  assumes "and_then x f = Inr z"
  obtains y where "x = Inr y" "f y = Inr z"
  using assms by (auto simp: and_then_Inr)

lemma body_case_Inr [result_simps]:
  "(case b of Allocate x \<Rightarrow> f1 x | _ \<Rightarrow> Inl e) = Inr y \<longleftrightarrow> (\<exists>x. b = Allocate x \<and> f1 x = Inr y)"
  "(case b of Recall x \<Rightarrow> f2 x | _ \<Rightarrow> Inl e) = Inr y \<longleftrightarrow> (\<exists>x. b = Recall x \<and> f2 x = Inr y)"
  "(case b of ConfigUpdate x \<Rightarrow> f3 x | _ \<Rightarrow> Inl e) = Inr y \<longleftrightarrow> (\<exists>x. b = ConfigUpdate x \<and> f3 x = Inr y)"
  "(case b of Resolve x \<Rightarrow> f4 x | _ \<Rightarrow> Inl e) = Inr y \<longleftrightarrow> (\<exists>x. b = Resolve x \<and> f4 x = Inr y)"
  by (cases b; simp)+

definition accept :: "'h runtime \<Rightarrow> u64 \<Rightarrow> bytes32 \<Rightarrow> i64 \<Rightarrow> replay_lane \<Rightarrow> replay_lane" where
  "accept rt seq mid clock lane =
     lane\<lparr>ln_highest_consumed_sequence := seq,
       ln_message_commitment := leg_next_commitment rt (ln_message_commitment lane) mid,
       ln_last_accepted_at := clock\<rparr>"

definition consumed_record :: "leg \<Rightarrow> message_class \<Rightarrow> u8 \<Rightarrow> u64 \<Rightarrow> bytes32 \<Rightarrow> slot" where
  "consumed_record lg class bump seq mid =
     ConsumedSlot \<lparr>cm_state_version = STATE_VERSION, cm_bump = bump, cm_message_class = class,
       cm_lane_id = cf_control_lane_id (lg_config lg), cm_sequence = seq, cm_message_id = mid\<rparr>"

lemma consume_Inr [leg_simps]:
  "consume rt class ck bump seq mid clock lg = Inr lg' \<longleftrightarrow>
     lg_slots lg ck = None \<and>
     lg' = lg\<lparr>lg_slots := (lg_slots lg)(ck \<mapsto> consumed_record lg class bump seq mid),
       lg_lane := accept rt seq mid clock (lg_lane lg)\<rparr>"
  by (auto simp: consume_def result_simps leg_simps accept_def consumed_record_def)

lemma check_consumable_Inr [leg_simps]:
  "check_consumable rt lg ck seq = Inr bump \<longleftrightarrow>
     (ck, bump) = consumed_address rt (lg_key lg) (cf_control_lane_id (lg_config lg)) seq \<and> lg_slots lg ck = None"
  by (auto simp: check_consumable_def result_simps leg_simps split: prod.splits)

text \<open>\<open>inbound rt lg class bs clock m mid fresh\<close>: the bytes are the next canonical message of the lane.\<close>

definition inbound ::
  "'h runtime \<Rightarrow> leg \<Rightarrow> message_class \<Rightarrow> bytes \<Rightarrow> i64 \<Rightarrow> message \<Rightarrow> bytes32 \<Rightarrow> bool \<Rightarrow> bool" where
  "inbound rt lg class bs clock m mid fresh \<longleftrightarrow>
     0 \<le> sint clock \<and>
     validate_inbound rt bs class (lg_config lg) (lg_lane lg) clock =
       Inr \<lparr>vm_message = m, vm_message_id = mid, vm_fresh = fresh\<rparr>"

lemma inboundD:
  assumes "inbound rt lg class bs clock m mid fresh"
  shows "message_valid m" "bs = message_bytes (rt_digest rt) m"
    "message_type_of m = class_message_type class"
    "unat (hd_sequence (msg_header m)) = unat (ln_highest_consumed_sequence (lg_lane lg)) + 1"
    "ln_minimum_acceptable_sequence (lg_lane lg) \<le> hd_sequence (msg_header m)"
    "hd_previous_commitment (msg_header m) = ln_message_commitment (lg_lane lg)"
    "mid = rt_keccak rt [MESSAGE_ID_DOMAIN, bs]"
    "hd_source_application (msg_header m) = cf_source_application_id (lg_config lg)"
    "hd_destination_application (msg_header m) = cf_local_application_id (lg_config lg)"
    "fresh \<longleftrightarrow> clock \<le> hd_expires_at (msg_header m)"
  using assms by (auto simp: inbound_def validate_inbound_Inr check_domains_Inr)

lemma current_time_Inr [leg_simps]: "current_time clock = Inr now \<longleftrightarrow> now = clock \<and> 0 \<le> sint clock"
  by (auto simp: current_time_def result_simps amount_simps)

lemma handle_allocate_step:
  assumes "handle_allocate rt verifier tk ck bs clock lg = Inr lg'"
  obtains m mid fresh body authorized minimum quarantine bump cbump r p' ev where
    "inbound rt lg CAllocate bs clock m mid fresh" "msg_body m = Allocate body"
    "(tk, bump) = transfer_address rt (lg_key lg) (al_transfer_id body)" "al_transfer_id body \<noteq> 0"
    "lg_slots lg tk = None" "ps_active_transfer_kind (lg_position lg) = KNone"
    "unat authorized = unat (al_amount body)" "authorized \<noteq> 0"
    "allocate_quarantine lg fresh authorized = Inr quarantine"
    "(ck, cbump) = consumed_address rt (lg_key lg) (cf_control_lane_id (lg_config lg)) (hd_sequence (msg_header m))"
    "lg_slots lg ck = None" "ck \<noteq> tk"
    "r = (if quarantine \<noteq> None then quarantined else id) (new_allocation bump (al_transfer_id body)
       (hd_sequence (msg_header m)) authorized minimum (al_expected_source_balance body) clock)"
    "p' = (if quarantine \<noteq> None then quarantine_transfer else open_transfer) KAllocate
       (al_transfer_id body) (hd_sequence (msg_header m)) (lg_position lg)"
    "ev = (case quarantine of
        Some reason \<Rightarrow> MessageQuarantined (lg_key lg) CAllocate reason (al_transfer_id body) mid
          (hd_sequence (msg_header m)) (leg_next_commitment rt (ln_message_commitment (lg_lane lg)) mid) clock
      | None \<Rightarrow> AllocateAccepted (lg_key lg) tk (al_transfer_id body) mid (hd_sequence (msg_header m))
          authorized minimum (leg_next_commitment rt (ln_message_commitment (lg_lane lg)) mid) clock)"
    "lg' = emit ev (lg\<lparr>lg_slots := (lg_slots lg)(tk \<mapsto> TransferSlot r,
         ck \<mapsto> consumed_record lg CAllocate cbump (hd_sequence (msg_header m)) mid),
       lg_lane := accept rt (hd_sequence (msg_header m)) mid clock (lg_lane lg), lg_position := p'\<rparr>)"
proof -
  from assms obtain v body authorized minimum quarantine cbump where
    v: "0 \<le> sint clock" "validate_inbound rt bs CAllocate (lg_config lg) (lg_lane lg) clock = Inr v"
    and body: "msg_body (vm_message v) = Allocate body" "al_transfer_id body \<noteq> 0"
    and tk: "tk = fst (transfer_address rt (lg_key lg) (al_transfer_id body))" "lg_slots lg tk = None"
    and idle: "ps_active_transfer_kind (lg_position lg) = KNone"
    and amounts: "unat authorized = unat (al_amount body)" "authorized \<noteq> 0"
    and q: "allocate_quarantine lg (vm_fresh v) authorized = Inr quarantine"
    and ck: "check_consumable rt lg ck (hd_sequence (msg_header (vm_message v))) = Inr cbump"
    and opened: "open_allocation rt tk ck cbump (hd_sequence (msg_header (vm_message v))) (vm_message_id v)
      quarantine (new_allocation (snd (transfer_address rt (lg_key lg) (al_transfer_id body)))
        (al_transfer_id body) (hd_sequence (msg_header (vm_message v))) authorized minimum
        (al_expected_source_balance body) clock) clock lg = Inr lg'"
    by (auto simp: handle_allocate_def result_simps leg_simps Let_def case_prod_beta)
  let ?seq = "hd_sequence (msg_header (vm_message v))"
  have ck': "(ck, cbump) = consumed_address rt (lg_key lg) (cf_control_lane_id (lg_config lg)) ?seq"
      "lg_slots lg ck = None"
    using ck by (auto simp: leg_simps)
  have neq: "ck \<noteq> tk"
    using opened by (auto simp: open_allocation_def result_simps leg_simps)
  show thesis
    apply (rule that [of "vm_message v" "vm_message_id v" "vm_fresh v" body
        "snd (transfer_address rt (lg_key lg) (al_transfer_id body))" authorized quarantine cbump _ minimum])
    using v body tk idle amounts q ck' neq opened
    by (auto simp: inbound_def open_allocation_def result_simps leg_simps new_allocation_def quarantined_def
        consumed_record_def accept_def emit_def Let_def split: option.splits)
qed

definition may_move :: "leg \<Rightarrow> pubkey option \<Rightarrow> bool" where
  "may_move lg guardian \<longleftrightarrow> cf_frozen (lg_config lg) \<longrightarrow> guardian = Some (cf_emergency_guardian (lg_config lg))"

lemma guardian_Inr:
  "check_guardian lg guardian = Inr u \<Longrightarrow> check_frozen lg guardian = Inr u' \<Longrightarrow> may_move lg guardian"
  by (auto simp: check_guardian_def check_frozen_def may_move_def result_simps split: option.splits)

lemma handle_recall_step:
  assumes "handle_recall rt verifier guardian tk ck bs clock lg = Inr lg'"
  obtains m mid fresh body requested minimum bump cbump r p' evs where
    "inbound rt lg CRecall bs clock m mid fresh" "msg_body m = Recall body" "may_move lg guardian"
    "(tk, bump) = transfer_address rt (lg_key lg) (rc_transfer_id body)" "rc_transfer_id body \<noteq> 0"
    "lg_slots lg tk = None" "ps_active_transfer_kind (lg_position lg) = KNone"
    "unat requested = unat (rc_requested_amount body)" "requested \<noteq> 0"
    "(ck, cbump) = consumed_address rt (lg_key lg) (cf_control_lane_id (lg_config lg)) (hd_sequence (msg_header m))"
    "lg_slots lg ck = None" "ck \<noteq> tk"
    "if fresh then
       unat requested \<le> unat (ps_attributed_principal (lg_position lg)) + unat (ps_deployed_principal (lg_position lg)) \<and>
       (\<exists>n p1. reserve_recall_custody (new_recall bump (rc_transfer_id body) (hd_sequence (msg_header m))
           requested minimum 0 clock) (lg_position lg) = Inr (n, r, p1) \<and>
         p' = open_transfer KRecall (rc_transfer_id body) (hd_sequence (msg_header m)) p1 \<and>
         evs = [RecallAccepted (lg_key lg) tk (rc_transfer_id body) mid (hd_sequence (msg_header m))
             requested minimum (leg_next_commitment rt (ln_message_commitment (lg_lane lg)) mid) clock,
           RecallCustodyReserved (lg_key lg) tk (rc_transfer_id body) n (requested - n) clock])
     else
       r = quarantined (new_recall bump (rc_transfer_id body) (hd_sequence (msg_header m)) requested minimum 0 clock) \<and>
       p' = quarantine_transfer KRecall (rc_transfer_id body) (hd_sequence (msg_header m)) (lg_position lg) \<and>
       evs = [MessageQuarantined (lg_key lg) CRecall QExpired (rc_transfer_id body) mid
         (hd_sequence (msg_header m)) (leg_next_commitment rt (ln_message_commitment (lg_lane lg)) mid) clock]"
    "lg' = lg\<lparr>lg_slots := (lg_slots lg)(tk \<mapsto> TransferSlot r,
         ck \<mapsto> consumed_record lg CRecall cbump (hd_sequence (msg_header m)) mid),
       lg_lane := accept rt (hd_sequence (msg_header m)) mid clock (lg_lane lg), lg_position := p',
       lg_events := lg_events lg @ evs\<rparr>"
proof -
  from assms obtain v body requested minimum cbump where
    v: "0 \<le> sint clock" "validate_inbound rt bs CRecall (lg_config lg) (lg_lane lg) clock = Inr v"
    and body: "msg_body (vm_message v) = Recall body" "rc_transfer_id body \<noteq> 0"
    and consent: "check_guardian lg guardian = Inr ()" "check_frozen lg guardian = Inr ()"
    and tk: "tk = fst (transfer_address rt (lg_key lg) (rc_transfer_id body))" "lg_slots lg tk = None"
    and idle: "ps_active_transfer_kind (lg_position lg) = KNone"
    and amounts: "unat requested = unat (rc_requested_amount body)" "requested \<noteq> 0"
    and fits: "(if vm_fresh v then and_then (accepted_principal (lg_position lg)) (\<lambda>accepted.
        require (requested \<le> accepted) InsufficientRemotePrincipal) else Inr ()) = Inr ()"
    and ck: "check_consumable rt lg ck (hd_sequence (msg_header (vm_message v))) = Inr cbump"
    and opened: "open_recall rt tk ck cbump (hd_sequence (msg_header (vm_message v))) (vm_message_id v)
      (vm_fresh v) (new_recall (snd (transfer_address rt (lg_key lg) (rc_transfer_id body)))
        (rc_transfer_id body) (hd_sequence (msg_header (vm_message v))) requested minimum 0 clock) clock lg = Inr lg'"
    by (auto simp: handle_recall_def result_simps leg_simps Let_def case_prod_beta)
  let ?seq = "hd_sequence (msg_header (vm_message v))"
  let ?bump = "snd (transfer_address rt (lg_key lg) (rc_transfer_id body))"
  let ?r = "new_recall ?bump (rc_transfer_id body) ?seq requested minimum 0 clock"
  have ck': "(ck, cbump) = consumed_address rt (lg_key lg) (cf_control_lane_id (lg_config lg)) ?seq"
      "lg_slots lg ck = None"
    using ck by (auto simp: leg_simps)
  have neq: "ck \<noteq> tk"
    using opened by (auto simp: open_recall_def result_simps leg_simps split: if_splits)
  note common = v body tk idle amounts ck' neq guardian_Inr [OF consent]
  show thesis
  proof (cases "vm_fresh v")
    case True
    with opened obtain n r p1 where res: "reserve_recall_custody ?r (lg_position lg) = Inr (n, r, p1)"
      and lg': "lg' = lg\<lparr>lg_slots := (lg_slots lg)(tk \<mapsto> TransferSlot r,
          ck \<mapsto> consumed_record lg CRecall cbump ?seq (vm_message_id v)),
        lg_lane := accept rt ?seq (vm_message_id v) clock (lg_lane lg),
        lg_position := open_transfer KRecall (tr_transfer_id r) ?seq p1,
        lg_events := lg_events lg @ [RecallAccepted (lg_key lg) tk (tr_transfer_id r) (vm_message_id v) ?seq
             (tr_requested_recall_amount r) (tr_minimum_amount r)
             (leg_next_commitment rt (ln_message_commitment (lg_lane lg)) (vm_message_id v)) clock,
           RecallCustodyReserved (lg_key lg) tk (tr_transfer_id r) n (tr_requested_recall_amount r - n) clock]\<rparr>"
      by (auto simp: open_recall_def result_simps Let_def consume_Inr create_and_write_Inr emit_def
          checked_sub_word_def accept_def consumed_record_def split: if_splits)
    have "r = ?r\<lparr>tr_custody_principal_reserved := n\<rparr>" using res by (simp add: leg_simps)
    then show ?thesis
      using common True fits res lg'
      by (intro that [of "vm_message v" "vm_message_id v" True body ?bump requested cbump minimum r])
        (auto simp: inbound_def new_recall_def result_simps accepted_principal_Inr le_unat)
  next
    case False
    with opened show ?thesis
      using common
      by (intro that [of "vm_message v" "vm_message_id v" False body ?bump requested cbump])
        (auto simp: inbound_def open_recall_def result_simps leg_simps new_recall_def quarantined_def
          consumed_record_def accept_def emit_def Let_def)
  qed
qed

text \<open>\<open>admits lg guardian tk r r' p'\<close>: the quarantined open record \<open>r\<close> may run and becomes \<open>r'\<close>.\<close>

definition admits ::
  "leg \<Rightarrow> pubkey option \<Rightarrow> pubkey \<Rightarrow> transfer_record \<Rightarrow> transfer_record \<Rightarrow> remote_position \<Rightarrow> bool" where
  "admits lg guardian tk r r' p' \<longleftrightarrow>
     lg_slots lg tk = Some (TransferSlot r) \<and> check_quarantined r (lg_position lg) = Inr () \<and>
     admission_terms r lg = Inr None \<and>
     (if tr_transfer_kind r = KRecall
      then \<exists>n r1 p1. reserve_recall_custody r (lg_position lg) = Inr (n, r1, p1) \<and>
        r' = r1\<lparr>tr_status := SPending\<rparr> \<and> p' = admit_transfer p1
      else r' = r\<lparr>tr_status := SPending\<rparr> \<and> p' = admit_transfer (lg_position lg))"

lemma resolve_transfer_Inr:
  assumes "resolve_transfer tk guardian tid target fresh lg = Inr (adm, lg1)"
    and "check_guardian lg guardian = Inr ()"
  shows "lg1 = lg \<and> ad_outcome adm \<noteq> OAdmitted \<and> ad_reserved_amount adm = None \<or>
    ad_outcome adm = OAdmitted \<and> may_move lg guardian \<and>
    (\<exists>r r' p'. admits lg guardian tk r r' p' \<and>
       lg1 = lg\<lparr>lg_position := p', lg_slots := (lg_slots lg)(tk \<mapsto> TransferSlot r')\<rparr>)"
proof (cases "\<not> fresh \<or> \<not> holds_quarantined (lg_position lg) tid target")
  case False
  then have "admit tk guardian lg = Inr (adm, lg1)" using assms(1) by (simp add: resolve_transfer_def)
  then obtain r refusal where r: "lg_slots lg tk = Some (TransferSlot r)"
      "check_quarantined r (lg_position lg) = Inr ()" "admission_terms r lg = Inr refusal"
    and rest: "(case refusal of Some outcome \<Rightarrow> Inr (admission_unchanged outcome, lg) | None \<Rightarrow>
     and_then (check_frozen lg guardian) (\<lambda>_.
     and_then (if tr_transfer_kind r = KRecall
       then and_then (reserve_recall_custody r (lg_position lg)) (\<lambda>(reserved, record, position).
         and_then (unresolved_recall_principal record) (\<lambda>remaining.
         Inr (\<lparr>ad_outcome = OAdmitted, ad_reserved_amount = Some reserved,
           ad_remaining_principal = remaining\<rparr>, record, position)))
       else Inr (admission_unchanged OAdmitted, r, lg_position lg)) (\<lambda>(admission, record, position).
     Inr (admission, lg\<lparr>lg_position := admit_transfer position,
       lg_slots := (lg_slots lg)(tk \<mapsto> TransferSlot (record\<lparr>tr_status := SPending\<rparr>))\<rparr>)))) = Inr (adm, lg1)"
    by (auto simp: admit_def and_then_Inr load_transfer_Inr)
  show ?thesis
  proof (cases refusal)
    case None
    with rest have consent: "check_frozen lg guardian = Inr ()" by (auto simp: result_simps)
    show ?thesis
      using rest None r guardian_Inr [OF assms(2) consent]
      by (auto simp: result_simps admits_def admission_unchanged_def split: if_splits)
  next
    case (Some outcome)
    then have "outcome \<noteq> OAdmitted"
      using r(3) by (auto simp: admission_terms_def result_simps split: transfer_kind.splits if_splits)
    with Some rest show ?thesis by (auto simp: admission_unchanged_def)
  qed
qed (use assms in \<open>auto simp: resolve_transfer_def admission_unchanged_def split: if_splits\<close>)

lemma handle_resolve_step:
  assumes "handle_resolve rt verifier guardian tk ck bs clock lg = Inr lg'"
  obtains m mid fresh body cbump sl p' evs kind outcome where
    "inbound rt lg CResolve bs clock m mid fresh" "msg_body m = Resolve body"
    "tk = fst (transfer_address rt (lg_key lg) (rv_transfer_id body))"
    "(ck, cbump) = consumed_address rt (lg_key lg) (cf_control_lane_id (lg_config lg)) (hd_sequence (msg_header m))"
    "lg_slots lg ck = None"
    "outcome \<noteq> OAdmitted \<and> sl = lg_slots lg \<and> p' = lg_position lg \<and> evs = [] \<or>
     outcome = OAdmitted \<and> may_move lg guardian \<and>
     (\<exists>r r'. admits lg guardian tk r r' p' \<and> sl = (lg_slots lg)(tk \<mapsto> TransferSlot r')) \<and>
     (evs = [] \<or> (\<exists>n rem. evs = [RecallCustodyReserved (lg_key lg) tk (rv_transfer_id body) n rem clock]))"
    "lg' = lg\<lparr>lg_position := p',
       lg_slots := sl(ck \<mapsto> consumed_record lg CResolve cbump (hd_sequence (msg_header m)) mid),
       lg_lane := accept rt (hd_sequence (msg_header m)) mid clock (lg_lane lg),
       lg_events := lg_events lg @ evs @ [ResolveProcessed (lg_key lg) tk (rv_transfer_id body)
         (rv_target_sequence body) kind outcome (guardian \<noteq> None) mid (hd_sequence (msg_header m))
         (leg_next_commitment rt (ln_message_commitment (lg_lane lg)) mid) clock]\<rparr>"
proof -
  from assms obtain v body cbump adm lg1 lg2 where
    v: "0 \<le> sint clock" "validate_inbound rt bs CResolve (lg_config lg) (lg_lane lg) clock = Inr v"
    and body: "msg_body (vm_message v) = Resolve body"
    and guard: "check_guardian lg guardian = Inr ()"
    and tk: "tk = fst (transfer_address rt (lg_key lg) (rv_transfer_id body))"
    and ck: "check_consumable rt lg ck (hd_sequence (msg_header (vm_message v))) = Inr cbump"
    and res: "resolve_transfer tk guardian (rv_transfer_id body) (rv_target_sequence body) (vm_fresh v) lg = Inr (adm, lg1)"
    and con: "consume rt CResolve ck cbump (hd_sequence (msg_header (vm_message v))) (vm_message_id v) clock lg1 = Inr lg2"
    and lg': "lg' = (let lg3 = case ad_reserved_amount adm of None \<Rightarrow> lg2
        | Some reserved \<Rightarrow> emit (RecallCustodyReserved (lg_key lg2) tk (rv_transfer_id body) reserved
           (ad_remaining_principal adm) clock) lg2 in
      emit (ResolveProcessed (lg_key lg3) tk (rv_transfer_id body) (rv_target_sequence body)
        (if holds_quarantined (lg_position lg) (rv_transfer_id body) (rv_target_sequence body)
         then ps_active_transfer_kind (lg_position lg) else KNone)
        (ad_outcome adm) (guardian \<noteq> None) (vm_message_id v) (hd_sequence (msg_header (vm_message v)))
        (ln_message_commitment (lg_lane lg2)) clock) lg3)"
    by (auto simp: handle_resolve_def and_then_Inr require_Inr body_case_Inr current_time_Inr Let_def
        simp del: not_None_eq)
  let ?seq = "hd_sequence (msg_header (vm_message v))"
  have ck': "(ck, cbump) = consumed_address rt (lg_key lg) (cf_control_lane_id (lg_config lg)) ?seq"
      "lg_slots lg ck = None"
    using ck by (auto simp: leg_simps)
  from resolve_transfer_Inr [OF res guard] show thesis
  proof (elim disjE exE conjE)
    assume "lg1 = lg" "ad_outcome adm \<noteq> OAdmitted" "ad_reserved_amount adm = None"
    then show thesis
      using that [of "vm_message v" "vm_message_id v" "vm_fresh v" body cbump "ad_outcome adm" "lg_slots lg"
          "lg_position lg" "[]"] v body tk ck' con lg'
      by (auto simp: inbound_def consume_Inr emit_def accept_def consumed_record_def simp del: not_None_eq)
  next
    fix r r' p'
    assume "ad_outcome adm = OAdmitted" "may_move lg guardian" "admits lg guardian tk r r' p'"
      "lg1 = lg\<lparr>lg_position := p', lg_slots := (lg_slots lg)(tk \<mapsto> TransferSlot r')\<rparr>"
    then show thesis
      using that [of "vm_message v" "vm_message_id v" "vm_fresh v" body cbump "ad_outcome adm"
          "(lg_slots lg)(tk \<mapsto> TransferSlot r')" p'
          "case ad_reserved_amount adm of None \<Rightarrow> []
           | Some n \<Rightarrow> [RecallCustodyReserved (lg_key lg) tk (rv_transfer_id body) n (ad_remaining_principal adm) clock]"]
        v body tk ck' con lg'
      by (auto simp: inbound_def consume_Inr emit_def accept_def consumed_record_def
          simp del: not_None_eq split: option.splits)
  qed
qed

lemma handle_config_update_step:
  assumes "handle_config_update rt verifier ck bs clock lg = Inr lg'"
  obtains m mid fresh body cbump c' risk' ev where
    "inbound rt lg CConfigUpdate bs clock m mid fresh" "msg_body m = ConfigUpdate body"
    "\<not> cf_frozen (lg_config lg)"
    "(ck, cbump) = consumed_address rt (lg_key lg) (cf_control_lane_id (lg_config lg)) (hd_sequence (msg_header m))"
    "lg_slots lg ck = None"
    "if fresh then
       c' = (lg_config lg)\<lparr>cf_config_version := cu_config_version body\<rparr> \<and>
       cf_config_version (lg_config lg) < cu_config_version body \<and>
       rk_config_version risk' = cu_config_version body \<and>
       rk_max_report_age risk' \<noteq> 0 \<and> rk_state_version risk' = rk_state_version (lg_risk lg) \<and>
       ev = ConfigUpdated (lg_key lg) (fst (risk_config_address rt (lg_key lg))) mid (hd_sequence (msg_header m))
         (cf_config_version (lg_config lg)) (cu_config_version body)
         (leg_next_commitment rt (ln_message_commitment (lg_lane lg)) mid) clock
     else c' = lg_config lg \<and> risk' = lg_risk lg \<and>
       ev = MessageQuarantined (lg_key lg) CConfigUpdate QExpired 0 mid (hd_sequence (msg_header m))
         (leg_next_commitment rt (ln_message_commitment (lg_lane lg)) mid) clock"
    "lg' = lg\<lparr>lg_risk := risk', lg_config := c',
       lg_slots := (lg_slots lg)(ck \<mapsto> consumed_record lg CConfigUpdate cbump (hd_sequence (msg_header m)) mid),
       lg_lane := accept rt (hd_sequence (msg_header m)) mid clock (lg_lane lg),
       lg_events := lg_events lg @ [ev]\<rparr>"
proof -
  from assms obtain v body cbump where
    v: "0 \<le> sint clock" "validate_inbound rt bs CConfigUpdate (lg_config lg) (lg_lane lg) clock = Inr v"
    and body: "msg_body (vm_message v) = ConfigUpdate body"
    and pre: "config_update_check lg = Inr ()"
    and ck: "check_consumable rt lg ck (hd_sequence (msg_header (vm_message v))) = Inr cbump"
    and rest: "(if \<not> vm_fresh v
      then consume_expired rt ck cbump (hd_sequence (msg_header (vm_message v))) (vm_message_id v) clock lg
      else apply_config_update rt ck cbump (hd_sequence (msg_header (vm_message v))) (vm_message_id v) body
        clock clock lg) = Inr lg'"
    by (auto simp: handle_config_update_def and_then_Inr require_Inr body_case_Inr current_time_Inr Let_def)
  let ?seq = "hd_sequence (msg_header (vm_message v))"
  have ck': "(ck, cbump) = consumed_address rt (lg_key lg) (cf_control_lane_id (lg_config lg)) ?seq"
      "lg_slots lg ck = None" "\<not> cf_frozen (lg_config lg)"
    using ck pre by (auto simp: leg_simps config_update_check_def result_simps)
  note in_order = v body ck'
  show thesis
  proof (cases "vm_fresh v")
    case True
    with rest have run: "apply_config_update rt ck cbump ?seq (vm_message_id v) body clock clock lg = Inr lg'"
      by simp
    let ?c = "(lg_config lg)\<lparr>cf_config_version := cu_config_version body\<rparr>"
    let ?risk = "(lg_risk lg)\<lparr>rk_max_remote_allocation_bps := cu_max_remote_allocation_bps body,
        rk_max_upward_deviation_bps := cu_max_upward_deviation_bps body,
        rk_max_downward_deviation_bps := cu_max_downward_deviation_bps body,
        rk_max_report_age := cu_max_report_age body, rk_config_commitment := cu_config_commitment body,
        rk_config_version := cu_config_version body, rk_last_update_at := clock\<rparr>"
    have checks: "cf_config_version (lg_config lg) < cu_config_version body" "cu_max_report_age body \<noteq> 0"
      using run by (auto simp: apply_config_update_def Let_def and_then_Inr require_Inr check_parameters_Inr)
    have "consume rt CConfigUpdate ck cbump ?seq (vm_message_id v) clock
        (lg\<lparr>lg_risk := ?risk, lg_config := ?c\<rparr>) = Inr x \<Longrightarrow>
      lg' = emit (ConfigUpdated (lg_key x) (fst (risk_config_address rt (lg_key x))) (vm_message_id v) ?seq
        (cf_config_version (lg_config lg)) (cu_config_version body) (ln_message_commitment (lg_lane x)) clock) x" for x
      using run by (auto simp: apply_config_update_def Let_def and_then_Inr)
    then show ?thesis
      using in_order checks True
      by (intro that [of "vm_message v" "vm_message_id v" True body cbump ?c ?risk])
        (simp_all add: inbound_def consume_Inr emit_def accept_def consumed_record_def)
  next
    case False
    then show ?thesis
      using in_order rest
      by (intro that [of "vm_message v" "vm_message_id v" False body cbump "lg_config lg" "lg_risk lg"])
        (auto simp: inbound_def consume_expired_def and_then_Inr consume_Inr emit_def accept_def consumed_record_def)
  qed
qed

section \<open>Custody and the strategy\<close>

lemma process_reconcile_step:
  assumes "process_reconcile_custody rt custody_key clock lg = Inr lg'"
  obtains t s p' where "w_tokens (lg_world lg) (cf_custody_token_account (lg_config lg)) = Some t"
    "reconcile (lg_position lg) (ta_amount t) = Inr (s, p')"
    "lg' = lg\<lparr>lg_position := p', lg_events := lg_events lg @
       [CustodyReconciled (lg_key lg) (fst (remote_position_address rt (lg_key lg))) s
         (ps_unattributed_custody p') clock]\<rparr>"
  using assms
  by (auto simp: process_reconcile_custody_def and_then_Inr require_Inr load_token_Inr emit_def intro: that)

text \<open>
  What an attribution of \<open>n\<close> does: custody is reconciled first, so all of it is explained; then
  \<open>n\<close> moves from the unattributed to the attributed bucket and onto the record.
\<close>

definition attributes :: "u64 \<Rightarrow> nat \<Rightarrow> transfer_record \<Rightarrow> transfer_record \<Rightarrow> remote_position \<Rightarrow> remote_position \<Rightarrow> bool" where
  "attributes custody n r r' p p' \<longleftrightarrow>
     (\<exists>s p1 u a credited. reconcile p custody = Inr (s, p1) \<and>
        n = min (unat (tr_authorized_amount r) - unat (tr_attributed_amount r)) (unat (ps_unattributed_custody p1)) \<and>
        unat (tr_attributed_amount r) \<le> unat (tr_authorized_amount r) \<and>
        unat (ps_unattributed_custody p1) = n + unat u \<and> unat a = unat (ps_attributed_principal p1) + n \<and>
        unat credited = unat (tr_attributed_amount r) + n \<and> r' = r\<lparr>tr_attributed_amount := credited\<rparr> \<and>
        p' = p1\<lparr>ps_unattributed_custody := u, ps_attributed_principal := a\<rparr> \<and> accounted p' = unat custody)"

lemma attribute_custody_Inr:
  assumes "attribute_custody c r p = Inr (n, r', p')"
  shows "attributes c (unat n) r r' p p'" "n \<noteq> 0"
proof -
  from assms obtain s p1 out u a credited where
    "reconcile p c = Inr (s, p1)" "unat (tr_authorized_amount r) = unat (tr_attributed_amount r) + unat out"
    and n: "n = min out (ps_unattributed_custody p1)" "n \<noteq> 0"
    and "unat (ps_unattributed_custody p1) = unat n + unat u"
      "unat a = unat (ps_attributed_principal p1) + unat n"
      "unat credited = unat (tr_attributed_amount r) + unat n" "r' = r\<lparr>tr_attributed_amount := credited\<rparr>"
      "p' = p1\<lparr>ps_unattributed_custody := u, ps_attributed_principal := a\<rparr>" "check_identity p' c = Inr ()"
    by (auto simp: attribute_custody_def Let_def result_simps outstanding_allocation_Inr
        checked_add_word_Some checked_sub_word_Some)
  then show "attributes c (unat n) r r' p p'"
    unfolding attributes_def
    by (intro exI [of _ s] exI [of _ p1] exI [of _ u] exI [of _ a] exI [of _ credited])
      (simp add: unat_min check_identity_Inr accounted_def)
  show "n \<noteq> 0" by (rule n(2))
qed

lemma close_pending_Inr:
  assumes "close_pending c now r p = Inr (r', p')"
  obtains n r1 p1 where "attributes c n r r1 p p1" "r' = r1\<lparr>tr_completed_at := now\<rparr>" "p' = close_transfer p1"
    "holds_allocation p (tr_transfer_id r) (tr_message_sequence r)" "ps_active_transfer_status p = SPending"
proof -
  from assms obtain s p1 out u a credited where
    holds: "holds_allocation p (tr_transfer_id r) (tr_message_sequence r)" "ps_active_transfer_status p = SPending"
    and "reconcile p c = Inr (s, p1)" "unat (tr_authorized_amount r) = unat (tr_attributed_amount r) + unat out"
      "unat (ps_unattributed_custody p1) = unat (min out (ps_unattributed_custody p1)) + unat u"
      "unat a = unat (ps_attributed_principal p1) + unat (min out (ps_unattributed_custody p1))"
      "unat credited = unat (tr_attributed_amount r) + unat (min out (ps_unattributed_custody p1))"
      "check_identity (p1\<lparr>ps_unattributed_custody := u, ps_attributed_principal := a\<rparr>) c = Inr ()"
    and res: "r' = r\<lparr>tr_attributed_amount := credited, tr_completed_at := now\<rparr>"
      "p' = close_transfer (p1\<lparr>ps_unattributed_custody := u, ps_attributed_principal := a\<rparr>)"
    by (auto simp: close_pending_def Let_def result_simps outstanding_allocation_Inr
        checked_add_word_Some checked_sub_word_Some)
  then have "attributes c (unat (min out (ps_unattributed_custody p1))) r (r\<lparr>tr_attributed_amount := credited\<rparr>) p
      (p1\<lparr>ps_unattributed_custody := u, ps_attributed_principal := a\<rparr>)"
    unfolding attributes_def
    by (intro exI [of _ s] exI [of _ p1] exI [of _ u] exI [of _ a] exI [of _ credited])
      (simp add: unat_min check_identity_Inr accounted_def)
  from that [OF this _ res(2) holds] show thesis by (simp add: res(1))
qed

lemma process_attribute_step:
  assumes "process_attribute_allocation rt tk custody_key guardian clock lg = Inr lg'"
  obtains t r n r1 p1 where
    "w_tokens (lg_world lg) (cf_custody_token_account (lg_config lg)) = Some t"
    "lg_slots lg tk = Some (TransferSlot r)" "check_active r KAllocate (lg_position lg) = Inr ()"
    "may_move lg guardian" "attributes (ta_amount t) (unat n) r r1 (lg_position lg) p1" "n \<noteq> 0"
    "if tr_attributed_amount r1 = tr_authorized_amount r1
     then lg' = lg\<lparr>lg_position := complete_transfer (tr_transfer_id r1) clock p1,
       lg_slots := (lg_slots lg)(tk \<mapsto> TransferSlot (r1\<lparr>tr_status := SComplete, tr_completed_at := clock\<rparr>)),
       lg_events := lg_events lg @
         [AllocationAttributed (lg_key lg) tk (tr_transfer_id r1) n (tr_attributed_amount r1)
            (tr_authorized_amount r1) (ps_unattributed_custody p1) clock,
          AllocationCompleted (lg_key lg) tk (tr_transfer_id r1) (tr_authorized_amount r1)
            (tr_attributed_amount r1) clock]\<rparr>
     else lg' = lg\<lparr>lg_position := p1, lg_slots := (lg_slots lg)(tk \<mapsto> TransferSlot r1),
       lg_events := lg_events lg @
         [AllocationAttributed (lg_key lg) tk (tr_transfer_id r1) n (tr_attributed_amount r1)
            (tr_authorized_amount r1) (ps_unattributed_custody p1) clock]\<rparr>"
proof -
  from assms obtain t r n r1 p1 where
    t: "w_tokens (lg_world lg) (cf_custody_token_account (lg_config lg)) = Some t"
    and r: "lg_slots lg tk = Some (TransferSlot r)" "check_active r KAllocate (lg_position lg) = Inr ()"
    and consent: "check_guardian lg guardian = Inr ()" "check_frozen lg guardian = Inr ()"
    and at: "attribute_custody (ta_amount t) r (lg_position lg) = Inr (n, r1, p1)"
    and lg': "(let lg = emit (AllocationAttributed (lg_key lg) tk (tr_transfer_id r1) n
         (tr_attributed_amount r1) (tr_authorized_amount r1) (ps_unattributed_custody p1) clock) lg in
     if tr_attributed_amount r1 = tr_authorized_amount r1 then
       Inr (emit (AllocationCompleted (lg_key lg) tk (tr_transfer_id r1)
           (tr_authorized_amount r1) (tr_attributed_amount r1) clock)
         (lg\<lparr>lg_position := complete_transfer (tr_transfer_id r1) clock p1,
           lg_slots := (lg_slots lg)(tk \<mapsto>
             TransferSlot (r1\<lparr>tr_status := SComplete, tr_completed_at := clock\<rparr>))\<rparr>))
     else Inr (lg\<lparr>lg_position := p1,
       lg_slots := (lg_slots lg)(tk \<mapsto> TransferSlot r1)\<rparr>)) = (Inr lg' :: leg_error + leg)"
    by (auto simp: process_attribute_allocation_def and_then_Inr require_Inr load_token_Inr account_transfer_Inr)
  show thesis
    using that [OF t r guardian_Inr [OF consent] attribute_custody_Inr [OF at]] lg'
    by (auto simp: Let_def emit_def split: if_splits)
qed

lemma process_deploy_step:
  assumes "process_deploy_to_strategy rt a receipt_key tx amount clock lg = Inr lg'"
  obtains t s p1 w after p' pol receipt vault where
    "sk_custody_token_account a = cf_custody_token_account (lg_config lg)"
    "w_tokens (lg_world lg) (cf_custody_token_account (lg_config lg)) = Some t"
    "w_tokens (lg_world lg) (st_adapter_token_vault (lg_strategy lg)) = Some vault"
    "sk_adapter_token_vault a = st_adapter_token_vault (lg_strategy lg)"
    "reconcile (lg_position lg) (ta_amount t) = Inr (s, p1)" "\<not> cf_frozen (lg_config lg)"
    "amount \<noteq> 0" "amount \<le> ps_attributed_principal p1"
    "lg_policy lg = Some pol" "w_receipts (lg_world lg) receipt_key = Some receipt"
    "authorization_check rt tx pol receipt_key receipt (lg_key lg)
       (deployment_context_of rt (lg\<lparr>lg_position := p1\<rparr>)) amount clock = Inr ()"
    "reload (the (rt_create_program_address rt [CUSTODY_AUTHORITY_SEED, to_be_bytes (lg_key lg),
       [cf_custody_authority_bump (lg_config lg)]] (rt_program_id rt))) a w = Inr after"
    "settle_deploy amount (ta_amount t) (ta_amount vault) (ps_deployed_principal p1) after p1 = Inr p'"
    "lg' = lg\<lparr>lg_position := p', lg_world := w, lg_events := lg_events lg @
       [AssetsDeployed (lg_key lg) (sk_adapter_state a) amount (ps_attributed_principal p')
         (ps_deployed_principal p') clock]\<rparr>"
  using assms
  by (auto simp: process_deploy_to_strategy_def and_then_Inr require_Inr ok_or_Inr load_token_Inr
      check_strategy_accounts_def check_deployed_Inr custody_authority_account_def Let_def emit_def intro: that)

lemma settle_deploy_Inr:
  assumes "settle_deploy n cb vb pb after p = Inr p'"
  shows "\<exists>a d. p' = p\<lparr>ps_attributed_principal := a, ps_deployed_principal := d\<rparr> \<and>
    unat (ps_attributed_principal p) = unat n + unat a \<and> unat d = unat (ps_deployed_principal p) + unat n \<and>
    unat cb = unat n + unat (ta_amount (bl_custody after)) \<and>
    unat (ta_amount (bl_vault after)) = unat vb + unat n \<and> unat (bl_principal after) = unat pb + unat n \<and>
    accounted p' = unat (ta_amount (bl_custody after)) \<and> bl_principal after = d"
  using assms
  by (auto simp: settle_deploy_def Let_def and_then_Inr require_Inr ok_or_Inr checked_add_word_Some
      checked_sub_word_Some check_identity_Inr check_deployed_Inr accounted_def)

lemma reload_Inr [leg_simps]:
  "reload k a w = Inr b \<longleftrightarrow>
     w_tokens w (sk_custody_token_account a) = Some (bl_custody b) \<and>
     ta_owner (bl_custody b) = k \<and> ta_delegate (bl_custody b) = None \<and> ta_close_authority (bl_custody b) = None \<and>
     w_tokens w (sk_adapter_token_vault a) = Some (bl_vault b) \<and>
     read_principal w (sk_adapter_state a) = Inr (bl_principal b)"
  by (cases b) (auto simp: reload_def and_then_Inr load_token_Inr check_control_Inr)

lemma finish_recall_Inr:
  assumes "finish_recall tk clock r p lg = Inr lg'"
  obtains b r' p' where "settle_recall r p clock = Inr (b, r', p')"
    "lg' = lg\<lparr>lg_position := p', lg_slots := (lg_slots lg)(tk \<mapsto> TransferSlot r'),
       lg_events := lg_events lg @ (if b then [RecallCompleted (lg_key lg) tk (tr_transfer_id r')
         (tr_requested_recall_amount r') (tr_assets_sent r') (tr_realized_loss r') clock] else [])\<rparr>"
  using assms by (auto simp: finish_recall_def and_then_Inr Let_def emit_def intro: that split: if_splits)

definition withdraws ::
  "balances \<Rightarrow> u64 \<Rightarrow> u64 \<Rightarrow> u64 \<Rightarrow> transfer_record \<Rightarrow> transfer_record \<Rightarrow> remote_position \<Rightarrow> remote_position \<Rightarrow> bool" where
  "withdraws after reduction returned lost r r' p p' \<longleftrightarrow>
     (\<exists>d c l rs w ls. unat (ps_deployed_principal p) = unat reduction + unat d \<and>
        unat c = unat (ps_recalled_custody p) + unat returned \<and>
        unat l = unat (ps_cumulative_realized_loss p) + unat lost \<and>
        unat rs = unat (tr_strategy_principal_resolved r) + unat reduction \<and>
        unat w = unat (tr_assets_withdrawn r) + unat returned \<and>
        unat ls = unat (tr_realized_loss r) + unat lost \<and> unat reduction = unat returned + unat lost \<and>
        unat (tr_custody_principal_reserved r) + unat rs \<le> unat (tr_requested_recall_amount r) \<and>
        r' = r\<lparr>tr_strategy_principal_resolved := rs, tr_assets_withdrawn := w, tr_realized_loss := ls\<rparr> \<and>
        p' = p\<lparr>ps_deployed_principal := d, ps_recalled_custody := c, ps_cumulative_realized_loss := l\<rparr> \<and>
        accounted p' = unat (ta_amount (bl_custody after)) \<and> bl_principal after = d)"

lemma settle_withdraw_Inr:
  assumes "settle_withdraw request cb vb pb after r p = Inr ((reduction, returned, lost), r', p')"
  shows "withdraws after reduction returned lost r r' p p'" "reduction \<noteq> 0" "reduction \<le> request"
    "unat (ta_amount (bl_custody after)) = unat cb + unat returned"
    "unat vb = unat (ta_amount (bl_vault after)) + unat returned"
    "unat pb = unat reduction + unat (bl_principal after)"
proof -
  from assms obtain d c l rs w ls explained where
    sums: "checked_sub_word (ps_deployed_principal p) reduction = Some d"
    "checked_add_word (ps_recalled_custody p) returned = Some c"
    "checked_add_word (ps_cumulative_realized_loss p) lost = Some l"
    "checked_add_word (tr_strategy_principal_resolved r) reduction = Some rs"
    "checked_add_word (tr_assets_withdrawn r) returned = Some w"
    "checked_add_word (tr_realized_loss r) lost = Some ls" "checked_sub_word reduction returned = Some lost"
    "checked_add_word (tr_custody_principal_reserved r) rs = Some explained"
    and rest: "explained \<le> tr_requested_recall_amount r"
    "r' = r\<lparr>tr_strategy_principal_resolved := rs, tr_assets_withdrawn := w, tr_realized_loss := ls\<rparr>"
    "p' = p\<lparr>ps_deployed_principal := d, ps_recalled_custody := c, ps_cumulative_realized_loss := l\<rparr>"
    "check_identity p' (ta_amount (bl_custody after)) = Inr ()" "check_deployed p' (bl_principal after) = Inr ()"
    and deltas: "reduction \<noteq> 0" "reduction \<le> request"
      "checked_sub_word (ta_amount (bl_custody after)) cb = Some returned"
      "checked_sub_word vb (ta_amount (bl_vault after)) = Some returned"
      "checked_sub_word pb (bl_principal after) = Some reduction"
    unfolding settle_withdraw_def Let_def
    apply (elim and_then_InrE)
    subgoal premises prems for pr ar vd _ _ _ rl d c l rs w ls e
      by (rule prems(1) [of d c l rs w ls e])
        (use prems(2-) in \<open>simp_all add: require_Inr ok_or_Inr\<close>)
    done
  have fits: "unat (tr_custody_principal_reserved r) + unat rs \<le> unat (tr_requested_recall_amount r)"
    using sums(8) rest(1) by (simp add: checked_add_word_Some le_unat)
  have identity: "accounted p' = unat (ta_amount (bl_custody after))" "bl_principal after = d"
    using rest(3-5) by (simp_all add: check_identity_Inr check_deployed_Inr accounted_def)
  show "withdraws after reduction returned lost r r' p p'"
    unfolding withdraws_def
    by (intro exI [of _ d] exI [of _ c] exI [of _ l] exI [of _ rs] exI [of _ w] exI [of _ ls] conjI fits identity
        rest(2,3) sums [unfolded checked_add_word_Some checked_sub_word_Some])
  show "reduction \<noteq> 0" "reduction \<le> request"
    "unat (ta_amount (bl_custody after)) = unat cb + unat returned"
    "unat vb = unat (ta_amount (bl_vault after)) + unat returned"
    "unat pb = unat reduction + unat (bl_principal after)"
    using deltas by (simp_all add: checked_sub_word_Some)
qed

lemma process_withdraw_step:
  assumes "process_withdraw_for_recall rt a tk maximum clock lg = Inr lg'"
  obtains t vault r s p1 unresolved w after reduction returned lost r1 p2 b r2 p3 where
    "sk_custody_token_account a = cf_custody_token_account (lg_config lg)"
    "sk_adapter_token_vault a = st_adapter_token_vault (lg_strategy lg)"
    "w_tokens (lg_world lg) (cf_custody_token_account (lg_config lg)) = Some t"
    "w_tokens (lg_world lg) (st_adapter_token_vault (lg_strategy lg)) = Some vault"
    "lg_slots lg tk = Some (TransferSlot r)" "check_active r KRecall (lg_position lg) = Inr ()"
    "reconcile (lg_position lg) (ta_amount t) = Inr (s, p1)"
    "unresolved_recall_principal r = Inr unresolved"
    "reload (the (rt_create_program_address rt [CUSTODY_AUTHORITY_SEED, to_be_bytes (lg_key lg),
       [cf_custody_authority_bump (lg_config lg)]] (rt_program_id rt))) a w = Inr after"
    "settle_withdraw (min (min maximum unresolved) (ps_deployed_principal p1)) (ta_amount t)
       (ta_amount vault) (ps_deployed_principal p1) after r p1 = Inr ((reduction, returned, lost), r1, p2)"
    "settle_recall r1 p2 clock = Inr (b, r2, p3)"
    "lg' = lg\<lparr>lg_world := w, lg_position := p3, lg_slots := (lg_slots lg)(tk \<mapsto> TransferSlot r2),
       lg_events := lg_events lg @ [StrategyWithdrawalCompleted (lg_key lg) tk (tr_transfer_id r1) reduction
         returned lost (ps_deployed_principal p2) clock] @
         (if b then [RecallCompleted (lg_key lg) tk (tr_transfer_id r2) (tr_requested_recall_amount r2)
           (tr_assets_sent r2) (tr_realized_loss r2) clock] else [])\<rparr>"
proof -
  from assms obtain t vault r s p1 unresolved w after reduction returned lost r1 p2 where
    facts: "sk_custody_token_account a = cf_custody_token_account (lg_config lg)"
    "sk_adapter_token_vault a = st_adapter_token_vault (lg_strategy lg)"
    "w_tokens (lg_world lg) (cf_custody_token_account (lg_config lg)) = Some t"
    "w_tokens (lg_world lg) (st_adapter_token_vault (lg_strategy lg)) = Some vault"
    "lg_slots lg tk = Some (TransferSlot r)" "check_active r KRecall (lg_position lg) = Inr ()"
    "reconcile (lg_position lg) (ta_amount t) = Inr (s, p1)"
    "unresolved_recall_principal r = Inr unresolved"
    "reload (the (rt_create_program_address rt [CUSTODY_AUTHORITY_SEED, to_be_bytes (lg_key lg),
       [cf_custody_authority_bump (lg_config lg)]] (rt_program_id rt))) a w = Inr after"
    "settle_withdraw (min (min maximum unresolved) (ps_deployed_principal p1)) (ta_amount t)
       (ta_amount vault) (ps_deployed_principal p1) after r p1 = Inr ((reduction, returned, lost), r1, p2)"
    and fin: "finish_recall tk clock r1 p2 (emit (StrategyWithdrawalCompleted (lg_key lg) tk
       (tr_transfer_id r1) reduction returned lost (ps_deployed_principal p2) clock) (lg\<lparr>lg_world := w\<rparr>)) = Inr lg'"
    by (auto simp: process_withdraw_for_recall_def and_then_Inr require_Inr ok_or_Inr load_token_Inr
        account_transfer_Inr check_strategy_accounts_def check_deployed_Inr custody_authority_account_def Let_def)
  from fin show thesis
    by (rule finish_recall_Inr) (rule that [OF facts], assumption, simp)
qed

lemma process_send_step:
  assumes "process_send_recall rt a tk maximum clock lg = Inr lg'"
  obtains t escrow r s p1 w t' escrow' r1 p2 b r2 p3 amount where
    "w_tokens (lg_world lg) (cf_custody_token_account (lg_config lg)) = Some t"
    "w_tokens (lg_world lg) (cf_outbound_escrow (lg_config lg)) = Some escrow"
    "lg_slots lg tk = Some (TransferSlot r)" "check_active r KRecall (lg_position lg) = Inr ()"
    "reconcile (lg_position lg) (ta_amount t) = Inr (s, p1)"
    "amount = min maximum (ps_recalled_custody p1)" "amount \<noteq> 0"
    "w_tokens w (cf_custody_token_account (lg_config lg)) = Some t'"
    "w_tokens w (cf_outbound_escrow (lg_config lg)) = Some escrow'"
    "settle_send amount (ta_amount t) (ta_amount escrow) (ta_amount t') (ta_amount escrow') r p1 = Inr (r1, p2)"
    "settle_recall r1 p2 clock = Inr (b, r2, p3)"
    "lg' = lg\<lparr>lg_world := w, lg_position := p3, lg_slots := (lg_slots lg)(tk \<mapsto> TransferSlot r2),
       lg_events := lg_events lg @ [RecallAssetsSent (lg_key lg) tk (tr_transfer_id r1) amount
         (tr_assets_sent r1) (cf_outbound_escrow (lg_config lg)) clock] @
         (if b then [RecallCompleted (lg_key lg) tk (tr_transfer_id r2) (tr_requested_recall_amount r2)
           (tr_assets_sent r2) (tr_realized_loss r2) clock] else [])\<rparr>"
proof -
  from assms obtain t escrow r s p1 w t' escrow' r1 p2 where
    facts: "w_tokens (lg_world lg) (cf_custody_token_account (lg_config lg)) = Some t"
    "w_tokens (lg_world lg) (cf_outbound_escrow (lg_config lg)) = Some escrow"
    "lg_slots lg tk = Some (TransferSlot r)" "check_active r KRecall (lg_position lg) = Inr ()"
    "reconcile (lg_position lg) (ta_amount t) = Inr (s, p1)"
    "min maximum (ps_recalled_custody p1) \<noteq> 0"
    "w_tokens w (cf_custody_token_account (lg_config lg)) = Some t'"
    "w_tokens w (cf_outbound_escrow (lg_config lg)) = Some escrow'"
    "settle_send (min maximum (ps_recalled_custody p1)) (ta_amount t) (ta_amount escrow) (ta_amount t')
       (ta_amount escrow') r p1 = Inr (r1, p2)"
    and fin: "finish_recall tk clock r1 p2 (emit (RecallAssetsSent (lg_key lg) tk (tr_transfer_id r1)
       (min maximum (ps_recalled_custody p1)) (tr_assets_sent r1) (cf_outbound_escrow (lg_config lg)) clock)
       (lg\<lparr>lg_world := w\<rparr>)) = Inr lg'"
    by (auto simp: process_send_recall_def and_then_Inr require_Inr ok_or_Inr load_token_Inr
        account_transfer_Inr custody_authority_account_def Let_def)
  from fin show thesis
    by (rule finish_recall_Inr) (rule that [OF facts(1-5) refl facts(6-9)], assumption, simp)
qed

lemma settle_send_Inr:
  assumes "settle_send n cb eb ca ea r p = Inr (r', p')"
  shows "\<exists>c sent. p' = p\<lparr>ps_recalled_custody := c\<rparr> \<and> r' = r\<lparr>tr_assets_sent := sent\<rparr> \<and>
    unat (ps_recalled_custody p) = unat n + unat c \<and> unat sent = unat (tr_assets_sent r) + unat n \<and>
    unat cb = unat n + unat ca \<and> unat ea = unat eb + unat n \<and> accounted p' = unat ca"
proof -
  from assms obtain c sent where
    "checked_sub_word (ps_recalled_custody p) n = Some c" "checked_add_word (tr_assets_sent r) n = Some sent"
    "checked_sub_word cb ca = Some n" "checked_sub_word ea eb = Some n"
    "check_identity (p\<lparr>ps_recalled_custody := c\<rparr>) ca = Inr ()"
    "p' = p\<lparr>ps_recalled_custody := c\<rparr>" "r' = r\<lparr>tr_assets_sent := sent\<rparr>"
    by (auto simp: settle_send_def Let_def and_then_Inr require_Inr ok_or_Inr)
  then show ?thesis
    by (intro exI [of _ c] exI [of _ sent])
      (simp add: checked_add_word_Some checked_sub_word_Some check_identity_Inr accounted_def)
qed

section \<open>Publications\<close>

definition report_entry :: "u8 \<Rightarrow> report_type \<Rightarrow> outbound_lane \<Rightarrow> built_message \<Rightarrow> bytes32 \<Rightarrow> u64 \<Rightarrow> i64 \<Rightarrow> slot" where
  "report_entry bump kind lane built related epoch clock = ReportSlot
     \<lparr>rp_state_version = STATE_VERSION, rp_bump = bump, rp_report_type = kind, rp_lane_id = ob_lane_id lane,
      rp_sequence = ob_next_sequence lane, rp_message_id = bm_message_id built,
      rp_body_hash = bm_body_hash built, rp_previous_commitment = bm_previous_commitment built,
      rp_next_commitment = bm_next_commitment built, rp_encoded_len = bm_encoded_len built,
      rp_published_at = clock, rp_related_transfer_id = related, rp_epoch_id = epoch\<rparr>"

lemma create_report_record_Inr:
  "create_report_record rt rk key (ob_lane_id lane) (ob_next_sequence lane) kind built related epoch clock sl = Inr sl' \<longleftrightarrow>
     (\<exists>bump. (rk, bump) = report_address rt key (ob_lane_id lane) (ob_next_sequence lane) \<and> sl rk = None \<and>
        sl' = sl(rk \<mapsto> report_entry bump kind lane built related epoch clock))"
  by (auto simp: create_report_record_def and_then_Inr require_Inr check_available_Inr create_and_write_Inr
      report_entry_def split: prod.splits)

text \<open>
  \<open>publishes rt lg clock body built\<close>: the message with this body is built for the next sequence of
  the outbound lane and obeys the wire rules.
\<close>

definition publishes :: "'h runtime \<Rightarrow> leg \<Rightarrow> i64 \<Rightarrow> body \<Rightarrow> built_message \<Rightarrow> bool" where
  "publishes rt lg clock body built \<longleftrightarrow>
     0 \<le> sint clock \<and> ob_lane_id (lg_outbound lg) = cf_report_lane_id (lg_config lg) \<and>
     build rt (outbound_context_of lg clock) body (message_len (body_message_type body)) = Inr built"

lemma process_publish_remote_report_step:
  assumes "process_publish_remote_report rt custody_key ak rk active_record epoch clock lg = Inr lg'"
  obtains t s p1 in_flight principal built bump outbound' body where
    "w_tokens (lg_world lg) (cf_custody_token_account (lg_config lg)) = Some t"
    "reconcile (lg_position lg) (ta_amount t) = Inr (s, p1)"
    "read_principal (lg_world lg) (st_adapter_state (lg_strategy lg)) = Inr (ps_deployed_principal p1)"
    "in_flight_attribution rt (lg_key lg) (lg_slots lg) p1 active_record = Inr in_flight"
    "remote_principal p1 = Inr principal"
    "body = RemoteReport (report_body_of \<lparr>rf_epoch_id = epoch,
        rf_remote_principal = saturating_sub_word principal in_flight,
        rf_realized_loss = ps_cumulative_realized_loss p1, rf_unattributed_balance = ps_unattributed_custody p1,
        rf_latest_completed_transfer_id = ps_latest_completed_transfer_id p1,
        rf_config_version = cf_config_version (lg_config lg),
        rf_remote_state_commitment = rt_keccak rt [concat (state_fields
          \<lparr>sv_remote_config = lg_key lg, sv_config_version = cf_config_version (lg_config lg),
           sv_frozen = cf_frozen (lg_config lg), sv_position = p1, sv_custody_balance = ta_amount t,
           sv_adapter_principal = ps_deployed_principal p1\<rparr>)]\<rparr>)"
    "publishes rt lg clock body built"
    "(rk, bump) = report_address rt (lg_key lg) (ob_lane_id (lg_outbound lg)) (ob_next_sequence (lg_outbound lg))"
    "lg_slots lg rk = None"
    "lane_advance (lg_outbound lg) PRemoteReport (bm_next_commitment built) clock = Inr outbound'"
    "lg' = lg\<lparr>lg_position := p1, lg_slots := (lg_slots lg)(rk \<mapsto>
         report_entry bump PRemoteReport (lg_outbound lg) built (ps_latest_completed_transfer_id p1) epoch clock),
       lg_outbound := outbound', lg_events := lg_events lg @
         [RemoteReportPublished (lg_key lg) rk (ob_lane_id (lg_outbound lg)) (ob_next_sequence (lg_outbound lg))
           (bm_message_id built) (bm_body_hash built) (bm_previous_commitment built) (bm_next_commitment built)
           (bm_encoded_len built) (as_bytes (bm_encoded built)) clock]\<rparr>"
  using assms
  by (auto simp: process_publish_remote_report_def and_then_Inr require_Inr load_token_Inr check_deployed_Inr
      current_time_Inr state_commitment_eq build_remote_report_def publishes_def create_report_record_Inr Let_def
      report_check_versions_def check_outbound_lane_def emit_def intro: that)

lemma process_publish_recall_sent_step:
  assumes "process_publish_recall_sent rt tk rk mk clock lg = Inr lg'"
  obtains r sent built bump mbump outbound' body where
    "lg_slots lg tk = Some (TransferSlot r)" "check_eligible r clock = Inr sent"
    "body = RecallSent (recall_sent_body_of \<lparr>sf_transfer_id = tr_transfer_id r,
        sf_principal_sent = tr_requested_recall_amount r, sf_actual_amount_sent = tr_assets_sent r,
        sf_realized_loss = tr_realized_loss r, sf_destination_reference = cf_outbound_escrow (lg_config lg),
        sf_sent_timestamp = sent, sf_config_version = cf_config_version (lg_config lg)\<rparr>)"
    "publishes rt lg clock body built"
    "(rk, bump) = report_address rt (lg_key lg) (ob_lane_id (lg_outbound lg)) (ob_next_sequence (lg_outbound lg))"
    "lg_slots lg rk = None" "(mk, mbump) = marker_address rt (lg_key lg) (tr_transfer_id r)"
    "lg_slots lg mk = None" "mk \<noteq> rk"
    "lane_advance (lg_outbound lg) PRecallSent (bm_next_commitment built) clock = Inr outbound'"
    "lg' = lg\<lparr>lg_slots := (lg_slots lg)(rk \<mapsto>
           report_entry bump PRecallSent (lg_outbound lg) built (tr_transfer_id r) 0 clock,
         mk \<mapsto> MarkerSlot \<lparr>mk_state_version = STATE_VERSION, mk_bump = mbump, mk_transfer_id = tr_transfer_id r,
           mk_report_sequence = ob_next_sequence (lg_outbound lg), mk_message_id = bm_message_id built,
           mk_published_at = clock\<rparr>),
       lg_outbound := outbound', lg_events := lg_events lg @
         [RecallSentPublished (lg_key lg) rk (tr_transfer_id r) (ob_lane_id (lg_outbound lg))
           (ob_next_sequence (lg_outbound lg)) (bm_message_id built) (bm_body_hash built)
           (bm_previous_commitment built) (bm_next_commitment built) (bm_encoded_len built)
           (as_bytes (bm_encoded built)) clock]\<rparr>"
proof -
  have marker: "create_recall_marker rt mk key tid seq mid clock sl = Inr sl' \<longleftrightarrow>
      (\<exists>mbump. (mk, mbump) = marker_address rt key tid \<and> sl mk = None \<and>
        sl' = sl(mk \<mapsto> MarkerSlot \<lparr>mk_state_version = STATE_VERSION, mk_bump = mbump, mk_transfer_id = tid,
          mk_report_sequence = seq, mk_message_id = mid, mk_published_at = clock\<rparr>))" for key tid seq mid sl sl'
    by (auto simp: create_recall_marker_def and_then_Inr require_Inr check_available_Inr create_and_write_Inr
        split: prod.splits)
  show thesis
    using assms
    by (auto simp: process_publish_recall_sent_def and_then_Inr require_Inr account_transfer_Inr
        current_time_Inr build_recall_sent_def publishes_def create_report_record_Inr marker Let_def
        notice_check_versions_def check_outbound_lane_def emit_def fun_upd_apply split: if_splits intro: that)
qed

end
