(* ===== verification/Leg_Settle.thy ===== *)
theory Leg_Settle
  imports Leg_Steps
begin

text \<open>
  The successful closes and recoveries, step by step, and the instructions that change neither
  records nor buckets: freeze, watermark, cleanup of consumed messages and policy adoption.
\<close>

section \<open>Closes\<close>

lemma settle_close_leg_Inr:
  assumes "settle_close_leg tk body c l clock lg = Inr (s, l', lg1)"
  obtains r r1 p' missing where
    "lg_slots lg tk = Some (TransferSlot r)" "tr_transfer_kind r = KAllocate"
    "tr_transfer_id r = rv_transfer_id body"
    "tr_status r = SPending \<and> close_pending c clock r (lg_position lg) = Inr (r1, p') \<or>
     tr_status r = SQuarantined \<and> close_quarantined clock r (lg_position lg) = Inr (r1, p') \<or>
     tr_status r = SComplete \<and> close_complete r (lg_position lg) = Inr (r1, p')"
    "unat (tr_attributed_amount r1) \<le> unat (tr_authorized_amount r1)"
    "record_close l (tr_authorized_amount r1) (tr_attributed_amount r1) (tr_message_sequence r1) = Inr (missing, l')"
    "lg1 = lg\<lparr>lg_position := p', lg_slots := (lg_slots lg)(tk \<mapsto> TransferSlot (r1\<lparr>tr_status := SClosed\<rparr>))\<rparr>"
    "s = \<lparr>se_kind = Closed, se_claim_amount = u128_of_u64 (tr_authorized_amount r1),
       se_credited_amount = tr_attributed_amount r1, se_impaired_outstanding = tl_impaired_outstanding l'\<rparr>"
proof -
  have status: "(case tr_status r of SPending \<Rightarrow> a | SQuarantined \<Rightarrow> b | SComplete \<Rightarrow> d
        | SNone \<Rightarrow> Inl TransferNotClosable | SClosed \<Rightarrow> Inl TransferNotClosable) = Inr y \<longleftrightarrow>
      tr_status r = SPending \<and> a = Inr y \<or> tr_status r = SQuarantined \<and> b = Inr y \<or>
      tr_status r = SComplete \<and> d = Inr y" for r a b d and y :: "transfer_record \<times> remote_position"
    by (cases "tr_status r") auto
  from assms obtain r q where
    r: "lg_slots lg tk = Some (TransferSlot r)" "tr_transfer_kind r = KAllocate"
      "tr_transfer_id r = rv_transfer_id body"
    and q: "tr_status r = SPending \<and> close_pending c clock r (lg_position lg) = Inr q \<or>
      tr_status r = SQuarantined \<and> close_quarantined clock r (lg_position lg) = Inr q \<or>
      tr_status r = SComplete \<and> close_complete r (lg_position lg) = Inr q"
    and rest: "(case q of (record, position) \<Rightarrow>
     and_then (require (tr_attributed_amount record \<le> tr_authorized_amount record)
       AttributionExceedsAuthorization) (\<lambda>_.
     let record = record\<lparr>tr_status := SClosed\<rparr> in
     and_then (record_close l (tr_authorized_amount record) (tr_attributed_amount record)
       (tr_message_sequence record)) (\<lambda>(_, ledger).
     Inr (\<lparr>se_kind = Closed, se_claim_amount = u128_of_u64 (tr_authorized_amount record),
         se_credited_amount = tr_attributed_amount record,
         se_impaired_outstanding = tl_impaired_outstanding ledger\<rparr>, ledger,
       lg\<lparr>lg_position := position, lg_slots := (lg_slots lg)(tk \<mapsto> TransferSlot record)\<rparr>)))) =
      Inr (s, l', lg1)"
    unfolding settle_close_leg_def
    apply (elim and_then_InrE)
    subgoal premises prems for r _ _ _ _ q
      by (rule prems(1) [of r q]) (use prems(2-) in \<open>simp_all add: load_transfer_Inr require_Inr status\<close>)
    done
  show thesis
  proof (cases q)
    case (Pair r1 p')
    have "unat (tr_attributed_amount r1) \<le> unat (tr_authorized_amount r1)"
      using rest Pair by (auto simp: Let_def and_then_Inr require_Inr le_unat)
    moreover obtain missing where
      "record_close l (tr_authorized_amount r1) (tr_attributed_amount r1) (tr_message_sequence r1) = Inr (missing, l')"
      "lg1 = lg\<lparr>lg_position := p', lg_slots := (lg_slots lg)(tk \<mapsto> TransferSlot (r1\<lparr>tr_status := SClosed\<rparr>))\<rparr>"
      "s = \<lparr>se_kind = Closed, se_claim_amount = u128_of_u64 (tr_authorized_amount r1),
         se_credited_amount = tr_attributed_amount r1, se_impaired_outstanding = tl_impaired_outstanding l'\<rparr>"
      using rest Pair by (auto simp: Let_def and_then_Inr)
    ultimately show thesis
      using that [OF r q [unfolded Pair]] by blast
  qed
qed

section \<open>Recoveries\<close>

text \<open>What a recovery credits: unattributed custody, up to the impaired pool and the room under the ceiling.\<close>

definition recovers ::
  "u64 \<Rightarrow> u64 \<Rightarrow> u64 \<Rightarrow> transport_ledger \<Rightarrow> remote_position \<Rightarrow> remote_position \<Rightarrow> bool" where
  "recovers ceiling custody credited l p p' \<longleftrightarrow>
     (\<exists>s p1 u a. reconcile p custody = Inr (s, p1) \<and>
        unat (ps_unattributed_custody p1) = unat credited + unat u \<and>
        unat a = unat (ps_attributed_principal p1) + unat credited \<and>
        unat credited = min (min (unat (ps_unattributed_custody p1)) (unat (tl_impaired_outstanding l)))
          (unat ceiling - committed p) \<and>
        p' = p1\<lparr>ps_unattributed_custody := u, ps_attributed_principal := a\<rparr> \<and> accounted p' = unat custody)"

lemma pool_min:
  fixes u :: u64 and n :: u128
  shows "unat (min u (case u64_of_u128 n of None \<Rightarrow> - 1 | Some k \<Rightarrow> k)) = min (unat u) (unat n)"
proof (cases "u64_of_u128 n")
  case None
  then have "2 ^ 64 \<le> unat n" by (simp add: u64_of_u128_def word_less_nat_alt split: if_splits)
  moreover have "unat u < 2 ^ 64" using unsigned_less [of u] by simp
  moreover have "u \<le> - 1" by (rule word_order.extremum)
  ultimately show ?thesis using None by (simp add: unat_min min_def)
next
  case (Some k)
  then have "unat k = unat n" by (simp add: u64_of_u128_Some)
  with Some show ?thesis by (simp add: unat_min)
qed

lemma settle_recover_Inr:
  assumes "settle_recover_leg tk body bump seq c l clock lg = Inr (s, l', lg1)"
  obtains credited p' where
    "rv_target_sequence body = tl_last_impaired_sequence l" "0 < unat (tl_impaired_outstanding l)"
    "ps_active_transfer_kind (lg_position lg) = KNone" "lg_slots lg tk = None"
    "recovers (st_max_remote_principal (lg_strategy lg)) c credited l (lg_position lg) p'"
    "record_recovery l credited = Inr l'"
    "lg1 = lg\<lparr>lg_position := p',
       lg_slots := (lg_slots lg)(tk \<mapsto> TransferSlot (new_recovery bump (rv_transfer_id body) seq credited clock))\<rparr>"
    "s = \<lparr>se_kind = Recovered, se_claim_amount = tl_impaired_outstanding l, se_credited_amount = credited,
       se_impaired_outstanding = tl_impaired_outstanding l'\<rparr>"
proof -
  let ?p = "lg_position lg"
  from assms obtain q n u a sl where
    pre: "0 < tl_impaired_outstanding l" "rv_target_sequence body = tl_last_impaired_sequence l"
      "ps_active_transfer_kind ?p = KNone" "lg_slots lg tk = None"
    and rec: "reconcile ?p c = Inr q" and com: "committed_principal (snd q) = Inr n"
    and sums: "checked_sub_word (ps_unattributed_custody (snd q)) (min (min (ps_unattributed_custody (snd q))
        (case u64_of_u128 (tl_impaired_outstanding l) of None \<Rightarrow> - 1 | Some n \<Rightarrow> n))
        (saturating_sub_word (st_max_remote_principal (lg_strategy lg)) n)) = Some u"
      "checked_add_word (ps_attributed_principal (snd q)) (min (min (ps_unattributed_custody (snd q))
        (case u64_of_u128 (tl_impaired_outstanding l) of None \<Rightarrow> - 1 | Some n \<Rightarrow> n))
        (saturating_sub_word (st_max_remote_principal (lg_strategy lg)) n)) = Some a"
      "check_identity ((snd q)\<lparr>ps_unattributed_custody := u, ps_attributed_principal := a\<rparr>) c = Inr ()"
    and fin: "record_recovery l (min (min (ps_unattributed_custody (snd q))
        (case u64_of_u128 (tl_impaired_outstanding l) of None \<Rightarrow> - 1 | Some n \<Rightarrow> n))
        (saturating_sub_word (st_max_remote_principal (lg_strategy lg)) n)) = Inr l'"
      "lg1 = lg\<lparr>lg_position := (snd q)\<lparr>ps_unattributed_custody := u, ps_attributed_principal := a\<rparr>,
         lg_slots := (lg_slots lg)(tk \<mapsto> TransferSlot (new_recovery bump (rv_transfer_id body) seq
           (min (min (ps_unattributed_custody (snd q))
             (case u64_of_u128 (tl_impaired_outstanding l) of None \<Rightarrow> - 1 | Some n \<Rightarrow> n))
             (saturating_sub_word (st_max_remote_principal (lg_strategy lg)) n)) clock))\<rparr>"
      "s = \<lparr>se_kind = Recovered, se_claim_amount = tl_impaired_outstanding l,
         se_credited_amount = min (min (ps_unattributed_custody (snd q))
             (case u64_of_u128 (tl_impaired_outstanding l) of None \<Rightarrow> - 1 | Some n \<Rightarrow> n))
             (saturating_sub_word (st_max_remote_principal (lg_strategy lg)) n),
         se_impaired_outstanding = tl_impaired_outstanding l'\<rparr>"
    unfolding settle_recover_leg_def Let_def case_prod_beta
    apply (elim and_then_InrE)
    subgoal premises prems for _ _ _ q n u a _ l2 sl
      by (rule prems(1) [of q n u a])
        (use prems(2-) in \<open>auto simp: require_Inr ok_or_Inr check_no_active_Inr check_available_Inr create_and_write_Inr\<close>)
    done
  let ?credited = "min (min (ps_unattributed_custody (snd q))
      (case u64_of_u128 (tl_impaired_outstanding l) of None \<Rightarrow> - 1 | Some n \<Rightarrow> n))
      (saturating_sub_word (st_max_remote_principal (lg_strategy lg)) n)"
  have q: "reconcile ?p c = Inr (fst q, snd q)" using rec by simp
  have n: "unat n = committed ?p"
    using committed_principal_Inr [OF com] by (simp add: committed_def reconcile_keeps [OF q])
  have credited: "unat ?credited = min (min (unat (ps_unattributed_custody (snd q)))
      (unat (tl_impaired_outstanding l))) (unat (st_max_remote_principal (lg_strategy lg)) - committed ?p)"
    by (simp only: unat_min [of "min (ps_unattributed_custody (snd q)) _"] pool_min unat_saturating_sub_word n)
  have "recovers (st_max_remote_principal (lg_strategy lg)) c ?credited l ?p
      ((snd q)\<lparr>ps_unattributed_custody := u, ps_attributed_principal := a\<rparr>)"
    unfolding recovers_def
    by (intro exI [of _ "fst q"] exI [of _ "snd q"] exI [of _ u] exI [of _ a] conjI q credited refl
        sums(1) [unfolded checked_sub_word_Some] sums(2) [unfolded checked_add_word_Some])
      (use sums(3) in \<open>simp add: check_identity_Inr accounted_def\<close>)
  from that [OF pre(2) _ pre(3,4) this fin] show thesis using pre(1) by (simp add: word_less_nat_alt)
qed

section \<open>The settlement instruction\<close>

definition settles ::
  "'h runtime \<Rightarrow> pubkey \<Rightarrow> resolve_body \<Rightarrow> u64 \<Rightarrow> u64 \<Rightarrow> transport_ledger \<Rightarrow> bool \<Rightarrow> i64 \<Rightarrow> leg \<Rightarrow>
   settlement \<Rightarrow> transport_ledger \<Rightarrow> leg \<Rightarrow> bool" where
  "settles rt tk body seq c l existed clock lg s l' lg1 \<longleftrightarrow>
     rv_action body = Close \<and> settle_close_leg tk body c l clock lg = Inr (s, l', lg1) \<or>
     rv_action body = Recover \<and> existed \<and>
       settle_recover_leg tk body (snd (transfer_address rt (lg_key lg) (rv_transfer_id body))) seq c l clock lg =
         Inr (s, l', lg1)"

definition ledger_at :: "slots \<Rightarrow> pubkey \<Rightarrow> transport_ledger \<Rightarrow> bool \<Rightarrow> bool" where
  "ledger_at sl k l existed \<longleftrightarrow>
     existed \<and> sl k = Some (LedgerSlot l) \<and> tl_state_version l = STATE_VERSION \<and> ledger_balanced l \<or>
     \<not> existed \<and> sl k = None \<and> (\<exists>bump now. l = ledger_empty bump now)"

lemma load_ledger_Inr:
  "load_ledger sl k address bump now = Inr x \<Longrightarrow> k = address \<and> ledger_at sl k (ls_ledger x) (ls_exists x)"
  by (fastforce simp: load_ledger_def ledger_at_def and_then_Inr require_Inr check_balanced_Inr
      split: option.splits slot.splits)

definition settlement_message_body :: "leg \<Rightarrow> bytes32 \<Rightarrow> settlement \<Rightarrow> body" where
  "settlement_message_body lg tid s = TransportSettlement (settlement_body_of \<lparr>tf_transfer_id = tid, tf_kind = se_kind s,
     tf_claim_amount = se_claim_amount s, tf_credited_amount = se_credited_amount s,
     tf_impaired_outstanding = se_impaired_outstanding s, tf_config_version = cf_config_version (lg_config lg)\<rparr>)"

lemma publish_settlement_Inr:
  assumes "publish_settlement rt rk tid s now clock lg = Inr (built, lg')"
  obtains bump outbound' where
    "build rt (outbound_context_of lg now) (settlement_message_body lg tid s)
       (message_len (body_message_type (settlement_message_body lg tid s))) = Inr built"
    "(rk, bump) = report_address rt (lg_key lg) (ob_lane_id (lg_outbound lg)) (ob_next_sequence (lg_outbound lg))"
    "lg_slots lg rk = None"
    "lane_advance (lg_outbound lg) PTransportSettlement (bm_next_commitment built) clock = Inr outbound'"
    "lg' = lg\<lparr>lg_slots := (lg_slots lg)(rk \<mapsto>
       report_entry bump PTransportSettlement (lg_outbound lg) built tid 0 clock), lg_outbound := outbound'\<rparr>"
  using assms
  by (auto simp: publish_settlement_def and_then_Inr build_transport_settlement_def settlement_message_body_def
      create_report_record_Inr intro: that)

lemma store_ledger_Inr:
  assumes "store_ledger sl k existed l = Inr sl'"
  shows "sl' = sl(k \<mapsto> LedgerSlot l)" "existed \<or> sl k = None"
  using assms by (auto simp: store_ledger_def create_and_write_Inr split: if_splits)

lemma settles_frame:
  assumes "settles rt tk body seq c l existed clock lg s l' lg1"
  obtains r' p' where "lg1 = lg\<lparr>lg_position := p', lg_slots := (lg_slots lg)(tk \<mapsto> TransferSlot r')\<rparr>"
  using assms unfolding settles_def by (auto elim!: settle_close_leg_Inr settle_recover_Inr intro: that)

lemma handle_settlement_step:
  assumes "handle_settlement rt a bs clock lg = Inr lg'"
  obtains m mid fresh body cbump t l existed s l' lg1 built rbump outbound' where
    "inbound rt lg CResolve bs clock m mid fresh" "msg_body m = Resolve body" "may_move lg (sa_guardian a)"
    "sa_transfer_record a = fst (transfer_address rt (lg_key lg) (rv_transfer_id body))"
    "(sa_consumed_message a, cbump) =
       consumed_address rt (lg_key lg) (cf_control_lane_id (lg_config lg)) (hd_sequence (msg_header m))"
    "w_tokens (lg_world lg) (cf_custody_token_account (lg_config lg)) = Some t"
    "sa_transport_ledger a = fst (ledger_address rt (lg_key lg))"
    "ledger_at (lg_slots lg) (sa_transport_ledger a) l existed"
    "settles rt (sa_transfer_record a) body (hd_sequence (msg_header m)) (ta_amount t) l existed clock lg s l' lg1"
    "existed \<or> lg_slots lg1 (sa_transport_ledger a) = None"
    "publishes rt lg clock (settlement_message_body lg (rv_transfer_id body) s) built"
    "(sa_report_record a, rbump) =
       report_address rt (lg_key lg) (ob_lane_id (lg_outbound lg)) (ob_next_sequence (lg_outbound lg))"
    "((lg_slots lg1)(sa_transport_ledger a \<mapsto> LedgerSlot l')) (sa_report_record a) = None"
    "lane_advance (lg_outbound lg) PTransportSettlement (bm_next_commitment built) clock = Inr outbound'"
    "((lg_slots lg1)(sa_transport_ledger a \<mapsto> LedgerSlot l',
       sa_report_record a \<mapsto> report_entry rbump PTransportSettlement (lg_outbound lg) built
         (rv_transfer_id body) 0 clock)) (sa_consumed_message a) = None"
    "lg_slots lg (sa_consumed_message a) = None"
    "lg' = lg1\<lparr>lg_slots := (lg_slots lg1)(sa_transport_ledger a \<mapsto> LedgerSlot l',
         sa_report_record a \<mapsto> report_entry rbump PTransportSettlement (lg_outbound lg) built
           (rv_transfer_id body) 0 clock,
         sa_consumed_message a \<mapsto> consumed_record lg CResolve cbump (hd_sequence (msg_header m)) mid),
       lg_lane := accept rt (hd_sequence (msg_header m)) mid clock (lg_lane lg), lg_outbound := outbound',
       lg_events := lg_events lg @ [TransportSettlementPublished (lg_key lg) (sa_report_record a)
           (rv_transfer_id body) (ob_lane_id (lg_outbound lg)) (ob_next_sequence (lg_outbound lg))
           (bm_message_id built) (bm_body_hash built) (bm_previous_commitment built)
           (bm_next_commitment built) (bm_encoded_len built) (as_bytes (bm_encoded built)) clock,
         SettlementProcessed (lg_key lg) (sa_transfer_record a) (rv_transfer_id body) (rv_target_sequence body)
           (kind_to_u8 (se_kind s)) (se_claim_amount s) (se_credited_amount s) (se_impaired_outstanding s)
           (\<not> fresh) (sa_guardian a \<noteq> None) mid (hd_sequence (msg_header m))
           (leg_next_commitment rt (ln_message_commitment (lg_lane lg)) mid) clock]\<rparr>"
proof -
  have action: "(case rv_action b of Close \<Rightarrow> x | Recover \<Rightarrow> y | Admit \<Rightarrow> Inl WrongResolveInstruction) = Inr z \<longleftrightarrow>
      rv_action b = Close \<and> x = Inr z \<or> rv_action b = Recover \<and> y = Inr z"
    for b x y and z :: "settlement \<times> transport_ledger \<times> leg"
    by (cases "rv_action b") auto
  let ?tk = "sa_transfer_record a" and ?lk = "sa_transport_ledger a" and ?ck = "sa_consumed_message a"
  from assms obtain t v body cbump x s l' lg1 sl built lg2 lg3 where
    t: "w_tokens (lg_world lg) (cf_custody_token_account (lg_config lg)) = Some t"
    and v: "0 \<le> sint clock" "validate_inbound rt bs CResolve (lg_config lg) (lg_lane lg) clock = Inr v"
    and body: "msg_body (vm_message v) = Resolve body"
    and guard: "check_guardian lg (sa_guardian a) = Inr ()" "check_frozen lg (sa_guardian a) = Inr ()"
    and lanes: "ob_lane_id (lg_outbound lg) = cf_report_lane_id (lg_config lg)"
    and tk: "?tk = fst (transfer_address rt (lg_key lg) (rv_transfer_id body))"
    and ck: "check_consumable rt lg ?ck (hd_sequence (msg_header (vm_message v))) = Inr cbump"
    and x: "load_ledger (lg_slots lg) ?lk (fst (ledger_address rt (lg_key lg)))
      (snd (ledger_address rt (lg_key lg))) clock = Inr x"
    and set: "settles rt ?tk body (hd_sequence (msg_header (vm_message v))) (ta_amount t) (ls_ledger x)
      (ls_exists x) clock lg s l' lg1"
    and sl: "store_ledger (lg_slots lg1) ?lk (ls_exists x) l' = Inr sl"
    and pub: "publish_settlement rt (sa_report_record a) (rv_transfer_id body) s clock clock
      (lg1\<lparr>lg_slots := sl\<rparr>) = Inr (built, lg2)"
    and con: "consume rt CResolve ?ck cbump (hd_sequence (msg_header (vm_message v))) (vm_message_id v) clock lg2 = Inr lg3"
    and lg': "lg' = emit (SettlementProcessed (lg_key lg3) ?tk (rv_transfer_id body) (rv_target_sequence body)
             (kind_to_u8 (se_kind s)) (se_claim_amount s) (se_credited_amount s)
             (se_impaired_outstanding s) (\<not> vm_fresh v) (sa_guardian a \<noteq> None) (vm_message_id v)
             (hd_sequence (msg_header (vm_message v))) (ln_message_commitment (lg_lane lg3)) clock)
         (emit (TransportSettlementPublished (lg_key lg3) (sa_report_record a) (rv_transfer_id body)
             (ob_lane_id (lg_outbound lg1)) (ob_next_sequence (lg_outbound lg1))
             (bm_message_id built) (bm_body_hash built) (bm_previous_commitment built)
             (bm_next_commitment built) (bm_encoded_len built) (as_bytes (bm_encoded built)) clock) lg3)"
    unfolding handle_settlement_def Let_def case_prod_beta
    apply (elim and_then_InrE)
    apply (simp only: body_case_Inr)
    apply (elim exE conjE and_then_InrE)
    subgoal premises prems for _ _ t _ _ now v body _ _ _ cbump _ x z sl w lg3
      by (rule prems(1) [of t v body cbump x "fst z" "fst (snd z)" "snd (snd z)" sl "fst w" "snd w" lg3])
        (use prems(2-) in \<open>auto simp: require_Inr load_token_Inr current_time_Inr settlement_check_versions_def
          check_outbound_lane_def and_then_Inr action settles_def simp del: not_None_eq\<close>)
    done
  obtain r' p' where lg1: "lg1 = lg\<lparr>lg_position := p', lg_slots := (lg_slots lg)(?tk \<mapsto> TransferSlot r')\<rparr>"
    using set by (rule settles_frame)
  obtain rbump outbound' where built: "build rt (outbound_context_of lg clock) (settlement_message_body lg (rv_transfer_id body) s)
       (message_len (body_message_type (settlement_message_body lg (rv_transfer_id body) s))) = Inr built"
    and rk: "(sa_report_record a, rbump) =
      report_address rt (lg_key lg) (ob_lane_id (lg_outbound lg)) (ob_next_sequence (lg_outbound lg))"
      "sl (sa_report_record a) = None"
    and adv: "lane_advance (lg_outbound lg) PTransportSettlement (bm_next_commitment built) clock = Inr outbound'"
    and lg2: "lg2 = lg1\<lparr>lg_slots := sl(sa_report_record a \<mapsto>
       report_entry rbump PTransportSettlement (lg_outbound lg) built (rv_transfer_id body) 0 clock),
       lg_outbound := outbound'\<rparr>"
    using pub by (rule publish_settlement_Inr) (simp add: lg1 outbound_context_of_def settlement_message_body_def that)
  have ck': "(?ck, cbump) = consumed_address rt (lg_key lg) (cf_control_lane_id (lg_config lg))
      (hd_sequence (msg_header (vm_message v)))" "lg_slots lg ?ck = None"
    using ck by (simp_all add: check_consumable_Inr)
  have lk: "?lk = fst (ledger_address rt (lg_key lg))" "ledger_at (lg_slots lg) ?lk (ls_ledger x) (ls_exists x)"
    using load_ledger_Inr [OF x] by blast+
  have sl': "sl = (lg_slots lg1)(?lk \<mapsto> LedgerSlot l')" "ls_exists x \<or> lg_slots lg1 ?lk = None"
    using store_ledger_Inr [OF sl] by simp_all
  have inb: "inbound rt lg CResolve bs clock (vm_message v) (vm_message_id v) (vm_fresh v)"
    using v by (simp add: inbound_def)
  have pub': "publishes rt lg clock (settlement_message_body lg (rv_transfer_id body) s) built"
    using v(1) lanes built by (simp add: publishes_def)
  show thesis
    by (rule that [OF inb body guardian_Inr [OF guard] tk ck'(1) t lk set sl'(2) pub' rk(1)
          rk(2) [unfolded sl'(1)] adv _ ck'(2)])
      (use con lg' in \<open>simp_all add: consume_Inr lg2 sl'(1) accept_def consumed_record_def emit_def lg1
          del: not_None_eq\<close>)
qed

section \<open>Administration\<close>

lemma process_freeze_step:
  assumes "process_freeze authority clock lg = Inr lg'"
  obtains "is_emergency_authority (lg_config lg) authority" "\<not> cf_frozen (lg_config lg)"
    "lg' = lg\<lparr>lg_config := (lg_config lg)\<lparr>cf_frozen := True\<rparr>, lg_events := lg_events lg @
       [RemoteLegFrozen (lg_key lg) authority (cf_deployment_id (lg_config lg)) (cf_vault_id (lg_config lg))
         (cf_config_version (lg_config lg)) clock]\<rparr>"
  using assms by (auto simp: process_freeze_def and_then_Inr require_Inr emit_def intro: that)

lemma process_watermark_step:
  assumes "process_advance_replay_watermark rt administrator n clock lg = Inr lg'"
  obtains "administrator = cf_administrator (lg_config lg)"
    "unat (ln_minimum_acceptable_sequence (lg_lane lg)) < unat n"
    "unat n + unat (ln_mandatory_watermark_lag (lg_lane lg)) \<le> unat (ln_highest_consumed_sequence (lg_lane lg))"
    "ps_active_transfer_kind (lg_position lg) \<noteq> KNone \<Longrightarrow> unat n \<le> unat (ps_active_transfer_sequence (lg_position lg))"
    "lg' = lg\<lparr>lg_lane := (lg_lane lg)\<lparr>ln_minimum_acceptable_sequence := n\<rparr>, lg_events := lg_events lg @
       [ReplayWatermarkAdvanced (lg_key lg) (fst (replay_lane_address rt (lg_key lg) (ln_lane_id (lg_lane lg))))
         (ln_lane_id (lg_lane lg)) (ln_minimum_acceptable_sequence (lg_lane lg)) n
         (ln_highest_consumed_sequence (lg_lane lg)) clock]\<rparr>"
  using assms
  by (auto simp: process_advance_replay_watermark_def check_obligation_def has_active_transfer_def Let_def
      and_then_Inr require_Inr ok_or_Inr checked_add_word_Some le_unat emit_def intro: that split: if_splits)

lemma process_close_consumed_step:
  assumes "process_close_consumed_message rt administrator ck clock lg = Inr lg'"
  obtains c where "lg_slots lg ck = Some (ConsumedSlot c)"
    "unat (cm_sequence c) < unat (ln_minimum_acceptable_sequence (lg_lane lg))"
    "administrator = cf_administrator (lg_config lg)"
    "lg' = lg\<lparr>lg_slots := (lg_slots lg)(ck := None), lg_events := lg_events lg @
       [ConsumedMessageClosed (lg_key lg) ck (cm_message_class c) (cm_lane_id c) (cm_sequence c)
         (cm_message_id c) administrator clock]\<rparr>"
  using assms
  by (auto simp: process_close_consumed_message_def and_then_Inr require_Inr le_unat emit_def intro: that
      split: option.splits slot.splits)

lemma process_adopt_step:
  assumes "process_initialize_deploy_authorization rt administrator authority_key clock lg = Inr lg'"
  obtains authority where "lg_policy lg = None" "w_authorities (lg_world lg) authority_key = Some authority"
    "administrator = cf_administrator (lg_config lg)"
    "da_remote_config authority = lg_key lg"
    "lg' = lg\<lparr>lg_policy := Some \<lparr>po_state_version = STATE_VERSION, po_bump = snd (policy_address rt (lg_key lg)),
         po_authorization_config = authority_key, po_adopted_at = clock,
         po_reserved = replicate DEPLOY_AUTHORIZATION_RESERVED 0\<rparr>,
       lg_events := lg_events lg @ [DeployAuthorizationAdopted (lg_key lg) (fst (policy_address rt (lg_key lg)))
         authority_key (da_network_domain authority) clock]\<rparr>"
  using assms
  by (auto simp: process_initialize_deploy_authorization_def and_then_Inr require_Inr ok_or_Inr Let_def emit_def
      case_prod_beta intro: that)

end
