(* ===== verification/Leg_Run.thy ===== *)
theory Leg_Run
  imports Leg_Settle
begin

text \<open>
  Runs of a leg. \<open>call\<close> has one constructor per instruction of the \<open>#[program]\<close> module that runs
  after setup, with the accounts and arguments its caller chooses; \<open>dispatch\<close> is the module.
  A failed instruction aborts its transaction, so only successful calls are steps. Between calls
  other programs may do anything to their own accounts: the custody token account belongs to an
  address only this program can sign for and has no delegate, so others can only pay into it.
\<close>

section \<open>The program module\<close>

datatype (plugins only: code) call =
    ProcessAllocate pubkey pubkey pubkey bytes
  | ProcessRecall pubkey "pubkey option" pubkey pubkey bytes
  | ProcessResolve pubkey "pubkey option" pubkey pubkey bytes
  | ProcessSettlement settlement_accounts bytes
  | ProcessConfigUpdate pubkey pubkey bytes
  | ReconcileCustody pubkey
  | AttributeAllocation pubkey pubkey "pubkey option"
  | DeployToStrategy strategy_accounts pubkey transaction u64
  | WithdrawForRecall strategy_accounts pubkey u64
  | SendRecall send_accounts pubkey u64
  | PublishRemoteReport pubkey pubkey pubkey "pubkey option" u64
  | PublishRecallSent pubkey pubkey pubkey
  | FreezeRemoteLeg pubkey
  | AdvanceReplayWatermark pubkey u64
  | CloseConsumedMessage pubkey pubkey
  | InitializeDeployAuthorization pubkey pubkey

primrec dispatch :: "'h runtime \<Rightarrow> call \<Rightarrow> i64 \<Rightarrow> leg \<Rightarrow> leg_error + leg" where
  "dispatch rt (ProcessAllocate v tk ck bs) clock lg = handle_allocate rt v tk ck bs clock lg"
| "dispatch rt (ProcessRecall v g tk ck bs) clock lg = handle_recall rt v g tk ck bs clock lg"
| "dispatch rt (ProcessResolve v g tk ck bs) clock lg = handle_resolve rt v g tk ck bs clock lg"
| "dispatch rt (ProcessSettlement a bs) clock lg = handle_settlement rt a bs clock lg"
| "dispatch rt (ProcessConfigUpdate v ck bs) clock lg = handle_config_update rt v ck bs clock lg"
| "dispatch rt (ReconcileCustody key) clock lg = process_reconcile_custody rt key clock lg"
| "dispatch rt (AttributeAllocation tk key g) clock lg = process_attribute_allocation rt tk key g clock lg"
| "dispatch rt (DeployToStrategy a receipt tx amount) clock lg =
     process_deploy_to_strategy rt a receipt tx amount clock lg"
| "dispatch rt (WithdrawForRecall a tk maximum) clock lg = process_withdraw_for_recall rt a tk maximum clock lg"
| "dispatch rt (SendRecall a tk maximum) clock lg = process_send_recall rt a tk maximum clock lg"
| "dispatch rt (PublishRemoteReport key ak rk active epoch) clock lg =
     process_publish_remote_report rt key ak rk active epoch clock lg"
| "dispatch rt (PublishRecallSent tk rk mk) clock lg = process_publish_recall_sent rt tk rk mk clock lg"
| "dispatch rt (FreezeRemoteLeg authority) clock lg = process_freeze authority clock lg"
| "dispatch rt (AdvanceReplayWatermark adm n) clock lg = process_advance_replay_watermark rt adm n clock lg"
| "dispatch rt (CloseConsumedMessage adm ck) clock lg = process_close_consumed_message rt adm ck clock lg"
| "dispatch rt (InitializeDeployAuthorization adm key) clock lg =
     process_initialize_deploy_authorization rt adm key clock lg"

section \<open>Steps and reachable legs\<close>

definition custody_of :: "leg \<Rightarrow> token_account option" where
  "custody_of lg = w_tokens (lg_world lg) (cf_custody_token_account (lg_config lg))"

definition only_paid_in :: "leg \<Rightarrow> world \<Rightarrow> bool" where
  "only_paid_in lg w =
     (case custody_of lg of None \<Rightarrow> True
      | Some t \<Rightarrow> (case w_tokens w (cf_custody_token_account (lg_config lg)) of None \<Rightarrow> False
          | Some t' \<Rightarrow> ta_amount t \<le> ta_amount t'))"

inductive leg_step :: "'h runtime \<Rightarrow> leg \<Rightarrow> leg \<Rightarrow> bool" for rt where
  instruction: "dispatch rt c clock lg = Inr lg' \<Longrightarrow> leg_step rt lg lg'"
| others: "only_paid_in lg w \<Longrightarrow> leg_step rt lg (lg\<lparr>lg_world := w\<rparr>)"

definition fresh_slots :: "slots \<Rightarrow> bool" where
  "fresh_slots sl \<longleftrightarrow> (\<forall>k. sl k = None \<or> sl k = Some ForeignSlot)"

text \<open>A leg as its four setup instructions leave it, before any record of it exists.\<close>

definition leg_start :: "'h runtime \<Rightarrow> leg \<Rightarrow> bool" where
  "leg_start rt lg \<longleftrightarrow>
     (\<exists>a p cp sa ceiling clock sl w. fresh_slots sl \<and> setup_leg rt a p cp sa ceiling clock sl w = Inr lg)"

inductive leg_reachable :: "'h runtime \<Rightarrow> leg \<Rightarrow> bool" for rt where
  start: "leg_start rt lg \<Longrightarrow> leg_reachable rt lg"
| step: "leg_reachable rt lg \<Longrightarrow> leg_step rt lg lg' \<Longrightarrow> leg_reachable rt lg'"

definition setup_event :: "event \<Rightarrow> bool" where
  "setup_event e = (case e of
     RemoteLegInitialized _ _ _ _ _ _ _ _ _ _ _ _ _ _ \<Rightarrow> True
   | ControlStateInitialized _ _ _ _ _ _ _ \<Rightarrow> True
   | StrategyStateInitialized _ _ _ _ _ _ _ _ _ \<Rightarrow> True
   | OutboundStateInitialized _ _ _ _ _ \<Rightarrow> True
   | _ \<Rightarrow> False)"

lemma process_initialize_Inr:
  assumes "process_initialize rt a p clock w = Inr (key, c, e)"
  shows "setup_event e" "\<not> cf_frozen c" "cf_custody_token_account c = ia_custody_token_account a"
    "\<exists>t. w_tokens w (ia_custody_token_account a) = Some t"
    "cf_source_application_id c = ip_source_application_id p"
    "cf_local_application_id c = ip_local_application_id p"
    "params_validate p (ia_administrator a) = Inr ()"
  using assms
  by (auto simp: process_initialize_def Let_def case_prod_beta and_then_Inr load_token_Inr setup_event_def)

lemma process_initialize_control_Inr:
  assumes "process_initialize_control_state rt administrator cp clock key c = Inr (risk, lane, e)"
  shows "setup_event e" "ln_highest_consumed_sequence lane = 0" "ln_minimum_acceptable_sequence lane = 1"
    "ln_message_commitment lane = 0" "ln_lane_id lane = cf_control_lane_id c"
    "ln_mandatory_watermark_lag lane = cp_mandatory_watermark_lag cp" "cp_mandatory_watermark_lag cp \<noteq> 0"
  using assms
  by (auto simp: process_initialize_control_state_def Let_def case_prod_beta and_then_Inr require_Inr setup_event_def
      FIRST_SEQUENCE_def control_params_validate_def)

lemma process_initialize_strategy_Inr:
  assumes "process_initialize_strategy_state rt sa ceiling clock key c risk w = Inr (skey, st, ps, e)"
  shows "setup_event e" "ps = initial_position (ps_bump ps) clock" "st_max_remote_principal st = ceiling"
  using assms
  by (auto simp: process_initialize_strategy_state_def Let_def case_prod_beta and_then_Inr require_Inr
      setup_event_def initial_position_def)

lemma process_initialize_outbound_Inr:
  assumes "process_initialize_outbound_state rt administrator clock key c = Inr (outbound, e)"
  shows "setup_event e" "ob_next_sequence outbound = 1" "ob_current_commitment outbound = 0"
    "ob_lane_id outbound = cf_report_lane_id c"
  using assms
  by (auto simp: process_initialize_outbound_state_def Let_def case_prod_beta and_then_Inr require_Inr
      setup_event_def FIRST_OUTBOUND_SEQUENCE_def)

lemma leg_start_facts:
  assumes "leg_start rt lg"
  shows "fresh_slots (lg_slots lg)" "\<exists>bump clock. lg_position lg = initial_position bump clock"
    "\<exists>t. custody_of lg = Some t" "ln_highest_consumed_sequence (lg_lane lg) = 0"
    "ln_minimum_acceptable_sequence (lg_lane lg) = 1" "ln_message_commitment (lg_lane lg) = 0"
    "ob_next_sequence (lg_outbound lg) = 1" "ob_current_commitment (lg_outbound lg) = 0"
    "ob_lane_id (lg_outbound lg) = cf_report_lane_id (lg_config lg)"
    "ln_lane_id (lg_lane lg) = cf_control_lane_id (lg_config lg)" "\<not> cf_frozen (lg_config lg)"
    "ln_mandatory_watermark_lag (lg_lane lg) \<noteq> 0" "\<forall>e \<in> set (lg_events lg). setup_event e"
proof -
  from assms obtain a p cp sa ceiling clock sl w key c e1 risk lane e2 skey st ps e3 outbound e4 where
    steps: "process_initialize rt a p clock w = Inr (key, c, e1)"
      "process_initialize_control_state rt (ia_administrator a) cp clock key c = Inr (risk, lane, e2)"
      "process_initialize_strategy_state rt sa ceiling clock key c risk w = Inr (skey, st, ps, e3)"
      "process_initialize_outbound_state rt (ia_administrator a) clock key c = Inr (outbound, e4)"
    and lg: "fresh_slots sl" "lg = \<lparr>lg_key = key, lg_config = c, lg_risk = risk, lg_lane = lane, lg_strategy_key = skey,
       lg_strategy = st, lg_position = ps, lg_outbound = outbound, lg_policy = None, lg_slots = sl,
       lg_world = w, lg_events = [e1, e2, e3, e4]\<rparr>"
    unfolding leg_start_def setup_leg_def by (auto simp: and_then_Inr)
  note facts = process_initialize_Inr [OF steps(1)] process_initialize_control_Inr [OF steps(2)]
    process_initialize_strategy_Inr [OF steps(3)] process_initialize_outbound_Inr [OF steps(4)]
  show "\<exists>bump clock. lg_position lg = initial_position bump clock"
    using facts(16) unfolding lg(2) by auto
  show "fresh_slots (lg_slots lg)" "\<exists>t. custody_of lg = Some t" "ln_highest_consumed_sequence (lg_lane lg) = 0"
    "ln_minimum_acceptable_sequence (lg_lane lg) = 1" "ln_message_commitment (lg_lane lg) = 0"
    "ob_next_sequence (lg_outbound lg) = 1" "ob_current_commitment (lg_outbound lg) = 0"
    "ob_lane_id (lg_outbound lg) = cf_report_lane_id (lg_config lg)"
    "ln_lane_id (lg_lane lg) = cf_control_lane_id (lg_config lg)" "\<not> cf_frozen (lg_config lg)"
    "ln_mandatory_watermark_lag (lg_lane lg) \<noteq> 0" "\<forall>e \<in> set (lg_events lg). setup_event e"
    using facts by (simp_all add: lg custody_of_def)
qed

end
