(* ===== verification/Leg_Inv.thy ===== *)
theory Leg_Inv
  imports Leg_Run
begin

text \<open>
  Every instruction keeps the books: the invariant of the transfer records, the position, the
  principal ceiling and the custody balance holds in every reachable leg, whatever the adapter and
  the token program do when they are called.
\<close>

abbreviation record_at :: "'h runtime \<Rightarrow> leg \<Rightarrow> bytes32 \<Rightarrow> pubkey" where
  "record_at rt lg tid \<equiv> fst (transfer_address rt (lg_key lg) tid)"

abbreviation ceiling_of :: "leg \<Rightarrow> u64" where
  "ceiling_of lg \<equiv> st_max_remote_principal (lg_strategy lg)"

definition books :: "'h runtime \<Rightarrow> leg \<Rightarrow> u64 \<Rightarrow> bool" where
  "books rt lg custody = book_inv (record_at rt lg) (transfers (lg_slots lg)) (lg_position lg) (ceiling_of lg) custody"

definition books_ok :: "'h runtime \<Rightarrow> leg \<Rightarrow> bool" where
  "books_ok rt lg \<longleftrightarrow> (\<exists>t. custody_of lg = Some t \<and> books rt lg (ta_amount t))"

section \<open>Opening transfers\<close>

lemma transfers_opened:
  "sl ck = None \<Longrightarrow> ck \<noteq> tk \<Longrightarrow>
     transfers (sl(tk \<mapsto> TransferSlot r, ck \<mapsto> consumed_record lg class bump seq mid)) = (transfers sl)(tk \<mapsto> r)"
  by (simp add: transfers_other consumed_record_def)

lemma transfers_consumed:
  "sl ck = None \<Longrightarrow> transfers (sl(ck \<mapsto> consumed_record lg class bump seq mid)) = transfers sl"
  by (simp add: transfers_other consumed_record_def)

lemma transfers_None: "sl k = None \<Longrightarrow> transfers sl k = None"
  by (simp add: transfers_def)

lemma idle_recalled: "cycle_ok A T p \<Longrightarrow> ps_active_transfer_kind p = KNone \<Longrightarrow> ps_recalled_custody p = 0"
  by (simp add: cycle_ok_def)

lemma allocation_fits_True:
  assumes "allocation_fits p st n = Inr True" "ps_recalled_custody p = 0"
  shows "committed p + unat n \<le> unat (st_max_remote_principal st)"
  using assms by (auto simp: allocation_fits_def and_then_Inr ok_or_Inr accepted_principal_Inr
      checked_add_word_Some le_unat committed_def)

lemma allocate_books:
  assumes "handle_allocate rt v tk ck bs clock lg = Inr lg'" "books_ok rt lg"
  shows "books_ok rt lg'"
  using assms(1)
proof (cases rule: handle_allocate_step)
  case (1 m mid fresh body authorized minimum quarantine bump cbump r p' ev)
  note tk = 1(3-5) and idle = 1(6) and n = 1(8) and q = 1(9) and ck = 1(11,12) and r = 1(13) and p' = 1(14)
  obtain t where t: "custody_of lg = Some t" and
    inv: "book_inv (record_at rt lg) (transfers (lg_slots lg)) (lg_position lg) (ceiling_of lg) (ta_amount t)"
    using assms(2) by (auto simp: books_ok_def books_def)
  have zero: "ps_recalled_custody (lg_position lg) = 0"
    using inv idle by (auto simp: book_inv_def idle_recalled)
  have tid: "tr_transfer_id r = al_transfer_id body" "tk = record_at rt lg (tr_transfer_id r)"
    using tk(1) by (auto simp: r quarantined_def new_allocation_def dest: arg_cong [of _ _ fst])
  have ok: "record_ok r" using n tk(2)
    by (auto simp: r record_ok_def allocation_ok_def recall_fields_zero_def quarantined_def new_allocation_def
        STATE_VERSION_def unat_gt_0)
  have fits: "committed (lg_position lg) + unat (tr_authorized_amount r) \<le> unat (ceiling_of lg)"
    if "tr_status r = SPending"
  proof -
    have none: "quarantine = None" using that by (auto simp: r quarantined_def split: if_splits)
    with q have "allocation_fits (lg_position lg) (lg_strategy lg) authorized = Inr True"
      by (auto simp: allocate_quarantine_def and_then_Inr split: if_splits)
    from allocation_fits_True [OF this zero] show ?thesis by (simp add: r none new_allocation_def)
  qed
  have "book_inv (record_at rt lg) ((transfers (lg_slots lg))(record_at rt lg (tr_transfer_id r) \<mapsto> r)) p'
      (ceiling_of lg) (ta_amount t)"
    by (rule book_open [OF inv _ idle ok])
      (use tk(3) tid zero fits in \<open>auto simp: transfers_None r p' quarantined_def new_allocation_def
        quarantine_transfer_def open_transfer_def committed_def accounted_def\<close>)
  then show ?thesis
    using t tid(2) ck by (simp add: books_ok_def books_def custody_of_def 1(16) transfers_opened)
qed

lemma books_okE:
  assumes "books_ok rt lg"
  obtains t where "custody_of lg = Some t"
    "book_inv (record_at rt lg) (transfers (lg_slots lg)) (lg_position lg) (ceiling_of lg) (ta_amount t)"
  using assms by (auto simp: books_ok_def books_def)

lemma books_okI:
  assumes "custody_of lg = Some t"
    "book_inv (record_at rt lg) (transfers (lg_slots lg)) (lg_position lg) (ceiling_of lg) (ta_amount t)"
  shows "books_ok rt lg"
  using assms by (auto simp: books_ok_def books_def)

lemma books_frame:
  assumes "books_ok rt lg" "lg_key lg' = lg_key lg" "lg_strategy lg' = lg_strategy lg" "lg_position lg' = lg_position lg"
    and "custody_of lg' = custody_of lg" "transfers (lg_slots lg') = transfers (lg_slots lg)"
  shows "books_ok rt lg'"
  using assms by (simp add: books_ok_def books_def)

lemma recall_books:
  assumes "handle_recall rt v g tk ck bs clock lg = Inr lg'" "books_ok rt lg"
  shows "books_ok rt lg'"
  using assms(1)
proof (cases rule: handle_recall_step)
  case (1 m mid fresh body requested minimum bump cbump r p' evs)
  note tk = 1(4-6) and idle = 1(7) and n = 1(9) and ck = 1(11,12) and r = 1(13)
  obtain t where t: "custody_of lg = Some t" and
    inv: "book_inv (record_at rt lg) (transfers (lg_slots lg)) (lg_position lg) (ceiling_of lg) (ta_amount t)"
    using assms(2) by (rule books_okE)
  have zero: "ps_recalled_custody (lg_position lg) = 0"
    using inv idle by (auto simp: book_inv_def idle_recalled)
  have tid: "tr_transfer_id r = rc_transfer_id body" "tr_transfer_kind r = KRecall"
    using r by (auto simp: new_recall_def quarantined_def reserve_recall_custody_Inr split: if_splits)
  have at: "tk = record_at rt lg (tr_transfer_id r)"
    using tk(1) by (auto simp: tid dest: arg_cong [of _ _ fst])
  have "book_inv (record_at rt lg) ((transfers (lg_slots lg))(record_at rt lg (tr_transfer_id r) \<mapsto> r)) p'
      (ceiling_of lg) (ta_amount t)"
    by (rule book_open [OF inv _ idle])
      (use n tk(2,3) at tid zero r in \<open>auto simp: transfers_None quarantined_def new_recall_def unat_min unat_gt_0
        quarantine_transfer_def open_transfer_def committed_def accounted_def reserve_recall_custody_Inr
        record_ok_def recall_ok_def STATE_VERSION_def split: if_splits\<close>)
  then show ?thesis
    using t at ck by (intro books_okI [of _ t]) (simp_all add: custody_of_def 1(14) transfers_opened)
qed

section \<open>Admission from quarantine\<close>

lemma admits_books:
  assumes inv: "book_inv (record_at rt lg) (transfers (lg_slots lg)) (lg_position lg) (ceiling_of lg) c"
    and "admits lg g tk r r' p'"
  shows "book_inv (record_at rt lg) ((transfers (lg_slots lg))(tk \<mapsto> r')) p' (ceiling_of lg) c"
proof -
  let ?A = "record_at rt lg" and ?T = "transfers (lg_slots lg)" and ?p = "lg_position lg"
  have r: "?T tk = Some r" "check_quarantined r ?p = Inr ()" "admission_terms r lg = Inr None"
    using assms(2) by (simp_all add: admits_def)
  have T: "records_ok ?A ?T" "cycle_ok ?A ?T ?p" using inv by (simp_all add: book_inv_def)
  have ok: "tk = ?A (tr_transfer_id r)" "record_ok r" using records_okD [OF T(1) r(1)] by simp_all
  have q: "tr_status r = SQuarantined" "tr_transfer_id r = ps_active_transfer_id ?p"
      "tr_transfer_kind r = ps_active_transfer_kind ?p" "tr_message_sequence r = ps_active_transfer_sequence ?p"
    using r(2) by (simp_all add: check_quarantined_Inr)
  have kind: "ps_active_transfer_kind ?p = KAllocate \<or> ps_active_transfer_kind ?p = KRecall"
    using r(3) q(3) by (auto simp: admission_terms_def split: transfer_kind.splits)
  then have "ps_active_transfer_kind ?p \<noteq> KNone" by auto
  with open_recordI [OF T r(1)] q(2) have rec: "open_record ?A ?T ?p r" by simp
  from kind show ?thesis
  proof
    assume k: "ps_active_transfer_kind ?p = KAllocate"
    then have a: "allocation_ok r" using ok(2) q(3) by (simp add: record_ok_def)
    have zero: "ps_recalled_custody ?p = 0"
      using rec a by (simp add: open_record_def allocation_ok_def recall_fields_zero_def unat_eq_zero)
    have new: "r' = r\<lparr>tr_status := SPending\<rparr>" "p' = admit_transfer ?p"
      using assms(2) q(3) k by (simp_all add: admits_def)
    have r': "record_ok r'" using ok(2) q k by (auto simp: new record_ok_def allocation_ok_def recall_fields_zero_def)
    have "allocation_fits ?p (lg_strategy lg) (tr_authorized_amount r) = Inr True"
      using r(3) q(3) k by (auto simp: admission_terms_def and_then_Inr split: if_splits)
    from allocation_fits_True [OF this zero]
    have fits: "committed p' + pending_claim ?A (?T(?A (tr_transfer_id r) \<mapsto> r')) p' \<le> unat (ceiling_of lg)"
      using q(2) k by (simp add: new admit_transfer_def committed_def pending_claim_def)
    have "book_inv ?A (?T(?A (tr_transfer_id r) \<mapsto> r')) p' (ceiling_of lg) c"
    proof (rule book_change [OF inv rec r' _ _ _ disjI2 [OF fits] _ cycle_stays [OF rec r']])
      show "accounted p' \<le> unat c"
        using inv by (simp add: new admit_transfer_def book_inv_def accounted_def)
    qed (use rec q k a in \<open>simp_all add: new admit_transfer_def committed_def open_record_def\<close>)
    then show ?thesis by (simp add: ok(1))
  next
    assume k: "ps_active_transfer_kind ?p = KRecall"
    then have a: "recall_ok r" using ok(2) q(3) by (simp add: record_ok_def)
    obtain n r1 p1 where res: "reserve_recall_custody r ?p = Inr (n, r1, p1)"
      and new: "r' = r1\<lparr>tr_status := SPending\<rparr>" "p' = admit_transfer p1"
      using assms(2) q(3) k by (auto simp: admits_def)
    have n: "unat n \<le> unat (tr_requested_recall_amount r)" using res by (simp add: reserve_recall_custody_Inr unat_min)
    have r': "record_ok r'"
      using ok(2) q k n res by (auto simp: new record_ok_def recall_ok_def reserve_recall_custody_Inr)
    have moved: "committed p' = committed ?p" "accounted p' = accounted ?p"
        "ps_cumulative_realized_loss p' = ps_cumulative_realized_loss ?p"
        "unat (ps_recalled_custody p') = unat (ps_recalled_custody ?p) + unat n"
      using res by (auto simp: new admit_transfer_def reserve_recall_custody_Inr committed_def accounted_def)
    have keep: "ps_active_transfer_kind p' = KRecall" "ps_active_transfer_id p' = ps_active_transfer_id ?p"
        "ps_active_transfer_status p' = SPending" "ps_active_transfer_sequence p' = ps_active_transfer_sequence ?p"
        "r' = r\<lparr>tr_custody_principal_reserved := n, tr_status := SPending\<rparr>"
      using res k by (auto simp: new admit_transfer_def reserve_recall_custody_Inr)
    have room: "committed p' + pending_claim ?A (?T(?A (tr_transfer_id r) \<mapsto> r')) p' \<le>
        committed ?p + pending_claim ?A ?T ?p"
      using moved(1) keep(1) by (simp add: pending_claim_def)
    have "book_inv ?A (?T(?A (tr_transfer_id r) \<mapsto> r')) p' (ceiling_of lg) c"
    proof (rule book_change [OF inv rec r' _ _ _ disjI1 [OF room] _ cycle_stays [OF rec r']])
      show "accounted p' \<le> unat c" using inv moved(2) by (simp add: book_inv_def)
      show "unat (ps_recalled_custody p') + returned_of r' =
          unat (tr_custody_principal_reserved r') + unat (tr_assets_withdrawn r')"
        using rec a q(1) moved(4) by (simp add: keep(5) open_record_def recall_ok_def)
    qed (use q k moved in \<open>simp_all add: keep\<close>)
    then show ?thesis by (simp add: ok(1))
  qed
qed

lemma resolve_books:
  assumes "handle_resolve rt v g tk ck bs clock lg = Inr lg'" "books_ok rt lg"
  shows "books_ok rt lg'"
  using assms(1)
proof (cases rule: handle_resolve_step)
  case (1 m mid fresh body cbump sl p' evs kind outcome)
  obtain t where t: "custody_of lg = Some t" and
    inv: "book_inv (record_at rt lg) (transfers (lg_slots lg)) (lg_position lg) (ceiling_of lg) (ta_amount t)"
    using assms(2) by (rule books_okE)
  have "sl ck = None \<and> book_inv (record_at rt lg) (transfers sl) p' (ceiling_of lg) (ta_amount t)"
    using 1(6)
  proof
    assume "outcome \<noteq> OAdmitted \<and> sl = lg_slots lg \<and> p' = lg_position lg \<and> evs = []"
    then show ?thesis using inv 1(5) by simp
  next
    assume a: "outcome = OAdmitted \<and> may_move lg g \<and>
     (\<exists>r r'. admits lg g tk r r' p' \<and> sl = (lg_slots lg)(tk \<mapsto> TransferSlot r')) \<and>
     (evs = [] \<or> (\<exists>n rem. evs = [RecallCustodyReserved (lg_key lg) tk (rv_transfer_id body) n rem clock]))"
    then obtain r r' where r: "admits lg g tk r r' p'" "sl = (lg_slots lg)(tk \<mapsto> TransferSlot r')" by blast
    moreover from r(1) 1(5) have "ck \<noteq> tk" by (auto simp: admits_def)
    ultimately show ?thesis using admits_books [OF inv r(1)] 1(5) by simp
  qed
  then show ?thesis
    using t by (intro books_okI [of _ t]) (simp_all add: custody_of_def 1(7) transfers_consumed)
qed

lemma config_update_books:
  assumes "handle_config_update rt v ck bs clock lg = Inr lg'" "books_ok rt lg"
  shows "books_ok rt lg'"
  using assms(1)
proof (cases rule: handle_config_update_step)
  case (1 m mid fresh body cbump c' risk' ev)
  have "cf_custody_token_account c' = cf_custody_token_account (lg_config lg)"
    using 1(6) by (auto split: if_splits)
  then show ?thesis
    using 1(5) by (intro books_frame [OF assms(2)]) (simp_all add: 1(7) custody_of_def transfers_consumed)
qed

section \<open>Custody and the strategy\<close>

lemma reconcile_books:
  assumes "process_reconcile_custody rt key clock lg = Inr lg'" "books_ok rt lg"
  shows "books_ok rt lg'"
  using assms(1)
proof (cases rule: process_reconcile_step)
  case (1 t s p')
  from assms(2) obtain t' where "custody_of lg = Some t'"
    "book_inv (record_at rt lg) (transfers (lg_slots lg)) (lg_position lg) (ceiling_of lg) (ta_amount t')"
    by (rule books_okE)
  from book_reconcile(1) [OF this(2) 1(2)] 1(1) show ?thesis
    by (intro books_okI [of _ t]) (simp_all add: custody_of_def 1(3))
qed

text \<open>An attribution keeps the open allocation's record and the position in step.\<close>

lemma attributes_facts:
  assumes "attributes c n r r' p p'"
  shows "\<exists>k. r' = r\<lparr>tr_attributed_amount := k\<rparr>" "attributed_of r' = attributed_of r + n"
    "committed p' = committed p + n" "accounted p' = unat c"
    "attributed_of r + n \<le> unat (tr_authorized_amount r)"
    "ps_recalled_custody p' = ps_recalled_custody p"
    "ps_cumulative_realized_loss p' = ps_cumulative_realized_loss p"
    "ps_active_transfer_id p' = ps_active_transfer_id p"
    "ps_active_transfer_kind p' = ps_active_transfer_kind p"
    "ps_active_transfer_sequence p' = ps_active_transfer_sequence p"
    "ps_active_transfer_status p' = ps_active_transfer_status p"
proof -
  obtain s p1 u a credited where rec: "reconcile p c = Inr (s, p1)"
    and n: "n = min (unat (tr_authorized_amount r) - unat (tr_attributed_amount r)) (unat (ps_unattributed_custody p1))"
      "unat (tr_attributed_amount r) \<le> unat (tr_authorized_amount r)"
    and a: "unat a = unat (ps_attributed_principal p1) + n" "unat credited = unat (tr_attributed_amount r) + n"
      "r' = r\<lparr>tr_attributed_amount := credited\<rparr>" "p' = p1\<lparr>ps_unattributed_custody := u, ps_attributed_principal := a\<rparr>"
      "accounted p' = unat c"
    using assms unfolding attributes_def by blast
  note keep = reconcile_keeps [OF rec]
  show "\<exists>k. r' = r\<lparr>tr_attributed_amount := k\<rparr>" using a(3) by blast
  show "attributed_of r + n \<le> unat (tr_authorized_amount r)" using n by linarith
  show "attributed_of r' = attributed_of r + n" using a(2) by (simp add: a(3))
  show "committed p' = committed p + n" using a(1) by (simp add: a(4) keep committed_def)
  show "accounted p' = unat c" by (rule a(5))
  show "ps_recalled_custody p' = ps_recalled_custody p"
    "ps_cumulative_realized_loss p' = ps_cumulative_realized_loss p"
    "ps_active_transfer_id p' = ps_active_transfer_id p"
    "ps_active_transfer_kind p' = ps_active_transfer_kind p"
    "ps_active_transfer_sequence p' = ps_active_transfer_sequence p"
    "ps_active_transfer_status p' = ps_active_transfer_status p"
    by (simp_all add: a(4) keep)
qed

lemma pending_claim_open:
  assumes "open_record A T p r" "ps_active_transfer_kind p = KAllocate" "ps_active_transfer_status p = SPending"
  shows "pending_claim A T p = unat (tr_authorized_amount r) - attributed_of r"
  using assms by (simp add: pending_claim_def open_record_def)

lemma pending_claim_none:
  "ps_active_transfer_kind p \<noteq> KAllocate \<Longrightarrow> pending_claim A T p = 0"
  by (simp add: pending_claim_def)

lemma open_record_facts:
  assumes "book_inv A T p m c" "open_record A T p r"
  shows "record_ok r" "tr_transfer_kind r = ps_active_transfer_kind p" "tr_status r = ps_active_transfer_status p"
    "tr_transfer_id r = ps_active_transfer_id p"
    "unat (ps_recalled_custody p) + returned_of r = unat (tr_custody_principal_reserved r) + unat (tr_assets_withdrawn r)"
proof -
  have "T (A (ps_active_transfer_id p)) = Some r" using assms(2) by (simp add: open_record_def)
  with assms(1) show "record_ok r" by (auto simp: book_inv_def dest: records_okD)
qed (use assms(2) in \<open>simp_all add: open_record_def\<close>)

lemma open_allocation_facts:
  assumes "book_inv A T p m c" "open_record A T p r" "ps_active_transfer_kind p = KAllocate"
  shows "allocation_ok r" "recall_fields_zero r" "ps_recalled_custody p = 0"
proof -
  note f = open_record_facts [OF assms(1,2)]
  show a: "allocation_ok r" using f(1,2) assms(3) by (simp add: record_ok_def)
  then show z: "recall_fields_zero r" by (simp add: allocation_ok_def)
  show "ps_recalled_custody p = 0" using f(5) z by (simp add: recall_fields_zero_def unat_eq_zero)
qed

text \<open>The attribution ends the cycle: by completing the allocation, or by closing it short.\<close>

lemma book_attribute_ends:
  assumes inv: "book_inv A T p m c0" and rec: "open_record A T p r"
    and at: "attributes c n r r1 p p1" and r': "record_ok r'" "r' = r1\<lparr>tr_status := s, tr_completed_at := clock\<rparr>"
    and s: "\<not> open_status s" and k: "ps_active_transfer_kind p = KAllocate" "ps_active_transfer_status p = SPending"
    and p': "p' = close_transfer p1 \<or> p' = complete_transfer tid clock p1"
  shows "book_inv A (T(A (tr_transfer_id r) \<mapsto> r')) p' m c"
proof -
  note f = attributes_facts [OF at]
  obtain k' where r1: "r1 = r\<lparr>tr_attributed_amount := k'\<rparr>" using f(1) by blast
  note zeros = open_allocation_facts(2,3) [OF inv rec k(1)]
  have same: "committed p' = committed p1" "accounted p' = accounted p1"
      "ps_recalled_custody p' = ps_recalled_custody p1"
      "ps_cumulative_realized_loss p' = ps_cumulative_realized_loss p1" "ps_active_transfer_kind p' = KNone"
      "ps_active_transfer_id p' = 0" "ps_active_transfer_sequence p' = 0" "ps_active_transfer_status p' = SNone"
    using p' by (auto simp: close_transfer_def complete_transfer_def committed_def accounted_def)
  have room: "committed p' + pending_claim A (T(A (tr_transfer_id r) \<mapsto> r')) p' \<le> committed p + pending_claim A T p"
    using f(3,5) by (simp add: same pending_claim_none pending_claim_open [OF rec k])
  show ?thesis
    by (rule book_change [OF inv rec r'(1) _ _ _ disjI1 [OF room] _ cycle_ends [OF rec]])
      (use s zeros f in \<open>simp_all add: same r'(2) r1 recall_fields_zero_def\<close>)
qed

lemma book_attribute_stays:
  assumes inv: "book_inv A T p m c0" and rec: "open_record A T p r" and at: "attributes c n r r1 p p1"
    and k: "ps_active_transfer_kind p = KAllocate" "ps_active_transfer_status p = SPending"
    and short: "tr_attributed_amount r1 \<noteq> tr_authorized_amount r1"
  shows "book_inv A (T(A (tr_transfer_id r) \<mapsto> r1)) p1 m c"
proof -
  note f = attributes_facts [OF at]
  obtain k' where r1: "r1 = r\<lparr>tr_attributed_amount := k'\<rparr>" using f(1) by blast
  have r: "record_ok r" "recall_fields_zero r" "tr_status r = SPending" "tr_transfer_kind r = KAllocate"
    using open_record_facts [OF inv rec] open_allocation_facts [OF inv rec k(1)] k by simp_all
  have "unat (tr_attributed_amount r1) < unat (tr_authorized_amount r1)"
    using f(2,5) short by (simp add: r1 word_eq_unat)
  then have r1ok: "record_ok r1"
    using r by (simp add: r1 record_ok_def allocation_ok_def recall_fields_zero_def)
  have rec1: "open_record A (T(A (tr_transfer_id r) \<mapsto> r1)) p1 r1"
    using rec f by (auto simp: open_record_def r1)
  have room: "committed p1 + pending_claim A (T(A (tr_transfer_id r) \<mapsto> r1)) p1 \<le> committed p + pending_claim A T p"
    using f(2,3,5) pending_claim_open [OF rec k] pending_claim_open [OF rec1] k f(9,11) by (simp add: r1)
  show ?thesis
    by (rule book_change [OF inv rec r1ok _ _ _ disjI1 [OF room]])
      (use f open_record_cycle [OF rec1 r1ok] r in \<open>simp_all add: r1 recall_fields_zero_def\<close>)
qed

lemma attribute_books:
  assumes "process_attribute_allocation rt tk key g clock lg = Inr lg'" "books_ok rt lg"
  shows "books_ok rt lg'"
  using assms(1)
proof (cases rule: process_attribute_step)
  case (1 t r n r1 p1)
  let ?A = "record_at rt lg" and ?T = "transfers (lg_slots lg)" and ?p = "lg_position lg"
  obtain t' where "custody_of lg = Some t'" and inv: "book_inv ?A ?T ?p (ceiling_of lg) (ta_amount t')"
    using assms(2) by (rule books_okE)
  have a: "tr_transfer_kind r = KAllocate" "tr_status r = SPending" "ps_active_transfer_kind ?p = KAllocate"
      "ps_active_transfer_id ?p = tr_transfer_id r"
    using 1(3) by (simp_all add: check_active_Inr)
  have T: "records_ok ?A ?T" "cycle_ok ?A ?T ?p" using inv by (simp_all add: book_inv_def)
  have rec: "open_record ?A ?T ?p r" "tk = ?A (tr_transfer_id r)"
    using open_recordI [OF T, of tk r] 1(2) a by simp_all
  have ok: "record_ok r" using records_okD [OF T(1)] 1(2) by simp
  have k: "ps_active_transfer_kind ?p = KAllocate" "ps_active_transfer_status ?p = SPending"
    using rec(1) a by (simp_all add: open_record_def)
  note f = attributes_facts [OF 1(5)]
  obtain k' where r1: "r1 = r\<lparr>tr_attributed_amount := k'\<rparr>" using f(1) by blast
  show ?thesis
  proof (cases "tr_attributed_amount r1 = tr_authorized_amount r1")
    case True
    then have "record_ok (r1\<lparr>tr_status := SComplete, tr_completed_at := clock\<rparr>)"
      using ok a by (simp add: r1 record_ok_def allocation_ok_def recall_fields_zero_def)
    from book_attribute_ends [OF inv rec(1) 1(5) this refl _ k disjI2 [OF refl]] True 1(1,7)
    show ?thesis by (intro books_okI [of _ t]) (simp_all add: custody_of_def rec(2))
  next
    case False
    with book_attribute_stays [OF inv rec(1) 1(5) k False] 1(1,7)
    show ?thesis by (intro books_okI [of _ t]) (simp_all add: custody_of_def rec(2))
  qed
qed

lemma deploy_books:
  assumes "process_deploy_to_strategy rt a receipt tx n clock lg = Inr lg'" "books_ok rt lg"
  shows "books_ok rt lg'"
  using assms(1)
proof (cases rule: process_deploy_step)
  case (1 t s p1 w after p' pol receipt vault)
  obtain t' where "custody_of lg = Some t'" and
    inv: "book_inv (record_at rt lg) (transfers (lg_slots lg)) (lg_position lg) (ceiling_of lg) (ta_amount t')"
    using assms(2) by (rule books_okE)
  obtain x d where p': "p' = p1\<lparr>ps_attributed_principal := x, ps_deployed_principal := d\<rparr>"
    "unat (ps_attributed_principal p1) = unat n + unat x" "unat d = unat (ps_deployed_principal p1) + unat n"
    "accounted p' = unat (ta_amount (bl_custody after))"
    using settle_deploy_Inr [OF 1(13)] by auto
  have "book_inv (record_at rt lg) (transfers (lg_slots lg)) p' (ceiling_of lg) (ta_amount (bl_custody after))"
    by (rule book_deploy [OF book_reconcile(1) [OF inv 1(5)], of p' "unat n"]) (use p' in simp_all)
  moreover have "w_tokens w (cf_custody_token_account (lg_config lg)) = Some (bl_custody after)"
    using 1(1,12) by (simp add: reload_Inr)
  ultimately show ?thesis
    by (intro books_okI [of _ "bl_custody after"]) (simp_all add: custody_of_def 1(14))
qed

section \<open>Recalls\<close>

text \<open>
  A step of a recall changes the open record from \<open>r\<close> to \<open>r1\<close> and the position from \<open>p\<close> to \<open>p1\<close>;
  \<open>settle_recall\<close> then completes the record when everything requested is sent or lost.
\<close>

lemma book_recall_step:
  assumes inv: "book_inv A T p m c0" and rec: "open_record A T p r"
    and k: "ps_active_transfer_kind p = KRecall" "ps_active_transfer_status p = SPending"
    and r1: "r1 = r\<lparr>tr_strategy_principal_resolved := rs, tr_assets_withdrawn := w, tr_assets_sent := sent,
      tr_realized_loss := ls\<rparr>"
    and sums: "unat rs = unat w + unat ls" "unat (tr_custody_principal_reserved r) + unat rs \<le> unat (tr_requested_recall_amount r)"
    and p1: "unat (ps_recalled_custody p1) + unat sent = unat (tr_custody_principal_reserved r) + unat w"
      "committed p1 + unat sent + unat ls = committed p + returned_of r + loss_of r"
      "committed p1 \<le> committed p"
      "unat (ps_cumulative_realized_loss p1) + loss_of r = unat (ps_cumulative_realized_loss p) + unat ls"
      "ps_active_transfer_id p1 = ps_active_transfer_id p" "ps_active_transfer_kind p1 = KRecall"
      "ps_active_transfer_sequence p1 = ps_active_transfer_sequence p" "ps_active_transfer_status p1 = SPending"
    and cover: "accounted p1 \<le> unat c" and settle: "settle_recall r1 p1 clock = Inr (b, r2, p2)"
  shows "book_inv A (T(A (tr_transfer_id r) \<mapsto> r2)) p2 m c"
proof -
  note f = open_record_facts [OF inv rec]
  have ok: "recall_ok r" "tr_status r = SPending" "tr_transfer_kind r = KRecall"
    using f(1-3) k by (simp_all add: record_ok_def)
  have bound: "unat sent + unat ls \<le> unat (tr_requested_recall_amount r)"
    using settle by (auto simp: settle_recall_Inr r1)
  have seq: "tr_message_sequence r = ps_active_transfer_sequence p" using rec by (simp add: open_record_def)
  have common: "committed p2 + returned_of r2 + loss_of r2 + attributed_of r =
        committed p + returned_of r + loss_of r + attributed_of r2"
      "unat (ps_cumulative_realized_loss p2) + loss_of r = unat (ps_cumulative_realized_loss p) + loss_of r2"
      "tr_transfer_id r2 = tr_transfer_id r" "accounted p2 \<le> unat c"
      "committed p2 + pending_claim A (T(A (tr_transfer_id r) \<mapsto> r2)) p2 \<le> committed p + pending_claim A T p"
    using settle p1 cover
    by (auto simp: settle_recall_Inr r1 complete_transfer_def committed_def accounted_def pending_claim_def split: if_splits)
  show ?thesis
  proof (cases "unat sent + unat ls = unat (tr_requested_recall_amount r)")
    case True
    with settle have r2: "r2 = r1\<lparr>tr_status := SComplete, tr_completed_at := clock\<rparr>"
        "p2 = complete_transfer (tr_transfer_id r) clock p1"
      by (auto simp: settle_recall_Inr r1)
    have r2ok: "record_ok r2"
      using f(1) ok True sums p1(1) by (simp add: r2 r1 record_ok_def recall_ok_def)
    have "ps_recalled_custody p1 = 0" using True p1(1) sums by (simp add: unat_eq_zero flip: unat_eq_0)
    then show ?thesis
      by (intro book_change [OF inv rec r2ok common(3,1,2) disjI1 [OF common(5)] common(4)] cycle_ends [OF rec])
        (simp_all add: r2 complete_transfer_def)
  next
    case False
    with settle have r2: "r2 = r1" "p2 = p1" by (auto simp: settle_recall_Inr r1)
    have r2ok: "record_ok r2"
      using f(1) ok False bound sums p1(1) by (simp add: r2 r1 record_ok_def recall_ok_def)
    show ?thesis
      by (intro book_change [OF inv rec r2ok common(3,1,2) disjI1 [OF common(5)] common(4)] cycle_stays [OF rec r2ok])
        (use p1 ok seq in \<open>simp_all add: r2 r1\<close>)
  qed
qed

lemma recall_active:
  assumes "books_ok rt lg" "check_active r KRecall (lg_position lg) = Inr ()" "lg_slots lg tk = Some (TransferSlot r)"
    and "reconcile (lg_position lg) c = Inr (s, p1)"
  shows "open_record (record_at rt lg) (transfers (lg_slots lg)) p1 r" "tk = record_at rt lg (tr_transfer_id r)"
    "ps_active_transfer_kind p1 = KRecall" "ps_active_transfer_status p1 = SPending"
    "book_inv (record_at rt lg) (transfers (lg_slots lg)) p1 (ceiling_of lg) c" "recall_ok r"
proof -
  from assms(1) obtain t where "custody_of lg = Some t" and
    inv: "book_inv (record_at rt lg) (transfers (lg_slots lg)) (lg_position lg) (ceiling_of lg) (ta_amount t)"
    by (rule books_okE)
  note keep = reconcile_keeps [OF assms(4)]
  show inv1: "book_inv (record_at rt lg) (transfers (lg_slots lg)) p1 (ceiling_of lg) c"
    by (rule book_reconcile(1) [OF inv assms(4)])
  have a: "ps_active_transfer_kind (lg_position lg) = KRecall" "tr_status r = SPending" "tr_transfer_kind r = KRecall"
      "ps_active_transfer_id (lg_position lg) = tr_transfer_id r"
    using assms(2) by (simp_all add: check_active_Inr)
  have T: "records_ok (record_at rt lg) (transfers (lg_slots lg))" "cycle_ok (record_at rt lg) (transfers (lg_slots lg)) p1"
    using inv1 by (simp_all add: book_inv_def)
  show rec: "open_record (record_at rt lg) (transfers (lg_slots lg)) p1 r" "tk = record_at rt lg (tr_transfer_id r)"
    using open_recordI [OF T, of tk r] assms(3) a by (simp_all add: keep)
  show "ps_active_transfer_kind p1 = KRecall" using a(1) by (simp add: keep)
  show "ps_active_transfer_status p1 = SPending" using open_record_facts(3) [OF inv1 rec(1)] a(2) by simp
  show "recall_ok r" using open_record_facts(1) [OF inv1 rec(1)] a(3) by (simp add: record_ok_def)
qed

lemma withdraw_books:
  assumes "process_withdraw_for_recall rt a tk maximum clock lg = Inr lg'" "books_ok rt lg"
  shows "books_ok rt lg'"
  using assms(1)
proof (cases rule: process_withdraw_step)
  case (1 t vault r s p1 unresolved w after reduction returned lost r1 p2 b r2 p3)
  note act = recall_active [OF assms(2) 1(6,5,7)]
  obtain d c l rs wd ls where
    sums: "unat (ps_deployed_principal p1) = unat reduction + unat d" "unat c = unat (ps_recalled_custody p1) + unat returned"
      "unat l = unat (ps_cumulative_realized_loss p1) + unat lost"
      "unat rs = unat (tr_strategy_principal_resolved r) + unat reduction"
      "unat wd = unat (tr_assets_withdrawn r) + unat returned" "unat ls = unat (tr_realized_loss r) + unat lost"
      "unat reduction = unat returned + unat lost"
      "unat (tr_custody_principal_reserved r) + unat rs \<le> unat (tr_requested_recall_amount r)"
    and r1: "r1 = r\<lparr>tr_strategy_principal_resolved := rs, tr_assets_withdrawn := wd, tr_realized_loss := ls\<rparr>"
    and p2: "p2 = p1\<lparr>ps_deployed_principal := d, ps_recalled_custody := c, ps_cumulative_realized_loss := l\<rparr>"
    and cover: "accounted p2 = unat (ta_amount (bl_custody after))"
    using settle_withdraw_Inr(1) [OF 1(10)] unfolding withdraws_def by blast
  have rs: "unat rs = unat wd + unat ls" using sums(4-7) act(6) by (simp add: recall_ok_def)
  have rec: "unat c + returned_of r = unat (tr_custody_principal_reserved r) + unat wd"
    using sums(2,5) open_record_facts(5) [OF act(5,1)] by simp
  have r1': "r1 = r\<lparr>tr_strategy_principal_resolved := rs, tr_assets_withdrawn := wd,
      tr_assets_sent := tr_assets_sent r, tr_realized_loss := ls\<rparr>"
    by (simp add: r1)
  have "book_inv (record_at rt lg) ((transfers (lg_slots lg))(record_at rt lg (tr_transfer_id r) \<mapsto> r2)) p3
      (ceiling_of lg) (ta_amount (bl_custody after))"
    by (rule book_recall_step [OF act(5,1,3,4) r1' rs sums(8) _ _ _ _ _ _ _ _ _ 1(11)])
      (use sums rec cover act(3,4) in \<open>simp_all add: p2 committed_def\<close>)
  moreover have "w_tokens w (cf_custody_token_account (lg_config lg)) = Some (bl_custody after)"
    using 1(1,9) by (simp add: reload_Inr)
  ultimately show ?thesis
    by (intro books_okI [of _ "bl_custody after"]) (simp_all add: custody_of_def 1(12) act(2))
qed

lemma send_books:
  assumes "process_send_recall rt a tk maximum clock lg = Inr lg'" "books_ok rt lg"
  shows "books_ok rt lg'"
  using assms(1)
proof (cases rule: process_send_step)
  case (1 t escrow r s p1 w t' escrow' r1 p2 b r2 p3 n)
  note act = recall_active [OF assms(2) 1(4,3,5)]
  obtain c sent where p2: "p2 = p1\<lparr>ps_recalled_custody := c\<rparr>" and r1: "r1 = r\<lparr>tr_assets_sent := sent\<rparr>"
    and sums: "unat (ps_recalled_custody p1) = unat n + unat c" "unat sent = unat (tr_assets_sent r) + unat n"
    and cover: "accounted p2 = unat (ta_amount t')"
    using settle_send_Inr [OF 1(10)] by blast
  have r1': "r1 = r\<lparr>tr_strategy_principal_resolved := tr_strategy_principal_resolved r,
      tr_assets_withdrawn := tr_assets_withdrawn r, tr_assets_sent := sent, tr_realized_loss := tr_realized_loss r\<rparr>"
    by (simp add: r1)
  have "book_inv (record_at rt lg) ((transfers (lg_slots lg))(record_at rt lg (tr_transfer_id r) \<mapsto> r2)) p3
      (ceiling_of lg) (ta_amount t')"
    by (rule book_recall_step [OF act(5,1,3,4) r1' _ _ _ _ _ _ _ _ _ _ _ 1(11)])
      (use sums act(3,4,6) cover open_record_facts(5) [OF act(5,1)] in
        \<open>simp_all add: p2 committed_def recall_ok_def\<close>)
  then show ?thesis
    using 1(8) by (intro books_okI [of _ t']) (simp_all add: custody_of_def 1(12) act(2))
qed

section \<open>Publications\<close>

lemma report_books:
  assumes "process_publish_remote_report rt key ak rk active epoch clock lg = Inr lg'" "books_ok rt lg"
  shows "books_ok rt lg'"
  using assms(1)
proof (cases rule: process_publish_remote_report_step)
  case (1 t s p1 in_flight principal built bump outbound' body)
  from assms(2) obtain t' where "custody_of lg = Some t'"
    "book_inv (record_at rt lg) (transfers (lg_slots lg)) (lg_position lg) (ceiling_of lg) (ta_amount t')"
    by (rule books_okE)
  from book_reconcile(1) [OF this(2) 1(2)] 1(1,9) show ?thesis
    by (intro books_okI [of _ t]) (simp_all add: custody_of_def 1(11) transfers_other report_entry_def)
qed

lemma notice_books:
  assumes "process_publish_recall_sent rt tk rk mk clock lg = Inr lg'" "books_ok rt lg"
  shows "books_ok rt lg'"
  using assms(1)
proof (cases rule: process_publish_recall_sent_step)
  case (1 r sent built bump mbump outbound' body)
  then show ?thesis
    by (intro books_frame [OF assms(2)]) (simp_all add: custody_of_def transfers_other report_entry_def)
qed

section \<open>Settlements\<close>

lemma record_close_order:
  "r\<lparr>tr_completed_at := n, tr_status := s\<rparr> = r\<lparr>tr_status := s, tr_completed_at := n\<rparr>"
  by (cases r) simp

lemma close_books:
  assumes inv: "book_inv (record_at rt lg) (transfers (lg_slots lg)) (lg_position lg) (ceiling_of lg) c"
    and "settle_close_leg tk body c l clock lg = Inr (s, l', lg1)"
  shows "book_inv (record_at rt lg) (transfers (lg_slots lg1)) (lg_position lg1) (ceiling_of lg) c"
  using assms(2)
proof (cases rule: settle_close_leg_Inr)
  case (1 r r1 p' missing)
  let ?A = "record_at rt lg" and ?T = "transfers (lg_slots lg)" and ?p = "lg_position lg"
  have T: "records_ok ?A ?T" "cycle_ok ?A ?T ?p" using inv by (simp_all add: book_inv_def)
  have r: "tk = ?A (tr_transfer_id r)" "record_ok r" "allocation_ok r"
    using records_okD [OF T(1), of tk r] 1(1,2) by (simp_all add: record_ok_def)
  have active: "open_record ?A ?T ?p r"
    if "holds_allocation ?p (tr_transfer_id r) q" for q
    using open_recordI(1) [OF T, of tk r] 1(1) that by (simp add: holds_allocation_def)
  have "book_inv ?A (?T(?A (tr_transfer_id r) \<mapsto> r1\<lparr>tr_status := SClosed\<rparr>)) p' (ceiling_of lg) c"
    using 1(4)
  proof (elim disjE conjE)
    assume "tr_status r = SPending" "close_pending c clock r ?p = Inr (r1, p')"
    from this(2) show ?thesis
    proof (rule close_pending_Inr)
      fix n r0 p0
      assume at: "attributes c n r r0 ?p p0" and r1: "r1 = r0\<lparr>tr_completed_at := clock\<rparr>" and p': "p' = close_transfer p0"
        and h: "holds_allocation ?p (tr_transfer_id r) (tr_message_sequence r)" "ps_active_transfer_status ?p = SPending"
      obtain k where r0: "r0 = r\<lparr>tr_attributed_amount := k\<rparr>" using attributes_facts(1) [OF at] by blast
      have rok: "record_ok (r0\<lparr>tr_status := SClosed, tr_completed_at := clock\<rparr>)"
        using r 1(2,5) \<open>tr_status r = SPending\<close>
        by (simp add: r0 r1 record_ok_def allocation_ok_def recall_fields_zero_def)
      show ?thesis
        unfolding r1 record_close_order
        by (rule book_attribute_ends [OF inv active [OF h(1)] at rok refl _ _ h(2) disjI1 [OF p']])
          (use h(1) in \<open>simp_all add: holds_allocation_def\<close>)
    qed
  next
    assume q: "tr_status r = SQuarantined" "close_quarantined clock r ?p = Inr (r1, p')"
    then have h: "holds_allocation ?p (tr_transfer_id r) (tr_message_sequence r)" "tr_attributed_amount r = 0"
        "r1 = r\<lparr>tr_completed_at := clock\<rparr>" "p' = close_transfer ?p"
      by (auto simp: close_quarantined_def and_then_Inr require_Inr)
    note rec = active [OF h(1)]
    have k: "ps_active_transfer_kind ?p = KAllocate" using h(1) by (simp add: holds_allocation_def)
    have rok: "record_ok (r1\<lparr>tr_status := SClosed\<rparr>)"
      using r 1(2) q(1) by (simp add: h record_ok_def allocation_ok_def recall_fields_zero_def)
    have same: "committed p' = committed ?p" "accounted p' = accounted ?p"
      by (simp_all add: h close_transfer_def committed_def accounted_def)
    show ?thesis
    proof (rule book_change [OF inv rec rok _ _ _ disjI1 _ cycle_ends [OF rec]])
      show "accounted p' \<le> unat c" using inv same by (simp add: book_inv_def)
    qed (use open_allocation_facts(3) [OF inv rec k] same in
        \<open>simp_all add: h(3,4) close_transfer_def pending_claim_none\<close>)
  next
    assume q: "tr_status r = SComplete" "close_complete r ?p = Inr (r1, p')"
    then have h: "ps_active_transfer_kind ?p = KNone" "r1 = r" "p' = ?p"
      by (auto simp: close_complete_def and_then_Inr require_Inr check_no_active_Inr)
    have rok: "record_ok (r\<lparr>tr_status := SClosed\<rparr>)"
      using r 1(2) q(1) by (simp add: record_ok_def allocation_ok_def recall_fields_zero_def)
    show ?thesis
      unfolding h(2,3) by (rule book_mark_closed [OF inv _ q(1) rok _ _ _ _ _ h(1)]) (use 1(1) r(1) in simp_all)
  qed
  then show ?thesis by (simp add: 1(7) r(1))
qed

lemma recover_books:
  assumes inv: "book_inv (record_at rt lg) (transfers (lg_slots lg)) (lg_position lg) (ceiling_of lg) c"
    and "settle_recover_leg tk body bump seq c l clock lg = Inr (s, l', lg1)"
    and tk: "tk = record_at rt lg (rv_transfer_id body)" "rv_transfer_id body \<noteq> 0"
  shows "book_inv (record_at rt lg) (transfers (lg_slots lg1)) (lg_position lg1) (ceiling_of lg) c"
  using assms(2)
proof (cases rule: settle_recover_Inr)
  case (1 credited p')
  let ?A = "record_at rt lg" and ?T = "transfers (lg_slots lg)" and ?p = "lg_position lg"
  let ?r = "new_recovery bump (rv_transfer_id body) seq credited clock"
  obtain s p1 u x where rec: "reconcile ?p c = Inr (s, p1)"
    and n: "unat (ps_unattributed_custody p1) = unat credited + unat u" "unat x = unat (ps_attributed_principal p1) + unat credited"
      "unat credited = min (min (unat (ps_unattributed_custody p1)) (unat (tl_impaired_outstanding l)))
          (unat (ceiling_of lg) - committed ?p)"
    and p': "p' = p1\<lparr>ps_unattributed_custody := u, ps_attributed_principal := x\<rparr>" "accounted p' = unat c"
    using 1(5) unfolding recovers_def by blast
  note keep = reconcile_keeps [OF rec]
  have room: "committed ?p \<le> unat (ceiling_of lg)" using inv by (simp add: book_inv_def)
  have moved: "committed p' = committed ?p + unat credited" using n(2) by (simp add: p' keep committed_def)
  have "book_inv ?A (?T(?A (tr_transfer_id ?r) \<mapsto> ?r)) p' (ceiling_of lg) c"
    by (rule book_recover [OF inv _ 1(3)])
      (use 1(3,4) tk moved n(3) room p'(2) in \<open>simp_all add: transfers_None new_recovery_def record_ok_def recovery_ok_def
        recall_fields_zero_def STATE_VERSION_def p'(1) keep\<close>)
  then show ?thesis by (simp add: 1(7) tk(1)) (simp add: new_recovery_def)
qed

text \<open>The slots a settlement writes: the record, the ledger, the report and the consumed message.\<close>

lemma settles_slots:
  assumes "settles rt tk body seq c l existed clock lg s l' lg1" "ledger_at (lg_slots lg) lk l existed"
    and "existed \<or> lg_slots lg1 lk = None"
  obtains r' p' where "lg1 = lg\<lparr>lg_position := p', lg_slots := (lg_slots lg)(tk \<mapsto> TransferSlot r')\<rparr>"
    "lg_slots lg tk = None \<or> (\<exists>r. lg_slots lg tk = Some (TransferSlot r))" "tk \<noteq> lk"
    "lg_slots lg lk = None \<or> lg_slots lg lk = Some (LedgerSlot l)"
proof -
  from assms(1) obtain r' p' where lg1: "lg1 = lg\<lparr>lg_position := p', lg_slots := (lg_slots lg)(tk \<mapsto> TransferSlot r')\<rparr>"
    by (rule settles_frame)
  have "lg_slots lg tk = None \<or> (\<exists>r. lg_slots lg tk = Some (TransferSlot r))"
    using assms(1) unfolding settles_def by (auto elim: settle_close_leg_Inr settle_recover_Inr)
  moreover from this have "tk \<noteq> lk" using assms(2,3) by (auto simp: ledger_at_def lg1)
  moreover have "lg_slots lg lk = None \<or> lg_slots lg lk = Some (LedgerSlot l)"
    using assms(2) by (auto simp: ledger_at_def)
  ultimately show thesis using that [OF lg1] by blast
qed

lemma settlement_books:
  assumes "handle_settlement rt a bs clock lg = Inr lg'" "books_ok rt lg"
  shows "books_ok rt lg'"
  using assms(1)
proof (cases rule: handle_settlement_step)
  case (1 m mid fresh body cbump t l existed s l' lg1 built rbump outbound')
  let ?tk = "sa_transfer_record a" and ?lk = "sa_transport_ledger a"
  obtain t' where "custody_of lg = Some t'" and
    "book_inv (record_at rt lg) (transfers (lg_slots lg)) (lg_position lg) (ceiling_of lg) (ta_amount t')"
    using assms(2) by (rule books_okE)
  with 1(6) have inv: "book_inv (record_at rt lg) (transfers (lg_slots lg)) (lg_position lg) (ceiling_of lg) (ta_amount t)"
    by (simp add: custody_of_def)
  have tid: "rv_transfer_id body \<noteq> 0"
    using inboundD(1) [OF 1(1)] 1(2) by (simp add: message_valid_def resolve_rules_def)
  have book1: "book_inv (record_at rt lg) (transfers (lg_slots lg1)) (lg_position lg1) (ceiling_of lg) (ta_amount t)"
    using 1(9) close_books [OF inv] recover_books [OF inv _ 1(4) tid] unfolding settles_def by blast
  obtain r' p' where lg1: "lg1 = lg\<lparr>lg_position := p', lg_slots := (lg_slots lg)(?tk \<mapsto> TransferSlot r')\<rparr>"
    "?tk \<noteq> ?lk" "lg_slots lg ?lk = None \<or> lg_slots lg ?lk = Some (LedgerSlot l)"
    using 1(9,8,10) by (rule settles_slots)
  have "not_transfer (lg_slots lg1 ?lk)" using lg1 by auto
  then have "transfers (lg_slots lg') = transfers (lg_slots lg1)"
    using 1(13,15) by (simp add: 1(17) transfers_consumed transfers_other report_entry_def)
  then show ?thesis
    using book1 1(6) by (intro books_okI [of _ t]) (simp_all add: 1(17) lg1(1) custody_of_def)
qed

section \<open>Administration and other programs\<close>

lemma admin_books:
  assumes "books_ok rt lg"
  shows "process_freeze authority clock lg = Inr lg' \<Longrightarrow> books_ok rt lg'"
    and "process_advance_replay_watermark rt adm n clock lg = Inr lg' \<Longrightarrow> books_ok rt lg'"
    and "process_close_consumed_message rt adm ck clock lg = Inr lg' \<Longrightarrow> books_ok rt lg'"
    and "process_initialize_deploy_authorization rt adm key clock lg = Inr lg' \<Longrightarrow> books_ok rt lg'"
  by (auto elim!: process_freeze_step process_watermark_step process_close_consumed_step process_adopt_step
      intro!: books_frame [OF assms] simp: custody_of_def transfers_other)

lemma dispatch_books:
  assumes "dispatch rt call clock lg = Inr lg'" "books_ok rt lg"
  shows "books_ok rt lg'"
  using assms
  by (cases call) (auto intro: allocate_books recall_books resolve_books settlement_books config_update_books
      reconcile_books attribute_books deploy_books withdraw_books send_books report_books notice_books admin_books)

lemma step_books:
  assumes "leg_step rt lg lg'" "books_ok rt lg"
  shows "books_ok rt lg'"
  using assms(1)
proof cases
  case (instruction c clock)
  then show ?thesis using assms(2) by (rule dispatch_books)
next
  case (others w)
  obtain t where t: "custody_of lg = Some t" and
    inv: "book_inv (record_at rt lg) (transfers (lg_slots lg)) (lg_position lg) (ceiling_of lg) (ta_amount t)"
    using assms(2) by (rule books_okE)
  with others(2) obtain t' where "w_tokens w (cf_custody_token_account (lg_config lg)) = Some t'"
    "ta_amount t \<le> ta_amount t'"
    by (auto simp: only_paid_in_def split: option.splits)
  with book_custody_grows [OF inv, of "ta_amount t'"] others(1) show ?thesis
    by (intro books_okI [of _ t']) (simp_all add: custody_of_def le_unat)
qed

lemma start_books:
  assumes "leg_start rt lg"
  shows "books_ok rt lg"
proof -
  obtain t where t: "custody_of lg = Some t" using leg_start_facts(3) [OF assms] by blast
  obtain bump clock where p: "lg_position lg = initial_position bump clock" using leg_start_facts(2) [OF assms] by blast
  have "transfers (lg_slots lg) k = None" for k
  proof -
    have "lg_slots lg k = None \<or> lg_slots lg k = Some ForeignSlot"
      using leg_start_facts(1) [OF assms] by (simp add: fresh_slots_def)
    then show ?thesis by (auto simp: transfers_def)
  qed
  then have T: "transfers (lg_slots lg) = Map.empty" by (rule ext)
  show ?thesis
    by (intro books_okI [of _ t] t) (simp add: T p book_inv_def book_defs initial_position_def)
qed

lemma reachable_books: "leg_reachable rt lg \<Longrightarrow> books_ok rt lg"
  by (induction rule: leg_reachable.induct) (auto intro: start_books step_books)

end
