(* ===== verification/Leg_Effects.thy ===== *)
theory Leg_Effects
  imports Leg_Inv
begin

text \<open>
  What an instruction does to the two lanes, the event log, the configuration and the record
  store. The proofs about runs are induction over these effects, not over the handlers.
\<close>

section \<open>The event log\<close>

text \<open>Sequence, message id and lane commitment of the events that report an accepted message.\<close>

definition accepted_of :: "event \<Rightarrow> (u64 \<times> bytes32 \<times> bytes32) option" where
  "accepted_of e = (case e of
     ConfigUpdated _ _ mid seq _ _ com _ \<Rightarrow> Some (seq, mid, com)
   | AllocateAccepted _ _ _ mid seq _ _ com _ \<Rightarrow> Some (seq, mid, com)
   | MessageQuarantined _ _ _ _ mid seq com _ \<Rightarrow> Some (seq, mid, com)
   | ResolveProcessed _ _ _ _ _ _ _ mid seq com _ \<Rightarrow> Some (seq, mid, com)
   | SettlementProcessed _ _ _ _ _ _ _ _ _ _ mid seq com _ \<Rightarrow> Some (seq, mid, com)
   | RecallAccepted _ _ _ mid seq _ _ com _ \<Rightarrow> Some (seq, mid, com)
   | _ \<Rightarrow> None)"

definition accepted :: "leg \<Rightarrow> (u64 \<times> bytes32 \<times> bytes32) list" where
  "accepted lg = List.map_filter accepted_of (lg_events lg)"

text \<open>Sequence, message id, previous and next commitment and the bytes of a published message.\<close>

record publication =
  pb_sequence :: u64
  pb_message_id :: bytes32
  pb_previous_commitment :: bytes32
  pb_next_commitment :: bytes32
  pb_bytes :: bytes

definition published_of :: "event \<Rightarrow> publication option" where
  "published_of e = (case e of
     TransportSettlementPublished _ _ _ _ seq mid _ prev nxt _ bs _ \<Rightarrow> Some (publication.make seq mid prev nxt bs)
   | RemoteReportPublished _ _ _ seq mid _ prev nxt _ bs _ \<Rightarrow> Some (publication.make seq mid prev nxt bs)
   | RecallSentPublished _ _ _ _ seq mid _ prev nxt _ bs _ \<Rightarrow> Some (publication.make seq mid prev nxt bs)
   | _ \<Rightarrow> None)"

definition published :: "leg \<Rightarrow> publication list" where
  "published lg = List.map_filter published_of (lg_events lg)"

definition notice_of :: "event \<Rightarrow> bytes32 option" where
  "notice_of e = (case e of RecallSentPublished _ _ tid _ _ _ _ _ _ _ _ _ \<Rightarrow> Some tid | _ \<Rightarrow> None)"

definition notices :: "leg \<Rightarrow> bytes32 list" where
  "notices lg = List.map_filter notice_of (lg_events lg)"

lemma map_filter_append [simp]: "List.map_filter f (xs @ ys) = List.map_filter f xs @ List.map_filter f ys"
  by (simp add: List.map_filter_def)

lemmas event_views = accepted_def published_def notices_def accepted_of_def published_of_def
  notice_of_def

section \<open>Effects\<close>

abbreviation consumed_at :: "'h runtime \<Rightarrow> leg \<Rightarrow> u64 \<Rightarrow> pubkey" where
  "consumed_at rt lg seq \<equiv> fst (consumed_address rt (lg_key lg) (cf_control_lane_id (lg_config lg)) seq)"

definition accepts :: "'h runtime \<Rightarrow> leg \<Rightarrow> leg \<Rightarrow> bool" where
  "accepts rt lg lg' \<longleftrightarrow>
     (\<exists>cls bs clock m mid fresh c. inbound rt lg cls bs clock m mid fresh \<and>
        lg_lane lg' = accept rt (hd_sequence (msg_header m)) mid clock (lg_lane lg) \<and>
        accepted lg' = accepted lg @ [(hd_sequence (msg_header m), mid, ln_message_commitment (lg_lane lg'))] \<and>
        lg_slots lg (consumed_at rt lg (hd_sequence (msg_header m))) = None \<and>
        lg_slots lg' (consumed_at rt lg (hd_sequence (msg_header m))) = Some (ConsumedSlot c) \<and>
        cm_sequence c = hd_sequence (msg_header m) \<and> cm_message_id c = mid)"

definition lane_effect :: "'h runtime \<Rightarrow> leg \<Rightarrow> leg \<Rightarrow> bool" where
  "lane_effect rt lg lg' \<longleftrightarrow>
     accepts rt lg lg' \<or>
     accepted lg' = accepted lg \<and>
       (\<exists>n. lg_lane lg' = (lg_lane lg)\<lparr>ln_minimum_acceptable_sequence := n\<rparr> \<and>
          (n = ln_minimum_acceptable_sequence (lg_lane lg) \<or>
           unat (ln_minimum_acceptable_sequence (lg_lane lg)) < unat n \<and>
           unat n + unat (ln_mandatory_watermark_lag (lg_lane lg)) \<le> unat (ln_highest_consumed_sequence (lg_lane lg)) \<and>
           lg_position lg' = lg_position lg \<and>
           (ps_active_transfer_kind (lg_position lg) \<noteq> KNone \<longrightarrow>
             unat n \<le> unat (ps_active_transfer_sequence (lg_position lg)))))"

definition outbound_effect :: "'h runtime \<Rightarrow> leg \<Rightarrow> leg \<Rightarrow> bool" where
  "outbound_effect rt lg lg' \<longleftrightarrow>
     lg_outbound lg' = lg_outbound lg \<and> published lg' = published lg \<or>
     (\<exists>clock body built. publishes rt lg clock body built \<and>
        unat (ob_next_sequence (lg_outbound lg')) = unat (ob_next_sequence (lg_outbound lg)) + 1 \<and>
        ob_current_commitment (lg_outbound lg') = bm_next_commitment built \<and>
        ob_lane_id (lg_outbound lg') = ob_lane_id (lg_outbound lg) \<and>
        published lg' = published lg @ [publication.make (ob_next_sequence (lg_outbound lg)) (bm_message_id built)
          (bm_previous_commitment built) (bm_next_commitment built) (as_bytes (bm_encoded built))])"

text \<open>What may become of an entry of the record store.\<close>

definition entry_kept :: "leg \<Rightarrow> slot \<Rightarrow> slot option \<Rightarrow> bool" where
  "entry_kept lg v v' \<longleftrightarrow>
     (case v of
        TransferSlot r \<Rightarrow> (\<exists>r'. v' = Some (TransferSlot r') \<and> tr_transfer_id r' = tr_transfer_id r)
      | LedgerSlot l \<Rightarrow> (\<exists>l'. v' = Some (LedgerSlot l'))
      | ConsumedSlot c \<Rightarrow> v' = Some v \<or>
          v' = None \<and> unat (cm_sequence c) < unat (ln_minimum_acceptable_sequence (lg_lane lg))
      | _ \<Rightarrow> v' = Some v)"

definition slots_effect :: "leg \<Rightarrow> leg \<Rightarrow> bool" where
  "slots_effect lg lg' \<longleftrightarrow> (\<forall>k v. lg_slots lg k = Some v \<longrightarrow> entry_kept lg v (lg_slots lg' k))"

definition config_effect :: "leg \<Rightarrow> leg \<Rightarrow> bool" where
  "config_effect lg lg' \<longleftrightarrow>
     lg_key lg' = lg_key lg \<and> lg_strategy lg' = lg_strategy lg \<and> lg_strategy_key lg' = lg_strategy_key lg \<and>
     lg_config lg' = (lg_config lg)\<lparr>cf_config_version := cf_config_version (lg_config lg'),
       cf_frozen := cf_frozen (lg_config lg')\<rparr> \<and>
     cf_config_version (lg_config lg) \<le> cf_config_version (lg_config lg') \<and>
     (cf_frozen (lg_config lg) \<longrightarrow> lg_config lg' = lg_config lg \<and> lg_risk lg' = lg_risk lg)"

text \<open>The open cycle stays, ends, or was opened by the message just accepted.\<close>

definition cycle_effect :: "'h runtime \<Rightarrow> leg \<Rightarrow> leg \<Rightarrow> bool" where
  "cycle_effect rt lg lg' \<longleftrightarrow>
     ps_active_transfer_kind (lg_position lg') = KNone \<or>
     ps_active_transfer_kind (lg_position lg') = ps_active_transfer_kind (lg_position lg) \<and>
       ps_active_transfer_sequence (lg_position lg') = ps_active_transfer_sequence (lg_position lg) \<or>
     accepts rt lg lg' \<and>
       ps_active_transfer_sequence (lg_position lg') = ln_highest_consumed_sequence (lg_lane lg')"

definition effect :: "'h runtime \<Rightarrow> leg \<Rightarrow> leg \<Rightarrow> bool" where
  "effect rt lg lg' \<longleftrightarrow>
     lane_effect rt lg lg' \<and> outbound_effect rt lg lg' \<and> slots_effect lg lg' \<and>
     config_effect lg lg' \<and> cycle_effect rt lg lg'"

lemma effectI:
  assumes "lane_effect rt lg lg'" "outbound_effect rt lg lg'" "slots_effect lg lg'" "config_effect lg lg'"
    and "cycle_effect rt lg lg'"
  shows "effect rt lg lg'"
  using assms by (simp add: effect_def)

lemma entry_kept_same [simp]: "entry_kept lg v (Some v)"
  by (cases v) (simp_all add: entry_kept_def)

lemma entry_kept_transfer [simp]:
  "entry_kept lg (TransferSlot r) (Some (TransferSlot r')) \<longleftrightarrow> tr_transfer_id r' = tr_transfer_id r"
  by (simp add: entry_kept_def)

lemma entry_kept_ledger [simp]: "entry_kept lg (LedgerSlot l) (Some (LedgerSlot l'))"
  by (simp add: entry_kept_def)

lemma entry_kept_closed [simp]:
  "entry_kept lg (ConsumedSlot c) None \<longleftrightarrow>
     unat (cm_sequence c) < unat (ln_minimum_acceptable_sequence (lg_lane lg))"
  by (simp add: entry_kept_def)

lemma lane_same: "lg_lane lg' = lg_lane lg \<Longrightarrow> accepted lg' = accepted lg \<Longrightarrow> lane_effect rt lg lg'"
  unfolding lane_effect_def
  by (rule disjI2, rule conjI, assumption, rule exI [of _ "ln_minimum_acceptable_sequence (lg_lane lg)"]) simp

lemma config_same:
  "lg_key lg' = lg_key lg \<Longrightarrow> lg_strategy lg' = lg_strategy lg \<Longrightarrow> lg_strategy_key lg' = lg_strategy_key lg \<Longrightarrow>
     lg_config lg' = lg_config lg \<Longrightarrow> lg_risk lg' = lg_risk lg \<Longrightarrow> config_effect lg lg'"
  by (simp add: config_effect_def)

lemma accepts_lane: "accepts rt lg lg' \<Longrightarrow> lane_effect rt lg lg'"
  by (simp add: lane_effect_def)

lemma outbound_same: "lg_outbound lg' = lg_outbound lg \<Longrightarrow> published lg' = published lg \<Longrightarrow> outbound_effect rt lg lg'"
  by (simp add: outbound_effect_def)

lemma acceptsI:
  assumes "inbound rt lg cls bs clock m mid fresh"
    and "(ck, bump) = consumed_address rt (lg_key lg) (cf_control_lane_id (lg_config lg)) (hd_sequence (msg_header m))"
    and "lg_lane lg' = accept rt (hd_sequence (msg_header m)) mid clock (lg_lane lg)"
    and "accepted lg' = accepted lg @ [(hd_sequence (msg_header m), mid,
      leg_next_commitment rt (ln_message_commitment (lg_lane lg)) mid)]"
    and "lg_slots lg ck = None"
    and "lg_slots lg' ck = Some (consumed_record lg cls' cbump (hd_sequence (msg_header m)) mid)"
  shows "accepts rt lg lg'"
proof -
  have ck: "ck = consumed_at rt lg (hd_sequence (msg_header m))" using assms(2) by (auto dest: arg_cong [of _ _ fst])
  obtain c where c: "consumed_record lg cls' cbump (hd_sequence (msg_header m)) mid = ConsumedSlot c"
    "cm_sequence c = hd_sequence (msg_header m)" "cm_message_id c = mid"
    by (simp add: consumed_record_def)
  show ?thesis
    unfolding accepts_def
    by (intro exI [of _ cls] exI [of _ bs] exI [of _ clock] exI [of _ m] exI [of _ mid] exI [of _ fresh] exI [of _ c])
      (use assms(1,3-6) c in \<open>simp add: ck accept_def\<close>)
qed

lemma effect_in:
  assumes "accepts rt lg lg'" "outbound_effect rt lg lg'" "slots_effect lg lg'" "config_effect lg lg'"
    and "ps_active_transfer_kind (lg_position lg') = KNone \<or>
      ps_active_transfer_kind (lg_position lg') = ps_active_transfer_kind (lg_position lg) \<and>
        ps_active_transfer_sequence (lg_position lg') = ps_active_transfer_sequence (lg_position lg) \<or>
      ps_active_transfer_sequence (lg_position lg') = ln_highest_consumed_sequence (lg_lane lg')"
  shows "effect rt lg lg'"
  using assms by (auto simp: effect_def lane_effect_def cycle_effect_def)

section \<open>Inbound messages\<close>

lemma allocate_effect:
  assumes "handle_allocate rt v tk ck bs clock lg = Inr lg'"
  shows "effect rt lg lg'"
  using assms
proof (cases rule: handle_allocate_step)
  case (1 m mid fresh body authorized minimum quarantine bump cbump r p' ev)
  have ev: "accepted_of ev = Some (hd_sequence (msg_header m), mid,
      leg_next_commitment rt (ln_message_commitment (lg_lane lg)) mid)" "published_of ev = None"
    by (cases quarantine; simp add: 1(15) accepted_of_def published_of_def)+
  show ?thesis
  proof (rule effect_in)
    show "accepts rt lg lg'"
      by (rule acceptsI [OF 1(1,10)]) (use 1(11) ev in \<open>simp_all add: 1(16) accepted_def\<close>)
  qed (use 1(5,11,12) ev in \<open>auto simp: 1(14,16) outbound_effect_def slots_effect_def config_effect_def published_def
      open_transfer_def quarantine_transfer_def accept_def\<close>)
qed

lemma recall_effect:
  assumes "handle_recall rt v g tk ck bs clock lg = Inr lg'"
  shows "effect rt lg lg'"
  using assms
proof (cases rule: handle_recall_step)
  case (1 m mid fresh body requested minimum bump cbump r p' evs)
  have evs: "List.map_filter accepted_of evs = [(hd_sequence (msg_header m), mid,
      leg_next_commitment rt (ln_message_commitment (lg_lane lg)) mid)]" "List.map_filter published_of evs = []"
    using 1(13) by (auto simp: accepted_of_def published_of_def split: if_splits)
  have seq: "ps_active_transfer_sequence p' = hd_sequence (msg_header m)"
    using 1(13) by (auto simp: open_transfer_def quarantine_transfer_def split: if_splits)
  show ?thesis
  proof (rule effect_in)
    show "accepts rt lg lg'"
      by (rule acceptsI [OF 1(1,10)]) (use 1(11) evs in \<open>simp_all add: 1(14) accepted_def\<close>)
  qed (use 1(6,11,12) evs seq in \<open>auto simp: 1(14) outbound_effect_def slots_effect_def config_effect_def
      published_def accept_def\<close>)
qed

lemma admits_facts:
  assumes "admits lg g tk r r' p'"
  shows "lg_slots lg tk = Some (TransferSlot r)" "tr_transfer_id r' = tr_transfer_id r"
    "ps_active_transfer_kind p' = ps_active_transfer_kind (lg_position lg)"
    "ps_active_transfer_sequence p' = ps_active_transfer_sequence (lg_position lg)"
  using assms by (auto simp: admits_def reserve_recall_custody_Inr admit_transfer_def split: if_splits)

lemma resolve_effect:
  assumes "handle_resolve rt v g tk ck bs clock lg = Inr lg'"
  shows "effect rt lg lg'"
  using assms
proof (cases rule: handle_resolve_step)
  case (1 m mid fresh body cbump sl p' evs kind outcome)
  have evs: "List.map_filter accepted_of evs = []" "List.map_filter published_of evs = []"
    using 1(6) by (auto simp: accepted_of_def published_of_def)
  have "sl = lg_slots lg \<and> p' = lg_position lg \<or>
      (\<exists>r r'. admits lg g tk r r' p' \<and> sl = (lg_slots lg)(tk \<mapsto> TransferSlot r'))"
    using 1(6) by blast
  then have sl: "\<forall>k v. lg_slots lg k = Some v \<longrightarrow> entry_kept lg v (sl k)"
    and cycle: "ps_active_transfer_kind p' = ps_active_transfer_kind (lg_position lg)"
      "ps_active_transfer_sequence p' = ps_active_transfer_sequence (lg_position lg)"
    using admits_facts [of lg g tk _ _ p'] by (fastforce split: if_splits)+
  show ?thesis
  proof (rule effect_in)
    show "accepts rt lg lg'"
      by (rule acceptsI [OF 1(1,4)]) (use 1(5) evs in \<open>simp_all add: 1(7) accepted_def accepted_of_def\<close>)
    show "outbound_effect rt lg lg'"
      using evs by (simp add: 1(7) outbound_effect_def published_def published_of_def)
    show "slots_effect lg lg'" using sl 1(5) by (auto simp: 1(7) slots_effect_def)
  qed (use cycle in \<open>simp_all add: 1(7) config_effect_def\<close>)
qed

lemma config_update_effect:
  assumes "handle_config_update rt v ck bs clock lg = Inr lg'"
  shows "effect rt lg lg'"
  using assms
proof (cases rule: handle_config_update_step)
  case (1 m mid fresh body cbump c' risk' ev)
  have ev: "accepted_of ev = Some (hd_sequence (msg_header m), mid,
      leg_next_commitment rt (ln_message_commitment (lg_lane lg)) mid)" "published_of ev = None"
    using 1(6) by (auto simp: accepted_of_def published_of_def split: if_splits)
  show ?thesis
  proof (rule effect_in)
    show "accepts rt lg lg'"
      by (rule acceptsI [OF 1(1,4)]) (use 1(5) ev in \<open>simp_all add: 1(7) accepted_def\<close>)
    show "slots_effect lg lg'" using 1(5) by (auto simp: 1(7) slots_effect_def)
    show "config_effect lg lg'" using 1(3,6) by (auto simp: 1(7) config_effect_def split: if_splits)
  qed (use ev in \<open>simp_all add: 1(7) outbound_effect_def published_def\<close>)
qed

lemma settles_facts:
  assumes "settles rt tk body seq c l existed clock lg s l' lg1"
  obtains r' p' where "lg1 = lg\<lparr>lg_position := p', lg_slots := (lg_slots lg)(tk \<mapsto> TransferSlot r')\<rparr>"
    "tr_transfer_id r' = rv_transfer_id body" "ps_active_transfer_kind p' = KNone"
    "\<forall>r. lg_slots lg tk = Some (TransferSlot r) \<longrightarrow> tr_transfer_id r = rv_transfer_id body"
  using assms unfolding settles_def
proof (elim disjE conjE)
  assume "settle_close_leg tk body c l clock lg = Inr (s, l', lg1)"
  then show thesis
  proof (cases rule: settle_close_leg_Inr)
    case (1 r r1 p' missing)
    have "tr_transfer_id r1 = tr_transfer_id r \<and> ps_active_transfer_kind p' = KNone"
      using 1(4)
      by (auto simp: close_quarantined_def close_complete_def and_then_Inr close_transfer_def check_no_active_Inr
          attributes_def elim!: close_pending_Inr)
    then show ?thesis using 1(1,3) by (intro that [OF 1(7)]) simp_all
  qed
next
  assume "settle_recover_leg tk body (snd (transfer_address rt (lg_key lg) (rv_transfer_id body))) seq c l clock lg =
    Inr (s, l', lg1)"
  then show thesis
  proof (cases rule: settle_recover_Inr)
    case (1 credited p')
    have "ps_active_transfer_kind p' = KNone" using 1(3,5) by (auto simp: recovers_def reconcile_Inr)
    then show ?thesis using 1(4) by (intro that [OF 1(7)]) (simp_all add: new_recovery_def)
  qed
qed

lemma settlement_effect:
  assumes "handle_settlement rt a bs clock lg = Inr lg'"
  shows "effect rt lg lg'"
  using assms
proof (cases rule: handle_settlement_step)
  case (1 m mid fresh body cbump t l existed s l' lg1 built rbump outbound')
  let ?tk = "sa_transfer_record a" and ?lk = "sa_transport_ledger a"
  obtain r' p' where lg1: "lg1 = lg\<lparr>lg_position := p', lg_slots := (lg_slots lg)(?tk \<mapsto> TransferSlot r')\<rparr>"
    and at: "lg_slots lg ?tk = None \<or> (\<exists>r. lg_slots lg ?tk = Some (TransferSlot r))" "?tk \<noteq> ?lk"
      "lg_slots lg ?lk = None \<or> lg_slots lg ?lk = Some (LedgerSlot l)"
    using 1(9,8,10) by (rule settles_slots)
  from 1(9) obtain r2 p2 where
    2: "lg1 = lg\<lparr>lg_position := p2, lg_slots := (lg_slots lg)(?tk \<mapsto> TransferSlot r2)\<rparr>"
    "tr_transfer_id r2 = rv_transfer_id body" "ps_active_transfer_kind p2 = KNone" and
    kept: "\<forall>r. lg_slots lg ?tk = Some (TransferSlot r) \<longrightarrow> tr_transfer_id r = rv_transfer_id body"
    by (rule settles_facts)
  have "lg_slots lg1 ?tk = Some (TransferSlot r2)" "lg_position lg1 = p2" by (simp_all add: 2(1))
  with 2(2,3) have cycle: "tr_transfer_id r' = rv_transfer_id body" "ps_active_transfer_kind p' = KNone"
    by (simp_all add: lg1)
  show ?thesis
  proof (rule effect_in)
    show "accepts rt lg lg'"
      by (rule acceptsI [OF 1(1,5)]) (use 1(16) in \<open>simp_all add: 1(17) accepted_def accepted_of_def\<close>)
    show "slots_effect lg lg'"
      using at 1(13,15,16) kept cycle(1) by (auto simp: 1(17) slots_effect_def lg1 fun_upd_apply split: if_splits)
    show "outbound_effect rt lg lg'"
      unfolding outbound_effect_def using 1(11) lane_advance_Inr [OF 1(14)]
      by (intro disjI2 exI [of _ clock] exI [of _ "settlement_message_body lg (rv_transfer_id body) s"] exI [of _ built])
        (simp add: 1(17) published_def published_of_def)
  qed (use cycle(2) in \<open>simp_all add: 1(17) lg1 config_effect_def\<close>)
qed

section \<open>Every other instruction\<close>

text \<open>Instructions outside the control lane: the lane stays, and the cycle stays or ends.\<close>

lemma effect_out:
  assumes "lg_lane lg' = lg_lane lg" "accepted lg' = accepted lg"
    and "outbound_effect rt lg lg'" "slots_effect lg lg'" "config_effect lg lg'"
    and "ps_active_transfer_kind (lg_position lg') = KNone \<or>
      ps_active_transfer_kind (lg_position lg') = ps_active_transfer_kind (lg_position lg) \<and>
        ps_active_transfer_sequence (lg_position lg') = ps_active_transfer_sequence (lg_position lg)"
  shows "effect rt lg lg'"
  using assms by (auto simp: cycle_effect_def intro!: effectI lane_same)

lemma reconcile_effect:
  assumes "process_reconcile_custody rt key clock lg = Inr lg'"
  shows "effect rt lg lg'"
  using assms
proof (cases rule: process_reconcile_step)
  case (1 t s p')
  then show ?thesis
    by (intro effect_out outbound_same config_same)
      (simp_all add: slots_effect_def event_views reconcile_keeps [OF 1(2)])
qed

lemma attribute_effect:
  assumes "process_attribute_allocation rt tk key g clock lg = Inr lg'"
  shows "effect rt lg lg'"
  using assms
proof (cases rule: process_attribute_step)
  case (1 t r n r1 p1)
  note f = attributes_facts [OF 1(5)]
  have tid: "tr_transfer_id r1 = tr_transfer_id r" using f(1) by auto
  show ?thesis
    by (intro effect_out outbound_same config_same)
      (use 1(2,7) f tid in \<open>auto simp: slots_effect_def event_views complete_transfer_def split: if_splits\<close>)
qed

lemma deploy_effect:
  assumes "process_deploy_to_strategy rt a receipt tx n clock lg = Inr lg'"
  shows "effect rt lg lg'"
  using assms
proof (cases rule: process_deploy_step)
  case (1 t s p1 w after p' pol receipt vault)
  have "ps_active_transfer_kind p' = ps_active_transfer_kind p1" "ps_active_transfer_sequence p' = ps_active_transfer_sequence p1"
    using settle_deploy_Inr [OF 1(13)] by auto
  then show ?thesis
    by (intro effect_out outbound_same config_same)
      (simp_all add: 1(14) slots_effect_def event_views reconcile_keeps [OF 1(5)])
qed

lemma settle_recall_frame:
  assumes "settle_recall r p clock = Inr (b, r', p')"
  shows "tr_transfer_id r' = tr_transfer_id r" "ps_active_transfer_kind p' = KNone \<or> p' = p"
  using assms by (auto simp: settle_recall_Inr complete_transfer_def split: if_splits)

lemma withdraw_effect:
  assumes "process_withdraw_for_recall rt a tk maximum clock lg = Inr lg'"
  shows "effect rt lg lg'"
  using assms
proof (cases rule: process_withdraw_step)
  case (1 t vault r s p1 unresolved w after reduction returned lost r1 p2 b r2 p3)
  have "tr_transfer_id r1 = tr_transfer_id r" "ps_active_transfer_kind p2 = ps_active_transfer_kind p1"
      "ps_active_transfer_sequence p2 = ps_active_transfer_sequence p1"
    using settle_withdraw_Inr(1) [OF 1(10)] by (auto simp: withdraws_def)
  with settle_recall_frame [OF 1(11)] 1(5) show ?thesis
    by (intro effect_out outbound_same config_same)
      (auto simp: 1(12) slots_effect_def event_views reconcile_keeps [OF 1(7)])
qed

lemma send_effect:
  assumes "process_send_recall rt a tk maximum clock lg = Inr lg'"
  shows "effect rt lg lg'"
  using assms
proof (cases rule: process_send_step)
  case (1 t escrow r s p1 w t' escrow' r1 p2 b r2 p3 n)
  have "tr_transfer_id r1 = tr_transfer_id r" "ps_active_transfer_kind p2 = ps_active_transfer_kind p1"
      "ps_active_transfer_sequence p2 = ps_active_transfer_sequence p1"
    using settle_send_Inr [OF 1(10)] by auto
  with settle_recall_frame [OF 1(11)] 1(3) show ?thesis
    by (intro effect_out outbound_same config_same)
      (auto simp: 1(12) slots_effect_def event_views reconcile_keeps [OF 1(5)])
qed

lemma report_effect:
  assumes "process_publish_remote_report rt key ak rk active epoch clock lg = Inr lg'"
  shows "effect rt lg lg'"
  using assms
proof (cases rule: process_publish_remote_report_step)
  case (1 t s p1 in_flight principal built bump outbound' body)
  have "outbound_effect rt lg lg'"
    unfolding outbound_effect_def using 1(7) lane_advance_Inr [OF 1(10)]
    by (intro disjI2 exI [of _ clock] exI [of _ body] exI [of _ built]) (simp add: 1(11) event_views)
  then show ?thesis
    using 1(9) by (intro effect_out config_same)
      (auto simp: 1(11) slots_effect_def event_views reconcile_keeps [OF 1(2)])
qed

lemma notice_effect:
  assumes "process_publish_recall_sent rt tk rk mk clock lg = Inr lg'"
  shows "effect rt lg lg'"
  using assms
proof (cases rule: process_publish_recall_sent_step)
  case (1 r sent built bump mbump outbound' body)
  have "outbound_effect rt lg lg'"
    unfolding outbound_effect_def using 1(4) lane_advance_Inr [OF 1(10)]
    by (intro disjI2 exI [of _ clock] exI [of _ body] exI [of _ built]) (simp add: 1(11) event_views)
  then show ?thesis
    using 1(6,8) by (intro effect_out config_same) (auto simp: 1(11) slots_effect_def event_views)
qed

lemma admin_effect:
  shows "process_freeze authority clock lg = Inr lg' \<Longrightarrow> effect rt lg lg'"
    and "process_close_consumed_message rt adm ck clock lg = Inr lg' \<Longrightarrow> effect rt lg lg'"
    and "process_initialize_deploy_authorization rt adm key clock lg = Inr lg' \<Longrightarrow> effect rt lg lg'"
  by (auto elim!: process_freeze_step process_close_consumed_step process_adopt_step
      intro!: effect_out outbound_same simp: config_effect_def slots_effect_def event_views)

lemma watermark_effect:
  assumes "process_advance_replay_watermark rt adm n clock lg = Inr lg'"
  shows "effect rt lg lg'"
  using assms
proof (cases rule: process_watermark_step)
  case 1
  show ?thesis
  proof (rule effectI)
    show "lane_effect rt lg lg'"
      unfolding lane_effect_def using 1(2-4)
      by (intro disjI2 conjI exI [of _ n]) (simp_all add: 1(5) event_views)
  qed (simp_all add: 1(5) outbound_effect_def slots_effect_def config_effect_def cycle_effect_def event_views)
qed

lemma dispatch_effect:
  assumes "dispatch rt call clock lg = Inr lg'"
  shows "effect rt lg lg'"
  using assms
  by (cases call) (auto intro: allocate_effect recall_effect resolve_effect settlement_effect config_update_effect
      reconcile_effect attribute_effect deploy_effect withdraw_effect send_effect report_effect notice_effect
      admin_effect watermark_effect)

lemma step_effect:
  assumes "leg_step rt lg lg'"
  shows "effect rt lg lg'"
  using assms
proof cases
  case (instruction c clock)
  then show ?thesis by (rule dispatch_effect)
next
  case (others w)
  then show ?thesis
    by (intro effect_out outbound_same config_same) (simp_all add: slots_effect_def event_views)
qed

end
