(* ===== verification/Leg_Chains.thy ===== *)
theory Leg_Chains
  imports Leg_Effects
begin

text \<open>
  The two lanes are numbered hash chains. \<open>numbered_chain\<close> states what that means for any
  transition system with a counter, a running commitment and a log, and proves once what a run
  leaves in the log; the control lane and the report lane of the leg are its two instances.
  The second half keeps what replay protection rests on: the consumed records and the watermark.
\<close>

section \<open>Numbered hash chains\<close>

locale numbered_chain =
  fixes init :: "'s \<Rightarrow> bool" and step :: "'s \<Rightarrow> 's \<Rightarrow> bool" and nxt :: "'c \<Rightarrow> 'i \<Rightarrow> 'c" and zero :: 'c
    and expected :: "'s \<Rightarrow> nat" and head :: "'s \<Rightarrow> 'c" and entries :: "'s \<Rightarrow> (nat \<times> 'i \<times> 'c) list"
  assumes start_law: "init s \<Longrightarrow> expected s = 1 \<and> head s = zero \<and> entries s = []"
    and step_law: "step s s' \<Longrightarrow>
      expected s' = expected s \<and> head s' = head s \<and> entries s' = entries s \<or>
      (\<exists>i. expected s' = expected s + 1 \<and> head s' = nxt (head s) i \<and>
        entries s' = entries s @ [(expected s, i, head s')])"
begin

definition "chain es = foldl nxt zero (map (fst \<circ> snd) es)"

lemma numbered:
  assumes "init s0" "step\<^sup>*\<^sup>* s0 s"
  shows "expected s = Suc (length (entries s)) \<and> map fst (entries s) = [1..<expected s] \<and> head s = chain (entries s)"
  using assms(2,1)
proof (induction rule: rtranclp_induct)
  case base
  then show ?case using start_law [of s0] by (simp add: chain_def)
next
  case (step s s')
  from step.IH [OF step.prems] step_law [OF step.hyps(2)] show ?case
    by (auto simp: chain_def)
qed

text \<open>Each entry commits to every entry up to it.\<close>

lemma prefix_heads:
  assumes "init s0" "step\<^sup>*\<^sup>* s0 s" "k < length (entries s)"
  shows "snd (snd (entries s ! k)) = chain (take (Suc k) (entries s))"
  using assms(2,1,3)
proof (induction rule: rtranclp_induct)
  case base
  then show ?case using start_law [of s0] by simp
next
  case (step s s')
  note num = numbered [OF step.prems(1) step.hyps(1)]
  from step_law [OF step.hyps(2)] show ?case
  proof
    assume "expected s' = expected s \<and> head s' = head s \<and> entries s' = entries s"
    then show ?thesis using step.IH step.prems by simp
  next
    assume "\<exists>i. expected s' = expected s + 1 \<and> head s' = nxt (head s) i \<and>
        entries s' = entries s @ [(expected s, i, head s')]"
    then obtain i where "head s' = nxt (head s) i" "entries s' = entries s @ [(expected s, i, head s')]" by blast
    then show ?thesis using step.IH step.prems num
      by (cases "k = length (entries s)") (auto simp: chain_def nth_append)
  qed
qed

end

lemma leg_reachable_run:
  assumes "leg_reachable rt lg"
  obtains lg0 where "leg_start rt lg0" "(leg_step rt)\<^sup>*\<^sup>* lg0 lg"
proof -
  from assms have "\<exists>lg0. leg_start rt lg0 \<and> (leg_step rt)\<^sup>*\<^sup>* lg0 lg"
    by (induction rule: leg_reachable.induct) (blast intro: rtranclp.rtrancl_into_rtrancl)+
  then show thesis using that by blast
qed

lemma start_views:
  assumes "leg_start rt lg"
  shows "accepted lg = []" "published lg = []" "notices lg = []"
proof -
  have "accepted_of e = None \<and> published_of e = None \<and> notice_of e = None" if "e \<in> set (lg_events lg)" for e
    using leg_start_facts(13) [OF assms] that
    by (cases e) (auto simp: setup_event_def accepted_of_def published_of_def notice_of_def)
  then show "accepted lg = []" "published lg = []" "notices lg = []"
    by (auto simp: accepted_def published_def notices_def List.map_filter_def filter_empty_conv)
qed

interpretation control_lane: numbered_chain
  "leg_start rt" "leg_step rt" "leg_next_commitment rt" 0
  "\<lambda>lg. unat (ln_highest_consumed_sequence (lg_lane lg)) + 1" "\<lambda>lg. ln_message_commitment (lg_lane lg)"
  "\<lambda>lg. map (\<lambda>(seq, mid, com). (unat seq, mid, com)) (accepted lg)" for rt :: "'h runtime"
proof
  fix lg lg' :: leg
  show "unat (ln_highest_consumed_sequence (lg_lane lg)) + 1 = 1 \<and> ln_message_commitment (lg_lane lg) = 0 \<and>
      map (\<lambda>(seq, mid, com). (unat seq, mid, com)) (accepted lg) = []" if "leg_start rt lg"
    using leg_start_facts(4,6) [OF that] start_views(1) [OF that] by simp
  show "unat (ln_highest_consumed_sequence (lg_lane lg')) + 1 = unat (ln_highest_consumed_sequence (lg_lane lg)) + 1 \<and>
      ln_message_commitment (lg_lane lg') = ln_message_commitment (lg_lane lg) \<and>
      map (\<lambda>(seq, mid, com). (unat seq, mid, com)) (accepted lg') = map (\<lambda>(seq, mid, com). (unat seq, mid, com)) (accepted lg) \<or>
    (\<exists>i. unat (ln_highest_consumed_sequence (lg_lane lg')) + 1 = unat (ln_highest_consumed_sequence (lg_lane lg)) + 1 + 1 \<and>
      ln_message_commitment (lg_lane lg') = leg_next_commitment rt (ln_message_commitment (lg_lane lg)) i \<and>
      map (\<lambda>(seq, mid, com). (unat seq, mid, com)) (accepted lg') =
        map (\<lambda>(seq, mid, com). (unat seq, mid, com)) (accepted lg) @
        [(unat (ln_highest_consumed_sequence (lg_lane lg)) + 1, i, ln_message_commitment (lg_lane lg'))])"
    if "leg_step rt lg lg'"
  proof -
    have "lane_effect rt lg lg'" using step_effect [OF that] by (simp add: effect_def)
    then consider "accepts rt lg lg'" | n where "accepted lg' = accepted lg"
      "lg_lane lg' = (lg_lane lg)\<lparr>ln_minimum_acceptable_sequence := n\<rparr>"
      by (auto simp: lane_effect_def)
    then show ?thesis
    proof cases
      case 1
      then obtain cls bs clock m mid fresh where "inbound rt lg cls bs clock m mid fresh"
        "lg_lane lg' = accept rt (hd_sequence (msg_header m)) mid clock (lg_lane lg)"
        "accepted lg' = accepted lg @ [(hd_sequence (msg_header m), mid, ln_message_commitment (lg_lane lg'))]"
        by (auto simp: accepts_def)
      with inboundD(4) [OF this(1)] show ?thesis
        by (intro disjI2 exI [of _ mid]) (simp add: accept_def)
    qed simp
  qed
qed

text \<open>A published message is canonical: its bytes decode, and the header carries the lane's state.\<close>

definition publication_ok :: "'h runtime \<Rightarrow> leg \<Rightarrow> publication \<Rightarrow> bool" where
  "publication_ok rt lg pub \<longleftrightarrow>
     (\<exists>m. decode_message (rt_digest rt) (pb_bytes pub) = Inr m \<and>
        hd_sequence (msg_header m) = pb_sequence pub \<and>
        hd_previous_commitment (msg_header m) = pb_previous_commitment pub \<and>
        pb_message_id pub = rt_keccak rt [MESSAGE_ID_DOMAIN, pb_bytes pub] \<and>
        hd_lane_id (msg_header m) = cf_report_lane_id (lg_config lg) \<and>
        hd_source_chain (msg_header m) = cf_destination_chain_id (lg_config lg) \<and>
        hd_destination_chain (msg_header m) = cf_source_chain_id (lg_config lg) \<and>
        hd_source_application (msg_header m) = cf_local_application_id (lg_config lg) \<and>
        hd_destination_application (msg_header m) = cf_source_application_id (lg_config lg) \<and>
        hd_deployment_id (msg_header m) = cf_deployment_id (lg_config lg) \<and>
        hd_vault_id (msg_header m) = cf_vault_id (lg_config lg))"

lemma publishesD:
  assumes "publishes rt lg clock body built"
  shows "publication_ok rt lg (publication.make (ob_next_sequence (lg_outbound lg)) (bm_message_id built)
      (bm_previous_commitment built) (bm_next_commitment built) (as_bytes (bm_encoded built)))"
    "bm_previous_commitment built = ob_current_commitment (lg_outbound lg)"
    "bm_next_commitment built = leg_next_commitment rt (ob_current_commitment (lg_outbound lg)) (bm_message_id built)"
proof -
  let ?m = "outbound_message (outbound_context_of lg clock) body"
  have b: "message_valid ?m" "as_bytes (bm_encoded built) = message_bytes (rt_digest rt) ?m"
      "bm_message_id built = rt_keccak rt [MESSAGE_ID_DOMAIN, message_bytes (rt_digest rt) ?m]"
      "bm_previous_commitment built = ob_current_commitment (lg_outbound lg)"
      "bm_next_commitment built = leg_next_commitment rt (ob_current_commitment (lg_outbound lg)) (bm_message_id built)"
    using assms by (simp_all add: publishes_def build_Inr outbound_context_of_def)
  show "publication_ok rt lg (publication.make (ob_next_sequence (lg_outbound lg)) (bm_message_id built)
      (bm_previous_commitment built) (bm_next_commitment built) (as_bytes (bm_encoded built)))"
    unfolding publication_ok_def
    by (rule exI [of _ ?m]) (use b(1-4) decode_message_bytes [OF b(1)] in
      \<open>simp add: publication.defs outbound_message_def outbound_context_of_def\<close>)
qed (use assms in \<open>simp_all add: publishes_def build_Inr outbound_context_of_def\<close>)

interpretation report_lane: numbered_chain
  "leg_start rt" "leg_step rt" "leg_next_commitment rt" 0
  "\<lambda>lg. unat (ob_next_sequence (lg_outbound lg))" "\<lambda>lg. ob_current_commitment (lg_outbound lg)"
  "\<lambda>lg. map (\<lambda>pub. (unat (pb_sequence pub), pb_message_id pub, pb_next_commitment pub)) (published lg)"
  for rt :: "'h runtime"
proof
  fix lg lg' :: leg
  show "unat (ob_next_sequence (lg_outbound lg)) = 1 \<and> ob_current_commitment (lg_outbound lg) = 0 \<and>
      map (\<lambda>pub. (unat (pb_sequence pub), pb_message_id pub, pb_next_commitment pub)) (published lg) = []"
    if "leg_start rt lg"
    using leg_start_facts(7,8) [OF that] start_views(2) [OF that] by simp
  show "unat (ob_next_sequence (lg_outbound lg')) = unat (ob_next_sequence (lg_outbound lg)) \<and>
      ob_current_commitment (lg_outbound lg') = ob_current_commitment (lg_outbound lg) \<and>
      map (\<lambda>pub. (unat (pb_sequence pub), pb_message_id pub, pb_next_commitment pub)) (published lg') =
        map (\<lambda>pub. (unat (pb_sequence pub), pb_message_id pub, pb_next_commitment pub)) (published lg) \<or>
    (\<exists>i. unat (ob_next_sequence (lg_outbound lg')) = unat (ob_next_sequence (lg_outbound lg)) + 1 \<and>
      ob_current_commitment (lg_outbound lg') = leg_next_commitment rt (ob_current_commitment (lg_outbound lg)) i \<and>
      map (\<lambda>pub. (unat (pb_sequence pub), pb_message_id pub, pb_next_commitment pub)) (published lg') =
        map (\<lambda>pub. (unat (pb_sequence pub), pb_message_id pub, pb_next_commitment pub)) (published lg) @
        [(unat (ob_next_sequence (lg_outbound lg)), i, ob_current_commitment (lg_outbound lg'))])"
    if "leg_step rt lg lg'"
  proof -
    have "outbound_effect rt lg lg'" using step_effect [OF that] by (simp add: effect_def)
    then show ?thesis
      unfolding outbound_effect_def
    proof (elim disjE exE conjE)
      fix clock body built
      assume a: "publishes rt lg clock body built"
        "unat (ob_next_sequence (lg_outbound lg')) = unat (ob_next_sequence (lg_outbound lg)) + 1"
        "ob_current_commitment (lg_outbound lg') = bm_next_commitment built"
        "published lg' = published lg @ [publication.make (ob_next_sequence (lg_outbound lg)) (bm_message_id built)
          (bm_previous_commitment built) (bm_next_commitment built) (as_bytes (bm_encoded built))]"
      then show ?thesis using publishesD(3) [OF a(1)]
        by (intro disjI2 exI [of _ "bm_message_id built"]) (simp add: publication.defs)
    qed simp
  qed
qed

section \<open>Monotone facts of a run\<close>

lemma config_effectD:
  assumes "config_effect lg lg'"
  shows "lg_key lg' = lg_key lg" "cf_control_lane_id (lg_config lg') = cf_control_lane_id (lg_config lg)"
    "publication_ok rt lg' = publication_ok rt lg"
proof -
  have c: "lg_config lg' = (lg_config lg)\<lparr>cf_config_version := cf_config_version (lg_config lg'),
       cf_frozen := cf_frozen (lg_config lg')\<rparr>"
    using assms by (simp add: config_effect_def)
  show "lg_key lg' = lg_key lg" using assms by (simp add: config_effect_def)
  show "cf_control_lane_id (lg_config lg') = cf_control_lane_id (lg_config lg)" by (subst c) simp
  show "publication_ok rt lg' = publication_ok rt lg"
    unfolding publication_ok_def [abs_def] by (subst (1 2 3 4 5 6 7) c) simp
qed

lemma reachable_publications:
  assumes "leg_reachable rt lg"
  shows "\<forall>pub \<in> set (published lg). publication_ok rt lg pub"
  using assms
proof (induction rule: leg_reachable.induct)
  case (start lg)
  then show ?case by (auto dest: start_views(2))
next
  case (step lg lg')
  have e: "outbound_effect rt lg lg'" "config_effect lg lg'"
    using step_effect [OF step.hyps(2)] by (simp_all add: effect_def)
  have "\<forall>pub \<in> set (published lg'). publication_ok rt lg pub"
    using e(1) step.IH publishesD(1) unfolding outbound_effect_def by auto
  then show ?case by (simp add: config_effectD(3) [OF e(2)])
qed

section \<open>Replay protection\<close>

text \<open>
  Every accepted sequence from the watermark on still has its consumed record, and the watermark
  has not passed the message that opened the current cycle.
\<close>

definition replay_ok :: "'h runtime \<Rightarrow> leg \<Rightarrow> bool" where
  "replay_ok rt lg \<longleftrightarrow>
     (\<forall>s. ln_minimum_acceptable_sequence (lg_lane lg) \<le> s \<longrightarrow> s \<le> ln_highest_consumed_sequence (lg_lane lg) \<longrightarrow>
        (\<exists>c. lg_slots lg (consumed_at rt lg s) = Some (ConsumedSlot c) \<and> cm_sequence c = s)) \<and>
     1 \<le> unat (ln_minimum_acceptable_sequence (lg_lane lg)) \<and>
     unat (ln_minimum_acceptable_sequence (lg_lane lg)) \<le> unat (ln_highest_consumed_sequence (lg_lane lg)) + 1 \<and>
     (ps_active_transfer_kind (lg_position lg) \<noteq> KNone \<longrightarrow>
        ln_minimum_acceptable_sequence (lg_lane lg) \<le> ps_active_transfer_sequence (lg_position lg))"

lemma consumed_kept:
  assumes "slots_effect lg lg'" "config_effect lg lg'"
    and "lg_slots lg (consumed_at rt lg s) = Some (ConsumedSlot c)" "cm_sequence c = s"
    and "ln_minimum_acceptable_sequence (lg_lane lg) \<le> s"
  shows "lg_slots lg' (consumed_at rt lg' s) = Some (ConsumedSlot c)"
proof -
  have "entry_kept lg (ConsumedSlot c) (lg_slots lg' (consumed_at rt lg s))"
    using assms(1,3) by (simp add: slots_effect_def)
  with assms(4,5) have "lg_slots lg' (consumed_at rt lg s) = Some (ConsumedSlot c)"
    by (auto simp: entry_kept_def le_unat)
  then show ?thesis by (simp add: config_effectD(1,2) [OF assms(2)])
qed

lemma step_replay:
  assumes "leg_step rt lg lg'" "replay_ok rt lg"
  shows "replay_ok rt lg'"
proof -
  have e: "lane_effect rt lg lg'" "slots_effect lg lg'" "config_effect lg lg'" "cycle_effect rt lg lg'"
    using step_effect [OF assms(1)] by (simp_all add: effect_def)
  let ?min = "ln_minimum_acceptable_sequence (lg_lane lg)" and ?high = "ln_highest_consumed_sequence (lg_lane lg)"
  have old: "\<exists>c. lg_slots lg' (consumed_at rt lg' s) = Some (ConsumedSlot c) \<and> cm_sequence c = s"
    if "?min \<le> s" "s \<le> ?high" for s
  proof -
    from assms(2) that obtain c where "lg_slots lg (consumed_at rt lg s) = Some (ConsumedSlot c)" "cm_sequence c = s"
      unfolding replay_ok_def by blast
    with consumed_kept [OF e(2,3) this that(1)] show ?thesis by blast
  qed
  have now: "1 \<le> unat ?min" "unat ?min \<le> unat ?high + 1"
      "ps_active_transfer_kind (lg_position lg) \<noteq> KNone \<Longrightarrow> ?min \<le> ps_active_transfer_sequence (lg_position lg)"
    using assms(2) by (simp_all add: replay_ok_def)
  from e(1) show ?thesis
    unfolding lane_effect_def
  proof (elim disjE conjE exE)
    assume "accepts rt lg lg'"
    then obtain cls bs clock m mid fresh c where inb: "inbound rt lg cls bs clock m mid fresh"
      and lane: "lg_lane lg' = accept rt (hd_sequence (msg_header m)) mid clock (lg_lane lg)"
      and c: "lg_slots lg' (consumed_at rt lg (hd_sequence (msg_header m))) = Some (ConsumedSlot c)"
        "cm_sequence c = hd_sequence (msg_header m)"
      by (auto simp: accepts_def)
    note seq = inboundD(4,5) [OF inb]
    have range: "s \<le> ?high \<or> s = hd_sequence (msg_header m)" if "s \<le> hd_sequence (msg_header m)" for s
      using that seq(1) by (auto simp: le_unat word_eq_unat)
    have "\<exists>c. lg_slots lg' (consumed_at rt lg' s) = Some (ConsumedSlot c) \<and> cm_sequence c = s"
      if "?min \<le> s" "s \<le> hd_sequence (msg_header m)" for s
      using range [OF that(2)] old [OF that(1)] c by (auto simp: config_effectD(1,2) [OF e(3)])
    moreover have "?min \<le> ps_active_transfer_sequence (lg_position lg')"
      if "ps_active_transfer_kind (lg_position lg') \<noteq> KNone"
      using e(4) that now(3) seq(2) by (auto simp: cycle_effect_def lane accept_def)
    ultimately show ?thesis using now seq by (simp add: replay_ok_def lane accept_def)
  next
    fix n
    assume lane: "lg_lane lg' = (lg_lane lg)\<lparr>ln_minimum_acceptable_sequence := n\<rparr>" and n: "n = ?min"
      and "accepted lg' = accepted lg"
    have same: "lg_lane lg' = lg_lane lg" by (simp add: lane n)
    have "?min \<le> ps_active_transfer_sequence (lg_position lg')"
      if "ps_active_transfer_kind (lg_position lg') \<noteq> KNone"
      using e(4) that now(3)
      by (auto simp: cycle_effect_def accepts_def same accept_def dest!: inboundD(4) arg_cong [of _ _ ln_highest_consumed_sequence])
    then show ?thesis using old now same by (simp add: replay_ok_def)
  next
    fix n
    assume lane: "lg_lane lg' = (lg_lane lg)\<lparr>ln_minimum_acceptable_sequence := n\<rparr>"
      and n: "unat ?min < unat n" "unat n + unat (ln_mandatory_watermark_lag (lg_lane lg)) \<le> unat ?high"
      "ps_active_transfer_kind (lg_position lg) \<noteq> KNone \<longrightarrow> unat n \<le> unat (ps_active_transfer_sequence (lg_position lg))"
      and p: "lg_position lg' = lg_position lg"
    have "?min \<le> s" if "n \<le> s" for s using that n(1) by (simp add: le_unat)
    with old n show ?thesis by (simp add: replay_ok_def lane p le_unat)
  qed
qed

lemma reachable_replay: "leg_reachable rt lg \<Longrightarrow> replay_ok rt lg"
proof (induction rule: leg_reachable.induct)
  case (start lg)
  obtain bump clock where "lg_position lg = initial_position bump clock"
    using leg_start_facts(2) [OF start] by blast
  then show ?case
    using leg_start_facts(4,5) [OF start] by (auto simp: replay_ok_def initial_position_def le_unat)
next
  case (step lg lg')
  then show ?case by (blast intro: step_replay)
qed

lemma run_highest:
  assumes "(leg_step rt)\<^sup>*\<^sup>* lg lg'"
  shows "unat (ln_highest_consumed_sequence (lg_lane lg)) \<le> unat (ln_highest_consumed_sequence (lg_lane lg'))"
  using assms
proof (induction rule: rtranclp_induct)
  case (step lg1 lg2)
  have "lane_effect rt lg1 lg2" using step_effect [OF step.hyps(2)] by (simp add: effect_def)
  then have "unat (ln_highest_consumed_sequence (lg_lane lg1)) \<le> unat (ln_highest_consumed_sequence (lg_lane lg2))"
    by (auto simp: lane_effect_def accepts_def accept_def dest!: inboundD(4))
  with step.IH show ?case by simp
qed simp

end
