(* ===== verification/Leg_Ledger.thy ===== *)
theory Leg_Ledger
  imports Leg_Chains
begin

text \<open>
  The transport ledger is a running summary of the transfer records: this theory gives the summary
  its meaning, as sums over the closed allocations and the recoveries, and shows that the ledger
  account agrees with them in every reachable leg. It also keeps the recall notices apart.
\<close>

section \<open>The specification\<close>

definition closed_records :: "slots \<Rightarrow> pubkey \<rightharpoonup> transfer_record" where
  "closed_records sl k = (case sl k of
     Some (TransferSlot r) \<Rightarrow> if tr_status r = SClosed then Some r else None | _ \<Rightarrow> None)"

definition recovery_records :: "slots \<Rightarrow> pubkey \<rightharpoonup> transfer_record" where
  "recovery_records sl k = (case sl k of
     Some (TransferSlot r) \<Rightarrow> if tr_transfer_kind r = KRecover then Some r else None | _ \<Rightarrow> None)"

definition ledger_view :: "slots \<Rightarrow> pubkey \<Rightarrow> transport_ledger" where
  "ledger_view sl k = (case sl k of Some (LedgerSlot l) \<Rightarrow> l | _ \<Rightarrow> ledger_empty 0 0)"

text \<open>\<open>ledger_abs sl\<close>: claimed and credited by closes, and recovered, as the records tell it.\<close>

definition ledger_abs :: "slots \<Rightarrow> nat \<times> nat \<times> nat" where
  "ledger_abs sl =
     (tsum (\<lambda>r. unat (tr_authorized_amount r)) (closed_records sl), tsum attributed_of (closed_records sl),
      tsum attributed_of (recovery_records sl))"

definition ledger_amounts :: "transport_ledger \<Rightarrow> nat \<times> nat \<times> nat" where
  "ledger_amounts l =
     (unat (tl_cumulative_closed_claim l), unat (tl_cumulative_closed_credit l), unat (tl_cumulative_recovered l))"

definition ledger_ok :: "'h runtime \<Rightarrow> leg \<Rightarrow> bool" where
  "ledger_ok rt lg \<longleftrightarrow>
     (let l = ledger_view (lg_slots lg) (fst (ledger_address rt (lg_key lg))) in
      ledger_amounts l = ledger_abs (lg_slots lg) \<and> ledger_balanced l)"

section \<open>Entries that do not count\<close>

definition plain_entry :: "slot option \<Rightarrow> bool" where
  "plain_entry e = (case e of
     Some (TransferSlot r) \<Rightarrow> tr_status r \<noteq> SClosed \<and> tr_transfer_kind r \<noteq> KRecover
   | Some (LedgerSlot _) \<Rightarrow> False | _ \<Rightarrow> True)"

lemma plain_simps [simp]:
  "plain_entry None" "plain_entry (Some ForeignSlot)" "plain_entry (Some (consumed_record lg cls bump seq mid))"
  "plain_entry (Some (report_entry b k lane built related epoch clock))" "plain_entry (Some (MarkerSlot m))"
  "plain_entry (Some (ConsumedSlot c))"
  "plain_entry (Some (TransferSlot r)) \<longleftrightarrow> tr_status r \<noteq> SClosed \<and> tr_transfer_kind r \<noteq> KRecover"
  "\<not> plain_entry (Some (LedgerSlot l))"
  by (simp_all add: plain_entry_def consumed_record_def report_entry_def)

lemma plain_update:
  assumes "plain_entry (sl k)" "plain_entry v"
  shows "closed_records (sl(k := v)) = closed_records sl" "recovery_records (sl(k := v)) = recovery_records sl"
    "ledger_view (sl(k := v)) = ledger_view sl"
  using assms
  by (auto simp: fun_eq_iff closed_records_def recovery_records_def ledger_view_def plain_entry_def
      split: option.splits slot.splits)

lemma ledger_abs_plain: "plain_entry (sl k) \<Longrightarrow> plain_entry v \<Longrightarrow> ledger_abs (sl(k := v)) = ledger_abs sl"
  by (simp add: ledger_abs_def plain_update)

lemma ledger_frame:
  assumes "ledger_ok rt lg" "lg_key lg' = lg_key lg" "ledger_abs (lg_slots lg') = ledger_abs (lg_slots lg)"
    and "ledger_view (lg_slots lg') = ledger_view (lg_slots lg)"
  shows "ledger_ok rt lg'"
  using assms by (simp add: ledger_ok_def)

text \<open>An instruction that writes at most two plain entries leaves the ledger in agreement.\<close>

lemma ledger_write:
  assumes "ledger_ok rt lg" "lg_key lg' = lg_key lg" "lg_slots lg' = (lg_slots lg)(k := v)"
    and "plain_entry (lg_slots lg k)" "plain_entry v"
  shows "ledger_ok rt lg'"
  by (rule ledger_frame [OF assms(1,2)]) (use assms(4,5) in \<open>simp_all add: assms(3) ledger_abs_plain plain_update\<close>)

lemma ledger_write2:
  assumes "ledger_ok rt lg" "lg_key lg' = lg_key lg" "lg_slots lg' = (lg_slots lg)(k := v, k' := v')"
    and "plain_entry (lg_slots lg k)" "plain_entry v" "plain_entry (lg_slots lg k')" "plain_entry v'"
  shows "ledger_ok rt lg'"
  by (rule ledger_frame [OF assms(1,2)])
    (use assms(4-7) in \<open>simp_all add: assms(3) ledger_abs_plain plain_update fun_upd_apply\<close>)

section \<open>Settlements\<close>

lemma record_close_Inr:
  assumes "record_close l claim credited seq = Inr (missing, l')"
  shows "ledger_amounts l' = (unat (tl_cumulative_closed_claim l) + unat claim,
      unat (tl_cumulative_closed_credit l) + unat credited, unat (tl_cumulative_recovered l))" "ledger_balanced l'"
  using assms
  by (auto simp: record_close_def Let_def and_then_Inr ok_or_Inr ledger_add_Inr check_balanced_Inr ledger_amounts_def)

lemma record_recovery_Inr:
  assumes "record_recovery l credited = Inr l'"
  shows "ledger_amounts l' = (unat (tl_cumulative_closed_claim l), unat (tl_cumulative_closed_credit l),
      unat (tl_cumulative_recovered l) + unat credited)" "ledger_balanced l'"
  using assms
  by (auto simp: record_recovery_def Let_def and_then_Inr ok_or_Inr ledger_add_Inr check_balanced_Inr ledger_amounts_def)

lemma closed_records_sub: "finite (dom (transfers sl)) \<Longrightarrow> finite (dom (closed_records sl))"
  by (rule finite_subset [of _ "dom (transfers sl)"])
    (auto simp: closed_records_def transfers_def split: option.splits slot.splits)

lemma recovery_records_sub: "finite (dom (transfers sl)) \<Longrightarrow> finite (dom (recovery_records sl))"
  by (rule finite_subset [of _ "dom (transfers sl)"])
    (auto simp: recovery_records_def transfers_def split: option.splits slot.splits)

lemma ledger_abs_close:
  assumes "finite (dom (transfers sl))" "sl k = Some (TransferSlot r)" "tr_status r \<noteq> SClosed" "tr_transfer_kind r = KAllocate"
    and "tr_status r' = SClosed" "tr_transfer_kind r' = KAllocate" "ledger_abs sl = (a, b, c)"
  shows "ledger_abs (sl(k \<mapsto> TransferSlot r')) = (a + unat (tr_authorized_amount r'), b + attributed_of r', c)"
proof -
  have "closed_records (sl(k \<mapsto> TransferSlot r')) = (closed_records sl)(k \<mapsto> r')" "closed_records sl k = None"
      "recovery_records (sl(k \<mapsto> TransferSlot r')) = recovery_records sl"
    using assms(2-6) by (auto simp: fun_eq_iff closed_records_def recovery_records_def)
  then show ?thesis
    using assms(7) closed_records_sub [OF assms(1)] by (auto simp: ledger_abs_def tsum_new)
qed

lemma ledger_abs_recover:
  assumes "finite (dom (transfers sl))" "sl k = None"
    and "tr_status r' = SComplete" "tr_transfer_kind r' = KRecover" "ledger_abs sl = (a, b, c)"
  shows "ledger_abs (sl(k \<mapsto> TransferSlot r')) = (a, b, c + attributed_of r')"
proof -
  have "recovery_records (sl(k \<mapsto> TransferSlot r')) = (recovery_records sl)(k \<mapsto> r')" "recovery_records sl k = None"
      "closed_records (sl(k \<mapsto> TransferSlot r')) = closed_records sl"
    using assms(2-4) by (auto simp: fun_eq_iff closed_records_def recovery_records_def)
  then show ?thesis
    using assms(5) recovery_records_sub [OF assms(1)] by (auto simp: ledger_abs_def tsum_new)
qed

lemma ledger_abs_other:
  assumes "not_transfer (sl k)" "not_transfer v"
  shows "ledger_abs (sl(k := v)) = ledger_abs sl"
proof -
  have "closed_records (sl(k := v)) = closed_records sl" "recovery_records (sl(k := v)) = recovery_records sl"
    using assms by (auto simp: fun_eq_iff closed_records_def recovery_records_def not_transfer_def
        split: option.splits slot.splits)
  then show ?thesis by (simp add: ledger_abs_def)
qed

lemma settles_abs:
  assumes "settles rt tk body seq c l existed clock lg s l' lg1" "finite (dom (transfers (lg_slots lg)))"
    and "ledger_amounts l = ledger_abs (lg_slots lg)"
  shows "ledger_amounts l' = ledger_abs (lg_slots lg1)" "ledger_balanced l'"
proof -
  have "ledger_amounts l' = ledger_abs (lg_slots lg1) \<and> ledger_balanced l'"
    using assms(1) unfolding settles_def
  proof (elim disjE conjE)
    assume "settle_close_leg tk body c l clock lg = Inr (s, l', lg1)"
    then show ?thesis
    proof (cases rule: settle_close_leg_Inr)
      case (1 r r1 p' missing)
      have r1: "tr_transfer_kind r1 = KAllocate" "tr_authorized_amount r1 = tr_authorized_amount r" "tr_status r \<noteq> SClosed"
        using 1(2,4) by (auto simp: attributes_def close_quarantined_def close_complete_def and_then_Inr
            elim!: close_pending_Inr)
      have abs: "ledger_abs (lg_slots lg) = (unat (tl_cumulative_closed_claim l), unat (tl_cumulative_closed_credit l),
          unat (tl_cumulative_recovered l))"
        using assms(3) by (simp add: ledger_amounts_def)
      show ?thesis
        using record_close_Inr [OF 1(6)]
          ledger_abs_close [OF assms(2) 1(1) r1(3) 1(2) _ _ abs, of "r1\<lparr>tr_status := SClosed\<rparr>"] r1
        by (simp add: 1(7))
    qed
  next
    assume "settle_recover_leg tk body (snd (transfer_address rt (lg_key lg) (rv_transfer_id body))) seq c l clock lg =
      Inr (s, l', lg1)"
    then show ?thesis
    proof (cases rule: settle_recover_Inr)
      case (1 credited p')
      have abs: "ledger_abs (lg_slots lg) = (unat (tl_cumulative_closed_claim l), unat (tl_cumulative_closed_credit l),
          unat (tl_cumulative_recovered l))"
        using assms(3) by (simp add: ledger_amounts_def)
      show ?thesis
        using record_recovery_Inr [OF 1(6)] ledger_abs_recover [OF assms(2) 1(4) _ _ abs]
        by (simp add: 1(7) new_recovery_def)
    qed
  qed
  then show "ledger_amounts l' = ledger_abs (lg_slots lg1)" "ledger_balanced l'" by simp_all
qed

lemma books_finite: "books_ok rt lg \<Longrightarrow> finite (dom (transfers (lg_slots lg)))"
  by (auto simp: books_ok_def books_def book_inv_def records_ok_def)

lemma settlement_ledger:
  assumes "handle_settlement rt a bs clock lg = Inr lg'" "ledger_ok rt lg" "books_ok rt lg"
  shows "ledger_ok rt lg'"
  using assms(1)
proof (cases rule: handle_settlement_step)
  case (1 m mid fresh body cbump t l existed s l' lg1 built rbump outbound')
  let ?tk = "sa_transfer_record a" and ?lk = "sa_transport_ledger a"
  obtain r' p' where lg1: "lg1 = lg\<lparr>lg_position := p', lg_slots := (lg_slots lg)(?tk \<mapsto> TransferSlot r')\<rparr>"
    "?tk \<noteq> ?lk" "lg_slots lg ?lk = None \<or> lg_slots lg ?lk = Some (LedgerSlot l)"
    using 1(9,8,10) by (rule settles_slots)
  have "ledger_amounts l = ledger_amounts (ledger_view (lg_slots lg) ?lk)"
    using 1(8) by (auto simp: ledger_at_def ledger_view_def ledger_amounts_def ledger_empty_def)
  also have "\<dots> = ledger_abs (lg_slots lg)" using assms(2) 1(7) by (simp add: ledger_ok_def Let_def)
  finally have l': "ledger_amounts l' = ledger_abs (lg_slots lg1)" "ledger_balanced l'"
    using settles_abs [OF 1(9) books_finite [OF assms(3)]] by simp_all
  have abs: "ledger_abs (lg_slots lg') = ledger_abs (lg_slots lg1)"
    using 1(13,15) lg1 by (auto simp: 1(17) ledger_abs_other consumed_record_def report_entry_def)
  have view: "ledger_view (lg_slots lg') ?lk = l'"
    using 1(13,15) by (auto simp: 1(17) ledger_view_def split: if_splits)
  have key: "lg_key lg' = lg_key lg" by (simp add: 1(17) lg1(1))
  show ?thesis using l' abs view 1(7) by (simp add: ledger_ok_def Let_def key)
qed

section \<open>Every other instruction\<close>

lemma inbound_ledger:
  assumes "ledger_ok rt lg"
  shows "handle_allocate rt v tk ck bs clock lg = Inr lg' \<Longrightarrow> ledger_ok rt lg'"
    and "handle_recall rt v g tk ck bs clock lg = Inr lg' \<Longrightarrow> ledger_ok rt lg'"
    and "handle_config_update rt v ck bs clock lg = Inr lg' \<Longrightarrow> ledger_ok rt lg'"
proof -
  assume "handle_allocate rt v tk ck bs clock lg = Inr lg'"
  then show "ledger_ok rt lg'"
  proof (cases rule: handle_allocate_step)
    case (1 m mid fresh body authorized minimum quarantine bump cbump r p' ev)
    have "plain_entry (Some (TransferSlot r))" by (simp add: 1(13) quarantined_def new_allocation_def)
    then show ?thesis using 1(5,11,12) by (intro ledger_write2 [OF assms, where k = tk and v = "lg_slots lg' tk" and k' = ck and v' = "lg_slots lg' ck"]) (simp_all add: 1(16))
  qed
next
  assume "handle_recall rt v g tk ck bs clock lg = Inr lg'"
  then show "ledger_ok rt lg'"
  proof (cases rule: handle_recall_step)
    case (1 m mid fresh body requested minimum bump cbump r p' evs)
    have "plain_entry (Some (TransferSlot r))"
      using 1(13) by (auto simp: quarantined_def new_recall_def reserve_recall_custody_Inr split: if_splits)
    then show ?thesis using 1(6,11,12) by (intro ledger_write2 [OF assms, where k = tk and v = "lg_slots lg' tk" and k' = ck and v' = "lg_slots lg' ck"]) (simp_all add: 1(14))
  qed
next
  assume "handle_config_update rt v ck bs clock lg = Inr lg'"
  then show "ledger_ok rt lg'"
  proof (cases rule: handle_config_update_step)
    case (1 m mid fresh body cbump c' risk' ev)
    then show ?thesis by (intro ledger_write [OF assms, where k = ck and v = "lg_slots lg' ck"]) simp_all
  qed
qed

lemma admits_plain:
  assumes "admits lg g tk r r' p'"
  shows "plain_entry (Some (TransferSlot r))" "plain_entry (Some (TransferSlot r'))"
  using assms
  by (auto simp: admits_def check_quarantined_Inr reserve_recall_custody_Inr admission_terms_def
      split: if_splits transfer_kind.splits)

lemma resolve_ledger:
  assumes "handle_resolve rt v g tk ck bs clock lg = Inr lg'" "ledger_ok rt lg"
  shows "ledger_ok rt lg'"
  using assms(1)
proof (cases rule: handle_resolve_step)
  case (1 m mid fresh body cbump sl p' evs kind outcome)
  consider "sl = lg_slots lg" | r r' where "admits lg g tk r r' p'" "sl = (lg_slots lg)(tk \<mapsto> TransferSlot r')"
    using 1(6) by blast
  then show ?thesis
  proof cases
    case a: 1
    then show ?thesis using 1(5) by (intro ledger_write [OF assms(2), where k = ck and v = "lg_slots lg' ck"]) (simp_all add: 1(7))
  next
    case (2 r r')
    then show ?thesis using 1(5) admits_plain [OF 2(1)] admits_facts(1) [OF 2(1)]
      by (intro ledger_write2 [OF assms(2), where k = tk and v = "lg_slots lg' tk" and k' = ck and v' = "lg_slots lg' ck"]) (auto simp: 1(7))
  qed
qed

lemma attribute_ledger:
  assumes "process_attribute_allocation rt tk key g clock lg = Inr lg'" "ledger_ok rt lg"
  shows "ledger_ok rt lg'"
  using assms(1)
proof (cases rule: process_attribute_step)
  case (1 t r n r1 p1)
  have "tr_status r1 = SPending" "tr_transfer_kind r1 = KAllocate" "tr_status r = SPending" "tr_transfer_kind r = KAllocate"
    using attributes_facts(1) [OF 1(5)] 1(3) by (auto simp: check_active_Inr)
  then show ?thesis
    using 1(2,7) by (intro ledger_write [OF assms(2), where k = tk and v = "lg_slots lg' tk"]) (auto split: if_splits)
qed

lemma recall_pays_ledger:
  assumes "ledger_ok rt lg"
  shows "process_withdraw_for_recall rt a tk maximum clock lg = Inr lg' \<Longrightarrow> ledger_ok rt lg'"
    and "process_send_recall rt b tk maximum clock lg = Inr lg' \<Longrightarrow> ledger_ok rt lg'"
proof -
  assume "process_withdraw_for_recall rt a tk maximum clock lg = Inr lg'"
  then show "ledger_ok rt lg'"
  proof (cases rule: process_withdraw_step)
    case (1 t vault r s p1 unresolved w after reduction returned lost r1 p2 b r2 p3)
    have "tr_status r1 = SPending" "tr_transfer_kind r1 = KRecall" "tr_status r = SPending" "tr_transfer_kind r = KRecall"
      using settle_withdraw_Inr(1) [OF 1(10)] 1(6) by (auto simp: withdraws_def check_active_Inr)
    then show ?thesis using 1(5,11)
      by (intro ledger_write [OF assms, where k = tk and v = "Some (TransferSlot r2)"])
        (auto simp: 1(12) settle_recall_Inr split: if_splits)
  qed
next
  assume "process_send_recall rt b tk maximum clock lg = Inr lg'"
  then show "ledger_ok rt lg'"
  proof (cases rule: process_send_step)
    case (1 t escrow r s p1 w t' escrow' r1 p2 b r2 p3 n)
    have "tr_status r1 = SPending" "tr_transfer_kind r1 = KRecall" "tr_status r = SPending" "tr_transfer_kind r = KRecall"
      using settle_send_Inr [OF 1(10)] 1(4) by (auto simp: check_active_Inr)
    then show ?thesis using 1(3,11)
      by (intro ledger_write [OF assms, where k = tk and v = "Some (TransferSlot r2)"])
        (auto simp: 1(12) settle_recall_Inr split: if_splits)
  qed
qed

lemma other_ledger:
  assumes "ledger_ok rt lg"
  shows "process_reconcile_custody rt key clock lg = Inr lg' \<Longrightarrow> ledger_ok rt lg'"
    and "process_deploy_to_strategy rt sa receipt tx n clock lg = Inr lg' \<Longrightarrow> ledger_ok rt lg'"
    and "process_freeze authority clock lg = Inr lg' \<Longrightarrow> ledger_ok rt lg'"
    and "process_advance_replay_watermark rt adm m clock lg = Inr lg' \<Longrightarrow> ledger_ok rt lg'"
    and "process_initialize_deploy_authorization rt adm key clock lg = Inr lg' \<Longrightarrow> ledger_ok rt lg'"
    and "process_close_consumed_message rt adm ck clock lg = Inr lg' \<Longrightarrow> ledger_ok rt lg'"
  by (auto elim!: process_reconcile_step process_deploy_step process_freeze_step process_watermark_step
      process_adopt_step process_close_consumed_step intro: ledger_frame [OF assms] ledger_write [OF assms])

lemma publish_ledger:
  assumes "ledger_ok rt lg"
  shows "process_publish_remote_report rt key ak rk active epoch clock lg = Inr lg' \<Longrightarrow> ledger_ok rt lg'"
    and "process_publish_recall_sent rt tk rk mk clock lg = Inr lg' \<Longrightarrow> ledger_ok rt lg'"
  by (auto elim!: process_publish_remote_report_step process_publish_recall_sent_step
      intro: ledger_write [OF assms] ledger_write2 [OF assms])

lemma step_ledger:
  assumes "leg_step rt lg lg'" "ledger_ok rt lg" "books_ok rt lg"
  shows "ledger_ok rt lg'"
  using assms(1)
proof cases
  case (instruction c clock)
  then show ?thesis using assms(2,3)
    by (cases c) (auto intro: inbound_ledger resolve_ledger settlement_ledger attribute_ledger recall_pays_ledger
        other_ledger publish_ledger)
next
  case (others w)
  then show ?thesis by (intro ledger_frame [OF assms(2)]) simp_all
qed

lemma reachable_ledger: "leg_reachable rt lg \<Longrightarrow> ledger_ok rt lg"
proof (induction rule: leg_reachable.induct)
  case (start lg)
  have "closed_records (lg_slots lg) k = None \<and> recovery_records (lg_slots lg) k = None \<and>
      ledger_view (lg_slots lg) k = ledger_empty 0 0" for k
  proof -
    have "lg_slots lg k = None \<or> lg_slots lg k = Some ForeignSlot"
      using leg_start_facts(1) [OF start] by (simp add: fresh_slots_def)
    then show ?thesis by (auto simp: closed_records_def recovery_records_def ledger_view_def)
  qed
  then have "closed_records (lg_slots lg) = Map.empty" "recovery_records (lg_slots lg) = Map.empty"
      "ledger_view (lg_slots lg) = (\<lambda>_. ledger_empty 0 0)"
    by (auto simp: fun_eq_iff)
  then show ?case
    by (simp add: ledger_ok_def ledger_abs_def ledger_amounts_def ledger_empty_def ledger_balanced_def)
next
  case (step lg lg')
  then show ?case by (blast intro: step_ledger reachable_books)
qed

end
