(* ===== verification/Leg_Guards.thy ===== *)
theory Leg_Guards
  imports Leg_Ledger
begin

text \<open>
  Facts about single instructions that the properties of the leg combine: who may move custody
  and by how much, what a frozen leg still does, and when a recall notice is published.
\<close>

section \<open>Recall notices\<close>

abbreviation marker_at :: "'h runtime \<Rightarrow> leg \<Rightarrow> bytes32 \<Rightarrow> pubkey" where
  "marker_at rt lg tid \<equiv> fst (marker_address rt (lg_key lg) tid)"

definition notice_effect_of :: "'h runtime \<Rightarrow> leg \<Rightarrow> leg \<Rightarrow> bool" where
  "notice_effect_of rt lg lg' \<longleftrightarrow>
     notices lg' = notices lg \<or>
     (\<exists>tid mk. notices lg' = notices lg @ [tid] \<and> lg_slots lg (marker_at rt lg tid) = None \<and>
        lg_slots lg' (marker_at rt lg tid) = Some (MarkerSlot mk))"

lemma notices_same: "List.map_filter notice_of es = [] \<Longrightarrow> lg_events lg' = lg_events lg @ es \<Longrightarrow> notice_effect_of rt lg lg'"
  by (simp add: notice_effect_of_def notices_def)

lemma inbound_notices:
  shows "handle_allocate rt v tk ck bs clock lg = Inr lg' \<Longrightarrow> notice_effect_of rt lg lg'"
    and "handle_recall rt v g tk ck bs clock lg = Inr lg' \<Longrightarrow> notice_effect_of rt lg lg'"
    and "handle_resolve rt v g tk ck bs clock lg = Inr lg' \<Longrightarrow> notice_effect_of rt lg lg'"
    and "handle_config_update rt v ck bs clock lg = Inr lg' \<Longrightarrow> notice_effect_of rt lg lg'"
    and "handle_settlement rt sa bs clock lg = Inr lg' \<Longrightarrow> notice_effect_of rt lg lg'"
proof -
  assume "handle_allocate rt v tk ck bs clock lg = Inr lg'"
  then show "notice_effect_of rt lg lg'"
  proof (cases rule: handle_allocate_step)
    case (1 m mid fresh body authorized minimum quarantine bump cbump r p' ev)
    have "notice_of ev = None" by (cases quarantine) (simp_all add: 1(15) notice_of_def)
    then show ?thesis by (intro notices_same [of "[ev]"]) (simp_all add: 1(16))
  qed
next
  assume "handle_recall rt v g tk ck bs clock lg = Inr lg'"
  then show "notice_effect_of rt lg lg'"
  proof (cases rule: handle_recall_step)
    case (1 m mid fresh body requested minimum bump cbump r p' evs)
    have "List.map_filter notice_of evs = []" using 1(13) by (auto simp: notice_of_def split: if_splits)
    then show ?thesis by (intro notices_same [of evs]) (simp_all add: 1(14))
  qed
next
  assume "handle_resolve rt v g tk ck bs clock lg = Inr lg'"
  then show "notice_effect_of rt lg lg'"
  proof (cases rule: handle_resolve_step)
    case (1 m mid fresh body cbump sl p' evs kind outcome)
    have "List.map_filter notice_of evs = []" using 1(6) by (auto simp: notice_of_def)
    then show ?thesis by (simp add: 1(7) notice_effect_of_def notices_def notice_of_def)
  qed
next
  assume "handle_config_update rt v ck bs clock lg = Inr lg'"
  then show "notice_effect_of rt lg lg'"
  proof (cases rule: handle_config_update_step)
    case (1 m mid fresh body cbump c' risk' ev)
    have "notice_of ev = None" using 1(6) by (auto simp: notice_of_def split: if_splits)
    then show ?thesis by (intro notices_same [of "[ev]"]) (simp_all add: 1(7))
  qed
next
  assume "handle_settlement rt sa bs clock lg = Inr lg'"
  then show "notice_effect_of rt lg lg'"
  proof (cases rule: handle_settlement_step)
    case (1 m mid fresh body cbump t l existed s l' lg1 built rbump outbound')
    then show ?thesis by (simp add: notice_effect_of_def notices_def notice_of_def)
  qed
qed

lemma other_notices:
  shows "process_reconcile_custody rt key clock lg = Inr lg' \<Longrightarrow> notice_effect_of rt lg lg'"
    and "process_attribute_allocation rt tk key g clock lg = Inr lg' \<Longrightarrow> notice_effect_of rt lg lg'"
    and "process_deploy_to_strategy rt ka receipt tx n clock lg = Inr lg' \<Longrightarrow> notice_effect_of rt lg lg'"
    and "process_withdraw_for_recall rt ka tk n clock lg = Inr lg' \<Longrightarrow> notice_effect_of rt lg lg'"
    and "process_send_recall rt da tk n clock lg = Inr lg' \<Longrightarrow> notice_effect_of rt lg lg'"
    and "process_publish_remote_report rt key ak rk active epoch clock lg = Inr lg' \<Longrightarrow> notice_effect_of rt lg lg'"
    and "process_freeze authority clock lg = Inr lg' \<Longrightarrow> notice_effect_of rt lg lg'"
    and "process_advance_replay_watermark rt adm n clock lg = Inr lg' \<Longrightarrow> notice_effect_of rt lg lg'"
    and "process_initialize_deploy_authorization rt adm key clock lg = Inr lg' \<Longrightarrow> notice_effect_of rt lg lg'"
    and "process_close_consumed_message rt adm ck clock lg = Inr lg' \<Longrightarrow> notice_effect_of rt lg lg'"
  by (erule process_reconcile_step process_attribute_step process_deploy_step process_withdraw_step
      process_send_step process_publish_remote_report_step process_freeze_step process_watermark_step
      process_adopt_step process_close_consumed_step;
      simp add: notice_effect_of_def notices_def notice_of_def split: if_splits)+

lemma notice_notices:
  assumes "process_publish_recall_sent rt tk rk mk clock lg = Inr lg'"
  shows "notice_effect_of rt lg lg'"
  using assms
proof (cases rule: process_publish_recall_sent_step)
  case (1 r sent built bump mbump outbound' body)
  have mk: "mk = marker_at rt lg (tr_transfer_id r)" using 1(7) by (auto dest: arg_cong [of _ _ fst])
  show ?thesis
    unfolding notice_effect_of_def
    by (rule disjI2, rule exI [of _ "tr_transfer_id r"])
      (use 1(8) in \<open>simp add: 1(11) notices_def notice_of_def flip: mk\<close>)
qed

definition notices_ok :: "'h runtime \<Rightarrow> leg \<Rightarrow> bool" where
  "notices_ok rt lg \<longleftrightarrow> distinct (notices lg) \<and>
     (\<forall>tid \<in> set (notices lg). \<exists>mk. lg_slots lg (marker_at rt lg tid) = Some (MarkerSlot mk))"

lemma step_notices:
  assumes "leg_step rt lg lg'" "notices_ok rt lg"
  shows "notices_ok rt lg'"
proof -
  have e: "slots_effect lg lg'" "lg_key lg' = lg_key lg"
    using step_effect [OF assms(1)] by (simp_all add: effect_def config_effect_def)
  have "notice_effect_of rt lg lg'"
    using assms(1)
  proof cases
    case (instruction c clock)
    then show ?thesis by (cases c) (auto intro: inbound_notices other_notices notice_notices)
  qed (simp add: notice_effect_of_def notices_def)
  moreover have "lg_slots lg' k = Some (MarkerSlot mk)" if "lg_slots lg k = Some (MarkerSlot mk)" for k mk
  proof -
    have "entry_kept lg (MarkerSlot mk) (lg_slots lg' k)" using e(1) that by (simp add: slots_effect_def)
    then show ?thesis by (simp add: entry_kept_def)
  qed
  ultimately show ?thesis
    using assms(2) by (fastforce simp: notice_effect_of_def notices_ok_def e(2))
qed

lemma reachable_notices: "leg_reachable rt lg \<Longrightarrow> notices_ok rt lg"
proof (induction rule: leg_reachable.induct)
  case (start lg)
  then show ?case by (simp add: notices_ok_def start_views(3) [OF start])
next
  case (step lg lg')
  then show ?case by (blast intro: step_notices)
qed

section \<open>The accounts around the leg\<close>

fun calls_out :: "call \<Rightarrow> bool" where
  "calls_out (DeployToStrategy _ _ _ _) = True"
| "calls_out (WithdrawForRecall _ _ _) = True"
| "calls_out (SendRecall _ _ _) = True"
| "calls_out _ = False"

lemma world_same:
  assumes "dispatch rt c clock lg = Inr lg'" "\<not> calls_out c"
  shows "lg_world lg' = lg_world lg"
proof (cases c)
  case (ProcessSettlement a bs)
  with assms(1) have "handle_settlement rt a bs clock lg = Inr lg'" by simp
  then show ?thesis
  proof (cases rule: handle_settlement_step)
    case (1 m mid fresh body cbump t l existed s l' lg1 built rbump outbound')
    from 1(9) show ?thesis by (rule settles_frame) (simp add: 1(17))
  qed
qed (use assms in \<open>auto elim!: handle_allocate_step handle_recall_step handle_resolve_step handle_config_update_step
    process_reconcile_step process_attribute_step process_publish_remote_report_step process_publish_recall_sent_step
    process_freeze_step process_watermark_step process_adopt_step process_close_consumed_step split: if_splits\<close>)

lemma custody_key:
  assumes "leg_step rt lg lg'"
  shows "cf_custody_token_account (lg_config lg') = cf_custody_token_account (lg_config lg)"
    "cf_outbound_escrow (lg_config lg') = cf_outbound_escrow (lg_config lg)"
proof -
  have c: "lg_config lg' = (lg_config lg)\<lparr>cf_config_version := cf_config_version (lg_config lg'),
       cf_frozen := cf_frozen (lg_config lg')\<rparr>"
    using step_effect [OF assms] by (simp add: effect_def config_effect_def)
  show "cf_custody_token_account (lg_config lg') = cf_custody_token_account (lg_config lg)"
    "cf_outbound_escrow (lg_config lg') = cf_outbound_escrow (lg_config lg)" by (subst c, simp)+
qed

section \<open>Freezing\<close>

fun deploys :: "call \<Rightarrow> bool" where
  "deploys (DeployToStrategy _ _ _ _) = True"
| "deploys _ = False"

lemma admits_buckets:
  assumes "admits lg g tk r r' p'"
  shows "ps_deployed_principal p' = ps_deployed_principal (lg_position lg)"
  using assms by (auto simp: admits_def admit_transfer_def reserve_recall_custody_Inr split: if_splits)

text \<open>Only a deployment raises deployed principal.\<close>

lemma deployed_same:
  assumes "dispatch rt c clock lg = Inr lg'" "\<not> calls_out c"
  shows "ps_deployed_principal (lg_position lg') = ps_deployed_principal (lg_position lg)"
proof (cases c)
  case (ProcessAllocate v tk ck bs)
  with assms(1) have "handle_allocate rt v tk ck bs clock lg = Inr lg'" by simp
  then show ?thesis by (rule handle_allocate_step) (simp add: open_transfer_def quarantine_transfer_def)
next
  case (ProcessRecall v g tk ck bs)
  with assms(1) have "handle_recall rt v g tk ck bs clock lg = Inr lg'" by simp
  then show ?thesis
  proof (cases rule: handle_recall_step)
    case (1 m mid fresh body requested minimum bump cbump r p' evs)
    have "ps_deployed_principal p' = ps_deployed_principal (lg_position lg)"
      using 1(13) by (auto simp: open_transfer_def quarantine_transfer_def reserve_recall_custody_Inr split: if_splits)
    then show ?thesis by (simp add: 1(14))
  qed
next
  case (ProcessResolve v g tk ck bs)
  with assms(1) have "handle_resolve rt v g tk ck bs clock lg = Inr lg'" by simp
  then show ?thesis
  proof (cases rule: handle_resolve_step)
    case (1 m mid fresh body cbump sl p' evs kind outcome)
    have "ps_deployed_principal p' = ps_deployed_principal (lg_position lg)"
      using 1(6) by (auto dest: admits_buckets)
    then show ?thesis by (simp add: 1(7))
  qed
next
  case (ProcessSettlement a bs)
  with assms(1) have "handle_settlement rt a bs clock lg = Inr lg'" by simp
  then show ?thesis
  proof (cases rule: handle_settlement_step)
    case (1 m mid fresh body cbump t l existed s l' lg1 built rbump outbound')
    have "ps_deployed_principal (lg_position lg1) = ps_deployed_principal (lg_position lg)"
      using 1(9) unfolding settles_def
      by (auto elim!: settle_close_leg_Inr settle_recover_Inr close_pending_Inr simp: recovers_def attributes_def
          close_quarantined_def close_complete_def and_then_Inr close_transfer_def reconcile_Inr)
    then show ?thesis by (simp add: 1(17))
  qed
next
  case (AttributeAllocation tk key g)
  with assms(1) have "process_attribute_allocation rt tk key g clock lg = Inr lg'" by simp
  then show ?thesis
    by (rule process_attribute_step) (auto simp: attributes_def reconcile_Inr complete_transfer_def split: if_splits)
qed (use assms in \<open>auto elim!: handle_config_update_step process_reconcile_step process_publish_remote_report_step
    process_publish_recall_sent_step process_freeze_step process_watermark_step process_adopt_step
    process_close_consumed_step simp: reconcile_Inr\<close>)

lemma deployed_falls:
  assumes "dispatch rt c clock lg = Inr lg'" "\<not> deploys c"
  shows "unat (ps_deployed_principal (lg_position lg')) \<le> unat (ps_deployed_principal (lg_position lg))"
proof (cases "calls_out c")
  case False
  then show ?thesis using deployed_same [OF assms(1)] by simp
next
  case True
  with assms(2) consider a tk n where "c = WithdrawForRecall a tk n" | a tk n where "c = SendRecall a tk n"
    by (cases c) auto
  then show ?thesis
  proof cases
    case 1
    with assms(1) have "process_withdraw_for_recall rt a tk n clock lg = Inr lg'" by simp
    then show ?thesis
    proof (cases rule: process_withdraw_step)
      case w: (1 t vault r s p1 unresolved w after reduction returned lost r1 p2 b r2 p3)
      have "unat (ps_deployed_principal p2) \<le> unat (ps_deployed_principal p1)"
        using settle_withdraw_Inr(1) [OF w(10)] by (auto simp: withdraws_def)
      moreover have "ps_deployed_principal p3 = ps_deployed_principal p2"
        using w(11) by (auto simp: settle_recall_Inr complete_transfer_def split: if_splits)
      ultimately show ?thesis by (simp add: w(12) reconcile_keeps(2) [OF w(7)])
    qed
  next
    case 2
    with assms(1) have "process_send_recall rt a tk n clock lg = Inr lg'" by simp
    then show ?thesis
    proof (cases rule: process_send_step)
      case w: (1 t escrow r s p1 w t' escrow' r1 p2 b r2 p3 m)
      have "ps_deployed_principal p2 = ps_deployed_principal p1" using settle_send_Inr [OF w(10)] by auto
      moreover have "ps_deployed_principal p3 = ps_deployed_principal p2"
        using w(11) by (auto simp: settle_recall_Inr complete_transfer_def split: if_splits)
      ultimately show ?thesis by (simp add: w(12) reconcile_keeps(2) [OF w(5)])
    qed
  qed
qed

lemma frozen_step:
  assumes "leg_step rt lg lg'" "cf_frozen (lg_config lg)"
  shows "lg_config lg' = lg_config lg" "lg_risk lg' = lg_risk lg"
    "unat (ps_deployed_principal (lg_position lg')) \<le> unat (ps_deployed_principal (lg_position lg))"
proof -
  show "lg_config lg' = lg_config lg" "lg_risk lg' = lg_risk lg"
    using step_effect [OF assms(1)] assms(2) by (simp_all add: effect_def config_effect_def)
  show "unat (ps_deployed_principal (lg_position lg')) \<le> unat (ps_deployed_principal (lg_position lg))"
    using assms(1)
  proof cases
    case (instruction c clock)
    have "\<not> deploys c"
      using instruction assms(2) by (cases c) (auto elim!: process_deploy_step)
    with instruction show ?thesis by (rule deployed_falls)
  qed simp
qed

end
