(* ===== verification/Leg_Stuck.thy ===== *)
theory Leg_Stuck
  imports Leg_Guards
begin

text \<open>
  A quarantined recall that asks for more than the leg holds. Admission refuses it, only an open
  allocation or a recovery could add principal, and neither can run while the recall is open.
\<close>

definition stuck_recall :: "'h runtime \<Rightarrow> leg \<Rightarrow> bool" where
  "stuck_recall rt lg =
     (ps_active_transfer_kind (lg_position lg) = KRecall \<and> ps_active_transfer_status (lg_position lg) = SQuarantined \<and>
      (case lg_slots lg (record_at rt lg (ps_active_transfer_id (lg_position lg))) of
         Some (TransferSlot r) \<Rightarrow>
           unat (ps_attributed_principal (lg_position lg)) + unat (ps_deployed_principal (lg_position lg))
             < unat (tr_requested_recall_amount r)
       | _ \<Rightarrow> False))"

lemma stuck_frame:
  assumes "stuck_recall rt lg" "lg_key lg' = lg_key lg"
    and "ps_active_transfer_kind (lg_position lg') = ps_active_transfer_kind (lg_position lg)"
    and "ps_active_transfer_status (lg_position lg') = ps_active_transfer_status (lg_position lg)"
    and "ps_active_transfer_id (lg_position lg') = ps_active_transfer_id (lg_position lg)"
    and "unat (ps_attributed_principal (lg_position lg')) + unat (ps_deployed_principal (lg_position lg')) =
      unat (ps_attributed_principal (lg_position lg)) + unat (ps_deployed_principal (lg_position lg))"
    and "\<And>k r. lg_slots lg k = Some (TransferSlot r) \<Longrightarrow> lg_slots lg' k = Some (TransferSlot r)"
  shows "stuck_recall rt lg'"
proof -
  obtain r where r: "lg_slots lg (record_at rt lg (ps_active_transfer_id (lg_position lg))) = Some (TransferSlot r)"
    using assms(1) by (auto simp: stuck_recall_def split: option.splits slot.splits)
  from assms(7) [OF r] r assms(1-6) show ?thesis by (simp add: stuck_recall_def)
qed

lemma stuck_active:
  assumes "books_ok rt lg" "stuck_recall rt lg" "lg_slots lg k = Some (TransferSlot r)"
    and "tr_transfer_id r = ps_active_transfer_id (lg_position lg)"
  shows "tr_status r = SQuarantined"
    "unat (ps_attributed_principal (lg_position lg)) + unat (ps_deployed_principal (lg_position lg))
       < unat (tr_requested_recall_amount r)"
proof -
  from assms(1) obtain t where "custody_of lg = Some t" and
    inv: "book_inv (record_at rt lg) (transfers (lg_slots lg)) (lg_position lg) (ceiling_of lg) (ta_amount t)"
    by (rule books_okE)
  have T: "records_ok (record_at rt lg) (transfers (lg_slots lg))"
      "cycle_ok (record_at rt lg) (transfers (lg_slots lg)) (lg_position lg)"
    using inv by (simp_all add: book_inv_def)
  have kind: "ps_active_transfer_kind (lg_position lg) \<noteq> KNone" using assms(2) by (simp add: stuck_recall_def)
  have rec: "open_record (record_at rt lg) (transfers (lg_slots lg)) (lg_position lg) r"
      "k = record_at rt lg (ps_active_transfer_id (lg_position lg))"
    using open_recordI [OF T _ kind, of k r] assms(3,4) by simp_all
  show "tr_status r = SQuarantined"
    using open_record_facts(3) [OF inv rec(1)] assms(2) by (simp add: stuck_recall_def)
  show "unat (ps_attributed_principal (lg_position lg)) + unat (ps_deployed_principal (lg_position lg))
       < unat (tr_requested_recall_amount r)"
    using assms(2,3) by (simp add: stuck_recall_def flip: rec(2))
qed

lemma stuck_no_admission:
  assumes "books_ok rt lg" "stuck_recall rt lg"
  shows "\<not> admits lg g tk r r' p'"
proof
  assume a: "admits lg g tk r r' p'"
  have r: "lg_slots lg tk = Some (TransferSlot r)" "tr_transfer_id r = ps_active_transfer_id (lg_position lg)"
      "tr_transfer_kind r = KRecall" "admission_terms r lg = Inr None"
    using a assms(2) by (auto simp: admits_def check_quarantined_Inr stuck_recall_def)
  from stuck_active(2) [OF assms r(1,2)] r(3,4) show False
    by (auto simp: admission_terms_def and_then_Inr accepted_principal_Inr le_unat not_less split: if_splits)
qed

lemma stuck_no_settlement:
  assumes "stuck_recall rt lg"
  shows "\<not> settles rt tk body seq c l existed clock lg s l' lg1"
  using assms unfolding settles_def
  by (auto simp: stuck_recall_def close_quarantined_def close_complete_def and_then_Inr require_Inr
      check_no_active_Inr holds_allocation_def elim!: settle_close_leg_Inr settle_recover_Inr close_pending_Inr)

lemma stuck_inbound:
  assumes "books_ok rt lg" "stuck_recall rt lg"
  shows "handle_allocate rt v tk ck bs clock lg \<noteq> Inr lg'"
    and "handle_recall rt v g tk ck bs clock lg \<noteq> Inr lg'"
    and "handle_settlement rt sa bs clock lg \<noteq> Inr lg'"
    and "process_attribute_allocation rt tk key g clock lg \<noteq> Inr lg'"
    and "handle_resolve rt v g tk ck bs clock lg = Inr lg' \<Longrightarrow> stuck_recall rt lg'"
    and "handle_config_update rt v ck bs clock lg = Inr lg' \<Longrightarrow> stuck_recall rt lg'"
proof -
  have kind: "ps_active_transfer_kind (lg_position lg) = KRecall" using assms(2) by (simp add: stuck_recall_def)
  show "handle_allocate rt v tk ck bs clock lg \<noteq> Inr lg'" using kind by (auto elim!: handle_allocate_step)
  show "handle_recall rt v g tk ck bs clock lg \<noteq> Inr lg'" using kind by (auto elim!: handle_recall_step)
  show "handle_settlement rt sa bs clock lg \<noteq> Inr lg'"
    using stuck_no_settlement [OF assms(2)] by (auto elim!: handle_settlement_step)
  show "process_attribute_allocation rt tk key g clock lg \<noteq> Inr lg'"
    using kind by (auto elim!: process_attribute_step simp: check_active_Inr)
  show "handle_resolve rt v g tk ck bs clock lg = Inr lg' \<Longrightarrow> stuck_recall rt lg'"
  proof (erule handle_resolve_step)
    fix m :: message and mid :: bytes32 and cbump :: u8 and sl :: slots and p' evs outcome and kind' :: transfer_kind
      and body :: resolve_body and fresh :: bool
    assume ck: "lg_slots lg ck = None"
      and "outcome \<noteq> OAdmitted \<and> sl = lg_slots lg \<and> p' = lg_position lg \<and> evs = [] \<or>
        outcome = OAdmitted \<and> may_move lg g \<and>
        (\<exists>r r'. admits lg g tk r r' p' \<and> sl = (lg_slots lg)(tk \<mapsto> TransferSlot r')) \<and>
        (evs = [] \<or> (\<exists>n rem. evs = [RecallCustodyReserved (lg_key lg) tk (rv_transfer_id body) n rem clock]))"
      and lg': "lg' = lg\<lparr>lg_position := p',
       lg_slots := sl(ck \<mapsto> consumed_record lg CResolve cbump (hd_sequence (msg_header m)) mid),
       lg_lane := accept rt (hd_sequence (msg_header m)) mid clock (lg_lane lg),
       lg_events := lg_events lg @ evs @ [ResolveProcessed (lg_key lg) tk (rv_transfer_id body)
         (rv_target_sequence body) kind' outcome (g \<noteq> None) mid (hd_sequence (msg_header m))
         (leg_next_commitment rt (ln_message_commitment (lg_lane lg)) mid) clock]\<rparr>"
    then have "sl = lg_slots lg" "p' = lg_position lg" using stuck_no_admission [OF assms] by blast+
    then show ?thesis using ck by (intro stuck_frame [OF assms(2)]) (auto simp: lg')
  qed
  show "handle_config_update rt v ck bs clock lg = Inr lg' \<Longrightarrow> stuck_recall rt lg'"
    by (erule handle_config_update_step) (rule stuck_frame [OF assms(2)], auto)
qed

lemma stuck_custody:
  assumes "books_ok rt lg" "stuck_recall rt lg"
  shows "process_withdraw_for_recall rt ka tk n clock lg \<noteq> Inr lg'"
    and "process_send_recall rt da tk n clock lg \<noteq> Inr lg'"
    and "process_deploy_to_strategy rt ka receipt tx n clock lg = Inr lg' \<Longrightarrow> stuck_recall rt lg'"
    and "process_reconcile_custody rt key clock lg = Inr lg' \<Longrightarrow> stuck_recall rt lg'"
proof -
  have inactive: False if "lg_slots lg tk = Some (TransferSlot r)" "check_active r KRecall (lg_position lg) = Inr ()" for r
    using stuck_active(1) [OF assms that(1)] that(2) by (simp add: check_active_Inr)
  show "process_withdraw_for_recall rt ka tk n clock lg \<noteq> Inr lg'"
    using inactive by (auto elim!: process_withdraw_step)
  show "process_send_recall rt da tk n clock lg \<noteq> Inr lg'"
    using inactive by (auto elim!: process_send_step)
  show "process_deploy_to_strategy rt ka receipt tx n clock lg = Inr lg' \<Longrightarrow> stuck_recall rt lg'"
  proof (erule process_deploy_step)
    fix t s p1 w after p' pol receipt' vault
    assume rec: "reconcile (lg_position lg) (ta_amount t) = Inr (s, p1)"
      and set: "settle_deploy n (ta_amount t) (ta_amount vault) (ps_deployed_principal p1) after p1 = Inr p'"
      and lg': "lg' = lg\<lparr>lg_position := p', lg_world := w, lg_events := lg_events lg @
       [AssetsDeployed (lg_key lg) (sk_adapter_state ka) n (ps_attributed_principal p') (ps_deployed_principal p') clock]\<rparr>"
    show ?thesis
      using settle_deploy_Inr [OF set]
      by (intro stuck_frame [OF assms(2)]) (auto simp: lg' reconcile_keeps [OF rec])
  qed
  show "process_reconcile_custody rt key clock lg = Inr lg' \<Longrightarrow> stuck_recall rt lg'"
    by (erule process_reconcile_step) (rule stuck_frame [OF assms(2)], auto simp: reconcile_Inr)
qed

lemma stuck_other:
  assumes "books_ok rt lg" "stuck_recall rt lg"
  shows "process_publish_remote_report rt key ak rk active epoch clock lg = Inr lg' \<Longrightarrow> stuck_recall rt lg'"
    and "process_publish_recall_sent rt tk rk mk clock lg = Inr lg' \<Longrightarrow> stuck_recall rt lg'"
    and "process_freeze authority clock lg = Inr lg' \<Longrightarrow> stuck_recall rt lg'"
    and "process_advance_replay_watermark rt adm n clock lg = Inr lg' \<Longrightarrow> stuck_recall rt lg'"
    and "process_close_consumed_message rt adm ck clock lg = Inr lg' \<Longrightarrow> stuck_recall rt lg'"
    and "process_initialize_deploy_authorization rt adm key clock lg = Inr lg' \<Longrightarrow> stuck_recall rt lg'"
  by (erule process_publish_remote_report_step process_publish_recall_sent_step process_freeze_step
      process_watermark_step process_close_consumed_step process_adopt_step;
      rule stuck_frame [OF assms(2)]; auto simp: reconcile_Inr)+

lemma stuck_step:
  assumes "leg_step rt lg lg'" "books_ok rt lg" "stuck_recall rt lg"
  shows "stuck_recall rt lg'"
  using assms(1)
proof cases
  case (instruction c clock)
  then show ?thesis
    by (cases c) (auto simp: stuck_inbound(1-4) [OF assms(2,3)] stuck_custody(1,2) [OF assms(2,3)]
        intro: stuck_inbound(5,6) [OF assms(2,3)] stuck_custody(3,4) [OF assms(2,3)] stuck_other [OF assms(2,3)])
next
  case (others w)
  then show ?thesis by (intro stuck_frame [OF assms(3)]) simp_all
qed

end
