(* ===== verification/Leg_Demo.thy ===== *)
theory Leg_Demo
  imports Leg_Stuck
begin

text \<open>
  A concrete leg and its first steps, on which the properties of the leg are evaluated: a runtime
  with small addresses and a length digest, the setup of a leg with a funded custody account, an
  allocation that is accepted and a recall that arrives expired.
\<close>

section \<open>Runtime\<close>

definition demo_digest :: "bytes digest" where
  "demo_digest = \<lparr>dg_new = [], dg_update = (@), dg_finalize = (\<lambda>bs. of_nat (length bs))\<rparr>"

definition demo_address :: "bytes list \<Rightarrow> pubkey" where
  "demo_address seeds = of_nat (1000 * length seeds + length (hd seeds))"

definition demo_transfer :: "pubkey \<Rightarrow> pubkey \<Rightarrow> u64 \<Rightarrow> world \<Rightarrow> world option" where
  "demo_transfer source target n w =
     (case (w_tokens w source, w_tokens w target) of
        (Some a, Some b) \<Rightarrow>
          (if n \<le> ta_amount a then Some (w\<lparr>w_tokens := (w_tokens w)(source \<mapsto> a\<lparr>ta_amount := ta_amount a - n\<rparr>,
             target \<mapsto> b\<lparr>ta_amount := ta_amount b + n\<rparr>)\<rparr>) else None)
      | _ \<Rightarrow> None)"

text \<open>A strategy that records the principal it was told to deposit.\<close>

definition demo_invoke :: "instruction \<Rightarrow> world \<Rightarrow> world option" where
  "demo_invoke i w =
     (case in_accounts i of
        _ # st # _ \<Rightarrow> Some (w\<lparr>w_data := (w_data w)(am_pubkey st \<mapsto> (in_program_id i,
          take PRINCIPAL_OFFSET (account_data w (am_pubkey st)) @ drop 8 (in_data i) @
          drop (PRINCIPAL_OFFSET + PRINCIPAL_LEN) (account_data w (am_pubkey st))))\<rparr>)
      | _ \<Rightarrow> None)"

definition demo_rt :: "bytes runtime" where
  "demo_rt = \<lparr>rt_program_id = 1, rt_verifier_id = 2, rt_consume_discriminator = replicate 8 9,
     rt_digest = demo_digest, rt_keccak = (\<lambda>ps. of_nat (length (concat ps))),
     rt_sha256 = (\<lambda>ps. of_nat (length (concat ps))),
     rt_find_program_address = (\<lambda>seeds _. (demo_address seeds, 255)),
     rt_create_program_address = (\<lambda>seeds _. Some (demo_address (butlast seeds))),
     rt_token_transfer = (\<lambda>source target _ n w. demo_transfer source target n w), rt_invoke = demo_invoke\<rparr>"

lemma demo_rt_simps [simp]:
  "rt_program_id demo_rt = 1" "rt_verifier_id demo_rt = 2" "rt_digest demo_rt = demo_digest"
  "rt_find_program_address demo_rt seeds pid = (demo_address seeds, 255)"
  "rt_create_program_address demo_rt seeds pid = Some (demo_address (butlast seeds))"
  "rt_token_transfer demo_rt source target owner n w = demo_transfer source target n w"
  "rt_invoke demo_rt = demo_invoke"
  by (simp_all add: demo_rt_def)

lemma demo_next: "leg_next_commitment demo_rt a b \<noteq> 0"
  by (simp add: leg_next_commitment_def leg_keccak256_parts_def demo_rt_def COMMITMENT_DOMAIN_def ascii_bytes_def)

section \<open>Setup\<close>

definition demo_accounts :: initialize_accounts where
  "demo_accounts = \<lparr>ia_administrator = 10, ia_asset_mint = 11, ia_mint_decimals = 6,
     ia_custody_token_account = 20, ia_outbound_escrow = 21, ia_token_program = 12,
     ia_upgrade_authority = 13, ia_program_upgrade_authority = Some 13\<rparr>"

definition demo_params :: "bytes32 \<Rightarrow> initialize_params" where
  "demo_params local_application = \<lparr>ip_deployment_id = 30, ip_vault_id = 31, ip_source_chain_id = 1,
     ip_destination_chain_id = 2, ip_source_application_id = 40, ip_local_application_id = local_application,
     ip_control_lane_id = 5, ip_report_lane_id = 6, ip_config_version = 1, ip_transport_verifier = 14,
     ip_emergency_guardian = 15\<rparr>"

definition demo_control :: control_state_params where
  "demo_control = \<lparr>cp_max_remote_allocation_bps = 5000, cp_max_upward_deviation_bps = 100,
     cp_max_downward_deviation_bps = 100, cp_max_report_age = 3600, cp_config_commitment = 7,
     cp_mandatory_watermark_lag = 1\<rparr>"

definition demo_key :: pubkey where
  "demo_key = demo_address [REMOTE_CONFIG_SEED, to_be_bytes (30 :: bytes32), to_be_bytes (31 :: bytes32)]"

definition demo_state_key :: pubkey where
  "demo_state_key = demo_address [ADAPTER_STATE_SEED, to_be_bytes demo_key]"

definition demo_strategy :: strategy_state_accounts where
  "demo_strategy = \<lparr>ss_administrator = 10, ss_asset_mint = 11, ss_adapter_program = 16, ss_adapter_executable = True,
     ss_adapter_state = demo_state_key,
     ss_adapter_authority = demo_address [ADAPTER_AUTHORITY_SEED, to_be_bytes demo_state_key],
     ss_adapter_token_vault = 22, ss_token_program = 12\<rparr>"

definition demo_token :: "pubkey \<Rightarrow> u64 \<Rightarrow> token_account" where
  "demo_token owner n = \<lparr>ta_program = 12, ta_mint = 11, ta_owner = owner, ta_amount = n, ta_delegate = None,
     ta_close_authority = None\<rparr>"

definition demo_world :: "u64 \<Rightarrow> world" where
  "demo_world custody = \<lparr>w_tokens = [20 \<mapsto> demo_token (fst (custody_authority_address demo_rt demo_key)) custody,
       21 \<mapsto> demo_token 17 0, 22 \<mapsto> demo_token (demo_address [ADAPTER_AUTHORITY_SEED, to_be_bytes demo_state_key]) 0],
     w_data = (\<lambda>_. Some (16, STATE_DISCRIMINATOR @ replicate 254 0)), w_receipts = Map.empty,
     w_authorities = Map.empty\<rparr>"

definition demo_setup :: "bytes32 \<Rightarrow> leg_error + leg" where
  "demo_setup local_application = setup_leg demo_rt demo_accounts (demo_params local_application) demo_control
     demo_strategy 1000 50 (\<lambda>_. None) (demo_world 100)"

definition demo_leg :: "bytes32 \<Rightarrow> leg" where
  "demo_leg local_application = (case demo_setup local_application of Inr lg \<Rightarrow> lg | Inl _ \<Rightarrow> undefined)"

lemma demo_addresses [simp]:
  "demo_address [CUSTODY_AUTHORITY_SEED, x] = 2017" "demo_address [TRANSFER_RECORD_SEED, x, y] = 3015"
  "demo_address [CONSUMED_MESSAGE_SEED, x, y, z] = 4016" "demo_address [REPORT_RECORD_SEED, x, y, z] = 4013"
  "demo_address [RECALL_SENT_MARKER_SEED, x, y] = 3018" "demo_address [TRANSPORT_LEDGER_SEED, x] = 2016"
  by (simp_all add: demo_address_def CUSTODY_AUTHORITY_SEED_def TRANSFER_RECORD_SEED_def CONSUMED_MESSAGE_SEED_def
      REPORT_RECORD_SEED_def RECALL_SENT_MARKER_SEED_def TRANSPORT_LEDGER_SEED_def ascii_bytes_def)

lemmas demo_defs = demo_accounts_def demo_params_def demo_control_def demo_strategy_def demo_world_def demo_token_def
  demo_key_def demo_state_key_def

lemmas setup_defs = setup_leg_def process_initialize_def load_token_def params_validate_def
  params_check_authorities_def params_check_domains_def pda_def check_custody_def check_outbound_escrow_def
  custody_authority_address_def process_initialize_control_state_def process_initialize_strategy_state_def
  process_initialize_outbound_state_def control_params_validate_def check_parameters_def account_owner_def
  check_adapter_vault_def risk_config_address_def replay_lane_address_def strategy_config_address_def
  remote_position_address_def outbound_lane_address_def require_def REQUIRED_MINT_DECIMALS_def
  MIN_CONFIG_VERSION_def LEG_MAX_BASIS_POINTS_def Let_def

lemma demo_setup_ok:
  assumes "la \<noteq> 0"
  shows "demo_setup la = Inr (demo_leg la)"
proof -
  have "is_ok (demo_setup la)" using assms by (simp add: demo_setup_def setup_defs demo_defs)
  then show ?thesis by (auto simp: demo_leg_def is_ok_def split: sum.splits)
qed

lemma demo_start: "la \<noteq> 0 \<Longrightarrow> leg_start demo_rt (demo_leg la)"
  unfolding leg_start_def
  by (intro exI [of _ demo_accounts] exI [of _ "demo_params la"] exI [of _ demo_control] exI [of _ demo_strategy]
      exI [of _ 1000] exI [of _ 50] exI [of _ "\<lambda>_. None"] exI [of _ "demo_world 100"])
    (use demo_setup_ok [of la] in \<open>simp add: fresh_slots_def demo_setup_def\<close>)

lemma demo_config:
  assumes "la \<noteq> 0"
  shows "lg_key (demo_leg la) = demo_key" "lg_slots (demo_leg la) = Map.empty" "lg_world (demo_leg la) = demo_world 100"
    "lg_position (demo_leg la) = initial_position 255 50"
    "lg_config (demo_leg la) = \<lparr>cf_state_version = 1, cf_bump = 255, cf_custody_authority_bump = 255,
        cf_frozen = False, cf_administrator = 10, cf_emergency_guardian = 15, cf_transport_verifier = 14,
        cf_asset_mint = 11, cf_token_program = 12, cf_custody_authority = 2017, cf_custody_token_account = 20,
        cf_outbound_escrow = 21, cf_source_chain_id = 1, cf_destination_chain_id = 2, cf_source_application_id = 40,
        cf_local_application_id = la, cf_deployment_id = 30, cf_vault_id = 31, cf_control_lane_id = 5,
        cf_report_lane_id = 6, cf_config_version = 1, cf_initialized_at = 50,
        cf_reserved = replicate REMOTE_CONFIG_RESERVED 0\<rparr>"
    "lg_lane (demo_leg la) = \<lparr>ln_state_version = 1, ln_bump = 255, ln_lane_id = 5,
        ln_minimum_acceptable_sequence = 1, ln_highest_consumed_sequence = 0, ln_message_commitment = 0,
        ln_mandatory_watermark_lag = 1, ln_last_accepted_at = 0\<rparr>"
    "st_max_remote_principal (lg_strategy (demo_leg la)) = 1000"
    "st_state_version (lg_strategy (demo_leg la)) = 1" "rk_state_version (lg_risk (demo_leg la)) = 1"
  using assms
  by (simp_all add: demo_leg_def demo_setup_def setup_defs demo_defs STATE_VERSION_def FIRST_SEQUENCE_def)

section \<open>Messages\<close>

definition demo_header :: "u64 \<Rightarrow> header" where
  "demo_header expires = \<lparr>hd_protocol_version = 1, hd_schema_version = 1, hd_flags = 0, hd_source_chain = 1,
     hd_destination_chain = 2, hd_source_application = 40, hd_destination_application = 41, hd_deployment_id = 30,
     hd_vault_id = 31, hd_lane_id = 5, hd_sequence = 1, hd_previous_commitment = 0, hd_observed_at = 60,
     hd_published_at = 60, hd_expires_at = expires\<rparr>"

definition demo_allocate :: message where
  "demo_allocate = \<lparr>msg_header = demo_header 200, msg_body = Allocate \<lparr>al_transfer_id = 77, al_amount = 80,
     al_expected_source_balance = 0, al_minimum_destination_amount = 80, al_deadline = 200, al_config_version = 1\<rparr>\<rparr>"

definition demo_recall :: message where
  "demo_recall = \<lparr>msg_header = demo_header 70, msg_body = Recall \<lparr>rc_transfer_id = 78, rc_requested_amount = 90,
     rc_minimum_return_amount = 90, rc_deadline = 200, rc_config_version = 1\<rparr>\<rparr>"

lemma demo_messages:
  "message_valid demo_allocate" "message_valid demo_recall"
  by (simp_all add: message_valid_def demo_allocate_def demo_recall_def demo_header_def header_rules_def
      allocate_rules_def recall_rules_def envelope_times_of_def)

lemma demo_parts [simp]:
  "msg_body demo_allocate = Allocate \<lparr>al_transfer_id = 77, al_amount = 80, al_expected_source_balance = 0,
     al_minimum_destination_amount = 80, al_deadline = 200, al_config_version = 1\<rparr>"
  "msg_body demo_recall = Recall \<lparr>rc_transfer_id = 78, rc_requested_amount = 90, rc_minimum_return_amount = 90,
     rc_deadline = 200, rc_config_version = 1\<rparr>"
  "hd_sequence (msg_header demo_allocate) = 1" "hd_sequence (msg_header demo_recall) = 1"
  by (simp_all add: demo_allocate_def demo_recall_def demo_header_def)

abbreviation wire :: "message \<Rightarrow> bytes" where
  "wire m \<equiv> message_bytes demo_digest m"

lemma demo_validated:
  "validate_inbound demo_rt (wire demo_allocate) CAllocate (lg_config (demo_leg 41)) (lg_lane (demo_leg 41)) 100 =
     Inr \<lparr>vm_message = demo_allocate, vm_message_id = rt_keccak demo_rt [MESSAGE_ID_DOMAIN, wire demo_allocate], vm_fresh = True\<rparr>"
  "validate_inbound demo_rt (wire demo_recall) CRecall (lg_config (demo_leg 41)) (lg_lane (demo_leg 41)) 100 =
     Inr \<lparr>vm_message = demo_recall, vm_message_id = rt_keccak demo_rt [MESSAGE_ID_DOMAIN, wire demo_recall], vm_fresh = False\<rparr>"
  by (simp_all add: validate_inbound_Inr check_domains_Inr demo_messages demo_config)
    (simp_all add: demo_allocate_def demo_recall_def demo_header_def message_type_of_def)

lemma nz41: "(41 :: bytes32) \<noteq> 0"
  by simp

lemmas demo41 = demo_config [OF nz41]

lemmas demo_checked = demo_validated [unfolded demo41]

section \<open>First steps\<close>

definition demo_allocated :: leg where
  "demo_allocated = (case handle_allocate demo_rt 14 3015 4016 (wire demo_allocate) 100 (demo_leg 41) of
     Inr lg \<Rightarrow> lg | Inl _ \<Rightarrow> undefined)"

definition demo_recalled :: leg where
  "demo_recalled = (case handle_recall demo_rt 14 None 3015 4016 (wire demo_recall) 100 (demo_leg 41) of
     Inr lg \<Rightarrow> lg | Inl _ \<Rightarrow> undefined)"

lemmas inbound_defs = handle_allocate_def handle_recall_def allocate_check_versions_def recall_check_versions_def
  check_state_versions_def check_control_lane_def check_guardian_def check_frozen_def current_time_def
  check_available_def check_no_active_transfer_def has_active_transfer_def narrow_amount_def
  allocate_quarantine_def allocation_fits_def accepted_principal_def check_consumable_def open_allocation_def
  open_recall_def consume_def create_and_write_def transfer_address_def consumed_address_def transfer_seeds_def
  pda_def require_def Let_def initial_position_def u64_of_i64_def u64_of_u128_def checked_add_word_def
  checked_sub_word_def reserve_recall_custody_def quarantined_def

lemma demo_allocate_ok:
  "handle_allocate demo_rt 14 3015 4016 (wire demo_allocate) 100 (demo_leg 41) = Inr demo_allocated"
proof -
  have "is_ok (handle_allocate demo_rt 14 3015 4016 (wire demo_allocate) 100 (demo_leg 41))"
    by (simp add: inbound_defs demo_checked demo41 STATE_VERSION_def)
  then show ?thesis by (auto simp: demo_allocated_def is_ok_def split: sum.splits)
qed

lemma demo_recall_ok:
  "handle_recall demo_rt 14 None 3015 4016 (wire demo_recall) 100 (demo_leg 41) = Inr demo_recalled"
proof -
  have "is_ok (handle_recall demo_rt 14 None 3015 4016 (wire demo_recall) 100 (demo_leg 41))"
    by (simp add: inbound_defs demo_checked demo41 STATE_VERSION_def)
  then show ?thesis by (auto simp: demo_recalled_def is_ok_def split: sum.splits)
qed

lemma demo_leg_reachable:
  "leg_reachable demo_rt (demo_leg 41)" "leg_reachable demo_rt demo_allocated" "leg_reachable demo_rt demo_recalled"
proof -
  show start: "leg_reachable demo_rt (demo_leg 41)" by (rule leg_reachable.start [OF demo_start]) simp
  have "leg_step demo_rt (demo_leg 41) demo_allocated"
    by (rule leg_step.instruction [of _ "ProcessAllocate 14 3015 4016 (wire demo_allocate)" 100]) (simp add: demo_allocate_ok)
  with start show "leg_reachable demo_rt demo_allocated" by (rule leg_reachable.step)
  have "leg_step demo_rt (demo_leg 41) demo_recalled"
    by (rule leg_step.instruction [of _ "ProcessRecall 14 None 3015 4016 (wire demo_recall)" 100]) (simp add: demo_recall_ok)
  with start show "leg_reachable demo_rt demo_recalled" by (rule leg_reachable.step)
qed

lemma demo_recalled_stuck: "stuck_recall demo_rt demo_recalled"
  by (simp add: demo_recalled_def inbound_defs demo_checked demo41 STATE_VERSION_def stuck_recall_def emit_def
      quarantine_transfer_def open_transfer_def new_recall_def)

lemma demo_allocated_facts:
  "lg_slots demo_allocated 3015 = Some (TransferSlot (new_allocation 255 77 1 80 80 0 100))"
  "lg_position demo_allocated = open_transfer KAllocate 77 1 (initial_position 255 50)"
  "ln_highest_consumed_sequence (lg_lane demo_allocated) = 1"
  "ln_minimum_acceptable_sequence (lg_lane demo_allocated) = 1"
  "lg_key demo_allocated = demo_key" "cf_control_lane_id (lg_config demo_allocated) = 5"
  "custody_of demo_allocated = Some (demo_token 2017 100)"
  by (simp_all add: demo_allocated_def inbound_defs demo_checked demo41 STATE_VERSION_def emit_def custody_of_def
      demo_world_def custody_authority_address_def new_allocation_def)

section \<open>A deployment\<close>

text \<open>The leg with 60 of its 100 attributed, and a receipt for deploying 25 of them.\<close>

definition demo_funded :: leg where
  "demo_funded = (demo_leg 41)\<lparr>lg_position := (initial_position 255 50)\<lparr>ps_attributed_principal := 60,
     ps_unattributed_custody := 40\<rparr>, lg_policy := Some \<lparr>po_state_version = 1, po_bump = 255,
     po_authorization_config = 90, po_adopted_at = 50, po_reserved = []\<rparr>\<rparr>"

definition demo_receipt :: deployment_receipt where
  "demo_receipt = \<lparr>dc_version = 2, dc_bump = 255, dc_config = 90, dc_remote_config = demo_key, dc_risk_key = 91,
     dc_nonce = 1, dc_deployment_context =
       context_commitment (rt_sha256 demo_rt) 2 (deployment_context_of demo_rt demo_funded),
     dc_amount = 25, dc_policy_generation = 1, dc_issued_at = 90, dc_expires_at = 200, dc_consumed_at = 100,
     dc_message_hash = 0\<rparr>"

definition demo_ready :: leg where
  "demo_ready = demo_funded\<lparr>lg_world := (demo_world 100)\<lparr>w_receipts := [3021 \<mapsto> demo_receipt]\<rparr>\<rparr>"

definition demo_transaction :: transaction where
  "demo_transaction = \<lparr>tx_stack_height = 1, tx_current_index = 1, tx_instructions =
     [\<lparr>in_program_id = 2, in_accounts = [meta_readonly 0 True, meta_readonly 90 False, meta_readonly 0 False,
         meta_new 3021 False], in_data = replicate 8 9 @ to_be_bytes (1 :: u128)\<rparr>,
      \<lparr>in_program_id = 1, in_accounts = [], in_data = []\<rparr>]\<rparr>"

definition demo_strategy_accounts :: strategy_accounts where
  "demo_strategy_accounts = \<lparr>sk_custody_token_account = 20, sk_asset_mint = 11, sk_adapter_program = 16,
     sk_adapter_state = demo_state_key,
     sk_adapter_authority = demo_address [ADAPTER_AUTHORITY_SEED, to_be_bytes demo_state_key],
     sk_adapter_token_vault = 22, sk_token_program = 12\<rparr>"

definition demo_deployed :: leg where
  "demo_deployed = (case process_deploy_to_strategy demo_rt demo_strategy_accounts 3021 demo_transaction 25 100
     demo_ready of Inr lg \<Rightarrow> lg | Inl _ \<Rightarrow> undefined)"

lemma demo_principal:
  "read_principal (demo_world n) demo_state_key = Inr 0"
  by (simp add: read_principal_def account_data_def demo_world_def PRINCIPAL_OFFSET_def PRINCIPAL_LEN_def
      STATE_DISCRIMINATOR_def from_le_bytes_def from_be_bytes_def numeral_eq_Suc Let_def)

lemma demo_strategy_facts:
  "lg_strategy (demo_leg 41) = \<lparr>st_state_version = 1, st_bump = 255, st_adapter_program = 16,
     st_adapter_state = demo_state_key,
     st_adapter_authority = demo_address [ADAPTER_AUTHORITY_SEED, to_be_bytes demo_state_key],
     st_adapter_token_vault = 22, st_max_remote_principal = 1000, st_initialized_at = 50,
     st_reserved = replicate STRATEGY_CONFIG_RESERVED 0\<rparr>"
  by (simp add: demo_leg_def demo_setup_def setup_defs demo_defs STATE_VERSION_def)

lemma demo_authorized:
  "authorization_check demo_rt demo_transaction \<lparr>po_state_version = 1, po_bump = 255, po_authorization_config = 90,
     po_adopted_at = 50, po_reserved = []\<rparr> 3021 demo_receipt demo_key (deployment_context_of demo_rt demo_funded) 25 100 =
   Inr ()"
  by (simp add: authorization_check_def check_consumed_just_before_def demo_transaction_def instruction_at_def
      named_account_def TRANSACTION_LEVEL_STACK_HEIGHT_def CONSUME_CONFIG_INDEX_def CONSUME_RECEIPT_INDEX_def
      meta_readonly_def meta_new_def demo_receipt_def receipt_address_is_canonical_def DEPLOYMENT_PROFILE_VERSION_def
      demo_address_def DEPLOYMENT_RECEIPT_SEED_def ascii_bytes_def require_def Let_def demo_rt_def)

lemma demo_reconciled:
  "reconcile (lg_position demo_funded) 100 = Inr (0, lg_position demo_funded)"
  by (simp add: reconcile_Inr demo_funded_def initial_position_def)

definition demo_after :: world where
  "demo_after = (demo_world 100)\<lparr>w_receipts := [3021 \<mapsto> demo_receipt],
     w_tokens := (w_tokens (demo_world 100))(20 \<mapsto> demo_token 2017 75,
       22 \<mapsto> demo_token (demo_address [ADAPTER_AUTHORITY_SEED, to_be_bytes demo_state_key]) 25),
     w_data := (w_data (demo_world 100))(demo_state_key \<mapsto> (16, take 236 (STATE_DISCRIMINATOR @ replicate 254 0) @
       to_le_bytes (25 :: u64) @ drop 244 (STATE_DISCRIMINATOR @ replicate 254 0)))\<rparr>"

lemma demo_pays:
  "demo_transfer 20 22 25 ((demo_world 100)\<lparr>w_receipts := [3021 \<mapsto> demo_receipt]\<rparr>) =
     Some ((demo_world 100)\<lparr>w_receipts := [3021 \<mapsto> demo_receipt],
       w_tokens := (w_tokens (demo_world 100))(20 \<mapsto> demo_token 2017 75,
         22 \<mapsto> demo_token (demo_address [ADAPTER_AUTHORITY_SEED, to_be_bytes demo_state_key]) 25)\<rparr>)"
  by (simp add: demo_transfer_def demo_world_def demo_token_def custody_authority_address_def pda_def)

lemma demo_deposits:
  "deposit_exact demo_rt c 25 ((demo_world 100)\<lparr>w_receipts := [3021 \<mapsto> demo_receipt],
       w_tokens := (w_tokens (demo_world 100))(20 \<mapsto> demo_token 2017 75,
         22 \<mapsto> demo_token (demo_address [ADAPTER_AUTHORITY_SEED, to_be_bytes demo_state_key]) 25)\<rparr>) = Inr demo_after"
  if "ac_adapter_state c = demo_state_key" "ac_adapter_program c = 16"
  by (simp add: deposit_exact_def adapter_invoke_def demo_invoke_def meta_readonly_def meta_new_def that demo_after_def
      PRINCIPAL_OFFSET_def PRINCIPAL_LEN_def account_data_def demo_world_def DEPOSIT_EXACT_def)

lemma demo_reload:
  "reload 2017 demo_strategy_accounts demo_after = Inr \<lparr>bl_custody = demo_token 2017 75,
     bl_vault = demo_token (demo_address [ADAPTER_AUTHORITY_SEED, to_be_bytes demo_state_key]) 25, bl_principal = 25\<rparr>"
proof -
  have "read_principal demo_after demo_state_key = Inr 25"
    by (simp add: read_principal_def account_data_def demo_after_def PRINCIPAL_OFFSET_def PRINCIPAL_LEN_def
        STATE_DISCRIMINATOR_def Let_def le_bytes_inverse)
  then show ?thesis
    by (simp add: reload_Inr demo_strategy_accounts_def) (simp add: demo_after_def demo_token_def)
qed

lemma demo_deploy_ok:
  "process_deploy_to_strategy demo_rt demo_strategy_accounts 3021 demo_transaction 25 100 demo_ready = Inr demo_deployed"
proof -
  have same: "deployment_context_of demo_rt (demo_ready\<lparr>lg_position := lg_position demo_funded\<rparr>) =
      deployment_context_of demo_rt demo_funded"
    by (simp add: deployment_context_of_def demo_ready_def)
  have ready: "lg_key demo_ready = demo_key" "lg_config demo_ready = lg_config (demo_leg 41)"
      "lg_strategy demo_ready = lg_strategy (demo_leg 41)" "lg_position demo_ready = lg_position demo_funded"
      "lg_world demo_ready = (demo_world 100)\<lparr>w_receipts := [3021 \<mapsto> demo_receipt]\<rparr>"
      "lg_policy demo_ready = Some \<lparr>po_state_version = 1, po_bump = 255, po_authorization_config = 90,
         po_adopted_at = 50, po_reserved = []\<rparr>"
      "ps_state_version (lg_position demo_funded) = 1" "ps_attributed_principal (lg_position demo_funded) = 60"
      "ps_deployed_principal (lg_position demo_funded) = 0"
    by (simp_all add: demo_ready_def demo_funded_def demo41 initial_position_def STATE_VERSION_def)
  have tokens: "w_tokens (demo_world 100) 20 = Some (demo_token 2017 100)"
      "w_tokens (demo_world 100) 22 = Some (demo_token (demo_address [ADAPTER_AUTHORITY_SEED, to_be_bytes demo_state_key]) 0)"
    by (simp_all add: demo_world_def custody_authority_address_def pda_def)
  have principal: "read_principal ((demo_world 100)\<lparr>w_receipts := x\<rparr>) demo_state_key = Inr 0" for x
    using demo_principal [of 100] by (simp add: read_principal_def account_data_def)
  have settled: "settle_deploy 25 100 0 0 \<lparr>bl_custody = demo_token 2017 75,
      bl_vault = demo_token (demo_address [ADAPTER_AUTHORITY_SEED, to_be_bytes demo_state_key]) 25, bl_principal = 25\<rparr>
      (lg_position demo_funded) = Inr ((lg_position demo_funded)\<lparr>ps_attributed_principal := 35, ps_deployed_principal := 25\<rparr>)"
    by (simp add: settle_deploy_def demo_token_def demo_funded_def initial_position_def checked_sub_word_def
        checked_add_word_def require_def check_identity_def accounted_custody_def check_deployed_def Let_def)
  have token: "ta_mint (demo_token k n) = 11" "ta_amount (demo_token k n) = n" for k n
    by (simp_all add: demo_token_def)
  have a: "sk_custody_token_account demo_strategy_accounts = 20" "sk_asset_mint demo_strategy_accounts = 11"
      "sk_adapter_program demo_strategy_accounts = 16" "sk_adapter_state demo_strategy_accounts = demo_state_key"
      "sk_adapter_authority demo_strategy_accounts = demo_address [ADAPTER_AUTHORITY_SEED, to_be_bytes demo_state_key]"
      "sk_adapter_token_vault demo_strategy_accounts = 22" "sk_token_program demo_strategy_accounts = 12"
    by (simp_all add: demo_strategy_accounts_def)
  have "is_ok (process_deploy_to_strategy demo_rt demo_strategy_accounts 3021 demo_transaction 25 100 demo_ready)"
    by (simp add: process_deploy_to_strategy_def check_strategy_accounts_def custody_authority_account_def
        load_token_def check_state_versions_def require_def a token ready tokens demo_strategy_facts demo41
        demo_reconciled principal same demo_authorized demo_pays settled Let_def STATE_VERSION_def check_deployed_def
        demo_deposits strategy_call_def demo_reload)
  then show ?thesis by (auto simp: demo_deployed_def is_ok_def split: sum.splits)
qed

section \<open>A report\<close>

lemma build_total:
  assumes "unat (oc_now x) + unat (oc_max_report_age x) < 2 ^ 64" "message_valid (outbound_message x body)"
  obtains b where "build rt x body (message_len (body_message_type body)) = Inr b"
proof -
  let ?m = "outbound_message x body"
  let ?e = "\<lparr>em_bytes = message_bytes (rt_digest rt) ?m @ replicate (400 - encoded_len ?m) 0, em_len = of_nat (encoded_len ?m)\<rparr>"
  let ?mid = "rt_keccak rt [MESSAGE_ID_DOMAIN, message_bytes (rt_digest rt) ?m]"
  let ?b = "\<lparr>bm_encoded = ?e, bm_message_id = ?mid, bm_body_hash = keccak256 (rt_digest rt) (body_bytes body),
    bm_previous_commitment = ob_current_commitment (oc_lane x),
    bm_next_commitment = leg_next_commitment rt (ob_current_commitment (oc_lane x)) ?mid,
    bm_encoded_len = of_nat (message_len (body_message_type body))\<rparr>"
  have "build rt x body (message_len (body_message_type body)) = Inr ?b"
    unfolding build_Inr [OF refl] using assms by (simp add: encode_Inr as_bytes_encoded)
  then show thesis by (rule that)
qed

definition demo_reported :: leg where
  "demo_reported = (case process_publish_remote_report demo_rt 20 demo_state_key 4013 None 9 100 (demo_leg 41) of
     Inr lg \<Rightarrow> lg | Inl _ \<Rightarrow> undefined)"

lemma demo_outbound:
  "lg_outbound (demo_leg 41) = \<lparr>ob_state_version = 1, ob_bump = 255, ob_lane_id = 6, ob_next_sequence = 1,
     ob_current_commitment = 0, ob_last_publication_at = 0, ob_total_reports = 0, ob_total_recall_notifications = 0,
     ob_initialized_at = 50\<rparr>"
  "rk_max_report_age (lg_risk (demo_leg 41)) = 3600"
  by (simp_all add: demo_leg_def demo_setup_def setup_defs demo_defs STATE_VERSION_def FIRST_OUTBOUND_SEQUENCE_def)

definition demo_report_body :: body where
  "demo_report_body = RemoteReport (report_body_of \<lparr>rf_epoch_id = 9, rf_remote_principal = 0, rf_realized_loss = 0,
     rf_unattributed_balance = 100, rf_latest_completed_transfer_id = 0, rf_config_version = 1,
     rf_remote_state_commitment = 201\<rparr>)"

lemma demo_report_built:
  obtains b where "build_remote_report demo_rt (outbound_context_of (demo_leg 41) 100) \<lparr>rf_epoch_id = 9,
     rf_remote_principal = 0, rf_realized_loss = 0, rf_unattributed_balance = 100,
     rf_latest_completed_transfer_id = 0, rf_config_version = 1, rf_remote_state_commitment = 201\<rparr> = Inr b"
proof -
  have valid: "message_valid (outbound_message (outbound_context_of (demo_leg 41) 100) demo_report_body)"
    by (simp add: message_valid_def outbound_message_def outbound_context_of_def demo41 demo_outbound header_rules_def
        demo_report_body_def report_body_of_def remote_report_rules_def NO_PROBE_STATUS_def)
  have time: "unat (oc_now (outbound_context_of (demo_leg 41) 100)) +
      unat (oc_max_report_age (outbound_context_of (demo_leg 41) 100)) < 2 ^ 64"
    by (simp add: outbound_context_of_def demo_outbound)
  obtain b where "build demo_rt (outbound_context_of (demo_leg 41) 100) demo_report_body
      (message_len (body_message_type demo_report_body)) = Inr b"
    using time valid by (rule build_total)
  then show thesis
    by (intro that [of b]) (simp add: build_remote_report_def demo_report_body_def layout_simps)
qed

lemma demo_report_ok:
  "process_publish_remote_report demo_rt 20 demo_state_key 4013 None 9 100 (demo_leg 41) = Inr demo_reported"
proof -
  obtain b where b: "build_remote_report demo_rt (outbound_context_of (demo_leg 41) 100) \<lparr>rf_epoch_id = 9,
     rf_remote_principal = 0, rf_realized_loss = 0, rf_unattributed_balance = 100,
     rf_latest_completed_transfer_id = 0, rf_config_version = 1, rf_remote_state_commitment = 201\<rparr> = Inr b"
    by (rule demo_report_built)
  have rec: "reconcile (initial_position 255 50) 100 = Inr (100, (initial_position 255 50)\<lparr>ps_unattributed_custody := 100\<rparr>)"
    by (simp add: reconcile_Inr initial_position_def)
  have com: "state_commitment demo_rt v = Inr 201" for v
    using state_fields_length [of v] by (simp add: state_commitment_eq demo_rt_def)
  have layout: "check_layout (demo_world 100) demo_state_key 16 = Inr ()"
    by (simp add: check_layout_def account_owner_def account_data_def demo_world_def require_def Let_def STATE_LEN_def
        STATE_DISCRIMINATOR_def)
  have token: "w_tokens (demo_world 100) 20 = Some (demo_token 2017 100)" "ta_amount (demo_token 2017 100) = 100"
    by (simp_all add: demo_world_def custody_authority_address_def pda_def demo_token_def)
  have "is_ok (process_publish_remote_report demo_rt 20 demo_state_key 4013 None 9 100 (demo_leg 41))"
    by (simp add: process_publish_remote_report_def require_def load_token_def demo41 token demo_strategy_facts
        report_check_versions_def check_state_versions_def check_outbound_lane_def demo_outbound STATE_VERSION_def
        layout demo_principal rec [unfolded initial_position_def STATE_VERSION_def] com b [unfolded demo41] check_deployed_def in_flight_attribution_def
        remote_principal_def current_time_def u64_of_i64_def Let_def create_report_record_def report_address_def pda_def
        check_available_def create_and_write_def lane_advance_def checked_add_word_def saturating_sub_word_def
        initial_position_def)
  then show ?thesis by (auto simp: demo_reported_def is_ok_def split: sum.splits)
qed

lemma demo_reported_reachable: "leg_reachable demo_rt demo_reported"
proof -
  have "leg_step demo_rt (demo_leg 41) demo_reported"
    by (rule leg_step.instruction [of _ "PublishRemoteReport 20 demo_state_key 4013 None 9" 100]) (simp add: demo_report_ok)
  with demo_leg_reachable(1) show ?thesis by (rule leg_reachable.step)
qed

lemma demo_reported_next: "ob_next_sequence (lg_outbound demo_reported) = 2"
  using demo_report_ok
proof (cases rule: process_publish_remote_report_step)
  case (1 t s p1 in_flight principal built bump outbound' body)
  have "unat (ob_next_sequence outbound') = 2" using lane_advance_Inr [OF 1(10)] by (simp add: demo_outbound)
  moreover have "lg_outbound demo_reported = outbound'" using arg_cong [OF 1(11), of lg_outbound] by simp
  ultimately show ?thesis by (simp add: word_eq_unat)
qed

end
