(* ===== verification/Leg_Props.thy ===== *)
theory Leg_Props
  imports Leg_Demo
begin

text \<open>
  The properties of the remote leg. Runs start from any successful setup and take any successful
  instruction, in any order, with any adapter and any token program; between instructions other
  programs may do whatever they like to accounts the leg does not control.
\<close>

section \<open>Books\<close>

text \<open>C7. The books of a leg balance in every reachable state: the custody account exists and covers
  the attributed, recalled and unattributed buckets; everything ever attributed by allocations and
  recoveries is still held, deployed or recalled, or was sent home or lost; the recorded loss is
  the loss of the recalls; and what the leg holds stays within the ceiling its strategy was set up
  with. No assumption is made about the adapter or the token program.\<close>

theorem leg_books_balance:
  assumes "leg_reachable rt lg"
  shows "\<exists>t. custody_of lg = Some t \<and>
    unat (ps_attributed_principal (lg_position lg)) + unat (ps_recalled_custody (lg_position lg)) +
      unat (ps_unattributed_custody (lg_position lg)) \<le> unat (ta_amount t) \<and>
    tsum attributed_of (transfers (lg_slots lg)) =
      unat (ps_attributed_principal (lg_position lg)) + unat (ps_deployed_principal (lg_position lg)) +
      unat (ps_recalled_custody (lg_position lg)) + tsum returned_of (transfers (lg_slots lg)) +
      tsum loss_of (transfers (lg_slots lg)) \<and>
    unat (ps_cumulative_realized_loss (lg_position lg)) = tsum loss_of (transfers (lg_slots lg)) \<and>
    unat (ps_attributed_principal (lg_position lg)) + unat (ps_deployed_principal (lg_position lg)) +
      unat (ps_recalled_custody (lg_position lg)) \<le> unat (st_max_remote_principal (lg_strategy lg))"
proof -
  obtain t where "custody_of lg = Some t"
    "book_inv (record_at rt lg) (transfers (lg_slots lg)) (lg_position lg) (ceiling_of lg) (ta_amount t)"
    using reachable_books [OF assms] by (rule books_okE)
  then show ?thesis
    by (intro exI [of _ t]) (simp add: book_inv_def conserved_def committed_def accounted_def)
qed

theorem leg_books_balance_witness:
  "tsum attributed_of (transfers (lg_slots demo_allocated)) =
     tsum returned_of (transfers (lg_slots demo_allocated)) + tsum loss_of (transfers (lg_slots demo_allocated)) \<and>
   ta_amount (the (custody_of demo_allocated)) = 100"
  using leg_books_balance [OF demo_leg_reachable(2)]
  by (auto simp: demo_allocated_facts open_transfer_def initial_position_def demo_token_def)

text \<open>C26. Transfer records are well formed and at most one cycle is open. In every reachable state a
  record sits at the address of its transfer, has the amounts its kind allows (a completed recall
  has sent or lost exactly what was requested, a closed allocation was credited at most what it
  authorized), and a record that is pending or quarantined is the one the position names, with
  the same kind, status and message.\<close>

theorem leg_records_well_formed:
  assumes "leg_reachable rt lg" "lg_slots lg k = Some (TransferSlot r)"
  shows "k = fst (transfer_address rt (lg_key lg) (tr_transfer_id r)) \<and> record_ok r \<and>
    (tr_transfer_kind r = KRecall \<and> tr_status r = SComplete \<longrightarrow>
      unat (tr_assets_sent r) + unat (tr_realized_loss r) = unat (tr_requested_recall_amount r)) \<and>
    (tr_status r = SClosed \<longrightarrow> tr_attributed_amount r \<le> tr_authorized_amount r) \<and>
    (open_status (tr_status r) \<longrightarrow>
      ps_active_transfer_id (lg_position lg) = tr_transfer_id r \<and>
      ps_active_transfer_kind (lg_position lg) = tr_transfer_kind r \<and>
      ps_active_transfer_status (lg_position lg) = tr_status r \<and>
      ps_active_transfer_sequence (lg_position lg) = tr_message_sequence r)"
proof -
  obtain t where t: "custody_of lg = Some t" and
    inv: "book_inv (record_at rt lg) (transfers (lg_slots lg)) (lg_position lg) (ceiling_of lg) (ta_amount t)"
    using reachable_books [OF assms(1)] by (rule books_okE)
  have T: "records_ok (record_at rt lg) (transfers (lg_slots lg))"
      "cycle_ok (record_at rt lg) (transfers (lg_slots lg)) (lg_position lg)"
    using inv by (simp_all add: book_inv_def)
  have r: "k = record_at rt lg (tr_transfer_id r)" "record_ok r"
    using records_okD [OF T(1), of k r] assms(2) by simp_all
  have sums: "tr_transfer_kind r = KRecall \<and> tr_status r = SComplete \<longrightarrow>
      unat (tr_assets_sent r) + unat (tr_realized_loss r) = unat (tr_requested_recall_amount r)"
      "tr_status r = SClosed \<longrightarrow> tr_attributed_amount r \<le> tr_authorized_amount r"
    using r(2) by (auto simp: record_ok_def recall_ok_def allocation_ok_def recovery_ok_def le_unat
        split: transfer_kind.splits)
  have "open_record (record_at rt lg) (transfers (lg_slots lg)) (lg_position lg) r" if "open_status (tr_status r)"
  proof -
    have at: "transfers (lg_slots lg) k = Some r" using assms(2) by simp
    with T(2) that obtain r' where rec: "open_record (record_at rt lg) (transfers (lg_slots lg)) (lg_position lg) r'"
      by (auto simp: cycle_ok_def simp del: transfers_Some split: if_splits)
    with at that have "k = record_at rt lg (ps_active_transfer_id (lg_position lg))"
      unfolding open_record_def by blast
    with at rec have "r' = r" by (simp add: open_record_def)
    with rec show ?thesis by simp
  qed
  then have "open_status (tr_status r) \<longrightarrow> ps_active_transfer_id (lg_position lg) = tr_transfer_id r \<and>
      ps_active_transfer_kind (lg_position lg) = tr_transfer_kind r \<and>
      ps_active_transfer_status (lg_position lg) = tr_status r \<and>
      ps_active_transfer_sequence (lg_position lg) = tr_message_sequence r"
    by (simp add: open_record_def)
  with r sums show ?thesis by blast
qed

theorem leg_records_well_formed_witness:
  "record_ok (new_allocation 255 77 1 80 80 0 100) \<and> ps_active_transfer_id (lg_position demo_allocated) = 77"
  using leg_records_well_formed [OF demo_leg_reachable(2) demo_allocated_facts(1)] by (simp add: new_allocation_def)

text \<open>C25. The transport ledger refines the records: what it says was claimed and credited by closes and
  recovered later is the sum over the closed allocations and the recovery records, and what it
  reports as impaired is the difference, in every reachable state.\<close>

theorem ledger_refines_records:
  assumes "leg_reachable rt lg"
    and "l = ledger_view (lg_slots lg) (fst (ledger_address rt (lg_key lg)))"
  shows "(unat (tl_cumulative_closed_claim l), unat (tl_cumulative_closed_credit l), unat (tl_cumulative_recovered l)) =
      ledger_abs (lg_slots lg) \<and>
    unat (tl_impaired_outstanding l) = fst (ledger_abs (lg_slots lg)) - fst (snd (ledger_abs (lg_slots lg))) -
      snd (snd (ledger_abs (lg_slots lg)))"
proof -
  have "ledger_abs (lg_slots lg) =
      (unat (tl_cumulative_closed_claim l), unat (tl_cumulative_closed_credit l), unat (tl_cumulative_recovered l))"
    "ledger_balanced l"
    using reachable_ledger [OF assms(1)] by (simp_all add: ledger_ok_def Let_def ledger_amounts_def assms(2))
  then show ?thesis by (simp add: ledger_balanced_def)
qed

theorem ledger_refines_records_witness:
  "ledger_abs (lg_slots demo_allocated) = (0, 0, 0)"
proof -
  have "lg_slots demo_allocated (fst (ledger_address demo_rt (lg_key demo_allocated))) = None"
    by (simp add: demo_allocated_def inbound_defs demo_checked demo41 STATE_VERSION_def emit_def ledger_address_def)
  then show ?thesis
    using ledger_refines_records [OF demo_leg_reachable(2) refl] by (simp add: ledger_view_def ledger_empty_def)
qed

section \<open>Lanes\<close>

text \<open>C24. The control lane is a hash chain over everything it accepted. The events of a reachable leg
  report accepted messages with the sequences 1, 2, 3 and so on without a gap, the highest
  consumed sequence is the last of them, the lane's commitment is the chain over their message
  identifiers in that order, and every event carries the commitment of the messages up to it.\<close>

theorem control_lane_chains:
  assumes "leg_reachable rt lg"
  shows "map (unat \<circ> fst) (accepted lg) = [1..<unat (ln_highest_consumed_sequence (lg_lane lg)) + 1] \<and>
    ln_message_commitment (lg_lane lg) = foldl (leg_next_commitment rt) 0 (map (fst \<circ> snd) (accepted lg)) \<and>
    (\<forall>k < length (accepted lg). snd (snd (accepted lg ! k)) =
       foldl (leg_next_commitment rt) 0 (map (fst \<circ> snd) (take (Suc k) (accepted lg))))"
proof -
  obtain lg0 where run: "leg_start rt lg0" "(leg_step rt)\<^sup>*\<^sup>* lg0 lg" using assms by (rule leg_reachable_run)
  note n = control_lane.numbered [OF run]
  have "snd (snd (accepted lg ! k)) = foldl (leg_next_commitment rt) 0 (map (fst \<circ> snd) (take (Suc k) (accepted lg)))"
    if "k < length (accepted lg)" for k
    using control_lane.prefix_heads [OF run, of k] that
    by (simp add: control_lane.chain_def take_map case_prod_beta comp_def)
  then show ?thesis using n by (simp add: control_lane.chain_def case_prod_beta comp_def)
qed

theorem control_lane_chains_witness:
  "map (unat \<circ> fst) (accepted demo_allocated) = [1] \<and>
   ln_message_commitment (lg_lane demo_allocated) \<noteq> 0"
proof -
  note c = control_lane_chains [OF demo_leg_reachable(2)]
  have "map (unat \<circ> fst) (accepted demo_allocated) = [1]" using c by (simp add: demo_allocated_facts)
  moreover from this obtain e where "accepted demo_allocated = [e]" by auto
  ultimately show ?thesis using c demo_next by (auto simp: case_prod_beta)
qed

text \<open>Everything the leg publishes can be read at the other end. In every reachable state the
  published messages are numbered 1, 2, 3 and so on up to the next sequence of the report lane,
  the lane's commitment is the chain over their identifiers, and the bytes of each decode, under
  the shared wire format, to a message from this leg to its vault whose header carries that
  sequence and the commitment before it.\<close>

theorem report_lane_readable:
  assumes "leg_reachable rt lg"
  shows "map (unat \<circ> pb_sequence) (published lg) = [1..<unat (ob_next_sequence (lg_outbound lg))] \<and>
    ob_current_commitment (lg_outbound lg) = foldl (leg_next_commitment rt) 0 (map pb_message_id (published lg)) \<and>
    (\<forall>pub \<in> set (published lg). \<exists>m. decode_message (rt_digest rt) (pb_bytes pub) = Inr m \<and>
       hd_sequence (msg_header m) = pb_sequence pub \<and>
       hd_previous_commitment (msg_header m) = pb_previous_commitment pub \<and>
       hd_lane_id (msg_header m) = cf_report_lane_id (lg_config lg) \<and>
       hd_source_application (msg_header m) = cf_local_application_id (lg_config lg) \<and>
       hd_destination_application (msg_header m) = cf_source_application_id (lg_config lg) \<and>
       hd_vault_id (msg_header m) = cf_vault_id (lg_config lg))"
proof -
  obtain lg0 where run: "leg_start rt lg0" "(leg_step rt)\<^sup>*\<^sup>* lg0 lg" using assms by (rule leg_reachable_run)
  have "\<forall>pub \<in> set (published lg). publication_ok rt lg pub" using assms by (rule reachable_publications)
  then show ?thesis
    using report_lane.numbered [OF run] by (fastforce simp: report_lane.chain_def comp_def publication_ok_def)
qed

theorem report_lane_readable_witness:
  "\<exists>pub m. published demo_reported = [pub] \<and> decode_message demo_digest (pb_bytes pub) = Inr m \<and>
     hd_sequence (msg_header m) = 1"
proof -
  note r = report_lane_readable [OF demo_reported_reachable]
  have "unat (ob_next_sequence (lg_outbound demo_reported)) = Suc 1" by (simp add: demo_reported_next)
  then have "map (unat \<circ> pb_sequence) (published demo_reported) = [1]" using r by simp
  then obtain pub where pub: "published demo_reported = [pub]" "unat (pb_sequence pub) = 1" by auto
  then have "pb_sequence pub = 1" by (simp add: word_eq_unat)
  with r pub show ?thesis by auto
qed

text \<open>C9. A message is accepted at most once. After an instruction accepted a control message, every
  instruction that carries the same bytes fails, in the next state and in every later one, even
  when its consumed record was closed in the meantime.\<close>

primrec message_of_call :: "call \<Rightarrow> bytes option" where
  "message_of_call (ProcessAllocate _ _ _ bs) = Some bs"
| "message_of_call (ProcessRecall _ _ _ _ bs) = Some bs"
| "message_of_call (ProcessResolve _ _ _ _ bs) = Some bs"
| "message_of_call (ProcessSettlement _ bs) = Some bs"
| "message_of_call (ProcessConfigUpdate _ _ bs) = Some bs"
| "message_of_call (ReconcileCustody _) = None"
| "message_of_call (AttributeAllocation _ _ _) = None"
| "message_of_call (DeployToStrategy _ _ _ _) = None"
| "message_of_call (WithdrawForRecall _ _ _) = None"
| "message_of_call (SendRecall _ _ _) = None"
| "message_of_call (PublishRemoteReport _ _ _ _ _) = None"
| "message_of_call (PublishRecallSent _ _ _) = None"
| "message_of_call (FreezeRemoteLeg _) = None"
| "message_of_call (AdvanceReplayWatermark _ _) = None"
| "message_of_call (CloseConsumedMessage _ _) = None"
| "message_of_call (InitializeDeployAuthorization _ _) = None"

lemma dispatch_inbound:
  assumes "dispatch rt c clock lg = Inr lg'" "message_of_call c = Some bs"
  obtains cls m mid fresh where "inbound rt lg cls bs clock m mid fresh"
    "ln_highest_consumed_sequence (lg_lane lg') = hd_sequence (msg_header m)"
proof (cases c)
  case (ProcessAllocate v tk ck b)
  with assms have "handle_allocate rt v tk ck bs clock lg = Inr lg'" by simp
  then show ?thesis by (rule handle_allocate_step) (rule that, assumption, simp add: accept_def)
next
  case (ProcessRecall v g tk ck b)
  with assms have "handle_recall rt v g tk ck bs clock lg = Inr lg'" by simp
  then show ?thesis by (rule handle_recall_step) (rule that, assumption, simp add: accept_def)
next
  case (ProcessResolve v g tk ck b)
  with assms have "handle_resolve rt v g tk ck bs clock lg = Inr lg'" by simp
  then show ?thesis by (rule handle_resolve_step) (rule that, assumption, simp add: accept_def)
next
  case (ProcessSettlement a b)
  with assms have "handle_settlement rt a bs clock lg = Inr lg'" by simp
  then show ?thesis by (rule handle_settlement_step) (rule that, assumption, simp add: accept_def)
next
  case (ProcessConfigUpdate v ck b)
  with assms have "handle_config_update rt v ck bs clock lg = Inr lg'" by simp
  then show ?thesis by (rule handle_config_update_step) (rule that, assumption, simp add: accept_def)
qed (use assms(2) in simp_all)

theorem message_accepted_once:
  assumes "dispatch rt c clock lg = Inr lg1" "message_of_call c = Some bs" "(leg_step rt)\<^sup>*\<^sup>* lg1 lg2"
    and "message_of_call c' = Some bs"
  shows "\<not> is_ok (dispatch rt c' clock' lg2)"
proof
  assume "is_ok (dispatch rt c' clock' lg2)"
  then obtain lg3 where again: "dispatch rt c' clock' lg2 = Inr lg3" by (auto simp: is_ok_def split: sum.splits)
  obtain cls m mid fresh where first: "inbound rt lg cls bs clock m mid fresh"
    "ln_highest_consumed_sequence (lg_lane lg1) = hd_sequence (msg_header m)"
    using assms(1,2) by (rule dispatch_inbound)
  obtain cls' m' mid' fresh' where second: "inbound rt lg2 cls' bs clock' m' mid' fresh'"
    using again assms(4) by (rule dispatch_inbound)
  have "decode_message (rt_digest rt) bs = Inr m" using inboundD(1,2) [OF first(1)] by (simp add: decode_message_bytes)
  moreover have "decode_message (rt_digest rt) bs = Inr m'" using inboundD(1,2) [OF second] by (simp add: decode_message_bytes)
  ultimately have "m = m'" by simp
  then show False
    using inboundD(4) [OF second] run_highest [OF assms(3)] first(2) by simp
qed

theorem message_accepted_once_witness:
  "\<not> is_ok (handle_allocate demo_rt 14 3016 4017 (wire demo_allocate) 150 demo_allocated)"
  using message_accepted_once [of demo_rt "ProcessAllocate 14 3015 4016 (wire demo_allocate)" 100 "demo_leg 41"
      demo_allocated "wire demo_allocate" demo_allocated "ProcessAllocate 14 3016 4017 (wire demo_allocate)" 150]
  by (simp add: demo_allocate_ok)

text \<open>Replay protection cannot be cleaned away. In every reachable state each accepted sequence at or
  above the watermark still has its consumed record at its own address, the watermark never passes
  the highest consumed sequence by more than the next message, and it never passes the message
  that opened the current cycle.\<close>

theorem consumed_records_kept:
  assumes "leg_reachable rt lg" "ln_minimum_acceptable_sequence (lg_lane lg) \<le> s"
    and "s \<le> ln_highest_consumed_sequence (lg_lane lg)"
  shows "(\<exists>c. lg_slots lg (fst (consumed_address rt (lg_key lg) (cf_control_lane_id (lg_config lg)) s)) =
        Some (ConsumedSlot c) \<and> cm_sequence c = s) \<and>
    unat (ln_minimum_acceptable_sequence (lg_lane lg)) \<le> unat (ln_highest_consumed_sequence (lg_lane lg)) + 1 \<and>
    (ps_active_transfer_kind (lg_position lg) \<noteq> KNone \<longrightarrow>
      ln_minimum_acceptable_sequence (lg_lane lg) \<le> ps_active_transfer_sequence (lg_position lg))"
  using reachable_replay [OF assms(1)] assms(2,3) by (auto simp: replay_ok_def)

theorem consumed_records_kept_witness:
  "\<exists>c. lg_slots demo_allocated 4016 = Some (ConsumedSlot c) \<and> cm_sequence c = 1"
  using consumed_records_kept [OF demo_leg_reachable(2), of 1]
  by (simp add: demo_allocated_facts consumed_address_def pda_def)

text \<open>A recall is announced at most once: no two recall notices a leg ever published name the same
  transfer.\<close>

theorem recall_announced_once:
  assumes "leg_reachable rt lg"
  shows "distinct (notices lg)"
  using reachable_notices [OF assms] by (simp add: notices_ok_def)

theorem recall_announced_once_witness: "distinct (notices demo_recalled)"
  by (rule recall_announced_once [OF demo_leg_reachable(3)])

section \<open>Freezing\<close>

text \<open>The guardian account of the instructions that need its consent on a frozen leg.\<close>

definition guardian_of :: "call \<Rightarrow> pubkey option option" where
  "guardian_of c = (case c of
     ProcessRecall _ g _ _ _ \<Rightarrow> Some g | AttributeAllocation _ _ g \<Rightarrow> Some g
   | ProcessSettlement a _ \<Rightarrow> Some (sa_guardian a) | _ \<Rightarrow> None)"

text \<open>Freezing is terminal. From a frozen leg no run changes the configuration or the risk limits or
  raises deployed principal, no deployment and no configuration update is ever accepted again, and
  recalls, attributions and settlements are accepted only with the emergency guardian's own key.\<close>

theorem frozen_leg_stays_frozen:
  assumes "cf_frozen (lg_config lg)" "(leg_step rt)\<^sup>*\<^sup>* lg lg'"
  shows "lg_config lg' = lg_config lg \<and> lg_risk lg' = lg_risk lg \<and>
    ps_deployed_principal (lg_position lg') \<le> ps_deployed_principal (lg_position lg) \<and>
    (\<forall>a receipt tx n clock. \<not> is_ok (dispatch rt (DeployToStrategy a receipt tx n) clock lg')) \<and>
    (\<forall>v ck bs clock. \<not> is_ok (dispatch rt (ProcessConfigUpdate v ck bs) clock lg')) \<and>
    (\<forall>c g clock. guardian_of c = Some g \<longrightarrow> is_ok (dispatch rt c clock lg') \<longrightarrow>
       g = Some (cf_emergency_guardian (lg_config lg)))"
proof -
  have keep: "lg_config lg' = lg_config lg \<and> lg_risk lg' = lg_risk lg \<and>
      unat (ps_deployed_principal (lg_position lg')) \<le> unat (ps_deployed_principal (lg_position lg))"
    using assms(2,1)
  proof (induction rule: rtranclp_induct)
    case (step lg1 lg2)
    with frozen_step [OF step.hyps(2)] show ?case by simp
  qed simp
  have deploy: "dispatch rt (DeployToStrategy a receipt tx n) clock lg' \<noteq> Inr lg2" for a receipt tx n clock lg2
    using keep assms(1) by (auto elim!: process_deploy_step)
  have update: "dispatch rt (ProcessConfigUpdate v ck bs) clock lg' \<noteq> Inr lg2" for v ck bs clock lg2
    using keep assms(1) by (auto elim!: handle_config_update_step)
  have consent: "g = Some (cf_emergency_guardian (lg_config lg))"
    if g: "guardian_of c = Some g" and ok: "dispatch rt c clock lg' = Inr lg2" for c g clock lg2
  proof -
    have "may_move lg' g"
    proof (cases c)
      case (ProcessRecall v g' tk ck bs)
      with ok have "handle_recall rt v g' tk ck bs clock lg' = Inr lg2" by simp
      then have "may_move lg' g'" by (rule handle_recall_step)
      then show ?thesis using g ProcessRecall by (simp add: guardian_of_def)
    next
      case (AttributeAllocation tk key g')
      with ok have "process_attribute_allocation rt tk key g' clock lg' = Inr lg2" by simp
      then have "may_move lg' g'" by (rule process_attribute_step)
      then show ?thesis using g AttributeAllocation by (simp add: guardian_of_def)
    next
      case (ProcessSettlement a bs)
      with ok have "handle_settlement rt a bs clock lg' = Inr lg2" by simp
      then have "may_move lg' (sa_guardian a)" by (rule handle_settlement_step)
      then show ?thesis using g ProcessSettlement by (simp add: guardian_of_def)
    qed (use g in \<open>simp_all add: guardian_of_def\<close>)
    then show ?thesis using keep assms(1) by (simp add: may_move_def)
  qed
  have ok: "\<exists>lg2. r = Inr lg2" if "is_ok r" for r :: "leg_error + leg"
    using that by (simp add: is_ok_def split: sum.splits)
  show ?thesis
    using keep deploy update consent by (auto simp: le_unat dest!: ok simp del: dispatch.simps)
qed

definition demo_frozen :: leg where
  "demo_frozen = (case process_freeze 15 110 demo_allocated of Inr lg \<Rightarrow> lg | Inl _ \<Rightarrow> undefined)"

theorem frozen_leg_stays_frozen_witness:
  "cf_frozen (lg_config demo_frozen) \<and>
   \<not> is_ok (dispatch demo_rt (DeployToStrategy demo_strategy_accounts 3021 demo_transaction 25) 120 demo_frozen)"
proof -
  have "cf_frozen (lg_config demo_frozen)"
    by (simp add: demo_frozen_def process_freeze_def is_emergency_authority_def demo_allocated_def inbound_defs
        demo_checked demo41 STATE_VERSION_def emit_def)
  then show ?thesis
    using frozen_leg_stays_frozen [OF _ rtranclp.rtrancl_refl, of demo_frozen demo_rt] by blast
qed

section \<open>Custody\<close>

lemma deploy_moves:
  assumes "process_deploy_to_strategy rt a receipt_key tx n clock lg = Inr lg'" "custody_of lg = Some t"
  obtains t' vault vault' pol receipt where "custody_of lg' = Some t'" "unat (ta_amount t) = unat (ta_amount t') + unat n"
    "w_tokens (lg_world lg) (st_adapter_token_vault (lg_strategy lg)) = Some vault"
    "w_tokens (lg_world lg') (st_adapter_token_vault (lg_strategy lg)) = Some vault'"
    "unat (ta_amount vault') = unat (ta_amount vault) + unat n"
    "unat (ps_attributed_principal (lg_position lg)) = unat (ps_attributed_principal (lg_position lg')) + unat n"
    "unat (ps_deployed_principal (lg_position lg')) = unat (ps_deployed_principal (lg_position lg)) + unat n"
    "lg_policy lg = Some pol" "w_receipts (lg_world lg) receipt_key = Some receipt"
    "authorization_check rt tx pol receipt_key receipt (lg_key lg) (deployment_context_of rt lg) n clock = Inr ()"
  using assms(1)
proof (cases rule: process_deploy_step)
  case (1 t0 s p1 w after p' pol receipt vault)
  have "t0 = t" using 1(2) assms(2) by (simp add: custody_of_def)
  note after = 1(12) [unfolded reload_Inr]
  have ctx: "deployment_context_of rt (lg\<lparr>lg_position := p1\<rparr>) = deployment_context_of rt lg"
    using reconcile_keeps(2) [OF 1(5)] by (simp add: deployment_context_of_def)
  obtain x d where moved: "p' = p1\<lparr>ps_attributed_principal := x, ps_deployed_principal := d\<rparr>"
    "unat (ps_attributed_principal p1) = unat n + unat x" "unat d = unat (ps_deployed_principal p1) + unat n"
    "unat (ta_amount t0) = unat n + unat (ta_amount (bl_custody after))"
    "unat (ta_amount (bl_vault after)) = unat (ta_amount vault) + unat n"
    using settle_deploy_Inr [OF 1(13)] by blast
  show thesis
    by (rule that [of "bl_custody after" vault "bl_vault after" pol receipt])
      (use after moved 1(1,3,4,9-11) \<open>t0 = t\<close> reconcile_keeps [OF 1(5)] in
        \<open>simp_all add: 1(14) custody_of_def ctx\<close>)
qed

lemma send_moves:
  assumes "process_send_recall rt a tk n clock lg = Inr lg'" "custody_of lg = Some t"
  obtains t' escrow escrow' m where "custody_of lg' = Some t'" "unat (ta_amount t) = unat (ta_amount t') + m"
    "w_tokens (lg_world lg) (cf_outbound_escrow (lg_config lg)) = Some escrow"
    "w_tokens (lg_world lg') (cf_outbound_escrow (lg_config lg)) = Some escrow'"
    "unat (ta_amount escrow') = unat (ta_amount escrow) + m"
    "m = min (unat n) (unat (ps_recalled_custody (lg_position lg)))" "0 < m"
  using assms(1)
proof (cases rule: process_send_step)
  case (1 t0 escrow r s p1 w t' escrow' r1 p2 b r2 p3 amount)
  have "t0 = t" using 1(1) assms(2) by (simp add: custody_of_def)
  have m: "unat amount = min (unat n) (unat (ps_recalled_custody (lg_position lg)))"
    using 1(6) reconcile_keeps(3) [OF 1(5)] by (simp add: min_def le_unat)
  have pos: "0 < unat amount" using 1(7) by (simp add: unat_gt_0)
  show thesis
    by (rule that [of t' "unat amount" escrow escrow'])
      (use settle_send_Inr [OF 1(10)] 1(2,8,9) \<open>t0 = t\<close> m pos in \<open>auto simp: 1(12) custody_of_def\<close>)
qed

lemma withdraw_moves:
  assumes "process_withdraw_for_recall rt a tk n clock lg = Inr lg'" "custody_of lg = Some t"
  shows "\<exists>t'. custody_of lg' = Some t' \<and> unat (ta_amount t) \<le> unat (ta_amount t')"
  using assms(1)
proof (cases rule: process_withdraw_step)
  case (1 t0 vault r s p1 unresolved w after reduction returned lost r1 p2 b r2 p3)
  have "t0 = t" using 1(3) assms(2) by (simp add: custody_of_def)
  then show ?thesis
    using 1(9) [unfolded reload_Inr] settle_withdraw_Inr(4) [OF 1(10)] 1(1)
    by (intro exI [of _ "bl_custody after"]) (simp add: 1(12) custody_of_def)
qed

text \<open>C8. Tokens leave custody in two ways only, and then to the exact unit. A deployment moves the
  amount asked for into the strategy's own vault, takes it from the attributed bucket into deployed
  principal, and needs an unexpired receipt of the adopted risk authority for this leg, this amount
  and the current state of the leg, consumed by the instruction just before in the same
  transaction. A send moves the lesser of its limit and the recalled bucket into the configured
  escrow. A withdrawal can only add to custody and every other instruction leaves it as it is.\<close>

theorem custody_moves_exactly:
  assumes "dispatch rt c clock lg = Inr lg'" "custody_of lg = Some t"
  shows "case c of
    DeployToStrategy a receipt_key tx n \<Rightarrow>
      (\<exists>t' vault vault' pol receipt. custody_of lg' = Some t' \<and> unat (ta_amount t) = unat (ta_amount t') + unat n \<and>
        w_tokens (lg_world lg) (st_adapter_token_vault (lg_strategy lg)) = Some vault \<and>
        w_tokens (lg_world lg') (st_adapter_token_vault (lg_strategy lg)) = Some vault' \<and>
        unat (ta_amount vault') = unat (ta_amount vault) + unat n \<and>
        unat (ps_attributed_principal (lg_position lg)) = unat (ps_attributed_principal (lg_position lg')) + unat n \<and>
        unat (ps_deployed_principal (lg_position lg')) = unat (ps_deployed_principal (lg_position lg)) + unat n \<and>
        lg_policy lg = Some pol \<and> w_receipts (lg_world lg) receipt_key = Some receipt \<and> dc_amount receipt = n \<and>
        dc_config receipt = po_authorization_config pol \<and> dc_remote_config receipt = lg_key lg \<and>
        dc_consumed_at receipt = clock \<and> sint clock < sint (dc_expires_at receipt) \<and>
        check_consumed_just_before rt tx pol receipt_key receipt = Inr () \<and>
        dc_deployment_context receipt = context_commitment (rt_sha256 rt) (rt_verifier_id rt) (deployment_context_of rt lg))
  | SendRecall a tk n \<Rightarrow>
      (\<exists>t' escrow escrow' m. custody_of lg' = Some t' \<and> unat (ta_amount t) = unat (ta_amount t') + m \<and>
        w_tokens (lg_world lg) (cf_outbound_escrow (lg_config lg)) = Some escrow \<and>
        w_tokens (lg_world lg') (cf_outbound_escrow (lg_config lg)) = Some escrow' \<and>
        unat (ta_amount escrow') = unat (ta_amount escrow) + m \<and>
        m = min (unat n) (unat (ps_recalled_custody (lg_position lg))) \<and> 0 < m)
  | WithdrawForRecall a tk n \<Rightarrow> (\<exists>t'. custody_of lg' = Some t' \<and> unat (ta_amount t) \<le> unat (ta_amount t'))
  | _ \<Rightarrow> custody_of lg' = Some t"
proof -
  have same: "custody_of lg' = Some t" if "\<not> calls_out c"
    using world_same [OF assms(1) that] assms(2)
    by (simp add: custody_of_def custody_key [OF leg_step.instruction [OF assms(1)]])
  show ?thesis
  proof (cases c)
    case (DeployToStrategy a receipt_key tx n)
    with assms(1) have "process_deploy_to_strategy rt a receipt_key tx n clock lg = Inr lg'" by simp
    then show ?thesis using assms(2)
    proof (cases rule: deploy_moves)
      case (1 t' vault vault' pol receipt)
      have checks: "dc_amount receipt = n" "dc_config receipt = po_authorization_config pol"
        "dc_remote_config receipt = lg_key lg" "dc_consumed_at receipt = clock"
        "sint clock < sint (dc_expires_at receipt)" "check_consumed_just_before rt tx pol receipt_key receipt = Inr ()"
        "dc_deployment_context receipt = context_commitment (rt_sha256 rt) (rt_verifier_id rt) (deployment_context_of rt lg)"
        using 1(10) by (simp_all add: authorization_check_def and_then_Inr require_Inr)
      show ?thesis
        unfolding DeployToStrategy call.case
        by (intro exI [of _ t'] exI [of _ vault] exI [of _ vault'] exI [of _ pol] exI [of _ receipt] conjI 1 checks)
    qed
  next
    case (SendRecall a tk n)
    with assms(1) have "process_send_recall rt a tk n clock lg = Inr lg'" by simp
    then show ?thesis using assms(2)
      unfolding SendRecall call.case by (cases rule: send_moves) blast
  next
    case (WithdrawForRecall a tk n)
    with assms(1) have "process_withdraw_for_recall rt a tk n clock lg = Inr lg'" by simp
    then show ?thesis using assms(2)
      unfolding WithdrawForRecall call.case by (rule withdraw_moves)
  qed (use same in simp_all)
qed

theorem custody_moves_exactly_witness:
  "\<exists>t. custody_of demo_deployed = Some t \<and> unat (ta_amount t) = 75"
proof -
  have custody: "custody_of demo_ready = Some (demo_token 2017 100)"
    by (simp add: custody_of_def demo_ready_def demo_funded_def demo41 demo_world_def custody_authority_address_def pda_def)
  have "dispatch demo_rt (DeployToStrategy demo_strategy_accounts 3021 demo_transaction 25) 100 demo_ready = Inr demo_deployed"
    by (simp add: demo_deploy_ok)
  from custody_moves_exactly [OF this custody] show ?thesis by (auto simp: demo_token_def)
qed

section \<open>The state commitment of a report\<close>

lemma be_bytes_inject:
  "to_be_bytes a = to_be_bytes b \<longleftrightarrow> a = b" "to_be_bytes c = to_be_bytes d \<longleftrightarrow> c = d" for a b :: u64 and c d :: bytes32
  by (metis be_bytes_inverse)+

lemma i64_bytes_inject: "to_be_bytes a = to_be_bytes b \<longleftrightarrow> a = b" for a b :: i64
  by (rule be_bytes_inject)

lemma kind_status_u8_inject:
  "transfer_kind_to_u8 k = transfer_kind_to_u8 k' \<longleftrightarrow> k = k'"
  "transfer_status_to_u8 s = transfer_status_to_u8 s' \<longleftrightarrow> s = s'"
  by (cases k; cases k'; simp) (cases s; cases s'; simp)

text \<open>The state commitment of a report commits to the state of the leg. Writing the fields one by
  one into the fixed buffer never fails and gives the digest of the plain concatenation of the
  fields, exactly as long as the buffer; and two views with the same preimage agree on the
  configuration and its version, the frozen flag, every bucket, the cumulative loss, the open
  cycle, the latest completion and both balances.\<close>

theorem state_commitment_commits:
  "state_commitment rt v = Inr (rt_keccak rt [concat (state_fields v)]) \<and>
   length (concat (state_fields v)) = REMOTE_STATE_PREIMAGE_LEN \<and>
   (concat (state_fields v) = concat (state_fields v')) =
     (sv_remote_config v = sv_remote_config v' \<and> sv_config_version v = sv_config_version v' \<and>
      sv_frozen v = sv_frozen v' \<and> sv_custody_balance v = sv_custody_balance v' \<and>
      sv_adapter_principal v = sv_adapter_principal v' \<and>
      (let p = sv_position v; p' = sv_position v' in
        ps_attributed_principal p = ps_attributed_principal p' \<and>
        ps_deployed_principal p = ps_deployed_principal p' \<and>
        ps_recalled_custody p = ps_recalled_custody p' \<and>
        ps_unattributed_custody p = ps_unattributed_custody p' \<and>
        ps_cumulative_realized_loss p = ps_cumulative_realized_loss p' \<and>
        ps_active_transfer_id p = ps_active_transfer_id p' \<and>
        ps_active_transfer_kind p = ps_active_transfer_kind p' \<and>
        ps_active_transfer_status p = ps_active_transfer_status p' \<and>
        ps_active_transfer_sequence p = ps_active_transfer_sequence p' \<and>
        ps_latest_completed_transfer_id p = ps_latest_completed_transfer_id p' \<and>
        ps_latest_completion_at p = ps_latest_completion_at p'))"
  by (auto simp: state_commitment_eq state_fields_length REMOTE_STATE_PREIMAGE_LEN_def REMOTE_STATE_BODY_LEN_def
      REMOTE_STATE_DOMAIN_def ascii_bytes_def state_fields_def Let_def
      be_bytes_inject kind_status_u8_inject split: if_splits)

section \<open>What a leg cannot do\<close>

text \<open>A recall that asks for more than the leg can account for never ends. Once a quarantined recall
  requests more than the attributed and deployed principal together, every run keeps it open and
  quarantined, whatever is resolved, withdrawn, sent, deployed or settled meanwhile, and no
  allocation and no further recall is ever accepted.\<close>

theorem stuck_recall_stays:
  assumes "leg_reachable rt lg" "stuck_recall rt lg" "(leg_step rt)\<^sup>*\<^sup>* lg lg'"
  shows "stuck_recall rt lg' \<and>
    (\<forall>v tk ck bs clock. \<not> is_ok (dispatch rt (ProcessAllocate v tk ck bs) clock lg')) \<and>
    (\<forall>v g tk ck bs clock. \<not> is_ok (dispatch rt (ProcessRecall v g tk ck bs) clock lg'))"
proof -
  have run: "leg_reachable rt lg' \<and> stuck_recall rt lg'"
    using assms(3,1,2)
  proof (induction rule: rtranclp_induct)
    case (step lg1 lg2)
    then show ?case by (auto intro: leg_reachable.step stuck_step reachable_books)
  qed simp
  then have "ps_active_transfer_kind (lg_position lg') \<noteq> KNone" by (simp add: stuck_recall_def)
  then show ?thesis
    using run
    by (auto simp: is_ok_def split: sum.splits elim!: handle_allocate_step handle_recall_step)
qed

theorem stuck_recall_stays_witness:
  "stuck_recall demo_rt demo_recalled \<and>
   \<not> is_ok (dispatch demo_rt (ProcessAllocate 14 3015 4016 (wire demo_allocate)) 100 demo_recalled)"
  using stuck_recall_stays [OF demo_leg_reachable(3) demo_recalled_stuck rtranclp.rtrancl_refl] by blast

text \<open>C37. A leg set up with the vault's own application identifier never speaks. The setup instructions
  accept equal application identifiers on the two chains, but the wire format does not: in every
  state such a leg can reach it has accepted no control message and published no report.\<close>

theorem equal_applications_block:
  assumes "leg_reachable rt lg"
    and "cf_source_application_id (lg_config lg) = cf_local_application_id (lg_config lg)"
  shows "accepted lg = [] \<and> published lg = []"
  using assms
proof (induction rule: leg_reachable.induct)
  case (start lg)
  then show ?case using start_views [OF start(1)] by simp
next
  case (step lg lg')
  have e: "lane_effect rt lg lg'" "outbound_effect rt lg lg'" "config_effect lg lg'"
    using step_effect [OF step.hyps(2)] by (simp_all add: effect_def)
  have c: "lg_config lg' = (lg_config lg)\<lparr>cf_config_version := cf_config_version (lg_config lg'),
       cf_frozen := cf_frozen (lg_config lg')\<rparr>"
    using e(3) by (simp add: config_effect_def)
  have same: "cf_source_application_id (lg_config lg) = cf_local_application_id (lg_config lg)"
    using step.prems by (subst (asm) (1 2) c) simp
  have "\<not> accepts rt lg lg'"
  proof
    assume "accepts rt lg lg'"
    then obtain cls bs clock m mid fresh where i: "inbound rt lg cls bs clock m mid fresh" unfolding accepts_def by blast
    show False using inboundD(1,8,9) [OF i] same by (simp add: message_valid_def header_rules_def)
  qed
  moreover have "\<not> publishes rt lg clock body built" for clock body built
    using same by (auto simp: publishes_def build_Inr outbound_message_def outbound_context_of_def
        message_valid_def header_rules_def)
  ultimately show ?case
    using e(1,2) step.IH same by (auto simp: lane_effect_def outbound_effect_def)
qed

theorem equal_applications_block_witness:
  "accepted (demo_leg 40) = [] \<and> published (demo_leg 40) = []"
  by (rule equal_applications_block [OF leg_reachable.start [OF demo_start]]) (simp_all add: demo_config)

end
