(* ===== verification/Auth_State.thy ===== *)
theory Auth_State
  imports Auth_Deployment
begin

text \<open>
  The accounts, seeds and bounds of the verdict profile of the authorization verifier
  (\<open>programs/authorization-verifier/src/state.rs\<close>) and the risk keys of its deployment profile; the
  deployment authority and receipt are in \<open>Auth_Deployment\<close>. Texts are held as their bytes.
\<close>

definition CONFIG_SEED :: bytes where "CONFIG_SEED = ascii_bytes ''config''"
definition TRUSTED_KEY_SEED :: bytes where "TRUSTED_KEY_SEED = ascii_bytes ''trusted_key''"
definition MANDATE_SEED :: bytes where "MANDATE_SEED = ascii_bytes ''mandate''"
definition RECEIPT_SEED :: bytes where "RECEIPT_SEED = ascii_bytes ''consumed''"
definition RISK_KEY_SEED :: bytes where "RISK_KEY_SEED = ascii_bytes ''solevm-risk-key''"

definition NONCE_DOMAIN :: bytes where "NONCE_DOMAIN = ascii_bytes ''es256-authorization-verifier:nonce:v1''"
definition MANDATE_DOMAIN :: bytes where "MANDATE_DOMAIN = ascii_bytes ''es256-authorization-verifier:mandate:v1''"
definition JTI_DOMAIN :: bytes where "JTI_DOMAIN = ascii_bytes ''es256-authorization-verifier:jti:v1''"

definition ISSUER :: bytes where "ISSUER = ascii_bytes ''https://verdicts.saifuro.com''"
definition ALLOW_VERDICT :: bytes where "ALLOW_VERDICT = ascii_bytes ''allow''"
definition SANDBOX_KID_PREFIX :: bytes where "SANDBOX_KID_PREFIX = ascii_bytes ''sandbox-''"
definition VERDICT_LIFETIME_SECONDS :: i64 where "VERDICT_LIFETIME_SECONDS = 300"
definition MAX_ISSUED_AT_SKEW_SECONDS :: i64 where "MAX_ISSUED_AT_SKEW_SECONDS = 60"

definition MAX_KID_LEN :: nat where "MAX_KID_LEN = 32"
definition MAX_JTI_LEN :: nat where "MAX_JTI_LEN = 64"
definition MAX_MANDATE_LEN :: nat where "MAX_MANDATE_LEN = 64"
definition MAX_POLICY_LEN :: nat where "MAX_POLICY_LEN = 64"
definition MAX_NONCE_LEN :: nat where "MAX_NONCE_LEN = 64"
definition MAX_AGENT_LEN :: nat where "MAX_AGENT_LEN = 64"
definition MAX_CURRENCY_LEN :: nat where "MAX_CURRENCY_LEN = 16"
definition MAX_RECIPIENT_LEN :: nat where "MAX_RECIPIENT_LEN = 128"
definition MAX_CATEGORY_LEN :: nat where "MAX_CATEGORY_LEN = 32"
definition COMPRESSED_PUBLIC_KEY_LEN :: nat where "COMPRESSED_PUBLIC_KEY_LEN = 33"

datatype environment = Production | Sandbox

fun environment_seed :: "environment \<Rightarrow> bytes" where
  "environment_seed Production = [0]"
| "environment_seed Sandbox = [1]"

definition accepts_kid :: "environment \<Rightarrow> bytes \<Rightarrow> bool" where
  "accepts_kid env kid =
     (let sandbox = (take (length SANDBOX_KID_PREFIX) kid = SANDBOX_KID_PREFIX) in
      case env of Production \<Rightarrow> \<not> sandbox | Sandbox \<Rightarrow> sandbox)"

record verifier_config =
  vc_administrator :: pubkey
  vc_consumer :: pubkey
  vc_environment :: environment
  vc_bump :: u8

record trusted_key =
  tk_config :: pubkey
  tk_kid :: bytes
  tk_public_key :: bytes
  tk_not_before :: i64
  tk_not_after :: i64
  tk_revoked :: bool
  tk_bump :: u8

record mandate =
  md_config :: pubkey
  md_mandate_hash :: bytes32
  md_mandate_id :: bytes
  md_amount_micros :: u64
  md_currency :: bytes
  md_recipient :: bytes
  md_policy_version :: bytes
  md_agent :: bytes
  md_category :: bytes
  md_revoked :: bool
  md_bump :: u8

record consumed_authorization =
  ca_config :: pubkey
  ca_nonce_hash :: bytes32
  ca_signing_input_hash :: bytes32
  ca_jti_hash :: bytes32
  ca_mandate :: pubkey
  ca_consumed_at :: i64
  ca_expires_at :: i64
  ca_bump :: u8

record risk_key =
  ri_config :: pubkey
  ri_public_key :: bytes
  ri_not_before :: i64
  ri_not_after :: i64
  ri_revoked :: bool
  ri_bump :: u8

definition domain_hash :: "(bytes list \<Rightarrow> bytes32) \<Rightarrow> bytes \<Rightarrow> bytes \<Rightarrow> bytes32" where
  "domain_hash sha256 domain value = sha256 [domain, value]"

definition nonce_hash :: "(bytes list \<Rightarrow> bytes32) \<Rightarrow> bytes \<Rightarrow> bytes32" where
  "nonce_hash sha256 nonce = domain_hash sha256 NONCE_DOMAIN nonce"

definition mandate_hash :: "(bytes list \<Rightarrow> bytes32) \<Rightarrow> bytes \<Rightarrow> bytes32" where
  "mandate_hash sha256 mandate_id = domain_hash sha256 MANDATE_DOMAIN mandate_id"

definition kid_seed :: "bytes \<Rightarrow> bytes" where
  "kid_seed kid = (if MAX_KID_LEN < length kid then [] else kid)"

definition is_profile_text :: "bytes \<Rightarrow> nat \<Rightarrow> bool" where
  "is_profile_text value max_len \<longleftrightarrow>
     value \<noteq> [] \<and> length value \<le> max_len \<and> list_all (\<lambda>b. 32 \<le> b \<and> b \<le> 126 \<and> b \<noteq> 34 \<and> b \<noteq> 92) value"

definition public_key_parity_seed :: "bytes \<Rightarrow> bytes" where
  "public_key_parity_seed public_key = take 1 public_key"

definition public_key_x_seed :: "bytes \<Rightarrow> bytes" where
  "public_key_x_seed public_key = drop 1 public_key"

end
