(* ===== verification/Auth_Precompile.thy ===== *)
theory Auth_Precompile
  imports Auth_State Leg_World
begin

text \<open>
  What the authorization verifier reads from the transaction it runs in: the secp256r1 instruction
  before it (\<open>programs/authorization-verifier/src/precompile.rs\<close>) and, for a deployment, the remote leg's
  instruction after it (\<open>check_deployment_follows\<close> of \<open>deployment.rs\<close>).

  The instructions sysvar is the transaction it shows; its first two bytes are the number of
  instructions, as the runtime writes them. The program ids, the hash and the derivation of
  addresses are parameters, collected in \<open>verifier_env\<close>.
\<close>

record verifier_env =
  ve_id :: pubkey
  ve_compute_budget :: pubkey
  ve_secp256r1 :: pubkey
  ve_instructions_sysvar :: pubkey
  ve_upgradeable_loader :: pubkey
  ve_sha256 :: "bytes list \<Rightarrow> bytes32"
  ve_find_program_address :: "bytes list \<Rightarrow> pubkey \<Rightarrow> pubkey \<times> u8"
  ve_create_program_address :: "bytes list \<Rightarrow> pubkey \<Rightarrow> pubkey option"

section \<open>Canonical layout\<close>

definition CURRENT_INSTRUCTION :: u16 where "CURRENT_INSTRUCTION = - 1"
definition SIGNATURE_LEN :: nat where "SIGNATURE_LEN = 64"
definition PUBLIC_KEY_OFFSET :: nat where "PUBLIC_KEY_OFFSET = 16"
definition SIGNATURE_OFFSET :: nat where "SIGNATURE_OFFSET = PUBLIC_KEY_OFFSET + COMPRESSED_PUBLIC_KEY_LEN"
definition MESSAGE_OFFSET :: nat where "MESSAGE_OFFSET = SIGNATURE_OFFSET + SIGNATURE_LEN"
definition MAX_SIGNING_INPUT_LEN :: nat where "MAX_SIGNING_INPUT_LEN = 512"

record verified_signature =
  vf_public_key :: bytes
  vf_signing_input :: bytes

definition canonical_header :: "u16 \<Rightarrow> bytes" where
  "canonical_header signing_input_len =
     [1, 0] @ concat (map to_le_bytes [word_of_nat SIGNATURE_OFFSET, CURRENT_INSTRUCTION, word_of_nat PUBLIC_KEY_OFFSET,
       CURRENT_INSTRUCTION, word_of_nat MESSAGE_OFFSET, signing_input_len, CURRENT_INSTRUCTION])"

definition parse_precompile_data :: "bytes \<Rightarrow> verifier_error + verified_signature" where
  "parse_precompile_data data =
     and_then (ok_or (if MESSAGE_OFFSET \<le> length data then Some (drop MESSAGE_OFFSET data) else None)
       InvalidPrecompileInstruction) (\<lambda>signing_input.
     and_then (require (signing_input \<noteq> [] \<and> length signing_input \<le> MAX_SIGNING_INPUT_LEN) InvalidSigningInputLength) (\<lambda>_.
     and_then (ok_or (if length signing_input < 2 ^ 16 then Some (word_of_nat (length signing_input)) else None)
       InvalidSigningInputLength) (\<lambda>signing_input_len.
     and_then (ok_or (if PUBLIC_KEY_OFFSET \<le> length data then Some (take PUBLIC_KEY_OFFSET data) else None)
       InvalidPrecompileInstruction) (\<lambda>header.
     and_then (require (header = canonical_header signing_input_len) InvalidPrecompileInstruction) (\<lambda>_.
     and_then (ok_or (if SIGNATURE_OFFSET \<le> length data
         then Some (take (SIGNATURE_OFFSET - PUBLIC_KEY_OFFSET) (drop PUBLIC_KEY_OFFSET data)) else None)
       InvalidPrecompileInstruction) (\<lambda>public_key.
     Inr \<lparr>vf_public_key = public_key, vf_signing_input = signing_input\<rparr>))))))"

section \<open>The transaction around a consume\<close>

text \<open>The checked loaders of the sysvar refuse another account and an index past the last instruction.\<close>

definition load_current_index :: "verifier_env \<Rightarrow> pubkey \<Rightarrow> transaction \<Rightarrow> verifier_error + nat" where
  "load_current_index env sysvar tx =
     (if sysvar = ve_instructions_sysvar env then Inr (tx_current_index tx) else Inl VFramework)"

definition load_instruction_at :: "verifier_env \<Rightarrow> pubkey \<Rightarrow> transaction \<Rightarrow> nat \<Rightarrow> verifier_error + instruction" where
  "load_instruction_at env sysvar tx index =
     (if sysvar = ve_instructions_sysvar env then ok_or (instruction_at tx index) VFramework else Inl VFramework)"

definition instruction_count :: "verifier_env \<Rightarrow> pubkey \<Rightarrow> transaction \<Rightarrow> verifier_error + nat" where
  "instruction_count env sysvar tx =
     and_then (require (sysvar = ve_instructions_sysvar env) InvalidInstructionOrder) (\<lambda>_.
     Inr (unat (word_of_nat (length (tx_instructions tx)) :: u16)))"

definition check_instruction_order ::
  "verifier_env \<Rightarrow> pubkey \<Rightarrow> transaction \<Rightarrow> nat \<Rightarrow> nat \<Rightarrow> nat \<Rightarrow> unit \<Rightarrow> verifier_error + unit" where
  "check_instruction_order env sysvar tx precompile_index current index _ =
     (if index = precompile_index \<or> index = current then Inr ()
      else and_then (load_instruction_at env sysvar tx index) (\<lambda>i.
        let allowed = (if index < precompile_index then in_program_id i = ve_compute_budget env
          else in_program_id i \<noteq> ve_id env \<and> in_program_id i \<noteq> ve_secp256r1 env) in
        require allowed InvalidInstructionOrder))"

definition load_verified_precompile ::
  "verifier_env \<Rightarrow> pubkey \<Rightarrow> transaction \<Rightarrow> verifier_error + instruction" where
  "load_verified_precompile env sysvar tx =
     and_then (require (tx_stack_height tx = TRANSACTION_LEVEL_STACK_HEIGHT) NotTopLevel) (\<lambda>_.
     and_then (load_current_index env sysvar tx) (\<lambda>current.
     and_then (load_instruction_at env sysvar tx current) (\<lambda>this.
     and_then (require (in_program_id this = ve_id env) NotTopLevel) (\<lambda>_.
     and_then (ok_or (if 1 \<le> current then Some (current - 1) else None) MissingPrecompile) (\<lambda>precompile_index.
     and_then (instruction_count env sysvar tx) (\<lambda>count.
     and_then (for_each (check_instruction_order env sysvar tx precompile_index current) [0..<count] ()) (\<lambda>_.
     and_then (load_instruction_at env sysvar tx precompile_index) (\<lambda>precompile.
     and_then (require (in_program_id precompile = ve_secp256r1 env) MissingPrecompile) (\<lambda>_.
     and_then (require (in_accounts precompile = []) InvalidPrecompileInstruction) (\<lambda>_.
     Inr precompile))))))))))"

section \<open>The deployment after a consume\<close>

definition DEPLOY_TO_STRATEGY_DISCRIMINATOR :: bytes where
  "DEPLOY_TO_STRATEGY_DISCRIMINATOR = [215, 49, 61, 222, 180, 60, 9, 118]"

definition DEPLOY_ACCOUNT_COUNT :: nat where "DEPLOY_ACCOUNT_COUNT = 15"
definition DEPLOY_REMOTE_CONFIG_INDEX :: nat where "DEPLOY_REMOTE_CONFIG_INDEX = 0"
definition DEPLOY_RECEIPT_INDEX :: nat where "DEPLOY_RECEIPT_INDEX = 13"

definition check_deployment_follows ::
  "verifier_env \<Rightarrow> pubkey \<Rightarrow> transaction \<Rightarrow> deployment_authority \<Rightarrow> pubkey \<Rightarrow> u64 \<Rightarrow> verifier_error + unit" where
  "check_deployment_follows env sysvar tx authority receipt amount =
     and_then (load_current_index env sysvar tx) (\<lambda>current.
     and_then (case load_instruction_at env sysvar tx (current + 1) of
         Inr i \<Rightarrow> Inr i | Inl _ \<Rightarrow> Inl MissingDeploymentInstruction) (\<lambda>following.
     let expected_data = DEPLOY_TO_STRATEGY_DISCRIMINATOR @ to_le_bytes amount in
     require (in_program_id following = da_remote_leg_program authority \<and> in_data following = expected_data \<and>
       length (in_accounts following) = DEPLOY_ACCOUNT_COUNT \<and>
       named_account following DEPLOY_REMOTE_CONFIG_INDEX = Some (da_remote_config authority) \<and>
       named_account following DEPLOY_RECEIPT_INDEX = Some receipt) InvalidDeploymentInstruction))"

section \<open>Approvals have one encoding\<close>

lemma reader_take_Inr: "reader_take n bs = Inr (a, r) \<longleftrightarrow> length a = n \<and> bs = a @ r"
  by (auto simp: reader_take_def)

lemma le_bytes_back: "length bs = 8 \<Longrightarrow> to_le_bytes (from_le_bytes bs :: u64) = bs"
  by (simp add: to_le_bytes_def from_le_bytes_def to_from_be_bytes)

lemma authorization_decode_Inr: "authorization_decode bs = Inr m \<longleftrightarrow> bs = authorization_encode m"
proof
  assume "authorization_decode bs = Inr m"
  then obtain a n g x v c i e where "length a = 32" "length n = 32" "length g = 8" "length x = 32" "length v = 8"
    "length c = 16" "length i = 8" "length e = 8"
    "bs = AUTHORIZATION_MAGIC @ [DEPLOYMENT_PROFILE_VERSION] @ [OPERATION_DEPLOY_TO_STRATEGY] @ a @ n @ g @ x @ v @ c @ i @ e"
    "m = \<lparr>az_authority = from_be_bytes a, az_network_domain = from_be_bytes n, az_policy_generation = from_le_bytes g,
      az_deployment_context = from_be_bytes x, az_amount = from_le_bytes v, az_nonce = from_be_bytes c,
      az_issued_at = from_le_bytes i, az_expires_at = from_le_bytes e\<rparr>"
    unfolding authorization_decode_def MESSAGE_LEN_def
    by (auto simp: and_then_Inr reader_take_Inr split: if_splits)
  then show "bs = authorization_encode m"
    by (simp add: authorization_encode_def le_bytes_back to_from_be_bytes)
qed (simp add: authorization_decode_encode)

section \<open>What the checks establish\<close>

lemma for_each_check:
  "for_each f xs () = Inr u \<longleftrightarrow> (\<forall>x \<in> set xs. f x () = Inr ())"
  by (induction xs) (auto simp: and_then_Inr)

lemma canonical_header_length [simp]: "length (canonical_header n) = 16"
  by (simp add: canonical_header_def)

text \<open>The one layout: header, key, signature, signing input, and nothing after it.\<close>

lemma parse_precompile_data_Inr:
  "parse_precompile_data data = Inr v \<longleftrightarrow>
     (\<exists>sig. length sig = SIGNATURE_LEN \<and> length (vf_public_key v) = COMPRESSED_PUBLIC_KEY_LEN \<and>
       vf_signing_input v \<noteq> [] \<and> length (vf_signing_input v) \<le> MAX_SIGNING_INPUT_LEN \<and>
       data = canonical_header (word_of_nat (length (vf_signing_input v))) @ vf_public_key v @ sig @ vf_signing_input v)"
  (is "?l \<longleftrightarrow> ?r")
proof
  note sizes = MESSAGE_OFFSET_def SIGNATURE_OFFSET_def PUBLIC_KEY_OFFSET_def SIGNATURE_LEN_def COMPRESSED_PUBLIC_KEY_LEN_def
  assume ?l
  then have s: "113 \<le> length data" "vf_signing_input v = drop 113 data" "vf_signing_input v \<noteq> []"
    "length (vf_signing_input v) \<le> MAX_SIGNING_INPUT_LEN"
    "take 16 data = canonical_header (word_of_nat (length (vf_signing_input v)))" "vf_public_key v = take 33 (drop 16 data)"
    by (auto simp: parse_precompile_data_def and_then_Inr require_Inr ok_or_Inr sizes split: if_splits)
  have "data = take 16 data @ take 33 (drop 16 data) @ take 64 (drop 49 data) @ drop 113 data"
    using append_take_drop_id [of 16 data] append_take_drop_id [of 33 "drop 16 data"] append_take_drop_id [of 64 "drop 49 data"]
    by (simp del: append_take_drop_id)
  with s show ?r
    by (intro exI [of _ "take 64 (drop 49 data)"]) (simp add: SIGNATURE_LEN_def COMPRESSED_PUBLIC_KEY_LEN_def)
next
  assume ?r
  then obtain sig where r: "length sig = 64" "length (vf_public_key v) = 33" "vf_signing_input v \<noteq> []"
    "length (vf_signing_input v) \<le> 512"
    "data = canonical_header (word_of_nat (length (vf_signing_input v))) @ vf_public_key v @ sig @ vf_signing_input v"
    by (auto simp: SIGNATURE_LEN_def COMPRESSED_PUBLIC_KEY_LEN_def MAX_SIGNING_INPUT_LEN_def)
  then show ?l
    by (simp add: parse_precompile_data_def MESSAGE_OFFSET_def SIGNATURE_OFFSET_def PUBLIC_KEY_OFFSET_def
        SIGNATURE_LEN_def COMPRESSED_PUBLIC_KEY_LEN_def MAX_SIGNING_INPUT_LEN_def require_def)
qed

text \<open>
  The shape of an accepted transaction: compute budget instructions, the precompile, this
  instruction, and after it neither the precompile nor the verifier again.
\<close>

definition consume_shape :: "verifier_env \<Rightarrow> transaction \<Rightarrow> instruction \<Rightarrow> bool" where
  "consume_shape env tx precompile \<longleftrightarrow>
     (\<exists>before this after. tx_instructions tx = before @ [precompile, this] @ after \<and>
        tx_current_index tx = Suc (length before) \<and> tx_stack_height tx = 1 \<and>
        (\<forall>i \<in> set before. in_program_id i = ve_compute_budget env) \<and>
        in_program_id precompile = ve_secp256r1 env \<and> in_accounts precompile = [] \<and> in_program_id this = ve_id env \<and>
        (\<forall>i \<in> set after. in_program_id i \<noteq> ve_id env \<and> in_program_id i \<noteq> ve_secp256r1 env))"

lemma split_around:
  assumes "Suc n < length xs"
  shows "xs = take n xs @ [xs ! n, xs ! Suc n] @ drop (Suc (Suc n)) xs"
  using assms by (simp add: Cons_nth_drop_Suc Suc_lessD)

lemma load_verified_precompile_shape:
  assumes "load_verified_precompile env sysvar tx = Inr p" "length (tx_instructions tx) < 2 ^ 16"
  shows "consume_shape env tx p"
proof -
  define xs k where "xs = tx_instructions tx" and "k = tx_current_index tx"
  have count: "unat (word_of_nat (length xs) :: u16) = length xs"
    using assms(2) by (simp add: unat_of_nat xs_def)
  obtain this where a: "tx_stack_height tx = 1" "sysvar = ve_instructions_sysvar env" "instruction_at tx k = Some this"
    "in_program_id this = ve_id env" "1 \<le> k" "instruction_at tx (k - 1) = Some p"
    "in_program_id p = ve_secp256r1 env" "in_accounts p = []"
    and order: "\<forall>i < length xs. check_instruction_order env sysvar tx (k - 1) k i () = Inr ()"
    using assms(1) count
    by (auto simp: load_verified_precompile_def and_then_Inr require_Inr ok_or_Inr load_current_index_def
        load_instruction_at_def instruction_count_def for_each_check TRANSACTION_LEVEL_STACK_HEIGHT_def
        xs_def k_def split: if_splits)
  obtain n where n: "k = Suc n" using a(5) by (cases k) auto
  have len: "Suc n < length xs" and at: "xs ! n = p" "xs ! Suc n = this"
    using a(3,6) by (auto simp: instruction_at_def n xs_def split: if_splits)
  have other: "if i < n then in_program_id (xs ! i) = ve_compute_budget env
      else in_program_id (xs ! i) \<noteq> ve_id env \<and> in_program_id (xs ! i) \<noteq> ve_secp256r1 env"
    if "i < length xs" "i \<noteq> n" "i \<noteq> Suc n" for i
    using order [rule_format, OF that(1)] that
    by (simp add: check_instruction_order_def n load_instruction_at_def a(2) instruction_at_def xs_def [symmetric]
        Let_def require_Inr)
  have "\<forall>i \<in> set (take n xs). in_program_id i = ve_compute_budget env"
  proof
    fix i assume "i \<in> set (take n xs)"
    then obtain j where "j < n" "i = xs ! j" using len by (auto simp: in_set_conv_nth)
    with other [of j] len show "in_program_id i = ve_compute_budget env" by simp
  qed
  moreover have "\<forall>i \<in> set (drop (Suc (Suc n)) xs). in_program_id i \<noteq> ve_id env \<and> in_program_id i \<noteq> ve_secp256r1 env"
  proof
    fix i assume "i \<in> set (drop (Suc (Suc n)) xs)"
    then obtain j where "j < length xs - Suc (Suc n)" "i = xs ! (Suc (Suc n) + j)" by (auto simp: in_set_conv_nth)
    with other [of "Suc (Suc n) + j"] show "in_program_id i \<noteq> ve_id env \<and> in_program_id i \<noteq> ve_secp256r1 env" by simp
  qed
  ultimately show ?thesis
    unfolding consume_shape_def xs_def [symmetric]
    by (intro exI [of _ "take n xs"] exI [of _ this] exI [of _ "drop (Suc (Suc n)) xs"])
      (use split_around [OF len] a len at n in \<open>simp add: k_def [symmetric]\<close>)
qed

lemma shape_loads_precompile:
  assumes "consume_shape env tx p" "length (tx_instructions tx) < 2 ^ 16"
  shows "load_verified_precompile env (ve_instructions_sysvar env) tx = Inr p"
proof -
  obtain before this after where t: "tx_instructions tx = before @ [p, this] @ after"
    "tx_current_index tx = Suc (length before)" "tx_stack_height tx = 1"
    "\<forall>i \<in> set before. in_program_id i = ve_compute_budget env" "in_program_id p = ve_secp256r1 env"
    "in_accounts p = []" "in_program_id this = ve_id env"
    "\<forall>i \<in> set after. in_program_id i \<noteq> ve_id env \<and> in_program_id i \<noteq> ve_secp256r1 env"
    using assms(1) by (auto simp: consume_shape_def)
  let ?xs = "tx_instructions tx" and ?n = "length before"
  have at: "?xs ! ?n = p" "?xs ! Suc ?n = this" "Suc ?n < length ?xs" by (simp_all add: t(1) nth_append)
  have "check_instruction_order env (ve_instructions_sysvar env) tx ?n (Suc ?n) i () = Inr ()" if i: "i < length ?xs" for i
  proof (cases "i = ?n \<or> i = Suc ?n")
    case False
    then consider (first) "i < ?n" | (last) "Suc ?n < i" by linarith
    then show ?thesis
    proof cases
      case first
      then have "in_program_id (?xs ! i) = ve_compute_budget env" using t(4) by (simp add: t(1) nth_append)
      with first i show ?thesis
        by (simp add: check_instruction_order_def load_instruction_at_def instruction_at_def require_def)
    next
      case last
      then obtain j where j: "i = Suc (Suc ?n) + j" by (metis Suc_leI le_iff_add)
      then have "?xs ! i = after ! j" "j < length after" using i by (simp_all add: t(1) nth_append)
      then have "in_program_id (?xs ! i) \<noteq> ve_id env \<and> in_program_id (?xs ! i) \<noteq> ve_secp256r1 env" using t(8) by simp
      with last i show ?thesis
        by (simp add: check_instruction_order_def load_instruction_at_def instruction_at_def require_def)
    qed
  qed (auto simp: check_instruction_order_def)
  moreover have "unat (word_of_nat (length ?xs) :: u16) = length ?xs" using assms(2) by (simp add: unat_of_nat)
  ultimately have "for_each (check_instruction_order env (ve_instructions_sysvar env) tx ?n (Suc ?n)) [0..<length ?xs] () = Inr ()"
    by (simp add: for_each_check)
  with \<open>unat (word_of_nat (length ?xs) :: u16) = length ?xs\<close> show ?thesis
    using at t(2,3,5-7)
    by (simp add: load_verified_precompile_def TRANSACTION_LEVEL_STACK_HEIGHT_def load_current_index_def
        load_instruction_at_def instruction_at_def instruction_count_def require_def)
qed

lemma check_deployment_follows_Inr:
  "check_deployment_follows env sysvar tx authority receipt amount = Inr () \<longleftrightarrow>
     sysvar = ve_instructions_sysvar env \<and>
     (\<exists>i. instruction_at tx (tx_current_index tx + 1) = Some i \<and> in_program_id i = da_remote_leg_program authority \<and>
       in_data i = DEPLOY_TO_STRATEGY_DISCRIMINATOR @ to_le_bytes amount \<and> length (in_accounts i) = DEPLOY_ACCOUNT_COUNT \<and>
       named_account i DEPLOY_REMOTE_CONFIG_INDEX = Some (da_remote_config authority) \<and>
       named_account i DEPLOY_RECEIPT_INDEX = Some receipt)"
  by (auto simp: check_deployment_follows_def and_then_Inr load_current_index_def load_instruction_at_def ok_or_def
      require_Inr split: if_splits sum.splits option.splits)

end
