(* ===== verification/Auth_Base64.thy ===== *)
theory Auth_Base64
  imports Auth_Errors
begin

text \<open>
  The first half of \<open>programs/authorization-verifier/src/jwt.rs\<close>: splitting a compact signing input
  and decoding unpadded Base64URL. The decoder is compared with the textbook encoder, which the
  source has in its tests only: it accepts exactly the canonical encodings.
\<close>

section \<open>Decoding\<close>

definition sextet :: "u8 \<Rightarrow> verifier_error + u32" where
  "sextet symbol =
     and_then
       (if 65 \<le> symbol \<and> symbol \<le> 90 then Inr (symbol - 65)
        else if 97 \<le> symbol \<and> symbol \<le> 122 then Inr (symbol - 97 + 26)
        else if 48 \<le> symbol \<and> symbol \<le> 57 then Inr (symbol - 48 + 52)
        else if symbol = 45 then Inr 62
        else if symbol = 95 then Inr 63
        else Inl InvalidBase64Url) (\<lambda>value. Inr (ucast value))"

text \<open>\<open>input.chunks(4)\<close>.\<close>

fun chunks4 :: "'a list \<Rightarrow> 'a list list" where
  "chunks4 (a # b # c # d # rest) = [a, b, c, d] # chunks4 rest"
| "chunks4 [] = []"
| "chunks4 xs = [xs]"

text \<open>\<open>chunk.iter().zip([18, 12, 6, 0])\<close>, or-ing the shifted sextets into one word.\<close>

definition group_word :: "bytes \<Rightarrow> verifier_error + u32" where
  "group_word chunk =
     for_each (\<lambda>(symbol, shift) word. and_then (sextet symbol) (\<lambda>v. Inr (word OR push_bit shift v)))
       (zip chunk [18, 12, 6, 0]) 0"

definition decode_chunk :: "bytes \<Rightarrow> verifier_error + bytes" where
  "decode_chunk chunk =
     and_then (group_word chunk) (\<lambda>word.
     let bytes = to_be_bytes word; first = bytes ! 1; second = bytes ! 2; third = bytes ! 3 in
     if length chunk = 4 then Inr [first, second, third]
     else if length chunk = 3 \<and> third = 0 then Inr [first, second]
     else if length chunk = 2 \<and> second = 0 \<and> third = 0 then Inr [first]
     else Inl InvalidBase64Url)"

definition decode_base64url :: "bytes \<Rightarrow> verifier_error + bytes" where
  "decode_base64url input =
     (if length input mod 4 = 1 then Inl InvalidBase64Url
      else for_each (\<lambda>chunk output. and_then (decode_chunk chunk) (\<lambda>bs. Inr (output @ bs))) (chunks4 input) [])"

section \<open>Splitting the signing input\<close>

text \<open>\<open>slice.split(|byte| *byte == separator)\<close> always yields at least one segment.\<close>

fun split_on :: "u8 \<Rightarrow> bytes \<Rightarrow> bytes list" where
  "split_on separator [] = [[]]"
| "split_on separator (b # bs) =
     (case split_on separator bs of
        [] \<Rightarrow> [[]]
      | segment # rest \<Rightarrow> if b = separator then [] # segment # rest else (b # segment) # rest)"

record decoded_signing_input =
  ds_header_json :: bytes
  ds_payload_json :: bytes

definition decode_signing_input :: "bytes \<Rightarrow> verifier_error + decoded_signing_input" where
  "decode_signing_input signing_input =
     (case split_on 46 signing_input of
        [header, payload] \<Rightarrow>
          if header = [] \<or> payload = [] then Inl MalformedSigningInput
          else and_then (decode_base64url header) (\<lambda>header_json.
            and_then (decode_base64url payload) (\<lambda>payload_json.
            Inr \<lparr>ds_header_json = header_json, ds_payload_json = payload_json\<rparr>))
      | _ \<Rightarrow> Inl MalformedSigningInput)"

section \<open>The reference encoder\<close>

definition ALPHABET :: bytes where
  "ALPHABET = ascii_bytes ''ABCDEFGHIJKLMNOPQRSTUVWXYZabcdefghijklmnopqrstuvwxyz0123456789-_''"

definition base64_symbol :: "nat \<Rightarrow> u8" where
  "base64_symbol n = ALPHABET ! (n mod 64)"

fun base64_encode :: "bytes \<Rightarrow> bytes" where
  "base64_encode (a # b # c # rest) =
     (let n = 65536 * unat a + 256 * unat b + unat c in
      [base64_symbol (n div 262144), base64_symbol (n div 4096), base64_symbol (n div 64), base64_symbol n] @
      base64_encode rest)"
| "base64_encode [a, b] =
     (let n = 65536 * unat a + 256 * unat b in
      [base64_symbol (n div 262144), base64_symbol (n div 4096), base64_symbol (n div 64)])"
| "base64_encode [a] = (let n = 65536 * unat a in [base64_symbol (n div 262144), base64_symbol (n div 4096)])"
| "base64_encode [] = []"

section \<open>Symbols\<close>

lemma ALPHABET_length [simp]: "length ALPHABET = 64"
  by (simp add: ALPHABET_def ascii_bytes_def)

lemma sextet_table: "list_all (\<lambda>n. sextet (ALPHABET ! n) = Inr (word_of_nat n)) [0..<64]"
  by code_simp

lemma ALPHABET_eq: "ALPHABET = map word_of_nat ([65..<91] @ [97..<123] @ [48..<58] @ [45, 95])"
  by (simp add: ALPHABET_def ascii_bytes_def upt_rec)

lemma sextet_in_ALPHABET:
  assumes "sextet s = Inr v"
  shows "s \<in> set ALPHABET"
proof -
  have "65 \<le> unat s \<and> unat s < 91 \<or> 97 \<le> unat s \<and> unat s < 123 \<or> 48 \<le> unat s \<and> unat s < 58 \<or>
      unat s = 45 \<or> unat s = 95"
    using assms by (auto simp: sextet_def word_le_nat_alt split: if_splits)
  then have "unat s \<in> set ([65..<91] @ [97..<123] @ [48..<58] @ [45, 95])"
    unfolding set_append set_upt list.set Un_iff atLeastLessThan_iff insert_iff by simp
  then have "word_of_nat (unat s) \<in> set ALPHABET" unfolding ALPHABET_eq set_map by (rule imageI)
  then show ?thesis by simp
qed

lemma sextet_symbol [simp]: "sextet (base64_symbol n) = Inr (word_of_nat (n mod 64))"
  using sextet_table by (simp add: list_all_iff base64_symbol_def)

lemma sextet_Inr:
  assumes "sextet s = Inr v"
  shows "unat v < 64" "base64_symbol (unat v) = s"
proof -
  obtain n where n: "n < 64" "s = ALPHABET ! n"
    using sextet_in_ALPHABET [OF assms] by (auto simp: in_set_conv_nth)
  then have "v = word_of_nat n" using assms sextet_table by (simp add: list_all_iff)
  then have "unat v = n" using n(1) by (simp add: unat_of_nat)
  with n show "unat v < 64" "base64_symbol (unat v) = s" by (simp_all add: base64_symbol_def)
qed


section \<open>Groups\<close>

lemma small_bit:
  assumes "unat (v :: u32) < 64" "bit v n"
  shows "n < 6"
proof (rule ccontr)
  assume "\<not> n < 6"
  then have "(2 :: nat) ^ 6 \<le> 2 ^ n" by (intro power_increasing) simp_all
  then have "unat v div 2 ^ n = 0" using assms(1) by (intro div_less) simp
  moreover have "bit (unat v) n" using assms(2) by (simp add: bit_unsigned_iff)
  ultimately show False by (simp add: bit_iff_odd)
qed

lemma or_sum:
  assumes "unat (a :: u32) < 64" "unat b < 64" "unat c < 64" "unat d < 64"
  shows "unat (((push_bit 18 a OR push_bit 12 b) OR push_bit 6 c) OR d) =
    262144 * unat a + 4096 * unat b + 64 * unat c + unat d"
proof -
  note bits = small_bit [OF assms(1)] small_bit [OF assms(2)] small_bit [OF assms(3)] small_bit [OF assms(4)]
  have "push_bit 18 a + push_bit 12 b = push_bit 18 a OR push_bit 12 b"
    by (rule disjunctive_add) (auto simp: bit_simps dest!: bits)
  moreover have "(push_bit 18 a OR push_bit 12 b) + push_bit 6 c = (push_bit 18 a OR push_bit 12 b) OR push_bit 6 c"
    by (rule disjunctive_add) (auto simp: bit_simps dest!: bits)
  moreover have "((push_bit 18 a OR push_bit 12 b) OR push_bit 6 c) + d =
      ((push_bit 18 a OR push_bit 12 b) OR push_bit 6 c) OR d"
    by (rule disjunctive_add) (auto simp: bit_simps dest!: bits)
  ultimately have "((push_bit 18 a OR push_bit 12 b) OR push_bit 6 c) OR d =
      262144 * a + 4096 * b + 64 * c + d"
    by (simp add: push_bit_eq_mult mult.commute)
  also have "unat \<dots> = 262144 * unat a + 4096 * unat b + 64 * unat c + unat d"
    using assms by (simp add: unat_word_ariths)
  finally show ?thesis .
qed

lemma word_bytes:
  "unat (to_be_bytes (w :: u32) ! 1) = unat w div 65536 mod 256"
  "unat (to_be_bytes (w :: u32) ! 2) = unat w div 256 mod 256"
  "unat (to_be_bytes (w :: u32) ! 3) = unat w mod 256"
  by (simp_all add: nth_to_be_bytes unsigned_ucast_eq unsigned_drop_bit_eq take_bit_eq_mod drop_bit_eq_div unat_div del: One_nat_def)


lemma group_word_Inr:
  "group_word [s0, s1, s2, s3] = Inr w \<longleftrightarrow> (\<exists>v0 v1 v2 v3. sextet s0 = Inr v0 \<and> sextet s1 = Inr v1 \<and>
     sextet s2 = Inr v2 \<and> sextet s3 = Inr v3 \<and> w = ((push_bit 18 v0 OR push_bit 12 v1) OR push_bit 6 v2) OR v3)"
  "group_word [s0, s1, s2] = Inr w \<longleftrightarrow> (\<exists>v0 v1 v2. sextet s0 = Inr v0 \<and> sextet s1 = Inr v1 \<and>
     sextet s2 = Inr v2 \<and> w = ((push_bit 18 v0 OR push_bit 12 v1) OR push_bit 6 v2) OR 0)"
  "group_word [s0, s1] = Inr w \<longleftrightarrow> (\<exists>v0 v1. sextet s0 = Inr v0 \<and> sextet s1 = Inr v1 \<and>
     w = ((push_bit 18 v0 OR push_bit 12 v1) OR push_bit 6 0) OR 0)"
  by (auto simp: group_word_def and_then_Inr)

lemma symbol_mod [simp]: "base64_symbol (n mod 64) = base64_symbol n"
  by (simp add: base64_symbol_def)

text \<open>The 24 bits of a group, as one number, and the three bytes and four symbols it holds.\<close>

lemma last_digit: "s < B \<Longrightarrow> n = m * B + s \<Longrightarrow> n div B = m" "s < B \<Longrightarrow> n = m * B + s \<Longrightarrow> n mod B = s" for n :: nat
  by simp_all

lemma group_number:
  fixes n :: nat
  assumes "a < 256" "b < 256" "c < 256" "n = 65536 * a + 256 * b + c"
  shows "n div 65536 mod 256 = a" "n div 256 mod 256 = b" "n mod 256 = c"
proof -
  have n: "n = (a * 256 + b) * 256 + c" using assms(4) by simp
  note m = last_digit [OF assms(3) n]
  have "n div 65536 = n div 256 div 256" by (simp add: div_mult2_eq)
  then show "n div 65536 mod 256 = a" "n div 256 mod 256 = b" "n mod 256 = c"
    using m last_digit [OF assms(2) m(1)] assms(1) by simp_all
qed

lemma group_sextets:
  fixes n :: nat
  assumes "p < 64" "q < 64" "r < 64" "s < 64" "n = 262144 * p + 4096 * q + 64 * r + s"
  shows "n div 262144 mod 64 = p" "n div 4096 mod 64 = q" "n div 64 mod 64 = r" "n mod 64 = s" "n < 16777216"
proof -
  have n: "n = ((p * 64 + q) * 64 + r) * 64 + s" using assms(5) by simp
  note m = last_digit [OF assms(4) n]
  have d: "n div 4096 = n div 64 div 64" "n div 262144 = n div 64 div 64 div 64" by (simp_all add: div_mult2_eq)
  note k = last_digit [OF assms(3) m(1)]
  show "n div 262144 mod 64 = p" "n div 4096 mod 64 = q" "n div 64 mod 64 = r" "n mod 64 = s"
    using m k last_digit [OF assms(2) k(1)] assms(1) d by simp_all
  show "n < 16777216" using assms by simp
qed

lemma group_split:
  fixes n :: nat
  assumes "n < 16777216"
  shows "65536 * (n div 65536 mod 256) + 256 * (n div 256 mod 256) + n mod 256 = n"
proof -
  define q h where "q = n div 256" "h = n div 65536"
  have "h = q div 256" "h < 256" using assms by (simp_all add: q_h_def div_mult2_eq less_mult_imp_div_less)
  then have "h mod 256 = h" "q = h * 256 + q mod 256" "n = q * 256 + n mod 256" by (simp_all add: q_h_def)
  then have "65536 * (h mod 256) + 256 * (q mod 256) + n mod 256 = n" by linarith
  then show ?thesis unfolding q_h_def .
qed

lemma group_join:
  fixes n :: nat
  assumes "n < 16777216"
  shows "262144 * (n div 262144 mod 64) + 4096 * (n div 4096 mod 64) + 64 * (n div 64 mod 64) + n mod 64 = n"
proof -
  define q h g where "q = n div 64" "h = n div 4096" "g = n div 262144"
  have "h = q div 64" "g = h div 64" "g < 64" using assms by (simp_all add: q_h_g_def div_mult2_eq less_mult_imp_div_less)
  then have "g mod 64 = g" "h = g * 64 + h mod 64" "q = h * 64 + q mod 64" "n = q * 64 + n mod 64"
    by (simp_all add: q_h_g_def)
  then have "262144 * (g mod 64) + 4096 * (h mod 64) + 64 * (q mod 64) + n mod 64 = n" by linarith
  then show ?thesis unfolding q_h_g_def .
qed

lemma unat_small_word [simp]: "unat (word_of_nat (n mod 64) :: u32) = n mod 64"
  by (simp add: unat_of_nat)

lemma group_decodes:
  assumes "n < 16777216"
  obtains w where "group_word [base64_symbol (n div 262144), base64_symbol (n div 4096), base64_symbol (n div 64),
      base64_symbol n] = Inr w" "unat w = n"
    "n mod 64 = 0 \<Longrightarrow> group_word [base64_symbol (n div 262144), base64_symbol (n div 4096), base64_symbol (n div 64)] = Inr w"
    "n mod 64 = 0 \<Longrightarrow> n div 64 mod 64 = 0 \<Longrightarrow>
      group_word [base64_symbol (n div 262144), base64_symbol (n div 4096)] = Inr w"
proof -
  define w :: u32 where "w = ((push_bit 18 (word_of_nat (n div 262144 mod 64)) OR push_bit 12 (word_of_nat (n div 4096 mod 64))) OR
      push_bit 6 (word_of_nat (n div 64 mod 64))) OR word_of_nat (n mod 64)"
  have "unat w = n"
    unfolding w_def by (subst or_sum) (simp_all add: group_join [OF assms])
  then show thesis
    by (intro that [of w]) (simp_all add: group_word_Inr w_def)
qed

lemma byte_below [simp]: "unat (b :: u8) < 256"
  using unsigned_less [of b] by simp

lemma decode_chunk_encode:
  "decode_chunk (base64_encode [a, b, c]) = Inr [a, b, c]"
  "decode_chunk (base64_encode [a, b]) = Inr [a, b]"
  "decode_chunk (base64_encode [a]) = Inr [a]"
proof -
  have bytes: "to_be_bytes w ! 1 = a \<and> to_be_bytes w ! 2 = b \<and> to_be_bytes w ! 3 = c"
    if "unat w = 65536 * unat a + 256 * unat b + unat c" for w :: u32 and a b c :: u8
    using group_number [OF byte_below byte_below byte_below that] by (simp add: word_unat_eq_iff word_bytes del: One_nat_def)
  have small: "65536 * unat a + 256 * unat b + unat c < 16777216" for a b c :: u8
    using byte_below [of a] byte_below [of b] byte_below [of c] by linarith
  show "decode_chunk (base64_encode [a, b, c]) = Inr [a, b, c]"
    by (rule group_decodes [OF small [of a b c]]) (use bytes in \<open>simp add: decode_chunk_def Let_def del: One_nat_def\<close>)
  have even: "(65536 * unat a + 256 * unat b) mod 64 = 0" by simp
  show "decode_chunk (base64_encode [a, b]) = Inr [a, b]"
    by (rule group_decodes [OF small [of a b 0]]) (use bytes [of _ a b 0] in \<open>simp add: decode_chunk_def Let_def del: One_nat_def\<close>)
  show "decode_chunk (base64_encode [a]) = Inr [a]"
    by (rule group_decodes [OF small [of a 0 0]]) (use bytes [of _ a 0 0] in \<open>simp add: decode_chunk_def Let_def del: One_nat_def\<close>)
qed

lemma group_symbols:
  assumes "unat (v0 :: u32) < 64" "unat v1 < 64" "unat v2 < 64" "unat v3 < 64"
    and "w = ((push_bit 18 v0 OR push_bit 12 v1) OR push_bit 6 v2) OR v3"
  shows "base64_symbol (unat w div 262144) = base64_symbol (unat v0)"
    "base64_symbol (unat w div 4096) = base64_symbol (unat v1)"
    "base64_symbol (unat w div 64) = base64_symbol (unat v2)" "base64_symbol (unat w) = base64_symbol (unat v3)"
    "65536 * unat (to_be_bytes w ! 1) + 256 * unat (to_be_bytes w ! 2) + unat (to_be_bytes w ! 3) = unat w"
proof -
  have w: "unat w = 262144 * unat v0 + 4096 * unat v1 + 64 * unat v2 + unat v3"
    unfolding assms(5) by (rule or_sum [OF assms(1-4)])
  note g = group_sextets [OF assms(1-4) w]
  show "base64_symbol (unat w div 262144) = base64_symbol (unat v0)"
    "base64_symbol (unat w div 4096) = base64_symbol (unat v1)"
    "base64_symbol (unat w div 64) = base64_symbol (unat v2)" "base64_symbol (unat w) = base64_symbol (unat v3)"
    by (subst symbol_mod [symmetric], simp only: g)+
  show "65536 * unat (to_be_bytes w ! 1) + 256 * unat (to_be_bytes w ! 2) + unat (to_be_bytes w ! 3) = unat w"
    using group_split [OF g(5)] by (simp only: word_bytes)
qed

lemma decode_chunk_canonical:
  "decode_chunk [s0, s1, s2, s3] = Inr out \<Longrightarrow> [s0, s1, s2, s3] = base64_encode out \<and> length out = 3"
  "decode_chunk [s0, s1, s2] = Inr out \<Longrightarrow> [s0, s1, s2] = base64_encode out \<and> length out = 2"
  "decode_chunk [s0, s1] = Inr out \<Longrightarrow> [s0, s1] = base64_encode out \<and> length out = 1"
proof -
  show "[s0, s1, s2, s3] = base64_encode out \<and> length out = 3" if d: "decode_chunk [s0, s1, s2, s3] = Inr out"
  proof -
    obtain w v0 v1 v2 v3 where v: "sextet s0 = Inr v0" "sextet s1 = Inr v1" "sextet s2 = Inr v2" "sextet s3 = Inr v3"
      "w = ((push_bit 18 v0 OR push_bit 12 v1) OR push_bit 6 v2) OR v3"
      "out = [to_be_bytes w ! 1, to_be_bytes w ! 2, to_be_bytes w ! 3]"
      using d by (auto simp: decode_chunk_def and_then_Inr group_word_Inr Let_def)
    note g = group_symbols [OF sextet_Inr(1) [OF v(1)] sextet_Inr(1) [OF v(2)] sextet_Inr(1) [OF v(3)]
        sextet_Inr(1) [OF v(4)] v(5)]
    show ?thesis by (simp add: v(6) Let_def g sextet_Inr(2) [OF v(1)] sextet_Inr(2) [OF v(2)] sextet_Inr(2) [OF v(3)]
          sextet_Inr(2) [OF v(4)] del: One_nat_def)
  qed
  show "[s0, s1, s2] = base64_encode out \<and> length out = 2" if d: "decode_chunk [s0, s1, s2] = Inr out"
  proof -
    obtain w v0 v1 v2 where v: "sextet s0 = Inr v0" "sextet s1 = Inr v1" "sextet s2 = Inr v2"
      "w = ((push_bit 18 v0 OR push_bit 12 v1) OR push_bit 6 v2) OR 0"
      "out = [to_be_bytes w ! 1, to_be_bytes w ! 2]" "to_be_bytes w ! 3 = 0"
      using d by (auto simp: decode_chunk_def and_then_Inr group_word_Inr Let_def split: if_splits)
    note g = group_symbols [OF sextet_Inr(1) [OF v(1)] sextet_Inr(1) [OF v(2)] sextet_Inr(1) [OF v(3)] _ v(4)]
    show ?thesis using g(5) by (simp add: v(5,6) Let_def g(1-3) sextet_Inr(2) [OF v(1)] sextet_Inr(2) [OF v(2)]
          sextet_Inr(2) [OF v(3)] del: One_nat_def)
  qed
  show "[s0, s1] = base64_encode out \<and> length out = 1" if d: "decode_chunk [s0, s1] = Inr out"
  proof -
    obtain w v0 v1 where v: "sextet s0 = Inr v0" "sextet s1 = Inr v1"
      "w = ((push_bit 18 v0 OR push_bit 12 v1) OR push_bit 6 0) OR 0"
      "out = [to_be_bytes w ! 1]" "to_be_bytes w ! 2 = 0" "to_be_bytes w ! 3 = 0"
      using d by (auto simp: decode_chunk_def and_then_Inr group_word_Inr Let_def split: if_splits)
    note g = group_symbols [OF sextet_Inr(1) [OF v(1)] sextet_Inr(1) [OF v(2)] _ _ v(3)]
    show ?thesis using g(5) by (simp add: v(4-6) Let_def g(1-2) sextet_Inr(2) [OF v(1)] sextet_Inr(2) [OF v(2)]
          del: One_nat_def)
  qed
qed

section \<open>Decoding is the inverse of encoding\<close>

lemma decode_chunks_output:
  "for_each (\<lambda>chunk output. and_then (decode_chunk chunk) (\<lambda>bs. Inr (output @ bs))) cs acc =
     and_then (for_each (\<lambda>chunk output. and_then (decode_chunk chunk) (\<lambda>bs. Inr (output @ bs))) cs [])
       (\<lambda>bs. Inr (acc @ bs))"
proof (induction cs arbitrary: acc)
  case (Cons c cs)
  show ?case
    by (cases "decode_chunk c") (simp_all, subst (1 2) Cons.IH, simp add: and_then_def split: sum.splits)
qed simp

lemma decode_Cons:
  assumes "length rest mod 4 \<noteq> 1"
  shows "decode_base64url (a # b # c # d # rest) =
     and_then (decode_chunk [a, b, c, d]) (\<lambda>bs. and_then (decode_base64url rest) (\<lambda>out. Inr (bs @ out)))"
proof -
  have "length (a # b # c # d # rest) mod 4 \<noteq> 1" using assms by (simp add: mod_Suc)
  then show ?thesis
    using assms unfolding decode_base64url_def
    by (cases "decode_chunk [a, b, c, d]") (simp_all, subst decode_chunks_output, simp)
qed

lemma encode_length: "length (base64_encode bs) mod 4 \<noteq> 1"
  by (induction bs rule: base64_encode.induct) (simp_all add: Let_def mod_Suc)

lemma base64_decode_encode: "decode_base64url (base64_encode bs) = Inr bs"
proof (induction bs rule: base64_encode.induct)
  case (1 a b c rest)
  then show ?case using decode_chunk_encode(1) [of a b c] decode_Cons [OF encode_length [of rest]] by (simp add: Let_def)
next
  case (2 a b)
  then show ?case using decode_chunk_encode(2) [of a b] by (simp add: Let_def decode_base64url_def)
next
  case (3 a)
  then show ?case using decode_chunk_encode(3) [of a] by (simp add: Let_def decode_base64url_def)
qed (simp add: decode_base64url_def)

lemma base64_canonical: "decode_base64url s = Inr bs \<Longrightarrow> s = base64_encode bs"
proof (induction s arbitrary: bs rule: chunks4.induct)
  case (1 a b c d rest)
  have mod: "length rest mod 4 \<noteq> 1" using "1.prems" by (auto simp: decode_base64url_def mod_Suc split: if_splits)
  obtain out more where o: "decode_chunk [a, b, c, d] = Inr out" "decode_base64url rest = Inr more" "bs = out @ more"
    using "1.prems" by (auto simp: decode_Cons [OF mod] and_then_Inr)
  have g: "[a, b, c, d] = base64_encode out" "length out = 3" using decode_chunk_canonical(1) [OF o(1)] by simp_all
  from g(2) obtain x y z where "out = [x, y, z]" by (auto simp: length_Suc_conv numeral_eq_Suc)
  with g(1) "1.IH" [OF o(2)] o(3) show ?case by (simp add: Let_def)
next
  case "3_2"
  then show ?case using decode_chunk_canonical(3) by (simp add: decode_base64url_def and_then_Inr)
next
  case "3_3"
  then show ?case using decode_chunk_canonical(2) by (simp add: decode_base64url_def and_then_Inr)
qed (simp_all add: decode_base64url_def)

section \<open>Two segments\<close>

lemma split_on_nonempty: "split_on x bs \<noteq> []"
  by (induction bs) (auto split: list.splits)

lemma split_on_first:
  obtains segment rest where "split_on x bs = segment # rest"
  using split_on_nonempty [of x bs] by (cases "split_on x bs") blast+

lemma split_on_one: "split_on x bs = [a] \<longleftrightarrow> bs = a \<and> x \<notin> set a"
proof (induction bs arbitrary: a)
  case (Cons b bs)
  obtain segment rest where r: "split_on x bs = segment # rest" by (rule split_on_first)
  have "segment # rest = [c] \<longleftrightarrow> bs = c \<and> x \<notin> set c" for c using Cons.IH [of c] by (simp only: r)
  from this [of "tl a"] show ?case by (cases a) (auto simp: r)
qed auto

lemma split_on_two: "split_on x bs = [a, b] \<longleftrightarrow> bs = a @ x # b \<and> x \<notin> set a \<and> x \<notin> set b"
proof (induction bs arbitrary: a)
  case (Cons c bs)
  obtain segment rest where r: "split_on x bs = segment # rest" by (rule split_on_first)
  have one: "segment # rest = [d] \<longleftrightarrow> bs = d \<and> x \<notin> set d" for d using split_on_one [of x bs d] by (simp only: r)
  have two: "segment # rest = [d, b] \<longleftrightarrow> bs = d @ x # b \<and> x \<notin> set d \<and> x \<notin> set b" for d
    using Cons.IH [of d] by (simp only: r)
  show ?case using one [of b] two [of "tl a"] by (cases a) (auto simp: r)
qed auto

lemma symbols_have_no_dot: "46 \<notin> set (base64_encode bs)"
proof -
  have "\<not> is_ok (sextet 46)" by (simp add: sextet_def)
  then have dot: "46 \<noteq> base64_symbol n" for n using sextet_symbol [of n] by (auto simp del: sextet_symbol)
  show ?thesis by (induction bs rule: base64_encode.induct) (simp_all add: Let_def dot)
qed

text \<open>A signing input is accepted exactly when it is two non-empty canonical segments.\<close>

lemma base64_Inr: "decode_base64url s = Inr bs \<longleftrightarrow> s = base64_encode bs"
  using base64_canonical base64_decode_encode by blast

lemma encode_empty: "base64_encode bs = [] \<longleftrightarrow> bs = []"
  by (induction bs rule: base64_encode.induct) (simp_all add: Let_def)

lemma decode_signing_input_Inr:
  "decode_signing_input bs = Inr d \<longleftrightarrow>
     bs = base64_encode (ds_header_json d) @ 46 # base64_encode (ds_payload_json d) \<and>
     ds_header_json d \<noteq> [] \<and> ds_payload_json d \<noteq> []"
proof
  assume "decode_signing_input bs = Inr d"
  then obtain h p where s: "split_on 46 bs = [h, p]" and "h \<noteq> []" "p \<noteq> []"
    "decode_base64url h = Inr (ds_header_json d)" "decode_base64url p = Inr (ds_payload_json d)"
    by (auto simp: decode_signing_input_def and_then_Inr split: list.splits if_splits)
  then show "bs = base64_encode (ds_header_json d) @ 46 # base64_encode (ds_payload_json d) \<and>
     ds_header_json d \<noteq> [] \<and> ds_payload_json d \<noteq> []"
    by (auto simp: split_on_two base64_Inr encode_empty)
next
  assume bs: "bs = base64_encode (ds_header_json d) @ 46 # base64_encode (ds_payload_json d) \<and>
     ds_header_json d \<noteq> [] \<and> ds_payload_json d \<noteq> []"
  then have "split_on 46 bs = [base64_encode (ds_header_json d), base64_encode (ds_payload_json d)]"
    by (simp add: split_on_two symbols_have_no_dot)
  with bs show "decode_signing_input bs = Inr d"
    by (simp add: decode_signing_input_def encode_empty base64_decode_encode)
qed

end
