(* ===== verification/Auth_Jwt.thy ===== *)
theory Auth_Jwt
  imports Auth_Base64 Auth_State
begin

text \<open>
  The second half of \<open>programs/authorization-verifier/src/jwt.rs\<close>: the cursor over a JSON document, the
  strict object grammar, and the header and claims of a verdict.

  A cursor is the document and a position in it. A slice never has more than \<open>isize::MAX\<close> bytes, so
  the source's checks on the addition of one to a position below its length cannot fire and the
  position is a plain number here. The loop over the fields of an object takes as fuel the number
  of bytes that are left: every round reads at least the two quotes of a field name, and with no
  bytes left the source's loop ends with \<open>MalformedJson\<close>, as the model does without fuel.
\<close>

section \<open>Cursor\<close>

record cursor =
  cu_bytes :: bytes
  cu_position :: nat

definition cursor_new :: "bytes \<Rightarrow> cursor" where
  "cursor_new bs = \<lparr>cu_bytes = bs, cu_position = 0\<rparr>"

definition peek :: "cursor \<Rightarrow> u8 option" where
  "peek c = (if cu_position c < length (cu_bytes c) then Some (cu_bytes c ! cu_position c) else None)"

definition advance :: "cursor \<Rightarrow> verifier_error + u8 \<times> cursor" where
  "advance c = and_then (ok_or (peek c) MalformedJson) (\<lambda>b. Inr (b, c\<lparr>cu_position := cu_position c + 1\<rparr>))"

definition is_whitespace :: "u8 \<Rightarrow> bool" where
  "is_whitespace b \<longleftrightarrow> b = 32 \<or> b = 9 \<or> b = 10 \<or> b = 13"

function skip_whitespace :: "cursor \<Rightarrow> cursor" where
  "skip_whitespace c =
     (case peek c of
        Some b \<Rightarrow> if is_whitespace b then skip_whitespace (c\<lparr>cu_position := cu_position c + 1\<rparr>) else c
      | None \<Rightarrow> c)"
  by pat_completeness auto
termination
  by (relation "measure (\<lambda>c. length (cu_bytes c) - cu_position c)") (auto simp: peek_def split: if_splits)

definition expect :: "u8 \<Rightarrow> cursor \<Rightarrow> verifier_error + cursor" where
  "expect expected c =
     and_then (advance c) (\<lambda>(b, c). if b \<noteq> expected then Inl MalformedJson else Inr c)"

text \<open>\<open>self.bytes.get(start..end)\<close>.\<close>

definition slice :: "bytes \<Rightarrow> nat \<Rightarrow> nat \<Rightarrow> bytes option" where
  "slice bs start stop = (if start \<le> stop \<and> stop \<le> length bs then Some (take (stop - start) (drop start bs)) else None)"

text \<open>The loop of \<open>string\<close> up to and including the closing quote.\<close>

function string_loop :: "cursor \<Rightarrow> verifier_error + cursor" where
  "string_loop c =
     (case peek c of
        None \<Rightarrow> Inl MalformedJson
      | Some b \<Rightarrow>
          let c' = c\<lparr>cu_position := cu_position c + 1\<rparr> in
          if b = 34 then Inr c'
          else if b = 92 then Inl MalformedJson
          else if 32 \<le> b \<and> b \<le> 126 then string_loop c'
          else Inl MalformedJson)"
  by pat_completeness auto
termination
  by (relation "measure (\<lambda>c. length (cu_bytes c) - cu_position c)") (auto simp: peek_def split: if_splits)

definition json_string :: "cursor \<Rightarrow> verifier_error + bytes \<times> cursor" where
  "json_string c =
     (if peek c \<noteq> Some 34 then Inl UnsupportedJsonValue
      else and_then (advance c) (\<lambda>(_, c).
        let start = cu_position c in
        and_then (string_loop c) (\<lambda>c.
        and_then (ok_or (slice (cu_bytes c) start (cu_position c - 1)) MalformedJson) (\<lambda>value.
        Inr (value, c)))))"

definition is_number_byte :: "u8 \<Rightarrow> bool" where
  "is_number_byte b \<longleftrightarrow> 48 \<le> b \<and> b \<le> 57 \<or> b = 46 \<or> b = 45 \<or> b = 43 \<or> b = 101 \<or> b = 69"

function number_loop :: "cursor \<Rightarrow> cursor" where
  "number_loop c =
     (case peek c of
        Some b \<Rightarrow> if is_number_byte b then number_loop (c\<lparr>cu_position := cu_position c + 1\<rparr>) else c
      | None \<Rightarrow> c)"
  by pat_completeness auto
termination
  by (relation "measure (\<lambda>c. length (cu_bytes c) - cu_position c)") (auto simp: peek_def split: if_splits)

definition json_number :: "cursor \<Rightarrow> verifier_error + bytes \<times> cursor" where
  "json_number c =
     (let start = cu_position c; c = number_loop c in
      and_then (ok_or (slice (cu_bytes c) start (cu_position c)) MalformedJson) (\<lambda>token.
      if token = [] then Inl UnsupportedJsonValue else Inr (token, c)))"

definition cursor_finish :: "cursor \<Rightarrow> verifier_error + cursor" where
  "cursor_finish c =
     (let c = skip_whitespace c in
      if cu_position c \<noteq> length (cu_bytes c) then Inl MalformedJson else Inr c)"

section \<open>Objects\<close>

text \<open>A visitor reads the value of the field it is given and updates the slots of its caller.\<close>

type_synonym 's visitor = "cursor \<Rightarrow> bytes \<Rightarrow> 's \<Rightarrow> verifier_error + cursor \<times> 's"

definition bytes_left :: "cursor \<Rightarrow> nat" where
  "bytes_left c = length (cu_bytes c) - cu_position c"

definition object_round :: "'s visitor \<Rightarrow> cursor \<Rightarrow> 's \<Rightarrow> verifier_error + bool \<times> cursor \<times> 's" where
  "object_round visit c s =
     (let c = skip_whitespace c in
      if peek c \<noteq> Some 34 then Inl MalformedJson
      else and_then (json_string c) (\<lambda>(key, c).
        and_then (expect 58 (skip_whitespace c)) (\<lambda>c.
        and_then (visit (skip_whitespace c) key s) (\<lambda>(c, s).
        and_then (advance (skip_whitespace c)) (\<lambda>(b, c).
        if b = 44 then Inr (True, c, s)
        else if b = 125 then Inr (False, c, s)
        else Inl MalformedJson)))))"

fun object_loop :: "nat \<Rightarrow> 's visitor \<Rightarrow> cursor \<Rightarrow> 's \<Rightarrow> verifier_error + cursor \<times> 's" where
  "object_loop 0 visit c s = Inl MalformedJson"
| "object_loop (Suc fuel) visit c s =
     and_then (object_round visit c s) (\<lambda>(again, c, s).
       if again then object_loop fuel visit c s else Inr (c, s))"

definition object :: "'s visitor \<Rightarrow> cursor \<Rightarrow> 's \<Rightarrow> verifier_error + cursor \<times> 's" where
  "object visit c s =
     and_then (expect 123 (skip_whitespace c)) (\<lambda>c.
     let c = skip_whitespace c in
     if peek c = Some 125 then and_then (advance c) (\<lambda>(_, c). Inr (c, s))
     else object_loop (bytes_left c) visit c s)"

section \<open>Slots\<close>

definition fill :: "'a option \<Rightarrow> (verifier_error + 'a \<times> cursor) \<Rightarrow> verifier_error + 'a option \<times> cursor" where
  "fill slot read =
     (if slot \<noteq> None then Inl DuplicateField else and_then read (\<lambda>(v, c). Inr (Some v, c)))"

definition required :: "'a option \<Rightarrow> verifier_error + 'a" where
  "required slot = ok_or slot MissingField"

definition bounded :: "bytes \<Rightarrow> nat \<Rightarrow> verifier_error + bytes" where
  "bounded value max_len = (if value = [] \<or> max_len < length value then Inl InvalidFieldLength else Inr value)"

section \<open>Numbers\<close>

definition MAX_TIMESTAMP :: i64 where "MAX_TIMESTAMP = 253402300799"
definition AMOUNT_SCALE_DIGITS :: nat where "AMOUNT_SCALE_DIGITS = 6"
definition AMOUNT_SCALE :: u64 where "AMOUNT_SCALE = 1000000"
definition MAX_AMOUNT_INTEGER_DIGITS :: nat where "MAX_AMOUNT_INTEGER_DIGITS = 13"
definition MAX_TIMESTAMP_DIGITS :: nat where "MAX_TIMESTAMP_DIGITS = 12"

definition digit_step :: "u8 \<Rightarrow> u64 \<Rightarrow> verifier_error + u64" where
  "digit_step digit value =
     (if \<not> (48 \<le> digit \<and> digit \<le> 57) then Inl InvalidNumber
      else ok_or (Option.bind (checked_mul_word value 10) (\<lambda>value. checked_add_word value (ucast (digit - 48)))) InvalidNumber)"

definition parse_digits :: "bytes \<Rightarrow> verifier_error + u64" where
  "parse_digits digits = (if digits = [] then Inl InvalidNumber else for_each digit_step digits 0)"

definition parse_timestamp :: "bytes \<Rightarrow> verifier_error + i64" where
  "parse_timestamp token =
     (if MAX_TIMESTAMP_DIGITS < length token \<or> (token \<noteq> [] \<and> hd token = 48) then Inl InvalidNumber
      else and_then (parse_digits token) (\<lambda>value.
        and_then (if value < 2 ^ 63 then Inr (value :: i64) else Inl InvalidNumber) (\<lambda>value.
        if value = 0 \<or> sint MAX_TIMESTAMP < sint value then Inl InvalidNumber else Inr value)))"

text \<open>\<open>token.splitn(2, |byte| *byte == b'.')\<close>: what precedes the first dot, and what follows it if any.\<close>

definition split_first :: "u8 \<Rightarrow> bytes \<Rightarrow> bytes \<times> bytes option" where
  "split_first separator token =
     (takeWhile (\<lambda>b. b \<noteq> separator) token,
      if separator \<in> set token then Some (tl (dropWhile (\<lambda>b. b \<noteq> separator) token)) else None)"

definition parse_fraction :: "bytes option \<Rightarrow> verifier_error + u64" where
  "parse_fraction fraction =
     (case fraction of
        None \<Rightarrow> Inr 0
      | Some digits \<Rightarrow>
          if AMOUNT_SCALE_DIGITS < length digits then Inl InvalidNumber
          else
            let scale = 10 ^ (AMOUNT_SCALE_DIGITS - length digits) in
            and_then (parse_digits digits) (\<lambda>value. ok_or (checked_mul_word value scale) InvalidNumber))"

definition parse_amount_micros :: "bytes \<Rightarrow> verifier_error + u64" where
  "parse_amount_micros token =
     (case split_first 46 token of (whole_digits, fraction) \<Rightarrow>
        let leading_zero = (1 < length whole_digits \<and> hd whole_digits = 48) in
        if MAX_AMOUNT_INTEGER_DIGITS < length whole_digits \<or> leading_zero then Inl InvalidNumber
        else and_then (parse_digits whole_digits) (\<lambda>whole.
          and_then (ok_or (checked_mul_word whole AMOUNT_SCALE) InvalidNumber) (\<lambda>whole.
          and_then (parse_fraction fraction) (\<lambda>micros.
          ok_or (checked_add_word whole micros) InvalidNumber))))"

section \<open>Header\<close>

record token_header =
  th_kid :: bytes

record header_slots =
  hs_alg :: "bytes option"
  hs_kid :: "bytes option"
  hs_typ :: "bytes option"

definition header_visit :: "header_slots visitor" where
  "header_visit c key s =
     (if key = ascii_bytes ''alg'' then and_then (fill (hs_alg s) (json_string c)) (\<lambda>(v, c). Inr (c, s\<lparr>hs_alg := v\<rparr>))
      else if key = ascii_bytes ''kid'' then and_then (fill (hs_kid s) (json_string c)) (\<lambda>(v, c). Inr (c, s\<lparr>hs_kid := v\<rparr>))
      else if key = ascii_bytes ''typ'' then and_then (fill (hs_typ s) (json_string c)) (\<lambda>(v, c). Inr (c, s\<lparr>hs_typ := v\<rparr>))
      else if key \<in> set (map ascii_bytes [''jwk'', ''jku'', ''x5c'', ''x5u'', ''x5t'', ''x5t#S256'', ''crit'', ''b64''])
      then Inl UnsupportedClaim
      else Inl UnknownField)"

definition parse_header :: "bytes \<Rightarrow> verifier_error + token_header" where
  "parse_header json =
     and_then (object header_visit (cursor_new json) \<lparr>hs_alg = None, hs_kid = None, hs_typ = None\<rparr>) (\<lambda>(c, s).
     and_then (cursor_finish c) (\<lambda>_.
     and_then (required (hs_alg s)) (\<lambda>alg.
     if alg \<noteq> ascii_bytes ''ES256'' then Inl UnsupportedAlgorithm
     else if hs_typ s \<noteq> None \<and> hs_typ s \<noteq> Some (ascii_bytes ''JWT'') then Inl UnsupportedType
     else and_then (required (hs_kid s)) (\<lambda>kid.
       and_then (bounded kid MAX_KID_LEN) (\<lambda>kid. Inr \<lparr>th_kid = kid\<rparr>)))))"

section \<open>Claims\<close>

record request =
  rq_agent :: bytes
  rq_amount_micros :: u64
  rq_currency :: bytes
  rq_recipient :: bytes
  rq_category :: bytes

record claims =
  cl_iss :: bytes
  cl_jti :: bytes
  cl_iat :: i64
  cl_exp :: i64
  cl_verdict :: bytes
  cl_mandate :: bytes
  cl_policy_version :: bytes
  cl_nonce :: bytes
  cl_request :: request

record request_slots =
  qs_agent :: "bytes option"
  qs_amount :: "u64 option"
  qs_currency :: "bytes option"
  qs_recipient :: "bytes option"
  qs_category :: "bytes option"

definition read_amount :: "cursor \<Rightarrow> verifier_error + u64 \<times> cursor" where
  "read_amount c = and_then (json_number c) (\<lambda>(token, c). and_then (parse_amount_micros token) (\<lambda>v. Inr (v, c)))"

definition read_timestamp :: "cursor \<Rightarrow> verifier_error + i64 \<times> cursor" where
  "read_timestamp c = and_then (json_number c) (\<lambda>(token, c). and_then (parse_timestamp token) (\<lambda>v. Inr (v, c)))"

definition request_visit :: "request_slots visitor" where
  "request_visit c key s =
     (if key = ascii_bytes ''agent'' then and_then (fill (qs_agent s) (json_string c)) (\<lambda>(v, c). Inr (c, s\<lparr>qs_agent := v\<rparr>))
      else if key = ascii_bytes ''amount'' then and_then (fill (qs_amount s) (read_amount c)) (\<lambda>(v, c). Inr (c, s\<lparr>qs_amount := v\<rparr>))
      else if key = ascii_bytes ''currency'' then and_then (fill (qs_currency s) (json_string c)) (\<lambda>(v, c). Inr (c, s\<lparr>qs_currency := v\<rparr>))
      else if key = ascii_bytes ''recipient'' then and_then (fill (qs_recipient s) (json_string c)) (\<lambda>(v, c). Inr (c, s\<lparr>qs_recipient := v\<rparr>))
      else if key = ascii_bytes ''category'' then and_then (fill (qs_category s) (json_string c)) (\<lambda>(v, c). Inr (c, s\<lparr>qs_category := v\<rparr>))
      else Inl UnknownField)"

definition parse_request :: "cursor \<Rightarrow> verifier_error + request \<times> cursor" where
  "parse_request c =
     and_then (object request_visit c \<lparr>qs_agent = None, qs_amount = None, qs_currency = None, qs_recipient = None,
       qs_category = None\<rparr>) (\<lambda>(c, s).
     and_then (and_then (required (qs_agent s)) (\<lambda>v. bounded v MAX_AGENT_LEN)) (\<lambda>agent.
     and_then (required (qs_amount s)) (\<lambda>amount.
     and_then (and_then (required (qs_currency s)) (\<lambda>v. bounded v MAX_CURRENCY_LEN)) (\<lambda>currency.
     and_then (and_then (required (qs_recipient s)) (\<lambda>v. bounded v MAX_RECIPIENT_LEN)) (\<lambda>recipient.
     and_then (and_then (required (qs_category s)) (\<lambda>v. bounded v MAX_CATEGORY_LEN)) (\<lambda>category.
     Inr (\<lparr>rq_agent = agent, rq_amount_micros = amount, rq_currency = currency, rq_recipient = recipient,
       rq_category = category\<rparr>, c)))))))"

record claims_slots =
  cs_iss :: "bytes option"
  cs_jti :: "bytes option"
  cs_iat :: "i64 option"
  cs_exp :: "i64 option"
  cs_verdict :: "bytes option"
  cs_mandate :: "bytes option"
  cs_policy_version :: "bytes option"
  cs_nonce :: "bytes option"
  cs_request :: "request option"

definition claims_visit :: "claims_slots visitor" where
  "claims_visit c key s =
     (if key = ascii_bytes ''iss'' then and_then (fill (cs_iss s) (json_string c)) (\<lambda>(v, c). Inr (c, s\<lparr>cs_iss := v\<rparr>))
      else if key = ascii_bytes ''jti'' then and_then (fill (cs_jti s) (json_string c)) (\<lambda>(v, c). Inr (c, s\<lparr>cs_jti := v\<rparr>))
      else if key = ascii_bytes ''iat'' then and_then (fill (cs_iat s) (read_timestamp c)) (\<lambda>(v, c). Inr (c, s\<lparr>cs_iat := v\<rparr>))
      else if key = ascii_bytes ''exp'' then and_then (fill (cs_exp s) (read_timestamp c)) (\<lambda>(v, c). Inr (c, s\<lparr>cs_exp := v\<rparr>))
      else if key = ascii_bytes ''verdict'' then and_then (fill (cs_verdict s) (json_string c)) (\<lambda>(v, c). Inr (c, s\<lparr>cs_verdict := v\<rparr>))
      else if key = ascii_bytes ''mandate'' then and_then (fill (cs_mandate s) (json_string c)) (\<lambda>(v, c). Inr (c, s\<lparr>cs_mandate := v\<rparr>))
      else if key = ascii_bytes ''policy_version'' then
        and_then (fill (cs_policy_version s) (json_string c)) (\<lambda>(v, c). Inr (c, s\<lparr>cs_policy_version := v\<rparr>))
      else if key = ascii_bytes ''nonce'' then and_then (fill (cs_nonce s) (json_string c)) (\<lambda>(v, c). Inr (c, s\<lparr>cs_nonce := v\<rparr>))
      else if key = ascii_bytes ''request'' then and_then (fill (cs_request s) (parse_request c)) (\<lambda>(v, c). Inr (c, s\<lparr>cs_request := v\<rparr>))
      else if key \<in> set (map ascii_bytes [''aud'', ''nbf'', ''supersedes'']) then Inl UnsupportedClaim
      else Inl UnknownField)"

definition parse_claims :: "bytes \<Rightarrow> verifier_error + claims" where
  "parse_claims json =
     and_then (object claims_visit (cursor_new json) \<lparr>cs_iss = None, cs_jti = None, cs_iat = None, cs_exp = None,
       cs_verdict = None, cs_mandate = None, cs_policy_version = None, cs_nonce = None, cs_request = None\<rparr>) (\<lambda>(c, s).
     and_then (cursor_finish c) (\<lambda>_.
     and_then (required (cs_iss s)) (\<lambda>iss.
     and_then (and_then (required (cs_jti s)) (\<lambda>v. bounded v MAX_JTI_LEN)) (\<lambda>jti.
     and_then (required (cs_iat s)) (\<lambda>iat.
     and_then (required (cs_exp s)) (\<lambda>exp.
     and_then (required (cs_verdict s)) (\<lambda>verdict.
     and_then (and_then (required (cs_mandate s)) (\<lambda>v. bounded v MAX_MANDATE_LEN)) (\<lambda>mandate.
     and_then (and_then (required (cs_policy_version s)) (\<lambda>v. bounded v MAX_POLICY_LEN)) (\<lambda>policy_version.
     and_then (and_then (required (cs_nonce s)) (\<lambda>v. bounded v MAX_NONCE_LEN)) (\<lambda>nonce.
     and_then (required (cs_request s)) (\<lambda>request.
     Inr \<lparr>cl_iss = iss, cl_jti = jti, cl_iat = iat, cl_exp = exp, cl_verdict = verdict, cl_mandate = mandate,
       cl_policy_version = policy_version, cl_nonce = nonce, cl_request = request\<rparr>)))))))))))"

end
