(* ===== verification/Auth_Program.thy ===== *)
theory Auth_Program
  imports Auth_Precompile Auth_Jwt
begin

text \<open>
  The instructions of the authorization verifier (\<open>programs/authorization-verifier/src/lib.rs\<close> and
  \<open>instructions/\<close>) on the accounts the program owns.

  Only the program can create accounts at the addresses it derives, so an address without an entry
  is an empty account. Anchor first reads every account that is passed and requires the signers, then
  creates the new account, then checks the constraints, and only then calls the handler; each
  instruction here keeps that order. Signers are passed by their keys. The program's own
  upgrade authority and the remote leg's accounts are read from \<open>outside\<close>; lamports and rent are not
  modelled.
\<close>

section \<open>Accounts\<close>

datatype vaccount =
    ConfigAccount verifier_config
  | TrustedKeyAccount trusted_key
  | MandateAccount mandate
  | ConsumedAccount consumed_authorization
  | AuthorityAccount deployment_authority
  | RiskKeyAccount risk_key
  | ReceiptAccount deployment_receipt

type_synonym vstore = "pubkey \<rightharpoonup> vaccount"

text \<open>\<open>ou_program_data\<close> holds the loader's program data accounts with their upgrade authority.\<close>

record outside =
  ou_program_data :: "pubkey \<rightharpoonup> pubkey option"
  ou_executable :: "pubkey \<Rightarrow> bool"
  ou_owner :: "pubkey \<Rightarrow> pubkey"
  ou_data :: "pubkey \<Rightarrow> bytes"

record vcontext =
  vx_now :: i64
  vx_sysvar :: pubkey
  vx_transaction :: transaction
  vx_outside :: outside

definition load_config :: "vstore \<Rightarrow> pubkey \<Rightarrow> verifier_error + verifier_config" where
  "load_config s key = (case s key of Some (ConfigAccount x) \<Rightarrow> Inr x | _ \<Rightarrow> Inl VFramework)"

definition load_trusted_key :: "vstore \<Rightarrow> pubkey \<Rightarrow> verifier_error + trusted_key" where
  "load_trusted_key s key = (case s key of Some (TrustedKeyAccount x) \<Rightarrow> Inr x | _ \<Rightarrow> Inl VFramework)"

definition load_mandate :: "vstore \<Rightarrow> pubkey \<Rightarrow> verifier_error + mandate" where
  "load_mandate s key = (case s key of Some (MandateAccount x) \<Rightarrow> Inr x | _ \<Rightarrow> Inl VFramework)"

definition load_authority :: "vstore \<Rightarrow> pubkey \<Rightarrow> verifier_error + deployment_authority" where
  "load_authority s key = (case s key of Some (AuthorityAccount x) \<Rightarrow> Inr x | _ \<Rightarrow> Inl VFramework)"

definition load_risk_key :: "vstore \<Rightarrow> pubkey \<Rightarrow> verifier_error + risk_key" where
  "load_risk_key s key = (case s key of Some (RiskKeyAccount x) \<Rightarrow> Inr x | _ \<Rightarrow> Inl VFramework)"

text \<open>
  \<open>init\<close> with seeds: the address is derived, must be the one passed, and must be free. A seed of
  more than 32 bytes aborts the derivation.
\<close>

definition MAX_SEED_LEN :: nat where "MAX_SEED_LEN = 32"

definition vpda :: "verifier_env \<Rightarrow> bytes list \<Rightarrow> pubkey \<times> u8" where
  "vpda env seeds = ve_find_program_address env seeds (ve_id env)"

definition init_account :: "verifier_env \<Rightarrow> bytes list \<Rightarrow> pubkey \<Rightarrow> vstore \<Rightarrow> verifier_error + u8" where
  "init_account env seeds key s =
     (if list_all (\<lambda>seed. length seed \<le> MAX_SEED_LEN) seeds \<and> key = fst (vpda env seeds) \<and> s key = None
      then Inr (snd (vpda env seeds)) else Inl VFramework)"

text \<open>A constraint that names the address by stored seeds and bump.\<close>

definition check_address :: "verifier_env \<Rightarrow> bytes list \<Rightarrow> pubkey \<Rightarrow> verifier_error + unit" where
  "check_address env seeds key =
     require (ve_create_program_address env seeds (ve_id env) = Some key) VFramework"

text \<open>The upgrade authority of this program signs.\<close>

definition load_program_data :: "outside \<Rightarrow> pubkey \<Rightarrow> verifier_error + pubkey option" where
  "load_program_data out key = ok_or (ou_program_data out key) VFramework"

definition check_upgrade_authority :: "verifier_env \<Rightarrow> pubkey \<Rightarrow> pubkey \<Rightarrow> pubkey option \<Rightarrow> verifier_error + unit" where
  "check_upgrade_authority env upgrade_authority program_data authority =
     and_then (require (program_data =
       fst (ve_find_program_address env [to_be_bytes (ve_id env)] (ve_upgradeable_loader env))) VFramework) (\<lambda>_.
     require (authority = Some upgrade_authority) VUnauthorized)"

section \<open>Administration of the verdict profile\<close>

record initialize_config_params =
  ip_environment :: environment
  ip_administrator :: pubkey
  ip_consumer :: pubkey

definition process_initialize_config ::
  "verifier_env \<Rightarrow> vcontext \<Rightarrow> pubkey \<Rightarrow> pubkey \<Rightarrow> pubkey \<Rightarrow> initialize_config_params \<Rightarrow> vstore \<Rightarrow> verifier_error + vstore" where
  "process_initialize_config env ctx upgrade_authority program_data config params s =
     and_then (load_program_data (vx_outside ctx) program_data) (\<lambda>authority.
     and_then (init_account env [CONFIG_SEED, environment_seed (ip_environment params)] config s) (\<lambda>bump.
     and_then (check_upgrade_authority env upgrade_authority program_data authority) (\<lambda>_.
     and_then (require (ip_administrator params \<noteq> 0 \<and> ip_consumer params \<noteq> 0 \<and>
       ip_administrator params \<noteq> ip_consumer params) InvalidRoles) (\<lambda>_.
     Inr (s(config \<mapsto> ConfigAccount \<lparr>vc_administrator = ip_administrator params, vc_consumer = ip_consumer params,
       vc_environment = ip_environment params, vc_bump = bump\<rparr>))))))"

record register_trusted_key_params =
  tp_kid :: bytes
  tp_public_key :: bytes
  tp_not_before :: i64
  tp_not_after :: i64

definition check_public_key :: "bytes \<Rightarrow> verifier_error + unit" where
  "check_public_key public_key = require (public_key \<noteq> [] \<and> (hd public_key = 2 \<or> hd public_key = 3)) InvalidPublicKey"

definition check_key_window :: "i64 \<Rightarrow> i64 \<Rightarrow> verifier_error + unit" where
  "check_key_window not_before not_after =
     require (0 \<le> sint not_before \<and> sint not_before < sint not_after) InvalidKeyWindow"

definition process_register_trusted_key ::
  "verifier_env \<Rightarrow> pubkey \<Rightarrow> pubkey \<Rightarrow> pubkey \<Rightarrow> register_trusted_key_params \<Rightarrow> vstore \<Rightarrow> verifier_error + vstore" where
  "process_register_trusted_key env administrator config_key trusted_key params s =
     and_then (load_config s config_key) (\<lambda>config.
     and_then (init_account env [TRUSTED_KEY_SEED, to_be_bytes config_key, kid_seed (tp_kid params)] trusted_key s) (\<lambda>bump.
     and_then (require (vc_administrator config = administrator) VUnauthorized) (\<lambda>_.
     and_then (require (is_profile_text (tp_kid params) MAX_KID_LEN \<and>
       accepts_kid (vc_environment config) (tp_kid params)) InvalidKeyId) (\<lambda>_.
     and_then (check_public_key (tp_public_key params)) (\<lambda>_.
     and_then (check_key_window (tp_not_before params) (tp_not_after params)) (\<lambda>_.
     Inr (s(trusted_key \<mapsto> TrustedKeyAccount \<lparr>tk_config = config_key, tk_kid = tp_kid params,
       tk_public_key = tp_public_key params, tk_not_before = tp_not_before params, tk_not_after = tp_not_after params,
       tk_revoked = False, tk_bump = bump\<rparr>))))))))"

definition process_revoke_trusted_key ::
  "pubkey \<Rightarrow> pubkey \<Rightarrow> pubkey \<Rightarrow> vstore \<Rightarrow> verifier_error + vstore" where
  "process_revoke_trusted_key administrator config_key trusted_key s =
     and_then (load_config s config_key) (\<lambda>config.
     and_then (load_trusted_key s trusted_key) (\<lambda>k.
     and_then (require (vc_administrator config = administrator) VUnauthorized) (\<lambda>_.
     and_then (require (tk_config k = config_key) VUnauthorized) (\<lambda>_.
     and_then (require (\<not> tk_revoked k) AlreadyRevoked) (\<lambda>_.
     Inr (s(trusted_key \<mapsto> TrustedKeyAccount (k\<lparr>tk_revoked := True\<rparr>))))))))"

record register_mandate_params =
  mp_mandate_hash :: bytes32
  mp_mandate_id :: bytes
  mp_amount_micros :: u64
  mp_currency :: bytes
  mp_recipient :: bytes
  mp_policy_version :: bytes
  mp_agent :: bytes
  mp_category :: bytes

definition mandate_params_valid :: "register_mandate_params \<Rightarrow> bool" where
  "mandate_params_valid p \<longleftrightarrow>
     0 < mp_amount_micros p \<and> is_profile_text (mp_mandate_id p) MAX_MANDATE_LEN \<and>
     is_profile_text (mp_currency p) MAX_CURRENCY_LEN \<and> is_profile_text (mp_recipient p) MAX_RECIPIENT_LEN \<and>
     is_profile_text (mp_policy_version p) MAX_POLICY_LEN \<and> is_profile_text (mp_agent p) MAX_AGENT_LEN \<and>
     is_profile_text (mp_category p) MAX_CATEGORY_LEN"

definition process_register_mandate ::
  "verifier_env \<Rightarrow> pubkey \<Rightarrow> pubkey \<Rightarrow> pubkey \<Rightarrow> register_mandate_params \<Rightarrow> vstore \<Rightarrow> verifier_error + vstore" where
  "process_register_mandate env administrator config_key mandate params s =
     and_then (load_config s config_key) (\<lambda>config.
     and_then (init_account env [MANDATE_SEED, to_be_bytes config_key, to_be_bytes (mp_mandate_hash params)] mandate s) (\<lambda>bump.
     and_then (require (vc_administrator config = administrator) VUnauthorized) (\<lambda>_.
     and_then (require (mandate_params_valid params) InvalidMandate) (\<lambda>_.
     and_then (require (mp_mandate_hash params = mandate_hash (ve_sha256 env) (mp_mandate_id params)) MandateHashMismatch) (\<lambda>_.
     Inr (s(mandate \<mapsto> MandateAccount \<lparr>md_config = config_key, md_mandate_hash = mp_mandate_hash params,
       md_mandate_id = mp_mandate_id params, md_amount_micros = mp_amount_micros params,
       md_currency = mp_currency params, md_recipient = mp_recipient params,
       md_policy_version = mp_policy_version params, md_agent = mp_agent params, md_category = mp_category params,
       md_revoked = False, md_bump = bump\<rparr>)))))))"

definition process_revoke_mandate :: "pubkey \<Rightarrow> pubkey \<Rightarrow> pubkey \<Rightarrow> vstore \<Rightarrow> verifier_error + vstore" where
  "process_revoke_mandate administrator config_key mandate s =
     and_then (load_config s config_key) (\<lambda>config.
     and_then (load_mandate s mandate) (\<lambda>m.
     and_then (require (vc_administrator config = administrator) VUnauthorized) (\<lambda>_.
     and_then (require (md_config m = config_key) VUnauthorized) (\<lambda>_.
     and_then (require (\<not> md_revoked m) AlreadyRevoked) (\<lambda>_.
     Inr (s(mandate \<mapsto> MandateAccount (m\<lparr>md_revoked := True\<rparr>))))))))"

section \<open>Consuming a verdict\<close>

definition checked_add_i64 :: "i64 \<Rightarrow> i64 \<Rightarrow> i64 option" where
  "checked_add_i64 a b =
     (if - (2 ^ 63) \<le> sint a + sint b \<and> sint a + sint b < 2 ^ 63 then Some (a + b) else None)"

definition check_claims :: "claims \<Rightarrow> i64 \<Rightarrow> verifier_error + unit" where
  "check_claims c now =
     and_then (require (cl_iss c = ISSUER) IssuerMismatch) (\<lambda>_.
     and_then (require (cl_verdict c = ALLOW_VERDICT) VerdictNotAllow) (\<lambda>_.
     and_then (require (checked_add_i64 (cl_iat c) VERDICT_LIFETIME_SECONDS = Some (cl_exp c)) InvalidLifetime) (\<lambda>_.
     and_then (ok_or (checked_add_i64 now MAX_ISSUED_AT_SKEW_SECONDS) IssuedInFuture) (\<lambda>latest_issue.
     and_then (require (sint (cl_iat c) \<le> sint latest_issue) IssuedInFuture) (\<lambda>_.
     require (sint now < sint (cl_exp c)) Expired)))))"

definition check_mandate :: "mandate \<Rightarrow> claims \<Rightarrow> verifier_error + unit" where
  "check_mandate m c =
     (let r = cl_request c in
     and_then (require (\<not> md_revoked m) MandateRevoked) (\<lambda>_.
     and_then (require (cl_mandate c = md_mandate_id m) MandateMismatch) (\<lambda>_.
     and_then (require (rq_amount_micros r = md_amount_micros m) AmountMismatch) (\<lambda>_.
     and_then (require (rq_currency r = md_currency m) CurrencyMismatch) (\<lambda>_.
     and_then (require (rq_recipient r = md_recipient m) RecipientMismatch) (\<lambda>_.
     and_then (require (cl_policy_version c = md_policy_version m) PolicyMismatch) (\<lambda>_.
     and_then (require (rq_agent r = md_agent m) AgentMismatch) (\<lambda>_.
     require (rq_category r = md_category m) CategoryMismatch))))))))"

record consume_accounts =
  cx_consumer :: pubkey
  cx_config :: pubkey
  cx_trusted_key :: pubkey
  cx_mandate :: pubkey
  cx_receipt :: pubkey

definition process_consume_authorization ::
  "verifier_env \<Rightarrow> vcontext \<Rightarrow> consume_accounts \<Rightarrow> bytes32 \<Rightarrow> vstore \<Rightarrow> verifier_error + vstore" where
  "process_consume_authorization env ctx a nonce_hash_argument s =
     and_then (load_config s (cx_config a)) (\<lambda>config.
     and_then (load_trusted_key s (cx_trusted_key a)) (\<lambda>k.
     and_then (load_mandate s (cx_mandate a)) (\<lambda>m.
     and_then (init_account env [RECEIPT_SEED, to_be_bytes (cx_config a), to_be_bytes nonce_hash_argument] (cx_receipt a) s) (\<lambda>bump.
     and_then (check_address env [CONFIG_SEED, environment_seed (vc_environment config), [vc_bump config]] (cx_config a)) (\<lambda>_.
     and_then (require (vc_consumer config = cx_consumer a) VUnauthorized) (\<lambda>_.
     and_then (require (tk_config k = cx_config a) VUnauthorized) (\<lambda>_.
     and_then (require (md_config m = cx_config a) VUnauthorized) (\<lambda>_.
     and_then (require (vx_sysvar ctx = ve_instructions_sysvar env) VFramework) (\<lambda>_.
     and_then (load_verified_precompile env (vx_sysvar ctx) (vx_transaction ctx)) (\<lambda>precompile.
     and_then (parse_precompile_data (in_data precompile)) (\<lambda>verified.
     and_then (decode_signing_input (vf_signing_input verified)) (\<lambda>decoded.
     and_then (parse_header (ds_header_json decoded)) (\<lambda>header.
     and_then (parse_claims (ds_payload_json decoded)) (\<lambda>claims.
     and_then (require (th_kid header = tk_kid k) KeyIdMismatch) (\<lambda>_.
     and_then (require (accepts_kid (vc_environment config) (th_kid header)) InvalidKeyId) (\<lambda>_.
     and_then (require (\<not> tk_revoked k) KeyRevoked) (\<lambda>_.
     and_then (require (vf_public_key verified = tk_public_key k) PublicKeyMismatch) (\<lambda>_.
     and_then (check_claims claims (vx_now ctx)) (\<lambda>_.
     and_then (require (sint (tk_not_before k) \<le> sint (vx_now ctx) \<and> sint (tk_not_before k) \<le> sint (cl_iat claims) \<and>
       sint (cl_exp claims) \<le> sint (tk_not_after k)) OutsideKeyWindow) (\<lambda>_.
     and_then (check_mandate m claims) (\<lambda>_.
     and_then (require (nonce_hash (ve_sha256 env) (cl_nonce claims) = nonce_hash_argument) NonceHashMismatch) (\<lambda>_.
     Inr (s(cx_receipt a \<mapsto> ConsumedAccount \<lparr>ca_config = cx_config a, ca_nonce_hash = nonce_hash_argument,
       ca_signing_input_hash = ve_sha256 env [vf_signing_input verified],
       ca_jti_hash = domain_hash (ve_sha256 env) JTI_DOMAIN (cl_jti claims), ca_mandate = cx_mandate a,
       ca_consumed_at = vx_now ctx, ca_expires_at = cl_exp claims, ca_bump = bump\<rparr>))))))))))))))))))))))))"

section \<open>Administration of the deployment profile\<close>

record initialize_authority_params =
  ap_administrator :: pubkey
  ap_network_domain :: bytes32

record authority_accounts =
  ax_upgrade_authority :: pubkey
  ax_program_data :: pubkey
  ax_remote_leg_program :: pubkey
  ax_remote_config :: pubkey
  ax_config :: pubkey

definition process_initialize_deployment_authority ::
  "verifier_env \<Rightarrow> vcontext \<Rightarrow> authority_accounts \<Rightarrow> initialize_authority_params \<Rightarrow> vstore \<Rightarrow> verifier_error + vstore" where
  "process_initialize_deployment_authority env ctx a params s =
     and_then (load_program_data (vx_outside ctx) (ax_program_data a)) (\<lambda>authority.
     and_then (init_account env [DEPLOYMENT_AUTHORITY_SEED, to_be_bytes (ax_remote_leg_program a),
       to_be_bytes (ax_remote_config a)] (ax_config a) s) (\<lambda>bump.
     and_then (check_upgrade_authority env (ax_upgrade_authority a) (ax_program_data a) authority) (\<lambda>_.
     and_then (require (ou_executable (vx_outside ctx) (ax_remote_leg_program a) \<and> ax_remote_leg_program a \<noteq> ve_id env)
       InvalidDeploymentAuthority) (\<lambda>_.
     and_then (require (ou_owner (vx_outside ctx) (ax_remote_config a) = ax_remote_leg_program a) InvalidDeploymentAuthority) (\<lambda>_.
     and_then (require (ou_data (vx_outside ctx) (ax_remote_config a) \<noteq> []) InvalidDeploymentAuthority) (\<lambda>_.
     and_then (require (ap_administrator params \<noteq> 0 \<and> ap_network_domain params \<noteq> 0) InvalidDeploymentAuthority) (\<lambda>_.
     Inr (s(ax_config a \<mapsto> AuthorityAccount \<lparr>da_version = DEPLOYMENT_PROFILE_VERSION, da_bump = bump,
       da_administrator = ap_administrator params, da_remote_leg_program = ax_remote_leg_program a,
       da_remote_config = ax_remote_config a, da_network_domain = ap_network_domain params,
       da_policy_generation = 0\<rparr>)))))))))"

record register_risk_key_params =
  rp_public_key :: bytes
  rp_not_before :: i64
  rp_not_after :: i64

definition process_register_risk_key ::
  "verifier_env \<Rightarrow> pubkey \<Rightarrow> pubkey \<Rightarrow> pubkey \<Rightarrow> register_risk_key_params \<Rightarrow> vstore \<Rightarrow> verifier_error + vstore" where
  "process_register_risk_key env administrator config_key risk_key params s =
     and_then (load_authority s config_key) (\<lambda>config.
     and_then (init_account env [RISK_KEY_SEED, to_be_bytes config_key, public_key_parity_seed (rp_public_key params),
       public_key_x_seed (rp_public_key params)] risk_key s) (\<lambda>bump.
     and_then (require (da_administrator config = administrator) VUnauthorized) (\<lambda>_.
     and_then (check_public_key (rp_public_key params)) (\<lambda>_.
     and_then (check_key_window (rp_not_before params) (rp_not_after params)) (\<lambda>_.
     Inr (s(risk_key \<mapsto> RiskKeyAccount \<lparr>ri_config = config_key, ri_public_key = rp_public_key params,
       ri_not_before = rp_not_before params, ri_not_after = rp_not_after params, ri_revoked = False, ri_bump = bump\<rparr>)))))))"

definition process_revoke_risk_key :: "pubkey \<Rightarrow> pubkey \<Rightarrow> pubkey \<Rightarrow> vstore \<Rightarrow> verifier_error + vstore" where
  "process_revoke_risk_key administrator config_key risk_key s =
     and_then (load_authority s config_key) (\<lambda>config.
     and_then (load_risk_key s risk_key) (\<lambda>k.
     and_then (require (da_administrator config = administrator) VUnauthorized) (\<lambda>_.
     and_then (require (ri_config k = config_key) VUnauthorized) (\<lambda>_.
     and_then (require (\<not> ri_revoked k) AlreadyRevoked) (\<lambda>_.
     Inr (s(risk_key \<mapsto> RiskKeyAccount (k\<lparr>ri_revoked := True\<rparr>))))))))"

definition process_advance_policy_generation :: "pubkey \<Rightarrow> pubkey \<Rightarrow> vstore \<Rightarrow> verifier_error + vstore" where
  "process_advance_policy_generation administrator config_key s =
     and_then (load_authority s config_key) (\<lambda>config.
     and_then (require (da_administrator config = administrator) VUnauthorized) (\<lambda>_.
     and_then (ok_or (checked_add_word (da_policy_generation config) 1) PolicyGenerationExhausted) (\<lambda>generation.
     Inr (s(config_key \<mapsto> AuthorityAccount (config\<lparr>da_policy_generation := generation\<rparr>))))))"

section \<open>Consuming a deployment approval\<close>

definition MAX_LIFETIME_SECONDS :: i64 where "MAX_LIFETIME_SECONDS = 300"

definition check_times :: "deployment_authorization \<Rightarrow> i64 \<Rightarrow> verifier_error + unit" where
  "check_times message now =
     and_then (ok_or (checked_add_i64 (az_issued_at message) MAX_LIFETIME_SECONDS) InvalidAuthorizationLifetime) (\<lambda>latest_expiry.
     and_then (require (sint (az_issued_at message) < sint (az_expires_at message) \<and>
       sint (az_expires_at message) \<le> sint latest_expiry) InvalidAuthorizationLifetime) (\<lambda>_.
     and_then (ok_or (checked_add_i64 now MAX_ISSUED_AT_SKEW_SECONDS) IssuedInFuture) (\<lambda>latest_issue.
     and_then (require (sint (az_issued_at message) \<le> sint latest_issue) IssuedInFuture) (\<lambda>_.
     require (sint now < sint (az_expires_at message)) Expired))))"

record deployment_accounts =
  dy_payer :: pubkey
  dy_config :: pubkey
  dy_risk_key :: pubkey
  dy_receipt :: pubkey

definition process_consume_deployment_authorization ::
  "verifier_env \<Rightarrow> vcontext \<Rightarrow> deployment_accounts \<Rightarrow> u128 \<Rightarrow> vstore \<Rightarrow> verifier_error + vstore" where
  "process_consume_deployment_authorization env ctx a nonce s =
     and_then (load_authority s (dy_config a)) (\<lambda>config.
     and_then (load_risk_key s (dy_risk_key a)) (\<lambda>k.
     and_then (init_account env [DEPLOYMENT_RECEIPT_SEED, to_be_bytes (dy_config a), to_be_bytes nonce] (dy_receipt a) s) (\<lambda>bump.
     and_then (check_address env [DEPLOYMENT_AUTHORITY_SEED, to_be_bytes (da_remote_leg_program config),
       to_be_bytes (da_remote_config config), [da_bump config]] (dy_config a)) (\<lambda>_.
     and_then (require (ri_config k = dy_config a) VUnauthorized) (\<lambda>_.
     and_then (require (vx_sysvar ctx = ve_instructions_sysvar env) VFramework) (\<lambda>_.
     and_then (load_verified_precompile env (vx_sysvar ctx) (vx_transaction ctx)) (\<lambda>precompile.
     and_then (parse_precompile_data (in_data precompile)) (\<lambda>verified.
     and_then (authorization_decode (vf_signing_input verified)) (\<lambda>message.
     and_then (require (\<not> ri_revoked k) KeyRevoked) (\<lambda>_.
     and_then (require (vf_public_key verified = ri_public_key k) PublicKeyMismatch) (\<lambda>_.
     and_then (require (az_authority message = dy_config a) AuthorityMismatch) (\<lambda>_.
     and_then (require (az_network_domain message = da_network_domain config) NetworkDomainMismatch) (\<lambda>_.
     and_then (require (az_policy_generation message = da_policy_generation config) PolicyGenerationMismatch) (\<lambda>_.
     and_then (require (0 < az_amount message) InvalidAuthorizationAmount) (\<lambda>_.
     and_then (require (az_nonce message = nonce) NonceMismatch) (\<lambda>_.
     and_then (check_times message (vx_now ctx)) (\<lambda>_.
     and_then (require (sint (ri_not_before k) \<le> sint (vx_now ctx) \<and> sint (ri_not_before k) \<le> sint (az_issued_at message) \<and>
       sint (az_expires_at message) \<le> sint (ri_not_after k)) OutsideKeyWindow) (\<lambda>_.
     and_then (check_deployment_follows env (vx_sysvar ctx) (vx_transaction ctx) config (dy_receipt a) (az_amount message)) (\<lambda>_.
     Inr (s(dy_receipt a \<mapsto> ReceiptAccount \<lparr>dc_version = DEPLOYMENT_PROFILE_VERSION, dc_bump = bump, dc_config = dy_config a,
       dc_remote_config = da_remote_config config, dc_risk_key = dy_risk_key a, dc_nonce = nonce,
       dc_deployment_context = az_deployment_context message, dc_amount = az_amount message,
       dc_policy_generation = az_policy_generation message, dc_issued_at = az_issued_at message,
       dc_expires_at = az_expires_at message, dc_consumed_at = vx_now ctx,
       dc_message_hash = ve_sha256 env [vf_signing_input verified]\<rparr>)))))))))))))))))))))"

section \<open>Entry points\<close>

text \<open>The instructions of the program, with the accounts and arguments of each.\<close>

datatype vcall =
    InitializeConfig pubkey pubkey pubkey initialize_config_params
  | RegisterTrustedKey pubkey pubkey pubkey register_trusted_key_params
  | RevokeTrustedKey pubkey pubkey pubkey
  | RegisterMandate pubkey pubkey pubkey register_mandate_params
  | RevokeMandate pubkey pubkey pubkey
  | ConsumeAuthorization consume_accounts bytes32
  | InitializeDeploymentAuthority authority_accounts initialize_authority_params
  | RegisterRiskKey pubkey pubkey pubkey register_risk_key_params
  | RevokeRiskKey pubkey pubkey pubkey
  | AdvancePolicyGeneration pubkey pubkey
  | ConsumeDeploymentAuthorization deployment_accounts u128

text \<open>A compressed key is an array of 33 bytes, so no other length reaches a handler.\<close>

fun key_argument :: "vcall \<Rightarrow> bytes option" where
  "key_argument (RegisterTrustedKey _ _ _ p) = Some (tp_public_key p)"
| "key_argument (RegisterRiskKey _ _ _ p) = Some (rp_public_key p)"
| "key_argument _ = None"

definition arguments_decode :: "vcall \<Rightarrow> bool" where
  "arguments_decode c \<longleftrightarrow> pred_option (\<lambda>k. length k = COMPRESSED_PUBLIC_KEY_LEN) (key_argument c)"

fun process_instruction :: "verifier_env \<Rightarrow> vcontext \<Rightarrow> vcall \<Rightarrow> vstore \<Rightarrow> verifier_error + vstore" where
  "process_instruction env ctx (InitializeConfig u d k p) s = process_initialize_config env ctx u d k p s"
| "process_instruction env ctx (RegisterTrustedKey u c k p) s = process_register_trusted_key env u c k p s"
| "process_instruction env ctx (RevokeTrustedKey u c k) s = process_revoke_trusted_key u c k s"
| "process_instruction env ctx (RegisterMandate u c k p) s = process_register_mandate env u c k p s"
| "process_instruction env ctx (RevokeMandate u c k) s = process_revoke_mandate u c k s"
| "process_instruction env ctx (ConsumeAuthorization a h) s = process_consume_authorization env ctx a h s"
| "process_instruction env ctx (InitializeDeploymentAuthority a p) s = process_initialize_deployment_authority env ctx a p s"
| "process_instruction env ctx (RegisterRiskKey u c k p) s = process_register_risk_key env u c k p s"
| "process_instruction env ctx (RevokeRiskKey u c k) s = process_revoke_risk_key u c k s"
| "process_instruction env ctx (AdvancePolicyGeneration u c) s = process_advance_policy_generation u c s"
| "process_instruction env ctx (ConsumeDeploymentAuthorization a n) s = process_consume_deployment_authorization env ctx a n s"

definition verifier_dispatch :: "verifier_env \<Rightarrow> vcontext \<Rightarrow> vcall \<Rightarrow> vstore \<Rightarrow> verifier_error + vstore" where
  "verifier_dispatch env ctx c s =
     (if arguments_decode c then process_instruction env ctx c s else Inl VFramework)"

end
