(* ===== verification/Auth_Grammar.thy ===== *)
theory Auth_Grammar
  imports Auth_Jwt
begin

text \<open>
  What the JSON reader accepts, as a grammar. \<open>json_text v t\<close> says that the bytes \<open>t\<close> spell the value \<open>v\<close>;
  the reader of an object is shown once, for any visitor that keeps its contract (the locale
  \<open>slot_visitor\<close>), to accept only texts of the grammar, to fill each slot at most once, with the value
  its field has, and its loop to end.
\<close>

declare skip_whitespace.simps [simp del] string_loop.simps [simp del] number_loop.simps [simp del]

section \<open>Grammar\<close>

datatype json = JString bytes | JNumber bytes | JObject "(bytes \<times> json) list"

definition text_byte :: "u8 \<Rightarrow> bool" where
  "text_byte b \<longleftrightarrow> 32 \<le> b \<and> b \<le> 126 \<and> b \<noteq> 34 \<and> b \<noteq> 92"

abbreviation blank :: "bytes \<Rightarrow> bool" where
  "blank w \<equiv> list_all is_whitespace w"

definition quoted :: "bytes \<Rightarrow> bytes" where
  "quoted s = 34 # s @ [34]"

inductive json_text :: "json \<Rightarrow> bytes \<Rightarrow> bool" and members_text :: "(bytes \<times> json) list \<Rightarrow> bytes \<Rightarrow> bool" where
  string_value: "list_all text_byte s \<Longrightarrow> json_text (JString s) (quoted s)"
| number_value: "t \<noteq> [] \<Longrightarrow> list_all is_number_byte t \<Longrightarrow> json_text (JNumber t) t"
| empty_object: "blank w \<Longrightarrow> json_text (JObject []) (123 # w @ [125])"
| filled_object: "members_text ms t \<Longrightarrow> json_text (JObject ms) (123 # t @ [125])"
| last_member: "blank w1 \<Longrightarrow> list_all text_byte k \<Longrightarrow> blank w2 \<Longrightarrow> blank w3 \<Longrightarrow> json_text v t \<Longrightarrow> blank w4 \<Longrightarrow>
    members_text [(k, v)] (w1 @ quoted k @ w2 @ [58] @ w3 @ t @ w4)"
| more_members: "blank w1 \<Longrightarrow> list_all text_byte k \<Longrightarrow> blank w2 \<Longrightarrow> blank w3 \<Longrightarrow> json_text v t \<Longrightarrow> blank w4 \<Longrightarrow>
    members_text ms u \<Longrightarrow> members_text ((k, v) # ms) (w1 @ quoted k @ w2 @ [58] @ w3 @ t @ w4 @ [44] @ u)"

definition document :: "json \<Rightarrow> bytes \<Rightarrow> bool" where
  "document v bs \<longleftrightarrow> (\<exists>w1 t w2. blank w1 \<and> json_text v t \<and> blank w2 \<and> bs = w1 @ t @ w2)"

section \<open>What a step of the cursor reads\<close>

definition rest :: "cursor \<Rightarrow> bytes" where
  "rest c = drop (cu_position c) (cu_bytes c)"

definition cursor_ok :: "cursor \<Rightarrow> bool" where
  "cursor_ok c \<longleftrightarrow> cu_position c \<le> length (cu_bytes c)"

definition reads :: "cursor \<Rightarrow> bytes \<Rightarrow> cursor \<Rightarrow> bool" where
  "reads c t c' \<longleftrightarrow> cu_bytes c' = cu_bytes c \<and> cu_position c' = cu_position c + length t \<and>
     rest c = t @ rest c' \<and> cursor_ok c'"

definition step_by :: "nat \<Rightarrow> cursor \<Rightarrow> cursor" where
  "step_by n c = c\<lparr>cu_position := cu_position c + n\<rparr>"

lemma reads_inside: "reads c t c' \<Longrightarrow> cursor_ok c'"
  by (simp add: reads_def)

lemma reads_trans [trans]: "reads c t c1 \<Longrightarrow> reads c1 u c2 \<Longrightarrow> reads c (t @ u) c2"
  by (simp add: reads_def)

lemma reads_left: "reads c t c' \<Longrightarrow> bytes_left c = length t + bytes_left c'"
  by (auto simp: reads_def bytes_left_def cursor_ok_def)

lemma reads_step:
  assumes "cursor_ok c" "rest c = t @ u"
  shows "reads c t (step_by (length t) c)"
proof -
  have "length (rest c) = length t + length u" using assms(2) by simp
  moreover have "u = drop (length t) (rest c)" using assms(2) by simp
  ultimately show ?thesis
    using assms by (simp add: reads_def step_by_def rest_def cursor_ok_def add.commute)
qed

lemma peek_Some: "peek c = Some b \<longleftrightarrow> (\<exists>u. rest c = b # u)"
proof (cases "cu_position c < length (cu_bytes c)")
  case True
  then show ?thesis by (simp add: peek_def rest_def Cons_nth_drop_Suc [OF True, symmetric])
next
  case False
  then show ?thesis by (simp add: peek_def rest_def)
qed

lemma peek_ok: "peek c = Some b \<Longrightarrow> cursor_ok c"
  by (simp add: peek_def cursor_ok_def split: if_splits)

lemma peek_reads: "peek c = Some b \<Longrightarrow> reads c [b] (step_by 1 c)"
  using reads_step [OF peek_ok, of c b "[b]"] by (auto simp: peek_Some)

lemma step_by_update: "c\<lparr>cu_position := cu_position c + 1\<rparr> = step_by 1 c"
  by (simp add: step_by_def)

lemma advance_Inr: "advance c = Inr (b, c') \<longleftrightarrow> peek c = Some b \<and> c' = step_by 1 c"
  by (auto simp: advance_def and_then_Inr ok_or_Inr step_by_def)

lemma advance_reads: "advance c = Inr (b, c') \<Longrightarrow> reads c [b] c'"
  using peek_reads by (auto simp: advance_Inr)

lemma expect_reads: "expect b c = Inr c' \<Longrightarrow> reads c [b] c'"
  by (auto simp: expect_def and_then_Inr split: if_splits dest: advance_reads)

lemma peek_None: "peek c = None \<longleftrightarrow> rest c = []"
  by (auto simp: peek_def rest_def)

lemma rest_step_by: "rest (step_by n c) = drop n (rest c)"
  by (simp add: rest_def step_by_def add.commute)

lemma step_by_step_by: "step_by n (step_by m c) = step_by (m + n) c"
  by (simp add: step_by_def)

lemma step_by_0 [simp]: "step_by 0 c = c"
  by (simp add: step_by_def)

lemma one_more: "drop 1 (b # u) = u" "1 + n = Suc n"
  by simp_all

lemma scan_takeWhile:
  "skip_whitespace c = step_by (length (takeWhile is_whitespace (rest c))) c"
  "number_loop c = step_by (length (takeWhile is_number_byte (rest c))) c"
proof -
  show "skip_whitespace c = step_by (length (takeWhile is_whitespace (rest c))) c"
  proof (induction c rule: skip_whitespace.induct)
    case (1 c)
    show ?case
    proof (cases "rest c")
      case Nil
      then show ?thesis by (subst skip_whitespace.simps) (simp add: peek_None [THEN iffD2])
    next
      case (Cons b u)
      then have "peek c = Some b" by (simp add: peek_Some)
      with Cons 1 show ?thesis
        by (subst skip_whitespace.simps) (simp add: step_by_update rest_step_by step_by_step_by one_more del: One_nat_def)
    qed
  qed
  show "number_loop c = step_by (length (takeWhile is_number_byte (rest c))) c"
  proof (induction c rule: number_loop.induct)
    case (1 c)
    show ?case
    proof (cases "rest c")
      case Nil
      then show ?thesis by (subst number_loop.simps) (simp add: peek_None [THEN iffD2])
    next
      case (Cons b u)
      then have "peek c = Some b" by (simp add: peek_Some)
      with Cons 1 show ?thesis
        by (subst number_loop.simps) (simp add: step_by_update rest_step_by step_by_step_by one_more del: One_nat_def)
    qed
  qed
qed

lemma reads_scan:
  assumes "cursor_ok c"
  shows "reads c (takeWhile P (rest c)) (step_by (length (takeWhile P (rest c))) c)"
  by (rule reads_step [OF assms, of _ "dropWhile P (rest c)"]) simp

lemma skip_reads:
  assumes "cursor_ok c"
  obtains w where "blank w" "reads c w (skip_whitespace c)"
proof
  show "blank (takeWhile is_whitespace (rest c))" by (auto simp: list_all_iff dest: set_takeWhileD)
  show "reads c (takeWhile is_whitespace (rest c)) (skip_whitespace c)"
    unfolding scan_takeWhile by (rule reads_scan [OF assms])
qed

lemma slice_reads: "reads c t c' \<Longrightarrow> slice (cu_bytes c') (cu_position c) (cu_position c') = Some t"
  by (auto simp: reads_def slice_def rest_def cursor_ok_def)

lemma json_number_reads:
  assumes "json_number c = Inr (t, c')" "cursor_ok c"
  shows "reads c t c'" "json_text (JNumber t) t"
proof -
  let ?t = "takeWhile is_number_byte (rest c)"
  have r: "reads c ?t (number_loop c)" unfolding scan_takeWhile by (rule reads_scan [OF assms(2)])
  then have t: "t = ?t" "c' = number_loop c" "t \<noteq> []"
    using assms(1) slice_reads [OF r] by (auto simp: json_number_def Let_def and_then_Inr split: if_splits)
  show "reads c t c'" using r by (simp add: t(1,2))
  show "json_text (JNumber t) t"
    by (rule number_value [OF t(3)]) (auto simp: t(1) list_all_iff dest: set_takeWhileD)
qed

lemma string_loop_step:
  "peek c = None \<Longrightarrow> string_loop c = Inl MalformedJson"
  "peek c = Some b \<Longrightarrow> string_loop c = (if b = 34 then Inr (step_by 1 c)
     else if text_byte b then string_loop (step_by 1 c) else Inl MalformedJson)"
  by (subst string_loop.simps, simp add: Let_def step_by_def text_byte_def)+

lemma string_loop_reads:
  "string_loop c = Inr c' \<Longrightarrow> \<exists>s. list_all text_byte s \<and> reads c (s @ [34]) c'"
proof (induction "bytes_left c" arbitrary: c rule: less_induct)
  case less
  obtain b where b: "peek c = Some b" using less.prems string_loop_step(1) by (cases "peek c") auto
  note step = string_loop_step(2) [OF b]
  show ?case
  proof (cases "b = 34")
    case True
    then show ?thesis using peek_reads [OF b] step less.prems by (intro exI [of _ "[]"]) simp
  next
    case False
    with step less.prems have byte: "text_byte b" and more: "string_loop (step_by 1 c) = Inr c'"
      by (simp_all split: if_splits)
    have "bytes_left (step_by 1 c) < bytes_left c" using reads_left [OF peek_reads [OF b]] by simp
    from less.hyps [OF this more] obtain s where "list_all text_byte s" "reads (step_by 1 c) (s @ [34]) c'" by blast
    then show ?thesis using byte reads_trans [OF peek_reads [OF b]] by (intro exI [of _ "b # s"]) auto
  qed
qed

lemma json_string_reads:
  assumes "json_string c = Inr (s, c')"
  shows "reads c (quoted s) c'" "list_all text_byte s"
proof -
  have quote: "peek c = Some 34" and loop: "string_loop (step_by 1 c) = Inr c'"
    and slice: "slice (cu_bytes c') (cu_position (step_by 1 c)) (cu_position c' - 1) = Some s"
    using assms by (auto simp: json_string_def and_then_Inr advance_Inr ok_or_Inr Let_def split: if_splits)
  obtain u where u: "list_all text_byte u" "reads (step_by 1 c) (u @ [34]) c'"
    using string_loop_reads [OF loop] by blast
  have "s = u" using slice u(2) by (auto simp: slice_def reads_def rest_def split: if_splits)
  then show "reads c (quoted s) c'" "list_all text_byte s"
    using reads_trans [OF peek_reads [OF quote] u(2)] u(1) by (simp_all add: quoted_def)
qed

section \<open>Objects\<close>

text \<open>
  The rounds of the loop over the fields of an object, without fuel: it fails in a round, or its last round
  reads the closing brace, or it continues after a comma. A loop that goes on forever has no derivation. The
  number counts the rounds.
\<close>

inductive object_ends :: "'s visitor \<Rightarrow> cursor \<Rightarrow> 's \<Rightarrow> verifier_error + cursor \<times> 's \<Rightarrow> nat \<Rightarrow> bool" for visit where
  fails: "object_round visit c s = Inl e \<Longrightarrow> object_ends visit c s (Inl e) 1"
| closes: "object_round visit c s = Inr (False, c', s') \<Longrightarrow> object_ends visit c s (Inr (c', s')) 1"
| continues: "object_round visit c s = Inr (True, c', s') \<Longrightarrow> object_ends visit c' s' r n \<Longrightarrow>
    object_ends visit c s r (Suc n)"

lemma object_ends_determined: "object_ends visit c s r n \<Longrightarrow> object_ends visit c s r' n' \<Longrightarrow> r' = r"
proof (induction arbitrary: r' n' rule: object_ends.induct)
  case (fails c s e)
  from fails.prems show ?case by (cases rule: object_ends.cases) (simp_all add: fails.hyps)
next
  case (closes c s c' s')
  from closes.prems show ?case by (cases rule: object_ends.cases) (simp_all add: closes.hyps)
next
  case (continues c s c' s' r n)
  from continues.prems show ?case
    by (cases rule: object_ends.cases) (simp_all add: continues.hyps continues.IH)
qed

definition ends_with :: "'s visitor \<Rightarrow> cursor \<Rightarrow> 's \<Rightarrow> verifier_error + cursor \<times> 's \<Rightarrow> bool" where
  "ends_with visit c s r \<longleftrightarrow> (\<exists>k \<le> max 1 (bytes_left c). object_ends visit c s r k) \<and>
     (\<forall>r' k. object_ends visit c s r' k \<longrightarrow> r' = r)"

text \<open>
  The contract of a visitor. It may only be called on a cursor inside the document; it then reads
  exactly the text of one value, after blanks, refuses a field whose slot is taken, and puts what it read into
  that slot. \<open>view\<close> is the content of the slots by field name, \<open>reading v x\<close> says that \<open>x\<close> is what the
  value \<open>v\<close> means.
\<close>

lemma members_blank:
  assumes "members_text ms t" "blank u"
  shows "members_text ms (u @ t)"
  using assms(1)
proof (cases rule: members_text.cases)
  case (last_member w1 k w2 w3 v t' w4)
  with assms(2) have "blank (u @ w1)" by simp
  from json_text_members_text.last_member [OF this last_member(4-8)] show ?thesis by (simp add: last_member(1,2))
next
  case (more_members w1 k w2 w3 v t' w4 ms' u')
  with assms(2) have "blank (u @ w1)" by simp
  from json_text_members_text.more_members [OF this more_members(4-9)] show ?thesis by (simp add: more_members(1,2))
qed

locale slot_visitor =
  fixes visit :: "'s visitor"
    and view :: "'s \<Rightarrow> bytes \<rightharpoonup> 'x"
    and reading :: "json \<Rightarrow> 'x \<Rightarrow> bool"
  assumes visit_reads: "visit c key s = Inr (c', s') \<Longrightarrow> cursor_ok c \<Longrightarrow>
    \<exists>v w t x. blank w \<and> reads c (w @ t) c' \<and> json_text v t \<and> reading v x \<and> view s key = None \<and>
      view s' = (view s)(key \<mapsto> x)"
begin

definition filled :: "(bytes \<times> json) list \<Rightarrow> 's \<Rightarrow> 's \<Rightarrow> bool" where
  "filled ms s s' \<longleftrightarrow> distinct (map fst ms) \<and> (\<forall>k \<in> set (map fst ms). view s k = None) \<and>
     dom (view s') = dom (view s) \<union> set (map fst ms) \<and>
     (\<forall>k. k \<notin> set (map fst ms) \<longrightarrow> view s' k = view s k) \<and>
     (\<forall>k v. map_of ms k = Some v \<longrightarrow> (\<exists>x. view s' k = Some x \<and> reading v x))"

lemma filled_one:
  assumes "view s key = None" "view s' = (view s)(key \<mapsto> x)" "reading v x"
  shows "filled [(key, v)] s s'"
  using assms by (auto simp: filled_def)

lemma filled_Cons:
  assumes "view s key = None" "view s1 = (view s)(key \<mapsto> x)" "reading v x" "filled ms s1 s'"
  shows "filled ((key, v) # ms) s s'"
proof -
  have new: "key \<notin> set (map fst ms)" using assms(2,4) by (auto simp: filled_def)
  then have "view s' key = Some x" using assms(2,4) by (simp add: filled_def)
  then show ?thesis using assms new by (auto simp: filled_def split: if_splits)
qed

lemma filled_lookup:
  assumes "filled ms s s'" "view s = Map.empty" "view s' k = Some x"
  shows "\<exists>v. map_of ms k = Some v \<and> reading v x"
proof -
  have "k \<in> set (map fst ms)" using assms by (auto simp: filled_def)
  then obtain v where v: "map_of ms k = Some v" using map_of_eq_None_iff [of ms k] by (cases "map_of ms k") auto
  with assms(1) have "\<exists>x. view s' k = Some x \<and> reading v x" unfolding filled_def by blast
  with assms(3) v show ?thesis by auto
qed

text \<open>One round of the loop, up to the byte after the value.\<close>

lemma round_reads:
  assumes "cursor_ok c"
    and "json_string (skip_whitespace c) = Inr (key, c1)" "expect 58 (skip_whitespace c1) = Inr c2"
    and "visit (skip_whitespace c2) key s = Inr (c3, s1)" "advance (skip_whitespace c3) = Inr (b, c4)"
  obtains w1 w2 w3 w4 v t x where "reads c (w1 @ quoted key @ w2 @ [58] @ w3 @ t @ w4 @ [b]) c4"
    "blank w1" "blank w2" "blank w3" "blank w4" "list_all text_byte key" "json_text v t" "reading v x"
    "view s key = None" "view s1 = (view s)(key \<mapsto> x)"
proof -
  obtain w1 where w1: "blank w1" "reads c w1 (skip_whitespace c)" using assms(1) by (rule skip_reads)
  note k = json_string_reads [OF assms(2)]
  obtain w2 where w2: "blank w2" "reads c1 w2 (skip_whitespace c1)" using reads_inside [OF k(1)] by (rule skip_reads)
  note colon = expect_reads [OF assms(3)]
  obtain w3 where w3: "blank w3" "reads c2 w3 (skip_whitespace c2)" using reads_inside [OF colon] by (rule skip_reads)
  obtain v w t x where v: "reads (skip_whitespace c2) (w @ t) c3" "json_text v t" "reading v x" "view s key = None"
    "view s1 = (view s)(key \<mapsto> x)" "blank w"
    using visit_reads [OF assms(4) reads_inside [OF w3(2)]] by blast
  obtain w4 where w4: "blank w4" "reads c3 w4 (skip_whitespace c3)" using reads_inside [OF v(1)] by (rule skip_reads)
  have "reads c (w1 @ quoted key @ w2 @ [58] @ (w3 @ w) @ t @ w4 @ [b]) c4"
    using reads_trans [OF w1(2) reads_trans [OF k(1) reads_trans [OF w2(2) reads_trans [OF colon
            reads_trans [OF w3(2) reads_trans [OF v(1) reads_trans [OF w4(2) advance_reads [OF assms(5)]]]]]]]]
    by simp
  moreover have "blank (w3 @ w)" using w3(1) v(6) by simp
  ultimately show thesis using w1(1) w2(1) w4(1) k(2) v(2-5) that by blast
qed

lemma object_loop_reads:
  "object_loop n visit c s = Inr (c', s') \<Longrightarrow> cursor_ok c \<Longrightarrow>
   \<exists>ms t. members_text ms t \<and> reads c (t @ [125]) c' \<and> filled ms s s'"
proof (induction n arbitrary: c s)
  case (Suc n)
  obtain key c1 c2 c3 s1 b c4 where r: "json_string (skip_whitespace c) = Inr (key, c1)"
    "expect 58 (skip_whitespace c1) = Inr c2" "visit (skip_whitespace c2) key s = Inr (c3, s1)"
    "advance (skip_whitespace c3) = Inr (b, c4)"
    and cont: "(if b = 44 then object_loop n visit c4 s1 else if b = 125 then Inr (c4, s1) else Inl MalformedJson) = Inr (c', s')"
    using Suc.prems(1) by (auto simp: object_round_def Let_def and_then_Inr split: if_splits)
  obtain w1 w2 w3 w4 v t x where t: "reads c (w1 @ quoted key @ w2 @ [58] @ w3 @ t @ w4 @ [b]) c4"
    "blank w1" "blank w2" "blank w3" "blank w4" "list_all text_byte key" "json_text v t" "reading v x"
    "view s key = None" "view s1 = (view s)(key \<mapsto> x)"
    by (rule round_reads [OF Suc.prems(2) r])
  show ?case
  proof (cases "b = 44")
    case True
    then obtain ms u where u: "members_text ms u" "reads c4 (u @ [125]) c'" "filled ms s1 s'"
      using Suc.IH [OF _ reads_inside [OF t(1)], of s1] cont by auto
    have "members_text ((key, v) # ms) (w1 @ quoted key @ w2 @ [58] @ w3 @ t @ w4 @ [44] @ u)"
      by (rule more_members [OF t(2,6,3,4,7,5) u(1)])
    moreover have "reads c ((w1 @ quoted key @ w2 @ [58] @ w3 @ t @ w4 @ [44] @ u) @ [125]) c'"
      using reads_trans [OF t(1) u(2)] True by simp
    ultimately show ?thesis using filled_Cons [OF t(9,10,8) u(3)] by blast
  next
    case False
    then have e: "b = 125" "c' = c4" "s' = s1" using cont by (auto split: if_splits)
    have "members_text [(key, v)] (w1 @ quoted key @ w2 @ [58] @ w3 @ t @ w4)"
      by (rule last_member [OF t(2,6,3,4,7,5)])
    moreover have "reads c ((w1 @ quoted key @ w2 @ [58] @ w3 @ t @ w4) @ [125]) c'" using t(1) e by simp
    ultimately show ?thesis using filled_one [OF t(9,10,8)] e by blast
  qed
qed simp

lemma object_reads:
  assumes "object visit c s = Inr (c', s')" "cursor_ok c"
  obtains ms w t where "json_text (JObject ms) t" "blank w" "reads c (w @ t) c'" "filled ms s s'"
proof -
  obtain w where w: "blank w" "reads c w (skip_whitespace c)" using assms(2) by (rule skip_reads)
  obtain c1 where c1: "expect 123 (skip_whitespace c) = Inr c1"
    and body: "(if peek (skip_whitespace c1) = Some 125 then and_then (advance (skip_whitespace c1)) (\<lambda>(_, c). Inr (c, s))
      else object_loop (bytes_left (skip_whitespace c1)) visit (skip_whitespace c1) s) = Inr (c', s')"
    using assms(1) by (auto simp: object_def and_then_Inr Let_def)
  obtain u where u: "blank u" "reads c1 u (skip_whitespace c1)" using reads_inside [OF expect_reads [OF c1]] by (rule skip_reads)
  note start = reads_trans [OF w(2) reads_trans [OF expect_reads [OF c1] u(2)]]
  show thesis
  proof (cases "peek (skip_whitespace c1) = Some 125")
    case True
    then have "reads (skip_whitespace c1) [125] c'" and "s' = s"
      using body peek_reads [OF True] by (auto simp: and_then_Inr advance_Inr)
    then have "reads c (w @ 123 # u @ [125]) c'" "filled [] s s'"
      using reads_trans [OF start] by (auto simp: filled_def)
    with empty_object [OF u(1)] w(1) show thesis by (rule that)
  next
    case False
    then have "object_loop (bytes_left (skip_whitespace c1)) visit (skip_whitespace c1) s = Inr (c', s')"
      using body by simp
    from object_loop_reads [OF this reads_inside [OF u(2)]]
    obtain ms t where t: "members_text ms t" "reads (skip_whitespace c1) (t @ [125]) c'" "filled ms s s'" by blast
    have "reads c (w @ 123 # (u @ t) @ [125]) c'" using reads_trans [OF start t(2)] by simp
    with filled_object [OF members_blank [OF t(1) u(1)]] w(1) show thesis using t(3) by (rule that)
  qed
qed

text \<open>
  The loop ends by itself: a round that continues has read bytes, so that no more rounds run than bytes were
  left, and the model's loop returns what the last round gives.
\<close>

lemma object_round_progress:
  assumes "object_round visit c s = Inr (again, c', s')" "cursor_ok c"
  shows "cursor_ok c' \<and> bytes_left c' + 3 \<le> bytes_left c"
proof -
  obtain key c1 c2 c3 b where r: "json_string (skip_whitespace c) = Inr (key, c1)"
    "expect 58 (skip_whitespace c1) = Inr c2" "visit (skip_whitespace c2) key s = Inr (c3, s')"
    "advance (skip_whitespace c3) = Inr (b, c')"
    using assms(1) by (auto simp: object_round_def Let_def and_then_Inr split: if_splits)
  obtain w1 w2 w3 w4 v t x where t: "reads c (w1 @ quoted key @ w2 @ [58] @ w3 @ t @ w4 @ [b]) c'"
    by (rule round_reads [OF assms(2) r])
  show ?thesis using reads_left [OF t] reads_inside [OF t] by (simp add: quoted_def)
qed

lemma round_without_bytes: "bytes_left c = 0 \<Longrightarrow> object_round visit c s = Inl MalformedJson"
  by (simp add: object_round_def Let_def scan_takeWhile rest_def bytes_left_def peek_def)

lemma loop_ends:
  "cursor_ok c \<Longrightarrow> bytes_left c \<le> n \<Longrightarrow>
   \<exists>k \<le> max 1 (bytes_left c). object_ends visit c s (object_loop n visit c s) k"
proof (induction n arbitrary: c s)
  case 0
  then show ?case using object_ends.fails [OF round_without_bytes] by auto
next
  case (Suc n)
  show ?case
  proof (cases "object_round visit c s")
    case (Inl e)
    then show ?thesis using object_ends.fails by (intro exI [of _ 1]) simp
  next
    case (Inr x)
    obtain again c' s' where x: "x = (again, c', s')" by (cases x)
    note step = object_round_progress [OF Inr [unfolded x] Suc.prems(1)]
    show ?thesis
    proof (cases again)
      case True
      obtain k where "k \<le> max 1 (bytes_left c')" "object_ends visit c' s' (object_loop n visit c' s') k"
        using Suc.IH [of c' s'] step Suc.prems(2) by auto
      then show ?thesis
        using object_ends.continues [of visit c s c' s'] Inr x True step by (intro exI [of _ "Suc k"]) auto
    next
      case False
      then show ?thesis using object_ends.closes [of visit c s c' s'] Inr x by (intro exI [of _ 1]) simp
    qed
  qed
qed

lemma loop_ends_with:
  assumes "cursor_ok c"
  shows "ends_with visit c s (object_loop (bytes_left c) visit c s)"
proof -
  obtain k where k: "k \<le> max 1 (bytes_left c)" "object_ends visit c s (object_loop (bytes_left c) visit c s) k"
    using loop_ends [OF assms order_refl] by blast
  show ?thesis
    unfolding ends_with_def
  proof (intro conjI exI [of _ k] allI impI k)
    fix r' k' assume "object_ends visit c s r' k'"
    then show "r' = object_loop (bytes_left c) visit c s" by (rule object_ends_determined [OF k(2)])
  qed
qed

end

section \<open>Header, request and claims\<close>

datatype field_value = FText bytes | FTime i64 | FAmount u64 | FRequest request

lemma fill_Inr: "fill slot read = Inr (v, c) \<longleftrightarrow> slot = None \<and> (\<exists>x. read = Inr (x, c) \<and> v = Some x)"
  by (auto simp: fill_def and_then_Inr)

lemma ascii_inject [simp]: "ascii_bytes a = ascii_bytes b \<longleftrightarrow> a = b"
proof -
  have "inj (of_char :: char \<Rightarrow> u8)"
  proof (rule injI)
    fix x y :: char
    assume "(of_char x :: u8) = of_char y"
    then have "word_of_nat (of_char x) = (word_of_nat (of_char y) :: u8)" by (simp only: of_nat_of_char)
    then have "unat (word_of_nat (of_char x) :: u8) = unat (word_of_nat (of_char y) :: u8)" by (simp only:)
    then have "(of_char x :: nat) mod 256 = of_char y mod 256" by (simp add: unat_of_nat del: of_nat_of_char)
    then show "x = y" using nat_of_char_less_256 [of x] nat_of_char_less_256 [of y] by simp
  qed
  then show ?thesis by (simp add: ascii_bytes_def inj_map_eq_map)
qed

primrec text_reading :: "json \<Rightarrow> field_value \<Rightarrow> bool" where
  "text_reading (JString t) x \<longleftrightarrow> x = FText t"
| "text_reading (JNumber t) x \<longleftrightarrow> False"
| "text_reading (JObject ms) x \<longleftrightarrow> False"

definition header_view :: "header_slots \<Rightarrow> bytes \<rightharpoonup> field_value" where
  "header_view s = (\<lambda>k. None)(ascii_bytes ''alg'' := map_option FText (hs_alg s),
     ascii_bytes ''kid'' := map_option FText (hs_kid s), ascii_bytes ''typ'' := map_option FText (hs_typ s))"

text \<open>One value of the grammar was read, and this is what it means.\<close>

definition one_value :: "(json \<Rightarrow> 'x \<Rightarrow> bool) \<Rightarrow> cursor \<Rightarrow> cursor \<Rightarrow> 'x \<Rightarrow> bool" where
  "one_value reading c c' x \<longleftrightarrow> (\<exists>v w t. blank w \<and> reads c (w @ t) c' \<and> json_text v t \<and> reading v x)"

lemma slot_visitorI:
  assumes "\<And>c key s c' s'. visit c key s = Inr (c', s') \<Longrightarrow> cursor_ok c \<Longrightarrow>
    \<exists>x. one_value reading c c' x \<and> view s key = None \<and> view s' = (view s)(key \<mapsto> x)"
  shows "slot_visitor visit view reading"
  by unfold_locales (use assms in \<open>fastforce simp: one_value_def\<close>)

lemma string_field:
  assumes "json_string c = Inr (s, c')" "\<And>s. reading (JString s) (FText s)"
  shows "one_value reading c c' (FText s)"
  unfolding one_value_def
  by (intro exI [of _ "JString s"] exI [of _ "[]"] exI [of _ "quoted s"])
    (use json_string_reads [OF assms(1)] string_value assms(2) in simp)

interpretation header: slot_visitor header_visit header_view text_reading
  by (rule slot_visitorI)
    (auto simp: header_visit_def and_then_Inr fill_Inr header_view_def fun_eq_iff dest!: string_field [where reading = text_reading]
      split: if_splits)

text \<open>The request object inside the claims.\<close>

definition REQUEST_KEYS :: "bytes set" where
  "REQUEST_KEYS = set (map ascii_bytes [''agent'', ''amount'', ''currency'', ''recipient'', ''category''])"

definition text_field :: "(bytes \<times> json) list \<Rightarrow> string \<Rightarrow> bytes \<Rightarrow> bool" where
  "text_field ms key s \<longleftrightarrow> map_of ms (ascii_bytes key) = Some (JString s)"

definition number_field :: "(bytes \<times> json) list \<Rightarrow> string \<Rightarrow> (bytes \<Rightarrow> verifier_error + 'n) \<Rightarrow> 'n \<Rightarrow> bool" where
  "number_field ms key parse n \<longleftrightarrow> (\<exists>t. map_of ms (ascii_bytes key) = Some (JNumber t) \<and> parse t = Inr n)"

definition in_bounds :: "bytes \<Rightarrow> nat \<Rightarrow> bool" where
  "in_bounds s n \<longleftrightarrow> s \<noteq> [] \<and> length s \<le> n"

lemma bounded_Inr: "bounded s n = Inr s' \<longleftrightarrow> s' = s \<and> in_bounds s n"
  by (auto simp: bounded_def in_bounds_def)

definition request_object :: "(bytes \<times> json) list \<Rightarrow> request \<Rightarrow> bool" where
  "request_object rs r \<longleftrightarrow> distinct (map fst rs) \<and> set (map fst rs) = REQUEST_KEYS \<and>
     text_field rs ''agent'' (rq_agent r) \<and> in_bounds (rq_agent r) MAX_AGENT_LEN \<and>
     number_field rs ''amount'' parse_amount_micros (rq_amount_micros r) \<and>
     text_field rs ''currency'' (rq_currency r) \<and> in_bounds (rq_currency r) MAX_CURRENCY_LEN \<and>
     text_field rs ''recipient'' (rq_recipient r) \<and> in_bounds (rq_recipient r) MAX_RECIPIENT_LEN \<and>
     text_field rs ''category'' (rq_category r) \<and> in_bounds (rq_category r) MAX_CATEGORY_LEN"

primrec request_reading :: "json \<Rightarrow> field_value \<Rightarrow> bool" where
  "request_reading (JString t) x \<longleftrightarrow> x = FText t"
| "request_reading (JNumber t) x \<longleftrightarrow> (\<exists>n. parse_amount_micros t = Inr n \<and> x = FAmount n)"
| "request_reading (JObject ms) x \<longleftrightarrow> False"

definition request_view :: "request_slots \<Rightarrow> bytes \<rightharpoonup> field_value" where
  "request_view s = (\<lambda>k. None)(ascii_bytes ''agent'' := map_option FText (qs_agent s),
     ascii_bytes ''amount'' := map_option FAmount (qs_amount s),
     ascii_bytes ''currency'' := map_option FText (qs_currency s),
     ascii_bytes ''recipient'' := map_option FText (qs_recipient s),
     ascii_bytes ''category'' := map_option FText (qs_category s))"

lemma amount_field:
  assumes "read_amount c = Inr (n, c')" "cursor_ok c"
  shows "one_value request_reading c c' (FAmount n)"
proof -
  obtain t where t: "json_number c = Inr (t, c')" "parse_amount_micros t = Inr n"
    using assms(1) by (auto simp: read_amount_def and_then_Inr)
  show ?thesis unfolding one_value_def
    by (intro exI [of _ "JNumber t"] exI [of _ "[]"] exI [of _ t]) (use json_number_reads [OF t(1) assms(2)] t(2) in simp)
qed

interpretation request: slot_visitor request_visit request_view request_reading
  by (rule slot_visitorI)
    (auto simp: request_visit_def and_then_Inr fill_Inr request_view_def fun_eq_iff
      dest!: string_field [where reading = request_reading] amount_field split: if_splits)

lemma parse_request_reads:
  assumes "parse_request c = Inr (r, c')" "cursor_ok c"
  obtains rs w t where "json_text (JObject rs) t" "blank w" "reads c (w @ t) c'" "request_object rs r"
proof -
  let ?s0 = "\<lparr>qs_agent = None, qs_amount = None, qs_currency = None, qs_recipient = None, qs_category = None\<rparr>"
  obtain s where run: "object request_visit c ?s0 = Inr (c', s)"
    and slots: "qs_agent s = Some (rq_agent r)" "qs_amount s = Some (rq_amount_micros r)"
      "qs_currency s = Some (rq_currency r)" "qs_recipient s = Some (rq_recipient r)" "qs_category s = Some (rq_category r)"
    and bounds: "in_bounds (rq_agent r) MAX_AGENT_LEN" "in_bounds (rq_currency r) MAX_CURRENCY_LEN"
      "in_bounds (rq_recipient r) MAX_RECIPIENT_LEN" "in_bounds (rq_category r) MAX_CATEGORY_LEN"
    using assms(1) by (auto simp: parse_request_def and_then_Inr required_def ok_or_Inr bounded_Inr)
  obtain rs w t where t: "json_text (JObject rs) t" "blank w" "reads c (w @ t) c'" and f: "request.filled rs ?s0 s"
    by (rule request.object_reads [OF run assms(2)])
  have empty: "request_view ?s0 = Map.empty" by (simp add: request_view_def fun_eq_iff)
  note look = request.filled_lookup [OF f empty]
  have view: "request_view s (ascii_bytes ''agent'') = Some (FText (rq_agent r))"
    "request_view s (ascii_bytes ''amount'') = Some (FAmount (rq_amount_micros r))"
    "request_view s (ascii_bytes ''currency'') = Some (FText (rq_currency r))"
    "request_view s (ascii_bytes ''recipient'') = Some (FText (rq_recipient r))"
    "request_view s (ascii_bytes ''category'') = Some (FText (rq_category r))"
    by (simp_all add: request_view_def slots)
  have strings: "request_reading v (FText u) \<longleftrightarrow> v = JString u" for v u by (cases v) auto
  have amount: "request_reading v (FAmount n) \<longleftrightarrow> (\<exists>t. v = JNumber t \<and> parse_amount_micros t = Inr n)" for v n by (cases v) auto
  have "dom (request_view s) = REQUEST_KEYS"
    by (auto simp: request_view_def REQUEST_KEYS_def slots split: if_splits)
  then have "distinct (map fst rs)" "set (map fst rs) = REQUEST_KEYS"
    using f by (auto simp: request.filled_def empty)
  then have "request_object rs r"
    using look [OF view(1)] look [OF view(2)] look [OF view(3)] look [OF view(4)] look [OF view(5)] bounds
    by (simp add: request_object_def text_field_def number_field_def strings amount) blast
  with t show thesis by (rule that)
qed

text \<open>The claims.\<close>

definition CLAIM_KEYS :: "bytes set" where
  "CLAIM_KEYS = set (map ascii_bytes [''iss'', ''jti'', ''iat'', ''exp'', ''verdict'', ''mandate'', ''policy_version'',
     ''nonce'', ''request''])"

definition claims_object :: "(bytes \<times> json) list \<Rightarrow> claims \<Rightarrow> bool" where
  "claims_object ms c \<longleftrightarrow> distinct (map fst ms) \<and> set (map fst ms) = CLAIM_KEYS \<and>
     text_field ms ''iss'' (cl_iss c) \<and>
     text_field ms ''jti'' (cl_jti c) \<and> in_bounds (cl_jti c) MAX_JTI_LEN \<and>
     number_field ms ''iat'' parse_timestamp (cl_iat c) \<and> number_field ms ''exp'' parse_timestamp (cl_exp c) \<and>
     text_field ms ''verdict'' (cl_verdict c) \<and>
     text_field ms ''mandate'' (cl_mandate c) \<and> in_bounds (cl_mandate c) MAX_MANDATE_LEN \<and>
     text_field ms ''policy_version'' (cl_policy_version c) \<and> in_bounds (cl_policy_version c) MAX_POLICY_LEN \<and>
     text_field ms ''nonce'' (cl_nonce c) \<and> in_bounds (cl_nonce c) MAX_NONCE_LEN \<and>
     (\<exists>rs. map_of ms (ascii_bytes ''request'') = Some (JObject rs) \<and> request_object rs (cl_request c))"

primrec claims_reading :: "json \<Rightarrow> field_value \<Rightarrow> bool" where
  "claims_reading (JString t) x \<longleftrightarrow> x = FText t"
| "claims_reading (JNumber t) x \<longleftrightarrow> (\<exists>n. parse_timestamp t = Inr n \<and> x = FTime n)"
| "claims_reading (JObject rs) x \<longleftrightarrow> (\<exists>r. request_object rs r \<and> x = FRequest r)"

definition claims_view :: "claims_slots \<Rightarrow> bytes \<rightharpoonup> field_value" where
  "claims_view s = (\<lambda>k. None)(ascii_bytes ''iss'' := map_option FText (cs_iss s),
     ascii_bytes ''jti'' := map_option FText (cs_jti s), ascii_bytes ''iat'' := map_option FTime (cs_iat s),
     ascii_bytes ''exp'' := map_option FTime (cs_exp s), ascii_bytes ''verdict'' := map_option FText (cs_verdict s),
     ascii_bytes ''mandate'' := map_option FText (cs_mandate s),
     ascii_bytes ''policy_version'' := map_option FText (cs_policy_version s),
     ascii_bytes ''nonce'' := map_option FText (cs_nonce s), ascii_bytes ''request'' := map_option FRequest (cs_request s))"

lemma timestamp_field:
  assumes "read_timestamp c = Inr (n, c')" "cursor_ok c"
  shows "one_value claims_reading c c' (FTime n)"
proof -
  obtain t where t: "json_number c = Inr (t, c')" "parse_timestamp t = Inr n"
    using assms(1) by (auto simp: read_timestamp_def and_then_Inr)
  show ?thesis unfolding one_value_def
    by (intro exI [of _ "JNumber t"] exI [of _ "[]"] exI [of _ t]) (use json_number_reads [OF t(1) assms(2)] t(2) in simp)
qed

lemma request_field:
  assumes "parse_request c = Inr (r, c')" "cursor_ok c"
  shows "one_value claims_reading c c' (FRequest r)"
proof -
  obtain rs w t where "json_text (JObject rs) t" "blank w" "reads c (w @ t) c'" "request_object rs r"
    by (rule parse_request_reads [OF assms])
  then show ?thesis unfolding one_value_def by (intro exI [of _ "JObject rs"] exI [of _ w] exI [of _ t]) auto
qed

interpretation claims: slot_visitor claims_visit claims_view claims_reading
  by (rule slot_visitorI)
    (auto simp: claims_visit_def and_then_Inr fill_Inr claims_view_def fun_eq_iff
      dest!: string_field [where reading = claims_reading] timestamp_field request_field split: if_splits)

lemma finish_blank:
  assumes "cursor_finish c = Inr c'" "cursor_ok c"
  shows "blank (rest c)"
proof -
  have "cu_position c + length (takeWhile is_whitespace (rest c)) = length (cu_bytes c)"
    using assms(1) by (simp add: cursor_finish_def Let_def scan_takeWhile step_by_def split: if_splits)
  then have "length (takeWhile is_whitespace (rest c)) = length (rest c)"
    using assms(2) by (simp add: rest_def cursor_ok_def)
  then have "takeWhile is_whitespace (rest c) = rest c"
    by (metis append_Nil2 append_eq_conv_conj length_0_conv takeWhile_dropWhile_id)
  then show ?thesis by (simp add: takeWhile_eq_all_conv list_all_iff)
qed

lemma document_reads:
  assumes "reads (cursor_new bs) (w @ t) c" "blank w" "json_text v t" "cursor_finish c = Inr c'"
  shows "document v bs"
proof -
  have "rest (cursor_new bs) = bs" by (simp add: rest_def cursor_new_def)
  then have "bs = w @ t @ rest c" using assms(1) by (simp add: reads_def)
  with assms(2,3) finish_blank [OF assms(4) reads_inside [OF assms(1)]] show ?thesis unfolding document_def by blast
qed

lemma cursor_new_ok [simp]: "cursor_ok (cursor_new bs)"
  by (simp add: cursor_ok_def cursor_new_def)

lemma parse_claims_reads:
  assumes "parse_claims bs = Inr c"
  shows "\<exists>ms. document (JObject ms) bs \<and> claims_object ms c"
proof -
  let ?s0 = "\<lparr>cs_iss = None, cs_jti = None, cs_iat = None, cs_exp = None, cs_verdict = None, cs_mandate = None,
    cs_policy_version = None, cs_nonce = None, cs_request = None\<rparr>"
  obtain s k k' where run: "object claims_visit (cursor_new bs) ?s0 = Inr (k, s)" and fin: "cursor_finish k = Inr k'"
    and slots: "cs_iss s = Some (cl_iss c)" "cs_jti s = Some (cl_jti c)" "cs_iat s = Some (cl_iat c)"
      "cs_exp s = Some (cl_exp c)" "cs_verdict s = Some (cl_verdict c)" "cs_mandate s = Some (cl_mandate c)"
      "cs_policy_version s = Some (cl_policy_version c)" "cs_nonce s = Some (cl_nonce c)"
      "cs_request s = Some (cl_request c)"
    and bounds: "in_bounds (cl_jti c) MAX_JTI_LEN" "in_bounds (cl_mandate c) MAX_MANDATE_LEN"
      "in_bounds (cl_policy_version c) MAX_POLICY_LEN" "in_bounds (cl_nonce c) MAX_NONCE_LEN"
    using assms by (auto simp: parse_claims_def and_then_Inr required_def ok_or_Inr bounded_Inr)
  obtain ms w t where t: "json_text (JObject ms) t" "blank w" "reads (cursor_new bs) (w @ t) k" and f: "claims.filled ms ?s0 s"
    by (rule claims.object_reads [OF run cursor_new_ok])
  have empty: "claims_view ?s0 = Map.empty" by (simp add: claims_view_def fun_eq_iff)
  note look = claims.filled_lookup [OF f empty]
  have view: "claims_view s (ascii_bytes ''iss'') = Some (FText (cl_iss c))"
    "claims_view s (ascii_bytes ''jti'') = Some (FText (cl_jti c))"
    "claims_view s (ascii_bytes ''iat'') = Some (FTime (cl_iat c))"
    "claims_view s (ascii_bytes ''exp'') = Some (FTime (cl_exp c))"
    "claims_view s (ascii_bytes ''verdict'') = Some (FText (cl_verdict c))"
    "claims_view s (ascii_bytes ''mandate'') = Some (FText (cl_mandate c))"
    "claims_view s (ascii_bytes ''policy_version'') = Some (FText (cl_policy_version c))"
    "claims_view s (ascii_bytes ''nonce'') = Some (FText (cl_nonce c))"
    "claims_view s (ascii_bytes ''request'') = Some (FRequest (cl_request c))"
    by (simp_all add: claims_view_def slots)
  have strings: "claims_reading v (FText u) \<longleftrightarrow> v = JString u" for v u by (cases v) auto
  have times: "claims_reading v (FTime n) \<longleftrightarrow> (\<exists>t. v = JNumber t \<and> parse_timestamp t = Inr n)" for v n by (cases v) auto
  have requests: "claims_reading v (FRequest r) \<longleftrightarrow> (\<exists>rs. v = JObject rs \<and> request_object rs r)" for v r by (cases v) auto
  have "dom (claims_view s) = CLAIM_KEYS"
    by (auto simp: claims_view_def CLAIM_KEYS_def slots split: if_splits)
  then have "distinct (map fst ms)" "set (map fst ms) = CLAIM_KEYS"
    using f by (auto simp: claims.filled_def empty)
  then have "claims_object ms c"
    using look [OF view(1)] look [OF view(2)] look [OF view(3)] look [OF view(4)] look [OF view(5)] look [OF view(6)]
      look [OF view(7)] look [OF view(8)] look [OF view(9)] bounds
    by (simp add: claims_object_def text_field_def number_field_def strings times requests) blast
  with document_reads [OF t(3,2,1) fin] show ?thesis by blast
qed

definition header_object :: "(bytes \<times> json) list \<Rightarrow> token_header \<Rightarrow> bool" where
  "header_object ms h \<longleftrightarrow> distinct (map fst ms) \<and>
     set (map fst ms) - {ascii_bytes ''typ''} = {ascii_bytes ''alg'', ascii_bytes ''kid''} \<and>
     text_field ms ''alg'' (ascii_bytes ''ES256'') \<and> text_field ms ''kid'' (th_kid h) \<and>
     in_bounds (th_kid h) MAX_KID_LEN \<and>
     (ascii_bytes ''typ'' \<in> set (map fst ms) \<longrightarrow> text_field ms ''typ'' (ascii_bytes ''JWT''))"

lemma parse_header_reads:
  assumes "parse_header bs = Inr h"
  shows "\<exists>ms. document (JObject ms) bs \<and> header_object ms h"
proof -
  let ?s0 = "\<lparr>hs_alg = None, hs_kid = None, hs_typ = None\<rparr>"
  obtain s k k' where run: "object header_visit (cursor_new bs) ?s0 = Inr (k, s)" and fin: "cursor_finish k = Inr k'"
    and slots: "hs_alg s = Some (ascii_bytes ''ES256'')" "hs_kid s = Some (th_kid h)"
      "hs_typ s = None \<or> hs_typ s = Some (ascii_bytes ''JWT'')"
    and bounds: "in_bounds (th_kid h) MAX_KID_LEN"
    using assms by (auto simp: parse_header_def and_then_Inr required_def ok_or_Inr bounded_Inr split: if_splits)
  obtain ms w t where t: "json_text (JObject ms) t" "blank w" "reads (cursor_new bs) (w @ t) k" and f: "header.filled ms ?s0 s"
    by (rule header.object_reads [OF run cursor_new_ok])
  have empty: "header_view ?s0 = Map.empty" by (simp add: header_view_def fun_eq_iff)
  note look = header.filled_lookup [OF f empty]
  have view: "header_view s (ascii_bytes ''alg'') = Some (FText (ascii_bytes ''ES256''))"
    "header_view s (ascii_bytes ''kid'') = Some (FText (th_kid h))"
    by (simp_all add: header_view_def slots)
  have strings: "text_reading v (FText u) \<longleftrightarrow> v = JString u" for v u by (cases v) auto
  have keys: "set (map fst ms) = dom (header_view s)" "distinct (map fst ms)" using f by (auto simp: header.filled_def empty)
  have "dom (header_view s) - {ascii_bytes ''typ''} = {ascii_bytes ''alg'', ascii_bytes ''kid''}"
    by (auto simp: header_view_def slots split: if_splits)
  moreover have "text_field ms ''typ'' (ascii_bytes ''JWT'')" if "ascii_bytes ''typ'' \<in> set (map fst ms)"
  proof -
    have "header_view s (ascii_bytes ''typ'') = Some (FText (ascii_bytes ''JWT''))"
      using that keys(1) slots(3) by (auto simp: header_view_def)
    from look [OF this] show ?thesis by (simp add: text_field_def strings)
  qed
  ultimately have "header_object ms h"
    using look [OF view(1)] look [OF view(2)] bounds keys by (simp add: header_object_def text_field_def strings)
  with document_reads [OF t(3,2,1) fin] show ?thesis by blast
qed

end
