(* ===== verification/Auth_Complete.thy ===== *)
theory Auth_Complete
  imports Auth_Grammar
begin

text \<open>
  The converse of \<open>Auth_Grammar\<close>: every text of the grammar whose fields are the ones a visitor expects
  is read, and read as what it means. Together the two directions say exactly which documents
  the header and claims readers accept.
\<close>

section \<open>Steps of the cursor\<close>

text \<open>The cursor stands before the text \<open>t\<close>, which is all that is left.\<close>

definition stands :: "cursor \<Rightarrow> bytes \<Rightarrow> bool" where
  "stands c t \<longleftrightarrow> cursor_ok c \<and> rest c = t"

lemma stands_step: "stands c (t @ r) \<Longrightarrow> stands (step_by (length t) c) r"
  using reads_step [of c t r] by (auto simp: stands_def reads_def)

lemma stands_Cons: "stands c (b # r) \<Longrightarrow> stands (step_by 1 c) r"
  using stands_step [of c "[b]" r] by simp

lemma stands_peek: "stands c (b # r) \<Longrightarrow> peek c = Some b"
  by (auto simp: stands_def peek_Some)

lemma stands_expect: "stands c (b # r) \<Longrightarrow> expect b c = Inr (step_by 1 c)"
  using stands_peek [of c b r] by (simp add: expect_def advance_def step_by_def)

lemma stands_advance: "stands c (b # r) \<Longrightarrow> advance c = Inr (b, step_by 1 c)"
  using stands_peek [of c b r] by (simp add: advance_Inr)

definition starts_dark :: "bytes \<Rightarrow> bool" where
  "starts_dark t \<longleftrightarrow> t = [] \<or> \<not> is_whitespace (hd t)"

lemma stands_skip:
  assumes "stands c (w @ t)" "blank w" "starts_dark t"
  shows "skip_whitespace c = step_by (length w) c"
proof -
  have "takeWhile is_whitespace t = []" using assms(3) by (cases t) (auto simp: starts_dark_def)
  then have "takeWhile is_whitespace (w @ t) = w" using assms(2) by (simp add: list_all_iff)
  then show ?thesis using assms(1) by (simp add: scan_takeWhile stands_def)
qed

definition ends_number :: "bytes \<Rightarrow> bool" where
  "ends_number r \<longleftrightarrow> r = [] \<or> \<not> is_number_byte (hd r)"

lemma stands_number:
  assumes "stands c (t @ r)" "list_all is_number_byte t" "t \<noteq> []" "ends_number r"
  shows "json_number c = Inr (t, step_by (length t) c)"
proof -
  have "takeWhile is_number_byte r = []" using assms(4) by (cases r) (auto simp: ends_number_def)
  then have "takeWhile is_number_byte (t @ r) = t" using assms(2) by (simp add: list_all_iff)
  then have loop: "number_loop c = step_by (length t) c" using assms(1) by (simp add: scan_takeWhile stands_def)
  have "reads c t (step_by (length t) c)" using assms(1) reads_step by (simp add: stands_def)
  from slice_reads [OF this] show ?thesis using assms(3) by (simp add: json_number_def Let_def loop)
qed

lemma stands_string_loop:
  "list_all text_byte s \<Longrightarrow> stands c (s @ 34 # r) \<Longrightarrow> string_loop c = Inr (step_by (length s + 1) c)"
proof (induction s arbitrary: c)
  case Nil
  then show ?case using string_loop_step(2) [OF stands_peek] by simp
next
  case (Cons b s)
  then have b: "text_byte b" "b \<noteq> 34" by (auto simp: text_byte_def)
  have "stands c (b # s @ 34 # r)" using Cons.prems(2) by simp
  then show ?case
    using Cons.IH [OF _ stands_Cons] Cons.prems(1) b string_loop_step(2) [OF stands_peek]
    by (auto simp: step_by_step_by)
qed

lemma stands_string:
  assumes "stands c (quoted s @ r)" "list_all text_byte s"
  shows "json_string c = Inr (s, step_by (length (quoted s)) c)"
proof -
  have c: "stands c (34 # s @ 34 # r)" using assms(1) by (simp add: quoted_def)
  then have after: "stands (step_by 1 c) (s @ 34 # r)" by (rule stands_Cons)
  note loop = stands_string_loop [OF assms(2) after]
  have "reads (step_by 1 c) s (step_by (length s) (step_by 1 c))" using after reads_step by (simp add: stands_def)
  from slice_reads [OF this] have "slice (cu_bytes c) (cu_position c + 1) (cu_position c + 1 + length s) = Some s"
    by (simp add: step_by_def)
  then show ?thesis
    using stands_peek [OF c] stands_advance [OF c] loop
    by (simp add: json_string_def Let_def step_by_def quoted_def)
qed

lemma text_dark:
  "json_text v t \<Longrightarrow> t \<noteq> [] \<and> \<not> is_whitespace (hd t)"
  by (auto elim!: json_text.cases simp: quoted_def is_whitespace_def is_number_byte_def neq_Nil_conv)

section \<open>Objects\<close>

lemma members_trim:
  assumes "members_text ms u"
  shows "\<exists>v u'. u = v @ u' \<and> blank v \<and> members_text ms u' \<and> hd u' = 34 \<and> u' \<noteq> []"
  using assms
proof (cases rule: members_text.cases)
  case (last_member w1 k w2 w3 v t w4)
  then show ?thesis
    using json_text_members_text.last_member [of "[]", OF _ last_member(4-8)]
    by (intro exI [of _ w1] exI [of _ "quoted k @ w2 @ [58] @ w3 @ t @ w4"]) (simp add: quoted_def)
next
  case (more_members w1 k w2 w3 v t w4 ms' u')
  then show ?thesis
    using json_text_members_text.more_members [of "[]", OF _ more_members(4-9)]
    by (intro exI [of _ w1] exI [of _ "quoted k @ w2 @ [58] @ w3 @ t @ w4 @ [44] @ u'"]) (simp add: quoted_def)
qed

text \<open>
  The other half of a visitor's contract: on the text of a value the field \<open>key\<close> may have, with a free
  slot, it succeeds.
\<close>

locale complete_visitor = slot_visitor visit view reading
  for visit :: "'s visitor" and view :: "'s \<Rightarrow> bytes \<rightharpoonup> 'x" and reading :: "json \<Rightarrow> 'x \<Rightarrow> bool" +
  fixes accepts :: "bytes \<Rightarrow> json \<Rightarrow> 'x \<Rightarrow> bool"
  assumes visit_complete: "stands c (t @ r) \<Longrightarrow> json_text v t \<Longrightarrow> accepts key v x \<Longrightarrow> view s key = None \<Longrightarrow>
    ends_number r \<Longrightarrow> \<exists>s'. visit c key s = Inr (step_by (length t) c, s') \<and> view s' = (view s)(key \<mapsto> x)"
begin

lemma round_complete:
  assumes "stands c (w1 @ quoted k @ w2 @ [58] @ w3 @ t @ w4 @ b # r)"
    and "blank w1" "list_all text_byte k" "blank w2" "blank w3" "json_text v t" "blank w4" "b = 44 \<or> b = 125"
    and "accepts k v x" "view s k = None"
  obtains c' s' where "stands c' r" "view s' = (view s)(k \<mapsto> x)"
    "c' = step_by (length (w1 @ quoted k @ w2 @ [58] @ w3 @ t @ w4 @ [b])) c"
    "object_loop (Suc n) visit c s = (if b = 44 then object_loop n visit c' s' else Inr (c', s'))"
proof -
  have b: "\<not> is_whitespace b" "\<not> is_number_byte b" using assms(8) by (auto simp: is_whitespace_def is_number_byte_def)
  have dark: "starts_dark (quoted k @ u)" "starts_dark ([58] @ u)" "starts_dark (b # u)" for u
    using b by (simp_all add: starts_dark_def quoted_def is_whitespace_def)
  have dark_value: "starts_dark (t @ u)" for u using text_dark [OF assms(6)] by (cases t) (simp_all add: starts_dark_def)
  have ends: "ends_number (w4 @ b # r)"
    using assms(7) b by (cases w4) (auto simp: ends_number_def is_whitespace_def is_number_byte_def)
  define c1 where "c1 = step_by (length w1) c"
  have s1: "stands c1 (quoted k @ w2 @ [58] @ w3 @ t @ w4 @ b # r)" "skip_whitespace c = c1"
    using stands_step [OF assms(1)] stands_skip [OF assms(1,2) dark(1)] by (simp_all add: c1_def)
  define c2 where "c2 = step_by (length (quoted k)) c1"
  have s2: "stands c2 (w2 @ [58] @ w3 @ t @ w4 @ b # r)" "json_string c1 = Inr (k, c2)" "peek c1 = Some 34"
    using stands_step [OF s1(1)] stands_string [OF s1(1) assms(3)] stands_peek [of c1 34] s1(1)
    by (simp_all add: c2_def quoted_def)
  define c3 where "c3 = step_by (length w2) c2"
  have s3: "stands c3 ([58] @ w3 @ t @ w4 @ b # r)" "skip_whitespace c2 = c3"
    using stands_step [OF s2(1)] stands_skip [OF s2(1) assms(4) dark(2)] by (simp_all add: c3_def)
  define c4 where "c4 = step_by 1 c3"
  have s4: "stands c4 (w3 @ t @ w4 @ b # r)" "expect 58 c3 = Inr c4"
    using stands_Cons [of c3 58] stands_expect [of c3 58] s3(1) by (simp_all add: c4_def)
  define c5 where "c5 = step_by (length w3) c4"
  have s5: "stands c5 (t @ w4 @ b # r)" "skip_whitespace c4 = c5"
    using stands_step [OF s4(1)] stands_skip [OF s4(1) assms(5) dark_value] by (simp_all add: c5_def)
  define c6 where "c6 = step_by (length t) c5"
  obtain s' where s6: "stands c6 (w4 @ b # r)" "visit c5 k s = Inr (c6, s')" "view s' = (view s)(k \<mapsto> x)"
    using stands_step [OF s5(1)] visit_complete [OF s5(1) assms(6,9,10) ends] by (auto simp: c6_def)
  define c7 where "c7 = step_by (length w4) c6"
  have s7: "stands c7 (b # r)" "skip_whitespace c6 = c7"
    using stands_step [OF s6(1)] stands_skip [OF s6(1) assms(7) dark(3)] by (simp_all add: c7_def)
  have loop: "object_loop (Suc n) visit c s = (if b = 44 then object_loop n visit (step_by 1 c7) s' else Inr (step_by 1 c7, s'))"
    using assms(8) stands_advance [OF s7(1)]
    by (auto simp: object_round_def Let_def s1(2) s2(2,3) s3(2) s4(2) s5(2) s6(2) s7(2))
  show thesis
    by (rule that [OF stands_Cons [OF s7(1)] s6(3) _ loop])
      (simp add: c7_def c6_def c5_def c4_def c3_def c2_def c1_def step_by_step_by add.assoc)
qed

definition filled_with :: "(bytes \<Rightarrow> 'x) \<Rightarrow> (bytes \<times> json) list \<Rightarrow> 's \<Rightarrow> bytes \<rightharpoonup> 'x" where
  "filled_with mean ms s = (\<lambda>k. if k \<in> set (map fst ms) then Some (mean k) else view s k)"

lemma loop_complete:
  assumes "members_text ms t"
  shows "stands c (t @ 125 # r) \<Longrightarrow> \<forall>(k, v) \<in> set ms. accepts k v (mean k) \<Longrightarrow> distinct (map fst ms) \<Longrightarrow>
    \<forall>k \<in> set (map fst ms). view s k = None \<Longrightarrow> length t < n \<Longrightarrow>
    \<exists>s'. object_loop n visit c s = Inr (step_by (length t + 1) c, s') \<and> view s' = filled_with mean ms s"
  using assms
proof (induction arbitrary: c s n rule: json_text_members_text.inducts(2) [where ?P1.0 = "\<lambda>_ _. True"])
  case (last_member w1 k w2 w3 v t w4)
  from last_member.prems have a: "accepts k v (mean k)" "view s k = None" by simp_all
  obtain m where m: "n = Suc m" using last_member.prems(5) by (cases n) simp_all
  have st: "stands c (w1 @ quoted k @ w2 @ [58] @ w3 @ t @ w4 @ 125 # r)" using last_member.prems(1) by simp
  obtain c' s' where "view s' = (view s)(k \<mapsto> mean k)"
    "c' = step_by (length (w1 @ quoted k @ w2 @ [58] @ w3 @ t @ w4 @ [125])) c"
    "object_loop (Suc m) visit c s = (if (125 :: u8) = 44 then object_loop m visit c' s' else Inr (c', s'))"
    by (rule round_complete [OF st last_member.hyps(1-5,7) disjI2 [OF refl] a])
  then show ?case by (intro exI [of _ s']) (auto simp: m filled_with_def fun_eq_iff)
next
  case (more_members w1 k w2 w3 v t w4 ms u)
  from more_members.prems have a: "accepts k v (mean k)" "view s k = None" by simp_all
  obtain m where m: "n = Suc m" using more_members.prems(5) by (cases n) simp_all
  have st: "stands c (w1 @ quoted k @ w2 @ [58] @ w3 @ t @ w4 @ 44 # u @ 125 # r)" using more_members.prems(1) by simp
  obtain c' s' where c': "stands c' (u @ 125 # r)" "view s' = (view s)(k \<mapsto> mean k)"
    "c' = step_by (length (w1 @ quoted k @ w2 @ [58] @ w3 @ t @ w4 @ [44])) c"
    "object_loop (Suc m) visit c s = (if (44 :: u8) = 44 then object_loop m visit c' s' else Inr (c', s'))"
    by (rule round_complete [OF st more_members.hyps(1-5,7) disjI1 [OF refl] a])
  have free: "\<forall>k' \<in> set (map fst ms). view s' k' = None" using more_members.prems(3,4) c'(2) by auto
  have "\<exists>s2. object_loop m visit c' s' = Inr (step_by (length u + 1) c', s2) \<and> view s2 = filled_with mean ms s'"
    using more_members.prems(2,3,5) by (intro more_members.IH [OF c'(1) _ _ free]) (simp_all add: m)
  then show ?case
    by (auto simp: m c'(3,4) step_by_step_by add.assoc filled_with_def c'(2) fun_eq_iff simp del: object_loop.simps)
qed simp_all

lemma object_complete:
  assumes "stands c (w @ t @ r)" "blank w" "json_text (JObject ms) t"
    and "\<forall>(k, v) \<in> set ms. accepts k v (mean k)" "distinct (map fst ms)" "\<forall>k \<in> set (map fst ms). view s k = None"
  shows "\<exists>s'. object visit c s = Inr (step_by (length (w @ t)) c, s') \<and> view s' = filled_with mean ms s"
proof -
  have brace: "starts_dark (123 # u)" "starts_dark (125 # u)" "starts_dark (34 # u)" for u
    by (simp_all add: starts_dark_def is_whitespace_def)
  obtain u where u: "t = 123 # u @ [125]" "blank u \<and> ms = [] \<or> members_text ms u"
    using assms(3) by (cases rule: json_text.cases) auto
  have s1: "skip_whitespace c = step_by (length w) c" "stands (step_by (length w) c) (123 # u @ 125 # r)"
    using stands_skip [OF assms(1,2)] stands_step [OF assms(1)] brace(1) by (simp_all add: u(1))
  define c1 where "c1 = step_by (length w + 1) c"
  have s2: "expect 123 (skip_whitespace c) = Inr c1" "stands c1 (u @ 125 # r)"
    using stands_expect [OF s1(2)] stands_Cons [OF s1(2)] by (simp_all add: s1(1) c1_def step_by_step_by)
  show ?thesis
  proof (cases "blank u \<and> ms = []")
    case True
    then have s3: "skip_whitespace c1 = step_by (length u) c1" "stands (step_by (length u) c1) (125 # r)"
      using stands_skip [OF s2(2) _ brace(2)] stands_step [OF s2(2)] by simp_all
    have "object visit c s = Inr (step_by 1 (step_by (length u) c1), s)"
      by (simp add: object_def s2(1) Let_def s3(1) stands_peek [OF s3(2)] stands_advance [OF s3(2)])
    then show ?thesis
      using True by (intro exI [of _ s]) (simp add: filled_with_def u(1) c1_def step_by_step_by)
  next
    case False
    then obtain v u' where v: "u = v @ u'" "blank v" "members_text ms u'" "hd u' = 34" "u' \<noteq> []"
      using u(2) members_trim by metis
    have st: "stands c1 (v @ u' @ 125 # r)" using s2(2) v(1) by simp
    have s3: "skip_whitespace c1 = step_by (length v) c1" "stands (step_by (length v) c1) (u' @ 125 # r)"
      using stands_skip [OF st v(2)] stands_step [OF st] brace(3) v(4,5) by (auto simp: neq_Nil_conv)
    have "peek (step_by (length v) c1) = Some 34" using s3(2) v(4,5) by (auto simp: neq_Nil_conv dest: stands_peek)
    moreover have "length u' < bytes_left (step_by (length v) c1)"
      using s3(2) by (simp add: stands_def rest_def bytes_left_def) (metis length_append length_drop add.commute less_add_Suc1 list.size(4) One_nat_def add_Suc_right)
    moreover from loop_complete [OF v(3) s3(2) assms(4-6) this]
    obtain s' where "object_loop (bytes_left (step_by (length v) c1)) visit (step_by (length v) c1) s =
        Inr (step_by (length u' + 1) (step_by (length v) c1), s')" "view s' = filled_with mean ms s" by blast
    ultimately have "object visit c s = Inr (step_by (length u' + 1) (step_by (length v) c1), s')"
      by (simp add: object_def s2(1) Let_def s3(1))
    then show ?thesis
      using \<open>view s' = filled_with mean ms s\<close>
      by (intro exI [of _ s']) (simp add: u(1) v(1) c1_def step_by_step_by add.assoc)
  qed
qed

end

section \<open>Request\<close>

lemma string_text: "json_text (JString s) t \<longleftrightarrow> list_all text_byte s \<and> t = quoted s"
  by (auto elim: json_text.cases intro: string_value)

lemma number_text: "json_text (JNumber s) t \<longleftrightarrow> t = s \<and> s \<noteq> [] \<and> list_all is_number_byte s"
  by (auto elim: json_text.cases intro: number_value)

definition request_accepts :: "bytes \<Rightarrow> json \<Rightarrow> field_value \<Rightarrow> bool" where
  "request_accepts key v x \<longleftrightarrow>
     key \<in> set (map ascii_bytes [''agent'', ''currency'', ''recipient'', ''category'']) \<and> (\<exists>s. v = JString s \<and> x = FText s) \<or>
     key = ascii_bytes ''amount'' \<and> (\<exists>t n. v = JNumber t \<and> parse_amount_micros t = Inr n \<and> x = FAmount n)"

interpretation request: complete_visitor request_visit request_view request_reading request_accepts
proof
  fix c t r v key x s
  assume a: "stands c (t @ r)" "json_text v t" "request_accepts key v x" "request_view s key = None" "ends_number r"
  show "\<exists>s'. request_visit c key s = Inr (step_by (length t) c, s') \<and> request_view s' = (request_view s)(key \<mapsto> x)"
  proof (cases "key = ascii_bytes ''amount''")
    case True
    with a(3) obtain u n where u: "v = JNumber u" "parse_amount_micros u = Inr n" "x = FAmount n"
      by (auto simp: request_accepts_def)
    then have "read_amount c = Inr (n, step_by (length t) c)"
      using a(1,2,5) stands_number [of c u r] by (auto simp: read_amount_def number_text)
    then show ?thesis using a(4) True u(3)
      by (simp add: request_visit_def fill_def request_view_def fun_eq_iff)
  next
    case False
    with a(3) obtain u where u: "v = JString u" "x = FText u"
      "key \<in> set (map ascii_bytes [''agent'', ''currency'', ''recipient'', ''category''])"
      by (auto simp: request_accepts_def)
    then have "json_string c = Inr (u, step_by (length t) c)"
      using a(1,2) stands_string [of c u r] by (auto simp: string_text)
    moreover from u(3) have "key = ascii_bytes ''agent'' \<or> key = ascii_bytes ''currency'' \<or>
        key = ascii_bytes ''recipient'' \<or> key = ascii_bytes ''category''" by simp
    ultimately show ?thesis using a(4) u(2)
      by (elim disjE) (simp_all add: request_visit_def fill_def request_view_def fun_eq_iff)
  qed
qed

definition slots_of_request :: "request \<Rightarrow> request_slots" where
  "slots_of_request q = \<lparr>qs_agent = Some (rq_agent q), qs_amount = Some (rq_amount_micros q),
     qs_currency = Some (rq_currency q), qs_recipient = Some (rq_recipient q), qs_category = Some (rq_category q)\<rparr>"

lemma map_option_inject:
  "map_option FText x = map_option FText y \<longleftrightarrow> x = y" "map_option FTime a = map_option FTime b \<longleftrightarrow> a = b"
  "map_option FAmount a = map_option FAmount b \<longleftrightarrow> a = b" "map_option FRequest r = map_option FRequest q \<longleftrightarrow> r = q"
  by (rule inj_eq [OF option.inj_map], simp add: inj_def)+

lemma request_view_inject:
  assumes "request_view s = request_view s'"
  shows "s = s'"
proof -
  note at = fun_cong [OF assms]
  show ?thesis
    using at [of "ascii_bytes ''agent''"] at [of "ascii_bytes ''amount''"] at [of "ascii_bytes ''currency''"]
      at [of "ascii_bytes ''recipient''"] at [of "ascii_bytes ''category''"]
    by (simp add: request_view_def map_option_inject)
qed

lemma parse_request_complete:
  assumes "stands c (w @ t @ r)" "blank w" "json_text (JObject rs) t" "request_object rs q"
  shows "parse_request c = Inr (q, step_by (length (w @ t)) c)"
proof -
  let ?s0 = "\<lparr>qs_agent = None, qs_amount = None, qs_currency = None, qs_recipient = None, qs_category = None\<rparr>"
  let ?mean = "\<lambda>k. the (request_view (slots_of_request q) k)"
  have accepted: "\<forall>(k, v) \<in> set rs. request_accepts k v (?mean k)"
  proof clarify
    fix k v assume kv: "(k, v) \<in> set rs"
    then have "map_of rs k = Some v" "k \<in> REQUEST_KEYS" using assms(4) by (force simp: request_object_def)+
    then show "request_accepts k v (?mean k)"
      using assms(4) by (auto simp: request_object_def REQUEST_KEYS_def text_field_def number_field_def
          request_accepts_def request_view_def slots_of_request_def)
  qed
  have "\<forall>k \<in> set (map fst rs). request_view ?s0 k = None" "distinct (map fst rs)"
    using assms(4) by (simp_all add: request_view_def request_object_def)
  then obtain s where s: "object request_visit c ?s0 = Inr (step_by (length (w @ t)) c, s)"
    "request_view s = request.filled_with ?mean rs ?s0"
    using request.object_complete [OF assms(1-3) accepted] by blast
  have "request_view s = request_view (slots_of_request q)"
    unfolding s(2) request.filled_with_def
    using assms(4) by (auto simp: fun_eq_iff request_object_def REQUEST_KEYS_def request_view_def slots_of_request_def)
  then have "s = slots_of_request q" by (rule request_view_inject)
  with s(1) assms(4) show ?thesis
    by (simp add: parse_request_def slots_of_request_def required_def bounded_def in_bounds_def request_object_def)
qed

section \<open>Claims\<close>

definition claims_accepts :: "bytes \<Rightarrow> json \<Rightarrow> field_value \<Rightarrow> bool" where
  "claims_accepts key v x \<longleftrightarrow>
     key \<in> set (map ascii_bytes [''iss'', ''jti'', ''verdict'', ''mandate'', ''policy_version'', ''nonce'']) \<and>
       (\<exists>s. v = JString s \<and> x = FText s) \<or>
     (key = ascii_bytes ''iat'' \<or> key = ascii_bytes ''exp'') \<and> (\<exists>t n. v = JNumber t \<and> parse_timestamp t = Inr n \<and> x = FTime n) \<or>
     key = ascii_bytes ''request'' \<and> (\<exists>rs q. v = JObject rs \<and> request_object rs q \<and> x = FRequest q)"

interpretation claims: complete_visitor claims_visit claims_view claims_reading claims_accepts
proof
  fix c t r v key x s
  assume a: "stands c (t @ r)" "json_text v t" "claims_accepts key v x" "claims_view s key = None" "ends_number r"
  note eval = claims_visit_def fill_def claims_view_def fun_eq_iff
  from a(3) consider
      (texts) u where "v = JString u" "x = FText u" "key = ascii_bytes ''iss'' \<or> key = ascii_bytes ''jti'' \<or>
        key = ascii_bytes ''verdict'' \<or> key = ascii_bytes ''mandate'' \<or> key = ascii_bytes ''policy_version'' \<or>
        key = ascii_bytes ''nonce''"
    | (times) u n where "v = JNumber u" "parse_timestamp u = Inr n" "x = FTime n"
        "key = ascii_bytes ''iat'' \<or> key = ascii_bytes ''exp''"
    | (requests) rs q where "v = JObject rs" "request_object rs q" "x = FRequest q" "key = ascii_bytes ''request''"
    by (auto simp: claims_accepts_def)
  then show "\<exists>s'. claims_visit c key s = Inr (step_by (length t) c, s') \<and> claims_view s' = (claims_view s)(key \<mapsto> x)"
  proof cases
    case texts
    then have "json_string c = Inr (u, step_by (length t) c)"
      using a(1,2) stands_string [of c u r] by (auto simp: string_text)
    with texts(3) a(4) show ?thesis by (elim disjE) (simp_all add: eval texts(2))
  next
    case times
    then have "read_timestamp c = Inr (n, step_by (length t) c)"
      using a(1,2,5) stands_number [of c u r] by (auto simp: read_timestamp_def number_text)
    with times(4) a(4) show ?thesis by (elim disjE) (simp_all add: eval times(3))
  next
    case requests
    then have "parse_request c = Inr (q, step_by (length t) c)"
      using parse_request_complete [of c "[]" t r rs q] a(1,2) by simp
    with a(4) show ?thesis by (simp add: eval requests(3,4))
  qed
qed

definition slots_of_claims :: "claims \<Rightarrow> claims_slots" where
  "slots_of_claims k = \<lparr>cs_iss = Some (cl_iss k), cs_jti = Some (cl_jti k), cs_iat = Some (cl_iat k),
     cs_exp = Some (cl_exp k), cs_verdict = Some (cl_verdict k), cs_mandate = Some (cl_mandate k),
     cs_policy_version = Some (cl_policy_version k), cs_nonce = Some (cl_nonce k), cs_request = Some (cl_request k)\<rparr>"

lemma claims_view_inject:
  assumes "claims_view s = claims_view s'"
  shows "s = s'"
proof -
  note at = fun_cong [OF assms]
  show ?thesis
    using at [of "ascii_bytes ''iss''"] at [of "ascii_bytes ''jti''"] at [of "ascii_bytes ''iat''"] at [of "ascii_bytes ''exp''"]
      at [of "ascii_bytes ''verdict''"] at [of "ascii_bytes ''mandate''"] at [of "ascii_bytes ''policy_version''"]
      at [of "ascii_bytes ''nonce''"] at [of "ascii_bytes ''request''"]
    by (simp add: claims_view_def map_option_inject)
qed

text \<open>The blanks after an object are all that is left of the document.\<close>

lemma finish_complete:
  assumes "stands c w" "blank w"
  shows "\<exists>c'. cursor_finish c = Inr c'"
proof -
  have skip: "skip_whitespace c = step_by (length w) c"
    using stands_skip [of c w "[]"] assms by (simp add: starts_dark_def)
  have "length w = length (cu_bytes c) - cu_position c" "cu_position c \<le> length (cu_bytes c)"
    using assms(1) by (auto simp: stands_def rest_def cursor_ok_def)
  then show ?thesis by (simp add: cursor_finish_def Let_def skip) (simp add: step_by_def)
qed

lemma stands_document:
  assumes "document v bs"
  obtains w1 t w2 where "stands (cursor_new bs) (w1 @ t @ w2)" "blank w1" "json_text v t" "blank w2"
    "stands (step_by (length (w1 @ t)) (cursor_new bs)) w2"
proof -
  obtain w1 t w2 where d: "blank w1" "json_text v t" "blank w2" "bs = w1 @ t @ w2"
    using assms by (auto simp: document_def)
  then have st: "stands (cursor_new bs) (w1 @ t @ w2)" by (simp add: stands_def rest_def cursor_new_def cursor_ok_def)
  then show thesis using that d stands_step [of "cursor_new bs" "w1 @ t" w2] by simp
qed

lemma parse_claims_complete:
  assumes "document (JObject ms) bs" "claims_object ms k"
  shows "parse_claims bs = Inr k"
proof -
  let ?s0 = "\<lparr>cs_iss = None, cs_jti = None, cs_iat = None, cs_exp = None, cs_verdict = None, cs_mandate = None,
    cs_policy_version = None, cs_nonce = None, cs_request = None\<rparr>"
  let ?mean = "\<lambda>x. the (claims_view (slots_of_claims k) x)"
  obtain w1 t w2 where d: "stands (cursor_new bs) (w1 @ t @ w2)" "blank w1" "json_text (JObject ms) t" "blank w2"
    "stands (step_by (length (w1 @ t)) (cursor_new bs)) w2"
    using assms(1) by (rule stands_document)
  have accepted: "\<forall>(x, v) \<in> set ms. claims_accepts x v (?mean x)"
  proof clarify
    fix x v assume kv: "(x, v) \<in> set ms"
    then have "map_of ms x = Some v" "x \<in> CLAIM_KEYS" using assms(2) by (force simp: claims_object_def)+
    then show "claims_accepts x v (?mean x)"
      using assms(2) by (auto simp: claims_object_def CLAIM_KEYS_def text_field_def number_field_def
          claims_accepts_def claims_view_def slots_of_claims_def)
  qed
  have "\<forall>x \<in> set (map fst ms). claims_view ?s0 x = None" "distinct (map fst ms)"
    using assms(2) by (simp_all add: claims_view_def claims_object_def)
  then obtain s where s: "object claims_visit (cursor_new bs) ?s0 = Inr (step_by (length (w1 @ t)) (cursor_new bs), s)"
    "claims_view s = claims.filled_with ?mean ms ?s0"
    using claims.object_complete [OF d(1-3) accepted] by blast
  have "claims_view s = claims_view (slots_of_claims k)"
    unfolding s(2) claims.filled_with_def
    using assms(2) by (auto simp: fun_eq_iff claims_object_def CLAIM_KEYS_def claims_view_def slots_of_claims_def)
  then have "s = slots_of_claims k" by (rule claims_view_inject)
  moreover obtain c' where "cursor_finish (step_by (length (w1 @ t)) (cursor_new bs)) = Inr c'"
    using finish_complete [OF d(5,4)] by blast
  ultimately show ?thesis using s(1) assms(2)
    by (simp add: parse_claims_def slots_of_claims_def required_def bounded_def in_bounds_def claims_object_def)
qed

text \<open>The claims reader accepts a document exactly when it is an object with these nine fields.\<close>

lemma parse_claims_iff: "parse_claims bs = Inr k \<longleftrightarrow> (\<exists>ms. document (JObject ms) bs \<and> claims_object ms k)"
  using parse_claims_reads parse_claims_complete by blast

section \<open>Header\<close>

definition header_accepts :: "bytes \<Rightarrow> json \<Rightarrow> field_value \<Rightarrow> bool" where
  "header_accepts key v x \<longleftrightarrow>
     key \<in> set (map ascii_bytes [''alg'', ''kid'', ''typ'']) \<and> (\<exists>s. v = JString s \<and> x = FText s)"

interpretation header: complete_visitor header_visit header_view text_reading header_accepts
proof
  fix c t r v key x s
  assume a: "stands c (t @ r)" "json_text v t" "header_accepts key v x" "header_view s key = None" "ends_number r"
  from a(3) obtain u where u: "v = JString u" "x = FText u"
    "key = ascii_bytes ''alg'' \<or> key = ascii_bytes ''kid'' \<or> key = ascii_bytes ''typ''"
    by (auto simp: header_accepts_def)
  then have "json_string c = Inr (u, step_by (length t) c)"
    using a(1,2) stands_string [of c u r] by (auto simp: string_text)
  with u(3) a(4) show "\<exists>s'. header_visit c key s = Inr (step_by (length t) c, s') \<and> header_view s' = (header_view s)(key \<mapsto> x)"
    by (elim disjE) (simp_all add: header_visit_def fill_def header_view_def fun_eq_iff u(2))
qed

lemma header_view_inject:
  assumes "header_view s = header_view s'"
  shows "s = s'"
proof -
  note at = fun_cong [OF assms]
  show ?thesis
    using at [of "ascii_bytes ''alg''"] at [of "ascii_bytes ''kid''"] at [of "ascii_bytes ''typ''"]
    by (simp add: header_view_def map_option_inject)
qed

lemma parse_header_complete:
  assumes "document (JObject ms) bs" "header_object ms h"
  shows "parse_header bs = Inr h"
proof -
  let ?s0 = "\<lparr>hs_alg = None, hs_kid = None, hs_typ = None\<rparr>"
  let ?s1 = "\<lparr>hs_alg = Some (ascii_bytes ''ES256''), hs_kid = Some (th_kid h),
    hs_typ = (if ascii_bytes ''typ'' \<in> set (map fst ms) then Some (ascii_bytes ''JWT'') else None)\<rparr>"
  let ?mean = "\<lambda>x. the (header_view ?s1 x)"
  obtain w1 t w2 where d: "stands (cursor_new bs) (w1 @ t @ w2)" "blank w1" "json_text (JObject ms) t" "blank w2"
    "stands (step_by (length (w1 @ t)) (cursor_new bs)) w2"
    using assms(1) by (rule stands_document)
  have keys: "x \<in> {ascii_bytes ''alg'', ascii_bytes ''kid'', ascii_bytes ''typ''}" if "x \<in> set (map fst ms)" for x
    using assms(2) that by (auto simp: header_object_def)
  have present: "ascii_bytes ''alg'' \<in> set (map fst ms)" "ascii_bytes ''kid'' \<in> set (map fst ms)"
    using assms(2) by (auto simp: header_object_def)
  have accepted: "\<forall>(x, v) \<in> set ms. header_accepts x v (?mean x)"
  proof clarify
    fix x v assume kv: "(x, v) \<in> set ms"
    then have x: "x \<in> set (map fst ms)" by force
    have "map_of ms x = Some v" using assms(2) kv by (simp add: header_object_def)
    with keys [OF x] x show "header_accepts x v (?mean x)"
      using assms(2) by (elim insertE) (simp_all add: header_object_def text_field_def header_accepts_def header_view_def)
  qed
  have "\<forall>x \<in> set (map fst ms). header_view ?s0 x = None" "distinct (map fst ms)"
    using assms(2) by (simp_all add: header_view_def header_object_def)
  then obtain s where s: "object header_visit (cursor_new bs) ?s0 = Inr (step_by (length (w1 @ t)) (cursor_new bs), s)"
    "header_view s = header.filled_with ?mean ms ?s0"
    using header.object_complete [OF d(1-3) accepted] by blast
  have "header_view s x = header_view ?s1 x" for x
  proof (cases "x \<in> set (map fst ms)")
    case True
    with keys [OF True] show ?thesis
      unfolding s(2) header.filled_with_def by (elim insertE) (simp_all add: header_view_def)
  next
    case False
    with present have "x \<noteq> ascii_bytes ''alg''" "x \<noteq> ascii_bytes ''kid''" by auto
    with False show ?thesis unfolding s(2) header.filled_with_def by (auto simp: header_view_def)
  qed
  then have "s = ?s1" by (intro header_view_inject ext)
  moreover obtain c' where "cursor_finish (step_by (length (w1 @ t)) (cursor_new bs)) = Inr c'"
    using finish_complete [OF d(5,4)] by blast
  ultimately show ?thesis using s(1) assms(2)
    by (simp add: parse_header_def required_def bounded_def in_bounds_def header_object_def)
qed

lemma parse_header_iff: "parse_header bs = Inr h \<longleftrightarrow> (\<exists>ms. document (JObject ms) bs \<and> header_object ms h)"
  using parse_header_reads parse_header_complete by blast

end
