(* ===== verification/Auth_Inv.thy ===== *)
theory Auth_Inv
  imports Auth_Program Auth_Complete
begin

text \<open>
  Steps and runs of the authorization verifier. Every instruction writes one account: a new one, or
  an old one it revokes or advances. From that follow the permanence of accounts, the well-formedness
  of every account the program ever holds, and where each receipt comes from.
\<close>

section \<open>Loading and creating accounts\<close>

named_theorems verifier_simps

lemma load_Inr [verifier_simps]:
  "load_config s key = Inr a \<longleftrightarrow> s key = Some (ConfigAccount a)"
  "load_trusted_key s key = Inr b \<longleftrightarrow> s key = Some (TrustedKeyAccount b)"
  "load_mandate s key = Inr c \<longleftrightarrow> s key = Some (MandateAccount c)"
  "load_authority s key = Inr d \<longleftrightarrow> s key = Some (AuthorityAccount d)"
  "load_risk_key s key = Inr e \<longleftrightarrow> s key = Some (RiskKeyAccount e)"
  by (simp_all add: load_config_def load_trusted_key_def load_mandate_def load_authority_def load_risk_key_def
      split: option.splits vaccount.splits)

lemma init_account_Inr [verifier_simps]:
  "init_account env seeds key s = Inr bump \<longleftrightarrow>
     (\<forall>seed \<in> set seeds. length seed \<le> 32) \<and> vpda env seeds = (key, bump) \<and> s key = None"
  by (auto simp: init_account_def MAX_SEED_LEN_def list_all_iff prod_eq_iff)

lemma check_Inr [verifier_simps]:
  "check_public_key pk = Inr u \<longleftrightarrow> pk \<noteq> [] \<and> (hd pk = 2 \<or> hd pk = 3)"
  "check_key_window nb na = Inr u \<longleftrightarrow> 0 \<le> sint nb \<and> sint nb < sint na"
  by (simp_all add: check_public_key_def check_key_window_def require_Inr)

section \<open>Times\<close>

lemma checked_add_i64_Some [verifier_simps]:
  "checked_add_i64 a b = Some c \<longleftrightarrow> sint c = sint a + sint b"
proof
  assume "checked_add_i64 a b = Some c"
  then have "- (2 ^ 63) \<le> sint a + sint b" "sint a + sint b < 2 ^ 63" "c = a + b"
    by (auto simp: checked_add_i64_def split: if_splits)
  then show "sint c = sint a + sint b"
    by (simp add: sint_word_ariths signed_take_bit_int_eq_self)
next
  assume c: "sint c = sint a + sint b"
  have "- (2 ^ 63) \<le> sint c" "sint c < 2 ^ 63"
    using sint_greater_eq [of c] sint_less [of c] by simp_all
  moreover have "c = a + b"
    using arg_cong [OF c, of "word_of_int :: int \<Rightarrow> i64"] by simp
  ultimately show "checked_add_i64 a b = Some c" using c by (simp add: checked_add_i64_def)
qed

lemmas verifier_results = verifier_simps and_then_Inr require_Inr ok_or_Inr

text \<open>A verdict is accepted from a minute before its issue to five minutes after it.\<close>

lemma check_claims_Inr:
  assumes "check_claims c now = Inr u"
  shows "cl_iss c = ISSUER" "cl_verdict c = ALLOW_VERDICT" "sint (cl_exp c) = sint (cl_iat c) + 300"
    "sint (cl_iat c) \<le> sint now + 60" "sint now < sint (cl_exp c)"
  using assms by (auto simp: check_claims_def verifier_results VERDICT_LIFETIME_SECONDS_def MAX_ISSUED_AT_SKEW_SECONDS_def)

lemma check_times_Inr:
  assumes "check_times m now = Inr u"
  shows "sint (az_issued_at m) < sint (az_expires_at m)" "sint (az_expires_at m) \<le> sint (az_issued_at m) + 300"
    "sint (az_issued_at m) \<le> sint now + 60" "sint now < sint (az_expires_at m)"
  using assms by (auto simp: check_times_def verifier_results MAX_LIFETIME_SECONDS_def MAX_ISSUED_AT_SKEW_SECONDS_def)

lemma check_mandate_Inr:
  assumes "check_mandate m c = Inr u"
  shows "\<not> md_revoked m" "cl_mandate c = md_mandate_id m" "cl_policy_version c = md_policy_version m"
    "cl_request c = \<lparr>rq_agent = md_agent m, rq_amount_micros = md_amount_micros m, rq_currency = md_currency m,
       rq_recipient = md_recipient m, rq_category = md_category m\<rparr>"
  using assms by (auto simp: check_mandate_def Let_def verifier_results)

section \<open>Stores whose accounts are permanent\<close>

text \<open>
  The contract of a program that never closes an account: each step writes one account, which is
  either new or keeps what the old one promised, and well-formedness does not depend on what may
  still change.
\<close>

definition store_kept :: "('a \<Rightarrow> 'a \<Rightarrow> bool) \<Rightarrow> ('k \<rightharpoonup> 'a) \<Rightarrow> ('k \<rightharpoonup> 'a) \<Rightarrow> bool" where
  "store_kept kept s s' \<longleftrightarrow> (\<forall>k a. s k = Some a \<longrightarrow> (\<exists>a'. s' k = Some a' \<and> kept a a'))"

locale permanent_store =
  fixes step :: "('k \<rightharpoonup> 'a) \<Rightarrow> ('k \<rightharpoonup> 'a) \<Rightarrow> bool"
    and kept :: "'a \<Rightarrow> 'a \<Rightarrow> bool"
    and ok :: "('k \<rightharpoonup> 'a) \<Rightarrow> 'k \<Rightarrow> 'a \<Rightarrow> bool"
  assumes kept_refl: "kept a a"
    and kept_trans: "kept a b \<Longrightarrow> kept b c \<Longrightarrow> kept a c"
    and step_writes: "step s s' \<Longrightarrow> \<exists>key new. s' = s(key \<mapsto> new) \<and>
      (s key = None \<and> ok s key new \<or> (\<exists>old. s key = Some old \<and> kept old new))"
    and ok_kept: "ok s key a \<Longrightarrow> kept a a' \<Longrightarrow> store_kept kept s s' \<Longrightarrow> ok s' key a'"
begin

definition well_formed :: "('k \<rightharpoonup> 'a) \<Rightarrow> bool" where
  "well_formed s \<longleftrightarrow> (\<forall>key a. s key = Some a \<longrightarrow> ok s key a)"

lemma step_keeps: "step s s' \<Longrightarrow> store_kept kept s s'"
  using step_writes [of s s'] by (auto simp: store_kept_def kept_refl)

lemma kept_along: "step\<^sup>*\<^sup>* s s' \<Longrightarrow> store_kept kept s s'"
proof (induction rule: rtranclp_induct)
  case base
  then show ?case by (auto simp: store_kept_def kept_refl)
next
  case (step s1 s2)
  show ?case using step.IH step_keeps [OF step.hyps(2)] unfolding store_kept_def by (meson kept_trans)
qed

lemma kept_entry:
  assumes "step\<^sup>*\<^sup>* s s'" "s key = Some a"
  obtains a' where "s' key = Some a'" "kept a a'"
  using kept_along [OF assms(1)] assms(2) by (auto simp: store_kept_def)

lemma step_well_formed:
  assumes "step s s'" "well_formed s"
  shows "well_formed s'"
  unfolding well_formed_def
proof (intro allI impI)
  fix key a assume a: "s' key = Some a"
  note keep = step_keeps [OF assms(1)]
  obtain k new where w: "s' = s(k \<mapsto> new)" "s k = None \<and> ok s k new \<or> (\<exists>old. s k = Some old \<and> kept old new)"
    using step_writes [OF assms(1)] by blast
  have "\<exists>b. ok s key b \<and> kept b a"
    using a w assms(2) kept_refl by (auto simp: well_formed_def split: if_splits)
  then show "ok s' key a" using ok_kept keep by blast
qed

lemma run_well_formed: "step\<^sup>*\<^sup>* Map.empty s \<Longrightarrow> well_formed s"
proof (induction rule: rtranclp_induct)
  case base
  then show ?case by (simp add: well_formed_def)
qed (rule step_well_formed)

text \<open>Every account was once created, by a step that found its address free.\<close>

lemma run_origin:
  assumes "step\<^sup>*\<^sup>* Map.empty s" "s key = Some a"
  obtains s0 s1 b where "step\<^sup>*\<^sup>* Map.empty s0" "step s0 s1" "step\<^sup>*\<^sup>* s1 s" "s0 key = None" "s1 key = Some b" "kept b a"
proof -
  have "\<exists>s0 s1 b. step\<^sup>*\<^sup>* Map.empty s0 \<and> step s0 s1 \<and> step\<^sup>*\<^sup>* s1 s \<and> s0 key = None \<and> s1 key = Some b \<and> kept b a"
    using assms
  proof (induction arbitrary: a rule: rtranclp_induct)
    case (step s1 s2)
    show ?case
    proof (cases "s1 key")
      case None
      then show ?thesis using step kept_refl by blast
    next
      case (Some c)
      obtain a' where "s2 key = Some a'" "kept c a'"
        using step_keeps [OF step.hyps(2)] Some by (auto simp: store_kept_def)
      then show ?thesis using step.IH [OF Some] step.hyps(2) step.prems kept_trans
        by (metis option.inject rtranclp.rtrancl_into_rtrancl)
    qed
  qed simp
  then show thesis using that by blast
qed

end

section \<open>What accounts promise\<close>

fun account_kept :: "vaccount \<Rightarrow> vaccount \<Rightarrow> bool" where
  "account_kept (TrustedKeyAccount k) a \<longleftrightarrow> a = TrustedKeyAccount k \<or> a = TrustedKeyAccount (k\<lparr>tk_revoked := True\<rparr>)"
| "account_kept (MandateAccount m) a \<longleftrightarrow> a = MandateAccount m \<or> a = MandateAccount (m\<lparr>md_revoked := True\<rparr>)"
| "account_kept (RiskKeyAccount k) a \<longleftrightarrow> a = RiskKeyAccount k \<or> a = RiskKeyAccount (k\<lparr>ri_revoked := True\<rparr>)"
| "account_kept (AuthorityAccount d) a \<longleftrightarrow>
     (\<exists>g. a = AuthorityAccount (d\<lparr>da_policy_generation := g\<rparr>) \<and> da_policy_generation d \<le> g)"
| "account_kept x a \<longleftrightarrow> a = x"

definition key_ok :: "bytes \<Rightarrow> i64 \<Rightarrow> i64 \<Rightarrow> bool" where
  "key_ok pk not_before not_after \<longleftrightarrow>
     length pk = COMPRESSED_PUBLIC_KEY_LEN \<and> (hd pk = 2 \<or> hd pk = 3) \<and> 0 \<le> sint not_before \<and> sint not_before < sint not_after"

fun account_ok :: "verifier_env \<Rightarrow> vstore \<Rightarrow> pubkey \<Rightarrow> vaccount \<Rightarrow> bool" where
  "account_ok env s key (ConfigAccount c) \<longleftrightarrow>
     vpda env [CONFIG_SEED, environment_seed (vc_environment c)] = (key, vc_bump c) \<and>
     vc_administrator c \<noteq> 0 \<and> vc_consumer c \<noteq> 0 \<and> vc_administrator c \<noteq> vc_consumer c"
| "account_ok env s key (TrustedKeyAccount k) \<longleftrightarrow>
     vpda env [TRUSTED_KEY_SEED, to_be_bytes (tk_config k), tk_kid k] = (key, tk_bump k) \<and>
     is_profile_text (tk_kid k) MAX_KID_LEN \<and> key_ok (tk_public_key k) (tk_not_before k) (tk_not_after k) \<and>
     (\<exists>c. s (tk_config k) = Some (ConfigAccount c) \<and> accepts_kid (vc_environment c) (tk_kid k))"
| "account_ok env s key (MandateAccount m) \<longleftrightarrow>
     vpda env [MANDATE_SEED, to_be_bytes (md_config m), to_be_bytes (md_mandate_hash m)] = (key, md_bump m) \<and>
     md_mandate_hash m = mandate_hash (ve_sha256 env) (md_mandate_id m) \<and> 0 < md_amount_micros m \<and>
     is_profile_text (md_mandate_id m) MAX_MANDATE_LEN \<and> is_profile_text (md_currency m) MAX_CURRENCY_LEN \<and>
     is_profile_text (md_recipient m) MAX_RECIPIENT_LEN \<and> is_profile_text (md_policy_version m) MAX_POLICY_LEN \<and>
     is_profile_text (md_agent m) MAX_AGENT_LEN \<and> is_profile_text (md_category m) MAX_CATEGORY_LEN \<and>
     (\<exists>c. s (md_config m) = Some (ConfigAccount c))"
| "account_ok env s key (ConsumedAccount r) \<longleftrightarrow>
     vpda env [RECEIPT_SEED, to_be_bytes (ca_config r), to_be_bytes (ca_nonce_hash r)] = (key, ca_bump r) \<and>
     sint (ca_consumed_at r) < sint (ca_expires_at r) \<and> sint (ca_expires_at r) \<le> sint (ca_consumed_at r) + 360 \<and>
     (\<exists>c. s (ca_config r) = Some (ConfigAccount c)) \<and>
     (\<exists>m. s (ca_mandate r) = Some (MandateAccount m) \<and> md_config m = ca_config r)"
| "account_ok env s key (AuthorityAccount d) \<longleftrightarrow>
     vpda env [DEPLOYMENT_AUTHORITY_SEED, to_be_bytes (da_remote_leg_program d), to_be_bytes (da_remote_config d)] = (key, da_bump d) \<and>
     da_version d = DEPLOYMENT_PROFILE_VERSION \<and> da_administrator d \<noteq> 0 \<and> da_network_domain d \<noteq> 0 \<and>
     da_remote_leg_program d \<noteq> ve_id env"
| "account_ok env s key (RiskKeyAccount k) \<longleftrightarrow>
     vpda env [RISK_KEY_SEED, to_be_bytes (ri_config k), take 1 (ri_public_key k), drop 1 (ri_public_key k)] = (key, ri_bump k) \<and>
     key_ok (ri_public_key k) (ri_not_before k) (ri_not_after k) \<and> (\<exists>d. s (ri_config k) = Some (AuthorityAccount d))"
| "account_ok env s key (ReceiptAccount r) \<longleftrightarrow>
     vpda env [DEPLOYMENT_RECEIPT_SEED, to_be_bytes (dc_config r), to_be_bytes (dc_nonce r)] = (key, dc_bump r) \<and>
     dc_version r = DEPLOYMENT_PROFILE_VERSION \<and> 0 < dc_amount r \<and>
     sint (dc_consumed_at r) < sint (dc_expires_at r) \<and> sint (dc_issued_at r) \<le> sint (dc_consumed_at r) + 60 \<and>
     sint (dc_expires_at r) \<le> sint (dc_issued_at r) + 300 \<and>
     (\<exists>d. s (dc_config r) = Some (AuthorityAccount d) \<and> da_remote_config d = dc_remote_config r \<and>
        dc_policy_generation r \<le> da_policy_generation d) \<and>
     (\<exists>k. s (dc_risk_key r) = Some (RiskKeyAccount k) \<and> ri_config k = dc_config r \<and>
        sint (ri_not_before k) \<le> sint (dc_consumed_at r) \<and> sint (dc_expires_at r) \<le> sint (ri_not_after k))"

lemma account_kept_refl: "account_kept a a"
  by (cases a) (simp_all, metis deployment_authority.surjective deployment_authority.update_convs(7) order_refl)

lemma account_kept_trans: "account_kept a b \<Longrightarrow> account_kept b c \<Longrightarrow> account_kept a c"
proof (cases a)
  case (AuthorityAccount d)
  assume "account_kept a b" "account_kept b c"
  with AuthorityAccount obtain g g' where "c = AuthorityAccount (d\<lparr>da_policy_generation := g'\<rparr>)"
    "da_policy_generation d \<le> g" "g \<le> g'" by auto
  with AuthorityAccount show ?thesis using order_trans [of _ g g'] by auto
qed auto

lemma store_kept_at:
  assumes "store_kept account_kept s s'"
  shows "s k = Some (ConfigAccount c) \<Longrightarrow> s' k = Some (ConfigAccount c)"
    and "s k = Some (MandateAccount m) \<Longrightarrow> \<exists>m'. s' k = Some (MandateAccount m') \<and> md_config m' = md_config m"
    and "s k = Some (AuthorityAccount d) \<Longrightarrow> \<exists>d'. s' k = Some (AuthorityAccount d') \<and>
      da_remote_config d' = da_remote_config d \<and> da_policy_generation d \<le> da_policy_generation d'"
    and "s k = Some (RiskKeyAccount q) \<Longrightarrow> \<exists>q'. s' k = Some (RiskKeyAccount q') \<and> ri_config q' = ri_config q \<and>
      ri_not_before q' = ri_not_before q \<and> ri_not_after q' = ri_not_after q"
proof -
  have at: "\<exists>a'. s' k = Some a' \<and> account_kept a a'" if "s k = Some a" for a
    using assms that by (simp add: store_kept_def)
  show "s k = Some (ConfigAccount c) \<Longrightarrow> s' k = Some (ConfigAccount c)" by (auto dest: at)
  show "s k = Some (MandateAccount m) \<Longrightarrow> \<exists>m'. s' k = Some (MandateAccount m') \<and> md_config m' = md_config m"
    by (auto dest!: at)
  show "s k = Some (AuthorityAccount d) \<Longrightarrow> \<exists>d'. s' k = Some (AuthorityAccount d') \<and>
      da_remote_config d' = da_remote_config d \<and> da_policy_generation d \<le> da_policy_generation d'"
    by (auto dest!: at)
  show "s k = Some (RiskKeyAccount q) \<Longrightarrow> \<exists>q'. s' k = Some (RiskKeyAccount q') \<and> ri_config q' = ri_config q \<and>
      ri_not_before q' = ri_not_before q \<and> ri_not_after q' = ri_not_after q"
    by (auto dest!: at)
qed

lemma account_ok_kept:
  assumes "account_ok env s key a" "account_kept a a'" "store_kept account_kept s s'"
  shows "account_ok env s' key a'"
proof (cases a)
  case (ReceiptAccount r)
  with assms obtain d k where d: "s (dc_config r) = Some (AuthorityAccount d)" "da_remote_config d = dc_remote_config r"
      "dc_policy_generation r \<le> da_policy_generation d"
    and k: "s (dc_risk_key r) = Some (RiskKeyAccount k)" "ri_config k = dc_config r"
      "sint (ri_not_before k) \<le> sint (dc_consumed_at r)" "sint (dc_expires_at r) \<le> sint (ri_not_after k)" by auto
  show ?thesis
    using assms(1,2) ReceiptAccount d k store_kept_at(3) [OF assms(3) d(1)] store_kept_at(4) [OF assms(3) k(1)]
    by (auto intro: order_trans)
next
  case (ConsumedAccount r)
  with assms obtain c m where "s (ca_config r) = Some (ConfigAccount c)" "s (ca_mandate r) = Some (MandateAccount m)"
    "md_config m = ca_config r" by auto
  with assms(1,2) ConsumedAccount store_kept_at(1,2) [OF assms(3)] show ?thesis by fastforce
next
  case (TrustedKeyAccount k)
  with assms(1,2) store_kept_at(1) [OF assms(3)] show ?thesis by auto
next
  case (MandateAccount m)
  with assms(1,2) store_kept_at(1) [OF assms(3)] show ?thesis by auto
next
  case (RiskKeyAccount k)
  with assms(1,2) store_kept_at(3) [OF assms(3)] show ?thesis by fastforce
qed (use assms(1,2) in auto)

section \<open>Steps\<close>

definition vstep :: "verifier_env \<Rightarrow> vstore \<Rightarrow> vstore \<Rightarrow> bool" where
  "vstep env s s' \<longleftrightarrow> (\<exists>ctx c. verifier_dispatch env ctx c s = Inr s')"

text \<open>What an instruction writes.\<close>

definition writes :: "verifier_env \<Rightarrow> vstore \<Rightarrow> vstore \<Rightarrow> bool" where
  "writes env s s' \<longleftrightarrow> (\<exists>key new. s' = s(key \<mapsto> new) \<and>
     (s key = None \<and> account_ok env s key new \<or> (\<exists>old. s key = Some old \<and> account_kept old new)))"

lemma writes_new: "s key = None \<Longrightarrow> account_ok env s key new \<Longrightarrow> writes env s (s(key \<mapsto> new))"
  by (auto simp: writes_def)

lemma writes_old: "s key = Some old \<Longrightarrow> account_kept old new \<Longrightarrow> writes env s (s(key \<mapsto> new))"
  by (auto simp: writes_def)

lemma initialize_config_writes:
  "process_initialize_config env ctx u d k p s = Inr s' \<Longrightarrow> writes env s s'"
  by (auto simp: process_initialize_config_def verifier_results intro!: writes_new)

lemma profile_kid: "is_profile_text kid MAX_KID_LEN \<Longrightarrow> kid_seed kid = kid"
  by (simp add: is_profile_text_def kid_seed_def)

lemma register_trusted_key_writes:
  assumes "process_register_trusted_key env u c k p s = Inr s'" "length (tp_public_key p) = COMPRESSED_PUBLIC_KEY_LEN"
  shows "writes env s s'"
proof -
  obtain cfg bump where "s c = Some (ConfigAccount cfg)" "s k = None"
    "vpda env [TRUSTED_KEY_SEED, to_be_bytes c, kid_seed (tp_kid p)] = (k, bump)"
    "is_profile_text (tp_kid p) MAX_KID_LEN" "accepts_kid (vc_environment cfg) (tp_kid p)"
    "hd (tp_public_key p) = 2 \<or> hd (tp_public_key p) = 3"
    "0 \<le> sint (tp_not_before p)" "sint (tp_not_before p) < sint (tp_not_after p)"
    "s' = s(k \<mapsto> TrustedKeyAccount \<lparr>tk_config = c, tk_kid = tp_kid p, tk_public_key = tp_public_key p,
      tk_not_before = tp_not_before p, tk_not_after = tp_not_after p, tk_revoked = False, tk_bump = bump\<rparr>)"
    using assms(1) by (auto simp: process_register_trusted_key_def verifier_results)
  then show ?thesis using assms(2) by (auto simp: key_ok_def profile_kid intro!: writes_new)
qed

lemma revoke_trusted_key_writes: "process_revoke_trusted_key u c k s = Inr s' \<Longrightarrow> writes env s s'"
  by (auto simp: process_revoke_trusted_key_def verifier_results intro: writes_old)

lemma register_mandate_writes: "process_register_mandate env u c k p s = Inr s' \<Longrightarrow> writes env s s'"
  by (auto simp: process_register_mandate_def verifier_results mandate_params_valid_def intro!: writes_new)

lemma revoke_mandate_writes: "process_revoke_mandate u c k s = Inr s' \<Longrightarrow> writes env s s'"
  by (auto simp: process_revoke_mandate_def verifier_results intro: writes_old)

lemma initialize_authority_writes:
  "process_initialize_deployment_authority env ctx a p s = Inr s' \<Longrightarrow> writes env s s'"
  by (auto simp: process_initialize_deployment_authority_def verifier_results intro!: writes_new)

lemma register_risk_key_writes:
  assumes "process_register_risk_key env u c k p s = Inr s'" "length (rp_public_key p) = COMPRESSED_PUBLIC_KEY_LEN"
  shows "writes env s s'"
  using assms
  by (auto simp: process_register_risk_key_def verifier_results key_ok_def public_key_parity_seed_def public_key_x_seed_def
      intro!: writes_new)

lemma revoke_risk_key_writes: "process_revoke_risk_key u c k s = Inr s' \<Longrightarrow> writes env s s'"
  by (auto simp: process_revoke_risk_key_def verifier_results intro: writes_old)

lemma advance_generation_writes:
  assumes "process_advance_policy_generation u c s = Inr s'"
  shows "writes env s s'"
proof -
  obtain d g where d: "s c = Some (AuthorityAccount d)" "checked_add_word (da_policy_generation d) 1 = Some g"
    "s' = s(c \<mapsto> AuthorityAccount (d\<lparr>da_policy_generation := g\<rparr>))"
    using assms by (auto simp: process_advance_policy_generation_def verifier_results)
  then have "da_policy_generation d \<le> g" by (simp add: amount_simps word_le_nat_alt)
  with d show ?thesis using writes_old [of s c "AuthorityAccount d"] by auto
qed

text \<open>What a consumed verdict showed.\<close>

lemma consume_authorization_step:
  assumes "process_consume_authorization env ctx a h s = Inr s'"
  obtains config k m bump precompile verified decoded claims where
    "s (cx_config a) = Some (ConfigAccount config)" "s (cx_trusted_key a) = Some (TrustedKeyAccount k)"
    "s (cx_mandate a) = Some (MandateAccount m)" "s (cx_receipt a) = None"
    "vpda env [RECEIPT_SEED, to_be_bytes (cx_config a), to_be_bytes h] = (cx_receipt a, bump)"
    "vc_consumer config = cx_consumer a" "tk_config k = cx_config a" "md_config m = cx_config a"
    "load_verified_precompile env (vx_sysvar ctx) (vx_transaction ctx) = Inr precompile"
    "parse_precompile_data (in_data precompile) = Inr verified"
    "decode_signing_input (vf_signing_input verified) = Inr decoded"
    "parse_header (ds_header_json decoded) = Inr \<lparr>th_kid = tk_kid k\<rparr>" "parse_claims (ds_payload_json decoded) = Inr claims"
    "accepts_kid (vc_environment config) (tk_kid k)" "\<not> tk_revoked k" "vf_public_key verified = tk_public_key k"
    "check_claims claims (vx_now ctx) = Inr ()" "sint (tk_not_before k) \<le> sint (vx_now ctx)"
    "sint (tk_not_before k) \<le> sint (cl_iat claims)" "sint (cl_exp claims) \<le> sint (tk_not_after k)"
    "check_mandate m claims = Inr ()" "nonce_hash (ve_sha256 env) (cl_nonce claims) = h"
    "s' = s(cx_receipt a \<mapsto> ConsumedAccount \<lparr>ca_config = cx_config a, ca_nonce_hash = h,
       ca_signing_input_hash = ve_sha256 env [vf_signing_input verified],
       ca_jti_hash = domain_hash (ve_sha256 env) JTI_DOMAIN (cl_jti claims), ca_mandate = cx_mandate a,
       ca_consumed_at = vx_now ctx, ca_expires_at = cl_exp claims, ca_bump = bump\<rparr>)"
    "check_address env [CONFIG_SEED, environment_seed (vc_environment config), [vc_bump config]] (cx_config a) = Inr ()"
  using assms unfolding process_consume_authorization_def
  by (auto simp: verifier_results)

lemma consume_authorization_writes:
  assumes "process_consume_authorization env ctx a h s = Inr s'"
  shows "writes env s s'"
  using assms
proof (cases rule: consume_authorization_step)
  case (1 config k m bump precompile verified decoded claims)
  with check_claims_Inr [OF 1(17)] show ?thesis by (auto intro!: writes_new)
qed

text \<open>What a consumed approval showed.\<close>

lemma consume_deployment_step:
  assumes "process_consume_deployment_authorization env ctx a nonce s = Inr s'"
  obtains config k bump precompile verified message where
    "s (dy_config a) = Some (AuthorityAccount config)" "s (dy_risk_key a) = Some (RiskKeyAccount k)" "s (dy_receipt a) = None"
    "vpda env [DEPLOYMENT_RECEIPT_SEED, to_be_bytes (dy_config a), to_be_bytes nonce] = (dy_receipt a, bump)"
    "ri_config k = dy_config a"
    "load_verified_precompile env (vx_sysvar ctx) (vx_transaction ctx) = Inr precompile"
    "parse_precompile_data (in_data precompile) = Inr verified"
    "authorization_decode (vf_signing_input verified) = Inr message"
    "\<not> ri_revoked k" "vf_public_key verified = ri_public_key k" "az_authority message = dy_config a"
    "az_network_domain message = da_network_domain config" "az_policy_generation message = da_policy_generation config"
    "0 < az_amount message" "az_nonce message = nonce" "check_times message (vx_now ctx) = Inr ()"
    "sint (ri_not_before k) \<le> sint (vx_now ctx)" "sint (ri_not_before k) \<le> sint (az_issued_at message)"
    "sint (az_expires_at message) \<le> sint (ri_not_after k)"
    "check_deployment_follows env (vx_sysvar ctx) (vx_transaction ctx) config (dy_receipt a) (az_amount message) = Inr ()"
    "s' = s(dy_receipt a \<mapsto> ReceiptAccount \<lparr>dc_version = DEPLOYMENT_PROFILE_VERSION, dc_bump = bump, dc_config = dy_config a,
       dc_remote_config = da_remote_config config, dc_risk_key = dy_risk_key a, dc_nonce = nonce,
       dc_deployment_context = az_deployment_context message, dc_amount = az_amount message,
       dc_policy_generation = az_policy_generation message, dc_issued_at = az_issued_at message,
       dc_expires_at = az_expires_at message, dc_consumed_at = vx_now ctx,
       dc_message_hash = ve_sha256 env [vf_signing_input verified]\<rparr>)"
    "check_address env [DEPLOYMENT_AUTHORITY_SEED, to_be_bytes (da_remote_leg_program config),
       to_be_bytes (da_remote_config config), [da_bump config]] (dy_config a) = Inr ()"
  using assms unfolding process_consume_deployment_authorization_def
  by (auto simp: verifier_results)

lemma consume_deployment_writes:
  assumes "process_consume_deployment_authorization env ctx a nonce s = Inr s'"
  shows "writes env s s'"
  using assms
proof (cases rule: consume_deployment_step)
  case (1 config k bump precompile verified message)
  with check_times_Inr [OF 1(16)] show ?thesis by (auto intro!: writes_new)
qed

lemmas instruction_writes =
  initialize_config_writes register_trusted_key_writes revoke_trusted_key_writes register_mandate_writes
  revoke_mandate_writes consume_authorization_writes initialize_authority_writes register_risk_key_writes
  revoke_risk_key_writes advance_generation_writes consume_deployment_writes

lemma dispatch_writes:
  assumes "verifier_dispatch env ctx c s = Inr s'"
  shows "writes env s s'"
proof -
  have run: "process_instruction env ctx c s = Inr s'" and args: "arguments_decode c"
    using assms by (simp_all add: verifier_dispatch_def split: if_splits)
  show ?thesis using run args by (cases c) (simp_all add: arguments_decode_def instruction_writes)
qed

interpretation verifier: permanent_store "vstep env" account_kept "account_ok env" for env
proof
  show "vstep env s s' \<Longrightarrow> \<exists>key new. s' = s(key \<mapsto> new) \<and>
      (s key = None \<and> account_ok env s key new \<or> (\<exists>old. s key = Some old \<and> account_kept old new))" for s s'
    unfolding vstep_def using dispatch_writes by (auto simp: writes_def)
qed (auto intro: account_kept_refl account_kept_trans account_ok_kept)

end
