(* ===== verification/Auth_Demo.thy ===== *)
theory Auth_Demo
  imports Auth_Inv Leg_Demo
begin

text \<open>
  A concrete run of the verifier up to the receipt that the deployment in \<open>Leg_Demo\<close> spends: the
  authority is created, its generation advanced, a risk key registered and an approval consumed.
\<close>

definition demo_place :: "bytes \<Rightarrow> pubkey" where
  "demo_place seed =
     (if seed = DEPLOYMENT_AUTHORITY_SEED then 90 else if seed = RISK_KEY_SEED then 91
      else if seed = DEPLOYMENT_RECEIPT_SEED then 3021 else 92)"

definition demo_env :: verifier_env where
  "demo_env = \<lparr>ve_id = 2, ve_compute_budget = 3, ve_secp256r1 = 4, ve_instructions_sysvar = 5, ve_upgradeable_loader = 6,
     ve_sha256 = (\<lambda>_. 0), ve_find_program_address = (\<lambda>seeds _. (demo_place (hd seeds), 255)),
     ve_create_program_address = (\<lambda>seeds _. Some (demo_place (hd seeds)))\<rparr>"

definition demo_authority :: "u64 \<Rightarrow> deployment_authority" where
  "demo_authority generation = \<lparr>da_version = 2, da_bump = 255, da_administrator = 70, da_remote_leg_program = 1,
     da_remote_config = demo_key, da_network_domain = 7, da_policy_generation = generation\<rparr>"

definition demo_risk_key :: risk_key where
  "demo_risk_key = \<lparr>ri_config = 90, ri_public_key = 2 # replicate 32 0, ri_not_before = 0, ri_not_after = 1000,
     ri_revoked = False, ri_bump = 255\<rparr>"

definition demo_approval :: deployment_authorization where
  "demo_approval = \<lparr>az_authority = 90, az_network_domain = 7, az_policy_generation = 1,
     az_deployment_context = dc_deployment_context demo_receipt, az_amount = 25, az_nonce = 1, az_issued_at = 90,
     az_expires_at = 200\<rparr>"

definition demo_precompile :: instruction where
  "demo_precompile = \<lparr>in_program_id = 4, in_accounts = [],
     in_data = canonical_header 154 @ ri_public_key demo_risk_key @ replicate 64 0 @ authorization_encode demo_approval\<rparr>"

definition demo_deploy :: instruction where
  "demo_deploy = \<lparr>in_program_id = 1, in_accounts = map (\<lambda>k. meta_readonly k False) (demo_key # replicate 12 0 @ [3021, 0]),
     in_data = DEPLOY_TO_STRATEGY_DISCRIMINATOR @ to_le_bytes (25 :: u64)\<rparr>"

definition demo_context :: vcontext where
  "demo_context = \<lparr>vx_now = 100, vx_sysvar = 5,
     vx_transaction = \<lparr>tx_stack_height = 1, tx_current_index = 1,
       tx_instructions = [demo_precompile, \<lparr>in_program_id = 2, in_accounts = [], in_data = []\<rparr>, demo_deploy]\<rparr>,
     vx_outside = \<lparr>ou_program_data = [92 \<mapsto> Some 71], ou_executable = (\<lambda>k. k = 1), ou_owner = (\<lambda>_. 1),
       ou_data = (\<lambda>_. [1])\<rparr>\<rparr>"

definition demo_store :: vstore where
  "demo_store = [90 \<mapsto> AuthorityAccount (demo_authority 1), 91 \<mapsto> RiskKeyAccount demo_risk_key]"

definition demo_spent :: vstore where
  "demo_spent = demo_store(3021 \<mapsto> ReceiptAccount demo_receipt)"

definition demo_consume :: vcall where
  "demo_consume = ConsumeDeploymentAuthorization \<lparr>dy_payer = 72, dy_config = 90, dy_risk_key = 91, dy_receipt = 3021\<rparr> 1"

lemma demo_seeds:
  "length DEPLOYMENT_AUTHORITY_SEED = 23" "length RISK_KEY_SEED = 15" "length DEPLOYMENT_RECEIPT_SEED = 21"
  by (simp_all add: DEPLOYMENT_AUTHORITY_SEED_def RISK_KEY_SEED_def DEPLOYMENT_RECEIPT_SEED_def ascii_bytes_def)

lemma demo_places [simp]:
  "demo_place DEPLOYMENT_AUTHORITY_SEED = 90" "demo_place RISK_KEY_SEED = 91" "demo_place DEPLOYMENT_RECEIPT_SEED = 3021"
  "length x = 32 \<Longrightarrow> demo_place x = 92"
  using demo_seeds by (auto simp: demo_place_def)

lemma demo_env_simps [simp]:
  "ve_id demo_env = 2" "ve_compute_budget demo_env = 3" "ve_secp256r1 demo_env = 4" "ve_instructions_sysvar demo_env = 5"
  "ve_sha256 demo_env x = 0" "ve_find_program_address demo_env seeds p = (demo_place (hd seeds), 255)"
  "ve_create_program_address demo_env seeds p = Some (demo_place (hd seeds))"
  by (simp_all add: demo_env_def)

lemma demo_init [simp]:
  "init_account demo_env seeds key s =
     (if (\<forall>x \<in> set seeds. length x \<le> 32) \<and> key = demo_place (hd seeds) \<and> s key = None then Inr 255 else Inl VFramework)"
  by (auto simp: init_account_def vpda_def list_all_iff MAX_SEED_LEN_def)

lemma demo_created:
  "verifier_dispatch demo_env demo_context (InitializeDeploymentAuthority
     \<lparr>ax_upgrade_authority = 71, ax_program_data = 92, ax_remote_leg_program = 1, ax_remote_config = demo_key, ax_config = 90\<rparr>
     \<lparr>ap_administrator = 70, ap_network_domain = 7\<rparr>) Map.empty = Inr [90 \<mapsto> AuthorityAccount (demo_authority 0)]"
  by (simp add: verifier_dispatch_def arguments_decode_def process_initialize_deployment_authority_def demo_seeds
      load_program_data_def check_upgrade_authority_def demo_context_def demo_authority_def DEPLOYMENT_PROFILE_VERSION_def)

lemma demo_advanced:
  "verifier_dispatch demo_env demo_context (AdvancePolicyGeneration 70 90) [90 \<mapsto> AuthorityAccount (demo_authority 0)] =
     Inr [90 \<mapsto> AuthorityAccount (demo_authority 1)]"
  by (simp add: verifier_dispatch_def arguments_decode_def process_advance_policy_generation_def load_authority_def
      demo_authority_def checked_add_word_def)

lemma demo_registered:
  "verifier_dispatch demo_env demo_context (RegisterRiskKey 70 90 91 \<lparr>rp_public_key = 2 # replicate 32 0, rp_not_before = 0,
     rp_not_after = 1000\<rparr>) [90 \<mapsto> AuthorityAccount (demo_authority 1)] = Inr demo_store"
  by (simp add: verifier_dispatch_def arguments_decode_def process_register_risk_key_def load_authority_def
      demo_authority_def demo_seeds public_key_parity_seed_def public_key_x_seed_def check_public_key_def
      check_key_window_def demo_store_def demo_risk_key_def COMPRESSED_PUBLIC_KEY_LEN_def)

lemma demo_precompile_loaded:
  "load_verified_precompile demo_env 5 (vx_transaction demo_context) = Inr demo_precompile"
  using shape_loads_precompile [of demo_env "vx_transaction demo_context" demo_precompile]
  by (auto simp: consume_shape_def demo_context_def demo_precompile_def demo_deploy_def intro!: exI [of _ "[]"])

lemma approval_length [simp]: "length (authorization_encode m) = 154"
  by (simp add: authorization_encode_def)

lemma demo_precompile_parsed:
  "parse_precompile_data (in_data demo_precompile) =
     Inr \<lparr>vf_public_key = ri_public_key demo_risk_key, vf_signing_input = authorization_encode demo_approval\<rparr>"
  unfolding parse_precompile_data_Inr
  by (intro exI [of _ "replicate 64 0"])
    (simp add: demo_precompile_def demo_risk_key_def SIGNATURE_LEN_def COMPRESSED_PUBLIC_KEY_LEN_def
      MAX_SIGNING_INPUT_LEN_def flip: length_greater_0_conv)

lemma demo_follows:
  "check_deployment_follows demo_env 5 (vx_transaction demo_context) (demo_authority 1) 3021 25 = Inr ()"
  by (simp add: check_deployment_follows_Inr demo_context_def instruction_at_def demo_deploy_def demo_authority_def
      DEPLOY_ACCOUNT_COUNT_def DEPLOY_REMOTE_CONFIG_INDEX_def DEPLOY_RECEIPT_INDEX_def named_account_def meta_readonly_def
      nth_append)

lemma demo_times: "check_times demo_approval 100 = Inr ()"
  by (simp add: check_times_def demo_approval_def checked_add_i64_def MAX_LIFETIME_SECONDS_def MAX_ISSUED_AT_SKEW_SECONDS_def)

lemma demo_store_facts:
  "load_authority demo_store 90 = Inr (demo_authority 1)" "load_risk_key demo_store 91 = Inr demo_risk_key"
  "demo_store 3021 = None" "vx_now demo_context = 100" "vx_sysvar demo_context = 5"
  by (simp_all add: demo_store_def load_authority_def load_risk_key_def demo_context_def)

lemma demo_consumed: "verifier_dispatch demo_env demo_context demo_consume demo_store = Inr demo_spent"
proof -
  have address: "check_address demo_env [DEPLOYMENT_AUTHORITY_SEED, to_be_bytes (da_remote_leg_program (demo_authority 1)),
      to_be_bytes (da_remote_config (demo_authority 1)), [da_bump (demo_authority 1)]] 90 = Inr ()"
    by (simp add: check_address_def)
  have amount: "az_amount demo_approval = 25" by (simp add: demo_approval_def)
  have receipt: "\<lparr>dc_version = DEPLOYMENT_PROFILE_VERSION, dc_bump = 255, dc_config = 90,
       dc_remote_config = da_remote_config (demo_authority 1), dc_risk_key = 91, dc_nonce = 1,
       dc_deployment_context = az_deployment_context demo_approval, dc_amount = az_amount demo_approval,
       dc_policy_generation = az_policy_generation demo_approval, dc_issued_at = az_issued_at demo_approval,
       dc_expires_at = az_expires_at demo_approval, dc_consumed_at = 100, dc_message_hash = 0\<rparr> = demo_receipt"
    by (simp add: demo_receipt_def demo_approval_def demo_authority_def DEPLOYMENT_PROFILE_VERSION_def)
  have fields: "ri_config demo_risk_key = 90" "\<not> ri_revoked demo_risk_key" "az_authority demo_approval = 90"
    "az_network_domain demo_approval = da_network_domain (demo_authority 1)"
    "az_policy_generation demo_approval = da_policy_generation (demo_authority 1)" "az_nonce demo_approval = 1"
    "sint (ri_not_before demo_risk_key) \<le> 100" "sint (ri_not_before demo_risk_key) \<le> sint (az_issued_at demo_approval)"
    "sint (az_expires_at demo_approval) \<le> sint (ri_not_after demo_risk_key)"
    by (simp_all add: demo_risk_key_def demo_approval_def demo_authority_def)
  show ?thesis
    unfolding demo_spent_def receipt [symmetric]
    by (simp add: verifier_dispatch_def arguments_decode_def demo_consume_def process_consume_deployment_authorization_def
        demo_store_facts demo_seeds address fields demo_precompile_loaded demo_precompile_parsed
        authorization_decode_encode demo_times demo_follows amount)
qed

lemma demo_run: "(vstep demo_env)\<^sup>*\<^sup>* Map.empty demo_store" "vstep demo_env demo_store demo_spent"
proof -
  have steps: "vstep demo_env Map.empty [90 \<mapsto> AuthorityAccount (demo_authority 0)]"
    "vstep demo_env [90 \<mapsto> AuthorityAccount (demo_authority 0)] [90 \<mapsto> AuthorityAccount (demo_authority 1)]"
    "vstep demo_env [90 \<mapsto> AuthorityAccount (demo_authority 1)] demo_store"
    unfolding vstep_def using demo_created demo_advanced demo_registered by blast+
  note more = rtranclp.rtrancl_into_rtrancl [where r = "vstep demo_env" and a = Map.empty]
  show "(vstep demo_env)\<^sup>*\<^sup>* Map.empty demo_store"
    by (rule more [OF more [OF more [OF rtranclp.rtrancl_refl steps(1)] steps(2)] steps(3)])
  show "vstep demo_env demo_store demo_spent" unfolding vstep_def using demo_consumed by blast
qed

end
