(* ===== verification/Auth_Props.thy ===== *)
theory Auth_Props
  imports Auth_Demo Leg_Props
begin

text \<open>
  The theorems about the authorization verifier: which verdicts it consumes, that a nonce is spent
  once and accounts are permanent, which documents its readers accept, and what a deployment of the
  remote leg proves about the approval behind it.
\<close>

section \<open>Readers\<close>

text \<open>C33. The base64url decoder accepts exactly the unpadded canonical encodings: a text decodes to
  some bytes if and only if it is what the reference encoder makes of those bytes, so no two texts decode
  to the same bytes and every byte string has a text.\<close>

theorem base64_accepts_canonical: "decode_base64url s = Inr bs \<longleftrightarrow> s = base64_encode bs"
  by (rule base64_Inr)

text \<open>C32. The claims reader accepts a document exactly when the document is, in the grammar, one
  object with the nine claims, each once and nothing else, every text within its bounds, both times and
  the amount in range, and the nested request object of its five fields; and it then returns
  exactly those values.\<close>

theorem claims_documents_exactly:
  "parse_claims bs = Inr c \<longleftrightarrow> (\<exists>ms. document (JObject ms) bs \<and> claims_object ms c)"
  by (rule parse_claims_iff)

text \<open>C34. The loop over the fields of an object ends, for the header, the request and the claims alike, from every
  cursor inside a document: run round by round as the source does, without fuel, it stops after at most as many
  rounds as bytes are left (one, when none is), with exactly one result, and that is what the model's loop returns with the
  bytes left as fuel. A loop that could go on forever would have no result.\<close>

theorem object_loops_end:
  assumes "cursor_ok c"
  shows "ends_with header_visit c hs (object_loop (bytes_left c) header_visit c hs) \<and>
    ends_with request_visit c qs (object_loop (bytes_left c) request_visit c qs) \<and>
    ends_with claims_visit c cs (object_loop (bytes_left c) claims_visit c cs)"
  using header.loop_ends_with [OF assms] request.loop_ends_with [OF assms] claims.loop_ends_with [OF assms] by blast

text \<open>Two fields and the closing brace.\<close>

definition demo_fields :: cursor where
  "demo_fields = cursor_new (ascii_bytes [CHR 0x22, CHR ''t'', CHR ''y'', CHR ''p'', CHR 0x22, CHR '':'', CHR 0x22, CHR ''J'',
     CHR ''W'', CHR ''T'', CHR 0x22, CHR '','', CHR 0x22, CHR ''k'', CHR ''i'', CHR ''d'', CHR 0x22, CHR '':'', CHR 0x22, CHR ''k'',
     CHR ''1'', CHR 0x22, CHR ''}''])"

theorem object_loops_end_witness:
  "\<exists>c s k. object_ends header_visit demo_fields \<lparr>hs_alg = None, hs_kid = None, hs_typ = None\<rparr> (Inr (c, s)) k \<and>
     k \<le> 23 \<and> bytes_left c = 0 \<and> hs_kid s = Some (ascii_bytes ''k1'')"
proof -
  let ?e = "\<lparr>hs_alg = None, hs_kid = None, hs_typ = None\<rparr> :: header_slots"
  have here: "cursor_ok demo_fields" "bytes_left demo_fields = 23"
    by (simp_all add: demo_fields_def cursor_new_def cursor_ok_def bytes_left_def ascii_bytes_def)
  have "case object_loop 23 header_visit demo_fields ?e of Inl _ \<Rightarrow> False
    | Inr (c, s) \<Rightarrow> bytes_left c = 0 \<and> hs_kid s = Some (ascii_bytes ''k1'')"
    by code_simp
  then obtain c s where loop: "object_loop 23 header_visit demo_fields ?e = Inr (c, s)" "bytes_left c = 0"
    "hs_kid s = Some (ascii_bytes ''k1'')"
    by (auto split: sum.splits)
  from object_loops_end [OF here(1), of ?e] have "ends_with header_visit demo_fields ?e (Inr (c, s))"
    by (simp only: here(2) loop(1))
  with loop(2,3) here(2) show ?thesis by (auto simp: ends_with_def)
qed

section \<open>Accounts\<close>

text \<open>C28. Every account the verifier ever holds is well formed: it lies at the address its own fields
  derive, keys have 33 bytes and a parity prefix and a window, mandates have texts a token can
  carry and the hash of their id, receipts were consumed before their expiry and within the
  skew and lifetime, and the accounts they name exist and agree with them.\<close>

theorem verifier_accounts_well_formed:
  assumes "(vstep env)\<^sup>*\<^sup>* Map.empty s" "s key = Some a"
  shows "account_ok env s key a"
  using verifier.run_well_formed [OF assms(1)] assms(2) by (simp add: verifier.well_formed_def)

text \<open>C13. No instruction removes or rewrites an account: along every run each account stays at its address
  with its contents, except that a key or mandate may become revoked, never the other way, and that a
  policy generation may grow.\<close>

theorem verifier_accounts_permanent:
  assumes "(vstep env)\<^sup>*\<^sup>* s s'" "s key = Some a"
  shows "\<exists>a'. s' key = Some a' \<and> account_kept a a'"
  using assms by (rule verifier.kept_entry) blast

lemma demo_reached: "(vstep demo_env)\<^sup>*\<^sup>* Map.empty demo_spent"
  by (rule rtranclp.rtrancl_into_rtrancl [where r = "vstep demo_env", OF demo_run])

lemma demo_spent_at: "demo_spent 3021 = Some (ReceiptAccount demo_receipt)" "demo_spent 91 = Some (RiskKeyAccount demo_risk_key)"
  by (simp_all add: demo_spent_def demo_store_def)

theorem verifier_accounts_well_formed_witness: "account_ok demo_env demo_spent 3021 (ReceiptAccount demo_receipt)"
  by (rule verifier_accounts_well_formed [OF demo_reached demo_spent_at(1)])

theorem verifier_accounts_permanent_witness: "\<exists>a'. demo_spent 91 = Some a' \<and> account_kept (RiskKeyAccount demo_risk_key) a'"
  by (rule verifier_accounts_permanent [OF r_into_rtranclp [of "vstep demo_env", OF demo_run(2)]])
    (simp add: demo_store_def)

section \<open>Nonces\<close>

text \<open>The address an instruction records a nonce at.\<close>

fun receipt_seeds :: "vcall \<Rightarrow> bytes list option" where
  "receipt_seeds (ConsumeAuthorization a h) = Some [RECEIPT_SEED, to_be_bytes (cx_config a), to_be_bytes h]"
| "receipt_seeds (ConsumeDeploymentAuthorization a n) =
     Some [DEPLOYMENT_RECEIPT_SEED, to_be_bytes (dy_config a), to_be_bytes n]"
| "receipt_seeds _ = None"

lemma consume_fills_receipt:
  assumes "verifier_dispatch env ctx c s = Inr s'" "receipt_seeds c = Some seeds"
  shows "s (fst (vpda env seeds)) = None" "s' (fst (vpda env seeds)) \<noteq> None"
proof -
  have run: "process_instruction env ctx c s = Inr s'"
    using assms(1) by (simp add: verifier_dispatch_def split: if_splits)
  have "s (fst (vpda env seeds)) = None \<and> s' (fst (vpda env seeds)) \<noteq> None"
  proof (cases c)
    case (ConsumeAuthorization a h)
    with run have "process_consume_authorization env ctx a h s = Inr s'" by simp
    then show ?thesis using assms(2) ConsumeAuthorization by (cases rule: consume_authorization_step) auto
  next
    case (ConsumeDeploymentAuthorization a n)
    with run have "process_consume_deployment_authorization env ctx a n s = Inr s'" by simp
    then show ?thesis using assms(2) ConsumeDeploymentAuthorization by (cases rule: consume_deployment_step) auto
  qed (use assms(2) in simp_all)
  then show "s (fst (vpda env seeds)) = None" "s' (fst (vpda env seeds)) \<noteq> None" by simp_all
qed

lemma nonce_stays_spent:
  assumes "verifier_dispatch env ctx c s = Inr s1" "receipt_seeds c = Some seeds" "(vstep env)\<^sup>*\<^sup>* s1 s2"
    and "receipt_seeds c' = Some seeds"
  shows "\<exists>e. verifier_dispatch env ctx' c' s2 = Inl e"
proof (cases "verifier_dispatch env ctx' c' s2")
  case (Inr s3)
  obtain b where "s1 (fst (vpda env seeds)) = Some b" using consume_fills_receipt(2) [OF assms(1,2)] by blast
  with assms(3) obtain b' where "s2 (fst (vpda env seeds)) = Some b'" by (rule verifier.kept_entry)
  with consume_fills_receipt(1) [OF Inr assms(4)] show ?thesis by simp
qed simp

text \<open>C12. A nonce is spent at most once: after an instruction consumed a verdict or an approval, no run, however
  long and whoever acts, reaches a state in which an instruction with the same configuration and nonce
  succeeds.\<close>

theorem nonce_spent_once:
  assumes "verifier_dispatch env ctx c s = Inr s1" "receipt_seeds c = Some seeds" "(vstep env)\<^sup>*\<^sup>* s1 s2"
    and "receipt_seeds c' = Some seeds"
  shows "\<exists>e. verifier_dispatch env ctx' c' s2 = Inl e"
  using assms by (rule nonce_stays_spent)

theorem nonce_spent_once_witness:
  "\<exists>e. verifier_dispatch demo_env demo_context demo_consume demo_spent = Inl e"
  using nonce_spent_once [OF demo_consumed _ rtranclp.rtrancl_refl] by (simp add: demo_consume_def)

section \<open>Verdicts\<close>

lemma check_claims_iff:
  assumes "sint (cl_exp c) + 60 < 2 ^ 63"
  shows "check_claims c now = Inr () \<longleftrightarrow>
    cl_iss c = ISSUER \<and> cl_verdict c = ALLOW_VERDICT \<and> sint (cl_exp c) = sint (cl_iat c) + 300 \<and>
    sint (cl_iat c) \<le> sint now + 60 \<and> sint now < sint (cl_exp c)"
proof
  assume r: "cl_iss c = ISSUER \<and> cl_verdict c = ALLOW_VERDICT \<and> sint (cl_exp c) = sint (cl_iat c) + 300 \<and>
    sint (cl_iat c) \<le> sint now + 60 \<and> sint now < sint (cl_exp c)"
  have now: "checked_add_i64 now 60 = Some (now + 60)"
    using r assms sint_greater_eq [of now] by (simp add: checked_add_i64_def)
  then have "sint (now + 60) = sint now + 60" by (simp add: checked_add_i64_Some)
  moreover have "checked_add_i64 (cl_iat c) 300 = Some (cl_exp c)" using r by (simp add: checked_add_i64_Some)
  ultimately show "check_claims c now = Inr ()" using r now
    by (simp add: check_claims_def VERDICT_LIFETIME_SECONDS_def MAX_ISSUED_AT_SKEW_SECONDS_def)
qed (use check_claims_Inr in blast)

lemma parse_timestamp_bound: "parse_timestamp t = Inr v \<Longrightarrow> sint v \<le> 253402300799"
  by (auto simp: parse_timestamp_def and_then_Inr MAX_TIMESTAMP_def split: if_splits)

lemma claims_times: "claims_object ms c \<Longrightarrow> sint (cl_exp c) + 60 < 2 ^ 63"
  using parse_timestamp_bound by (fastforce simp: claims_object_def number_field_def)

text \<open>
  What a signing input has to say for one key and mandate at one time: a header with the key's
  id and a claims object from the issuer that allows exactly what the mandate describes, issued no more
  than a minute ahead of the clock, not yet expired, with its whole life inside the key's window.
\<close>

definition verdict_allows ::
  "i64 \<Rightarrow> verifier_config \<Rightarrow> trusted_key \<Rightarrow> mandate \<Rightarrow> bytes \<Rightarrow> claims \<Rightarrow> bool" where
  "verdict_allows now config k m input c \<longleftrightarrow>
     (\<exists>hj pj hms cms. input = base64_encode hj @ 46 # base64_encode pj \<and> hj \<noteq> [] \<and> pj \<noteq> [] \<and>
        document (JObject hms) hj \<and> header_object hms \<lparr>th_kid = tk_kid k\<rparr> \<and>
        document (JObject cms) pj \<and> claims_object cms c) \<and>
     accepts_kid (vc_environment config) (tk_kid k) \<and> \<not> tk_revoked k \<and> \<not> md_revoked m \<and>
     cl_iss c = ISSUER \<and> cl_verdict c = ALLOW_VERDICT \<and> cl_mandate c = md_mandate_id m \<and>
     cl_policy_version c = md_policy_version m \<and>
     cl_request c = \<lparr>rq_agent = md_agent m, rq_amount_micros = md_amount_micros m, rq_currency = md_currency m,
       rq_recipient = md_recipient m, rq_category = md_category m\<rparr> \<and>
     sint (cl_exp c) = sint (cl_iat c) + 300 \<and> sint (cl_iat c) \<le> sint now + 60 \<and> sint now < sint (cl_exp c) \<and>
     sint (tk_not_before k) \<le> sint now \<and> sint (tk_not_before k) \<le> sint (cl_iat c) \<and>
     sint (cl_exp c) \<le> sint (tk_not_after k)"

lemma check_mandate_iff:
  "check_mandate m c = Inr () \<longleftrightarrow> \<not> md_revoked m \<and> cl_mandate c = md_mandate_id m \<and>
     cl_policy_version c = md_policy_version m \<and>
     cl_request c = \<lparr>rq_agent = md_agent m, rq_amount_micros = md_amount_micros m, rq_currency = md_currency m,
       rq_recipient = md_recipient m, rq_category = md_category m\<rparr>"
  by (auto simp: check_mandate_def Let_def verifier_results)

lemma verdict_allows_iff:
  "verdict_allows now config k m input c \<longleftrightarrow>
     (\<exists>d. decode_signing_input input = Inr d \<and> parse_header (ds_header_json d) = Inr \<lparr>th_kid = tk_kid k\<rparr> \<and>
        parse_claims (ds_payload_json d) = Inr c) \<and>
     accepts_kid (vc_environment config) (tk_kid k) \<and> \<not> tk_revoked k \<and> check_claims c now = Inr () \<and>
     sint (tk_not_before k) \<le> sint now \<and> sint (tk_not_before k) \<le> sint (cl_iat c) \<and>
     sint (cl_exp c) \<le> sint (tk_not_after k) \<and> check_mandate m c = Inr ()"
proof -
  have doc: "(\<exists>hj pj hms cms. input = base64_encode hj @ 46 # base64_encode pj \<and> hj \<noteq> [] \<and> pj \<noteq> [] \<and>
        document (JObject hms) hj \<and> header_object hms \<lparr>th_kid = tk_kid k\<rparr> \<and>
        document (JObject cms) pj \<and> claims_object cms c) \<longleftrightarrow>
     (\<exists>d. decode_signing_input input = Inr d \<and> parse_header (ds_header_json d) = Inr \<lparr>th_kid = tk_kid k\<rparr> \<and>
        parse_claims (ds_payload_json d) = Inr c)" (is "?l \<longleftrightarrow> ?r")
  proof
    assume ?l
    then obtain hj pj where "decode_signing_input input = Inr \<lparr>ds_header_json = hj, ds_payload_json = pj\<rparr>"
      "parse_header hj = Inr \<lparr>th_kid = tk_kid k\<rparr>" "parse_claims pj = Inr c"
      unfolding decode_signing_input_Inr parse_header_iff parse_claims_iff by auto
    then show ?r by (intro exI [of _ "\<lparr>ds_header_json = hj, ds_payload_json = pj\<rparr>"]) simp
  next
    assume ?r
    then show ?l unfolding decode_signing_input_Inr parse_header_iff parse_claims_iff by blast
  qed
  show ?thesis
  proof (cases "\<exists>bs. parse_claims bs = Inr c")
    case True
    then have "sint (cl_exp c) + 60 < 2 ^ 63" using claims_times parse_claims_iff by blast
    from check_claims_iff [OF this] show ?thesis unfolding verdict_allows_def doc by (auto simp: check_mandate_iff)
  next
    case False
    then show ?thesis unfolding verdict_allows_def doc by blast
  qed
qed

lemmas layout_sizes = SIGNATURE_LEN_def COMPRESSED_PUBLIC_KEY_LEN_def MAX_SIGNING_INPUT_LEN_def

lemma consume_authorization_succeeds:
  assumes "s (cx_config a) = Some (ConfigAccount config)" "s (cx_trusted_key a) = Some (TrustedKeyAccount k)"
    and "s (cx_mandate a) = Some (MandateAccount m)" "s (cx_receipt a) = None"
    and "vpda env [RECEIPT_SEED, to_be_bytes (cx_config a), to_be_bytes h] = (cx_receipt a, bump)"
    and "check_address env [CONFIG_SEED, environment_seed (vc_environment config), [vc_bump config]] (cx_config a) = Inr ()"
    and "vc_consumer config = cx_consumer a" "tk_config k = cx_config a" "md_config m = cx_config a"
    and "load_verified_precompile env (vx_sysvar ctx) (vx_transaction ctx) = Inr precompile"
    and "in_data precompile = canonical_header (word_of_nat (length input)) @ tk_public_key k @ sig @ input"
    and "length (tk_public_key k) = 33" "length sig = 64" "input \<noteq> []" "length input \<le> 512"
    and "verdict_allows (vx_now ctx) config k m input c" "nonce_hash (ve_sha256 env) (cl_nonce c) = h"
  shows "process_consume_authorization env ctx a h s = Inr (s(cx_receipt a \<mapsto> ConsumedAccount
    \<lparr>ca_config = cx_config a, ca_nonce_hash = h, ca_signing_input_hash = ve_sha256 env [input],
     ca_jti_hash = domain_hash (ve_sha256 env) JTI_DOMAIN (cl_jti c), ca_mandate = cx_mandate a,
     ca_consumed_at = vx_now ctx, ca_expires_at = cl_exp c, ca_bump = bump\<rparr>))"
proof -
  obtain d where v: "decode_signing_input input = Inr d" "parse_header (ds_header_json d) = Inr \<lparr>th_kid = tk_kid k\<rparr>"
    "parse_claims (ds_payload_json d) = Inr c" "accepts_kid (vc_environment config) (tk_kid k)" "\<not> tk_revoked k"
    "check_claims c (vx_now ctx) = Inr ()" "sint (tk_not_before k) \<le> sint (vx_now ctx)"
    "sint (tk_not_before k) \<le> sint (cl_iat c)" "sint (cl_exp c) \<le> sint (tk_not_after k)" "check_mandate m c = Inr ()"
    using assms(16) unfolding verdict_allows_iff by blast
  have parsed: "parse_precompile_data (in_data precompile) = Inr \<lparr>vf_public_key = tk_public_key k, vf_signing_input = input\<rparr>"
    unfolding parse_precompile_data_Inr layout_sizes using assms(11-15) by auto
  have "length RECEIPT_SEED = 8" by (simp add: RECEIPT_SEED_def ascii_bytes_def)
  then have init: "init_account env [RECEIPT_SEED, to_be_bytes (cx_config a), to_be_bytes h] (cx_receipt a) s = Inr bump"
    by (simp add: init_account_Inr assms(4,5))
  have sysvar: "vx_sysvar ctx = ve_instructions_sysvar env"
    using assms(10) by (auto simp: load_verified_precompile_def and_then_Inr load_current_index_def split: if_splits)
  have "load_config s (cx_config a) = Inr config" "load_trusted_key s (cx_trusted_key a) = Inr k"
    "load_mandate s (cx_mandate a) = Inr m" by (simp_all add: load_Inr assms)
  then show ?thesis
    unfolding process_consume_authorization_def
    by (simp add: init assms(6-9,17) assms(10) [unfolded sysvar] sysvar parsed v)
qed

text \<open>C11. The verifier consumes a verdict exactly when it should. The instruction succeeds if and only if the
  configuration, key and mandate belong together, the caller is the consumer, the receipt address of
  the nonce is free, and the secp256r1 instruction just before it carries, in the one canonical layout, this
  key, a signature and a signing input that allows what the mandate describes, for the nonce
  whose hash was given; its only effect is then the receipt, with the hash of the signed bytes.\<close>

theorem verdict_consumed_exactly:
  "verifier_dispatch env ctx (ConsumeAuthorization a h) s = Inr s' \<longleftrightarrow>
     (\<exists>config k m bump precompile sig input c.
        s (cx_config a) = Some (ConfigAccount config) \<and> s (cx_trusted_key a) = Some (TrustedKeyAccount k) \<and>
        s (cx_mandate a) = Some (MandateAccount m) \<and> s (cx_receipt a) = None \<and>
        vpda env [RECEIPT_SEED, to_be_bytes (cx_config a), to_be_bytes h] = (cx_receipt a, bump) \<and>
        check_address env [CONFIG_SEED, environment_seed (vc_environment config), [vc_bump config]] (cx_config a) = Inr () \<and>
        vc_consumer config = cx_consumer a \<and> tk_config k = cx_config a \<and> md_config m = cx_config a \<and>
        load_verified_precompile env (vx_sysvar ctx) (vx_transaction ctx) = Inr precompile \<and>
        in_data precompile = canonical_header (word_of_nat (length input)) @ tk_public_key k @ sig @ input \<and>
        length (tk_public_key k) = 33 \<and> length sig = 64 \<and> input \<noteq> [] \<and> length input \<le> 512 \<and>
        verdict_allows (vx_now ctx) config k m input c \<and> nonce_hash (ve_sha256 env) (cl_nonce c) = h \<and>
        s' = s(cx_receipt a \<mapsto> ConsumedAccount \<lparr>ca_config = cx_config a, ca_nonce_hash = h,
          ca_signing_input_hash = ve_sha256 env [input], ca_jti_hash = domain_hash (ve_sha256 env) JTI_DOMAIN (cl_jti c),
          ca_mandate = cx_mandate a, ca_consumed_at = vx_now ctx, ca_expires_at = cl_exp c, ca_bump = bump\<rparr>))"
  (is "?run = Inr s' \<longleftrightarrow> ?accepts")
proof -
  have run: "?run = process_consume_authorization env ctx a h s"
    by (simp add: verifier_dispatch_def arguments_decode_def)
  show ?thesis
  proof
    assume "?run = Inr s'"
    then show ?accepts unfolding run
    proof (cases rule: consume_authorization_step)
      case (1 config k m bump precompile verified decoded c)
      obtain sig where data: "in_data precompile = canonical_header (word_of_nat (length (vf_signing_input verified))) @
          tk_public_key k @ sig @ vf_signing_input verified" "length (tk_public_key k) = 33" "length sig = 64"
          "vf_signing_input verified \<noteq> []" "length (vf_signing_input verified) \<le> 512"
        using 1(10) unfolding parse_precompile_data_Inr layout_sizes by (auto simp: 1(16))
      have "verdict_allows (vx_now ctx) config k m (vf_signing_input verified) c"
        unfolding verdict_allows_iff using 1(11-15,17-21) by blast
      then show ?thesis using 1(1-9,22-24) data by blast
    qed
  next
    assume ?accepts
    then show "?run = Inr s'" unfolding run using consume_authorization_succeeds by blast
  qed
qed

text \<open>C31. The shape of a consuming transaction: the check on the instructions sysvar accepts exactly the transactions
  that consist of compute budget instructions, the secp256r1 instruction without accounts, this instruction at
  the top level, and later instructions that call neither the precompile nor the verifier, so one
  transaction consumes at most one authorization.\<close>

theorem consuming_transaction_shape:
  assumes "length (tx_instructions tx) < 2 ^ 16"
  shows "load_verified_precompile env sysvar tx = Inr p \<longleftrightarrow> sysvar = ve_instructions_sysvar env \<and> consume_shape env tx p"
proof
  assume load: "load_verified_precompile env sysvar tx = Inr p"
  then have "sysvar = ve_instructions_sysvar env"
    by (auto simp: load_verified_precompile_def and_then_Inr load_current_index_def split: if_splits)
  with load_verified_precompile_shape [OF load assms] show "sysvar = ve_instructions_sysvar env \<and> consume_shape env tx p" by simp
qed (use shape_loads_precompile assms in blast)

theorem consuming_transaction_shape_witness: "consume_shape demo_env (vx_transaction demo_context) demo_precompile"
  using consuming_transaction_shape [of "vx_transaction demo_context" demo_env 5 demo_precompile] demo_precompile_loaded
  by (simp add: demo_context_def)

section \<open>Deployments\<close>

lemma receipt_written:
  assumes "verifier_dispatch env ctx c s = Inr s'" "s key = None" "s' key = Some (ReceiptAccount r)"
  obtains a nonce where "c = ConsumeDeploymentAuthorization a nonce" "dy_receipt a = key"
    "process_consume_deployment_authorization env ctx a nonce s = Inr s'"
proof -
  have run: "process_instruction env ctx c s = Inr s'"
    using assms(1) by (simp add: verifier_dispatch_def split: if_splits)
  show thesis
  proof (cases c)
    case (ConsumeDeploymentAuthorization a nonce)
    with run have p: "process_consume_deployment_authorization env ctx a nonce s = Inr s'" by simp
    then have "dy_receipt a = key"
      using assms(2,3) by (cases rule: consume_deployment_step) (auto split: if_splits)
    with ConsumeDeploymentAuthorization p show thesis by (intro that)
  next
    case (ConsumeAuthorization a h)
    with run have "process_consume_authorization env ctx a h s = Inr s'" by simp
    then show thesis using assms(2,3) by (cases rule: consume_authorization_step) (auto split: if_splits)
  qed (use run assms(2,3) in \<open>auto simp: verifier_results process_initialize_config_def process_register_trusted_key_def
      process_revoke_trusted_key_def process_register_mandate_def process_revoke_mandate_def
      process_initialize_deployment_authority_def process_register_risk_key_def process_revoke_risk_key_def
      process_advance_policy_generation_def split: if_splits\<close>)
qed

lemma receipt_origin:
  assumes "(vstep env)\<^sup>*\<^sup>* Map.empty s" "s key = Some (ReceiptAccount r)"
  obtains s0 ctx a nonce s1 where "(vstep env)\<^sup>*\<^sup>* Map.empty s0" "(vstep env)\<^sup>*\<^sup>* s1 s"
    "verifier_dispatch env ctx (ConsumeDeploymentAuthorization a nonce) s0 = Inr s1" "dy_receipt a = key"
    "process_consume_deployment_authorization env ctx a nonce s0 = Inr s1" "s1 key = Some (ReceiptAccount r)"
proof -
  obtain s0 s1 b where o: "(vstep env)\<^sup>*\<^sup>* Map.empty s0" "vstep env s0 s1" "(vstep env)\<^sup>*\<^sup>* s1 s" "s0 key = None"
    "s1 key = Some b" "account_kept b (ReceiptAccount r)"
    using assms by (rule verifier.run_origin)
  have b: "b = ReceiptAccount r" using o(6) by (cases b) auto
  obtain ctx c where c: "verifier_dispatch env ctx c s0 = Inr s1" using o(2) by (auto simp: vstep_def)
  from receipt_written [OF c o(4) o(5) [unfolded b]] obtain a nonce where
    "c = ConsumeDeploymentAuthorization a nonce" "dy_receipt a = key"
    "process_consume_deployment_authorization env ctx a nonce s0 = Inr s1" by blast
  with c o(1,3,5) b show thesis using that [of s0 s1 ctx a nonce] by simp
qed

lemma approval_behind_receipt:
  assumes "process_consume_deployment_authorization env ctx a nonce s0 = Inr s1" "s1 (dy_receipt a) = Some (ReceiptAccount r)"
  obtains k p sig m where "s0 (dy_risk_key a) = Some (RiskKeyAccount k)" "\<not> ri_revoked k"
    "load_verified_precompile env (vx_sysvar ctx) (vx_transaction ctx) = Inr p"
    "in_data p = canonical_header 154 @ ri_public_key k @ sig @ authorization_encode m"
    "az_authority m = dc_config r" "az_nonce m = dc_nonce r" "az_amount m = dc_amount r"
    "az_deployment_context m = dc_deployment_context r" "vx_now ctx = dc_consumed_at r"
    "dy_config a = dc_config r" "nonce = dc_nonce r"
  using assms(1)
proof (cases rule: consume_deployment_step)
  case (1 config k bump p verified m)
  have input: "vf_signing_input verified = authorization_encode m" using 1(8) by (simp add: authorization_decode_Inr)
  obtain sig where "in_data p = canonical_header 154 @ ri_public_key k @ sig @ authorization_encode m"
    using 1(7) unfolding parse_precompile_data_Inr input 1(10) by auto
  moreover have "r = \<lparr>dc_version = DEPLOYMENT_PROFILE_VERSION, dc_bump = bump, dc_config = dy_config a,
       dc_remote_config = da_remote_config config, dc_risk_key = dy_risk_key a, dc_nonce = nonce,
       dc_deployment_context = az_deployment_context m, dc_amount = az_amount m,
       dc_policy_generation = az_policy_generation m, dc_issued_at = az_issued_at m,
       dc_expires_at = az_expires_at m, dc_consumed_at = vx_now ctx,
       dc_message_hash = ve_sha256 env [vf_signing_input verified]\<rparr>"
    using assms(2) 1(21) by simp
  ultimately show thesis by (intro that [of k p sig m]) (simp_all add: 1)
qed

lemma deploy_authorized:
  assumes "process_deploy_to_strategy rt sa receipt_key tx n clock lg = Inr lg'"
  obtains pol receipt where "lg_policy lg = Some pol" "w_receipts (lg_world lg) receipt_key = Some receipt"
    "dc_config receipt = po_authorization_config pol" "dc_consumed_at receipt = clock" "dc_amount receipt = n"
    "dc_deployment_context receipt = context_commitment (rt_sha256 rt) (rt_verifier_id rt) (deployment_context_of rt lg)"
  using assms
proof (cases rule: process_deploy_step)
  case (1 t0 s p1 w after p' pol receipt vault)
  have ctx: "deployment_context_of rt (lg\<lparr>lg_position := p1\<rparr>) = deployment_context_of rt lg"
    using reconcile_keeps(2) [OF 1(5)] by (simp add: deployment_context_of_def)
  show thesis using that [OF 1(9,10)] 1(11) unfolding ctx by (simp add: authorization_check_def and_then_Inr require_Inr)
qed

text \<open>C10. No deployment without an approval of exactly that deployment. When the remote leg deploys custody and
  the receipts it reads are the verifier's, then at the leg's clock an approval was consumed whose signed bytes,
  checked by the secp256r1 instruction under a risk key that was registered and not revoked, name the
  leg's authorization authority, exactly this amount, and the commitment to exactly the state the leg has before the
  deployment; and no instruction can ever consume that approval's nonce again.\<close>

theorem deployment_needs_approval:
  assumes "process_deploy_to_strategy rt sa receipt_key tx n clock lg = Inr lg'"
    and "(vstep env)\<^sup>*\<^sup>* Map.empty s"
    and "\<forall>key r. w_receipts (lg_world lg) key = Some r \<longrightarrow> s key = Some (ReceiptAccount r)"
  shows "\<exists>s0 ctx a nonce s1 k p sig m pol. (vstep env)\<^sup>*\<^sup>* Map.empty s0 \<and> (vstep env)\<^sup>*\<^sup>* s1 s \<and>
    verifier_dispatch env ctx (ConsumeDeploymentAuthorization a nonce) s0 = Inr s1 \<and> vx_now ctx = clock \<and>
    s0 (dy_risk_key a) = Some (RiskKeyAccount k) \<and> \<not> ri_revoked k \<and>
    load_verified_precompile env (vx_sysvar ctx) (vx_transaction ctx) = Inr p \<and>
    in_data p = canonical_header 154 @ ri_public_key k @ sig @ authorization_encode m \<and>
    lg_policy lg = Some pol \<and> az_authority m = po_authorization_config pol \<and> az_nonce m = nonce \<and> az_amount m = n \<and>
    az_deployment_context m = context_commitment (rt_sha256 rt) (rt_verifier_id rt) (deployment_context_of rt lg) \<and>
    (\<forall>s2 ctx' b. (vstep env)\<^sup>*\<^sup>* s1 s2 \<and> dy_config b = dy_config a \<longrightarrow>
       (\<exists>e. verifier_dispatch env ctx' (ConsumeDeploymentAuthorization b nonce) s2 = Inl e))"
proof -
  obtain pol r where d: "lg_policy lg = Some pol" "w_receipts (lg_world lg) receipt_key = Some r"
    "dc_config r = po_authorization_config pol" "dc_consumed_at r = clock" "dc_amount r = n"
    "dc_deployment_context r = context_commitment (rt_sha256 rt) (rt_verifier_id rt) (deployment_context_of rt lg)"
    using assms(1) by (rule deploy_authorized)
  have "s receipt_key = Some (ReceiptAccount r)" using assms(3) d(2) by blast
  with assms(2) obtain s0 ctx a nonce s1 where o: "(vstep env)\<^sup>*\<^sup>* Map.empty s0" "(vstep env)\<^sup>*\<^sup>* s1 s"
    "verifier_dispatch env ctx (ConsumeDeploymentAuthorization a nonce) s0 = Inr s1" "dy_receipt a = receipt_key"
    "process_consume_deployment_authorization env ctx a nonce s0 = Inr s1" "s1 receipt_key = Some (ReceiptAccount r)"
    by (rule receipt_origin)
  obtain k p sig m where m: "s0 (dy_risk_key a) = Some (RiskKeyAccount k)" "\<not> ri_revoked k"
    "load_verified_precompile env (vx_sysvar ctx) (vx_transaction ctx) = Inr p"
    "in_data p = canonical_header 154 @ ri_public_key k @ sig @ authorization_encode m"
    "az_authority m = dc_config r" "az_nonce m = dc_nonce r" "az_amount m = dc_amount r"
    "az_deployment_context m = dc_deployment_context r" "vx_now ctx = dc_consumed_at r" "nonce = dc_nonce r"
    using approval_behind_receipt [OF o(5)] o(4,6) by metis
  have "\<forall>s2 ctx' b. (vstep env)\<^sup>*\<^sup>* s1 s2 \<and> dy_config b = dy_config a \<longrightarrow>
      (\<exists>e. verifier_dispatch env ctx' (ConsumeDeploymentAuthorization b nonce) s2 = Inl e)"
    using nonce_stays_spent [OF o(3)] by simp
  with o(1-3) m d show ?thesis by metis
qed

theorem deployment_needs_approval_witness:
  "\<exists>s0 ctx a nonce s1. \<exists>m :: deployment_authorization. verifier_dispatch demo_env ctx (ConsumeDeploymentAuthorization a nonce) s0 = Inr s1 \<and>
     az_amount m = 25 \<and> az_nonce m = nonce \<and> vx_now ctx = 100"
proof -
  have "\<forall>key r. w_receipts (lg_world demo_ready) key = Some r \<longrightarrow> demo_spent key = Some (ReceiptAccount r)"
    using demo_spent_at(1) by (simp add: demo_ready_def)
  from deployment_needs_approval [OF demo_deploy_ok demo_reached this] show ?thesis
    by (elim exE conjE) (intro exI conjI, assumption+)
qed

end
