(* ===== verification/Sim_Types.thy ===== *)
theory Sim_Types
  imports Wire_Message BTree_Map
begin

text \<open>
  The data of the transport simulator \<open>crates/xchain-sim\<close>: ticks, lanes, endpoints and
  their inboxes, the scheduled events, the errors, the trace and the identity of a byte
  string (\<open>time.rs\<close>, \<open>lane.rs\<close>, \<open>endpoint.rs\<close>, \<open>event.rs\<close>, \<open>error.rs\<close>, \<open>trace.rs\<close>,
  \<open>inspect.rs\<close>). Rust's \<open>BTreeSet\<close> is the increasing list of its elements. The methods of
  the simulator take the state by mutable reference and may fail; they are functions that
  return the result together with the state they leave behind, also when they fail, so that
  what a refused call leaves behind is a statement about the model.
\<close>

section \<open>Ordered sets\<close>

type_synonym 'k btree_set = "'k list"

definition bs_wf :: "'k::linorder btree_set \<Rightarrow> bool" where
  "bs_wf s = sorted_wrt (<) s"

definition bs_contains :: "'k btree_set \<Rightarrow> 'k \<Rightarrow> bool" where
  "bs_contains s k = (k \<in> set s)"

fun bs_insert :: "'k::linorder \<Rightarrow> 'k btree_set \<Rightarrow> 'k btree_set" where
  "bs_insert k [] = [k]"
| "bs_insert k (e # s) =
     (if e < k then e # bs_insert k s else if e = k then e # s else k # e # s)"

definition bs_remove :: "'k \<Rightarrow> 'k btree_set \<Rightarrow> 'k btree_set" where
  "bs_remove k s = filter (\<lambda>e. e \<noteq> k) s"

lemma set_bs_insert [simp]: "set (bs_insert k s) = insert k (set s)"
  by (induction s) auto

lemma set_bs_remove [simp]: "set (bs_remove k s) = set s - {k}"
  by (auto simp: bs_remove_def)

lemma bs_wf_Nil [simp]: "bs_wf []"
  by (simp add: bs_wf_def)

lemma bs_wf_insert [simp]: "bs_wf s \<Longrightarrow> bs_wf (bs_insert k s)"
  by (induction s) (auto simp: bs_wf_def)

lemma bs_wf_remove [simp]: "bs_wf s \<Longrightarrow> bs_wf (bs_remove k s)"
  by (simp add: bs_wf_def bs_remove_def sorted_wrt_filter)

lemma bs_wf_tl: "bs_wf (k # s) \<Longrightarrow> bs_wf s \<and> k \<notin> set s"
  by (auto simp: bs_wf_def)

lemma sum_bs_insert:
  "sum_list (map f (bs_insert k s)) \<le> f k + sum_list (map f s)" for f :: "_ \<Rightarrow> nat"
  by (induction s) auto

section \<open>Ticks, lanes and identifiers\<close>

type_synonym tick = u64
type_synonym endpoint_id = u32
type_synonym event_id = u64
type_synonym fault_id = u32

definition tick_checked_add :: "tick \<Rightarrow> u64 \<Rightarrow> tick option" where
  "tick_checked_add t ticks = checked_add_word t ticks"

text \<open>\<open>now.checked_add(offset).unwrap_or(Tick::new(u64::MAX))\<close>\<close>

definition tick_add_or_max :: "tick \<Rightarrow> u64 \<Rightarrow> tick" where
  "tick_add_or_max t ticks = (case tick_checked_add t ticks of Some t' \<Rightarrow> t' | None \<Rightarrow> - 1)"

definition saturating_mul_word :: "'a::len word \<Rightarrow> 'a word \<Rightarrow> 'a word" where
  "saturating_mul_word a b = (case checked_mul_word a b of Some c \<Rightarrow> c | None \<Rightarrow> - 1)"

datatype lane = Control | Asset

definition lane_all :: "lane list" where
  "lane_all = [Control, Asset]"

fun lane_priority :: "lane \<Rightarrow> u8" where
  "lane_priority Control = 0"
| "lane_priority Asset = 1"

fun lane_name :: "lane \<Rightarrow> string" where
  "lane_name Control = ''control''"
| "lane_name Asset = ''asset''"

instantiation lane :: linorder
begin

definition less_eq_lane :: "lane \<Rightarrow> lane \<Rightarrow> bool" where
  "less_eq_lane a b = (lane_priority a \<le> lane_priority b)"

definition less_lane :: "lane \<Rightarrow> lane \<Rightarrow> bool" where
  "less_lane a b = (lane_priority a < lane_priority b)"

instance
proof
  fix a b :: lane
  show "a \<le> b \<Longrightarrow> b \<le> a \<Longrightarrow> a = b"
    by (cases a; cases b) (auto simp: less_eq_lane_def)
qed (auto simp: less_eq_lane_def less_lane_def)

end

datatype lane_state = LaneRunning | LanePaused

definition lane_is_paused :: "lane_state \<Rightarrow> bool" where
  "lane_is_paused s = (s = LanePaused)"

section \<open>Events\<close>

datatype event_status =
    Scheduled | Ready | Delivered | Dropped | Blocked | Expired | RejectedBySimulator

fun is_terminal :: "event_status \<Rightarrow> bool" where
  "is_terminal Delivered = True"
| "is_terminal Dropped = True"
| "is_terminal Expired = True"
| "is_terminal RejectedBySimulator = True"
| "is_terminal Scheduled = False"
| "is_terminal Ready = False"
| "is_terminal Blocked = False"

fun status_code :: "event_status \<Rightarrow> u8" where
  "status_code Scheduled = 0"
| "status_code Ready = 1"
| "status_code Delivered = 2"
| "status_code Dropped = 3"
| "status_code Blocked = 4"
| "status_code Expired = 5"
| "status_code RejectedBySimulator = 6"

record byte_mutation =
  bm_offset :: nat
  bm_from :: u8
  bm_to :: u8
  bm_original_message_id :: wire_message_id

record control_event =
  ce_id :: event_id
  ce_source :: endpoint_id
  ce_destination :: endpoint_id
  ce_intended_destination :: endpoint_id
  ce_bytes :: bytes
  ce_message_id :: wire_message_id
  ce_deliver_at :: tick
  ce_attempts :: u32
  ce_duplicate_of :: "event_id option"
  ce_mutation :: "byte_mutation option"
  ce_expires_at :: "tick option"
  ce_from_fault :: bool
  ce_status :: event_status

record asset_event =
  ae_id :: event_id
  ae_transfer :: wire_transfer_id
  ae_source :: endpoint_id
  ae_destination :: endpoint_id
  ae_intended_destination :: endpoint_id
  ae_requested :: wire_asset_amount
  ae_delivered :: wire_asset_amount
  ae_deliver_at :: tick
  ae_attempts :: u32
  ae_duplicate_of :: "event_id option"
  ae_piece :: "u16 option"
  ae_over_delivered :: bool
  ae_timeout_at :: "tick option"
  ae_from_fault :: bool
  ae_status :: event_status

datatype sim_event = ControlE control_event | AssetE asset_event

fun ev_id :: "sim_event \<Rightarrow> event_id" where
  "ev_id (ControlE e) = ce_id e"
| "ev_id (AssetE e) = ae_id e"

fun ev_lane :: "sim_event \<Rightarrow> lane" where
  "ev_lane (ControlE e) = Control"
| "ev_lane (AssetE e) = Asset"

fun ev_source :: "sim_event \<Rightarrow> endpoint_id" where
  "ev_source (ControlE e) = ce_source e"
| "ev_source (AssetE e) = ae_source e"

fun ev_destination :: "sim_event \<Rightarrow> endpoint_id" where
  "ev_destination (ControlE e) = ce_destination e"
| "ev_destination (AssetE e) = ae_destination e"

fun ev_intended_destination :: "sim_event \<Rightarrow> endpoint_id" where
  "ev_intended_destination (ControlE e) = ce_intended_destination e"
| "ev_intended_destination (AssetE e) = ae_intended_destination e"

fun ev_deliver_at :: "sim_event \<Rightarrow> tick" where
  "ev_deliver_at (ControlE e) = ce_deliver_at e"
| "ev_deliver_at (AssetE e) = ae_deliver_at e"

fun ev_status :: "sim_event \<Rightarrow> event_status" where
  "ev_status (ControlE e) = ce_status e"
| "ev_status (AssetE e) = ae_status e"

fun ev_attempts :: "sim_event \<Rightarrow> u32" where
  "ev_attempts (ControlE e) = ce_attempts e"
| "ev_attempts (AssetE e) = ae_attempts e"

fun ev_duplicate_of :: "sim_event \<Rightarrow> event_id option" where
  "ev_duplicate_of (ControlE e) = ce_duplicate_of e"
| "ev_duplicate_of (AssetE e) = ae_duplicate_of e"

fun made_by_fault :: "sim_event \<Rightarrow> bool" where
  "made_by_fault (ControlE e) = ce_from_fault e"
| "made_by_fault (AssetE e) = ae_from_fault e"

fun ev_deadline :: "sim_event \<Rightarrow> tick option" where
  "ev_deadline (ControlE e) = ce_expires_at e"
| "ev_deadline (AssetE e) = ae_timeout_at e"

fun ev_message_id :: "sim_event \<Rightarrow> wire_message_id option" where
  "ev_message_id (ControlE e) = Some (ce_message_id e)"
| "ev_message_id (AssetE e) = None"

fun ev_transfer_id :: "sim_event \<Rightarrow> wire_transfer_id option" where
  "ev_transfer_id (ControlE e) = None"
| "ev_transfer_id (AssetE e) = Some (ae_transfer e)"

fun ev_control :: "sim_event \<Rightarrow> control_event option" where
  "ev_control (ControlE e) = Some e"
| "ev_control (AssetE e) = None"

fun ev_asset :: "sim_event \<Rightarrow> asset_event option" where
  "ev_asset (ControlE e) = None"
| "ev_asset (AssetE e) = Some e"

fun set_status :: "event_status \<Rightarrow> sim_event \<Rightarrow> sim_event" where
  "set_status st (ControlE e) = ControlE (e\<lparr>ce_status := st\<rparr>)"
| "set_status st (AssetE e) = AssetE (e\<lparr>ae_status := st\<rparr>)"

fun set_deliver_at :: "tick \<Rightarrow> sim_event \<Rightarrow> sim_event" where
  "set_deliver_at t (ControlE e) = ControlE (e\<lparr>ce_deliver_at := t\<rparr>)"
| "set_deliver_at t (AssetE e) = AssetE (e\<lparr>ae_deliver_at := t\<rparr>)"

fun set_destination :: "endpoint_id \<Rightarrow> sim_event \<Rightarrow> sim_event" where
  "set_destination d (ControlE e) = ControlE (e\<lparr>ce_destination := d\<rparr>)"
| "set_destination d (AssetE e) = AssetE (e\<lparr>ae_destination := d\<rparr>)"

fun bump_attempts :: "sim_event \<Rightarrow> sim_event" where
  "bump_attempts (ControlE e) = ControlE (e\<lparr>ce_attempts := saturating_add_word (ce_attempts e) 1\<rparr>)"
| "bump_attempts (AssetE e) = AssetE (e\<lparr>ae_attempts := saturating_add_word (ae_attempts e) 1\<rparr>)"

section \<open>Endpoints\<close>

datatype endpoint_state = EndpointActive | EndpointStopped

record delivered_control =
  dc_event :: event_id
  dc_source :: endpoint_id
  dc_intended_destination :: endpoint_id
  dc_bytes :: bytes
  dc_message_id :: wire_message_id
  dc_delivered_at :: tick
  dc_duplicate_of :: "event_id option"
  dc_mutation :: "byte_mutation option"
  dc_after_deadline :: bool

record delivered_asset =
  da_event :: event_id
  da_transfer :: wire_transfer_id
  da_source :: endpoint_id
  da_intended_destination :: endpoint_id
  da_requested :: wire_asset_amount
  da_delivered :: wire_asset_amount
  da_delivered_at :: tick
  da_duplicate_of :: "event_id option"
  da_piece :: "u16 option"
  da_over_delivered :: bool
  da_after_timeout :: bool

record endpoint =
  en_id :: endpoint_id
  en_state :: endpoint_state
  en_control_inbox :: "delivered_control list"
  en_asset_inbox :: "delivered_asset list"

definition endpoint_new :: "endpoint_id \<Rightarrow> endpoint" where
  "endpoint_new i = \<lparr>en_id = i, en_state = EndpointActive, en_control_inbox = [], en_asset_inbox = []\<rparr>"

definition is_halted :: "endpoint \<Rightarrow> bool" where
  "is_halted e = (en_state e = EndpointStopped)"

definition dc_is_misrouted :: "delivered_control \<Rightarrow> endpoint_id \<Rightarrow> bool" where
  "dc_is_misrouted d owner = (dc_intended_destination d \<noteq> owner)"

definition da_is_misrouted :: "delivered_asset \<Rightarrow> endpoint_id \<Rightarrow> bool" where
  "da_is_misrouted d owner = (da_intended_destination d \<noteq> owner)"

definition set_state :: "endpoint_state \<Rightarrow> endpoint \<Rightarrow> endpoint" where
  "set_state st e = e\<lparr>en_state := st\<rparr>"

definition push_control :: "delivered_control \<Rightarrow> endpoint \<Rightarrow> endpoint" where
  "push_control d e = e\<lparr>en_control_inbox := en_control_inbox e @ [d]\<rparr>"

definition push_asset :: "delivered_asset \<Rightarrow> endpoint \<Rightarrow> endpoint" where
  "push_asset d e = e\<lparr>en_asset_inbox := en_asset_inbox e @ [d]\<rparr>"

section \<open>Errors\<close>

datatype config_problem =
    EmptyMessage | ActionLaneMismatch | SameEndpointRoute | NoDuplicateCopies
  | NoEndpoints | ConfigCorruptOffsetOutOfRange | NoByteChange

datatype (plugins only: code) sim_error =
    DuplicateEndpoint endpoint_id
  | UnknownEndpointError endpoint_id
  | DuplicateEventId event_id
  | UnknownEvent event_id
  | DuplicateFaultId fault_id
  | UnknownFaultTarget fault_id
  | TimeMovesBackwards tick tick
  | DeliveryTickInPast tick tick
  | ZeroAssetAmount
  | InvalidPartialSplit
  | PartialSumExceedsRequest u128 u128
  | ConflictingFaults fault_id fault_id
  | EndpointHaltedError endpoint_id
  | LanePausedError lane
  | Decode decode_error
  | SimOverflow
  | InvalidConfiguration config_problem
  | EventAlreadyTerminal event_id
  | FaultsAlreadyBound event_id

fun config_problem_name :: "config_problem \<Rightarrow> string" where
  "config_problem_name EmptyMessage = ''message has no bytes''"
| "config_problem_name ActionLaneMismatch = ''fault action does not match the target lane''"
| "config_problem_name SameEndpointRoute = ''source and destination are the same endpoint''"
| "config_problem_name NoDuplicateCopies = ''duplicate fault asks for zero copies''"
| "config_problem_name NoEndpoints = ''the simulator has no endpoints''"
| "config_problem_name ConfigCorruptOffsetOutOfRange =
     ''corrupt offset is past the end of the message''"
| "config_problem_name NoByteChange = ''corrupt mask would leave the byte unchanged''"

section \<open>The trace\<close>

datatype subject = MessageSubject wire_message_id | TransferSubject wire_transfer_id

datatype block_reason = BlockEndpointHalted | BlockLanePaused

datatype reject_reason =
    CorruptOffsetOutOfRange | CorruptMaskIsZero | AlreadyCorrupted | SplitExceedsRequest
  | SplitPieceIsZero | SplitHasNoPieces | AmountIsZero | AmountExceedsRequest
  | OverDeliveryNotAboveRequest | DuplicateCopiesIsZero | ConflictingGroup | UnknownEndpoint

fun reject_code :: "reject_reason \<Rightarrow> u8" where
  "reject_code CorruptOffsetOutOfRange = 1"
| "reject_code CorruptMaskIsZero = 2"
| "reject_code AlreadyCorrupted = 12"
| "reject_code SplitExceedsRequest = 3"
| "reject_code SplitPieceIsZero = 4"
| "reject_code SplitHasNoPieces = 5"
| "reject_code AmountIsZero = 6"
| "reject_code AmountExceedsRequest = 7"
| "reject_code OverDeliveryNotAboveRequest = 8"
| "reject_code DuplicateCopiesIsZero = 9"
| "reject_code ConflictingGroup = 10"
| "reject_code UnknownEndpoint = 11"

datatype fault_effect =
    EffectDelayed tick
  | EffectDropped
  | EffectDuplicated u16
  | EffectRerouted endpoint_id
  | EffectCorrupted nat u8 u8
  | EffectAmountSet wire_asset_amount
  | EffectSplitInto u16

datatype (plugins only: code) trace_action =
    EventScheduled event_id lane endpoint_id endpoint_id subject tick
  | FaultApplied fault_id event_id fault_effect
  | FaultRejected fault_id event_id reject_reason
  | TickAdvanced tick tick
  | EndpointHalted endpoint_id
  | EndpointResumed endpoint_id u32
  | DeliveryAttempted event_id endpoint_id u32
  | DeliveryBlocked event_id endpoint_id block_reason
  | EventDelivered event_id endpoint_id subject bool
  | EventDropped event_id "fault_id option"
  | EventExpired event_id tick
  | EventRejected event_id reject_reason
  | DuplicateCreated event_id event_id tick
  | PartialDeliveryCreated event_id event_id wire_transfer_id wire_asset_amount u16
  | EventReordered event_id tick tick
  | LanePausedAction lane
  | LaneResumed lane u32

fun action_code :: "trace_action \<Rightarrow> u8" where
  "action_code (EventScheduled _ _ _ _ _ _) = 1"
| "action_code (FaultApplied _ _ _) = 2"
| "action_code (FaultRejected _ _ _) = 3"
| "action_code (TickAdvanced _ _) = 4"
| "action_code (EndpointHalted _) = 5"
| "action_code (EndpointResumed _ _) = 6"
| "action_code (DeliveryAttempted _ _ _) = 7"
| "action_code (DeliveryBlocked _ _ _) = 8"
| "action_code (EventDelivered _ _ _ _) = 9"
| "action_code (EventDropped _ _) = 10"
| "action_code (EventExpired _ _) = 11"
| "action_code (EventRejected _ _) = 12"
| "action_code (DuplicateCreated _ _ _) = 13"
| "action_code (PartialDeliveryCreated _ _ _ _ _) = 14"
| "action_code (EventReordered _ _ _) = 15"
| "action_code (LanePausedAction _) = 16"
| "action_code (LaneResumed _ _) = 17"

fun action_event :: "trace_action \<Rightarrow> event_id option" where
  "action_event (EventScheduled e _ _ _ _ _) = Some e"
| "action_event (FaultApplied _ e _) = Some e"
| "action_event (FaultRejected _ e _) = Some e"
| "action_event (DeliveryAttempted e _ _) = Some e"
| "action_event (DeliveryBlocked e _ _) = Some e"
| "action_event (EventDelivered e _ _ _) = Some e"
| "action_event (EventDropped e _) = Some e"
| "action_event (EventExpired e _) = Some e"
| "action_event (EventRejected e _) = Some e"
| "action_event (EventReordered e _ _) = Some e"
| "action_event (DuplicateCreated e _ _) = Some e"
| "action_event (PartialDeliveryCreated e _ _ _ _) = Some e"
| "action_event (TickAdvanced _ _) = None"
| "action_event (EndpointHalted _) = None"
| "action_event (EndpointResumed _ _) = None"
| "action_event (LanePausedAction _) = None"
| "action_event (LaneResumed _ _) = None"

fun action_subject :: "trace_action \<Rightarrow> subject option" where
  "action_subject (EventScheduled _ _ _ _ s _) = Some s"
| "action_subject (EventDelivered _ _ s _) = Some s"
| "action_subject (PartialDeliveryCreated _ _ t _ _) = Some (TransferSubject t)"
| "action_subject _ = None"

record trace_record =
  tr_index :: u32
  tr_tick :: tick
  tr_action :: trace_action

type_synonym trace = "trace_record list"

definition trace_push :: "tick \<Rightarrow> trace_action \<Rightarrow> trace \<Rightarrow> trace" where
  "trace_push t a tr = tr @ [\<lparr>tr_index = saturating_u32 (length tr), tr_tick = t, tr_action = a\<rparr>]"

definition trace_since :: "trace \<Rightarrow> nat \<Rightarrow> trace" where
  "trace_since tr start = drop start tr"

definition trace_for_event :: "trace \<Rightarrow> event_id \<Rightarrow> trace" where
  "trace_for_event tr e = filter (\<lambda>r. action_event (tr_action r) = Some e) tr"

definition indices_are_contiguous :: "trace \<Rightarrow> bool" where
  "indices_are_contiguous tr =
     (\<forall>(position, r) \<in> set (enumerate 0 tr). position < 2 ^ 32 \<and> of_nat position = tr_index r)"

section \<open>Byte strings of the control lane\<close>

definition message_identity :: "'h digest \<Rightarrow> bytes \<Rightarrow> wire_message_id" where
  "message_identity D bs = keccak256 D (MESSAGE_ID_DOMAIN @ bs)"

definition sim_decode :: "'h digest \<Rightarrow> bytes \<Rightarrow> sim_error + message" where
  "sim_decode D bs = map_err Decode (decode_message D bs)"

definition sim_expiration :: "'h digest \<Rightarrow> bytes \<Rightarrow> sim_error + wire_timestamp" where
  "sim_expiration D bs = and_then (sim_decode D bs) (\<lambda>m. Inr (hd_expires_at (msg_header m)))"

end
