(* ===== verification/Sim_Fault.thy ===== *)
theory Sim_Fault
  imports Sim_Types "HOL-Library.Product_Lexorder"
begin

text \<open>
  Declared transport faults and the queue of pending deliveries
  (\<open>crates/xchain-sim/src/fault.rs\<close>, \<open>queue.rs\<close>): which events a fault reaches, what it
  does, in which pass it runs and what excludes it, the plan with its seeded construction,
  and the key whose order is the order of delivery.
\<close>

unbundle bit_operations_syntax

section \<open>Targets and actions\<close>

datatype fault_target =
    TargetEvent event_id
  | TargetMessage wire_message_id
  | TargetTransfer wire_transfer_id
  | TargetRoute endpoint_id endpoint_id lane
  | TargetLane lane

fun lane_hint :: "fault_target \<Rightarrow> lane option" where
  "lane_hint (TargetEvent _) = None"
| "lane_hint (TargetMessage _) = Some Control"
| "lane_hint (TargetTransfer _) = Some Asset"
| "lane_hint (TargetRoute _ _ lane) = Some lane"
| "lane_hint (TargetLane lane) = Some lane"

fun target_matches :: "fault_target \<Rightarrow> sim_event \<Rightarrow> bool" where
  "target_matches (TargetEvent i) e = (ev_id e = i)"
| "target_matches (TargetMessage i) e = (ev_message_id e = Some i)"
| "target_matches (TargetTransfer i) e = (ev_transfer_id e = Some i)"
| "target_matches (TargetRoute source destination lane) e =
     (ev_lane e = lane \<and> ev_source e = source \<and> ev_intended_destination e = destination)"
| "target_matches (TargetLane lane) e = (ev_lane e = lane)"

datatype fault_action =
    Delay u64
  | Drop
  | Duplicate u16 u64
  | ReplaceDestination endpoint_id
  | CorruptByte nat u8
  | Partial wire_asset_amount
  | Split "wire_asset_amount list" u64
  | OverDeliver wire_asset_amount

datatype fault_stage = RerouteStage | ContentStage | FanoutStage | DelayStage | DropStage

fun stage_rank :: "fault_stage \<Rightarrow> nat" where
  "stage_rank RerouteStage = 0"
| "stage_rank ContentStage = 1"
| "stage_rank FanoutStage = 2"
| "stage_rank DelayStage = 3"
| "stage_rank DropStage = 4"

lemma stage_rank_inj: "stage_rank a = stage_rank b \<Longrightarrow> a = b"
  by (cases a; cases b) auto

instantiation fault_stage :: linorder
begin

definition less_eq_fault_stage :: "fault_stage \<Rightarrow> fault_stage \<Rightarrow> bool" where
  "less_eq_fault_stage a b = (stage_rank a \<le> stage_rank b)"

definition less_fault_stage :: "fault_stage \<Rightarrow> fault_stage \<Rightarrow> bool" where
  "less_fault_stage a b = (stage_rank a < stage_rank b)"

instance
  by standard (auto simp: less_eq_fault_stage_def less_fault_stage_def intro: stage_rank_inj)

end

datatype exclusion_group =
    DestinationGroup | ContentGroup | FanoutGroup | TimingGroup | RemovalGroup

fun action_stage :: "fault_action \<Rightarrow> fault_stage" where
  "action_stage (ReplaceDestination _) = RerouteStage"
| "action_stage (CorruptByte _ _) = ContentStage"
| "action_stage (Partial _) = ContentStage"
| "action_stage (Split _ _) = ContentStage"
| "action_stage (OverDeliver _) = ContentStage"
| "action_stage (Duplicate _ _) = FanoutStage"
| "action_stage (Delay _) = DelayStage"
| "action_stage Drop = DropStage"

fun action_group :: "fault_action \<Rightarrow> exclusion_group" where
  "action_group (ReplaceDestination _) = DestinationGroup"
| "action_group (CorruptByte _ _) = ContentGroup"
| "action_group (Partial _) = ContentGroup"
| "action_group (Split _ _) = ContentGroup"
| "action_group (OverDeliver _) = ContentGroup"
| "action_group (Duplicate _ _) = FanoutGroup"
| "action_group (Delay _) = TimingGroup"
| "action_group Drop = RemovalGroup"

fun creates_events :: "fault_action \<Rightarrow> bool" where
  "creates_events (Duplicate _ _) = True"
| "creates_events (Split _ _) = True"
| "creates_events _ = False"

fun required_lane :: "fault_action \<Rightarrow> lane option" where
  "required_lane (CorruptByte _ _) = Some Control"
| "required_lane (Partial _) = Some Asset"
| "required_lane (Split _ _) = Some Asset"
| "required_lane (OverDeliver _) = Some Asset"
| "required_lane (Delay _) = None"
| "required_lane Drop = None"
| "required_lane (Duplicate _ _) = None"
| "required_lane (ReplaceDestination _) = None"

fun action_name :: "fault_action \<Rightarrow> string" where
  "action_name (Delay _) = ''delay''"
| "action_name Drop = ''drop''"
| "action_name (Duplicate _ _) = ''duplicate''"
| "action_name (ReplaceDestination _) = ''reroute''"
| "action_name (CorruptByte _ _) = ''corrupt''"
| "action_name (Partial _) = ''partial''"
| "action_name (Split _ _) = ''split''"
| "action_name (OverDeliver _) = ''over deliver''"

record fault =
  ft_id :: fault_id
  ft_target :: fault_target
  ft_action :: fault_action

definition order_key :: "fault \<Rightarrow> fault_stage \<times> fault_id" where
  "order_key f = (action_stage (ft_action f), ft_id f)"

section \<open>Plans\<close>

type_synonym fault_plan = "(fault_id, fault) btree_map"

definition plan_get :: "fault_plan \<Rightarrow> fault_id \<Rightarrow> fault option" where
  "plan_get plan i = bt_get plan i"

definition plan_contains :: "fault_plan \<Rightarrow> fault_id \<Rightarrow> bool" where
  "plan_contains plan i = bt_contains plan i"

definition plan_iter :: "fault_plan \<Rightarrow> fault list" where
  "plan_iter plan = bt_values plan"

definition plan_insert :: "fault \<Rightarrow> fault_plan \<Rightarrow> fault_plan" where
  "plan_insert f plan = bt_insert (ft_id f) f plan"

definition matching :: "fault_plan \<Rightarrow> sim_event \<Rightarrow> fault list" where
  "matching plan e = sort_key order_key (filter (\<lambda>f. target_matches (ft_target f) e) (plan_iter plan))"

section \<open>Seeded plans\<close>

type_synonym plan_seed = u64

definition seed_next :: "plan_seed \<Rightarrow> u64 \<times> plan_seed" where
  "seed_next seed =
     (let state = seed + 0x9E3779B97F4A7C15;
          value = state;
          value = (value XOR drop_bit 30 value) * 0xBF58476D1CE4E5B9;
          value = (value XOR drop_bit 27 value) * 0x94D049BB133111EB
      in (value XOR drop_bit 31 value, state))"

definition seed_below :: "u64 \<Rightarrow> plan_seed \<Rightarrow> u64 \<times> plan_seed" where
  "seed_below limit seed =
     (let (value, seed) = seed_next seed
      in (if limit = 0 then 0 else value mod limit, seed))"

definition u8_of_u64 :: "u64 \<Rightarrow> u8 option" where
  "u8_of_u64 v = (if v < 256 then Some (ucast v) else None)"

definition seeded_action :: "lane \<Rightarrow> plan_seed \<Rightarrow> fault_action \<times> plan_seed" where
  "seeded_action lane seed =
     (let (kind, seed) = seed_below 4 seed in
      if kind = 0 then
        let (v, seed) = seed_below 8 seed in (Delay (saturating_add_word v 1), seed)
      else if kind = 1 then (Drop, seed)
      else if kind = 2 then
        let (v, seed) = seed_below 4 seed in (Duplicate 1 v, seed)
      else case lane of
        Control \<Rightarrow>
          let (offset, seed) = seed_below 64 seed;
              (mask, seed) = seed_below 255 seed
          in (CorruptByte (unat offset)
                (case u8_of_u64 (saturating_add_word mask 1) of Some m \<Rightarrow> m | None \<Rightarrow> 1), seed)
      | Asset \<Rightarrow>
          let (v, seed) = seed_below 16 seed in (Partial (ucast (saturating_add_word v 1)), seed))"

text \<open>The loop over the targets; it stops when the position does not fit a \<open>u32\<close>.\<close>

fun seeded_loop ::
  "nat \<Rightarrow> (event_id \<times> lane) list \<Rightarrow> plan_seed \<Rightarrow> fault_plan \<Rightarrow> fault_plan" where
  "seeded_loop position [] seed plan = plan"
| "seeded_loop position ((event, lane) # targets) seed plan =
     (if position < 2 ^ 32 then
        let (action, seed) = seeded_action lane seed
        in seeded_loop (Suc position) targets seed
             (plan_insert \<lparr>ft_id = of_nat position, ft_target = TargetEvent event,
                ft_action = action\<rparr> plan)
      else plan)"

definition seeded_plan :: "u64 \<Rightarrow> (event_id \<times> lane) list \<Rightarrow> fault_plan" where
  "seeded_plan seed targets = seeded_loop 0 targets seed []"

section \<open>The queue of pending deliveries\<close>

datatype queue_key =
  QueueKey (qk_deliver_at: tick) (qk_lane_priority: u8) (qk_event: event_id)

definition queue_key_new :: "tick \<Rightarrow> lane \<Rightarrow> event_id \<Rightarrow> queue_key" where
  "queue_key_new t lane e = QueueKey t (lane_priority lane) e"

fun key_tuple :: "queue_key \<Rightarrow> tick \<times> u8 \<times> event_id" where
  "key_tuple (QueueKey t p e) = (t, p, e)"

lemma key_tuple_inj: "key_tuple a = key_tuple b \<Longrightarrow> a = b"
  by (cases a; cases b) auto

instantiation queue_key :: linorder
begin

definition less_eq_queue_key :: "queue_key \<Rightarrow> queue_key \<Rightarrow> bool" where
  "less_eq_queue_key a b = (key_tuple a \<le> key_tuple b)"

definition less_queue_key :: "queue_key \<Rightarrow> queue_key \<Rightarrow> bool" where
  "less_queue_key a b = (key_tuple a < key_tuple b)"

instance
  by standard (unfold less_eq_queue_key_def less_queue_key_def,
    rule less_le_not_le, rule order_refl, erule order_trans, assumption,
    rule key_tuple_inj, erule antisym, assumption, rule linear)

end

type_synonym event_queue = "queue_key btree_set"

definition queue_insert :: "queue_key \<Rightarrow> event_queue \<Rightarrow> event_queue" where
  "queue_insert k q = bs_insert k q"

definition queue_remove :: "queue_key \<Rightarrow> event_queue \<Rightarrow> event_queue" where
  "queue_remove k q = bs_remove k q"

fun queue_peek :: "event_queue \<Rightarrow> queue_key option" where
  "queue_peek [] = None"
| "queue_peek (k # q) = Some k"

fun queue_pop :: "event_queue \<Rightarrow> queue_key option \<times> event_queue" where
  "queue_pop [] = (None, [])"
| "queue_pop (k # q) = (Some k, q)"

definition queue_find :: "event_queue \<Rightarrow> event_id \<Rightarrow> queue_key option" where
  "queue_find q e = find (\<lambda>k. qk_event k = e) q"

definition queue_next_tick :: "event_queue \<Rightarrow> tick option" where
  "queue_next_tick q = map_option qk_deliver_at (queue_peek q)"

section \<open>Facts\<close>

lemma set_queue_insert [simp]: "set (queue_insert k q) = insert k (set q)"
  by (simp add: queue_insert_def)

lemma set_queue_remove [simp]: "set (queue_remove k q) = set q - {k}"
  by (simp add: queue_remove_def)

lemma queue_wf [simp]:
  "bs_wf q \<Longrightarrow> bs_wf (queue_insert k q)"
  "bs_wf q \<Longrightarrow> bs_wf (queue_remove k q)"
  by (simp_all add: queue_insert_def queue_remove_def)

text \<open>The queue hands out the least pending key.\<close>

lemma queue_peek_least:
  "bs_wf q \<Longrightarrow> queue_peek q = Some k \<longleftrightarrow> k \<in> set q \<and> (\<forall>k' \<in> set q. k \<le> k')"
  by (cases q) (auto simp: bs_wf_def intro: order.strict_implies_order dest: leD)

lemma queue_peek_None: "queue_peek q = None \<longleftrightarrow> q = []"
  by (cases q) auto

lemma queue_find_Some: "queue_find q e = Some k \<Longrightarrow> k \<in> set q \<and> qk_event k = e"
  by (auto simp: queue_find_def find_Some_iff)

lemma queue_find_None: "queue_find q e = None \<longleftrightarrow> (\<forall>k \<in> set q. qk_event k \<noteq> e)"
  by (auto simp: queue_find_def find_None_iff)

text \<open>What the simulator composes for an event is a rearrangement of the faults that match.\<close>

lemma set_matching: "set (matching plan e) = {f \<in> set (plan_iter plan). target_matches (ft_target f) e}"
  by (auto simp: matching_def)

lemma sum_insort_key: "sum_list (map w (insort_key k x xs)) = w x + sum_list (map w xs)"
  for w :: "_ \<Rightarrow> nat"
  by (induction xs) auto

lemma sum_sort_key: "sum_list (map w (sort_key k xs)) = sum_list (map w xs)" for w :: "_ \<Rightarrow> nat"
  by (induction xs) (simp_all add: sum_insort_key)

lemma sum_matching:
  "sum_list (map w (matching plan e)) =
     sum_list (map w (filter (\<lambda>f. target_matches (ft_target f) e) (plan_iter plan)))"
  for w :: "fault \<Rightarrow> nat"
  by (simp add: matching_def sum_sort_key)

lemma sorted_matching: "sorted (map order_key (matching plan e))"
  by (simp add: matching_def)

end
