(* ===== verification/Sim_Core.thy ===== *)
theory Sim_Core
  imports Sim_Fault
begin

text \<open>
  The transport engine (\<open>crates/xchain-sim/src/simulator.rs\<close>): its state, scheduling,
  declaring faults, the clock, the composition of faults, one delivery attempt, halting and
  resuming, and reordering. The loops that run many attempts are in \<open>Sim_Run\<close>.
\<close>

unbundle bit_operations_syntax

section \<open>State\<close>

datatype late_policy = DeliverWithMarker | Expire

record simulator_config =
  sc_control_late_policy :: late_policy
  sc_asset_late_policy :: late_policy

definition config_default :: simulator_config where
  "config_default = \<lparr>sc_control_late_policy = DeliverWithMarker, sc_asset_late_policy = DeliverWithMarker\<rparr>"

definition config_expiring :: simulator_config where
  "config_expiring = \<lparr>sc_control_late_policy = Expire, sc_asset_late_policy = Expire\<rparr>"

fun config_policy :: "simulator_config \<Rightarrow> lane \<Rightarrow> late_policy" where
  "config_policy c Control = sc_control_late_policy c"
| "config_policy c Asset = sc_asset_late_policy c"

record control_request =
  cr_id :: "event_id option"
  cr_source :: endpoint_id
  cr_destination :: endpoint_id
  cr_bytes :: bytes
  cr_deliver_at :: tick
  cr_expires_at :: "tick option"

definition control_request_new :: "endpoint_id \<Rightarrow> endpoint_id \<Rightarrow> bytes \<Rightarrow> tick \<Rightarrow> control_request" where
  "control_request_new source destination bs deliver_at =
     \<lparr>cr_id = None, cr_source = source, cr_destination = destination, cr_bytes = bs,
      cr_deliver_at = deliver_at, cr_expires_at = None\<rparr>"

definition control_with_id :: "event_id \<Rightarrow> control_request \<Rightarrow> control_request" where
  "control_with_id i r = r\<lparr>cr_id := Some i\<rparr>"

definition control_expiring_at :: "tick \<Rightarrow> control_request \<Rightarrow> control_request" where
  "control_expiring_at t r = r\<lparr>cr_expires_at := Some t\<rparr>"

record asset_request =
  ar_id :: "event_id option"
  ar_transfer :: wire_transfer_id
  ar_source :: endpoint_id
  ar_destination :: endpoint_id
  ar_amount :: wire_asset_amount
  ar_deliver_at :: tick
  ar_timeout_at :: "tick option"

definition asset_request_new ::
  "wire_transfer_id \<Rightarrow> endpoint_id \<Rightarrow> endpoint_id \<Rightarrow> wire_asset_amount \<Rightarrow> tick \<Rightarrow> asset_request" where
  "asset_request_new transfer source destination amount deliver_at =
     \<lparr>ar_id = None, ar_transfer = transfer, ar_source = source, ar_destination = destination,
      ar_amount = amount, ar_deliver_at = deliver_at, ar_timeout_at = None\<rparr>"

definition asset_with_id :: "event_id \<Rightarrow> asset_request \<Rightarrow> asset_request" where
  "asset_with_id i r = r\<lparr>ar_id := Some i\<rparr>"

definition asset_timing_out_at :: "tick \<Rightarrow> asset_request \<Rightarrow> asset_request" where
  "asset_timing_out_at t r = r\<lparr>ar_timeout_at := Some t\<rparr>"

datatype fault_outcome =
    Proceed
  | OutcomeDelayed tick
  | OutcomeDropped fault_id
  | OutcomeRejected reject_reason

record simulator =
  sm_config :: simulator_config
  sm_now :: tick
  sm_endpoints :: "(endpoint_id, endpoint) btree_map"
  sm_events :: "(event_id, sim_event) btree_map"
  sm_queue :: event_queue
  sm_held :: "event_id btree_set"
  sm_lanes :: "(lane, lane_state) btree_map"
  sm_plan :: fault_plan
  sm_resolved :: "event_id btree_set"
  sm_trace :: trace
  sm_next_event :: u64

text \<open>
  A method on \<open>&mut self\<close> returns its result and the state it leaves. \<open>m_then\<close> is
  \<open>?\<close> on such a call, \<open>m_check\<close> is \<open>?\<close> on a check that only reads the state.
\<close>

type_synonym 'a sim_method = "simulator \<Rightarrow> (sim_error + 'a) \<times> simulator"

definition m_then :: "'a sim_method \<Rightarrow> ('a \<Rightarrow> 'b sim_method) \<Rightarrow> 'b sim_method" where
  "m_then m f s = (case m s of (Inl e, s') \<Rightarrow> (Inl e, s') | (Inr x, s') \<Rightarrow> f x s')"

definition m_check :: "sim_error + 'a \<Rightarrow> ('a \<Rightarrow> 'b sim_method) \<Rightarrow> 'b sim_method" where
  "m_check r f s = (case r of Inl e \<Rightarrow> (Inl e, s) | Inr x \<Rightarrow> f x s)"

definition m_return :: "'a \<Rightarrow> 'a sim_method" where
  "m_return x s = (Inr x, s)"

definition record_trace :: "trace_action \<Rightarrow> simulator \<Rightarrow> simulator" where
  "record_trace a s = s\<lparr>sm_trace := trace_push (sm_now s) a (sm_trace s)\<rparr>"

definition put_event :: "event_id \<Rightarrow> sim_event \<Rightarrow> simulator \<Rightarrow> simulator" where
  "put_event i e s = s\<lparr>sm_events := bt_insert i e (sm_events s)\<rparr>"

definition enqueue :: "tick \<Rightarrow> lane \<Rightarrow> event_id \<Rightarrow> simulator \<Rightarrow> simulator" where
  "enqueue t lane i s = s\<lparr>sm_queue := queue_insert (queue_key_new t lane i) (sm_queue s)\<rparr>"

section \<open>Construction and views\<close>

definition add_new_endpoint ::
  "endpoint_id \<Rightarrow> (endpoint_id, endpoint) btree_map \<Rightarrow> sim_error + (endpoint_id, endpoint) btree_map" where
  "add_new_endpoint i m =
     (if bt_contains m i then Inl (DuplicateEndpoint i) else Inr (bt_insert i (endpoint_new i) m))"

definition with_config :: "simulator_config \<Rightarrow> endpoint_id list \<Rightarrow> sim_error + simulator" where
  "with_config c endpoints =
     (if endpoints = [] then Inl (InvalidConfiguration NoEndpoints)
      else and_then (for_each add_new_endpoint endpoints []) (\<lambda>m.
        Inr \<lparr>sm_config = c, sm_now = 0, sm_endpoints = m, sm_events = [], sm_queue = [],
             sm_held = [], sm_lanes = foldl (\<lambda>ls lane. bt_insert lane LaneRunning ls) [] lane_all,
             sm_plan = [], sm_resolved = [], sm_trace = [], sm_next_event = 1\<rparr>))"

definition simulator_new :: "endpoint_id list \<Rightarrow> sim_error + simulator" where
  "simulator_new endpoints = with_config config_default endpoints"

definition add_endpoint :: "endpoint_id \<Rightarrow> unit sim_method" where
  "add_endpoint i s =
     (if bt_contains (sm_endpoints s) i then (Inl (DuplicateEndpoint i), s)
      else (Inr (), s\<lparr>sm_endpoints := bt_insert i (endpoint_new i) (sm_endpoints s)\<rparr>))"

definition lane_state_of :: "simulator \<Rightarrow> lane \<Rightarrow> lane_state" where
  "lane_state_of s lane = (case bt_get (sm_lanes s) lane of Some st \<Rightarrow> st | None \<Rightarrow> LaneRunning)"

definition control_inbox :: "simulator \<Rightarrow> endpoint_id \<Rightarrow> delivered_control list" where
  "control_inbox s i = (case bt_get (sm_endpoints s) i of None \<Rightarrow> [] | Some e \<Rightarrow> en_control_inbox e)"

definition asset_inbox :: "simulator \<Rightarrow> endpoint_id \<Rightarrow> delivered_asset list" where
  "asset_inbox s i = (case bt_get (sm_endpoints s) i of None \<Rightarrow> [] | Some e \<Rightarrow> en_asset_inbox e)"

definition delivered_for_transfer :: "simulator \<Rightarrow> wire_transfer_id \<Rightarrow> u128" where
  "delivered_for_transfer s transfer =
     foldl (\<lambda>acc entry. saturating_add_word acc (da_delivered entry)) 0
       (filter (\<lambda>entry. da_transfer entry = transfer)
         (concat (map en_asset_inbox (bt_values (sm_endpoints s)))))"

definition deliveries_of_message :: "simulator \<Rightarrow> wire_message_id \<Rightarrow> delivered_control list" where
  "deliveries_of_message s message =
     filter (\<lambda>entry. dc_message_id entry = message)
       (concat (map en_control_inbox (bt_values (sm_endpoints s))))"

section \<open>Scheduling\<close>

definition require_endpoint :: "simulator \<Rightarrow> endpoint_id \<Rightarrow> sim_error + unit" where
  "require_endpoint s i =
     (if bt_contains (sm_endpoints s) i then Inr () else Inl (UnknownEndpointError i))"

definition check_route :: "simulator \<Rightarrow> endpoint_id \<Rightarrow> endpoint_id \<Rightarrow> sim_error + unit" where
  "check_route s source destination =
     and_then (require_endpoint s source) (\<lambda>_.
     and_then (require_endpoint s destination) (\<lambda>_.
     if source = destination then Inl (InvalidConfiguration SameEndpointRoute) else Inr ()))"

definition check_delivery_tick :: "simulator \<Rightarrow> tick \<Rightarrow> sim_error + unit" where
  "check_delivery_tick s t =
     (if t < sm_now s then Inl (DeliveryTickInPast (sm_now s) t) else Inr ())"

definition reserve_event_id :: "event_id option \<Rightarrow> event_id sim_method" where
  "reserve_event_id wanted s =
     (let i = (case wanted of Some w \<Rightarrow> w | None \<Rightarrow> sm_next_event s) in
      if bt_contains (sm_events s) i then (Inl (DuplicateEventId i), s)
      else case checked_add_word i 1 of
        None \<Rightarrow> (Inl SimOverflow, s)
      | Some n \<Rightarrow> (Inr i, s\<lparr>sm_next_event := max n (sm_next_event s)\<rparr>))"

definition insert_scheduled :: "sim_event \<Rightarrow> subject \<Rightarrow> simulator \<Rightarrow> simulator" where
  "insert_scheduled e subject s =
     (let s = record_trace (EventScheduled (ev_id e) (ev_lane e) (ev_source e) (ev_destination e)
                subject (ev_deliver_at e)) s;
          s = put_event (ev_id e) e s
      in enqueue (ev_deliver_at e) (ev_lane e) (ev_id e) s)"

definition schedule_control :: "'h digest \<Rightarrow> control_request \<Rightarrow> event_id sim_method" where
  "schedule_control D r s =
     m_check (check_route s (cr_source r) (cr_destination r)) (\<lambda>_.
     m_check (if cr_bytes r = [] then Inl (InvalidConfiguration EmptyMessage) else Inr ()) (\<lambda>_.
     m_check (check_delivery_tick s (cr_deliver_at r)) (\<lambda>_.
     m_then (reserve_event_id (cr_id r)) (\<lambda>i s.
       let message_id = message_identity D (cr_bytes r);
           e = ControlE \<lparr>ce_id = i, ce_source = cr_source r, ce_destination = cr_destination r,
                 ce_intended_destination = cr_destination r, ce_bytes = cr_bytes r,
                 ce_message_id = message_id, ce_deliver_at = cr_deliver_at r, ce_attempts = 0,
                 ce_duplicate_of = None, ce_mutation = None, ce_expires_at = cr_expires_at r,
                 ce_from_fault = False, ce_status = Scheduled\<rparr>
       in (Inr i, insert_scheduled e (MessageSubject message_id) s))))) s"

definition schedule_asset :: "asset_request \<Rightarrow> event_id sim_method" where
  "schedule_asset r s =
     m_check (check_route s (ar_source r) (ar_destination r)) (\<lambda>_.
     m_check (if ar_amount r = 0 then Inl ZeroAssetAmount else Inr ()) (\<lambda>_.
     m_check (check_delivery_tick s (ar_deliver_at r)) (\<lambda>_.
     m_then (reserve_event_id (ar_id r)) (\<lambda>i s.
       let e = AssetE \<lparr>ae_id = i, ae_transfer = ar_transfer r, ae_source = ar_source r,
                 ae_destination = ar_destination r, ae_intended_destination = ar_destination r,
                 ae_requested = ar_amount r, ae_delivered = ar_amount r,
                 ae_deliver_at = ar_deliver_at r, ae_attempts = 0, ae_duplicate_of = None,
                 ae_piece = None, ae_over_delivered = False, ae_timeout_at = ar_timeout_at r,
                 ae_from_fault = False, ae_status = Scheduled\<rparr>
       in (Inr i, insert_scheduled e (TransferSubject (ar_transfer r)) s))))) s"

text \<open>The loop of \<open>take_generated_id\<close>: the first free identifier from a candidate on.\<close>

function free_id :: "(event_id, sim_event) btree_map \<Rightarrow> u64 \<Rightarrow> (event_id \<times> u64) option" where
  "free_id events candidate =
     (if \<not> bt_contains events candidate
      then map_option (\<lambda>n. (candidate, n)) (checked_add_word candidate 1)
      else case checked_add_word candidate 1 of
        None \<Rightarrow> None
      | Some n \<Rightarrow> free_id events n)"
  by pat_completeness auto
termination
proof (relation "measure (\<lambda>(events, candidate). 2 ^ 64 - unat candidate)", goal_cases)
  case (2 events candidate n)
  then have "unat n = unat candidate + 1" by (simp add: amount_simps)
  moreover have "unat n < 2 ^ 64" using unat_below [of n] by simp
  ultimately show ?case by simp
qed simp

declare free_id.simps [simp del]

definition take_generated_id :: "simulator \<Rightarrow> event_id option \<times> simulator" where
  "take_generated_id s =
     (case free_id (sm_events s) (sm_next_event s) of
        None \<Rightarrow> (None, s)
      | Some (i, n) \<Rightarrow> (Some i, s\<lparr>sm_next_event := n\<rparr>))"

section \<open>Declaring faults\<close>

definition target_lane :: "simulator \<Rightarrow> fault \<Rightarrow> sim_error + lane" where
  "target_lane s f =
     (case ft_target f of
        TargetEvent i \<Rightarrow> ok_or (map_option ev_lane (bt_get (sm_events s) i)) (UnknownEvent i)
      | other \<Rightarrow> ok_or (lane_hint other) (UnknownFaultTarget (ft_id f)))"

definition check_target_endpoints :: "simulator \<Rightarrow> fault \<Rightarrow> sim_error + unit" where
  "check_target_endpoints s f =
     and_then (case ft_target f of
         TargetRoute source destination _ \<Rightarrow>
           and_then (require_endpoint s source) (\<lambda>_. require_endpoint s destination)
       | _ \<Rightarrow> Inr ()) (\<lambda>_.
     case ft_action f of ReplaceDestination to \<Rightarrow> require_endpoint s to | _ \<Rightarrow> Inr ())"

fun sum_pieces_from :: "u128 \<Rightarrow> wire_asset_amount list \<Rightarrow> u128 option" where
  "sum_pieces_from acc [] = Some acc"
| "sum_pieces_from acc (piece # pieces) =
     (case checked_add_word acc piece of None \<Rightarrow> None | Some t \<Rightarrow> sum_pieces_from t pieces)"

definition sum_pieces :: "wire_asset_amount list \<Rightarrow> u128 option" where
  "sum_pieces pieces = sum_pieces_from 0 pieces"

definition check_action_shape :: "fault_action \<Rightarrow> sim_error + unit" where
  "check_action_shape action =
     (case action of
        Duplicate copies _ \<Rightarrow>
          if copies = 0 then Inl (InvalidConfiguration NoDuplicateCopies) else Inr ()
      | CorruptByte _ flip \<Rightarrow> if flip = 0 then Inl (InvalidConfiguration NoByteChange) else Inr ()
      | Partial amount \<Rightarrow> if amount = 0 then Inl ZeroAssetAmount else Inr ()
      | OverDeliver amount \<Rightarrow> if amount = 0 then Inl ZeroAssetAmount else Inr ()
      | Split pieces _ \<Rightarrow>
          if pieces = [] \<or> (\<exists>piece \<in> set pieces. piece = 0) then Inl InvalidPartialSplit
          else and_then (ok_or (sum_pieces pieces) SimOverflow) (\<lambda>_. Inr ())
      | _ \<Rightarrow> Inr ())"

definition requested_of :: "sim_event \<Rightarrow> u128" where
  "requested_of e = (case ev_asset e of None \<Rightarrow> 0 | Some a \<Rightarrow> ae_requested a)"

definition check_against_named_event :: "simulator \<Rightarrow> event_id \<Rightarrow> fault_action \<Rightarrow> sim_error + unit" where
  "check_against_named_event s i action =
     and_then (ok_or (bt_get (sm_events s) i) (UnknownEvent i)) (\<lambda>e.
     if is_terminal (ev_status e) then Inl (EventAlreadyTerminal i)
     else if bs_contains (sm_resolved s) i then Inl (FaultsAlreadyBound i)
     else case action of
       CorruptByte offset _ \<Rightarrow>
         if (case ev_control e of None \<Rightarrow> 0 | Some c \<Rightarrow> length (ce_bytes c)) \<le> offset
         then Inl (InvalidConfiguration ConfigCorruptOffsetOutOfRange) else Inr ()
     | Partial amount \<Rightarrow>
         if requested_of e < amount
         then Inl (PartialSumExceedsRequest (requested_of e) amount) else Inr ()
     | Split pieces _ \<Rightarrow>
         and_then (ok_or (sum_pieces pieces) SimOverflow) (\<lambda>offered.
         if requested_of e < offered
         then Inl (PartialSumExceedsRequest (requested_of e) offered) else Inr ())
     | _ \<Rightarrow> Inr ())"

definition same_group_on_same_target :: "simulator \<Rightarrow> fault \<Rightarrow> fault_id option" where
  "same_group_on_same_target s f =
     map_option ft_id (find (\<lambda>existing. ft_target existing = ft_target f \<and>
       action_group (ft_action existing) = action_group (ft_action f)) (plan_iter (sm_plan s)))"

definition add_fault :: "fault \<Rightarrow> unit sim_method" where
  "add_fault f s =
     (if plan_contains (sm_plan s) (ft_id f) then (Inl (DuplicateFaultId (ft_id f)), s)
      else m_check (target_lane s f) (\<lambda>lane.
        m_check (case required_lane (ft_action f) of
            Some required \<Rightarrow>
              if required \<noteq> lane then Inl (InvalidConfiguration ActionLaneMismatch) else Inr ()
          | None \<Rightarrow> Inr ()) (\<lambda>_.
        m_check (check_target_endpoints s f) (\<lambda>_.
        m_check (check_action_shape (ft_action f)) (\<lambda>_.
        m_check (case ft_target f of
            TargetEvent i \<Rightarrow> check_against_named_event s i (ft_action f)
          | _ \<Rightarrow> Inr ()) (\<lambda>_.
        m_check (case same_group_on_same_target s f of
            Some first \<Rightarrow> Inl (ConflictingFaults first (ft_id f))
          | None \<Rightarrow> Inr ()) (\<lambda>_ s.
        (Inr (), s\<lparr>sm_plan := plan_insert f (sm_plan s)\<rparr>))))))) s)"

section \<open>Time\<close>

definition advance_to :: "tick \<Rightarrow> unit sim_method" where
  "advance_to target s =
     (if target < sm_now s then (Inl (TimeMovesBackwards (sm_now s) target), s)
      else if target = sm_now s then (Inr (), s)
      else let from = sm_now s
           in (Inr (), record_trace (TickAdvanced from target) (s\<lparr>sm_now := target\<rparr>)))"

definition advance_by :: "u64 \<Rightarrow> unit sim_method" where
  "advance_by ticks s =
     m_check (ok_or (tick_checked_add (sm_now s) ticks) SimOverflow) (\<lambda>target. advance_to target) s"

section \<open>Composing faults\<close>

definition record_effect :: "fault_id \<Rightarrow> event_id \<Rightarrow> fault_effect \<Rightarrow> simulator \<Rightarrow> simulator" where
  "record_effect f e effect s = record_trace (FaultApplied f e effect) s"

fun set_delivered :: "wire_asset_amount \<Rightarrow> bool \<Rightarrow> sim_event \<Rightarrow> sim_event" where
  "set_delivered amount over (AssetE a) =
     AssetE (a\<lparr>ae_delivered := amount, ae_over_delivered := over\<rparr>)"
| "set_delivered amount over (ControlE c) = ControlE c"

fun clone_for_duplicate :: "sim_event \<Rightarrow> event_id \<Rightarrow> tick \<Rightarrow> sim_event" where
  "clone_for_duplicate (ControlE c) i deliver_at =
     ControlE \<lparr>ce_id = i, ce_source = ce_source c, ce_destination = ce_destination c,
       ce_intended_destination = ce_intended_destination c, ce_bytes = ce_bytes c,
       ce_message_id = ce_message_id c, ce_deliver_at = deliver_at, ce_attempts = 0,
       ce_duplicate_of = Some (ce_id c), ce_mutation = ce_mutation c,
       ce_expires_at = ce_expires_at c, ce_from_fault = True, ce_status = Scheduled\<rparr>"
| "clone_for_duplicate (AssetE a) i deliver_at =
     AssetE (a\<lparr>ae_id := i, ae_deliver_at := deliver_at, ae_attempts := 0,
       ae_duplicate_of := Some (ae_id a), ae_from_fault := True, ae_status := Scheduled\<rparr>)"

fun corrupt :: "'h digest \<Rightarrow> fault_id \<Rightarrow> nat \<Rightarrow> u8 \<Rightarrow> sim_event \<Rightarrow> simulator \<Rightarrow> sim_event \<times> simulator" where
  "corrupt D f offset flip (AssetE a) s = (AssetE a, s)"
| "corrupt D f offset flip (ControlE c) s =
     (if length (ce_bytes c) \<le> offset then (ControlE c, s)
      else let from = ce_bytes c ! offset;
               to = from XOR flip;
               bs = (ce_bytes c)[offset := to];
               original = (case ce_mutation c of
                   None \<Rightarrow> ce_message_id c
                 | Some previous \<Rightarrow> bm_original_message_id previous);
               c = c\<lparr>ce_bytes := bs, ce_message_id := message_identity D bs,
                     ce_mutation := Some \<lparr>bm_offset = offset, bm_from = from, bm_to = to,
                       bm_original_message_id = original\<rparr>\<rparr>
           in (ControlE c, record_effect f (ce_id c) (EffectCorrupted offset from to) s))"

definition u16_of_position :: "nat \<Rightarrow> u16" where
  "u16_of_position n = (if n < 2 ^ 16 then of_nat n else - 1)"

definition spaced_tick :: "tick \<Rightarrow> u64 \<Rightarrow> u16 \<Rightarrow> tick" where
  "spaced_tick t spacing index = tick_add_or_max t (saturating_mul_word spacing (ucast index))"

definition piece_event :: "asset_event \<Rightarrow> event_id \<Rightarrow> tick \<Rightarrow> wire_asset_amount \<Rightarrow> u16 \<Rightarrow> asset_event" where
  "piece_event origin i deliver_at amount index =
     origin\<lparr>ae_id := i, ae_deliver_at := deliver_at, ae_attempts := 0, ae_delivered := amount,
       ae_piece := Some index, ae_from_fault := True, ae_status := Scheduled\<rparr>"

text \<open>The loop of \<open>split\<close> over the pieces from the second on, \<open>position\<close> counting them.\<close>

fun split_loop :: "asset_event \<Rightarrow> u64 \<Rightarrow> nat \<Rightarrow> wire_asset_amount list \<Rightarrow> simulator \<Rightarrow> simulator" where
  "split_loop origin spacing position [] s = s"
| "split_loop origin spacing position (amount # pieces) s =
     (case take_generated_id s of
        (None, s) \<Rightarrow> s
      | (Some i, s) \<Rightarrow>
          let index = u16_of_position position;
              deliver_at = spaced_tick (sm_now s) spacing index;
              s = put_event i (AssetE (piece_event origin i deliver_at amount index)) s;
              s = enqueue deliver_at Asset i s;
              s = record_trace (PartialDeliveryCreated (ae_id origin) i (ae_transfer origin)
                    amount index) s
          in split_loop origin spacing (Suc position) pieces s)"

fun split_event ::
  "fault_id \<Rightarrow> wire_asset_amount list \<Rightarrow> u64 \<Rightarrow> sim_event \<Rightarrow> simulator \<Rightarrow> sim_event \<times> simulator" where
  "split_event f pieces spacing (ControlE c) s = (ControlE c, s)"
| "split_event f pieces spacing (AssetE a) s =
     (case pieces of
        [] \<Rightarrow> (AssetE a, s)
      | first # rest \<Rightarrow>
          let a = a\<lparr>ae_delivered := first, ae_piece := Some 0\<rparr>;
              s = record_effect f (ae_id a) (EffectSplitInto (u16_of_position (length pieces))) s
          in (AssetE a, split_loop a spacing 1 rest s))"

text \<open>The loop of \<open>duplicate\<close> over \<open>1..=copies\<close>.\<close>

fun duplicate_loop :: "sim_event \<Rightarrow> u64 \<Rightarrow> u16 list \<Rightarrow> simulator \<Rightarrow> simulator" where
  "duplicate_loop e spacing [] s = s"
| "duplicate_loop e spacing (index # indices) s =
     (case take_generated_id s of
        (None, s) \<Rightarrow> s
      | (Some i, s) \<Rightarrow>
          let deliver_at = spaced_tick (sm_now s) spacing index;
              copy = clone_for_duplicate e i deliver_at;
              s = put_event i copy s;
              s = enqueue deliver_at (ev_lane copy) i s;
              s = record_trace (DuplicateCreated (ev_id e) i deliver_at) s
          in duplicate_loop e spacing indices s)"

definition duplicate :: "fault_id \<Rightarrow> sim_event \<Rightarrow> u16 \<Rightarrow> u64 \<Rightarrow> simulator \<Rightarrow> simulator" where
  "duplicate f e copies spacing s =
     duplicate_loop e spacing (map of_nat [1..<Suc (unat copies)])
       (record_effect f (ev_id e) (EffectDuplicated copies) s)"

definition pending_faults :: "simulator \<Rightarrow> sim_event \<Rightarrow> fault list" where
  "pending_faults s e =
     filter (\<lambda>f. \<not> (made_by_fault e \<and> creates_events (ft_action f))) (matching (sm_plan s) e)"

definition then_some :: "bool \<Rightarrow> 'a \<Rightarrow> 'a option" where
  "then_some b x = (if b then Some x else None)"

definition check_action :: "simulator \<Rightarrow> fault_action \<Rightarrow> sim_event \<Rightarrow> reject_reason option" where
  "check_action s action e =
     (case action of
        ReplaceDestination to \<Rightarrow> then_some (\<not> bt_contains (sm_endpoints s) to) UnknownEndpoint
      | Duplicate copies _ \<Rightarrow> then_some (copies = 0) DuplicateCopiesIsZero
      | CorruptByte offset flip \<Rightarrow>
          (case ev_control e of
             None \<Rightarrow> None
           | Some c \<Rightarrow>
               if flip = 0 then Some CorruptMaskIsZero
               else if ce_mutation c \<noteq> None then Some AlreadyCorrupted
               else then_some (length (ce_bytes c) \<le> offset) CorruptOffsetOutOfRange)
      | Partial amount \<Rightarrow>
          (case ev_asset e of
             None \<Rightarrow> None
           | Some a \<Rightarrow>
               if amount = 0 then Some AmountIsZero
               else then_some (ae_requested a < amount) AmountExceedsRequest)
      | OverDeliver amount \<Rightarrow>
          (case ev_asset e of
             None \<Rightarrow> None
           | Some a \<Rightarrow> then_some (amount \<le> ae_requested a) OverDeliveryNotAboveRequest)
      | Split pieces _ \<Rightarrow>
          (case ev_asset e of
             None \<Rightarrow> None
           | Some a \<Rightarrow>
               if pieces = [] then Some SplitHasNoPieces
               else if \<exists>piece \<in> set pieces. piece = 0 then Some SplitPieceIsZero
               else (case sum_pieces pieces of
                   None \<Rightarrow> Some SplitExceedsRequest
                 | Some t \<Rightarrow> then_some (ae_requested a < t) SplitExceedsRequest))
      | Delay _ \<Rightarrow> None
      | Drop \<Rightarrow> None)"

fun check_batch_from ::
  "simulator \<Rightarrow> sim_event \<Rightarrow> exclusion_group list \<Rightarrow> fault list \<Rightarrow> (fault_id \<times> reject_reason) option" where
  "check_batch_from s e groups [] = None"
| "check_batch_from s e groups (f # batch) =
     (let group = action_group (ft_action f) in
      if group \<in> set groups then Some (ft_id f, ConflictingGroup)
      else case check_action s (ft_action f) e of
        Some reason \<Rightarrow> Some (ft_id f, reason)
      | None \<Rightarrow> check_batch_from s e (groups @ [group]) batch)"

definition check_batch :: "simulator \<Rightarrow> fault list \<Rightarrow> sim_event \<Rightarrow> (fault_id \<times> reject_reason) option" where
  "check_batch s batch e = check_batch_from s e [] batch"

text \<open>
  One fault of the batch acts on the event, the two markers \<open>delayed\<close> and \<open>dropped\<close> and the
  state.
\<close>

type_synonym compose_state = "sim_event \<times> tick option \<times> fault_id option \<times> simulator"

fun apply_fault :: "'h digest \<Rightarrow> fault \<Rightarrow> compose_state \<Rightarrow> compose_state" where
  "apply_fault D f (e, delayed, dropped, s) =
     (case ft_action f of
        ReplaceDestination to \<Rightarrow>
          (set_destination to e, delayed, dropped, record_effect (ft_id f) (ev_id e) (EffectRerouted to) s)
      | CorruptByte offset flip \<Rightarrow>
          (let (e, s) = corrupt D (ft_id f) offset flip e s in (e, delayed, dropped, s))
      | Partial amount \<Rightarrow>
          (set_delivered amount False e, delayed, dropped,
           record_effect (ft_id f) (ev_id e) (EffectAmountSet amount) s)
      | OverDeliver amount \<Rightarrow>
          (set_delivered amount True e, delayed, dropped,
           record_effect (ft_id f) (ev_id e) (EffectAmountSet amount) s)
      | Split pieces spacing \<Rightarrow>
          (let (e, s) = split_event (ft_id f) pieces spacing e s in (e, delayed, dropped, s))
      | Duplicate copies spacing \<Rightarrow> (e, delayed, dropped, duplicate (ft_id f) e copies spacing s)
      | Delay ticks \<Rightarrow>
          (let to = tick_add_or_max (sm_now s) ticks
           in (e, Some to, dropped, record_effect (ft_id f) (ev_id e) (EffectDelayed to) s))
      | Drop \<Rightarrow> (e, delayed, Some (ft_id f), record_effect (ft_id f) (ev_id e) EffectDropped s))"

definition mark_resolved :: "event_id \<Rightarrow> simulator \<Rightarrow> simulator" where
  "mark_resolved i s = s\<lparr>sm_resolved := bs_insert i (sm_resolved s)\<rparr>"

definition compose :: "'h digest \<Rightarrow> sim_event \<Rightarrow> simulator \<Rightarrow> fault_outcome \<times> sim_event \<times> simulator" where
  "compose D e s =
     (if bs_contains (sm_resolved s) (ev_id e) then (Proceed, e, s)
      else let s = mark_resolved (ev_id e) s; batch = pending_faults s e in
        if batch = [] then (Proceed, e, s)
        else case check_batch s batch e of
          Some (f, reason) \<Rightarrow>
            (OutcomeRejected reason, e, record_trace (FaultRejected f (ev_id e) reason) s)
        | None \<Rightarrow>
            (case fold (apply_fault D) batch (e, None, None, s) of
               (e, delayed, dropped, s) \<Rightarrow>
                 (case dropped of
                    Some f \<Rightarrow> (OutcomeDropped f, e, s)
                  | None \<Rightarrow> (case delayed of
                      Some t \<Rightarrow> (OutcomeDelayed t, e, s)
                    | None \<Rightarrow> (Proceed, e, s)))))"

section \<open>One delivery attempt\<close>

definition block :: "sim_event \<Rightarrow> block_reason \<Rightarrow> simulator \<Rightarrow> simulator" where
  "block e reason s =
     (let i = ev_id e; destination = ev_destination e;
          s = put_event i (set_status Blocked e) s;
          s = s\<lparr>sm_held := bs_insert i (sm_held s)\<rparr>
      in record_trace (DeliveryBlocked i destination reason) s)"

text \<open>\<open>if let Some(endpoint) = self.endpoints.get_mut(..)\<close>\<close>

definition update_endpoint :: "endpoint_id \<Rightarrow> (endpoint \<Rightarrow> endpoint) \<Rightarrow> simulator \<Rightarrow> simulator" where
  "update_endpoint i g s =
     (case bt_get (sm_endpoints s) i of
        None \<Rightarrow> s
      | Some e \<Rightarrow> s\<lparr>sm_endpoints := bt_insert i (g e) (sm_endpoints s)\<rparr>)"

definition control_record :: "control_event \<Rightarrow> tick \<Rightarrow> bool \<Rightarrow> delivered_control" where
  "control_record c now late =
     \<lparr>dc_event = ce_id c, dc_source = ce_source c,
      dc_intended_destination = ce_intended_destination c, dc_bytes = ce_bytes c,
      dc_message_id = ce_message_id c, dc_delivered_at = now,
      dc_duplicate_of = ce_duplicate_of c, dc_mutation = ce_mutation c,
      dc_after_deadline = late\<rparr>"

definition asset_record :: "asset_event \<Rightarrow> tick \<Rightarrow> bool \<Rightarrow> delivered_asset" where
  "asset_record a now late =
     \<lparr>da_event = ae_id a, da_transfer = ae_transfer a, da_source = ae_source a,
      da_intended_destination = ae_intended_destination a, da_requested = ae_requested a,
      da_delivered = ae_delivered a, da_delivered_at = now,
      da_duplicate_of = ae_duplicate_of a, da_piece = ae_piece a,
      da_over_delivered = ae_over_delivered a, da_after_timeout = late\<rparr>"

definition hand_over :: "sim_event \<Rightarrow> bool \<Rightarrow> simulator \<Rightarrow> simulator" where
  "hand_over e late s =
     (let i = ev_id e; destination = ev_destination e; e = set_status Delivered e;
          (subject, s) =
            (case e of
               ControlE c \<Rightarrow> (MessageSubject (ce_message_id c),
                 update_endpoint destination (push_control (control_record c (sm_now s) late)) s)
             | AssetE a \<Rightarrow> (TransferSubject (ae_transfer a),
                 update_endpoint destination (push_asset (asset_record a (sm_now s) late)) s));
          s = put_event i e s
      in record_trace (EventDelivered i destination subject late) s)"

definition reject_event :: "event_id \<Rightarrow> sim_event \<Rightarrow> reject_reason \<Rightarrow> simulator \<Rightarrow> simulator" where
  "reject_event i e reason s =
     record_trace (EventRejected i reason) (put_event i (set_status RejectedBySimulator e) s)"

text \<open>What \<open>attempt\<close> does once no fault stands in the way.\<close>

definition finish_attempt :: "event_id \<Rightarrow> sim_event \<Rightarrow> simulator \<Rightarrow> simulator" where
  "finish_attempt i e s =
     (if lane_is_paused (lane_state_of s (ev_lane e)) then block e BlockLanePaused s
      else case bt_get (sm_endpoints s) (ev_destination e) of
        None \<Rightarrow> reject_event i e UnknownEndpoint s
      | Some endpoint \<Rightarrow>
          if is_halted endpoint then block e BlockEndpointHalted s
          else case ev_deadline e of
            None \<Rightarrow> hand_over e False s
          | Some deadline \<Rightarrow>
              if \<not> deadline < sm_now s then hand_over e False s
              else case config_policy (sm_config s) (ev_lane e) of
                Expire \<Rightarrow>
                  record_trace (EventExpired i deadline) (put_event i (set_status Expired e) s)
              | DeliverWithMarker \<Rightarrow> hand_over e True s)"

definition attempt :: "'h digest \<Rightarrow> event_id \<Rightarrow> simulator \<Rightarrow> simulator" where
  "attempt D i s =
     (case bt_get (sm_events s) i of
        None \<Rightarrow> s
      | Some e \<Rightarrow>
          if is_terminal (ev_status e) then s
          else let e = set_status Ready (bump_attempts e);
                   s = record_trace (DeliveryAttempted i (ev_destination e) (ev_attempts e)) s
               in case compose D e s of
                    (OutcomeRejected reason, e, s) \<Rightarrow> reject_event i e reason s
                  | (OutcomeDropped f, e, s) \<Rightarrow>
                      record_trace (EventDropped i (Some f)) (put_event i (set_status Dropped e) s)
                  | (OutcomeDelayed t, e, s) \<Rightarrow>
                      enqueue t (ev_lane e) i
                        (put_event i (set_deliver_at t (set_status Scheduled e)) s)
                  | (Proceed, e, s) \<Rightarrow> finish_attempt i e s)"

definition deliver_next :: "'h digest \<Rightarrow> simulator \<Rightarrow> event_id option \<times> simulator" where
  "deliver_next D s =
     (case queue_peek (sm_queue s) of
        None \<Rightarrow> (None, s)
      | Some key \<Rightarrow>
          if sm_now s < qk_deliver_at key then (None, s)
          else (Some (qk_event key),
                attempt D (qk_event key) (s\<lparr>sm_queue := snd (queue_pop (sm_queue s))\<rparr>)))"

section \<open>Halting and resuming\<close>

definition path_is_clear :: "simulator \<Rightarrow> event_id \<Rightarrow> bool" where
  "path_is_clear s i =
     (case bt_get (sm_events s) i of
        None \<Rightarrow> False
      | Some e \<Rightarrow>
          \<not> lane_is_paused (lane_state_of s (ev_lane e)) \<and>
          (case bt_get (sm_endpoints s) (ev_destination e) of
             None \<Rightarrow> False
           | Some endpoint \<Rightarrow> \<not> is_halted endpoint))"

fun release_loop :: "event_id list \<Rightarrow> u32 \<Rightarrow> simulator \<Rightarrow> u32 \<times> simulator" where
  "release_loop [] released s = (released, s)"
| "release_loop (i # ready) released s =
     (let s = s\<lparr>sm_held := bs_remove i (sm_held s)\<rparr> in
      case bt_get (sm_events s) i of
        None \<Rightarrow> release_loop ready released s
      | Some e \<Rightarrow>
          let t = max (sm_now s) (ev_deliver_at e);
              e = set_deliver_at t (set_status Scheduled e);
              s = enqueue t (ev_lane e) i (put_event i e s)
          in release_loop ready (saturating_add_word released 1) s)"

definition release_held :: "simulator \<Rightarrow> u32 \<times> simulator" where
  "release_held s = release_loop (filter (path_is_clear s) (sm_held s)) 0 s"

definition halt_endpoint :: "endpoint_id \<Rightarrow> unit sim_method" where
  "halt_endpoint i s =
     (if \<not> bt_contains (sm_endpoints s) i then (Inl (UnknownEndpointError i), s)
      else (Inr (), record_trace (EndpointHalted i) (update_endpoint i (set_state EndpointStopped) s)))"

definition resume_endpoint :: "endpoint_id \<Rightarrow> unit sim_method" where
  "resume_endpoint i s =
     (if \<not> bt_contains (sm_endpoints s) i then (Inl (UnknownEndpointError i), s)
      else let (released, s) = release_held (update_endpoint i (set_state EndpointActive) s)
           in (Inr (), record_trace (EndpointResumed i released) s))"

definition pause_lane :: "lane \<Rightarrow> simulator \<Rightarrow> simulator" where
  "pause_lane lane s =
     record_trace (LanePausedAction lane) (s\<lparr>sm_lanes := bt_insert lane LanePaused (sm_lanes s)\<rparr>)"

definition resume_lane :: "lane \<Rightarrow> simulator \<Rightarrow> simulator" where
  "resume_lane lane s =
     (let (released, s) = release_held (s\<lparr>sm_lanes := bt_insert lane LaneRunning (sm_lanes s)\<rparr>)
      in record_trace (LaneResumed lane released) s)"

section \<open>Reordering\<close>

definition pending_key :: "simulator \<Rightarrow> event_id \<Rightarrow> sim_error + queue_key" where
  "pending_key s i =
     (if \<not> bt_contains (sm_events s) i then Inl (UnknownEvent i)
      else ok_or (queue_find (sm_queue s) i) (EventAlreadyTerminal i))"

definition move_to :: "queue_key \<Rightarrow> tick \<Rightarrow> simulator \<Rightarrow> simulator" where
  "move_to key target s =
     (if qk_deliver_at key = target then s
      else let s = s\<lparr>sm_queue := queue_remove key (sm_queue s)\<rparr> in
        case bt_get (sm_events s) (qk_event key) of
          None \<Rightarrow> s
        | Some e \<Rightarrow>
            let s = put_event (qk_event key) (set_deliver_at target e) s;
                s = enqueue target (ev_lane e) (qk_event key) s
            in record_trace (EventReordered (qk_event key) (qk_deliver_at key) target) s)"

definition swap_delivery_ticks :: "event_id \<Rightarrow> event_id \<Rightarrow> unit sim_method" where
  "swap_delivery_ticks left right s =
     m_check (pending_key s left) (\<lambda>left_key.
     m_check (pending_key s right) (\<lambda>right_key s.
       (Inr (), move_to right_key (qk_deliver_at left_key)
                  (move_to left_key (qk_deliver_at right_key) s)))) s"

definition move_before :: "event_id \<Rightarrow> event_id \<Rightarrow> unit sim_method" where
  "move_before event other s =
     m_check (pending_key s event) (\<lambda>key.
     m_check (pending_key s other) (\<lambda>anchor s.
       let target = max (saturating_sub_word (qk_deliver_at anchor) 1) (sm_now s)
       in (Inr (), move_to key target s))) s"

definition move_after :: "event_id \<Rightarrow> event_id \<Rightarrow> unit sim_method" where
  "move_after event other s =
     m_check (pending_key s event) (\<lambda>key.
     m_check (pending_key s other) (\<lambda>anchor.
     m_check (ok_or (tick_checked_add (qk_deliver_at anchor) 1) SimOverflow) (\<lambda>target s.
       (Inr (), move_to key target s)))) s"

end
