(* ===== verification/Sim_Run.thy ===== *)
theory Sim_Run
  imports Sim_Core
begin

text \<open>
  The loops of the transport simulator (\<open>deliver_ready\<close>, \<open>run_until_idle\<close>, \<open>run_until\<close> of
  \<open>simulator.rs\<close>) and the operations of \<open>operation.rs\<close>.
  The loops end from every state: an attempt uses up one pending key,
  can make at most the copies and pieces the plan declares, and what it makes never runs
  such a fault again. \<open>work\<close> is the measure that says so.
\<close>

named_theorems sim_defs \<open>the elementary updates of the simulator\<close>

declare record_trace_def [sim_defs] put_event_def [sim_defs] enqueue_def [sim_defs]
  record_effect_def [sim_defs] mark_resolved_def [sim_defs]

section \<open>Events are addressed by key\<close>

lemma bt_get_insert_always:
  "bt_get (bt_insert k v m) k' = (if k' = k then Some v else bt_get m k')"
  by (induction m) (auto simp: bt_get_def)

lemma bt_contains_get: "bt_contains m k \<longleftrightarrow> (\<exists>v. bt_get m k = Some v)"
  by (auto simp: bt_contains_def)

abbreviation event_at :: "simulator \<Rightarrow> event_id \<Rightarrow> sim_event option" where
  "event_at s i \<equiv> bt_get (sm_events s) i"

lemma event_at_put [simp]:
  "event_at (put_event i e s) j = (if j = i then Some e else event_at s j)"
  by (simp add: put_event_def bt_get_insert_always)

lemma event_setters [simp]:
  "ev_id (set_status st e) = ev_id e" "ev_id (set_deliver_at t e) = ev_id e"
  "ev_id (set_destination d e) = ev_id e" "ev_id (bump_attempts e) = ev_id e"
  "ev_id (set_delivered a b e) = ev_id e"
  "ev_lane (set_status st e) = ev_lane e" "ev_lane (set_deliver_at t e) = ev_lane e"
  "ev_lane (set_destination d e) = ev_lane e" "ev_lane (bump_attempts e) = ev_lane e"
  "ev_lane (set_delivered a b e) = ev_lane e"
  "made_by_fault (set_status st e) = made_by_fault e"
  "made_by_fault (set_deliver_at t e) = made_by_fault e"
  "made_by_fault (set_destination d e) = made_by_fault e"
  "made_by_fault (bump_attempts e) = made_by_fault e"
  "made_by_fault (set_delivered a b e) = made_by_fault e"
  "ev_status (set_status st e) = st" "ev_status (set_deliver_at t e) = ev_status e"
  "ev_status (bump_attempts e) = ev_status e" "ev_status (set_destination d e) = ev_status e"
  "ev_status (set_delivered a b e) = ev_status e"
  "ev_deliver_at (set_deliver_at t e) = t" "ev_deliver_at (set_status st e) = ev_deliver_at e"
  "ev_destination (set_status st e) = ev_destination e"
  "ev_destination (set_deliver_at t e) = ev_destination e"
  "ev_deadline (set_status st e) = ev_deadline e"
  "ev_attempts (set_status st e) = ev_attempts e" "ev_attempts (set_deliver_at t e) = ev_attempts e"
  "ev_attempts (set_destination d e) = ev_attempts e"
  "ev_attempts (set_delivered a b e) = ev_attempts e"
  "ev_source (set_status st e) = ev_source e" "ev_source (set_deliver_at t e) = ev_source e"
  "ev_source (set_destination d e) = ev_source e" "ev_source (bump_attempts e) = ev_source e"
  "ev_source (set_delivered a b e) = ev_source e"
  "ev_intended_destination (set_status st e) = ev_intended_destination e"
  "ev_intended_destination (set_deliver_at t e) = ev_intended_destination e"
  "ev_intended_destination (set_destination d e) = ev_intended_destination e"
  "ev_intended_destination (bump_attempts e) = ev_intended_destination e"
  "ev_intended_destination (set_delivered a b e) = ev_intended_destination e"
  "ev_deliver_at (set_destination d e) = ev_deliver_at e"
  "ev_deliver_at (bump_attempts e) = ev_deliver_at e"
  "ev_deliver_at (set_delivered a b e) = ev_deliver_at e"
  by (cases e; simp)+

lemma clone_fields [simp]:
  "ev_id (clone_for_duplicate e i t) = i" "ev_lane (clone_for_duplicate e i t) = ev_lane e"
  "made_by_fault (clone_for_duplicate e i t)" "ev_status (clone_for_duplicate e i t) = Scheduled"
  "ev_deliver_at (clone_for_duplicate e i t) = t"
  "ev_destination (clone_for_duplicate e i t) = ev_destination e"
  "ev_attempts (clone_for_duplicate e i t) = 0"
  by (cases e; simp)+

lemma piece_fields [simp]:
  "ae_id (piece_event a i t amount index) = i"
  "ae_from_fault (piece_event a i t amount index)"
  "ae_status (piece_event a i t amount index) = Scheduled"
  "ae_deliver_at (piece_event a i t amount index) = t"
  "ae_attempts (piece_event a i t amount index) = 0"
  "ae_destination (piece_event a i t amount index) = ae_destination a"
  by (simp_all add: piece_event_def)

text \<open>The identifier that \<open>free_id\<close> finds is not in use and lies at or above the candidate.\<close>

lemma free_id_fresh:
  "free_id events c = Some (i, n) \<Longrightarrow>
     bt_get events i = None \<and> unat c \<le> unat i \<and> unat n = unat i + 1"
proof (induction events c arbitrary: i n rule: free_id.induct)
  case (1 events candidate)
  show ?case
  proof (cases "bt_contains events candidate")
    case False
    with "1.prems" show ?thesis
      by (subst (asm) free_id.simps) (auto simp: bt_contains_def amount_simps)
  next
    case True
    with "1.prems" obtain m where m: "checked_add_word candidate 1 = Some m"
      and "free_id events m = Some (i, n)"
      by (subst (asm) free_id.simps) (auto split: option.splits)
    with "1.IH" True show ?thesis
      by (force simp: amount_simps)
  qed
qed

lemma take_generated_id_Some:
  assumes "take_generated_id s = (Some i, t)"
  shows "event_at s i = None" "unat (sm_next_event s) \<le> unat i"
    "unat (sm_next_event t) = unat i + 1" "t = s\<lparr>sm_next_event := sm_next_event t\<rparr>"
  using assms by (auto simp: take_generated_id_def split: option.splits dest: free_id_fresh)

lemma take_generated_id_None: "take_generated_id s = (None, t) \<Longrightarrow> t = s"
  by (auto simp: take_generated_id_def split: option.splits)

section \<open>Work left to do\<close>

fun fanout :: "fault_action \<Rightarrow> nat" where
  "fanout (Duplicate copies _) = unat copies"
| "fanout (Split pieces _) = length pieces"
| "fanout _ = 0"

definition fanout_bound :: "fault_plan \<Rightarrow> nat" where
  "fanout_bound plan = sum_list (map (fanout \<circ> ft_action) (plan_iter plan))"

definition key_weight :: "simulator \<Rightarrow> queue_key \<Rightarrow> nat" where
  "key_weight s k =
     (case event_at s (qk_event k) of
        None \<Rightarrow> 2 + 2 * fanout_bound (sm_plan s)
      | Some e \<Rightarrow>
          if ev_id e \<in> set (sm_resolved s) then 1
          else if made_by_fault e then 2
          else 2 + 2 * fanout_bound (sm_plan s))"

definition work :: "simulator \<Rightarrow> nat" where
  "work s = sum_list (map (key_weight s) (sm_queue s))"

lemma key_weight_pos: "0 < key_weight s k"
  by (auto simp: key_weight_def split: option.splits)

lemma key_weight_same:
  assumes "sm_events t = sm_events s" "sm_resolved t = sm_resolved s" "sm_plan t = sm_plan s"
  shows "key_weight t = key_weight s"
  by (simp add: fun_eq_iff key_weight_def assms split: option.split)

lemma work_mono:
  assumes "sm_queue t = sm_queue s" "\<And>k. key_weight t k \<le> key_weight s k"
  shows "work t \<le> work s"
  using assms by (simp add: work_def sum_list_mono)

lemma work_enqueue: "work (enqueue t lane i s) \<le> work s + key_weight s (queue_key_new t lane i)"
proof -
  have "key_weight (enqueue t lane i s) = key_weight s"
    by (rule key_weight_same) (simp_all add: enqueue_def)
  then show ?thesis
    using sum_bs_insert [of "key_weight s" "queue_key_new t lane i" "sm_queue s"]
    by (simp add: work_def enqueue_def queue_insert_def)
qed

lemma work_same:
  assumes "sm_queue t = sm_queue s" "sm_events t = sm_events s" "sm_resolved t = sm_resolved s"
    "sm_plan t = sm_plan s"
  shows "work t = work s"
  using assms(1) key_weight_same [OF assms(2-4)] by (simp add: work_def)

lemma work_record [simp]: "work (record_trace a s) = work s" "work (record_effect f i x s) = work s"
  by (rule work_same; simp add: sim_defs)+

lemma work_put_resolved:
  assumes "ev_id e \<in> set (sm_resolved s)"
  shows "work (put_event i e s) \<le> work s"
  by (rule work_mono) (use assms in \<open>auto simp: key_weight_def sim_defs bt_get_insert_always
    Suc_le_eq split: option.splits\<close>)

lemma work_mark_resolved: "work (mark_resolved i s) \<le> work s"
  by (rule work_mono) (auto simp: key_weight_def sim_defs split: option.splits)

text \<open>A made event costs two.\<close>

lemma work_generate:
  assumes "event_at s i = None" "made_by_fault e" "qk_event (queue_key_new t lane i) = i"
    "s' = s\<lparr>sm_next_event := n\<rparr>"
  shows "work (enqueue t lane i (put_event i e s')) \<le> work s + 2"
proof -
  have "work (put_event i e s') \<le> work s"
    by (rule work_mono) (use assms in \<open>auto simp: key_weight_def sim_defs bt_get_insert_always
      split: option.splits\<close>)
  moreover have "key_weight (put_event i e s') (queue_key_new t lane i) \<le> 2"
    using assms by (simp add: key_weight_def put_event_def bt_get_insert_always)
  ultimately show ?thesis
    using work_enqueue [of t lane i "put_event i e s'"] by linarith
qed

section \<open>What composing faults does to the state\<close>

text \<open>
  Composition only appends to the trace and adds made events under fresh identifiers, each
  with its key. \<open>generates es s t\<close> says that \<open>t\<close> is \<open>s\<close> after making the events \<open>es\<close>.
\<close>

definition made_event :: "sim_event \<Rightarrow> bool" where
  "made_event e = (made_by_fault e \<and> ev_status e = Scheduled \<and> ev_attempts e = 0)"

definition generate :: "sim_event \<Rightarrow> u64 \<Rightarrow> simulator \<Rightarrow> simulator" where
  "generate e n s =
     enqueue (ev_deliver_at e) (ev_lane e) (ev_id e) (put_event (ev_id e) e (s\<lparr>sm_next_event := n\<rparr>))"

inductive generates :: "sim_event list \<Rightarrow> simulator \<Rightarrow> simulator \<Rightarrow> bool" where
  gen_refl: "generates [] s s"
| gen_trace: "generates es s t \<Longrightarrow> generates es s (record_trace a t)"
| gen_event: "generates es s t \<Longrightarrow> event_at t (ev_id e) = None \<Longrightarrow>
    unat (sm_next_event t) \<le> unat (ev_id e) \<Longrightarrow> unat n = unat (ev_id e) + 1 \<Longrightarrow> made_event e \<Longrightarrow>
    generates (es @ [e]) s (generate e n t)"

lemma generates_trans: "generates es' t u \<Longrightarrow> generates es s t \<Longrightarrow> generates (es @ es') s u"
proof (induction rule: generates.induct)
  case (gen_event es' t u e n)
  then show ?case using generates.gen_event [of "es @ es'" s u e n] by simp
qed (auto intro: generates.intros)

lemma generates_one: "generates [] s (record_trace a s)" "generates [] s (record_effect f i x s)"
  by (auto intro: generates.intros simp: record_effect_def)

lemma generates_kept:
  assumes "generates es s t"
  shows "sm_resolved t = sm_resolved s" "sm_plan t = sm_plan s" "sm_now t = sm_now s"
    "sm_endpoints t = sm_endpoints s" "sm_held t = sm_held s" "sm_lanes t = sm_lanes s"
    "sm_config t = sm_config s"
  using assms by (induction rule: generates.induct) (simp_all add: sim_defs generate_def)

lemma generates_event_at:
  "generates es s t \<Longrightarrow> event_at s i = Some e \<Longrightarrow> event_at t i = Some e"
  by (induction rule: generates.induct) (auto simp: generate_def sim_defs bt_get_insert_always)

lemma generates_work:
  assumes "generates es s t" shows "work t \<le> work s + 2 * length es"
  using assms
proof (induction rule: generates.induct)
  case (gen_event es s t e n)
  have "work (generate e n t) \<le> work t + 2"
    unfolding generate_def using gen_event
    by (intro work_generate) (auto simp: made_event_def queue_key_new_def)
  with gen_event.IH show ?case by simp
qed simp_all

lemma generate_step:
  assumes "take_generated_id s = (Some i, t)" "made_event e" "ev_id e = i"
  shows "generates [e] s (enqueue (ev_deliver_at e) (ev_lane e) i (put_event i e t))"
proof -
  note g = take_generated_id_Some [OF assms(1)]
  have "generates ([] @ [e]) s (generate e (sm_next_event t) s)"
    using g assms by (intro gen_event gen_refl) auto
  then show ?thesis
    using g(4) assms(3) by (simp add: generate_def)
qed

definition is_piece :: "asset_event \<Rightarrow> sim_event \<Rightarrow> wire_asset_amount \<Rightarrow> bool" where
  "is_piece origin e amount = (\<exists>i t x. e = AssetE (piece_event origin i t amount x))"

definition is_copy :: "sim_event \<Rightarrow> sim_event \<Rightarrow> bool" where
  "is_copy e c = (\<exists>i t. c = clone_for_duplicate e i t)"

lemma split_loop_generates:
  "\<exists>es n. generates es s (split_loop origin spacing position pieces s) \<and>
     list_all2 (is_piece origin) es (take n pieces)"
proof (induction pieces arbitrary: position s)
  case Nil
  show ?case by (rule exI [of _ "[]"]) (auto intro: gen_refl)
next
  case (Cons amount pieces)
  show ?case
  proof (cases "take_generated_id s")
    case (Pair r t)
    show ?thesis
    proof (cases r)
      case None
      with Pair have "split_loop origin spacing position (amount # pieces) s = s"
        by (simp add: take_generated_id_None)
      then show ?thesis
        by (intro exI [of _ "[]"] exI [of _ 0]) (simp add: gen_refl)
    next
      case (Some i)
      define x where "x = u16_of_position position"
      define d where "d = spaced_tick (sm_now t) spacing x"
      define e where "e = AssetE (piece_event origin i d amount x)"
      define u where "u = record_trace (PartialDeliveryCreated (ae_id origin) i (ae_transfer origin)
        amount x) (enqueue d Asset i (put_event i e t))"
      have "generates [e] s (enqueue (ev_deliver_at e) (ev_lane e) i (put_event i e t))"
        by (rule generate_step) (use Pair Some in \<open>auto simp: e_def made_event_def\<close>)
      then have u: "generates [e] s u"
        unfolding u_def by (intro gen_trace) (simp add: e_def)
      obtain es n where es: "generates es u (split_loop origin spacing (Suc position) pieces u)"
        "list_all2 (is_piece origin) es (take n pieces)"
        using Cons.IH by blast
      have loop: "split_loop origin spacing position (amount # pieces) s =
          split_loop origin spacing (Suc position) pieces u"
        using Pair Some by (simp add: u_def e_def d_def x_def Let_def)
      have "generates (e # es) s (split_loop origin spacing position (amount # pieces) s)"
        unfolding loop using generates_trans [OF es(1) u] by simp
      moreover have "list_all2 (is_piece origin) (e # es) (take (Suc n) (amount # pieces))"
        using es(2) by (auto simp: is_piece_def e_def)
      ultimately show ?thesis by blast
    qed
  qed
qed

lemma duplicate_loop_generates:
  "\<exists>es. generates es s (duplicate_loop e spacing indices s) \<and> length es \<le> length indices \<and>
     (\<forall>c \<in> set es. is_copy e c)"
proof (induction indices arbitrary: s)
  case Nil
  show ?case by (rule exI [of _ "[]"]) (auto intro: gen_refl)
next
  case (Cons index indices)
  show ?case
  proof (cases "take_generated_id s")
    case (Pair r t)
    show ?thesis
    proof (cases r)
      case None
      with Pair have "duplicate_loop e spacing (index # indices) s = s"
        by (simp add: take_generated_id_None)
      then show ?thesis
        by (intro exI [of _ "[]"]) (simp add: gen_refl)
    next
      case (Some i)
      define d where "d = spaced_tick (sm_now t) spacing index"
      define c where "c = clone_for_duplicate e i d"
      define u where "u = record_trace (DuplicateCreated (ev_id e) i d)
        (enqueue d (ev_lane c) i (put_event i c t))"
      have "generates [c] s (enqueue (ev_deliver_at c) (ev_lane c) i (put_event i c t))"
        by (rule generate_step) (use Pair Some in \<open>auto simp: c_def made_event_def\<close>)
      then have u: "generates [c] s u"
        unfolding u_def by (intro gen_trace) (simp add: c_def)
      obtain es where es: "generates es u (duplicate_loop e spacing indices u)"
        "length es \<le> length indices" "\<forall>c \<in> set es. is_copy e c"
        using Cons.IH by blast
      have loop: "duplicate_loop e spacing (index # indices) s = duplicate_loop e spacing indices u"
        using Pair Some by (simp add: u_def c_def d_def Let_def)
      have "generates (c # es) s (duplicate_loop e spacing (index # indices) s)"
        unfolding loop using generates_trans [OF es(1) u] by simp
      moreover have "length (c # es) \<le> length (index # indices)" "\<forall>c \<in> set (c # es). is_copy e c"
        using es by (auto simp: is_copy_def c_def)
      ultimately show ?thesis by blast
    qed
  qed
qed

text \<open>
  What one action does to the event it reaches (\<open>Duplicate\<close>, \<open>Delay\<close> and \<open>Drop\<close> leave it
  alone), and which events it may make.
\<close>

fun corrupted :: "'h digest \<Rightarrow> nat \<Rightarrow> u8 \<Rightarrow> sim_event \<Rightarrow> sim_event" where
  "corrupted D offset flip (AssetE a) = AssetE a"
| "corrupted D offset flip (ControlE c) = fst (corrupt D 0 offset flip (ControlE c) undefined)"

fun first_piece :: "wire_asset_amount list \<Rightarrow> sim_event \<Rightarrow> sim_event" where
  "first_piece (p # ps) (AssetE a) = AssetE (a\<lparr>ae_delivered := p, ae_piece := Some 0\<rparr>)"
| "first_piece ps e = e"

definition act_on :: "'h digest \<Rightarrow> fault_action \<Rightarrow> sim_event \<Rightarrow> sim_event" where
  "act_on D action e =
     (case action of
        ReplaceDestination to \<Rightarrow> set_destination to e
      | CorruptByte offset flip \<Rightarrow> corrupted D offset flip e
      | Partial amount \<Rightarrow> set_delivered amount False e
      | OverDeliver amount \<Rightarrow> set_delivered amount True e
      | Split pieces _ \<Rightarrow> first_piece pieces e
      | _ \<Rightarrow> e)"

definition made_from :: "fault_action \<Rightarrow> sim_event \<Rightarrow> sim_event list \<Rightarrow> bool" where
  "made_from action e es =
     (case action of
        Duplicate copies _ \<Rightarrow> length es \<le> unat copies \<and> (\<forall>c \<in> set es. is_copy e c)
      | Split pieces _ \<Rightarrow>
          es = [] \<or> (\<exists>a n. first_piece pieces e = AssetE a \<and>
            list_all2 (is_piece a) es (take n (tl pieces)))
      | _ \<Rightarrow> es = [])"

lemma apply_fault_effect:
  assumes "apply_fault D f (e, dl, dr, s) = (e', dl', dr', t)"
  shows "e' = act_on D (ft_action f) e \<and> (\<exists>es. generates es s t \<and> made_from (ft_action f) e es)"
proof (cases "ft_action f")
  case (CorruptByte offset flip)
  then show ?thesis
    using assms by (cases e) (auto simp: act_on_def made_from_def Let_def intro: gen_refl generates_one)
next
  case (Duplicate copies spacing)
  obtain es where es: "generates es (record_effect (ft_id f) (ev_id e) (EffectDuplicated copies) s) t"
    "length es \<le> unat copies" "\<forall>c \<in> set es. is_copy e c"
    using duplicate_loop_generates [of "record_effect (ft_id f) (ev_id e) (EffectDuplicated copies) s"
        e spacing "map of_nat [1..<Suc (unat copies)]"] assms Duplicate
    by (auto simp: duplicate_def simp del: upt_Suc)
  then have "generates es s t"
    using generates_trans [OF es(1) generates_one(2)] by simp
  with es Duplicate assms show ?thesis
    by (auto simp: act_on_def made_from_def)
next
  case (Split pieces spacing)
  show ?thesis
  proof (cases "\<exists>a p ps. e = AssetE a \<and> pieces = p # ps")
    case False
    with Split assms show ?thesis
      by (cases e; cases pieces) (auto simp: act_on_def made_from_def intro: gen_refl)
  next
    case True
    then obtain a p ps where e: "e = AssetE a" "pieces = p # ps" by blast
    define a' where "a' = a\<lparr>ae_delivered := p, ae_piece := Some 0\<rparr>"
    define u where "u = record_effect (ft_id f) (ae_id a')
      (EffectSplitInto (u16_of_position (length pieces))) s"
    have t: "t = split_loop a' spacing 1 ps u" "e' = AssetE a'"
      using assms Split e by (auto simp: Let_def a'_def u_def)
    obtain es n where es: "generates es u t" "list_all2 (is_piece a') es (take n ps)"
      using split_loop_generates t(1) by blast
    moreover have "generates [] s u"
      unfolding u_def by (rule generates_one)
    ultimately have "generates es s t"
      using generates_trans by fastforce
    with es Split e t show ?thesis
      by (auto simp: act_on_def made_from_def a'_def)
  qed
qed (use assms in \<open>auto simp: act_on_def made_from_def Let_def intro: generates_one\<close>)

fun batch_made :: "'h digest \<Rightarrow> fault list \<Rightarrow> sim_event \<Rightarrow> sim_event list \<Rightarrow> bool" where
  "batch_made D [] e es = (es = [])"
| "batch_made D (f # batch) e es =
     (\<exists>es1 es2. es = es1 @ es2 \<and> made_from (ft_action f) e es1 \<and>
       batch_made D batch (act_on D (ft_action f) e) es2)"

definition act_all :: "'h digest \<Rightarrow> fault list \<Rightarrow> sim_event \<Rightarrow> sim_event" where
  "act_all D batch e = fold (\<lambda>f. act_on D (ft_action f)) batch e"

lemma act_all_simps [simp]:
  "act_all D [] e = e" "act_all D (f # batch) e = act_all D batch (act_on D (ft_action f) e)"
  by (simp_all add: act_all_def)

lemma batch_effect:
  "fold (apply_fault D) batch (e, dl, dr, s) = (e', dl', dr', t) \<Longrightarrow>
   e' = act_all D batch e \<and> (\<exists>es. generates es s t \<and> batch_made D batch e es)"
proof (induction batch arbitrary: e dl dr s)
  case Nil
  then show ?case by (auto intro: gen_refl)
next
  case (Cons f batch)
  obtain e1 dl1 dr1 s1 where step: "apply_fault D f (e, dl, dr, s) = (e1, dl1, dr1, s1)"
    by (metis prod_cases4)
  from apply_fault_effect [OF step] obtain es1
    where e1: "e1 = act_on D (ft_action f) e" "generates es1 s s1" "made_from (ft_action f) e es1"
    by blast
  from Cons.IH [of e1 dl1 dr1 s1] Cons.prems step obtain es2
    where "e' = act_all D batch e1" "generates es2 s1 t" "batch_made D batch e1 es2"
    by auto
  with e1 show ?case
    using generates_trans by (fastforce)
qed

lemma made_from_length: "made_from a e es \<Longrightarrow> length es \<le> fanout a"
  by (cases a) (auto simp: made_from_def dest!: list_all2_lengthD)

lemma batch_made_length: "batch_made D batch e es \<Longrightarrow> length es \<le> sum_list (map (fanout \<circ> ft_action) batch)"
proof (induction batch arbitrary: e es)
  case (Cons f batch)
  then show ?case by (force dest: made_from_length intro: add_mono)
qed simp

lemma corrupted_kept [simp]:
  "ev_id (corrupted D n m e) = ev_id e" "ev_lane (corrupted D n m e) = ev_lane e"
  "made_by_fault (corrupted D n m e) = made_by_fault e"
  "ev_status (corrupted D n m e) = ev_status e" "ev_attempts (corrupted D n m e) = ev_attempts e"
  "ev_source (corrupted D n m e) = ev_source e"
  "ev_intended_destination (corrupted D n m e) = ev_intended_destination e"
  "ev_deliver_at (corrupted D n m e) = ev_deliver_at e"
  by (cases e; simp add: Let_def)+

lemma first_piece_kept [simp]:
  "ev_id (first_piece ps e) = ev_id e" "ev_lane (first_piece ps e) = ev_lane e"
  "made_by_fault (first_piece ps e) = made_by_fault e"
  "ev_status (first_piece ps e) = ev_status e" "ev_attempts (first_piece ps e) = ev_attempts e"
  "ev_source (first_piece ps e) = ev_source e"
  "ev_intended_destination (first_piece ps e) = ev_intended_destination e"
  "ev_deliver_at (first_piece ps e) = ev_deliver_at e"
  by (cases e; cases ps; simp)+

lemma act_on_kept [simp]:
  "ev_id (act_on D a e) = ev_id e" "ev_lane (act_on D a e) = ev_lane e"
  "made_by_fault (act_on D a e) = made_by_fault e" "ev_status (act_on D a e) = ev_status e"
  "ev_attempts (act_on D a e) = ev_attempts e" "ev_source (act_on D a e) = ev_source e"
  "ev_intended_destination (act_on D a e) = ev_intended_destination e"
  "ev_deliver_at (act_on D a e) = ev_deliver_at e"
  by (simp_all add: act_on_def split: fault_action.split)

lemma act_all_kept [simp]:
  "ev_id (act_all D b e) = ev_id e" "ev_lane (act_all D b e) = ev_lane e"
  "made_by_fault (act_all D b e) = made_by_fault e" "ev_status (act_all D b e) = ev_status e"
  "ev_attempts (act_all D b e) = ev_attempts e" "ev_source (act_all D b e) = ev_source e"
  "ev_intended_destination (act_all D b e) = ev_intended_destination e"
  "ev_deliver_at (act_all D b e) = ev_deliver_at e"
  by (induction b arbitrary: e) simp_all

section \<open>Composition as a whole\<close>

text \<open>A batch that passed \<open>check_batch\<close>, drawn from the faults pending on the event.\<close>

definition passed :: "simulator \<Rightarrow> sim_event \<Rightarrow> fault list \<Rightarrow> bool" where
  "passed s e batch =
     ((batch = [] \<or> batch = pending_faults s e) \<and>
      distinct (map (action_group \<circ> ft_action) batch) \<and>
      (\<forall>f \<in> set batch. check_action s (ft_action f) e = None))"

lemma check_batch_from_None:
  "check_batch_from s e groups batch = None \<Longrightarrow>
   distinct (map (action_group \<circ> ft_action) batch) \<and>
   (\<forall>f \<in> set batch. action_group (ft_action f) \<notin> set groups) \<and>
   (\<forall>f \<in> set batch. check_action s (ft_action f) e = None)"
proof (induction batch arbitrary: groups)
  case (Cons f batch)
  then have f: "action_group (ft_action f) \<notin> set groups" "check_action s (ft_action f) e = None"
    "check_batch_from s e (groups @ [action_group (ft_action f)]) batch = None"
    by (auto simp: Let_def split: if_splits option.splits)
  from Cons.IH [OF f(3)] f show ?case by auto
qed simp

lemma compose_effect:
  assumes "compose D e s = (out, e', t)"
  obtains (bound) "ev_id e \<in> set (sm_resolved s)" "out = Proceed" "e' = e" "t = s"
  | (decided) batch es where "ev_id e \<notin> set (sm_resolved s)"
      "passed (mark_resolved (ev_id e) s) e batch" "e' = act_all D batch e"
      "generates es (mark_resolved (ev_id e) s) t" "batch_made D batch e es"
proof (cases "ev_id e \<in> set (sm_resolved s)")
  case True
  with assms have "out = Proceed" "e' = e" "t = s"
    by (simp_all add: compose_def bs_contains_def)
  with True show ?thesis by (rule bound)
next
  case False
  let ?s = "mark_resolved (ev_id e) s"
  let ?b = "pending_faults ?s e"
  have idle: ?thesis if "e' = e" "generates [] ?s t"
    by (rule decided [OF False, of "[]" "[]"]) (use that in \<open>simp_all add: passed_def\<close>)
  show ?thesis
  proof (cases "?b = []")
    case True
    with assms False have "e' = e" "t = ?s"
      by (auto simp: compose_def bs_contains_def)
    then show ?thesis
      by (intro idle) (simp_all add: gen_refl)
  next
    case ne: False
    show ?thesis
    proof (cases "check_batch ?s ?b e")
      case (Some p)
      obtain g reason where "p = (g, reason)" by (cases p)
      with assms False ne Some have "e' = e" "t = record_trace (FaultRejected g (ev_id e) reason) ?s"
        by (auto simp: compose_def bs_contains_def)
      then show ?thesis
        by (intro idle) (simp_all add: generates_one)
    next
      case None
      obtain e1 dl dr t1 where f: "fold (apply_fault D) ?b (e, None, None, ?s) = (e1, dl, dr, t1)"
        by (metis prod_cases4)
      then have t: "e' = e1" "t = t1"
        using assms False ne None
        by (cases dr; cases dl; auto simp: compose_def bs_contains_def)+
      from batch_effect [OF f] obtain es where "e1 = act_all D ?b e" "generates es ?s t1"
        "batch_made D ?b e es" by blast
      moreover have "passed ?s e ?b"
        using check_batch_from_None [of ?s e "[]" ?b] None by (simp add: passed_def check_batch_def)
      ultimately show ?thesis
        using t by (intro decided [OF False, of ?b es]) simp_all
    qed
  qed
qed

section \<open>Every attempt uses up work\<close>

lemma sum_filter_le: "sum_list (map w (filter P xs)) \<le> sum_list (map w xs)" for w :: "_ \<Rightarrow> nat"
  by (induction xs) auto

lemma pending_fanout:
  "sum_list (map (fanout \<circ> ft_action) (pending_faults s e)) \<le>
     (if made_by_fault e then 0 else fanout_bound (sm_plan s))"
proof (cases "made_by_fault e")
  case True
  have "fanout (ft_action f) = 0" if "f \<in> set (pending_faults s e)" for f
    using that True by (cases "ft_action f") (auto simp: pending_faults_def)
  then have "sum_list (map (fanout \<circ> ft_action) (pending_faults s e)) = 0"
    by (simp add: sum_list_nonneg_eq_0_iff)
  with True show ?thesis by simp
next
  case False
  then have "sum_list (map (fanout \<circ> ft_action) (pending_faults s e)) =
      sum_list (map (fanout \<circ> ft_action)
        (filter (\<lambda>f. target_matches (ft_target f) e) (plan_iter (sm_plan s))))"
    by (simp add: pending_faults_def sum_matching del: map_map)
  also have "\<dots> \<le> fanout_bound (sm_plan s)"
    unfolding fanout_bound_def by (rule sum_filter_le)
  finally show ?thesis using False by simp
qed

lemma passed_fanout:
  "passed s e batch \<Longrightarrow> sum_list (map (fanout \<circ> ft_action) batch) \<le>
     (if made_by_fault e then 0 else fanout_bound (sm_plan s))"
  using pending_fanout [of s e] by (auto simp: passed_def simp del: map_map)

fun subject_of :: "sim_event \<Rightarrow> subject" where
  "subject_of (ControlE c) = MessageSubject (ce_message_id c)"
| "subject_of (AssetE a) = TransferSubject (ae_transfer a)"

fun deliver_into :: "sim_event \<Rightarrow> tick \<Rightarrow> bool \<Rightarrow> endpoint \<Rightarrow> endpoint" where
  "deliver_into (ControlE c) now late = push_control (control_record c now late)"
| "deliver_into (AssetE a) now late = push_asset (asset_record a now late)"

lemma hand_over_eq:
  "hand_over e late s =
     record_trace (EventDelivered (ev_id e) (ev_destination e) (subject_of e) late)
       (put_event (ev_id e) (set_status Delivered e)
         (update_endpoint (ev_destination e) (deliver_into e (sm_now s) late) s))"
  by (cases e) (simp_all add: hand_over_def Let_def control_record_def asset_record_def)

lemma update_endpoint_kept [simp]:
  "sm_queue (update_endpoint d g s) = sm_queue s" "sm_events (update_endpoint d g s) = sm_events s"
  "sm_resolved (update_endpoint d g s) = sm_resolved s" "sm_plan (update_endpoint d g s) = sm_plan s"
  "sm_now (update_endpoint d g s) = sm_now s" "sm_held (update_endpoint d g s) = sm_held s"
  "sm_lanes (update_endpoint d g s) = sm_lanes s" "sm_config (update_endpoint d g s) = sm_config s"
  "sm_next_event (update_endpoint d g s) = sm_next_event s"
  "sm_trace (update_endpoint d g s) = sm_trace s"
  by (simp_all add: update_endpoint_def split: option.split)

lemma work_finish:
  assumes "ev_id e \<in> set (sm_resolved s)"
  shows "work (finish_attempt i e s) \<le> work s"
proof -
  have put: "work (put_event j (set_status st e) t) \<le> work s"
    if "sm_queue t = sm_queue s" "sm_events t = sm_events s" "sm_resolved t = sm_resolved s"
      "sm_plan t = sm_plan s" for j st t
    using work_put_resolved [of "set_status st e" t j] work_same [OF that] that(3) assms by simp
  have held: "work (t\<lparr>sm_held := h\<rparr>) = work t" for t h
    by (rule work_same) simp_all
  have "work (block e r s) \<le> work s" for r
    by (simp add: block_def Let_def held put)
  moreover have "work (hand_over e late s) \<le> work s" for late
    by (simp add: hand_over_eq put)
  moreover have "work (reject_event i e r s) \<le> work s" for r
    by (simp add: reject_event_def put)
  ultimately show ?thesis
    by (auto simp: finish_attempt_def put split: option.split late_policy.split)
qed

lemma attempt_work: "work (attempt D (qk_event k) s) < work s + key_weight s k"
proof (cases "event_at s (qk_event k)")
  case None
  then show ?thesis using key_weight_pos [of s k] by (simp add: attempt_def)
next
  case (Some e0)
  let ?i = "qk_event k"
  show ?thesis
  proof (cases "is_terminal (ev_status e0)")
    case True
    with Some show ?thesis using key_weight_pos [of s k] by (simp add: attempt_def)
  next
    case False
    define e where "e = set_status Ready (bump_attempts e0)"
    define u where "u = record_trace (DeliveryAttempted ?i (ev_destination e) (ev_attempts e)) s"
    obtain out e' t where c: "compose D e u = (out, e', t)" by (metis prod_cases3)
    have attempt: "attempt D ?i s = (case out of
        OutcomeRejected reason \<Rightarrow> reject_event ?i e' reason t
      | OutcomeDropped f \<Rightarrow> record_trace (EventDropped ?i (Some f)) (put_event ?i (set_status Dropped e') t)
      | OutcomeDelayed d \<Rightarrow>
          enqueue d (ev_lane e') ?i (put_event ?i (set_deliver_at d (set_status Scheduled e')) t)
      | Proceed \<Rightarrow> finish_attempt ?i e' t)"
      using Some False c unfolding attempt_def e_def [symmetric] Let_def
      by (cases out) (simp_all add: u_def e_def)
    have work_u: "work u = work s" by (simp add: u_def)
    have r: "ev_id e' \<in> set (sm_resolved t)" "ev_id e' = ev_id e"
      using c by (auto elim!: compose_effect simp: generates_kept(1) sim_defs)
    have rest: "work (attempt D ?i s) \<le> work t + 1"
    proof -
      have put: "work (put_event ?i x t) \<le> work t" if "ev_id x = ev_id e'" for x
        by (rule work_put_resolved) (use that r in simp)
      have "work (enqueue d (ev_lane e') ?i (put_event ?i (set_deliver_at d (set_status Scheduled e')) t))
          \<le> work t + 1" for d
        using work_enqueue [of d "ev_lane e'" ?i "put_event ?i (set_deliver_at d (set_status Scheduled e')) t"]
          put [of "set_deliver_at d (set_status Scheduled e')"] r
        by (simp add: key_weight_def queue_key_new_def put_event_def bt_get_insert_always)
      then show ?thesis
        using put [of "set_status Dropped e'"] put [of "set_status RejectedBySimulator e'"]
          work_finish [OF r(1), of ?i]
        by (simp add: attempt reject_event_def split: fault_outcome.split)
    qed
    from c show ?thesis
    proof (cases rule: compose_effect)
      case bound
      then have "work (attempt D ?i s) \<le> work u"
        unfolding attempt using work_finish [of e u ?i] by simp
      then show ?thesis using key_weight_pos [of s k] by (simp add: work_u)
    next
      case (decided batch es)
      have "sm_plan (mark_resolved (ev_id e) u) = sm_plan s"
        by (simp add: sim_defs u_def)
      then have "length es \<le> (if made_by_fault e then 0 else fanout_bound (sm_plan s))"
        using order.trans [OF batch_made_length [OF decided(5)] passed_fanout [OF decided(2)]]
        by (simp only:)
      moreover have "work t \<le> work s + 2 * length es"
        using generates_work [OF decided(4)] work_mark_resolved [of "ev_id e" u] work_u by simp
      moreover have "key_weight s k = (if made_by_fault e then 2 else 2 + 2 * fanout_bound (sm_plan s))"
        using Some decided(1) by (simp add: key_weight_def e_def u_def sim_defs)
      ultimately show ?thesis
        using rest by (auto split: if_splits)
    qed
  qed
qed

lemma deliver_next_work:
  assumes "deliver_next D s = (Some i, t)"
  shows "work t < work s"
proof (cases "sm_queue s")
  case Nil
  with assms show ?thesis by (simp add: deliver_next_def)
next
  case (Cons k q)
  let ?u = "s\<lparr>sm_queue := q\<rparr>"
  have t: "t = attempt D (qk_event k) ?u"
    using assms Cons by (auto simp: deliver_next_def split: if_splits)
  have w: "key_weight ?u = key_weight s" by (rule key_weight_same) simp_all
  then have "work s = key_weight s k + work ?u"
    using Cons by (simp add: work_def)
  with attempt_work [of D k ?u] w t show ?thesis by simp
qed

lemma deliver_next_None: "deliver_next D s = (None, t) \<Longrightarrow> t = s"
  by (auto simp: deliver_next_def split: option.splits if_splits)

section \<open>The loops\<close>

function deliver_ready_loop :: "'h digest \<Rightarrow> u32 \<Rightarrow> simulator \<Rightarrow> u32 \<times> simulator" where
  "deliver_ready_loop D count s =
     (case deliver_next D s of
        (None, s') \<Rightarrow> (count, s')
      | (Some _, s') \<Rightarrow> deliver_ready_loop D (saturating_add_word count 1) s')"
  by pat_completeness auto
termination
  by (relation "measure (\<lambda>(D, count, s). work s)") (auto dest: deliver_next_work sym)

declare deliver_ready_loop.simps [simp del]

definition deliver_ready :: "'h digest \<Rightarrow> simulator \<Rightarrow> u32 \<times> simulator" where
  "deliver_ready D s = deliver_ready_loop D 0 s"

lemma deliver_ready_loop_work: "work (snd (deliver_ready_loop D count s)) \<le> work s"
proof (induction D count s rule: deliver_ready_loop.induct)
  case (1 D count s)
  show ?case
  proof (cases "deliver_next D s")
    case (Pair r t)
    show ?thesis
    proof (cases r)
      case None
      with Pair show ?thesis
        using deliver_next_None [of D s t] by (subst deliver_ready_loop.simps) simp
    next
      case (Some i)
      with Pair have "work (snd (deliver_ready_loop D (saturating_add_word count 1) t)) \<le> work t"
        using "1" by simp
      with Pair Some show ?thesis
        using deliver_next_work [of D s i t] by (subst deliver_ready_loop.simps) simp
    qed
  qed
qed

lemma deliver_ready_work: "work (snd (deliver_ready D s)) \<le> work s"
  unfolding deliver_ready_def by (rule deliver_ready_loop_work)

lemma deliver_ready_progress:
  assumes "queue_next_tick (sm_queue s) = Some t" "t \<le> sm_now s"
  shows "work (snd (deliver_ready D s)) < work s"
proof -
  from assms(1) obtain k where k: "queue_peek (sm_queue s) = Some k" "qk_deliver_at k = t"
    by (auto simp: queue_next_tick_def)
  with assms(2) obtain u where u: "deliver_next D s = (Some (qk_event k), u)"
    by (simp add: deliver_next_def leD)
  then have "deliver_ready D s = deliver_ready_loop D (saturating_add_word 0 1) u"
    by (simp add: deliver_ready_def deliver_ready_loop.simps [of D 0 s])
  with deliver_ready_loop_work [of D "saturating_add_word 0 1" u] deliver_next_work [OF u]
  show ?thesis by simp
qed

lemma advance_to_ok:
  assumes "sm_now s \<le> t"
  obtains u where "advance_to t s = (Inr (), u)" "sm_now u = t" "sm_queue u = sm_queue s" "work u = work s"
    "sm_events u = sm_events s"
proof (cases "t = sm_now s")
  case True
  then show ?thesis by (intro that [of s]) (simp_all add: advance_to_def)
next
  case False
  let ?u = "record_trace (TickAdvanced (sm_now s) t) (s\<lparr>sm_now := t\<rparr>)"
  have "work ?u = work s" by (rule work_same) (simp_all add: record_trace_def)
  then show ?thesis
    using False assms by (intro that [of ?u]) (auto simp: advance_to_def record_trace_def)
qed

lemma round_progress:
  assumes "queue_next_tick (sm_queue s) = Some t" "advance_to (max t (sm_now s)) s = (r, u)"
  shows "work (snd (deliver_ready D u)) < work s"
proof -
  obtain u' where u': "advance_to (max t (sm_now s)) s = (Inr (), u')" "sm_now u' = max t (sm_now s)"
    "sm_queue u' = sm_queue s" "work u' = work s"
    by (rule advance_to_ok [of s "max t (sm_now s)"]) simp
  with assms have "u = u'" by simp
  with u' assms(1) deliver_ready_progress [of u t D] show ?thesis by simp
qed

function run_until_idle_loop :: "'h digest \<Rightarrow> u32 \<Rightarrow> simulator \<Rightarrow> u32 \<times> simulator" where
  "run_until_idle_loop D count s =
     (case queue_next_tick (sm_queue s) of
        None \<Rightarrow> (count, s)
      | Some t \<Rightarrow>
          (case advance_to (max t (sm_now s)) s of
             (Inl _, s1) \<Rightarrow> (count, s1)
           | (Inr _, s1) \<Rightarrow>
               (case deliver_ready D s1 of
                  (n, s2) \<Rightarrow> run_until_idle_loop D (saturating_add_word count n) s2)))"
  by pat_completeness auto
termination
  by (relation "measure (\<lambda>(D, count, s). work s)")
     (auto dest!: round_progress [OF _ sym] simp: prod_eq_iff)

declare run_until_idle_loop.simps [simp del]

definition run_until_idle :: "'h digest \<Rightarrow> simulator \<Rightarrow> u32 \<times> simulator" where
  "run_until_idle D s = run_until_idle_loop D 0 s"

function run_until_loop :: "'h digest \<Rightarrow> tick \<Rightarrow> u32 \<Rightarrow> u32 sim_method" where
  "run_until_loop D target count s =
     (case queue_next_tick (sm_queue s) of
        None \<Rightarrow> (Inr count, s)
      | Some t \<Rightarrow>
          if target < t then (Inr count, s)
          else
            (case advance_to (max t (sm_now s)) s of
               (Inl e, s1) \<Rightarrow> (Inl e, s1)
             | (Inr _, s1) \<Rightarrow>
                 (case deliver_ready D s1 of
                    (n, s2) \<Rightarrow> run_until_loop D target (saturating_add_word count n) s2)))"
  by pat_completeness auto
termination
  by (relation "measure (\<lambda>(D, target, count, s). work s)")
     (auto dest!: round_progress [OF _ sym] simp: prod_eq_iff)

declare run_until_loop.simps [simp del]

definition run_until :: "'h digest \<Rightarrow> tick \<Rightarrow> u32 sim_method" where
  "run_until D target s =
     (if target < sm_now s then (Inl (TimeMovesBackwards (sm_now s) target), s)
      else m_then (run_until_loop D target 0) (\<lambda>count.
           m_then (advance_to target) (\<lambda>_. m_return count)) s)"

section \<open>Operations\<close>

datatype sim_operation =
    ScheduleControl control_request
  | ScheduleAsset asset_request
  | AddFault fault
  | AdvanceBy u64
  | AdvanceTo tick
  | DeliverNext
  | DeliverReady
  | RunUntilIdle
  | RunUntil tick
  | HaltEndpoint endpoint_id
  | ResumeEndpoint endpoint_id
  | PauseLane lane
  | ResumeLane lane
  | SwapDeliveryTicks event_id event_id
  | MoveBefore event_id event_id
  | MoveAfter event_id event_id

fun operation_name :: "sim_operation \<Rightarrow> string" where
  "operation_name (ScheduleControl _) = ''schedule control''"
| "operation_name (ScheduleAsset _) = ''schedule asset''"
| "operation_name (AddFault _) = ''add fault''"
| "operation_name (AdvanceBy _) = ''advance by''"
| "operation_name (AdvanceTo _) = ''advance to''"
| "operation_name DeliverNext = ''deliver next''"
| "operation_name DeliverReady = ''deliver ready''"
| "operation_name RunUntilIdle = ''run until idle''"
| "operation_name (RunUntil _) = ''run until''"
| "operation_name (HaltEndpoint _) = ''halt endpoint''"
| "operation_name (ResumeEndpoint _) = ''resume endpoint''"
| "operation_name (PauseLane _) = ''pause lane''"
| "operation_name (ResumeLane _) = ''resume lane''"
| "operation_name (SwapDeliveryTicks _ _) = ''swap ticks''"
| "operation_name (MoveBefore _ _) = ''move before''"
| "operation_name (MoveAfter _ _) = ''move after''"

definition ignore_result :: "'a sim_method \<Rightarrow> unit sim_method" where
  "ignore_result m = m_then m (\<lambda>_. m_return ())"

fun sim_apply :: "'h digest \<Rightarrow> sim_operation \<Rightarrow> unit sim_method" where
  "sim_apply D (ScheduleControl request) s = ignore_result (schedule_control D request) s"
| "sim_apply D (ScheduleAsset request) s = ignore_result (schedule_asset request) s"
| "sim_apply D (AddFault f) s = add_fault f s"
| "sim_apply D (AdvanceBy ticks) s = advance_by ticks s"
| "sim_apply D (AdvanceTo t) s = advance_to t s"
| "sim_apply D DeliverNext s = (Inr (), snd (deliver_next D s))"
| "sim_apply D DeliverReady s = (Inr (), snd (deliver_ready D s))"
| "sim_apply D RunUntilIdle s = (Inr (), snd (run_until_idle D s))"
| "sim_apply D (RunUntil t) s = ignore_result (run_until D t) s"
| "sim_apply D (HaltEndpoint i) s = halt_endpoint i s"
| "sim_apply D (ResumeEndpoint i) s = resume_endpoint i s"
| "sim_apply D (PauseLane lane) s = (Inr (), pause_lane lane s)"
| "sim_apply D (ResumeLane lane) s = (Inr (), resume_lane lane s)"
| "sim_apply D (SwapDeliveryTicks left right) s = swap_delivery_ticks left right s"
| "sim_apply D (MoveBefore event other) s = move_before event other s"
| "sim_apply D (MoveAfter event other) s = move_after event other s"

fun apply_all :: "'h digest \<Rightarrow> sim_operation list \<Rightarrow> unit sim_method" where
  "apply_all D [] s = (Inr (), s)"
| "apply_all D (operation # operations) s =
     m_then (sim_apply D operation) (\<lambda>_. apply_all D operations) s"

fun apply_best_effort ::
  "'h digest \<Rightarrow> sim_operation list \<Rightarrow> simulator \<Rightarrow> (sim_error + unit) list \<times> simulator" where
  "apply_best_effort D [] s = ([], s)"
| "apply_best_effort D (operation # operations) s =
     (case sim_apply D operation s of
        (r, s) \<Rightarrow> (case apply_best_effort D operations s of (rs, s) \<Rightarrow> (r # rs, s)))"

end
