(* ===== verification/Sim_Steps.thy ===== *)
theory Sim_Steps
  imports Sim_Run
begin

text \<open>
  The simulator as a step relation. One step is a successful call of a method that does one
  thing; the loops and the operations are sequences of steps. Reachable states are those a
  caller can bring about from a new simulator. Invariants are proved for one step.
\<close>

section \<open>What an attempt leaves alone\<close>

lemma compose_kept:
  assumes "compose D e s = (out, e', t)"
  shows "sm_now t = sm_now s \<and> sm_plan t = sm_plan s \<and> sm_lanes t = sm_lanes s \<and>
    sm_config t = sm_config s \<and> sm_endpoints t = sm_endpoints s \<and> sm_held t = sm_held s"
  using assms by (cases rule: compose_effect) (auto simp: generates_kept sim_defs)

text \<open>The four ways an attempt can go.\<close>

definition conclude :: "event_id \<Rightarrow> fault_outcome \<Rightarrow> sim_event \<Rightarrow> simulator \<Rightarrow> simulator" where
  "conclude i out e t =
     (case out of
        OutcomeRejected reason \<Rightarrow> reject_event i e reason t
      | OutcomeDropped f \<Rightarrow> record_trace (EventDropped i (Some f)) (put_event i (set_status Dropped e) t)
      | OutcomeDelayed d \<Rightarrow>
          enqueue d (ev_lane e) i (put_event i (set_deliver_at d (set_status Scheduled e)) t)
      | Proceed \<Rightarrow> finish_attempt i e t)"

lemma attempt_conclude:
  assumes "event_at s i = Some e0" "\<not> is_terminal (ev_status e0)"
  obtains e u out e' t where "e = set_status Ready (bump_attempts e0)"
    "u = record_trace (DeliveryAttempted i (ev_destination e) (ev_attempts e)) s"
    "compose D e u = (out, e', t)" "attempt D i s = conclude i out e' t"
proof -
  let ?e = "set_status Ready (bump_attempts e0)"
  let ?u = "record_trace (DeliveryAttempted i (ev_destination ?e) (ev_attempts ?e)) s"
  obtain out e' t where c: "compose D ?e ?u = (out, e', t)" by (metis prod_cases3)
  moreover have "attempt D i s = conclude i out e' t"
    using assms c by (cases out) (simp_all add: attempt_def conclude_def)
  ultimately show ?thesis using that by blast
qed

lemma conclude_kept:
  "sm_now (conclude i out e s) = sm_now s" "sm_plan (conclude i out e s) = sm_plan s"
  "sm_lanes (conclude i out e s) = sm_lanes s" "sm_config (conclude i out e s) = sm_config s"
  "sm_next_event (conclude i out e s) = sm_next_event s"
  "sm_resolved (conclude i out e s) = sm_resolved s"
  by (simp_all add: conclude_def finish_attempt_def reject_event_def block_def hand_over_eq sim_defs Let_def
      split: fault_outcome.split option.split late_policy.split)

lemma attempt_kept:
  "sm_now (attempt D i s) = sm_now s \<and> sm_plan (attempt D i s) = sm_plan s \<and>
   sm_lanes (attempt D i s) = sm_lanes s \<and> sm_config (attempt D i s) = sm_config s"
proof (cases "\<exists>e. event_at s i = Some e \<and> \<not> is_terminal (ev_status e)")
  case False
  then show ?thesis by (auto simp: attempt_def split: option.split)
next
  case True
  then obtain e0 where "event_at s i = Some e0" "\<not> is_terminal (ev_status e0)" by blast
  then obtain e u out e' t where "u = record_trace (DeliveryAttempted i (ev_destination e) (ev_attempts e)) s"
    "compose D e u = (out, e', t)" "attempt D i s = conclude i out e' t"
    by (rule attempt_conclude)
  then show ?thesis
    using compose_kept [of D e u out e' t] by (simp add: conclude_kept sim_defs)
qed

lemma deliver_next_kept:
  "deliver_next D s = (r, t) \<Longrightarrow>
   sm_now t = sm_now s \<and> sm_plan t = sm_plan s \<and> sm_lanes t = sm_lanes s \<and> sm_config t = sm_config s"
  by (auto simp: deliver_next_def attempt_kept split: option.splits if_splits)

section \<open>Steps\<close>

inductive sim_step :: "'h digest \<Rightarrow> simulator \<Rightarrow> simulator \<Rightarrow> bool" for D where
  step_endpoint: "add_endpoint i s = (Inr (), t) \<Longrightarrow> sim_step D s t"
| step_control: "schedule_control D r s = (Inr i, t) \<Longrightarrow> sim_step D s t"
| step_asset: "schedule_asset a s = (Inr i, t) \<Longrightarrow> sim_step D s t"
| step_fault: "add_fault f s = (Inr (), t) \<Longrightarrow> sim_step D s t"
| step_advance: "advance_to d s = (Inr (), t) \<Longrightarrow> sim_step D s t"
| step_deliver: "deliver_next D s = (Some i, t) \<Longrightarrow> sim_step D s t"
| step_halt: "halt_endpoint e s = (Inr (), t) \<Longrightarrow> sim_step D s t"
| step_resume: "resume_endpoint e s = (Inr (), t) \<Longrightarrow> sim_step D s t"
| step_pause_lane: "sim_step D s (pause_lane l s)"
| step_resume_lane: "sim_step D s (resume_lane l s)"
| step_swap: "swap_delivery_ticks l r s = (Inr (), t) \<Longrightarrow> sim_step D s t"
| step_before: "move_before l r s = (Inr (), t) \<Longrightarrow> sim_step D s t"
| step_after: "move_after l r s = (Inr (), t) \<Longrightarrow> sim_step D s t"

text \<open>The loops only move the clock and attempt what is due.\<close>

inductive run_step :: "'h digest \<Rightarrow> simulator \<Rightarrow> simulator \<Rightarrow> bool" for D where
  run_advance: "advance_to d s = (Inr (), t) \<Longrightarrow> run_step D s t"
| run_deliver: "deliver_next D s = (Some i, t) \<Longrightarrow> run_step D s t"

abbreviation run_steps :: "'h digest \<Rightarrow> simulator \<Rightarrow> simulator \<Rightarrow> bool" where
  "run_steps D \<equiv> (run_step D)\<^sup>*\<^sup>*"

lemma run_step_sim: "run_step D s t \<Longrightarrow> sim_step D s t"
  by (induction rule: run_step.induct) (auto intro: step_advance step_deliver)

abbreviation sim_steps :: "'h digest \<Rightarrow> simulator \<Rightarrow> simulator \<Rightarrow> bool" where
  "sim_steps D \<equiv> (sim_step D)\<^sup>*\<^sup>*"

definition sim_reachable :: "'h digest \<Rightarrow> simulator \<Rightarrow> bool" where
  "sim_reachable D s = (\<exists>c endpoints s0. with_config c endpoints = Inr s0 \<and> sim_steps D s0 s)"

lemma run_steps_sim: "run_steps D s t \<Longrightarrow> sim_steps D s t"
  by (rule mono_rtranclp [rule_format, of "run_step D"]) (simp_all add: run_step_sim)

lemma deliver_ready_loop_steps: "deliver_ready_loop D count s = (n, t) \<Longrightarrow> run_steps D s t \<and> sm_now t = sm_now s"
proof (induction D count s arbitrary: n t rule: deliver_ready_loop.induct)
  case (1 D count s)
  obtain r u where u: "deliver_next D s = (r, u)" by fastforce
  show ?case
  proof (cases r)
    case None
    with u "1.prems" deliver_next_None [of D s u] show ?thesis
      by (subst (asm) deliver_ready_loop.simps) simp
  next
    case (Some i)
    with u "1.prems" have "deliver_ready_loop D (saturating_add_word count 1) u = (n, t)"
      by (subst (asm) deliver_ready_loop.simps) simp
    with "1.IH" u Some have "run_steps D u t \<and> sm_now t = sm_now u" by simp
    moreover have "run_step D s u" using u Some by (auto intro: run_deliver)
    ultimately show ?thesis
      using deliver_next_kept [OF u] by (auto intro: converse_rtranclp_into_rtranclp)
  qed
qed

lemma deliver_ready_steps:
  "deliver_ready D s = (n, t) \<Longrightarrow> run_steps D s t" "deliver_ready D s = (n, t) \<Longrightarrow> sm_now t = sm_now s"
  unfolding deliver_ready_def by (auto dest: deliver_ready_loop_steps)

text \<open>One round of a run: move to a due tick at or after the clock, attempt what is due.\<close>

lemma round_steps:
  assumes "advance_to (max d (sm_now s)) s = (Inr (), u)" "deliver_ready D u = (n, t)"
  shows "run_steps D s t" "sm_now t = max d (sm_now s)"
proof -
  have "run_step D s u" using assms(1) by (rule run_advance)
  with deliver_ready_steps [OF assms(2)] show "run_steps D s t"
    by (auto intro: converse_rtranclp_into_rtranclp)
  show "sm_now t = max d (sm_now s)"
    using deliver_ready_steps(2) [OF assms(2)] advance_to_ok [of s "max d (sm_now s)"] assms(1)
    by (metis Pair_inject max.cobounded2)
qed

lemma round_ok: obtains u n t where "advance_to (max d (sm_now s)) s = (Inr (), u)" "deliver_ready D u = (n, t)"
proof -
  obtain u where "advance_to (max d (sm_now s)) s = (Inr (), u)"
    by (rule advance_to_ok [of s "max d (sm_now s)"]) simp
  moreover obtain n t where "deliver_ready D u = (n, t)" by fastforce
  ultimately show ?thesis by (rule that)
qed

lemma run_until_idle_loop_steps:
  "run_until_idle_loop D count s = (n, t) \<Longrightarrow> run_steps D s t \<and> sm_queue t = []"
proof (induction D count s arbitrary: n t rule: run_until_idle_loop.induct)
  case (1 D count s)
  show ?case
  proof (cases "queue_next_tick (sm_queue s)")
    case None
    with "1.prems" show ?thesis
      by (subst (asm) run_until_idle_loop.simps) (auto simp: queue_next_tick_def queue_peek_None)
  next
    case (Some d)
    obtain u m v where r: "advance_to (max d (sm_now s)) s = (Inr (), u)" "deliver_ready D u = (m, v)"
      by (rule round_ok)
    with "1.prems" Some have "run_until_idle_loop D (saturating_add_word count m) v = (n, t)"
      by (subst (asm) run_until_idle_loop.simps) simp
    with "1.IH" [OF Some r(1) [symmetric] refl r(2) [symmetric]]
    have "run_steps D v t \<and> sm_queue t = []" by auto
    with round_steps(1) [OF r] show ?thesis by auto
  qed
qed

lemma run_until_loop_steps:
  "run_until_loop D target count s = (r, t) \<Longrightarrow> sm_now s \<le> target \<Longrightarrow>
   run_steps D s t \<and> (\<exists>n. r = Inr n) \<and> sm_now t \<le> target \<and>
   (\<forall>d. queue_next_tick (sm_queue t) = Some d \<longrightarrow> target < d)"
proof (induction D target count s arbitrary: r t rule: run_until_loop.induct)
  case (1 D target count s)
  show ?case
  proof (cases "queue_next_tick (sm_queue s)")
    case None
    with "1.prems" show ?thesis by (subst (asm) run_until_loop.simps) auto
  next
    case (Some d)
    show ?thesis
    proof (cases "target < d")
      case True
      with "1.prems" Some show ?thesis by (subst (asm) run_until_loop.simps) auto
    next
      case False
      obtain u m v where rnd: "advance_to (max d (sm_now s)) s = (Inr (), u)" "deliver_ready D u = (m, v)"
        by (rule round_ok)
      with "1.prems" Some False have "run_until_loop D target (saturating_add_word count m) v = (r, t)"
        by (subst (asm) run_until_loop.simps) simp
      moreover have "sm_now v \<le> target"
        using round_steps(2) [OF rnd] False "1.prems"(2) by simp
      ultimately have "run_steps D v t \<and> (\<exists>n. r = Inr n) \<and> sm_now t \<le> target \<and>
          (\<forall>d. queue_next_tick (sm_queue t) = Some d \<longrightarrow> target < d)"
        by (rule "1.IH" [OF Some False rnd(1) [symmetric] refl rnd(2) [symmetric]])
      with round_steps(1) [OF rnd] show ?thesis by auto
    qed
  qed
qed

lemma run_until_steps:
  assumes "sm_now s \<le> target"
  obtains n t where "run_until D target s = (Inr n, t)" "run_steps D s t" "sm_now t = target"
    "\<And>d. queue_next_tick (sm_queue t) = Some d \<Longrightarrow> target < d"
proof -
  obtain r u where l: "run_until_loop D target 0 s = (r, u)" by fastforce
  with run_until_loop_steps [OF this assms] obtain n where n: "r = Inr n" "run_steps D s u"
    "sm_now u \<le> target" "\<And>d. queue_next_tick (sm_queue u) = Some d \<Longrightarrow> target < d" by blast
  obtain t where t: "advance_to target u = (Inr (), t)" "sm_now t = target" "sm_queue t = sm_queue u"
    by (rule advance_to_ok [OF n(3)])
  have "run_until D target s = (Inr n, t)"
    using l n(1) t assms by (simp add: run_until_def m_then_def m_return_def leD)
  moreover have "run_steps D s t"
    using n(2) t(1) by (auto intro: rtranclp.rtrancl_into_rtrancl run_advance)
  ultimately show ?thesis using t n(4) by (intro that) auto
qed

section \<open>Operations are sequences of steps, refusals change nothing\<close>

lemma m_check_Inr: "m_check r f s = (Inr y, t) \<longleftrightarrow> (\<exists>x. r = Inr x \<and> f x s = (Inr y, t))"
  by (auto simp: m_check_def split: sum.splits)

lemma m_check_Inl: "m_check r f s = (Inl e, t) \<longleftrightarrow> r = Inl e \<and> t = s \<or> (\<exists>x. r = Inr x \<and> f x s = (Inl e, t))"
  by (auto simp: m_check_def split: sum.splits)

lemma m_then_Inr: "m_then m f s = (Inr y, t) \<longleftrightarrow> (\<exists>x u. m s = (Inr x, u) \<and> f x u = (Inr y, t))"
  by (auto simp: m_then_def split: prod.splits sum.splits)

lemma m_then_Inl: "m_then m f s = (Inl e, t) \<longleftrightarrow> m s = (Inl e, t) \<or> (\<exists>x u. m s = (Inr x, u) \<and> f x u = (Inl e, t))"
  by (auto simp: m_then_def split: prod.splits sum.splits)

lemmas m_simps = m_check_Inr m_check_Inl m_then_Inr m_then_Inl

lemma ignore_result_Inr: "ignore_result m s = (Inr (), t) \<longleftrightarrow> (\<exists>x. m s = (Inr x, t))"
  by (auto simp: ignore_result_def m_simps m_return_def)

lemma ignore_result_Inl: "ignore_result m s = (Inl e, t) \<longleftrightarrow> m s = (Inl e, t)"
  by (auto simp: ignore_result_def m_simps m_return_def)

lemma reserve_refused: "reserve_event_id w s = (Inl e, t) \<Longrightarrow> t = s"
  by (auto simp: reserve_event_id_def Let_def split: if_splits option.splits)

lemma schedule_refused:
  "schedule_control D r s = (Inl e, t) \<Longrightarrow> t = s" "schedule_asset a s = (Inl e, t) \<Longrightarrow> t = s"
  by (auto simp: schedule_control_def schedule_asset_def m_simps Let_def dest: reserve_refused)

lemma run_until_refused:
  assumes "run_until D d s = (Inl e, t)" shows "t = s"
proof (cases "sm_now s \<le> d")
  case True
  then obtain n u where "run_until D d s = (Inr n, u)" by (rule run_until_steps)
  with assms show ?thesis by simp
next
  case False
  with assms show ?thesis by (simp add: run_until_def not_le)
qed

lemma advance_to_refused: "advance_to d s = (Inl e, t) \<Longrightarrow> t = s"
  by (auto simp: advance_to_def Let_def split: if_splits)

lemma sim_apply_refused: "sim_apply D op s = (Inl e, t) \<Longrightarrow> t = s"
proof (cases op)
  case (ResumeEndpoint i)
  then show "sim_apply D op s = (Inl e, t) \<Longrightarrow> t = s"
    by (auto simp: resume_endpoint_def split: if_splits prod.splits)
qed (auto simp: ignore_result_Inl m_simps add_fault_def advance_by_def halt_endpoint_def
    swap_delivery_ticks_def move_before_def move_after_def Let_def split: if_splits
    dest: schedule_refused run_until_refused advance_to_refused)

lemma sim_apply_steps: "sim_apply D op s = (r, t) \<Longrightarrow> sim_steps D s t"
proof (cases r)
  case (Inl e)
  then show "sim_apply D op s = (r, t) \<Longrightarrow> sim_steps D s t"
    using sim_apply_refused by blast
next
  case (Inr x)
  assume op: "sim_apply D op s = (r, t)"
  have one: "sim_step D s t \<Longrightarrow> sim_steps D s t" by (rule r_into_rtranclp)
  show "sim_steps D s t"
  proof (cases op)
    case DeliverNext
    obtain i u where "deliver_next D s = (i, u)" by fastforce
    with op DeliverNext Inr show ?thesis
      by (cases i) (auto intro: one step_deliver dest: deliver_next_None)
  next
    case DeliverReady
    obtain n u where "deliver_ready D s = (n, u)" by fastforce
    with op DeliverReady Inr show ?thesis using deliver_ready_steps(1) run_steps_sim by fastforce
  next
    case RunUntilIdle
    obtain n u where "run_until_idle D s = (n, u)" by fastforce
    with op RunUntilIdle Inr show ?thesis
      using run_until_idle_loop_steps [of D 0 s n u] run_steps_sim [of D s u] by (auto simp: run_until_idle_def)
  next
    case (RunUntil d)
    show ?thesis
    proof (cases "sm_now s \<le> d")
      case True
      then obtain n u where "run_until D d s = (Inr n, u)" "run_steps D s u" by (rule run_until_steps)
      with op RunUntil Inr run_steps_sim [of D s u] show ?thesis by (auto simp: ignore_result_Inr)
    next
      case False
      with op RunUntil Inr show ?thesis by (simp add: ignore_result_Inr run_until_def not_le)
    qed
  qed (use op Inr in \<open>auto simp: ignore_result_Inr advance_by_def m_simps intro: one sim_step.intros\<close>)
qed

lemma apply_all_steps: "apply_all D ops s = (r, t) \<Longrightarrow> sim_steps D s t"
proof (induction ops arbitrary: s)
  case (Cons op ops)
  obtain r1 u where u: "sim_apply D op s = (r1, u)" by fastforce
  then have "sim_steps D s u" by (rule sim_apply_steps)
  moreover have "sim_steps D u t"
    using u Cons by (cases r1) (auto simp: m_then_def)
  ultimately show ?case by simp
qed simp

lemma reachable_steps: "sim_reachable D s \<Longrightarrow> sim_steps D s t \<Longrightarrow> sim_reachable D t"
  unfolding sim_reachable_def by (blast intro: rtranclp_trans)

lemma reachable_invariant [consumes 1, case_names new step]:
  assumes "sim_reachable D s" "\<And>c eps s0. with_config c eps = Inr s0 \<Longrightarrow> I s0"
    "\<And>u v. sim_reachable D u \<Longrightarrow> I u \<Longrightarrow> sim_step D u v \<Longrightarrow> I v"
  shows "I s"
proof -
  obtain c eps s0 where s0: "with_config c eps = Inr s0" "sim_steps D s0 s"
    using assms(1) unfolding sim_reachable_def by blast
  have "sim_reachable D s \<and> I s"
    using s0(2)
  proof (induction rule: rtranclp_induct)
    case base
    then show ?case using s0(1) assms(2) unfolding sim_reachable_def by blast
  next
    case (step u v)
    then show ?case using assms(3) reachable_steps [of D u v] by blast
  qed
  then show ?thesis by simp
qed

end
