(* ===== verification/Sim_Inv.thy ===== *)
theory Sim_Inv
  imports Sim_Steps
begin

text \<open>
  The invariant of the transport simulator. Every event is in one place that its status
  names: pending events have exactly their key in the queue, blocked events are held and
  their path is not clear, delivered events have exactly one record in exactly one inbox,
  that of their destination, and identifiers below the counter are never given out again.
\<close>

section \<open>The books: events, queue, held events, decided events\<close>

definition key_of :: "sim_event \<Rightarrow> queue_key" where
  "key_of e = queue_key_new (ev_deliver_at e) (ev_lane e) (ev_id e)"

lemma qk_event_new [simp]: "qk_event (queue_key_new t l i) = i" "qk_deliver_at (queue_key_new t l i) = t"
  by (simp_all add: queue_key_new_def)

lemma qk_event_key_of [simp]: "qk_event (key_of e) = ev_id e" "qk_deliver_at (key_of e) = ev_deliver_at e"
  by (simp_all add: key_of_def)

lemma key_of_set_status [simp]: "key_of (set_status st e) = key_of e"
  by (simp add: key_of_def)

text \<open>The books hold for all events but those of \<open>X\<close>, which are in no place.\<close>

definition books_but :: "event_id set \<Rightarrow> simulator \<Rightarrow> bool" where
  "books_but X s =
     (bt_wf (sm_events s) \<and> bs_wf (sm_queue s) \<and> bs_wf (sm_held s) \<and> bs_wf (sm_resolved s) \<and>
      (\<forall>i e. event_at s i = Some e \<longrightarrow> ev_id e = i \<and> unat i < unat (sm_next_event s)) \<and>
      (\<forall>i e. event_at s i = Some e \<and> i \<notin> X \<longrightarrow>
         ev_status e \<noteq> Ready \<and> (ev_attempts e = 0 \<longleftrightarrow> i \<notin> set (sm_resolved s))) \<and>
      (\<forall>k. k \<in> set (sm_queue s) \<longleftrightarrow> (\<exists>e. event_at s (qk_event k) = Some e \<and> qk_event k \<notin> X \<and>
         ev_status e = Scheduled \<and> k = key_of e)) \<and>
      (\<forall>i. i \<in> set (sm_held s) \<longleftrightarrow> (\<exists>e. event_at s i = Some e \<and> i \<notin> X \<and> ev_status e = Blocked)) \<and>
      (\<forall>i \<in> set (sm_resolved s). event_at s i \<noteq> None))"

abbreviation books :: "simulator \<Rightarrow> bool" where
  "books \<equiv> books_but {}"

lemma books_same:
  assumes "sm_events t = sm_events s" "sm_queue t = sm_queue s" "sm_held t = sm_held s"
    "sm_resolved t = sm_resolved s" "sm_next_event t = sm_next_event s"
  shows "books_but X t = books_but X s"
  unfolding books_but_def assms ..

lemma books_record [simp]:
  "books_but X (record_trace a s) = books_but X s" "books_but X (record_effect f i x s) = books_but X s"
  by (rule books_same; simp add: sim_defs)+

lemma record_trace_fields [simp]:
  "sm_events (record_trace a s) = sm_events s" "sm_queue (record_trace a s) = sm_queue s"
  "sm_held (record_trace a s) = sm_held s" "sm_resolved (record_trace a s) = sm_resolved s"
  "sm_next_event (record_trace a s) = sm_next_event s" "sm_plan (record_trace a s) = sm_plan s"
  "sm_endpoints (record_trace a s) = sm_endpoints s" "sm_lanes (record_trace a s) = sm_lanes s"
  "sm_now (record_trace a s) = sm_now s" "sm_config (record_trace a s) = sm_config s"
  by (simp_all add: record_trace_def)

lemma books_events:
  assumes "books_but X s"
  shows "event_at s i = Some e \<Longrightarrow> ev_id e = i" "event_at s i = Some e \<Longrightarrow> unat i < unat (sm_next_event s)"
    "event_at s i = Some e \<Longrightarrow> i \<notin> X \<Longrightarrow> ev_status e \<noteq> Ready"
    "event_at s i = Some e \<Longrightarrow> i \<notin> X \<Longrightarrow> ev_attempts e = 0 \<longleftrightarrow> i \<notin> set (sm_resolved s)"
    "k \<in> set (sm_queue s) \<longleftrightarrow> (\<exists>e. event_at s (qk_event k) = Some e \<and> qk_event k \<notin> X \<and>
       ev_status e = Scheduled \<and> k = key_of e)"
    "i \<in> set (sm_held s) \<longleftrightarrow> (\<exists>e. event_at s i = Some e \<and> i \<notin> X \<and> ev_status e = Blocked)"
    "i \<in> set (sm_resolved s) \<Longrightarrow> event_at s i \<noteq> None"
    "bt_wf (sm_events s)" "bs_wf (sm_queue s)" "bs_wf (sm_held s)" "bs_wf (sm_resolved s)"
  using assms unfolding books_but_def by blast+

lemma booksI:
  assumes "bt_wf (sm_events s)" "bs_wf (sm_queue s)" "bs_wf (sm_held s)" "bs_wf (sm_resolved s)"
    "\<And>i e. event_at s i = Some e \<Longrightarrow> ev_id e = i \<and> unat i < unat (sm_next_event s)"
    "\<And>i e. event_at s i = Some e \<Longrightarrow> i \<notin> X \<Longrightarrow>
       ev_status e \<noteq> Ready \<and> (ev_attempts e = 0 \<longleftrightarrow> i \<notin> set (sm_resolved s))"
    "\<And>k. k \<in> set (sm_queue s) \<longleftrightarrow> (\<exists>e. event_at s (qk_event k) = Some e \<and> qk_event k \<notin> X \<and>
       ev_status e = Scheduled \<and> k = key_of e)"
    "\<And>i. i \<in> set (sm_held s) \<longleftrightarrow> (\<exists>e. event_at s i = Some e \<and> i \<notin> X \<and> ev_status e = Blocked)"
    "\<And>i. i \<in> set (sm_resolved s) \<Longrightarrow> event_at s i \<noteq> None"
  shows "books_but X s"
  using assms unfolding books_but_def by blast

text \<open>Taking an event out of its place.\<close>

lemma books_take_key:
  assumes "books_but X s" "k \<in> set (sm_queue s)" "bs_wf q" "set q = set (sm_queue s) - {k}"
  shows "books_but (insert (qk_event k) X) (s\<lparr>sm_queue := q\<rparr>)"
proof (rule booksI)
  note b = books_events [OF assms(1)]
  from assms(2) b(5) obtain e where e: "event_at s (qk_event k) = Some e" "qk_event k \<notin> X"
    "ev_status e = Scheduled" "k = key_of e" by blast
  show "k' \<in> set (sm_queue (s\<lparr>sm_queue := q\<rparr>)) \<longleftrightarrow> (\<exists>e. event_at (s\<lparr>sm_queue := q\<rparr>) (qk_event k') = Some e \<and>
      qk_event k' \<notin> insert (qk_event k) X \<and> ev_status e = Scheduled \<and> k' = key_of e)" for k'
  proof -
    have "k' = k" if "k' \<in> set (sm_queue s)" "qk_event k' = qk_event k"
      using that b(5) [of k'] e by auto
    then have "k' \<in> set q \<longleftrightarrow> k' \<in> set (sm_queue s) \<and> qk_event k' \<noteq> qk_event k"
      using assms(4) by blast
    then show ?thesis unfolding b(5) [of k'] by auto
  qed
  show "i \<in> set (sm_held (s\<lparr>sm_queue := q\<rparr>)) \<longleftrightarrow> (\<exists>e. event_at (s\<lparr>sm_queue := q\<rparr>) i = Some e \<and>
      i \<notin> insert (qk_event k) X \<and> ev_status e = Blocked)" for i
    using b(6) [of i] e by auto
qed (use books_events(1-4,7-11) [OF assms(1)] assms(3) in auto)

lemma books_take_held:
  assumes "books_but X s" "i \<in> set (sm_held s)"
  shows "books_but (insert i X) (s\<lparr>sm_held := bs_remove i (sm_held s)\<rparr>)"
proof (rule booksI)
  note b = books_events [OF assms(1)]
  let ?t = "s\<lparr>sm_held := bs_remove i (sm_held s)\<rparr>"
  from assms(2) b(6) obtain e where e: "event_at s i = Some e" "ev_status e = Blocked" by blast
  show "k \<in> set (sm_queue ?t) \<longleftrightarrow> (\<exists>e. event_at ?t (qk_event k) = Some e \<and>
      qk_event k \<notin> insert i X \<and> ev_status e = Scheduled \<and> k = key_of e)" for k
    using b(5) [of k] e by auto
  show "j \<in> set (sm_held ?t) \<longleftrightarrow> (\<exists>e. event_at ?t j = Some e \<and> j \<notin> insert i X \<and> ev_status e = Blocked)" for j
    using b(6) [of j] by auto
qed (use books_events(1-4,7-11) [OF assms(1)] in auto)

lemma books_take_absent:
  assumes "books_but X s" "event_at s i = None"
  shows "books_but (insert i X) s"
proof (rule booksI)
  note b = books_events [OF assms(1)]
  show "k \<in> set (sm_queue s) \<longleftrightarrow> (\<exists>e. event_at s (qk_event k) = Some e \<and>
      qk_event k \<notin> insert i X \<and> ev_status e = Scheduled \<and> k = key_of e)" for k
    using b(5) [of k] assms(2) by auto
  show "j \<in> set (sm_held s) \<longleftrightarrow> (\<exists>e. event_at s j = Some e \<and> j \<notin> insert i X \<and> ev_status e = Blocked)" for j
    using b(6) [of j] assms(2) by auto
qed (use books_events(1-4,7-11) [OF assms(1)] in auto)

text \<open>Putting an event that is in no place where its status says.\<close>

definition filed :: "event_id \<Rightarrow> sim_event \<Rightarrow> simulator \<Rightarrow> simulator" where
  "filed i e s =
     (let s = put_event i e s in
      case ev_status e of
        Scheduled \<Rightarrow> enqueue (ev_deliver_at e) (ev_lane e) i s
      | Blocked \<Rightarrow> s\<lparr>sm_held := bs_insert i (sm_held s)\<rparr>
      | _ \<Rightarrow> s)"

lemma filed_fields [simp]:
  "sm_events (filed i e s) = bt_insert i e (sm_events s)"
  "sm_resolved (filed i e s) = sm_resolved s" "sm_next_event (filed i e s) = sm_next_event s"
  "sm_endpoints (filed i e s) = sm_endpoints s" "sm_lanes (filed i e s) = sm_lanes s"
  "sm_now (filed i e s) = sm_now s" "sm_plan (filed i e s) = sm_plan s"
  "sm_config (filed i e s) = sm_config s"
  "set (sm_queue (filed i e s)) = (if ev_status e = Scheduled
     then insert (queue_key_new (ev_deliver_at e) (ev_lane e) i) (set (sm_queue s)) else set (sm_queue s))"
  "set (sm_held (filed i e s)) = (if ev_status e = Blocked then insert i (set (sm_held s)) else set (sm_held s))"
  "bs_wf (sm_queue s) \<Longrightarrow> bs_wf (sm_queue (filed i e s))"
  "bs_wf (sm_held s) \<Longrightarrow> bs_wf (sm_held (filed i e s))"
  by (auto simp: filed_def sim_defs Let_def split: event_status.split)

lemma books_filed:
  assumes "books_but (insert i X) s" "i \<notin> X" "ev_id e = i" "unat i < unat (sm_next_event s)"
    "ev_attempts e = 0 \<longleftrightarrow> i \<notin> set (sm_resolved s)" "ev_status e \<noteq> Ready"
  shows "books_but X (filed i e s)"
proof (rule booksI)
  note b = books_events [OF assms(1)]
  show "k \<in> set (sm_queue (filed i e s)) \<longleftrightarrow> (\<exists>e'. event_at (filed i e s) (qk_event k) = Some e' \<and>
      qk_event k \<notin> X \<and> ev_status e' = Scheduled \<and> k = key_of e')" for k
    using b(5) [of k] assms by (auto simp: bt_get_insert_always key_of_def)
  show "j \<in> set (sm_held (filed i e s)) \<longleftrightarrow> (\<exists>e'. event_at (filed i e s) j = Some e' \<and>
      j \<notin> X \<and> ev_status e' = Blocked)" for j
    using b(6) [of j] assms by (auto simp: bt_get_insert_always)
qed (use books_events(1-4,7-11) [OF assms(1)] assms in \<open>auto simp: bt_get_insert_always split: if_splits\<close>)

lemma books_next_event:
  assumes "books_but X s" "unat (sm_next_event s) \<le> unat n"
  shows "books_but X (s\<lparr>sm_next_event := n\<rparr>)"
proof (rule booksI)
  show "ev_id e = i \<and> unat i < unat (sm_next_event (s\<lparr>sm_next_event := n\<rparr>))"
    if "event_at (s\<lparr>sm_next_event := n\<rparr>) i = Some e" for i e
    using books_events(1,2) [OF assms(1), of i e] that assms(2) by simp
qed (use books_events(1-4,7-11) [OF assms(1)] in \<open>auto simp: books_events(5,6) [OF assms(1)]\<close>)

lemma books_mark_resolved:
  assumes "books_but X s" "event_at s i \<noteq> None" "i \<in> X"
  shows "books_but X (mark_resolved i s)"
  unfolding mark_resolved_def
  by (rule booksI) (use books_events(1-4,7-11) [OF assms(1)] assms(2,3) in
    \<open>auto simp: books_events(5,6) [OF assms(1)]\<close>)

section \<open>Composition keeps the books\<close>

lemma generate_filed: "ev_status e = Scheduled \<Longrightarrow> generate e n s = filed (ev_id e) e (s\<lparr>sm_next_event := n\<rparr>)"
  by (simp add: generate_def filed_def)

lemma books_generates:
  assumes "generates es s t" "books_but X s" "\<forall>i \<in> X. event_at s i \<noteq> None"
  shows "books_but X t"
  using assms
proof (induction rule: generates.induct)
  case (gen_event es s t e n)
  have t: "books_but X t" using gen_event by simp
  have "books_but X (t\<lparr>sm_next_event := n\<rparr>)"
    using t gen_event.hyps by (intro books_next_event) auto
  moreover have "ev_id e \<notin> X"
    using gen_event generates_event_at by fastforce
  moreover have "ev_id e \<notin> set (sm_resolved t)"
    using books_events(7) [OF t] gen_event.hyps(2) by blast
  ultimately show ?case
    using gen_event.hyps
    by (subst generate_filed, simp add: made_event_def)
       (intro books_filed books_take_absent; simp add: made_event_def)
qed simp_all

section \<open>An attempt keeps the books\<close>

definition stands_in_the_way :: "simulator \<Rightarrow> sim_event \<Rightarrow> bool" where
  "stands_in_the_way s e =
     (lane_is_paused (lane_state_of s (ev_lane e)) \<or>
      (\<exists>endpoint. bt_get (sm_endpoints s) (ev_destination e) = Some endpoint \<and> is_halted endpoint))"

definition late_at :: "tick option \<Rightarrow> tick \<Rightarrow> bool" where
  "late_at deadline t = (case deadline of None \<Rightarrow> False | Some d \<Rightarrow> d < t)"

lemma conclude_cases:
  assumes "ev_id e = i"
  obtains (settled) st a where "st = Dropped \<or> st = Expired \<or> st = RejectedBySimulator"
      "conclude i out e t = record_trace a (filed i (set_status st e) t)"
  | (delayed) d where "conclude i out e t = filed i (set_deliver_at d (set_status Scheduled e)) t"
  | (blocked) a where "conclude i out e t = record_trace a (filed i (set_status Blocked e) t)"
      "stands_in_the_way t e"
  | (delivered) a endpoint where "conclude i out e t = record_trace a (filed i (set_status Delivered e)
        (update_endpoint (ev_destination e) (deliver_into e (sm_now t) (late_at (ev_deadline e) (sm_now t))) t))"
      "bt_get (sm_endpoints t) (ev_destination e) = Some endpoint"
proof (cases out)
  case (OutcomeRejected reason)
  then show ?thesis
    using settled [of RejectedBySimulator] by (simp add: conclude_def reject_event_def filed_def)
next
  case (OutcomeDropped f)
  then show ?thesis using settled [of Dropped] by (simp add: conclude_def filed_def)
next
  case (OutcomeDelayed d)
  then show ?thesis using delayed [of d] by (simp add: conclude_def filed_def)
next
  case Proceed
  have f: "conclude i out e t = finish_attempt i e t" using Proceed by (simp add: conclude_def)
  have way: ?thesis if "finish_attempt i e t = block e r t" "stands_in_the_way t e" for r
    using that f assms blocked by (simp add: block_def filed_def Let_def)
  have over: ?thesis if "bt_get (sm_endpoints t) (ev_destination e) = Some endpoint"
    "finish_attempt i e t = hand_over e (late_at (ev_deadline e) (sm_now t)) t" for endpoint
    using that f assms delivered by (simp add: hand_over_eq filed_def)
  show ?thesis
  proof (cases "lane_is_paused (lane_state_of t (ev_lane e))")
    case True
    then show ?thesis by (intro way) (simp_all add: finish_attempt_def stands_in_the_way_def)
  next
    case running: False
    show ?thesis
    proof (cases "bt_get (sm_endpoints t) (ev_destination e)")
      case None
      then show ?thesis
        using running f settled [of RejectedBySimulator]
        by (simp add: finish_attempt_def reject_event_def filed_def)
    next
      case (Some endpoint)
      show ?thesis
      proof (cases "is_halted endpoint")
        case True
        with Some running show ?thesis
          by (intro way) (simp_all add: finish_attempt_def stands_in_the_way_def)
      next
        case awake: False
        show ?thesis
        proof (cases "late_at (ev_deadline e) (sm_now t) \<and> config_policy (sm_config t) (ev_lane e) = Expire")
          case True
          then show ?thesis
            using running Some awake f settled [of Expired]
            by (auto simp: finish_attempt_def late_at_def filed_def split: option.splits)
        next
          case False
          then show ?thesis
            using running Some awake
            by (intro over [OF Some])
               (auto simp: finish_attempt_def late_at_def split: option.splits late_policy.splits)
        qed
      qed
    qed
  qed
qed

lemma bump_attempts_pos: "ev_attempts (bump_attempts e) \<noteq> 0"
proof (cases e)
  case (ControlE c)
  have "unat (saturating_add_word (ce_attempts c) 1) \<noteq> 0" by (simp add: unat_saturating_add_word)
  with ControlE show ?thesis by (simp add: unat_eq_zero)
next
  case (AssetE a)
  have "unat (saturating_add_word (ae_attempts a) 1) \<noteq> 0" by (simp add: unat_saturating_add_word)
  with AssetE show ?thesis by (simp add: unat_eq_zero)
qed

text \<open>
  A due event is taken from the queue, its faults are decided at most once, and then it is
  filed. The cases of a delivery step share this description.
\<close>

lemma deliver_next_cases:
  assumes "deliver_next D s = (Some i, s')" "books s"
  obtains e0 e v out e' t where
    "event_at s i = Some e0" "ev_status e0 = Scheduled" "ev_id e0 = i" "ev_deliver_at e0 \<le> sm_now s"
    "e = set_status Ready (bump_attempts e0)"
    "event_at v = event_at s" "sm_endpoints v = sm_endpoints s" "sm_lanes v = sm_lanes s"
    "sm_plan v = sm_plan s" "sm_now v = sm_now s" "sm_resolved v = sm_resolved s" "sm_held v = sm_held s"
    "sm_next_event v = sm_next_event s" "sm_events v = sm_events s"
    "compose D e v = (out, e', t)" "s' = conclude i out e' t" "books_but {i} t"
    "ev_id e' = i" "ev_attempts e' \<noteq> 0" "i \<in> set (sm_resolved t)" "event_at t i = Some e0"
    "ev_status e' = Ready"
proof -
  from assms(1) obtain k q where q: "sm_queue s = k # q" "qk_event k = i" "\<not> sm_now s < qk_deliver_at k"
    "s' = attempt D i (s\<lparr>sm_queue := q\<rparr>)"
    by (cases "sm_queue s") (auto simp: deliver_next_def split: if_splits)
  let ?u = "s\<lparr>sm_queue := q\<rparr>"
  from books_events(9) [OF assms(2)] q have wf: "bs_wf q" "k \<notin> set q"
    by (auto dest: bs_wf_tl)
  have k: "k \<in> set (sm_queue s)" using q by simp
  from books_events(5) [OF assms(2), of k] k obtain e0 where
    e0: "event_at s i = Some e0" "ev_status e0 = Scheduled" "k = key_of e0"
    using q(2) by auto
  have id0: "ev_id e0 = i" using books_events(1) [OF assms(2) e0(1)] .
  have u: "books_but {i} ?u"
    using books_take_key [OF assms(2) k wf(1)] q wf(2) by auto
  have "event_at ?u i = Some e0" "\<not> is_terminal (ev_status e0)" using e0 by simp_all
  then obtain e v out e' t where a: "e = set_status Ready (bump_attempts e0)"
    "v = record_trace (DeliveryAttempted i (ev_destination e) (ev_attempts e)) ?u"
    "compose D e v = (out, e', t)" "attempt D i ?u = conclude i out e' t"
    by (rule attempt_conclude)
  have id: "ev_id e = i" using a(1) id0 by simp
  have v: "books_but {i} v" using u a(2) by simp
  have v': "event_at v = event_at s" using a(2) by (simp add: sim_defs)
  have m: "books_but {i} (mark_resolved i v)"
    using v v' e0 by (intro books_mark_resolved) auto
  have mi: "event_at (mark_resolved i v) i = Some e0" using v' e0 by (simp add: sim_defs)
  have t: "books_but {i} t \<and> ev_id e' = i \<and> ev_attempts e' \<noteq> 0 \<and> i \<in> set (sm_resolved t) \<and>
      event_at t i = Some e0 \<and> ev_status e' = Ready"
    using a(3)
  proof (cases rule: compose_effect)
    case bound
    then show ?thesis using v v' id e0 a(1) bump_attempts_pos [of e0] by simp
  next
    case (decided batch es)
    have g: "generates es (mark_resolved i v) t" using decided(4) id by simp
    have "books_but {i} t"
      using books_generates [OF g m] mi by simp
    then show ?thesis
      using decided(3) id a(1) bump_attempts_pos [of e0] generates_event_at [OF g mi]
      by (simp add: generates_kept(1) [OF g] sim_defs)
  qed
  show ?thesis
    by (rule that [of e0 e v out e' t])
       (use q e0 id0 a v v' t in \<open>simp_all add: not_less sim_defs\<close>)
qed

lemma books_deliver_next:
  assumes "deliver_next D s = (Some i, s')" "books s"
  shows "books s'"
  using assms
proof (rule deliver_next_cases)
  fix e0 e v out e' t
  assume d: "s' = conclude i out e' t" "books_but {i} t" "ev_id e' = i" "ev_attempts e' \<noteq> 0"
    "i \<in> set (sm_resolved t)" "event_at t i = Some e0" "ev_status e' = Ready"
  have filed: "books (filed i x (u))"
    if "ev_id x = i" "ev_attempts x \<noteq> 0" "ev_status x \<noteq> Ready" "books_but {i} u"
      "sm_resolved u = sm_resolved t" "sm_next_event u = sm_next_event t" for x u
    using that d books_events(2) [OF d(2) d(6)] by (intro books_filed) auto
  from d(3) show "books s'"
    unfolding d(1)
  proof (cases rule: conclude_cases [of e' i out t])
    case (delivered a endpoint)
    let ?u = "update_endpoint (ev_destination e')
      (deliver_into e' (sm_now t) (late_at (ev_deadline e') (sm_now t))) t"
    have "books_but {i} ?u" using d(2) books_same [of ?u t] by simp
    with delivered(1) d show "books (conclude i out e' t)"
      by (simp add: filed)
  next
    case (settled st a)
    then have "st \<noteq> Ready" by auto
    with settled(2) d show "books (conclude i out e' t)" by (simp add: filed)
  qed (use d in \<open>simp_all add: filed\<close>)
qed

section \<open>Scheduling, releasing and moving keep the books\<close>

definition control_of :: "'h digest \<Rightarrow> control_request \<Rightarrow> event_id \<Rightarrow> sim_event" where
  "control_of D r i = ControlE \<lparr>ce_id = i, ce_source = cr_source r, ce_destination = cr_destination r,
     ce_intended_destination = cr_destination r, ce_bytes = cr_bytes r,
     ce_message_id = message_identity D (cr_bytes r), ce_deliver_at = cr_deliver_at r, ce_attempts = 0,
     ce_duplicate_of = None, ce_mutation = None, ce_expires_at = cr_expires_at r,
     ce_from_fault = False, ce_status = Scheduled\<rparr>"

definition asset_of :: "asset_request \<Rightarrow> event_id \<Rightarrow> sim_event" where
  "asset_of r i = AssetE \<lparr>ae_id = i, ae_transfer = ar_transfer r, ae_source = ar_source r,
     ae_destination = ar_destination r, ae_intended_destination = ar_destination r,
     ae_requested = ar_amount r, ae_delivered = ar_amount r,
     ae_deliver_at = ar_deliver_at r, ae_attempts = 0, ae_duplicate_of = None,
     ae_piece = None, ae_over_delivered = False, ae_timeout_at = ar_timeout_at r,
     ae_from_fault = False, ae_status = Scheduled\<rparr>"

text \<open>A newly scheduled event \<open>e\<close>, under an identifier that was free.\<close>

definition admits :: "simulator \<Rightarrow> sim_event \<Rightarrow> simulator \<Rightarrow> bool" where
  "admits s e t =
     (event_at s (ev_id e) = None \<and> ev_status e = Scheduled \<and> ev_attempts e = 0 \<and>
      \<not> made_by_fault e \<and> bt_contains (sm_endpoints s) (ev_destination e) \<and>
      (\<exists>n a. unat (sm_next_event s) \<le> unat n \<and> unat (ev_id e) < unat n \<and>
         t = filed (ev_id e) e (record_trace a (s\<lparr>sm_next_event := n\<rparr>))))"

lemma reserve_ok:
  assumes "reserve_event_id w s = (Inr i, u)"
  obtains n where "event_at s i = None" "u = s\<lparr>sm_next_event := n\<rparr>" "unat (sm_next_event s) \<le> unat n"
    "unat i < unat n"
proof -
  from assms obtain m where m: "event_at s i = None" "checked_add_word i 1 = Some m"
    "u = s\<lparr>sm_next_event := max m (sm_next_event s)\<rparr>"
    by (auto simp: reserve_event_id_def Let_def bt_contains_def split: if_splits option.splits)
  then have "unat m = unat i + 1" by (simp add: amount_simps)
  with m show ?thesis
    by (intro that [of "max m (sm_next_event s)"]) (auto simp: max_def word_le_nat_alt)
qed

lemma insert_scheduled_filed:
  "ev_status e = Scheduled \<Longrightarrow> insert_scheduled e subj s =
   filed (ev_id e) e (record_trace (EventScheduled (ev_id e) (ev_lane e) (ev_source e) (ev_destination e)
     subj (ev_deliver_at e)) s)"
  by (simp add: insert_scheduled_def filed_def Let_def)

lemma check_route_known:
  "check_route s a b = Inr () \<Longrightarrow> bt_contains (sm_endpoints s) a \<and> bt_contains (sm_endpoints s) b \<and> a \<noteq> b"
  by (auto simp: check_route_def require_endpoint_def result_simps split: if_splits)

lemma schedule_control_admits:
  assumes "schedule_control D r s = (Inr i, t)"
  shows "admits s (control_of D r i) t" "cr_bytes r \<noteq> []"
proof -
  from assms obtain u where u: "reserve_event_id (cr_id r) s = (Inr i, u)"
    "t = insert_scheduled (control_of D r i) (MessageSubject (message_identity D (cr_bytes r))) u"
    "check_route s (cr_source r) (cr_destination r) = Inr ()" "cr_bytes r \<noteq> []"
    by (auto simp: schedule_control_def m_simps Let_def control_of_def split: if_splits)
  obtain n where "event_at s i = None" "u = s\<lparr>sm_next_event := n\<rparr>" "unat (sm_next_event s) \<le> unat n"
    "unat i < unat n"
    by (rule reserve_ok [OF u(1)])
  with u check_route_known [OF u(3)] show "admits s (control_of D r i) t" "cr_bytes r \<noteq> []"
    unfolding admits_def by (auto simp: insert_scheduled_filed control_of_def)
qed

lemma schedule_asset_admits:
  assumes "schedule_asset r s = (Inr i, t)"
  shows "admits s (asset_of r i) t" "ar_amount r \<noteq> 0"
proof -
  from assms obtain u where u: "reserve_event_id (ar_id r) s = (Inr i, u)"
    "t = insert_scheduled (asset_of r i) (TransferSubject (ar_transfer r)) u"
    "check_route s (ar_source r) (ar_destination r) = Inr ()" "ar_amount r \<noteq> 0"
    by (auto simp: schedule_asset_def m_simps Let_def asset_of_def split: if_splits)
  obtain n where "event_at s i = None" "u = s\<lparr>sm_next_event := n\<rparr>" "unat (sm_next_event s) \<le> unat n"
    "unat i < unat n"
    by (rule reserve_ok [OF u(1)])
  with u check_route_known [OF u(3)] show "admits s (asset_of r i) t" "ar_amount r \<noteq> 0"
    unfolding admits_def by (auto simp: insert_scheduled_filed asset_of_def)
qed

lemma admits_fields:
  assumes "admits s e t"
  shows "event_at t j = (if j = ev_id e then Some e else event_at s j)" "sm_endpoints t = sm_endpoints s"
    "sm_lanes t = sm_lanes s" "set (sm_held t) = set (sm_held s)" "sm_plan t = sm_plan s"
    "sm_resolved t = sm_resolved s" "sm_now t = sm_now s"
  using assms by (auto simp: admits_def bt_get_insert_always sim_defs)

lemma books_admits:
  assumes "admits s e t" "books s"
  shows "books t"
proof -
  from assms(1) obtain n a where n: "unat (sm_next_event s) \<le> unat n" "unat (ev_id e) < unat n"
    "t = filed (ev_id e) e (record_trace a (s\<lparr>sm_next_event := n\<rparr>))" by (auto simp: admits_def)
  have e: "event_at s (ev_id e) = None" "ev_status e = Scheduled" "ev_attempts e = 0"
    using assms(1) by (simp_all add: admits_def)
  have "books_but {ev_id e} (s\<lparr>sm_next_event := n\<rparr>)"
    by (rule books_next_event [OF books_take_absent [OF assms(2) e(1)] n(1)])
  moreover have "ev_id e \<notin> set (sm_resolved s)"
    using books_events(7) [OF assms(2)] e(1) by blast
  ultimately show ?thesis
    unfolding n(3) using n(1,2) e by (intro books_filed) simp_all
qed

text \<open>
  Releasing and moving only change when a waiting event is due and whether it waits in the
  queue or is held.
\<close>

definition retimed_event :: "sim_event option \<Rightarrow> sim_event option \<Rightarrow> bool" where
  "retimed_event x y =
     (y = x \<or> (\<exists>e d. x = Some e \<and> (ev_status e = Scheduled \<or> ev_status e = Blocked) \<and>
        y = Some (set_deliver_at d (set_status Scheduled e))))"

definition retimed :: "simulator \<Rightarrow> simulator \<Rightarrow> bool" where
  "retimed s t =
     (sm_endpoints t = sm_endpoints s \<and> sm_lanes t = sm_lanes s \<and> sm_now t = sm_now s \<and>
      sm_plan t = sm_plan s \<and> sm_config t = sm_config s \<and> sm_resolved t = sm_resolved s \<and>
      sm_next_event t = sm_next_event s \<and> (\<forall>i. retimed_event (event_at s i) (event_at t i)))"

lemma set_setters [simp]:
  "set_deliver_at d (set_deliver_at d' e) = set_deliver_at d e"
  "set_status st (set_status st' e) = set_status st e"
  "set_status st (set_deliver_at d e) = set_deliver_at d (set_status st e)"
  by (cases e; simp)+

lemma set_same [simp]: "set_status (ev_status e) e = e" "set_deliver_at (ev_deliver_at e) e = e"
  by (cases e; simp)+

lemma set_status_same: "ev_status e = st \<Longrightarrow> set_status st e = e"
  by auto

lemma retimed_refl: "retimed s s"
  by (simp add: retimed_def retimed_event_def)

lemma retimed_event_trans: "retimed_event x y \<Longrightarrow> retimed_event y z \<Longrightarrow> retimed_event x z"
  by (auto simp: retimed_event_def)

lemma retimed_trans: "retimed s t \<Longrightarrow> retimed t u \<Longrightarrow> retimed s u"
  by (auto simp: retimed_def intro: retimed_event_trans)

lemma move_to_books:
  assumes "books s" "k \<in> set (sm_queue s)"
  shows "books (move_to k d s)" "retimed s (move_to k d s)" "set (sm_held (move_to k d s)) = set (sm_held s)"
    "k' \<in> set (sm_queue s) \<Longrightarrow> k' \<noteq> k \<Longrightarrow> k' \<in> set (sm_queue (move_to k d s))"
proof -
  obtain e where e: "event_at s (qk_event k) = Some e" "ev_status e = Scheduled" "k = key_of e"
    using books_events(5) [OF assms(1), of k] assms(2) by auto
  have id: "ev_id e = qk_event k" using e(3) by simp
  let ?u = "s\<lparr>sm_queue := queue_remove k (sm_queue s)\<rparr>"
  have "books_but {qk_event k} ?u"
    using assms by (intro books_take_key) (simp_all add: books_events(9))
  then have f: "books (filed (qk_event k) (set_deliver_at d e) ?u)"
    using e(2) id books_events(2,4) [OF assms(1) e(1)] by (intro books_filed) simp_all
  have m: "move_to k d s = (if qk_deliver_at k = d then s else
      record_trace (EventReordered (qk_event k) (qk_deliver_at k) d) (filed (qk_event k) (set_deliver_at d e) ?u))"
    using e(1,2) by (simp add: move_to_def filed_def Let_def)
  show "books (move_to k d s)" using f m assms(1) by simp
  show "retimed s (move_to k d s)"
    using e(1,2) by (auto simp: m retimed_def retimed_event_def bt_get_insert_always set_status_same)
  show "set (sm_held (move_to k d s)) = set (sm_held s)"
    using e(1,2) by (simp add: m)
  show "k' \<in> set (sm_queue s) \<Longrightarrow> k' \<noteq> k \<Longrightarrow> k' \<in> set (sm_queue (move_to k d s))"
    using e(1,2) by (simp add: m)
qed

lemma pending_key_in: "pending_key s i = Inr k \<Longrightarrow> k \<in> set (sm_queue s)"
  by (auto simp: pending_key_def ok_or_Inr split: if_splits dest: queue_find_Some)

lemma swap_books:
  assumes "books s" "swap_delivery_ticks l r s = (Inr (), t)"
  shows "books t \<and> retimed s t \<and> set (sm_held t) = set (sm_held s)"
proof -
  from assms(2) obtain kl kr where k: "kl \<in> set (sm_queue s)" "kr \<in> set (sm_queue s)"
    and t: "t = move_to kr (qk_deliver_at kl) (move_to kl (qk_deliver_at kr) s)"
    by (auto simp: swap_delivery_ticks_def m_simps dest: pending_key_in)
  show ?thesis
  proof (cases "kl = kr")
    case True
    then have "t = s" by (simp add: t move_to_def)
    with assms(1) retimed_refl show ?thesis by simp
  next
    case False
    let ?u = "move_to kl (qk_deliver_at kr) s"
    note u = move_to_books [OF assms(1) k(1), where d = "qk_deliver_at kr"]
    have "kr \<in> set (sm_queue ?u)" using u(4) k(2) False by simp
    with move_to_books [OF u(1) this] u show ?thesis
      unfolding t by (auto intro: retimed_trans)
  qed
qed

lemma move_books:
  assumes "books s" "move_before l r s = (Inr (), t) \<or> move_after l r s = (Inr (), t)"
  shows "books t \<and> retimed s t \<and> set (sm_held t) = set (sm_held s)"
proof -
  from assms(2) obtain k d where "k \<in> set (sm_queue s)" "t = move_to k d s"
    by (auto simp: move_before_def move_after_def m_simps Let_def dest: pending_key_in)
  with move_to_books [OF assms(1)] show ?thesis by simp
qed

lemma release_loop_books:
  assumes "release_loop ready n s = (m, t)" "books s" "distinct ready" "set ready \<subseteq> set (sm_held s)"
  shows "books t \<and> retimed s t \<and> set (sm_held t) = set (sm_held s) - set ready \<and>
    (\<forall>j. j \<notin> set ready \<longrightarrow> event_at t j = event_at s j)"
  using assms
proof (induction ready arbitrary: n s)
  case Nil
  then show ?case by (auto intro: retimed_refl)
next
  case (Cons i ready)
  obtain e where e: "event_at s i = Some e" "ev_status e = Blocked"
    using books_events(6) [OF Cons.prems(2), of i] Cons.prems(4) by auto
  let ?u = "s\<lparr>sm_held := bs_remove i (sm_held s)\<rparr>"
  define d where "d = max (sm_now s) (ev_deliver_at e)"
  define x where "x = set_deliver_at d (set_status Scheduled e)"
  define v where "v = filed i x ?u"
  have "books_but {i} ?u" using books_take_held [OF Cons.prems(2)] Cons.prems(4) by simp
  then have v: "books v"
    unfolding v_def x_def using books_events(1,2,4) [OF Cons.prems(2) e(1)]
    by (intro books_filed) simp_all
  have loop: "release_loop ready (saturating_add_word n 1) v = (m, t)"
    using Cons.prems(1) e by (simp add: v_def x_def d_def filed_def Let_def)
  have held: "set (sm_held v) = set (sm_held s) - {i}"
    by (simp add: v_def x_def)
  have sv: "retimed s v"
    using e by (auto simp: v_def retimed_def retimed_event_def x_def bt_get_insert_always)
  have "books t \<and> retimed v t \<and> set (sm_held t) = set (sm_held v) - set ready \<and>
      (\<forall>j. j \<notin> set ready \<longrightarrow> event_at t j = event_at v j)"
    using Cons.prems v held by (intro Cons.IH [OF loop]) auto
  moreover have "event_at v j = event_at s j" if "j \<noteq> i" for j
    using that by (simp add: v_def bt_get_insert_always)
  ultimately show ?case using held sv by (auto intro: retimed_trans)
qed

lemma release_held_books:
  assumes "release_held s = (m, t)" "books s"
  shows "books t" "retimed s t" "set (sm_held t) = {i \<in> set (sm_held s). \<not> path_is_clear s i}"
    "\<And>j. j \<in> set (sm_held t) \<Longrightarrow> event_at t j = event_at s j"
proof -
  have "distinct (sm_held s)"
    using books_events(10) [OF assms(2)] by (simp add: bs_wf_def strict_sorted_iff)
  then have "books t \<and> retimed s t \<and> set (sm_held t) = set (sm_held s) - set (filter (path_is_clear s) (sm_held s)) \<and>
    (\<forall>j. j \<notin> set (filter (path_is_clear s) (sm_held s)) \<longrightarrow> event_at t j = event_at s j)"
    using assms by (intro release_loop_books) (auto simp: release_held_def)
  then show "books t" "retimed s t" "set (sm_held t) = {i \<in> set (sm_held s). \<not> path_is_clear s i}"
    "\<And>j. j \<in> set (sm_held t) \<Longrightarrow> event_at t j = event_at s j" by auto
qed

end
