(* ===== verification/Sim_Events.thy ===== *)
theory Sim_Events
  imports Sim_Inv
begin

text \<open>
  What the simulator may do to the content of an event. The locale \<open>event_property\<close> states
  which changes a property of events has to survive: new status, tick and attempt count,
  copies, pieces, and one action of a batch that passed its checks. Its client lemma says
  that then every event of every state a delivery step leads to has the property.
\<close>

section \<open>The checks of a batch stay valid while it runs\<close>

lemma check_action_content:
  "action_group b \<noteq> ContentGroup \<Longrightarrow> check_action s b e = check_action s b e'"
  by (cases b) (auto simp: check_action_def)

lemma act_on_other: "action_group a \<noteq> ContentGroup \<Longrightarrow> act_on D a e = e \<or> (\<exists>d. act_on D a e = set_destination d e)"
  by (cases a) (auto simp: act_on_def)

lemma check_action_destination: "check_action s b (set_destination d e) = check_action s b e"
  by (cases e; cases b) (auto simp: check_action_def split: option.split)

lemma check_action_act_on:
  assumes "action_group a \<noteq> action_group b"
  shows "check_action s b (act_on D a e) = check_action s b e"
proof (cases "action_group b = ContentGroup")
  case True
  then have "action_group a \<noteq> ContentGroup" using assms by simp
  then show ?thesis using act_on_other [of a D e] by (auto simp: check_action_destination)
next
  case False
  then show ?thesis by (rule check_action_content)
qed

section \<open>Properties of events\<close>

lemma generates_origin: "generates es s t \<Longrightarrow> event_at t i = Some e \<Longrightarrow> event_at s i = Some e \<or> e \<in> set es"
  by (induction rule: generates.induct)
     (auto simp: generate_def sim_defs bt_get_insert_always split: if_splits)

lemma list_all2_member: "list_all2 P xs ys \<Longrightarrow> x \<in> set xs \<Longrightarrow> \<exists>y \<in> set ys. P x y"
  by (induction rule: list_all2_induct) auto

locale event_property =
  fixes D :: "'h digest"
    and good :: "sim_event \<Rightarrow> bool"
    and known :: "endpoint_id \<Rightarrow> bool"
  assumes good_status: "good e \<Longrightarrow> good (set_status st e)"
    and good_tick: "good e \<Longrightarrow> good (set_deliver_at t e)"
    and good_attempts: "good e \<Longrightarrow> good (bump_attempts e)"
    and good_copy: "good e \<Longrightarrow> good (clone_for_duplicate e i t)"
    and good_act: "good e \<Longrightarrow> check_action s a e = None \<Longrightarrow>
      (\<And>d. bt_contains (sm_endpoints s) d \<Longrightarrow> known d) \<Longrightarrow> good (act_on D a e)"
    and good_piece: "good e \<Longrightarrow> check_action s (Split ps spacing) e = None \<Longrightarrow>
      first_piece ps e = AssetE origin \<Longrightarrow> amount \<in> set ps \<Longrightarrow>
      good (AssetE (piece_event origin i t amount x))"
begin

definition all_good :: "simulator \<Rightarrow> bool" where
  "all_good s = (\<forall>i e. event_at s i = Some e \<longrightarrow> good e)"

lemma made_from_good:
  assumes "made_from a e es" "good e" "check_action s a e = None"
  shows "\<forall>c \<in> set es. good c"
proof (cases a)
  case (Duplicate copies spacing)
  with assms show ?thesis by (auto simp: made_from_def is_copy_def intro: good_copy)
next
  case (Split ps spacing)
  show ?thesis
  proof
    fix c assume c: "c \<in> set es"
    with assms(1) Split obtain o' n where o': "first_piece ps e = AssetE o'"
      "list_all2 (is_piece o') es (take n (tl ps))" by (auto simp: made_from_def)
    from list_all2_member [OF o'(2) c] obtain amount
      where m: "amount \<in> set (take n (tl ps))" "is_piece o' c amount" by blast
    have "amount \<in> set ps" using in_set_takeD [OF m(1)] by (cases ps) auto
    with assms(2,3) Split o'(1) m(2) show "good c"
      by (auto simp: is_piece_def intro: good_piece)
  qed
qed (use assms in \<open>simp_all add: made_from_def\<close>)

lemma batch_good:
  assumes "batch_made D batch e es" "good e" "distinct (map (action_group \<circ> ft_action) batch)"
    "\<forall>f \<in> set batch. check_action s (ft_action f) e = None"
    "\<And>d. bt_contains (sm_endpoints s) d \<Longrightarrow> known d"
  shows "good (act_all D batch e) \<and> (\<forall>c \<in> set es. good c)"
  using assms(1-4)
proof (induction batch arbitrary: e es)
  case (Cons f batch)
  from Cons.prems(1) obtain es1 es2 where es: "es = es1 @ es2" "made_from (ft_action f) e es1"
    "batch_made D batch (act_on D (ft_action f) e) es2" by auto
  have f: "check_action s (ft_action f) e = None" using Cons.prems(4) by simp
  have "good (act_on D (ft_action f) e)"
    using Cons.prems(2) f assms(5) by (rule good_act)
  moreover have "check_action s (ft_action g) (act_on D (ft_action f) e) = None" if "g \<in> set batch" for g
  proof -
    have "action_group (ft_action f) \<noteq> action_group (ft_action g)"
      using Cons.prems(3) that by auto
    then show ?thesis using Cons.prems(4) that by (simp add: check_action_act_on)
  qed
  ultimately have "good (act_all D (f # batch) e) \<and> (\<forall>c \<in> set es2. good c)"
    using Cons.IH [OF es(3)] Cons.prems(3) by simp
  moreover have "\<forall>c \<in> set es1. good c" by (rule made_from_good [OF es(2) Cons.prems(2) f])
  ultimately show ?case using es(1) by auto
qed simp

lemma compose_good:
  assumes "compose D e s = (out, e', t)" "good e" "all_good s"
    "\<And>d. bt_contains (sm_endpoints s) d \<Longrightarrow> known d"
  shows "good e' \<and> all_good t"
  using assms(1)
proof (cases rule: compose_effect)
  case bound
  with assms show ?thesis by simp
next
  case (decided batch es)
  have k: "known d" if "bt_contains (sm_endpoints (mark_resolved (ev_id e) s)) d" for d
    using that assms(4) by (simp add: mark_resolved_def)
  have "good (act_all D batch e) \<and> (\<forall>c \<in> set es. good c)"
    using decided(2) by (intro batch_good [OF decided(5) assms(2) _ _ k]) (auto simp: passed_def)
  moreover have "event_at (mark_resolved (ev_id e) s) = event_at s" by (simp add: mark_resolved_def)
  ultimately show ?thesis
    using decided(3,4) assms(3) generates_origin unfolding all_good_def by metis
qed

lemma filed_good: "all_good s \<Longrightarrow> good e \<Longrightarrow> all_good (filed i e s)"
  by (simp add: all_good_def bt_get_insert_always)

lemma deliver_good:
  assumes "deliver_next D s = (Some i, s')" "books s" "all_good s"
    "\<And>d. bt_contains (sm_endpoints s) d \<Longrightarrow> known d"
  shows "all_good s'"
  using assms(1,2)
proof (rule deliver_next_cases)
  fix e0 e v out e' t
  assume d: "event_at s i = Some e0" "e = set_status Ready (bump_attempts e0)" "event_at v = event_at s"
    "sm_endpoints v = sm_endpoints s" "compose D e v = (out, e', t)" "s' = conclude i out e' t" "ev_id e' = i"
  have "good e" using d assms(3) by (simp add: all_good_def good_status good_attempts)
  moreover have "all_good v" using d(3) assms(3) by (simp add: all_good_def)
  ultimately have t: "good e' \<and> all_good t"
    using d(4) assms(4) by (intro compose_good [OF d(5)]) simp_all
  have rec: "all_good (record_trace a u) = all_good u" for a u by (simp add: all_good_def)
  have upd: "all_good (update_endpoint x g u) = all_good u" for x g u by (simp add: all_good_def)
  from d(7) show "all_good s'"
    unfolding d(6)
    by (cases rule: conclude_cases [of e' i out t])
       (use t in \<open>simp_all add: rec upd filed_good good_status good_tick\<close>)
qed

lemma admits_good: "admits s e t \<Longrightarrow> all_good s \<Longrightarrow> good e \<Longrightarrow> all_good t"
  by (simp add: all_good_def admits_fields(1))

lemma retimed_good:
  assumes "retimed s t" "all_good s" shows "all_good t"
  unfolding all_good_def
proof (intro allI impI)
  fix i e assume e: "event_at t i = Some e"
  from assms(1) have "retimed_event (event_at s i) (event_at t i)" by (simp add: retimed_def)
  with e assms(2) show "good e"
    by (auto simp: retimed_event_def all_good_def intro: good_tick good_status)
qed

end

end
