(* ===== verification/Sim_Transport.thy ===== *)
theory Sim_Transport
  imports Sim_Events
begin

text \<open>
  The invariant of the transport simulator in full, for every reachable state: the books,
  known destinations, held events that something stands in the way of, and inboxes that
  hold exactly one true record of every delivered event.
\<close>

section \<open>Destinations are known endpoints\<close>

interpretation dest: event_property D "\<lambda>e. known (ev_destination e)" known for D known
proof
  fix e s a
  assume e: "known (ev_destination e)" and a: "check_action s a e = None"
    and k: "\<And>d. bt_contains (sm_endpoints s) d \<Longrightarrow> known d"
  have c: "ev_destination (corrupted D n m e) = ev_destination e" for n m
    by (cases e) (simp_all add: Let_def)
  have p: "ev_destination (first_piece ps e) = ev_destination e" for ps
    by (cases e; cases ps) simp_all
  have v: "ev_destination (set_delivered x b e) = ev_destination e" for x b
    by (cases e) simp_all
  have r: "ev_destination (set_destination d e) = d" for d by (cases e) simp_all
  show "known (ev_destination (act_on D a e))"
    using e a k by (cases a) (auto simp: act_on_def check_action_def then_some_def c p v r split: if_splits)
next
  fix e s ps spacing origin amount i t x
  assume "known (ev_destination e)" "first_piece ps e = AssetE origin"
  moreover have "ev_destination (first_piece ps e) = ev_destination e"
    by (cases e; cases ps) simp_all
  ultimately show "known (ev_destination (AssetE (piece_event origin i t amount x)))" by simp
next
  fix e assume "known (ev_destination e)"
  then show "known (ev_destination (bump_attempts e))" by (cases e) simp_all
qed simp_all

definition endpoint_known :: "simulator \<Rightarrow> endpoint_id \<Rightarrow> bool" where
  "endpoint_known s d = bt_contains (sm_endpoints s) d"

definition destinations_known :: "simulator \<Rightarrow> bool" where
  "destinations_known s = (\<forall>i e. event_at s i = Some e \<longrightarrow> endpoint_known s (ev_destination e))"

lemma destinations_known_good: "destinations_known s = dest.all_good (endpoint_known s) s"
  by (simp add: destinations_known_def dest.all_good_def)

lemma update_endpoint_known [simp]: "endpoint_known (update_endpoint i g s) = endpoint_known s"
  by (rule ext) (auto simp: endpoint_known_def update_endpoint_def bt_contains_def bt_get_insert_always
      split: option.split)

section \<open>Held events\<close>

definition held_blocked :: "simulator \<Rightarrow> bool" where
  "held_blocked s = (\<forall>i \<in> set (sm_held s). \<exists>e. event_at s i = Some e \<and> stands_in_the_way s e)"

lemma stands_same:
  "sm_lanes t = sm_lanes s \<Longrightarrow> sm_endpoints t = sm_endpoints s \<Longrightarrow> stands_in_the_way t e = stands_in_the_way s e"
  by (simp add: stands_in_the_way_def lane_state_of_def)

lemma stands_setters [simp]:
  "stands_in_the_way s (set_status st e) = stands_in_the_way s e"
  "stands_in_the_way s (set_deliver_at d e) = stands_in_the_way s e"
  by (simp_all add: stands_in_the_way_def)

lemma endpoint_updated:
  "bt_get (sm_endpoints (update_endpoint i g s)) d =
     (if d = i then map_option g (bt_get (sm_endpoints s) i) else bt_get (sm_endpoints s) d)"
  by (simp add: update_endpoint_def bt_get_insert_always split: option.split)

lemma deliver_into_state [simp]:
  "is_halted (deliver_into e now late n) = is_halted n" "en_id (deliver_into e now late n) = en_id n"
  by (cases e; simp add: is_halted_def push_control_def push_asset_def)+

lemma stands_delivered [simp]:
  "stands_in_the_way (update_endpoint i (deliver_into x now late) s) e = stands_in_the_way s e"
  by (auto simp: stands_in_the_way_def lane_state_of_def endpoint_updated)

lemma path_not_clear:
  assumes "event_at s i = Some e" "endpoint_known s (ev_destination e)" "\<not> path_is_clear s i"
  shows "stands_in_the_way s e"
  using assms by (auto simp: path_is_clear_def stands_in_the_way_def endpoint_known_def bt_contains_def
      split: option.splits)

section \<open>Inboxes\<close>

definition delivered_event :: "simulator \<Rightarrow> event_id \<Rightarrow> sim_event option" where
  "delivered_event s i =
     (case event_at s i of
        None \<Rightarrow> None
      | Some e \<Rightarrow> if ev_status e = Delivered then Some e else None)"

definition inbox_count :: "event_id \<Rightarrow> endpoint \<Rightarrow> nat" where
  "inbox_count i n =
     length (filter (\<lambda>c. dc_event c = i) (en_control_inbox n)) +
     length (filter (\<lambda>a. da_event a = i) (en_asset_inbox n))"

definition deliveries :: "simulator \<Rightarrow> event_id \<Rightarrow> nat" where
  "deliveries s i = sum_list (map (\<lambda>p. inbox_count i (snd p)) (sm_endpoints s))"

definition control_recorded :: "simulator \<Rightarrow> endpoint_id \<Rightarrow> delivered_control \<Rightarrow> bool" where
  "control_recorded s d c =
     (\<exists>e. delivered_event s (dc_event c) = Some (ControlE e) \<and> ce_destination e = d \<and>
        c = control_record e (dc_delivered_at c) (late_at (ce_expires_at e) (dc_delivered_at c)))"

definition asset_recorded :: "simulator \<Rightarrow> endpoint_id \<Rightarrow> delivered_asset \<Rightarrow> bool" where
  "asset_recorded s d a =
     (\<exists>e. delivered_event s (da_event a) = Some (AssetE e) \<and> ae_destination e = d \<and>
        a = asset_record e (da_delivered_at a) (late_at (ae_timeout_at e) (da_delivered_at a)))"

definition inboxes_true :: "simulator \<Rightarrow> bool" where
  "inboxes_true s =
     (bt_wf (sm_endpoints s) \<and>
      (\<forall>i. deliveries s i = (if delivered_event s i = None then 0 else 1)) \<and>
      (\<forall>d n. bt_get (sm_endpoints s) d = Some n \<longrightarrow> en_id n = d \<and>
         (\<forall>c \<in> set (en_control_inbox n). control_recorded s d c) \<and>
         (\<forall>a \<in> set (en_asset_inbox n). asset_recorded s d a)))"

lemma inboxes_same:
  assumes "sm_endpoints t = sm_endpoints s" "delivered_event t = delivered_event s"
  shows "inboxes_true t = inboxes_true s"
  unfolding inboxes_true_def deliveries_def control_recorded_def asset_recorded_def assms ..

lemma delivered_same: "sm_events t = sm_events s \<Longrightarrow> delivered_event t = delivered_event s"
  by (simp add: fun_eq_iff delivered_event_def)

lemma delivered_record [simp]:
  "delivered_event (record_trace a s) = delivered_event s"
  "delivered_event (update_endpoint i g s) = delivered_event s"
  by (rule delivered_same; simp)+

lemma delivered_filed:
  "delivered_event (filed i e s) = (delivered_event s)(i := (if ev_status e = Delivered then Some e else None))"
  by (auto simp: fun_eq_iff delivered_event_def bt_get_insert_always)

lemma delivered_generates: "generates es s t \<Longrightarrow> delivered_event t = delivered_event s"
proof (induction rule: generates.induct)
  case (gen_event es s t e n)
  have "delivered_event (generate e n t) = (delivered_event t)(ev_id e := None)"
    using gen_event.hyps(5) delivered_same [of "t\<lparr>sm_next_event := n\<rparr>" t]
    by (simp add: generate_filed made_event_def delivered_filed)
  also have "\<dots> = delivered_event t"
    using gen_event.hyps(2) by (auto simp: fun_eq_iff delivered_event_def)
  finally show ?case using gen_event.IH by simp
qed simp_all

lemma delivered_compose:
  assumes "compose D e s = (out, e', t)"
  shows "delivered_event t = delivered_event s"
  using assms
proof (cases rule: compose_effect)
  case (decided batch es)
  have "delivered_event (mark_resolved (ev_id e) s) = delivered_event s"
    by (rule delivered_same) (simp add: mark_resolved_def)
  with delivered_generates [OF decided(4)] show ?thesis by simp
qed simp

lemma delivered_retimed:
  assumes "retimed s t" shows "delivered_event t = delivered_event s"
proof
  fix i
  from assms have "retimed_event (event_at s i) (event_at t i)" by (simp add: retimed_def)
  then show "delivered_event t i = delivered_event s i"
    by (auto simp: retimed_event_def delivered_event_def)
qed

lemma delivered_admits: "admits s e t \<Longrightarrow> delivered_event t = delivered_event s"
  by (auto simp: fun_eq_iff delivered_event_def admits_fields(1)) (auto simp: admits_def)

lemma inbox_count_deliver:
  "inbox_count i (deliver_into e now late n) = inbox_count i n + (if ev_id e = i then 1 else 0)"
  by (cases e) (auto simp: inbox_count_def push_control_def push_asset_def control_record_def asset_record_def)

lemma deliveries_deliver:
  assumes "bt_wf (sm_endpoints s)" "bt_get (sm_endpoints s) d = Some n"
  shows "deliveries (update_endpoint d (deliver_into e now late) s) i =
    deliveries s i + (if ev_id e = i then 1 else 0)"
  using bt.sum_put [OF assms(1), of "\<lambda>p. inbox_count i (snd p)" d "deliver_into e now late n"] assms(2)
  by (simp add: deliveries_def update_endpoint_def inbox_count_deliver)

lemma deliver_into_inboxes:
  "c \<in> set (en_control_inbox (deliver_into e now late n)) \<longleftrightarrow>
     c \<in> set (en_control_inbox n) \<or> (\<exists>x. e = ControlE x \<and> c = control_record x now late)"
  "a \<in> set (en_asset_inbox (deliver_into e now late n)) \<longleftrightarrow>
     a \<in> set (en_asset_inbox n) \<or> (\<exists>x. e = AssetE x \<and> a = asset_record x now late)"
  by (cases e; auto simp: push_control_def push_asset_def)+

lemma inboxes_delivered:
  assumes "inboxes_true s" "delivered_event s i = None" "ev_id e = i"
    "bt_get (sm_endpoints s) (ev_destination e) = Some n"
  shows "inboxes_true (filed i (set_status Delivered e)
    (update_endpoint (ev_destination e) (deliver_into e now (late_at (ev_deadline e) now)) s))"
    (is "inboxes_true ?t")
proof -
  let ?d = "ev_destination e" and ?late = "late_at (ev_deadline e) now"
  have del: "delivered_event ?t = (delivered_event s)(i \<mapsto> set_status Delivered e)"
    by (simp add: delivered_filed)
  have wf: "bt_wf (sm_endpoints s)" using assms(1) by (simp add: inboxes_true_def)
  have old: "control_recorded ?t d c" if "control_recorded s d c" for d c
    using that assms(2) by (auto simp: control_recorded_def del)
  have old': "asset_recorded ?t d a" if "asset_recorded s d a" for d a
    using that assms(2) by (auto simp: asset_recorded_def del)
  have here: "delivered_event ?t i = Some (set_status Delivered e)" by (simp add: del)
  have new: "control_recorded ?t ?d (control_record x now ?late)" if "e = ControlE x" for x
    unfolding control_recorded_def
    by (rule exI [of _ "x\<lparr>ce_status := Delivered\<rparr>"])
       (use that assms(3) here in \<open>simp add: control_record_def\<close>)
  have new': "asset_recorded ?t ?d (asset_record x now ?late)" if "e = AssetE x" for x
    unfolding asset_recorded_def
    by (rule exI [of _ "x\<lparr>ae_status := Delivered\<rparr>"])
       (use that assms(3) here in \<open>simp add: asset_record_def\<close>)
  have "deliveries ?t j = (if delivered_event ?t j = None then 0 else 1)" for j
    using deliveries_deliver [OF wf assms(4), of e now ?late j] assms(1-3)
    by (cases "j = i") (simp_all add: inboxes_true_def del, simp_all add: deliveries_def)
  moreover have "bt_wf (sm_endpoints ?t)"
    using wf by (simp add: update_endpoint_def split: option.split)
  moreover have "en_id m = d \<and> (\<forall>c \<in> set (en_control_inbox m). control_recorded ?t d c) \<and>
      (\<forall>a \<in> set (en_asset_inbox m). asset_recorded ?t d a)"
    if "bt_get (sm_endpoints ?t) d = Some m" for d m
    using that assms(1) old old' new new'
    by (auto simp: endpoint_updated inboxes_true_def deliver_into_inboxes split: if_splits)
  ultimately show ?thesis unfolding inboxes_true_def by blast
qed

section \<open>The invariant\<close>

lemma trace_only [simp]:
  "inboxes_true (record_trace a s) = inboxes_true s" "held_blocked (record_trace a s) = held_blocked s"
  "endpoint_known (record_trace a s) = endpoint_known s"
  "endpoint_known (filed i e s) = endpoint_known s"
  by (simp_all add: inboxes_same [of "record_trace a s" s] held_blocked_def
      stands_same [of "record_trace a s" s] fun_eq_iff endpoint_known_def)

definition transport_inv :: "simulator \<Rightarrow> bool" where
  "transport_inv s = (books s \<and> destinations_known s \<and> held_blocked s \<and> inboxes_true s)"

lemma transport_deliver:
  assumes "deliver_next D s = (Some i, s')" "transport_inv s"
  shows "transport_inv s'"
proof -
  have b: "books s" and k: "destinations_known s" and h: "held_blocked s" and n: "inboxes_true s"
    using assms(2) by (simp_all add: transport_inv_def)
  from assms(1) b show ?thesis
  proof (rule deliver_next_cases)
    fix e0 e v out e' t
    assume d: "event_at s i = Some e0" "ev_status e0 = Scheduled" "event_at v = event_at s"
      "sm_endpoints v = sm_endpoints s" "sm_lanes v = sm_lanes s" "sm_held v = sm_held s"
      "compose D e v = (out, e', t)" "s' = conclude i out e' t" "books_but {i} t"
      "ev_id e' = i" "event_at t i = Some e0"
    have t: "sm_endpoints t = sm_endpoints s" "sm_lanes t = sm_lanes s" "sm_held t = sm_held s"
      using compose_kept [OF d(7)] d by simp_all
    have kt: "endpoint_known t = endpoint_known s"
      using t(1) by (simp add: endpoint_known_def [abs_def])
    have dv: "delivered_event v = delivered_event s"
      using d(3) by (simp add: fun_eq_iff delivered_event_def)
    have dt: "delivered_event t = delivered_event s" "delivered_event t i = None"
      using delivered_compose [OF d(7)] dv d(1,2) by (simp_all add: delivered_event_def)
    have nt: "inboxes_true t" using n inboxes_same [OF t(1) dt(1)] by simp
    have undelivered: "inboxes_true (filed i x t)" if "ev_status x \<noteq> Delivered" for x
      using nt that dt(2) by (subst inboxes_same [of _ t]) (auto simp: delivered_filed)
    have others: "event_at s j = Some x \<Longrightarrow> event_at t j = Some x" for j x
      using d(3,7) by (auto elim!: compose_effect dest!: generates_event_at [of _ _ _ j x]
          simp: mark_resolved_def)
    have i: "i \<notin> set (sm_held s)"
      using books_events(6) [OF b, of i] d(1,2) by auto
    have hf: "held_blocked (filed i x u)"
      if "ev_status x = Blocked \<Longrightarrow> stands_in_the_way t x" "sm_lanes u = sm_lanes t" "sm_held u = sm_held t"
        "event_at u = event_at t" "\<And>y. stands_in_the_way u y = stands_in_the_way t y" for x u
    proof -
      have w: "stands_in_the_way (filed i x u) y = stands_in_the_way t y" for y
        using that(5) stands_same [of "filed i x u" u] by simp
      have "stands_in_the_way t y = stands_in_the_way s y" for y
        using t by (intro stands_same)
      then have "\<exists>y. event_at (filed i x u) j = Some y \<and> stands_in_the_way (filed i x u) y"
        if "j \<in> set (sm_held s)" for j
        using h that others i \<open>event_at u = event_at t\<close>
        by (auto simp: held_blocked_def bt_get_insert_always w split: if_splits)
      then show ?thesis
        using that(1,3) t(3) by (auto simp: held_blocked_def w bt_get_insert_always split: if_splits)
    qed
    have hft: "held_blocked (filed i x t)" if "ev_status x = Blocked \<Longrightarrow> stands_in_the_way t x" for x
      using that by (intro hf) simp_all
    have "books s'" by (rule books_deliver_next [OF assms(1) b])
    moreover have "inboxes_true s' \<and> held_blocked s' \<and> endpoint_known s' = endpoint_known s"
      using d(10)
    proof (cases rule: conclude_cases [of e' i out t])
      case (settled st a)
      then have "inboxes_true (filed i (set_status st e') t)" "held_blocked (filed i (set_status st e') t)"
        by (auto intro!: hft undelivered)
      with settled(2) t(1) d(8) show ?thesis by (simp add: kt)
    next
      case (delayed d')
      with t(1) d(8) hft [of "set_deliver_at d' (set_status Scheduled e')"] show ?thesis
        by (simp add: undelivered kt)
    next
      case (blocked a)
      with t(1) d(8) hft [of "set_status Blocked e'"] show ?thesis
        by (simp add: undelivered kt)
    next
      case (delivered a endpoint)
      have "held_blocked (filed i (set_status Delivered e') (update_endpoint (ev_destination e')
          (deliver_into e' (sm_now t) (late_at (ev_deadline e') (sm_now t))) t))"
        by (rule hf) simp_all
      with delivered(1) inboxes_delivered [OF nt dt(2) d(10) delivered(2)] t(1) d(8) show ?thesis
        by (simp add: kt)
    qed
    moreover have "dest.all_good (endpoint_known s) s'"
      using k dest.deliver_good [OF assms(1) b, of "endpoint_known s"]
      by (simp add: destinations_known_good endpoint_known_def)
    ultimately show "transport_inv s'"
      by (simp add: transport_inv_def destinations_known_good)
  qed
qed

lemma transport_admits:
  assumes "admits s e t" "transport_inv s"
  shows "transport_inv t"
proof -
  note f = admits_fields [OF assms(1)]
  have w: "stands_in_the_way t x = stands_in_the_way s x" for x using f by (intro stands_same)
  have i: "event_at s (ev_id e) = None" "endpoint_known s (ev_destination e)"
    using assms(1) by (simp_all add: admits_def endpoint_known_def)
  have "books t" using books_admits [OF assms(1)] assms(2) by (simp add: transport_inv_def)
  moreover have "destinations_known t"
    using assms(2) f i by (auto simp: transport_inv_def destinations_known_def endpoint_known_def)
  moreover have "held_blocked t"
    using assms(2) f(4) i(1) by (force simp: transport_inv_def held_blocked_def f(1) w)
  moreover have "inboxes_true t"
    using assms(2) inboxes_same [OF f(2) delivered_admits [OF assms(1)]] by (simp add: transport_inv_def)
  ultimately show ?thesis by (simp add: transport_inv_def)
qed

text \<open>Moves and releases.\<close>

lemma destinations_retimed:
  assumes "retimed s t" "destinations_known s" shows "destinations_known t"
proof -
  have "endpoint_known t = endpoint_known s"
    using assms(1) by (simp add: retimed_def endpoint_known_def [abs_def])
  with dest.retimed_good [OF assms(1), of "endpoint_known s"] assms(2) show ?thesis
    by (simp add: destinations_known_good)
qed

lemma inboxes_retimed: "retimed s t \<Longrightarrow> inboxes_true t = inboxes_true s"
  using delivered_retimed by (intro inboxes_same) (auto simp: retimed_def)

lemma transport_retimed:
  assumes "retimed s t" "books t" "set (sm_held t) = set (sm_held s)" "transport_inv s"
  shows "transport_inv t"
proof -
  have w: "stands_in_the_way t x = stands_in_the_way s x" for x
    using assms(1) by (intro stands_same) (simp_all add: retimed_def)
  have "\<exists>e. event_at t i = Some e \<and> stands_in_the_way s e"
    if "event_at s i = Some e" "stands_in_the_way s e" for i e
  proof -
    have "retimed_event (event_at s i) (event_at t i)" using assms(1) by (simp add: retimed_def)
    with that show ?thesis by (auto simp: retimed_event_def)
  qed
  then have "held_blocked t"
    using assms(3,4) unfolding transport_inv_def held_blocked_def w by metis
  with assms destinations_retimed inboxes_retimed show ?thesis
    by (auto simp: transport_inv_def)
qed

text \<open>
  Before a release the held events may have a clear path; the release takes exactly those
  out.
\<close>

lemma transport_release:
  assumes "release_held s = (m, t)" "books s" "destinations_known s" "inboxes_true s"
  shows "transport_inv t"
proof -
  note r = release_held_books [OF assms(1,2)]
  have w: "stands_in_the_way t x = stands_in_the_way s x" for x
    using r(2) by (intro stands_same) (simp_all add: retimed_def)
  have "\<exists>e. event_at t i = Some e \<and> stands_in_the_way t e" if i: "i \<in> set (sm_held t)" for i
  proof -
    have "i \<in> set (sm_held s)" "\<not> path_is_clear s i" using i r(3) by auto
    moreover from this obtain e where e: "event_at s i = Some e"
      using books_events(6) [OF assms(2), of i] by auto
    moreover have "endpoint_known s (ev_destination e)"
      using assms(3) e by (auto simp: destinations_known_def)
    ultimately show ?thesis using r(4) [OF i] path_not_clear w by auto
  qed
  with r(1) destinations_retimed [OF r(2) assms(3)] inboxes_retimed [OF r(2)] assms(4) show ?thesis
    by (simp add: transport_inv_def held_blocked_def)
qed

text \<open>Changes to lanes and endpoints.\<close>

lemma endpoint_state_kept [simp]:
  "en_control_inbox (set_state st n) = en_control_inbox n" "en_asset_inbox (set_state st n) = en_asset_inbox n"
  "en_id (set_state st n) = en_id n"
  by (simp_all add: set_state_def)

lemma inboxes_set_state:
  assumes "inboxes_true s" shows "inboxes_true (update_endpoint d (set_state st) s)"
proof (cases "bt_get (sm_endpoints s) d")
  case None
  then show ?thesis using assms by (simp add: update_endpoint_def)
next
  case (Some n)
  let ?t = "update_endpoint d (set_state st) s"
  have wf: "bt_wf (sm_endpoints s)" using assms by (simp add: inboxes_true_def)
  have "deliveries ?t i = deliveries s i" for i
    using bt.sum_put [OF wf, of "\<lambda>p. inbox_count i (snd p)" d "set_state st n"] Some
    by (simp add: deliveries_def update_endpoint_def inbox_count_def)
  moreover have "control_recorded ?t = control_recorded s" "asset_recorded ?t = asset_recorded s"
    by (simp_all add: fun_eq_iff control_recorded_def asset_recorded_def)
  moreover have "bt_wf (sm_endpoints ?t)"
    using wf Some by (simp add: update_endpoint_def)
  ultimately show ?thesis
    using assms Some by (auto simp: inboxes_true_def endpoint_updated split: if_splits)
qed

lemma books_endpoint [simp]: "books_but X (update_endpoint d g s) = books_but X s"
  by (rule books_same) simp_all

lemma destinations_endpoint [simp]: "destinations_known (update_endpoint d g s) = destinations_known s"
  by (simp add: destinations_known_def)

lemma held_worse:
  assumes "held_blocked s" "sm_held t = sm_held s" "sm_events t = sm_events s"
    "\<And>e. stands_in_the_way s e \<Longrightarrow> stands_in_the_way t e"
  shows "held_blocked t"
  using assms by (force simp: held_blocked_def)

lemma transport_halt:
  assumes "transport_inv s"
  shows "transport_inv (update_endpoint d (set_state EndpointStopped) s)"
proof -
  have "stands_in_the_way (update_endpoint d (set_state EndpointStopped) s) e" if "stands_in_the_way s e" for e
    using that by (auto simp: stands_in_the_way_def lane_state_of_def endpoint_updated is_halted_def set_state_def)
  then show ?thesis
    using assms by (auto simp: transport_inv_def intro: inboxes_set_state held_worse)
qed

lemma transport_pause:
  assumes "transport_inv s"
  shows "transport_inv (s\<lparr>sm_lanes := bt_insert l LanePaused (sm_lanes s)\<rparr>)" (is "transport_inv ?t")
proof -
  have "stands_in_the_way ?t e" if "stands_in_the_way s e" for e
    using that by (auto simp: stands_in_the_way_def lane_state_of_def bt_get_insert_always lane_is_paused_def)
  then show ?thesis
    using assms held_worse [of s ?t] inboxes_same [of ?t s] delivered_same [of ?t s] books_same [of ?t s]
    by (simp add: transport_inv_def destinations_known_def endpoint_known_def)
qed

lemma transport_add_endpoint:
  assumes "transport_inv s" "add_endpoint i s = (Inr (), t)"
  shows "transport_inv t"
proof -
  have t: "t = s\<lparr>sm_endpoints := bt_insert i (endpoint_new i) (sm_endpoints s)\<rparr>"
    "bt_get (sm_endpoints s) i = None"
    using assms(2) by (auto simp: add_endpoint_def bt_contains_def split: if_splits)
  have n: "inboxes_true s" and wf: "bt_wf (sm_endpoints s)"
    using assms(1) by (simp_all add: transport_inv_def inboxes_true_def)
  have d: "delivered_event t = delivered_event s" using t by (intro delivered_same) simp
  have "deliveries t j = deliveries s j" for j
    using bt.sum_put [OF wf, of "\<lambda>p. inbox_count j (snd p)" i "endpoint_new i"] t
    by (simp add: deliveries_def inbox_count_def endpoint_new_def)
  moreover have "control_recorded t = control_recorded s" "asset_recorded t = asset_recorded s"
    by (simp_all add: fun_eq_iff control_recorded_def asset_recorded_def d)
  moreover have "sm_endpoints t = bt_insert i (endpoint_new i) (sm_endpoints s)" using t by simp
  ultimately have "inboxes_true t"
    using n wf by (auto simp: inboxes_true_def bt_get_insert_always endpoint_new_def d)
  moreover have "books t" using assms(1) books_same [of t s] t by (simp add: transport_inv_def)
  moreover have "destinations_known t"
    using assms(1) t by (auto simp: transport_inv_def destinations_known_def endpoint_known_def
        bt_contains_def bt_get_insert_always)
  moreover have "held_blocked t"
    by (rule held_worse [of s])
       (use assms(1) t in \<open>auto simp: transport_inv_def stands_in_the_way_def lane_state_of_def
         bt_get_insert_always\<close>)
  ultimately show ?thesis by (simp add: transport_inv_def)
qed

lemma transport_same:
  assumes "sm_events t = sm_events s" "sm_queue t = sm_queue s" "sm_held t = sm_held s"
    "sm_resolved t = sm_resolved s" "sm_next_event t = sm_next_event s"
    "sm_endpoints t = sm_endpoints s" "sm_lanes t = sm_lanes s"
  shows "transport_inv t = transport_inv s"
  using assms books_same [OF assms(1-5)] inboxes_same [OF assms(6) delivered_same [OF assms(1)]]
    stands_same [OF assms(7,6)]
  by (simp add: transport_inv_def destinations_known_def endpoint_known_def held_blocked_def)

lemma transport_record [simp]: "transport_inv (record_trace a s) = transport_inv s"
  by (rule transport_same) simp_all

lemma transport_step:
  assumes "sim_step D s t" "transport_inv s"
  shows "transport_inv t"
  using assms
proof (induction rule: sim_step.induct)
  case (step_control r s i t)
  then show ?case using schedule_control_admits transport_admits by blast
next
  case (step_asset a s i t)
  then show ?case using schedule_asset_admits transport_admits by blast
next
  case (step_fault f s t)
  then have "t = s\<lparr>sm_plan := plan_insert f (sm_plan s)\<rparr>"
    by (auto simp: add_fault_def m_simps split: if_splits)
  with step_fault transport_same [of t s] show ?case by simp
next
  case (step_advance d s t)
  then have "transport_inv t = transport_inv s"
    by (intro transport_same) (auto simp: advance_to_def split: if_splits)
  with step_advance show ?case by simp
next
  case (step_halt e s t)
  then have "t = record_trace (EndpointHalted e) (update_endpoint e (set_state EndpointStopped) s)"
    by (auto simp: halt_endpoint_def split: if_splits)
  with step_halt transport_halt [of s e] show ?case by simp
next
  case (step_resume e s t)
  obtain m u where u: "release_held (update_endpoint e (set_state EndpointActive) s) = (m, u)" by fastforce
  then have "t = record_trace (EndpointResumed e m) u"
    using step_resume by (auto simp: resume_endpoint_def split: if_splits)
  moreover have "transport_inv u"
    using step_resume(2) by (intro transport_release [OF u]) (auto simp: transport_inv_def intro: inboxes_set_state)
  ultimately show ?case by simp
next
  case (step_pause_lane s l)
  then show ?case using transport_pause [of s l] by (simp add: pause_lane_def)
next
  case (step_resume_lane s l)
  let ?s = "s\<lparr>sm_lanes := bt_insert l LaneRunning (sm_lanes s)\<rparr>"
  obtain m u where u: "release_held ?s = (m, u)" by fastforce
  then have "resume_lane l s = record_trace (LaneResumed l m) u" by (simp add: resume_lane_def)
  moreover have "transport_inv u"
    using step_resume_lane books_same [of ?s s] inboxes_same [of ?s s] delivered_same [of ?s s]
    by (intro transport_release [OF u]) (auto simp: transport_inv_def destinations_known_def endpoint_known_def)
  ultimately show ?case by simp
next
  case (step_swap l r s t)
  then have "books s" by (simp add: transport_inv_def)
  from swap_books [OF this step_swap(1)] step_swap(2) show ?case by (auto intro: transport_retimed)
next
  case (step_before l r s t)
  then have "books s" by (simp add: transport_inv_def)
  from move_books [OF this] step_before show ?case by (blast intro: transport_retimed)
next
  case (step_after l r s t)
  then have "books s" by (simp add: transport_inv_def)
  from move_books [OF this] step_after show ?case by (blast intro: transport_retimed)
qed (auto intro: transport_add_endpoint transport_deliver)

lemma transport_new:
  assumes "with_config c eps = Inr s" shows "transport_inv s"
proof -
  let ?P = "\<lambda>m. bt_wf m \<and> (\<forall>d n. bt_get m d = Some n \<longrightarrow> n = endpoint_new d)"
  from assms obtain m where m: "for_each add_new_endpoint eps [] = Inr m" "sm_endpoints s = m"
    "sm_events s = []" "sm_queue s = []" "sm_held s = []" "sm_resolved s = []"
    by (auto simp: with_config_def result_simps split: if_splits)
  have P: "?P m"
    by (rule for_each_invariant [OF m(1)])
       (auto simp: add_new_endpoint_def bt_get_insert_always split: if_splits)
  have "inbox_count i (snd p) = 0" if "p \<in> set m" for p i
  proof -
    have "snd p = endpoint_new (fst p)"
      using that P bt.in_entries [of m "fst p" "snd p"] by simp
    then show ?thesis by (simp add: inbox_count_def endpoint_new_def)
  qed
  then have "deliveries s i = 0" for i
    by (simp add: deliveries_def m(2) sum_list_nonneg_eq_0_iff)
  moreover have "delivered_event s i = None" for i by (simp add: delivered_event_def m(3))
  moreover have "en_id n = d \<and> en_control_inbox n = [] \<and> en_asset_inbox n = []"
    if "bt_get m d = Some n" for d n
  proof -
    have "n = endpoint_new d" using that P by blast
    then show ?thesis by (simp add: endpoint_new_def)
  qed
  ultimately have "inboxes_true s"
    using m(2) P by (simp add: inboxes_true_def)
  moreover have "books s" by (rule booksI) (simp_all add: m(3-6))
  ultimately show ?thesis
    by (simp add: transport_inv_def destinations_known_def held_blocked_def m(3,5))
qed

lemma transport_reachable: "sim_reachable D s \<Longrightarrow> transport_inv s"
  by (induction rule: reachable_invariant) (auto intro: transport_new transport_step)

end
