(* ===== verification/Sim_Content.thy ===== *)
theory Sim_Content
  imports Sim_Transport
begin

text \<open>
  What the transport delivers: true identities and recorded edits, amounts within the
  request unless marked, nothing that was not sent, and no more value than was sent unless
  a declared fault makes some. Each is an interpretation of \<open>event_property\<close> or an
  invariant over the sums of all events.
\<close>

section \<open>Identities and edits of control messages\<close>

definition restored :: "bytes \<Rightarrow> byte_mutation option \<Rightarrow> bytes" where
  "restored bs mutation = (case mutation of None \<Rightarrow> bs | Some m \<Rightarrow> bs[bm_offset m := bm_from m])"

definition original_bytes :: "control_event \<Rightarrow> bytes" where
  "original_bytes c = restored (ce_bytes c) (ce_mutation c)"

definition edit_recorded :: "'h digest \<Rightarrow> bytes \<Rightarrow> wire_message_id \<Rightarrow> byte_mutation option \<Rightarrow> bool" where
  "edit_recorded D bs i mutation =
     (i = message_identity D bs \<and>
      (case mutation of
         None \<Rightarrow> True
       | Some m \<Rightarrow> bm_offset m < length bs \<and> bs ! bm_offset m = bm_to m \<and> bm_from m \<noteq> bm_to m \<and>
           bm_original_message_id m = message_identity D (restored bs mutation)))"

fun truthful :: "'h digest \<Rightarrow> sim_event \<Rightarrow> bool" where
  "truthful D (AssetE a) = True"
| "truthful D (ControlE c) = edit_recorded D (ce_bytes c) (ce_message_id c) (ce_mutation c)"

lemma truthful_setters [simp]:
  "truthful D (set_status st e) = truthful D e" "truthful D (set_deliver_at t e) = truthful D e"
  "truthful D (bump_attempts e) = truthful D e" "truthful D (set_destination d e) = truthful D e"
  "truthful D (clone_for_duplicate e i t) = truthful D e" "truthful D (set_delivered x b e) = truthful D e"
  by (cases e; simp)+

lemma truthful_first_piece [simp]: "truthful D (first_piece ps e) = truthful D e"
  by (cases e; cases ps) simp_all

lemma corrupted_asset: "(\<And>c. e \<noteq> ControlE c) \<Longrightarrow> corrupted D n m e = e"
  by (cases e) (blast, simp)

lemma xor_flip_ne:
  fixes x m :: "8 word" shows "m \<noteq> 0 \<Longrightarrow> xor x m \<noteq> x"
  by (metis xor.left_neutral xor_self_eq xor.assoc)

lemma corrupted_control:
  assumes "offset < length (ce_bytes c)" "ce_mutation c = None"
  obtains c' where "corrupted D offset flip (ControlE c) = ControlE c'" "original_bytes c' = ce_bytes c"
    "ce_source c' = ce_source c" "ce_intended_destination c' = ce_intended_destination c"
    "ce_expires_at c' = ce_expires_at c" "ce_bytes c' = (ce_bytes c)[offset := xor (ce_bytes c ! offset) flip]"
    "ce_message_id c' = message_identity D (ce_bytes c')"
    "ce_mutation c' = Some \<lparr>bm_offset = offset, bm_from = ce_bytes c ! offset,
       bm_to = xor (ce_bytes c ! offset) flip, bm_original_message_id = ce_message_id c\<rparr>"
  using assms by (auto simp: Let_def original_bytes_def restored_def)

interpretation truth: event_property D "truthful D" "\<lambda>_. True" for D
proof
  fix e s a assume e: "truthful D e" and a: "check_action s a e = None"
  show "truthful D (act_on D a e)"
  proof (cases "\<exists>offset flip c. a = CorruptByte offset flip \<and> e = ControlE c")
    case False
    with e show ?thesis by (cases a) (auto simp: act_on_def corrupted_asset)
  next
    case True
    then obtain offset flip c where f: "a = CorruptByte offset flip" "e = ControlE c" by blast
    with a have ok: "flip \<noteq> 0" "ce_mutation c = None" "offset < length (ce_bytes c)"
      by (auto simp: check_action_def then_some_def split: if_splits)
    obtain c' where c': "corrupted D offset flip (ControlE c) = ControlE c'" "original_bytes c' = ce_bytes c"
      "ce_bytes c' = (ce_bytes c)[offset := xor (ce_bytes c ! offset) flip]"
      "ce_message_id c' = message_identity D (ce_bytes c')"
      "ce_mutation c' = Some \<lparr>bm_offset = offset, bm_from = ce_bytes c ! offset,
         bm_to = xor (ce_bytes c ! offset) flip, bm_original_message_id = ce_message_id c\<rparr>"
      by (rule corrupted_control [OF ok(3,2)])
    then show ?thesis
      using f e ok xor_flip_ne [OF ok(1), of "ce_bytes c ! offset"]
      by (auto simp: act_on_def edit_recorded_def original_bytes_def)
  qed
qed (simp_all)

section \<open>Amounts\<close>

lemma sum_pieces_from_Some: "sum_pieces_from acc ps = Some t \<Longrightarrow> unat t = unat acc + sum_list (map unat ps)"
  by (induction ps arbitrary: acc) (auto simp: amount_simps split: option.splits)

lemma sum_pieces_Some: "sum_pieces ps = Some t \<Longrightarrow> unat t = sum_list (map unat ps)"
  unfolding sum_pieces_def by (drule sum_pieces_from_Some) simp

lemma split_checked:
  assumes "check_action s (Split ps spacing) (AssetE a) = None"
  shows "ps \<noteq> []" "0 \<notin> set ps" "sum_list (map unat ps) \<le> unat (ae_requested a)"
proof -
  from assms obtain t where t: "ps \<noteq> []" "0 \<notin> set ps" "sum_pieces ps = Some t" "\<not> ae_requested a < t"
    by (auto simp: check_action_def then_some_def split: if_splits option.splits)
  then show "ps \<noteq> []" "0 \<notin> set ps" "sum_list (map unat ps) \<le> unat (ae_requested a)"
    using sum_pieces_Some [OF t(3)] by (auto simp: word_less_nat_alt)
qed

lemma piece_within: "p \<in> set ps \<Longrightarrow> unat p \<le> sum_list (map unat ps)"
  by (simp add: member_le_sum_list)

fun amount_ok :: "sim_event \<Rightarrow> bool" where
  "amount_ok (ControlE c) = True"
| "amount_ok (AssetE a) =
     (ae_delivered a \<noteq> 0 \<and> (\<not> ae_over_delivered a \<longrightarrow> ae_delivered a \<le> ae_requested a))"

lemma amount_ok_setters [simp]:
  "amount_ok (set_status st e) = amount_ok e" "amount_ok (set_deliver_at t e) = amount_ok e"
  "amount_ok (bump_attempts e) = amount_ok e" "amount_ok (set_destination d e) = amount_ok e"
  "amount_ok (clone_for_duplicate e i t) = amount_ok e"
  by (cases e; simp)+

lemma first_piece_asset:
  assumes "first_piece ps e = AssetE origin" "check_action s (Split ps spacing) e = None"
  obtains a where "e = AssetE a" "origin = a\<lparr>ae_delivered := hd ps, ae_piece := Some 0\<rparr>" "ps \<noteq> []"
    "0 \<notin> set ps" "sum_list (map unat ps) \<le> unat (ae_requested a)"
proof (cases e)
  case (ControlE c)
  with assms(1) show ?thesis by (cases ps) auto
next
  case (AssetE a)
  with assms split_checked [of s ps spacing a] show ?thesis
    by (cases ps) (auto intro: that [of a])
qed

interpretation amounts: event_property D amount_ok "\<lambda>_. True" for D
proof
  fix e s a assume e: "amount_ok e" and a: "check_action s a e = None"
  show "amount_ok (act_on D a e)"
  proof (cases e)
    case (ControlE c)
    have "\<exists>c'. act_on D a e = ControlE c'"
      using ControlE by (cases a) (auto simp: act_on_def Let_def)
    then show ?thesis by auto
  next
    case (AssetE x)
    show ?thesis
    proof (cases a)
      case (Split ps spacing)
      with a AssetE split_checked [of s ps spacing x]
      have ps: "ps \<noteq> []" "0 \<notin> set ps" "sum_list (map unat ps) \<le> unat (ae_requested x)" by auto
      then have "hd ps \<in> set ps" by simp
      with ps(2) have "hd ps \<noteq> 0" by metis
      moreover have "hd ps \<le> ae_requested x"
        using piece_within [OF \<open>hd ps \<in> set ps\<close>] ps(3) by (simp add: word_le_nat_alt)
      ultimately show ?thesis using Split AssetE ps(1) by (cases ps) (auto simp: act_on_def)
    qed (use e a AssetE in \<open>auto simp: act_on_def check_action_def then_some_def split: if_splits\<close>)
  qed
next
  fix e s ps spacing origin amount i t x
  assume p: "check_action s (Split ps spacing) e = None" "first_piece ps e = AssetE origin" "amount \<in> set ps"
  obtain a where "e = AssetE a" "origin = a\<lparr>ae_delivered := hd ps, ae_piece := Some 0\<rparr>" "0 \<notin> set ps"
    "sum_list (map unat ps) \<le> unat (ae_requested a)"
    by (rule first_piece_asset [OF p(2,1)])
  with p(3) piece_within [OF p(3)] show "amount_ok (AssetE (piece_event origin i t amount x))"
    by (auto simp: piece_event_def word_le_nat_alt)
qed simp_all

section \<open>Provenance\<close>

text \<open>
  \<open>authentic ops e\<close>: undoing the recorded edit, the event carries what one of the requests of
  \<open>ops\<close> asked to be sent, with its sender, its addressee and its deadline.
\<close>

fun authentic :: "sim_operation list \<Rightarrow> sim_event \<Rightarrow> bool" where
  "authentic ops (ControlE c) =
     (\<exists>r. ScheduleControl r \<in> set ops \<and> original_bytes c = cr_bytes r \<and> ce_source c = cr_source r \<and>
        ce_intended_destination c = cr_destination r \<and> ce_expires_at c = cr_expires_at r)"
| "authentic ops (AssetE a) =
     (\<exists>r. ScheduleAsset r \<in> set ops \<and> ae_transfer a = ar_transfer r \<and> ae_requested a = ar_amount r \<and>
        ae_source a = ar_source r \<and> ae_intended_destination a = ar_destination r \<and>
        ae_timeout_at a = ar_timeout_at r)"

lemma authentic_setters [simp]:
  "authentic ops (set_status st e) = authentic ops e" "authentic ops (set_deliver_at t e) = authentic ops e"
  "authentic ops (bump_attempts e) = authentic ops e" "authentic ops (set_destination d e) = authentic ops e"
  "authentic ops (clone_for_duplicate e i t) = authentic ops e"
  "authentic ops (set_delivered x b e) = authentic ops e"
  by (cases e; simp add: original_bytes_def)+

lemma authentic_first_piece [simp]: "authentic ops (first_piece ps e) = authentic ops e"
  by (cases e; cases ps) simp_all

interpretation provenance: event_property D "authentic ops" "\<lambda>_. True" for D ops
proof
  fix e s a assume e: "authentic ops e" and a: "check_action s a e = None"
  show "authentic ops (act_on D a e)"
  proof (cases "\<exists>offset flip c. a = CorruptByte offset flip \<and> e = ControlE c")
    case False
    with e show ?thesis by (cases a) (auto simp: act_on_def corrupted_asset)
  next
    case True
    then obtain offset flip c where f: "a = CorruptByte offset flip" "e = ControlE c" by blast
    with a have ok: "ce_mutation c = None" "offset < length (ce_bytes c)"
      by (auto simp: check_action_def then_some_def split: if_splits)
    obtain c' where "corrupted D offset flip (ControlE c) = ControlE c'" "original_bytes c' = ce_bytes c"
      "ce_source c' = ce_source c" "ce_intended_destination c' = ce_intended_destination c"
      "ce_expires_at c' = ce_expires_at c"
      by (rule corrupted_control [OF ok(2,1)])
    moreover have "original_bytes c = ce_bytes c" using ok(1) by (simp add: original_bytes_def restored_def)
    ultimately show ?thesis using e f by (auto simp: act_on_def)
  qed
next
  fix e s ps spacing origin amount i t x
  assume "authentic ops e" "first_piece ps e = AssetE origin"
  then have "authentic ops (AssetE origin)" by (metis authentic_first_piece)
  then show "authentic ops (AssetE (piece_event origin i t amount x))" by (simp add: piece_event_def)
qed simp_all

section \<open>Runs of operations keep a property of events\<close>

context event_property
begin

lemma same_events_good: "sm_events t = sm_events s \<Longrightarrow> all_good t = all_good s"
  by (simp add: all_good_def)

lemma run_steps_good:
  assumes "run_steps D s t" "transport_inv s" "all_good s" "\<And>d. known d"
  shows "all_good t"
proof -
  have "transport_inv t \<and> all_good t"
    using assms(1)
  proof (induction rule: rtranclp_induct)
    case base
    then show ?case using assms by simp
  next
    case (step u v)
    have "all_good v"
      using step.hyps(2)
    proof (cases rule: run_step.cases)
      case (run_advance d)
      then have "sm_events v = sm_events u" by (auto simp: advance_to_def split: if_splits)
      with step.IH show ?thesis using same_events_good [of v u] by simp
    next
      case (run_deliver i)
      then show ?thesis
        using step.IH assms(4) deliver_good by (auto simp: transport_inv_def)
    qed
    moreover have "transport_inv v"
      using transport_step [OF run_step_sim [OF step.hyps(2)]] step.IH by simp
    ultimately show ?case by simp
  qed
  then show ?thesis by simp
qed

text \<open>An operation other than scheduling leads by loop steps or by retiming.\<close>

lemma sim_apply_good:
  assumes "sim_apply D op s = (r, t)" "transport_inv s" "all_good s" "\<And>d. known d"
    "\<And>r i. op = ScheduleControl r \<Longrightarrow> cr_bytes r \<noteq> [] \<Longrightarrow> good (control_of D r i)"
    "\<And>r i. op = ScheduleAsset r \<Longrightarrow> ar_amount r \<noteq> 0 \<Longrightarrow> good (asset_of r i)"
  shows "all_good t"
proof (cases r)
  case (Inl e)
  with assms(1) have "t = s" using sim_apply_refused by blast
  with assms(3) show ?thesis by simp
next
  case (Inr u)
  then have op: "sim_apply D op s = (Inr (), t)" using assms(1) by simp
  have b: "books s" using assms(2) by (simp add: transport_inv_def)
  have ev: ?thesis if "sm_events t = sm_events s" using assms(3) same_events_good [OF that] by simp
  have re: ?thesis if "retimed v w" "sm_events v = sm_events s" "sm_events t = sm_events w" for v w
    using that assms(3) same_events_good [of v s] same_events_good [of t w] retimed_good [of v w] by simp
  have run: ?thesis if "run_steps D s t" using that assms(2-4) by (rule run_steps_good)
  have release: "books v \<Longrightarrow> release_held v = (m, w) \<Longrightarrow> retimed v w" for v w m
    using release_held_books(2) by blast
  show ?thesis
  proof (cases op)
    case (ScheduleControl q)
    with op obtain i where "schedule_control D q s = (Inr i, t)" by (auto simp: ignore_result_Inr)
    with schedule_control_admits [OF this] ScheduleControl assms(3,5) show ?thesis
      using admits_good by blast
  next
    case (ScheduleAsset q)
    with op obtain i where "schedule_asset q s = (Inr i, t)" by (auto simp: ignore_result_Inr)
    with schedule_asset_admits [OF this] ScheduleAsset assms(3,6) show ?thesis
      using admits_good by blast
  next
    case (AddFault f)
    with op have "sm_events t = sm_events s" by (auto simp: add_fault_def m_simps split: if_splits)
    then show ?thesis by (rule ev)
  next
    case (AdvanceBy n)
    with op have "sm_events t = sm_events s"
      by (auto simp: advance_by_def m_simps advance_to_def split: if_splits)
    then show ?thesis by (rule ev)
  next
    case (AdvanceTo n)
    with op have "sm_events t = sm_events s" by (auto simp: advance_to_def split: if_splits)
    then show ?thesis by (rule ev)
  next
    case DeliverNext
    obtain i v where v: "deliver_next D s = (i, v)" by fastforce
    with op DeliverNext have "run_steps D s t"
      using deliver_next_None [of D s v] by (cases i) (auto intro: run_deliver)
    then show ?thesis by (rule run)
  next
    case DeliverReady
    obtain n v where "deliver_ready D s = (n, v)" by fastforce
    with op DeliverReady have "run_steps D s t" using deliver_ready_steps(1) by fastforce
    then show ?thesis by (rule run)
  next
    case RunUntilIdle
    obtain n v where "run_until_idle D s = (n, v)" by fastforce
    with op RunUntilIdle have "run_steps D s t"
      using run_until_idle_loop_steps [of D 0 s n v] by (auto simp: run_until_idle_def)
    then show ?thesis by (rule run)
  next
    case (RunUntil d)
    have "sm_now s \<le> d" using op RunUntil by (auto simp: ignore_result_Inr run_until_def split: if_splits)
    then obtain n v where "run_until D d s = (Inr n, v)" "run_steps D s v" by (rule run_until_steps)
    with op RunUntil have "run_steps D s t" by (auto simp: ignore_result_Inr)
    then show ?thesis by (rule run)
  next
    case (HaltEndpoint d)
    with op have "sm_events t = sm_events s" by (auto simp: halt_endpoint_def split: if_splits)
    then show ?thesis by (rule ev)
  next
    case (ResumeEndpoint d)
    let ?v = "update_endpoint d (set_state EndpointActive) s"
    obtain m w where w: "release_held ?v = (m, w)" by fastforce
    with op ResumeEndpoint have "sm_events t = sm_events w" by (auto simp: resume_endpoint_def split: if_splits)
    with release [OF _ w] b show ?thesis by (intro re [of ?v w]) simp_all
  next
    case (PauseLane l)
    with op have "sm_events t = sm_events s" by (auto simp: pause_lane_def)
    then show ?thesis by (rule ev)
  next
    case (ResumeLane l)
    let ?v = "s\<lparr>sm_lanes := bt_insert l LaneRunning (sm_lanes s)\<rparr>"
    obtain m w where w: "release_held ?v = (m, w)" by fastforce
    with op ResumeLane have "sm_events t = sm_events w" by (auto simp: resume_lane_def)
    moreover have "books ?v" using b books_same [of ?v s] by simp
    ultimately show ?thesis using release [OF _ w] by (intro re [of ?v w]) simp_all
  next
    case (SwapDeliveryTicks l r)
    with op swap_books [OF b] have "retimed s t" by auto
    then show ?thesis by (rule re) simp_all
  next
    case (MoveBefore l r)
    with op move_books [OF b, of l r t] have "retimed s t" by auto
    then show ?thesis by (rule re) simp_all
  next
    case (MoveAfter l r)
    with op move_books [OF b, of l r t] have "retimed s t" by auto
    then show ?thesis by (rule re) simp_all
  qed
qed

lemma best_effort_good:
  assumes "apply_best_effort D ops s = (rs, t)" "transport_inv s" "all_good s" "\<And>d. known d"
    "\<And>r i. ScheduleControl r \<in> set ops \<Longrightarrow> cr_bytes r \<noteq> [] \<Longrightarrow> good (control_of D r i)"
    "\<And>r i. ScheduleAsset r \<in> set ops \<Longrightarrow> ar_amount r \<noteq> 0 \<Longrightarrow> good (asset_of r i)"
  shows "all_good t \<and> transport_inv t"
  using assms(1-3,5,6)
proof (induction ops arbitrary: s rs)
  case (Cons op ops)
  obtain r u where u: "sim_apply D op s = (r, u)" by fastforce
  with Cons.prems(1) obtain qs where q: "apply_best_effort D ops u = (qs, t)"
    by (auto split: prod.splits)
  have "all_good u"
    by (rule sim_apply_good [OF u]) (use Cons.prems assms(4) in auto)
  moreover have "transport_inv v" if "sim_steps D s v" for v
    using that Cons.prems(2) by (induction rule: rtranclp_induct) (auto intro: transport_step)
  then have "transport_inv u" using sim_apply_steps [OF u] by blast
  ultimately show ?case using Cons.prems q by (intro Cons.IH) auto
qed simp

end

end
