(* ===== verification/Sim_Value.thy ===== *)
theory Sim_Value
  imports Sim_Content
begin

text \<open>
  Value on the asset lane. Without \<open>Duplicate\<close> and \<open>OverDeliver\<close> faults, and with \<open>Split\<close> and
  \<open>Partial\<close> not both in the plan, what all events of a transfer carry, and so what the
  inboxes report for it, is never more than was sent.
\<close>

section \<open>Sums over all events\<close>

definition event_sum :: "(sim_event \<Rightarrow> nat) \<Rightarrow> simulator \<Rightarrow> nat" where
  "event_sum f s = sum_list (map (\<lambda>p. f (snd p)) (sm_events s))"

lemma event_sum_same: "sm_events t = sm_events s \<Longrightarrow> event_sum f t = event_sum f s"
  by (simp add: event_sum_def)

lemma event_sum_put:
  assumes "bt_wf (sm_events s)"
  shows "event_sum f (filed i e s) + (case event_at s i of None \<Rightarrow> 0 | Some x \<Rightarrow> f x) = event_sum f s + f e"
  using bt.sum_put [OF assms, of "\<lambda>p. f (snd p)" i e] by (cases "event_at s i") (simp_all add: event_sum_def)

lemma event_sum_dom:
  assumes "bt_wf (sm_events s)"
  shows "event_sum f s = (\<Sum>i \<in> dom (event_at s). f (the (event_at s i)))"
proof -
  let ?m = "sm_events s"
  have "event_sum f s = (\<Sum>p \<in> set ?m. f (snd p))"
    unfolding event_sum_def by (rule bt.sum_entries [OF assms])
  also have "\<dots> = (\<Sum>i \<in> fst ` set ?m. f (the (event_at s i)))"
  proof (rule sum.reindex_cong [symmetric, of fst])
    show "inj_on fst (set ?m)"
      using bt.entries_distinct [OF assms] by (simp add: distinct_map)
    show "f (the (event_at s (fst p))) = f (snd p)" if "p \<in> set ?m" for p
      using that bt.in_entries [OF assms, of "fst p" "snd p"] by simp
  qed simp
  also have "fst ` set ?m = dom (event_at s)"
    by (simp add: bt_get_def dom_map_of_conv_image_fst)
  finally show ?thesis .
qed

lemma event_sum_cong:
  assumes "bt_wf (sm_events s)" "bt_wf (sm_events t)"
    "\<And>i. map_option f (event_at t i) = map_option f (event_at s i)"
  shows "event_sum f t = event_sum f s"
proof -
  have "dom (event_at t) = dom (event_at s)"
    using assms(3) by (auto simp: dom_def) (metis map_option_is_None option.exhaust option.simps(3))+
  moreover have "f (the (event_at t i)) = f (the (event_at s i))" if "i \<in> dom (event_at s)" for i
    using assms(3) [of i] that by (auto simp: dom_def)
  ultimately show ?thesis by (simp add: event_sum_dom assms(1,2))
qed

lemma event_sum_generates:
  "generates es s t \<Longrightarrow> bt_wf (sm_events s) \<Longrightarrow>
   bt_wf (sm_events t) \<and> event_sum f t = event_sum f s + sum_list (map f es)"
proof (induction rule: generates.induct)
  case (gen_event es s t e n)
  let ?u = "t\<lparr>sm_next_event := n\<rparr>"
  have g: "generate e n t = filed (ev_id e) e ?u"
    using gen_event.hyps(5) by (simp add: generate_filed made_event_def)
  have wf: "bt_wf (sm_events ?u)" using gen_event by simp
  have "event_sum f (filed (ev_id e) e ?u) = event_sum f ?u + f e"
    using event_sum_put [OF wf, of f "ev_id e" e] gen_event.hyps(2) by simp
  then show ?case
    using gen_event wf event_sum_same [of ?u t f] unfolding g by simp
next
  case (gen_trace es s t a)
  then show ?case using event_sum_same [of "record_trace a t" t f] by simp
qed simp

section \<open>What an event carries and what was sent\<close>

fun carried :: "wire_transfer_id \<Rightarrow> sim_event \<Rightarrow> nat" where
  "carried x (ControlE c) = 0"
| "carried x (AssetE a) = (if ae_transfer a = x then unat (ae_delivered a) else 0)"

fun sent :: "wire_transfer_id \<Rightarrow> sim_event \<Rightarrow> nat" where
  "sent x (ControlE c) = 0"
| "sent x (AssetE a) = (if ae_transfer a = x \<and> \<not> ae_from_fault a then unat (ae_requested a) else 0)"

fun untouched :: "sim_event \<Rightarrow> bool" where
  "untouched (ControlE c) = True"
| "untouched (AssetE a) = (ae_delivered a = ae_requested a)"

lemma value_setters [simp]:
  "carried x (set_status st e) = carried x e" "carried x (set_deliver_at t e) = carried x e"
  "carried x (bump_attempts e) = carried x e" "carried x (set_destination d e) = carried x e"
  "sent x (set_status st e) = sent x e" "sent x (set_deliver_at t e) = sent x e"
  "sent x (bump_attempts e) = sent x e" "sent x (set_destination d e) = sent x e"
  "sent x (set_delivered b o' e) = sent x e"
  "untouched (set_status st e) = untouched e" "untouched (set_deliver_at t e) = untouched e"
  "untouched (bump_attempts e) = untouched e" "untouched (set_destination d e) = untouched e"
  by (cases e; simp)+

lemma value_corrupted [simp]:
  "carried x (corrupted D n m e) = carried x e" "sent x (corrupted D n m e) = sent x e"
  "untouched (corrupted D n m e) = untouched e"
  by (cases e; simp add: Let_def)+

lemma sent_first_piece [simp]: "sent x (first_piece ps e) = sent x e"
  by (cases e; cases ps) simp_all

lemma sent_act_on [simp]: "sent x (act_on D a e) = sent x e"
  by (simp add: act_on_def split: fault_action.split)

lemma sent_act_all [simp]: "sent x (act_all D batch e) = sent x e"
  by (induction batch arbitrary: e) simp_all

lemma sent_made: "made_by_fault e \<Longrightarrow> sent x e = 0"
  by (cases e) simp_all

fun neutral :: "fault_action \<Rightarrow> bool" where
  "neutral (Partial _) = False"
| "neutral (OverDeliver _) = False"
| "neutral (Split _ _) = False"
| "neutral (Duplicate _ _) = False"
| "neutral _ = True"

lemma neutral_act: "neutral a \<Longrightarrow> carried x (act_on D a e) = carried x e" "neutral a \<Longrightarrow> untouched (act_on D a e) = untouched e"
  "neutral a \<Longrightarrow> made_from a e es \<Longrightarrow> es = []"
  by (cases a; simp add: act_on_def made_from_def)+

lemma neutral_batch:
  assumes "\<forall>f \<in> set batch. neutral (ft_action f)" "batch_made D batch e es"
  shows "carried x (act_all D batch e) = carried x e \<and> es = []"
  using assms by (induction batch arbitrary: e es) (auto simp: neutral_act dest: neutral_act(3))

text \<open>One action that sets amounts, on an event that still carries what it requested.\<close>

lemma set_amount_act:
  assumes "a = Partial amount \<or> a = Split ps spacing" "check_action s a e = None" "untouched e"
    "made_from a e es"
  shows "carried x (act_on D a e) + sum_list (map (carried x) es) \<le> carried x e"
  using assms(1)
proof
  assume "a = Partial amount"
  with assms show ?thesis
    by (cases e) (auto simp: act_on_def made_from_def check_action_def then_some_def word_le_nat_alt
        not_less split: if_splits)
next
  assume a: "a = Split ps spacing"
  show ?thesis
  proof (cases "\<exists>y. e = AssetE y")
    case False
    with a assms(4) show ?thesis
      by (cases e; cases ps) (auto simp: act_on_def made_from_def)
  next
    case True
    then obtain y where y: "e = AssetE y" by blast
    have ps: "ps \<noteq> []" "sum_list (map unat ps) \<le> unat (ae_requested y)"
      using split_checked [of s ps spacing y] assms(2) a y by auto
    then obtain p qs where pq: "ps = p # qs" by (cases ps) auto
    let ?y = "y\<lparr>ae_delivered := p, ae_piece := Some 0\<rparr>"
    obtain n where es: "list_all2 (is_piece ?y) es (take n qs)"
      using assms(4) a y pq by (auto simp: made_from_def intro: that [of 0])
    have "sum_list (map (carried x) es) =
        (if ae_transfer y = x then sum_list (map unat (take n qs)) else 0)"
      using es by (induction rule: list_all2_induct) (auto simp: is_piece_def piece_event_def)
    moreover have "sum_list (map unat (take n qs)) \<le> sum_list (map unat qs)"
      by (metis append_take_drop_id le_add1 map_append sum_list_append)
    ultimately show ?thesis
      using ps pq a y assms(3) by (simp add: act_on_def)
  qed
qed

lemma batch_value:
  assumes "batch_made D batch e es" "distinct (map (action_group \<circ> ft_action) batch)"
    "\<forall>f \<in> set batch. check_action s (ft_action f) e = None"
    "\<forall>f \<in> set batch. neutral (ft_action f) \<or>
       (untouched e \<and> (\<exists>amount ps spacing. ft_action f = Partial amount \<or> ft_action f = Split ps spacing))"
  shows "carried x (act_all D batch e) + sum_list (map (carried x) es) \<le> carried x e"
  using assms
proof (induction batch arbitrary: e es)
  case (Cons f batch)
  from Cons.prems(1) obtain es1 es2 where es: "es = es1 @ es2" "made_from (ft_action f) e es1"
    "batch_made D batch (act_on D (ft_action f) e) es2" by auto
  have other: "action_group (ft_action f) \<noteq> action_group (ft_action g)" if "g \<in> set batch" for g
    using Cons.prems(2) that by auto
  show ?case
  proof (cases "neutral (ft_action f)")
    case True
    have "check_action s (ft_action g) (act_on D (ft_action f) e) = None" if "g \<in> set batch" for g
      using other [OF that] Cons.prems(3) that by (simp add: check_action_act_on)
    then have "carried x (act_all D batch (act_on D (ft_action f) e)) + sum_list (map (carried x) es2)
        \<le> carried x (act_on D (ft_action f) e)"
      using Cons.prems(2,4) True by (intro Cons.IH [OF es(3)]) (auto simp: neutral_act(2))
    moreover have "es1 = []" using True es(2) by (rule neutral_act(3))
    ultimately show ?thesis using es(1) neutral_act(1) [OF True, of x D e] by simp
  next
    case False
    then obtain amount ps spacing where a: "ft_action f = Partial amount \<or> ft_action f = Split ps spacing"
      and u: "untouched e" using Cons.prems(4) by auto
    have "neutral (ft_action g)" if "g \<in> set batch" for g
      using Cons.prems(4) other [OF that] a that by (cases "ft_action g") auto
    then have "carried x (act_all D batch (act_on D (ft_action f) e)) = carried x (act_on D (ft_action f) e) \<and> es2 = []"
      using neutral_batch es(3) by blast
    moreover have "carried x (act_on D (ft_action f) e) + sum_list (map (carried x) es1) \<le> carried x e"
      using Cons.prems(3) u es(2) by (intro set_amount_act [OF a]) auto
    ultimately show ?thesis using es(1) by simp
  qed
qed simp

section \<open>The value invariant\<close>

fun is_split :: "fault_action \<Rightarrow> bool" where
  "is_split (Split _ _) = True"
| "is_split _ = False"

fun is_partial :: "fault_action \<Rightarrow> bool" where
  "is_partial (Partial _) = True"
| "is_partial _ = False"

fun makes_value :: "fault_action \<Rightarrow> bool" where
  "makes_value (Duplicate _ _) = True"
| "makes_value (OverDeliver _) = True"
| "makes_value _ = False"

definition plan_has :: "(fault_action \<Rightarrow> bool) \<Rightarrow> fault_plan \<Rightarrow> bool" where
  "plan_has P plan = (\<exists>f \<in> set (plan_iter plan). P (ft_action f))"

definition keeps_value :: "fault_plan \<Rightarrow> bool" where
  "keeps_value plan = (\<not> plan_has makes_value plan \<and> \<not> (plan_has is_split plan \<and> plan_has is_partial plan))"

definition value_inv :: "simulator \<Rightarrow> bool" where
  "value_inv s =
     ((\<forall>i e. event_at s i = Some e \<and> \<not> made_by_fault e \<and> i \<notin> set (sm_resolved s) \<longrightarrow> untouched e) \<and>
      (keeps_value (sm_plan s) \<longrightarrow>
         (\<forall>x. event_sum (carried x) s \<le> event_sum (sent x) s) \<and>
         (\<not> plan_has is_split (sm_plan s) \<longrightarrow> (\<forall>i e. event_at s i = Some e \<longrightarrow> \<not> made_by_fault e))))"

lemma generates_made: "generates es s t \<Longrightarrow> e \<in> set es \<Longrightarrow> made_event e"
  by (induction rule: generates.induct) auto

lemma sent_generated: "generates es s t \<Longrightarrow> sum_list (map (sent x) es) = 0"
  using generates_made sent_made by (fastforce simp: made_event_def sum_list_nonneg_eq_0_iff)

lemma conclude_events:
  assumes "ev_id e = i"
  obtains y where "sm_events (conclude i out e t) = bt_insert i y (sm_events t)"
    "\<And>x. carried x y = carried x e" "\<And>x. sent x y = sent x e" "made_by_fault y = made_by_fault e"
proof -
  have "\<exists>y. sm_events (conclude i out e t) = bt_insert i y (sm_events t) \<and>
      (\<forall>x. carried x y = carried x e) \<and> (\<forall>x. sent x y = sent x e) \<and> made_by_fault y = made_by_fault e"
    using assms by (cases rule: conclude_cases [of e i out t]) auto
  then show ?thesis using that by blast
qed

lemma no_creation: "batch_made D batch e es \<Longrightarrow> \<forall>f \<in> set batch. \<not> creates_events (ft_action f) \<Longrightarrow> es = []"
proof (induction batch arbitrary: e es)
  case (Cons f batch)
  have "made_from (ft_action f) e es1 \<Longrightarrow> es1 = []" for es1
    using Cons.prems(2) by (cases "ft_action f") (auto simp: made_from_def)
  with Cons show ?case by fastforce
qed simp

lemma pending_in_plan:
  "f \<in> set (pending_faults s e) \<Longrightarrow> f \<in> set (plan_iter (sm_plan s)) \<and> \<not> (made_by_fault e \<and> creates_events (ft_action f))"
  by (auto simp: pending_faults_def set_matching)

text \<open>What composition does to the sums: the events \<open>es\<close> it makes are paid for by the event.\<close>

lemma compose_value:
  assumes "compose D e s = (out, e', t)" "bt_wf (sm_events s)"
    "\<not> made_by_fault e \<Longrightarrow> ev_id e \<notin> set (sm_resolved s) \<Longrightarrow> untouched e"
    "made_by_fault e \<Longrightarrow> keeps_value (sm_plan s) \<Longrightarrow> plan_has is_split (sm_plan s)"
  obtains es where "\<And>j z. event_at t j = Some z \<Longrightarrow> event_at s j = Some z \<or> z \<in> set es"
    "\<And>z. z \<in> set es \<Longrightarrow> made_by_fault z" "set (sm_resolved t) = insert (ev_id e) (set (sm_resolved s))"
    "made_by_fault e' = made_by_fault e" "\<And>x. sent x e' = sent x e"
    "\<And>x. event_sum (sent x) t = event_sum (sent x) s"
    "\<And>x. keeps_value (sm_plan s) \<Longrightarrow>
       event_sum (carried x) t + carried x e' \<le> event_sum (carried x) s + carried x e"
    "keeps_value (sm_plan s) \<Longrightarrow> \<not> plan_has is_split (sm_plan s) \<Longrightarrow> es = []"
  using assms(1)
proof (cases rule: compose_effect)
  case bound
  then show ?thesis by (intro that [of "[]"]) auto
next
  case (decided batch es)
  let ?s = "mark_resolved (ev_id e) s"
  have s: "sm_events ?s = sm_events s" "sm_plan ?s = sm_plan s"
    "set (sm_resolved ?s) = insert (ev_id e) (set (sm_resolved s))" by (simp_all add: mark_resolved_def)
  have in_plan: "f \<in> set (plan_iter (sm_plan s)) \<and> \<not> (made_by_fault e \<and> creates_events (ft_action f))"
    if "f \<in> set batch" for f
    using that decided(2) pending_in_plan [of f ?s e] s(2) by (auto simp: passed_def)
  have sum: "event_sum f t = event_sum f s + sum_list (map f es)" for f
    using event_sum_generates [OF decided(4), of f] assms(2) event_sum_same [OF s(1), of f] s(1) by simp
  have amounts: "neutral (ft_action f) \<or> (untouched e \<and> (\<exists>amount ps spacing. ft_action f = Partial amount \<or>
      ft_action f = Split ps spacing))" if "f \<in> set batch" "keeps_value (sm_plan s)" for f
  proof (cases "ft_action f")
    case (Partial amount)
    then have "\<not> plan_has is_split (sm_plan s)"
      using that(2) in_plan [OF that(1)] by (auto simp: keeps_value_def plan_has_def)
    with assms(3,4) that(2) decided(1) Partial show ?thesis by auto
  next
    case (Split ps spacing)
    with in_plan [OF that(1)] assms(3) decided(1) show ?thesis by auto
  qed (use that(2) in_plan [OF that(1)] in \<open>auto simp: keeps_value_def plan_has_def\<close>)
  have "carried x e' + sum_list (map (carried x) es) \<le> carried x e" if "keeps_value (sm_plan s)" for x
    unfolding decided(3)
    by (rule batch_value [OF decided(5), where s = ?s]) (use decided(2) that amounts in \<open>auto simp: passed_def\<close>)
  moreover have "es = []" if "keeps_value (sm_plan s)" "\<not> plan_has is_split (sm_plan s)"
  proof (rule no_creation [OF decided(5)], rule ballI)
    fix f assume "f \<in> set batch"
    with in_plan [of f] that show "\<not> creates_events (ft_action f)"
      by (cases "ft_action f") (auto simp: keeps_value_def plan_has_def)
  qed
  ultimately show ?thesis
    using decided(3) generates_origin [OF decided(4)] generates_made [OF decided(4)]
      sent_generated [OF decided(4)] generates_kept(1) [OF decided(4)] s
    by (intro that [of es]) (auto simp: sum made_event_def add.commute add.left_commute)
qed

lemma value_deliver:
  assumes "deliver_next D s = (Some i, s')" "transport_inv s" "value_inv s"
  shows "value_inv s'"
proof -
  have b: "books s" using assms(2) by (simp add: transport_inv_def)
  have pristine: "untouched z" if "event_at s j = Some z" "\<not> made_by_fault z" "j \<notin> set (sm_resolved s)" for j z
    using that assms(3) by (simp add: value_inv_def)
  from assms(1) b show ?thesis
  proof (rule deliver_next_cases)
    fix e0 e v out e' t
    assume d: "event_at s i = Some e0" "ev_id e0 = i" "e = set_status Ready (bump_attempts e0)"
      "event_at v = event_at s" "sm_plan v = sm_plan s" "sm_resolved v = sm_resolved s"
      "compose D e v = (out, e', t)" "s' = conclude i out e' t" "books_but {i} t"
      "ev_id e' = i" "event_at t i = Some e0" "sm_events v = sm_events s"
    have e: "ev_id e = i" "untouched e = untouched e0" "made_by_fault e = made_by_fault e0"
      "carried x e = carried x e0" "sent x e = sent x e0" for x using d(2,3) by simp_all
    have v: "event_sum f v = event_sum f s" for f by (rule event_sum_same [OF d(12)])
    obtain es where es: "\<And>j z. event_at t j = Some z \<Longrightarrow> event_at s j = Some z \<or> z \<in> set es"
      "\<And>z. z \<in> set es \<Longrightarrow> made_by_fault z" "set (sm_resolved t) = insert i (set (sm_resolved s))"
      "made_by_fault e' = made_by_fault e0" "\<And>x. sent x e' = sent x e0"
      "\<And>x. event_sum (sent x) t = event_sum (sent x) s"
      "\<And>x. keeps_value (sm_plan s) \<Longrightarrow>
         event_sum (carried x) t + carried x e' \<le> event_sum (carried x) s + carried x e0"
      "keeps_value (sm_plan s) \<Longrightarrow> \<not> plan_has is_split (sm_plan s) \<Longrightarrow> es = []"
    proof (rule compose_value [OF d(7)])
      show "bt_wf (sm_events v)" using books_events(8) [OF b] d(12) by simp
      show "untouched e" if "\<not> made_by_fault e" "ev_id e \<notin> set (sm_resolved v)"
        using that pristine [OF d(1)] e d(6) by simp
      show "plan_has is_split (sm_plan v)" if "made_by_fault e" "keeps_value (sm_plan v)"
        using that assms(3) d(1,5) e(3) by (auto simp: value_inv_def)
    qed (rule that; simp add: d(4-6) e v)
    obtain y where y: "sm_events s' = bt_insert i y (sm_events t)" "\<And>x. carried x y = carried x e'"
      "\<And>x. sent x y = sent x e'" "made_by_fault y = made_by_fault e'"
      unfolding d(8) using conclude_events [OF d(10), of out t] by blast
    have kept: "sm_resolved s' = sm_resolved t" "sm_plan s' = sm_plan s"
      using d(5,8) compose_kept [OF d(7)] by (simp_all add: conclude_kept)
    have sums: "event_sum f s' + f e0 = event_sum f t + f y" for f
      using event_sum_put [OF books_events(8) [OF d(9)], of f i y] d(11) y(1) by (simp add: event_sum_def)
    have evs: "event_at s' j = (if j = i then Some y else event_at t j)" for j
      by (simp add: y(1) bt_get_insert_always)
    have "event_sum (carried x) s' \<le> event_sum (sent x) s'" if "keeps_value (sm_plan s)" for x
    proof -
      have "event_sum (carried x) s \<le> event_sum (sent x) s"
        using assms(3) that by (simp add: value_inv_def)
      with sums [of "carried x"] sums [of "sent x"] es(5,6) es(7) [OF that, of x] y(2,3) show ?thesis by simp
    qed
    moreover have "\<not> made_by_fault z" if "keeps_value (sm_plan s)" "\<not> plan_has is_split (sm_plan s)"
      "event_at s' j = Some z" for j z
    proof -
      have none: "\<not> made_by_fault w" if "event_at s k = Some w" for k w
        using assms(3) that \<open>keeps_value (sm_plan s)\<close> \<open>\<not> plan_has is_split (sm_plan s)\<close>
        by (simp add: value_inv_def)
      show ?thesis
        using that(3) evs es(1) [of j z] es(8) [OF that(1,2)] none none [OF d(1)] es(4) y(4)
        by (auto split: if_splits)
    qed
    moreover have "untouched z" if "event_at s' j = Some z" "\<not> made_by_fault z" "j \<notin> set (sm_resolved t)" for j z
      using that evs es(1) [of j z] es(2,3) pristine by (auto split: if_splits)
    ultimately show "value_inv s'" unfolding value_inv_def kept by blast
  qed
qed

lemma value_admits:
  assumes "admits s e t" "books s" "value_inv s" "untouched e" "\<And>x. carried x e \<le> sent x e"
  shows "value_inv t"
proof -
  note f = admits_fields [OF assms(1)]
  obtain n a where t: "t = filed (ev_id e) e (record_trace a (s\<lparr>sm_next_event := n\<rparr>))"
    using assms(1) by (auto simp: admits_def)
  let ?u = "record_trace a (s\<lparr>sm_next_event := n\<rparr>)"
  have e: "event_at s (ev_id e) = None" "\<not> made_by_fault e" using assms(1) by (simp_all add: admits_def)
  have "event_sum g t = event_sum g s + g e" for g
    using event_sum_put [of ?u g "ev_id e" e] books_events(8) [OF assms(2)] e(1) event_sum_same [of ?u s g]
    unfolding t by simp
  then have "event_sum (carried x) t \<le> event_sum (sent x) t"
    if "event_sum (carried x) s \<le> event_sum (sent x) s" for x
    using that assms(5) [of x] by simp
  with assms(3,4) e show ?thesis
    by (auto simp: value_inv_def f(1,5,6))
qed

lemma value_same:
  assumes "sm_events t = sm_events s" "sm_resolved t = sm_resolved s" "sm_plan t = sm_plan s"
  shows "value_inv t = value_inv s"
  using assms event_sum_same [OF assms(1)] by (simp add: value_inv_def)

lemma value_retimed:
  assumes "retimed s t" "books s" "books t" "value_inv s"
  shows "value_inv t"
proof -
  have r: "retimed_event (event_at s i) (event_at t i)" for i using assms(1) by (simp add: retimed_def)
  have k: "sm_resolved t = sm_resolved s" "sm_plan t = sm_plan s" using assms(1) by (simp_all add: retimed_def)
  have orig: "\<exists>z0. event_at s i = Some z0 \<and> made_by_fault z0 = made_by_fault z \<and> untouched z0 = untouched z"
    if "event_at t i = Some z" for i z
    using r [of i] that by (cases "event_at s i") (auto simp: retimed_event_def)
  have "event_sum f t = event_sum f s" if f: "\<And>e d. f (set_deliver_at d (set_status Scheduled e)) = f e" for f
  proof (rule event_sum_cong)
    show "map_option f (event_at t i) = map_option f (event_at s i)" for i
      using r [of i] f by (auto simp: retimed_event_def)
  qed (use assms(2,3) books_events(8) in blast)+
  then have "event_sum (carried x) t = event_sum (carried x) s" "event_sum (sent x) t = event_sum (sent x) s" for x
    by simp_all
  moreover have "untouched z" if "event_at t i = Some z" "\<not> made_by_fault z" "i \<notin> set (sm_resolved s)" for i z
    using orig [OF that(1)] that(2,3) assms(4) by (auto simp: value_inv_def)
  moreover have "\<not> made_by_fault z" if "event_at t i = Some z" "keeps_value (sm_plan s)"
    "\<not> plan_has is_split (sm_plan s)" for i z
    using orig [OF that(1)] that(2,3) assms(4) by (auto simp: value_inv_def)
  ultimately show ?thesis using assms(4) by (auto simp: value_inv_def k)
qed

lemma set_bt_insert_new: "bt_get m k = None \<Longrightarrow> set (bt_insert k v m) = insert (k, v) (set m)"
  by (induction m) (auto simp: bt_get_def split: if_splits)

lemma value_fault:
  assumes "add_fault f s = (Inr (), t)" "value_inv s"
  shows "value_inv t"
proof -
  have t: "t = s\<lparr>sm_plan := plan_insert f (sm_plan s)\<rparr>" "bt_get (sm_plan s) (ft_id f) = None"
    using assms(1) by (auto simp: add_fault_def m_simps plan_contains_def bt_contains_def split: if_splits)
  have p: "plan_has P (sm_plan s) \<Longrightarrow> plan_has P (sm_plan t)" for P
    using set_bt_insert_new [OF t(2), of f] t(1)
    by (auto simp: plan_has_def plan_iter_def plan_insert_def bt_values_def)
  have "sm_events t = sm_events s" "sm_resolved t = sm_resolved s" using t(1) by simp_all
  with assms(2) p event_sum_same [of t s] show ?thesis
    unfolding value_inv_def keeps_value_def by auto
qed

lemma value_step:
  assumes "sim_step D s t" "transport_inv s" "value_inv s"
  shows "value_inv t"
proof -
  have bs: "books s" "books t"
    using assms(2) transport_step [OF assms(1,2)] by (simp_all add: transport_inv_def)
  have same: "value_inv t" if "sm_events t = sm_events s" "sm_resolved t = sm_resolved s" "sm_plan t = sm_plan s"
    using value_same [OF that] assms(3) by simp
  have released: "value_inv t"
    if w: "release_held v = (m, w)" and "sm_events v = sm_events s" "sm_resolved v = sm_resolved s"
      "sm_plan v = sm_plan s" "books v" "t = record_trace a w" for v m w a
  proof -
    have "value_inv v" using value_same [of v s] that assms(3) by simp
    then have "value_inv w"
      using release_held_books(1,2) [OF w] that(5) by (intro value_retimed [of v w])
    then show ?thesis using that(6) value_same [of t w] by simp
  qed
  show ?thesis
    using assms(1)
  proof (cases rule: sim_step.cases)
    case (step_control r i)
    then have "admits s (control_of D r i) t" by (rule schedule_control_admits(1))
    then show ?thesis using bs(1) assms(3) by (rule value_admits) (simp_all add: control_of_def)
  next
    case (step_asset a i)
    then have "admits s (asset_of a i) t" by (rule schedule_asset_admits(1))
    then show ?thesis using bs(1) assms(3) by (rule value_admits) (simp_all add: asset_of_def)
  next
    case (step_fault f)
    then show ?thesis using assms(3) by (rule value_fault)
  next
    case (step_deliver i)
    then show ?thesis using assms(2,3) by (rule value_deliver)
  next
    case (step_resume e)
    let ?v = "update_endpoint e (set_state EndpointActive) s"
    obtain m w where w: "release_held ?v = (m, w)" by fastforce
    then show ?thesis
      using step_resume bs(1) by (intro released [OF w]) (auto simp: resume_endpoint_def split: if_splits)
  next
    case (step_resume_lane l)
    let ?v = "s\<lparr>sm_lanes := bt_insert l LaneRunning (sm_lanes s)\<rparr>"
    obtain m w where w: "release_held ?v = (m, w)" by fastforce
    have "books ?v" using bs(1) books_same [of ?v s] by simp
    then show ?thesis
      using step_resume_lane w by (intro released [OF w]) (auto simp: resume_lane_def)
  next
    case (step_swap l r)
    then show ?thesis using swap_books [OF bs(1)] bs assms(3) value_retimed by blast
  next
    case (step_before l r)
    then show ?thesis using move_books [OF bs(1)] bs assms(3) value_retimed by blast
  next
    case (step_after l r)
    then show ?thesis using move_books [OF bs(1)] bs assms(3) value_retimed by blast
  qed (rule same; auto simp: add_endpoint_def advance_to_def halt_endpoint_def pause_lane_def split: if_splits)+
qed

lemma value_new:
  assumes "with_config c eps = Inr s" shows "value_inv s"
proof -
  have "sm_events s = []" using assms by (auto simp: with_config_def result_simps split: if_splits)
  then show ?thesis by (simp add: value_inv_def event_sum_def)
qed

lemma value_reachable: "sim_reachable D s \<Longrightarrow> value_inv s"
  by (induction rule: reachable_invariant) (auto intro: value_new value_step transport_reachable)

section \<open>What the inboxes report\<close>

definition all_assets :: "simulator \<Rightarrow> delivered_asset list" where
  "all_assets s = concat (map en_asset_inbox (bt_values (sm_endpoints s)))"

lemma saturating_total:
  "unat (foldl (\<lambda>acc entry. saturating_add_word acc (da_delivered entry)) n es) \<le>
   unat n + sum_list (map (unat \<circ> da_delivered) es)"
proof (induction es arbitrary: n)
  case (Cons a es)
  from Cons.IH [of "saturating_add_word n (da_delivered a)"] show ?case
    by (simp add: unat_saturating_add_word)
qed simp

lemma count_assets: "length (filter (\<lambda>a. da_event a = i) (all_assets s)) \<le> deliveries s i"
proof -
  have "length (filter (\<lambda>a. da_event a = i) (concat (map en_asset_inbox (map snd m)))) \<le>
      sum_list (map (\<lambda>p. inbox_count i (snd p)) m)" for m :: "(endpoint_id, endpoint) btree_map"
    by (induction m) (auto simp: inbox_count_def)
  then show ?thesis by (simp add: all_assets_def bt_values_def deliveries_def)
qed

lemma distinct_if_counted:
  "(\<And>i. length (filter (\<lambda>a. f a = i) xs) \<le> 1) \<Longrightarrow> distinct (map f xs)"
proof (induction xs)
  case (Cons x xs)
  have "length (filter (\<lambda>a. f a = i) xs) \<le> 1" for i
    using Cons.prems [of i] by (simp split: if_splits)
  moreover have "f x \<notin> f ` set xs"
    using Cons.prems [of "f x"] by (auto simp: filter_empty_conv)
  ultimately show ?case using Cons.IH by simp
qed simp

lemma reported_within:
  assumes "inboxes_true s" "bt_wf (sm_events s)"
  shows "unat (delivered_for_transfer s x) \<le> event_sum (carried x) s"
proof -
  let ?L = "filter (\<lambda>a. da_transfer a = x) (all_assets s)"
  have "deliveries s i \<le> 1" for i using assms(1) by (simp add: inboxes_true_def)
  then have "distinct (map da_event (all_assets s))"
    using order_trans [OF count_assets] by (intro distinct_if_counted) blast
  then have dist: "distinct (map da_event ?L)" by (rule distinct_map_filter)
  have rec: "\<exists>e. event_at s (da_event a) = Some e \<and> carried x e = unat (da_delivered a)" if "a \<in> set ?L" for a
  proof -
    from that obtain d n where "(d, n) \<in> set (sm_endpoints s)" and a: "a \<in> set (en_asset_inbox n)" "da_transfer a = x"
      by (auto simp: all_assets_def bt_values_def)
    moreover have "bt_wf (sm_endpoints s)" using assms(1) by (simp add: inboxes_true_def)
    ultimately have "bt_get (sm_endpoints s) d = Some n" using bt.in_entries [of "sm_endpoints s" d n] by simp
    with assms(1) a have "asset_recorded s d a" by (simp add: inboxes_true_def)
    then obtain y where y: "delivered_event s (da_event a) = Some (AssetE y)"
      "a = asset_record y (da_delivered_at a) (late_at (ae_timeout_at y) (da_delivered_at a))"
      unfolding asset_recorded_def by blast
    have "ae_transfer y = x" "ae_delivered y = da_delivered a"
      using y(2) a(2) by (metis asset_record_def delivered_asset.select_convs(2),
          metis asset_record_def delivered_asset.select_convs(6))
    moreover have "event_at s (da_event a) = Some (AssetE y)"
      using y(1) by (auto simp: delivered_event_def split: option.splits if_splits)
    ultimately show ?thesis by auto
  qed
  have "unat (delivered_for_transfer s x) \<le> sum_list (map (unat \<circ> da_delivered) ?L)"
    using saturating_total [of 0 ?L] by (simp add: delivered_for_transfer_def all_assets_def)
  also have "\<dots> = sum_list (map (\<lambda>i. carried x (the (event_at s i))) (map da_event ?L))"
  proof -
    have "unat (da_delivered a) = carried x (the (event_at s (da_event a)))" if "a \<in> set ?L" for a
      using rec [OF that] by auto
    then have "map (unat \<circ> da_delivered) ?L = map (\<lambda>i. carried x (the (event_at s i))) (map da_event ?L)"
      unfolding map_map by (intro map_cong refl) simp
    then show ?thesis by (rule arg_cong)
  qed
  also have "\<dots> = (\<Sum>i \<in> set (map da_event ?L). carried x (the (event_at s i)))"
    by (rule sum_list_distinct_conv_sum_set [OF dist])
  also have "\<dots> \<le> (\<Sum>i \<in> dom (event_at s). carried x (the (event_at s i)))"
  proof (rule sum_mono2)
    show "finite (dom (event_at s))" by (simp add: bt_get_def finite_dom_map_of)
    show "set (map da_event ?L) \<subseteq> dom (event_at s)" using rec by fastforce
  qed simp
  also have "\<dots> = event_sum (carried x) s" by (rule event_sum_dom [OF assms(2), symmetric])
  finally show ?thesis .
qed

end
