(* ===== verification/Sim_Demo.thy ===== *)
theory Sim_Demo
  imports Sim_Value
begin

text \<open>
  What becomes of events along whole runs, and the concrete runs of the simulator on which
  its properties are applied: a message with a flipped byte, a transfer in two pieces and an
  endpoint that halts before the second piece is due; and a transfer split and then
  overwritten, for every amount.
\<close>

section \<open>Terminal events stay\<close>

text \<open>A step removes no event and leaves the terminal ones as they are.\<close>

definition keeps_terminal :: "simulator \<Rightarrow> simulator \<Rightarrow> bool" where
  "keeps_terminal s t =
     (\<forall>i e. event_at s i = Some e \<longrightarrow>
        (\<exists>e'. event_at t i = Some e' \<and> (is_terminal (ev_status e) \<longrightarrow> e' = e)))"

lemma keeps_terminal_refl [simp]: "keeps_terminal s s"
  by (simp add: keeps_terminal_def)

lemma keeps_terminal_trans: "keeps_terminal s t \<Longrightarrow> keeps_terminal t u \<Longrightarrow> keeps_terminal s u"
  unfolding keeps_terminal_def by metis

lemma keeps_terminal_same: "sm_events t = sm_events s \<Longrightarrow> keeps_terminal s t"
  by (simp add: keeps_terminal_def)

lemma keeps_terminal_admits: "admits s e t \<Longrightarrow> keeps_terminal s t"
  by (auto simp: keeps_terminal_def admits_fields(1)) (auto simp: admits_def)

lemma keeps_terminal_retimed:
  assumes "retimed s t" shows "keeps_terminal s t"
  unfolding keeps_terminal_def
proof (intro allI impI)
  fix i e assume "event_at s i = Some e"
  moreover have "retimed_event (event_at s i) (event_at t i)" using assms by (simp add: retimed_def)
  ultimately show "\<exists>e'. event_at t i = Some e' \<and> (is_terminal (ev_status e) \<longrightarrow> e' = e)"
    by (auto simp: retimed_event_def)
qed

lemma compose_keeps: "compose D e s = (out, e', t) \<Longrightarrow> event_at s i = Some x \<Longrightarrow> event_at t i = Some x"
  by (elim compose_effect) (auto dest: generates_event_at simp: mark_resolved_def)

lemma keeps_terminal_deliver:
  assumes "deliver_next D s = (Some i, s')" "books s"
  shows "keeps_terminal s s'"
  using assms
proof (rule deliver_next_cases)
  fix e0 e v out e' t
  assume d: "event_at s i = Some e0" "ev_status e0 = Scheduled" "event_at v = event_at s"
    "compose D e v = (out, e', t)" "s' = conclude i out e' t" "ev_id e' = i"
  have kept: "event_at t j = Some x" if "event_at s j = Some x" for j x
    using compose_keeps [OF d(4)] that d(3) by metis
  have "\<exists>y. event_at s' = (event_at t)(i \<mapsto> y)"
    using d(6) by (rule conclude_cases [of e' i out t])
      (auto simp: d(5) fun_eq_iff bt_get_insert_always)
  then obtain y where "event_at s' = (event_at t)(i \<mapsto> y)" ..
  with kept d(1,2) show "keeps_terminal s s'"
    unfolding keeps_terminal_def by auto
qed

lemma keeps_terminal_step:
  assumes "sim_step D s t" "transport_inv s"
  shows "keeps_terminal s t"
proof -
  have b: "books s" using assms(2) by (simp add: transport_inv_def)
  have released: "keeps_terminal s t"
    if w: "release_held v = (m, w)" and "sm_events v = sm_events s" "books v" "t = record_trace a w" for v m w a
    using keeps_terminal_retimed [OF release_held_books(2) [OF w that(3)]] that(2,4)
    by (simp add: keeps_terminal_def)
  show ?thesis
    using assms(1)
  proof (cases rule: sim_step.cases)
    case (step_resume e)
    let ?v = "update_endpoint e (set_state EndpointActive) s"
    obtain m w where w: "release_held ?v = (m, w)" by fastforce
    then show ?thesis
      using step_resume b by (intro released [OF w]) (auto simp: resume_endpoint_def split: if_splits)
  next
    case (step_resume_lane l)
    let ?v = "s\<lparr>sm_lanes := bt_insert l LaneRunning (sm_lanes s)\<rparr>"
    obtain m w where w: "release_held ?v = (m, w)" by fastforce
    have "books ?v" using b books_same [of ?v s] by simp
    then show ?thesis
      using step_resume_lane w by (intro released [OF w]) (auto simp: resume_lane_def)
  next
    case (step_deliver i)
    then show ?thesis using b by (rule keeps_terminal_deliver)
  next
    case (step_swap l r)
    then show ?thesis using swap_books [OF b] keeps_terminal_retimed by blast
  next
    case (step_before l r)
    then show ?thesis using move_books [OF b] keeps_terminal_retimed by blast
  next
    case (step_after l r)
    then show ?thesis using move_books [OF b] keeps_terminal_retimed by blast
  next
    case (step_control r i)
    then show ?thesis using schedule_control_admits(1) keeps_terminal_admits by blast
  next
    case (step_asset r i)
    then show ?thesis using schedule_asset_admits(1) keeps_terminal_admits by blast
  qed (rule keeps_terminal_same;
       auto simp: add_endpoint_def add_fault_def m_simps advance_to_def halt_endpoint_def pause_lane_def split: if_splits)+
qed

lemma keeps_terminal_steps:
  assumes "sim_steps D s t" "transport_inv s"
  shows "keeps_terminal s t \<and> transport_inv t"
  using assms(1)
proof (induction rule: rtranclp_induct)
  case base
  then show ?case using assms(2) by simp
next
  case (step u v)
  then show ?case using keeps_terminal_step transport_step keeps_terminal_trans by blast
qed

section \<open>Demonstration runs\<close>

definition demo_digest :: "nat digest" where
  "demo_digest = \<lparr>dg_new = 0, dg_update = (\<lambda>h bs. h + length bs), dg_finalize = of_nat\<rparr>"

definition demo_sim :: simulator where
  "demo_sim =
     \<lparr>sm_config = config_default, sm_now = 0,
      sm_endpoints = [(1, endpoint_new 1), (2, endpoint_new 2)], sm_events = [], sm_queue = [],
      sm_held = [], sm_lanes = [(Control, LaneRunning), (Asset, LaneRunning)], sm_plan = [],
      sm_resolved = [], sm_trace = [], sm_next_event = 1\<rparr>"

definition demo_flip :: fault where
  "demo_flip = \<lparr>ft_id = 1, ft_target = TargetEvent 1, ft_action = CorruptByte 0 1\<rparr>"

definition demo_split :: "event_id \<Rightarrow> fault" where
  "demo_split i = \<lparr>ft_id = 2, ft_target = TargetEvent i, ft_action = Split [60, 40] 4\<rparr>"

definition demo_operations :: "sim_operation list" where
  "demo_operations =
     [ScheduleControl (control_request_new 1 2 [6, 8] 3), ScheduleAsset (asset_request_new 5 1 2 100 3),
      AddFault demo_flip, AddFault (demo_split 2), RunUntil 3, HaltEndpoint 2, RunUntilIdle]"

text \<open>A transfer \<open>x\<close> of \<open>r\<close>, split into \<open>p\<close> and \<open>q\<close>; then the second piece gets the partial amount \<open>m\<close>.\<close>

definition split_then_partial ::
  "wire_transfer_id \<Rightarrow> wire_asset_amount \<Rightarrow> wire_asset_amount \<Rightarrow> wire_asset_amount \<Rightarrow> wire_asset_amount \<Rightarrow>
   sim_operation list" where
  "split_then_partial x r p q m =
     [ScheduleAsset (asset_request_new x 1 2 r 3),
      AddFault \<lparr>ft_id = 2, ft_target = TargetEvent 1, ft_action = Split [p, q] 4\<rparr>, RunUntil 3,
      AddFault \<lparr>ft_id = 3, ft_target = TargetEvent 2, ft_action = Partial m\<rparr>, RunUntilIdle]"

text \<open>The equations that evaluate a run.\<close>

lemmas run_eval = ignore_result_def m_then_def m_check_def m_return_def schedule_control_def
  schedule_asset_def check_route_def require_endpoint_def bt_contains_def bt_get_def and_then_def
  check_delivery_tick_def reserve_event_id_def checked_add_word_def insert_scheduled_def
  record_trace_def put_event_def enqueue_def queue_insert_def queue_key_new_def trace_push_def
  saturating_u32_def add_fault_def plan_contains_def target_lane_def check_target_endpoints_def
  check_action_shape_def sum_pieces_def check_against_named_event_def bs_contains_def
  requested_of_def same_group_on_same_target_def plan_iter_def bt_values_def plan_insert_def
  run_until_def run_until_loop.simps queue_next_tick_def advance_to_def deliver_ready_def
  deliver_ready_loop.simps deliver_next_def attempt_def compose_def mark_resolved_def
  pending_faults_def matching_def order_key_def less_eq_fault_stage_def less_fault_stage_def
  check_batch_def check_action_def then_some_def record_effect_def take_generated_id_def
  free_id.simps u16_of_position_def spaced_tick_def saturating_mul_word_def tick_add_or_max_def
  tick_checked_add_def checked_mul_word_def piece_event_def finish_attempt_def lane_state_of_def
  lane_is_paused_def is_halted_def hand_over_def control_record_def asset_record_def
  update_endpoint_def push_control_def push_asset_def less_queue_key_def saturating_add_word_def
  run_until_idle_def run_until_idle_loop.simps endpoint_new_def halt_endpoint_def set_state_def
  block_def Let_def

lemmas demo_run_defs = demo_sim_def demo_flip_def demo_split_def
  demo_operations_def split_then_partial_def control_request_new_def asset_request_new_def

lemma demo_sim_new: "simulator_new [1, 2] = Inr demo_sim"
  by (simp add: simulator_new_def with_config_def add_new_endpoint_def demo_sim_def bt_contains_def
    bt_get_def and_then_def lane_all_def less_lane_def)

lemma demo_sim_reachable: "sim_reachable D demo_sim"
  using demo_sim_new by (auto simp: sim_reachable_def simulator_new_def)

definition demo_final :: simulator where
  "demo_final = snd (apply_all demo_digest demo_operations demo_sim)"

text \<open>The message and the first piece arrive, the second piece waits for the halted endpoint.\<close>

lemma demo_run_result:
  "case apply_all D demo_operations demo_sim of (r, s) \<Rightarrow>
     r = Inr () \<and> sm_queue s = [] \<and> sm_held s = [3] \<and> sm_now s = 7 \<and> keeps_value (sm_plan s) \<and>
     map_option ev_status (event_at s 2) = Some Delivered \<and>
     map_option ev_status (event_at s 3) = Some Blocked \<and>
     map_option ev_deliver_at (event_at s 3) = Some 7 \<and>
     map dc_bytes (control_inbox s 2) = [[7, 8]] \<and> map da_delivered (asset_inbox s 2) = [60] \<and>
     delivered_for_transfer s 5 = 60 \<and> event_sum (sent 5) s = 100"
  by (simp add: run_eval demo_run_defs keeps_value_def plan_has_def control_inbox_def asset_inbox_def
    delivered_for_transfer_def event_sum_def)

lemma demo_final_facts:
  "apply_all demo_digest demo_operations demo_sim = (Inr (), demo_final)"
  "sm_queue demo_final = []" "sm_held demo_final = [3]" "sm_now demo_final = 7"
  "keeps_value (sm_plan demo_final)"
  "map_option ev_status (event_at demo_final 2) = Some Delivered"
  "map_option ev_status (event_at demo_final 3) = Some Blocked"
  "map dc_bytes (control_inbox demo_final 2) = [[7, 8]]"
  "map da_delivered (asset_inbox demo_final 2) = [60]"
  "delivered_for_transfer demo_final 5 = 60" "event_sum (sent 5) demo_final = 100"
  using demo_run_result [of demo_digest]
  by (cases "apply_all demo_digest demo_operations demo_sim"; simp add: demo_final_def)+

lemma demo_final_reachable: "sim_reachable demo_digest demo_final"
  using reachable_steps [OF demo_sim_reachable apply_all_steps [OF demo_final_facts(1)]] .

text \<open>Operations that all succeed do the same in both runners.\<close>

lemma best_effort_all:
  "apply_all D ops s = (Inr (), t) \<Longrightarrow> apply_best_effort D ops s = (map (\<lambda>_. Inr ()) ops, t)"
proof (induction ops arbitrary: s)
  case (Cons op ops)
  then obtain u where "sim_apply D op s = (Inr (), u)" "apply_all D ops u = (Inr (), t)"
    by (auto simp: m_then_def split: prod.splits sum.splits)
  with Cons.IH show ?case by simp
qed simp

end
