(* ===== verification/Sim_Hash.thy ===== *)
theory Sim_Hash
  imports Sim_Demo
begin

text \<open>
  The canonical bytes of a simulator state, their digest and the snapshots made with it
  (\<open>crates/xchain-sim/src/state_hash.rs\<close>, \<open>snapshot.rs\<close>). A writer of the source appends to an
  encoder; here it is the bytes it appends, and writing one field after the other is
  concatenation. The locale \<open>prefix_code\<close> says of a writer that what it wrote can be read back from
  the front of a longer byte string; lists with their count in front inherit it.
\<close>

section \<open>The encoder\<close>

definition enc_tag :: "string \<Rightarrow> bytes" where
  "enc_tag tag = ascii_bytes tag"

definition enc_u8 :: "u8 \<Rightarrow> bytes" where
  "enc_u8 v = [v]"

definition enc_bool :: "bool \<Rightarrow> bytes" where
  "enc_bool b = [if b then 1 else 0]"

definition enc_u16 :: "u16 \<Rightarrow> bytes" where
  "enc_u16 v = to_be_bytes v"

definition enc_u32 :: "u32 \<Rightarrow> bytes" where
  "enc_u32 v = to_be_bytes v"

definition enc_u64 :: "u64 \<Rightarrow> bytes" where
  "enc_u64 v = to_be_bytes v"

definition enc_u128 :: "u128 \<Rightarrow> bytes" where
  "enc_u128 v = to_be_bytes v"

definition enc_count :: "nat \<Rightarrow> bytes" where
  "enc_count n = enc_u32 (saturating_u32 n)"

definition enc_wide :: "bytes32 \<Rightarrow> bytes" where
  "enc_wide v = to_be_bytes v"

definition enc_blob :: "bytes \<Rightarrow> bytes" where
  "enc_blob bs = enc_count (length bs) @ bs"

definition enc_tick :: "tick \<Rightarrow> bytes" where
  "enc_tick t = enc_u64 t"

definition enc_maybe_tick :: "tick option \<Rightarrow> bytes" where
  "enc_maybe_tick v = enc_bool (v \<noteq> None) @ enc_u64 (case v of Some t \<Rightarrow> t | None \<Rightarrow> 0)"

definition enc_maybe_u64 :: "u64 option \<Rightarrow> bytes" where
  "enc_maybe_u64 v = enc_bool (v \<noteq> None) @ enc_u64 (case v of Some t \<Rightarrow> t | None \<Rightarrow> 0)"

definition enc_maybe_u16 :: "u16 option \<Rightarrow> bytes" where
  "enc_maybe_u16 v = enc_bool (v \<noteq> None) @ enc_u16 (case v of Some t \<Rightarrow> t | None \<Rightarrow> 0)"

definition saturating_u64 :: "nat \<Rightarrow> u64" where
  "saturating_u64 n = (if n < 2 ^ 64 then of_nat n else - 1)"

fun lane_state_code :: "lane_state \<Rightarrow> u8" where
  "lane_state_code LaneRunning = 0"
| "lane_state_code LanePaused = 1"

fun policy_code :: "late_policy \<Rightarrow> u8" where
  "policy_code DeliverWithMarker = 0"
| "policy_code Expire = 1"

section \<open>The parts of the state\<close>

text \<open>The loop of the source over a slice, after the count it wrote.\<close>

definition counted :: "('a \<Rightarrow> bytes) \<Rightarrow> 'a list \<Rightarrow> bytes" where
  "counted w xs = enc_count (length xs) @ concat (map w xs)"

text \<open>The record of a flipped byte, with the original identity in an inbox and without it in an event.\<close>

definition write_full_mutation :: "byte_mutation option \<Rightarrow> bytes" where
  "write_full_mutation mutation =
     (case mutation of
        Some m \<Rightarrow> enc_bool True @ enc_u64 (saturating_u64 (bm_offset m)) @ enc_u8 (bm_from m) @
          enc_u8 (bm_to m) @ enc_wide (bm_original_message_id m)
      | None \<Rightarrow> enc_bool False @ enc_u64 0 @ enc_u8 0 @ enc_u8 0 @ enc_wide 0)"

definition write_short_mutation :: "byte_mutation option \<Rightarrow> bytes" where
  "write_short_mutation mutation =
     (case mutation of
        Some m \<Rightarrow> enc_bool True @ enc_u64 (saturating_u64 (bm_offset m)) @ enc_u8 (bm_from m) @
          enc_u8 (bm_to m)
      | None \<Rightarrow> enc_bool False @ enc_u64 0 @ enc_u8 0 @ enc_u8 0)"

definition write_control_entry :: "delivered_control \<Rightarrow> bytes" where
  "write_control_entry d =
     enc_u64 (dc_event d) @ enc_u32 (dc_source d) @ enc_u32 (dc_intended_destination d) @
     enc_blob (dc_bytes d) @ enc_wide (dc_message_id d) @ enc_tick (dc_delivered_at d) @
     enc_maybe_u64 (dc_duplicate_of d) @
     write_full_mutation (dc_mutation d) @
     enc_bool (dc_after_deadline d)"

definition write_control_inbox :: "delivered_control list \<Rightarrow> bytes" where
  "write_control_inbox entries = counted write_control_entry entries"

definition write_asset_entry :: "delivered_asset \<Rightarrow> bytes" where
  "write_asset_entry d =
     enc_u64 (da_event d) @ enc_wide (da_transfer d) @ enc_u32 (da_source d) @
     enc_u32 (da_intended_destination d) @ enc_u128 (da_requested d) @ enc_u128 (da_delivered d) @
     enc_tick (da_delivered_at d) @ enc_maybe_u64 (da_duplicate_of d) @ enc_maybe_u16 (da_piece d) @
     enc_bool (da_over_delivered d) @ enc_bool (da_after_timeout d)"

definition write_asset_inbox :: "delivered_asset list \<Rightarrow> bytes" where
  "write_asset_inbox entries = counted write_asset_entry entries"

definition write_endpoint :: "endpoint \<Rightarrow> bytes" where
  "write_endpoint n =
     enc_u32 (en_id n) @ enc_bool (is_halted n) @ write_control_inbox (en_control_inbox n) @
     write_asset_inbox (en_asset_inbox n)"

definition write_event :: "sim_event \<Rightarrow> bytes" where
  "write_event e =
     enc_u8 (lane_priority (ev_lane e)) @
     (case e of
        ControlE c \<Rightarrow>
          enc_u64 (ce_id c) @ enc_u32 (ce_source c) @ enc_u32 (ce_destination c) @
          enc_u32 (ce_intended_destination c) @ enc_blob (ce_bytes c) @ enc_wide (ce_message_id c) @
          enc_tick (ce_deliver_at c) @ enc_u32 (ce_attempts c) @ enc_maybe_u64 (ce_duplicate_of c) @
          write_short_mutation (ce_mutation c) @
          enc_maybe_tick (ce_expires_at c) @ enc_bool (ce_from_fault c) @
          enc_u8 (status_code (ce_status c))
      | AssetE a \<Rightarrow>
          enc_u64 (ae_id a) @ enc_wide (ae_transfer a) @ enc_u32 (ae_source a) @
          enc_u32 (ae_destination a) @ enc_u32 (ae_intended_destination a) @
          enc_u128 (ae_requested a) @ enc_u128 (ae_delivered a) @ enc_tick (ae_deliver_at a) @
          enc_u32 (ae_attempts a) @ enc_maybe_u64 (ae_duplicate_of a) @ enc_maybe_u16 (ae_piece a) @
          enc_bool (ae_over_delivered a) @ enc_maybe_tick (ae_timeout_at a) @
          enc_bool (ae_from_fault a) @ enc_u8 (status_code (ae_status a)))"

fun write_target :: "fault_target \<Rightarrow> bytes" where
  "write_target (TargetEvent i) = enc_u8 1 @ enc_u64 i"
| "write_target (TargetMessage i) = enc_u8 2 @ enc_wide i"
| "write_target (TargetTransfer i) = enc_u8 3 @ enc_wide i"
| "write_target (TargetRoute source destination lane) =
     enc_u8 4 @ enc_u32 source @ enc_u32 destination @ enc_u8 (lane_priority lane)"
| "write_target (TargetLane lane) = enc_u8 5 @ enc_u8 (lane_priority lane)"

fun write_action :: "fault_action \<Rightarrow> bytes" where
  "write_action (Delay ticks) = enc_u8 1 @ enc_u64 ticks"
| "write_action Drop = enc_u8 2"
| "write_action (Duplicate copies spacing) = enc_u8 3 @ enc_u16 copies @ enc_u64 spacing"
| "write_action (ReplaceDestination endpoint) = enc_u8 4 @ enc_u32 endpoint"
| "write_action (CorruptByte offset flip) = enc_u8 5 @ enc_u64 (saturating_u64 offset) @ enc_u8 flip"
| "write_action (Partial amount) = enc_u8 6 @ enc_u128 amount"
| "write_action (Split pieces spacing) = enc_u8 7 @ counted enc_u128 pieces @ enc_u64 spacing"
| "write_action (OverDeliver amount) = enc_u8 8 @ enc_u128 amount"

definition write_fault :: "fault \<Rightarrow> bytes" where
  "write_fault f = enc_u32 (ft_id f) @ write_target (ft_target f) @ write_action (ft_action f)"

definition write_key :: "queue_key \<Rightarrow> bytes" where
  "write_key k = enc_tick (qk_deliver_at k) @ enc_u8 (qk_lane_priority k) @ enc_u64 (qk_event k)"

definition write_lane :: "simulator \<Rightarrow> lane \<Rightarrow> bytes" where
  "write_lane s lane = enc_u8 (lane_priority lane) @ enc_u8 (lane_state_code (lane_state_of s lane))"

definition encode_state :: "simulator \<Rightarrow> bytes" where
  "encode_state s =
     enc_tag ''XSM1'' @
     enc_tag ''TIME'' @ enc_tick (sm_now s) @
     enc_tag ''CONF'' @ enc_u8 (policy_code (sc_control_late_policy (sm_config s))) @
       enc_u8 (policy_code (sc_asset_late_policy (sm_config s))) @
     enc_tag ''ENDP'' @ counted write_endpoint (bt_values (sm_endpoints s)) @
     enc_tag ''EVNT'' @ counted write_event (bt_values (sm_events s)) @
     enc_tag ''QUEU'' @ counted write_key (sm_queue s) @
     enc_tag ''HELD'' @ counted enc_u64 (sm_held s) @
     enc_tag ''LANE'' @ concat (map (write_lane s) lane_all) @
     enc_tag ''PLAN'' @ counted write_fault (plan_iter (sm_plan s)) @
     enc_tag ''BOUN'' @ counted enc_u64 (sm_resolved s) @
     enc_tag ''TRCE'' @ enc_count (length (sm_trace s)) @
     enc_tag ''NEXT'' @ enc_u64 (sm_next_event s)"

definition state_hash :: "'h digest \<Rightarrow> simulator \<Rightarrow> bytes32" where
  "state_hash D s = keccak256 D (encode_state s)"

section \<open>Snapshots\<close>

record snapshot =
  sn_state :: simulator
  sn_hash :: bytes32

definition snapshot_new :: "'h digest \<Rightarrow> simulator \<Rightarrow> snapshot" where
  "snapshot_new D s = \<lparr>sn_state = s, sn_hash = state_hash D s\<rparr>"

definition snapshot_restore :: "snapshot \<Rightarrow> simulator" where
  "snapshot_restore n = sn_state n"

definition snapshot_branch :: "'h digest \<Rightarrow> snapshot \<Rightarrow> sim_operation list \<Rightarrow> sim_error + simulator" where
  "snapshot_branch D n operations =
     (case apply_all D operations (snapshot_restore n) of
        (Inl e, copy) \<Rightarrow> Inl e
      | (Inr _, copy) \<Rightarrow> Inr copy)"

section \<open>Reading back\<close>

locale prefix_code =
  fixes w :: "'a \<Rightarrow> bytes"
    and ok :: "'a \<Rightarrow> bool"
    and view :: "'a \<Rightarrow> 'b"
  assumes reads: "ok x \<Longrightarrow> ok y \<Longrightarrow> w x @ r = w y @ r' \<Longrightarrow> view x = view y \<and> r = r'"
    and writes: "view x = view y \<Longrightarrow> w x = w y"
begin

lemma prefix_iff: "ok x \<Longrightarrow> ok y \<Longrightarrow> w x @ r = w y @ r' \<longleftrightarrow> view x = view y \<and> r = r'"
  using reads writes by metis

lemma concat_iff:
  "length xs = length ys \<Longrightarrow> list_all ok xs \<Longrightarrow> list_all ok ys \<Longrightarrow>
   concat (map w xs) @ r = concat (map w ys) @ r' \<longleftrightarrow> map view xs = map view ys \<and> r = r'"
  by (induction xs ys rule: list_induct2) (auto simp: prefix_iff)

end

lemma be_inj:
  assumes "8 dvd LENGTH('a::len)"
  shows "to_be_bytes (a :: 'a word) = to_be_bytes b \<longleftrightarrow> a = b"
  using from_to_be_bytes [of a, OF assms] from_to_be_bytes [of b, OF assms] by metis

named_theorems enc_iff \<open>what two equal encodings agree on\<close>

lemma enc_words [enc_iff]:
  "enc_u8 a @ r = enc_u8 b @ r' \<longleftrightarrow> a = b \<and> r = r'"
  "enc_bool p @ r = enc_bool q @ r' \<longleftrightarrow> p = q \<and> r = r'"
  "enc_u16 c @ r = enc_u16 d @ r' \<longleftrightarrow> c = d \<and> r = r'"
  "enc_u32 e @ r = enc_u32 f @ r' \<longleftrightarrow> e = f \<and> r = r'"
  "enc_u64 g @ r = enc_u64 h @ r' \<longleftrightarrow> g = h \<and> r = r'"
  "enc_u128 i @ r = enc_u128 j @ r' \<longleftrightarrow> i = j \<and> r = r'"
  "enc_wide k @ r = enc_wide l @ r' \<longleftrightarrow> k = l \<and> r = r'"
  "enc_tick m @ r = enc_tick n @ r' \<longleftrightarrow> m = n \<and> r = r'"
  by (simp_all add: enc_u8_def enc_bool_def enc_u16_def enc_u32_def enc_u64_def enc_u128_def
    enc_wide_def enc_tick_def be_inj)

lemma enc_options [enc_iff]:
  "enc_maybe_tick x @ r = enc_maybe_tick y @ r' \<longleftrightarrow> x = y \<and> r = r'"
  "enc_maybe_u64 x @ r = enc_maybe_u64 y @ r' \<longleftrightarrow> x = y \<and> r = r'"
  "enc_maybe_u16 u @ r = enc_maybe_u16 v @ r' \<longleftrightarrow> u = v \<and> r = r'"
proof -
  show "enc_maybe_tick x @ r = enc_maybe_tick y @ r' \<longleftrightarrow> x = y \<and> r = r'"
    and "enc_maybe_u64 x @ r = enc_maybe_u64 y @ r' \<longleftrightarrow> x = y \<and> r = r'"
    by (cases x; cases y; auto simp: enc_maybe_tick_def enc_maybe_u64_def enc_iff)+
  show "enc_maybe_u16 u @ r = enc_maybe_u16 v @ r' \<longleftrightarrow> u = v \<and> r = r'"
    by (cases u; cases v; auto simp: enc_maybe_u16_def enc_iff)
qed

lemma codes_inj [enc_iff]:
  "lane_priority x = lane_priority y \<longleftrightarrow> x = y" "lane_state_code a = lane_state_code b \<longleftrightarrow> a = b"
  "policy_code c = policy_code d \<longleftrightarrow> c = d" "status_code e = status_code f \<longleftrightarrow> e = f"
  subgoal by (cases x; cases y; simp)
  subgoal by (cases a; cases b; simp)
  subgoal by (cases c; cases d; simp)
  subgoal by (cases e; cases f; simp)
  done

abbreviation fits :: "'a list \<Rightarrow> bool" where
  "fits xs \<equiv> length xs < 2 ^ 32"

lemma saturating_inj:
  "m < 2 ^ 32 \<Longrightarrow> n < 2 ^ 32 \<Longrightarrow> saturating_u32 m = saturating_u32 n \<longleftrightarrow> m = n"
  "m < 2 ^ 64 \<Longrightarrow> n < 2 ^ 64 \<Longrightarrow> saturating_u64 m = saturating_u64 n \<longleftrightarrow> m = n"
  by (auto simp: saturating_u32_def saturating_u64_def dest!: arg_cong [of _ _ unat]
    simp: unat_of_nat take_bit_eq_mod)

lemma enc_count_iff:
  "m < 2 ^ 32 \<Longrightarrow> n < 2 ^ 32 \<Longrightarrow> enc_count m @ r = enc_count n @ r' \<longleftrightarrow> m = n \<and> r = r'"
  by (simp add: enc_count_def enc_iff saturating_inj)

lemma enc_blob_iff: "fits x \<Longrightarrow> fits y \<Longrightarrow> enc_blob x @ r = enc_blob y @ r' \<longleftrightarrow> x = y \<and> r = r'"
  by (auto simp: enc_blob_def enc_count_iff append_eq_append_conv)

context prefix_code
begin

lemma counted_iff:
  assumes "fits xs" "fits ys" "list_all ok xs" "list_all ok ys"
  shows "counted w xs @ r = counted w ys @ r' \<longleftrightarrow> map view xs = map view ys \<and> r = r'"
proof -
  have "map view xs = map view ys \<Longrightarrow> length xs = length ys" by (rule map_eq_imp_length_eq)
  then show ?thesis
    using assms concat_iff [of xs ys r r'] by (auto simp: counted_def enc_count_iff)
qed

lemma counted_same: "map view xs = map view ys \<Longrightarrow> counted w xs = counted w ys"
proof -
  assume v: "map view xs = map view ys"
  then have "length xs = length ys" by (rule map_eq_imp_length_eq)
  then have "concat (map w xs) = concat (map w ys)"
    using v by (induction xs ys rule: list_induct2) (auto dest: writes)
  with \<open>length xs = length ys\<close> show ?thesis by (simp add: counted_def)
qed

end

section \<open>Every part can be read back\<close>

text \<open>
  What has to fit: the counts are 32 bits wide and an offset is written in 64. \<open>hashed_event\<close> is what the
  bytes of an event say: all of it but the original identity in the record of a flipped byte.
\<close>

definition mutation_fits :: "byte_mutation option \<Rightarrow> bool" where
  "mutation_fits m = (case m of None \<Rightarrow> True | Some m \<Rightarrow> bm_offset m < 2 ^ 64)"

definition control_entry_fits :: "delivered_control \<Rightarrow> bool" where
  "control_entry_fits d = (fits (dc_bytes d) \<and> mutation_fits (dc_mutation d))"

definition endpoint_fits :: "endpoint \<Rightarrow> bool" where
  "endpoint_fits n =
     (fits (en_control_inbox n) \<and> list_all control_entry_fits (en_control_inbox n) \<and> fits (en_asset_inbox n))"

fun event_fits :: "sim_event \<Rightarrow> bool" where
  "event_fits (ControlE c) = (fits (ce_bytes c) \<and> mutation_fits (ce_mutation c))"
| "event_fits (AssetE a) = True"

fun hashed_event :: "sim_event \<Rightarrow> sim_event" where
  "hashed_event (ControlE c) =
     ControlE (c\<lparr>ce_mutation := map_option (\<lambda>m. m\<lparr>bm_original_message_id := 0\<rparr>) (ce_mutation c)\<rparr>)"
| "hashed_event (AssetE a) = AssetE a"

fun action_fits :: "fault_action \<Rightarrow> bool" where
  "action_fits (CorruptByte offset _) = (offset < 2 ^ 64)"
| "action_fits (Split pieces _) = fits pieces"
| "action_fits _ = True"

definition state_fits :: "simulator \<Rightarrow> bool" where
  "state_fits s =
     (fits (sm_endpoints s) \<and> list_all endpoint_fits (bt_values (sm_endpoints s)) \<and>
      fits (sm_events s) \<and> list_all event_fits (bt_values (sm_events s)) \<and>
      fits (sm_queue s) \<and> fits (sm_held s) \<and> fits (sm_resolved s) \<and> fits (sm_trace s) \<and>
      fits (sm_plan s) \<and> list_all (\<lambda>f. action_fits (ft_action f)) (plan_iter (sm_plan s)))"

lemma length_bt_values [simp]: "length (bt_values m) = length m"
  by (simp add: bt_values_def)

interpretation code_u64: prefix_code enc_u64 "\<lambda>_. True" id
  by unfold_locales (simp_all add: enc_iff)

interpretation code_u128: prefix_code enc_u128 "\<lambda>_. True" id
  by unfold_locales (simp_all add: enc_iff)

interpretation code_key: prefix_code write_key "\<lambda>_. True" id
proof unfold_locales
  fix x y :: queue_key and r r' :: bytes
  show "write_key x @ r = write_key y @ r' \<Longrightarrow> id x = id y \<and> r = r'"
    by (cases x; cases y) (simp add: write_key_def enc_iff)
qed simp

lemma mutation_full_iff:
  assumes "mutation_fits m" "mutation_fits n"
  shows "write_full_mutation m @ r = write_full_mutation n @ r' \<longleftrightarrow> m = n \<and> r = r'"
  using assms by (cases m; cases n)
    (auto simp: write_full_mutation_def enc_iff mutation_fits_def saturating_inj intro: byte_mutation.equality)

lemma mutation_short_iff:
  assumes "mutation_fits m" "mutation_fits n"
  shows "write_short_mutation m @ r = write_short_mutation n @ r' \<longleftrightarrow>
    map_option (\<lambda>m. m\<lparr>bm_original_message_id := 0\<rparr>) m = map_option (\<lambda>m. m\<lparr>bm_original_message_id := 0\<rparr>) n \<and>
    r = r'"
proof -
  have "x\<lparr>bm_original_message_id := 0\<rparr> = y\<lparr>bm_original_message_id := 0\<rparr> \<longleftrightarrow>
      bm_offset x = bm_offset y \<and> bm_from x = bm_from y \<and> bm_to x = bm_to y" for x y :: byte_mutation
    by (cases x; cases y) simp
  then show ?thesis
    using assms by (cases m; cases n)
      (auto simp: write_short_mutation_def enc_iff mutation_fits_def saturating_inj)
qed

interpretation code_control: prefix_code write_control_entry control_entry_fits id
proof unfold_locales
  fix x y :: delivered_control and r r' :: bytes
  show "control_entry_fits x \<Longrightarrow> control_entry_fits y \<Longrightarrow>
      write_control_entry x @ r = write_control_entry y @ r' \<Longrightarrow> id x = id y \<and> r = r'"
    by (cases x; cases y)
      (simp add: write_control_entry_def control_entry_fits_def enc_iff enc_blob_iff mutation_full_iff)
qed simp

interpretation code_asset: prefix_code write_asset_entry "\<lambda>_. True" id
proof unfold_locales
  fix x y :: delivered_asset and r r' :: bytes
  show "write_asset_entry x @ r = write_asset_entry y @ r' \<Longrightarrow> id x = id y \<and> r = r'"
    by (cases x; cases y) (simp add: write_asset_entry_def enc_iff)
qed simp

lemma list_all_True [simp]: "list_all (\<lambda>_. True) xs"
  by (simp add: list_all_iff)

interpretation code_endpoint: prefix_code write_endpoint endpoint_fits id
proof unfold_locales
  fix x y :: endpoint and r r' :: bytes
  assume "endpoint_fits x" "endpoint_fits y" "write_endpoint x @ r = write_endpoint y @ r'"
  then have "en_id x = en_id y" "is_halted x = is_halted y" "en_control_inbox x = en_control_inbox y"
    "en_asset_inbox x = en_asset_inbox y" "r = r'"
    by (auto simp: write_endpoint_def write_control_inbox_def write_asset_inbox_def endpoint_fits_def enc_iff
      code_control.counted_iff code_asset.counted_iff)
  moreover have "en_state x = en_state y"
    using \<open>is_halted x = is_halted y\<close> by (cases "en_state x"; cases "en_state y") (simp_all add: is_halted_def)
  ultimately show "id x = id y \<and> r = r'" by (auto intro: endpoint.equality)
qed simp

lemma short_mutation_same:
  "map_option (\<lambda>m. m\<lparr>bm_original_message_id := 0\<rparr>) m = map_option (\<lambda>m. m\<lparr>bm_original_message_id := 0\<rparr>) n \<Longrightarrow>
   write_short_mutation m = write_short_mutation n"
proof -
  have "write_short_mutation k = write_short_mutation (map_option (\<lambda>m. m\<lparr>bm_original_message_id := 0\<rparr>) k)" for k
    by (cases k) (simp_all add: write_short_mutation_def)
  then show "map_option (\<lambda>m. m\<lparr>bm_original_message_id := 0\<rparr>) m = map_option (\<lambda>m. m\<lparr>bm_original_message_id := 0\<rparr>) n \<Longrightarrow>
    write_short_mutation m = write_short_mutation n" by metis
qed

interpretation code_event: prefix_code write_event event_fits hashed_event
proof unfold_locales
  fix x y :: sim_event and r r' :: bytes
  assume fit: "event_fits x" "event_fits y" and eq: "write_event x @ r = write_event y @ r'"
  then have "ev_lane x = ev_lane y" by (simp add: write_event_def enc_iff)
  then consider (control) c d where "x = ControlE c" "y = ControlE d" | (asset) a b where "x = AssetE a" "y = AssetE b"
    by (cases x; cases y) auto
  then show "hashed_event x = hashed_event y \<and> r = r'"
  proof cases
    case control
    with fit eq show ?thesis
      by (cases c; cases d) (simp add: write_event_def enc_iff enc_blob_iff mutation_short_iff)
  next
    case asset
    with eq show ?thesis
      by (cases a; cases b) (simp add: write_event_def enc_iff)
  qed
next
  fix x y :: sim_event
  assume "hashed_event x = hashed_event y"
  then consider (control) c d where "x = ControlE c" "y = ControlE d" "hashed_event (ControlE c) = hashed_event (ControlE d)"
    | (asset) "x = y"
    by (cases x; cases y) auto
  then show "write_event x = write_event y"
  proof cases
    case control
    then have "write_short_mutation (ce_mutation c) = write_short_mutation (ce_mutation d)"
      by (intro short_mutation_same) (cases c; cases d; simp)
    with control show ?thesis by (cases c; cases d) (simp add: write_event_def)
  qed simp
qed

interpretation code_target: prefix_code write_target "\<lambda>_. True" id
proof unfold_locales
  fix x y :: fault_target and r r' :: bytes
  show "write_target x @ r = write_target y @ r' \<Longrightarrow> id x = id y \<and> r = r'"
    by (cases x; cases y) (simp_all add: enc_iff)
qed simp

interpretation code_action: prefix_code write_action action_fits id
proof unfold_locales
  fix x y :: fault_action and r r' :: bytes
  show "action_fits x \<Longrightarrow> action_fits y \<Longrightarrow> write_action x @ r = write_action y @ r' \<Longrightarrow> id x = id y \<and> r = r'"
    by (cases x; cases y) (simp_all add: enc_iff saturating_inj code_u128.counted_iff)
qed simp

interpretation code_fault: prefix_code write_fault "\<lambda>f. action_fits (ft_action f)" id
proof unfold_locales
  fix x y :: fault and r r' :: bytes
  show "action_fits (ft_action x) \<Longrightarrow> action_fits (ft_action y) \<Longrightarrow> write_fault x @ r = write_fault y @ r' \<Longrightarrow>
      id x = id y \<and> r = r'"
    by (cases x; cases y) (simp add: write_fault_def enc_iff code_target.prefix_iff code_action.prefix_iff)
qed simp

lemma enc_u64_end: "enc_u64 a = enc_u64 b \<longleftrightarrow> a = b"
  by (simp add: enc_u64_def be_inj)

text \<open>The canonical bytes say all of a state but the content of the trace.\<close>

lemma encode_state_iff:
  assumes "state_fits s" "state_fits t"
  shows "encode_state s = encode_state t \<longleftrightarrow>
    sm_now s = sm_now t \<and> sm_config s = sm_config t \<and>
    bt_values (sm_endpoints s) = bt_values (sm_endpoints t) \<and>
    map hashed_event (bt_values (sm_events s)) = map hashed_event (bt_values (sm_events t)) \<and>
    sm_queue s = sm_queue t \<and> sm_held s = sm_held t \<and> lane_state_of s = lane_state_of t \<and>
    plan_iter (sm_plan s) = plan_iter (sm_plan t) \<and> sm_resolved s = sm_resolved t \<and>
    length (sm_trace s) = length (sm_trace t) \<and> sm_next_event s = sm_next_event t"
proof -
  have lanes: "concat (map (write_lane s) lane_all) @ r = concat (map (write_lane t) lane_all) @ r' \<longleftrightarrow>
      lane_state_of s = lane_state_of t \<and> r = r'" for r r'
    by (auto simp: lane_all_def write_lane_def enc_iff fun_eq_iff) (metis lane.exhaust)+
  have config: "sm_config s = sm_config t \<longleftrightarrow>
      sc_control_late_policy (sm_config s) = sc_control_late_policy (sm_config t) \<and>
      sc_asset_late_policy (sm_config s) = sc_asset_late_policy (sm_config t)"
    by (auto intro: simulator_config.equality)
  have plan: "fits (plan_iter (sm_plan s))" "fits (plan_iter (sm_plan t))"
    using assms by (simp_all add: state_fits_def plan_iter_def)
  show ?thesis
    using assms plan unfolding encode_state_def state_fits_def
    by (simp add: enc_iff lanes config code_endpoint.counted_iff code_event.counted_iff code_key.counted_iff
      code_u64.counted_iff code_fault.counted_iff enc_count_iff enc_u64_end)
qed

end
