(* ===== verification/Sim_Props.thy ===== *)
theory Sim_Props
  imports Sim_Hash
begin

text \<open>
  The theorems about the transport simulator: every event is in exactly one place and is
  delivered at most once, runs drain the queue, refusals change nothing, deliveries come in
  the order of their keys, what arrives is what was sent up to the recorded fault, faults that
  declare no extra value deliver none, and the canonical bytes of a state commit to it.
\<close>

section \<open>Exactly one place\<close>

lemma scheduled_queued:
  assumes "books s" "event_at s i = Some e"
  shows "ev_status e = Scheduled \<longleftrightarrow> key_of e \<in> set (sm_queue s)" "qk_event (key_of e) = i"
    "key_tuple (key_of e) = (ev_deliver_at e, lane_priority (ev_lane e), i)"
    "qk_deliver_at (key_of e) = ev_deliver_at e"
  using assms(2) books_events(1) [OF assms] by (auto simp: books_events(5) [OF assms(1)] key_of_def queue_key_new_def)

text \<open>C14. In every state the simulator can reach, each event is in exactly one place and its status
  says which: it is scheduled if and only if the queue holds its key, blocked if and only if it is
  held, and it is in the inboxes, once over all endpoints, if and only if it is delivered; no event is left in
  the middle of an attempt, and the queue never holds two keys of one event.\<close>

theorem transport_exactly_once:
  assumes "sim_reachable D s" "event_at s i = Some e"
  shows "(ev_status e = Scheduled \<longleftrightarrow> i \<in> qk_event ` set (sm_queue s)) \<and>
    (ev_status e = Blocked \<longleftrightarrow> i \<in> set (sm_held s)) \<and>
    deliveries s i = (if ev_status e = Delivered then 1 else 0) \<and>
    ev_status e \<noteq> Ready \<and> inj_on qk_event (set (sm_queue s))"
proof -
  have b: "books s" and n: "inboxes_true s"
    using transport_reachable [OF assms(1)] by (simp_all add: transport_inv_def)
  note k = scheduled_queued [OF b assms(2)]
  note b = books_events [OF b]
  have "ev_status e = Scheduled \<longleftrightarrow> i \<in> qk_event ` set (sm_queue s)"
  proof
    assume "ev_status e = Scheduled"
    then show "i \<in> qk_event ` set (sm_queue s)" using k(1,2) by (metis image_eqI)
  next
    assume "i \<in> qk_event ` set (sm_queue s)"
    then show "ev_status e = Scheduled" using b(5) assms(2) by fastforce
  qed
  moreover have "inj_on qk_event (set (sm_queue s))"
    using b(5) by (metis inj_onI option.inject)
  moreover have "deliveries s i = (if ev_status e = Delivered then 1 else 0)"
    using n assms(2) by (simp add: inboxes_true_def delivered_event_def)
  ultimately show ?thesis
    using assms(2) b(3,6) by auto
qed

theorem transport_exactly_once_witness:
  "\<exists>e. event_at demo_final 2 = Some e \<and> deliveries demo_final 2 = 1"
  using transport_exactly_once [OF demo_final_reachable, of 2] demo_final_facts(6) by auto

text \<open>C21. Running until idle empties the queue from every state the simulator can reach: the loop ends, no
  event is lost, and each one has come to its final status or is held back by a paused lane or a
  halted endpoint that is still in its way.\<close>

theorem idle_run_drains:
  assumes "sim_reachable D s"
  shows "\<exists>n t. run_until_idle D s = (n, t) \<and> sm_queue t = [] \<and>
    (\<forall>i. event_at s i \<noteq> None \<longrightarrow> event_at t i \<noteq> None) \<and>
    (\<forall>i e. event_at t i = Some e \<longrightarrow>
       is_terminal (ev_status e) \<or> i \<in> set (sm_held t) \<and> stands_in_the_way t e)"
proof -
  obtain n t where t: "run_until_idle D s = (n, t)" by fastforce
  then have steps: "sim_steps D s t" and q: "sm_queue t = []"
    using run_until_idle_loop_steps [of D 0 s n t] run_steps_sim by (auto simp: run_until_idle_def)
  have inv: "transport_inv s" by (rule transport_reachable [OF assms])
  have kept: "event_at t i \<noteq> None" if "event_at s i \<noteq> None" for i
    using keeps_terminal_steps [OF steps inv] that by (fastforce simp: keeps_terminal_def)
  have "is_terminal (ev_status e) \<or> i \<in> set (sm_held t) \<and> stands_in_the_way t e"
    if e: "event_at t i = Some e" for i e
  proof -
    have b: "books t" and h: "held_blocked t"
      using keeps_terminal_steps [OF steps inv] by (simp_all add: transport_inv_def)
    note b' = books_events [OF b]
    have "ev_status e \<noteq> Scheduled" using scheduled_queued(1) [OF b e] q by simp
    moreover have "ev_status e \<noteq> Ready" using b'(3) e by simp
    moreover have "stands_in_the_way t e" "i \<in> set (sm_held t)" if "ev_status e = Blocked"
      using h b'(6) [of i] e that by (auto simp: held_blocked_def)
    ultimately show ?thesis by (cases "ev_status e") auto
  qed
  with t q kept show ?thesis by blast
qed

theorem idle_run_drains_witness: "\<exists>n t. run_until_idle demo_digest demo_final = (n, t) \<and> sm_queue t = []"
  using idle_run_drains [OF demo_final_reachable] by blast

text \<open>C22. What is finished stays finished: an event that was delivered, dropped, expired or rejected is the same
  event in every later state and is in the inboxes as often as before, whatever is scheduled,
  declared, reordered, halted or resumed afterwards.\<close>

theorem finished_events_final:
  assumes "sim_reachable D s" "sim_steps D s t" "event_at s i = Some e" "is_terminal (ev_status e)"
  shows "event_at t i = Some e \<and> deliveries t i = deliveries s i"
proof -
  have inv: "transport_inv s" by (rule transport_reachable [OF assms(1)])
  have t: "event_at t i = Some e"
    using keeps_terminal_steps [OF assms(2) inv] assms(3,4) by (fastforce simp: keeps_terminal_def)
  have "inboxes_true s" "inboxes_true t"
    using inv keeps_terminal_steps [OF assms(2) inv] by (simp_all add: transport_inv_def)
  with t assms(3) show ?thesis by (simp add: inboxes_true_def delivered_event_def)
qed

theorem finished_events_final_witness:
  "\<exists>e. event_at demo_final 2 = Some e \<and>
     event_at (snd (run_until_idle demo_digest demo_final)) 2 = Some e"
proof -
  obtain e where e: "event_at demo_final 2 = Some e" "is_terminal (ev_status e)"
    using demo_final_facts(6) by auto
  have "sim_steps demo_digest demo_final (snd (run_until_idle demo_digest demo_final))"
    using sim_apply_steps [of demo_digest RunUntilIdle demo_final] by simp
  with e show ?thesis using finished_events_final [OF demo_final_reachable _ e] by blast
qed

section \<open>Order and refusals\<close>

text \<open>C29. A delivery attempt takes the scheduled event that is first by tick, then lane (control before
  assets), then identifier, and only once its tick has come; when nothing is attempted, nothing changes and every
  scheduled event is due later.\<close>

theorem earliest_due_first:
  assumes "sim_reachable D s"
  shows "case deliver_next D s of
      (None, t) \<Rightarrow> t = s \<and>
        (\<forall>j b. event_at s j = Some b \<and> ev_status b = Scheduled \<longrightarrow> sm_now s < ev_deliver_at b)
    | (Some i, t) \<Rightarrow> \<exists>a. event_at s i = Some a \<and> ev_status a = Scheduled \<and> ev_deliver_at a \<le> sm_now s \<and>
        (\<forall>j b. event_at s j = Some b \<and> ev_status b = Scheduled \<longrightarrow>
           (ev_deliver_at a, lane_priority (ev_lane a), i) \<le> (ev_deliver_at b, lane_priority (ev_lane b), j))"
proof -
  have b: "books s" using transport_reachable [OF assms] by (simp add: transport_inv_def)
  note ev = books_events [OF b]
  show ?thesis
  proof (cases "queue_peek (sm_queue s)")
    case None
    then show ?thesis using scheduled_queued(1) [OF b] by (auto simp: deliver_next_def queue_peek_None)
  next
    case (Some k)
    then have k: "k \<in> set (sm_queue s)" "\<forall>k' \<in> set (sm_queue s). key_tuple k \<le> key_tuple k'"
      using queue_peek_least [OF ev(9)] by (auto simp: less_eq_queue_key_def)
    then obtain a where a: "event_at s (qk_event k) = Some a" "ev_status a = Scheduled" "k = key_of a"
      using ev(5) by blast
    have first: "(ev_deliver_at a, lane_priority (ev_lane a), qk_event k) \<le>
        (ev_deliver_at b, lane_priority (ev_lane b), j)"
      if "event_at s j = Some b" "ev_status b = Scheduled" for j b
      using k(2) a(2,3) that scheduled_queued(1,3) [OF b that(1)] scheduled_queued(3) [OF b a(1)] by metis
    have "qk_deliver_at k = ev_deliver_at a" using a(3) scheduled_queued(4) [OF b a(1)] by simp
    moreover have "(ev_deliver_at a, lane_priority (ev_lane a), qk_event k) \<le> (x, y) \<Longrightarrow> ev_deliver_at a \<le> x" for x y
      by (auto simp: less_eq_prod_def)
    ultimately show ?thesis
      using Some a(1,2) first
      by (cases "sm_now s < qk_deliver_at k") (auto simp: deliver_next_def not_less, metis order_less_le_trans)
  qed
qed

text \<open>A transfer scheduled before a message for the same tick, and the tick has come.\<close>

definition demo_due :: simulator where
  "demo_due = snd (apply_all demo_digest [ScheduleAsset (asset_request_new 5 1 2 100 3),
     ScheduleControl (control_request_new 1 2 [6, 8] 3), AdvanceTo 3] demo_sim)"

lemma demo_due_facts:
  "case apply_all demo_digest [ScheduleAsset (asset_request_new 5 1 2 100 3),
      ScheduleControl (control_request_new 1 2 [6, 8] 3), AdvanceTo 3] demo_sim of (r, s) \<Rightarrow>
     r = Inr () \<and> map_option ev_status (event_at s 1) = Some Scheduled \<and> fst (deliver_next demo_digest s) = Some 2"
  by (simp add: run_eval demo_run_defs)

theorem earliest_due_first_witness:
  "\<exists>a b. event_at demo_due 2 = Some a \<and> event_at demo_due 1 = Some b \<and> ev_status b = Scheduled \<and>
     fst (deliver_next demo_digest demo_due) = Some 2 \<and>
     (ev_deliver_at a, lane_priority (ev_lane a), 2) \<le> (ev_deliver_at b, lane_priority (ev_lane b), 1 :: event_id)"
proof -
  obtain r s where s: "apply_all demo_digest [ScheduleAsset (asset_request_new 5 1 2 100 3),
      ScheduleControl (control_request_new 1 2 [6, 8] 3), AdvanceTo 3] demo_sim = (r, s)" by fastforce
  have due: "demo_due = s" using s by (simp add: demo_due_def)
  have reach: "sim_reachable demo_digest s"
    by (rule reachable_steps [OF demo_sim_reachable apply_all_steps [OF s]])
  obtain b t where b: "event_at s 1 = Some b" "ev_status b = Scheduled" and t: "deliver_next demo_digest s = (Some 2, t)"
    using demo_due_facts s by (cases "deliver_next demo_digest s") auto
  show ?thesis
    using earliest_due_first [OF reach] b unfolding due t by auto
qed

text \<open>C23. A refused operation leaves the simulator as it was, and a list of operations stops at the first
  refusal: the state it leaves is the one the operations before reached.\<close>

theorem refusals_change_nothing:
  assumes "apply_all D ops s = (Inl err, t)"
  shows "\<exists>before op after. ops = before @ op # after \<and> apply_all D before s = (Inr (), t) \<and>
    sim_apply D op t = (Inl err, t)"
  using assms
proof (induction ops arbitrary: s)
  case (Cons op ops)
  obtain r u where u: "sim_apply D op s = (r, u)" by fastforce
  show ?case
  proof (cases r)
    case (Inl x)
    with u have "u = s" using sim_apply_refused by blast
    with u Inl Cons.prems have "t = s" "sim_apply D op s = (Inl err, s)" by (auto simp: m_then_def)
    then show ?thesis by (intro exI [of _ "[]"]) auto
  next
    case (Inr x)
    with u Cons.prems have "apply_all D ops u = (Inl err, t)" by (simp add: m_then_def)
    from Cons.IH [OF this] obtain before op' after where
      "ops = before @ op' # after" "apply_all D before u = (Inr (), t)" "sim_apply D op' t = (Inl err, t)" by blast
    with u Inr show ?thesis by (intro exI [of _ "op # before"]) (auto simp: m_then_def)
  qed
qed simp

theorem refusals_change_nothing_witness:
  "\<exists>before op after. [HaltEndpoint 9] = before @ op # after \<and>
     sim_apply demo_digest op demo_sim = (Inl (UnknownEndpointError 9), demo_sim)"
  using refusals_change_nothing [of demo_digest "[HaltEndpoint 9]" demo_sim "UnknownEndpointError 9" demo_sim]
  by (auto simp: m_then_def halt_endpoint_def bt_contains_def bt_get_def demo_sim_def)

lemma pending_key_of:
  assumes "books s" "pending_key s i = Inr k"
  obtains e where "event_at s i = Some e" "ev_status e = Scheduled" "k = key_of e" "k \<in> set (sm_queue s)"
    "qk_event k = i"
proof -
  from assms(2) have k: "k \<in> set (sm_queue s)" "qk_event k = i"
    by (auto simp: pending_key_def ok_or_Inr split: if_splits dest: queue_find_Some)
  then obtain e where "event_at s (qk_event k) = Some e" "ev_status e = Scheduled" "k = key_of e"
    using books_events(5) [OF assms(1), of k] by blast
  with k show ?thesis using that by blast
qed

lemma before_tick: "max (saturating_sub_word b 1) n < b \<longleftrightarrow> n < b" for b n :: u64
proof (cases "b = 0")
  case False
  then have "unat b \<noteq> 0" by (simp add: unat_eq_zero)
  moreover have "unat (saturating_sub_word b 1) \<le> unat b - 1"
    using unat_minus_one [OF False] by (simp add: saturating_sub_word_def)
  ultimately have "saturating_sub_word b 1 < b"
    unfolding word_less_nat_alt by linarith
  then show ?thesis by simp
qed simp

text \<open>C38. Moving an event before another succeeds for two pending events, leaves the other where it
  was, and puts the event at a strictly earlier tick exactly when the clock has not reached the other's tick yet;
  when the other is already due, the event does not come before it.\<close>

theorem move_before_needs_room:
  assumes "sim_reachable D s" "event_at s i = Some a" "event_at s j = Some b" "i \<noteq> j"
    "ev_status a = Scheduled" "ev_status b = Scheduled"
  shows "\<exists>t a'. move_before i j s = (Inr (), t) \<and> event_at t i = Some a' \<and> event_at t j = Some b \<and>
    (ev_deliver_at a' < ev_deliver_at b \<longleftrightarrow> sm_now s < ev_deliver_at b)"
proof -
  have bk: "books s" using transport_reachable [OF assms(1)] by (simp add: transport_inv_def)
  have find: "pending_key s m = Inr (key_of e)" if e: "event_at s m = Some e" "ev_status e = Scheduled" for m e
  proof -
    have "queue_find (sm_queue s) m \<noteq> None"
      using e scheduled_queued(1,2) [OF bk e(1)] unfolding queue_find_None by blast
    then obtain k where "pending_key s m = Inr k"
      using e(1) by (cases "queue_find (sm_queue s) m") (auto simp: pending_key_def bt_contains_get)
    with pending_key_of [OF bk this] e(1) show ?thesis by auto
  qed
  define target where "target = max (saturating_sub_word (ev_deliver_at b) 1) (sm_now s)"
  have t: "move_before i j s = (Inr (), move_to (key_of a) target s)"
    using find [OF assms(2,5)] find [OF assms(3,6)] scheduled_queued(4) [OF bk assms(3)]
    by (simp add: move_before_def m_check_def target_def)
  note ka = scheduled_queued [OF bk assms(2)]
  have moved: "event_at (move_to (key_of a) target s) m =
      (if m = i then Some (set_deliver_at target a) else event_at s m)" for m
  proof (cases "ev_deliver_at a = target")
    case True
    then have "set_deliver_at target a = a" by (cases a) auto
    with True assms(2) ka(4) show ?thesis by (simp add: move_to_def)
  next
    case False
    with assms(2) ka(2,4) show ?thesis
      by (simp add: move_to_def Let_def bt_get_insert_always sim_defs)
  qed
  show ?thesis
    using t moved [of i] moved [of j] assms(3,4) before_tick [of "ev_deliver_at b" "sm_now s"]
    by (auto simp: target_def)
qed

definition demo_pair :: simulator where
  "demo_pair = snd (apply_all demo_digest
     [ScheduleAsset (asset_request_new 5 1 2 100 3), ScheduleAsset (asset_request_new 6 1 2 100 2),
      AdvanceTo 2] demo_sim)"

theorem move_before_needs_room_witness:
  "\<exists>t. move_before 1 2 demo_pair = (Inr (), t) \<and>
     map_option ev_deliver_at (event_at t 2) = Some 2 \<and>
     (\<exists>a. event_at t 1 = Some a \<and> \<not> ev_deliver_at a < 2)"
proof -
  obtain s where run: "apply_all demo_digest
     [ScheduleAsset (asset_request_new 5 1 2 100 3), ScheduleAsset (asset_request_new 6 1 2 100 2),
      AdvanceTo 2] demo_sim = (Inr (), s)" "sm_now s = 2"
    "map_option (\<lambda>e. (ev_status e, ev_deliver_at e)) (event_at s 1) = Some (Scheduled, 3)"
    "map_option (\<lambda>e. (ev_status e, ev_deliver_at e)) (event_at s 2) = Some (Scheduled, 2)"
    by (simp add: run_eval demo_run_defs)
  have "sim_reachable demo_digest s"
    by (rule reachable_steps [OF demo_sim_reachable apply_all_steps [OF run(1)]])
  moreover obtain a b where "event_at s 1 = Some a" "ev_status a = Scheduled" "event_at s 2 = Some b"
    "ev_status b = Scheduled" "ev_deliver_at b = 2"
    using run(3,4) by auto
  moreover have "demo_pair = s" using run(1) by (simp add: demo_pair_def)
  ultimately show ?thesis
    using move_before_needs_room [of demo_digest s 1 a 2 b] run(2) by fastforce
qed

section \<open>Content\<close>

text \<open>A run of operations from a new simulator keeps the transport invariant and both properties of content.\<close>

lemma run_content:
  assumes "with_config c eps = Inr s0" "apply_best_effort D ops s0 = (rs, s)"
  shows "transport_inv s" "event_at s i = Some e \<Longrightarrow> authentic ops e"
    "event_at s i = Some e \<Longrightarrow> truthful D e" "event_at s i = Some e \<Longrightarrow> amount_ok e"
proof -
  have new: "transport_inv s0" by (rule transport_new [OF assms(1)])
  have none: "event_at s0 j = None" for j
    using assms(1) by (auto simp: with_config_def result_simps bt_get_def split: if_splits)
  show "event_at s i = Some e \<Longrightarrow> authentic ops e"
    using provenance.best_effort_good [OF assms(2) new, of ops] none
    by (auto simp: provenance.all_good_def control_of_def asset_of_def original_bytes_def restored_def)
  show "event_at s i = Some e \<Longrightarrow> truthful D e"
    using truth.best_effort_good [OF assms(2) new] none
    by (auto simp: truth.all_good_def control_of_def asset_of_def edit_recorded_def)
  show "event_at s i = Some e \<Longrightarrow> amount_ok e" "transport_inv s"
    using amounts.best_effort_good [OF assms(2) new] none
    by (auto simp: amounts.all_good_def control_of_def asset_of_def)
qed

text \<open>C16. Control messages are authentic up to the one recorded byte: whatever an endpoint received was
  scheduled by some operation of the run, from that source, for the destination recorded as intended,
  and putting the recorded byte back gives the bytes that were sent; its identity is the one of the bytes
  received, the edit names the true byte and the true original identity, and the late marker is set exactly when the
  deadline had passed.\<close>

theorem control_messages_authentic:
  assumes "with_config c eps = Inr s0" "apply_best_effort D ops s0 = (rs, s)" "m \<in> set (control_inbox s d)"
  shows "edit_recorded D (dc_bytes m) (dc_message_id m) (dc_mutation m) \<and>
    (\<exists>r. ScheduleControl r \<in> set ops \<and> restored (dc_bytes m) (dc_mutation m) = cr_bytes r \<and>
       dc_source m = cr_source r \<and> dc_intended_destination m = cr_destination r \<and>
       dc_after_deadline m = late_at (cr_expires_at r) (dc_delivered_at m))"
proof -
  note run = run_content [OF assms(1,2)]
  have "control_recorded s d m"
    using run(1) assms(3)
    by (cases "bt_get (sm_endpoints s) d") (simp_all add: transport_inv_def inboxes_true_def control_inbox_def)
  then obtain e where e: "event_at s (dc_event m) = Some (ControlE e)"
    "m = control_record e (dc_delivered_at m) (late_at (ce_expires_at e) (dc_delivered_at m))"
    by (auto simp: control_recorded_def delivered_event_def split: option.splits if_splits)
  have f: "dc_bytes m = ce_bytes e" "dc_message_id m = ce_message_id e" "dc_mutation m = ce_mutation e"
    "dc_source m = ce_source e" "dc_intended_destination m = ce_intended_destination e"
    "dc_after_deadline m = late_at (ce_expires_at e) (dc_delivered_at m)"
    by (subst e(2), simp add: control_record_def)+
  show ?thesis
    using run(2,3) [OF e(1)] by (auto simp: f original_bytes_def)
qed

theorem control_messages_authentic_witness:
  "\<exists>m \<in> set (control_inbox demo_final 2). dc_bytes m = [7, 8] \<and> restored (dc_bytes m) (dc_mutation m) = [6, 8]"
proof -
  obtain m where m: "m \<in> set (control_inbox demo_final 2)" "dc_bytes m = [7, 8]"
    using demo_final_facts(8) by (metis list.set_intros(1) map_eq_Cons_D)
  have "with_config config_default [1, 2] = Inr demo_sim"
    using demo_sim_new by (simp add: simulator_new_def)
  from control_messages_authentic [OF this best_effort_all [OF demo_final_facts(1)] m(1)] m
  show ?thesis by (auto simp: demo_operations_def control_request_new_def)
qed

text \<open>Asset deliveries are authentic and bounded: whatever an endpoint received under a transfer was
  scheduled by some operation of the run, with that source and intended destination and the amount
  recorded as requested; it is never zero, it exceeds the request only when it is marked as over-delivered, and the
  late marker is set exactly when the timeout had passed.\<close>

theorem asset_deliveries_bounded:
  assumes "with_config c eps = Inr s0" "apply_best_effort D ops s0 = (rs, s)" "a \<in> set (asset_inbox s d)"
  shows "da_delivered a \<noteq> 0 \<and> (\<not> da_over_delivered a \<longrightarrow> da_delivered a \<le> da_requested a) \<and>
    (\<exists>r. ScheduleAsset r \<in> set ops \<and> da_transfer a = ar_transfer r \<and> da_requested a = ar_amount r \<and>
       da_source a = ar_source r \<and> da_intended_destination a = ar_destination r \<and>
       da_after_timeout a = late_at (ar_timeout_at r) (da_delivered_at a))"
proof -
  note run = run_content [OF assms(1,2)]
  have "asset_recorded s d a"
    using run(1) assms(3)
    by (cases "bt_get (sm_endpoints s) d") (simp_all add: transport_inv_def inboxes_true_def asset_inbox_def)
  then obtain e where e: "event_at s (da_event a) = Some (AssetE e)"
    "a = asset_record e (da_delivered_at a) (late_at (ae_timeout_at e) (da_delivered_at a))"
    by (auto simp: asset_recorded_def delivered_event_def split: option.splits if_splits)
  have f: "da_delivered a = ae_delivered e" "da_over_delivered a = ae_over_delivered e"
    "da_requested a = ae_requested e" "da_transfer a = ae_transfer e" "da_source a = ae_source e"
    "da_intended_destination a = ae_intended_destination e"
    "da_after_timeout a = late_at (ae_timeout_at e) (da_delivered_at a)"
    by (subst e(2), simp add: asset_record_def)+
  show ?thesis
    using run(2,4) [OF e(1)] by (auto simp: f)
qed

theorem asset_deliveries_bounded_witness:
  "\<exists>a \<in> set (asset_inbox demo_final 2). da_delivered a = 60 \<and> da_transfer a = 5 \<and> da_requested a = 100"
proof -
  obtain a where a: "a \<in> set (asset_inbox demo_final 2)" "da_delivered a = 60"
    using demo_final_facts(9) by (metis list.set_intros(1) map_eq_Cons_D)
  have "with_config config_default [1, 2] = Inr demo_sim"
    using demo_sim_new by (simp add: simulator_new_def)
  from asset_deliveries_bounded [OF this best_effort_all [OF demo_final_facts(1)] a(1)] a
  show ?thesis by (auto simp: demo_operations_def asset_request_new_def)
qed

section \<open>Value\<close>

text \<open>C15. Faults do not create value by themselves: as long as no fault duplicates or over-delivers and the
  plan does not mix splits with partial amounts, what all endpoints received under a transfer is at
  most what was scheduled under it, however the deliveries are split, cut, delayed, rerouted or reordered.\<close>

theorem value_never_grows:
  assumes "sim_reachable D s" "keeps_value (sm_plan s)"
  shows "unat (delivered_for_transfer s x) \<le> event_sum (sent x) s"
proof -
  have t: "inboxes_true s" "books s" using transport_reachable [OF assms(1)] by (simp_all add: transport_inv_def)
  have "unat (delivered_for_transfer s x) \<le> event_sum (carried x) s"
    by (rule reported_within [OF t(1) books_events(8) [OF t(2)]])
  also have "\<dots> \<le> event_sum (sent x) s"
    using value_reachable [OF assms(1)] assms(2) by (simp add: value_inv_def)
  finally show ?thesis .
qed

theorem value_never_grows_witness:
  "unat (delivered_for_transfer demo_final 5) \<le> event_sum (sent 5) demo_final \<and>
     delivered_for_transfer demo_final 5 = 60"
  using value_never_grows [OF demo_final_reachable demo_final_facts(5), of 5] demo_final_facts(10) by simp

text \<open>C39. The restriction is needed. For all amounts, on a new simulator with two endpoints: a transfer of \<open>r\<close> split
  into \<open>p\<close> and \<open>q\<close>, whose second piece then gets a partial fault of any \<open>m\<close> up to \<open>r\<close>, is accepted by every check
  and delivers \<open>p + m\<close>, although no fault duplicates or over-delivers and \<open>r\<close> was sent; so more than was sent
  whenever \<open>m\<close> exceeds what \<open>p\<close> leaves. The checks compare the partial amount with the request of the whole transfer,
  which every piece carries.\<close>

theorem split_then_partial_overpays:
  assumes "p \<noteq> 0" "q \<noteq> 0" "unat p + unat q \<le> unat r" "m \<noteq> 0" "m \<le> r" "unat p + unat m < 2 ^ 128"
  shows "case apply_all D (split_then_partial x r p q m) demo_sim of (result, s) \<Rightarrow>
     result = Inr () \<and> \<not> plan_has makes_value (sm_plan s) \<and> event_sum (sent x) s = unat r \<and>
     unat (delivered_for_transfer s x) = unat p + unat m"
proof -
  have sums: "unat (p + q) = unat p + unat q" "unat (p + m) = unat p + unat m" "unat p + unat q < 2 ^ 128"
    using assms(3,6) unat_below [of r] by (simp_all add: unat_word_ariths)
  then have "\<not> r < p + q" "r \<noteq> 0" "\<not> r < m" "\<not> r < p" "\<not> r < q"
    using assms by (auto simp: word_less_nat_alt word_le_nat_alt unat_eq_0)
  then show ?thesis
    using assms(6) sums(3)
    by (simp add: run_eval demo_run_defs plan_has_def delivered_for_transfer_def event_sum_def assms(1,2,4) sums(2))
qed

theorem split_then_partial_overpays_witness:
  "case apply_all demo_digest (split_then_partial 5 100 60 40 100) demo_sim of (result, s) \<Rightarrow>
     result = Inr () \<and> \<not> plan_has makes_value (sm_plan s) \<and> event_sum (sent 5) s = 100 \<and>
     unat (delivered_for_transfer s 5) = 160"
  using split_then_partial_overpays [where p = 60 and q = 40 and r = 100 and m = 100 and x = 5 and D = demo_digest] by simp

section \<open>Canonical bytes\<close>

text \<open>The identity that the bytes of an event leave out follows from what they say.\<close>

lemma mutation_determined:
  assumes "edit_recorded D bs i m" "edit_recorded D bs j n"
    "map_option (\<lambda>m. m\<lparr>bm_original_message_id := 0\<rparr>) m = map_option (\<lambda>m. m\<lparr>bm_original_message_id := 0\<rparr>) n"
  shows "m = n"
proof (cases m)
  case None
  with assms(3) show ?thesis by simp
next
  case (Some x)
  with assms(3) obtain y where n: "n = Some y"
    and xy: "x\<lparr>bm_original_message_id := 0\<rparr> = y\<lparr>bm_original_message_id := 0\<rparr>" by (cases n) auto
  then have same: "bm_offset x = bm_offset y" "bm_from x = bm_from y" "bm_to x = bm_to y"
    by (cases x; cases y; simp)+
  have "bm_original_message_id x = message_identity D (bs[bm_offset x := bm_from x])"
    "bm_original_message_id y = message_identity D (bs[bm_offset y := bm_from y])"
    using assms(1,2) Some n by (auto simp: edit_recorded_def restored_def)
  with same have "x = y" by (intro byte_mutation.equality) simp_all
  with Some n show ?thesis by simp
qed

lemma hashed_event_inj:
  assumes "truthful D x" "truthful D y" "hashed_event x = hashed_event y"
  shows "x = y"
proof (cases x)
  case (ControlE c)
  with assms(3) obtain d where d: "y = ControlE d" by (cases y) auto
  have bytes: "ce_bytes c = ce_bytes d" and short: "map_option (\<lambda>m. m\<lparr>bm_original_message_id := 0\<rparr>) (ce_mutation c) =
      map_option (\<lambda>m. m\<lparr>bm_original_message_id := 0\<rparr>) (ce_mutation d)"
    using assms(3) ControlE d by (cases c; cases d; simp)+
  have "edit_recorded D (ce_bytes d) (ce_message_id c) (ce_mutation c)"
    "edit_recorded D (ce_bytes d) (ce_message_id d) (ce_mutation d)"
    using assms(1,2) unfolding ControlE d truthful.simps bytes .
  then have "ce_mutation c = ce_mutation d" using short by (rule mutation_determined)
  moreover have "c\<lparr>ce_mutation := None\<rparr> = d\<lparr>ce_mutation := None\<rparr>"
    using assms(3) ControlE d by (cases c; cases d) simp
  ultimately have "c = d" by (cases c; cases d) simp
  then show ?thesis using ControlE d by simp
next
  case (AssetE a)
  with assms(3) show ?thesis by (cases y) auto
qed

text \<open>C30. The canonical bytes commit to the state: two states reached by runs of operations, each small
  enough for its 32 bit counts, have the same bytes if and only if they have the same clock,
  configuration, endpoints with their inboxes, events, queue, held events, lanes, plan, resolved events and next
  identifier, and traces of the same length. The content of the trace is not part of it.\<close>

theorem state_bytes_commit:
  assumes "with_config c eps = Inr s0" "apply_best_effort D ops s0 = (rs, s)" "state_fits s"
    "with_config c' eps' = Inr t0" "apply_best_effort D ops' t0 = (rs', t)" "state_fits t"
  shows "encode_state s = encode_state t \<longleftrightarrow>
    sm_now s = sm_now t \<and> sm_config s = sm_config t \<and>
    bt_values (sm_endpoints s) = bt_values (sm_endpoints t) \<and>
    bt_values (sm_events s) = bt_values (sm_events t) \<and>
    sm_queue s = sm_queue t \<and> sm_held s = sm_held t \<and> lane_state_of s = lane_state_of t \<and>
    plan_iter (sm_plan s) = plan_iter (sm_plan t) \<and> sm_resolved s = sm_resolved t \<and>
    length (sm_trace s) = length (sm_trace t) \<and> sm_next_event s = sm_next_event t"
proof -
  have truthful: "truthful D e" if "e \<in> set (bt_values (sm_events u))" "transport_inv u"
    "\<And>i e. event_at u i = Some e \<Longrightarrow> truthful D e" for u e
  proof -
    have "bt_wf (sm_events u)" using that(2) books_events(8) by (auto simp: transport_inv_def)
    with that(1) obtain i where "event_at u i = Some e"
      by (auto simp: bt_values_def bt_wf_def bt_get_def strict_sorted_iff intro: map_of_is_SomeI)
    then show ?thesis by (rule that(3))
  qed
  have "inj_on hashed_event (set (bt_values (sm_events s)) \<union> set (bt_values (sm_events t)))"
    using truthful run_content(1,3) [OF assms(1,2)] run_content(1,3) [OF assms(4,5)]
    by (intro inj_onI) (metis Un_iff hashed_event_inj)
  then have "map hashed_event (bt_values (sm_events s)) = map hashed_event (bt_values (sm_events t)) \<longleftrightarrow>
      bt_values (sm_events s) = bt_values (sm_events t)"
    by (rule inj_on_map_eq_map)
  then show ?thesis
    unfolding encode_state_iff [OF assms(3,6)] by simp
qed

lemma demo_fits: "state_fits demo_final" "state_fits demo_sim"
proof -
  have "case apply_all demo_digest demo_operations demo_sim of (r, s) \<Rightarrow> state_fits s"
    by (simp add: run_eval demo_run_defs state_fits_def endpoint_fits_def control_entry_fits_def mutation_fits_def)
  then show "state_fits demo_final" by (simp add: demo_final_facts(1))
  show "state_fits demo_sim"
    by (simp add: demo_sim_def state_fits_def endpoint_fits_def endpoint_new_def bt_values_def plan_iter_def)
qed

theorem state_bytes_commit_witness: "encode_state demo_final \<noteq> encode_state demo_sim"
proof -
  have new: "with_config config_default [1, 2] = Inr demo_sim"
    using demo_sim_new by (simp add: simulator_new_def)
  have "apply_best_effort demo_digest [] demo_sim = ([], demo_sim)" by simp
  from state_bytes_commit [OF new best_effort_all [OF demo_final_facts(1)] demo_fits(1) new this demo_fits(2)]
  show ?thesis by (simp add: demo_final_facts(4) demo_sim_def)
qed

end
