(* ===== verification/Strategy.thy ===== *)
theory Strategy
  imports Leg_State
begin

text \<open>
  The deterministic strategy program that the remote leg deploys into
  (\<open>programs/solevm-remote-leg/test-strategy/src/lib.rs\<close>), in the build without its \<open>hostile\<close> feature. It
  holds principal in one token vault and returns it with a configured loss. Address derivation and the SPL
  token transfer are parameters; failures of the framework and of the token program are one error.
\<close>

section \<open>State\<close>

definition STRATEGY_STATE_SEED :: bytes where
  "STRATEGY_STATE_SEED = ascii_bytes ''adapter-state''"

definition STRATEGY_AUTHORITY_SEED :: bytes where
  "STRATEGY_AUTHORITY_SEED = ascii_bytes ''adapter-authority''"

definition REMOTE_CUSTODY_AUTHORITY_SEED :: bytes where
  "REMOTE_CUSTODY_AUTHORITY_SEED = ascii_bytes ''custody-authority''"

definition REMOTE_CALLER_SEED :: bytes where
  "REMOTE_CALLER_SEED = ascii_bytes ''adapter-caller''"

definition ADAPTER_STATE_VERSION :: u8 where
  "ADAPTER_STATE_VERSION = 1"

definition STRATEGY_MAX_BASIS_POINTS :: u16 where
  "STRATEGY_MAX_BASIS_POINTS = 10000"

record adapter_state =
  as_state_version :: u8
  as_bump :: u8
  as_authority_bump :: u8
  as_deposits_paused :: bool
  as_remote_leg_program :: pubkey
  as_remote_config :: pubkey
  as_mint :: pubkey
  as_token_program :: pubkey
  as_adapter_authority :: pubkey
  as_adapter_token_vault :: pubkey
  as_test_authority :: pubkey
  as_principal :: u64
  as_max_liquid_principal :: u64
  as_loss_bps :: u16
  as_initialized_at :: i64

record adapter_params =
  ap_remote_leg_program :: pubkey
  ap_remote_config :: pubkey
  ap_test_authority :: pubkey
  ap_max_liquid_principal :: u64
  ap_loss_bps :: u16

record test_conditions =
  tc_max_liquid_principal :: u64
  tc_loss_bps :: u16
  tc_deposits_paused :: bool

datatype adapter_error =
    AdapterUnauthorized
  | AdapterInvalidStateVersion
  | InvalidRemoteLeg
  | AdapterInvalidBasisPoints
  | AdapterInvalidMint
  | AdapterInvalidTokenProgram
  | InvalidAdapterVault
  | InvalidAdapterAuthority
  | InvalidRemoteCustody
  | DepositsPaused
  | InsufficientLiquidity
  | InvalidBalanceDelta
  | AdapterNothingToDo
  | AdapterArithmeticOverflow
  | AdapterFramework

type_synonym token_store = "pubkey \<rightharpoonup> token_account"

text \<open>The runtime: this program's identifier, the token program's, address derivation, and the token
  transfer from one account to another under an authority.\<close>

record strategy_env =
  se_id :: pubkey
  se_token_program :: pubkey
  se_find_program_address :: "bytes list \<Rightarrow> pubkey \<Rightarrow> pubkey \<times> u8"
  se_create_program_address :: "bytes list \<Rightarrow> pubkey \<Rightarrow> pubkey option"
  se_token_transfer :: "pubkey \<Rightarrow> pubkey \<Rightarrow> pubkey \<Rightarrow> u64 \<Rightarrow> token_store \<Rightarrow> token_store option"

record strategy_world =
  sw_states :: "pubkey \<rightharpoonup> adapter_state"
  sw_tokens :: token_store
  sw_mints :: "pubkey \<Rightarrow> bool"

definition adapter_authority_of :: "strategy_env \<Rightarrow> pubkey \<Rightarrow> pubkey \<times> u8" where
  "adapter_authority_of env state_key =
     se_find_program_address env [STRATEGY_AUTHORITY_SEED, to_be_bytes state_key] (se_id env)"

definition remote_custody_authority :: "strategy_env \<Rightarrow> adapter_state \<Rightarrow> pubkey" where
  "remote_custody_authority env a =
     fst (se_find_program_address env [REMOTE_CUSTODY_AUTHORITY_SEED, to_be_bytes (as_remote_config a)]
       (as_remote_leg_program a))"

definition remote_caller :: "strategy_env \<Rightarrow> adapter_state \<Rightarrow> pubkey" where
  "remote_caller env a =
     fst (se_find_program_address env [REMOTE_CALLER_SEED, to_be_bytes (as_remote_config a)]
       (as_remote_leg_program a))"

section \<open>Accounts of an instruction\<close>

definition load_adapter_state :: "strategy_world \<Rightarrow> pubkey \<Rightarrow> adapter_error + adapter_state" where
  "load_adapter_state w key = ok_or (sw_states w key) AdapterFramework"

definition load_token_account :: "strategy_world \<Rightarrow> pubkey \<Rightarrow> adapter_error + token_account" where
  "load_token_account w key = ok_or (sw_tokens w key) AdapterFramework"

definition load_mint :: "strategy_world \<Rightarrow> pubkey \<Rightarrow> adapter_error + unit" where
  "load_mint w key = require (sw_mints w key) AdapterFramework"

definition load_token_program :: "strategy_env \<Rightarrow> pubkey \<Rightarrow> adapter_error + unit" where
  "load_token_program env key = require (key = se_token_program env) AdapterFramework"

text \<open>\<open>seeds = [STRATEGY_STATE_SEED, adapter_state.remote_config], bump = adapter_state.bump\<close>\<close>

definition check_state_address :: "strategy_env \<Rightarrow> pubkey \<Rightarrow> adapter_state \<Rightarrow> adapter_error + unit" where
  "check_state_address env key a =
     require (se_create_program_address env
         [STRATEGY_STATE_SEED, to_be_bytes (as_remote_config a), [as_bump a]] (se_id env) = Some key)
       AdapterFramework"

record initialize_adapter_accounts =
  ia_adapter_state :: pubkey
  ia_mint :: pubkey
  ia_adapter_token_vault :: pubkey
  ia_token_program :: pubkey

record configure_adapter_accounts =
  cg_test_authority :: pubkey
  cg_adapter_state :: pubkey

record deposit_exact_accounts =
  de_remote_caller :: pubkey
  de_adapter_state :: pubkey
  de_adapter_token_vault :: pubkey
  de_mint :: pubkey
  de_token_program :: pubkey

record withdraw_accounts =
  wd_remote_caller :: pubkey
  wd_adapter_state :: pubkey
  wd_adapter_authority :: pubkey
  wd_remote_custody :: pubkey
  wd_adapter_token_vault :: pubkey
  wd_mint :: pubkey
  wd_token_program :: pubkey

definition check_common :: "adapter_state \<Rightarrow> pubkey \<Rightarrow> pubkey \<Rightarrow> adapter_error + unit" where
  "check_common a token_program mint =
     and_then (require (as_state_version a = ADAPTER_STATE_VERSION) AdapterInvalidStateVersion) (\<lambda>_.
     and_then (require (token_program = as_token_program a) AdapterInvalidTokenProgram) (\<lambda>_.
     require (mint = as_mint a) AdapterInvalidMint))"

definition loss_on :: "u64 \<Rightarrow> u16 \<Rightarrow> adapter_error + u64" where
  "loss_on reduction loss_bps =
     and_then (ok_or (checked_mul_word (u128_of_u64 reduction) (ucast loss_bps)) AdapterArithmeticOverflow) (\<lambda>scaled.
     ok_or (u64_of_u128 (scaled div ucast STRATEGY_MAX_BASIS_POINTS)) AdapterArithmeticOverflow)"

section \<open>Instructions\<close>

definition initialize_adapter ::
  "strategy_env \<Rightarrow> i64 \<Rightarrow> initialize_adapter_accounts \<Rightarrow> adapter_params \<Rightarrow> strategy_world \<Rightarrow>
   adapter_error + strategy_world" where
  "initialize_adapter env now x params w =
     (let (address, bump) = se_find_program_address env
            [STRATEGY_STATE_SEED, to_be_bytes (ap_remote_config params)] (se_id env) in
      and_then (require (ia_adapter_state x = address \<and> sw_states w (ia_adapter_state x) = None) AdapterFramework) (\<lambda>_.
      and_then (load_mint w (ia_mint x)) (\<lambda>_.
      and_then (load_token_account w (ia_adapter_token_vault x)) (\<lambda>vault.
      and_then (load_token_program env (ia_token_program x)) (\<lambda>_.
      and_then (require (ap_remote_leg_program params \<noteq> 0) InvalidRemoteLeg) (\<lambda>_.
      and_then (require (ap_remote_config params \<noteq> 0) InvalidRemoteLeg) (\<lambda>_.
      and_then (require (ap_test_authority params \<noteq> 0) AdapterUnauthorized) (\<lambda>_.
      and_then (require (ap_loss_bps params \<le> STRATEGY_MAX_BASIS_POINTS) AdapterInvalidBasisPoints) (\<lambda>_.
      let (authority, authority_bump) = adapter_authority_of env (ia_adapter_state x) in
      and_then (require (ta_owner vault = authority) InvalidAdapterVault) (\<lambda>_.
      and_then (require (ta_mint vault = ia_mint x) AdapterInvalidMint) (\<lambda>_.
      and_then (require (ta_delegate vault = None) InvalidAdapterVault) (\<lambda>_.
      and_then (require (ta_close_authority vault = None) InvalidAdapterVault) (\<lambda>_.
      Inr (w\<lparr>sw_states := (sw_states w)(ia_adapter_state x \<mapsto>
        \<lparr>as_state_version = ADAPTER_STATE_VERSION, as_bump = bump, as_authority_bump = authority_bump,
         as_deposits_paused = False, as_remote_leg_program = ap_remote_leg_program params,
         as_remote_config = ap_remote_config params, as_mint = ia_mint x,
         as_token_program = ia_token_program x, as_adapter_authority = authority,
         as_adapter_token_vault = ia_adapter_token_vault x,
         as_test_authority = ap_test_authority params, as_principal = 0,
         as_max_liquid_principal = ap_max_liquid_principal params, as_loss_bps = ap_loss_bps params,
         as_initialized_at = now\<rparr>)\<rparr>))))))))))))))"

definition configure_adapter_test_conditions ::
  "strategy_env \<Rightarrow> configure_adapter_accounts \<Rightarrow> test_conditions \<Rightarrow> strategy_world \<Rightarrow>
   adapter_error + strategy_world" where
  "configure_adapter_test_conditions env x conditions w =
     and_then (load_adapter_state w (cg_adapter_state x)) (\<lambda>a.
     and_then (require (cg_test_authority x = as_test_authority a) AdapterUnauthorized) (\<lambda>_.
     and_then (check_state_address env (cg_adapter_state x) a) (\<lambda>_.
     and_then (require (tc_loss_bps conditions \<le> STRATEGY_MAX_BASIS_POINTS) AdapterInvalidBasisPoints) (\<lambda>_.
     Inr (w\<lparr>sw_states := (sw_states w)(cg_adapter_state x \<mapsto>
       a\<lparr>as_max_liquid_principal := tc_max_liquid_principal conditions,
         as_loss_bps := tc_loss_bps conditions,
         as_deposits_paused := tc_deposits_paused conditions\<rparr>)\<rparr>)))))"

definition strategy_deposit_exact ::
  "strategy_env \<Rightarrow> deposit_exact_accounts \<Rightarrow> u64 \<Rightarrow> strategy_world \<Rightarrow> adapter_error + strategy_world" where
  "strategy_deposit_exact env x amount w =
     and_then (load_adapter_state w (de_adapter_state x)) (\<lambda>a.
     and_then (load_token_account w (de_adapter_token_vault x)) (\<lambda>vault.
     and_then (load_mint w (de_mint x)) (\<lambda>_.
     and_then (load_token_program env (de_token_program x)) (\<lambda>_.
     and_then (require (de_remote_caller x = remote_caller env a) AdapterUnauthorized) (\<lambda>_.
     and_then (check_state_address env (de_adapter_state x) a) (\<lambda>_.
     and_then (require (\<not> as_deposits_paused a) DepositsPaused) (\<lambda>_.
     and_then (require (amount \<noteq> 0) AdapterNothingToDo) (\<lambda>_.
     and_then (check_common a (de_token_program x) (de_mint x)) (\<lambda>_.
     and_then (require (de_adapter_token_vault x = as_adapter_token_vault a) InvalidAdapterVault) (\<lambda>_.
     and_then (ok_or (checked_add_word (as_principal a) amount) AdapterArithmeticOverflow) (\<lambda>principal.
     and_then (require (principal \<le> ta_amount vault) InvalidBalanceDelta) (\<lambda>_.
     Inr (w\<lparr>sw_states := (sw_states w)(de_adapter_state x \<mapsto> a\<lparr>as_principal := principal\<rparr>)\<rparr>)))))))))))))"

definition withdraw_for_remote_leg ::
  "strategy_env \<Rightarrow> withdraw_accounts \<Rightarrow> u64 \<Rightarrow> strategy_world \<Rightarrow> adapter_error + strategy_world" where
  "withdraw_for_remote_leg env x requested_principal w =
     and_then (load_adapter_state w (wd_adapter_state x)) (\<lambda>a.
     and_then (load_token_account w (wd_remote_custody x)) (\<lambda>custody.
     and_then (load_token_account w (wd_adapter_token_vault x)) (\<lambda>vault.
     and_then (load_mint w (wd_mint x)) (\<lambda>_.
     and_then (load_token_program env (wd_token_program x)) (\<lambda>_.
     and_then (require (wd_remote_caller x = remote_caller env a) AdapterUnauthorized) (\<lambda>_.
     and_then (check_state_address env (wd_adapter_state x) a) (\<lambda>_.
     and_then (require (se_create_program_address env
         [STRATEGY_AUTHORITY_SEED, to_be_bytes (wd_adapter_state x), [as_authority_bump a]] (se_id env) =
         Some (wd_adapter_authority x)) AdapterFramework) (\<lambda>_.
     and_then (check_common a (wd_token_program x) (wd_mint x)) (\<lambda>_.
     and_then (require (wd_adapter_token_vault x = as_adapter_token_vault a) InvalidAdapterVault) (\<lambda>_.
     and_then (require (wd_adapter_authority x = as_adapter_authority a) InvalidAdapterAuthority) (\<lambda>_.
     and_then (require (ta_owner custody = remote_custody_authority env a) InvalidRemoteCustody) (\<lambda>_.
     and_then (require (ta_mint custody = as_mint a) AdapterInvalidMint) (\<lambda>_.
     let reduction = min (min requested_principal (as_principal a)) (as_max_liquid_principal a) in
     and_then (require (reduction \<noteq> 0) InsufficientLiquidity) (\<lambda>_.
     and_then (loss_on reduction (as_loss_bps a)) (\<lambda>loss.
     and_then (ok_or (checked_sub_word reduction loss) AdapterArithmeticOverflow) (\<lambda>returned.
     and_then (if 0 < returned
       then ok_or (se_token_transfer env (wd_adapter_token_vault x) (wd_remote_custody x)
              (wd_adapter_authority x) returned (sw_tokens w)) AdapterFramework
       else Inr (sw_tokens w)) (\<lambda>tokens.
     and_then (ok_or (checked_sub_word (as_principal a) reduction) AdapterArithmeticOverflow) (\<lambda>principal.
     Inr (w\<lparr>sw_tokens := tokens,
            sw_states := (sw_states w)(wd_adapter_state x \<mapsto> a\<lparr>as_principal := principal\<rparr>)\<rparr>)))))))))))))))))))"

datatype strategy_instruction =
    InitializeAdapter i64 initialize_adapter_accounts adapter_params
  | ConfigureAdapter configure_adapter_accounts test_conditions
  | DepositExact deposit_exact_accounts u64
  | WithdrawForRemoteLeg withdraw_accounts u64

fun strategy_dispatch :: "strategy_env \<Rightarrow> strategy_instruction \<Rightarrow> strategy_world \<Rightarrow> adapter_error + strategy_world" where
  "strategy_dispatch env (InitializeAdapter now x params) w = initialize_adapter env now x params w"
| "strategy_dispatch env (ConfigureAdapter x conditions) w = configure_adapter_test_conditions env x conditions w"
| "strategy_dispatch env (DepositExact x amount) w = strategy_deposit_exact env x amount w"
| "strategy_dispatch env (WithdrawForRemoteLeg x requested) w = withdraw_for_remote_leg env x requested w"

section \<open>What each instruction does\<close>

lemma unat_u16_u128: "unat (ucast b :: u128) = unat b" for b :: u16
proof -
  have "unat b < 2 ^ 128" using unat_below [of b] by (simp del: unat_below)
  then show ?thesis by (simp add: unsigned_ucast_eq take_bit_nat_eq_self_iff)
qed

lemma loss_on_Inr:
  assumes "loss_on reduction bps = Inr loss"
  shows "unat loss = unat reduction * unat bps div 10000"
proof -
  from assms obtain scaled :: u128 where s: "unat scaled = unat (u128_of_u64 reduction) * unat (ucast bps :: u128)"
    and l: "unat loss = unat (scaled div 10000)"
    by (auto simp: loss_on_def result_simps amount_simps STRATEGY_MAX_BASIS_POINTS_def)
  moreover have "unat (scaled div 10000) = unat scaled div 10000" by (simp add: unat_div)
  ultimately show ?thesis by (simp add: unat_u16_u128)
qed

lemma loss_within:
  assumes "loss_on reduction bps = Inr loss" "bps \<le> STRATEGY_MAX_BASIS_POINTS"
  shows "loss \<le> reduction"
proof -
  have "unat bps \<le> 10000" using assms(2) by (simp add: STRATEGY_MAX_BASIS_POINTS_def word_le_nat_alt)
  then have "unat reduction * unat bps div 10000 \<le> unat reduction * 10000 div 10000"
    by (intro div_le_mono mult_le_mono2)
  then show ?thesis using loss_on_Inr [OF assms(1)] by (simp add: word_le_nat_alt)
qed

lemma deposit_result:
  assumes "strategy_deposit_exact env x amount w = Inr w'"
  obtains a vault p where "sw_states w (de_adapter_state x) = Some a"
    "sw_tokens w (as_adapter_token_vault a) = Some vault" "unat p = unat (as_principal a) + unat amount"
    "p \<le> ta_amount vault" "de_remote_caller x = remote_caller env a"
    "w' = w\<lparr>sw_states := (sw_states w)(de_adapter_state x \<mapsto> a\<lparr>as_principal := p\<rparr>)\<rparr>"
  using assms
  by (auto simp: strategy_deposit_exact_def load_adapter_state_def load_token_account_def result_simps amount_simps)

lemma withdraw_result:
  assumes "withdraw_for_remote_leg env x requested w = Inr w'"
  obtains a r loss returned p T where "sw_states w (wd_adapter_state x) = Some a"
    "wd_adapter_token_vault x = as_adapter_token_vault a" "wd_remote_caller x = remote_caller env a"
    "r = min (min requested (as_principal a)) (as_max_liquid_principal a)" "r \<noteq> 0"
    "loss_on r (as_loss_bps a) = Inr loss" "unat returned + unat loss = unat r"
    "unat p + unat r = unat (as_principal a)"
    "0 < returned \<Longrightarrow> se_token_transfer env (as_adapter_token_vault a) (wd_remote_custody x)
       (wd_adapter_authority x) returned (sw_tokens w) = Some T"
    "\<not> 0 < returned \<Longrightarrow> T = sw_tokens w"
    "w' = w\<lparr>sw_tokens := T, sw_states := (sw_states w)(wd_adapter_state x \<mapsto> a\<lparr>as_principal := p\<rparr>)\<rparr>"
proof -
  from assms obtain a loss returned p T where r: "sw_states w (wd_adapter_state x) = Some a"
    "wd_adapter_token_vault x = as_adapter_token_vault a" "wd_remote_caller x = remote_caller env a"
    "min (min requested (as_principal a)) (as_max_liquid_principal a) \<noteq> 0"
    "loss_on (min (min requested (as_principal a)) (as_max_liquid_principal a)) (as_loss_bps a) = Inr loss"
    "checked_sub_word (min (min requested (as_principal a)) (as_max_liquid_principal a)) loss = Some returned"
    "(if 0 < returned
       then ok_or (se_token_transfer env (wd_adapter_token_vault x) (wd_remote_custody x)
              (wd_adapter_authority x) returned (sw_tokens w)) AdapterFramework
       else Inr (sw_tokens w)) = Inr T"
    "checked_sub_word (as_principal a) (min (min requested (as_principal a)) (as_max_liquid_principal a)) = Some p"
    "w' = w\<lparr>sw_tokens := T, sw_states := (sw_states w)(wd_adapter_state x \<mapsto> a\<lparr>as_principal := p\<rparr>)\<rparr>"
    unfolding withdraw_for_remote_leg_def Let_def
    by (auto simp: load_adapter_state_def result_simps simp del: min_less_iff_conj)
  show ?thesis
    by (rule that [of a _ loss returned p T]) (use r in \<open>auto simp: amount_simps result_simps split: if_splits\<close>)
qed

section \<open>Runs\<close>

text \<open>
  What the code relies on: an SPL transfer moves exactly the amount between the two accounts and touches
  nothing else, and two different state accounts have different vault authorities.
\<close>

definition moved :: "pubkey \<Rightarrow> pubkey \<Rightarrow> u64 \<Rightarrow> token_store \<Rightarrow> token_store \<Rightarrow> bool" where
  "moved source target amount T T' =
     (\<exists>a b. T source = Some a \<and> T target = Some b \<and> amount \<le> ta_amount a \<and>
        (if source = target then T' = T
         else unat (ta_amount b) + unat amount < 2 ^ 64 \<and>
           T' = T(source \<mapsto> a\<lparr>ta_amount := ta_amount a - amount\<rparr>, target \<mapsto> b\<lparr>ta_amount := ta_amount b + amount\<rparr>)))"

definition transfers_exactly :: "strategy_env \<Rightarrow> bool" where
  "transfers_exactly env =
     (\<forall>source target authority amount T T'.
        se_token_transfer env source target authority amount T = Some T' \<longrightarrow> moved source target amount T T')"

definition authorities_differ :: "strategy_env \<Rightarrow> bool" where
  "authorities_differ env = inj (\<lambda>key. fst (adapter_authority_of env key))"

text \<open>Between the instructions other programs run; a token account that an address of this program owns, with
  no delegate and no close authority, keeps its owner and is only paid into.\<close>

definition vault_of :: "strategy_env \<Rightarrow> pubkey \<Rightarrow> token_account \<Rightarrow> bool" where
  "vault_of env key v =
     (ta_owner v = fst (adapter_authority_of env key) \<and> ta_delegate v = None \<and> ta_close_authority v = None)"

inductive strategy_step :: "strategy_env \<Rightarrow> strategy_world \<Rightarrow> strategy_world \<Rightarrow> bool" for env where
  call: "strategy_dispatch env c w = Inr w' \<Longrightarrow> strategy_step env w w'"
| outside: "sw_states w' = sw_states w \<Longrightarrow>
    (\<And>key address v. sw_tokens w address = Some v \<Longrightarrow> vault_of env key v \<Longrightarrow>
       \<exists>v'. sw_tokens w' address = Some v' \<and> vault_of env key v' \<and> ta_amount v \<le> ta_amount v') \<Longrightarrow>
    strategy_step env w w'"

definition adapter_ok :: "strategy_env \<Rightarrow> token_store \<Rightarrow> pubkey \<Rightarrow> adapter_state \<Rightarrow> bool" where
  "adapter_ok env T key a =
     (as_adapter_authority a = fst (adapter_authority_of env key) \<and>
      as_loss_bps a \<le> STRATEGY_MAX_BASIS_POINTS \<and>
      (\<exists>v. T (as_adapter_token_vault a) = Some v \<and> vault_of env key v \<and> as_principal a \<le> ta_amount v))"

definition strategy_ok :: "strategy_env \<Rightarrow> strategy_world \<Rightarrow> bool" where
  "strategy_ok env w = (\<forall>key a. sw_states w key = Some a \<longrightarrow> adapter_ok env (sw_tokens w) key a)"

lemma initialize_ok:
  assumes "initialize_adapter env now x params w = Inr w'" "strategy_ok env w"
  shows "strategy_ok env w'"
  using assms
  by (cases "adapter_authority_of env (ia_adapter_state x)"; cases "se_find_program_address env
      [STRATEGY_STATE_SEED, to_be_bytes (ap_remote_config params)] (se_id env)")
    (auto simp: initialize_adapter_def load_token_account_def result_simps strategy_ok_def adapter_ok_def
      vault_of_def split: if_splits)

lemma configure_ok:
  assumes "configure_adapter_test_conditions env x conditions w = Inr w'" "strategy_ok env w"
  shows "strategy_ok env w'"
  using assms
  by (auto simp: configure_adapter_test_conditions_def load_adapter_state_def result_simps strategy_ok_def
    adapter_ok_def split: if_splits)

lemma deposit_ok:
  assumes "strategy_deposit_exact env x amount w = Inr w'" "strategy_ok env w"
  shows "strategy_ok env w'"
  using assms(1)
proof (cases rule: deposit_result)
  case (1 a vault p)
  have "adapter_ok env (sw_tokens w) (de_adapter_state x) a" using assms(2) 1 by (simp add: strategy_ok_def)
  then have "adapter_ok env (sw_tokens w) (de_adapter_state x) (a\<lparr>as_principal := p\<rparr>)"
    using 1 by (auto simp: adapter_ok_def)
  then show ?thesis using assms(2) 1 by (simp add: strategy_ok_def)
qed

text \<open>A payment out of the vault of one adapter leaves every other adapter at least as it was.\<close>

lemma moved_other:
  assumes "moved source target amount T T'" "adapter_ok env T key a" "as_adapter_token_vault a \<noteq> source"
  shows "adapter_ok env T' key a"
proof -
  obtain v where v: "T (as_adapter_token_vault a) = Some v" "vault_of env key v" "as_principal a \<le> ta_amount v"
    using assms(2) by (auto simp: adapter_ok_def)
  have "\<exists>v'. T' (as_adapter_token_vault a) = Some v' \<and> vault_of env key v' \<and> as_principal a \<le> ta_amount v'"
  proof (cases "source \<noteq> target \<and> as_adapter_token_vault a = target")
    case True
    with assms(1) v have "unat (ta_amount v) + unat amount < 2 ^ 64"
      "T' (as_adapter_token_vault a) = Some (v\<lparr>ta_amount := ta_amount v + amount\<rparr>)"
      by (auto simp: moved_def)
    moreover from this(1) have "unat (ta_amount v + amount) = unat (ta_amount v) + unat amount"
      by (simp add: unat_word_ariths)
    ultimately show ?thesis using v by (auto simp: vault_of_def word_le_nat_alt)
  next
    case False
    with assms(1,3) v show ?thesis by (auto simp: moved_def split: if_splits)
  qed
  with assms(2) show ?thesis by (simp add: adapter_ok_def)
qed

lemma withdraw_ok:
  assumes "withdraw_for_remote_leg env x requested w = Inr w'" "strategy_ok env w"
    "transfers_exactly env" "authorities_differ env"
  shows "strategy_ok env w'"
  using assms(1)
proof (cases rule: withdraw_result)
  case (1 a r loss returned p T)
  let ?key = "wd_adapter_state x"
  have ok: "adapter_ok env (sw_tokens w) ?key a" using assms(2) 1 by (simp add: strategy_ok_def)
  then obtain v where v: "sw_tokens w (as_adapter_token_vault a) = Some v" "vault_of env ?key v"
    "as_principal a \<le> ta_amount v" by (auto simp: adapter_ok_def)
  have less: "unat p + unat returned \<le> unat (as_principal a)" using 1(7,8) by simp
  have moved: "moved (as_adapter_token_vault a) (wd_remote_custody x) returned (sw_tokens w) T" if "0 < returned"
    using 1(9) that assms(3) by (auto simp: transfers_exactly_def)
  have own: "\<exists>v'. T (as_adapter_token_vault a) = Some v' \<and> vault_of env ?key v' \<and> p \<le> ta_amount v'"
  proof (cases "0 < returned \<and> as_adapter_token_vault a \<noteq> wd_remote_custody x")
    case True
    with moved v(1) have "T (as_adapter_token_vault a) = Some (v\<lparr>ta_amount := ta_amount v - returned\<rparr>)"
      "returned \<le> ta_amount v" by (auto simp: moved_def)
    with v(2,3) less show ?thesis
      by (auto simp: vault_of_def word_le_nat_alt unat_sub)
  next
    case False
    then have "T = sw_tokens w" using moved 1(10) by (auto simp: moved_def)
    with v less show ?thesis by (auto simp: word_le_nat_alt)
  qed
  have "adapter_ok env T key b" if b: "sw_states w key = Some b" "key \<noteq> ?key" for key b
  proof -
    have okb: "adapter_ok env (sw_tokens w) key b" using assms(2) b by (simp add: strategy_ok_def)
    have "as_adapter_token_vault b \<noteq> as_adapter_token_vault a"
      using okb v b(2) assms(4) by (auto simp: adapter_ok_def vault_of_def authorities_differ_def inj_def)
    then show ?thesis
      using okb moved_other [OF moved okb] 1(10) by (cases "0 < returned") auto
  qed
  moreover have "adapter_ok env T ?key (a\<lparr>as_principal := p\<rparr>)"
    using own ok by (simp add: adapter_ok_def)
  ultimately show ?thesis using 1(11) by (simp add: strategy_ok_def)
qed

lemma strategy_step_ok:
  assumes "strategy_step env w w'" "strategy_ok env w" "transfers_exactly env" "authorities_differ env"
  shows "strategy_ok env w'"
  using assms(1)
proof cases
  case (call c)
  then show ?thesis
    using assms by (cases c) (auto intro: initialize_ok configure_ok deposit_ok withdraw_ok)
next
  case outside
  show ?thesis
    unfolding strategy_ok_def
  proof (intro allI impI)
    fix key a assume "sw_states w' key = Some a"
    then have "adapter_ok env (sw_tokens w) key a" using assms(2) outside(1) by (simp add: strategy_ok_def)
    then show "adapter_ok env (sw_tokens w') key a"
      using outside(2) unfolding adapter_ok_def by (meson order_trans)
  qed
qed

lemma strategy_run_ok:
  assumes "(strategy_step env)\<^sup>*\<^sup>* w w'" "strategy_ok env w" "transfers_exactly env" "authorities_differ env"
  shows "strategy_ok env w'"
  using assms by (induction rule: rtranclp_induct) (auto intro: strategy_step_ok)

end
