(* ===== verification/Strategy_Props.thy ===== *)
theory Strategy_Props
  imports Strategy
begin

text \<open>
  The theorems about the strategy program, and a small run of it on which they are applied.
\<close>

section \<open>A run\<close>

definition strategy_transfer :: "pubkey \<Rightarrow> pubkey \<Rightarrow> pubkey \<Rightarrow> u64 \<Rightarrow> token_store \<Rightarrow> token_store option" where
  "strategy_transfer source target authority amount T =
     (case (T source, T target) of
        (Some a, Some b) \<Rightarrow>
          if ta_owner a \<noteq> authority \<or> ta_amount a < amount then None
          else if source = target then Some T
          else (case checked_add_word (ta_amount b) amount of
              None \<Rightarrow> None
            | Some n \<Rightarrow> Some (T(source \<mapsto> a\<lparr>ta_amount := ta_amount a - amount\<rparr>, target \<mapsto> b\<lparr>ta_amount := n\<rparr>)))
      | _ \<Rightarrow> None)"

definition strategy_demo_env :: strategy_env where
  "strategy_demo_env =
     \<lparr>se_id = 1, se_token_program = 2,
      se_find_program_address = (\<lambda>seeds program. (from_be_bytes (seeds ! 1), 0)),
      se_create_program_address = (\<lambda>seeds program. Some (from_be_bytes (seeds ! 1))),
      se_token_transfer = strategy_transfer\<rparr>"

definition demo_token :: "u64 \<Rightarrow> token_account" where
  "demo_token amount =
     \<lparr>ta_program = 2, ta_mint = 5, ta_owner = 7, ta_amount = amount, ta_delegate = None,
      ta_close_authority = None\<rparr>"

definition strategy_demo_world :: strategy_world where
  "strategy_demo_world =
     \<lparr>sw_states = Map.empty, sw_tokens = [20 \<mapsto> demo_token 100, 21 \<mapsto> demo_token 0], sw_mints = (\<lambda>m. m = 5)\<rparr>"

definition demo_initialize :: strategy_instruction where
  "demo_initialize = InitializeAdapter 0
     \<lparr>ia_adapter_state = 7, ia_mint = 5, ia_adapter_token_vault = 20, ia_token_program = 2\<rparr>
     \<lparr>ap_remote_leg_program = 3, ap_remote_config = 7, ap_test_authority = 4,
      ap_max_liquid_principal = 1000, ap_loss_bps = 2500\<rparr>"

definition demo_deposit :: strategy_instruction where
  "demo_deposit = DepositExact
     \<lparr>de_remote_caller = 7, de_adapter_state = 7, de_adapter_token_vault = 20, de_mint = 5, de_token_program = 2\<rparr> 100"

definition demo_withdraw_accounts :: withdraw_accounts where
  "demo_withdraw_accounts =
     \<lparr>wd_remote_caller = 7, wd_adapter_state = 7, wd_adapter_authority = 7, wd_remote_custody = 21,
      wd_adapter_token_vault = 20, wd_mint = 5, wd_token_program = 2\<rparr>"

lemma key_bytes [simp]: "from_be_bytes (to_be_bytes (k :: bytes32)) = k"
  by (rule from_to_be_bytes) simp

lemma demo_transfers: "transfers_exactly strategy_demo_env"
  by (auto simp: transfers_exactly_def strategy_demo_env_def strategy_transfer_def moved_def not_less
    checked_add_word_def split: option.splits if_splits)

lemma demo_authorities: "authorities_differ strategy_demo_env"
  by (simp add: authorities_differ_def adapter_authority_of_def strategy_demo_env_def inj_def)

lemmas strategy_eval = initialize_adapter_def strategy_deposit_exact_def withdraw_for_remote_leg_def
  load_adapter_state_def load_token_account_def load_mint_def load_token_program_def check_state_address_def
  check_common_def loss_on_def adapter_authority_of_def remote_custody_authority_def remote_caller_def
  require_def and_then_def Let_def ADAPTER_STATE_VERSION_def STRATEGY_MAX_BASIS_POINTS_def
  strategy_demo_env_def strategy_demo_world_def demo_token_def demo_initialize_def demo_deposit_def
  demo_withdraw_accounts_def strategy_transfer_def checked_add_word_def checked_sub_word_def
  checked_mul_word_def u128_of_u64_def u64_of_u128_def

definition strategy_demo_funded :: strategy_world where
  "strategy_demo_funded =
     (case strategy_dispatch strategy_demo_env demo_initialize strategy_demo_world of
        Inl _ \<Rightarrow> strategy_demo_world
      | Inr w \<Rightarrow> (case strategy_dispatch strategy_demo_env demo_deposit w of Inl _ \<Rightarrow> w | Inr w' \<Rightarrow> w'))"

lemma strategy_demo_steps: "(strategy_step strategy_demo_env)\<^sup>*\<^sup>* strategy_demo_world strategy_demo_funded"
  unfolding strategy_demo_funded_def
  by (auto split: sum.split intro: converse_rtranclp_into_rtranclp strategy_step.call)

lemma strategy_demo_state:
  "map_option as_principal (sw_states strategy_demo_funded 7) = Some 100"
  "map_option as_adapter_token_vault (sw_states strategy_demo_funded 7) = Some 20"
  by (simp_all add: strategy_demo_funded_def strategy_eval)

lemma strategy_demo_withdraws:
  "\<exists>w'. withdraw_for_remote_leg strategy_demo_env demo_withdraw_accounts 40 strategy_demo_funded = Inr w'"
  by (simp add: strategy_demo_funded_def strategy_eval)

section \<open>Properties\<close>

text \<open>C19. The vault of every adapter always holds at least the principal the adapter reports, under an
  owner only this program signs for: from any world without adapters, along every sequence of instructions
  and of changes by other programs, provided that token transfers move what they say and that different adapters have
  different vault authorities.\<close>

theorem strategy_vault_covers:
  assumes "transfers_exactly env" "authorities_differ env" "(strategy_step env)\<^sup>*\<^sup>* w w'"
    "sw_states w = Map.empty" "sw_states w' key = Some a"
  shows "\<exists>v. sw_tokens w' (as_adapter_token_vault a) = Some v \<and> as_principal a \<le> ta_amount v \<and>
    ta_owner v = fst (adapter_authority_of env key) \<and> ta_delegate v = None \<and> ta_close_authority v = None"
proof -
  have "strategy_ok env w" using assms(4) by (simp add: strategy_ok_def)
  then have "strategy_ok env w'" using strategy_run_ok assms(1-3) by blast
  with assms(5) show ?thesis by (auto simp: strategy_ok_def adapter_ok_def vault_of_def)
qed

theorem strategy_vault_covers_witness:
  "\<exists>a v. sw_states strategy_demo_funded 7 = Some a \<and> as_principal a = 100 \<and>
     sw_tokens strategy_demo_funded 20 = Some v \<and> 100 \<le> ta_amount v"
proof -
  obtain a where a: "sw_states strategy_demo_funded 7 = Some a" "as_principal a = 100"
    "as_adapter_token_vault a = 20"
    using strategy_demo_state by auto
  show ?thesis
    using strategy_vault_covers [OF demo_transfers demo_authorities strategy_demo_steps _ a(1)] a
    by (auto simp: strategy_demo_world_def)
qed

text \<open>C20. A withdrawal for the remote leg is exact: only the caller address of the configured leg makes it; the principal
  falls by the least of the request, the principal and the liquid limit, which is not zero; the loss is the floor of the
  configured basis points of that amount and stays in the vault; the rest, to the unit, leaves the vault for the leg's
  custody; and no other adapter or token account changes.\<close>

theorem withdrawal_exact:
  assumes "transfers_exactly env" "withdraw_for_remote_leg env x requested w = Inr w'"
    "sw_states w (wd_adapter_state x) = Some a" "wd_remote_custody x \<noteq> as_adapter_token_vault a"
    "sw_tokens w (as_adapter_token_vault a) = Some v" "sw_tokens w (wd_remote_custody x) = Some c"
    "reduction = min (min (unat requested) (unat (as_principal a))) (unat (as_max_liquid_principal a))"
    "loss = reduction * unat (as_loss_bps a) div 10000"
  shows "wd_remote_caller x = remote_caller env a \<and> 0 < reduction \<and> loss \<le> reduction \<and>
    (\<exists>a' v' c'. sw_states w' = (sw_states w)(wd_adapter_state x \<mapsto> a\<lparr>as_principal := a'\<rparr>) \<and>
       unat a' + reduction = unat (as_principal a) \<and>
       sw_tokens w' = (sw_tokens w)(as_adapter_token_vault a \<mapsto> v\<lparr>ta_amount := v'\<rparr>,
         wd_remote_custody x \<mapsto> c\<lparr>ta_amount := c'\<rparr>) \<and>
       unat v' + (reduction - loss) = unat (ta_amount v) \<and>
       unat c' = unat (ta_amount c) + (reduction - loss))"
  using assms(2)
proof (cases rule: withdraw_result)
  case (1 a0 r l returned p T)
  have [simp]: "a0 = a" using 1(1) assms(3) by simp
  have r: "unat r = reduction" using 1(4) assms(7) by (simp add: min_def word_le_nat_alt)
  have l: "unat l = loss" using loss_on_Inr [OF 1(6)] r assms(8) by simp
  have ret: "unat returned = reduction - loss" "loss \<le> reduction" using 1(7) r l by simp_all
  have "0 < reduction" using 1(5) r by (simp add: unat_gt_0 flip: r)
  have "\<exists>v' c'. T = (sw_tokens w)(as_adapter_token_vault a \<mapsto> v\<lparr>ta_amount := v'\<rparr>,
        wd_remote_custody x \<mapsto> c\<lparr>ta_amount := c'\<rparr>) \<and>
      unat v' + unat returned = unat (ta_amount v) \<and> unat c' = unat (ta_amount c) + unat returned"
  proof (cases "0 < returned")
    case True
    then have "moved (as_adapter_token_vault a) (wd_remote_custody x) returned (sw_tokens w) T"
      using 1(9) assms(1) by (auto simp: transfers_exactly_def)
    then have m: "returned \<le> ta_amount v" "unat (ta_amount c) + unat returned < 2 ^ 64"
      "T = (sw_tokens w)(as_adapter_token_vault a \<mapsto> v\<lparr>ta_amount := ta_amount v - returned\<rparr>,
         wd_remote_custody x \<mapsto> c\<lparr>ta_amount := ta_amount c + returned\<rparr>)"
      using assms(4-6) by (auto simp: moved_def split: if_splits)
    have "unat (ta_amount v - returned) + unat returned = unat (ta_amount v)"
      "unat (ta_amount c + returned) = unat (ta_amount c) + unat returned"
      using m(1,2) by (simp_all add: unat_sub word_le_nat_alt unat_word_ariths)
    with m(3) show ?thesis by blast
  next
    case False
    then have "returned = 0" "T = sw_tokens w" using 1(10) by (simp_all add: word_gt_0)
    moreover have "sw_tokens w = (sw_tokens w)(as_adapter_token_vault a \<mapsto> v\<lparr>ta_amount := ta_amount v\<rparr>,
        wd_remote_custody x \<mapsto> c\<lparr>ta_amount := ta_amount c\<rparr>)"
      using assms(5,6) by (simp add: map_upd_triv fun_upd_idem)
    ultimately show ?thesis
      by (intro exI [of _ "ta_amount v"] exI [of _ "ta_amount c"]) simp
  qed
  then show ?thesis
    using 1(3,8,11) r ret \<open>0 < reduction\<close> by auto
qed

theorem withdrawal_exact_witness:
  "\<exists>w' v'. withdraw_for_remote_leg strategy_demo_env demo_withdraw_accounts 40 strategy_demo_funded = Inr w' \<and>
     sw_tokens w' 20 = Some v' \<and> unat (ta_amount v') = 70"
proof -
  obtain w' where w': "withdraw_for_remote_leg strategy_demo_env demo_withdraw_accounts 40 strategy_demo_funded = Inr w'"
    using strategy_demo_withdraws by blast
  have demo: "map_option (\<lambda>a. (as_principal a, as_adapter_token_vault a, as_max_liquid_principal a, as_loss_bps a))
      (sw_states strategy_demo_funded 7) = Some (100, 20, 1000, 2500)"
    "sw_tokens strategy_demo_funded 20 = Some (demo_token 100)" "sw_tokens strategy_demo_funded 21 = Some (demo_token 0)"
    by (simp_all add: strategy_demo_funded_def strategy_eval)
  then obtain a where a: "sw_states strategy_demo_funded 7 = Some a" "as_principal a = 100"
    "as_adapter_token_vault a = 20" "as_max_liquid_principal a = 1000" "as_loss_bps a = 2500" by auto
  have "wd_adapter_state demo_withdraw_accounts = 7" "wd_remote_custody demo_withdraw_accounts = 21"
    by (simp_all add: demo_withdraw_accounts_def)
  then show ?thesis
    using withdrawal_exact [OF demo_transfers w', of a "demo_token 100" "demo_token 0" 40 10] w' a demo(2,3)
    by (auto simp: demo_token_def)
qed

end
