(* ===== verification/Auth_Adapter.thy ===== *)
theory Auth_Adapter
  imports Auth_Precompile Auth_Jwt
begin

text \<open>
  The host-side adapter that turns a signed token into the instruction the verifier reads
  (\<open>programs/authorization-verifier/adapter/src/lib.rs\<close>). The base64 and OpenSSL crates and the constants of the
  secp256r1 crate are the parameter \<open>host_env\<close>; an OpenSSL number is an integer.
  The signer that makes throwaway keys for tests is not modelled.
\<close>

datatype host_error =
    HostInvalidBase64Url
  | HostInvalidCompactJws
  | HostUnsupportedKeyType
  | HostUnsupportedCurve
  | HostInvalidCoordinate
  | HostPointNotOnCurve
  | HostScalarOutOfRange
  | HostInvalidSigningInputLength
  | HostCrypto

record 'p host_env =
  he_base64_encode :: "bytes \<Rightarrow> bytes"
  he_base64_decode :: "bytes \<Rightarrow> bytes option"
  he_bn_from_slice :: "bytes \<Rightarrow> int option"
  he_bn_to_vec_padded :: "int \<Rightarrow> nat \<Rightarrow> bytes option"
  he_point_from_bytes :: "bytes \<Rightarrow> 'p option"
  he_point_on_curve :: "'p \<Rightarrow> bool option"
  he_point_compressed :: "'p \<Rightarrow> bytes option"
  he_order :: bytes
  he_half_order :: bytes
  he_secp256r1 :: pubkey

definition FIELD_SIZE :: nat where
  "FIELD_SIZE = 32"

section \<open>Tokens\<close>

definition base64url_encode :: "'p host_env \<Rightarrow> bytes \<Rightarrow> bytes" where
  "base64url_encode E bs = he_base64_encode E bs"

definition base64url_decode :: "'p host_env \<Rightarrow> bytes \<Rightarrow> host_error + bytes" where
  "base64url_decode E text = ok_or (he_base64_decode E text) HostInvalidBase64Url"

definition host_signing_input :: "'p host_env \<Rightarrow> bytes \<Rightarrow> bytes \<Rightarrow> bytes" where
  "host_signing_input E header_json payload_json =
     base64url_encode E header_json @ 46 # base64url_encode E payload_json"

text \<open>\<open>rsplit_once\<close> at the last dot.\<close>

fun rsplit_once :: "'a \<Rightarrow> 'a list \<Rightarrow> ('a list \<times> 'a list) option" where
  "rsplit_once c [] = None"
| "rsplit_once c (x # xs) =
     (case rsplit_once c xs of
        Some (before, after) \<Rightarrow> Some (x # before, after)
      | None \<Rightarrow> if x = c then Some ([], xs) else None)"

definition split_compact_jws :: "'p host_env \<Rightarrow> bytes \<Rightarrow> host_error + (bytes \<times> bytes)" where
  "split_compact_jws E token =
     and_then (ok_or (rsplit_once 46 token) HostInvalidCompactJws) (\<lambda>(input, signature).
     if count_list input 46 \<noteq> 1 then Inl HostInvalidCompactJws
     else and_then (base64url_decode E signature) (\<lambda>signature.
       if length signature = SIGNATURE_LEN then Inr (input, signature) else Inl HostInvalidCompactJws))"

section \<open>Keys and signatures\<close>

definition host_compressed :: "'p host_env \<Rightarrow> 'p \<Rightarrow> host_error + bytes" where
  "host_compressed E point =
     and_then (ok_or (he_point_compressed E point) HostCrypto) (\<lambda>bs.
     if length bs = COMPRESSED_PUBLIC_KEY_LEN then Inr bs else Inl HostPointNotOnCurve)"

definition compress_jwk_public_key :: "'p host_env \<Rightarrow> bytes \<Rightarrow> bytes \<Rightarrow> host_error + bytes" where
  "compress_jwk_public_key E x y =
     and_then (base64url_decode E x) (\<lambda>x.
     and_then (base64url_decode E y) (\<lambda>y.
     if length x \<noteq> FIELD_SIZE \<or> length y \<noteq> FIELD_SIZE then Inl HostInvalidCoordinate
     else and_then (ok_or (he_point_from_bytes E ([4] @ x @ y)) HostPointNotOnCurve) (\<lambda>point.
       and_then (ok_or (he_point_on_curve E point) HostCrypto) (\<lambda>on_curve.
       if \<not> on_curve then Inl HostPointNotOnCurve else host_compressed E point))))"

definition compress_p256_jwk :: "'p host_env \<Rightarrow> bytes \<Rightarrow> bytes \<Rightarrow> bytes \<Rightarrow> bytes \<Rightarrow> host_error + bytes" where
  "compress_p256_jwk E kty crv x y =
     (if kty \<noteq> ascii_bytes ''EC'' then Inl HostUnsupportedKeyType
      else if crv \<noteq> ascii_bytes ''P-256'' then Inl HostUnsupportedCurve
      else compress_jwk_public_key E x y)"

definition bn_from_slice :: "'p host_env \<Rightarrow> bytes \<Rightarrow> host_error + int" where
  "bn_from_slice E bs = ok_or (he_bn_from_slice E bs) HostCrypto"

definition raw_signature :: "'p host_env \<Rightarrow> int \<Rightarrow> int \<Rightarrow> host_error + bytes" where
  "raw_signature E r s =
     and_then (ok_or (he_bn_to_vec_padded E r FIELD_SIZE) HostCrypto) (\<lambda>rb.
     and_then (ok_or (he_bn_to_vec_padded E s FIELD_SIZE) HostCrypto) (\<lambda>sb.
     if length (rb @ sb) = SIGNATURE_LEN then Inr (rb @ sb) else Inl HostScalarOutOfRange))"

definition normalize_signature :: "'p host_env \<Rightarrow> bytes \<Rightarrow> host_error + bytes" where
  "normalize_signature E signature =
     and_then (bn_from_slice E (take FIELD_SIZE signature)) (\<lambda>r.
     and_then (bn_from_slice E (drop FIELD_SIZE signature)) (\<lambda>s.
     and_then (bn_from_slice E (he_order E)) (\<lambda>order.
     and_then (bn_from_slice E (he_half_order E)) (\<lambda>half_order.
     if r < 1 \<or> order \<le> r \<or> s < 1 \<or> order \<le> s then Inl HostScalarOutOfRange
     else if s \<le> half_order then Inr signature
     else raw_signature E r (order - s)))))"

definition is_low_s :: "'p host_env \<Rightarrow> bytes \<Rightarrow> host_error + bool" where
  "is_low_s E signature =
     and_then (bn_from_slice E (drop FIELD_SIZE signature)) (\<lambda>s.
     and_then (bn_from_slice E (he_half_order E)) (\<lambda>half_order.
     Inr (s \<le> half_order)))"

definition high_s_twin :: "'p host_env \<Rightarrow> bytes \<Rightarrow> host_error + bytes" where
  "high_s_twin E signature =
     and_then (bn_from_slice E (take FIELD_SIZE signature)) (\<lambda>r.
     and_then (bn_from_slice E (drop FIELD_SIZE signature)) (\<lambda>s.
     and_then (bn_from_slice E (he_order E)) (\<lambda>order.
     raw_signature E r (order - s))))"

section \<open>The instruction\<close>

definition secp256r1_instruction :: "'p host_env \<Rightarrow> bytes \<Rightarrow> bytes \<Rightarrow> bytes \<Rightarrow> host_error + instruction" where
  "secp256r1_instruction E public_key signature input =
     (if input = [] \<or> MAX_SIGNING_INPUT_LEN < length input then Inl HostInvalidSigningInputLength
      else and_then (ok_or (if length input < 2 ^ 16 then Some (word_of_nat (length input) :: u16) else None)
          HostInvalidSigningInputLength) (\<lambda>signing_input_len.
        let offsets = [word_of_nat SIGNATURE_OFFSET, CURRENT_INSTRUCTION, word_of_nat PUBLIC_KEY_OFFSET,
              CURRENT_INSTRUCTION, word_of_nat MESSAGE_OFFSET, signing_input_len, CURRENT_INSTRUCTION];
            data = [1, 0] @ concat (map to_le_bytes offsets) @ public_key @ signature @ input
        in Inr \<lparr>in_program_id = he_secp256r1 E, in_accounts = [], in_data = data\<rparr>))"

section \<open>What the verifier reads\<close>

lemmas layout_defs = MESSAGE_OFFSET_def SIGNATURE_OFFSET_def PUBLIC_KEY_OFFSET_def SIGNATURE_LEN_def
  COMPRESSED_PUBLIC_KEY_LEN_def

lemma instruction_layout:
  assumes "secp256r1_instruction E pk sig input = Inr i"
  shows "in_data i = canonical_header (word_of_nat (length input)) @ pk @ sig @ input"
    "in_program_id i = he_secp256r1 E" "in_accounts i = []" "input \<noteq> []" "length input \<le> MAX_SIGNING_INPUT_LEN"
  using assms by (auto simp: secp256r1_instruction_def canonical_header_def and_then_Inr Let_def split: if_splits)

lemma layout_read:
  assumes "length pk = COMPRESSED_PUBLIC_KEY_LEN" "length sig = SIGNATURE_LEN" "input \<noteq> []"
    "length input \<le> MAX_SIGNING_INPUT_LEN"
  shows "parse_precompile_data (canonical_header (word_of_nat (length input)) @ pk @ sig @ input) =
    Inr \<lparr>vf_public_key = pk, vf_signing_input = input\<rparr>"
proof -
  let ?h = "canonical_header (word_of_nat (length input))"
  let ?data = "?h @ pk @ sig @ input"
  have m: "drop MESSAGE_OFFSET ?data = input"
    using assms(1,2) by (simp add: layout_defs)
  have h: "take PUBLIC_KEY_OFFSET ?data = ?h" by (simp add: layout_defs)
  have k: "take (SIGNATURE_OFFSET - PUBLIC_KEY_OFFSET) (drop PUBLIC_KEY_OFFSET ?data) = pk"
    using assms(1) by (simp add: layout_defs)
  have l: "MESSAGE_OFFSET \<le> length ?data" "PUBLIC_KEY_OFFSET \<le> length ?data" "SIGNATURE_OFFSET \<le> length ?data"
    using assms(1,2) by (simp_all add: layout_defs)
  have s: "length input < 2 ^ 16" using assms(4) by (simp add: MAX_SIGNING_INPUT_LEN_def)
  show ?thesis
    unfolding parse_precompile_data_def m h k
    using l s assms(3,4) by (simp add: require_def)
qed

section \<open>Low signatures\<close>

text \<open>
  What the crates document: a base64 engine for the unpadded url-safe alphabet that refuses other encodings,
  big-endian numbers, and an odd group order with its half.
\<close>

definition base64_documented :: "'p host_env \<Rightarrow> bool" where
  "base64_documented E =
     ((\<forall>bs. he_base64_encode E bs = base64_encode bs) \<and>
      (\<forall>text bs. he_base64_decode E text = Some bs \<longleftrightarrow> text = base64_encode bs))"

definition be_value :: "bytes \<Rightarrow> int" where
  "be_value bs = foldl (\<lambda>n b. 256 * n + uint b) 0 bs"

definition numbers_documented :: "'p host_env \<Rightarrow> bool" where
  "numbers_documented E =
     ((\<forall>bs. he_bn_from_slice E bs = Some (be_value bs)) \<and>
      (\<forall>n len bs. he_bn_to_vec_padded E n len = Some bs \<longleftrightarrow> length bs = len \<and> be_value bs = n) \<and>
      (\<forall>n len. 0 \<le> n \<and> n < 256 ^ len \<longrightarrow> he_bn_to_vec_padded E n len \<noteq> None))"

definition order_documented :: "'p host_env \<Rightarrow> bool" where
  "order_documented E =
     (be_value (he_order E) = 2 * be_value (he_half_order E) + 1 \<and> be_value (he_order E) \<le> 256 ^ FIELD_SIZE)"

text \<open>The two scalars of a signature.\<close>

definition sig_r :: "bytes \<Rightarrow> int" where
  "sig_r signature = be_value (take FIELD_SIZE signature)"

definition sig_s :: "bytes \<Rightarrow> int" where
  "sig_s signature = be_value (drop FIELD_SIZE signature)"

definition scalars_in_range :: "'p host_env \<Rightarrow> bytes \<Rightarrow> bool" where
  "scalars_in_range E signature =
     (1 \<le> sig_r signature \<and> sig_r signature < be_value (he_order E) \<and>
      1 \<le> sig_s signature \<and> sig_s signature < be_value (he_order E))"

lemma raw_signature_value:
  assumes "numbers_documented E" "0 \<le> r" "r < 256 ^ FIELD_SIZE" "0 \<le> s" "s < 256 ^ FIELD_SIZE"
  obtains t where "raw_signature E r s = Inr t" "length t = SIGNATURE_LEN" "sig_r t = r" "sig_s t = s"
proof -
  have some: "0 \<le> n \<Longrightarrow> n < 256 ^ len \<Longrightarrow> \<exists>bs. he_bn_to_vec_padded E n len = Some bs"
    and says: "he_bn_to_vec_padded E n len = Some bs \<Longrightarrow> length bs = len \<and> be_value bs = n" for n len bs
    using assms(1) unfolding numbers_documented_def by (metis not_Some_eq)+
  obtain rb sb where b: "he_bn_to_vec_padded E r FIELD_SIZE = Some rb" "he_bn_to_vec_padded E s FIELD_SIZE = Some sb"
    using some [OF assms(2,3)] some [OF assms(4,5)] by blast
  then have l: "length rb = FIELD_SIZE" "be_value rb = r" "length sb = FIELD_SIZE" "be_value sb = s"
    using says by blast+
  have "raw_signature E r s = Inr (rb @ sb)" "length (rb @ sb) = SIGNATURE_LEN"
    using b l by (simp_all add: raw_signature_def FIELD_SIZE_def SIGNATURE_LEN_def)
  then show ?thesis using l by (intro that [of "rb @ sb"]) (simp_all add: sig_r_def sig_s_def)
qed

lemma normalize_eval:
  assumes "numbers_documented E"
  shows "normalize_signature E sig =
    (if \<not> scalars_in_range E sig then Inl HostScalarOutOfRange
     else if sig_s sig \<le> be_value (he_half_order E) then Inr sig
     else raw_signature E (sig_r sig) (be_value (he_order E) - sig_s sig))"
proof -
  have "bn_from_slice E bs = Inr (be_value bs)" for bs
    using assms by (simp add: bn_from_slice_def numbers_documented_def)
  then show ?thesis
    by (auto simp: normalize_signature_def scalars_in_range_def sig_r_def sig_s_def)
qed

section \<open>Properties\<close>

lemma rsplit_none: "c \<notin> set b \<Longrightarrow> rsplit_once c b = None"
  by (induction b) auto

lemma rsplit_last: "c \<notin> set b \<Longrightarrow> rsplit_once c (a @ c # b) = Some (a, b)"
  by (induction a) (simp_all add: rsplit_none)

lemma one_dot: "c \<notin> set a \<Longrightarrow> c \<notin> set b \<Longrightarrow> count_list (a @ c # b) c = 1"
  by (simp add: count_list_0_iff)

text \<open>C40. What the host makes of a token is what the program reads: for a header and a payload whose signing
  input fits, splitting the compact form gives back the signing input and the signature; the instruction built from
  them calls the signature program with no accounts; the verifier parses it to exactly the key and the signing input;
  and decoding that gives back the header and the payload.\<close>

theorem adapter_feeds_verifier:
  assumes "base64_documented E" "length pk = COMPRESSED_PUBLIC_KEY_LEN" "length sig = SIGNATURE_LEN"
    "h \<noteq> []" "p \<noteq> []" "input = host_signing_input E h p" "length input \<le> MAX_SIGNING_INPUT_LEN"
  shows "split_compact_jws E (input @ 46 # base64url_encode E sig) = Inr (input, sig) \<and>
    (\<exists>i. secp256r1_instruction E pk sig input = Inr i \<and> in_program_id i = he_secp256r1 E \<and> in_accounts i = [] \<and>
       parse_precompile_data (in_data i) = Inr \<lparr>vf_public_key = pk, vf_signing_input = input\<rparr>) \<and>
    decode_signing_input input = Inr \<lparr>ds_header_json = h, ds_payload_json = p\<rparr>"
proof -
  have "he_base64_encode E bs = base64_encode bs" "he_base64_decode E (base64_encode bs) = Some bs" for bs
    using assms(1) unfolding base64_documented_def by blast+
  then have enc: "base64url_encode E bs = base64_encode bs" "base64url_decode E (base64_encode bs) = Inr bs" for bs
    by (simp_all add: base64url_encode_def base64url_decode_def)
  have input: "input = base64_encode h @ 46 # base64_encode p" using assms(6) by (simp add: host_signing_input_def enc)
  have "split_compact_jws E (input @ 46 # base64url_encode E sig) = Inr (input, sig)"
  proof -
    have "rsplit_once 46 (input @ 46 # base64_encode sig) = Some (input, base64_encode sig)"
      by (rule rsplit_last [OF symbols_have_no_dot])
    moreover have "count_list input 46 = 1" unfolding input by (rule one_dot [OF symbols_have_no_dot symbols_have_no_dot])
    ultimately show ?thesis using assms(3) by (simp add: split_compact_jws_def enc)
  qed
  moreover have "\<exists>i. secp256r1_instruction E pk sig input = Inr i"
    using assms(7) input by (simp add: secp256r1_instruction_def MAX_SIGNING_INPUT_LEN_def Let_def)
  then obtain i where i: "secp256r1_instruction E pk sig input = Inr i" ..
  note l = instruction_layout [OF i]
  have "parse_precompile_data (in_data i) = Inr \<lparr>vf_public_key = pk, vf_signing_input = input\<rparr>"
    unfolding l(1) using assms(2,3) l(4,5) by (rule layout_read)
  moreover have "decode_signing_input input = Inr \<lparr>ds_header_json = h, ds_payload_json = p\<rparr>"
    using assms(4,5) input by (simp add: decode_signing_input_Inr)
  ultimately show ?thesis using i l(2,3) by blast
qed

text \<open>Normalizing a signature gives the low twin the signature program requires: scalars outside the range from one
  to the order are refused; otherwise the result has the same first scalar, its second scalar is the given one or its
  complement to the order, it is low and in range, and normalizing it again changes nothing.\<close>

theorem normalized_signature_low:
  assumes "numbers_documented E" "order_documented E" "length sig = SIGNATURE_LEN"
  shows "if scalars_in_range E sig
    then \<exists>t. normalize_signature E sig = Inr t \<and> length t = SIGNATURE_LEN \<and> sig_r t = sig_r sig \<and>
      (sig_s t = sig_s sig \<or> sig_s t = be_value (he_order E) - sig_s sig) \<and>
      scalars_in_range E t \<and> is_low_s E t = Inr True \<and> normalize_signature E t = Inr t
    else normalize_signature E sig = Inl HostScalarOutOfRange"
proof -
  note eval = normalize_eval [OF assms(1)]
  have order: "be_value (he_order E) = 2 * be_value (he_half_order E) + 1"
    "be_value (he_order E) \<le> 256 ^ FIELD_SIZE"
    using assms(2) unfolding order_documented_def by blast+
  have low: "is_low_s E t = Inr (sig_s t \<le> be_value (he_half_order E))" for t
    using assms(1) by (simp add: is_low_s_def bn_from_slice_def numbers_documented_def sig_s_def)
  show ?thesis
  proof (cases "scalars_in_range E sig")
    case range: True
    show ?thesis
    proof (cases "sig_s sig \<le> be_value (he_half_order E)")
      case True
      with range assms(3) show ?thesis by (simp add: eval low)
    next
      case False
      let ?s = "be_value (he_order E) - sig_s sig"
      have b: "0 \<le> sig_r sig" "sig_r sig < 256 ^ FIELD_SIZE" "0 \<le> ?s" "?s < 256 ^ FIELD_SIZE" "1 \<le> ?s"
        "?s < be_value (he_order E)" "?s \<le> be_value (he_half_order E)"
        using range False order unfolding scalars_in_range_def by linarith+
      obtain t where t: "raw_signature E (sig_r sig) ?s = Inr t" "length t = SIGNATURE_LEN" "sig_r t = sig_r sig" "sig_s t = ?s"
        by (rule raw_signature_value [OF assms(1) b(1-4)])
      have "scalars_in_range E t" using range t(3,4) b(5,6) by (simp add: scalars_in_range_def)
      with range False t b(7) show ?thesis by (auto simp: eval low)
    qed
  qed (simp add: eval)
qed

section \<open>A concrete host\<close>

fun be_digits :: "nat \<Rightarrow> int \<Rightarrow> bytes" where
  "be_digits 0 n = []"
| "be_digits (Suc k) n = be_digits k (n div 256) @ [word_of_int (n mod 256)]"

lemma be_value_snoc: "be_value (bs @ [b]) = 256 * be_value bs + uint b"
  by (simp add: be_value_def)

lemma octet_below: "uint b < 256" for b :: u8
  using uint_lt2p [of b] by simp

lemma be_value_range: "0 \<le> be_value bs \<and> be_value bs < 256 ^ length bs"
proof (induction bs rule: rev_induct)
  case (snoc b bs)
  then show ?case using octet_below [of b] by (simp add: be_value_snoc)
qed (simp add: be_value_def)

lemma be_digits_value: "be_digits (length bs) (be_value bs) = bs"
proof (induction bs rule: rev_induct)
  case (snoc b bs)
  have "(256 * be_value bs + uint b) div 256 = be_value bs" "(256 * be_value bs + uint b) mod 256 = uint b"
    using octet_below [of b] by simp_all
  with snoc show ?case by (simp add: be_value_snoc)
qed (simp add: be_value_def)

lemma be_value_digits: "0 \<le> n \<Longrightarrow> n < 256 ^ k \<Longrightarrow> be_value (be_digits k n) = n \<and> length (be_digits k n) = k"
proof (induction k arbitrary: n)
  case (Suc k)
  have "n < 256 * X \<Longrightarrow> n div 256 < X" for X :: int by presburger
  then have "n div 256 < 256 ^ k" using Suc.prems by simp
  then show ?case using Suc by (simp add: be_value_snoc uint_word_of_int)
qed (simp add: be_value_def)

definition host_demo :: "unit host_env" where
  "host_demo =
     \<lparr>he_base64_encode = base64_encode,
      he_base64_decode = (\<lambda>text. case decode_base64url text of Inl _ \<Rightarrow> None | Inr bs \<Rightarrow> Some bs),
      he_bn_from_slice = (\<lambda>bs. Some (be_value bs)),
      he_bn_to_vec_padded = (\<lambda>n len. if 0 \<le> n \<and> n < 256 ^ len then Some (be_digits len n) else None),
      he_point_from_bytes = (\<lambda>_. Some ()), he_point_on_curve = (\<lambda>_. Some True), he_point_compressed = (\<lambda>_. None),
      he_order = [7], he_half_order = [3], he_secp256r1 = 9\<rparr>"

lemma host_demo_documented:
  "base64_documented host_demo" "numbers_documented host_demo" "order_documented host_demo"
proof -
  show "base64_documented host_demo"
    by (auto simp: base64_documented_def host_demo_def base64_Inr [symmetric] split: sum.splits)
  show "numbers_documented host_demo"
    using be_value_digits be_digits_value be_value_range
    by (auto simp: numbers_documented_def host_demo_def)
  show "order_documented host_demo"
    by (simp add: order_documented_def host_demo_def be_value_def FIELD_SIZE_def)
qed

theorem adapter_feeds_verifier_witness:
  "decode_signing_input (host_signing_input host_demo [1] [2]) = Inr \<lparr>ds_header_json = [1], ds_payload_json = [2]\<rparr> \<and>
   (\<exists>i. secp256r1_instruction host_demo (replicate 33 2) (replicate 64 1) (host_signing_input host_demo [1] [2]) = Inr i)"
  using adapter_feeds_verifier [OF host_demo_documented(1), of "replicate 33 2" "replicate 64 1" "[1]" "[2]"
      "host_signing_input host_demo [1] [2]"]
  by (auto simp: COMPRESSED_PUBLIC_KEY_LEN_def SIGNATURE_LEN_def MAX_SIGNING_INPUT_LEN_def host_signing_input_def
    base64url_encode_def host_demo_def Let_def)

definition demo_signature :: bytes where
  "demo_signature = (replicate 31 0 @ [2]) @ (replicate 31 0 @ [5])"

lemma be_value_zeros: "be_value (replicate k 0 @ bs) = be_value bs"
  by (induction k) (simp_all add: be_value_def)

lemma demo_signature_scalars: "sig_r demo_signature = 2" "sig_s demo_signature = 5" "length demo_signature = SIGNATURE_LEN"
proof -
  have "take FIELD_SIZE demo_signature = replicate 31 0 @ [2]" "drop FIELD_SIZE demo_signature = replicate 31 0 @ [5]"
    by (simp_all add: demo_signature_def FIELD_SIZE_def del: append_assoc)
  then show "sig_r demo_signature = 2" "sig_s demo_signature = 5"
    by (simp_all only: sig_r_def sig_s_def be_value_zeros) (simp_all add: be_value_def)
  show "length demo_signature = SIGNATURE_LEN" by (simp add: demo_signature_def SIGNATURE_LEN_def)
qed

theorem normalized_signature_low_witness:
  "\<exists>t. normalize_signature host_demo demo_signature = Inr t \<and> is_low_s host_demo t = Inr True"
proof -
  have "scalars_in_range host_demo demo_signature"
    by (simp add: scalars_in_range_def demo_signature_scalars host_demo_def be_value_def)
  then show ?thesis
    using normalized_signature_low [OF host_demo_documented(2,3) demo_signature_scalars(3)] by auto
qed

end
