(* ===== verification/Spec2Isabelle.thy ===== *)
theory Spec2Isabelle
  imports Vault_Remote_Props Vault_Checks_Props Wire_Props Leg_Props Auth_Props Sim_Props Strategy_Props Auth_Adapter
begin

text \<open>
  A verification library for the SolEVM cross-chain vault.

  \<^bold>\<open>The program.\<close> Users deposit into a vault on an EVM chain and receive shares; part of the
  assets is allocated to a remote leg on Solana, which puts it into a strategy and sends it back when it
  is recalled. The repository has five Rust parts that carry this logic:

    \<^item> \<open>crates/accounting-model\<close> is the canonical model of the vault's books: requests and epochs, claims,
      prices, and the cycles in which value leaves for and returns from the remote leg;
    \<^item> \<open>crates/protocol-types\<close> is the wire format of the messages between the two chains;
    \<^item> \<open>programs/solevm-remote-leg\<close> is the Solana program that holds custody, obeys the vault's control
      messages, deploys to and withdraws from the strategy's adapter, and publishes reports;
    \<^item> \<open>programs/authorization-verifier\<close> is the Solana program that consumes signed authorizations once each:
      verdict tokens, and the approvals without which the remote leg deploys nothing;
    \<^item> \<open>crates/xchain-sim\<close> is the deterministic transport between the two ends: it carries control messages and
      asset movements between endpoints under declared faults.

  The leg decodes and encodes with the wire format, hashes with parameters of the runtime, and reads the
  receipts the verifier wrote in the same transaction; the accounting model stands for the vault at the
  other end of the messages; the simulator moves bytes of the wire format and amounts between them and knows
  nothing of what they mean.

  \<^bold>\<open>Conventions.\<close> \<open>Prelude\<close> holds them: Rust's \<open>Result\<close> is a sum with the error on the left, \<open>and_then\<close> is
  the question mark, \<open>ok_or\<close> and \<open>require\<close> are what they are in the source, and loops that may fail are
  \<open>for_each\<close>. Integers are words of their width with the checked operations of the source; sixteen, twenty
  and thirty-two byte identifiers are words that are written big-endian; texts are their bytes. A handler takes
  the state and returns the new one, and an error returns none, as a failed transaction leaves none behind.
  Every part with state has a dispatcher over a datatype of calls, a step relation and reachable states.

  \<^bold>\<open>Accounting model.\<close> \<open>Amounts\<close> (\<open>amount.rs\<close>, \<open>error.rs\<close>), \<open>Pricing\<close> (\<open>math.rs\<close>), \<open>BTree_Map\<close> (the ordered map
  of the standard library), \<open>Vault_State\<close> (\<open>request.rs\<close>, \<open>state.rs\<close>), \<open>Vault_Ops\<close> (\<open>operation.rs\<close>, \<open>transition.rs\<close>) and
  \<open>Vault_Checks\<close> (\<open>invariant.rs\<close>) are the definitions. \<open>Claim_Book\<close> states once, as a locale, what the deposit and
  the redemption side promise, and is interpreted on both; \<open>Vault_Inv\<close>, \<open>Vault_Users\<close> and \<open>Vault_Settle\<close> show that every
  operation refines a transition of the two books and keeps the accounting invariant; \<open>Vault_Inflow\<close> shows that
  assets from outside stay apart, so that all others fit one amount; \<open>Vault_Price\<close> and
  \<open>Vault_Runs\<close> treat the share price and what stays true along runs. The properties are in \<open>Vault_Props\<close>,
  \<open>Vault_Checks_Props\<close> and \<open>Vault_Remote_Props\<close>: conservation of assets and shares, payment of every claim exactly once,
  soundness of the code's own checker, prices, dust, closes and recoveries. The 256 and 512 bit integers of a
  third-party crate are a parameter of the multiplication.

  \<^bold>\<open>Wire format.\<close> \<open>Wire_Errors\<close>, \<open>Wire_Layout\<close>, \<open>Wire_Codec\<close>, \<open>Wire_Bodies\<close>, \<open>Wire_Message\<close> and \<open>Wire_Helper\<close> follow the files of
  \<open>protocol-types\<close>; \<open>Wire_Props\<close> shows that encoding and decoding are inverse on exactly the valid messages, that the
  frame is exact, and what the body hash and the identifiers bind. Hash functions are parameters.

  \<^bold>\<open>Remote leg.\<close> \<open>Leg_Base\<close> (\<open>errors.rs\<close>, \<open>events.rs\<close>), \<open>Leg_State\<close> (\<open>state.rs\<close>, \<open>control.rs\<close>, \<open>strategy.rs\<close>, \<open>custody.rs\<close>,
  \<open>transport.rs\<close>, \<open>outbound.rs\<close>), \<open>Leg_World\<close> (\<open>records.rs\<close>, \<open>adapter.rs\<close>, \<open>authorization.rs\<close>), \<open>Leg_Message\<close> (\<open>hashing.rs\<close>, \<open>message.rs\<close>,
  \<open>outbound_message.rs\<close>, \<open>remote_state.rs\<close>), and \<open>Leg_Inbound\<close>, \<open>Leg_Publish\<close>, \<open>Leg_Ops\<close>, \<open>Leg_Init\<close> (\<open>instructions/\<close>) are the
  definitions, \<open>Leg_Run\<close> the dispatcher and reachability (\<open>lib.rs\<close>). \<open>Leg_Steps\<close> and \<open>Leg_Settle\<close> say what each successful
  instruction did; \<open>Leg_Book\<close>, \<open>Leg_Inv\<close>, \<open>Leg_Effects\<close>, \<open>Leg_Chains\<close>, \<open>Leg_Ledger\<close>, \<open>Leg_Guards\<close> and \<open>Leg_Stuck\<close> build the invariants of
  the books, the two hash chained lanes and the transport ledger. \<open>Leg_Props\<close> has the properties, among them that
  custody moves only as authorized and to the exact unit and that a message is accepted once. Address
  derivation, hashes, the token program and the adapter are the record \<open>runtime\<close>, about whose functions nothing is
  assumed: the leg checks what they did, and between instructions other programs may change accounts
  that are not the leg's.

  \<^bold>\<open>Authorization verifier.\<close> \<open>Auth_Errors\<close>, \<open>Auth_State\<close>, \<open>Auth_Deployment\<close>, \<open>Auth_Base64\<close>, \<open>Auth_Jwt\<close>, \<open>Auth_Precompile\<close> and
  \<open>Auth_Program\<close> follow \<open>errors.rs\<close>, \<open>state.rs\<close>, \<open>deployment.rs\<close>, \<open>jwt.rs\<close>, \<open>precompile.rs\<close>, \<open>instructions/\<close> and \<open>lib.rs\<close>. \<open>Auth_Grammar\<close>
  and \<open>Auth_Complete\<close> give the JSON grammar of the tokens and prove, in the locales \<open>slot_visitor\<close> and \<open>complete_visitor\<close>
  interpreted on the header, request and claims readers, that exactly its documents are read.
  \<open>Auth_Inv\<close> has the locale \<open>permanent_store\<close>, of which the verifier's accounts are an instance: accounts are never
  removed, stay well formed and have an origin. \<open>Auth_Props\<close> has the properties: exactly which verdicts are consumed, that a
  nonce is spent once, and, across the two programs, that a deployment of the leg rests on an
  approval signed for exactly that deployment. That the native secp256r1 program verifies the signature in
  the instruction it is given is outside the repository and outside the statements.

  \<^bold>\<open>Around the two programs.\<close> \<open>Strategy\<close> is \<open>test-strategy/src/lib.rs\<close>, the deterministic strategy the leg deploys into:
  its four instructions, and \<open>Strategy_Props\<close> shows that its vault always covers the principal it reports and that a withdrawal is
  exact. \<open>Auth_Adapter\<close> is \<open>authorization-verifier/adapter/src/lib.rs\<close>, which makes the signature instruction on the host: what it makes of a
  token is what the verifier reads back, and signatures are normalized to their low form. SPL transfers, base64 and
  OpenSSL are parameters there, with their documented behaviour as hypotheses.

  \<^bold>\<open>Transport simulator.\<close> \<open>Sim_Types\<close> (\<open>time.rs\<close>, \<open>lane.rs\<close>, \<open>endpoint.rs\<close>, \<open>event.rs\<close>, \<open>error.rs\<close>, \<open>trace.rs\<close>, \<open>inspect.rs\<close>), \<open>Sim_Fault\<close>
  (\<open>fault.rs\<close>, \<open>queue.rs\<close>), \<open>Sim_Core\<close> (\<open>simulator.rs\<close>), \<open>Sim_Run\<close> (its loops, and \<open>operation.rs\<close>) and \<open>Sim_Hash\<close> (\<open>state_hash.rs\<close>,
  \<open>snapshot.rs\<close>) are the definitions. A method on the mutable simulator returns its result and the state it leaves, also when it
  refuses. The loops end by the measure \<open>work\<close>: an attempt uses up a pending key and makes at most the copies and
  pieces its plan declares. \<open>Sim_Steps\<close> has the step relation and reachable states, \<open>Sim_Inv\<close> what each step does to the places of an event,
  \<open>Sim_Transport\<close> the transport invariant, \<open>Sim_Events\<close> the locale \<open>event_property\<close> for what faults may do to the content of an event,
  interpreted in \<open>Sim_Transport\<close> and \<open>Sim_Content\<close> on destinations, recorded edits, amounts and provenance, and \<open>Sim_Value\<close> the
  accounting of amounts. The locale \<open>prefix_code\<close> of \<open>Sim_Hash\<close> is interpreted on every writer of the canonical bytes.
  \<open>Sim_Props\<close> has the properties: each event is in one place and delivered at most once, runs drain, refusals change nothing,
  deliveries are in order and authentic, no value appears, and the canonical bytes commit to the state.

  \<^bold>\<open>Fuel and bounds.\<close> The only loop with fuel is the one over the fields of a JSON object. Its fuel is the number of
  bytes left, every round reads some, and \<open>object_loops_end\<close> shows that the loop without fuel ends, within that many rounds and with the same result. Every other
  function is total by structural recursion or a measure. A statement about the instructions sysvar assumes fewer
  than \<open>2 ^ 16\<close> instructions, the width of the count the sysvar stores; the one about the canonical bytes of the simulator
  assumes that the lists of a state have fewer than \<open>2 ^ 32\<close> entries, the width of the counts it writes.

  \<^bold>\<open>Witnesses.\<close> \<open>Vault_Props\<close>, \<open>Leg_Demo\<close>, \<open>Auth_Demo\<close>, \<open>Sim_Demo\<close> and \<open>Strategy_Props\<close> hold small concrete runs, evaluated by simplification, on which the
  properties with hypotheses are applied.

  \<^bold>\<open>Not modelled.\<close> Rent and lamports; the cluster, its accounts database and fees; the \<open>Display\<close> texts of the simulator;
  the \<open>hostile\<close> build of the strategy, whose attacks are any adapter call in the model of the leg; the throwaway signer of the
  host adapter; \<open>crates/evm-differential\<close>, which prints test vectors; the devnet runners and end-to-end tests, which
  are RPC clients; and the Solidity contracts, whose reference the accounting model is.
\<close>

end
